(* ===== verification/Prelude.thy ===== *)
theory Prelude
  imports Main "HOL-Library.AList" "HOL-Library.Product_Lexorder"
    "HOL-Library.List_Lexorder" "HOL-Library.Char_ord" "HOL-Library.Multiset"
begin

text \<open>
  What the components share: the JavaScript operations the code uses (string trimming,
  the \<open>??\<close> and \<open>||\<close> operators, \<open>Map\<close> and \<open>Set\<close> with insertion order, stable
  \<open>toSorted\<close>), the contracts between components as locales, and the collections of
  simplification rules.

  A string is a list of characters; a character stands for one UTF-16 code unit in the range
  U+0000 to U+00FF, and white space is what \<open>String.prototype.trim\<close> and the regular
  expression class \<open>\s\<close> remove in that range. A \<open>Map\<close> is an association list in
  insertion order without repeated keys: \<open>AList.update\<close> overwrites in place or appends, as
  \<open>Map.set\<close> does. A \<open>Set\<close> is a list without repetitions in insertion order.
  Numbers are integers (time stamps in milliseconds, counters); the code never divides them.
\<close>

named_theorems js_simps \<open>string, option and map operations of the source language\<close>
named_theorems frame \<open>parts of the state that an operation does not touch\<close>
named_theorems inv_intros \<open>preservation of the state invariants\<close>

section \<open>Strings\<close>

definition js_ws :: "char \<Rightarrow> bool" where
  "js_ws c \<longleftrightarrow> c = CHR 0x09 \<or> c = CHR 0x0A \<or> c = CHR 0x0B \<or> c = CHR 0x0C \<or> c = CHR 0x0D
     \<or> c = CHR 0x20 \<or> c = CHR 0xA0"

definition js_trim :: "string \<Rightarrow> string" where
  "js_trim s = rev (dropWhile js_ws (rev (dropWhile js_ws s)))"

function collapse_ws :: "string \<Rightarrow> string" where
  "collapse_ws [] = []"
| "collapse_ws (c # cs) =
     (if js_ws c then CHR '' '' # collapse_ws (dropWhile js_ws cs) else c # collapse_ws cs)"
  by pat_completeness auto
termination
  by (relation "measure length") (auto simp: le_imp_less_Suc length_dropWhile_le)

text \<open>\<open>a ?? b\<close>, with and without a default that is itself optional.\<close>

definition nullish :: "'a option \<Rightarrow> 'a \<Rightarrow> 'a" where
  "nullish a b = (case a of None \<Rightarrow> b | Some x \<Rightarrow> x)"

definition orElse :: "'a option \<Rightarrow> 'a option \<Rightarrow> 'a option" where
  "orElse a b = (case a of None \<Rightarrow> b | Some x \<Rightarrow> Some x)"

text \<open>\<open>a || b\<close> on strings, and the truth value of an optional string and number.\<close>

definition or_str :: "string \<Rightarrow> string \<Rightarrow> string" where
  "or_str a b = (if a \<noteq> '''' then a else b)"

definition truthy :: "string option \<Rightarrow> bool" where
  "truthy s \<longleftrightarrow> (case s of None \<Rightarrow> False | Some x \<Rightarrow> x \<noteq> '''')"

definition truthy_num :: "int option \<Rightarrow> bool" where
  "truthy_num n \<longleftrightarrow> (case n of None \<Rightarrow> False | Some x \<Rightarrow> x \<noteq> 0)"

definition normalizeNullableString :: "string option \<Rightarrow> string option" where
  "normalizeNullableString v =
     (case v of None \<Rightarrow> None
      | Some s \<Rightarrow> (let trimmed = js_trim s in if trimmed \<noteq> '''' then Some trimmed else None))"

definition normalizeOptionalString :: "string option \<Rightarrow> string option" where
  "normalizeOptionalString v = orElse (normalizeNullableString v) None"

lemma nullish_simps [simp]: "nullish None b = b" "nullish (Some x) b = x"
  by (simp_all add: nullish_def)

lemma orElse_simps [simp]: "orElse None b = b" "orElse (Some x) b = Some x" "orElse a None = a"
  by (simp_all add: orElse_def split: option.splits)

lemma truthy_simps [simp]: "\<not> truthy None" "truthy (Some x) \<longleftrightarrow> x \<noteq> ''''"
  by (simp_all add: truthy_def)

lemma truthy_num_simps [simp]: "\<not> truthy_num None" "truthy_num (Some x) \<longleftrightarrow> x \<noteq> 0"
  by (simp_all add: truthy_num_def)

lemma normalizeOptionalString_None [simp]: "normalizeOptionalString None = None"
  by (simp add: normalizeOptionalString_def normalizeNullableString_def)

lemma normalizeOptionalString_Some:
  "normalizeOptionalString (Some s) = (if js_trim s = '''' then None else Some (js_trim s))"
  by (simp add: normalizeOptionalString_def normalizeNullableString_def Let_def)

lemma js_trim_Nil [simp]: "js_trim '''' = ''''"
  by (simp add: js_trim_def)

lemma hd_dropWhile_js: "dropWhile P xs \<noteq> [] \<Longrightarrow> \<not> P (hd (dropWhile P xs))"
  by (induction xs) auto

lemma dropWhile_fixed: "xs = [] \<or> \<not> P (hd xs) \<Longrightarrow> dropWhile P xs = xs"
  by (cases xs) auto

lemma dropWhile_rev_fixed:
  assumes "xs = [] \<or> \<not> P (hd xs)"
  shows "rev (dropWhile P (rev xs)) = [] \<or> \<not> P (hd (rev (dropWhile P (rev xs))))"
proof (cases "dropWhile P (rev xs) = []")
  case False
  then have "\<not> P (last xs)" if "dropWhile P (rev xs) = rev xs"
    using that hd_dropWhile_js [of P "rev xs"] by (auto simp: hd_rev)
  from False obtain ys where ys: "rev xs = ys @ dropWhile P (rev xs)"
    by (metis takeWhile_dropWhile_id)
  then have "xs = rev (dropWhile P (rev xs)) @ rev ys"
    by (metis rev_append rev_rev_ident)
  with False assms show ?thesis
    by (metis Nil_is_append_conv hd_append2 rev_is_Nil_conv)
qed simp

lemma js_trim_idem [simp]: "js_trim (js_trim s) = js_trim s"
proof -
  let ?a = "dropWhile js_ws s"
  have a: "?a = [] \<or> \<not> js_ws (hd ?a)" using hd_dropWhile_js by blast
  have "dropWhile js_ws (js_trim s) = js_trim s"
    unfolding js_trim_def
    by (rule dropWhile_fixed) (rule dropWhile_rev_fixed [of ?a js_ws, OF a])
  moreover have "dropWhile js_ws (rev (js_trim s)) = rev (js_trim s)"
    unfolding js_trim_def rev_rev_ident
    by (rule dropWhile_fixed) (use hd_dropWhile_js in blast)
  ultimately show ?thesis by (metis js_trim_def rev_rev_ident)
qed

lemma normalizeOptionalString_SomeD:
  "normalizeOptionalString v = Some k \<Longrightarrow> js_trim k = k \<and> k \<noteq> '''' \<and> v \<noteq> None"
  by (cases v) (auto simp: normalizeOptionalString_Some split: if_splits)

lemma normalizeOptionalString_idem [simp]:
  "normalizeOptionalString (normalizeOptionalString v) = normalizeOptionalString v"
  by (cases "normalizeOptionalString v")
     (auto simp: normalizeOptionalString_Some dest: normalizeOptionalString_SomeD)

lemma normalizeOptionalString_fixed:
  "k \<noteq> '''' \<Longrightarrow> js_trim k = k \<Longrightarrow> normalizeOptionalString (Some k) = Some k"
  by (simp add: normalizeOptionalString_Some)

section \<open>Maps and sets in insertion order\<close>

definition set_add :: "'a \<Rightarrow> 'a list \<Rightarrow> 'a list" where
  "set_add x xs = (if x \<in> set xs then xs else xs @ [x])"

definition set_del :: "'a \<Rightarrow> 'a list \<Rightarrow> 'a list" where
  "set_del x xs = removeAll x xs"

lemma set_set_add [simp]: "set (set_add x xs) = insert x (set xs)"
  by (auto simp: set_add_def)

lemma distinct_set_add [simp]: "distinct (set_add x xs) = distinct xs"
  by (simp add: set_add_def)

lemma set_add_not_Nil [simp]: "set_add x xs \<noteq> []"
  by (auto simp: set_add_def)

lemma set_set_del [simp]: "set (set_del x xs) = set xs - {x}"
  by (simp add: set_del_def)

lemma distinct_set_del [simp]: "distinct xs \<Longrightarrow> distinct (set_del x xs)"
  by (simp add: set_del_def distinct_removeAll)

lemmas map_update [simp] = update_conv'
lemmas map_delete [simp] = delete_conv'

lemma distinct_fst_update [simp]:
  "distinct (map fst m) \<Longrightarrow> distinct (map fst (AList.update k v m))"
  by (rule distinct_update)

lemma distinct_fst_delete [simp]:
  "distinct (map fst m) \<Longrightarrow> distinct (map fst (AList.delete k m))"
  by (simp add: delete_keys distinct_removeAll)

lemma map_of_Some_in_set:
  "distinct (map fst m) \<Longrightarrow> map_of m k = Some v \<longleftrightarrow> (k, v) \<in> set m"
  by simp

lemma set_update_distinct:
  "distinct (map fst m) \<Longrightarrow> set (AList.update k v m) = insert (k, v) {p \<in> set m. fst p \<noteq> k}"
  by (induction m) (force simp: image_iff)+

lemma set_delete: "set (AList.delete k m) = {p \<in> set m. fst p \<noteq> k}"
  by (auto simp: AList.delete_eq)

lemma update_new: "k \<notin> fst ` set m \<Longrightarrow> AList.update k v m = m @ [(k, v)]"
  by (induction m) auto

text \<open>\<open>new Map(rows.map(r => [key(r), value(r)]))\<close> for rows with distinct keys.\<close>

lemma map_of_fold_update:
  assumes "distinct (map k rs)"
  shows "map_of (fold (\<lambda>r m. AList.update (k r) (v r) m) rs m) x
    = (case map_of (map (\<lambda>r. (k r, v r)) rs) x of None \<Rightarrow> map_of m x | Some y \<Rightarrow> Some y)"
  using assms
proof (induction rs arbitrary: m)
  case (Cons r rs)
  have "x = k r \<Longrightarrow> map_of (map (\<lambda>r. (k r, v r)) rs) x = None"
    using Cons.prems by (force simp: map_of_eq_None_iff)
  with Cons show ?case by (auto split: option.splits)
qed simp

lemma distinct_fold_update:
  "distinct (map fst m) \<Longrightarrow> distinct (map fst (fold (\<lambda>r m. AList.update (k r) (v r) m) rs m))"
  by (induction rs arbitrary: m) auto

lemma map_of_set_eq:
  "distinct (map fst xs) \<Longrightarrow> distinct (map fst ys) \<Longrightarrow> set xs = set ys \<Longrightarrow> map_of xs = map_of ys"
  by (simp add: map_of_inject_set)

lemma load_rows:
  assumes rows: "distinct (map fst rows)" "\<forall>(x, r) \<in> set rows. k r = x"
  shows "map_of (fold (\<lambda>r m. AList.update (k r) (v r) m) (sort_key o_key (map snd rows)) [])
    = (\<lambda>x. map_option v (map_of rows x))"
proof -
  let ?rs = "sort_key o_key (map snd rows)"
  have keys: "map k (map snd rows) = map fst rows"
    using rows(2) by (induction rows) auto
  have "mset (map k ?rs) = mset (map k (map snd rows))"
    by (simp add: multiset.map_comp)
  then have dist: "distinct (map k ?rs)"
    using rows(1) keys by (metis distinct_map mset_eq_imp_distinct_iff)
  have "map_of (map (\<lambda>r. (k r, v r)) ?rs) = map_of (map (\<lambda>(x, r). (x, v r)) rows)"
    by (rule map_of_set_eq) (use dist rows in \<open>force simp: comp_def case_prod_beta\<close>)+
  then show ?thesis
    by (auto simp: map_of_fold_update [OF dist] fun_eq_iff map_of_map split: option.splits)
qed

section \<open>Searching, splitting and printing strings\<close>

fun starts_with :: "string \<Rightarrow> string \<Rightarrow> bool" where
  "starts_with [] s = True"
| "starts_with (p # ps) [] = False"
| "starts_with (p # ps) (c # cs) \<longleftrightarrow> p = c \<and> starts_with ps cs"

text \<open>\<open>s.indexOf(p)\<close>, with \<open>None\<close> for -1, and \<open>s.includes(p)\<close>.\<close>

fun js_index_of :: "string \<Rightarrow> string \<Rightarrow> nat option" where
  "js_index_of p [] = (if p = [] then Some 0 else None)"
| "js_index_of p (c # cs) =
     (if starts_with p (c # cs) then Some 0 else map_option Suc (js_index_of p cs))"

definition js_includes :: "string \<Rightarrow> string \<Rightarrow> bool" where
  "js_includes p s \<longleftrightarrow> js_index_of p s \<noteq> None"

fun split_on :: "char \<Rightarrow> string \<Rightarrow> string list" where
  "split_on d [] = [[]]"
| "split_on d (c # cs) =
     (if c = d then [] # split_on d cs
      else case split_on d cs of [] \<Rightarrow> [[c]] | w # ws \<Rightarrow> (c # w) # ws)"

fun join_with :: "char \<Rightarrow> string list \<Rightarrow> string" where
  "join_with d [] = []"
| "join_with d [w] = w"
| "join_with d (w # ws) = w @ [d] @ join_with d ws"

text \<open>An integer in a template literal.\<close>

fun show_nat :: "nat \<Rightarrow> string" where
  "show_nat n = (if n < 10 then [char_of (48 + n)]
     else show_nat (n div 10) @ [char_of (48 + n mod 10)])"

declare show_nat.simps [simp del]

definition show_int :: "int \<Rightarrow> string" where
  "show_int n = (if n < 0 then CHR ''-'' # show_nat (nat (- n)) else show_nat (nat n))"

lemma js_trim_nonempty: "js_trim s \<noteq> [] \<Longrightarrow> s \<noteq> []"
  by auto

lemma fold_inv: "P s \<Longrightarrow> (\<And>x s. P s \<Longrightarrow> P (f x s)) \<Longrightarrow> P (fold f xs s)"
  by (induction xs arbitrary: s) auto

section \<open>Contracts between components\<close>

text \<open>
  A secondary index files each record of a primary map under some keys; it is exact when a key
  finds exactly the identifiers of the records filed under it. The contract of \<open>add\<close> is
  enough to build an index from scratch; with the contract of \<open>del\<close> an index can follow the
  primary map through insertion, replacement and deletion.
\<close>

definition idx_exact ::
    "('i \<Rightarrow> string \<Rightarrow> string set) \<Rightarrow> ('r \<Rightarrow> string set) \<Rightarrow> (string \<Rightarrow> 'r option) \<Rightarrow> 'i \<Rightarrow> bool" where
  "idx_exact look keys m i \<longleftrightarrow> (\<forall>k. look i k = {x. \<exists>r. m x = Some r \<and> k \<in> keys r})"

locale index_build =
  fixes empty :: 'i
    and look :: "'i \<Rightarrow> string \<Rightarrow> string set"
    and wf :: "'i \<Rightarrow> bool"
    and keys :: "'r \<Rightarrow> string set"
    and add :: "string \<Rightarrow> 'r \<Rightarrow> 'i \<Rightarrow> 'i"
  assumes look_empty: "look empty k = {}"
    and wf_empty: "wf empty"
    and look_add: "wf i \<Longrightarrow> look (add x r i) k = (if k \<in> keys r then insert x (look i k) else look i k)"
    and wf_add: "wf i \<Longrightarrow> wf (add x r i)"
begin

lemma exact_insert:
  assumes "wf i" "idx_exact look keys m i" "m x = None"
  shows "idx_exact look keys (m(x \<mapsto> r)) (add x r i)"
  using assms by (auto simp: idx_exact_def look_add)

lemma exact_empty: "idx_exact look keys Map.empty empty"
  by (simp add: idx_exact_def look_empty)

lemma wf_rebuild: "wf (fold (\<lambda>(x, r) i. add x r i) m empty)"
proof -
  have "wf i \<Longrightarrow> wf (fold (\<lambda>(x, r) i. add x r i) m i)" for i
    by (induction m arbitrary: i) (auto simp: wf_add)
  then show ?thesis by (simp add: wf_empty)
qed

lemma look_rebuild_aux:
  "wf i \<Longrightarrow> look (fold (\<lambda>(x, r) i. add x r i) m i) k
     = look i k \<union> {x. \<exists>r. (x, r) \<in> set m \<and> k \<in> keys r}"
  by (induction m arbitrary: i) (auto simp: look_add wf_add split: if_splits)

lemma exact_rebuild:
  assumes "distinct (map fst m)"
  shows "idx_exact look keys (map_of m) (fold (\<lambda>(x, r) i. add x r i) m empty)"
  using assms by (auto simp: idx_exact_def look_rebuild_aux wf_empty look_empty)

end

locale index_maintain = index_build +
  fixes del :: "string \<Rightarrow> 'b \<Rightarrow> 'a \<Rightarrow> 'a"
  assumes look_del: "wf i \<Longrightarrow> look (del x r i) k = (if k \<in> keys r then look i k - {x} else look i k)"
    and wf_del: "wf i \<Longrightarrow> wf (del x r i)"
begin

lemma exact_delete:
  assumes "wf i" "idx_exact look keys m i" "m x = Some r"
  shows "idx_exact look keys (m(x := None)) (del x r i)"
  using assms by (auto simp: idx_exact_def look_del)

lemma exact_replace:
  assumes "wf i" "idx_exact look keys m i" "m x = Some r"
  shows "idx_exact look keys (m(x \<mapsto> r')) (add x r' (del x r i))"
  using assms by (auto simp: idx_exact_def look_del look_add wf_del)

lemma exact_replace_same:
  assumes "idx_exact look keys m i" "m x = Some r" "keys r' = keys r"
  shows "idx_exact look keys (m(x \<mapsto> r')) i"
  using assms by (auto simp: idx_exact_def)

end

text \<open>
  A store of versioned values with a conditional update: \<open>put s k n p\<close> changes the value at
  \<open>k\<close> by \<open>p\<close> if its version is \<open>n\<close>, and is refused otherwise. The laws are those of optimistic
  concurrency control; from them, of all the writers that have seen one version at most one
  succeeds, and versions never decrease.
\<close>

locale versioned_store =
  fixes inv :: "'s \<Rightarrow> bool"
    and get :: "'s \<Rightarrow> string \<Rightarrow> 'v option"
    and version :: "'v \<Rightarrow> int"
    and applied :: "'s \<Rightarrow> string \<Rightarrow> int \<Rightarrow> 'p \<Rightarrow> bool"
    and put :: "'s \<Rightarrow> string \<Rightarrow> int \<Rightarrow> 'p \<Rightarrow> 's"
  assumes applied_version: "inv s \<Longrightarrow> applied s k n p \<Longrightarrow> \<exists>v. get s k = Some v \<and> version v = n"
    and put_applied: "inv s \<Longrightarrow> applied s k n p \<Longrightarrow> \<exists>v. get (put s k n p) k = Some v \<and> version v = n + 1"
    and put_refused: "inv s \<Longrightarrow> \<not> applied s k n p \<Longrightarrow> put s k n p = s"
    and put_other: "inv s \<Longrightarrow> k' \<noteq> k \<Longrightarrow> get (put s k n p) k' = get s k'"
    and put_inv: "inv s \<Longrightarrow> inv (put s k n p)"
begin

lemma put_mono:
  assumes "inv s" "get s k = Some v"
  shows "\<exists>v'. get (put s k' n p) k = Some v' \<and> version v \<le> version v'"
proof (cases "applied s k' n p \<and> k' = k")
  case True
  then have "k' = k" and app: "applied s k n p" by auto
  from put_applied [OF assms(1) app] obtain v'
    where "get (put s k n p) k = Some v'" "version v' = n + 1" by blast
  moreover have "version v = n" using applied_version [OF assms(1) app] assms(2) by simp
  ultimately show ?thesis using \<open>k' = k\<close> by simp
next
  case False
  then have "get (put s k' n p) k = get s k"
    using put_other [OF assms(1), of k k'] put_refused [OF assms(1)] by metis
  then show ?thesis using assms by simp
qed

lemma run_mono:
  "inv s \<Longrightarrow> get s k = Some v \<Longrightarrow>
     \<exists>v'. get (fold (\<lambda>(k, n, p) s. put s k n p) ws s) k = Some v' \<and> version v \<le> version v'"
proof (induction ws arbitrary: s v)
  case (Cons w ws)
  obtain k' n p where w: "w = (k', n, p)" by (cases w) auto
  from put_mono [OF Cons.prems] obtain v1
    where v1: "get (put s k' n p) k = Some v1" "version v \<le> version v1" by blast
  from Cons.IH [OF put_inv [OF Cons.prems(1)] v1(1)] obtain v2
    where "get (fold (\<lambda>(k, n, p) s. put s k n p) ws (put s k' n p)) k = Some v2"
      "version v1 \<le> version v2" by blast
  with v1(2) show ?case by (intro exI [of _ v2]) (simp add: w)
qed simp

lemma run_inv: "inv s \<Longrightarrow> inv (fold (\<lambda>(k, n, p) s. put s k n p) ws s)"
  by (induction ws arbitrary: s) (auto simp: put_inv)

lemma one_winner:
  assumes "inv s" "applied s k n p"
  shows "\<not> applied (fold (\<lambda>(k, n, p) s. put s k n p) ws (put s k n p)) k n q"
proof
  let ?s = "fold (\<lambda>(k, n, p) s. put s k n p) ws (put s k n p)"
  have inv: "inv (put s k n p)" by (rule put_inv [OF assms(1)])
  assume "applied ?s k n q"
  then have "\<exists>v. get ?s k = Some v \<and> version v = n"
    by (rule applied_version [OF run_inv [OF inv]])
  moreover obtain v where "get (put s k n p) k = Some v" "version v = n + 1"
    using put_applied [OF assms] by blast
  ultimately show False
    using run_mono [OF inv, of k v ws] by auto
qed

end

end
