(* ===== verification/TaskTypes.thy ===== *)
theory TaskTypes
  imports Prelude
begin

text \<open>
  The data of the background-task subsystem (\<open>src/tasks/task-registry.types.ts\<close>,
  \<open>task-flow-registry.types.ts\<close>, \<open>utils/delivery-context.types.ts\<close>): tasks, task flows,
  delivery states, the patches that updates take, and the state of the two registries.

  Field names are the source's; a field of a task flow carries the suffix \<open>F\<close>, of a task
  patch \<open>P\<close>, of a flow patch \<open>FP\<close>, of a delivery context \<open>D\<close>. An optional property is an
  \<open>option\<close>. A patch distinguishes a property that is absent (\<open>None\<close>) from one that is
  present with the value \<open>undefined\<close> or \<open>null\<close> (\<open>Some None\<close>).
\<close>

section \<open>Delivery contexts and JSON values\<close>

datatype ThreadId = ThreadNum int | ThreadStr string

record DeliveryContext =
  channelD :: "string option"
  toD :: "string option"
  accountIdD :: "string option"
  threadIdD :: "ThreadId option"

datatype JsonValue = JNull | JBool bool | JNum int | JStr string | JArr "JsonValue list"
  | JObj "(string \<times> JsonValue) list"

section \<open>Tasks\<close>

datatype TaskRuntime = Rt_subagent | Rt_acp | Rt_cli | Rt_cron

datatype TaskStatus = St_queued | St_running | St_succeeded | St_failed | St_timed_out
  | St_cancelled | St_lost

datatype TaskDeliveryStatus = Ds_pending | Ds_delivered | Ds_session_queued | Ds_failed
  | Ds_parent_missing | Ds_not_applicable

datatype TaskNotifyPolicy = Np_done_only | Np_state_changes | Np_silent

datatype TaskTerminalOutcome = To_succeeded | To_blocked

datatype TaskScopeKind = Sk_session | Sk_system

datatype TaskEventKind = Ev_status TaskStatus | Ev_progress

record TaskEventRecord =
  atE :: int
  kindE :: TaskEventKind
  summaryE :: "string option"

record TaskDeliveryState =
  taskIdS :: string
  requesterOriginS :: "DeliveryContext option"
  lastNotifiedEventAtS :: "int option"

record TaskRecord =
  taskId :: string
  runtime :: TaskRuntime
  taskKind :: "string option"
  sourceId :: "string option"
  requesterSessionKey :: string
  ownerKey :: string
  scopeKind :: TaskScopeKind
  childSessionKey :: "string option"
  parentFlowId :: "string option"
  parentTaskId :: "string option"
  agentId :: "string option"
  runId :: "string option"
  label :: "string option"
  task :: string
  status :: TaskStatus
  deliveryStatus :: TaskDeliveryStatus
  notifyPolicy :: TaskNotifyPolicy
  createdAt :: int
  startedAt :: "int option"
  endedAt :: "int option"
  lastEventAt :: "int option"
  cleanupAfter :: "int option"
  error :: "string option"
  progressSummary :: "string option"
  terminalSummary :: "string option"
  terminalOutcome :: "TaskTerminalOutcome option"

text \<open>
  A patch: the properties some caller of \<open>updateTask\<close> sets, and the owner, child session and
  run keys, which \<open>updateTask\<close> itself compares. The identifier, the runtime, the scope, the
  requester and the creation time are never patched.
\<close>

record TaskPatch =
  taskKindP :: "string option option"
  sourceIdP :: "string option option"
  ownerKeyP :: "string option"
  childSessionKeyP :: "string option option"
  parentFlowIdP :: "string option option"
  parentTaskIdP :: "string option option"
  agentIdP :: "string option option"
  runIdP :: "string option option"
  labelP :: "string option option"
  taskP :: "string option"
  statusP :: "TaskStatus option"
  deliveryStatusP :: "TaskDeliveryStatus option"
  notifyPolicyP :: "TaskNotifyPolicy option"
  startedAtP :: "int option option"
  endedAtP :: "int option option"
  lastEventAtP :: "int option option"
  cleanupAfterP :: "int option option"
  errorP :: "string option option"
  progressSummaryP :: "string option option"
  terminalSummaryP :: "string option option"
  terminalOutcomeP :: "TaskTerminalOutcome option option"

definition empty_patch :: TaskPatch where
  "empty_patch = \<lparr>taskKindP = None, sourceIdP = None, ownerKeyP = None, childSessionKeyP = None,
     parentFlowIdP = None, parentTaskIdP = None, agentIdP = None, runIdP = None, labelP = None,
     taskP = None, statusP = None, deliveryStatusP = None, notifyPolicyP = None, startedAtP = None,
     endedAtP = None, lastEventAtP = None, cleanupAfterP = None, errorP = None,
     progressSummaryP = None, terminalSummaryP = None, terminalOutcomeP = None\<rparr>"

text \<open>\<open>{ ...current, ...patch }\<close>\<close>

definition apply_patch :: "TaskPatch \<Rightarrow> TaskRecord \<Rightarrow> TaskRecord" where
  "apply_patch p t = t\<lparr>
     taskKind := nullish (taskKindP p) (taskKind t),
     sourceId := nullish (sourceIdP p) (sourceId t),
     ownerKey := nullish (ownerKeyP p) (ownerKey t),
     childSessionKey := nullish (childSessionKeyP p) (childSessionKey t),
     parentFlowId := nullish (parentFlowIdP p) (parentFlowId t),
     parentTaskId := nullish (parentTaskIdP p) (parentTaskId t),
     agentId := nullish (agentIdP p) (agentId t),
     runId := nullish (runIdP p) (runId t),
     label := nullish (labelP p) (label t),
     task := nullish (taskP p) (task t),
     status := nullish (statusP p) (status t),
     deliveryStatus := nullish (deliveryStatusP p) (deliveryStatus t),
     notifyPolicy := nullish (notifyPolicyP p) (notifyPolicy t),
     startedAt := nullish (startedAtP p) (startedAt t),
     endedAt := nullish (endedAtP p) (endedAt t),
     lastEventAt := nullish (lastEventAtP p) (lastEventAt t),
     cleanupAfter := nullish (cleanupAfterP p) (cleanupAfter t),
     error := nullish (errorP p) (error t),
     progressSummary := nullish (progressSummaryP p) (progressSummary t),
     terminalSummary := nullish (terminalSummaryP p) (terminalSummary t),
     terminalOutcome := nullish (terminalOutcomeP p) (terminalOutcome t)\<rparr>"

section \<open>Task flows\<close>

datatype TaskFlowSyncMode = Sm_task_mirrored | Sm_managed

datatype TaskFlowStatus = Fs_queued | Fs_running | Fs_waiting | Fs_blocked | Fs_succeeded
  | Fs_failed | Fs_cancelled | Fs_lost

record TaskFlowRecord =
  flowIdF :: string
  syncModeF :: TaskFlowSyncMode
  ownerKeyF :: string
  requesterOriginF :: "DeliveryContext option"
  controllerIdF :: "string option"
  revisionF :: int
  statusF :: TaskFlowStatus
  notifyPolicyF :: TaskNotifyPolicy
  goalF :: string
  currentStepF :: "string option"
  blockedTaskIdF :: "string option"
  blockedSummaryF :: "string option"
  stateJsonF :: "JsonValue option"
  waitJsonF :: "JsonValue option"
  cancelRequestedAtF :: "int option"
  createdAtF :: int
  updatedAtF :: int
  endedAtF :: "int option"

section \<open>Errors\<close>

datatype ParentFlowLinkErrorCode = scope_kind_not_session | parent_flow_not_found
  | owner_key_mismatch | cancel_requested | terminal

datatype TaskError =
    FlowOwnerKeyRequired
  | FlowControllerIdRequired
  | TaskOwnerKeyRequired
  | ParentFlowLinkError ParentFlowLinkErrorCode string "TaskFlowStatus option"

section \<open>The environment of one handler\<close>

text \<open>
  What a handler reads from outside the subsystem: the clock (\<open>Date.now()\<close>, one value for the
  synchronous part of a handler), the channel registry (\<open>utils/message-channel.ts\<close>), the
  sanitiser of user-facing text (\<open>sanitizeUserFacingText\<close> of
  \<open>agents/pi-embedded-helpers\<close>), the one-character string U+2026 (outside the range of
  \<open>char\<close>), and whether queueing a system event throws. All theorems hold for every choice
  of these.
\<close>

record Env =
  date_now :: int
  normalizeMessageChannel :: "string \<Rightarrow> string option"
  isDeliverableMessageChannel :: "string \<Rightarrow> bool"
  sanitizeUserFacingText :: "string \<Rightarrow> bool \<Rightarrow> string"
  ellipsis :: string
  system_event_throws :: bool

definition default_env :: "int \<Rightarrow> Env" where
  "default_env n = \<lparr>date_now = n, normalizeMessageChannel = (\<lambda>c. normalizeOptionalString (Some c)),
     isDeliverableMessageChannel = (\<lambda>c. c = ''telegram''),
     sanitizeUserFacingText = (\<lambda>s _. s), ellipsis = ''~'',
     system_event_throws = False\<rparr>"

section \<open>Status predicates\<close>

definition isActiveTaskStatus :: "TaskStatus \<Rightarrow> bool" where
  "isActiveTaskStatus s \<longleftrightarrow> s = St_queued \<or> s = St_running"

definition isTerminalTaskStatus :: "TaskStatus \<Rightarrow> bool" where
  "isTerminalTaskStatus s \<longleftrightarrow> s = St_succeeded \<or> s = St_failed \<or> s = St_timed_out
     \<or> s = St_cancelled \<or> s = St_lost"

definition isTerminalFlowStatus :: "TaskFlowStatus \<Rightarrow> bool" where
  "isTerminalFlowStatus s \<longleftrightarrow> s = Fs_succeeded \<or> s = Fs_failed \<or> s = Fs_cancelled \<or> s = Fs_lost"

lemma terminal_iff_not_active: "isTerminalTaskStatus s \<longleftrightarrow> \<not> isActiveTaskStatus s"
  by (cases s) (auto simp: isActiveTaskStatus_def isTerminalTaskStatus_def)

lemma apply_empty_patch [simp]: "apply_patch empty_patch t = t"
  by (simp add: apply_patch_def empty_patch_def)

lemma apply_patch_sel [simp]:
  "taskId (apply_patch p t) = taskId t"
  "runtime (apply_patch p t) = runtime t"
  "requesterSessionKey (apply_patch p t) = requesterSessionKey t"
  "scopeKind (apply_patch p t) = scopeKind t"
  "createdAt (apply_patch p t) = createdAt t"
  "ownerKey (apply_patch p t) = nullish (ownerKeyP p) (ownerKey t)"
  "childSessionKey (apply_patch p t) = nullish (childSessionKeyP p) (childSessionKey t)"
  "parentFlowId (apply_patch p t) = nullish (parentFlowIdP p) (parentFlowId t)"
  "runId (apply_patch p t) = nullish (runIdP p) (runId t)"
  "status (apply_patch p t) = nullish (statusP p) (status t)"
  "deliveryStatus (apply_patch p t) = nullish (deliveryStatusP p) (deliveryStatus t)"
  "notifyPolicy (apply_patch p t) = nullish (notifyPolicyP p) (notifyPolicy t)"
  "startedAt (apply_patch p t) = nullish (startedAtP p) (startedAt t)"
  "endedAt (apply_patch p t) = nullish (endedAtP p) (endedAt t)"
  "lastEventAt (apply_patch p t) = nullish (lastEventAtP p) (lastEventAt t)"
  "cleanupAfter (apply_patch p t) = nullish (cleanupAfterP p) (cleanupAfter t)"
  "terminalOutcome (apply_patch p t) = nullish (terminalOutcomeP p) (terminalOutcome t)"
  "error (apply_patch p t) = nullish (errorP p) (error t)"
  "label (apply_patch p t) = nullish (labelP p) (label t)"
  "task (apply_patch p t) = nullish (taskP p) (task t)"
  by (simp_all add: apply_patch_def)

lemma empty_patch_sel [simp]:
  "taskKindP empty_patch = None" "sourceIdP empty_patch = None" "ownerKeyP empty_patch = None"
  "childSessionKeyP empty_patch = None" "parentFlowIdP empty_patch = None"
  "parentTaskIdP empty_patch = None" "agentIdP empty_patch = None" "runIdP empty_patch = None"
  "labelP empty_patch = None" "taskP empty_patch = None" "statusP empty_patch = None"
  "deliveryStatusP empty_patch = None" "notifyPolicyP empty_patch = None"
  "startedAtP empty_patch = None" "endedAtP empty_patch = None" "lastEventAtP empty_patch = None"
  "cleanupAfterP empty_patch = None" "errorP empty_patch = None"
  "progressSummaryP empty_patch = None" "terminalSummaryP empty_patch = None"
  "terminalOutcomeP empty_patch = None"
  by (simp_all add: empty_patch_def)

end
