(* ===== verification/DeliveryContexts.thy ===== *)
theory DeliveryContexts
  imports TaskTypes
begin

text \<open>
  Where a task's messages go: \<open>src/utils/delivery-context.shared.ts\<close> and the account
  identifiers of \<open>src/routing/account-id.ts\<close>. The memo tables of that file only cache the
  result of the pure function, so they are not modelled.
\<close>

section \<open>Lower case\<close>

text \<open>
  \<open>toLowerCase\<close> on U+0000 to U+00FF: the ASCII letters and the Latin-1 capitals, U+00D7
  (the multiplication sign) excepted.
\<close>

definition js_lower_char :: "char \<Rightarrow> char" where
  "js_lower_char c =
     (let n = (of_char c :: nat)
      in if 65 \<le> n \<and> n \<le> 90 \<or> 192 \<le> n \<and> n \<le> 222 \<and> n \<noteq> 215 then char_of (n + 32) else c)"

definition js_lower :: "string \<Rightarrow> string" where
  "js_lower s = map js_lower_char s"

definition normalizeOptionalLowercaseString :: "string option \<Rightarrow> string option" where
  "normalizeOptionalLowercaseString v = map_option js_lower (normalizeOptionalString v)"

definition normalizeLowercaseStringOrEmpty :: "string option \<Rightarrow> string" where
  "normalizeLowercaseStringOrEmpty v = nullish (normalizeOptionalLowercaseString v) ''''"

section \<open>Account identifiers\<close>

definition ascii_digit :: "char \<Rightarrow> bool" where
  "ascii_digit c \<longleftrightarrow> (let n = (of_char c :: nat) in 48 \<le> n \<and> n \<le> 57)"

definition ascii_lower :: "char \<Rightarrow> bool" where
  "ascii_lower c \<longleftrightarrow> (let n = (of_char c :: nat) in 97 \<le> n \<and> n \<le> 122)"

definition ascii_upper :: "char \<Rightarrow> bool" where
  "ascii_upper c \<longleftrightarrow> (let n = (of_char c :: nat) in 65 \<le> n \<and> n \<le> 90)"

definition id_char :: "char \<Rightarrow> bool" where
  "id_char c \<longleftrightarrow> ascii_lower c \<or> ascii_digit c \<or> c = CHR ''_'' \<or> c = CHR ''-''"

text \<open>\<open>VALID_ID_RE = /^[a-z0-9][a-z0-9_-]{0,63}$/i\<close>\<close>

definition VALID_ID_RE :: "string \<Rightarrow> bool" where
  "VALID_ID_RE s =
     (case s of [] \<Rightarrow> False
      | c # cs \<Rightarrow> (ascii_lower c \<or> ascii_upper c \<or> ascii_digit c)
          \<and> list_all (\<lambda>d. id_char d \<or> ascii_upper d) cs \<and> length cs \<le> 63)"

text \<open>\<open>replace(/[^a-z0-9_-]+/g, "-")\<close>\<close>

function replace_invalid :: "string \<Rightarrow> string" where
  "replace_invalid [] = []"
| "replace_invalid (c # cs) =
     (if id_char c then c # replace_invalid cs
      else CHR ''-'' # replace_invalid (dropWhile (\<lambda>d. \<not> id_char d) cs))"
  by pat_completeness auto
termination
  by (relation "measure length") (auto simp: le_imp_less_Suc length_dropWhile_le)

definition strip_leading_dash :: "string \<Rightarrow> string" where
  "strip_leading_dash s = dropWhile (\<lambda>c. c = CHR ''-'') s"

definition strip_trailing_dash :: "string \<Rightarrow> string" where
  "strip_trailing_dash s = rev (dropWhile (\<lambda>c. c = CHR ''-'') (rev s))"

definition canonicalizeAccountId :: "string \<Rightarrow> string" where
  "canonicalizeAccountId value =
     (let normalized = normalizeLowercaseStringOrEmpty (Some value)
      in if VALID_ID_RE value then normalized
         else take 64 (strip_trailing_dash (strip_leading_dash (replace_invalid normalized))))"

definition isBlockedObjectKey :: "string \<Rightarrow> bool" where
  "isBlockedObjectKey key \<longleftrightarrow> key \<in> {''__proto__'', ''prototype'', ''constructor''}"

definition normalizeCanonicalAccountId :: "string \<Rightarrow> string option" where
  "normalizeCanonicalAccountId value =
     (let canonical = canonicalizeAccountId value
      in if canonical = '''' \<or> isBlockedObjectKey canonical then None else Some canonical)"

definition normalizeOptionalAccountId :: "string option \<Rightarrow> string option" where
  "normalizeOptionalAccountId value =
     (let trimmed = js_trim (nullish value '''')
      in if trimmed = '''' then None else normalizeCanonicalAccountId trimmed)"

definition normalizeAccountId :: "string option \<Rightarrow> string" where
  "normalizeAccountId value =
     (let trimmed = js_trim (nullish value '''')
      in if trimmed = '''' then ''default''
         else nullish (normalizeCanonicalAccountId trimmed) ''default'')"

section \<open>Delivery contexts\<close>

definition normalizeDeliveryContext :: "Env \<Rightarrow> DeliveryContext option \<Rightarrow> DeliveryContext option" where
  "normalizeDeliveryContext env context =
     (case context of None \<Rightarrow> None
      | Some cx \<Rightarrow>
         (let channel = (case channelD cx of None \<Rightarrow> None
                | Some c \<Rightarrow> Some (nullish (normalizeMessageChannel env c) (js_trim c)));
              to = normalizeOptionalString (toD cx);
              account = normalizeOptionalAccountId (accountIdD cx);
              thread = (case threadIdD cx of None \<Rightarrow> None
                | Some (ThreadNum n) \<Rightarrow> Some (ThreadNum n)
                | Some (ThreadStr s) \<Rightarrow> map_option ThreadStr (normalizeOptionalString (Some s)))
          in if \<not> truthy channel \<and> \<not> truthy to \<and> \<not> truthy account \<and> thread = None then None
             else Some \<lparr>channelD = (if truthy channel then channel else None),
                        toD = (if truthy to then to else None),
                        accountIdD = account, threadIdD = thread\<rparr>))"

section \<open>Properties\<close>

lemma of_char_js_lower_upper: "ascii_upper c \<Longrightarrow> ascii_lower (js_lower_char c)"
  by (auto simp: ascii_upper_def ascii_lower_def js_lower_char_def Let_def)

lemma js_lower_char_id: "id_char c \<Longrightarrow> js_lower_char c = c"
  by (auto simp: id_char_def ascii_lower_def ascii_digit_def js_lower_char_def Let_def)

lemma id_char_lower: "id_char c \<or> ascii_upper c \<Longrightarrow> id_char (js_lower_char c)"
proof (elim disjE)
  assume "id_char c"
  then show ?thesis by (simp add: js_lower_char_id)
next
  assume "ascii_upper c"
  then have "ascii_lower (js_lower_char c)" by (rule of_char_js_lower_upper)
  then show ?thesis by (simp add: id_char_def)
qed

lemma set_js_trim: "set (js_trim s) \<subseteq> set s"
  by (auto simp: js_trim_def dest!: set_dropWhileD)

lemma length_js_trim: "length (js_trim s) \<le> length s"
  unfolding js_trim_def by (metis le_trans length_dropWhile_le length_rev)

lemma replace_invalid_chars: "list_all id_char (replace_invalid s)"
  by (induction s rule: replace_invalid.induct) (auto simp: id_char_def)

lemma normalizeLowercase_chars:
  assumes "list_all (\<lambda>c. id_char c \<or> ascii_upper c) s"
  shows "list_all id_char (normalizeLowercaseStringOrEmpty (Some s))"
proof -
  have "c \<in> set (js_trim s) \<Longrightarrow> id_char (js_lower_char c)" for c
    using assms set_js_trim id_char_lower by (auto simp: list_all_iff)
  then show ?thesis
    by (auto simp: normalizeLowercaseStringOrEmpty_def normalizeOptionalLowercaseString_def
        normalizeOptionalString_Some js_lower_def list_all_iff)
qed

lemma normalizeLowercase_length: "length (normalizeLowercaseStringOrEmpty (Some s)) \<le> length s"
  by (simp add: normalizeLowercaseStringOrEmpty_def normalizeOptionalLowercaseString_def
      normalizeOptionalString_Some js_lower_def length_js_trim)

lemma VALID_ID_RE_chars: "VALID_ID_RE s \<Longrightarrow> list_all (\<lambda>c. id_char c \<or> ascii_upper c) s \<and> length s \<le> 64"
  by (auto simp: VALID_ID_RE_def id_char_def split: list.splits)

lemma list_all_dropWhile: "list_all P xs \<Longrightarrow> list_all P (dropWhile Q xs)"
  by (auto simp: list_all_iff dest: set_dropWhileD)

lemma canonicalizeAccountId_shape:
  "list_all id_char (canonicalizeAccountId v) \<and> length (canonicalizeAccountId v) \<le> 64"
proof (cases "VALID_ID_RE v")
  case True
  then show ?thesis
    using VALID_ID_RE_chars [OF True] normalizeLowercase_chars [of v] normalizeLowercase_length [of v]
    by (simp add: canonicalizeAccountId_def)
next
  case False
  then show ?thesis
    using replace_invalid_chars [of "normalizeLowercaseStringOrEmpty (Some v)"]
    by (auto simp: canonicalizeAccountId_def strip_leading_dash_def strip_trailing_dash_def
        list_all_iff dest!: in_set_takeD set_dropWhileD)
qed

lemma normalizeOptionalAccountId_shape:
  "normalizeOptionalAccountId v = Some a \<Longrightarrow>
     a \<noteq> '''' \<and> length a \<le> 64 \<and> list_all id_char a \<and> \<not> isBlockedObjectKey a"
  using canonicalizeAccountId_shape
  by (auto simp: normalizeOptionalAccountId_def normalizeCanonicalAccountId_def Let_def
      split: if_splits)

text \<open>A normalised context has at least one field and no empty one.\<close>

definition context_wf :: "DeliveryContext \<Rightarrow> bool" where
  "context_wf c \<longleftrightarrow> channelD c \<noteq> Some '''' \<and> toD c \<noteq> Some '''' \<and> accountIdD c \<noteq> Some ''''
     \<and> threadIdD c \<noteq> Some (ThreadStr '''')
     \<and> (channelD c \<noteq> None \<or> toD c \<noteq> None \<or> accountIdD c \<noteq> None \<or> threadIdD c \<noteq> None)"

lemma normalizeDeliveryContext_None [simp]: "normalizeDeliveryContext env None = None"
  by (simp add: normalizeDeliveryContext_def)

lemma truthy_Some_iff: "truthy v \<longleftrightarrow> (\<exists>x. v = Some x \<and> x \<noteq> '''')"
  by (cases v) auto

lemma normalizeDeliveryContext_wf:
  "normalizeDeliveryContext env cx = Some c \<Longrightarrow> context_wf c"
  by (auto simp: normalizeDeliveryContext_def context_wf_def Let_def truthy_Some_iff
      dest: normalizeOptionalString_SomeD normalizeOptionalAccountId_shape
      split: option.splits if_splits ThreadId.splits)

end
