(* ===== verification/FlowStore.thy ===== *)
theory FlowStore
  imports DeliveryContexts
begin

text \<open>
  The SQLite table of task flows (\<open>src/tasks/task-flow-registry.store.sqlite.ts\<close>): a row per
  flow, keyed by the flow identifier, and the conversion between rows and records. A JSON column
  is represented by the value its text encodes (\<open>JSON.parse\<close> after \<open>JSON.stringify\<close> gives
  back plain data); a column that is \<open>NULL\<close> is \<open>None\<close>. The legacy column \<open>shape\<close> is read,
  and kept by an upsert of an existing row, but never written.
\<close>

record FlowRow =
  flow_id :: string
  sync_mode :: "TaskFlowSyncMode option"
  shape :: "string option"
  flow_owner_key :: string
  flow_requester_origin_json :: "DeliveryContext option"
  controller_id :: "string option"
  revision :: "int option"
  flow_status :: TaskFlowStatus
  flow_notify_policy :: TaskNotifyPolicy
  goal :: string
  current_step :: "string option"
  blocked_task_id :: "string option"
  blocked_summary :: "string option"
  state_json :: "JsonValue option"
  wait_json :: "JsonValue option"
  cancel_requested_at :: "int option"
  flow_created_at :: int
  updated_at :: int
  flow_ended_at :: "int option"

text \<open>\<open>...(column ? { field: column } : {})\<close>: an empty text column gives no field.\<close>

definition text_column :: "string option \<Rightarrow> string option" where
  "text_column c = (if truthy c then c else None)"

definition rowToSyncMode :: "FlowRow \<Rightarrow> TaskFlowSyncMode" where
  "rowToSyncMode row =
     (case sync_mode row of Some m \<Rightarrow> m
      | None \<Rightarrow> if shape row = Some ''single_task'' then Sm_task_mirrored else Sm_managed)"

definition rowToFlowRecord :: "FlowRow \<Rightarrow> TaskFlowRecord" where
  "rowToFlowRecord row = \<lparr>
     flowIdF = flow_id row,
     syncModeF = rowToSyncMode row,
     ownerKeyF = flow_owner_key row,
     requesterOriginF = flow_requester_origin_json row,
     controllerIdF = text_column (controller_id row),
     revisionF = nullish (revision row) 0,
     statusF = flow_status row,
     notifyPolicyF = flow_notify_policy row,
     goalF = goal row,
     currentStepF = text_column (current_step row),
     blockedTaskIdF = text_column (blocked_task_id row),
     blockedSummaryF = text_column (blocked_summary row),
     stateJsonF = state_json row,
     waitJsonF = wait_json row,
     cancelRequestedAtF = cancel_requested_at row,
     createdAtF = flow_created_at row,
     updatedAtF = updated_at row,
     endedAtF = flow_ended_at row\<rparr>"

text \<open>The bound parameters of the upsert; \<open>shape\<close> is not among them.\<close>

definition bindFlowRecord :: "string option \<Rightarrow> TaskFlowRecord \<Rightarrow> FlowRow" where
  "bindFlowRecord old_shape f = \<lparr>
     flow_id = flowIdF f,
     sync_mode = Some (syncModeF f),
     shape = old_shape,
     flow_owner_key = ownerKeyF f,
     flow_requester_origin_json = requesterOriginF f,
     controller_id = controllerIdF f,
     revision = Some (revisionF f),
     flow_status = statusF f,
     flow_notify_policy = notifyPolicyF f,
     goal = goalF f,
     current_step = currentStepF f,
     blocked_task_id = blockedTaskIdF f,
     blocked_summary = blockedSummaryF f,
     state_json = stateJsonF f,
     wait_json = waitJsonF f,
     cancel_requested_at = cancelRequestedAtF f,
     flow_created_at = createdAtF f,
     updated_at = updatedAtF f,
     flow_ended_at = endedAtF f\<rparr>"

type_synonym FlowTable = "(string \<times> FlowRow) list"

definition upsertTaskFlowRegistryRecordToSqlite :: "TaskFlowRecord \<Rightarrow> FlowTable \<Rightarrow> FlowTable" where
  "upsertTaskFlowRegistryRecordToSqlite f rows =
     (let old_shape = (case map_of rows (flowIdF f) of None \<Rightarrow> None | Some r \<Rightarrow> shape r)
      in AList.update (flowIdF f) (bindFlowRecord old_shape f) rows)"

definition deleteTaskFlowRegistryRecordFromSqlite :: "string \<Rightarrow> FlowTable \<Rightarrow> FlowTable" where
  "deleteTaskFlowRegistryRecordFromSqlite fid rows = AList.delete fid rows"

definition saveTaskFlowRegistryStateToSqlite ::
    "(string \<times> TaskFlowRecord) list \<Rightarrow> FlowTable \<Rightarrow> FlowTable" where
  "saveTaskFlowRegistryStateToSqlite snapshot rows =
     fold (\<lambda>(k, f) rs. upsertTaskFlowRegistryRecordToSqlite f rs) snapshot []"

text \<open>\<open>SELECT ... ORDER BY created_at ASC, flow_id ASC\<close>, then \<open>new Map(rows.map(...))\<close>.\<close>

definition loadTaskFlowRegistryStateFromSqlite :: "FlowTable \<Rightarrow> (string \<times> TaskFlowRecord) list" where
  "loadTaskFlowRegistryStateFromSqlite rows =
     (let sorted_rows = sort_key (\<lambda>r. (flow_created_at r, flow_id r)) (map snd rows)
      in fold (\<lambda>r m. AList.update (flow_id r) (rowToFlowRecord r) m) sorted_rows [])"

text \<open>The optional texts of a stored record are absent or not empty.\<close>

definition flow_storable :: "TaskFlowRecord \<Rightarrow> bool" where
  "flow_storable f \<longleftrightarrow> controllerIdF f \<noteq> Some '''' \<and> currentStepF f \<noteq> Some ''''
     \<and> blockedTaskIdF f \<noteq> Some '''' \<and> blockedSummaryF f \<noteq> Some ''''"

lemma text_column_nonempty [simp]: "c \<noteq> Some '''' \<Longrightarrow> text_column c = c"
  by (cases c) (auto simp: text_column_def)

lemma flow_row_roundtrip: "flow_storable f \<Longrightarrow> rowToFlowRecord (bindFlowRecord sh f) = f"
  by (cases f) (simp add: flow_storable_def bindFlowRecord_def rowToFlowRecord_def rowToSyncMode_def)

text \<open>A table mirrors a map of records: the rows decode to the records, key by key.\<close>

definition flow_mirror :: "(string \<times> TaskFlowRecord) list \<Rightarrow> FlowTable \<Rightarrow> bool" where
  "flow_mirror m rows \<longleftrightarrow> distinct (map fst rows) \<and> (\<forall>(k, r) \<in> set rows. flow_id r = k)
     \<and> (\<forall>k. map_option rowToFlowRecord (map_of rows k) = map_of m k)"

lemma upsert_mirror:
  assumes "flow_mirror m rows" "flow_storable f"
  shows "flow_mirror (AList.update (flowIdF f) f m) (upsertTaskFlowRegistryRecordToSqlite f rows)"
proof -
  have "flow_id (bindFlowRecord sh f) = flowIdF f" for sh by (simp add: bindFlowRecord_def)
  with assms show ?thesis
    by (auto simp: flow_mirror_def upsertTaskFlowRegistryRecordToSqlite_def Let_def
        flow_row_roundtrip set_update_distinct)
qed

lemma load_mirror:
  assumes "flow_mirror m rows"
  shows "map_of (loadTaskFlowRegistryStateFromSqlite rows) = map_of m"
  using assms load_rows [of rows flow_id rowToFlowRecord "\<lambda>r. (flow_created_at r, flow_id r)"]
  by (simp add: flow_mirror_def loadTaskFlowRegistryStateFromSqlite_def fun_eq_iff)

lemma delete_mirror:
  "flow_mirror m rows \<Longrightarrow>
     flow_mirror (AList.delete k m) (deleteTaskFlowRegistryRecordFromSqlite k rows)"
  by (auto simp: flow_mirror_def deleteTaskFlowRegistryRecordFromSqlite_def set_delete)

end
