(* ===== verification/TaskFlowRegistry.thy ===== *)
theory TaskFlowRegistry
  imports FlowStore
begin

text \<open>
  The registry of task flows (\<open>src/tasks/task-flow-registry.ts\<close>): an in-memory map of flow
  records, written through to the SQLite table. Every write goes through \<open>writeFlowRecord\<close>;
  the public updates are conditional on the revision the caller has seen. Cloning of records is
  the identity here (records are values), and the observers are best effort and not modelled.
  An operation that may throw returns the error in a sum, with the state it leaves behind.
\<close>

record FlowReg =
  flows :: "(string \<times> TaskFlowRecord) list"
  flowRows :: FlowTable
  flowsRestoreAttempted :: bool
  restoreFailure :: "TaskError option"

record FlowRecordPatch =
  statusFP :: "TaskFlowStatus option"
  notifyPolicyFP :: "TaskNotifyPolicy option"
  goalFP :: "string option"
  currentStepFP :: "string option option"
  blockedTaskIdFP :: "string option option"
  blockedSummaryFP :: "string option option"
  controllerIdFP :: "string option option"
  stateJsonFP :: "JsonValue option"
  waitJsonFP :: "JsonValue option"
  cancelRequestedAtFP :: "int option option"
  updatedAtFP :: "int option"
  endedAtFP :: "int option option"

definition empty_flow_patch :: FlowRecordPatch where
  "empty_flow_patch = \<lparr>statusFP = None, notifyPolicyFP = None, goalFP = None, currentStepFP = None,
     blockedTaskIdFP = None, blockedSummaryFP = None, controllerIdFP = None, stateJsonFP = None,
     waitJsonFP = None, cancelRequestedAtFP = None, updatedAtFP = None, endedAtFP = None\<rparr>"

text \<open>\<open>null\<close> and \<open>undefined\<close> mean the same to the creation parameters other than the JSON ones.\<close>

record CreateFlowRecordParams =
  syncModeC :: "TaskFlowSyncMode option"
  ownerKeyC :: string
  requesterOriginC :: "DeliveryContext option"
  controllerIdC :: "string option"
  revisionC :: "int option"
  statusC :: "TaskFlowStatus option"
  notifyPolicyC :: "TaskNotifyPolicy option"
  goalC :: string
  currentStepC :: "string option"
  blockedTaskIdC :: "string option"
  blockedSummaryC :: "string option"
  stateJsonC :: "JsonValue option"
  waitJsonC :: "JsonValue option"
  cancelRequestedAtC :: "int option"
  createdAtC :: "int option"
  updatedAtC :: "int option"
  endedAtC :: "int option"

datatype TaskFlowUpdateResult =
    FlowApplied TaskFlowRecord
  | FlowNotFound
  | FlowRevisionConflict TaskFlowRecord

section \<open>Records\<close>

definition assertFlowOwnerKey :: "string \<Rightarrow> TaskError + string" where
  "assertFlowOwnerKey key =
     (case normalizeOptionalString (Some key) of None \<Rightarrow> Inl FlowOwnerKeyRequired | Some k \<Rightarrow> Inr k)"

definition assertControllerId :: "string option \<Rightarrow> TaskError + string" where
  "assertControllerId cid =
     (case normalizeOptionalString cid of None \<Rightarrow> Inl FlowControllerIdRequired | Some k \<Rightarrow> Inr k)"

definition normalizeRestoredFlowRecord :: "TaskFlowRecord \<Rightarrow> TaskError + TaskFlowRecord" where
  "normalizeRestoredFlowRecord f =
     (let syncMode = (if syncModeF f = Sm_task_mirrored then Sm_task_mirrored else Sm_managed);
          controller = (if syncMode = Sm_managed
             then Some (nullish (normalizeOptionalString (controllerIdF f)) ''core/legacy-restored'')
             else None)
      in case assertFlowOwnerKey (ownerKeyF f) of Inl e \<Rightarrow> Inl e
         | Inr owner \<Rightarrow> Inr (f\<lparr>
             syncModeF := syncMode,
             ownerKeyF := owner,
             controllerIdF := (if truthy controller then controller else controllerIdF f),
             currentStepF := normalizeOptionalString (currentStepF f),
             blockedTaskIdF := normalizeOptionalString (blockedTaskIdF f),
             blockedSummaryF := normalizeOptionalString (blockedSummaryF f),
             revisionF := max 0 (revisionF f)\<rparr>))"

definition ensureFlowNotifyPolicy :: "TaskNotifyPolicy option \<Rightarrow> TaskNotifyPolicy" where
  "ensureFlowNotifyPolicy p = nullish p Np_done_only"

definition resolveFlowBlockedSummary :: "TaskRecord \<Rightarrow> string option" where
  "resolveFlowBlockedSummary t =
     (if status t \<noteq> St_succeeded \<or> terminalOutcome t \<noteq> Some To_blocked then None
      else orElse (normalizeOptionalString (terminalSummary t))
                  (normalizeOptionalString (progressSummary t)))"

definition deriveTaskFlowStatusFromTask :: "TaskRecord \<Rightarrow> TaskFlowStatus" where
  "deriveTaskFlowStatusFromTask t =
     (if status t = St_queued then Fs_queued
      else if status t = St_running then Fs_running
      else if status t = St_succeeded then
        (if terminalOutcome t = Some To_blocked then Fs_blocked else Fs_succeeded)
      else if status t = St_cancelled then Fs_cancelled
      else if status t = St_lost then Fs_lost
      else Fs_failed)"

definition buildFlowRecord :: "Env \<Rightarrow> string \<Rightarrow> CreateFlowRecordParams \<Rightarrow> TaskError + TaskFlowRecord" where
  "buildFlowRecord env uuid p =
     (let now = nullish (createdAtC p) (date_now env);
          syncMode = nullish (syncModeC p) Sm_managed
      in case (if syncMode = Sm_managed then map_sum id Some (assertControllerId (controllerIdC p))
               else Inr None) of
           Inl e \<Rightarrow> Inl e
         | Inr controller \<Rightarrow>
           (case assertFlowOwnerKey (ownerKeyC p) of Inl e \<Rightarrow> Inl e
            | Inr owner \<Rightarrow> Inr \<lparr>
                flowIdF = uuid,
                syncModeF = syncMode,
                ownerKeyF = owner,
                requesterOriginF = requesterOriginC p,
                controllerIdF = controller,
                revisionF = max 0 (nullish (revisionC p) 0),
                statusF = nullish (statusC p) Fs_queued,
                notifyPolicyF = ensureFlowNotifyPolicy (notifyPolicyC p),
                goalF = goalC p,
                currentStepF = normalizeOptionalString (currentStepC p),
                blockedTaskIdF = normalizeOptionalString (blockedTaskIdC p),
                blockedSummaryF = normalizeOptionalString (blockedSummaryC p),
                stateJsonF = stateJsonC p,
                waitJsonF = waitJsonC p,
                cancelRequestedAtF = cancelRequestedAtC p,
                createdAtF = now,
                updatedAtF = nullish (updatedAtC p) now,
                endedAtF = endedAtC p\<rparr>))"

definition patched :: "'a option option \<Rightarrow> 'a option \<Rightarrow> 'a option" where
  "patched p current = (case p of None \<Rightarrow> current | Some v \<Rightarrow> v)"

text \<open>\<open>patch.x === undefined ? current.x : normalizeOptionalString(patch.x)\<close>\<close>

definition patched_text :: "string option option \<Rightarrow> string option \<Rightarrow> string option" where
  "patched_text p current = (case p of None \<Rightarrow> current | Some v \<Rightarrow> normalizeOptionalString v)"

definition applyFlowPatch :: "Env \<Rightarrow> TaskFlowRecord \<Rightarrow> FlowRecordPatch \<Rightarrow> TaskError + TaskFlowRecord" where
  "applyFlowPatch env current p =
     (let controller = patched_text (controllerIdFP p) (controllerIdF current)
      in case (if syncModeF current = Sm_managed then map_sum id (\<lambda>_. ()) (assertControllerId controller)
               else Inr ()) of
           Inl e \<Rightarrow> Inl e
         | Inr _ \<Rightarrow> Inr (current\<lparr>
             statusF := nullish (statusFP p) (statusF current),
             notifyPolicyF := nullish (notifyPolicyFP p) (notifyPolicyF current),
             goalF := (if truthy (goalFP p) then nullish (goalFP p) '''' else goalF current),
             controllerIdF := controller,
             currentStepF := patched_text (currentStepFP p) (currentStepF current),
             blockedTaskIdF := patched_text (blockedTaskIdFP p) (blockedTaskIdF current),
             blockedSummaryF := patched_text (blockedSummaryFP p) (blockedSummaryF current),
             stateJsonF := orElse (stateJsonFP p) (stateJsonF current),
             waitJsonF := orElse (waitJsonFP p) (waitJsonF current),
             cancelRequestedAtF := patched (cancelRequestedAtFP p) (cancelRequestedAtF current),
             revisionF := revisionF current + 1,
             updatedAtF := nullish (updatedAtFP p) (date_now env),
             endedAtF := patched (endedAtFP p) (endedAtF current)\<rparr>))"

section \<open>Operations\<close>

definition ensureFlowRegistryReady :: "'a FlowReg_scheme \<Rightarrow> 'a FlowReg_scheme" where
  "ensureFlowRegistryReady st =
     (if flowsRestoreAttempted st then st
      else let st1 = st\<lparr>flowsRestoreAttempted := True\<rparr>;
               restored = loadTaskFlowRegistryStateFromSqlite (flowRows st);
               normalized = map (\<lambda>(k, f). (k, normalizeRestoredFlowRecord f)) restored
           in case find (\<lambda>(_, r). isl r) normalized of
                None \<Rightarrow> st1\<lparr>flows := map (\<lambda>(k, r). (k, projr r)) normalized, restoreFailure := None\<rparr>
              | Some (_, r) \<Rightarrow> st1\<lparr>flows := [], restoreFailure := Some (projl r)\<rparr>)"

definition persistFlowUpsert :: "TaskFlowRecord \<Rightarrow> 'a FlowReg_scheme \<Rightarrow> 'a FlowReg_scheme" where
  "persistFlowUpsert f st =
     st\<lparr>flowRows := upsertTaskFlowRegistryRecordToSqlite f (flowRows st)\<rparr>"

definition persistFlowDelete :: "string \<Rightarrow> 'a FlowReg_scheme \<Rightarrow> 'a FlowReg_scheme" where
  "persistFlowDelete fid st =
     st\<lparr>flowRows := deleteTaskFlowRegistryRecordFromSqlite fid (flowRows st)\<rparr>"

definition writeFlowRecord ::
    "TaskFlowRecord \<Rightarrow> 'a FlowReg_scheme \<Rightarrow> TaskFlowRecord \<times> 'a FlowReg_scheme" where
  "writeFlowRecord next st =
     (let st1 = st\<lparr>flows := AList.update (flowIdF next) next (flows st)\<rparr>
      in (next, persistFlowUpsert next st1))"

definition createFlowRecord ::
    "Env \<Rightarrow> string \<Rightarrow> CreateFlowRecordParams \<Rightarrow> 'a FlowReg_scheme
      \<Rightarrow> (TaskError + TaskFlowRecord) \<times> 'a FlowReg_scheme" where
  "createFlowRecord env uuid p st =
     (case buildFlowRecord env uuid p of Inl e \<Rightarrow> (Inl e, st)
      | Inr f \<Rightarrow> (let (f', st') = writeFlowRecord f st in (Inr f', st')))"

definition createManagedTaskFlow ::
    "Env \<Rightarrow> string \<Rightarrow> CreateFlowRecordParams \<Rightarrow> 'a FlowReg_scheme
      \<Rightarrow> (TaskError + TaskFlowRecord) \<times> 'a FlowReg_scheme" where
  "createManagedTaskFlow env uuid p st =
     (case assertControllerId (controllerIdC p) of Inl e \<Rightarrow> (Inl e, st)
      | Inr cid \<Rightarrow> createFlowRecord env uuid
          (p\<lparr>syncModeC := Some Sm_managed, controllerIdC := Some cid, revisionC := None\<rparr>) st)"

definition flow_task_goal :: "TaskRecord \<Rightarrow> string" where
  "flow_task_goal t =
     nullish (normalizeOptionalString (label t)) (or_str (js_trim (task t)) ''Background task'')"

text \<open>The status test that both mirroring operations spell out.\<close>

definition mirrored_flow_ended :: "TaskFlowStatus \<Rightarrow> bool" where
  "mirrored_flow_ended s \<longleftrightarrow> s = Fs_succeeded \<or> s = Fs_blocked \<or> s = Fs_failed \<or> s = Fs_cancelled
     \<or> s = Fs_lost"

definition createTaskFlowForTask ::
    "Env \<Rightarrow> string \<Rightarrow> TaskRecord \<Rightarrow> DeliveryContext option \<Rightarrow> 'a FlowReg_scheme
      \<Rightarrow> (TaskError + TaskFlowRecord) \<times> 'a FlowReg_scheme" where
  "createTaskFlowForTask env uuid t origin st =
     (let terminalFlowStatus = deriveTaskFlowStatusFromTask t;
          ended = (if mirrored_flow_ended terminalFlowStatus
                   then Some (nullish (orElse (endedAt t) (lastEventAt t)) (createdAt t)) else None)
      in createFlowRecord env uuid \<lparr>
           syncModeC = Some Sm_task_mirrored,
           ownerKeyC = ownerKey t,
           requesterOriginC = origin,
           controllerIdC = None,
           revisionC = None,
           statusC = Some terminalFlowStatus,
           notifyPolicyC = Some (notifyPolicy t),
           goalC = flow_task_goal t,
           currentStepC = None,
           blockedTaskIdC = (if terminalFlowStatus = Fs_blocked
             then normalizeOptionalString (Some (taskId t)) else None),
           blockedSummaryC = resolveFlowBlockedSummary t,
           stateJsonC = None,
           waitJsonC = None,
           cancelRequestedAtC = None,
           createdAtC = Some (createdAt t),
           updatedAtC = Some (nullish (lastEventAt t) (createdAt t)),
           endedAtC = ended\<rparr> st)"

definition updateFlowRecordByIdUnchecked ::
    "Env \<Rightarrow> string \<Rightarrow> FlowRecordPatch \<Rightarrow> 'a FlowReg_scheme
      \<Rightarrow> (TaskError + TaskFlowRecord option) \<times> 'a FlowReg_scheme" where
  "updateFlowRecordByIdUnchecked env fid p st =
     (case map_of (flows st) fid of None \<Rightarrow> (Inr None, st)
      | Some current \<Rightarrow>
        (case applyFlowPatch env current p of Inl e \<Rightarrow> (Inl e, st)
         | Inr next \<Rightarrow> (let (f, st') = writeFlowRecord next st in (Inr (Some f), st'))))"

definition updateFlowRecordByIdExpectedRevision ::
    "Env \<Rightarrow> string \<Rightarrow> int \<Rightarrow> FlowRecordPatch \<Rightarrow> 'a FlowReg_scheme
      \<Rightarrow> (TaskError + TaskFlowUpdateResult) \<times> 'a FlowReg_scheme" where
  "updateFlowRecordByIdExpectedRevision env fid expectedRevision p st =
     (case map_of (flows st) fid of None \<Rightarrow> (Inr FlowNotFound, st)
      | Some current \<Rightarrow>
        if revisionF current \<noteq> expectedRevision then (Inr (FlowRevisionConflict current), st)
        else (case applyFlowPatch env current p of Inl e \<Rightarrow> (Inl e, st)
              | Inr next \<Rightarrow> (let (f, st') = writeFlowRecord next st in (Inr (FlowApplied f), st'))))"

definition setFlowWaiting ::
    "Env \<Rightarrow> string \<Rightarrow> int \<Rightarrow> string option option \<Rightarrow> JsonValue option \<Rightarrow> JsonValue option
      \<Rightarrow> string option option \<Rightarrow> string option option \<Rightarrow> int option \<Rightarrow> 'a FlowReg_scheme
      \<Rightarrow> (TaskError + TaskFlowUpdateResult) \<times> 'a FlowReg_scheme" where
  "setFlowWaiting env fid expectedRevision currentStep stateJson waitJson blockedTaskId blockedSummary updated st =
     updateFlowRecordByIdExpectedRevision env fid expectedRevision (empty_flow_patch\<lparr>
       statusFP := Some (if normalizeOptionalString (patched blockedTaskId None) \<noteq> None
           \<or> normalizeOptionalString (patched blockedSummary None) \<noteq> None
         then Fs_blocked else Fs_waiting),
       currentStepFP := currentStep,
       stateJsonFP := stateJson,
       waitJsonFP := waitJson,
       blockedTaskIdFP := blockedTaskId,
       blockedSummaryFP := blockedSummary,
       endedAtFP := Some None,
       updatedAtFP := updated\<rparr>) st"

text \<open>The status parameter has only the values \<open>queued\<close> and \<open>running\<close>: here whether it is \<open>running\<close>.\<close>

definition resumeFlow ::
    "Env \<Rightarrow> string \<Rightarrow> int \<Rightarrow> bool option \<Rightarrow> string option option \<Rightarrow> JsonValue option
      \<Rightarrow> int option \<Rightarrow> 'a FlowReg_scheme \<Rightarrow> (TaskError + TaskFlowUpdateResult) \<times> 'a FlowReg_scheme" where
  "resumeFlow env fid expectedRevision running currentStep stateJson updated st =
     updateFlowRecordByIdExpectedRevision env fid expectedRevision (empty_flow_patch\<lparr>
       statusFP := Some (if nullish running False then Fs_running else Fs_queued),
       currentStepFP := currentStep,
       stateJsonFP := stateJson,
       waitJsonFP := Some JNull,
       blockedTaskIdFP := Some None,
       blockedSummaryFP := Some None,
       endedAtFP := Some None,
       updatedAtFP := updated\<rparr>) st"

definition finishFlow ::
    "Env \<Rightarrow> string \<Rightarrow> int \<Rightarrow> string option option \<Rightarrow> JsonValue option \<Rightarrow> int option \<Rightarrow> int option
      \<Rightarrow> 'a FlowReg_scheme \<Rightarrow> (TaskError + TaskFlowUpdateResult) \<times> 'a FlowReg_scheme" where
  "finishFlow env fid expectedRevision currentStep stateJson updated ended st =
     (let endedAt = nullish (orElse ended updated) (date_now env)
      in updateFlowRecordByIdExpectedRevision env fid expectedRevision (empty_flow_patch\<lparr>
           statusFP := Some Fs_succeeded,
           currentStepFP := currentStep,
           stateJsonFP := stateJson,
           waitJsonFP := Some JNull,
           blockedTaskIdFP := Some None,
           blockedSummaryFP := Some None,
           endedAtFP := Some (Some endedAt),
           updatedAtFP := Some (nullish updated endedAt)\<rparr>) st)"

definition failFlow ::
    "Env \<Rightarrow> string \<Rightarrow> int \<Rightarrow> string option option \<Rightarrow> JsonValue option \<Rightarrow> string option option
      \<Rightarrow> string option option \<Rightarrow> int option \<Rightarrow> int option \<Rightarrow> 'a FlowReg_scheme
      \<Rightarrow> (TaskError + TaskFlowUpdateResult) \<times> 'a FlowReg_scheme" where
  "failFlow env fid expectedRevision currentStep stateJson blockedTaskId blockedSummary updated ended st =
     (let endedAt = nullish (orElse ended updated) (date_now env)
      in updateFlowRecordByIdExpectedRevision env fid expectedRevision (empty_flow_patch\<lparr>
           statusFP := Some Fs_failed,
           currentStepFP := currentStep,
           stateJsonFP := stateJson,
           waitJsonFP := Some JNull,
           blockedTaskIdFP := blockedTaskId,
           blockedSummaryFP := blockedSummary,
           endedAtFP := Some (Some endedAt),
           updatedAtFP := Some (nullish updated endedAt)\<rparr>) st)"

definition requestFlowCancel ::
    "Env \<Rightarrow> string \<Rightarrow> int \<Rightarrow> int option \<Rightarrow> int option \<Rightarrow> 'a FlowReg_scheme
      \<Rightarrow> (TaskError + TaskFlowUpdateResult) \<times> 'a FlowReg_scheme" where
  "requestFlowCancel env fid expectedRevision cancelAt updated st =
     updateFlowRecordByIdExpectedRevision env fid expectedRevision (empty_flow_patch\<lparr>
       cancelRequestedAtFP := Some (Some (nullish (orElse cancelAt updated) (date_now env))),
       updatedAtFP := updated\<rparr>) st"

definition getTaskFlowById :: "'a FlowReg_scheme \<Rightarrow> string \<Rightarrow> TaskFlowRecord option" where
  "getTaskFlowById st fid = map_of (flows st) fid"

definition syncFlowFromTask ::
    "Env \<Rightarrow> TaskRecord \<Rightarrow> 'a FlowReg_scheme
      \<Rightarrow> (TaskError + TaskFlowRecord option) \<times> 'a FlowReg_scheme" where
  "syncFlowFromTask env t st =
     (case map_option js_trim (parentFlowId t) of None \<Rightarrow> (Inr None, st)
      | Some fid \<Rightarrow>
        if fid = '''' then (Inr None, st)
        else (case getTaskFlowById st fid of None \<Rightarrow> (Inr None, st)
          | Some flow \<Rightarrow>
            if syncModeF flow \<noteq> Sm_task_mirrored then (Inr (Some flow), st)
            else let terminalFlowStatus = deriveTaskFlowStatusFromTask t
                 in updateFlowRecordByIdUnchecked env fid (empty_flow_patch\<lparr>
                   statusFP := Some terminalFlowStatus,
                   notifyPolicyFP := Some (notifyPolicy t),
                   goalFP := Some (flow_task_goal t),
                   blockedTaskIdFP := Some (if terminalFlowStatus = Fs_blocked
                     then (if js_trim (taskId t) = '''' then None else Some (js_trim (taskId t)))
                     else None),
                   blockedSummaryFP := Some (if terminalFlowStatus = Fs_blocked
                     then resolveFlowBlockedSummary t else None),
                   waitJsonFP := Some JNull,
                   updatedAtFP := Some (nullish (lastEventAt t) (date_now env)),
                   endedAtFP := Some (if mirrored_flow_ended terminalFlowStatus
                     then Some (nullish (orElse (endedAt t) (lastEventAt t)) (date_now env))
                     else None)\<rparr>) st))"

definition listTaskFlowsForOwnerKey :: "'a FlowReg_scheme \<Rightarrow> string \<Rightarrow> TaskFlowRecord list" where
  "listTaskFlowsForOwnerKey st owner =
     (let normalizedOwnerKey = js_trim owner
      in if normalizedOwnerKey = '''' then []
         else sort_key (\<lambda>f. - createdAtF f)
                (filter (\<lambda>f. js_trim (ownerKeyF f) = normalizedOwnerKey) (map snd (flows st))))"

definition first_of :: "'a list \<Rightarrow> 'a option" where
  "first_of xs = (case xs of [] \<Rightarrow> None | x # _ \<Rightarrow> Some x)"

definition findLatestTaskFlowForOwnerKey :: "'a FlowReg_scheme \<Rightarrow> string \<Rightarrow> TaskFlowRecord option" where
  "findLatestTaskFlowForOwnerKey st owner = first_of (listTaskFlowsForOwnerKey st owner)"

definition resolveTaskFlowForLookupToken :: "'a FlowReg_scheme \<Rightarrow> string \<Rightarrow> TaskFlowRecord option" where
  "resolveTaskFlowForLookupToken st token =
     (let lookup = js_trim token
      in if lookup = '''' then None
         else orElse (getTaskFlowById st lookup) (findLatestTaskFlowForOwnerKey st lookup))"

definition listTaskFlowRecords :: "'a FlowReg_scheme \<Rightarrow> TaskFlowRecord list" where
  "listTaskFlowRecords st = sort_key (\<lambda>f. - createdAtF f) (map snd (flows st))"

definition deleteTaskFlowRecordById :: "string \<Rightarrow> 'a FlowReg_scheme \<Rightarrow> bool \<times> 'a FlowReg_scheme" where
  "deleteTaskFlowRecordById fid st =
     (case map_of (flows st) fid of None \<Rightarrow> (False, st)
      | Some current \<Rightarrow>
        (True, persistFlowDelete fid (st\<lparr>flows := AList.delete fid (flows st)\<rparr>)))"

section \<open>Invariant\<close>

text \<open>
  What every record of the registry satisfies: the owner key is trimmed and not empty, a managed
  flow has a controller, the revision is not negative and the optional texts are normalised.
\<close>

definition normal_text :: "string option \<Rightarrow> bool" where
  "normal_text s \<longleftrightarrow> normalizeOptionalString s = s"

definition flow_wf :: "TaskFlowRecord \<Rightarrow> bool" where
  "flow_wf f \<longleftrightarrow> js_trim (ownerKeyF f) = ownerKeyF f \<and> ownerKeyF f \<noteq> ''''
     \<and> (syncModeF f = Sm_managed \<longrightarrow> controllerIdF f \<noteq> None)
     \<and> normal_text (controllerIdF f) \<and> 0 \<le> revisionF f \<and> normal_text (currentStepF f)
     \<and> normal_text (blockedTaskIdF f) \<and> normal_text (blockedSummaryF f)"

definition flows_inv :: "'a FlowReg_scheme \<Rightarrow> bool" where
  "flows_inv st \<longleftrightarrow> distinct (map fst (flows st))
     \<and> (\<forall>k f. map_of (flows st) k = Some f \<longrightarrow> flowIdF f = k \<and> flow_wf f)
     \<and> flow_mirror (flows st) (flowRows st)"

lemma normal_text_None [simp]: "normal_text None"
  by (simp add: normal_text_def)

lemma normal_text_normalize [simp]: "normal_text (normalizeOptionalString s)"
  by (simp add: normal_text_def)

lemma normal_text_not_empty [simp]: "\<not> normal_text (Some '''')"
  by (simp add: normal_text_def normalizeOptionalString_Some)

lemma normal_text_nonempty: "normal_text s \<Longrightarrow> s \<noteq> Some ''''"
  by auto

lemma normal_text_patched [simp]: "normal_text c \<Longrightarrow> normal_text (patched_text p c)"
  by (simp add: patched_text_def split: option.splits)

lemma assertFlowOwnerKey_Inr:
  "assertFlowOwnerKey k = Inr k' \<Longrightarrow> js_trim k' = k' \<and> k' \<noteq> '''' \<and> k' = js_trim k"
  by (auto simp: assertFlowOwnerKey_def normalizeOptionalString_Some split: if_splits)

lemma assertControllerId_Inr:
  "assertControllerId c = Inr c' \<Longrightarrow> normalizeOptionalString c = Some c'"
  by (auto simp: assertControllerId_def split: option.splits)

lemma normal_text_assertControllerId: "assertControllerId c = Inr c' \<Longrightarrow> normal_text (Some c')"
  by (metis assertControllerId_Inr normal_text_normalize)

lemma flow_wf_storable: "flow_wf f \<Longrightarrow> flow_storable f"
  by (auto simp: flow_wf_def flow_storable_def)

lemma buildFlowRecord_wf:
  "buildFlowRecord env uuid p = Inr f \<Longrightarrow> flow_wf f \<and> flowIdF f = uuid"
  by (auto simp: buildFlowRecord_def flow_wf_def Let_def map_sum_def
      dest!: assertFlowOwnerKey_Inr dest: normal_text_assertControllerId
      split: sum.splits if_splits)

lemma assertControllerId_normal:
  "normal_text c \<Longrightarrow> c \<noteq> None \<Longrightarrow> assertControllerId c = Inr (nullish c [])"
  by (cases c) (auto simp: assertControllerId_def normal_text_def)

lemma applyFlowPatch_wf:
  assumes "applyFlowPatch env f p = Inr f'" "flow_wf f"
  shows "flow_wf f' \<and> flowIdF f' = flowIdF f \<and> revisionF f' = revisionF f + 1
    \<and> syncModeF f' = syncModeF f \<and> ownerKeyF f' = ownerKeyF f \<and> createdAtF f' = createdAtF f"
proof -
  let ?c = "patched_text (controllerIdFP p) (controllerIdF f)"
  have "syncModeF f = Sm_managed \<Longrightarrow> ?c = None \<Longrightarrow> False"
    using assms(1) by (simp add: applyFlowPatch_def Let_def assertControllerId_def)
  then have "syncModeF f = Sm_managed \<Longrightarrow> \<exists>y. ?c = Some y" by auto
  then show ?thesis
    using assms by (auto simp: applyFlowPatch_def flow_wf_def Let_def split: sum.splits)
qed

lemma applyFlowPatch_total:
  "flow_wf f \<Longrightarrow> controllerIdFP p = None \<Longrightarrow> \<exists>f'. applyFlowPatch env f p = Inr f'"
  by (simp add: applyFlowPatch_def flow_wf_def Let_def patched_text_def assertControllerId_normal)

lemma writeFlowRecord_inv:
  assumes "flows_inv st" "flow_wf f"
  shows "flows_inv (snd (writeFlowRecord f st))"
  using assms upsert_mirror [OF _ flow_wf_storable [OF assms(2)], of "flows st" "flowRows st"]
  by (auto simp: flows_inv_def writeFlowRecord_def persistFlowUpsert_def Let_def)

lemma writeFlowRecord_sel [simp]:
  "fst (writeFlowRecord f st) = f"
  "flows (snd (writeFlowRecord f st)) = AList.update (flowIdF f) f (flows st)"
  by (simp_all add: writeFlowRecord_def persistFlowUpsert_def Let_def)

lemma flows_inv_lookup: "flows_inv st \<Longrightarrow> map_of (flows st) k = Some f \<Longrightarrow> flow_wf f \<and> flowIdF f = k"
  by (simp add: flows_inv_def)

lemma createFlowRecord_inv [inv_intros]:
  "flows_inv st \<Longrightarrow> flows_inv (snd (createFlowRecord env uuid p st))"
  using buildFlowRecord_wf [of env uuid p] writeFlowRecord_inv [of st]
  by (simp add: createFlowRecord_def case_prod_unfold split: sum.splits)

lemma createManagedTaskFlow_inv [inv_intros]:
  "flows_inv st \<Longrightarrow> flows_inv (snd (createManagedTaskFlow env uuid p st))"
  by (simp add: createManagedTaskFlow_def createFlowRecord_inv split: sum.splits)

lemma createTaskFlowForTask_inv [inv_intros]:
  "flows_inv st \<Longrightarrow> flows_inv (snd (createTaskFlowForTask env uuid t origin st))"
  by (simp add: createTaskFlowForTask_def Let_def createFlowRecord_inv)

lemma updateUnchecked_inv [inv_intros]:
  assumes "flows_inv st"
  shows "flows_inv (snd (updateFlowRecordByIdUnchecked env fid p st))"
  using assms flows_inv_lookup [OF assms] applyFlowPatch_wf writeFlowRecord_inv [OF assms]
  by (fastforce simp: updateFlowRecordByIdUnchecked_def case_prod_unfold
      split: option.splits sum.splits)

lemma updateExpected_inv [inv_intros]:
  assumes "flows_inv st"
  shows "flows_inv (snd (updateFlowRecordByIdExpectedRevision env fid n p st))"
  using assms flows_inv_lookup [OF assms] applyFlowPatch_wf writeFlowRecord_inv [OF assms]
  by (fastforce simp: updateFlowRecordByIdExpectedRevision_def case_prod_unfold
      split: option.splits sum.splits)

lemmas flow_update_defs = setFlowWaiting_def resumeFlow_def finishFlow_def failFlow_def
  requestFlowCancel_def Let_def

lemma setFlowWaiting_inv [inv_intros]:
  "flows_inv st \<Longrightarrow> flows_inv (snd (setFlowWaiting env fid n a b c d e g st))"
  by (simp add: flow_update_defs updateExpected_inv)

lemma resumeFlow_inv [inv_intros]:
  "flows_inv st \<Longrightarrow> flows_inv (snd (resumeFlow env fid n a b c d st))"
  by (simp add: flow_update_defs updateExpected_inv)

lemma finishFlow_inv [inv_intros]:
  "flows_inv st \<Longrightarrow> flows_inv (snd (finishFlow env fid n a b c d st))"
  by (simp add: flow_update_defs updateExpected_inv)

lemma failFlow_inv [inv_intros]:
  "flows_inv st \<Longrightarrow> flows_inv (snd (failFlow env fid n a b c d e g st))"
  by (simp add: flow_update_defs updateExpected_inv)

lemma requestFlowCancel_inv [inv_intros]:
  "flows_inv st \<Longrightarrow> flows_inv (snd (requestFlowCancel env fid n a b st))"
  by (simp add: flow_update_defs updateExpected_inv)

lemma syncFlowFromTask_inv [inv_intros]:
  "flows_inv st \<Longrightarrow> flows_inv (snd (syncFlowFromTask env t st))"
  by (simp add: syncFlowFromTask_def updateUnchecked_inv Let_def split: option.splits)

lemma deleteTaskFlowRecordById_inv [inv_intros]:
  "flows_inv st \<Longrightarrow> flows_inv (snd (deleteTaskFlowRecordById fid st))"
  using delete_mirror [of "flows st" "flowRows st" fid]
  by (auto simp: deleteTaskFlowRecordById_def flows_inv_def persistFlowDelete_def set_delete
      split: option.splits if_splits)

section \<open>The registry as a state machine\<close>

text \<open>
  The steps are the operations other parts of the program call, for any parameters, clock and
  environment. A new identifier is fresh, which is what \<open>crypto.randomUUID\<close> gives. The
  conditional updates \<open>setFlowWaiting\<close>, \<open>resumeFlow\<close>, \<open>finishFlow\<close>, \<open>failFlow\<close> and
  \<open>requestFlowCancel\<close> are instances of the rule \<open>update\<close>.
\<close>

inductive flow_step :: "'a FlowReg_scheme \<Rightarrow> 'a FlowReg_scheme \<Rightarrow> bool" where
  create: "uuid \<notin> fst ` set (flows st) \<Longrightarrow> flow_step st (snd (createFlowRecord env uuid p st))"
| create_managed: "uuid \<notin> fst ` set (flows st) \<Longrightarrow>
    flow_step st (snd (createManagedTaskFlow env uuid p st))"
| create_for_task: "uuid \<notin> fst ` set (flows st) \<Longrightarrow>
    flow_step st (snd (createTaskFlowForTask env uuid t origin st))"
| update: "flow_step st (snd (updateFlowRecordByIdExpectedRevision env fid n p st))"
| sync: "flow_step st (snd (syncFlowFromTask env t st))"
| delete: "flow_step st (snd (deleteTaskFlowRecordById fid st))"

inductive_cases flow_step_cases: "flow_step st st'"

definition boot_flows :: "FlowReg" where
  "boot_flows = ensureFlowRegistryReady
     \<lparr>flows = [], flowRows = [], flowsRestoreAttempted = False, restoreFailure = None\<rparr>"

inductive flow_reachable :: "FlowReg \<Rightarrow> bool" where
  start: "flow_reachable boot_flows"
| step: "flow_reachable st \<Longrightarrow> flow_step st st' \<Longrightarrow> flow_reachable st'"

lemma boot_flows_inv: "flows_inv boot_flows"
  by (simp add: boot_flows_def ensureFlowRegistryReady_def loadTaskFlowRegistryStateFromSqlite_def
      flows_inv_def flow_mirror_def)

lemma flow_step_inv: "flow_step st st' \<Longrightarrow> flows_inv st \<Longrightarrow> flows_inv st'"
  by (elim flow_step_cases) (simp_all add: inv_intros)

lemma flow_reachable_flows_inv: "flow_reachable st \<Longrightarrow> flows_inv st"
  by (induction rule: flow_reachable.induct) (auto intro: boot_flows_inv flow_step_inv)

text \<open>What one write does to the record at a key.\<close>

definition flow_evolves :: "TaskFlowRecord \<Rightarrow> TaskFlowRecord \<Rightarrow> bool" where
  "flow_evolves f f' \<longleftrightarrow> f' = f \<or> revisionF f' = revisionF f + 1 \<and> flowIdF f' = flowIdF f
     \<and> syncModeF f' = syncModeF f \<and> ownerKeyF f' = ownerKeyF f \<and> createdAtF f' = createdAtF f"

lemma createFlowRecord_fresh:
  assumes "flows_inv st" "uuid \<notin> fst ` set (flows st)" "map_of (flows st) k = Some f"
  shows "map_of (flows (snd (createFlowRecord env uuid p st))) k = Some f"
proof -
  have "k \<noteq> uuid" using assms(2,3) by (force dest: map_of_SomeD)
  then show ?thesis using assms(3) buildFlowRecord_wf [of env uuid p]
    by (simp add: createFlowRecord_def case_prod_unfold split: sum.splits)
qed

lemma updateExpected_evolves:
  assumes "flows_inv st" "map_of (flows st) k = Some f"
    "map_of (flows (snd (updateFlowRecordByIdExpectedRevision env fid n p st))) k = Some f'"
  shows "flow_evolves f f'"
  using assms flows_inv_lookup [OF assms(1)] applyFlowPatch_wf
  by (auto simp: updateFlowRecordByIdExpectedRevision_def flow_evolves_def case_prod_unfold
      split: option.splits sum.splits if_splits; metis)

lemma updateUnchecked_evolves:
  assumes "flows_inv st" "map_of (flows st) k = Some f"
    "map_of (flows (snd (updateFlowRecordByIdUnchecked env fid p st))) k = Some f'"
  shows "flow_evolves f f'"
  using assms flows_inv_lookup [OF assms(1)] applyFlowPatch_wf
  by (auto simp: updateFlowRecordByIdUnchecked_def flow_evolves_def case_prod_unfold
      split: option.splits sum.splits if_splits; metis)

lemma syncFlowFromTask_evolves:
  assumes "flows_inv st" "map_of (flows st) k = Some f"
    "map_of (flows (snd (syncFlowFromTask env t st))) k = Some f'"
  shows "flow_evolves f f'"
  using assms updateUnchecked_evolves [OF assms(1,2)]
  by (auto simp: syncFlowFromTask_def Let_def flow_evolves_def split: option.splits if_splits)

lemma updateExpected_applied:
  "fst (updateFlowRecordByIdExpectedRevision env fid n p st) = Inr (FlowApplied f') \<longleftrightarrow>
     (\<exists>f. map_of (flows st) fid = Some f \<and> revisionF f = n \<and> applyFlowPatch env f p = Inr f')"
  by (auto simp: updateFlowRecordByIdExpectedRevision_def case_prod_unfold
      split: option.splits sum.splits)

lemma updateExpected_snd:
  "map_of (flows st) fid = Some f \<Longrightarrow> revisionF f = n \<Longrightarrow> applyFlowPatch env f p = Inr f' \<Longrightarrow>
     snd (updateFlowRecordByIdExpectedRevision env fid n p st) = snd (writeFlowRecord f' st)"
  by (simp add: updateFlowRecordByIdExpectedRevision_def case_prod_unfold)

lemma updateExpected_refused:
  assumes "\<nexists>f'. fst (updateFlowRecordByIdExpectedRevision env fid n p st) = Inr (FlowApplied f')"
  shows "snd (updateFlowRecordByIdExpectedRevision env fid n p st) = st"
proof -
  have "map_of (flows st) fid = Some f \<Longrightarrow> revisionF f = n \<Longrightarrow> applyFlowPatch env f p \<noteq> Inr f'" for f f'
    using assms by (auto simp: updateExpected_applied)
  then show ?thesis
    by (auto simp: updateFlowRecordByIdExpectedRevision_def split: option.splits sum.splits)
qed

interpretation flow_versions: versioned_store flows_inv "\<lambda>st. map_of (flows st)" revisionF
  "\<lambda>st fid n w. \<exists>f. fst (updateFlowRecordByIdExpectedRevision (fst w) fid n (snd w) st) = Inr (FlowApplied f)"
  "\<lambda>st fid n w. snd (updateFlowRecordByIdExpectedRevision (fst w) fid n (snd w) st)"
proof (unfold_locales, goal_cases)
  case (1 s k n p)
  then show ?case by (auto simp: updateExpected_applied)
next
  case (2 s k n p)
  then obtain f f' where f: "map_of (flows s) k = Some f" "revisionF f = n"
      "applyFlowPatch (fst p) f (snd p) = Inr f'"
    by (auto simp: updateExpected_applied)
  with flows_inv_lookup [OF 2(1) f(1)] applyFlowPatch_wf [OF f(3)] show ?case
    by (simp add: updateExpected_snd [OF f])
next
  case (3 s k n p)
  then show ?case by (simp add: updateExpected_refused)
next
  case (4 s k' k n p)
  show ?case
  proof (cases "\<exists>f'. fst (updateFlowRecordByIdExpectedRevision (fst p) k n (snd p) s) = Inr (FlowApplied f')")
    case True
    then obtain f f' where f: "map_of (flows s) k = Some f" "revisionF f = n"
        "applyFlowPatch (fst p) f (snd p) = Inr f'"
      by (auto simp: updateExpected_applied)
    with flows_inv_lookup [OF 4(1) f(1)] applyFlowPatch_wf [OF f(3)] 4(2) show ?thesis
      by (simp add: updateExpected_snd [OF f])
  next
    case False
    then have "snd (updateFlowRecordByIdExpectedRevision (fst p) k n (snd p) s) = s"
      by (rule updateExpected_refused)
    then show ?thesis by simp
  qed
next
  case (5 s k n p)
  then show ?case by (simp add: updateExpected_inv)
qed

lemma flow_step_evolves:
  assumes inv: "flows_inv st" and "flow_step st st'"
    "map_of (flows st) k = Some f" "map_of (flows st') k = Some f'"
  shows "flow_evolves f f'"
proof -
  note fresh = createFlowRecord_fresh [OF inv _ assms(3)]
  from assms(2) show ?thesis
  proof cases
    case (create uuid env p)
    then show ?thesis using fresh assms(4) by (simp add: flow_evolves_def)
  next
    case (create_managed uuid env p)
    then show ?thesis
      using fresh assms(3,4) by (auto simp: createManagedTaskFlow_def flow_evolves_def split: sum.splits)
  next
    case (create_for_task uuid env t origin)
    then show ?thesis
      using fresh assms(3,4) by (auto simp: createTaskFlowForTask_def Let_def flow_evolves_def)
  next
    case update
    then show ?thesis using updateExpected_evolves [OF inv assms(3)] assms(4) by simp
  next
    case sync
    then show ?thesis using syncFlowFromTask_evolves [OF inv assms(3)] assms(4) by simp
  next
    case delete
    then show ?thesis using assms(3,4)
      by (auto simp: deleteTaskFlowRecordById_def persistFlowDelete_def flow_evolves_def
          split: option.splits if_splits)
  qed
qed

section \<open>Restarting\<close>

text \<open>A restart of the process: the memory is lost, the table is kept, and the registry is read again.\<close>

definition restart_flows :: "'a FlowReg_scheme \<Rightarrow> 'a FlowReg_scheme" where
  "restart_flows st = ensureFlowRegistryReady
     (st\<lparr>flows := [], flowsRestoreAttempted := False, restoreFailure := None\<rparr>)"

lemma normalizeRestored_fixed: "flow_wf f \<Longrightarrow> normalizeRestoredFlowRecord f = Inr f"
proof -
  assume wf: "flow_wf f"
  have owner: "assertFlowOwnerKey (ownerKeyF f) = Inr (ownerKeyF f)"
    using wf by (simp add: assertFlowOwnerKey_def flow_wf_def normalizeOptionalString_Some)
  have "syncModeF f = Sm_task_mirrored \<or> syncModeF f = Sm_managed" by (cases "syncModeF f") auto
  moreover have "max 0 (revisionF f) = revisionF f" using wf by (simp add: flow_wf_def)
  ultimately show ?thesis
    using wf owner
    by (auto simp: normalizeRestoredFlowRecord_def flow_wf_def Let_def normal_text_def)
qed

lemma map_normalizeRestored:
  "\<forall>(k, f) \<in> set m. flow_wf f \<Longrightarrow>
     map (\<lambda>(k, f). (k, normalizeRestoredFlowRecord f)) m = map (\<lambda>(k, f). (k, Inr f)) m"
  by (auto simp: normalizeRestored_fixed)

lemma distinct_load_flows: "distinct (map fst (loadTaskFlowRegistryStateFromSqlite rows))"
  by (simp add: loadTaskFlowRegistryStateFromSqlite_def Let_def distinct_fold_update)

lemma ensureFlowRegistryReady_load:
  assumes "\<not> flowsRestoreAttempted st"
    and "\<forall>(k, f) \<in> set (loadTaskFlowRegistryStateFromSqlite (flowRows st)). flow_wf f"
  shows "ensureFlowRegistryReady st = st\<lparr>flowsRestoreAttempted := True,
    flows := loadTaskFlowRegistryStateFromSqlite (flowRows st), restoreFailure := None\<rparr>"
proof -
  let ?m = "loadTaskFlowRegistryStateFromSqlite (flowRows st)"
  have none: "find (\<lambda>(_, r). isl r) (map (\<lambda>(k, f). (k, Inr f :: TaskError + TaskFlowRecord)) ?m) = None"
    by (auto simp: find_None_iff)
  have proj: "map (\<lambda>(k, r). (k, projr r)) (map (\<lambda>(k, f). (k, Inr f :: TaskError + TaskFlowRecord)) ?m) = ?m"
    by (simp add: comp_def case_prod_unfold)
  show ?thesis
    by (simp only: ensureFlowRegistryReady_def Let_def assms(1) if_False
        map_normalizeRestored [OF assms(2)] none option.case proj)
qed

lemma restart_flows_sel:
  assumes "flows_inv st"
  shows "flows (restart_flows st) = loadTaskFlowRegistryStateFromSqlite (flowRows st)"
    and "restoreFailure (restart_flows st) = None"
    and "flowRows (restart_flows st) = flowRows st"
proof -
  let ?m = "loadTaskFlowRegistryStateFromSqlite (flowRows st)"
  have "map_of ?m = map_of (flows st)" using assms by (intro load_mirror) (simp add: flows_inv_def)
  then have "(k, f) \<in> set ?m \<Longrightarrow> map_of (flows st) k = Some f" for k f
    using distinct_load_flows [of "flowRows st"] by (metis map_of_is_SomeI)
  then have "\<forall>(k, f) \<in> set ?m. flow_wf f"
    using flows_inv_lookup [OF assms] by blast
  then show "flows (restart_flows st) = ?m" "restoreFailure (restart_flows st) = None"
    "flowRows (restart_flows st) = flowRows st"
    by (simp_all add: restart_flows_def ensureFlowRegistryReady_load)
qed

section \<open>Properties\<close>

text \<open>
  C8. In every reachable state of the registry the SQLite table has one row for each record in memory and no other: under
  every identifier it decodes to exactly the record in memory, and to nothing when there is none, so that a deleted flow
  leaves no row behind. The records are filed under their own identifiers, their owner key is trimmed and not empty, a
  managed flow has a controller, and the revision is not negative.
\<close>

theorem flow_registry_invariant:
  assumes "flow_reachable st"
  shows "distinct (map fst (flowRows st)) \<and> (\<forall>k. map_option rowToFlowRecord (map_of (flowRows st) k) = map_of (flows st) k)
    \<and> (\<forall>k f. map_of (flows st) k = Some f \<longrightarrow> flowIdF f = k \<and> js_trim (ownerKeyF f) = ownerKeyF f \<and> ownerKeyF f \<noteq> ''''
         \<and> (syncModeF f = Sm_managed \<longrightarrow> controllerIdF f \<noteq> None) \<and> 0 \<le> revisionF f)"
proof -
  have inv: "flows_inv st" using assms by (rule flow_reachable_flows_inv)
  then have "distinct (map fst (flowRows st))" "\<And>k. map_option rowToFlowRecord (map_of (flowRows st) k) = map_of (flows st) k"
    unfolding flows_inv_def flow_mirror_def by blast+
  then show ?thesis using flows_inv_lookup [OF inv] by (simp add: flow_wf_def)
qed

definition example_flow_params :: CreateFlowRecordParams where
  "example_flow_params = \<lparr>syncModeC = None, ownerKeyC = '' agent:main:main '', requesterOriginC = None,
     controllerIdC = Some ''ctl'', revisionC = None, statusC = None, notifyPolicyC = None,
     goalC = ''g'', currentStepC = None, blockedTaskIdC = None, blockedSummaryC = None,
     stateJsonC = None, waitJsonC = None, cancelRequestedAtC = None, createdAtC = Some 5,
     updatedAtC = None, endedAtC = None\<rparr>"

definition example_flow_state :: FlowReg where
  "example_flow_state = snd (createFlowRecord (default_env 9) ''f1'' example_flow_params boot_flows)"

lemma example_flow_reachable: "flow_reachable example_flow_state"
  unfolding example_flow_state_def
  by (rule flow_reachable.step [OF flow_reachable.start flow_step.create])
     (simp add: boot_flows_def ensureFlowRegistryReady_def loadTaskFlowRegistryStateFromSqlite_def)

lemma example_flow_lookup:
  "map_option revisionF (map_of (flows example_flow_state) ''f1'') = Some 0"
  by code_simp

theorem flow_registry_invariant_witness:
  "\<exists>f. map_of (flows example_flow_state) ''f1'' = Some f \<and> flowIdF f = ''f1''
     \<and> map_option rowToFlowRecord (map_of (flowRows example_flow_state) ''f1'') = Some f"
proof -
  obtain f where "map_of (flows example_flow_state) ''f1'' = Some f" using example_flow_lookup by auto
  with flow_registry_invariant [OF example_flow_reachable] show ?thesis by simp
qed

text \<open>
  Optimistic concurrency control: a conditional update succeeds exactly when the flow exists,
  its revision is the one the caller expects and the patch leaves a managed flow a controller; it
  then raises the revision by one and touches no other flow. When it does not succeed the
  registry and the table are unchanged, and the caller gets \<open>not_found\<close>, the conflicting
  current record, or the error.
\<close>

theorem conditional_update_spec:
  assumes "flows_inv st"
  shows "case updateFlowRecordByIdExpectedRevision env fid n p st of (r, st') \<Rightarrow>
    (case map_of (flows st) fid of
       None \<Rightarrow> r = Inr FlowNotFound \<and> st' = st
     | Some f \<Rightarrow>
        if revisionF f \<noteq> n then r = Inr (FlowRevisionConflict f) \<and> st' = st
        else if syncModeF f = Sm_managed \<and> patched_text (controllerIdFP p) (controllerIdF f) = None
        then r = Inl FlowControllerIdRequired \<and> st' = st
        else \<exists>f'. r = Inr (FlowApplied f') \<and> revisionF f' = n + 1 \<and> flowIdF f' = fid
               \<and> map_of (flows st') = (map_of (flows st))(fid \<mapsto> f'))"
proof (cases "map_of (flows st) fid")
  case None
  then show ?thesis by (simp add: updateFlowRecordByIdExpectedRevision_def)
next
  case (Some f)
  have wf: "flow_wf f" "flowIdF f = fid" using flows_inv_lookup [OF assms Some] by simp_all
  let ?c = "patched_text (controllerIdFP p) (controllerIdF f)"
  have c: "normal_text ?c" using wf by (simp add: flow_wf_def)
  show ?thesis
  proof (cases "syncModeF f = Sm_managed \<and> ?c = None")
    case True
    then have "applyFlowPatch env f p = Inl FlowControllerIdRequired"
      by (simp add: applyFlowPatch_def Let_def assertControllerId_def)
    with True Some show ?thesis by (simp add: updateFlowRecordByIdExpectedRevision_def)
  next
    case False
    then obtain f' where f': "applyFlowPatch env f p = Inr f'"
      using assertControllerId_normal [OF c] by (auto simp: applyFlowPatch_def Let_def)
    from applyFlowPatch_wf [OF this wf(1)] wf(2) False Some f' show ?thesis
      by (auto simp: updateFlowRecordByIdExpectedRevision_def case_prod_unfold)
  qed
qed

theorem conditional_update_spec_witness:
  "\<exists>f'. fst (updateFlowRecordByIdExpectedRevision (default_env 9) ''f1'' 0 empty_flow_patch example_flow_state)
      = Inr (FlowApplied f') \<and> revisionF f' = 1"
proof -
  have inv: "flows_inv example_flow_state"
    using example_flow_reachable by (rule flow_reachable_flows_inv)
  obtain f where f: "map_of (flows example_flow_state) ''f1'' = Some f" "revisionF f = 0"
    using example_flow_lookup by auto
  then have "syncModeF f = Sm_managed \<Longrightarrow> controllerIdF f \<noteq> None"
    using flows_inv_lookup [OF inv f(1)] by (simp add: flow_wf_def)
  then have "\<not> (syncModeF f = Sm_managed \<and> patched_text (controllerIdFP empty_flow_patch) (controllerIdF f) = None)"
    by (auto simp: empty_flow_patch_def patched_text_def)
  with f conditional_update_spec [OF inv, where env = "default_env 9" and fid = "''f1''" and n = 0
      and p = empty_flow_patch]
  show ?thesis by (auto simp: case_prod_unfold)
qed

text \<open>
  No lost update: of all callers that have seen one revision of a flow, at most one conditional
  update is applied, whatever conditional updates run in between.
\<close>

theorem one_winner_per_revision:
  assumes "flows_inv st"
    and "fst (updateFlowRecordByIdExpectedRevision env fid n p st) = Inr (FlowApplied f)"
  shows "fst (updateFlowRecordByIdExpectedRevision env' fid n q
      (fold (\<lambda>(k, m, w) s. snd (updateFlowRecordByIdExpectedRevision (fst w) k m (snd w) s)) ws
        (snd (updateFlowRecordByIdExpectedRevision env fid n p st)))) \<noteq> Inr (FlowApplied g)"
  using flow_versions.one_winner [where s = st and k = fid and n = n and p = "(env, p)" and ws = ws
      and q = "(env', q)"] assms by auto

theorem one_winner_per_revision_witness:
  "fst (updateFlowRecordByIdExpectedRevision (default_env 9) ''f1'' 0 empty_flow_patch
     (snd (updateFlowRecordByIdExpectedRevision (default_env 8) ''f1'' 0 empty_flow_patch
        example_flow_state))) \<notin> range (\<lambda>g. Inr (FlowApplied g))"
proof -
  have inv: "flows_inv example_flow_state"
    using example_flow_reachable by (rule flow_reachable_flows_inv)
  obtain f0 where f0: "map_of (flows example_flow_state) ''f1'' = Some f0" "revisionF f0 = 0"
    using example_flow_lookup by auto
  then obtain f1 where "applyFlowPatch (default_env 8) f0 empty_flow_patch = Inr f1"
    using applyFlowPatch_total flows_inv_lookup [OF inv f0(1)] by (fastforce simp: empty_flow_patch_def)
  then have "fst (updateFlowRecordByIdExpectedRevision (default_env 8) ''f1'' 0 empty_flow_patch
      example_flow_state) = Inr (FlowApplied f1)"
    using f0 by (auto simp: updateExpected_applied)
  from one_winner_per_revision [OF inv this, of "default_env 9" empty_flow_patch "[]"]
  show ?thesis by auto
qed

text \<open>
  Any operation of the registry either leaves a record as it is or raises its revision by
  exactly one, and never changes its identifier, its owner, its synchronisation mode or its
  creation time.
\<close>

theorem flow_step_revision:
  assumes "flow_reachable st" "flow_step st st'"
    "map_of (flows st) k = Some f" "map_of (flows st') k = Some f'"
  shows "f' = f \<or> revisionF f' = revisionF f + 1 \<and> flowIdF f' = flowIdF f
     \<and> syncModeF f' = syncModeF f \<and> ownerKeyF f' = ownerKeyF f \<and> createdAtF f' = createdAtF f"
  using flow_step_evolves [OF flow_reachable_flows_inv [OF assms(1)] assms(2-4)]
  by (simp add: flow_evolves_def)

theorem flow_step_revision_witness:
  "\<exists>f f'. map_of (flows example_flow_state) ''f1'' = Some f
     \<and> map_of (flows (snd (updateFlowRecordByIdExpectedRevision (default_env 9) ''f1'' 0
          empty_flow_patch example_flow_state))) ''f1'' = Some f' \<and> revisionF f' = revisionF f + 1"
proof -
  let ?st = "snd (updateFlowRecordByIdExpectedRevision (default_env 9) ''f1'' 0
    empty_flow_patch example_flow_state)"
  obtain f where f: "map_of (flows example_flow_state) ''f1'' = Some f" "revisionF f = 0"
    using example_flow_lookup by auto
  have "map_option revisionF (map_of (flows ?st) ''f1'') = Some 1" by code_simp
  then obtain f' where f': "map_of (flows ?st) ''f1'' = Some f'" "revisionF f' = 1" by auto
  with flow_step_revision [OF example_flow_reachable flow_step.update f(1) f'(1)] f
  show ?thesis by auto
qed

text \<open>
  Durability: after a restart the registry read back from the table has the same record
  under every identifier as before, and the restore reports no failure.
\<close>

theorem flow_registry_survives_restart:
  assumes "flow_reachable st"
  shows "map_of (flows (restart_flows st)) = map_of (flows st) \<and> restoreFailure (restart_flows st) = None"
proof -
  have inv: "flows_inv st" using assms by (rule flow_reachable_flows_inv)
  then show ?thesis
    using restart_flows_sel [OF inv] load_mirror [of "flows st" "flowRows st"]
    by (simp add: flows_inv_def)
qed

theorem flow_registry_survives_restart_witness:
  "map_option goalF (map_of (flows (restart_flows example_flow_state)) ''f1'') = Some ''g''"
proof -
  have "map_option goalF (map_of (flows example_flow_state) ''f1'') = Some ''g''" by code_simp
  then show ?thesis using flow_registry_survives_restart [OF example_flow_reachable] by simp
qed

end
