(* ===== verification/TaskStore.thy ===== *)
theory TaskStore
  imports FlowStore
begin

text \<open>
  The SQLite tables of tasks and of their delivery states
  (\<open>src/tasks/task-registry.store.sqlite.ts\<close>), with the migration of legacy rows that runs
  whenever the database is opened. The columns the migration rewrites are kept as raw text; a
  JSON column is the value its text encodes.
\<close>

record TaskRow =
  r_task_id :: string
  r_runtime :: TaskRuntime
  r_task_kind :: "string option"
  r_source_id :: "string option"
  r_requester_session_key :: "string option"
  r_owner_key :: "string option"
  r_scope_kind :: string
  r_child_session_key :: "string option"
  r_parent_flow_id :: "string option"
  r_parent_task_id :: "string option"
  r_agent_id :: "string option"
  r_run_id :: "string option"
  r_label :: "string option"
  r_task :: string
  r_status :: TaskStatus
  r_delivery_status :: TaskDeliveryStatus
  r_notify_policy :: TaskNotifyPolicy
  r_created_at :: int
  r_started_at :: "int option"
  r_ended_at :: "int option"
  r_last_event_at :: "int option"
  r_cleanup_after :: "int option"
  r_error :: "string option"
  r_progress_summary :: "string option"
  r_terminal_summary :: "string option"
  r_terminal_outcome :: "TaskTerminalOutcome option"

record TaskDeliveryStateRow =
  d_task_id :: string
  d_requester_origin_json :: "DeliveryContext option"
  d_last_notified_event_at :: "int option"

definition scope_text :: "TaskScopeKind \<Rightarrow> string" where
  "scope_text k = (case k of Sk_session \<Rightarrow> ''session'' | Sk_system \<Rightarrow> ''system'')"

definition runtime_text :: "TaskRuntime \<Rightarrow> string" where
  "runtime_text r = (case r of Rt_subagent \<Rightarrow> ''subagent'' | Rt_acp \<Rightarrow> ''acp'' | Rt_cli \<Rightarrow> ''cli''
     | Rt_cron \<Rightarrow> ''cron'')"

definition rowToTaskRecord :: "TaskRow \<Rightarrow> TaskRecord" where
  "rowToTaskRecord row =
     (let owner = nullish (r_owner_key row) [];
          requester = (if r_scope_kind row = ''system'' then []
            else or_str (js_trim (nullish (r_requester_session_key row) [])) owner)
      in \<lparr>
     taskId = r_task_id row,
     runtime = r_runtime row,
     taskKind = text_column (r_task_kind row),
     sourceId = text_column (r_source_id row),
     requesterSessionKey = requester,
     ownerKey = owner,
     scopeKind = (if r_scope_kind row = ''system'' then Sk_system else Sk_session),
     childSessionKey = text_column (r_child_session_key row),
     parentFlowId = text_column (r_parent_flow_id row),
     parentTaskId = text_column (r_parent_task_id row),
     agentId = text_column (r_agent_id row),
     runId = text_column (r_run_id row),
     label = text_column (r_label row),
     task = r_task row,
     status = r_status row,
     deliveryStatus = r_delivery_status row,
     notifyPolicy = r_notify_policy row,
     createdAt = r_created_at row,
     startedAt = r_started_at row,
     endedAt = r_ended_at row,
     lastEventAt = r_last_event_at row,
     cleanupAfter = r_cleanup_after row,
     error = text_column (r_error row),
     progressSummary = text_column (r_progress_summary row),
     terminalSummary = text_column (r_terminal_summary row),
     terminalOutcome = r_terminal_outcome row\<rparr>)"

definition rowToTaskDeliveryState :: "TaskDeliveryStateRow \<Rightarrow> TaskDeliveryState" where
  "rowToTaskDeliveryState row = \<lparr>
     taskIdS = d_task_id row,
     requesterOriginS = d_requester_origin_json row,
     lastNotifiedEventAtS = d_last_notified_event_at row\<rparr>"

definition bindTaskRecordBase :: "TaskRecord \<Rightarrow> TaskRow" where
  "bindTaskRecordBase t = \<lparr>
     r_task_id = taskId t,
     r_runtime = runtime t,
     r_task_kind = taskKind t,
     r_source_id = sourceId t,
     r_requester_session_key = Some (if scopeKind t = Sk_system then [] else requesterSessionKey t),
     r_owner_key = Some (ownerKey t),
     r_scope_kind = scope_text (scopeKind t),
     r_child_session_key = childSessionKey t,
     r_parent_flow_id = parentFlowId t,
     r_parent_task_id = parentTaskId t,
     r_agent_id = agentId t,
     r_run_id = runId t,
     r_label = label t,
     r_task = task t,
     r_status = status t,
     r_delivery_status = deliveryStatus t,
     r_notify_policy = notifyPolicy t,
     r_created_at = createdAt t,
     r_started_at = startedAt t,
     r_ended_at = endedAt t,
     r_last_event_at = lastEventAt t,
     r_cleanup_after = cleanupAfter t,
     r_error = error t,
     r_progress_summary = progressSummary t,
     r_terminal_summary = terminalSummary t,
     r_terminal_outcome = terminalOutcome t\<rparr>"

definition bindTaskDeliveryState :: "TaskDeliveryState \<Rightarrow> TaskDeliveryStateRow" where
  "bindTaskDeliveryState s = \<lparr>
     d_task_id = taskIdS s,
     d_requester_origin_json = requesterOriginS s,
     d_last_notified_event_at = lastNotifiedEventAtS s\<rparr>"

type_synonym TaskTable = "(string \<times> TaskRow) list"
type_synonym DeliveryTable = "(string \<times> TaskDeliveryStateRow) list"

section \<open>Migration of legacy rows\<close>

text \<open>SQLite's \<open>trim\<close> removes spaces only; \<open>LIKE\<close> ignores the case of ASCII letters.\<close>

definition sql_trim :: "string \<Rightarrow> string" where
  "sql_trim s = rev (dropWhile (\<lambda>c. c = CHR 0x20) (rev (dropWhile (\<lambda>c. c = CHR 0x20) s)))"

definition like_system :: "string \<Rightarrow> bool" where
  "like_system s \<longleftrightarrow> starts_with ''system:'' (map (\<lambda>c. if ascii_upper c then js_lower_char c else c) s)"

definition migrate_owner :: "TaskRow \<Rightarrow> TaskRow" where
  "migrate_owner row =
     (let owner = orElse (r_owner_key row) (r_requester_session_key row);
          source = (case r_source_id row of Some s \<Rightarrow> if s = [] then r_task_id row else s
                    | None \<Rightarrow> r_task_id row)
      in row\<lparr>r_owner_key := Some (if sql_trim (nullish owner []) \<noteq> [] then sql_trim (nullish owner [])
           else ''system:'' @ runtime_text (r_runtime row) @ '':'' @ source)\<rparr>)"

definition migrate_scope :: "TaskRow \<Rightarrow> TaskRow" where
  "migrate_scope row = row\<lparr>r_scope_kind :=
     (if r_scope_kind row = ''system'' then ''system''
      else if like_system (nullish (r_owner_key row) []) then ''system'' else ''session'')\<rparr>"

definition migrate_requester :: "TaskRow \<Rightarrow> TaskRow" where
  "migrate_requester row = row\<lparr>r_requester_session_key :=
     (if r_scope_kind row = ''system'' then Some []
      else if sql_trim (nullish (r_requester_session_key row) []) \<noteq> []
      then Some (sql_trim (nullish (r_requester_session_key row) []))
      else r_owner_key row)\<rparr>"

definition migrateLegacyOwnerColumns :: "TaskTable \<Rightarrow> TaskTable" where
  "migrateLegacyOwnerColumns rows =
     map (\<lambda>(k, r). (k, migrate_requester (migrate_scope (migrate_owner r)))) rows"

section \<open>Operations\<close>

definition upsertTaskRegistryRecordToSqlite :: "TaskRecord \<Rightarrow> TaskTable \<Rightarrow> TaskTable" where
  "upsertTaskRegistryRecordToSqlite t rows = AList.update (taskId t) (bindTaskRecordBase t) rows"

definition upsertTaskDeliveryStateToSqlite :: "TaskDeliveryState \<Rightarrow> DeliveryTable \<Rightarrow> DeliveryTable" where
  "upsertTaskDeliveryStateToSqlite s rows = AList.update (taskIdS s) (bindTaskDeliveryState s) rows"

definition deleteTaskDeliveryStateFromSqlite :: "string \<Rightarrow> DeliveryTable \<Rightarrow> DeliveryTable" where
  "deleteTaskDeliveryStateFromSqlite k rows = AList.delete k rows"

definition upsertTaskWithDeliveryStateToSqlite ::
    "TaskRecord \<Rightarrow> TaskDeliveryState option \<Rightarrow> TaskTable \<times> DeliveryTable \<Rightarrow> TaskTable \<times> DeliveryTable" where
  "upsertTaskWithDeliveryStateToSqlite t state db =
     (upsertTaskRegistryRecordToSqlite t (fst db),
      case state of Some s \<Rightarrow> upsertTaskDeliveryStateToSqlite s (snd db)
      | None \<Rightarrow> deleteTaskDeliveryStateFromSqlite (taskId t) (snd db))"

definition deleteTaskAndDeliveryStateFromSqlite ::
    "string \<Rightarrow> TaskTable \<times> DeliveryTable \<Rightarrow> TaskTable \<times> DeliveryTable" where
  "deleteTaskAndDeliveryStateFromSqlite k db =
     (AList.delete k (fst db), AList.delete k (snd db))"

definition saveTaskRegistryStateToSqlite ::
    "(string \<times> TaskRecord) list \<Rightarrow> (string \<times> TaskDeliveryState) list \<Rightarrow> TaskTable \<times> DeliveryTable" where
  "saveTaskRegistryStateToSqlite ts states =
     (fold (\<lambda>(k, t). upsertTaskRegistryRecordToSqlite t) ts [],
      fold (\<lambda>(k, s). upsertTaskDeliveryStateToSqlite s) states [])"

definition loadTaskRegistryStateFromSqlite ::
    "TaskTable \<times> DeliveryTable \<Rightarrow> (string \<times> TaskRecord) list \<times> (string \<times> TaskDeliveryState) list" where
  "loadTaskRegistryStateFromSqlite db =
     (let taskRows = sort_key (\<lambda>r. (r_created_at r, r_task_id r)) (map snd (fst db));
          deliveryRows = sort_key d_task_id (map snd (snd db))
      in (fold (\<lambda>r m. AList.update (r_task_id r) (rowToTaskRecord r) m) taskRows [],
          fold (\<lambda>r m. AList.update (d_task_id r) (rowToTaskDeliveryState r) m) deliveryRows []))"

section \<open>Round trips\<close>

text \<open>
  The records a restart gives back unchanged: no optional text is empty, the owner key and the
  requester are trimmed and not empty, a system task is owned by a system key and has no
  requester, and a session task is not owned by a system key.
\<close>

definition task_texts_storable :: "TaskRecord \<Rightarrow> bool" where
  "task_texts_storable t \<longleftrightarrow> taskKind t \<noteq> Some [] \<and> sourceId t \<noteq> Some [] \<and> childSessionKey t \<noteq> Some []
     \<and> parentFlowId t \<noteq> Some [] \<and> parentTaskId t \<noteq> Some [] \<and> agentId t \<noteq> Some [] \<and> runId t \<noteq> Some []
     \<and> label t \<noteq> Some [] \<and> error t \<noteq> Some [] \<and> progressSummary t \<noteq> Some []
     \<and> terminalSummary t \<noteq> Some []"

definition task_storable :: "TaskRecord \<Rightarrow> bool" where
  "task_storable t \<longleftrightarrow> task_texts_storable t \<and> js_trim (ownerKey t) = ownerKey t \<and> ownerKey t \<noteq> []
     \<and> (case scopeKind t of Sk_system \<Rightarrow> requesterSessionKey t = []
        | Sk_session \<Rightarrow> \<not> like_system (ownerKey t) \<and> requesterSessionKey t \<noteq> []
            \<and> js_trim (requesterSessionKey t) = requesterSessionKey t)"

lemma js_trim_fixed_ends:
  assumes "js_trim s = s"
  shows "s = [] \<or> \<not> js_ws (hd s)" "s = [] \<or> \<not> js_ws (last s)"
proof -
  have len: "length (js_trim s) \<le> length (dropWhile js_ws s)"
    using length_dropWhile_le [of js_ws "rev (dropWhile js_ws s)"] by (simp add: js_trim_def)
  show hd: "s = [] \<or> \<not> js_ws (hd s)"
  proof (cases s)
    case (Cons c cs)
    have "js_ws c \<Longrightarrow> length (dropWhile js_ws s) \<le> length cs"
      using Cons length_dropWhile_le [of js_ws cs] by simp
    with len assms Cons show ?thesis by auto
  qed simp
  then have "dropWhile js_ws s = s" by (rule dropWhile_fixed)
  with assms have "dropWhile js_ws (rev s) = rev s"
    unfolding js_trim_def by (metis rev_rev_ident)
  then show "s = [] \<or> \<not> js_ws (last s)"
    by (metis hd_dropWhile_js hd_rev rev_is_Nil_conv)
qed

lemma sql_trim_fixed: "js_trim s = s \<Longrightarrow> sql_trim s = s"
proof -
  assume "js_trim s = s"
  note ends = js_trim_fixed_ends [OF this]
  let ?sp = "\<lambda>c. c = CHR 0x20"
  have ws: "?sp c \<Longrightarrow> js_ws c" for c by (simp add: js_ws_def)
  have "dropWhile ?sp s = s" "dropWhile ?sp (rev s) = rev s"
    using ends ws by (intro dropWhile_fixed; force simp: hd_rev)+
  then show ?thesis by (simp add: sql_trim_def)
qed

lemma task_row_roundtrip:
  assumes "task_storable t"
  shows "rowToTaskRecord (migrate_requester (migrate_scope (migrate_owner (bindTaskRecordBase t)))) = t"
proof -
  have own: "sql_trim (ownerKey t) = ownerKey t"
    using assms by (simp add: task_storable_def sql_trim_fixed)
  show ?thesis
  proof (cases "scopeKind t")
    case Sk_session
    then have "sql_trim (requesterSessionKey t) = requesterSessionKey t"
      using assms by (simp add: task_storable_def sql_trim_fixed)
    with own Sk_session assms show ?thesis
      by (cases t) (simp add: task_storable_def task_texts_storable_def bindTaskRecordBase_def
          rowToTaskRecord_def migrate_owner_def migrate_scope_def migrate_requester_def
          scope_text_def Let_def or_str_def)
  next
    case Sk_system
    with own assms show ?thesis
      by (cases t) (simp add: task_storable_def task_texts_storable_def bindTaskRecordBase_def
          rowToTaskRecord_def migrate_owner_def migrate_scope_def migrate_requester_def
          scope_text_def Let_def or_str_def)
  qed
qed

lemma delivery_row_roundtrip: "rowToTaskDeliveryState (bindTaskDeliveryState s) = s"
  by (cases s) (simp add: rowToTaskDeliveryState_def bindTaskDeliveryState_def)

end
