(* ===== verification/TaskPolicy.thy ===== *)
theory TaskPolicy
  imports DeliveryContexts
begin

text \<open>
  The texts of task notifications and the policy that says which task updates are delivered
  (\<open>src/tasks/task-status.ts\<close>, \<open>task-executor-policy.ts\<close>), and the agent part of a
  session key (\<open>sessions/session-key-utils.ts\<close>). Only string values are sanitised here: the
  registry never passes anything else. In the range of \<open>char\<close> there are no surrogates, so
  \<open>truncateUtf16Safe\<close> is a prefix.
\<close>

section \<open>Agent session keys\<close>

record ParsedAgentSessionKey =
  parsedAgentId :: string
  parsedRest :: string

definition parseAgentSessionKey :: "string option \<Rightarrow> ParsedAgentSessionKey option" where
  "parseAgentSessionKey sessionKey =
     (case normalizeOptionalLowercaseString sessionKey of None \<Rightarrow> None
      | Some raw \<Rightarrow>
        (let parts = filter (\<lambda>p. p \<noteq> []) (split_on (CHR '':'') raw)
         in if length parts < 3 \<or> parts ! 0 \<noteq> ''agent'' then None
            else let agent = normalizeOptionalString (Some (parts ! 1));
                     rest = join_with (CHR '':'') (drop 2 parts)
                 in case agent of None \<Rightarrow> None
                    | Some a \<Rightarrow> if rest = [] then None
                        else Some \<lparr>parsedAgentId = a, parsedRest = rest\<rparr>))"

section \<open>Status texts\<close>

definition INTERNAL_RUNTIME_CONTEXT_BEGIN :: string where
  "INTERNAL_RUNTIME_CONTEXT_BEGIN = ''<<<BEGIN_OPENCLAW_INTERNAL_CONTEXT>>>''"

definition INTERNAL_RUNTIME_CONTEXT_END :: string where
  "INTERNAL_RUNTIME_CONTEXT_END = ''<<<END_OPENCLAW_INTERNAL_CONTEXT>>>''"

definition truncateTaskStatusText :: "Env \<Rightarrow> string \<Rightarrow> nat \<Rightarrow> string" where
  "truncateTaskStatusText env value maxChars =
     (let trimmed = js_trim value
      in if length trimmed \<le> maxChars then trimmed
         else rev (dropWhile js_ws (rev (take (maxChars - 1) trimmed))) @ ellipsis env)"

definition stripInlineLeakedInternalContext :: "string \<Rightarrow> string" where
  "stripInlineLeakedInternalContext value =
     (let legacy = ''OpenClaw runtime context (internal):'';
          event = ''[Internal task completion event]'';
          beginIndex = js_index_of INTERNAL_RUNTIME_CONTEXT_BEGIN value;
          legacyHeaderIndex = js_index_of legacy value
      in if beginIndex \<noteq> None \<and> (js_includes INTERNAL_RUNTIME_CONTEXT_END value
           \<or> js_includes legacy value \<or> js_includes event value)
         then take (the beginIndex) value
         else if legacyHeaderIndex \<noteq> None \<and> (js_includes ''Keep internal details private.'' value
           \<or> js_includes event value)
         then take (the legacyHeaderIndex) value
         else value)"

definition sanitizeTaskStatusValue :: "Env \<Rightarrow> string \<Rightarrow> bool \<Rightarrow> string option" where
  "sanitizeTaskStatusValue env value errorContext =
     (let sanitized = js_trim (collapse_ws
            (sanitizeUserFacingText env (stripInlineLeakedInternalContext value) errorContext))
      in if sanitized \<noteq> [] then Some sanitized else None)"

definition sanitizeTaskStatusText ::
    "Env \<Rightarrow> string option \<Rightarrow> bool \<Rightarrow> nat option \<Rightarrow> string" where
  "sanitizeTaskStatusText env value errorContext maxChars =
     (let raw = nullish (Option.bind value (\<lambda>v. sanitizeTaskStatusValue env v errorContext)) [];
          sanitized = js_trim (collapse_ws raw)
      in if sanitized = [] then []
         else case maxChars of Some n \<Rightarrow> truncateTaskStatusText env sanitized n
              | None \<Rightarrow> sanitized)"

definition formatTaskStatusTitleText :: "Env \<Rightarrow> string \<Rightarrow> string" where
  "formatTaskStatusTitleText env value =
     or_str (sanitizeTaskStatusText env (Some value) False (Some 80)) ''Background task''"

definition formatTaskStatusTitle :: "Env \<Rightarrow> TaskRecord \<Rightarrow> string" where
  "formatTaskStatusTitle env t = formatTaskStatusTitleText env
     (or_str (js_trim (nullish (label t) [])) (js_trim (task t)))"

definition formatTaskStatusDetail :: "Env \<Rightarrow> TaskRecord \<Rightarrow> string option" where
  "formatTaskStatusDetail env t =
     (let shown = (\<lambda>s. if s \<noteq> [] then Some s else None)
      in if status t = St_running \<or> status t = St_queued
         then shown (sanitizeTaskStatusText env (progressSummary t) False (Some 120))
         else let sanitizedError = sanitizeTaskStatusText env (error t) True (Some 120)
              in if sanitizedError \<noteq> [] then Some sanitizedError
                 else shown (sanitizeTaskStatusText env (terminalSummary t) True (Some 120)))"

section \<open>Notification texts\<close>

definition resolveTaskDisplayTitle :: "Env \<Rightarrow> TaskRecord \<Rightarrow> string" where
  "resolveTaskDisplayTitle env t = formatTaskStatusTitleText env
     (or_str (js_trim (nullish (label t) []))
        (if runtime t = Rt_acp then ''ACP background task''
         else if runtime t = Rt_subagent then ''Subagent task''
         else or_str (js_trim (task t)) ''Background task''))"

definition resolveTaskRunLabel :: "TaskRecord \<Rightarrow> string" where
  "resolveTaskRunLabel t =
     (case runId t of None \<Rightarrow> []
      | Some r \<Rightarrow> if r = [] then [] else '' (run '' @ take 8 r @ '')'')"

definition formatTaskTerminalMessage :: "Env \<Rightarrow> TaskRecord \<Rightarrow> string" where
  "formatTaskTerminalMessage env t =
     (let title = resolveTaskDisplayTitle env t;
          runLabel = resolveTaskRunLabel t;
          blocked = (terminalOutcome t = Some To_blocked);
          summary = sanitizeTaskStatusText env (terminalSummary t)
            (status t \<noteq> St_succeeded \<or> blocked) None;
          err = sanitizeTaskStatusText env (error t) True None;
          fallbackSummary = sanitizeTaskStatusText env (terminalSummary t) True None;
          line = (\<lambda>head tail. head @ title @ runLabel @ ''.'' @ (if tail \<noteq> [] then '' '' @ tail else []))
      in case status t of
           St_succeeded \<Rightarrow>
             if blocked then line ''Background task blocked: '' summary
             else line ''Background task done: '' summary
         | St_timed_out \<Rightarrow> line ''Background task timed out: '' []
         | St_lost \<Rightarrow> line ''Background task lost: ''
             (or_str (or_str err fallbackSummary) ''Backing session disappeared.'')
         | St_cancelled \<Rightarrow> line ''Background task cancelled: '' []
         | _ \<Rightarrow> line ''Background task failed: '' (or_str err fallbackSummary))"

definition formatTaskBlockedFollowupMessage :: "Env \<Rightarrow> TaskRecord \<Rightarrow> string option" where
  "formatTaskBlockedFollowupMessage env t =
     (if status t \<noteq> St_succeeded \<or> terminalOutcome t \<noteq> Some To_blocked then None
      else Some (''Task needs follow-up: '' @ resolveTaskDisplayTitle env t @ resolveTaskRunLabel t
        @ ''. '' @ or_str (sanitizeTaskStatusText env (terminalSummary t) True None)
                          ''Task is blocked and needs follow-up.''))"

definition formatTaskStateChangeMessage :: "Env \<Rightarrow> TaskRecord \<Rightarrow> TaskEventRecord \<Rightarrow> string option" where
  "formatTaskStateChangeMessage env t event =
     (let title = resolveTaskDisplayTitle env t
      in if kindE event = Ev_status St_running then Some (''Background task started: '' @ title @ ''.'')
         else if kindE event = Ev_progress then
           (let summary = sanitizeTaskStatusText env (summaryE event) False None
            in if summary \<noteq> [] then Some (''Background task update: '' @ title @ ''. '' @ summary)
               else None)
         else None)"

section \<open>Delivery policy\<close>

definition shouldAutoDeliverTaskTerminalUpdate :: "TaskRecord \<Rightarrow> bool" where
  "shouldAutoDeliverTaskTerminalUpdate t =
     (if notifyPolicy t = Np_silent then False
      else if runtime t = Rt_subagent \<and> status t \<noteq> St_cancelled then False
      else if \<not> isTerminalTaskStatus (status t) then False
      else deliveryStatus t = Ds_pending)"

definition shouldAutoDeliverTaskStateChange :: "TaskRecord \<Rightarrow> bool" where
  "shouldAutoDeliverTaskStateChange t \<longleftrightarrow> notifyPolicy t = Np_state_changes
     \<and> deliveryStatus t = Ds_pending \<and> \<not> isTerminalTaskStatus (status t)"

definition shouldSuppressDuplicateTerminalDelivery :: "TaskRecord \<Rightarrow> string option \<Rightarrow> bool" where
  "shouldSuppressDuplicateTerminalDelivery t preferredTaskId =
     (if runtime t \<noteq> Rt_acp \<or> \<not> truthy (map_option js_trim (runId t)) then False
      else truthy preferredTaskId \<and> preferredTaskId \<noteq> Some (taskId t))"

end
