(* ===== verification/TaskState.thy ===== *)
theory TaskState
  imports TaskFlowRegistry TaskStore TaskPolicy
begin

text \<open>
  The state of the task registry (\<open>src/tasks/task-registry.ts\<close>) and its four secondary
  indexes. The state extends the state of the flow registry, because updates of tasks write
  flows. The last two fields make the asynchronous parts explicit: the effects the registry has
  had on the rest of the program, and the suspended handlers waiting for an external answer.

  \<open>x?.trim()\<close> followed by a test for truth is \<open>normalizeOptionalString\<close>.
\<close>

section \<open>State\<close>

record TaskDeliveryOwner =
  sessionKeyO :: "string option"
  requesterOriginO :: "DeliveryContext option"
  flowIdO :: "string option"

record MessageParams =
  channelM :: "string option"
  toM :: string
  accountIdM :: "string option"
  threadIdM :: "ThreadId option"
  contentM :: string
  agentIdM :: "string option"
  idempotencyKeyM :: string
  mirrorSessionKeyM :: string

datatype Effect =
    EnqueueSystemEvent string string string "DeliveryContext option"
  | RequestHeartbeat string string
  | SendMessage MessageParams

text \<open>
  Where a handler is suspended: before the delivery runtime is loaded, before the message is
  sent (of a terminal update and of a state change), or before the control runtime has answered
  a cancellation. The arguments are the local variables the rest of the handler uses.
\<close>

datatype Continuation =
    TerminalRuntime string TaskRecord TaskDeliveryOwner string
  | TerminalSend string TaskRecord string
  | StateRuntime string TaskRecord "TaskDeliveryState option" TaskEventRecord TaskDeliveryOwner string
  | StateSend string TaskRecord "TaskDeliveryState option" TaskEventRecord
  | CancelControl TaskRecord string

type_synonym Index = "(string \<times> string list) list"

record TaskReg = FlowReg +
  tasks :: "(string \<times> TaskRecord) list"
  taskDeliveryStates :: "(string \<times> TaskDeliveryState) list"
  taskIdsByRunId :: Index
  taskIdsByOwnerKey :: Index
  taskIdsByParentFlowId :: Index
  taskIdsByRelatedSessionKey :: Index
  tasksWithPendingDelivery :: "string list"
  restoreAttempted :: bool
  taskRows :: TaskTable
  deliveryRows :: DeliveryTable
  effects :: "Effect list"
  continuations :: "Continuation list"

section \<open>Indexes\<close>

definition addIndexedKey :: "string \<Rightarrow> string \<Rightarrow> Index \<Rightarrow> Index" where
  "addIndexedKey key tid index =
     AList.update key (set_add tid (nullish (map_of index key) [])) index"

definition deleteIndexedKey :: "string \<Rightarrow> string \<Rightarrow> Index \<Rightarrow> Index" where
  "deleteIndexedKey key tid index =
     (case map_of index key of None \<Rightarrow> index
      | Some ids \<Rightarrow> (let ids' = set_del tid ids
          in if ids' = [] then AList.delete key index else AList.update key ids' index))"

definition addRunIdIndex :: "string \<Rightarrow> string option \<Rightarrow> Index \<Rightarrow> Index" where
  "addRunIdIndex tid rid index =
     (case normalizeOptionalString rid of None \<Rightarrow> index | Some trimmed \<Rightarrow> addIndexedKey trimmed tid index)"

definition getTaskRelatedSessionIndexKeys :: "TaskRecord \<Rightarrow> string list" where
  "getTaskRelatedSessionIndexKeys t =
     fold set_add (List.map_filter id [normalizeOptionalString (Some (ownerKey t)),
       normalizeOptionalString (childSessionKey t)]) []"

definition addOwnerKeyIndex :: "string \<Rightarrow> TaskRecord \<Rightarrow> Index \<Rightarrow> Index" where
  "addOwnerKeyIndex tid t index =
     (case normalizeOptionalString (Some (ownerKey t)) of None \<Rightarrow> index
      | Some key \<Rightarrow> addIndexedKey key tid index)"

definition deleteOwnerKeyIndex :: "string \<Rightarrow> TaskRecord \<Rightarrow> Index \<Rightarrow> Index" where
  "deleteOwnerKeyIndex tid t index =
     (case normalizeOptionalString (Some (ownerKey t)) of None \<Rightarrow> index
      | Some key \<Rightarrow> deleteIndexedKey key tid index)"

definition addParentFlowIdIndex :: "string \<Rightarrow> TaskRecord \<Rightarrow> Index \<Rightarrow> Index" where
  "addParentFlowIdIndex tid t index =
     (case normalizeOptionalString (parentFlowId t) of None \<Rightarrow> index
      | Some key \<Rightarrow> addIndexedKey key tid index)"

definition deleteParentFlowIdIndex :: "string \<Rightarrow> TaskRecord \<Rightarrow> Index \<Rightarrow> Index" where
  "deleteParentFlowIdIndex tid t index =
     (case normalizeOptionalString (parentFlowId t) of None \<Rightarrow> index
      | Some key \<Rightarrow> deleteIndexedKey key tid index)"

definition addRelatedSessionKeyIndex :: "string \<Rightarrow> TaskRecord \<Rightarrow> Index \<Rightarrow> Index" where
  "addRelatedSessionKeyIndex tid t index =
     fold (\<lambda>key. addIndexedKey key tid) (getTaskRelatedSessionIndexKeys t) index"

definition deleteRelatedSessionKeyIndex :: "string \<Rightarrow> TaskRecord \<Rightarrow> Index \<Rightarrow> Index" where
  "deleteRelatedSessionKeyIndex tid t index =
     fold (\<lambda>key. deleteIndexedKey key tid) (getTaskRelatedSessionIndexKeys t) index"

definition rebuildRunIdIndex :: "TaskReg \<Rightarrow> TaskReg" where
  "rebuildRunIdIndex st =
     st\<lparr>taskIdsByRunId := fold (\<lambda>(tid, t). addRunIdIndex tid (runId t)) (tasks st) []\<rparr>"

definition rebuildOwnerKeyIndex :: "TaskReg \<Rightarrow> TaskReg" where
  "rebuildOwnerKeyIndex st =
     st\<lparr>taskIdsByOwnerKey := fold (\<lambda>(tid, t). addOwnerKeyIndex tid t) (tasks st) []\<rparr>"

definition rebuildParentFlowIdIndex :: "TaskReg \<Rightarrow> TaskReg" where
  "rebuildParentFlowIdIndex st =
     st\<lparr>taskIdsByParentFlowId := fold (\<lambda>(tid, t). addParentFlowIdIndex tid t) (tasks st) []\<rparr>"

definition rebuildRelatedSessionKeyIndex :: "TaskReg \<Rightarrow> TaskReg" where
  "rebuildRelatedSessionKeyIndex st =
     st\<lparr>taskIdsByRelatedSessionKey :=
       fold (\<lambda>(tid, t). addRelatedSessionKeyIndex tid t) (tasks st) []\<rparr>"

section \<open>The indexes keep the contract of \<open>index_maintain\<close>\<close>

definition idx_look :: "Index \<Rightarrow> string \<Rightarrow> string set" where
  "idx_look i k = set (nullish (map_of i k) [])"

definition idx_wf :: "Index \<Rightarrow> bool" where
  "idx_wf i \<longleftrightarrow> distinct (map fst i) \<and> (\<forall>(k, ids) \<in> set i. distinct ids \<and> ids \<noteq> [])"

definition run_keys :: "TaskRecord \<Rightarrow> string set" where
  "run_keys t = set_option (normalizeOptionalString (runId t))"

definition owner_keys :: "TaskRecord \<Rightarrow> string set" where
  "owner_keys t = set_option (normalizeOptionalString (Some (ownerKey t)))"

definition flow_keys :: "TaskRecord \<Rightarrow> string set" where
  "flow_keys t = set_option (normalizeOptionalString (parentFlowId t))"

definition session_keys :: "TaskRecord \<Rightarrow> string set" where
  "session_keys t = owner_keys t \<union> set_option (normalizeOptionalString (childSessionKey t))"

lemma idx_wf_lookup: "idx_wf i \<Longrightarrow> map_of i k = Some ids \<Longrightarrow> distinct ids \<and> ids \<noteq> []"
  by (auto simp: idx_wf_def dest: map_of_SomeD)

lemma idx_wf_ids: "idx_wf i \<Longrightarrow> distinct (nullish (map_of i k) [])"
  by (cases "map_of i k") (auto dest: idx_wf_lookup)

lemma look_addIndexedKey:
  "idx_look (addIndexedKey key tid i) k = (if k = key then insert tid (idx_look i k) else idx_look i k)"
  by (auto simp: addIndexedKey_def idx_look_def)

lemma wf_addIndexedKey: "idx_wf i \<Longrightarrow> idx_wf (addIndexedKey key tid i)"
  using idx_wf_ids [of i key]
  by (auto simp: addIndexedKey_def idx_wf_def set_update_distinct)

lemma set_del_Nil: "set_del x xs = [] \<longleftrightarrow> set xs \<subseteq> {x}"
  by (metis Diff_eq_empty_iff set_empty set_set_del)

lemma look_deleteIndexedKey:
  "idx_look (deleteIndexedKey key tid i) k = (if k = key then idx_look i k - {tid} else idx_look i k)"
proof (cases "map_of i key")
  case (Some ids)
  then show ?thesis
    by (auto simp: deleteIndexedKey_def idx_look_def Let_def set_del_Nil)
qed (simp add: deleteIndexedKey_def idx_look_def)

lemma wf_deleteIndexedKey:
  assumes "idx_wf i"
  shows "idx_wf (deleteIndexedKey key tid i)"
proof (cases "map_of i key")
  case (Some ids)
  have "idx_wf (AList.delete key i)"
    using assms by (simp add: idx_wf_def set_delete)
  moreover have "set_del tid ids \<noteq> [] \<Longrightarrow> idx_wf (AList.update key (set_del tid ids) i)"
    using assms idx_wf_lookup [OF assms Some] by (simp add: idx_wf_def set_update_distinct)
  ultimately show ?thesis by (simp add: deleteIndexedKey_def Let_def Some)
qed (simp add: deleteIndexedKey_def assms)

lemma set_related_keys: "set (getTaskRelatedSessionIndexKeys t) = session_keys t"
  by (auto simp: getTaskRelatedSessionIndexKeys_def session_keys_def owner_keys_def
      List.map_filter_def split: option.splits)

lemma distinct_related_keys: "distinct (getTaskRelatedSessionIndexKeys t)"
  by (auto simp: getTaskRelatedSessionIndexKeys_def List.map_filter_def)

lemma fold_addIndexedKey:
  "idx_look (fold (\<lambda>key. addIndexedKey key tid) ks i) k
     = (if k \<in> set ks then insert tid (idx_look i k) else idx_look i k)"
  "idx_wf i \<Longrightarrow> idx_wf (fold (\<lambda>key. addIndexedKey key tid) ks i)"
  by (induction ks arbitrary: i) (auto simp: look_addIndexedKey wf_addIndexedKey)

lemma fold_deleteIndexedKey:
  "idx_look (fold (\<lambda>key. deleteIndexedKey key tid) ks i) k
     = (if k \<in> set ks then idx_look i k - {tid} else idx_look i k)"
  "idx_wf i \<Longrightarrow> idx_wf (fold (\<lambda>key. deleteIndexedKey key tid) ks i)"
  by (induction ks arbitrary: i) (auto simp: look_deleteIndexedKey wf_deleteIndexedKey)

interpretation run_index: index_build "[]" idx_look idx_wf run_keys
    "\<lambda>tid t. addRunIdIndex tid (runId t)"
  by unfold_locales
    (auto simp: idx_look_def [of "[]"] idx_wf_def [of "[]"] addRunIdIndex_def run_keys_def
      look_addIndexedKey wf_addIndexedKey split: option.splits)

interpretation owner_index: index_maintain "[]" idx_look idx_wf owner_keys addOwnerKeyIndex
    deleteOwnerKeyIndex
  by unfold_locales
    (auto simp: idx_look_def [of "[]"] idx_wf_def [of "[]"] addOwnerKeyIndex_def
      deleteOwnerKeyIndex_def owner_keys_def look_addIndexedKey wf_addIndexedKey
      look_deleteIndexedKey wf_deleteIndexedKey split: option.splits)

interpretation flow_index: index_maintain "[]" idx_look idx_wf flow_keys addParentFlowIdIndex
    deleteParentFlowIdIndex
  by unfold_locales
    (auto simp: idx_look_def [of "[]"] idx_wf_def [of "[]"] addParentFlowIdIndex_def
      deleteParentFlowIdIndex_def flow_keys_def look_addIndexedKey wf_addIndexedKey
      look_deleteIndexedKey wf_deleteIndexedKey split: option.splits)

interpretation session_index: index_maintain "[]" idx_look idx_wf session_keys
    addRelatedSessionKeyIndex deleteRelatedSessionKeyIndex
  by unfold_locales
    (auto simp: idx_look_def [of "[]"] idx_wf_def [of "[]"] addRelatedSessionKeyIndex_def
      deleteRelatedSessionKeyIndex_def fold_addIndexedKey fold_deleteIndexedKey set_related_keys)

end
