(* ===== verification/TaskQueries.thy ===== *)
theory TaskQueries
  imports TaskState
begin

text \<open>
  The read-only operations of the task registry (\<open>src/tasks/task-registry.ts\<close>): lookups through
  the indexes, the lists sorted newest first, and the helpers that decide scope, owner, delivery
  status and outcome of a new task. Copies of records are the records themselves.
\<close>

section \<open>Helpers of creation\<close>

definition assertTaskOwner :: "string \<Rightarrow> TaskScopeKind \<Rightarrow> TaskError + unit" where
  "assertTaskOwner owner scope =
     (if js_trim owner = [] \<and> scope \<noteq> Sk_system then Inl TaskOwnerKeyRequired else Inr ())"

definition assertParentFlowLinkAllowed ::
    "string \<Rightarrow> TaskScopeKind \<Rightarrow> string option \<Rightarrow> 'a FlowReg_scheme \<Rightarrow> TaskError + unit" where
  "assertParentFlowLinkAllowed owner scope flowId st =
     (case normalizeOptionalString flowId of None \<Rightarrow> Inr ()
      | Some fid \<Rightarrow>
        if scope \<noteq> Sk_session then Inl (ParentFlowLinkError scope_kind_not_session fid None)
        else case getTaskFlowById st fid of
          None \<Rightarrow> Inl (ParentFlowLinkError parent_flow_not_found fid None)
        | Some flow \<Rightarrow>
          if normalizeOptionalString (Some (ownerKeyF flow)) \<noteq> normalizeOptionalString (Some owner)
          then Inl (ParentFlowLinkError owner_key_mismatch fid None)
          else if cancelRequestedAtF flow \<noteq> None
          then Inl (ParentFlowLinkError cancel_requested fid (Some (statusF flow)))
          else if isTerminalFlowStatus (statusF flow)
          then Inl (ParentFlowLinkError terminal fid (Some (statusF flow)))
          else Inr ())"

definition ensureDeliveryStatus :: "string \<Rightarrow> TaskScopeKind \<Rightarrow> TaskDeliveryStatus" where
  "ensureDeliveryStatus owner scope =
     (if scope = Sk_system then Ds_not_applicable
      else if js_trim owner \<noteq> [] then Ds_pending else Ds_parent_missing)"

definition ensureNotifyPolicy ::
    "TaskNotifyPolicy option \<Rightarrow> TaskDeliveryStatus option \<Rightarrow> string \<Rightarrow> TaskScopeKind \<Rightarrow> TaskNotifyPolicy" where
  "ensureNotifyPolicy policy delivery owner scope =
     (case policy of Some p \<Rightarrow> p
      | None \<Rightarrow> if nullish delivery (ensureDeliveryStatus owner scope) = Ds_not_applicable
          then Np_silent else Np_done_only)"

definition resolveTaskScopeKind :: "TaskScopeKind option \<Rightarrow> string \<Rightarrow> TaskScopeKind" where
  "resolveTaskScopeKind scope requester =
     (case scope of Some s \<Rightarrow> s
      | None \<Rightarrow> if js_trim requester \<noteq> [] then Sk_session else Sk_system)"

definition resolveTaskRequesterSessionKey ::
    "string option \<Rightarrow> string option \<Rightarrow> TaskScopeKind option \<Rightarrow> string" where
  "resolveTaskRequesterSessionKey requester owner scope =
     (case normalizeOptionalString requester of Some r \<Rightarrow> r
      | None \<Rightarrow> if scope = Some Sk_system then []
          else nullish (map_option js_trim owner) [])"

definition resolveTaskOwnerKey :: "string \<Rightarrow> string option \<Rightarrow> string" where
  "resolveTaskOwnerKey requester owner =
     nullish (normalizeOptionalString owner) (js_trim requester)"

definition normalizeTaskSummary :: "string option \<Rightarrow> string option" where
  "normalizeTaskSummary value =
     (case map_option (\<lambda>v. js_trim (collapse_ws v)) value of None \<Rightarrow> None
      | Some normalized \<Rightarrow> if normalized \<noteq> [] then Some normalized else None)"

definition normalizeTaskStatus :: "TaskStatus option \<Rightarrow> TaskStatus" where
  "normalizeTaskStatus s = nullish s St_queued"

definition resolveTaskTerminalOutcome ::
    "TaskStatus \<Rightarrow> TaskTerminalOutcome option \<Rightarrow> TaskTerminalOutcome option" where
  "resolveTaskTerminalOutcome s outcome =
     (case outcome of Some x \<Rightarrow> Some x
      | None \<Rightarrow> if s = St_succeeded then Some To_succeeded else None)"

definition appendTaskEvent :: "int \<Rightarrow> TaskEventKind \<Rightarrow> string option \<Rightarrow> TaskEventRecord" where
  "appendTaskEvent at kind summary =
     \<lparr>atE = at, kindE = kind, summaryE = normalizeTaskSummary summary\<rparr>"

section \<open>Lookups by run\<close>

definition getTasksByRunId :: "string \<Rightarrow> TaskReg \<Rightarrow> TaskRecord list" where
  "getTasksByRunId rid st =
     List.map_filter (map_of (tasks st)) (nullish (map_of (taskIdsByRunId st) (js_trim rid)) [])"

definition taskRunScopeKey :: "TaskRecord \<Rightarrow> string" where
  "taskRunScopeKey t = join_with (CHR 0x00) [runtime_text (runtime t), scope_text (scopeKind t),
     nullish (normalizeOptionalString (Some (ownerKey t))) [],
     nullish (normalizeOptionalString (childSessionKey t)) []]"

definition getTasksByRunScope ::
    "string \<Rightarrow> TaskRuntime option \<Rightarrow> string option \<Rightarrow> TaskReg \<Rightarrow> TaskRecord list" where
  "getTasksByRunScope rid rt session st =
     (let matches = filter (\<lambda>t. rt = None \<or> Some (runtime t) = rt) (getTasksByRunId rid st)
      in case normalizeOptionalString session of
        Some sessionKey \<Rightarrow>
          (let childMatches = filter (\<lambda>t. normalizeOptionalString (childSessionKey t) = Some sessionKey) matches
           in if childMatches \<noteq> [] then childMatches
              else filter (\<lambda>t. scopeKind t = Sk_session
                     \<and> normalizeOptionalString (Some (ownerKey t)) = Some sessionKey) matches)
      | None \<Rightarrow> if length (remdups (map taskRunScopeKey matches)) \<le> 1 then matches else [])"

text \<open>The comparison \<open>(normalizeOptionalString(x) ?? "") === (normalizeOptionalString(y) ?? "")\<close>.\<close>

definition same_text :: "string option \<Rightarrow> string option \<Rightarrow> bool" where
  "same_text x y \<longleftrightarrow> nullish (normalizeOptionalString x) [] = nullish (normalizeOptionalString y) []"

definition getPeerTasksForDelivery :: "TaskRecord \<Rightarrow> TaskReg \<Rightarrow> TaskRecord list" where
  "getPeerTasksForDelivery t st =
     (if normalizeOptionalString (runId t) = None then []
      else filter (\<lambda>c. runtime c = runtime t \<and> scopeKind c = scopeKind t
             \<and> same_text (Some (ownerKey c)) (Some (ownerKey t))
             \<and> same_text (childSessionKey c) (childSessionKey t))
           (getTasksByRunId (nullish (runId t) []) st))"

definition taskLookupPriority :: "TaskRecord \<Rightarrow> int" where
  "taskLookupPriority t = (if runtime t = Rt_cli then 1 else 0)"

definition pickPreferredRunIdTask :: "TaskRecord list \<Rightarrow> TaskRecord option" where
  "pickPreferredRunIdTask matches =
     first_of (sort_key (\<lambda>t. (taskLookupPriority t, createdAt t)) matches)"

text \<open>
  \<open>toSorted(compareTasksNewestFirst)\<close> on records with their insertion index: by decreasing
  creation time, then by decreasing index.
\<close>

definition compareTasksNewestFirst :: "TaskRecord list \<Rightarrow> TaskRecord list" where
  "compareTasksNewestFirst ts =
     map snd (sort_key (\<lambda>(i, t). (- createdAt t, - int i)) (enumerate 0 ts))"

section \<open>Lists\<close>

definition listTaskRecords :: "TaskReg \<Rightarrow> TaskRecord list" where
  "listTaskRecords st = compareTasksNewestFirst (map snd (tasks st))"

definition getTaskById :: "string \<Rightarrow> TaskReg \<Rightarrow> TaskRecord option" where
  "getTaskById tid st = map_of (tasks st) (js_trim tid)"

definition findTaskByRunId :: "string \<Rightarrow> TaskReg \<Rightarrow> TaskRecord option" where
  "findTaskByRunId rid st = pickPreferredRunIdTask (getTasksByRunId rid st)"

text \<open>The insertion index counts all identifiers of the index entry, as the code's \<open>map\<close> does.\<close>

definition listTasksFromIndex :: "Index \<Rightarrow> string \<Rightarrow> TaskReg \<Rightarrow> TaskRecord list" where
  "listTasksFromIndex index key st =
     map snd (sort_key (\<lambda>(i, t). (- createdAt t, - int i))
       (List.map_filter (\<lambda>(i, tid). map_option (Pair i) (map_of (tasks st) tid))
         (enumerate 0 (nullish (map_of index key) []))))"

definition listTasksForSessionKey :: "string \<Rightarrow> TaskReg \<Rightarrow> TaskRecord list" where
  "listTasksForSessionKey session st =
     (case normalizeOptionalString (Some session) of None \<Rightarrow> []
      | Some key \<Rightarrow> listTasksFromIndex (taskIdsByRelatedSessionKey st) key st)"

definition findLatestTaskForSessionKey :: "string \<Rightarrow> TaskReg \<Rightarrow> TaskRecord option" where
  "findLatestTaskForSessionKey session st = first_of (listTasksForSessionKey session st)"

definition listTasksForAgentId :: "string \<Rightarrow> TaskReg \<Rightarrow> TaskRecord list" where
  "listTasksForAgentId agent st =
     (let lookup = js_trim agent
      in if lookup = [] then []
         else sort_key (\<lambda>t. - createdAt t)
           (filter (\<lambda>t. map_option js_trim (agentId t) = Some lookup) (map snd (tasks st))))"

definition listTasksForOwnerKey :: "string \<Rightarrow> TaskReg \<Rightarrow> TaskRecord list" where
  "listTasksForOwnerKey owner st =
     (case normalizeOptionalString (Some owner) of None \<Rightarrow> []
      | Some key \<Rightarrow> listTasksFromIndex (taskIdsByOwnerKey st) key st)"

definition findLatestTaskForOwnerKey :: "string \<Rightarrow> TaskReg \<Rightarrow> TaskRecord option" where
  "findLatestTaskForOwnerKey owner st = first_of (listTasksForOwnerKey owner st)"

definition listTasksForFlowId :: "string \<Rightarrow> TaskReg \<Rightarrow> TaskRecord list" where
  "listTasksForFlowId flowId st =
     (let key = js_trim flowId
      in if key = [] then [] else listTasksFromIndex (taskIdsByParentFlowId st) key st)"

definition findLatestTaskForFlowId :: "string \<Rightarrow> TaskReg \<Rightarrow> TaskRecord option" where
  "findLatestTaskForFlowId flowId st = first_of (listTasksForFlowId flowId st)"

definition listTasksForRelatedSessionKey :: "string \<Rightarrow> TaskReg \<Rightarrow> TaskRecord list" where
  "listTasksForRelatedSessionKey session st =
     (case normalizeOptionalString (Some session) of None \<Rightarrow> []
      | Some key \<Rightarrow> listTasksFromIndex (taskIdsByRelatedSessionKey st) key st)"

definition findLatestTaskForRelatedSessionKey :: "string \<Rightarrow> TaskReg \<Rightarrow> TaskRecord option" where
  "findLatestTaskForRelatedSessionKey session st = first_of (listTasksForRelatedSessionKey session st)"

definition resolveTaskForLookupToken :: "string \<Rightarrow> TaskReg \<Rightarrow> TaskRecord option" where
  "resolveTaskForLookupToken token st =
     (let lookup = js_trim token
      in if lookup = [] then None
         else orElse (getTaskById lookup st)
                (orElse (findTaskByRunId lookup st) (findLatestTaskForRelatedSessionKey lookup st)))"

text \<open>The filter for tasks of the same run, and the test for the very same task.\<close>

definition run_scope_match ::
    "TaskRuntime \<Rightarrow> string \<Rightarrow> TaskScopeKind \<Rightarrow> string option \<Rightarrow> string option \<Rightarrow> TaskRecord \<Rightarrow> bool" where
  "run_scope_match rt owner scope childKey flowId t \<longleftrightarrow> runtime t = rt \<and> scopeKind t = scope
     \<and> same_text (Some (ownerKey t)) (Some owner)
     \<and> same_text (childSessionKey t) childKey
     \<and> same_text (parentFlowId t) flowId"

definition exact_match :: "string option \<Rightarrow> string \<Rightarrow> TaskRecord \<Rightarrow> bool" where
  "exact_match lbl text t \<longleftrightarrow> same_text (label t) lbl \<and> same_text (Some (task t)) (Some text)"

definition findExistingTaskForCreate ::
    "TaskRuntime \<Rightarrow> string \<Rightarrow> TaskScopeKind \<Rightarrow> string option \<Rightarrow> string option \<Rightarrow> string option
      \<Rightarrow> string option \<Rightarrow> string \<Rightarrow> TaskReg \<Rightarrow> TaskRecord option" where
  "findExistingTaskForCreate rt owner scope childKey flowId rid lbl text st =
     (case normalizeOptionalString rid of None \<Rightarrow> None
      | Some run \<Rightarrow>
        (let runScopeMatches = filter (run_scope_match rt owner scope childKey flowId) (getTasksByRunId run st)
         in case find (exact_match lbl text) runScopeMatches of
              Some exact \<Rightarrow> Some exact
            | None \<Rightarrow> if rt \<noteq> Rt_acp then None else pickPreferredRunIdTask runScopeMatches))"

lemma in_set_sort_head: "sort_key f xs = y # ys \<Longrightarrow> y \<in> set xs"
  by (metis list.set_intros(1) set_sort)

lemma pickPreferredRunIdTask_SomeD: "pickPreferredRunIdTask xs = Some t \<Longrightarrow> t \<in> set xs"
  by (auto simp: pickPreferredRunIdTask_def first_of_def dest: in_set_sort_head split: list.splits)

lemma pickPreferredRunIdTask_None: "pickPreferredRunIdTask xs = None \<longleftrightarrow> xs = []"
  by (auto simp: pickPreferredRunIdTask_def first_of_def split: list.splits)
     (metis length_0_conv length_sort)

lemma find_SomeD: "find P xs = Some x \<Longrightarrow> P x \<and> x \<in> set xs"
  by (auto simp: find_Some_iff)

lemma findExisting_SomeD:
  assumes "findExistingTaskForCreate rt w s ck fid rid l x st = Some t"
  shows "\<exists>run. normalizeOptionalString rid = Some run \<and> t \<in> set (getTasksByRunId run st)
    \<and> run_scope_match rt w s ck fid t"
  using assms
  by (auto simp: findExistingTaskForCreate_def Let_def dest!: find_SomeD pickPreferredRunIdTask_SomeD
      split: option.splits if_splits)

end
