(* ===== verification/TaskUpdates.thy ===== *)
theory TaskUpdates
  imports TaskQueries
begin

text \<open>
  The writes of the task registry (\<open>src/tasks/task-registry.ts\<close>): persistence, the update of one
  task with the upkeep of the indexes, of the table and of the flow it belongs to, the delivery
  states, restoring and deleting.
\<close>

section \<open>Persistence\<close>

text \<open>The default store has all the incremental operations, so the snapshot is never the fallback.\<close>

definition persistTaskUpsert :: "TaskRecord \<Rightarrow> TaskReg \<Rightarrow> TaskReg" where
  "persistTaskUpsert t st =
     (let db = upsertTaskWithDeliveryStateToSqlite t (map_of (taskDeliveryStates st) (taskId t))
                 (taskRows st, deliveryRows st)
      in st\<lparr>taskRows := fst db, deliveryRows := snd db\<rparr>)"

definition persistTaskDelete :: "string \<Rightarrow> TaskReg \<Rightarrow> TaskReg" where
  "persistTaskDelete tid st =
     (let db = deleteTaskAndDeliveryStateFromSqlite tid (taskRows st, deliveryRows st)
      in st\<lparr>taskRows := fst db, deliveryRows := snd db\<rparr>)"

definition persistTaskDeliveryStateUpsert :: "TaskDeliveryState \<Rightarrow> TaskReg \<Rightarrow> TaskReg" where
  "persistTaskDeliveryStateUpsert s st =
     st\<lparr>deliveryRows := upsertTaskDeliveryStateToSqlite s (deliveryRows st)\<rparr>"

definition persistTaskDeliveryStateDelete :: "string \<Rightarrow> TaskReg \<Rightarrow> TaskReg" where
  "persistTaskDeliveryStateDelete tid st =
     st\<lparr>deliveryRows := deleteTaskDeliveryStateFromSqlite tid (deliveryRows st)\<rparr>"

section \<open>Cancellation of managed flows\<close>

definition awaits_cancellation :: "TaskFlowRecord \<Rightarrow> bool" where
  "awaits_cancellation flow \<longleftrightarrow> syncModeF flow = Sm_managed \<and> cancelRequestedAtF flow \<noteq> None
     \<and> \<not> isTerminalFlowStatus (statusF flow)"

definition has_active_task :: "string \<Rightarrow> TaskReg \<Rightarrow> bool" where
  "has_active_task fid st \<longleftrightarrow> list_ex (\<lambda>t. isActiveTaskStatus (status t)) (listTasksForFlowId fid st)"

text \<open>The loop over the attempts; the argument counts those left.\<close>

fun cancelFlowAttempts :: "Env \<Rightarrow> nat \<Rightarrow> string \<Rightarrow> int \<Rightarrow> TaskFlowRecord \<Rightarrow> TaskReg \<Rightarrow> TaskReg" where
  "cancelFlowAttempts env 0 fid ended flow st = st"
| "cancelFlowAttempts env (Suc n) fid ended flow st =
     (case updateFlowRecordByIdExpectedRevision env fid (revisionF flow) (empty_flow_patch\<lparr>
          statusFP := Some Fs_cancelled,
          blockedTaskIdFP := Some None,
          blockedSummaryFP := Some None,
          waitJsonFP := Some JNull,
          endedAtFP := Some (Some ended),
          updatedAtFP := Some ended\<rparr>) st of
        (Inr (FlowRevisionConflict current), st') \<Rightarrow>
          if \<not> awaits_cancellation current \<or> has_active_task fid st' then st'
          else cancelFlowAttempts env n fid ended current st'
      | (_, st') \<Rightarrow> st')"

definition syncManagedFlowCancellationFromTask :: "Env \<Rightarrow> TaskRecord \<Rightarrow> TaskReg \<Rightarrow> TaskReg" where
  "syncManagedFlowCancellationFromTask env t st =
     (case normalizeOptionalString (parentFlowId t) of None \<Rightarrow> st
      | Some fid \<Rightarrow>
        (case getTaskFlowById st fid of None \<Rightarrow> st
         | Some flow \<Rightarrow>
           if \<not> awaits_cancellation flow \<or> has_active_task fid st then st
           else cancelFlowAttempts env 2 fid
                  (nullish (orElse (endedAt t) (lastEventAt t)) (date_now env)) flow st))"

section \<open>Updating a task\<close>

definition DEFAULT_TASK_RETENTION_MS :: int where
  "DEFAULT_TASK_RETENTION_MS = 7 * 24 * 60 * 60000"

text \<open>\<open>next\<close>, with the clean-up time of a terminal task.\<close>

definition next_task :: "Env \<Rightarrow> TaskRecord \<Rightarrow> TaskPatch \<Rightarrow> TaskRecord" where
  "next_task env current patch =
     (let next = apply_patch patch current
      in if isTerminalTaskStatus (status next) \<and> cleanupAfter next = None
         then next\<lparr>cleanupAfter := Some
           (nullish (orElse (endedAt next) (lastEventAt next)) (date_now env) + DEFAULT_TASK_RETENTION_MS)\<rparr>
         else next)"

text \<open>The record and the indexes in memory.\<close>

definition store_task :: "string \<Rightarrow> TaskRecord \<Rightarrow> TaskRecord \<Rightarrow> TaskPatch \<Rightarrow> TaskReg \<Rightarrow> TaskReg" where
  "store_task tid current next patch st =
     (let sessionIndexChanged =
            normalizeOptionalString (Some (ownerKey current)) \<noteq> normalizeOptionalString (Some (ownerKey next))
            \<or> normalizeOptionalString (childSessionKey current) \<noteq> normalizeOptionalString (childSessionKey next);
          parentFlowIndexChanged =
            map_option js_trim (parentFlowId current) \<noteq> map_option js_trim (parentFlowId next);
          st1 = st\<lparr>tasks := AList.update tid next (tasks st)\<rparr>;
          st2 = (if truthy (patched (runIdP patch) None) \<and> patched (runIdP patch) None \<noteq> runId current
                 then rebuildRunIdIndex st1 else st1);
          st3 = (if sessionIndexChanged
                 then st2\<lparr>taskIdsByOwnerKey :=
                        addOwnerKeyIndex tid next (deleteOwnerKeyIndex tid current (taskIdsByOwnerKey st2)),
                      taskIdsByRelatedSessionKey :=
                        addRelatedSessionKeyIndex tid next
                          (deleteRelatedSessionKeyIndex tid current (taskIdsByRelatedSessionKey st2))\<rparr>
                 else st2)
      in if parentFlowIndexChanged
         then st3\<lparr>taskIdsByParentFlowId :=
                addParentFlowIdIndex tid next
                  (deleteParentFlowIdIndex tid current (taskIdsByParentFlowId st3))\<rparr>
         else st3)"

definition updateTask :: "Env \<Rightarrow> string \<Rightarrow> TaskPatch \<Rightarrow> TaskReg \<Rightarrow> TaskRecord option \<times> TaskReg" where
  "updateTask env tid patch st =
     (case map_of (tasks st) tid of None \<Rightarrow> (None, st)
      | Some current \<Rightarrow>
        (let next = next_task env current patch;
             st1 = store_task tid current next patch st;
             st2 = persistTaskUpsert next st1;
             st3 = snd (syncFlowFromTask env next st2);
             st4 = syncManagedFlowCancellationFromTask env next st3
         in (Some next, st4)))"

section \<open>Delivery states\<close>

definition upsertTaskDeliveryState ::
    "Env \<Rightarrow> string \<Rightarrow> DeliveryContext option \<Rightarrow> int option \<Rightarrow> TaskReg \<Rightarrow> TaskReg" where
  "upsertTaskDeliveryState env tid origin notified st =
     (let current = map_of (taskDeliveryStates st) tid;
          next = \<lparr>taskIdS = tid,
                  requesterOriginS = (if origin \<noteq> None then normalizeDeliveryContext env origin else None),
                  lastNotifiedEventAtS = notified\<rparr>
      in if requesterOriginS next = None \<and> lastNotifiedEventAtS next = None \<and> current = None then st
         else persistTaskDeliveryStateUpsert next
                (st\<lparr>taskDeliveryStates := AList.update tid next (taskDeliveryStates st)\<rparr>))"

definition getTaskDeliveryState :: "string \<Rightarrow> TaskReg \<Rightarrow> TaskDeliveryState option" where
  "getTaskDeliveryState tid st = map_of (taskDeliveryStates st) tid"

section \<open>Restoring\<close>

definition restoreTaskRegistryOnce :: "TaskReg \<Rightarrow> TaskReg" where
  "restoreTaskRegistryOnce st =
     (if restoreAttempted st then st
      else let st1 = st\<lparr>restoreAttempted := True,
                 taskRows := migrateLegacyOwnerColumns (taskRows st)\<rparr>;
               restored = loadTaskRegistryStateFromSqlite (taskRows st1, deliveryRows st1)
           in if fst restored = [] \<and> snd restored = [] then st1
              else let st2 = st1\<lparr>
                     tasks := fold (\<lambda>(k, t). AList.update k t) (fst restored) (tasks st1),
                     taskDeliveryStates :=
                       fold (\<lambda>(k, s). AList.update k s) (snd restored) (taskDeliveryStates st1)\<rparr>
                   in rebuildRelatedSessionKeyIndex (rebuildParentFlowIdIndex
                        (rebuildOwnerKeyIndex (rebuildRunIdIndex st2))))"

section \<open>Deleting\<close>

definition deleteTaskRecordById :: "string \<Rightarrow> TaskReg \<Rightarrow> bool \<times> TaskReg" where
  "deleteTaskRecordById tid st =
     (case map_of (tasks st) tid of None \<Rightarrow> (False, st)
      | Some current \<Rightarrow>
        (let st1 = st\<lparr>
               taskIdsByOwnerKey := deleteOwnerKeyIndex tid current (taskIdsByOwnerKey st),
               taskIdsByParentFlowId := deleteParentFlowIdIndex tid current (taskIdsByParentFlowId st),
               taskIdsByRelatedSessionKey :=
                 deleteRelatedSessionKeyIndex tid current (taskIdsByRelatedSessionKey st),
               tasks := AList.delete tid (tasks st),
               taskDeliveryStates := AList.delete tid (taskDeliveryStates st)\<rparr>;
             st2 = rebuildRunIdIndex st1
         in (True, persistTaskDeliveryStateDelete tid (persistTaskDelete tid st2))))"

section \<open>Creating\<close>

record CreateTaskParams =
  runtimeT :: TaskRuntime
  taskKindT :: "string option"
  sourceIdT :: "string option"
  requesterSessionKeyT :: "string option"
  ownerKeyT :: "string option"
  scopeKindT :: "TaskScopeKind option"
  requesterOriginT :: "DeliveryContext option"
  childSessionKeyT :: "string option"
  parentFlowIdT :: "string option"
  parentTaskIdT :: "string option"
  agentIdT :: "string option"
  runIdT :: "string option"
  labelT :: "string option"
  taskT :: string
  preferMetadataT :: bool
  statusT :: "TaskStatus option"
  deliveryStatusT :: "TaskDeliveryStatus option"
  notifyPolicyT :: "TaskNotifyPolicy option"
  startedAtT :: "int option"
  lastEventAtT :: "int option"
  cleanupAfterT :: "int option"
  progressSummaryT :: "string option"
  terminalSummaryT :: "string option"
  terminalOutcomeT :: "TaskTerminalOutcome option"

text \<open>\<open>if (param?.trim() && !existing?.trim()) patch.field = param.trim()\<close>\<close>

definition fill_in :: "string option \<Rightarrow> string option \<Rightarrow> string option option" where
  "fill_in new old =
     (if normalizeOptionalString new \<noteq> None \<and> normalizeOptionalString old = None
      then Some (normalizeOptionalString new) else None)"

definition merge_patch :: "TaskRecord \<Rightarrow> CreateTaskParams \<Rightarrow> TaskPatch" where
  "merge_patch existing p =
     (let nextLabel = normalizeOptionalString (labelT p);
          nextTask = normalizeOptionalString (Some (taskT p));
          policy = ensureNotifyPolicy (notifyPolicyT p) (deliveryStatusT p) (ownerKey existing)
                     (scopeKind existing)
      in empty_patch\<lparr>
           sourceIdP := fill_in (sourceIdT p) (sourceId existing),
           taskKindP := fill_in (taskKindT p) (taskKind existing),
           parentFlowIdP := fill_in (parentFlowIdT p) (parentFlowId existing),
           parentTaskIdP := fill_in (parentTaskIdT p) (parentTaskId existing),
           agentIdP := fill_in (agentIdT p) (agentId existing),
           labelP := (if preferMetadataT p
             then (if nextLabel \<noteq> None \<and> \<not> same_text (label existing) nextLabel
                   then Some nextLabel else None)
             else fill_in (labelT p) (label existing)),
           taskP := (if preferMetadataT p \<and> nextTask \<noteq> None
                \<and> \<not> same_text (Some (task existing)) nextTask then nextTask else None),
           deliveryStatusP := (if deliveryStatusT p = Some Ds_pending
                \<and> deliveryStatus existing \<noteq> Ds_delivered then Some Ds_pending else None),
           notifyPolicyP := (if policy \<noteq> notifyPolicy existing \<and> notifyPolicy existing = Np_silent
             then Some policy else None)\<rparr>)"

definition mergeExistingTaskForCreate ::
    "Env \<Rightarrow> TaskRecord \<Rightarrow> CreateTaskParams \<Rightarrow> TaskReg \<Rightarrow> (TaskError + TaskRecord) \<times> TaskReg" where
  "mergeExistingTaskForCreate env existing p st =
     (let origin = normalizeDeliveryContext env (requesterOriginT p);
          currentDeliveryState = map_of (taskDeliveryStates st) (taskId existing);
          st1 = (if origin \<noteq> None \<and> Option.bind currentDeliveryState requesterOriginS = None
                 then upsertTaskDeliveryState env (taskId existing) origin
                        (Option.bind currentDeliveryState lastNotifiedEventAtS) st
                 else st);
          patch = merge_patch existing p
      in case (if parentFlowIdP patch \<noteq> None
               then assertParentFlowLinkAllowed (ownerKey existing) (scopeKind existing)
                      (parentFlowIdT p) st1
               else Inr ()) of
           Inl e \<Rightarrow> (Inl e, st1)
         | Inr _ \<Rightarrow>
           if patch = empty_patch then (Inr existing, st1)
           else (case updateTask env (taskId existing) patch st1 of
                   (r, st2) \<Rightarrow> (Inr (nullish r existing), st2)))"

definition new_task_record ::
    "Env \<Rightarrow> string \<Rightarrow> string \<Rightarrow> TaskScopeKind \<Rightarrow> string \<Rightarrow> CreateTaskParams \<Rightarrow> TaskRecord" where
  "new_task_record env uuid requester scope owner p =
     (let now = date_now env;
          st = normalizeTaskStatus (statusT p);
          delivery = nullish (deliveryStatusT p) (ensureDeliveryStatus owner scope);
          lastEvent = nullish (orElse (lastEventAtT p) (startedAtT p)) now
      in \<lparr>taskId = uuid,
          runtime = runtimeT p,
          taskKind = normalizeOptionalString (taskKindT p),
          sourceId = normalizeOptionalString (sourceIdT p),
          requesterSessionKey = requester,
          ownerKey = owner,
          scopeKind = scope,
          childSessionKey = childSessionKeyT p,
          parentFlowId = normalizeOptionalString (parentFlowIdT p),
          parentTaskId = normalizeOptionalString (parentTaskIdT p),
          agentId = normalizeOptionalString (agentIdT p),
          runId = normalizeOptionalString (runIdT p),
          label = normalizeOptionalString (labelT p),
          task = taskT p,
          status = st,
          deliveryStatus = delivery,
          notifyPolicy = ensureNotifyPolicy (notifyPolicyT p) (Some delivery) owner scope,
          createdAt = now,
          startedAt = startedAtT p,
          endedAt = None,
          lastEventAt = Some lastEvent,
          cleanupAfter = (if isTerminalTaskStatus st \<and> cleanupAfterT p = None
            then Some (lastEvent + DEFAULT_TASK_RETENTION_MS) else cleanupAfterT p),
          error = None,
          progressSummary = normalizeTaskSummary (progressSummaryT p),
          terminalSummary = normalizeTaskSummary (terminalSummaryT p),
          terminalOutcome = resolveTaskTerminalOutcome st (terminalOutcomeT p)\<rparr>)"

text \<open>The registration of a new record; its delivery is started by \<open>createTaskRecord\<close>.\<close>

definition register_task :: "Env \<Rightarrow> TaskRecord \<Rightarrow> DeliveryContext option \<Rightarrow> TaskReg \<Rightarrow> TaskReg" where
  "register_task env t origin st =
     (let tid = taskId t;
          st1 = st\<lparr>tasks := AList.update tid t (tasks st)\<rparr>;
          st2 = upsertTaskDeliveryState env tid (normalizeDeliveryContext env origin) None st1;
          st3 = st2\<lparr>
            taskIdsByRunId := addRunIdIndex tid (runId t) (taskIdsByRunId st2),
            taskIdsByOwnerKey := addOwnerKeyIndex tid t (taskIdsByOwnerKey st2),
            taskIdsByParentFlowId := addParentFlowIdIndex tid t (taskIdsByParentFlowId st2),
            taskIdsByRelatedSessionKey := addRelatedSessionKeyIndex tid t (taskIdsByRelatedSessionKey st2)\<rparr>
      in snd (syncFlowFromTask env t (persistTaskUpsert t st3)))"

end
