(* ===== verification/TaskDelivery.thy ===== *)
theory TaskDelivery
  imports TaskUpdates
begin

text \<open>
  Delivery of task updates to the requester (\<open>src/tasks/task-registry.ts\<close>). A handler that
  awaits the delivery runtime or the sending of a message is cut at the \<open>await\<close>: its first part
  runs at once and leaves a continuation in the state, \<open>resumeDelivery\<close> runs the rest with the
  outcome of what it awaited, at any later time. The value of the promise is not used by the
  registry and is returned only where the first part settles it.
\<close>

section \<open>Owners and idempotency keys\<close>

definition getLinkedFlowForDelivery :: "TaskRecord \<Rightarrow> TaskReg \<Rightarrow> TaskFlowRecord option" where
  "getLinkedFlowForDelivery t st =
     (case normalizeOptionalString (parentFlowId t) of None \<Rightarrow> None
      | Some fid \<Rightarrow>
        if scopeKind t \<noteq> Sk_session then None
        else case getTaskFlowById st fid of None \<Rightarrow> None
          | Some flow \<Rightarrow>
            if normalizeOptionalString (Some (ownerKeyF flow)) \<noteq> normalizeOptionalString (Some (ownerKey t))
            then None else Some flow)"

definition resolveTaskDeliveryOwner :: "Env \<Rightarrow> TaskRecord \<Rightarrow> TaskReg \<Rightarrow> TaskDeliveryOwner" where
  "resolveTaskDeliveryOwner env t st =
     (let stored = Option.bind (map_of (taskDeliveryStates st) (taskId t)) requesterOriginS
      in case getLinkedFlowForDelivery t st of
           Some flow \<Rightarrow> \<lparr>sessionKeyO = Some (js_trim (ownerKeyF flow)),
             requesterOriginO = normalizeDeliveryContext env (orElse (requesterOriginF flow) stored),
             flowIdO = Some (flowIdF flow)\<rparr>
         | None \<Rightarrow>
           if scopeKind t \<noteq> Sk_session
           then \<lparr>sessionKeyO = None, requesterOriginO = None, flowIdO = None\<rparr>
           else \<lparr>sessionKeyO = Some (js_trim (ownerKey t)),
                  requesterOriginO = normalizeDeliveryContext env stored, flowIdO = None\<rparr>)"

definition status_text :: "TaskStatus \<Rightarrow> string" where
  "status_text s = (case s of St_queued \<Rightarrow> ''queued'' | St_running \<Rightarrow> ''running''
     | St_succeeded \<Rightarrow> ''succeeded'' | St_failed \<Rightarrow> ''failed'' | St_timed_out \<Rightarrow> ''timed_out''
     | St_cancelled \<Rightarrow> ''cancelled'' | St_lost \<Rightarrow> ''lost'')"

definition event_kind_text :: "TaskEventKind \<Rightarrow> string" where
  "event_kind_text k = (case k of Ev_status s \<Rightarrow> status_text s | Ev_progress \<Rightarrow> ''progress'')"

definition outcome_text :: "TaskTerminalOutcome \<Rightarrow> string" where
  "outcome_text x = (case x of To_succeeded \<Rightarrow> ''succeeded'' | To_blocked \<Rightarrow> ''blocked'')"

definition terminal_outcome_part :: "TaskRecord \<Rightarrow> string" where
  "terminal_outcome_part t =
     (if status t = St_succeeded then nullish (map_option outcome_text (terminalOutcome t)) ''default''
      else ''default'')"

definition taskTerminalDeliveryIdempotencyKey :: "TaskRecord \<Rightarrow> string" where
  "taskTerminalDeliveryIdempotencyKey t =
     ''task-terminal:'' @ taskId t @ '':'' @ status_text (status t) @ '':'' @ terminal_outcome_part t"

definition resolveTaskStateChangeIdempotencyKey ::
    "TaskRecord \<Rightarrow> TaskEventRecord \<Rightarrow> TaskDeliveryOwner \<Rightarrow> string" where
  "resolveTaskStateChangeIdempotencyKey t event owner =
     (if truthy (flowIdO owner)
      then ''flow-event:'' @ nullish (flowIdO owner) [] @ '':'' @ taskId t @ '':'' @ show_int (atE event)
             @ '':'' @ event_kind_text (kindE event)
      else ''task-event:'' @ taskId t @ '':'' @ show_int (atE event) @ '':'' @ event_kind_text (kindE event))"

definition resolveTaskTerminalIdempotencyKey :: "Env \<Rightarrow> TaskRecord \<Rightarrow> TaskReg \<Rightarrow> string" where
  "resolveTaskTerminalIdempotencyKey env t st =
     (let owner = resolveTaskDeliveryOwner env t st
      in if truthy (flowIdO owner)
         then ''flow-terminal:'' @ nullish (flowIdO owner) [] @ '':'' @ taskId t @ '':''
                @ status_text (status t) @ '':'' @ terminal_outcome_part t
         else taskTerminalDeliveryIdempotencyKey t)"

definition canDeliverTaskToRequesterOrigin :: "Env \<Rightarrow> TaskRecord \<Rightarrow> TaskReg \<Rightarrow> bool" where
  "canDeliverTaskToRequesterOrigin env t st =
     (let origin = requesterOriginO (resolveTaskDeliveryOwner env t st);
          channel = normalizeOptionalString (Option.bind origin channelD);
          target = normalizeOptionalString (Option.bind origin toD)
      in case channel of None \<Rightarrow> False
         | Some c \<Rightarrow> target \<noteq> None \<and> isDeliverableMessageChannel env c)"

definition resolveMissingOwnerDeliveryStatus :: "TaskRecord \<Rightarrow> TaskDeliveryStatus" where
  "resolveMissingOwnerDeliveryStatus t =
     (if scopeKind t = Sk_system then Ds_not_applicable else Ds_parent_missing)"

section \<open>Session events\<close>

text \<open>The result is \<open>None\<close> when queueing the event throws.\<close>

definition queueTaskSystemEvent :: "Env \<Rightarrow> TaskRecord \<Rightarrow> string \<Rightarrow> TaskReg \<Rightarrow> bool option \<times> TaskReg" where
  "queueTaskSystemEvent env t text st =
     (let owner = resolveTaskDeliveryOwner env t st
      in case normalizeOptionalString (sessionKeyO owner) of None \<Rightarrow> (Some False, st)
         | Some key \<Rightarrow>
           if system_event_throws env then (None, st)
           else (Some True, st\<lparr>effects := effects st @
             [EnqueueSystemEvent text key (''task:'' @ taskId t) (requesterOriginO owner),
              RequestHeartbeat ''background-task'' key]\<rparr>))"

definition queueBlockedTaskFollowup :: "Env \<Rightarrow> TaskRecord \<Rightarrow> TaskReg \<Rightarrow> bool option \<times> TaskReg" where
  "queueBlockedTaskFollowup env t st =
     (case formatTaskBlockedFollowupMessage env t of None \<Rightarrow> (Some False, st)
      | Some text \<Rightarrow>
        (let owner = resolveTaskDeliveryOwner env t st
         in case normalizeOptionalString (sessionKeyO owner) of None \<Rightarrow> (Some False, st)
            | Some key \<Rightarrow>
              if system_event_throws env then (None, st)
              else (Some True, st\<lparr>effects := effects st @
                [EnqueueSystemEvent text key (''task:'' @ taskId t @ '':blocked-followup'')
                   (requesterOriginO owner),
                 RequestHeartbeat ''background-task-blocked'' key]\<rparr>)))"

text \<open>\<open>queueTaskSystemEvent(...); if (blocked) queueBlockedTaskFollowup(...)\<close>; false if it throws.\<close>

definition queue_session_delivery :: "Env \<Rightarrow> TaskRecord \<Rightarrow> string \<Rightarrow> TaskReg \<Rightarrow> bool \<times> TaskReg" where
  "queue_session_delivery env t text st =
     (case queueTaskSystemEvent env t text st of
        (None, st1) \<Rightarrow> (False, st1)
      | (Some _, st1) \<Rightarrow>
        if terminalOutcome t = Some To_blocked
        then (case queueBlockedTaskFollowup env t st1 of (r, st2) \<Rightarrow> (r \<noteq> None, st2))
        else (True, st1))"

section \<open>Terminal updates\<close>

datatype 'a Async = Settled 'a | Awaiting

definition set_delivery :: "Env \<Rightarrow> string \<Rightarrow> TaskDeliveryStatus \<Rightarrow> TaskReg \<Rightarrow> TaskRecord option \<times> TaskReg" where
  "set_delivery env tid s st = updateTask env tid
     (empty_patch\<lparr>deliveryStatusP := Some s, lastEventAtP := Some (Some (date_now env))\<rparr>) st"

text \<open>The \<open>finally\<close> clause.\<close>

definition release_delivery ::
    "string \<Rightarrow> TaskRecord option \<times> TaskReg \<Rightarrow> TaskRecord option Async \<times> TaskReg" where
  "release_delivery tid rs =
     (Settled (fst rs),
      (snd rs)\<lparr>tasksWithPendingDelivery := set_del tid (tasksWithPendingDelivery (snd rs))\<rparr>)"

definition suspend :: "Continuation \<Rightarrow> TaskReg \<Rightarrow> TaskReg" where
  "suspend c st = st\<lparr>continuations := continuations st @ [c]\<rparr>"

definition deliver_terminal ::
    "Env \<Rightarrow> string \<Rightarrow> TaskRecord \<Rightarrow> TaskReg \<Rightarrow> TaskRecord option Async \<times> TaskReg" where
  "deliver_terminal env tid latest st =
     (let preferred = (if truthy (runId latest)
            then pickPreferredRunIdTask (getPeerTasksForDelivery latest st) else None);
          owner = resolveTaskDeliveryOwner env latest st;
          eventText = formatTaskTerminalMessage env latest
      in if shouldSuppressDuplicateTerminalDelivery latest (map_option taskId preferred)
         then release_delivery tid (set_delivery env tid Ds_not_applicable st)
         else if normalizeOptionalString (sessionKeyO owner) = None
         then release_delivery tid (set_delivery env tid (resolveMissingOwnerDeliveryStatus latest) st)
         else if \<not> canDeliverTaskToRequesterOrigin env latest st
         then (case queue_session_delivery env latest eventText st of
                 (True, st1) \<Rightarrow> release_delivery tid (set_delivery env tid Ds_session_queued st1)
               | (False, st1) \<Rightarrow> release_delivery tid (set_delivery env tid Ds_failed st1))
         else (Awaiting, suspend (TerminalRuntime tid latest owner eventText) st))"

definition maybeDeliverTaskTerminalUpdate ::
    "Env \<Rightarrow> string \<Rightarrow> TaskReg \<Rightarrow> TaskRecord option Async \<times> TaskReg" where
  "maybeDeliverTaskTerminalUpdate env tid st =
     (case map_of (tasks st) tid of None \<Rightarrow> (Settled None, st)
      | Some current \<Rightarrow>
        if \<not> shouldAutoDeliverTaskTerminalUpdate current \<or> tid \<in> set (tasksWithPendingDelivery st)
        then (Settled (Some current), st)
        else let st1 = st\<lparr>tasksWithPendingDelivery := set_add tid (tasksWithPendingDelivery st)\<rparr>
             in case map_of (tasks st1) tid of None \<Rightarrow> release_delivery tid (None, st1)
                | Some latest \<Rightarrow>
                  if \<not> shouldAutoDeliverTaskTerminalUpdate latest
                  then release_delivery tid (Some latest, st1)
                  else deliver_terminal env tid latest st1)"

definition message_params ::
    "string \<Rightarrow> TaskDeliveryOwner \<Rightarrow> string \<Rightarrow> string \<Rightarrow> MessageParams" where
  "message_params ownerSessionKey owner text key =
     (let origin = requesterOriginO owner
      in \<lparr>channelM = Option.bind origin channelD,
          toM = nullish (Option.bind origin toD) [],
          accountIdM = Option.bind origin accountIdD,
          threadIdM = Option.bind origin threadIdD,
          contentM = text,
          agentIdM = map_option parsedAgentId (parseAgentSessionKey (Some ownerSessionKey)),
          idempotencyKeyM = key,
          mirrorSessionKeyM = ownerSessionKey\<rparr>)"

text \<open>The \<open>catch\<close> clause around the sending of a terminal update.\<close>

definition terminal_delivery_failed ::
    "Env \<Rightarrow> string \<Rightarrow> TaskRecord \<Rightarrow> string \<Rightarrow> TaskReg \<Rightarrow> TaskRecord option Async \<times> TaskReg" where
  "terminal_delivery_failed env tid latest text st =
     (case queue_session_delivery env latest text st of
        (_, st1) \<Rightarrow> release_delivery tid (set_delivery env tid Ds_failed st1))"

definition terminal_message_sent ::
    "Env \<Rightarrow> string \<Rightarrow> TaskRecord \<Rightarrow> string \<Rightarrow> TaskReg \<Rightarrow> TaskRecord option Async \<times> TaskReg" where
  "terminal_message_sent env tid latest text st =
     (case (if terminalOutcome latest = Some To_blocked then queueBlockedTaskFollowup env latest st
            else (Some False, st)) of
        (None, st1) \<Rightarrow> terminal_delivery_failed env tid latest text st1
      | (Some _, st1) \<Rightarrow> release_delivery tid (set_delivery env tid Ds_delivered st1))"

section \<open>State changes\<close>

definition maybeDeliverTaskStateChangeUpdate ::
    "Env \<Rightarrow> string \<Rightarrow> TaskEventRecord option \<Rightarrow> TaskReg \<Rightarrow> TaskRecord option Async \<times> TaskReg" where
  "maybeDeliverTaskStateChangeUpdate env tid latestEvent st =
     (case map_of (tasks st) tid of None \<Rightarrow> (Settled None, st)
      | Some current \<Rightarrow>
        if \<not> shouldAutoDeliverTaskStateChange current then (Settled (Some current), st)
        else let deliveryState = getTaskDeliveryState tid st in
        case latestEvent of None \<Rightarrow> (Settled (Some current), st)
        | Some event \<Rightarrow>
          if nullish (Option.bind deliveryState lastNotifiedEventAtS) 0 \<ge> atE event
          then (Settled (Some current), st)
          else case formatTaskStateChangeMessage env current event of
            None \<Rightarrow> (Settled (Some current), st)
          | Some text \<Rightarrow>
            if text = [] then (Settled (Some current), st)
            else let owner = resolveTaskDeliveryOwner env current st in
              if normalizeOptionalString (sessionKeyO owner) = None
              then (case set_delivery env tid (resolveMissingOwnerDeliveryStatus current) st of
                      (r, st1) \<Rightarrow> (Settled r, st1))
              else if \<not> canDeliverTaskToRequesterOrigin env current st
              then (case queueTaskSystemEvent env current text st of
                      (None, st1) \<Rightarrow> (Settled (Some current), st1)
                    | (Some _, st1) \<Rightarrow>
                      (case updateTask env tid (empty_patch\<lparr>lastEventAtP := Some (Some (date_now env))\<rparr>)
                              (upsertTaskDeliveryState env tid
                                 (Option.bind deliveryState requesterOriginS) (Some (atE event)) st1) of
                         (r, st2) \<Rightarrow> (Settled r, st2)))
              else (Awaiting, suspend (StateRuntime tid current deliveryState event owner text) st))"

definition state_message_sent ::
    "Env \<Rightarrow> string \<Rightarrow> TaskDeliveryState option \<Rightarrow> TaskEventRecord \<Rightarrow> TaskReg
      \<Rightarrow> TaskRecord option Async \<times> TaskReg" where
  "state_message_sent env tid deliveryState event st =
     (case updateTask env tid (empty_patch\<lparr>lastEventAtP := Some (Some (date_now env))\<rparr>)
             (upsertTaskDeliveryState env tid (Option.bind deliveryState requesterOriginS)
                (Some (atE event)) st) of
        (r, st1) \<Rightarrow> (Settled r, st1))"

section \<open>Resuming\<close>

text \<open>
  The rest of a suspended delivery, once what it awaits is done (\<open>ok\<close>) or has failed: the
  loading of the delivery runtime, then the sending of the message.
\<close>

definition resumeDelivery ::
    "Env \<Rightarrow> bool \<Rightarrow> Continuation \<Rightarrow> TaskReg \<Rightarrow> TaskRecord option Async \<times> TaskReg" where
  "resumeDelivery env ok c st =
     (case c of
        TerminalRuntime tid latest owner text \<Rightarrow>
          if \<not> ok then terminal_delivery_failed env tid latest text st
          else let ownerSessionKey = js_trim (nullish (sessionKeyO owner) []);
                   key = resolveTaskTerminalIdempotencyKey env latest st
               in (Awaiting, suspend (TerminalSend tid latest text)
                    (st\<lparr>effects := effects st @ [SendMessage (message_params ownerSessionKey owner text key)]\<rparr>))
      | TerminalSend tid latest text \<Rightarrow>
          if \<not> ok then terminal_delivery_failed env tid latest text st
          else terminal_message_sent env tid latest text st
      | StateRuntime tid current deliveryState event owner text \<Rightarrow>
          if \<not> ok then (Settled (Some current), st)
          else let ownerSessionKey = js_trim (nullish (sessionKeyO owner) []);
                   key = resolveTaskStateChangeIdempotencyKey current event owner
               in (Awaiting, suspend (StateSend tid current deliveryState event)
                    (st\<lparr>effects := effects st @ [SendMessage (message_params ownerSessionKey owner text key)]\<rparr>))
      | StateSend tid current deliveryState event \<Rightarrow>
          if \<not> ok then (Settled (Some current), st)
          else state_message_sent env tid deliveryState event st
      | CancelControl t key \<Rightarrow> (Settled None, st))"

end
