(* ===== verification/TaskRegistry.thy ===== *)
theory TaskRegistry
  imports TaskDelivery
begin

text \<open>
  The operations the rest of the program calls on the task registry
  (\<open>src/tasks/task-registry.ts\<close>): creation, progress and completion of tasks by identifier and
  by run, the listener on agent events, linking to flows, notification policy and cancellation.
  Every operation starts with \<open>ensureTaskRegistryReady\<close>; the model starts after it.
\<close>

section \<open>By identifier\<close>

definition present :: "'a option \<Rightarrow> 'a option option" where
  "present x = (case x of None \<Rightarrow> None | Some v \<Rightarrow> Some (Some v))"

lemma present_simps [simp]: "present None = None" "present (Some v) = Some (Some v)"
  by (simp_all add: present_def)

definition setTaskProgressById ::
    "Env \<Rightarrow> string \<Rightarrow> string option option \<Rightarrow> int option \<Rightarrow> TaskReg \<Rightarrow> TaskRecord option \<times> TaskReg" where
  "setTaskProgressById env tid progress lastEvent st =
     updateTask env tid (empty_patch\<lparr>
       progressSummaryP := map_option normalizeTaskSummary progress,
       lastEventAtP := present lastEvent\<rparr>) st"

definition setTaskTimingById ::
    "Env \<Rightarrow> string \<Rightarrow> int option \<Rightarrow> int option \<Rightarrow> int option \<Rightarrow> TaskReg \<Rightarrow> TaskRecord option \<times> TaskReg" where
  "setTaskTimingById env tid started ended lastEvent st =
     updateTask env tid (empty_patch\<lparr>
       startedAtP := present started,
       endedAtP := present ended,
       lastEventAtP := present lastEvent\<rparr>) st"

definition setTaskCleanupAfterById :: "Env \<Rightarrow> string \<Rightarrow> int \<Rightarrow> TaskReg \<Rightarrow> TaskRecord option \<times> TaskReg" where
  "setTaskCleanupAfterById env tid cleanup st =
     updateTask env tid (empty_patch\<lparr>cleanupAfterP := Some (Some cleanup)\<rparr>) st"

definition markTaskTerminalById ::
    "Env \<Rightarrow> string \<Rightarrow> TaskStatus \<Rightarrow> int \<Rightarrow> int option \<Rightarrow> string option \<Rightarrow> string option option
      \<Rightarrow> TaskTerminalOutcome option option \<Rightarrow> TaskReg \<Rightarrow> TaskRecord option \<times> TaskReg" where
  "markTaskTerminalById env tid s ended lastEvent err summary outcome st =
     updateTask env tid (empty_patch\<lparr>
       statusP := Some s,
       endedAtP := Some (Some ended),
       lastEventAtP := Some (Some (nullish lastEvent ended)),
       errorP := present err,
       terminalSummaryP := map_option normalizeTaskSummary summary,
       terminalOutcomeP := map_option (resolveTaskTerminalOutcome s) outcome\<rparr>) st"

definition markTaskLostById ::
    "Env \<Rightarrow> string \<Rightarrow> int \<Rightarrow> int option \<Rightarrow> string option \<Rightarrow> int option \<Rightarrow> TaskReg
      \<Rightarrow> TaskRecord option \<times> TaskReg" where
  "markTaskLostById env tid ended lastEvent err cleanup st =
     updateTask env tid (empty_patch\<lparr>
       statusP := Some St_lost,
       endedAtP := Some (Some ended),
       lastEventAtP := Some (Some (nullish lastEvent ended)),
       errorP := present err,
       cleanupAfterP := present cleanup\<rparr>) st"

definition updateTaskNotifyPolicyById ::
    "Env \<Rightarrow> string \<Rightarrow> TaskNotifyPolicy \<Rightarrow> TaskReg \<Rightarrow> TaskRecord option \<times> TaskReg" where
  "updateTaskNotifyPolicyById env tid policy st =
     updateTask env tid (empty_patch\<lparr>
       notifyPolicyP := Some policy,
       lastEventAtP := Some (Some (date_now env))\<rparr>) st"

definition linkTaskToFlowById ::
    "Env \<Rightarrow> string \<Rightarrow> string \<Rightarrow> TaskReg \<Rightarrow> (TaskError + TaskRecord option) \<times> TaskReg" where
  "linkTaskToFlowById env tid flowId st =
     (let fid = js_trim flowId
      in if fid = [] then (Inr None, st)
         else case map_of (tasks st) tid of None \<Rightarrow> (Inr None, st)
           | Some current \<Rightarrow>
             if normalizeOptionalString (parentFlowId current) \<noteq> None then (Inr (Some current), st)
             else case assertParentFlowLinkAllowed (ownerKey current) (scopeKind current) (Some fid) st of
                    Inl e \<Rightarrow> (Inl e, st)
                  | Inr _ \<Rightarrow>
                    (case updateTask env tid (empty_patch\<lparr>parentFlowIdP := Some (Some fid)\<rparr>) st of
                       (r, st') \<Rightarrow> (Inr r, st')))"

section \<open>Notifying after an update\<close>

definition notify_update :: "Env \<Rightarrow> string \<Rightarrow> TaskEventRecord option \<Rightarrow> TaskReg \<Rightarrow> TaskReg" where
  "notify_update env tid event st =
     snd (maybeDeliverTaskTerminalUpdate env tid
       (snd (maybeDeliverTaskStateChangeUpdate env tid event st)))"

section \<open>By run\<close>

definition updateTasksByRunId ::
    "Env \<Rightarrow> string \<Rightarrow> TaskPatch \<Rightarrow> TaskRuntime option \<Rightarrow> string option \<Rightarrow> TaskReg
      \<Rightarrow> TaskRecord list \<times> TaskReg" where
  "updateTasksByRunId env rid patch rt session st =
     fold (\<lambda>match (updated, s).
         case updateTask env (taskId match) patch s of
           (Some t, s') \<Rightarrow> (updated @ [t], s') | (None, s') \<Rightarrow> (updated, s'))
       (getTasksByRunScope rid rt session st) ([], st)"

definition setTaskRunDeliveryStatusByRunId ::
    "Env \<Rightarrow> string \<Rightarrow> TaskRuntime option \<Rightarrow> string option \<Rightarrow> TaskDeliveryStatus \<Rightarrow> TaskReg
      \<Rightarrow> TaskRecord list \<times> TaskReg" where
  "setTaskRunDeliveryStatusByRunId env rid rt session s st =
     updateTasksByRunId env rid (empty_patch\<lparr>deliveryStatusP := Some s\<rparr>) rt session st"

text \<open>
  The parameters of \<open>updateTaskStateByRunId\<close>; \<open>progressSummary\<close>, \<open>terminalSummary\<close> and
  \<open>terminalOutcome\<close> may be absent (\<open>None\<close>) or null (\<open>Some None\<close>).
\<close>

record StateUpdate =
  runIdU :: string
  runtimeU :: "TaskRuntime option"
  sessionKeyU :: "string option"
  statusU :: "TaskStatus option"
  startedAtU :: "int option"
  endedAtU :: "int option"
  lastEventAtU :: "int option"
  errorU :: "string option"
  progressSummaryU :: "string option option"
  terminalSummaryU :: "string option option"
  terminalOutcomeU :: "TaskTerminalOutcome option option"
  eventSummaryU :: "string option"

definition state_update_patch :: "StateUpdate \<Rightarrow> TaskRecord \<Rightarrow> TaskPatch" where
  "state_update_patch u current = empty_patch\<lparr>
     statusP := statusU u,
     startedAtP := present (startedAtU u),
     endedAtP := present (endedAtU u),
     lastEventAtP := present (lastEventAtU u),
     errorP := present (errorU u),
     progressSummaryP := map_option normalizeTaskSummary (progressSummaryU u),
     terminalSummaryP := map_option normalizeTaskSummary (terminalSummaryU u),
     terminalOutcomeP := map_option
       (resolveTaskTerminalOutcome (nullish (statusU u) (status current))) (terminalOutcomeU u)\<rparr>"

definition state_update_event :: "Env \<Rightarrow> StateUpdate \<Rightarrow> TaskRecord \<Rightarrow> TaskEventRecord option" where
  "state_update_event env u current =
     (let nextStatus = nullish (statusU u) (status current);
          eventAt = nullish (orElse (lastEventAtU u) (endedAtU u)) (date_now env);
          statusChanged = (statusU u \<noteq> None \<and> statusU u \<noteq> Some (status current));
          eventSummary = orElse (normalizeTaskSummary (eventSummaryU u))
            (if nextStatus = St_failed then normalizeTaskSummary (orElse (errorU u) (error current))
             else if nextStatus = St_succeeded
             then normalizeTaskSummary (orElse (patched (terminalSummaryU u) None) (terminalSummary current))
             else None)
      in if statusChanged \<or> normalizeTaskSummary (eventSummaryU u) \<noteq> None
         then Some (appendTaskEvent eventAt
                (if statusChanged then Ev_status nextStatus else Ev_progress) eventSummary)
         else None)"

definition updateTaskStateByRunId ::
    "Env \<Rightarrow> StateUpdate \<Rightarrow> TaskReg \<Rightarrow> TaskRecord list \<times> TaskReg" where
  "updateTaskStateByRunId env u st =
     fold (\<lambda>current (updated, s).
         case updateTask env (taskId current) (state_update_patch u current) s of
           (Some t, s') \<Rightarrow> (updated @ [t], notify_update env (taskId t) (state_update_event env u current) s')
         | (None, s') \<Rightarrow> (updated, s'))
       (getTasksByRunScope (runIdU u) (runtimeU u) (sessionKeyU u) st) ([], st)"

definition markTaskRunningByRunId ::
    "Env \<Rightarrow> string \<Rightarrow> TaskRuntime option \<Rightarrow> string option \<Rightarrow> int option \<Rightarrow> int option
      \<Rightarrow> string option option \<Rightarrow> string option \<Rightarrow> TaskReg \<Rightarrow> TaskRecord list \<times> TaskReg" where
  "markTaskRunningByRunId env rid rt session started lastEvent progress event st =
     updateTaskStateByRunId env \<lparr>runIdU = rid, runtimeU = rt, sessionKeyU = session,
       statusU = Some St_running, startedAtU = started, endedAtU = None, lastEventAtU = lastEvent,
       errorU = None, progressSummaryU = progress, terminalSummaryU = None,
       terminalOutcomeU = None, eventSummaryU = event\<rparr> st"

definition recordTaskProgressByRunId ::
    "Env \<Rightarrow> string \<Rightarrow> TaskRuntime option \<Rightarrow> string option \<Rightarrow> int option
      \<Rightarrow> string option option \<Rightarrow> string option \<Rightarrow> TaskReg \<Rightarrow> TaskRecord list \<times> TaskReg" where
  "recordTaskProgressByRunId env rid rt session lastEvent progress event st =
     updateTaskStateByRunId env \<lparr>runIdU = rid, runtimeU = rt, sessionKeyU = session,
       statusU = None, startedAtU = None, endedAtU = None, lastEventAtU = lastEvent,
       errorU = None, progressSummaryU = progress, terminalSummaryU = None,
       terminalOutcomeU = None, eventSummaryU = event\<rparr> st"

definition markTaskTerminalByRunId ::
    "Env \<Rightarrow> string \<Rightarrow> TaskRuntime option \<Rightarrow> string option \<Rightarrow> TaskStatus \<Rightarrow> int option \<Rightarrow> int
      \<Rightarrow> int option \<Rightarrow> string option \<Rightarrow> string option option \<Rightarrow> string option option
      \<Rightarrow> TaskTerminalOutcome option option \<Rightarrow> TaskReg \<Rightarrow> TaskRecord list \<times> TaskReg" where
  "markTaskTerminalByRunId env rid rt session s started ended lastEvent err progress summary outcome st =
     updateTaskStateByRunId env \<lparr>runIdU = rid, runtimeU = rt, sessionKeyU = session,
       statusU = Some s, startedAtU = started, endedAtU = Some ended, lastEventAtU = lastEvent,
       errorU = err, progressSummaryU = progress, terminalSummaryU = summary,
       terminalOutcomeU = outcome, eventSummaryU = None\<rparr> st"

section \<open>Agent events\<close>

record AgentEvent =
  runIdA :: string
  sessionKeyA :: "string option"
  tsA :: int
  streamA :: string
  phaseA :: "string option"
  startedAtA :: "int option"
  endedAtA :: "int option"
  abortedA :: bool
  errorA :: "string option"

definition agent_event_patch :: "AgentEvent \<Rightarrow> int \<Rightarrow> TaskRecord \<Rightarrow> TaskPatch" where
  "agent_event_patch evt now current =
     (let p = empty_patch\<lparr>lastEventAtP := Some (Some now)\<rparr>
      in if streamA evt = ''lifecycle'' then
           (let started = orElse (startedAtA evt) (startedAt current);
                p1 = (if truthy_num started then p\<lparr>startedAtP := Some started\<rparr> else p)
            in if phaseA evt = Some ''start'' then p1\<lparr>statusP := Some St_running\<rparr>
               else if phaseA evt = Some ''end'' then p1\<lparr>
                 statusP := Some (if abortedA evt then St_timed_out else St_succeeded),
                 endedAtP := Some (Some (nullish (endedAtA evt) now))\<rparr>
               else if phaseA evt = Some ''error'' then p1\<lparr>
                 statusP := Some St_failed,
                 endedAtP := Some (Some (nullish (endedAtA evt) now)),
                 errorP := Some (orElse (errorA evt) (error current))\<rparr>
               else p1)
         else if streamA evt = ''error'' then p\<lparr>errorP := Some (orElse (errorA evt) (error current))\<rparr>
         else p)"

definition agent_event_change :: "TaskPatch \<Rightarrow> int \<Rightarrow> TaskRecord \<Rightarrow> TaskEventRecord option" where
  "agent_event_change p now current =
     (case statusP p of None \<Rightarrow> None
      | Some s \<Rightarrow>
        if s = status current then None
        else Some (appendTaskEvent now (Ev_status s)
          (if s = St_failed then orElse (patched (errorP p) None) (error current)
           else if s = St_succeeded then terminalSummary current else None)))"

definition handleAgentEvent :: "Env \<Rightarrow> AgentEvent \<Rightarrow> TaskReg \<Rightarrow> TaskReg" where
  "handleAgentEvent env evt st =
     (let now = (if tsA evt \<noteq> 0 then tsA evt else date_now env)
      in fold (\<lambda>current s.
           if isTerminalTaskStatus (status current) then s
           else let p = agent_event_patch evt now current
                in case updateTask env (taskId current) p s of
                     (None, s') \<Rightarrow> s'
                   | (Some _, s') \<Rightarrow> notify_update env (taskId current) (agent_event_change p now current) s')
         (getTasksByRunScope (runIdA evt) None (sessionKeyA evt) st) st)"

section \<open>Creation\<close>

definition createTaskRecord ::
    "Env \<Rightarrow> string \<Rightarrow> CreateTaskParams \<Rightarrow> TaskReg \<Rightarrow> (TaskError + TaskRecord) \<times> TaskReg" where
  "createTaskRecord env uuid p st =
     (let requester = resolveTaskRequesterSessionKey (requesterSessionKeyT p) (ownerKeyT p) (scopeKindT p);
          scope = resolveTaskScopeKind (scopeKindT p) requester;
          owner = resolveTaskOwnerKey requester (ownerKeyT p)
      in case assertTaskOwner owner scope of Inl e \<Rightarrow> (Inl e, st)
      | Inr _ \<Rightarrow>
        (case assertParentFlowLinkAllowed owner scope (parentFlowIdT p) st of Inl e \<Rightarrow> (Inl e, st)
         | Inr _ \<Rightarrow>
           (case findExistingTaskForCreate (runtimeT p) owner scope (childSessionKeyT p)
                   (parentFlowIdT p) (runIdT p) (labelT p) (taskT p) st of
              Some existing \<Rightarrow> mergeExistingTaskForCreate env existing p st
            | None \<Rightarrow>
              (let t = new_task_record env uuid requester scope owner p;
                   st1 = register_task env t (requesterOriginT p) st
               in (Inr t, if isTerminalTaskStatus (status t)
                          then snd (maybeDeliverTaskTerminalUpdate env uuid st1) else st1)))))"

section \<open>Cancellation\<close>

record CancelResult =
  foundR :: bool
  cancelledR :: bool
  reasonR :: "string option"
  taskR :: "TaskRecord option"

definition cancel_refused :: "TaskRecord \<Rightarrow> string \<Rightarrow> CancelResult" where
  "cancel_refused t why = \<lparr>foundR = True, cancelledR = False, reasonR = Some why, taskR = Some t\<rparr>"

text \<open>The part after the control runtime has answered (at once for a command-line task).\<close>

definition mark_cancelled :: "Env \<Rightarrow> TaskRecord \<Rightarrow> TaskReg \<Rightarrow> CancelResult \<times> TaskReg" where
  "mark_cancelled env t st =
     (case updateTask env (taskId t) (empty_patch\<lparr>
          statusP := Some St_cancelled,
          endedAtP := Some (Some (date_now env)),
          lastEventAtP := Some (Some (date_now env)),
          errorP := Some (Some ''Cancelled by operator.'')\<rparr>) st of
        (None, st1) \<Rightarrow> (\<lparr>foundR = True, cancelledR = True, reasonR = None, taskR = Some t\<rparr>, st1)
      | (Some u, st1) \<Rightarrow>
          (\<lparr>foundR = True, cancelledR = True, reasonR = None, taskR = Some u\<rparr>,
           snd (maybeDeliverTaskTerminalUpdate env (taskId u) st1)))"

definition cancelTaskById :: "Env \<Rightarrow> string \<Rightarrow> TaskReg \<Rightarrow> CancelResult Async \<times> TaskReg" where
  "cancelTaskById env tid st =
     (case map_of (tasks st) (js_trim tid) of
        None \<Rightarrow> (Settled \<lparr>foundR = False, cancelledR = False, reasonR = Some ''Task not found.'', taskR = None\<rparr>, st)
      | Some t \<Rightarrow>
        if status t = St_succeeded \<or> status t = St_failed \<or> status t = St_timed_out \<or> status t = St_lost
           \<or> status t = St_cancelled
        then (Settled (cancel_refused t ''Task is already terminal.''), st)
        else if runtime t = Rt_cli then (case mark_cancelled env t st of (r, st') \<Rightarrow> (Settled r, st'))
        else (case normalizeOptionalString (childSessionKey t) of
            None \<Rightarrow> (Settled (cancel_refused t ''Task has no cancellable child session.''), st)
          | Some key \<Rightarrow>
            if runtime t = Rt_acp \<or> runtime t = Rt_subagent
            then (Awaiting, suspend (CancelControl t key) st)
            else (Settled (cancel_refused t ''Task runtime does not support cancellation yet.''), st)))"

text \<open>What the control runtime answers: an exception with its message, or whether a run was found and killed.\<close>

datatype ControlOutcome = ControlThrew string | ControlDone bool bool

definition resumeCancelTask ::
    "Env \<Rightarrow> ControlOutcome \<Rightarrow> TaskRecord \<Rightarrow> TaskReg \<Rightarrow> CancelResult \<times> TaskReg" where
  "resumeCancelTask env outcome t st =
     (case outcome of ControlThrew msg \<Rightarrow> (cancel_refused t msg, st)
      | ControlDone fnd killed \<Rightarrow>
        if runtime t = Rt_subagent \<and> \<not> (fnd \<and> killed)
        then (cancel_refused t (if fnd then ''Subagent was not running.'' else ''Subagent task not found.''), st)
        else mark_cancelled env t st)"

end
