(* ===== verification/TaskMachine.thy ===== *)
theory TaskMachine
  imports TaskRegistry
begin

text \<open>
  The task registry as a state machine: a step is one call of an exported operation, one agent
  event, one operation of the flow registry, or the resumption of a suspended handler with any
  outcome. Handlers are suspended and resumed in any order, which is how they interleave.
\<close>

definition boot_tasks :: TaskReg where
  "boot_tasks = restoreTaskRegistryOnce (ensureFlowRegistryReady
     \<lparr>flows = [], flowRows = [], flowsRestoreAttempted = False, restoreFailure = None,
      tasks = [], taskDeliveryStates = [], taskIdsByRunId = [], taskIdsByOwnerKey = [],
      taskIdsByParentFlowId = [], taskIdsByRelatedSessionKey = [], tasksWithPendingDelivery = [],
      restoreAttempted = False, taskRows = [], deliveryRows = [], effects = [], continuations = []\<rparr>)"

definition is_delivery :: "Continuation \<Rightarrow> bool" where
  "is_delivery c \<longleftrightarrow> (case c of CancelControl _ _ \<Rightarrow> False | _ \<Rightarrow> True)"

text \<open>
  The fresh identifier of a new record is what \<open>crypto.randomUUID\<close> gives; that of a new flow is
  not the parent of a task either.
\<close>

definition new_flows_unused :: "TaskReg \<Rightarrow> TaskReg \<Rightarrow> bool" where
  "new_flows_unused st st' \<longleftrightarrow> (\<forall>fid \<in> set (map fst (flows st')) - set (map fst (flows st)).
     \<forall>(k, t) \<in> set (tasks st). normalizeOptionalString (parentFlowId t) \<noteq> Some fid)"

inductive task_step :: "TaskReg \<Rightarrow> TaskReg \<Rightarrow> bool" where
  create: "uuid \<notin> fst ` set (tasks st) \<Longrightarrow> task_step st (snd (createTaskRecord env uuid p st))"
| progress: "task_step st (snd (setTaskProgressById env tid a b st))"
| timing: "task_step st (snd (setTaskTimingById env tid a b c st))"
| cleanup: "task_step st (snd (setTaskCleanupAfterById env tid n st))"
| terminal_by_id: "task_step st (snd (markTaskTerminalById env tid s n a e f g st))"
| lost: "task_step st (snd (markTaskLostById env tid n a e b st))"
| policy: "task_step st (snd (updateTaskNotifyPolicyById env tid h st))"
| link: "task_step st (snd (linkTaskToFlowById env tid fid st))"
| delivery_by_run: "task_step st (snd (setTaskRunDeliveryStatusByRunId env rid rt session ds st))"
| running_by_run: "task_step st (snd (markTaskRunningByRunId env rid rt session a b c d st))"
| progress_by_run: "task_step st (snd (recordTaskProgressByRunId env rid rt session b c d st))"
| terminal_by_run: "task_step st (snd (markTaskTerminalByRunId env rid rt session s a n b d c e f st))"
| agent_event: "task_step st (handleAgentEvent env evt st)"
| deliver: "task_step st (snd (maybeDeliverTaskTerminalUpdate env tid st))"
| deliver_change: "task_step st (snd (maybeDeliverTaskStateChangeUpdate env tid event st))"
| cancel: "task_step st (snd (cancelTaskById env tid st))"
| delete: "task_step st (snd (deleteTaskRecordById tid st))"
| flow: "flow_step st st' \<Longrightarrow> new_flows_unused st st' \<Longrightarrow> task_step st st'"
| resume_delivery: "continuations st = xs @ c # ys \<Longrightarrow> is_delivery c \<Longrightarrow>
    task_step st (snd (resumeDelivery env ok c (st\<lparr>continuations := xs @ ys\<rparr>)))"
| resume_cancel: "continuations st = xs @ CancelControl t key # ys \<Longrightarrow>
    task_step st (snd (resumeCancelTask env r t (st\<lparr>continuations := xs @ ys\<rparr>)))"

inductive_cases task_step_cases: "task_step st st'"

inductive task_reachable :: "TaskReg \<Rightarrow> bool" where
  start: "task_reachable boot_tasks"
| step: "task_reachable st \<Longrightarrow> task_step st st' \<Longrightarrow> task_reachable st'"

end
