(* ===== verification/TaskInvariants.thy ===== *)
theory TaskInvariants
  imports TaskMachine
begin

text \<open>
  What an invariant of the task registry is. The locale \<open>handler_invariant\<close> says what a predicate
  on the state must satisfy to be kept by every step: it must be kept by the primitive writes and
  by the two deliveries and their continuations. Its lemmas carry that over to all the operations
  and to the reachable states; each invariant is an interpretation.
\<close>

section \<open>The flow registry leaves the tasks alone\<close>

lemma more_flow_update [simp]:
  "FlowReg.more (st\<lparr>flows := x\<rparr>) = FlowReg.more st"
  "FlowReg.more (st\<lparr>flowRows := y\<rparr>) = FlowReg.more st"
  by (cases st; simp)+

lemma writeFlowRecord_more [simp]: "FlowReg.more (snd (writeFlowRecord f st)) = FlowReg.more st"
  by (simp add: writeFlowRecord_def persistFlowUpsert_def Let_def)

lemma updateUnchecked_more [frame]:
  "FlowReg.more (snd (updateFlowRecordByIdUnchecked env fid p st)) = FlowReg.more st"
  by (simp add: updateFlowRecordByIdUnchecked_def case_prod_unfold split: option.splits sum.splits)

lemma updateExpected_more [frame]:
  "FlowReg.more (snd (updateFlowRecordByIdExpectedRevision env fid n p st)) = FlowReg.more st"
  by (simp add: updateFlowRecordByIdExpectedRevision_def case_prod_unfold
      split: option.splits sum.splits)

lemma createFlowRecord_more [frame]:
  "FlowReg.more (snd (createFlowRecord env uuid p st)) = FlowReg.more st"
  by (simp add: createFlowRecord_def case_prod_unfold split: sum.splits)

lemma syncFlowFromTask_more [frame]:
  "FlowReg.more (snd (syncFlowFromTask env t st)) = FlowReg.more st"
  by (simp add: syncFlowFromTask_def Let_def frame split: option.splits)

lemma deleteFlow_more [frame]:
  "FlowReg.more (snd (deleteTaskFlowRecordById fid st)) = FlowReg.more st"
  by (simp add: deleteTaskFlowRecordById_def persistFlowDelete_def split: option.splits)

lemma cancelFlowAttempts_more [frame]:
  "FlowReg.more (cancelFlowAttempts env n fid ended flow st) = FlowReg.more st"
proof (induction n arbitrary: flow st)
  case (Suc n)
  obtain r st' where u: "updateFlowRecordByIdExpectedRevision env fid (revisionF flow) (empty_flow_patch\<lparr>
      statusFP := Some Fs_cancelled, blockedTaskIdFP := Some None, blockedSummaryFP := Some None,
      waitJsonFP := Some JNull, endedAtFP := Some (Some ended), updatedAtFP := Some ended\<rparr>) st = (r, st')"
    by fastforce
  then have "FlowReg.more st' = FlowReg.more st" by (metis snd_conv updateExpected_more)
  then show ?case using Suc.IH u by (simp split: sum.splits TaskFlowUpdateResult.splits)
qed simp

lemma syncManagedFlowCancellationFromTask_more [frame]:
  "FlowReg.more (syncManagedFlowCancellationFromTask env t st) = FlowReg.more st"
  by (simp add: syncManagedFlowCancellationFromTask_def frame split: option.splits)

lemma flow_step_more [frame]: "flow_step st st' \<Longrightarrow> FlowReg.more st' = FlowReg.more st"
  by (induction rule: flow_step.induct)
     (auto simp: frame createManagedTaskFlow_def createTaskFlowForTask_def Let_def split: sum.splits)

text \<open>The fields of the task registry, read off the part of the state that extends the flows.\<close>

lemma same_more:
  assumes "FlowReg.more st' = FlowReg.more (st :: TaskReg)"
  shows "tasks st' = tasks st" "taskDeliveryStates st' = taskDeliveryStates st"
    "taskIdsByRunId st' = taskIdsByRunId st" "taskIdsByOwnerKey st' = taskIdsByOwnerKey st"
    "taskIdsByParentFlowId st' = taskIdsByParentFlowId st"
    "taskIdsByRelatedSessionKey st' = taskIdsByRelatedSessionKey st"
    "tasksWithPendingDelivery st' = tasksWithPendingDelivery st"
    "restoreAttempted st' = restoreAttempted st" "taskRows st' = taskRows st"
    "deliveryRows st' = deliveryRows st" "effects st' = effects st"
    "continuations st' = continuations st"
  by (use assms in \<open>cases st; cases st'; simp\<close>)+

lemmas sync_same [simp] = same_more [OF syncFlowFromTask_more]
lemmas cancelSync_same [simp] = same_more [OF syncManagedFlowCancellationFromTask_more]

lemma persistTaskUpsert_sel [simp]:
  "flows (persistTaskUpsert t st) = flows st" "flowRows (persistTaskUpsert t st) = flowRows st"
  "tasks (persistTaskUpsert t st) = tasks st"
  "taskDeliveryStates (persistTaskUpsert t st) = taskDeliveryStates st"
  "taskIdsByRunId (persistTaskUpsert t st) = taskIdsByRunId st"
  "taskIdsByOwnerKey (persistTaskUpsert t st) = taskIdsByOwnerKey st"
  "taskIdsByParentFlowId (persistTaskUpsert t st) = taskIdsByParentFlowId st"
  "taskIdsByRelatedSessionKey (persistTaskUpsert t st) = taskIdsByRelatedSessionKey st"
  "tasksWithPendingDelivery (persistTaskUpsert t st) = tasksWithPendingDelivery st"
  "effects (persistTaskUpsert t st) = effects st"
  "continuations (persistTaskUpsert t st) = continuations st"
  by (simp_all add: persistTaskUpsert_def Let_def)

lemma store_task_sel [simp]:
  "flows (store_task tid c n p st) = flows st" "flowRows (store_task tid c n p st) = flowRows st"
  "tasks (store_task tid c n p st) = AList.update tid n (tasks st)"
  "taskDeliveryStates (store_task tid c n p st) = taskDeliveryStates st"
  "tasksWithPendingDelivery (store_task tid c n p st) = tasksWithPendingDelivery st"
  "effects (store_task tid c n p st) = effects st"
  "continuations (store_task tid c n p st) = continuations st"
  "taskRows (store_task tid c n p st) = taskRows st"
  "deliveryRows (store_task tid c n p st) = deliveryRows st"
  by (simp_all add: store_task_def Let_def rebuildRunIdIndex_def)

lemma updateTask_None: "map_of (tasks st) tid = None \<Longrightarrow> updateTask env tid p st = (None, st)"
  by (simp add: updateTask_def)

lemma updateTask_fst:
  "fst (updateTask env tid p st) = map_option (\<lambda>t. next_task env t p) (map_of (tasks st) tid)"
  by (simp add: updateTask_def Let_def split: option.splits)

lemma updateTask_tasks [simp]:
  "tasks (snd (updateTask env tid p st)) =
     (case map_of (tasks st) tid of None \<Rightarrow> tasks st
      | Some t \<Rightarrow> AList.update tid (next_task env t p) (tasks st))"
  by (simp add: updateTask_def Let_def split: option.splits)

lemma updateTask_sel [simp]:
  "taskDeliveryStates (snd (updateTask env tid p st)) = taskDeliveryStates st"
  "tasksWithPendingDelivery (snd (updateTask env tid p st)) = tasksWithPendingDelivery st"
  "effects (snd (updateTask env tid p st)) = effects st"
  "continuations (snd (updateTask env tid p st)) = continuations st"
  by (simp_all add: updateTask_def Let_def split: option.splits)

lemma upsertDelivery_sel [simp]:
  "flows (upsertTaskDeliveryState env tid d n st) = flows st"
  "flowRows (upsertTaskDeliveryState env tid d n st) = flowRows st"
  "tasks (upsertTaskDeliveryState env tid d n st) = tasks st"
  "taskIdsByRunId (upsertTaskDeliveryState env tid d n st) = taskIdsByRunId st"
  "taskIdsByOwnerKey (upsertTaskDeliveryState env tid d n st) = taskIdsByOwnerKey st"
  "taskIdsByParentFlowId (upsertTaskDeliveryState env tid d n st) = taskIdsByParentFlowId st"
  "taskIdsByRelatedSessionKey (upsertTaskDeliveryState env tid d n st) = taskIdsByRelatedSessionKey st"
  "tasksWithPendingDelivery (upsertTaskDeliveryState env tid d n st) = tasksWithPendingDelivery st"
  "taskRows (upsertTaskDeliveryState env tid d n st) = taskRows st"
  "effects (upsertTaskDeliveryState env tid d n st) = effects st"
  "continuations (upsertTaskDeliveryState env tid d n st) = continuations st"
  by (simp_all add: upsertTaskDeliveryState_def persistTaskDeliveryStateUpsert_def Let_def)

section \<open>What an invariant must satisfy\<close>

text \<open>
  A patch that leaves the run, the owner, the child session and the parent flow alone. All patches
  of the code do, but for the one that links a task to a flow after checking that it may.
\<close>

definition patch_ok :: "TaskPatch \<Rightarrow> bool" where
  "patch_ok p \<longleftrightarrow> runIdP p = None \<and> ownerKeyP p = None \<and> childSessionKeyP p = None
     \<and> parentFlowIdP p = None"

definition link_patch :: "string \<Rightarrow> TaskPatch" where
  "link_patch fid = empty_patch\<lparr>parentFlowIdP := Some (Some fid)\<rparr>"

lemma assertParentFlowLinkAllowed_normalize [simp]:
  "assertParentFlowLinkAllowed w s (normalizeOptionalString x) st = assertParentFlowLinkAllowed w s x st"
  by (simp add: assertParentFlowLinkAllowed_def)

lemma findExisting_parent:
  "findExistingTaskForCreate rt w s ck fid rid l x st = Some t \<Longrightarrow> same_text (parentFlowId t) fid"
  by (auto simp: run_scope_match_def dest: findExisting_SomeD)

definition registrable :: "TaskRecord \<Rightarrow> bool" where
  "registrable t \<longleftrightarrow> (isTerminalTaskStatus (status t) \<longrightarrow> cleanupAfter t \<noteq> None)"

lemma new_task_record_sel [simp]:
  "taskId (new_task_record env uuid r s w p) = uuid"
  "ownerKey (new_task_record env uuid r s w p) = w"
  "scopeKind (new_task_record env uuid r s w p) = s"
  "parentFlowId (new_task_record env uuid r s w p) = normalizeOptionalString (parentFlowIdT p)"
  "registrable (new_task_record env uuid r s w p)"
  by (simp_all add: new_task_record_def registrable_def Let_def)

lemma state_update_patch_ok: "patch_ok (state_update_patch u t)"
  by (simp add: state_update_patch_def patch_ok_def)

lemma agent_event_patch_ok: "patch_ok (agent_event_patch evt now t)"
  by (simp add: agent_event_patch_def patch_ok_def Let_def)

lemma merge_patch_ok:
  assumes "same_text (parentFlowId t) (parentFlowIdT p)"
  shows "patch_ok (merge_patch t p)"
proof -
  have "fill_in (parentFlowIdT p) (parentFlowId t) = None"
  proof (cases "normalizeOptionalString (parentFlowIdT p)")
    case (Some k)
    then have "k \<noteq> []" by (simp add: normalizeOptionalString_SomeD)
    with assms Some show ?thesis
      by (cases "normalizeOptionalString (parentFlowId t)") (auto simp: fill_in_def same_text_def)
  qed (simp add: fill_in_def)
  then show ?thesis by (simp add: merge_patch_def patch_ok_def Let_def)
qed

locale handler_invariant =
  fixes I :: "TaskReg \<Rightarrow> bool"
  assumes H_update: "I st \<Longrightarrow> patch_ok p \<Longrightarrow> I (snd (updateTask env tid p st))"
    and H_link: "I st \<Longrightarrow> map_of (tasks st) tid = Some t \<Longrightarrow>
      assertParentFlowLinkAllowed (ownerKey t) (scopeKind t) (Some fid) st = Inr () \<Longrightarrow>
      I (snd (updateTask env tid (link_patch fid) st))"
    and H_delivery: "I st \<Longrightarrow> I (upsertTaskDeliveryState env tid d n st)"
    and H_register: "I st \<Longrightarrow> taskId t \<notin> fst ` set (tasks st) \<Longrightarrow> registrable t \<Longrightarrow>
      assertParentFlowLinkAllowed (ownerKey t) (scopeKind t) (parentFlowId t) st = Inr () \<Longrightarrow>
      I (register_task env t d st)"
    and H_delete: "I st \<Longrightarrow> I (snd (deleteTaskRecordById tid st))"
    and H_flow: "I st \<Longrightarrow> flow_step st st' \<Longrightarrow> new_flows_unused st st' \<Longrightarrow> I st'"
    and H_terminal: "I st \<Longrightarrow> I (snd (maybeDeliverTaskTerminalUpdate env tid st))"
    and H_change: "I st \<Longrightarrow> I (snd (maybeDeliverTaskStateChangeUpdate env tid event st))"
    and H_resume: "I st \<Longrightarrow> continuations st = xs @ c # ys \<Longrightarrow> is_delivery c \<Longrightarrow>
      I (snd (resumeDelivery env ok c (st\<lparr>continuations := xs @ ys\<rparr>)))"
    and H_cancel: "I st \<Longrightarrow> I (suspend (CancelControl t key) st)"
    and H_cancel_done: "I st \<Longrightarrow> continuations st = xs @ CancelControl t key # ys \<Longrightarrow>
      I (st\<lparr>continuations := xs @ ys\<rparr>)"
begin

lemma notify_update_I: "I st \<Longrightarrow> I (notify_update env tid event st)"
  by (simp add: notify_update_def H_terminal H_change)

lemma updates_by_id_I:
  assumes "I st"
  shows "I (snd (setTaskProgressById env tid a b st))" "I (snd (setTaskTimingById env tid b c d st))"
    "I (snd (setTaskCleanupAfterById env tid n st))"
    "I (snd (markTaskTerminalById env tid s n b e f g st))"
    "I (snd (markTaskLostById env tid n b e c st))"
    "I (snd (updateTaskNotifyPolicyById env tid h st))"
  using assms
  by (simp_all add: setTaskProgressById_def setTaskTimingById_def setTaskCleanupAfterById_def
      markTaskTerminalById_def markTaskLostById_def updateTaskNotifyPolicyById_def H_update patch_ok_def)

lemma linkTaskToFlowById_I: "I st \<Longrightarrow> I (snd (linkTaskToFlowById env tid fid st))"
  by (auto simp: linkTaskToFlowById_def Let_def case_prod_unfold link_patch_def [symmetric] H_link
      split: option.splits sum.splits)

lemma updateTasksByRunId_I:
  assumes "I st" "patch_ok p"
  shows "I (snd (updateTasksByRunId env rid p rt session st))"
  unfolding updateTasksByRunId_def
  by (rule fold_inv [where P = "\<lambda>(l, s). I s", unfolded case_prod_unfold])
     (auto simp: assms case_prod_unfold H_update split: option.splits)

lemma updateTaskStateByRunId_I:
  assumes "I st"
  shows "I (snd (updateTaskStateByRunId env u st))"
  unfolding updateTaskStateByRunId_def
  by (rule fold_inv [where P = "\<lambda>(l, s). I s", unfolded case_prod_unfold])
     (auto simp: assms case_prod_unfold notify_update_I H_update state_update_patch_ok
       split: option.splits)

lemma by_run_I:
  assumes "I st"
  shows "I (snd (setTaskRunDeliveryStatusByRunId env rid rt session ds st))"
    "I (snd (markTaskRunningByRunId env rid rt session a b c d st))"
    "I (snd (recordTaskProgressByRunId env rid rt session b c d st))"
    "I (snd (markTaskTerminalByRunId env rid rt session s a n b d c e f st))"
  using assms
  by (simp_all add: setTaskRunDeliveryStatusByRunId_def updateTasksByRunId_I patch_ok_def
      markTaskRunningByRunId_def recordTaskProgressByRunId_def markTaskTerminalByRunId_def
      updateTaskStateByRunId_I)

lemma handleAgentEvent_I:
  assumes "I st"
  shows "I (handleAgentEvent env evt st)"
  unfolding handleAgentEvent_def Let_def
  by (rule fold_inv)
     (auto simp: assms case_prod_unfold notify_update_I H_update agent_event_patch_ok
       split: option.splits)

lemma mergeExisting_I:
  assumes "I st" "same_text (parentFlowId t) (parentFlowIdT p)"
  shows "I (snd (mergeExistingTaskForCreate env t p st))"
proof -
  define st1 where "st1 = (if normalizeDeliveryContext env (requesterOriginT p) \<noteq> None
      \<and> Option.bind (map_of (taskDeliveryStates st) (taskId t)) requesterOriginS = None
    then upsertTaskDeliveryState env (taskId t) (normalizeDeliveryContext env (requesterOriginT p))
           (Option.bind (map_of (taskDeliveryStates st) (taskId t)) lastNotifiedEventAtS) st
    else st)"
  have "I st1" using assms by (simp add: st1_def H_delivery)
  then show ?thesis
    unfolding mergeExistingTaskForCreate_def Let_def st1_def [symmetric]
    by (auto simp: case_prod_unfold H_update merge_patch_ok [OF assms(2)] split: sum.split)
qed

lemma createTaskRecord_I:
  assumes "I st" "uuid \<notin> fst ` set (tasks st)"
  shows "I (snd (createTaskRecord env uuid p st))"
proof -
  have new: "assertParentFlowLinkAllowed w s (parentFlowIdT p) st = Inr u \<Longrightarrow>
      I (register_task env (new_task_record env uuid r s w p) d st)" for r s w d u
    using assms by (intro H_register) simp_all
  have merge: "findExistingTaskForCreate (runtimeT p) w s (childSessionKeyT p) (parentFlowIdT p) (runIdT p)
      (labelT p) (taskT p) st = Some t \<Longrightarrow> I (snd (mergeExistingTaskForCreate env t p st))" for w s t
    using mergeExisting_I [OF assms(1) findExisting_parent] by blast
  show ?thesis
    unfolding createTaskRecord_def Let_def
    by (auto simp only: merge H_terminal [OF new] new assms(1) snd_conv
        split: sum.split option.split if_split)
qed

lemma mark_cancelled_I: "I st \<Longrightarrow> I (snd (mark_cancelled env t st))"
  by (auto simp: mark_cancelled_def case_prod_unfold H_update patch_ok_def H_terminal
      split: option.splits)

lemma cancelTaskById_I: "I st \<Longrightarrow> I (snd (cancelTaskById env tid st))"
  by (simp add: cancelTaskById_def case_prod_unfold mark_cancelled_I H_cancel split: option.splits)

lemma resumeCancelTask_I: "I st \<Longrightarrow> I (snd (resumeCancelTask env r t st))"
  by (simp add: resumeCancelTask_def mark_cancelled_I split: ControlOutcome.splits)

lemma task_step_I:
  assumes "task_step st st'" "I st"
  shows "I st'"
  using assms
  by (cases rule: task_step.cases)
     (auto simp: updates_by_id_I by_run_I linkTaskToFlowById_I handleAgentEvent_I createTaskRecord_I
       cancelTaskById_I H_terminal H_change H_delete H_resume intro: H_flow
       intro!: resumeCancelTask_I H_cancel_done)

lemma task_reachable_I:
  assumes "task_reachable st" "I boot_tasks"
  shows "I st"
  using assms by (induction rule: task_reachable.induct) (auto intro: task_step_I)

end

text \<open>
  A predicate that does not look at the log of effects and at the bookkeeping of suspended
  handlers only has to be kept by the primitive writes.
\<close>

locale registry_invariant =
  fixes I :: "TaskReg \<Rightarrow> bool"
  assumes I_update: "I st \<Longrightarrow> patch_ok p \<Longrightarrow> I (snd (updateTask env tid p st))"
    and I_link: "I st \<Longrightarrow> map_of (tasks st) tid = Some t \<Longrightarrow>
      assertParentFlowLinkAllowed (ownerKey t) (scopeKind t) (Some fid) st = Inr () \<Longrightarrow>
      I (snd (updateTask env tid (link_patch fid) st))"
    and I_delivery: "I st \<Longrightarrow> I (upsertTaskDeliveryState env tid d n st)"
    and I_register: "I st \<Longrightarrow> taskId t \<notin> fst ` set (tasks st) \<Longrightarrow> registrable t \<Longrightarrow>
      assertParentFlowLinkAllowed (ownerKey t) (scopeKind t) (parentFlowId t) st = Inr () \<Longrightarrow>
      I (register_task env t d st)"
    and I_delete: "I st \<Longrightarrow> I (snd (deleteTaskRecordById tid st))"
    and I_flow: "I st \<Longrightarrow> flow_step st st' \<Longrightarrow> new_flows_unused st st' \<Longrightarrow> I st'"
    and I_effects: "I (st\<lparr>effects := e\<rparr>) = I st"
    and I_continuations: "I (st\<lparr>continuations := c\<rparr>) = I st"
    and I_pending: "I (st\<lparr>tasksWithPendingDelivery := q\<rparr>) = I st"
begin

lemma suspend_I [simp]: "I (suspend c st) = I st"
  by (simp add: suspend_def I_continuations)

lemma queueTaskSystemEvent_I [simp]: "I (snd (queueTaskSystemEvent env t text st)) = I st"
  by (simp add: queueTaskSystemEvent_def Let_def I_effects split: option.splits)

lemma queueBlockedTaskFollowup_I [simp]: "I (snd (queueBlockedTaskFollowup env t st)) = I st"
  by (simp add: queueBlockedTaskFollowup_def Let_def I_effects split: option.splits)

lemma queue_session_delivery_I [simp]: "I (snd (queue_session_delivery env t text st)) = I st"
  using queueTaskSystemEvent_I [of env t "text" st]
    queueBlockedTaskFollowup_I [of env t "snd (queueTaskSystemEvent env t text st)"]
  by (simp add: queue_session_delivery_def case_prod_unfold split: option.splits)

lemma set_delivery_I: "I st \<Longrightarrow> I (snd (set_delivery env tid s st))"
  by (simp add: set_delivery_def I_update patch_ok_def)

lemma release_delivery_I [simp]: "I (snd (release_delivery tid rs)) = I (snd rs)"
  by (simp add: release_delivery_def I_pending)

lemma deliver_terminal_I:
  assumes "I st"
  shows "I (snd (deliver_terminal env tid latest st))"
proof -
  obtain b st1 where q: "queue_session_delivery env latest (formatTaskTerminalMessage env latest) st = (b, st1)"
    by fastforce
  then have "I st1" using assms queue_session_delivery_I by (metis snd_conv)
  with assms show ?thesis
    by (simp add: deliver_terminal_def Let_def q set_delivery_I split: bool.splits)
qed

lemma maybeDeliverTerminal_I: "I st \<Longrightarrow> I (snd (maybeDeliverTaskTerminalUpdate env tid st))"
  by (simp add: maybeDeliverTaskTerminalUpdate_def Let_def I_pending deliver_terminal_I
      split: option.splits)

lemma maybeDeliverStateChange_I:
  "I st \<Longrightarrow> I (snd (maybeDeliverTaskStateChangeUpdate env tid event st))"
  using queueTaskSystemEvent_I
  by (auto simp: maybeDeliverTaskStateChangeUpdate_def Let_def case_prod_unfold set_delivery_I
      I_update I_delivery patch_ok_def split: option.splits)

lemma terminal_delivery_failed_I: "I st \<Longrightarrow> I (snd (terminal_delivery_failed env tid t text st))"
  by (simp add: terminal_delivery_failed_def case_prod_unfold set_delivery_I)

lemma terminal_message_sent_I: "I st \<Longrightarrow> I (snd (terminal_message_sent env tid t text st))"
  using queueBlockedTaskFollowup_I [of env t st]
  by (auto simp: terminal_message_sent_def case_prod_unfold terminal_delivery_failed_I set_delivery_I
      split: option.splits)

lemma resumeDelivery_I: "I st \<Longrightarrow> I (snd (resumeDelivery env ok c st))"
  by (simp add: resumeDelivery_def Let_def terminal_delivery_failed_I terminal_message_sent_I
      state_message_sent_def case_prod_unfold I_update I_delivery I_effects patch_ok_def
      split: Continuation.splits)

end

sublocale registry_invariant \<subseteq> handler_invariant
  by unfold_locales
     (auto simp: I_update I_delivery I_register I_delete I_link maybeDeliverTerminal_I
       maybeDeliverStateChange_I resumeDelivery_I I_continuations intro: I_flow)

end
