(* ===== verification/TaskRegistryInv.thy ===== *)
theory TaskRegistryInv
  imports TaskInvariants
begin

text \<open>
  The invariant of the task registry: the records are filed under their identifiers, the four
  indexes are exact, the tables hold the records and delivery states of the memory, a terminal
  task has a clean-up time, and the flows keep their own invariant.
\<close>

definition tasks_wf :: "TaskReg \<Rightarrow> bool" where
  "tasks_wf st \<longleftrightarrow> distinct (map fst (tasks st))
     \<and> (\<forall>k t. map_of (tasks st) k = Some t \<longrightarrow> taskId t = k \<and> registrable t)
     \<and> (\<forall>k s. map_of (taskDeliveryStates st) k = Some s \<longrightarrow> taskIdS s = k)"

definition index_inv :: "TaskReg \<Rightarrow> bool" where
  "index_inv st \<longleftrightarrow>
     idx_wf (taskIdsByRunId st) \<and> idx_exact idx_look run_keys (map_of (tasks st)) (taskIdsByRunId st)
     \<and> idx_wf (taskIdsByOwnerKey st) \<and> idx_exact idx_look owner_keys (map_of (tasks st)) (taskIdsByOwnerKey st)
     \<and> idx_wf (taskIdsByParentFlowId st)
     \<and> idx_exact idx_look flow_keys (map_of (tasks st)) (taskIdsByParentFlowId st)
     \<and> idx_wf (taskIdsByRelatedSessionKey st)
     \<and> idx_exact idx_look session_keys (map_of (tasks st)) (taskIdsByRelatedSessionKey st)"

definition tables_inv :: "TaskReg \<Rightarrow> bool" where
  "tables_inv st \<longleftrightarrow>
     distinct (map fst (taskRows st)) \<and> distinct (map fst (deliveryRows st))
     \<and> (\<forall>(k, r) \<in> set (taskRows st). r_task_id r = k)
     \<and> (\<forall>(k, r) \<in> set (deliveryRows st). d_task_id r = k)
     \<and> (\<forall>k. map_of (taskRows st) k = map_option bindTaskRecordBase (map_of (tasks st) k))
     \<and> (\<forall>k. map_of (deliveryRows st) k = map_option bindTaskDeliveryState (map_of (taskDeliveryStates st) k))"

definition registry_inv :: "TaskReg \<Rightarrow> bool" where
  "registry_inv st \<longleftrightarrow> tasks_wf st \<and> index_inv st \<and> tables_inv st \<and> flows_inv st"

lemma tasks_wf_lookup: "tasks_wf st \<Longrightarrow> map_of (tasks st) k = Some t \<Longrightarrow> taskId t = k \<and> registrable t"
  by (simp add: tasks_wf_def)

lemma bind_ids [simp]:
  "r_task_id (bindTaskRecordBase t) = taskId t" "d_task_id (bindTaskDeliveryState s) = taskIdS s"
  by (simp_all add: bindTaskRecordBase_def bindTaskDeliveryState_def)

section \<open>Flows\<close>

lemma flows_inv_cong:
  "flows st' = flows st \<Longrightarrow> flowRows st' = flowRows st \<Longrightarrow> flows_inv st' = flows_inv st"
  by (simp add: flows_inv_def)

lemma cancelFlowAttempts_inv: "flows_inv st \<Longrightarrow> flows_inv (cancelFlowAttempts env n fid ended flow st)"
proof (induction n arbitrary: flow st)
  case (Suc n)
  obtain r st' where u: "updateFlowRecordByIdExpectedRevision env fid (revisionF flow) (empty_flow_patch\<lparr>
      statusFP := Some Fs_cancelled, blockedTaskIdFP := Some None, blockedSummaryFP := Some None,
      waitJsonFP := Some JNull, endedAtFP := Some (Some ended), updatedAtFP := Some ended\<rparr>) st = (r, st')"
    by fastforce
  then have "flows_inv st'" using updateExpected_inv [OF Suc.prems] by (metis snd_conv)
  then show ?case using Suc.IH u by (simp split: sum.splits TaskFlowUpdateResult.splits)
qed simp

lemma syncManagedFlowCancellationFromTask_inv [inv_intros]:
  "flows_inv st \<Longrightarrow> flows_inv (syncManagedFlowCancellationFromTask env t st)"
  by (simp add: syncManagedFlowCancellationFromTask_def cancelFlowAttempts_inv split: option.splits)

section \<open>Updates\<close>

lemma next_task_sel [simp]:
  "taskId (next_task env t p) = taskId t"
  "runtime (next_task env t p) = runtime t"
  "scopeKind (next_task env t p) = scopeKind t"
  "createdAt (next_task env t p) = createdAt t"
  "requesterSessionKey (next_task env t p) = requesterSessionKey t"
  "ownerKey (next_task env t p) = nullish (ownerKeyP p) (ownerKey t)"
  "childSessionKey (next_task env t p) = nullish (childSessionKeyP p) (childSessionKey t)"
  "parentFlowId (next_task env t p) = nullish (parentFlowIdP p) (parentFlowId t)"
  "runId (next_task env t p) = nullish (runIdP p) (runId t)"
  "status (next_task env t p) = nullish (statusP p) (status t)"
  "deliveryStatus (next_task env t p) = nullish (deliveryStatusP p) (deliveryStatus t)"
  "notifyPolicy (next_task env t p) = nullish (notifyPolicyP p) (notifyPolicy t)"
  "endedAt (next_task env t p) = nullish (endedAtP p) (endedAt t)"
  "startedAt (next_task env t p) = nullish (startedAtP p) (startedAt t)"
  "lastEventAt (next_task env t p) = nullish (lastEventAtP p) (lastEventAt t)"
  "terminalOutcome (next_task env t p) = nullish (terminalOutcomeP p) (terminalOutcome t)"
  "error (next_task env t p) = nullish (errorP p) (error t)"
  by (simp_all add: next_task_def Let_def)

lemma next_task_registrable [simp]: "registrable (next_task env t p)"
  by (simp add: registrable_def next_task_def Let_def)

lemma normalize_trim: "map_option js_trim a = map_option js_trim b \<Longrightarrow>
    normalizeOptionalString a = normalizeOptionalString b"
  by (cases a; cases b) (auto simp: normalizeOptionalString_Some)

text \<open>\<open>indexed look keys st\<close>: one index is well-formed and exact for the tasks of the state.\<close>

definition indexed :: "(TaskRecord \<Rightarrow> string set) \<Rightarrow> TaskReg \<Rightarrow> Index \<Rightarrow> bool" where
  "indexed keys st i \<longleftrightarrow> idx_wf i \<and> idx_exact idx_look keys (map_of (tasks st)) i"

lemma index_inv_indexed:
  "index_inv st \<longleftrightarrow> indexed run_keys st (taskIdsByRunId st) \<and> indexed owner_keys st (taskIdsByOwnerKey st)
     \<and> indexed flow_keys st (taskIdsByParentFlowId st)
     \<and> indexed session_keys st (taskIdsByRelatedSessionKey st)"
  by (auto simp: index_inv_def indexed_def)

lemma indexed_replace_same:
  assumes "indexed keys st i" "map_of (tasks st) tid = Some c" "keys n = keys c"
  shows "indexed keys (store_task tid c n p st) i"
  using assms by (auto simp: indexed_def idx_exact_def)

lemma store_task_run_index:
  assumes lookup: "map_of (tasks st) tid = Some c" and ok: "runIdP p = None"
    and assms: "indexed run_keys st (taskIdsByRunId st)" "runId n = runId c"
  shows "indexed run_keys (store_task tid c n p st) (taskIdsByRunId (store_task tid c n p st))"
proof -
  have "taskIdsByRunId (store_task tid c n p st) = taskIdsByRunId st"
    using ok by (simp add: store_task_def Let_def patched_def)
  with assms lookup show ?thesis by (simp add: indexed_replace_same run_keys_def)
qed

lemma store_task_flow_index:
  assumes lookup: "map_of (tasks st) tid = Some c" and ok: "runIdP p = None"
    and assms: "indexed flow_keys st (taskIdsByParentFlowId st)"
  shows "indexed flow_keys (store_task tid c n p st) (taskIdsByParentFlowId (store_task tid c n p st))"
proof (cases "map_option js_trim (parentFlowId c) = map_option js_trim (parentFlowId n)")
  case True
  then have "taskIdsByParentFlowId (store_task tid c n p st) = taskIdsByParentFlowId st"
    and "flow_keys n = flow_keys c"
    using ok normalize_trim [OF True]
    by (simp_all add: store_task_def Let_def patched_def flow_keys_def)
  with assms lookup show ?thesis by (simp add: indexed_replace_same)
next
  case False
  then have "taskIdsByParentFlowId (store_task tid c n p st)
      = addParentFlowIdIndex tid n (deleteParentFlowIdIndex tid c (taskIdsByParentFlowId st))"
    using ok by (simp add: store_task_def Let_def patched_def)
  with assms lookup show ?thesis
    by (simp add: indexed_def flow_index.exact_replace flow_index.wf_add flow_index.wf_del)
qed

lemma store_task_session_indexes:
  assumes lookup: "map_of (tasks st) tid = Some c" and ok: "runIdP p = None"
    and assms: "indexed owner_keys st (taskIdsByOwnerKey st)"
    "indexed session_keys st (taskIdsByRelatedSessionKey st)"
  shows "indexed owner_keys (store_task tid c n p st) (taskIdsByOwnerKey (store_task tid c n p st))"
    "indexed session_keys (store_task tid c n p st) (taskIdsByRelatedSessionKey (store_task tid c n p st))"
proof -
  let ?changed = "normalizeOptionalString (Some (ownerKey c)) \<noteq> normalizeOptionalString (Some (ownerKey n))
      \<or> normalizeOptionalString (childSessionKey c) \<noteq> normalizeOptionalString (childSessionKey n)"
  have o: "taskIdsByOwnerKey (store_task tid c n p st) = (if ?changed
      then addOwnerKeyIndex tid n (deleteOwnerKeyIndex tid c (taskIdsByOwnerKey st))
      else taskIdsByOwnerKey st)"
    and s: "taskIdsByRelatedSessionKey (store_task tid c n p st) = (if ?changed
      then addRelatedSessionKeyIndex tid n (deleteRelatedSessionKeyIndex tid c (taskIdsByRelatedSessionKey st))
      else taskIdsByRelatedSessionKey st)"
    using ok by (simp_all add: store_task_def Let_def patched_def)
  have same: "\<not> ?changed \<Longrightarrow> owner_keys n = owner_keys c \<and> session_keys n = session_keys c"
    by (simp add: owner_keys_def session_keys_def)
  show "indexed owner_keys (store_task tid c n p st) (taskIdsByOwnerKey (store_task tid c n p st))"
  proof (cases ?changed)
    case True
    with assms lookup show ?thesis unfolding o
      by (simp add: indexed_def owner_index.exact_replace owner_index.wf_add owner_index.wf_del)
  qed (use same assms lookup o in \<open>simp add: indexed_replace_same\<close>)
  show "indexed session_keys (store_task tid c n p st) (taskIdsByRelatedSessionKey (store_task tid c n p st))"
  proof (cases ?changed)
    case True
    with assms lookup show ?thesis unfolding s
      by (simp add: indexed_def session_index.exact_replace session_index.wf_add session_index.wf_del)
  qed (use same assms lookup s in \<open>simp add: indexed_replace_same\<close>)
qed

lemma store_task_index:
  "map_of (tasks st) tid = Some c \<Longrightarrow> runIdP p = None \<Longrightarrow> index_inv st \<Longrightarrow> runId n = runId c \<Longrightarrow>
     index_inv (store_task tid c n p st)"
  by (simp add: index_inv_indexed store_task_run_index store_task_flow_index store_task_session_indexes)

lemma index_inv_cong:
  "tasks st' = tasks st \<Longrightarrow> taskIdsByRunId st' = taskIdsByRunId st \<Longrightarrow>
   taskIdsByOwnerKey st' = taskIdsByOwnerKey st \<Longrightarrow>
   taskIdsByParentFlowId st' = taskIdsByParentFlowId st \<Longrightarrow>
   taskIdsByRelatedSessionKey st' = taskIdsByRelatedSessionKey st \<Longrightarrow> index_inv st' = index_inv st"
  by (simp add: index_inv_def)

lemma tables_inv_cong:
  "tasks st' = tasks st \<Longrightarrow> taskDeliveryStates st' = taskDeliveryStates st \<Longrightarrow>
   taskRows st' = taskRows st \<Longrightarrow> deliveryRows st' = deliveryRows st \<Longrightarrow> tables_inv st' = tables_inv st"
  by (simp add: tables_inv_def)

lemma updateTask_index:
  assumes "index_inv st" "runIdP p = None"
  shows "index_inv (snd (updateTask env tid p st))"
proof (cases "map_of (tasks st) tid")
  case (Some c)
  let ?n = "next_task env c p"
  have "index_inv (store_task tid c ?n p st)"
    using store_task_index [OF Some assms(2,1)] assms(2) by simp
  then show ?thesis
    using index_inv_cong by (simp add: updateTask_def Let_def Some index_inv_def)
qed (simp add: updateTask_None assms)

text \<open>The table follows an update of the record at \<open>k\<close> and of its delivery state.\<close>

lemma persistTaskUpsert_tables:
  assumes rows: "distinct (map fst (taskRows st))" "distinct (map fst (deliveryRows st))"
      "\<forall>(k, r) \<in> set (taskRows st). r_task_id r = k" "\<forall>(k, r) \<in> set (deliveryRows st). d_task_id r = k"
    and other: "\<forall>k. k \<noteq> taskId t \<longrightarrow>
      map_of (taskRows st) k = map_option bindTaskRecordBase (map_of (tasks st) k)
      \<and> map_of (deliveryRows st) k = map_option bindTaskDeliveryState (map_of (taskDeliveryStates st) k)"
    and this: "map_of (tasks st) (taskId t) = Some t"
    and ds: "\<forall>s. map_of (taskDeliveryStates st) (taskId t) = Some s \<longrightarrow> taskIdS s = taskId t"
  shows "tables_inv (persistTaskUpsert t st)"
proof (cases "map_of (taskDeliveryStates st) (taskId t)")
  case None
  with assms show ?thesis
    by (auto simp: persistTaskUpsert_def tables_inv_def Let_def upsertTaskWithDeliveryStateToSqlite_def
        upsertTaskRegistryRecordToSqlite_def deleteTaskDeliveryStateFromSqlite_def
        set_update_distinct set_delete)
next
  case (Some s)
  with assms show ?thesis
    by (auto simp: persistTaskUpsert_def tables_inv_def Let_def upsertTaskWithDeliveryStateToSqlite_def
        upsertTaskRegistryRecordToSqlite_def upsertTaskDeliveryStateToSqlite_def set_update_distinct)
qed

lemma updateTask_tables:
  assumes "tables_inv st" "tasks_wf st"
  shows "tables_inv (snd (updateTask env tid p st))"
proof (cases "map_of (tasks st) tid")
  case (Some c)
  have c: "taskId c = tid" using assms(2) Some by (simp add: tasks_wf_lookup)
  let ?n = "next_task env c p"
  have "tables_inv (persistTaskUpsert ?n (store_task tid c ?n p st))"
    using assms by (intro persistTaskUpsert_tables) (auto simp: tables_inv_def tasks_wf_def c)
  then show ?thesis by (simp add: updateTask_def Let_def Some tables_inv_def)
qed (simp add: updateTask_None assms)

lemma updateTask_flows:
  assumes "flows_inv st"
  shows "flows_inv (snd (updateTask env tid p st))"
proof (cases "map_of (tasks st) tid")
  case (Some c)
  let ?n = "next_task env c p"
  have "flows_inv (persistTaskUpsert ?n (store_task tid c ?n p st))"
    using assms by (simp add: flows_inv_cong [of "persistTaskUpsert ?n (store_task tid c ?n p st)" st])
  then show ?thesis
    by (simp add: updateTask_def Let_def Some syncFlowFromTask_inv syncManagedFlowCancellationFromTask_inv)
qed (simp add: updateTask_None assms)

lemma updateTask_wf: "tasks_wf st \<Longrightarrow> tasks_wf (snd (updateTask env tid p st))"
  by (auto simp: tasks_wf_def set_update_distinct split: option.splits if_splits)

lemma updateTask_inv: "registry_inv st \<Longrightarrow> runIdP p = None \<Longrightarrow> registry_inv (snd (updateTask env tid p st))"
  by (simp add: registry_inv_def updateTask_index updateTask_tables updateTask_flows updateTask_wf)

section \<open>Delivery states\<close>

lemma upsertDelivery_inv:
  assumes "registry_inv st"
  shows "registry_inv (upsertTaskDeliveryState env tid d n st)"
proof -
  let ?st = "upsertTaskDeliveryState env tid d n st"
  have "tables_inv ?st"
    using assms
    by (auto simp: registry_inv_def tables_inv_def upsertTaskDeliveryState_def Let_def
        persistTaskDeliveryStateUpsert_def upsertTaskDeliveryStateToSqlite_def set_update_distinct)
  moreover have "tasks_wf ?st"
    using assms
    by (auto simp: registry_inv_def tasks_wf_def upsertTaskDeliveryState_def Let_def
        persistTaskDeliveryStateUpsert_def)
  moreover have "index_inv ?st" "flows_inv ?st"
    using assms index_inv_cong [of ?st st] flows_inv_cong [of ?st st] by (simp_all add: registry_inv_def)
  ultimately show ?thesis by (simp add: registry_inv_def)
qed

section \<open>Registration\<close>

lemma indexed_insert:
  "map_of (tasks st) tid = None \<Longrightarrow> indexed run_keys st i \<Longrightarrow> tasks st' = AList.update tid t (tasks st) \<Longrightarrow>
     indexed run_keys st' (addRunIdIndex tid (runId t) i)"
  "map_of (tasks st) tid = None \<Longrightarrow> indexed owner_keys st i \<Longrightarrow> tasks st' = AList.update tid t (tasks st) \<Longrightarrow>
     indexed owner_keys st' (addOwnerKeyIndex tid t i)"
  "map_of (tasks st) tid = None \<Longrightarrow> indexed flow_keys st i \<Longrightarrow> tasks st' = AList.update tid t (tasks st) \<Longrightarrow>
     indexed flow_keys st' (addParentFlowIdIndex tid t i)"
  "map_of (tasks st) tid = None \<Longrightarrow> indexed session_keys st i \<Longrightarrow> tasks st' = AList.update tid t (tasks st) \<Longrightarrow>
     indexed session_keys st' (addRelatedSessionKeyIndex tid t i)"
  by (simp_all add: indexed_def run_index.exact_insert run_index.wf_add owner_index.exact_insert
      owner_index.wf_add flow_index.exact_insert flow_index.wf_add session_index.exact_insert
      session_index.wf_add)

lemma register_task_sel [simp]:
  "tasks (register_task env t d st) = AList.update (taskId t) t (tasks st)"
  "effects (register_task env t d st) = effects st"
  "continuations (register_task env t d st) = continuations st"
  "tasksWithPendingDelivery (register_task env t d st) = tasksWithPendingDelivery st"
  by (simp_all add: register_task_def Let_def)

lemma register_task_inv:
  assumes inv: "registry_inv st" and fresh: "taskId t \<notin> fst ` set (tasks st)" and reg: "registrable t"
  shows "registry_inv (register_task env t d st)"
proof -
  let ?tid = "taskId t"
  define st1 where "st1 = st\<lparr>tasks := AList.update ?tid t (tasks st)\<rparr>"
  define st2 where "st2 = upsertTaskDeliveryState env ?tid (normalizeDeliveryContext env d) None st1"
  define st3 where "st3 = st2\<lparr>
      taskIdsByRunId := addRunIdIndex ?tid (runId t) (taskIdsByRunId st2),
      taskIdsByOwnerKey := addOwnerKeyIndex ?tid t (taskIdsByOwnerKey st2),
      taskIdsByParentFlowId := addParentFlowIdIndex ?tid t (taskIdsByParentFlowId st2),
      taskIdsByRelatedSessionKey := addRelatedSessionKeyIndex ?tid t (taskIdsByRelatedSessionKey st2)\<rparr>"
  let ?st4 = "persistTaskUpsert t st3"
  have none: "map_of (tasks st) ?tid = None" using fresh by (simp add: map_of_eq_None_iff)
  have r: "register_task env t d st = snd (syncFlowFromTask env t ?st4)"
    by (simp add: register_task_def Let_def st1_def st2_def st3_def)
  have sel: "tasks st3 = AList.update ?tid t (tasks st)" "flows st3 = flows st" "flowRows st3 = flowRows st"
    "taskRows st3 = taskRows st"
    by (simp_all add: st1_def st2_def st3_def)
  have "index_inv st3"
    using inv none by (simp add: registry_inv_def index_inv_indexed st3_def st2_def st1_def indexed_insert)
  then have idx: "index_inv (register_task env t d st)"
    unfolding r using index_inv_cong by (simp add: index_inv_def)
  have tbl0: "distinct (map fst (deliveryRows st3))" "\<forall>(k, r) \<in> set (deliveryRows st3). d_task_id r = k"
    "\<forall>k. map_of (deliveryRows st3) k = map_option bindTaskDeliveryState (map_of (taskDeliveryStates st3) k)"
    "\<forall>k s. map_of (taskDeliveryStates st3) k = Some s \<longrightarrow> taskIdS s = k"
    using inv
    by (auto simp: registry_inv_def tables_inv_def tasks_wf_def st3_def st2_def st1_def
        upsertTaskDeliveryState_def Let_def persistTaskDeliveryStateUpsert_def
        upsertTaskDeliveryStateToSqlite_def set_update_distinct)
  then have "tables_inv ?st4"
    using inv by (intro persistTaskUpsert_tables) (auto simp: registry_inv_def tables_inv_def sel)
  then have tbl: "tables_inv (register_task env t d st)"
    unfolding r by (simp add: tables_inv_def)
  have "flows_inv ?st4"
    using inv flows_inv_cong [of ?st4 st] by (simp add: registry_inv_def sel)
  then have flw: "flows_inv (register_task env t d st)" unfolding r by (rule syncFlowFromTask_inv)
  have "tasks_wf (register_task env t d st)"
    using inv reg tbl0(4) unfolding r by (auto simp: registry_inv_def tasks_wf_def sel set_update_distinct)
  with idx tbl flw show ?thesis by (simp add: registry_inv_def)
qed

section \<open>Deletion\<close>

lemma deleteTaskRecordById_inv:
  assumes "registry_inv st"
  shows "registry_inv (snd (deleteTaskRecordById tid st))"
proof (cases "map_of (tasks st) tid")
  case (Some c)
  let ?st = "snd (deleteTaskRecordById tid st)"
  have wf: "tasks_wf st" using assms by (simp add: registry_inv_def)
  have t: "tasks ?st = AList.delete tid (tasks st)"
    by (simp add: deleteTaskRecordById_def Some Let_def persistTaskDelete_def
        persistTaskDeliveryStateDelete_def rebuildRunIdIndex_def)
  have "indexed run_keys ?st (taskIdsByRunId ?st)"
    using run_index.exact_rebuild [of "AList.delete tid (tasks st)"]
      run_index.wf_rebuild [of "AList.delete tid (tasks st)"] wf
    by (simp add: deleteTaskRecordById_def Some Let_def persistTaskDelete_def indexed_def
        persistTaskDeliveryStateDelete_def rebuildRunIdIndex_def tasks_wf_def)
  moreover have "indexed owner_keys ?st (taskIdsByOwnerKey ?st)"
    "indexed flow_keys ?st (taskIdsByParentFlowId ?st)"
    "indexed session_keys ?st (taskIdsByRelatedSessionKey ?st)"
    using assms Some owner_index.exact_delete flow_index.exact_delete session_index.exact_delete
      owner_index.wf_del flow_index.wf_del session_index.wf_del
    by (auto simp: deleteTaskRecordById_def Let_def persistTaskDelete_def indexed_def
        persistTaskDeliveryStateDelete_def rebuildRunIdIndex_def registry_inv_def index_inv_def)
  moreover have "tables_inv ?st" "tasks_wf ?st" "flows_inv ?st"
    using assms flows_inv_cong [of ?st st]
    by (auto simp: deleteTaskRecordById_def Some Let_def persistTaskDelete_def registry_inv_def
        persistTaskDeliveryStateDelete_def rebuildRunIdIndex_def tables_inv_def tasks_wf_def
        deleteTaskAndDeliveryStateFromSqlite_def deleteTaskDeliveryStateFromSqlite_def set_delete
        split: if_splits)
  ultimately show ?thesis by (simp add: registry_inv_def index_inv_indexed)
qed (simp add: deleteTaskRecordById_def assms)

lemma flow_step_registry_inv:
  assumes "registry_inv st" "flow_step st st'"
  shows "registry_inv st'"
proof -
  note same = same_more [OF flow_step_more [OF assms(2)]]
  have "flows_inv st'" using flow_step_inv [OF assms(2)] assms(1) by (simp add: registry_inv_def)
  then show ?thesis using assms(1) same
    by (simp add: registry_inv_def tasks_wf_def index_inv_def tables_inv_def)
qed

interpretation registry: registry_invariant registry_inv
proof (unfold_locales, goal_cases)
  case (1 st p env tid) then show ?case by (simp add: updateTask_inv patch_ok_def)
next
  case (2 st tid t fid env) then show ?case by (simp add: updateTask_inv link_patch_def)
next
  case (3 st env tid d n) then show ?case by (rule upsertDelivery_inv)
next
  case (4 st t env d) then show ?case by (blast intro: register_task_inv)
next
  case (5 st tid) then show ?case by (rule deleteTaskRecordById_inv)
next
  case (6 st st') then show ?case by (blast intro: flow_step_registry_inv)
qed (auto simp: registry_inv_def tasks_wf_def index_inv_def tables_inv_def flows_inv_def)

lemma boot_tasks_sel:
  "flows boot_tasks = []" "flowRows boot_tasks = []" "tasks boot_tasks = []"
  "taskDeliveryStates boot_tasks = []" "taskIdsByRunId boot_tasks = []" "taskIdsByOwnerKey boot_tasks = []"
  "taskIdsByParentFlowId boot_tasks = []" "taskIdsByRelatedSessionKey boot_tasks = []"
  "tasksWithPendingDelivery boot_tasks = []" "taskRows boot_tasks = []" "deliveryRows boot_tasks = []"
  "effects boot_tasks = []" "continuations boot_tasks = []"
  by (simp_all add: boot_tasks_def ensureFlowRegistryReady_def
      loadTaskFlowRegistryStateFromSqlite_def restoreTaskRegistryOnce_def
      migrateLegacyOwnerColumns_def loadTaskRegistryStateFromSqlite_def Let_def)

lemma boot_tasks_inv: "registry_inv boot_tasks"
  by (simp add: registry_inv_def tasks_wf_def index_inv_indexed indexed_def tables_inv_def
      flows_inv_def flow_mirror_def boot_tasks_sel run_index.exact_empty run_index.wf_empty
      owner_index.exact_empty flow_index.exact_empty session_index.exact_empty)

lemma task_reachable_inv: "task_reachable st \<Longrightarrow> registry_inv st"
  by (erule registry.task_reachable_I) (rule boot_tasks_inv)

section \<open>Deliveries in flight\<close>

text \<open>
  The tasks with a terminal delivery in flight are those of the suspended terminal handlers, each
  once.
\<close>

definition delivering :: "Continuation \<Rightarrow> string list" where
  "delivering c = (case c of TerminalRuntime tid _ _ _ \<Rightarrow> [tid] | TerminalSend tid _ _ \<Rightarrow> [tid] | _ \<Rightarrow> [])"

definition pending_inv :: "TaskReg \<Rightarrow> bool" where
  "pending_inv st \<longleftrightarrow> distinct (tasksWithPendingDelivery st)
     \<and> mset (tasksWithPendingDelivery st) = mset (concat (map delivering (continuations st)))"

lemma pending_inv_cong:
  "tasksWithPendingDelivery st' = tasksWithPendingDelivery st \<Longrightarrow> continuations st' = continuations st \<Longrightarrow>
     pending_inv st' = pending_inv st"
  by (simp add: pending_inv_def)

lemma queue_session_delivery_sel [simp]:
  "tasks (snd (queue_session_delivery env t text st)) = tasks st"
  "tasksWithPendingDelivery (snd (queue_session_delivery env t text st)) = tasksWithPendingDelivery st"
  "continuations (snd (queue_session_delivery env t text st)) = continuations st"
  by (auto simp: queue_session_delivery_def queueTaskSystemEvent_def queueBlockedTaskFollowup_def Let_def
      case_prod_unfold split: option.splits)

lemma set_delivery_sel [simp]:
  "tasksWithPendingDelivery (snd (set_delivery env tid s st)) = tasksWithPendingDelivery st"
  "continuations (snd (set_delivery env tid s st)) = continuations st"
  "effects (snd (set_delivery env tid s st)) = effects st"
  by (simp_all add: set_delivery_def)

lemma release_delivery_sel [simp]:
  "tasksWithPendingDelivery (snd (release_delivery tid rs)) = set_del tid (tasksWithPendingDelivery (snd rs))"
  "continuations (snd (release_delivery tid rs)) = continuations (snd rs)"
  "tasks (snd (release_delivery tid rs)) = tasks (snd rs)"
  "effects (snd (release_delivery tid rs)) = effects (snd rs)"
  "fst (release_delivery tid rs) = Settled (fst rs)"
  by (simp_all add: release_delivery_def)

text \<open>The first part of a terminal delivery either gives up its mark or leaves one continuation.\<close>

definition settles :: "string \<Rightarrow> TaskReg \<Rightarrow> TaskReg \<Rightarrow> bool" where
  "settles tid st st' \<longleftrightarrow>
     continuations st' = continuations st \<and> tasksWithPendingDelivery st' = set_del tid (tasksWithPendingDelivery st)
     \<or> (\<exists>c. continuations st' = continuations st @ [c] \<and> delivering c = [tid]
          \<and> tasksWithPendingDelivery st' = tasksWithPendingDelivery st)"

lemma deliver_terminal_settles: "settles tid st (snd (deliver_terminal env tid latest st))"
proof -
  obtain b st1 where q: "queue_session_delivery env latest (formatTaskTerminalMessage env latest) st = (b, st1)"
    by fastforce
  then have "continuations st1 = continuations st" "tasksWithPendingDelivery st1 = tasksWithPendingDelivery st"
    using queue_session_delivery_sel(2,3) by (metis snd_conv)+
  then show ?thesis
    by (simp add: deliver_terminal_def Let_def q settles_def suspend_def delivering_def split: bool.splits)
qed

lemma terminal_delivery_failed_settles: "settles tid st (snd (terminal_delivery_failed env tid t text st))"
  by (simp add: terminal_delivery_failed_def case_prod_unfold settles_def)

lemma queueBlocked_sel [simp]:
  "continuations (snd (queueBlockedTaskFollowup env t st)) = continuations st"
  "tasksWithPendingDelivery (snd (queueBlockedTaskFollowup env t st)) = tasksWithPendingDelivery st"
  by (simp_all add: queueBlockedTaskFollowup_def Let_def split: option.splits)

lemma terminal_message_sent_settles: "settles tid st (snd (terminal_message_sent env tid t text st))"
  using terminal_delivery_failed_settles [of tid "snd (queueBlockedTaskFollowup env t st)" env t "text"]
  by (auto simp: terminal_message_sent_def case_prod_unfold settles_def split: option.splits)

lemma settles_pending:
  assumes "settles tid st st'" "distinct (tasksWithPendingDelivery st)"
    "mset (tasksWithPendingDelivery st) = add_mset tid (mset (concat (map delivering (continuations st))))"
  shows "pending_inv st'"
proof -
  let ?q = "tasksWithPendingDelivery st"
  have mem: "mset (set_del tid ?q) = mset ?q - {#tid#}"
    using assms(2) by (simp add: set_del_def distinct_remove1_removeAll [symmetric])
  show ?thesis
    using assms mem by (auto simp: settles_def pending_inv_def)
qed

lemma change_pending:
  "pending_inv st \<Longrightarrow> pending_inv (snd (maybeDeliverTaskStateChangeUpdate env tid event st))"
  by (auto simp: maybeDeliverTaskStateChangeUpdate_def queueTaskSystemEvent_def Let_def case_prod_unfold
      pending_inv_def suspend_def delivering_def split: option.splits if_splits)

lemma deleteTaskRecordById_pending_sel [simp]:
  "tasksWithPendingDelivery (snd (deleteTaskRecordById tid st)) = tasksWithPendingDelivery st"
  "continuations (snd (deleteTaskRecordById tid st)) = continuations st"
  by (simp_all add: deleteTaskRecordById_def Let_def persistTaskDelete_def persistTaskDeliveryStateDelete_def
      rebuildRunIdIndex_def split: option.splits)

lemma terminal_pending:
  assumes "pending_inv st"
  shows "pending_inv (snd (maybeDeliverTaskTerminalUpdate env tid st))"
proof (cases "\<exists>t. map_of (tasks st) tid = Some t \<and> shouldAutoDeliverTaskTerminalUpdate t
    \<and> tid \<notin> set (tasksWithPendingDelivery st)")
  case True
  then obtain t where t: "map_of (tasks st) tid = Some t" "shouldAutoDeliverTaskTerminalUpdate t"
    "tid \<notin> set (tasksWithPendingDelivery st)" by blast
  let ?st1 = "st\<lparr>tasksWithPendingDelivery := set_add tid (tasksWithPendingDelivery st)\<rparr>"
  have "pending_inv (snd (deliver_terminal env tid t ?st1))"
    using assms t(3)
    by (intro settles_pending [OF deliver_terminal_settles]) (auto simp: pending_inv_def set_add_def)
  with t show ?thesis by (simp add: maybeDeliverTaskTerminalUpdate_def Let_def)
next
  case False
  with assms show ?thesis by (auto simp: maybeDeliverTaskTerminalUpdate_def split: option.splits)
qed

lemma resume_pending:
  assumes "pending_inv st" "continuations st = xs @ c # ys" "is_delivery c"
  shows "pending_inv (snd (resumeDelivery env ok c (st\<lparr>continuations := xs @ ys\<rparr>)))"
proof -
  let ?st = "st\<lparr>continuations := xs @ ys\<rparr>"
  have d: "distinct (tasksWithPendingDelivery ?st)" using assms(1) by (simp add: pending_inv_def)
  have t: "delivering c = [tid] \<Longrightarrow> mset (tasksWithPendingDelivery ?st)
      = add_mset tid (mset (concat (map delivering (continuations ?st))))" for tid
    using assms(1,2) by (simp add: pending_inv_def)
  show ?thesis
  proof (cases c)
    case (TerminalRuntime tid t owner msg)
    then have "settles tid ?st (snd (resumeDelivery env ok c ?st))"
      using terminal_delivery_failed_settles [of tid ?st env t msg]
      by (auto simp: resumeDelivery_def Let_def settles_def suspend_def delivering_def)
    then show ?thesis using settles_pending d t TerminalRuntime by (simp add: delivering_def)
  next
    case (TerminalSend tid t msg)
    then have "settles tid ?st (snd (resumeDelivery env ok c ?st))"
      using terminal_delivery_failed_settles terminal_message_sent_settles
      by (simp add: resumeDelivery_def)
    then show ?thesis using settles_pending d t TerminalSend by (simp add: delivering_def)
  next
    case (StateRuntime tid t ds event owner msg)
    then show ?thesis using assms(1,2)
      by (simp add: resumeDelivery_def Let_def pending_inv_def suspend_def delivering_def)
  next
    case (StateSend tid t ds event)
    then show ?thesis using assms(1,2)
      by (simp add: resumeDelivery_def state_message_sent_def case_prod_unfold pending_inv_def delivering_def)
  next
    case (CancelControl t key)
    with assms(3) show ?thesis by (simp add: is_delivery_def)
  qed
qed

interpretation pending: handler_invariant pending_inv
proof (unfold_locales, goal_cases)
  case (6 st st')
  then show ?case using pending_inv_cong same_more [OF flow_step_more [OF 6(2)]] by blast
next
  case (7 st env tid) then show ?case by (rule terminal_pending)
next
  case (8 st env tid event) then show ?case by (rule change_pending)
next
  case (9 st xs c ys env ok) then show ?case by (rule resume_pending)
qed (simp_all add: pending_inv_def suspend_def delivering_def)

lemma task_reachable_pending: "task_reachable st \<Longrightarrow> pending_inv st"
  by (erule pending.task_reachable_I) (simp add: pending_inv_def boot_tasks_sel)

end
