(* ===== verification/TaskFlowLinks.thy ===== *)
theory TaskFlowLinks
  imports TaskRegistryInv
begin

text \<open>
  What the task registry does to the flows its tasks belong to: owners agree, a mirrored flow
  follows its task, and a managed flow whose cancellation is requested is finished when its last
  active task ends.
\<close>

section \<open>Updates of tasks keep the identity of flows\<close>

definition same_flow :: "TaskFlowRecord \<Rightarrow> TaskFlowRecord \<Rightarrow> bool" where
  "same_flow f f' \<longleftrightarrow> flowIdF f' = flowIdF f \<and> syncModeF f' = syncModeF f
     \<and> ownerKeyF f' = ownerKeyF f \<and> createdAtF f' = createdAtF f"

definition flows_kept :: "'a FlowReg_scheme \<Rightarrow> 'a FlowReg_scheme \<Rightarrow> bool" where
  "flows_kept st st' \<longleftrightarrow> (\<forall>k. rel_option same_flow (map_of (flows st) k) (map_of (flows st') k))"

lemma same_flow_refl [simp]: "same_flow f f"
  by (simp add: same_flow_def)

lemma flows_kept_refl: "flows st' = flows st \<Longrightarrow> flows_kept st st'"
  by (simp add: flows_kept_def option.rel_refl)

lemma rel_same_flow_trans:
  "rel_option same_flow x y \<Longrightarrow> rel_option same_flow y z \<Longrightarrow> rel_option same_flow x z"
  by (cases x; cases y; cases z) (simp_all add: same_flow_def)

lemma flows_kept_trans [trans]: "flows_kept a b \<Longrightarrow> flows_kept b c \<Longrightarrow> flows_kept a c"
  unfolding flows_kept_def using rel_same_flow_trans by blast

lemma evolves_same_flow: "flow_evolves f f' \<Longrightarrow> same_flow f f'"
  by (auto simp: flow_evolves_def same_flow_def)

lemma flows_kept_lookup:
  "flows_kept st st' \<Longrightarrow> map_of (flows st') k = Some f' \<Longrightarrow>
     \<exists>f. map_of (flows st) k = Some f \<and> same_flow f f'"
  by (drule flows_kept_def [THEN iffD1, rule_format, of _ _ k]) (cases "map_of (flows st) k"; simp)

lemma flows_keptI:
  assumes "\<And>k f f'. map_of (flows st) k = Some f \<Longrightarrow> map_of (flows st') k = Some f' \<Longrightarrow> flow_evolves f f'"
    and "\<And>k. map_of (flows st') k = None \<longleftrightarrow> map_of (flows st) k = None"
  shows "flows_kept st st'"
  unfolding flows_kept_def
proof
  fix k
  show "rel_option same_flow (map_of (flows st) k) (map_of (flows st') k)"
    using assms(1) [of k] assms(2) [of k] evolves_same_flow
    by (cases "map_of (flows st) k"; cases "map_of (flows st') k") auto
qed

lemma updateUnchecked_kept:
  assumes "flows_inv st"
  shows "flows_kept st (snd (updateFlowRecordByIdUnchecked env fid p st))"
proof (rule flows_keptI)
  show "map_of (flows (snd (updateFlowRecordByIdUnchecked env fid p st))) k = None
      \<longleftrightarrow> map_of (flows st) k = None" for k
    using assms flows_inv_lookup [OF assms] applyFlowPatch_wf
    by (auto simp: updateFlowRecordByIdUnchecked_def case_prod_unfold split: option.splits sum.splits)
qed (rule updateUnchecked_evolves [OF assms])

lemma updateExpected_kept:
  assumes "flows_inv st"
  shows "flows_kept st (snd (updateFlowRecordByIdExpectedRevision env fid n p st))"
proof (rule flows_keptI)
  show "map_of (flows (snd (updateFlowRecordByIdExpectedRevision env fid n p st))) k = None
      \<longleftrightarrow> map_of (flows st) k = None" for k
    using assms flows_inv_lookup [OF assms] applyFlowPatch_wf
    by (auto simp: updateFlowRecordByIdExpectedRevision_def case_prod_unfold
        split: option.splits sum.splits)
qed (rule updateExpected_evolves [OF assms])

lemma syncFlow_kept: "flows_inv st \<Longrightarrow> flows_kept st (snd (syncFlowFromTask env t st))"
  by (simp add: syncFlowFromTask_def Let_def updateUnchecked_kept flows_kept_refl split: option.splits)

lemma cancelFlowAttempts_kept:
  "flows_inv st \<Longrightarrow> flows_kept st (cancelFlowAttempts env n fid ended flow st)"
proof (induction n arbitrary: flow st)
  case (Suc n)
  obtain r st' where u: "updateFlowRecordByIdExpectedRevision env fid (revisionF flow) (empty_flow_patch\<lparr>
      statusFP := Some Fs_cancelled, blockedTaskIdFP := Some None, blockedSummaryFP := Some None,
      waitJsonFP := Some JNull, endedAtFP := Some (Some ended), updatedAtFP := Some ended\<rparr>) st = (r, st')"
    by fastforce
  then have "flows_inv st'" "flows_kept st st'"
    using updateExpected_inv [OF Suc.prems] updateExpected_kept [OF Suc.prems] by (metis snd_conv)+
  then show ?case using Suc.IH u flows_kept_trans
    by (simp split: sum.splits TaskFlowUpdateResult.splits) blast
qed (simp add: flows_kept_refl)

lemma cancelSync_kept: "flows_inv st \<Longrightarrow> flows_kept st (syncManagedFlowCancellationFromTask env t st)"
  by (simp add: syncManagedFlowCancellationFromTask_def cancelFlowAttempts_kept flows_kept_refl
      split: option.splits)

lemma updateTask_kept:
  assumes "flows_inv st"
  shows "flows_kept st (snd (updateTask env tid p st))"
proof (cases "map_of (tasks st) tid")
  case (Some c)
  let ?n = "next_task env c p"
  let ?st = "persistTaskUpsert ?n (store_task tid c ?n p st)"
  have inv: "flows_inv ?st" using assms by (simp add: flows_inv_cong [of ?st st])
  have "flows_kept st ?st" by (rule flows_kept_refl) simp
  also have "flows_kept ?st (snd (syncFlowFromTask env ?n ?st))"
    by (rule syncFlow_kept [OF inv])
  also have "flows_kept (snd (syncFlowFromTask env ?n ?st)) (snd (updateTask env tid p st))"
    using cancelSync_kept [OF syncFlowFromTask_inv [OF inv]] by (simp add: updateTask_def Let_def Some)
  finally show ?thesis .
qed (simp add: updateTask_None flows_kept_refl)

lemma register_task_kept:
  assumes "flows_inv st"
  shows "flows_kept st (register_task env t d st)"
proof -
  have "flows_kept st (snd (syncFlowFromTask env t st'))"
    if "flows st' = flows st" "flowRows st' = flowRows st" for st' :: TaskReg
    using syncFlow_kept [of st'] flows_kept_refl [OF that(1)] assms that flows_inv_cong [of st' st]
      flows_kept_trans by blast
  then show ?thesis by (simp add: register_task_def Let_def)
qed

section \<open>Owners agree\<close>

definition link_agrees :: "TaskRecord \<Rightarrow> TaskFlowRecord \<Rightarrow> bool" where
  "link_agrees t f \<longleftrightarrow> scopeKind t = Sk_session
     \<and> normalizeOptionalString (Some (ownerKeyF f)) = normalizeOptionalString (Some (ownerKey t))"

definition links_inv :: "TaskReg \<Rightarrow> bool" where
  "links_inv st \<longleftrightarrow> registry_inv st \<and> (\<forall>k t fid f. map_of (tasks st) k = Some t \<longrightarrow>
     normalizeOptionalString (parentFlowId t) = Some fid \<longrightarrow> map_of (flows st) fid = Some f \<longrightarrow> link_agrees t f)"

lemma links_inv_lookup:
  "links_inv st \<Longrightarrow> map_of (tasks st) k = Some t \<Longrightarrow> normalizeOptionalString (parentFlowId t) = Some fid \<Longrightarrow>
     map_of (flows st) fid = Some f \<Longrightarrow> link_agrees t f"
  by (simp add: links_inv_def)

lemma link_agrees_same_flow: "link_agrees t f \<Longrightarrow> same_flow f f' \<Longrightarrow> link_agrees t f'"
  by (simp add: link_agrees_def same_flow_def)

lemma assert_link_agrees:
  "assertParentFlowLinkAllowed (ownerKey t) (scopeKind t) x st = Inr u \<Longrightarrow>
     normalizeOptionalString x = Some fid \<Longrightarrow> map_of (flows st) fid = Some f \<Longrightarrow> link_agrees t f"
  by (auto simp: assertParentFlowLinkAllowed_def getTaskFlowById_def link_agrees_def split: if_splits)

text \<open>
  The general step: the flows are kept, and every task of the new state either was there with the
  same owner, scope and parent, or has been checked against the old flows.
\<close>

lemma links_inv_step:
  assumes "links_inv st" "registry_inv st'" "flows_kept st st'"
    and new: "\<And>k t'. map_of (tasks st') k = Some t' \<Longrightarrow>
      (\<exists>k0 t. map_of (tasks st) k0 = Some t \<and> ownerKey t' = ownerKey t \<and> scopeKind t' = scopeKind t
         \<and> parentFlowId t' = parentFlowId t)
      \<or> assertParentFlowLinkAllowed (ownerKey t') (scopeKind t') (parentFlowId t') st = Inr ()"
  shows "links_inv st'"
  unfolding links_inv_def
proof (intro conjI allI impI)
  fix k t' fid f'
  assume t': "map_of (tasks st') k = Some t'" and fid: "normalizeOptionalString (parentFlowId t') = Some fid"
    and "map_of (flows st') fid = Some f'"
  with assms(3) obtain f where f: "map_of (flows st) fid = Some f" "same_flow f f'"
    using flows_kept_lookup by blast
  from new [OF t'] have "link_agrees t' f"
  proof
    assume "\<exists>k0 t. map_of (tasks st) k0 = Some t \<and> ownerKey t' = ownerKey t \<and> scopeKind t' = scopeKind t
        \<and> parentFlowId t' = parentFlowId t"
    then obtain k0 t where "map_of (tasks st) k0 = Some t" and e: "ownerKey t' = ownerKey t"
      "scopeKind t' = scopeKind t" "parentFlowId t' = parentFlowId t" by blast
    then have "link_agrees t f" using links_inv_lookup [OF assms(1)] f(1) fid by simp
    then show ?thesis by (simp add: link_agrees_def e)
  next
    assume "assertParentFlowLinkAllowed (ownerKey t') (scopeKind t') (parentFlowId t') st = Inr ()"
    then show ?thesis using assert_link_agrees fid f(1) by blast
  qed
  then show "link_agrees t' f'" using f(2) by (rule link_agrees_same_flow)
qed (rule assms(2))

lemma links_registry: "links_inv st \<Longrightarrow> registry_inv st \<and> flows_inv st \<and> tasks_wf st"
  by (simp add: links_inv_def registry_inv_def)

lemma updateTask_lookup:
  "map_of (tasks (snd (updateTask env tid p st))) k = Some t' \<Longrightarrow>
     map_of (tasks st) k = Some t' \<or> k = tid \<and> (\<exists>t. map_of (tasks st) tid = Some t \<and> t' = next_task env t p)"
  by (auto simp: split: option.splits if_splits)

lemma updateTask_links:
  assumes "links_inv st" "patch_ok p"
  shows "links_inv (snd (updateTask env tid p st))"
proof (rule links_inv_step [OF assms(1)])
  show "registry_inv (snd (updateTask env tid p st))"
    using assms links_registry by (simp add: updateTask_inv patch_ok_def)
  show "flows_kept st (snd (updateTask env tid p st))" using assms(1) links_registry updateTask_kept by blast
next
  fix k t'
  assume "map_of (tasks (snd (updateTask env tid p st))) k = Some t'"
  from updateTask_lookup [OF this] assms(2)
  have "\<exists>k0 t. map_of (tasks st) k0 = Some t \<and> ownerKey t' = ownerKey t \<and> scopeKind t' = scopeKind t
         \<and> parentFlowId t' = parentFlowId t"
    by (metis next_task_sel(3,6,8) nullish_simps(1) patch_ok_def)
  then show "(\<exists>k0 t. map_of (tasks st) k0 = Some t \<and> ownerKey t' = ownerKey t \<and> scopeKind t' = scopeKind t
         \<and> parentFlowId t' = parentFlowId t)
      \<or> assertParentFlowLinkAllowed (ownerKey t') (scopeKind t') (parentFlowId t') st = Inr ()" ..
qed

lemma link_links:
  assumes "links_inv st" "map_of (tasks st) tid = Some t"
    "assertParentFlowLinkAllowed (ownerKey t) (scopeKind t) (Some fid) st = Inr ()"
  shows "links_inv (snd (updateTask env tid (link_patch fid) st))"
proof (rule links_inv_step [OF assms(1)])
  show "registry_inv (snd (updateTask env tid (link_patch fid) st))"
    using assms links_registry by (simp add: updateTask_inv link_patch_def)
  show "flows_kept st (snd (updateTask env tid (link_patch fid) st))"
    using assms(1) links_registry updateTask_kept by blast
next
  fix k t'
  assume "map_of (tasks (snd (updateTask env tid (link_patch fid) st))) k = Some t'"
  from updateTask_lookup [OF this] assms(2,3)
  show "(\<exists>k0 t. map_of (tasks st) k0 = Some t \<and> ownerKey t' = ownerKey t \<and> scopeKind t' = scopeKind t
         \<and> parentFlowId t' = parentFlowId t)
      \<or> assertParentFlowLinkAllowed (ownerKey t') (scopeKind t') (parentFlowId t') st = Inr ()"
    by (auto simp: link_patch_def)
qed

lemma register_links:
  assumes "links_inv st" "taskId t \<notin> fst ` set (tasks st)" "registrable t"
    "assertParentFlowLinkAllowed (ownerKey t) (scopeKind t) (parentFlowId t) st = Inr ()"
  shows "links_inv (register_task env t d st)"
proof (rule links_inv_step [OF assms(1)])
  show "registry_inv (register_task env t d st)" using assms links_registry register_task_inv by blast
  show "flows_kept st (register_task env t d st)" using assms(1) links_registry register_task_kept by blast
qed (use assms(4) in \<open>auto split: if_splits\<close>)

lemma deleteTask_sel:
  "map_of (tasks (snd (deleteTaskRecordById tid st))) k = (if k = tid then None else map_of (tasks st) k)"
  "flows (snd (deleteTaskRecordById tid st)) = flows st"
  by (auto simp: deleteTaskRecordById_def Let_def persistTaskDelete_def persistTaskDeliveryStateDelete_def
      rebuildRunIdIndex_def split: option.splits)

lemma delete_links:
  assumes "links_inv st"
  shows "links_inv (snd (deleteTaskRecordById tid st))"
proof (rule links_inv_step [OF assms])
  show "registry_inv (snd (deleteTaskRecordById tid st))"
    using links_registry [OF assms] by (simp add: deleteTaskRecordById_inv)
qed (auto simp: deleteTask_sel flows_kept_refl split: if_splits)

lemma flow_step_dom:
  assumes "flow_step st st'" "flows_inv st" "map_of (flows st') fid = Some f'"
  shows "(\<exists>f. map_of (flows st) fid = Some f \<and> same_flow f f') \<or> fid \<notin> set (map fst (flows st))"
proof (cases "map_of (flows st) fid")
  case (Some f)
  have "flow_evolves f f'" using flow_step_evolves [OF assms(2,1) Some assms(3)] .
  with Some show ?thesis using evolves_same_flow by blast
qed (simp add: map_of_eq_None_iff)

lemma flow_links:
  assumes "links_inv st" "flow_step st st'" "new_flows_unused st st'"
  shows "links_inv st'"
  unfolding links_inv_def
proof (intro conjI allI impI)
  show "registry_inv st'" using flow_step_registry_inv [OF _ assms(2)] links_registry [OF assms(1)] by simp
  have same: "tasks st' = tasks st" by (rule same_more(1) [OF flow_step_more [OF assms(2)]])
  have inv: "flows_inv st" using links_registry [OF assms(1)] by simp
  fix k t fid f'
  assume "map_of (tasks st') k = Some t" and fid: "normalizeOptionalString (parentFlowId t) = Some fid"
    and f': "map_of (flows st') fid = Some f'"
  then have t: "map_of (tasks st) k = Some t" by (simp add: same)
  from f' have "(fid, f') \<in> set (flows st')" by (rule map_of_SomeD)
  then have "fid \<in> set (map fst (flows st'))" by force
  moreover have "normalizeOptionalString (parentFlowId t) \<noteq> Some fid"
    if "fid \<in> set (map fst (flows st')) - set (map fst (flows st))"
    using bspec [OF bspec [OF assms(3) [unfolded new_flows_unused_def] that] map_of_SomeD [OF t]] by simp
  ultimately have "fid \<in> set (map fst (flows st))" using fid by blast
  then obtain f where f: "map_of (flows st) fid = Some f" "same_flow f f'"
    using flow_step_dom [OF assms(2) inv f'] by blast
  from links_inv_lookup [OF assms(1) t fid f(1)] f(2) show "link_agrees t f'"
    by (rule link_agrees_same_flow)
qed

lemma delivery_links:
  assumes "links_inv st"
  shows "links_inv (upsertTaskDeliveryState env tid d n st)"
proof (rule links_inv_step [OF assms])
  show "registry_inv (upsertTaskDeliveryState env tid d n st)"
    using links_registry [OF assms] by (simp add: upsertDelivery_inv)
qed (auto simp: flows_kept_refl)

interpretation links: registry_invariant links_inv
proof (unfold_locales, goal_cases)
  case (1 st p env tid) then show ?case by (rule updateTask_links)
next
  case (2 st tid t fid env) then show ?case by (rule link_links)
next
  case (3 st env tid d n) then show ?case by (rule delivery_links)
next
  case (4 st t env d) then show ?case by (blast intro: register_links)
next
  case (5 st tid) then show ?case by (rule delete_links)
next
  case (6 st st') then show ?case by (rule flow_links)
qed (simp_all add: links_inv_def registry.I_effects registry.I_continuations registry.I_pending)

lemma task_reachable_links: "task_reachable st \<Longrightarrow> links_inv st"
  by (erule links.task_reachable_I) (simp add: links_inv_def boot_tasks_inv boot_tasks_sel)

end
