(* ===== verification/TaskRegistryProps.thy ===== *)
theory TaskRegistryProps
  imports TaskFlowLinks
begin

text \<open>
  What the task registry promises its callers: complete and ordered answers to queries,
  durability, creation without duplicates, ownership of flows, delivery at most once.
\<close>

section \<open>Answers to queries\<close>

lemma set_map_filter_iff: "y \<in> set (List.map_filter f xs) \<longleftrightarrow> (\<exists>x \<in> set xs. f x = Some y)"
  by (induction xs) (auto simp: List.map_filter_simps split: option.splits)

lemma set_indexed_ids: "(\<exists>i. (i, x) \<in> set (enumerate n xs)) \<longleftrightarrow> x \<in> set xs"
  by (induction xs arbitrary: n) auto

lemma set_listTasksFromIndex:
  "set (listTasksFromIndex i key st) = {t. \<exists>tid \<in> idx_look i key. map_of (tasks st) tid = Some t}"
  (is "?l = ?r")
proof -
  have "t \<in> ?l \<longleftrightarrow> (\<exists>tid. (\<exists>n. (n, tid) \<in> set (enumerate 0 (nullish (map_of i key) [])))
      \<and> map_of (tasks st) tid = Some t)" for t
    by (force simp: listTasksFromIndex_def image_iff set_map_filter_iff)
  then show ?thesis by (auto simp: set_indexed_ids idx_look_def)
qed

lemma sorted_pair_snd:
  "sorted (map (\<lambda>(i, t). (- f t, - int i)) xs) \<Longrightarrow> sorted_wrt (\<lambda>a b. f a \<ge> (f b :: int)) (map snd xs)"
  by (induction xs) (auto simp: less_eq_prod_def)

lemma sorted_listTasksFromIndex:
  "sorted_wrt (\<lambda>a b. createdAt a \<ge> createdAt b) (listTasksFromIndex i key st)"
  unfolding listTasksFromIndex_def by (rule sorted_pair_snd) (rule sorted_sort_key)

lemma distinct_map_filter:
  assumes inj: "\<And>x y t. f x = Some t \<Longrightarrow> f y = Some t \<Longrightarrow> x = y"
  shows "distinct xs \<Longrightarrow> distinct (List.map_filter f xs)"
proof (induction xs)
  case (Cons x xs)
  have "t \<notin> set (List.map_filter f xs)" if "f x = Some t" for t
    using Cons.prems inj [OF that] by (auto simp: set_map_filter_iff)
  with Cons show ?case by (simp add: List.map_filter_simps split: option.splits)
qed (simp add: List.map_filter_simps)

lemma map_snd_map_filter:
  "map snd (List.map_filter (\<lambda>(i, x). map_option (Pair i) (f x)) xs) = List.map_filter f (map snd xs)"
  by (induction xs) (auto simp: List.map_filter_simps split: option.splits)

lemma distinct_listTasksFromIndex:
  assumes "idx_wf i" "tasks_wf st"
  shows "distinct (listTasksFromIndex i key st)"
proof -
  let ?g = "\<lambda>(i, tid). map_option (Pair i) (map_of (tasks st) tid)"
  let ?ids = "nullish (map_of i key) []"
  let ?xs = "List.map_filter ?g (enumerate 0 ?ids)"
  have "map_of (tasks st) x = Some t \<Longrightarrow> map_of (tasks st) y = Some t \<Longrightarrow> x = y" for x y t
    using assms(2) by (metis tasks_wf_lookup)
  moreover have "distinct (map snd (enumerate 0 ?ids))" using assms(1) by (simp add: idx_wf_ids)
  ultimately have "distinct (map snd ?xs)" unfolding map_snd_map_filter by (rule distinct_map_filter)
  moreover have "mset (map snd (sort_key k ?xs)) = mset (map snd ?xs)" for k :: "nat \<times> TaskRecord \<Rightarrow> int \<times> int"
    by simp
  ultimately show ?thesis
    unfolding listTasksFromIndex_def by (metis mset_eq_imp_distinct_iff)
qed

lemma indexed_list:
  assumes "registry_inv st" "indexed keys st i"
  shows "set (listTasksFromIndex i key st) = {t. \<exists>k. map_of (tasks st) k = Some t \<and> key \<in> keys t}"
    and "distinct (listTasksFromIndex i key st)"
  using assms distinct_listTasksFromIndex
  by (auto simp: set_listTasksFromIndex indexed_def idx_exact_def registry_inv_def)

lemma registry_indexed:
  assumes "registry_inv st"
  shows "indexed run_keys st (taskIdsByRunId st)" "indexed owner_keys st (taskIdsByOwnerKey st)"
    "indexed flow_keys st (taskIdsByParentFlowId st)"
    "indexed session_keys st (taskIdsByRelatedSessionKey st)"
  using assms by (simp_all add: registry_inv_def index_inv_indexed)

lemma set_getTasksByRunId:
  assumes "registry_inv st"
  shows "set (getTasksByRunId rid st)
    = {t. \<exists>k. map_of (tasks st) k = Some t \<and> js_trim rid \<in> run_keys t}"
proof -
  have "set (getTasksByRunId rid st)
      = {t. \<exists>tid \<in> idx_look (taskIdsByRunId st) (js_trim rid). map_of (tasks st) tid = Some t}"
    by (auto simp: getTasksByRunId_def idx_look_def set_map_filter_iff)
  then show ?thesis
    using registry_indexed(1) [OF assms] by (auto simp: indexed_def idx_exact_def)
qed

lemma set_task_lists:
  assumes inv: "registry_inv st"
  shows "set (listTasksForOwnerKey x st) = {t. \<exists>k. map_of (tasks st) k = Some t
       \<and> js_trim x \<noteq> '''' \<and> js_trim (ownerKey t) = js_trim x}"
    and "set (listTasksForFlowId x st) = {t. \<exists>k. map_of (tasks st) k = Some t
       \<and> js_trim x \<noteq> '''' \<and> map_option js_trim (parentFlowId t) = Some (js_trim x)}"
    and "set (listTasksForRelatedSessionKey x st) = {t. \<exists>k. map_of (tasks st) k = Some t
       \<and> js_trim x \<noteq> '''' \<and> (js_trim (ownerKey t) = js_trim x
            \<or> map_option js_trim (childSessionKey t) = Some (js_trim x))}"
    and "set (getTasksByRunId x st) = {t. \<exists>k. map_of (tasks st) k = Some t
       \<and> js_trim x \<noteq> '''' \<and> map_option js_trim (runId t) = Some (js_trim x)}"
proof -
  note lists = indexed_list [OF inv registry_indexed(2) [OF inv]] indexed_list [OF inv registry_indexed(3) [OF inv]]
    indexed_list [OF inv registry_indexed(4) [OF inv]] set_getTasksByRunId [OF inv]
  have key: "normalizeOptionalString s = Some k \<longleftrightarrow> k \<noteq> '''' \<and> map_option js_trim s = Some k" for k s
    by (cases s) (auto simp: normalizeOptionalString_Some)
  note defs = listTasksForOwnerKey_def listTasksForFlowId_def listTasksForRelatedSessionKey_def
    normalizeOptionalString_Some run_keys_def owner_keys_def flow_keys_def session_keys_def key
  show "set (listTasksForOwnerKey x st) = {t. \<exists>k. map_of (tasks st) k = Some t
       \<and> js_trim x \<noteq> '''' \<and> js_trim (ownerKey t) = js_trim x}"
    by (cases "js_trim x = ''''") (auto simp: lists defs)
  show "set (listTasksForFlowId x st) = {t. \<exists>k. map_of (tasks st) k = Some t
       \<and> js_trim x \<noteq> '''' \<and> map_option js_trim (parentFlowId t) = Some (js_trim x)}"
    by (cases "js_trim x = ''''") (auto simp: lists defs)
  show "set (listTasksForRelatedSessionKey x st) = {t. \<exists>k. map_of (tasks st) k = Some t
       \<and> js_trim x \<noteq> '''' \<and> (js_trim (ownerKey t) = js_trim x
            \<or> map_option js_trim (childSessionKey t) = Some (js_trim x))}"
    by (cases "js_trim x = ''''") (auto simp: lists defs)
  show "set (getTasksByRunId x st) = {t. \<exists>k. map_of (tasks st) k = Some t
       \<and> js_trim x \<noteq> '''' \<and> map_option js_trim (runId t) = Some (js_trim x)}"
    by (cases "js_trim x = ''''") (auto simp: lists defs)
qed

definition example_create :: CreateTaskParams where
  "example_create = \<lparr>runtimeT = Rt_cli, taskKindT = None, sourceIdT = None,
     requesterSessionKeyT = Some ''agent:main:main'', ownerKeyT = None, scopeKindT = None,
     requesterOriginT = None, childSessionKeyT = None, parentFlowIdT = None, parentTaskIdT = None,
     agentIdT = None, runIdT = Some ''r1'', labelT = None, taskT = ''build'', preferMetadataT = False,
     statusT = Some St_running, deliveryStatusT = None, notifyPolicyT = None, startedAtT = Some 5,
     lastEventAtT = None, cleanupAfterT = None, progressSummaryT = None, terminalSummaryT = None,
     terminalOutcomeT = None\<rparr>"

definition example_tasks :: TaskReg where
  "example_tasks = snd (createTaskRecord (default_env 7) ''t1'' example_create boot_tasks)"

lemma example_tasks_reachable: "task_reachable example_tasks"
  unfolding example_tasks_def
  by (rule task_reachable.step [OF task_reachable.start task_step.create]) (simp add: boot_tasks_sel)

lemma example_tasks_lookup:
  "map_option (\<lambda>t. (taskId t, status t, ownerKey t, runtime t, deliveryStatus t, notifyPolicy t))
     (map_of (tasks example_tasks) ''t1'')
   = Some (''t1'', St_running, ''agent:main:main'', Rt_cli, Ds_pending, Np_done_only)"
  by code_simp

lemma distinct_getTasksByRunId:
  assumes "registry_inv st"
  shows "distinct (getTasksByRunId rid st)"
proof -
  have "idx_wf (taskIdsByRunId st)" using registry_indexed(1) [OF assms] by (simp add: indexed_def)
  moreover have "tasks_wf st" using assms by (simp add: registry_inv_def)
  then have "map_of (tasks st) x = Some t \<Longrightarrow> map_of (tasks st) y = Some t \<Longrightarrow> x = y" for x y t
    by (metis tasks_wf_lookup)
  ultimately show ?thesis unfolding getTasksByRunId_def by (intro distinct_map_filter) (simp_all add: idx_wf_ids)
qed

text \<open>
  C4. In every reachable state the queries by owner, by flow, by session and by run answer with
  exactly the tasks that have the key (after trimming), each once. The lists by owner, by flow and by session are ordered
  by decreasing creation time; of the list by run no order is stated.
\<close>

theorem queries_complete:
  assumes "task_reachable st"
  shows "set (listTasksForOwnerKey x st) = {t. \<exists>k. map_of (tasks st) k = Some t
       \<and> js_trim x \<noteq> '''' \<and> js_trim (ownerKey t) = js_trim x}
    \<and> set (listTasksForFlowId x st) = {t. \<exists>k. map_of (tasks st) k = Some t
       \<and> js_trim x \<noteq> '''' \<and> map_option js_trim (parentFlowId t) = Some (js_trim x)}
    \<and> set (listTasksForRelatedSessionKey x st) = {t. \<exists>k. map_of (tasks st) k = Some t
       \<and> js_trim x \<noteq> '''' \<and> (js_trim (ownerKey t) = js_trim x
            \<or> map_option js_trim (childSessionKey t) = Some (js_trim x))}
    \<and> set (getTasksByRunId x st) = {t. \<exists>k. map_of (tasks st) k = Some t
       \<and> js_trim x \<noteq> '''' \<and> map_option js_trim (runId t) = Some (js_trim x)}
    \<and> distinct (listTasksForOwnerKey x st) \<and> distinct (listTasksForFlowId x st)
    \<and> distinct (listTasksForRelatedSessionKey x st) \<and> distinct (getTasksByRunId x st)
    \<and> sorted_wrt (\<lambda>a b. createdAt a \<ge> createdAt b) (listTasksForOwnerKey x st)
    \<and> sorted_wrt (\<lambda>a b. createdAt a \<ge> createdAt b) (listTasksForFlowId x st)
    \<and> sorted_wrt (\<lambda>a b. createdAt a \<ge> createdAt b) (listTasksForRelatedSessionKey x st)"
proof -
  have inv: "registry_inv st" by (rule task_reachable_inv [OF assms])
  note lists = indexed_list [OF inv registry_indexed(2) [OF inv]] indexed_list [OF inv registry_indexed(3) [OF inv]]
    indexed_list [OF inv registry_indexed(4) [OF inv]]
  have "distinct (listTasksForOwnerKey x st) \<and> distinct (listTasksForFlowId x st)
      \<and> distinct (listTasksForRelatedSessionKey x st)
      \<and> sorted_wrt (\<lambda>a b. createdAt a \<ge> createdAt b) (listTasksForOwnerKey x st)
      \<and> sorted_wrt (\<lambda>a b. createdAt a \<ge> createdAt b) (listTasksForFlowId x st)
      \<and> sorted_wrt (\<lambda>a b. createdAt a \<ge> createdAt b) (listTasksForRelatedSessionKey x st)"
    by (auto simp: lists listTasksForOwnerKey_def listTasksForFlowId_def listTasksForRelatedSessionKey_def
        normalizeOptionalString_Some sorted_listTasksFromIndex)
  then show ?thesis using set_task_lists [OF inv, of x] distinct_getTasksByRunId [OF inv, of x] by blast
qed

theorem queries_complete_witness:
  "\<exists>t. t \<in> set (listTasksForOwnerKey '' agent:main:main'' example_tasks) \<and> taskId t = ''t1''"
proof -
  obtain t where t: "map_of (tasks example_tasks) ''t1'' = Some t" "taskId t = ''t1''"
      "ownerKey t = ''agent:main:main''"
    using example_tasks_lookup by auto
  have trims: "js_trim '' agent:main:main'' = ''agent:main:main''" "js_trim ''agent:main:main'' = ''agent:main:main''"
    by code_simp+
  show ?thesis
    using queries_complete [OF example_tasks_reachable, of "'' agent:main:main''"] t trims by auto
qed

section \<open>The invariant of the registry\<close>

text \<open>
  C1. In every reachable state a task is filed under its own identifier, a task in a terminal
  status has a time at which it may be cleaned up, and under every identifier the SQLite tables hold exactly the row that
  the task and the delivery state in memory are bound to when they are written, and no row when there is none.
\<close>

theorem task_registry_invariant:
  assumes "task_reachable st"
  shows "(map_of (tasks st) k = Some t \<longrightarrow>
       taskId t = k \<and> (isTerminalTaskStatus (status t) \<longrightarrow> cleanupAfter t \<noteq> None))
    \<and> map_of (taskRows st) k = map_option bindTaskRecordBase (map_of (tasks st) k)
    \<and> map_of (deliveryRows st) k = map_option bindTaskDeliveryState (map_of (taskDeliveryStates st) k)"
  using task_reachable_inv [OF assms]
  by (simp add: registry_inv_def tasks_wf_def tables_inv_def registrable_def)

theorem task_registry_invariant_witness:
  "\<exists>r. map_of (taskRows example_tasks) ''t1'' = Some r \<and> r_status r = St_running"
proof -
  obtain t where "map_of (tasks example_tasks) ''t1'' = Some t" "status t = St_running"
    using example_tasks_lookup by auto
  with task_registry_invariant [OF example_tasks_reachable, of "''t1''" t]
  show ?thesis by (simp add: bindTaskRecordBase_def)
qed

section \<open>Restarting\<close>

text \<open>A restart of the process: the memory is lost, the tables are kept, and both registries are read again.\<close>

definition restart_tasks :: "TaskReg \<Rightarrow> TaskReg" where
  "restart_tasks st = restoreTaskRegistryOnce ((restart_flows st)\<lparr>tasks := [], taskDeliveryStates := [],
     taskIdsByRunId := [], taskIdsByOwnerKey := [], taskIdsByParentFlowId := [],
     taskIdsByRelatedSessionKey := [], tasksWithPendingDelivery := [], restoreAttempted := False,
     effects := [], continuations := []\<rparr>)"

lemma map_of_fold_pairs:
  "distinct (map fst m) \<Longrightarrow> map_of (fold (\<lambda>(k, v). AList.update k v) m []) = map_of m"
  using map_of_fold_update [of fst m snd "[]"]
  by (simp add: case_prod_unfold fun_eq_iff split: option.splits)

lemma load_tasks_map:
  assumes "tables_inv st" "\<forall>k t. map_of (tasks st) k = Some t \<longrightarrow> task_storable t"
    "load = loadTaskRegistryStateFromSqlite (migrateLegacyOwnerColumns (taskRows st), deliveryRows st)"
  shows "map_of (fst load) = map_of (tasks st)" "map_of (snd load) = map_of (taskDeliveryStates st)"
    "distinct (map fst (fst load))" "distinct (map fst (snd load))"
proof -
  let ?mig = "\<lambda>r. migrate_requester (migrate_scope (migrate_owner r))"
  let ?rows = "migrateLegacyOwnerColumns (taskRows st)"
  have ids: "r_task_id (?mig r) = r_task_id r" for r
    by (simp add: migrate_requester_def migrate_scope_def migrate_owner_def Let_def)
  have rows: "distinct (map fst ?rows)" "\<forall>(k, r) \<in> set ?rows. r_task_id r = k"
    using assms(1) by (auto simp: migrateLegacyOwnerColumns_def tables_inv_def ids comp_def case_prod_unfold)
  have "map_of ?rows k = map_option ?mig (map_of (taskRows st) k)" for k
    by (simp add: migrateLegacyOwnerColumns_def map_of_map)
  then have "map_option rowToTaskRecord (map_of ?rows k) = map_of (tasks st) k" for k
    using assms(1,2) task_row_roundtrip
    by (cases "map_of (tasks st) k") (simp_all add: tables_inv_def)
  then show "map_of (fst load) = map_of (tasks st)"
    by (simp add: assms(3) loadTaskRegistryStateFromSqlite_def Let_def load_rows [OF rows] fun_eq_iff)
  have "map_option rowToTaskDeliveryState (map_of (deliveryRows st) k) = map_of (taskDeliveryStates st) k" for k
    using assms(1) by (cases "map_of (taskDeliveryStates st) k") (simp_all add: tables_inv_def delivery_row_roundtrip)
  moreover have "distinct (map fst (deliveryRows st))" "\<forall>(k, r) \<in> set (deliveryRows st). d_task_id r = k"
    using assms(1) by (simp_all add: tables_inv_def)
  ultimately show "map_of (snd load) = map_of (taskDeliveryStates st)"
    using load_rows [of "deliveryRows st" d_task_id rowToTaskDeliveryState d_task_id]
    by (simp add: assms(3) loadTaskRegistryStateFromSqlite_def Let_def fun_eq_iff)
  show "distinct (map fst (fst load))" "distinct (map fst (snd load))"
    by (simp_all add: assms(3) loadTaskRegistryStateFromSqlite_def Let_def distinct_fold_update)
qed

text \<open>
  C6. Durability: restarting in a reachable state whose tasks are storable (their optional texts
  are not empty, their keys are trimmed, and system keys belong to system tasks only) gives back
  every task, every delivery state and every flow.
\<close>

theorem task_registry_survives_restart:
  assumes "task_reachable st" "\<forall>k t. map_of (tasks st) k = Some t \<longrightarrow> task_storable t"
  shows "map_of (tasks (restart_tasks st)) = map_of (tasks st)
    \<and> map_of (taskDeliveryStates (restart_tasks st)) = map_of (taskDeliveryStates st)
    \<and> map_of (flows (restart_tasks st)) = map_of (flows st)"
proof -
  have inv: "tables_inv st" "flows_inv st" using task_reachable_inv [OF assms(1)] by (simp_all add: registry_inv_def)
  define load where "load = loadTaskRegistryStateFromSqlite (migrateLegacyOwnerColumns (taskRows st), deliveryRows st)"
  note l = load_tasks_map [OF inv(1) assms(2) load_def]
  have f: "map_of (flows (restart_flows st)) = map_of (flows st)"
    using restart_flows_sel(1) [OF inv(2)] load_mirror inv(2) by (metis flows_inv_def)
  have t: "taskRows (restart_flows st) = taskRows st" "deliveryRows (restart_flows st) = deliveryRows st"
    by (simp_all add: restart_flows_def ensureFlowRegistryReady_def Let_def split: option.splits)
  show ?thesis
  proof (cases "fst load = [] \<and> snd load = []")
    case True
    then have "map_of (tasks st) = Map.empty" "map_of (taskDeliveryStates st) = Map.empty"
      using l(1,2) by (metis map_of.simps(1))+
    with True f show ?thesis
      by (simp add: restart_tasks_def restoreTaskRegistryOnce_def t load_def Let_def)
  next
    case False
    then show ?thesis
      using f l map_of_fold_pairs [OF l(3)] map_of_fold_pairs [OF l(4)]
      by (auto simp: restart_tasks_def restoreTaskRegistryOnce_def t load_def [symmetric] Let_def
          rebuildRelatedSessionKeyIndex_def rebuildParentFlowIdIndex_def rebuildOwnerKeyIndex_def
          rebuildRunIdIndex_def)
  qed
qed

lemma example_tasks_storable: "list_all (\<lambda>(k, t). task_storable t) (tasks example_tasks)"
  by code_simp

theorem task_registry_survives_restart_witness:
  "map_of (tasks (restart_tasks example_tasks)) ''t1'' \<noteq> None"
proof -
  have "map_of (tasks example_tasks) k = Some t \<Longrightarrow> task_storable t" for k t
    using example_tasks_storable map_of_SomeD [of "tasks example_tasks" k t] by (auto simp: list_all_iff)
  with task_registry_survives_restart [OF example_tasks_reachable] example_tasks_lookup
  show ?thesis by fastforce
qed

section \<open>Deliveries\<close>

text \<open>
  C2. However handlers interleave, at most one terminal delivery of a task is in flight, and a task
  is marked as having one exactly while a suspended handler delivers it.
\<close>

theorem one_delivery_in_flight:
  assumes "task_reachable st"
  shows "length (filter (\<lambda>c. delivering c = [tid]) (continuations st)) \<le> 1
    \<and> (tid \<in> set (tasksWithPendingDelivery st) \<longleftrightarrow> (\<exists>c \<in> set (continuations st). delivering c = [tid]))"
proof -
  have inv: "pending_inv st" by (rule task_reachable_pending [OF assms])
  have shape: "delivering c = [] \<or> (\<exists>x. delivering c = [x])" for c
    by (simp add: delivering_def split: Continuation.splits)
  have count: "count (mset (concat (map delivering cs))) tid
      = length (filter (\<lambda>c. delivering c = [tid]) cs)" for cs
  proof (induction cs)
    case (Cons c cs)
    with shape [of c] show ?case by auto
  qed simp
  have "count (mset (tasksWithPendingDelivery st)) tid \<le> 1"
    using inv by (metis distinct_count_atmost_1 le_less_linear less_one nle_le order_refl pending_inv_def zero_le)
  then have "length (filter (\<lambda>c. delivering c = [tid]) (continuations st)) \<le> 1"
    using inv count [of "continuations st"] by (simp add: pending_inv_def)
  moreover have "set (tasksWithPendingDelivery st) = set (concat (map delivering (continuations st)))"
    using inv mset_eq_setD [of "tasksWithPendingDelivery st"] by (simp add: pending_inv_def)
  moreover have "tid \<in> set (delivering c) \<longleftrightarrow> delivering c = [tid]" for c
    using shape [of c] by auto
  ultimately show ?thesis by auto
qed

text \<open>A task that is created ended, with a chat to report to: its delivery is in flight.\<close>

definition example_delivering :: TaskReg where
  "example_delivering = snd (createTaskRecord (default_env 7) ''t1''
     (example_create\<lparr>statusT := Some St_succeeded,
       requesterOriginT := Some \<lparr>channelD = Some ''telegram'', toD = Some ''chat'', accountIdD = None,
         threadIdD = None\<rparr>\<rparr>) boot_tasks)"

lemma example_delivering_reachable: "task_reachable example_delivering"
  unfolding example_delivering_def
  by (rule task_reachable.step [OF task_reachable.start task_step.create]) (simp add: boot_tasks_sel)

theorem one_delivery_in_flight_witness:
  "tasksWithPendingDelivery example_delivering = [''t1''] \<and> map delivering (continuations example_delivering) = [[''t1'']]
   \<and> length (filter (\<lambda>c. delivering c = [''t1'']) (continuations example_delivering)) \<le> 1"
proof -
  have "tasksWithPendingDelivery example_delivering = [''t1'']" by code_simp
  moreover have "map delivering (continuations example_delivering) = [[''t1'']]" by code_simp
  ultimately show ?thesis using one_delivery_in_flight [OF example_delivering_reachable, of "''t1''"] by blast
qed

text \<open>What a status that is no longer pending means for later calls.\<close>

lemma set_delivery_lookup:
  "map_of (tasks (snd (set_delivery env tid s st))) tid
     = map_option (\<lambda>t. next_task env t (empty_patch\<lparr>deliveryStatusP := Some s,
         lastEventAtP := Some (Some (date_now env))\<rparr>)) (map_of (tasks st) tid)"
  by (auto simp: set_delivery_def split: option.splits)

lemma resolveMissing_not_pending: "resolveMissingOwnerDeliveryStatus t \<noteq> Ds_pending"
  by (simp add: resolveMissingOwnerDeliveryStatus_def)

definition not_pending :: "string \<Rightarrow> TaskReg \<Rightarrow> bool" where
  "not_pending tid st \<longleftrightarrow> (\<forall>t. map_of (tasks st) tid = Some t \<longrightarrow> deliveryStatus t \<noteq> Ds_pending)"

lemma set_delivery_not_pending: "s \<noteq> Ds_pending \<Longrightarrow> not_pending tid (snd (release_delivery tid (set_delivery env tid s st)))"
  by (auto simp: not_pending_def set_delivery_lookup)

lemma not_pending_noop:
  "not_pending tid st \<Longrightarrow> snd (maybeDeliverTaskTerminalUpdate env tid st) = st"
  by (auto simp: maybeDeliverTaskTerminalUpdate_def not_pending_def shouldAutoDeliverTaskTerminalUpdate_def
      split: option.splits if_splits)

lemma in_flight_noop:
  "tid \<in> set (tasksWithPendingDelivery st) \<Longrightarrow> snd (maybeDeliverTaskTerminalUpdate env tid st) = st"
  by (auto simp: maybeDeliverTaskTerminalUpdate_def split: option.splits)

lemma deliver_terminal_done:
  "tid \<in> set (tasksWithPendingDelivery st) \<Longrightarrow>
     not_pending tid (snd (deliver_terminal env tid t st))
     \<or> tid \<in> set (tasksWithPendingDelivery (snd (deliver_terminal env tid t st)))"
  by (auto simp: deliver_terminal_def Let_def set_delivery_not_pending resolveMissing_not_pending suspend_def
      split: prod.splits bool.splits)

text \<open>
  A terminal update is delivered once: whatever a call did (sent, queued, suppressed, suspended or
  ignored the update), a second call for the same task right after it changes nothing, so it queues
  no event and suspends no second sending.
\<close>

lemma terminal_delivery_once:
  "snd (maybeDeliverTaskTerminalUpdate env' tid (snd (maybeDeliverTaskTerminalUpdate env tid st)))
     = snd (maybeDeliverTaskTerminalUpdate env tid st)"
proof (cases "\<exists>t. map_of (tasks st) tid = Some t \<and> shouldAutoDeliverTaskTerminalUpdate t
    \<and> tid \<notin> set (tasksWithPendingDelivery st)")
  case True
  then obtain t where t: "map_of (tasks st) tid = Some t" "shouldAutoDeliverTaskTerminalUpdate t"
    "tid \<notin> set (tasksWithPendingDelivery st)" by blast
  let ?st1 = "st\<lparr>tasksWithPendingDelivery := set_add tid (tasksWithPendingDelivery st)\<rparr>"
  have "snd (maybeDeliverTaskTerminalUpdate env tid st) = snd (deliver_terminal env tid t ?st1)"
    using t by (simp add: maybeDeliverTaskTerminalUpdate_def Let_def)
  moreover have "not_pending tid (snd (deliver_terminal env tid t ?st1))
      \<or> tid \<in> set (tasksWithPendingDelivery (snd (deliver_terminal env tid t ?st1)))"
    by (rule deliver_terminal_done) simp
  ultimately show ?thesis using not_pending_noop in_flight_noop by metis
next
  case False
  then have "snd (maybeDeliverTaskTerminalUpdate e tid st) = st" for e
    by (auto simp: maybeDeliverTaskTerminalUpdate_def split: option.splits)
  then show ?thesis by simp
qed

end
