(* ===== verification/TaskLifecycle.thy ===== *)
theory TaskLifecycle
  imports TaskRegistryProps
begin

text \<open>
  The life of a task: creation without duplicates, agent events, the flows a task belongs to, and
  cancellation.
\<close>

section \<open>A delivery changes only its own task\<close>

lemma updateTask_other: "k \<noteq> tid \<Longrightarrow> map_of (tasks (snd (updateTask env tid p st))) k = map_of (tasks st) k"
  by (simp split: option.splits)

lemma set_delivery_other: "k \<noteq> tid \<Longrightarrow> map_of (tasks (snd (set_delivery env tid s st))) k = map_of (tasks st) k"
  unfolding set_delivery_def by (rule updateTask_other)

lemma queueTaskSystemEvent_tasks [simp]: "tasks (snd (queueTaskSystemEvent env t text st)) = tasks st"
  by (simp add: queueTaskSystemEvent_def Let_def split: option.splits)

lemma deliver_terminal_other:
  assumes "k \<noteq> tid"
  shows "map_of (tasks (snd (deliver_terminal env tid t st))) k = map_of (tasks st) k"
proof -
  obtain b st1 where q: "queue_session_delivery env t (formatTaskTerminalMessage env t) st = (b, st1)"
    by fastforce
  then have "tasks st1 = tasks st" using queue_session_delivery_sel(1) by (metis snd_conv)
  then show ?thesis
    by (simp add: deliver_terminal_def Let_def q set_delivery_other [OF assms] suspend_def split: bool.splits)
qed

lemma maybeDeliverTerminal_other:
  "k \<noteq> tid \<Longrightarrow> map_of (tasks (snd (maybeDeliverTaskTerminalUpdate env tid st))) k = map_of (tasks st) k"
  by (simp add: maybeDeliverTaskTerminalUpdate_def Let_def deliver_terminal_other split: option.splits)

lemma maybeDeliverStateChange_other:
  "k \<noteq> tid \<Longrightarrow> map_of (tasks (snd (maybeDeliverTaskStateChangeUpdate env tid event st))) k = map_of (tasks st) k"
  by (simp add: maybeDeliverTaskStateChangeUpdate_def Let_def case_prod_unfold set_delivery_other
      updateTask_other suspend_def del: updateTask_tasks split: option.splits)

lemma notify_update_other:
  "k \<noteq> tid \<Longrightarrow> map_of (tasks (notify_update env tid event st)) k = map_of (tasks st) k"
  by (simp add: notify_update_def maybeDeliverTerminal_other maybeDeliverStateChange_other)

section \<open>Agent events\<close>

lemma getTasksByRunScope_subset: "set (getTasksByRunScope rid rt session st) \<subseteq> set (getTasksByRunId rid st)"
  by (auto simp: getTasksByRunScope_def Let_def split: option.splits if_splits)

text \<open>
  An agent event never changes a task that has ended, whatever it says: in a reachable state
  every terminal task is the same after the event has been handled.
\<close>

theorem agent_event_spares_terminal:
  assumes "task_reachable st" "map_of (tasks st) k = Some t" "isTerminalTaskStatus (status t)"
  shows "map_of (tasks (handleAgentEvent env evt st)) k = Some t"
proof -
  have inv: "registry_inv st" by (rule task_reachable_inv [OF assms(1)])
  let ?ms = "getTasksByRunScope (runIdA evt) None (sessionKeyA evt) st"
  let ?f = "\<lambda>now current s. if isTerminalTaskStatus (status current) then s
     else let p = agent_event_patch evt now current
          in case updateTask env (taskId current) p s of (None, s') \<Rightarrow> s'
             | (Some _, s') \<Rightarrow> notify_update env (taskId current) (agent_event_change p now current) s'"
  have "taskId m = k \<Longrightarrow> m \<in> set ?ms \<Longrightarrow> m = t" for m
    using getTasksByRunScope_subset [of "runIdA evt" None "sessionKeyA evt" st] set_getTasksByRunId [OF inv]
      inv assms(2) tasks_wf_lookup by (force simp: registry_inv_def)
  then have "\<forall>m \<in> set ?ms. isTerminalTaskStatus (status m) \<or> taskId m \<noteq> k" using assms(3) by blast
  then have "\<forall>m \<in> set ms. isTerminalTaskStatus (status m) \<or> taskId m \<noteq> k \<Longrightarrow>
      map_of (tasks (fold (?f now) ms s)) k = map_of (tasks s) k" for ms s now
  proof (induction ms arbitrary: s)
    case (Cons m ms)
    have "map_of (tasks (?f now m s)) k = map_of (tasks s) k"
      using Cons.prems notify_update_other [of k "taskId m"] updateTask_other [of k "taskId m"]
      by (auto simp: Let_def case_prod_unfold simp del: updateTask_tasks split: option.splits)
    with Cons show ?case by simp
  qed simp
  with \<open>\<forall>m \<in> set ?ms. _\<close> assms(2) show ?thesis by (simp add: handleAgentEvent_def Let_def)
qed

definition example_done :: TaskReg where
  "example_done = snd (markTaskTerminalById (default_env 9) ''t1'' St_succeeded 9 None None None None example_tasks)"

lemma example_done_reachable: "task_reachable example_done"
  unfolding example_done_def
  by (rule task_reachable.step [OF example_tasks_reachable task_step.terminal_by_id])

lemma example_done_lookup:
  "map_option (\<lambda>t. (status t, runId t)) (map_of (tasks example_done) ''t1'') = Some (St_succeeded, Some ''r1'')"
  by code_simp

theorem agent_event_spares_terminal_witness:
  "\<exists>t. map_of (tasks (handleAgentEvent (default_env 10) \<lparr>runIdA = ''r1'', sessionKeyA = None, tsA = 10,
      streamA = ''lifecycle'', phaseA = Some ''error'', startedAtA = None, endedAtA = None,
      abortedA = False, errorA = Some ''late''\<rparr> example_done)) ''t1'' = Some t \<and> status t = St_succeeded"
proof -
  obtain t where t: "map_of (tasks example_done) ''t1'' = Some t" "status t = St_succeeded"
    using example_done_lookup by auto
  then have "isTerminalTaskStatus (status t)" by (simp add: isTerminalTaskStatus_def)
  from agent_event_spares_terminal [OF example_done_reachable t(1) this] t(2) show ?thesis by blast
qed

section \<open>Creation\<close>

lemma upsertDelivery_lookup: "map_of (tasks (upsertTaskDeliveryState env tid d n st)) = map_of (tasks st)"
  by simp

text \<open>Merging never links a task: the task found already has the parent flow of the parameters.\<close>

lemma fill_in_same: "same_text old new \<Longrightarrow> fill_in new old = None"
  by (cases "normalizeOptionalString new"; cases "normalizeOptionalString old")
     (auto simp: same_text_def fill_in_def dest: normalizeOptionalString_SomeD)

lemma merge_eq:
  assumes "same_text (parentFlowId t) (parentFlowIdT p)"
  shows "\<exists>st1. tasks st1 = tasks st \<and> mergeExistingTaskForCreate env t p st
    = (if merge_patch t p = empty_patch then (Inr t, st1)
       else (Inr (nullish (fst (updateTask env (taskId t) (merge_patch t p) st1)) t),
             snd (updateTask env (taskId t) (merge_patch t p) st1)))"
proof -
  define st1 where "st1 = (if normalizeDeliveryContext env (requesterOriginT p) \<noteq> None
      \<and> Option.bind (map_of (taskDeliveryStates st) (taskId t)) requesterOriginS = None
    then upsertTaskDeliveryState env (taskId t) (normalizeDeliveryContext env (requesterOriginT p))
           (Option.bind (map_of (taskDeliveryStates st) (taskId t)) lastNotifiedEventAtS) st
    else st)"
  have "parentFlowIdP (merge_patch t p) = None" using merge_patch_ok [OF assms] by (simp add: patch_ok_def)
  then have "mergeExistingTaskForCreate env t p st = (if merge_patch t p = empty_patch then (Inr t, st1)
      else (Inr (nullish (fst (updateTask env (taskId t) (merge_patch t p) st1)) t),
            snd (updateTask env (taskId t) (merge_patch t p) st1)))"
    unfolding mergeExistingTaskForCreate_def Let_def st1_def [symmetric] by (simp add: case_prod_unfold)
  moreover have "tasks st1 = tasks st" by (simp add: st1_def)
  ultimately show ?thesis by blast
qed

lemma merge_result:
  assumes "same_text (parentFlowId t) (parentFlowIdT p)"
  shows "\<exists>r st1. tasks st1 = tasks st
    \<and> (mergeExistingTaskForCreate env t p st = (Inr t, st1) \<and> merge_patch t p = empty_patch
      \<or> mergeExistingTaskForCreate env t p st = (Inr r, snd (updateTask env (taskId t) (merge_patch t p) st1)))"
  using merge_eq [OF assms, of st env] by metis

lemma merge_stored:
  assumes "same_text (parentFlowId t) (parentFlowIdT p)" "map_of (tasks st) (taskId t) = Some t"
    "mergeExistingTaskForCreate env t p st = (Inr t1, st')"
  shows "map_of (tasks st') (taskId t) = Some t1 \<and> (t1 = t \<or> t1 = next_task env t (merge_patch t p))"
proof -
  obtain st1 where st1: "tasks st1 = tasks st" and m: "mergeExistingTaskForCreate env t p st
    = (if merge_patch t p = empty_patch then (Inr t, st1)
       else (Inr (nullish (fst (updateTask env (taskId t) (merge_patch t p) st1)) t),
             snd (updateTask env (taskId t) (merge_patch t p) st1)))"
    using merge_eq [OF assms(1), of st env] by blast
  with assms(2,3) show ?thesis by (auto simp: updateTask_fst split: if_splits)
qed

text \<open>
  C7. Creation fails without a trace: when \<open>createTaskRecord\<close> throws, the registry is as before,
  and the error is a missing owner or the refusal of the parent flow, never an error of merging.
\<close>

theorem create_fails_cleanly:
  assumes "fst (createTaskRecord env uuid p st) = Inl e"
  shows "snd (createTaskRecord env uuid p st) = st
    \<and> (e = TaskOwnerKeyRequired \<or> (\<exists>code fid s. e = ParentFlowLinkError code fid s))"
proof -
  have merge: "fst (mergeExistingTaskForCreate env t p st) \<noteq> Inl e"
    if "findExistingTaskForCreate rt w s ck (parentFlowIdT p) rid l x st = Some t" for rt w s ck rid l x t
    using merge_result [OF findExisting_parent [OF that], of st env] by auto
  have owner: "assertTaskOwner w s = Inl e' \<Longrightarrow> e' = TaskOwnerKeyRequired" for w s e'
    by (simp add: assertTaskOwner_def split: if_splits)
  have flow: "assertParentFlowLinkAllowed w s x st = Inl e' \<Longrightarrow> \<exists>code fid s. e' = ParentFlowLinkError code fid s"
    for w s x e'
    by (auto simp: assertParentFlowLinkAllowed_def split: option.splits if_splits)
  show ?thesis
    using assms merge owner flow unfolding createTaskRecord_def Let_def
    by (auto split: sum.splits option.splits)
qed

definition example_create_bad :: CreateTaskParams where
  "example_create_bad = example_create\<lparr>parentFlowIdT := Some ''nope''\<rparr>"

theorem create_fails_cleanly_witness:
  "snd (createTaskRecord (default_env 7) ''t2'' example_create_bad example_tasks) = example_tasks"
proof -
  have "fst (createTaskRecord (default_env 7) ''t2'' example_create_bad example_tasks)
      = Inl (ParentFlowLinkError parent_flow_not_found ''nope'' None)"
    by code_simp
  from create_fails_cleanly [OF this] show ?thesis by blast
qed

definition creates_same :: "CreateTaskParams \<Rightarrow> string \<Rightarrow> TaskScopeKind \<Rightarrow> TaskRecord \<Rightarrow> bool" where
  "creates_same p w s t \<longleftrightarrow> run_scope_match (runtimeT p) w s (childSessionKeyT p) (parentFlowIdT p) t
     \<and> (runtimeT p = Rt_acp \<or> exact_match (labelT p) (taskT p) t)
     \<and> normalizeOptionalString (runId t) = normalizeOptionalString (runIdT p)"

lemma same_text_refl [simp]: "same_text x x" "same_text (normalizeOptionalString x) x"
  by (simp_all add: same_text_def)

lemma creates_same_new: "creates_same p w s (new_task_record env uuid r s w p)"
  by (simp add: creates_same_def new_task_record_def run_scope_match_def exact_match_def Let_def)

lemma creates_same_next:
  assumes "creates_same p w s t" "patch_ok q"
    and "runtimeT p \<noteq> Rt_acp \<Longrightarrow> labelP q = None \<and> taskP q = None"
  shows "creates_same p w s (next_task env t q)"
proof -
  have "runtimeT p \<noteq> Rt_acp \<Longrightarrow> label (next_task env t q) = label t \<and> task (next_task env t q) = task t"
    using assms(3) by (simp add: next_task_def Let_def)
  with assms(1,2) show ?thesis
    by (auto simp: creates_same_def run_scope_match_def exact_match_def patch_ok_def)
qed

lemma findExisting_complete:
  assumes inv: "registry_inv st" and t: "map_of (tasks st) k = Some t" "creates_same p w s t"
    and run: "normalizeOptionalString (runIdT p) \<noteq> None"
  shows "findExistingTaskForCreate (runtimeT p) w s (childSessionKeyT p) (parentFlowIdT p) (runIdT p)
    (labelT p) (taskT p) st \<noteq> None"
proof -
  from run obtain r where r: "normalizeOptionalString (runIdT p) = Some r" by blast
  then have "js_trim r = r" by (simp add: normalizeOptionalString_SomeD)
  then have "t \<in> set (getTasksByRunId r st)"
    using t r by (auto simp: set_getTasksByRunId [OF inv] run_keys_def creates_same_def)
  then have mem: "t \<in> set (filter (run_scope_match (runtimeT p) w s (childSessionKeyT p) (parentFlowIdT p))
      (getTasksByRunId r st))"
    using t(2) by (simp add: creates_same_def)
  show ?thesis
  proof (cases "runtimeT p = Rt_acp")
    case True
    moreover from mem have "pickPreferredRunIdTask (filter (run_scope_match (runtimeT p) w s
        (childSessionKeyT p) (parentFlowIdT p)) (getTasksByRunId r st)) \<noteq> None"
      unfolding pickPreferredRunIdTask_None by (metis empty_iff empty_set)
    ultimately show ?thesis
      by (simp add: findExistingTaskForCreate_def r Let_def split: option.splits)
  next
    case False
    then have "exact_match (labelT p) (taskT p) t" using t(2) by (simp add: creates_same_def)
    with mem show ?thesis
      by (auto simp: findExistingTaskForCreate_def r Let_def find_None_iff split: option.splits)
  qed
qed

definition delivery_patch :: "Env \<Rightarrow> TaskDeliveryStatus \<Rightarrow> TaskPatch" where
  "delivery_patch env s = empty_patch\<lparr>deliveryStatusP := Some s, lastEventAtP := Some (Some (date_now env))\<rparr>"

lemma delivery_patch_sel [simp]:
  "patch_ok (delivery_patch env s)" "labelP (delivery_patch env s) = None" "taskP (delivery_patch env s) = None"
  "statusP (delivery_patch env s) = None"
  by (simp_all add: delivery_patch_def patch_ok_def)

lemma maybeDeliverTerminal_lookup:
  assumes "map_of (tasks st) tid = Some t"
  shows "\<exists>t'. map_of (tasks (snd (maybeDeliverTaskTerminalUpdate env tid st))) tid = Some t'
    \<and> (t' = t \<or> (\<exists>s. t' = next_task env t (delivery_patch env s)))"
proof -
  let ?st1 = "st\<lparr>tasksWithPendingDelivery := set_add tid (tasksWithPendingDelivery st)\<rparr>"
  obtain b st2 where qs: "queue_session_delivery env t (formatTaskTerminalMessage env t) ?st1 = (b, st2)"
    by fastforce
  then have "tasks st2 = tasks st" using queue_session_delivery_sel(1) [of env t _ ?st1] by (metis TaskReg.select_convs(1)
      TaskReg.surjective TaskReg.update_convs(7) snd_conv)
  then have d: "\<exists>t'. map_of (tasks (snd (deliver_terminal env tid t ?st1))) tid = Some t'
    \<and> (t' = t \<or> (\<exists>s. t' = next_task env t (delivery_patch env s)))"
    using assms
    by (auto simp: deliver_terminal_def Let_def qs set_delivery_lookup suspend_def delivery_patch_def
        split: bool.splits)
  show ?thesis
  proof (cases "shouldAutoDeliverTaskTerminalUpdate t \<and> tid \<notin> set (tasksWithPendingDelivery st)")
    case True
    then have "snd (maybeDeliverTaskTerminalUpdate env tid st) = snd (deliver_terminal env tid t ?st1)"
      using assms by (simp add: maybeDeliverTaskTerminalUpdate_def Let_def)
    with d show ?thesis by simp
  next
    case False
    then have "snd (maybeDeliverTaskTerminalUpdate env tid st) = st"
      using assms by (auto simp: maybeDeliverTaskTerminalUpdate_def)
    with assms show ?thesis by auto
  qed
qed

lemma updateTask_keys [simp]: "map fst (tasks (snd (updateTask env tid p st))) = map fst (tasks st)"
  by (auto simp: update_keys map_of_eq_None_iff [symmetric] split: option.splits)

lemma maybeDeliverTerminal_keys [simp]:
  "map fst (tasks (snd (maybeDeliverTaskTerminalUpdate env tid st))) = map fst (tasks st)"
proof -
  have "map fst (tasks (snd (deliver_terminal env tid t s))) = map fst (tasks s)" for t s
  proof -
    obtain b s2 where qs: "queue_session_delivery env t (formatTaskTerminalMessage env t) s = (b, s2)"
      by fastforce
    then have "tasks s2 = tasks s" using queue_session_delivery_sel(1) by (metis snd_conv)
    then show ?thesis
      by (simp add: deliver_terminal_def Let_def qs set_delivery_def suspend_def del: updateTask_tasks
          split: bool.splits)
  qed
  then show ?thesis
    by (simp add: maybeDeliverTaskTerminalUpdate_def Let_def split: option.splits)
qed

lemma merge_keys:
  assumes "same_text (parentFlowId t) (parentFlowIdT p)"
  shows "map fst (tasks (snd (mergeExistingTaskForCreate env t p st))) = map fst (tasks st)"
proof -
  obtain st1 where "tasks st1 = tasks st" and
    "snd (mergeExistingTaskForCreate env t p st) = st1
     \<or> snd (mergeExistingTaskForCreate env t p st) = snd (updateTask env (taskId t) (merge_patch t p) st1)"
    using merge_result [OF assms, of st env] by force
  then show ?thesis by (auto simp del: updateTask_tasks)
qed

text \<open>The scope and the owner \<open>createTaskRecord\<close> resolves.\<close>

definition create_requester :: "CreateTaskParams \<Rightarrow> string" where
  "create_requester p = resolveTaskRequesterSessionKey (requesterSessionKeyT p) (ownerKeyT p) (scopeKindT p)"

definition create_scope :: "CreateTaskParams \<Rightarrow> TaskScopeKind" where
  "create_scope p = resolveTaskScopeKind (scopeKindT p) (create_requester p)"

definition create_owner :: "CreateTaskParams \<Rightarrow> string" where
  "create_owner p = resolveTaskOwnerKey (create_requester p) (ownerKeyT p)"

definition create_existing :: "CreateTaskParams \<Rightarrow> TaskReg \<Rightarrow> TaskRecord option" where
  "create_existing p st = findExistingTaskForCreate (runtimeT p) (create_owner p) (create_scope p)
     (childSessionKeyT p) (parentFlowIdT p) (runIdT p) (labelT p) (taskT p) st"

lemma createTaskRecord_eq:
  "createTaskRecord env uuid p st =
     (case assertTaskOwner (create_owner p) (create_scope p) of Inl e \<Rightarrow> (Inl e, st)
      | Inr _ \<Rightarrow>
        (case assertParentFlowLinkAllowed (create_owner p) (create_scope p) (parentFlowIdT p) st of
           Inl e \<Rightarrow> (Inl e, st)
         | Inr _ \<Rightarrow>
           (case create_existing p st of
              Some existing \<Rightarrow> mergeExistingTaskForCreate env existing p st
            | None \<Rightarrow>
              (let t = new_task_record env uuid (create_requester p) (create_scope p) (create_owner p) p;
                   st1 = register_task env t (requesterOriginT p) st
               in (Inr t, if isTerminalTaskStatus (status t)
                          then snd (maybeDeliverTaskTerminalUpdate env uuid st1) else st1)))))"
  by (simp only: createTaskRecord_def create_existing_def create_owner_def create_scope_def
      create_requester_def Let_def)

lemma createTaskRecord_cases:
  obtains (error) e where "createTaskRecord env uuid p st = (Inl e, st)"
  | (merge) t where "create_existing p st = Some t"
      "createTaskRecord env uuid p st = mergeExistingTaskForCreate env t p st"
  | (new) t where "create_existing p st = None"
      "t = new_task_record env uuid (create_requester p) (create_scope p) (create_owner p) p"
      "createTaskRecord env uuid p st = (Inr t,
         if isTerminalTaskStatus (status t)
         then snd (maybeDeliverTaskTerminalUpdate env uuid (register_task env t (requesterOriginT p) st))
         else register_task env t (requesterOriginT p) st)"
proof (cases "assertTaskOwner (create_owner p) (create_scope p)")
  case (Inr u)
  note owner = Inr
  show ?thesis
  proof (cases "assertParentFlowLinkAllowed (create_owner p) (create_scope p) (parentFlowIdT p) st")
    case (Inr v)
    show ?thesis
    proof (cases "create_existing p st")
      case None
      show ?thesis by (rule new [OF None refl]) (simp add: createTaskRecord_eq owner Inr None Let_def)
    next
      case (Some t)
      show ?thesis by (rule merge [OF Some]) (simp add: createTaskRecord_eq owner Inr Some)
    qed
  qed (rule error, simp add: createTaskRecord_eq owner)
qed (rule error, simp add: createTaskRecord_eq)

lemma create_existing_parent: "create_existing p st = Some t \<Longrightarrow> same_text (parentFlowId t) (parentFlowIdT p)"
  unfolding create_existing_def by (rule findExisting_parent)

lemma create_existing_found:
  assumes "registry_inv st" "create_existing p st = Some t"
  shows "map_of (tasks st) (taskId t) = Some t" "creates_same p (create_owner p) (create_scope p) t"
proof -
  obtain run where run: "normalizeOptionalString (runIdT p) = Some run" "t \<in> set (getTasksByRunId run st)"
    using findExisting_SomeD [OF assms(2) [unfolded create_existing_def]] by blast
  then obtain k where "map_of (tasks st) k = Some t"
    using set_getTasksByRunId [OF assms(1)] by blast
  then show "map_of (tasks st) (taskId t) = Some t"
    using assms(1) tasks_wf_lookup by (metis registry_inv_def)
  have "js_trim run = run" using run(1) by (simp add: normalizeOptionalString_SomeD)
  then have "normalizeOptionalString (runId t) = Some run"
    using run(2) set_getTasksByRunId [OF assms(1)] by (auto simp: run_keys_def)
  with assms(2) run(1) findExisting_SomeD [OF assms(2) [unfolded create_existing_def]]
  show "creates_same p (create_owner p) (create_scope p) t"
    by (auto simp: create_existing_def findExistingTaskForCreate_def Let_def creates_same_def
        dest!: find_SomeD split: option.splits if_splits)
qed

lemma merge_exact_labels:
  assumes "exact_match (labelT p) (taskT p) t"
  shows "labelP (merge_patch t p) = None" "taskP (merge_patch t p) = None"
  using assms fill_in_same
  by (auto simp: exact_match_def merge_patch_def Let_def same_text_def)

lemma creates_same_exact:
  "runtimeT p \<noteq> Rt_acp \<Longrightarrow> creates_same p w s t \<Longrightarrow> exact_match (labelT p) (taskT p) t"
  by (simp add: creates_same_def)

text \<open>After a creation that did not fail there is a task that the same parameters find again.\<close>

lemma create_leaves_match:
  assumes inv: "registry_inv st" and "fst (createTaskRecord env uuid p st) = Inr t0"
    and run: "normalizeOptionalString (runIdT p) \<noteq> None"
  shows "\<exists>k t. map_of (tasks (snd (createTaskRecord env uuid p st))) k = Some t
    \<and> creates_same p (create_owner p) (create_scope p) t"
  using assms(2)
proof (cases rule: createTaskRecord_cases [of env uuid p st])
  case (merge t)
  have par: "same_text (parentFlowId t) (parentFlowIdT p)" by (rule create_existing_parent [OF merge(1)])
  note t = create_existing_found [OF inv merge(1)]
  obtain st1 where st1: "tasks st1 = tasks st" and r:
    "snd (createTaskRecord env uuid p st) = st1
     \<or> snd (createTaskRecord env uuid p st) = snd (updateTask env (taskId t) (merge_patch t p) st1)"
    using merge_result [OF par, of st env] merge(2) by force
  have same: "creates_same p (create_owner p) (create_scope p) t" (is "?same t")
    by (rule t(2))
  have "?same (next_task env t (merge_patch t p))"
    using same merge_exact_labels creates_same_exact [OF _ same]
    by (intro creates_same_next merge_patch_ok par) auto
  with r same t(1) st1 show ?thesis by (auto intro!: exI [of _ "taskId t"])
next
  case (new t)
  let ?st1 = "register_task env t (requesterOriginT p) st"
  have l: "map_of (tasks ?st1) uuid = Some t" and same: "creates_same p (create_owner p) (create_scope p) t"
    using new(2) creates_same_new by simp_all
  obtain t' where "map_of (tasks (snd (maybeDeliverTaskTerminalUpdate env uuid ?st1))) uuid = Some t'"
    "t' = t \<or> (\<exists>s. t' = next_task env t (delivery_patch env s))"
    using maybeDeliverTerminal_lookup [OF l] by blast
  moreover have "creates_same p (create_owner p) (create_scope p) (next_task env t (delivery_patch env s))" for s
    by (rule creates_same_next [OF same]) simp_all
  ultimately show ?thesis using new(3) l same by auto
qed simp

text \<open>
  Creation with a run identifier is idempotent: repeating it (later, with another fresh
  identifier) never adds a second task.
\<close>

theorem create_idempotent:
  assumes "task_reachable st" "uuid \<notin> fst ` set (tasks st)"
    and "fst (createTaskRecord env uuid p st) = Inr t"
    and "normalizeOptionalString (runIdT p) \<noteq> None"
  shows "map fst (tasks (snd (createTaskRecord env' uuid' p (snd (createTaskRecord env uuid p st)))))
    = map fst (tasks (snd (createTaskRecord env uuid p st)))"
proof -
  let ?st1 = "snd (createTaskRecord env uuid p st)"
  have "task_reachable ?st1" using assms(1,2) by (rule task_reachable.step [OF _ task_step.create])
  then have inv1: "registry_inv ?st1" by (rule task_reachable_inv)
  obtain k t1 where "map_of (tasks ?st1) k = Some t1" "creates_same p (create_owner p) (create_scope p) t1"
    using create_leaves_match [OF task_reachable_inv [OF assms(1)] assms(3,4)] by blast
  then have "create_existing p ?st1 \<noteq> None"
    unfolding create_existing_def by (rule findExisting_complete [OF inv1 _ _ assms(4)])
  then show ?thesis
    using merge_keys create_existing_parent
    by (cases rule: createTaskRecord_cases [of env' uuid' p ?st1]) auto
qed

theorem create_idempotent_witness:
  "map fst (tasks (snd (createTaskRecord (default_env 8) ''t2'' example_create example_tasks))) = [''t1'']"
proof -
  have "fst (createTaskRecord (default_env 7) ''t1'' example_create boot_tasks)
      = Inr (new_task_record (default_env 7) ''t1'' ''agent:main:main'' Sk_session ''agent:main:main'' example_create)"
    by code_simp
  moreover have "normalizeOptionalString (runIdT example_create) \<noteq> None" by code_simp
  moreover have "map fst (tasks example_tasks) = [''t1'']" by code_simp
  ultimately show ?thesis
    using create_idempotent [OF task_reachable.start, of "''t1''" "default_env 7" example_create _ "default_env 8" "''t2''"]
    by (simp add: boot_tasks_sel example_tasks_def [symmetric])
qed

end
