(* ===== verification/TaskFlowProps.thy ===== *)
theory TaskFlowProps
  imports TaskLifecycle
begin

text \<open>
  Tasks and their flows: ownership, mirroring, the cancellation of managed flows, and the
  cancellation of single tasks.
\<close>

section \<open>Owners\<close>

definition example_flow_step :: TaskReg where
  "example_flow_step = snd (createManagedTaskFlow (default_env 6) ''f1'' example_flow_params boot_tasks)"

definition example_linked :: TaskReg where
  "example_linked = snd (createTaskRecord (default_env 7) ''t1''
     (example_create\<lparr>parentFlowIdT := Some '' f1 ''\<rparr>) example_flow_step)"

lemma example_flow_step_reachable: "task_reachable example_flow_step"
proof -
  have "flow_step boot_tasks example_flow_step"
    unfolding example_flow_step_def by (rule flow_step.create_managed) (simp add: boot_tasks_sel)
  moreover have "new_flows_unused boot_tasks example_flow_step"
    by (simp add: new_flows_unused_def boot_tasks_sel)
  ultimately show ?thesis by (rule task_reachable.step [OF task_reachable.start task_step.flow])
qed

lemma example_linked_reachable: "task_reachable example_linked"
proof -
  have "tasks example_flow_step = []" by code_simp
  then show ?thesis unfolding example_linked_def
    by (intro task_reachable.step [OF example_flow_step_reachable task_step.create]) simp
qed

lemma example_linked_lookup:
  "map_option (\<lambda>t. (ownerKey t, parentFlowId t, status t)) (map_of (tasks example_linked) ''t1'')
     = Some (''agent:main:main'', Some ''f1'', St_running)"
  "map_option (\<lambda>f. (ownerKeyF f, syncModeF f, statusF f)) (map_of (flows example_linked) ''f1'')
     = Some (''agent:main:main'', Sm_managed, Fs_queued)"
  by code_simp+

text \<open>
  C3. Isolation of owners: in every reachable state a task that belongs to an existing flow is
  scoped to a session and has the owner of the flow.
\<close>

theorem linked_tasks_share_owner:
  assumes "task_reachable st" "map_of (tasks st) k = Some t"
    "map_option js_trim (parentFlowId t) = Some fid" "map_of (flows st) fid = Some f"
  shows "fid = '''' \<or> scopeKind t = Sk_session \<and> js_trim (ownerKeyF f) = js_trim (ownerKey t)
    \<and> js_trim (ownerKey t) \<noteq> ''''"
proof (cases "fid = ''''")
  case False
  then have "normalizeOptionalString (parentFlowId t) = Some fid"
    using assms(3) by (auto simp: normalizeOptionalString_Some)
  with links_inv_lookup [OF task_reachable_links [OF assms(1)] assms(2) _ assms(4)]
  have "link_agrees t f" by blast
  moreover have "flow_wf f"
    using flows_inv_lookup [OF _ assms(4)] task_reachable_inv [OF assms(1)] by (simp add: registry_inv_def)
  ultimately show ?thesis
    by (auto simp: link_agrees_def normalizeOptionalString_Some flow_wf_def split: if_splits)
qed simp

theorem linked_tasks_share_owner_witness:
  "\<exists>t f. map_of (tasks example_linked) ''t1'' = Some t \<and> map_of (flows example_linked) ''f1'' = Some f
     \<and> js_trim (ownerKeyF f) = js_trim (ownerKey t)"
proof -
  obtain t f where tf: "map_of (tasks example_linked) ''t1'' = Some t" "parentFlowId t = Some ''f1''"
      "map_of (flows example_linked) ''f1'' = Some f"
    using example_linked_lookup by auto
  have "js_trim ''f1'' = ''f1''" by code_simp
  with linked_tasks_share_owner [OF example_linked_reachable tf(1) _ tf(3)] tf show ?thesis by auto
qed

section \<open>Mirrored flows\<close>

lemma updateTask_flows_eq:
  assumes "map_of (tasks st) tid = Some t"
  shows "\<exists>st1. flows st1 = flows st \<and> flowRows st1 = flowRows st \<and> tasks st1 = AList.update tid (next_task env t p) (tasks st)
    \<and> updateTask env tid p st = (Some (next_task env t p),
        syncManagedFlowCancellationFromTask env (next_task env t p)
          (snd (syncFlowFromTask env (next_task env t p) st1)))"
  using assms
  by (intro exI [of _ "persistTaskUpsert (next_task env t p) (store_task tid t (next_task env t p) p st)"])
     (simp add: updateTask_def Let_def)

lemma cancelSync_mirrored:
  assumes "normalizeOptionalString (parentFlowId t) = Some fid" "map_of (flows st) fid = Some f"
    "\<not> awaits_cancellation f"
  shows "syncManagedFlowCancellationFromTask env t st = st"
  using assms by (simp add: syncManagedFlowCancellationFromTask_def getTaskFlowById_def)

lemma syncFlow_mirrored:
  assumes "flows_inv st" "map_option js_trim (parentFlowId t) = Some fid" "fid \<noteq> ''''"
    "map_of (flows st) fid = Some f" "syncModeF f = Sm_task_mirrored"
  shows "\<exists>f'. map_of (flows (snd (syncFlowFromTask env t st))) fid = Some f'
    \<and> statusF f' = deriveTaskFlowStatusFromTask t \<and> notifyPolicyF f' = notifyPolicy t
    \<and> syncModeF f' = Sm_task_mirrored \<and> revisionF f' = revisionF f + 1
    \<and> (endedAtF f' \<noteq> None \<longleftrightarrow> mirrored_flow_ended (deriveTaskFlowStatusFromTask t))"
proof -
  have wf: "flow_wf f" "flowIdF f = fid" using flows_inv_lookup [OF assms(1,4)] by simp_all
  show ?thesis
    using assms wf
    by (auto simp: syncFlowFromTask_def getTaskFlowById_def Let_def updateFlowRecordByIdUnchecked_def
        applyFlowPatch_def case_prod_unfold patched_def)
qed

lemma updateTask_mirrors:
  assumes "flows_inv st" "map_of (tasks st) tid = Some t"
    "map_option js_trim (parentFlowId (next_task env t p)) = Some fid" "fid \<noteq> ''''"
    "map_of (flows st) fid = Some f" "syncModeF f = Sm_task_mirrored"
  shows "\<exists>f'. map_of (flows (snd (updateTask env tid p st))) fid = Some f'
    \<and> statusF f' = deriveTaskFlowStatusFromTask (next_task env t p)
    \<and> notifyPolicyF f' = notifyPolicy (next_task env t p) \<and> revisionF f' = revisionF f + 1
    \<and> syncModeF f' = Sm_task_mirrored
    \<and> (endedAtF f' \<noteq> None \<longleftrightarrow> mirrored_flow_ended (deriveTaskFlowStatusFromTask (next_task env t p)))"
proof -
  let ?n = "next_task env t p"
  obtain st1 where st1: "flows st1 = flows st" "flowRows st1 = flowRows st"
    "updateTask env tid p st = (Some ?n, syncManagedFlowCancellationFromTask env ?n
        (snd (syncFlowFromTask env ?n st1)))"
    using updateTask_flows_eq [OF assms(2)] by blast
  have "flows_inv st1" using assms(1) flows_inv_cong [OF st1(1,2)] by simp
  from syncFlow_mirrored [OF this assms(3,4), of f env] assms(5,6) st1(1) obtain f' where
    f': "map_of (flows (snd (syncFlowFromTask env ?n st1))) fid = Some f'" "syncModeF f' = Sm_task_mirrored"
      "statusF f' = deriveTaskFlowStatusFromTask ?n" "notifyPolicyF f' = notifyPolicy ?n"
      "revisionF f' = revisionF f + 1"
      "endedAtF f' \<noteq> None \<longleftrightarrow> mirrored_flow_ended (deriveTaskFlowStatusFromTask ?n)"
    by auto
  have fid: "normalizeOptionalString (parentFlowId ?n) = Some fid"
    using assms(3,4) by (cases "parentFlowId ?n") (auto simp: normalizeOptionalString_Some)
  have "\<not> awaits_cancellation f'" using f'(2) by (simp add: awaits_cancellation_def)
  from cancelSync_mirrored [OF fid f'(1) this] f' st1(3) show ?thesis by auto
qed

text \<open>
  C5. A mirrored flow follows its task: after any update of a task whose flow is mirrored, the flow
  has the status derived from the task and its notification policy, its revision has grown by one,
  and it has an end time exactly when that status ends it.
\<close>

theorem mirrored_flow_follows:
  assumes "task_reachable st" "map_of (tasks st) tid = Some t"
    "map_option js_trim (parentFlowId (next_task env t p)) = Some fid" "fid \<noteq> ''''"
    "map_of (flows st) fid = Some f" "syncModeF f = Sm_task_mirrored"
  shows "\<exists>f'. map_of (flows (snd (updateTask env tid p st))) fid = Some f'
    \<and> statusF f' = deriveTaskFlowStatusFromTask (next_task env t p)
    \<and> notifyPolicyF f' = notifyPolicy (next_task env t p) \<and> revisionF f' = revisionF f + 1
    \<and> (endedAtF f' \<noteq> None \<longleftrightarrow> mirrored_flow_ended (deriveTaskFlowStatusFromTask (next_task env t p)))"
proof -
  have "flows_inv st" using task_reachable_inv [OF assms(1)] by (simp add: registry_inv_def)
  from updateTask_mirrors [OF this assms(2-6)] show ?thesis by blast
qed

text \<open>A task, then the flow that mirrors it, then the link: what the executor does for a detached task.\<close>

definition example_mirrored :: TaskReg where
  "example_mirrored =
     (case map_of (tasks example_tasks) ''t1'' of None \<Rightarrow> example_tasks
      | Some t \<Rightarrow> snd (linkTaskToFlowById (default_env 8) ''t1'' ''f2''
          (snd (createTaskFlowForTask (default_env 8) ''f2'' t None example_tasks))))"

lemma example_mirrored_reachable: "task_reachable example_mirrored"
proof -
  obtain t where t: "map_of (tasks example_tasks) ''t1'' = Some t" using example_tasks_lookup by auto
  let ?st = "snd (createTaskFlowForTask (default_env 8) ''f2'' t None example_tasks)"
  have none: "flows example_tasks = []" by code_simp
  have p: "list_all (\<lambda>(k, t). normalizeOptionalString (parentFlowId t) = None) (tasks example_tasks)" by code_simp
  have "flow_step example_tasks ?st" by (rule flow_step.create_for_task) (simp add: none)
  moreover have "new_flows_unused example_tasks ?st"
    using p by (fastforce simp: new_flows_unused_def list_all_iff)
  ultimately have "task_reachable ?st" by (rule task_reachable.step [OF example_tasks_reachable task_step.flow])
  from task_reachable.step [OF this task_step.link] show ?thesis
    by (simp add: example_mirrored_def t)
qed

lemma example_mirrored_lookup:
  "map_option (\<lambda>t. (parentFlowId t, status t)) (map_of (tasks example_mirrored) ''t1'') = Some (Some ''f2'', St_running)"
  "map_option (\<lambda>f. (syncModeF f, statusF f)) (map_of (flows example_mirrored) ''f2'')
     = Some (Sm_task_mirrored, Fs_running)"
  by code_simp+

theorem mirrored_flow_follows_witness:
  "\<exists>f. map_of (flows (snd (updateTask (default_env 9) ''t1'' (empty_patch\<lparr>statusP := Some St_failed\<rparr>)
      example_mirrored))) ''f2'' = Some f \<and> statusF f = Fs_failed"
proof -
  obtain t f where tf: "map_of (tasks example_mirrored) ''t1'' = Some t" "parentFlowId t = Some ''f2''"
      "map_of (flows example_mirrored) ''f2'' = Some f" "syncModeF f = Sm_task_mirrored"
    using example_mirrored_lookup by auto
  let ?n = "next_task (default_env 9) t (empty_patch\<lparr>statusP := Some St_failed\<rparr>)"
  have "js_trim ''f2'' = ''f2''" by code_simp
  then have "map_option js_trim (parentFlowId ?n) = Some ''f2''" using tf by simp
  from mirrored_flow_follows [OF example_mirrored_reachable tf(1) this _ tf(3,4)]
  show ?thesis by (auto simp: deriveTaskFlowStatusFromTask_def)
qed

section \<open>Cancellation of managed flows\<close>

lemma has_active_task_iff:
  assumes "index_inv st" "js_trim fid = fid" "fid \<noteq> ''''"
  shows "has_active_task fid st \<longleftrightarrow> (\<exists>k t. map_of (tasks st) k = Some t
    \<and> normalizeOptionalString (parentFlowId t) = Some fid \<and> isActiveTaskStatus (status t))"
proof -
  have "idx_look (taskIdsByParentFlowId st) fid = {x. \<exists>r. map_of (tasks st) x = Some r \<and> fid \<in> flow_keys r}"
    using assms(1) by (simp add: index_inv_def idx_exact_def)
  with assms(2,3) show ?thesis
    by (auto simp: has_active_task_def listTasksForFlowId_def Let_def list_ex_iff set_listTasksFromIndex
        flow_keys_def) blast
qed

lemma syncFlow_not_mirrored:
  "normalizeOptionalString (parentFlowId t) = Some fid \<Longrightarrow> map_of (flows st) fid = Some f \<Longrightarrow>
     syncModeF f \<noteq> Sm_task_mirrored \<Longrightarrow> syncFlowFromTask env t st = (Inr (Some f), st)"
  by (cases "parentFlowId t")
     (auto simp: syncFlowFromTask_def getTaskFlowById_def normalizeOptionalString_Some split: if_splits)

lemma cancelSync_managed:
  assumes inv: "flows_inv st" and fid: "normalizeOptionalString (parentFlowId t) = Some fid"
    and f: "map_of (flows st) fid = Some f" "awaits_cancellation f"
  shows "if has_active_task fid st then syncManagedFlowCancellationFromTask env t st = st
    else \<exists>f'. map_of (flows (syncManagedFlowCancellationFromTask env t st)) fid = Some f'
      \<and> statusF f' = Fs_cancelled \<and> blockedTaskIdF f' = None \<and> blockedSummaryF f' = None
      \<and> endedAtF f' = Some (nullish (orElse (endedAt t) (lastEventAt t)) (date_now env))"
proof -
  have wf: "flow_wf f" "flowIdF f = fid" using flows_inv_lookup [OF inv f(1)] by simp_all
  let ?ended = "nullish (orElse (endedAt t) (lastEventAt t)) (date_now env)"
  let ?p = "empty_flow_patch\<lparr>statusFP := Some Fs_cancelled, blockedTaskIdFP := Some None,
      blockedSummaryFP := Some None, waitJsonFP := Some JNull, endedAtFP := Some (Some ?ended),
      updatedAtFP := Some ?ended\<rparr>"
  obtain f' where f': "applyFlowPatch env f ?p = Inr f'"
    using applyFlowPatch_total [OF wf(1), of ?p env] by (auto simp: empty_flow_patch_def)
  then have "statusF f' = Fs_cancelled" "blockedTaskIdF f' = None" "blockedSummaryF f' = None"
    "endedAtF f' = Some ?ended" "flowIdF f' = fid"
    using wf(2) by (auto simp: applyFlowPatch_def Let_def patched_text_def patched_def split: sum.splits)
  moreover have "updateFlowRecordByIdExpectedRevision env fid (revisionF f) ?p st
      = (Inr (FlowApplied f'), snd (writeFlowRecord f' st))"
    using f(1) f' by (simp add: updateFlowRecordByIdExpectedRevision_def case_prod_unfold)
  ultimately show ?thesis
    using f fid by (simp add: syncManagedFlowCancellationFromTask_def getTaskFlowById_def numeral_2_eq_2)
qed

text \<open>
  Finishing a cancellation: after an update of a task whose managed flow awaits cancellation,
  the flow is cancelled, with the end time of the task, if none of its tasks is active any more,
  and it still awaits cancellation, unchanged, as long as one is.
\<close>

theorem managed_cancellation_finishes:
  assumes "task_reachable st" "map_of (tasks st) tid = Some t" "patch_ok p"
    "normalizeOptionalString (parentFlowId t) = Some fid"
    "map_of (flows st) fid = Some f" "awaits_cancellation f"
  shows "let st' = snd (updateTask env tid p st);
             active = (\<exists>k u. map_of (tasks st') k = Some u
               \<and> normalizeOptionalString (parentFlowId u) = Some fid \<and> isActiveTaskStatus (status u))
         in \<exists>f'. map_of (flows st') fid = Some f'
            \<and> (if active then f' = f
               else statusF f' = Fs_cancelled \<and> endedAtF f' = Some (nullish (orElse
                 (endedAt (next_task env t p)) (lastEventAt (next_task env t p))) (date_now env)))"
proof -
  let ?n = "next_task env t p" and ?st' = "snd (updateTask env tid p st)"
  obtain st1 where st1: "flows st1 = flows st" "flowRows st1 = flowRows st"
    "updateTask env tid p st = (Some ?n, syncManagedFlowCancellationFromTask env ?n
        (snd (syncFlowFromTask env ?n st1)))"
    using updateTask_flows_eq [OF assms(2)] by blast
  have inv: "flows_inv st1" "registry_inv ?st'"
    using task_reachable_inv [OF assms(1)] flows_inv_cong [OF st1(1,2)] updateTask_inv assms(3)
    by (simp_all add: registry_inv_def [of st] patch_ok_def)
  have par: "normalizeOptionalString (parentFlowId ?n) = Some fid"
    using assms(3,4) by (simp add: patch_ok_def)
  have fid: "js_trim fid = fid" "fid \<noteq> ''''" using normalizeOptionalString_SomeD [OF par] by simp_all
  have "syncModeF f \<noteq> Sm_task_mirrored" using assms(6) by (simp add: awaits_cancellation_def)
  then have "syncFlowFromTask env ?n st1 = (Inr (Some f), st1)"
    using assms(5) st1(1) by (intro syncFlow_not_mirrored [OF par]) simp_all
  then have st': "?st' = syncManagedFlowCancellationFromTask env ?n st1" by (simp add: st1(3))
  have "has_active_task fid st1 = has_active_task fid ?st'"
    by (simp add: st' has_active_task_def listTasksForFlowId_def listTasksFromIndex_def Let_def)
  also have "\<dots> = (\<exists>k u. map_of (tasks ?st') k = Some u
      \<and> normalizeOptionalString (parentFlowId u) = Some fid \<and> isActiveTaskStatus (status u))"
    using has_active_task_iff [OF _ fid] inv(2) by (simp add: registry_inv_def)
  finally have act: "has_active_task fid st1 = \<dots>" .
  from cancelSync_managed [OF inv(1) par, of f env] assms(5,6) st1(1)
  show ?thesis unfolding Let_def act [symmetric] unfolding st' by (auto split: if_splits)
qed

definition example_cancelling :: TaskReg where
  "example_cancelling = snd (requestFlowCancel (default_env 8) ''f1'' 0 None None example_linked)"

lemma example_cancelling_reachable: "task_reachable example_cancelling"
proof -
  have "flow_step example_linked example_cancelling"
    unfolding example_cancelling_def requestFlowCancel_def by (rule flow_step.update)
  moreover have "map fst (flows example_cancelling) = map fst (flows example_linked)" by code_simp
  then have "new_flows_unused example_linked example_cancelling" by (simp add: new_flows_unused_def)
  ultimately show ?thesis by (rule task_reachable.step [OF example_linked_reachable task_step.flow])
qed

lemma example_cancelling_lookup:
  "map_option parentFlowId (map_of (tasks example_cancelling) ''t1'') = Some (Some ''f1'')"
  "map_option awaits_cancellation (map_of (flows example_cancelling) ''f1'') = Some True"
  by code_simp+

theorem managed_cancellation_finishes_witness:
  "\<exists>f. map_of (flows (snd (updateTask (default_env 9) ''t1'' (empty_patch\<lparr>statusP := Some St_failed,
      endedAtP := Some (Some 9)\<rparr>) example_cancelling))) ''f1'' = Some f \<and> statusF f = Fs_cancelled"
proof -
  obtain t f where tf: "map_of (tasks example_cancelling) ''t1'' = Some t" "parentFlowId t = Some ''f1''"
      "map_of (flows example_cancelling) ''f1'' = Some f" "awaits_cancellation f"
    using example_cancelling_lookup by auto
  let ?p = "empty_patch\<lparr>statusP := Some St_failed, endedAtP := Some (Some 9)\<rparr>"
  let ?st' = "snd (updateTask (default_env 9) ''t1'' ?p example_cancelling)"
  have one: "map fst (tasks example_cancelling) = [''t1'']" by code_simp
  have dead: "map_option (\<lambda>u. isActiveTaskStatus (status u)) (map_of (tasks ?st') ''t1'') = Some False"
    using tf(1) by (simp add: isActiveTaskStatus_def)
  have keys: "map fst (tasks ?st') = [''t1'']" using one by (simp del: updateTask_tasks)
  have inactive: "\<not> isActiveTaskStatus (status u)" if "map_of (tasks ?st') k = Some u" for k u
  proof -
    have "k \<in> set (map fst (tasks ?st'))" using that by (force dest: map_of_SomeD simp del: updateTask_keys)
    then have "k = ''t1''" unfolding keys by simp
    with that dead show ?thesis by simp
  qed
  have "normalizeOptionalString (parentFlowId t) = Some ''f1''" unfolding tf(2) by code_simp
  from managed_cancellation_finishes [OF example_cancelling_reachable tf(1) _ this tf(3,4), of ?p "default_env 9"]
    inactive
  show ?thesis unfolding Let_def by (auto simp: patch_ok_def simp del: updateTask_tasks)
qed

section \<open>Cancellation of a task\<close>

lemma mark_cancelled_outcome:
  assumes "map_of (tasks st) (taskId t) = Some t" "mark_cancelled env t st = (r, st')"
  shows "cancelledR r \<and> (\<exists>u u'. taskR r = Some u \<and> map_of (tasks st') (taskId t) = Some u'
    \<and> status u = St_cancelled \<and> status u' = St_cancelled \<and> endedAt u' = Some (date_now env)
    \<and> error u' = Some ''Cancelled by operator.'')"
proof -
  let ?p = "empty_patch\<lparr>statusP := Some St_cancelled, endedAtP := Some (Some (date_now env)),
      lastEventAtP := Some (Some (date_now env)), errorP := Some (Some ''Cancelled by operator.'')\<rparr>"
  let ?u = "next_task env t ?p"
  obtain st1 where upd: "updateTask env (taskId t) ?p st = (Some ?u, st1)"
    by (metis assms(1) option.map(2) prod.collapse updateTask_fst)
  have l: "map_of (tasks st1) (taskId t) = Some ?u"
    using assms(1) arg_cong [OF upd, of snd] by auto
  obtain u' where u': "map_of (tasks (snd (maybeDeliverTaskTerminalUpdate env (taskId t) st1))) (taskId t) = Some u'"
    "u' = ?u \<or> (\<exists>s. u' = next_task env ?u (delivery_patch env s))"
    using maybeDeliverTerminal_lookup [OF l] by blast
  have "mark_cancelled env t st = (\<lparr>foundR = True, cancelledR = True, reasonR = None, taskR = Some ?u\<rparr>,
      snd (maybeDeliverTaskTerminalUpdate env (taskId t) st1))"
    by (simp add: mark_cancelled_def upd)
  moreover have "status ?u = St_cancelled" by simp
  moreover have "status u' = St_cancelled \<and> endedAt u' = Some (date_now env)
      \<and> error u' = Some ''Cancelled by operator.''"
    using u'(2) by (elim disjE exE) (simp_all add: delivery_patch_def)
  ultimately show ?thesis using assms(2) u'(1) by auto
qed

text \<open>
  The immediate outcome of cancelling a task: a settled call either cancels a task that had not
  ended, which then is cancelled with the present time and the reason recorded, or gives a reason
  and leaves the registry as it was; a call that has to wait for the control runtime changes nothing
  but the list of waiting handlers.
\<close>

theorem cancel_task_outcome:
  assumes "task_reachable st"
  shows "case cancelTaskById env tid st of
     (Awaiting, st') \<Rightarrow> \<exists>t key. map_of (tasks st) (js_trim tid) = Some t
        \<and> isActiveTaskStatus (status t) \<and> (runtime t = Rt_acp \<or> runtime t = Rt_subagent)
        \<and> st' = st\<lparr>continuations := continuations st @ [CancelControl t key]\<rparr>
   | (Settled r, st') \<Rightarrow>
       if cancelledR r
       then \<exists>t u. map_of (tasks st) (js_trim tid) = Some t \<and> isActiveTaskStatus (status t)
          \<and> map_of (tasks st') (js_trim tid) = Some u \<and> status u = St_cancelled
          \<and> endedAt u = Some (date_now env) \<and> error u = Some ''Cancelled by operator.''
       else st' = st \<and> reasonR r \<noteq> None"
proof (cases "map_of (tasks st) (js_trim tid)")
  case None
  then show ?thesis by (simp add: cancelTaskById_def)
next
  case (Some t)
  have tid: "taskId t = js_trim tid"
    using task_reachable_inv [OF assms] tasks_wf_lookup [OF _ Some] by (simp add: registry_inv_def)
  show ?thesis
  proof (cases "isActiveTaskStatus (status t)")
    case True
    then have nt: "status t \<noteq> St_succeeded" "status t \<noteq> St_failed" "status t \<noteq> St_timed_out"
      "status t \<noteq> St_lost" "status t \<noteq> St_cancelled" by (auto simp: isActiveTaskStatus_def)
    show ?thesis
    proof (cases "runtime t = Rt_cli")
      case True
      obtain r st' where m: "mark_cancelled env t st = (r, st')" by fastforce
      with mark_cancelled_outcome [of st t env r st'] Some tid nt True \<open>isActiveTaskStatus (status t)\<close>
      show ?thesis by (auto simp: cancelTaskById_def)
    next
      case False
      with Some nt \<open>isActiveTaskStatus (status t)\<close> show ?thesis
        by (auto simp: cancelTaskById_def cancel_refused_def suspend_def split: option.splits)
    qed
  next
    case False
    then have "isTerminalTaskStatus (status t)" by (simp add: terminal_iff_not_active)
    with Some show ?thesis
      by (auto simp: cancelTaskById_def cancel_refused_def isTerminalTaskStatus_def)
  qed
qed

theorem cancel_task_outcome_witness:
  "\<exists>u. map_of (tasks (snd (cancelTaskById (default_env 9) ''t1'' example_tasks))) ''t1'' = Some u
     \<and> status u = St_cancelled"
proof -
  obtain r st' where c: "cancelTaskById (default_env 9) ''t1'' example_tasks = (r, st')" by fastforce
  have "(case fst (cancelTaskById (default_env 9) ''t1'' example_tasks) of Settled r \<Rightarrow> cancelledR r | _ \<Rightarrow> False)"
    by code_simp
  moreover have "js_trim ''t1'' = ''t1''" by code_simp
  ultimately show ?thesis
    using cancel_task_outcome [OF example_tasks_reachable, of "''t1''" "default_env 9"] c
    by (auto split: Async.splits)
qed

section \<open>Two defects\<close>

text \<open>
  A blocked mirrored flow is retried with a second task, which runs; the flow then is running. Any
  later write to the first task, such as stamping its clean-up time, derives the status of the flow
  from that old task again: the flow falls back to blocked while the retry is running.
\<close>

definition example_retried :: TaskReg where
  "example_retried = snd (createTaskRecord (default_env 11) ''t2''
     (example_create\<lparr>parentFlowIdT := Some ''f2'', runIdT := Some ''r2''\<rparr>)
     (snd (markTaskTerminalById (default_env 10) ''t1'' St_succeeded 10 None None (Some (Some ''need input''))
        (Some (Some To_blocked)) example_mirrored)))"

lemma old_task_regresses_mirrored_flow:
  "map_option statusF (map_of (flows example_retried) ''f2'') = Some Fs_running
   \<and> map_option status (map_of (tasks example_retried) ''t2'') = Some St_running
   \<and> map_option statusF (map_of (flows (snd (setTaskCleanupAfterById (default_env 12) ''t1'' 99 example_retried)))
       ''f2'') = Some Fs_blocked
   \<and> map_option status (map_of (tasks (snd (setTaskCleanupAfterById (default_env 12) ''t1'' 99 example_retried)))
       ''t2'') = Some St_running"
  by code_simp

text \<open>
  A cancellation that waits for the control runtime does not look at the task again: a task that
  succeeds meanwhile is overwritten as cancelled.
\<close>

definition example_child :: TaskReg where
  "example_child = snd (createTaskRecord (default_env 7) ''t1''
     (example_create\<lparr>runtimeT := Rt_acp, childSessionKeyT := Some ''agent:a:acp:1''\<rparr>) boot_tasks)"

lemma cancellation_overwrites_success:
  "\<exists>t. map_of (tasks example_child) ''t1'' = Some t
    \<and> snd (cancelTaskById (default_env 8) ''t1'' example_child)
        = example_child\<lparr>continuations := continuations example_child @ [CancelControl t ''agent:a:acp:1'']\<rparr>
    \<and> (let fin = snd (markTaskTerminalById (default_env 9) ''t1'' St_succeeded 9 None None None None example_child)
       in map_option status (map_of (tasks fin) ''t1'') = Some St_succeeded
          \<and> map_option status (map_of (tasks (snd (resumeCancelTask (default_env 10) (ControlDone True True) t fin)))
              ''t1'') = Some St_cancelled)"
proof -
  obtain t where t: "map_of (tasks example_child) ''t1'' = Some t" "taskId t = ''t1''" "status t = St_running"
      "runtime t = Rt_acp" "childSessionKey t = Some ''agent:a:acp:1''"
  proof -
    have "map_option (\<lambda>t. (taskId t, status t, runtime t, childSessionKey t)) (map_of (tasks example_child) ''t1'')
        = Some (''t1'', St_running, Rt_acp, Some ''agent:a:acp:1'')" by code_simp
    with that show ?thesis by auto
  qed
  have trims: "js_trim ''t1'' = ''t1''" "normalizeOptionalString (Some ''agent:a:acp:1'') = Some ''agent:a:acp:1''"
    by code_simp+
  define d where "d = next_task (default_env 9) t (empty_patch\<lparr>statusP := Some St_succeeded,
      endedAtP := Some (Some 9), lastEventAtP := Some (Some 9)\<rparr>)"
  define fin where
    "fin = snd (markTaskTerminalById (default_env 9) ''t1'' St_succeeded 9 None None None None example_child)"
  have suspended: "snd (cancelTaskById (default_env 8) ''t1'' example_child)
      = example_child\<lparr>continuations := continuations example_child @ [CancelControl t ''agent:a:acp:1'']\<rparr>"
    using t trims by (simp add: cancelTaskById_def suspend_def)
  have d: "map_of (tasks fin) ''t1'' = Some d"
    using t by (simp add: markTaskTerminalById_def fin_def d_def empty_patch_def)
  let ?p = "empty_patch\<lparr>statusP := Some St_cancelled, endedAtP := Some (Some (date_now (default_env 10))),
      lastEventAtP := Some (Some (date_now (default_env 10))), errorP := Some (Some ''Cancelled by operator.'')\<rparr>"
  obtain st1 where upd: "updateTask (default_env 10) ''t1'' ?p fin = (Some (next_task (default_env 10) d ?p), st1)"
    by (metis d option.map(2) prod.collapse updateTask_fst)
  have l: "map_of (tasks st1) ''t1'' = Some (next_task (default_env 10) d ?p)"
    using d arg_cong [OF upd, of snd] by auto
  have resumed: "map_option status (map_of (tasks (snd (resumeCancelTask (default_env 10) (ControlDone True True) t fin)))
      ''t1'') = Some St_cancelled"
    using maybeDeliverTerminal_lookup [OF l, of "default_env 10"] upd t
    by (auto simp: resumeCancelTask_def mark_cancelled_def d_def)
  have "status d = St_succeeded" by (simp add: d_def)
  with d suspended resumed t(1) show ?thesis by (auto simp: Let_def fin_def [symmetric])
qed

end
