(* ===== verification/TaskSummary.thy ===== *)
theory TaskSummary
  imports TaskQueries
begin

text \<open>
  What the registry reports about its tasks: the counts of \<open>task-registry.summary.ts\<close> and the
  status snapshot of \<open>task-status.ts\<close>. A JavaScript record indexed by a status or a runtime is a
  function here.
\<close>

section \<open>Counts\<close>

type_synonym TaskStatusCounts = "TaskStatus \<Rightarrow> int"
type_synonym TaskRuntimeCounts = "TaskRuntime \<Rightarrow> int"

record TaskRegistrySummary =
  totalR :: int
  activeR :: int
  terminalR :: int
  failuresR :: int
  byStatusR :: TaskStatusCounts
  byRuntimeR :: TaskRuntimeCounts

definition createEmptyTaskStatusCounts :: TaskStatusCounts where
  "createEmptyTaskStatusCounts = (\<lambda>_. 0)"

definition createEmptyTaskRuntimeCounts :: TaskRuntimeCounts where
  "createEmptyTaskRuntimeCounts = (\<lambda>_. 0)"

definition createEmptyTaskRegistrySummary :: TaskRegistrySummary where
  "createEmptyTaskRegistrySummary = \<lparr>totalR = 0, activeR = 0, terminalR = 0, failuresR = 0,
     byStatusR = createEmptyTaskStatusCounts, byRuntimeR = createEmptyTaskRuntimeCounts\<rparr>"

text \<open>The body of the loop.\<close>

definition count_task :: "TaskRecord \<Rightarrow> TaskRegistrySummary \<Rightarrow> TaskRegistrySummary" where
  "count_task t s =
     (let s1 = s\<lparr>totalR := totalR s + 1,
            byStatusR := (byStatusR s)(status t := byStatusR s (status t) + 1),
            byRuntimeR := (byRuntimeR s)(runtime t := byRuntimeR s (runtime t) + 1)\<rparr>;
          s2 = (if status t = St_queued \<or> status t = St_running
                then s1\<lparr>activeR := activeR s1 + 1\<rparr> else s1\<lparr>terminalR := terminalR s1 + 1\<rparr>)
      in if status t = St_failed \<or> status t = St_timed_out \<or> status t = St_lost
         then s2\<lparr>failuresR := failuresR s2 + 1\<rparr> else s2)"

definition summarizeTaskRecords :: "TaskRecord list \<Rightarrow> TaskRegistrySummary" where
  "summarizeTaskRecords ts = fold count_task ts createEmptyTaskRegistrySummary"

definition getTaskRegistrySummary :: "TaskReg \<Rightarrow> TaskRegistrySummary" where
  "getTaskRegistrySummary st = summarizeTaskRecords (map snd (tasks st))"

definition getFlowTaskSummary :: "string \<Rightarrow> TaskReg \<Rightarrow> TaskRegistrySummary" where
  "getFlowTaskSummary fid st = summarizeTaskRecords (listTasksForFlowId fid st)"

abbreviation status_count :: "TaskStatus \<Rightarrow> TaskRecord list \<Rightarrow> int" where
  "status_count s ts \<equiv> int (length (filter (\<lambda>t. status t = s) ts))"

abbreviation runtime_count :: "TaskRuntime \<Rightarrow> TaskRecord list \<Rightarrow> int" where
  "runtime_count r ts \<equiv> int (length (filter (\<lambda>t. runtime t = r) ts))"

lemma count_task_fold:
  "totalR (fold count_task ts s) = totalR s + int (length ts)"
  "byStatusR (fold count_task ts s) x = byStatusR s x + status_count x ts"
  "byRuntimeR (fold count_task ts s) r = byRuntimeR s r + runtime_count r ts"
  "activeR (fold count_task ts s) = activeR s + int (length (filter (\<lambda>t. isActiveTaskStatus (status t)) ts))"
  "terminalR (fold count_task ts s) = terminalR s + int (length (filter (\<lambda>t. isTerminalTaskStatus (status t)) ts))"
  "failuresR (fold count_task ts s) = failuresR s + status_count St_failed ts
     + status_count St_timed_out ts + status_count St_lost ts"
proof (induction ts arbitrary: s)
  case (Cons t ts)
  { case 1 show ?case using Cons by (simp add: count_task_def Let_def) }
  { case 2 show ?case using Cons by (simp add: count_task_def Let_def) }
  { case 3 show ?case using Cons by (simp add: count_task_def Let_def) }
  { case 4 show ?case using Cons by (simp add: count_task_def Let_def isActiveTaskStatus_def) }
  { case 5 show ?case using Cons
      by (cases "status t") (simp_all add: count_task_def Let_def isTerminalTaskStatus_def) }
  { case 6 show ?case using Cons by (cases "status t") (simp_all add: count_task_def Let_def) }
qed simp_all

lemma status_partition:
  "int (length ts) = status_count St_queued ts + status_count St_running ts + status_count St_succeeded ts
     + status_count St_failed ts + status_count St_timed_out ts + status_count St_cancelled ts
     + status_count St_lost ts"
proof (induction ts)
  case (Cons t ts)
  then show ?case by (cases "status t") simp_all
qed simp

lemma runtime_partition:
  "int (length ts) = runtime_count Rt_subagent ts + runtime_count Rt_acp ts + runtime_count Rt_cli ts
     + runtime_count Rt_cron ts"
proof (induction ts)
  case (Cons t ts)
  then show ?case by (cases "runtime t") simp_all
qed simp

lemma summary_counts:
  "totalR (summarizeTaskRecords ts) = int (length ts)"
  "byStatusR (summarizeTaskRecords ts) s = status_count s ts"
  "byRuntimeR (summarizeTaskRecords ts) r = runtime_count r ts"
  by (simp_all add: summarizeTaskRecords_def createEmptyTaskRegistrySummary_def count_task_fold
      createEmptyTaskStatusCounts_def createEmptyTaskRuntimeCounts_def)

lemma active_terminal_partition:
  "int (length (filter (\<lambda>t. isActiveTaskStatus (status t)) ts)) = status_count St_queued ts + status_count St_running ts"
  "int (length (filter (\<lambda>t. isTerminalTaskStatus (status t)) ts)) = status_count St_succeeded ts
     + status_count St_failed ts + status_count St_timed_out ts + status_count St_cancelled ts
     + status_count St_lost ts"
proof (induction ts)
  case (Cons t ts)
  { case 1 show ?case using Cons by (cases "status t") (simp_all add: isActiveTaskStatus_def) }
  { case 2 show ?case using Cons by (cases "status t") (simp_all add: isTerminalTaskStatus_def) }
qed simp_all

text \<open>
  The counts add up: the summary counts each status and each runtime exactly, the counts by
  status and those by runtime both sum to the total, the total is the active plus the terminal
  tasks, and the failures are the failed, the timed out and the lost ones.
\<close>

theorem summary_adds_up:
  "let s = summarizeTaskRecords ts in
     totalR s = int (length ts)
     \<and> byStatusR s x = status_count x ts \<and> byRuntimeR s r = runtime_count r ts
     \<and> totalR s = activeR s + terminalR s
     \<and> activeR s = byStatusR s St_queued + byStatusR s St_running
     \<and> totalR s = byStatusR s St_queued + byStatusR s St_running + byStatusR s St_succeeded
          + byStatusR s St_failed + byStatusR s St_timed_out + byStatusR s St_cancelled + byStatusR s St_lost
     \<and> totalR s = byRuntimeR s Rt_subagent + byRuntimeR s Rt_acp + byRuntimeR s Rt_cli + byRuntimeR s Rt_cron
     \<and> failuresR s = byStatusR s St_failed + byStatusR s St_timed_out + byStatusR s St_lost"
  using status_partition [of ts] runtime_partition [of ts] active_terminal_partition [of ts]
  by (simp add: Let_def summary_counts) (simp add: summarizeTaskRecords_def
      createEmptyTaskRegistrySummary_def count_task_fold)

section \<open>Status snapshots\<close>

definition TASK_STATUS_RECENT_WINDOW_MS :: int where
  "TASK_STATUS_RECENT_WINDOW_MS = 5 * 60000"

definition isActiveTask :: "TaskRecord \<Rightarrow> bool" where
  "isActiveTask t \<longleftrightarrow> status t = St_queued \<or> status t = St_running"

definition isFailureTask :: "TaskRecord \<Rightarrow> bool" where
  "isFailureTask t \<longleftrightarrow> status t = St_failed \<or> status t = St_timed_out \<or> status t = St_lost"

definition resolveTaskReferenceAt :: "TaskRecord \<Rightarrow> int" where
  "resolveTaskReferenceAt t =
     (if isActiveTask t then nullish (orElse (lastEventAt t) (startedAt t)) (createdAt t)
      else nullish (orElse (orElse (endedAt t) (lastEventAt t)) (startedAt t)) (createdAt t))"

definition isExpiredTask :: "TaskRecord \<Rightarrow> int \<Rightarrow> bool" where
  "isExpiredTask t now \<longleftrightarrow> (case cleanupAfter t of None \<Rightarrow> False | Some c \<Rightarrow> c \<le> now)"

definition isRecentTerminalTask :: "TaskRecord \<Rightarrow> int \<Rightarrow> bool" where
  "isRecentTerminalTask t now \<longleftrightarrow>
     \<not> isActiveTask t \<and> now - resolveTaskReferenceAt t \<le> TASK_STATUS_RECENT_WINDOW_MS"

record TaskStatusSnapshot =
  latestN :: "TaskRecord option"
  focusN :: "TaskRecord option"
  visibleN :: "TaskRecord list"
  activeN :: "TaskRecord list"
  recentTerminalN :: "TaskRecord list"
  activeCountN :: nat
  totalCountN :: nat
  recentFailureCountN :: nat

definition buildTaskStatusSnapshot :: "TaskRecord list \<Rightarrow> int \<Rightarrow> TaskStatusSnapshot" where
  "buildTaskStatusSnapshot ts now =
     (let visibleCandidates = filter (\<lambda>t. \<not> isExpiredTask t now) ts;
          active = filter isActiveTask visibleCandidates;
          recentTerminal = filter (\<lambda>t. isRecentTerminalTask t now) visibleCandidates;
          visible = (if length active > 0 then active @ recentTerminal else recentTerminal);
          focus = orElse (orElse (first_of active) (find isFailureTask recentTerminal)) (first_of recentTerminal)
      in \<lparr>latestN = orElse (first_of active) (first_of recentTerminal),
          focusN = focus,
          visibleN = visible,
          activeN = active,
          recentTerminalN = recentTerminal,
          activeCountN = length active,
          totalCountN = length visible,
          recentFailureCountN = length (filter isFailureTask recentTerminal)\<rparr>)"

lemma mset_filter_disjoint:
  "(\<And>x. P x \<Longrightarrow> Q x \<Longrightarrow> False) \<Longrightarrow> mset (filter P xs @ filter Q xs) = mset (filter (\<lambda>x. P x \<or> Q x) xs)"
  by (induction xs) auto

lemma first_of_mem: "first_of xs = Some x \<Longrightarrow> x \<in> set xs"
  by (cases xs) (auto simp: first_of_def)

lemma first_of_None: "first_of xs = None \<longleftrightarrow> xs = []"
  by (cases xs) (auto simp: first_of_def)

lemma first_of_simps: "first_of [] = None" "first_of (x # xs) = Some x"
  by (simp_all add: first_of_def)

text \<open>
  The status snapshot shows a task once, in the list of active or of recently ended tasks, exactly when it has
  not expired and is active or ended within the window; what it puts in focus is one of the visible
  tasks (none only when nothing is visible), an active one if there is any, and otherwise a failed
  one if there is any.
\<close>

theorem snapshot_spec:
  "let s = buildTaskStatusSnapshot ts now in
     mset (visibleN s) = mset (filter (\<lambda>t. \<not> isExpiredTask t now \<and> (isActiveTask t \<or> isRecentTerminalTask t now)) ts)
     \<and> totalCountN s = activeCountN s + length (recentTerminalN s)
     \<and> (case focusN s of None \<Rightarrow> visibleN s = []
        | Some t \<Rightarrow> t \<in> set (visibleN s) \<and> isActiveTask t = (activeCountN s \<noteq> 0)
            \<and> (if activeCountN s = 0 then isFailureTask t = (recentFailureCountN s \<noteq> 0) else True))"
proof -
  let ?s = "buildTaskStatusSnapshot ts now"
  define a where "a = filter (\<lambda>t. \<not> isExpiredTask t now \<and> isActiveTask t) ts"
  define r where "r = filter (\<lambda>t. \<not> isExpiredTask t now \<and> isRecentTerminalTask t now) ts"
  have disj: "isRecentTerminalTask t now \<Longrightarrow> \<not> isActiveTask t" for t
    by (simp add: isRecentTerminalTask_def)
  have a: "t \<in> set a \<Longrightarrow> isActiveTask t" and r: "t \<in> set r \<Longrightarrow> \<not> isActiveTask t" for t
    using disj by (auto simp: a_def r_def)
  have s: "visibleN ?s = a @ r" "activeCountN ?s = length a" "recentTerminalN ?s = r"
      "totalCountN ?s = length a + length r" "recentFailureCountN ?s = length (filter isFailureTask r)"
      "focusN ?s = orElse (orElse (first_of a) (find isFailureTask r)) (first_of r)"
    by (simp_all add: buildTaskStatusSnapshot_def Let_def a_def r_def conj_ac)
  have "mset (a @ r) = mset (filter (\<lambda>t. \<not> isExpiredTask t now \<and> (isActiveTask t \<or> isRecentTerminalTask t now)) ts)"
    unfolding a_def r_def
    by (subst mset_filter_disjoint) (use disj in \<open>auto simp: conj_disj_distribL\<close>)
  moreover have "case focusN ?s of None \<Rightarrow> visibleN ?s = []
        | Some t \<Rightarrow> t \<in> set (visibleN ?s) \<and> isActiveTask t = (activeCountN ?s \<noteq> 0)
            \<and> (if activeCountN ?s = 0 then isFailureTask t = (recentFailureCountN ?s \<noteq> 0) else True)"
  proof (cases a)
    case Nil
    show ?thesis
    proof (cases "find isFailureTask r")
      case None
      then have "\<forall>t \<in> set r. \<not> isFailureTask t" by (simp add: find_None_iff)
      with None Nil r show ?thesis by (cases r) (simp_all add: s first_of_simps)
    next
      case (Some t)
      then have "t \<in> set r" "isFailureTask t" by (auto simp: find_Some_iff)
      moreover from this have "filter isFailureTask r \<noteq> []" by (auto simp: filter_empty_conv)
      ultimately show ?thesis using Some Nil r by (simp add: s first_of_simps)
    qed
  next
    case (Cons t rest)
    with a show ?thesis by (simp add: s first_of_simps)
  qed
  ultimately show ?thesis by (simp add: s Let_def)
qed

end
