(* ===== verification/TaskOwnerAccess.thy ===== *)
theory TaskOwnerAccess
  imports TaskSummary TaskFlowProps
begin

text \<open>
  The queries callers outside the runtime may make, restricted to what they own:
  \<open>task-owner-access.ts\<close>, \<open>task-flow-owner-access.ts\<close> and \<open>task-status-access.ts\<close>.
\<close>

section \<open>Tasks\<close>

definition canOwnerAccessTask :: "TaskRecord \<Rightarrow> string \<Rightarrow> bool" where
  "canOwnerAccessTask t callerOwnerKey \<longleftrightarrow> scopeKind t = Sk_session
     \<and> normalizeOptionalString (Some (ownerKey t)) = normalizeOptionalString (Some callerOwnerKey)"

definition only_owned :: "string \<Rightarrow> TaskRecord option \<Rightarrow> TaskRecord option" where
  "only_owned caller r = (case r of None \<Rightarrow> None
     | Some t \<Rightarrow> if canOwnerAccessTask t caller then Some t else None)"

definition getTaskByIdForOwner :: "string \<Rightarrow> string \<Rightarrow> TaskReg \<Rightarrow> TaskRecord option" where
  "getTaskByIdForOwner tid caller st = only_owned caller (getTaskById tid st)"

definition findTaskByRunIdForOwner :: "string \<Rightarrow> string \<Rightarrow> TaskReg \<Rightarrow> TaskRecord option" where
  "findTaskByRunIdForOwner rid caller st = only_owned caller (findTaskByRunId rid st)"

definition listTasksForRelatedSessionKeyForOwner :: "string \<Rightarrow> string \<Rightarrow> TaskReg \<Rightarrow> TaskRecord list" where
  "listTasksForRelatedSessionKeyForOwner key caller st =
     filter (\<lambda>t. canOwnerAccessTask t caller) (listTasksForRelatedSessionKey key st)"

definition buildTaskStatusSnapshotForRelatedSessionKeyForOwner ::
    "Env \<Rightarrow> string \<Rightarrow> string \<Rightarrow> TaskReg \<Rightarrow> TaskStatusSnapshot" where
  "buildTaskStatusSnapshotForRelatedSessionKeyForOwner env key caller st =
     buildTaskStatusSnapshot (listTasksForRelatedSessionKeyForOwner key caller st) (date_now env)"

definition findLatestTaskForRelatedSessionKeyForOwner :: "string \<Rightarrow> string \<Rightarrow> TaskReg \<Rightarrow> TaskRecord option" where
  "findLatestTaskForRelatedSessionKeyForOwner key caller st =
     first_of (listTasksForRelatedSessionKeyForOwner key caller st)"

definition resolveTaskForLookupTokenForOwner :: "string \<Rightarrow> string \<Rightarrow> TaskReg \<Rightarrow> TaskRecord option" where
  "resolveTaskForLookupTokenForOwner token caller st =
     (case getTaskByIdForOwner token caller st of Some t \<Rightarrow> Some t
      | None \<Rightarrow>
        (case findTaskByRunIdForOwner token caller st of Some t \<Rightarrow> Some t
         | None \<Rightarrow>
           (case findLatestTaskForRelatedSessionKeyForOwner token caller st of Some t \<Rightarrow> Some t
            | None \<Rightarrow> only_owned caller (resolveTaskForLookupToken token st))))"

definition listTasksForSessionKeyForStatus :: "string \<Rightarrow> TaskReg \<Rightarrow> TaskRecord list" where
  "listTasksForSessionKeyForStatus key st = listTasksForSessionKey key st"

definition listTasksForAgentIdForStatus :: "string \<Rightarrow> TaskReg \<Rightarrow> TaskRecord list" where
  "listTasksForAgentIdForStatus aid st = listTasksForAgentId aid st"

section \<open>Flows\<close>

definition getTaskFlowByIdForOwner :: "string \<Rightarrow> string \<Rightarrow> 'a FlowReg_scheme \<Rightarrow> TaskFlowRecord option" where
  "getTaskFlowByIdForOwner fid caller st =
     (case getTaskFlowById st fid of None \<Rightarrow> None
      | Some f \<Rightarrow>
        if normalizeOptionalString (Some (ownerKeyF f)) = normalizeOptionalString (Some caller)
        then Some f else None)"

definition listTaskFlowsForOwner :: "string \<Rightarrow> 'a FlowReg_scheme \<Rightarrow> TaskFlowRecord list" where
  "listTaskFlowsForOwner caller st =
     (case normalizeOptionalString (Some caller) of None \<Rightarrow> []
      | Some owner \<Rightarrow> listTaskFlowsForOwnerKey st owner)"

definition findLatestTaskFlowForOwner :: "string \<Rightarrow> 'a FlowReg_scheme \<Rightarrow> TaskFlowRecord option" where
  "findLatestTaskFlowForOwner caller st =
     (case normalizeOptionalString (Some caller) of None \<Rightarrow> None
      | Some owner \<Rightarrow> findLatestTaskFlowForOwnerKey st owner)"

definition resolveTaskFlowForLookupTokenForOwner ::
    "string \<Rightarrow> string \<Rightarrow> 'a FlowReg_scheme \<Rightarrow> TaskFlowRecord option" where
  "resolveTaskFlowForLookupTokenForOwner token caller st =
     (case getTaskFlowByIdForOwner token caller st of Some f \<Rightarrow> Some f
      | None \<Rightarrow>
        (case normalizeOptionalString (Some token) of None \<Rightarrow> None
         | Some tok \<Rightarrow>
           if Some tok \<noteq> normalizeOptionalString (Some caller) then None
           else findLatestTaskFlowForOwner tok st))"

section \<open>Isolation\<close>

lemma same_normal: "normalizeOptionalString (Some a) = normalizeOptionalString (Some b) \<longleftrightarrow> js_trim a = js_trim b"
  by (auto simp: normalizeOptionalString_Some)

lemma accessible: "canOwnerAccessTask t caller \<longleftrightarrow> scopeKind t = Sk_session \<and> js_trim (ownerKey t) = js_trim caller"
  by (simp add: canOwnerAccessTask_def same_normal)

lemma only_owned_Some: "only_owned caller r = Some t \<longleftrightarrow> r = Some t \<and> canOwnerAccessTask t caller"
  by (auto simp: only_owned_def split: option.splits)

lemma pickPreferred_mem: "pickPreferredRunIdTask ts = Some t \<Longrightarrow> t \<in> set ts"
  by (auto simp: pickPreferredRunIdTask_def first_of_simps dest!: first_of_mem)

text \<open>What the unrestricted queries give is in the registry.\<close>

lemma query_results_stored:
  assumes "registry_inv st"
  shows "getTaskById x st = Some t \<Longrightarrow> \<exists>k. map_of (tasks st) k = Some t"
    and "findTaskByRunId x st = Some t \<Longrightarrow> \<exists>k. map_of (tasks st) k = Some t"
    and "findLatestTaskForRelatedSessionKey x st = Some t \<Longrightarrow> \<exists>k. map_of (tasks st) k = Some t"
    and "resolveTaskForLookupToken x st = Some t \<Longrightarrow> \<exists>k. map_of (tasks st) k = Some t"
proof -
  show 1: "getTaskById x st = Some t \<Longrightarrow> \<exists>k. map_of (tasks st) k = Some t" for x
    by (auto simp: getTaskById_def)
  show 2: "findTaskByRunId x st = Some t \<Longrightarrow> \<exists>k. map_of (tasks st) k = Some t" for x
    by (auto simp: findTaskByRunId_def set_task_lists(4) [OF assms] dest!: pickPreferred_mem)
  show 3: "findLatestTaskForRelatedSessionKey x st = Some t \<Longrightarrow> \<exists>k. map_of (tasks st) k = Some t" for x
    by (auto simp: findLatestTaskForRelatedSessionKey_def set_task_lists(3) [OF assms] dest!: first_of_mem)
  show "resolveTaskForLookupToken x st = Some t \<Longrightarrow> \<exists>k. map_of (tasks st) k = Some t"
    using 1 2 3 by (auto simp: resolveTaskForLookupToken_def Let_def orElse_def split: if_splits option.splits)
qed

lemma task_queries_owned:
  assumes "task_reachable st"
  shows "set (listTasksForRelatedSessionKeyForOwner key caller st)
       = {t. \<exists>k. map_of (tasks st) k = Some t \<and> scopeKind t = Sk_session
            \<and> js_trim (ownerKey t) = js_trim caller \<and> js_trim key \<noteq> ''''
            \<and> (js_trim (ownerKey t) = js_trim key \<or> map_option js_trim (childSessionKey t) = Some (js_trim key))}
    \<and> {t. getTaskByIdForOwner tid caller st = Some t}
       = {t. map_of (tasks st) (js_trim tid) = Some t \<and> scopeKind t = Sk_session
            \<and> js_trim (ownerKey t) = js_trim caller}
    \<and> {t. resolveTaskForLookupTokenForOwner tok caller st = Some t} \<union> {t. findTaskByRunIdForOwner rid caller st = Some t}
         \<union> set (visibleN (buildTaskStatusSnapshotForRelatedSessionKeyForOwner env key caller st))
       \<subseteq> {t. \<exists>k. map_of (tasks st) k = Some t \<and> scopeKind t = Sk_session
            \<and> js_trim (ownerKey t) = js_trim caller}"
proof -
  have inv: "registry_inv st" by (rule task_reachable_inv [OF assms])
  let ?owned = "{t. \<exists>k. map_of (tasks st) k = Some t \<and> scopeKind t = Sk_session
      \<and> js_trim (ownerKey t) = js_trim caller}"
  have l: "set (listTasksForRelatedSessionKeyForOwner key caller st)
       = {t. \<exists>k. map_of (tasks st) k = Some t \<and> scopeKind t = Sk_session
            \<and> js_trim (ownerKey t) = js_trim caller \<and> js_trim key \<noteq> ''''
            \<and> (js_trim (ownerKey t) = js_trim key \<or> map_option js_trim (childSessionKey t) = Some (js_trim key))}" for key
    by (auto simp: listTasksForRelatedSessionKeyForOwner_def set_task_lists(3) [OF inv] accessible)
  have g: "getTaskByIdForOwner tid caller st = Some t \<longleftrightarrow> map_of (tasks st) (js_trim tid) = Some t
      \<and> scopeKind t = Sk_session \<and> js_trim (ownerKey t) = js_trim caller" for tid t
    by (auto simp: getTaskByIdForOwner_def only_owned_Some accessible getTaskById_def)
  have r: "findTaskByRunIdForOwner rid caller st = Some t \<Longrightarrow> t \<in> ?owned" for rid t
    using query_results_stored(2) [OF inv] by (force simp: findTaskByRunIdForOwner_def only_owned_Some accessible)
  have f: "findLatestTaskForRelatedSessionKeyForOwner tok caller st = Some t \<Longrightarrow> t \<in> ?owned" for tok t
    using l [of tok] by (auto simp: findLatestTaskForRelatedSessionKeyForOwner_def dest!: first_of_mem)
  have o: "only_owned caller (resolveTaskForLookupToken tok st) = Some t \<Longrightarrow> t \<in> ?owned" for t
    using query_results_stored(4) [OF inv] by (force simp: only_owned_Some accessible)
  have "resolveTaskForLookupTokenForOwner tok caller st = Some t \<Longrightarrow> t \<in> ?owned" for t
    using g [of tok t] r [of tok t] f [of tok t] o [of t]
    by (auto simp: resolveTaskForLookupTokenForOwner_def split: option.splits)
  moreover have "set (visibleN (buildTaskStatusSnapshot ts n)) \<subseteq> set ts" for ts n
    by (auto simp: buildTaskStatusSnapshot_def Let_def split: if_splits)
  ultimately show ?thesis
    using l [of key] g r by (fastforce simp: buildTaskStatusSnapshotForRelatedSessionKeyForOwner_def)
qed

lemma trimmed_token: "js_trim (js_trim s) = js_trim s"
  using same_normal [of "js_trim s" s] by (simp add: normalizeOptionalString_Some)

text \<open>A lookup by token for a caller gives the task of the lookup without caller, when the caller owns it.\<close>

lemma owned_lookup_found:
  assumes "resolveTaskForLookupToken tok st = Some t" "canOwnerAccessTask t caller"
  shows "resolveTaskForLookupTokenForOwner tok caller st = Some t"
proof -
  let ?tok = "js_trim tok"
  have same: "getTaskById ?tok st = getTaskById tok st" "findTaskByRunId ?tok st = findTaskByRunId tok st"
    "listTasksForRelatedSessionKey ?tok st = listTasksForRelatedSessionKey tok st"
    by (simp_all add: getTaskById_def findTaskByRunId_def getTasksByRunId_def listTasksForRelatedSessionKey_def normalizeOptionalString_Some
        trimmed_token)
  have r: "?tok \<noteq> ''''" "orElse (getTaskById tok st) (orElse (findTaskByRunId tok st) (findLatestTaskForRelatedSessionKey tok st)) = Some t"
    using assms(1) same by (simp_all add: resolveTaskForLookupToken_def Let_def findLatestTaskForRelatedSessionKey_def split: if_splits)
  show ?thesis
  proof (cases "getTaskById tok st")
    case (Some u)
    with r(2) assms(2) show ?thesis
      by (simp add: orElse_def resolveTaskForLookupTokenForOwner_def getTaskByIdForOwner_def only_owned_def)
  next
    case none: None
    show ?thesis
    proof (cases "findTaskByRunId tok st")
      case (Some u)
      with none r(2) assms(2) show ?thesis
        by (simp add: orElse_def resolveTaskForLookupTokenForOwner_def getTaskByIdForOwner_def findTaskByRunIdForOwner_def only_owned_def)
    next
      case None
      with none r(2) have "first_of (listTasksForRelatedSessionKey tok st) = Some t"
        by (simp add: orElse_def findLatestTaskForRelatedSessionKey_def)
      with assms(2) have "first_of (listTasksForRelatedSessionKeyForOwner tok caller st) = Some t"
        by (cases "listTasksForRelatedSessionKey tok st") (simp_all add: listTasksForRelatedSessionKeyForOwner_def first_of_def)
      with none None show ?thesis
        by (simp add: resolveTaskForLookupTokenForOwner_def getTaskByIdForOwner_def findTaskByRunIdForOwner_def only_owned_def
            findLatestTaskForRelatedSessionKeyForOwner_def)
    qed
  qed
qed

text \<open>
  C9. Isolation of owners in queries: in every reachable state the queries made for a caller answer
  with session tasks of that caller only. By session they list exactly those that are related to the session, and the latest
  is the first of them; by identifier and by run they give what the query without caller gives, when that is a session task
  of the caller, and else nothing; a lookup by token never gives a task of another, and gives the task of the lookup without
  caller when that is a session task of the caller; and a status snapshot shows no other task.
\<close>

theorem task_owner_isolation:
  assumes "task_reachable st"
  shows "set (listTasksForRelatedSessionKeyForOwner key caller st)
       = {t. \<exists>k. map_of (tasks st) k = Some t \<and> scopeKind t = Sk_session
            \<and> js_trim (ownerKey t) = js_trim caller \<and> js_trim key \<noteq> ''''
            \<and> (js_trim (ownerKey t) = js_trim key \<or> map_option js_trim (childSessionKey t) = Some (js_trim key))}
    \<and> {t. getTaskByIdForOwner tid caller st = Some t}
       = {t. map_of (tasks st) (js_trim tid) = Some t \<and> scopeKind t = Sk_session
            \<and> js_trim (ownerKey t) = js_trim caller}
    \<and> {t. resolveTaskForLookupTokenForOwner tok caller st = Some t} \<union> {t. findTaskByRunIdForOwner rid caller st = Some t}
         \<union> set (visibleN (buildTaskStatusSnapshotForRelatedSessionKeyForOwner env key caller st))
       \<subseteq> {t. \<exists>k. map_of (tasks st) k = Some t \<and> scopeKind t = Sk_session
            \<and> js_trim (ownerKey t) = js_trim caller}
    \<and> {t. findTaskByRunIdForOwner rid caller st = Some t}
       = {t. findTaskByRunId rid st = Some t \<and> scopeKind t = Sk_session \<and> js_trim (ownerKey t) = js_trim caller}
    \<and> {t. resolveTaskForLookupToken tok st = Some t \<and> scopeKind t = Sk_session \<and> js_trim (ownerKey t) = js_trim caller}
       \<subseteq> {t. resolveTaskForLookupTokenForOwner tok caller st = Some t}
    \<and> findLatestTaskForRelatedSessionKeyForOwner key caller st
       = (case listTasksForRelatedSessionKeyForOwner key caller st of [] \<Rightarrow> None | t # _ \<Rightarrow> Some t)"
proof -
  have "{t. findTaskByRunIdForOwner rid caller st = Some t}
      = {t. findTaskByRunId rid st = Some t \<and> scopeKind t = Sk_session \<and> js_trim (ownerKey t) = js_trim caller}"
    by (simp add: findTaskByRunIdForOwner_def only_owned_Some accessible)
  moreover have "{t. resolveTaskForLookupToken tok st = Some t \<and> scopeKind t = Sk_session \<and> js_trim (ownerKey t) = js_trim caller}
      \<subseteq> {t. resolveTaskForLookupTokenForOwner tok caller st = Some t}"
    using owned_lookup_found [of tok st _ caller] by (auto simp: accessible)
  moreover have "findLatestTaskForRelatedSessionKeyForOwner key caller st
      = (case listTasksForRelatedSessionKeyForOwner key caller st of [] \<Rightarrow> None | t # _ \<Rightarrow> Some t)"
    by (simp add: findLatestTaskForRelatedSessionKeyForOwner_def first_of_def)
  ultimately show ?thesis using task_queries_owned [OF assms, of key caller tid tok rid env] by blast
qed

lemma example_tasks_scope:
  "map_option (\<lambda>t. (ownerKey t, scopeKind t)) (map_of (tasks example_tasks) ''t1'')
     = Some (''agent:main:main'', Sk_session)"
  by code_simp

theorem task_owner_isolation_witness:
  "getTaskByIdForOwner ''t1'' ''agent:other:main'' example_tasks = None
   \<and> getTaskByIdForOwner ''t1'' '' agent:main:main'' example_tasks \<noteq> None"
proof -
  obtain t where t: "map_of (tasks example_tasks) ''t1'' = Some t" "ownerKey t = ''agent:main:main''" "scopeKind t = Sk_session"
    using example_tasks_scope by auto
  have trims: "js_trim ''t1'' = ''t1''" "js_trim '' agent:main:main'' = ''agent:main:main''"
    "js_trim ''agent:main:main'' = ''agent:main:main''" "js_trim ''agent:other:main'' = ''agent:other:main''"
    by code_simp+
  have get: "getTaskByIdForOwner ''t1'' caller example_tasks = Some u
      \<longleftrightarrow> map_of (tasks example_tasks) (js_trim ''t1'') = Some u \<and> scopeKind u = Sk_session
           \<and> js_trim (ownerKey u) = js_trim caller" for caller u
    using task_owner_isolation [OF example_tasks_reachable, where tid = "''t1''" and caller = caller] by blast
  have "getTaskByIdForOwner ''t1'' ''agent:other:main'' example_tasks \<noteq> Some u" for u
    using get [of "''agent:other:main''"] t trims by auto
  moreover have "getTaskByIdForOwner ''t1'' '' agent:main:main'' example_tasks = Some t"
    using get [of "'' agent:main:main''"] t trims by auto
  ultimately show ?thesis by (cases "getTaskByIdForOwner ''t1'' ''agent:other:main'' example_tasks") auto
qed

lemma flow_queries_owned:
  assumes "flows_inv st"
  shows "{f. getTaskFlowByIdForOwner fid caller st = Some f}
       = {f. map_of (flows st) fid = Some f \<and> js_trim (ownerKeyF f) = js_trim caller}
    \<and> set (listTaskFlowsForOwner caller st)
       = {f. \<exists>k. map_of (flows st) k = Some f \<and> js_trim (ownerKeyF f) = js_trim caller}
    \<and> {f. resolveTaskFlowForLookupTokenForOwner tok caller st = Some f}
         \<union> {f. findLatestTaskFlowForOwner caller st = Some f}
       \<subseteq> {f. \<exists>k. map_of (flows st) k = Some f \<and> js_trim (ownerKeyF f) = js_trim caller}"
proof -
  have d: "distinct (map fst (flows st))" using assms by (simp add: flows_inv_def)
  have wf: "map_of (flows st) k = Some f \<Longrightarrow> js_trim (ownerKeyF f) \<noteq> ''''" for k f
    using flows_inv_lookup [OF assms] by (auto simp: flow_wf_def)
  have l: "set (listTaskFlowsForOwner c st)
       = {f. \<exists>k. map_of (flows st) k = Some f \<and> js_trim (ownerKeyF f) = js_trim c}" for c
    using wf by (force simp: listTaskFlowsForOwner_def listTaskFlowsForOwnerKey_def Let_def
        normalizeOptionalString_Some map_of_eq_Some_iff [OF d])
  have g: "getTaskFlowByIdForOwner fid caller st = Some f
      \<longleftrightarrow> map_of (flows st) fid = Some f \<and> js_trim (ownerKeyF f) = js_trim caller" for fid f
    by (auto simp: getTaskFlowByIdForOwner_def getTaskFlowById_def same_normal split: option.splits if_splits)
  have f: "findLatestTaskFlowForOwner c st = Some f
      \<Longrightarrow> \<exists>k. map_of (flows st) k = Some f \<and> js_trim (ownerKeyF f) = js_trim c" for c f
    using l [of c] by (auto simp: findLatestTaskFlowForOwner_def findLatestTaskFlowForOwnerKey_def
        listTaskFlowsForOwner_def split: option.splits dest!: first_of_mem)
  have "resolveTaskFlowForLookupTokenForOwner tok caller st = Some f
      \<Longrightarrow> \<exists>k. map_of (flows st) k = Some f \<and> js_trim (ownerKeyF f) = js_trim caller" for f
    using g [of tok f] f [of "js_trim tok" f]
    by (auto simp: resolveTaskFlowForLookupTokenForOwner_def normalizeOptionalString_Some
        split: option.splits if_splits)
  with l [of caller] g f [of caller] show ?thesis by auto
qed

text \<open>
  Isolation of owners of flows: the flow queries made for a caller answer with flows of that
  caller only, and a flow of the caller is found by its identifier and among the listed ones.
\<close>

theorem flow_owner_isolation:
  assumes "flows_inv st"
  shows "{f. getTaskFlowByIdForOwner fid caller st = Some f}
       = {f. map_of (flows st) fid = Some f \<and> js_trim (ownerKeyF f) = js_trim caller}
    \<and> set (listTaskFlowsForOwner caller st)
       = {f. \<exists>k. map_of (flows st) k = Some f \<and> js_trim (ownerKeyF f) = js_trim caller}
    \<and> {f. resolveTaskFlowForLookupTokenForOwner tok caller st = Some f}
         \<union> {f. findLatestTaskFlowForOwner caller st = Some f}
       \<subseteq> {f. \<exists>k. map_of (flows st) k = Some f \<and> js_trim (ownerKeyF f) = js_trim caller}"
  by (rule flow_queries_owned [OF assms])

theorem flow_owner_isolation_witness:
  "getTaskFlowByIdForOwner ''f1'' ''agent:other:main'' example_flow_state = None
   \<and> getTaskFlowByIdForOwner ''f1'' ''agent:main:main'' example_flow_state \<noteq> None"
proof -
  have inv: "flows_inv example_flow_state" by (rule flow_reachable_flows_inv [OF example_flow_reachable])
  obtain f where f: "map_of (flows example_flow_state) ''f1'' = Some f" using example_flow_lookup by auto
  have "map_option ownerKeyF (map_of (flows example_flow_state) ''f1'') = Some ''agent:main:main''" by code_simp
  with f have o: "ownerKeyF f = ''agent:main:main''" by simp
  have trims: "js_trim ''agent:main:main'' = ''agent:main:main''" "js_trim ''agent:other:main'' = ''agent:other:main''"
    by code_simp+
  have get: "getTaskFlowByIdForOwner ''f1'' caller example_flow_state = Some g
      \<longleftrightarrow> map_of (flows example_flow_state) ''f1'' = Some g \<and> js_trim (ownerKeyF g) = js_trim caller" for caller g
    using flow_owner_isolation [OF inv, where fid = "''f1''" and caller = caller] by blast
  have "getTaskFlowByIdForOwner ''f1'' ''agent:other:main'' example_flow_state \<noteq> Some g" for g
    using get [of "''agent:other:main''"] f o trims by auto
  moreover have "getTaskFlowByIdForOwner ''f1'' ''agent:main:main'' example_flow_state = Some f"
    using get [of "''agent:main:main''"] f o trims by auto
  ultimately show ?thesis by (cases "getTaskFlowByIdForOwner ''f1'' ''agent:other:main'' example_flow_state") auto
qed

end
