(* ===== verification/TaskExecutor.thy ===== *)
theory TaskExecutor
  imports TaskOwnerAccess
begin

text \<open>
  The facade of the task subsystem, \<open>task-executor.ts\<close>: runs with a flow of their own, retries of
  blocked flows, child tasks of managed flows, and the cancellation of whole flows. An operation
  that may throw returns a sum; \<open>uuid\<close> and \<open>fuuid\<close> are the identifiers \<open>crypto.randomUUID\<close> gives
  for a task and a flow. \<open>cancelFlowById\<close> is asynchronous: it is cut at its awaits.
\<close>

section \<open>Runs with a flow of their own\<close>

definition isOneTaskFlowEligible :: "TaskRecord \<Rightarrow> bool" where
  "isOneTaskFlowEligible t \<longleftrightarrow>
     \<not> (normalizeOptionalString (parentFlowId t) \<noteq> None \<or> scopeKind t \<noteq> Sk_session)
     \<and> deliveryStatus t \<noteq> Ds_not_applicable
     \<and> (runtime t = Rt_acp \<or> runtime t = Rt_subagent)"

definition ensureSingleTaskFlow ::
    "Env \<Rightarrow> string \<Rightarrow> TaskRecord \<Rightarrow> DeliveryContext option \<Rightarrow> TaskReg \<Rightarrow> TaskRecord \<times> TaskReg" where
  "ensureSingleTaskFlow env fuuid t origin st =
     (if \<not> isOneTaskFlowEligible t then (t, st)
      else case createTaskFlowForTask env fuuid t origin st of
          (Inl _, st1) \<Rightarrow> (t, st1)
        | (Inr flow, st1) \<Rightarrow>
          (case linkTaskToFlowById env (taskId t) (flowIdF flow) st1 of
             (Inl _, st2) \<Rightarrow> (t, st2)
           | (Inr None, st2) \<Rightarrow> (t, snd (deleteTaskFlowRecordById (flowIdF flow) st2))
           | (Inr (Some linked), st2) \<Rightarrow>
               if parentFlowId linked \<noteq> Some (flowIdF flow)
               then (linked, snd (deleteTaskFlowRecordById (flowIdF flow) st2))
               else (linked, st2)))"

definition create_run ::
    "TaskStatus \<Rightarrow> Env \<Rightarrow> string \<Rightarrow> string \<Rightarrow> CreateTaskParams \<Rightarrow> TaskReg \<Rightarrow> (TaskError + TaskRecord) \<times> TaskReg" where
  "create_run s env uuid fuuid p st =
     (case createTaskRecord env uuid (p\<lparr>statusT := Some s\<rparr>) st of
        (Inl e, st1) \<Rightarrow> (Inl e, st1)
      | (Inr t, st1) \<Rightarrow> (case ensureSingleTaskFlow env fuuid t (requesterOriginT p) st1 of
           (t', st2) \<Rightarrow> (Inr t', st2)))"

definition createQueuedTaskRun ::
    "Env \<Rightarrow> string \<Rightarrow> string \<Rightarrow> CreateTaskParams \<Rightarrow> TaskReg \<Rightarrow> (TaskError + TaskRecord) \<times> TaskReg" where
  "createQueuedTaskRun = create_run St_queued"

definition createRunningTaskRun ::
    "Env \<Rightarrow> string \<Rightarrow> string \<Rightarrow> CreateTaskParams \<Rightarrow> TaskReg \<Rightarrow> (TaskError + TaskRecord) \<times> TaskReg" where
  "createRunningTaskRun = create_run St_running"

section \<open>Progress of runs\<close>

definition startTaskRunByRunId ::
    "Env \<Rightarrow> string \<Rightarrow> TaskRuntime option \<Rightarrow> string option \<Rightarrow> int option \<Rightarrow> int option
      \<Rightarrow> string option option \<Rightarrow> string option \<Rightarrow> TaskReg \<Rightarrow> TaskRecord list \<times> TaskReg" where
  "startTaskRunByRunId = markTaskRunningByRunId"

definition recordTaskRunProgressByRunId ::
    "Env \<Rightarrow> string \<Rightarrow> TaskRuntime option \<Rightarrow> string option \<Rightarrow> int option
      \<Rightarrow> string option option \<Rightarrow> string option \<Rightarrow> TaskReg \<Rightarrow> TaskRecord list \<times> TaskReg" where
  "recordTaskRunProgressByRunId = recordTaskProgressByRunId"

definition completeTaskRunByRunId ::
    "Env \<Rightarrow> string \<Rightarrow> TaskRuntime option \<Rightarrow> string option \<Rightarrow> int \<Rightarrow> int option
      \<Rightarrow> string option option \<Rightarrow> string option option \<Rightarrow> TaskTerminalOutcome option option
      \<Rightarrow> TaskReg \<Rightarrow> TaskRecord list \<times> TaskReg" where
  "completeTaskRunByRunId env rid rt session ended lastEvent progress summary outcome st =
     markTaskTerminalByRunId env rid rt session St_succeeded None ended lastEvent None progress summary outcome st"

definition failTaskRunByRunId ::
    "Env \<Rightarrow> string \<Rightarrow> TaskRuntime option \<Rightarrow> string option \<Rightarrow> TaskStatus option \<Rightarrow> int \<Rightarrow> int option
      \<Rightarrow> string option \<Rightarrow> string option option \<Rightarrow> string option option \<Rightarrow> TaskReg \<Rightarrow> TaskRecord list \<times> TaskReg" where
  "failTaskRunByRunId env rid rt session s ended lastEvent err progress summary st =
     markTaskTerminalByRunId env rid rt session (nullish s St_failed) None ended lastEvent err progress summary None st"

definition markTaskRunLostById ::
    "Env \<Rightarrow> string \<Rightarrow> int \<Rightarrow> int option \<Rightarrow> string option \<Rightarrow> int option \<Rightarrow> TaskReg \<Rightarrow> TaskRecord option \<times> TaskReg" where
  "markTaskRunLostById = markTaskLostById"

definition setDetachedTaskDeliveryStatusByRunId ::
    "Env \<Rightarrow> string \<Rightarrow> TaskRuntime option \<Rightarrow> string option \<Rightarrow> TaskDeliveryStatus \<Rightarrow> TaskReg
      \<Rightarrow> TaskRecord list \<times> TaskReg" where
  "setDetachedTaskDeliveryStatusByRunId = setTaskRunDeliveryStatusByRunId"

section \<open>Retrying a blocked flow\<close>

record RetryBlockedFlowResult =
  foundB :: bool
  retriedB :: bool
  reasonB :: "string option"
  previousTaskB :: "TaskRecord option"
  taskB :: "TaskRecord option"

record RetryBlockedFlowParams =
  flowIdB :: string
  sourceIdB :: "string option"
  requesterOriginB :: "DeliveryContext option"
  childSessionKeyB :: "string option"
  agentIdB :: "string option"
  runIdB :: "string option"
  labelB :: "string option"
  taskTextB :: "string option"
  preferMetadataB :: bool
  notifyPolicyB :: "TaskNotifyPolicy option"
  deliveryStatusB :: "TaskDeliveryStatus option"
  statusB :: TaskStatus
  startedAtB :: "int option"
  lastEventAtB :: "int option"
  progressSummaryB :: "string option"

record RetryableFlow =
  flowFoundY :: bool
  retryableY :: bool
  latestTaskY :: "TaskRecord option"
  reasonY :: "string option"

definition resolveRetryableBlockedFlowTask :: "string \<Rightarrow> TaskReg \<Rightarrow> RetryableFlow" where
  "resolveRetryableBlockedFlowTask fid st =
     (case getTaskFlowById st fid of
        None \<Rightarrow> \<lparr>flowFoundY = False, retryableY = False, latestTaskY = None,
                 reasonY = Some ''Flow not found.''\<rparr>
      | Some flow \<Rightarrow>
        (case findLatestTaskForFlowId fid st of
           None \<Rightarrow> \<lparr>flowFoundY = True, retryableY = False, latestTaskY = None,
                    reasonY = Some ''Flow has no retryable task.''\<rparr>
         | Some latest \<Rightarrow>
           if statusF flow \<noteq> Fs_blocked
           then \<lparr>flowFoundY = True, retryableY = False, latestTaskY = Some latest,
                  reasonY = Some ''Flow is not blocked.''\<rparr>
           else if status latest \<noteq> St_succeeded \<or> terminalOutcome latest \<noteq> Some To_blocked
           then \<lparr>flowFoundY = True, retryableY = False, latestTaskY = Some latest,
                  reasonY = Some ''Latest TaskFlow task is not blocked.''\<rparr>
           else \<lparr>flowFoundY = True, retryableY = True, latestTaskY = Some latest, reasonY = None\<rparr>))"

definition retry_params :: "RetryBlockedFlowParams \<Rightarrow> TaskFlowRecord \<Rightarrow> TaskRecord \<Rightarrow> CreateTaskParams" where
  "retry_params p flow latest = \<lparr>
     runtimeT = runtime latest,
     taskKindT = None,
     sourceIdT = orElse (sourceIdB p) (sourceId latest),
     requesterSessionKeyT = None,
     ownerKeyT = Some (ownerKeyF flow),
     scopeKindT = Some Sk_session,
     requesterOriginT = orElse (requesterOriginB p) (requesterOriginF flow),
     childSessionKeyT = childSessionKeyB p,
     parentFlowIdT = Some (flowIdF flow),
     parentTaskIdT = Some (taskId latest),
     agentIdT = orElse (agentIdB p) (agentId latest),
     runIdT = runIdB p,
     labelT = orElse (labelB p) (label latest),
     taskT = nullish (taskTextB p) (task latest),
     preferMetadataT = preferMetadataB p,
     statusT = Some (statusB p),
     deliveryStatusT = Some (nullish (deliveryStatusB p) Ds_pending),
     notifyPolicyT = Some (nullish (notifyPolicyB p) (notifyPolicy latest)),
     startedAtT = startedAtB p,
     lastEventAtT = lastEventAtB p,
     cleanupAfterT = None,
     progressSummaryT = progressSummaryB p,
     terminalSummaryT = None,
     terminalOutcomeT = None\<rparr>"

definition retryBlockedFlowTask ::
    "Env \<Rightarrow> string \<Rightarrow> RetryBlockedFlowParams \<Rightarrow> TaskReg \<Rightarrow> (TaskError + RetryBlockedFlowResult) \<times> TaskReg" where
  "retryBlockedFlowTask env uuid p st =
     (let resolved = resolveRetryableBlockedFlowTask (flowIdB p) st
      in case (if retryableY resolved then latestTaskY resolved else None) of
           None \<Rightarrow> (Inr \<lparr>foundB = flowFoundY resolved, retriedB = False, reasonB = reasonY resolved,
                     previousTaskB = None, taskB = None\<rparr>, st)
         | Some latest \<Rightarrow>
           (case getTaskFlowById st (flowIdB p) of
              None \<Rightarrow> (Inr \<lparr>foundB = False, retriedB = False, reasonB = Some ''Flow not found.'',
                        previousTaskB = Some latest, taskB = None\<rparr>, st)
            | Some flow \<Rightarrow>
              (case createTaskRecord env uuid (retry_params p flow latest) st of
                 (Inl e, st1) \<Rightarrow> (Inl e, st1)
               | (Inr t, st1) \<Rightarrow> (Inr \<lparr>foundB = True, retriedB = True, reasonB = None,
                                  previousTaskB = Some latest, taskB = Some t\<rparr>, st1))))"

definition retryBlockedFlowAsQueuedTaskRun ::
    "Env \<Rightarrow> string \<Rightarrow> RetryBlockedFlowParams \<Rightarrow> TaskReg \<Rightarrow> (TaskError + RetryBlockedFlowResult) \<times> TaskReg" where
  "retryBlockedFlowAsQueuedTaskRun env uuid p st =
     retryBlockedFlowTask env uuid (p\<lparr>statusB := St_queued, startedAtB := None, lastEventAtB := None,
       progressSummaryB := None\<rparr>) st"

definition retryBlockedFlowAsRunningTaskRun ::
    "Env \<Rightarrow> string \<Rightarrow> RetryBlockedFlowParams \<Rightarrow> TaskReg \<Rightarrow> (TaskError + RetryBlockedFlowResult) \<times> TaskReg" where
  "retryBlockedFlowAsRunningTaskRun env uuid p st = retryBlockedFlowTask env uuid (p\<lparr>statusB := St_running\<rparr>) st"

section \<open>Child tasks of managed flows\<close>

record RunTaskInFlowResult =
  foundI :: bool
  createdI :: bool
  reasonI :: "string option"
  flowI :: "TaskFlowRecord option"
  taskI :: "TaskRecord option"

record RunTaskInFlowParams =
  flowIdI :: string
  runtimeI :: TaskRuntime
  sourceIdI :: "string option"
  childSessionKeyI :: "string option"
  parentTaskIdI :: "string option"
  agentIdI :: "string option"
  runIdI :: "string option"
  labelI :: "string option"
  taskTextI :: string
  preferMetadataI :: bool
  notifyPolicyI :: "TaskNotifyPolicy option"
  deliveryStatusI :: "TaskDeliveryStatus option"
  statusI :: "TaskStatus option"
  startedAtI :: "int option"
  lastEventAtI :: "int option"
  progressSummaryI :: "string option"

definition flow_status_text :: "TaskFlowStatus \<Rightarrow> string" where
  "flow_status_text s = (case s of Fs_queued \<Rightarrow> ''queued'' | Fs_running \<Rightarrow> ''running''
     | Fs_waiting \<Rightarrow> ''waiting'' | Fs_blocked \<Rightarrow> ''blocked'' | Fs_succeeded \<Rightarrow> ''succeeded''
     | Fs_failed \<Rightarrow> ''failed'' | Fs_cancelled \<Rightarrow> ''cancelled'' | Fs_lost \<Rightarrow> ''lost'')"

definition already_ended :: "string \<Rightarrow> string" where
  "already_ended s = ''Flow is already '' @ s @ ''.''"

definition mapRunTaskInFlowCreateError :: "TaskError \<Rightarrow> string \<Rightarrow> TaskReg \<Rightarrow> TaskError + RunTaskInFlowResult" where
  "mapRunTaskInFlowCreateError e fid st =
     (let flow = getTaskFlowById st fid
      in case e of
           ParentFlowLinkError code _ details \<Rightarrow>
             if code = cancel_requested
             then Inr \<lparr>foundI = True, createdI = False,
                       reasonI = Some ''Flow cancellation has already been requested.'', flowI = flow, taskI = None\<rparr>
             else if code = terminal
             then Inr \<lparr>foundI = True, createdI = False,
                       reasonI = Some (already_ended (case orElse (map_option statusF flow) details of
                           Some s \<Rightarrow> flow_status_text s | None \<Rightarrow> ''terminal'')), flowI = flow, taskI = None\<rparr>
             else if code = parent_flow_not_found
             then Inr \<lparr>foundI = False, createdI = False, reasonI = Some ''Flow not found.'', flowI = None,
                       taskI = None\<rparr>
             else Inl e
         | _ \<Rightarrow> Inl e)"

definition flow_not_found :: RunTaskInFlowResult where
  "flow_not_found = \<lparr>foundI = False, createdI = False, reasonI = Some ''Flow not found.'', flowI = None,
     taskI = None\<rparr>"

definition flow_refuses :: "TaskFlowRecord \<Rightarrow> string option" where
  "flow_refuses flow =
     (if syncModeF flow \<noteq> Sm_managed then Some ''Flow does not accept managed child tasks.''
      else if cancelRequestedAtF flow \<noteq> None then Some ''Flow cancellation has already been requested.''
      else if isTerminalFlowStatus (statusF flow) then Some (already_ended (flow_status_text (statusF flow)))
      else None)"

definition child_params :: "RunTaskInFlowParams \<Rightarrow> TaskFlowRecord \<Rightarrow> CreateTaskParams" where
  "child_params p flow = \<lparr>
     runtimeT = runtimeI p,
     taskKindT = None,
     sourceIdT = sourceIdI p,
     requesterSessionKeyT = None,
     ownerKeyT = Some (ownerKeyF flow),
     scopeKindT = Some Sk_session,
     requesterOriginT = requesterOriginF flow,
     childSessionKeyT = childSessionKeyI p,
     parentFlowIdT = Some (flowIdF flow),
     parentTaskIdT = parentTaskIdI p,
     agentIdT = agentIdI p,
     runIdT = runIdI p,
     labelT = labelI p,
     taskT = taskTextI p,
     preferMetadataT = preferMetadataI p,
     statusT = None,
     deliveryStatusT = Some (nullish (deliveryStatusI p) Ds_pending),
     notifyPolicyT = notifyPolicyI p,
     startedAtT = None,
     lastEventAtT = None,
     cleanupAfterT = None,
     progressSummaryT = None,
     terminalSummaryT = None,
     terminalOutcomeT = None\<rparr>"

definition runTaskInFlow ::
    "Env \<Rightarrow> string \<Rightarrow> string \<Rightarrow> RunTaskInFlowParams \<Rightarrow> TaskReg \<Rightarrow> (TaskError + RunTaskInFlowResult) \<times> TaskReg" where
  "runTaskInFlow env uuid fuuid p st =
     (case getTaskFlowById st (flowIdI p) of
        None \<Rightarrow> (Inr flow_not_found, st)
      | Some flow \<Rightarrow>
        (case flow_refuses flow of
           Some reason \<Rightarrow> (Inr \<lparr>foundI = True, createdI = False, reasonI = Some reason, flowI = Some flow,
                            taskI = None\<rparr>, st)
         | None \<Rightarrow>
           (let common = child_params p flow
            in case (if statusI p = Some St_running
                     then createRunningTaskRun env uuid fuuid (common\<lparr>startedAtT := startedAtI p,
                            lastEventAtT := lastEventAtI p, progressSummaryT := progressSummaryI p\<rparr>) st
                     else createQueuedTaskRun env uuid fuuid common st) of
                 (Inl e, st1) \<Rightarrow> (mapRunTaskInFlowCreateError e (flowIdF flow) st1, st1)
               | (Inr t, st1) \<Rightarrow>
                 (Inr \<lparr>foundI = True, createdI = True, reasonI = None,
                       flowI = Some (nullish (getTaskFlowById st1 (flowIdF flow)) flow), taskI = Some t\<rparr>, st1))))"

definition runTaskInFlowForOwner ::
    "Env \<Rightarrow> string \<Rightarrow> string \<Rightarrow> string \<Rightarrow> RunTaskInFlowParams \<Rightarrow> TaskReg
      \<Rightarrow> (TaskError + RunTaskInFlowResult) \<times> TaskReg" where
  "runTaskInFlowForOwner env uuid fuuid caller p st =
     (case getTaskFlowByIdForOwner (flowIdI p) caller st of
        None \<Rightarrow> (Inr flow_not_found, st)
      | Some flow \<Rightarrow> runTaskInFlow env uuid fuuid (p\<lparr>flowIdI := flowIdF flow\<rparr>) st)"

section \<open>Cancelling a flow\<close>

record CancelFlowResult =
  foundL :: bool
  cancelledL :: bool
  reasonL :: "string option"
  flowL :: "TaskFlowRecord option"
  tasksL :: "TaskRecord list option"

record FlowUpdateFailure =
  reasonU :: string
  flowU :: "TaskFlowRecord option"

definition update_failure ::
    "string \<Rightarrow> TaskReg \<Rightarrow> TaskFlowUpdateResult \<Rightarrow> FlowUpdateFailure + TaskFlowRecord" where
  "update_failure fid st r =
     (case r of FlowApplied f \<Rightarrow> Inr f
      | FlowRevisionConflict current \<Rightarrow> Inl \<lparr>reasonU = ''Flow changed while cancellation was in progress.'',
          flowU = Some current\<rparr>
      | FlowNotFound \<Rightarrow> Inl \<lparr>reasonU = ''Flow not found.'', flowU = getTaskFlowById st fid\<rparr>)"

text \<open>The outer error is an exception of the flow registry.\<close>

definition markFlowCancelRequested ::
    "Env \<Rightarrow> TaskFlowRecord \<Rightarrow> TaskReg \<Rightarrow> (TaskError + (FlowUpdateFailure + TaskFlowRecord)) \<times> TaskReg" where
  "markFlowCancelRequested env flow st =
     (if cancelRequestedAtF flow \<noteq> None then (Inr (Inr flow), st)
      else case requestFlowCancel env (flowIdF flow) (revisionF flow) None None st of
             (Inl e, st1) \<Rightarrow> (Inl e, st1)
           | (Inr r, st1) \<Rightarrow> (Inr (update_failure (flowIdF flow) st1 r), st1))"

definition cancelManagedFlowAfterChildrenSettle ::
    "Env \<Rightarrow> TaskFlowRecord \<Rightarrow> int \<Rightarrow> TaskReg \<Rightarrow> (TaskError + (FlowUpdateFailure + TaskFlowRecord)) \<times> TaskReg" where
  "cancelManagedFlowAfterChildrenSettle env flow ended st =
     (case updateFlowRecordByIdExpectedRevision env (flowIdF flow) (revisionF flow) (empty_flow_patch\<lparr>
             statusFP := Some Fs_cancelled,
             blockedTaskIdFP := Some None,
             blockedSummaryFP := Some None,
             waitJsonFP := Some JNull,
             endedAtFP := Some (Some ended),
             updatedAtFP := Some ended\<rparr>) st of
        (Inl e, st1) \<Rightarrow> (Inl e, st1)
      | (Inr r, st1) \<Rightarrow> (Inr (update_failure (flowIdF flow) st1 r), st1))"

text \<open>
  Up to the first await: a result, or the flow and the tasks to cancel one after the other. The
  loop awaits \<open>cancelTaskById\<close> for each of them.
\<close>

definition cancelFlowById_start ::
    "Env \<Rightarrow> string \<Rightarrow> TaskReg \<Rightarrow> (TaskError + (CancelFlowResult + TaskFlowRecord \<times> string list)) \<times> TaskReg" where
  "cancelFlowById_start env fid st =
     (case getTaskFlowById st fid of
        None \<Rightarrow> (Inr (Inl \<lparr>foundL = False, cancelledL = False, reasonL = Some ''Flow not found.'', flowL = None,
                 tasksL = None\<rparr>), st)
      | Some flow \<Rightarrow>
        if isTerminalFlowStatus (statusF flow)
        then (Inr (Inl \<lparr>foundL = True, cancelledL = False,
                reasonL = Some (already_ended (flow_status_text (statusF flow))), flowL = Some flow,
                tasksL = Some (listTasksForFlowId (flowIdF flow) st)\<rparr>), st)
        else case markFlowCancelRequested env flow st of
               (Inl e, st1) \<Rightarrow> (Inl e, st1)
             | (Inr (Inl failure), st1) \<Rightarrow>
                 (Inr (Inl \<lparr>foundL = True, cancelledL = False, reasonL = Some (reasonU failure),
                    flowL = flowU failure, tasksL = Some (listTasksForFlowId (flowIdF flow) st1)\<rparr>), st1)
             | (Inr (Inr requested), st1) \<Rightarrow>
                 (Inr (Inr (requested, map taskId (filter (\<lambda>t. isActiveTaskStatus (status t))
                    (listTasksForFlowId (flowIdF flow) st1)))), st1))"

text \<open>After the last await.\<close>

definition cancelFlowById_finish ::
    "Env \<Rightarrow> TaskFlowRecord \<Rightarrow> TaskReg \<Rightarrow> (TaskError + CancelFlowResult) \<times> TaskReg" where
  "cancelFlowById_finish env requested st =
     (let fid = flowIdF requested;
          refreshedTasks = listTasksForFlowId fid st;
          remainingActive = filter (\<lambda>t. isActiveTaskStatus (status t)) refreshedTasks;
          refreshedFlow = nullish (getTaskFlowById st fid) requested
      in if length remainingActive > 0
         then (Inr \<lparr>foundL = True, cancelledL = False,
                 reasonL = Some ''One or more child tasks are still active.'', flowL = Some refreshedFlow,
                 tasksL = Some refreshedTasks\<rparr>, st)
         else if isTerminalFlowStatus (statusF refreshedFlow)
         then (Inr \<lparr>foundL = True, cancelledL = statusF refreshedFlow = Fs_cancelled,
                 reasonL = (if statusF refreshedFlow = Fs_cancelled then None
                            else Some (already_ended (flow_status_text (statusF refreshedFlow)))),
                 flowL = Some refreshedFlow, tasksL = Some refreshedTasks\<rparr>, st)
         else case cancelManagedFlowAfterChildrenSettle env refreshedFlow (date_now env) st of
                (Inl e, st1) \<Rightarrow> (Inl e, st1)
              | (Inr (Inl failure), st1) \<Rightarrow>
                  (Inr \<lparr>foundL = True, cancelledL = False, reasonL = Some (reasonU failure),
                     flowL = flowU failure, tasksL = Some refreshedTasks\<rparr>, st1)
              | (Inr (Inr updated), st1) \<Rightarrow>
                  (Inr \<lparr>foundL = True, cancelledL = True, reasonL = None, flowL = Some updated,
                     tasksL = Some refreshedTasks\<rparr>, st1))"

text \<open>
  A whole run of \<open>cancelFlowById\<close> from one state to another. Between the call of
  \<open>cancelTaskById\<close> and its return anything else may happen, the rest of that very cancellation
  included: any number of steps of the registry.
\<close>

inductive cancel_children :: "string list \<Rightarrow> TaskReg \<Rightarrow> TaskReg \<Rightarrow> bool" where
  none: "cancel_children [] st st"
| cancel: "task_step\<^sup>*\<^sup>* (snd (cancelTaskById env tid st)) st1 \<Longrightarrow> cancel_children tids st1 st2 \<Longrightarrow>
    cancel_children (tid # tids) st st2"

inductive cancelFlowById :: "string \<Rightarrow> TaskReg \<Rightarrow> TaskError + CancelFlowResult \<Rightarrow> TaskReg \<Rightarrow> bool" where
  throws: "cancelFlowById_start env fid st = (Inl e, st1) \<Longrightarrow> cancelFlowById fid st (Inl e) st1"
| at_once: "cancelFlowById_start env fid st = (Inr (Inl r), st1) \<Longrightarrow> cancelFlowById fid st (Inr r) st1"
| awaited: "cancelFlowById_start env fid st = (Inr (Inr (requested, tids)), st1) \<Longrightarrow>
    cancel_children tids st1 st2 \<Longrightarrow> cancelFlowById_finish env' requested st2 = (r, st3) \<Longrightarrow>
    cancelFlowById fid st r st3"

inductive cancelFlowByIdForOwner ::
    "string \<Rightarrow> string \<Rightarrow> TaskReg \<Rightarrow> TaskError + CancelFlowResult \<Rightarrow> TaskReg \<Rightarrow> bool" where
  refused: "getTaskFlowByIdForOwner fid caller st = None \<Longrightarrow>
    cancelFlowByIdForOwner fid caller st (Inr \<lparr>foundL = False, cancelledL = False,
      reasonL = Some ''Flow not found.'', flowL = None, tasksL = None\<rparr>) st"
| allowed: "getTaskFlowByIdForOwner fid caller st = Some flow \<Longrightarrow> cancelFlowById (flowIdF flow) st r st' \<Longrightarrow>
    cancelFlowByIdForOwner fid caller st r st'"

definition cancelDetachedTaskRunById :: "Env \<Rightarrow> string \<Rightarrow> TaskReg \<Rightarrow> CancelResult Async \<times> TaskReg" where
  "cancelDetachedTaskRunById = cancelTaskById"

inductive_cases cancel_children_cases: "cancel_children tids st st'"
inductive_cases cancelFlowById_cases: "cancelFlowById fid st r st'"
inductive_cases cancelFlowByIdForOwner_cases: "cancelFlowByIdForOwner fid caller st r st'"

end
