(* ===== verification/TaskExecutorProps.thy ===== *)
theory TaskExecutorProps
  imports TaskExecutor
begin

text \<open>
  What the executor promises: child tasks of flows, flows of detached runs, retries, and the
  cancellation of flows, for owners only.
\<close>

section \<open>Creation through the executor\<close>

lemma create_ok:
  assumes "assertTaskOwner (create_owner p) (create_scope p) = Inr ()"
    "assertParentFlowLinkAllowed (create_owner p) (create_scope p) (parentFlowIdT p) st = Inr ()"
  shows "\<exists>t st'. createTaskRecord env uuid p st = (Inr t, st')"
proof (cases "create_existing p st")
  case None
  with assms show ?thesis by (simp add: createTaskRecord_eq Let_def)
next
  case (Some t)
  obtain r st1 where "mergeExistingTaskForCreate env t p st = (Inr r, st1)"
    using merge_result [OF create_existing_parent [OF Some], of st env] by blast
  with assms Some show ?thesis by (simp add: createTaskRecord_eq)
qed

text \<open>A task that is created or merged without having ended is stored as it is returned.\<close>

lemma create_stored:
  assumes inv: "registry_inv st" and create: "createTaskRecord env uuid p st = (Inr t, st')"
    and s: "statusT p = Some s" "\<not> isTerminalTaskStatus s"
  shows "map_of (tasks st') (taskId t) = Some t \<and> creates_same p (create_owner p) (create_scope p) t
    \<and> (taskId t = uuid \<and> create_existing p st = None
         \<and> t = new_task_record env uuid (create_requester p) (create_scope p) (create_owner p) p
         \<and> st' = register_task env t (requesterOriginT p) st
       \<or> map_of (tasks st) (taskId t) \<noteq> None)"
proof (cases rule: createTaskRecord_cases [of env uuid p st])
  case (merge t0)
  note t0 = create_existing_found [OF inv merge(1)]
  note par = create_existing_parent [OF merge(1)]
  from merge(2) create have "mergeExistingTaskForCreate env t0 p st = (Inr t, st')" by simp
  from merge_stored [OF par t0(1) this]
  have l: "map_of (tasks st') (taskId t0) = Some t" "t = t0 \<or> t = next_task env t0 (merge_patch t0 p)"
    by simp_all
  have "creates_same p (create_owner p) (create_scope p) (next_task env t0 (merge_patch t0 p))"
    using t0(2) merge_exact_labels creates_same_exact [OF _ t0(2)]
    by (intro creates_same_next merge_patch_ok par) auto
  with l t0 show ?thesis by auto
next
  case (new t0)
  have "normalizeTaskStatus (Some s) = s" by (simp add: normalizeTaskStatus_def)
  then have "status t0 = s" using new(2) s(1) by (simp add: new_task_record_def Let_def)
  with new create s(2) have "t = t0" "st' = register_task env t (requesterOriginT p) st" by simp_all
  with new show ?thesis using creates_same_new by simp
qed (use create in simp)

lemma same_text_iff: "same_text a b \<longleftrightarrow> normalizeOptionalString a = normalizeOptionalString b"
  by (cases "normalizeOptionalString a"; cases "normalizeOptionalString b")
     (auto simp: same_text_def dest: normalizeOptionalString_SomeD)

lemma creates_same_sel:
  "creates_same p w s t \<Longrightarrow> scopeKind t = s \<and> js_trim (ownerKey t) = js_trim w \<and> runtime t = runtimeT p
     \<and> normalizeOptionalString (parentFlowId t) = normalizeOptionalString (parentFlowIdT p)"
  by (simp add: creates_same_def run_scope_match_def same_text_iff same_normal)

lemma ensureSingle_linked: "normalizeOptionalString (parentFlowId t) \<noteq> None \<Longrightarrow> ensureSingleTaskFlow env fuuid t d st = (t, st)"
  by (simp add: ensureSingleTaskFlow_def isOneTaskFlowEligible_def)

section \<open>Child tasks of managed flows\<close>

lemma flow_refuses_None:
  "flow_refuses f = None \<longleftrightarrow> syncModeF f = Sm_managed \<and> cancelRequestedAtF f = None \<and> \<not> isTerminalFlowStatus (statusF f)"
  by (simp add: flow_refuses_def)

lemma create_child:
  assumes inv: "registry_inv st" and f: "map_of (flows st) fid = Some f" "js_trim fid = fid" "fid \<noteq> ''''"
    and free: "cancelRequestedAtF f = None" "\<not> isTerminalFlowStatus (statusF f)"
    and p: "parentFlowIdT p = Some fid" "ownerKeyT p = Some (ownerKeyF f)" "scopeKindT p = Some Sk_session"
      "requesterSessionKeyT p = None" "statusT p = Some s" "\<not> isTerminalTaskStatus s"
  shows "\<exists>t st'. createTaskRecord env uuid p st = (Inr t, st') \<and> map_of (tasks st') (taskId t) = Some t
    \<and> scopeKind t = Sk_session \<and> js_trim (ownerKey t) = ownerKeyF f
    \<and> normalizeOptionalString (parentFlowId t) = Some fid"
proof -
  have wf: "js_trim (ownerKeyF f) = ownerKeyF f" "ownerKeyF f \<noteq> ''''"
    using flows_inv_lookup [of st fid f] inv f(1) by (auto simp: registry_inv_def flow_wf_def)
  then have owner: "create_owner p = ownerKeyF f" "create_scope p = Sk_session"
    using p by (simp_all add: create_owner_def create_scope_def create_requester_def
        resolveTaskRequesterSessionKey_def resolveTaskOwnerKey_def resolveTaskScopeKind_def
        normalizeOptionalString_Some)
  have a: "assertTaskOwner (create_owner p) (create_scope p) = Inr ()"
    using wf by (simp add: owner assertTaskOwner_def)
  have b: "assertParentFlowLinkAllowed (create_owner p) (create_scope p) (parentFlowIdT p) st = Inr ()"
    using p(1) f free by (simp add: owner assertParentFlowLinkAllowed_def normalizeOptionalString_Some getTaskFlowById_def)
  obtain t st' where c: "createTaskRecord env uuid p st = (Inr t, st')" using create_ok [OF a b] by blast
  note t = create_stored [OF inv c p(5,6)]
  then have "creates_same p (create_owner p) (create_scope p) t" by blast
  from creates_same_sel [OF this] c t wf p(1) f(2,3) show ?thesis
    by (auto simp: owner normalizeOptionalString_Some)
qed

text \<open>
  Child tasks: in a reachable state \<open>runTaskInFlow\<close> never throws; it creates a task exactly when
  the flow exists, is managed, is not being cancelled and has not ended; the task is then stored,
  is a session task of the owner of the flow and belongs to the flow. Otherwise it gives a reason
  and changes nothing.
\<close>

theorem run_task_in_flow_spec:
  assumes "task_reachable st" "js_trim (flowIdI p) = flowIdI p" "flowIdI p \<noteq> ''''"
  shows "case runTaskInFlow env uuid fuuid p st of (r, st') \<Rightarrow>
    (case map_of (flows st) (flowIdI p) of
       None \<Rightarrow> r = Inr flow_not_found \<and> st' = st
     | Some f \<Rightarrow>
       if syncModeF f = Sm_managed \<and> cancelRequestedAtF f = None \<and> \<not> isTerminalFlowStatus (statusF f)
       then (\<exists>x t. r = Inr x \<and> foundI x \<and> createdI x \<and> taskI x = Some t
               \<and> map_of (tasks st') (taskId t) = Some t \<and> scopeKind t = Sk_session
               \<and> js_trim (ownerKey t) = ownerKeyF f
               \<and> normalizeOptionalString (parentFlowId t) = Some (flowIdI p))
       else st' = st \<and> (\<exists>x. r = Inr x \<and> foundI x \<and> \<not> createdI x \<and> reasonI x \<noteq> None \<and> flowI x = Some f))"
proof (cases "map_of (flows st) (flowIdI p)")
  case None
  then show ?thesis by (simp add: runTaskInFlow_def getTaskFlowById_def)
next
  case (Some f)
  have inv: "registry_inv st" by (rule task_reachable_inv [OF assms(1)])
  then have fid: "flowIdF f = flowIdI p" using flows_inv_lookup [OF _ Some] by (simp add: registry_inv_def)
  show ?thesis
  proof (cases "flow_refuses f")
    case None
    then have free: "syncModeF f = Sm_managed" "cancelRequestedAtF f = None" "\<not> isTerminalFlowStatus (statusF f)"
      by (simp_all add: flow_refuses_None)
    let ?q = "if statusI p = Some St_running
      then child_params p f\<lparr>startedAtT := startedAtI p, lastEventAtT := lastEventAtI p,
             progressSummaryT := progressSummaryI p, statusT := Some St_running\<rparr>
      else child_params p f\<lparr>statusT := Some St_queued\<rparr>"
    obtain t st' where c: "createTaskRecord env uuid ?q st = (Inr t, st')"
        "map_of (tasks st') (taskId t) = Some t" "scopeKind t = Sk_session" "js_trim (ownerKey t) = ownerKeyF f"
        "normalizeOptionalString (parentFlowId t) = Some (flowIdI p)"
      using create_child [OF inv Some assms(2,3) free(2,3), where p = ?q
          and s = "if statusI p = Some St_running then St_running else St_queued"]
      by (fastforce simp: child_params_def isTerminalTaskStatus_def fid split: if_splits)
    then have "runTaskInFlow env uuid fuuid p st = (Inr \<lparr>foundI = True, createdI = True, reasonI = None,
        flowI = Some (nullish (getTaskFlowById st' (flowIdF f)) f), taskI = Some t\<rparr>, st')"
      using Some None by (simp add: runTaskInFlow_def getTaskFlowById_def Let_def createRunningTaskRun_def
          createQueuedTaskRun_def create_run_def ensureSingle_linked split: if_splits)
    with Some free c show ?thesis by simp
  next
    case (Some reason)
    then have "\<not> (syncModeF f = Sm_managed \<and> cancelRequestedAtF f = None \<and> \<not> isTerminalFlowStatus (statusF f))"
      by (metis flow_refuses_None option.discI)
    with \<open>map_of (flows st) (flowIdI p) = Some f\<close> Some show ?thesis
      by (simp add: runTaskInFlow_def getTaskFlowById_def)
  qed
qed

text \<open>A flow, and a child task for it.\<close>

definition example_child_run :: RunTaskInFlowParams where
  "example_child_run = \<lparr>flowIdI = ''f1'', runtimeI = Rt_acp, sourceIdI = None, childSessionKeyI = None,
     parentTaskIdI = None, agentIdI = None, runIdI = Some ''r5'', labelI = None, taskTextI = ''test'',
     preferMetadataI = False, notifyPolicyI = None, deliveryStatusI = None, statusI = Some St_running,
     startedAtI = Some 8, lastEventAtI = None, progressSummaryI = None\<rparr>"

theorem run_task_in_flow_spec_witness:
  "\<exists>x t. fst (runTaskInFlow (default_env 9) ''t9'' ''f9'' example_child_run example_linked) = Inr x
     \<and> createdI x \<and> taskI x = Some t \<and> normalizeOptionalString (parentFlowId t) = Some ''f1''"
proof -
  have id: "flowIdI example_child_run = ''f1''" "js_trim ''f1'' = ''f1''" by code_simp+
  have "map_option (\<lambda>f. (syncModeF f, cancelRequestedAtF f, statusF f)) (map_of (flows example_linked) ''f1'')
      = Some (Sm_managed, None, Fs_queued)" by code_simp
  then obtain f where "map_of (flows example_linked) ''f1'' = Some f" "syncModeF f = Sm_managed"
      "cancelRequestedAtF f = None" "\<not> isTerminalFlowStatus (statusF f)"
    by (auto simp: isTerminalFlowStatus_def)
  with run_task_in_flow_spec [OF example_linked_reachable, where p = example_child_run
      and env = "default_env 9" and uuid = "''t9''" and fuuid = "''f9''"] id
  show ?thesis by (auto simp: case_prod_unfold)
qed

section \<open>Retries\<close>

lemma retry_runs:
  assumes "getTaskFlowById st (flowIdB p) = Some f" "findLatestTaskForFlowId (flowIdB p) st = Some latest"
    "statusF f = Fs_blocked" "status latest = St_succeeded" "terminalOutcome latest = Some To_blocked"
  shows "retryBlockedFlowTask env uuid p st = (case createTaskRecord env uuid (retry_params p f latest) st of
      (Inl e, st1) \<Rightarrow> (Inl e, st1)
    | (Inr t, st1) \<Rightarrow> (Inr \<lparr>foundB = True, retriedB = True, reasonB = None,
                       previousTaskB = Some latest, taskB = Some t\<rparr>, st1))"
  using assms by (simp add: retryBlockedFlowTask_def resolveRetryableBlockedFlowTask_def)

lemma retry_of_cancelled_throws:
  assumes "map_of (flows st) fid = Some f" "flowIdF f = fid" "flow_wf f" "js_trim fid = fid" "fid \<noteq> ''''"
    "cancelRequestedAtF f = Some c"
  shows "createTaskRecord env uuid (retry_params p f latest) st
    = (Inl (ParentFlowLinkError cancel_requested fid (Some (statusF f))), st)"
  using assms
  by (auto simp: createTaskRecord_eq create_owner_def create_scope_def create_requester_def retry_params_def
      resolveTaskRequesterSessionKey_def resolveTaskOwnerKey_def resolveTaskScopeKind_def assertTaskOwner_def
      assertParentFlowLinkAllowed_def normalizeOptionalString_Some getTaskFlowById_def flow_wf_def)

text \<open>
  Retries: a flow is retried exactly when it is blocked and its latest task ended blocked; the new
  task is then stored, a session task of the owner of the flow that belongs to the flow. When the
  cancellation of the blocked flow has been requested the retry throws and changes nothing; in every
  other case it gives a reason and changes nothing.
\<close>

theorem retry_blocked_flow_spec:
  assumes "task_reachable st" "js_trim (flowIdB p) = flowIdB p" "flowIdB p \<noteq> ''''"
    "\<not> isTerminalTaskStatus (statusB p)"
  shows "case retryBlockedFlowTask env uuid p st of (r, st') \<Rightarrow>
    (case (map_of (flows st) (flowIdB p), findLatestTaskForFlowId (flowIdB p) st) of
       (Some f, Some latest) \<Rightarrow>
         if statusF f = Fs_blocked \<and> status latest = St_succeeded \<and> terminalOutcome latest = Some To_blocked
         then if cancelRequestedAtF f = None
              then (\<exists>x t. r = Inr x \<and> retriedB x \<and> previousTaskB x = Some latest \<and> taskB x = Some t
                      \<and> map_of (tasks st') (taskId t) = Some t \<and> scopeKind t = Sk_session
                      \<and> js_trim (ownerKey t) = ownerKeyF f
                      \<and> normalizeOptionalString (parentFlowId t) = Some (flowIdB p))
              else r = Inl (ParentFlowLinkError cancel_requested (flowIdB p) (Some Fs_blocked)) \<and> st' = st
         else st' = st \<and> (\<exists>x. r = Inr x \<and> foundB x \<and> \<not> retriedB x \<and> reasonB x \<noteq> None)
     | (Some f, None) \<Rightarrow> st' = st \<and> (\<exists>x. r = Inr x \<and> foundB x \<and> \<not> retriedB x \<and> reasonB x \<noteq> None)
     | (None, _) \<Rightarrow> st' = st \<and> (\<exists>x. r = Inr x \<and> \<not> foundB x \<and> \<not> retriedB x))"
proof -
  have inv: "registry_inv st" by (rule task_reachable_inv [OF assms(1)])
  consider (no_flow) "map_of (flows st) (flowIdB p) = None"
    | (no_task) f where "map_of (flows st) (flowIdB p) = Some f" "findLatestTaskForFlowId (flowIdB p) st = None"
    | (both) f latest where "map_of (flows st) (flowIdB p) = Some f"
        "findLatestTaskForFlowId (flowIdB p) st = Some latest"
    by (cases "map_of (flows st) (flowIdB p)"; cases "findLatestTaskForFlowId (flowIdB p) st") auto
  then show ?thesis
  proof cases
    case (both f latest)
    let ?q = "retry_params p f latest"
    have wf: "flowIdF f = flowIdB p" "flow_wf f"
      using inv flows_inv_lookup [OF _ both(1)] by (auto simp: registry_inv_def)
    show ?thesis
    proof (cases "statusF f = Fs_blocked \<and> status latest = St_succeeded \<and> terminalOutcome latest = Some To_blocked")
      case True
      then have live: "\<not> isTerminalFlowStatus (statusF f)" by (simp add: isTerminalFlowStatus_def)
      have run: "retryBlockedFlowTask env uuid p st = (case createTaskRecord env uuid ?q st of
          (Inl e, st1) \<Rightarrow> (Inl e, st1)
        | (Inr t, st1) \<Rightarrow> (Inr \<lparr>foundB = True, retriedB = True, reasonB = None,
                           previousTaskB = Some latest, taskB = Some t\<rparr>, st1))"
        using both True by (intro retry_runs) (simp_all add: getTaskFlowById_def)
      show ?thesis
      proof (cases "cancelRequestedAtF f")
        case None
        obtain t st' where "createTaskRecord env uuid ?q st = (Inr t, st')"
            "map_of (tasks st') (taskId t) = Some t" "scopeKind t = Sk_session" "js_trim (ownerKey t) = ownerKeyF f"
            "normalizeOptionalString (parentFlowId t) = Some (flowIdB p)"
          using create_child [OF inv both(1) assms(2,3) None live, where p = ?q] assms(4) wf(1)
          by (fastforce simp: retry_params_def)
        with both True None run show ?thesis by simp
      next
        case (Some c)
        from retry_of_cancelled_throws [OF both(1) wf assms(2,3) Some] both True Some run
        show ?thesis by simp
      qed
    next
      case False
      with both show ?thesis
        by (auto simp: retryBlockedFlowTask_def resolveRetryableBlockedFlowTask_def getTaskFlowById_def Let_def)
    qed
  qed (simp_all add: retryBlockedFlowTask_def resolveRetryableBlockedFlowTask_def getTaskFlowById_def Let_def)
qed

text \<open>A mirrored flow whose task ended blocked.\<close>

definition example_blocked :: TaskReg where
  "example_blocked = snd (markTaskTerminalById (default_env 9) ''t1'' St_succeeded 9 None None None
     (Some (Some To_blocked)) example_mirrored)"

definition example_retry :: RetryBlockedFlowParams where
  "example_retry = \<lparr>flowIdB = ''f2'', sourceIdB = None, requesterOriginB = None, childSessionKeyB = None,
     agentIdB = None, runIdB = None, labelB = None, taskTextB = None, preferMetadataB = False,
     notifyPolicyB = None, deliveryStatusB = None, statusB = St_queued, startedAtB = None,
     lastEventAtB = None, progressSummaryB = None\<rparr>"

lemma example_blocked_reachable: "task_reachable example_blocked"
  unfolding example_blocked_def by (rule task_reachable.step [OF example_mirrored_reachable task_step.terminal_by_id])

theorem retry_blocked_flow_spec_witness:
  "\<exists>x t. fst (retryBlockedFlowTask (default_env 10) ''t9'' example_retry example_blocked) = Inr x \<and> retriedB x
     \<and> taskB x = Some t \<and> normalizeOptionalString (parentFlowId t) = Some ''f2''"
proof -
  have id: "flowIdB example_retry = ''f2''" "js_trim ''f2'' = ''f2''" "\<not> isTerminalTaskStatus (statusB example_retry)"
    by code_simp+
  have "map_option (\<lambda>f. (statusF f, cancelRequestedAtF f)) (map_of (flows example_blocked) ''f2'') = Some (Fs_blocked, None)"
    "map_option (\<lambda>t. (status t, terminalOutcome t)) (findLatestTaskForFlowId ''f2'' example_blocked)
       = Some (St_succeeded, Some To_blocked)"
    by code_simp+
  then obtain f t where "map_of (flows example_blocked) ''f2'' = Some f" "statusF f = Fs_blocked"
      "cancelRequestedAtF f = None" "findLatestTaskForFlowId ''f2'' example_blocked = Some t"
      "status t = St_succeeded" "terminalOutcome t = Some To_blocked"
    by auto
  with retry_blocked_flow_spec [OF example_blocked_reachable, where p = example_retry and env = "default_env 10"
      and uuid = "''t9''"] id
  show ?thesis by (auto simp: case_prod_unfold)
qed

section \<open>Owners only\<close>

text \<open>
  A caller that does not own a flow can neither run a task in it nor cancel it: both operations
  answer as if the flow did not exist and change nothing.
\<close>

theorem foreign_callers_change_nothing:
  assumes "map_of (flows st) fid = Some f" "js_trim (ownerKeyF f) \<noteq> js_trim caller"
  shows "runTaskInFlowForOwner env uuid fuuid caller (p\<lparr>flowIdI := fid\<rparr>) st = (Inr flow_not_found, st)
    \<and> {(r, st'). cancelFlowByIdForOwner fid caller st r st'}
        = {(Inr \<lparr>foundL = False, cancelledL = False, reasonL = Some ''Flow not found.'', flowL = None,
             tasksL = None\<rparr>, st)}"
proof -
  have "getTaskFlowByIdForOwner fid caller st = None"
    using assms by (simp add: getTaskFlowByIdForOwner_def getTaskFlowById_def same_normal)
  then show ?thesis
    by (auto simp: runTaskInFlowForOwner_def elim: cancelFlowByIdForOwner_cases intro: cancelFlowByIdForOwner.refused)
qed

theorem foreign_callers_change_nothing_witness:
  "runTaskInFlowForOwner (default_env 9) ''t9'' ''f9'' ''agent:other:main'' (example_child_run\<lparr>flowIdI := ''f1''\<rparr>)
     example_linked = (Inr flow_not_found, example_linked)"
proof -
  obtain f where f: "map_of (flows example_linked) ''f1'' = Some f" "ownerKeyF f = ''agent:main:main''"
    using example_linked_lookup by auto
  have "js_trim ''agent:main:main'' \<noteq> js_trim ''agent:other:main''" by code_simp
  with foreign_callers_change_nothing [OF f(1), of "''agent:other:main''"] f(2) show ?thesis by simp
qed

section \<open>Flows of detached runs\<close>

lemma createTaskFlowForTask_running:
  assumes "normalizeOptionalString (Some (ownerKey t)) \<noteq> None" "isActiveTaskStatus (status t)"
  shows "\<exists>f. createTaskFlowForTask env fuuid t d st = (Inr f, snd (writeFlowRecord f st)) \<and> flowIdF f = fuuid
    \<and> syncModeF f = Sm_task_mirrored \<and> ownerKeyF f = js_trim (ownerKey t) \<and> cancelRequestedAtF f = None
    \<and> statusF f = deriveTaskFlowStatusFromTask t"
  using assms
  by (auto simp: createTaskFlowForTask_def createFlowRecord_def buildFlowRecord_def Let_def assertFlowOwnerKey_def
      normalizeOptionalString_Some writeFlowRecord_def split: if_splits)

lemma link_new_flow:
  assumes inv: "flows_inv st" and t: "map_of (tasks st) tid = Some t" "parentFlowId t = None" "scopeKind t = Sk_session"
      "isActiveTaskStatus (status t)"
    and f: "map_of (flows st) fid = Some f" "js_trim fid = fid" "fid \<noteq> ''''" "syncModeF f = Sm_task_mirrored"
      "js_trim (ownerKeyF f) = js_trim (ownerKey t)" "cancelRequestedAtF f = None"
      "statusF f = deriveTaskFlowStatusFromTask t"
  shows "\<exists>st'. linkTaskToFlowById env tid fid st = (Inr (Some (next_task env t (link_patch fid))), st')
    \<and> map_of (tasks st') tid = Some (next_task env t (link_patch fid))
    \<and> (\<exists>f'. map_of (flows st') fid = Some f' \<and> syncModeF f' = Sm_task_mirrored \<and> ownerKeyF f' = ownerKeyF f
         \<and> statusF f' = deriveTaskFlowStatusFromTask t \<and> notifyPolicyF f' = notifyPolicy t \<and> endedAtF f' = None)"
proof -
  let ?n = "next_task env t (link_patch fid)"
  have live: "\<not> isTerminalFlowStatus (statusF f)"
    using t(4) by (auto simp: f(7) isActiveTaskStatus_def isTerminalFlowStatus_def deriveTaskFlowStatusFromTask_def)
  have "assertParentFlowLinkAllowed (ownerKey t) (scopeKind t) (Some fid) st = Inr ()"
    using f t(3) live by (simp add: assertParentFlowLinkAllowed_def getTaskFlowById_def normalizeOptionalString_Some)
  then have link: "linkTaskToFlowById env tid fid st
      = (Inr (Some ?n), snd (updateTask env tid (link_patch fid) st))"
    using t f(2,3) updateTask_fst [of env tid "link_patch fid" st]
    by (simp add: linkTaskToFlowById_def link_patch_def case_prod_unfold)
  have n: "parentFlowId ?n = Some fid" "deriveTaskFlowStatusFromTask ?n = deriveTaskFlowStatusFromTask t"
      "notifyPolicy ?n = notifyPolicy t"
    by (simp_all add: link_patch_def deriveTaskFlowStatusFromTask_def empty_patch_def)
  obtain f' where f': "map_of (flows (snd (updateTask env tid (link_patch fid) st))) fid = Some f'"
      "syncModeF f' = Sm_task_mirrored" "statusF f' = deriveTaskFlowStatusFromTask t"
      "notifyPolicyF f' = notifyPolicy t" "endedAtF f' = None"
    using updateTask_mirrors [OF inv t(1), of env "link_patch fid" fid f] f n t(4)
    by (auto simp: mirrored_flow_ended_def isActiveTaskStatus_def deriveTaskFlowStatusFromTask_def)
  moreover from flows_kept_lookup [OF updateTask_kept [OF inv] f'(1)] f(1)
  have "ownerKeyF f' = ownerKeyF f" by (auto simp: same_flow_def)
  ultimately show ?thesis using link t(1) by auto
qed

lemma create_existing_no_run:
  assumes "getTasksByRunId (nullish (runIdT p) []) st = []"
  shows "create_existing p st = None"
proof (cases "normalizeOptionalString (runIdT p)")
  case (Some r)
  then have "getTasksByRunId r st = getTasksByRunId (nullish (runIdT p) []) st"
    by (cases "runIdT p") (auto simp: getTasksByRunId_def normalizeOptionalString_Some split: if_splits)
  with assms Some show ?thesis by (simp add: create_existing_def findExistingTaskForCreate_def Let_def pickPreferredRunIdTask_None)
qed (simp add: create_existing_def findExistingTaskForCreate_def)

lemma createRunning_steps:
  assumes "createRunningTaskRun env uuid fuuid p st = (Inr t, st')"
  obtains t0 st1 where "createTaskRecord env uuid (p\<lparr>statusT := Some St_running\<rparr>) st = (Inr t0, st1)"
    "ensureSingleTaskFlow env fuuid t0 (requesterOriginT p) st1 = (t, st')"
proof (cases "createTaskRecord env uuid (p\<lparr>statusT := Some St_running\<rparr>) st")
  case (Pair r st1)
  show thesis
  proof (cases r)
    case (Inr t0)
    obtain t1 st2 where "ensureSingleTaskFlow env fuuid t0 (requesterOriginT p) st1 = (t1, st2)" by fastforce
    with Pair Inr assms show thesis
      by (intro that [of t0 st1]) (simp_all add: createRunningTaskRun_def create_run_def)
  qed (use Pair assms in \<open>simp add: createRunningTaskRun_def create_run_def\<close>)
qed

lemma create_new_running:
  assumes "createTaskRecord env uuid (p\<lparr>statusT := Some St_running\<rparr>) st = (Inr t, st')"
    "getTasksByRunId (nullish (runIdT p) []) st = []" "normalizeOptionalString (parentFlowIdT p) = None"
  shows "map_of (tasks st') uuid = Some t" "taskId t = uuid" "parentFlowId t = None" "status t = St_running"
    "runtime t = runtimeT p" "scopeKind t = Sk_session \<Longrightarrow> normalizeOptionalString (Some (ownerKey t)) \<noteq> None"
proof -
  let ?p = "p\<lparr>statusT := Some St_running\<rparr>"
  have "create_existing ?p st = None"
    using create_existing_no_run assms(2) by (simp add: create_existing_def create_owner_def create_scope_def create_requester_def)
  then have t: "map_of (tasks st') uuid = Some t" "taskId t = uuid"
      "t = new_task_record env uuid (create_requester ?p) (create_scope ?p) (create_owner ?p) ?p"
    and owner: "assertTaskOwner (create_owner ?p) (create_scope ?p) = Inr ()"
    using assms(1) by (auto simp: createTaskRecord_eq Let_def normalizeTaskStatus_def isTerminalTaskStatus_def
        new_task_record_def split: sum.splits)
  then show "map_of (tasks st') uuid = Some t" "taskId t = uuid" by blast+
  show "parentFlowId t = None" "status t = St_running" "runtime t = runtimeT p"
    using assms(3) t(3) by (simp_all add: new_task_record_def Let_def normalizeTaskStatus_def)
  have "ownerKey t = create_owner ?p" "scopeKind t = create_scope ?p"
    using t(3) by (simp_all add: new_task_record_def Let_def)
  then show "scopeKind t = Sk_session \<Longrightarrow> normalizeOptionalString (Some (ownerKey t)) \<noteq> None"
    using owner by (simp add: assertTaskOwner_def normalizeOptionalString_Some split: if_splits)
qed

text \<open>An eligible task without a flow gets a new one that follows it.\<close>

lemma ensureSingle_new_flow:
  assumes inv: "flows_inv st" and t: "map_of (tasks st) (taskId t) = Some t" "parentFlowId t = None"
      "isActiveTaskStatus (status t)" "normalizeOptionalString (Some (ownerKey t)) \<noteq> None"
    and eligible: "isOneTaskFlowEligible t" and fuuid: "js_trim fuuid = fuuid" "fuuid \<noteq> ''''"
  shows "\<exists>st' f. ensureSingleTaskFlow env fuuid t d st = (next_task env t (link_patch fuuid), st')
    \<and> map_of (tasks st') (taskId t) = Some (next_task env t (link_patch fuuid))
    \<and> map_of (flows st') fuuid = Some f \<and> syncModeF f = Sm_task_mirrored \<and> ownerKeyF f = js_trim (ownerKey t)
    \<and> statusF f = deriveTaskFlowStatusFromTask t \<and> notifyPolicyF f = notifyPolicy t \<and> endedAtF f = None"
proof -
  obtain f where f: "createTaskFlowForTask env fuuid t d st = (Inr f, snd (writeFlowRecord f st))"
      "flowIdF f = fuuid" "syncModeF f = Sm_task_mirrored" "ownerKeyF f = js_trim (ownerKey t)"
      "cancelRequestedAtF f = None" "statusF f = deriveTaskFlowStatusFromTask t"
    using createTaskFlowForTask_running [OF t(4,3)] by blast
  let ?st2 = "snd (writeFlowRecord f st)"
  have inv2: "flows_inv ?st2" using createTaskFlowForTask_inv [OF inv] f(1) by (metis snd_conv)
  have l2: "map_of (tasks ?st2) (taskId t) = Some t" "map_of (flows ?st2) fuuid = Some f"
    using t(1) f(2) same_more(1) [OF writeFlowRecord_more] by (simp_all add: writeFlowRecord_def persistFlowUpsert_def)
  have scope: "scopeKind t = Sk_session" using eligible by (simp add: isOneTaskFlowEligible_def)
  from link_new_flow [where env = env, OF inv2 l2(1) t(2) scope t(3) l2(2) fuuid f(3) _ f(5,6)] f(4) obtain st3 f' where
    st3: "linkTaskToFlowById env (taskId t) fuuid ?st2 = (Inr (Some (next_task env t (link_patch fuuid))), st3)"
      "map_of (tasks st3) (taskId t) = Some (next_task env t (link_patch fuuid))"
      "map_of (flows st3) fuuid = Some f'" "syncModeF f' = Sm_task_mirrored" "ownerKeyF f' = ownerKeyF f"
      "statusF f' = deriveTaskFlowStatusFromTask t" "notifyPolicyF f' = notifyPolicy t" "endedAtF f' = None"
    by auto
  have "parentFlowId (next_task env t (link_patch fuuid)) = Some fuuid" by (simp add: link_patch_def)
  then have "ensureSingleTaskFlow env fuuid t d st = (next_task env t (link_patch fuuid), st3)"
    using eligible f(1,2) st3(1) by (simp add: ensureSingleTaskFlow_def)
  with st3 f(4) show ?thesis by auto
qed

text \<open>
  A detached run has a flow of its own: when \<open>createRunningTaskRun\<close> makes a new session task of the
  ACP or the subagent runtime that is to be delivered and names no parent flow, the task it returns
  is stored and linked to a new mirrored flow that runs, has the owner and the notification policy
  of the task, and has not ended.
\<close>

theorem detached_run_gets_flow:
  assumes "task_reachable st" "uuid \<notin> fst ` set (tasks st)" "fuuid \<notin> fst ` set (flows st)"
    "js_trim fuuid = fuuid" "fuuid \<noteq> ''''"
    and run: "createRunningTaskRun env uuid fuuid p st = (Inr t, st')" "getTasksByRunId (nullish (runIdT p) []) st = []"
    and p: "runtimeT p = Rt_acp \<or> runtimeT p = Rt_subagent" "normalizeOptionalString (parentFlowIdT p) = None"
    and t: "scopeKind t = Sk_session" "deliveryStatus t \<noteq> Ds_not_applicable"
  shows "map_of (tasks st') uuid = Some t \<and> parentFlowId t = Some fuuid \<and> status t = St_running
    \<and> (\<exists>f. map_of (flows st') fuuid = Some f \<and> syncModeF f = Sm_task_mirrored \<and> statusF f = Fs_running
         \<and> ownerKeyF f = js_trim (ownerKey t) \<and> notifyPolicyF f = notifyPolicy t \<and> endedAtF f = None)"
proof -
  obtain t0 st1 where c: "createTaskRecord env uuid (p\<lparr>statusT := Some St_running\<rparr>) st = (Inr t0, st1)"
      "ensureSingleTaskFlow env fuuid t0 (requesterOriginT p) st1 = (t, st')"
    by (rule createRunning_steps [OF run(1)])
  note new = create_new_running [OF c(1) run(2) p(2)]
  have act: "isActiveTaskStatus (status t0)" using new(4) by (simp add: isActiveTaskStatus_def)
  show ?thesis
  proof (cases "isOneTaskFlowEligible t0")
    case False
    then have "t = t0" using c(2) by (simp add: ensureSingleTaskFlow_def)
    with False t p(1) new(3,5) show ?thesis by (simp add: isOneTaskFlowEligible_def)
  next
    case True
    then have owner: "normalizeOptionalString (Some (ownerKey t0)) \<noteq> None"
      using new(6) by (simp add: isOneTaskFlowEligible_def)
    have "task_reachable st1" using task_reachable.step [OF assms(1) task_step.create [OF assms(2)]] c(1) by (metis snd_conv)
    then have inv: "flows_inv st1" using task_reachable_inv by (auto simp: registry_inv_def)
    from new(1,2) have "map_of (tasks st1) (taskId t0) = Some t0" by simp
    from ensureSingle_new_flow [OF inv this new(3) act owner True assms(4,5), of env "requesterOriginT p"] c(2) new(2,4)
    show ?thesis by (auto simp: link_patch_def deriveTaskFlowStatusFromTask_def)
  qed
qed

theorem detached_run_gets_flow_witness:
  "\<exists>t. fst (createRunningTaskRun (default_env 7) ''t1'' ''f1'' (example_create\<lparr>runtimeT := Rt_acp\<rparr>) boot_tasks) = Inr t
     \<and> parentFlowId t = Some ''f1''"
proof -
  let ?p = "example_create\<lparr>runtimeT := Rt_acp\<rparr>"
  let ?r = "createRunningTaskRun (default_env 7) ''t1'' ''f1'' ?p boot_tasks"
  have "case fst ?r of Inl _ \<Rightarrow> False | Inr t \<Rightarrow> scopeKind t = Sk_session \<and> deliveryStatus t = Ds_pending" by code_simp
  then obtain t where t: "?r = (Inr t, snd ?r)" "scopeKind t = Sk_session" "deliveryStatus t \<noteq> Ds_not_applicable"
    by (cases ?r) (auto split: sum.splits)
  have "js_trim ''f1'' = ''f1''" "getTasksByRunId (nullish (runIdT ?p) []) boot_tasks = []"
    "normalizeOptionalString (parentFlowIdT ?p) = None" by code_simp+
  moreover have "''t1'' \<notin> fst ` set (tasks boot_tasks)" "''f1'' \<notin> fst ` set (flows boot_tasks)"
    "runtimeT ?p = Rt_acp \<or> runtimeT ?p = Rt_subagent"
    by (simp_all add: boot_tasks_sel)
  ultimately have "parentFlowId t = Some ''f1''"
    using detached_run_gets_flow [OF task_reachable.start, where uuid = "''t1''" and fuuid = "''f1''" and p = ?p
      and env = "default_env 7" and t = t and st' = "snd ?r"] t by blast
  moreover have "fst ?r = Inr t" using t(1) by (metis fst_conv)
  ultimately show ?thesis by blast
qed

text \<open>
  Repeating such a run does not find the task of the first call, which by then belongs to its own
  flow: the very same parameters make a second task and a second flow for the run, although
  creation through \<open>createTaskRecord\<close> alone would have found the first one.
\<close>

lemma repeated_acp_run_duplicates:
  "let p = example_create\<lparr>runtimeT := Rt_acp\<rparr>;
       st1 = snd (createRunningTaskRun (default_env 7) ''t1'' ''f1'' p boot_tasks);
       st2 = snd (createRunningTaskRun (default_env 8) ''t2'' ''f2'' p st1)
   in map fst (tasks st2) = [''t1'', ''t2''] \<and> map fst (flows st2) = [''f1'', ''f2'']
      \<and> map (runId \<circ> snd) (tasks st2) = [Some ''r1'', Some ''r1'']"
  by code_simp

section \<open>Cancelling flows\<close>

lemma updateExpected_total:
  assumes "flows_inv st" "controllerIdFP p = None"
  shows "\<exists>r. fst (updateFlowRecordByIdExpectedRevision env fid n p st) = Inr r"
proof (cases "map_of (flows st) fid")
  case (Some f)
  then obtain f' where "applyFlowPatch env f p = Inr f'"
    using applyFlowPatch_total [OF _ assms(2)] flows_inv_lookup [OF assms(1)] by blast
  with Some show ?thesis
    by (cases "revisionF f = n") (simp_all add: updateFlowRecordByIdExpectedRevision_def case_prod_unfold)
qed (simp add: updateFlowRecordByIdExpectedRevision_def)

lemma updateExpected_reachable:
  assumes "task_reachable st"
  shows "task_reachable (snd (updateFlowRecordByIdExpectedRevision env fid n p st))"
proof -
  let ?st' = "snd (updateFlowRecordByIdExpectedRevision env fid n p st)"
  have "flows_inv st" using task_reachable_inv [OF assms] by (simp add: registry_inv_def)
  then have "flows_kept st ?st'" by (rule updateExpected_kept)
  then have "set (map fst (flows ?st')) \<subseteq> set (map fst (flows st))"
    by (metis (no_types, lifting) flows_kept_lookup map_of_eq_None_iff not_Some_eq set_map subsetI)
  then have "new_flows_unused st ?st'" by (auto simp: new_flows_unused_def)
  then show ?thesis by (rule task_reachable.step [OF assms task_step.flow [OF flow_step.update]])
qed

lemma steps_reachable: "task_step\<^sup>*\<^sup>* st st' \<Longrightarrow> task_reachable st \<Longrightarrow> task_reachable st'"
  by (induction rule: rtranclp_induct) (auto intro: task_reachable.step)

lemma cancel_children_reachable: "cancel_children tids st st' \<Longrightarrow> task_reachable st \<Longrightarrow> task_reachable st'"
proof (induction rule: cancel_children.induct)
  case (cancel env tid st st1 tids st2)
  then show ?case
    using steps_reachable [OF cancel.hyps(1)] task_reachable.step [OF _ task_step.cancel] by blast
qed

text \<open>What the part before the awaits leaves: a flow that has not ended, with its cancellation requested.\<close>

lemma cancelFlow_start:
  assumes reach: "task_reachable st" and start: "cancelFlowById_start env fid st = (r, st1)"
  shows "task_reachable st1"
    and "case r of Inl e \<Rightarrow> False
      | Inr (Inl x) \<Rightarrow> \<not> cancelledL x \<and> reasonL x \<noteq> None \<and> (foundL x \<longleftrightarrow> map_of (flows st) fid \<noteq> None)
      | Inr (Inr (f, tids)) \<Rightarrow> flowIdF f = fid \<and> \<not> isTerminalFlowStatus (statusF f)
          \<and> cancelRequestedAtF f \<noteq> None \<and> map_of (flows st) fid \<noteq> None \<and> map_of (flows st1) fid = Some f"
proof -
  have inv: "flows_inv st" using task_reachable_inv [OF reach] by (simp add: registry_inv_def)
  have "task_reachable st1 \<and> (case r of Inl e \<Rightarrow> False
      | Inr (Inl x) \<Rightarrow> \<not> cancelledL x \<and> reasonL x \<noteq> None \<and> (foundL x \<longleftrightarrow> map_of (flows st) fid \<noteq> None)
      | Inr (Inr (f, tids)) \<Rightarrow> flowIdF f = fid \<and> \<not> isTerminalFlowStatus (statusF f)
          \<and> cancelRequestedAtF f \<noteq> None \<and> map_of (flows st) fid \<noteq> None \<and> map_of (flows st1) fid = Some f)"
  proof (cases "map_of (flows st) fid")
    case None
    with start reach show ?thesis by (auto simp: cancelFlowById_start_def getTaskFlowById_def)
  next
    case (Some f)
    then have wf: "flow_wf f" "flowIdF f = fid" using flows_inv_lookup [OF inv] by blast+
    show ?thesis
    proof (cases "isTerminalFlowStatus (statusF f) \<or> cancelRequestedAtF f \<noteq> None")
      case True
      with start reach Some wf show ?thesis
        by (auto simp: cancelFlowById_start_def getTaskFlowById_def markFlowCancelRequested_def split: if_splits)
    next
      case False
      let ?p = "empty_flow_patch\<lparr>cancelRequestedAtFP := Some (Some (date_now env)), updatedAtFP := None\<rparr>"
      obtain f' where f': "applyFlowPatch env f ?p = Inr f'"
        using applyFlowPatch_total [OF wf(1), of ?p env] by (auto simp: empty_flow_patch_def)
      have sel: "statusF f' = statusF f" "flowIdF f' = fid" "cancelRequestedAtF f' \<noteq> None"
        using f' wf(2) by (auto simp: applyFlowPatch_def empty_flow_patch_def Let_def patched_def split: sum.splits)
      have u: "requestFlowCancel env fid (revisionF f) None None st = (Inr (FlowApplied f'), snd (writeFlowRecord f' st))"
        using Some f' by (simp add: requestFlowCancel_def updateFlowRecordByIdExpectedRevision_def case_prod_unfold
            orElse_simps writeFlowRecord_def)
      have "task_reachable (snd (requestFlowCancel env fid (revisionF f) None None st))"
        unfolding requestFlowCancel_def by (rule updateExpected_reachable [OF reach])
      with start u Some False wf sel show ?thesis
        by (auto simp: cancelFlowById_start_def getTaskFlowById_def markFlowCancelRequested_def update_failure_def
            writeFlowRecord_def persistFlowUpsert_def)
    qed
  qed
  then show "task_reachable st1" and "case r of Inl e \<Rightarrow> False
      | Inr (Inl x) \<Rightarrow> \<not> cancelledL x \<and> reasonL x \<noteq> None \<and> (foundL x \<longleftrightarrow> map_of (flows st) fid \<noteq> None)
      | Inr (Inr (f, tids)) \<Rightarrow> flowIdF f = fid \<and> \<not> isTerminalFlowStatus (statusF f)
          \<and> cancelRequestedAtF f \<noteq> None \<and> map_of (flows st) fid \<noteq> None \<and> map_of (flows st1) fid = Some f"
    by blast+
qed

abbreviation no_active_task :: "string \<Rightarrow> TaskReg \<Rightarrow> bool" where
  "no_active_task fid st \<equiv> \<forall>k t. map_of (tasks st) k = Some t \<longrightarrow>
     normalizeOptionalString (parentFlowId t) = Some fid \<longrightarrow> \<not> isActiveTaskStatus (status t)"

lemma flow_tasks_inactive:
  assumes "registry_inv st" "js_trim fid = fid" "fid \<noteq> ''''"
  shows "filter (\<lambda>t. isActiveTaskStatus (status t)) (listTasksForFlowId fid st) = [] \<longleftrightarrow> no_active_task fid st"
proof -
  have key: "map_option js_trim s = Some fid \<longleftrightarrow> normalizeOptionalString s = Some fid" for s
    using assms(3) by (cases s) (auto simp: normalizeOptionalString_Some)
  show ?thesis
    unfolding filter_empty_conv set_task_lists(2) [OF assms(1)] assms(2) key using assms(3) by blast
qed

lemma cancelFlow_finish:
  assumes reach: "task_reachable st" and fid: "flowIdF f = fid" "js_trim fid = fid" "fid \<noteq> ''''"
    and live: "\<not> isTerminalFlowStatus (statusF f)"
    and fin: "cancelFlowById_finish env f st = (r, st')"
  shows "task_reachable st' \<and> (\<exists>x. r = Inr x \<and> foundL x \<and> (\<not> cancelledL x \<longrightarrow> reasonL x \<noteq> None)
    \<and> (cancelledL x \<longrightarrow> no_active_task fid st'
         \<and> (\<exists>g. map_of (flows st') fid = Some g \<and> flowL x = Some g \<and> statusF g = Fs_cancelled)))"
proof -
  have inv: "registry_inv st" by (rule task_reachable_inv [OF reach])
  then have finv: "flows_inv st" by (simp add: registry_inv_def)
  have r: "r = fst (cancelFlowById_finish env f st)" "st' = snd (cancelFlowById_finish env f st)"
    using fin by simp_all
  define g where "g = nullish (map_of (flows st) fid) f"
  define p where "p = empty_flow_patch\<lparr>statusFP := Some Fs_cancelled, blockedTaskIdFP := Some None, blockedSummaryFP := Some None,
      waitJsonFP := Some JNull, endedAtFP := Some (Some (date_now env)), updatedAtFP := Some (date_now env)\<rparr>"
  define n where "n = length (filter (\<lambda>t. isActiveTaskStatus (status t)) (listTasksForFlowId fid st))"
  have n: "n = 0 \<longleftrightarrow> no_active_task fid st"
    unfolding n_def length_0_conv by (rule flow_tasks_inactive [OF inv fid(2,3)])
  have finish: "cancelFlowById_finish env f st =
     (if n > 0
      then (Inr \<lparr>foundL = True, cancelledL = False,
              reasonL = Some ''One or more child tasks are still active.'', flowL = Some g,
              tasksL = Some (listTasksForFlowId fid st)\<rparr>, st)
      else if isTerminalFlowStatus (statusF g)
      then (Inr \<lparr>foundL = True, cancelledL = statusF g = Fs_cancelled,
              reasonL = (if statusF g = Fs_cancelled then None
                         else Some (already_ended (flow_status_text (statusF g)))),
              flowL = Some g, tasksL = Some (listTasksForFlowId fid st)\<rparr>, st)
      else case (case updateFlowRecordByIdExpectedRevision env (flowIdF g) (revisionF g) p st of
               (Inl e, st1) \<Rightarrow> (Inl e, st1)
             | (Inr r, st1) \<Rightarrow> (Inr (update_failure (flowIdF g) st1 r), st1)) of
             (Inl e, st1) \<Rightarrow> (Inl e, st1)
           | (Inr (Inl failure), st1) \<Rightarrow>
               (Inr \<lparr>foundL = True, cancelledL = False, reasonL = Some (reasonU failure),
                  flowL = flowU failure, tasksL = Some (listTasksForFlowId fid st)\<rparr>, st1)
           | (Inr (Inr updated), st1) \<Rightarrow>
               (Inr \<lparr>foundL = True, cancelledL = True, reasonL = None, flowL = Some updated,
                  tasksL = Some (listTasksForFlowId fid st)\<rparr>, st1))"
    by (simp only: cancelFlowById_finish_def Let_def fid(1) getTaskFlowById_def n_def g_def p_def
        cancelManagedFlowAfterChildrenSettle_def)
  have g: "flowIdF g = fid" using flows_inv_lookup [OF finv] fid(1) by (cases "map_of (flows st) fid") (auto simp: g_def)
  consider (active) "\<not> no_active_task fid st"
    | (ended) "no_active_task fid st" "isTerminalFlowStatus (statusF g)"
    | (update) "no_active_task fid st" "\<not> isTerminalFlowStatus (statusF g)" by blast
  then show ?thesis
  proof cases
    case active
    then have "n > 0" using n by blast
    then have "st' = st" "\<exists>x. r = Inr x \<and> foundL x \<and> \<not> cancelledL x \<and> reasonL x \<noteq> None"
      by (simp_all add: r finish)
    with reach show ?thesis by blast
  next
    case ended
    then have "n = 0" using n by blast
    moreover from ended(2) live have "map_of (flows st) fid \<noteq> None"
      by (cases "map_of (flows st) fid") (simp_all add: g_def)
    then have "map_of (flows st) fid = Some g" by (auto simp: g_def)
    ultimately have "st' = st" "\<exists>x. r = Inr x \<and> foundL x \<and> (\<not> cancelledL x \<longrightarrow> reasonL x \<noteq> None)
        \<and> (cancelledL x \<longrightarrow> map_of (flows st) fid = Some g \<and> flowL x = Some g \<and> statusF g = Fs_cancelled)"
      using ended(2) by (simp_all add: r finish)
    with reach ended(1) show ?thesis by blast
  next
    case update
    then have none: "n = 0" using n by blast
    obtain u st1 where u: "updateFlowRecordByIdExpectedRevision env fid (revisionF g) p st = (Inr u, st1)"
      using updateExpected_total [OF finv, of p env fid "revisionF g"]
      by (cases "updateFlowRecordByIdExpectedRevision env fid (revisionF g) p st") (auto simp: p_def empty_flow_patch_def)
    then have st1: "st1 = snd (updateFlowRecordByIdExpectedRevision env fid (revisionF g) p st)" by simp
    then have reach1: "task_reachable st1" using updateExpected_reachable [OF reach] by simp
    have same: "tasks st1 = tasks st" unfolding st1 by (rule same_more(1) [OF updateExpected_more])
    have fin': "r = (case update_failure fid st1 u of
          Inl failure \<Rightarrow> Inr \<lparr>foundL = True, cancelledL = False, reasonL = Some (reasonU failure), flowL = flowU failure,
            tasksL = Some (listTasksForFlowId fid st)\<rparr>
        | Inr upd \<Rightarrow> Inr \<lparr>foundL = True, cancelledL = True, reasonL = None, flowL = Some upd,
            tasksL = Some (listTasksForFlowId fid st)\<rparr>) \<and> st' = st1"
      using none update(2) by (simp add: r finish g u split: sum.splits)
    show ?thesis
    proof (cases u)
      case (FlowApplied h)
      then obtain h0 where h: "map_of (flows st) fid = Some h0" "revisionF h0 = revisionF g"
          "applyFlowPatch env h0 p = Inr h"
        using u updateExpected_applied [of env fid "revisionF g" p st h] by auto
      have "flowIdF h = fid" using applyFlowPatch_wf [OF h(3)] flows_inv_lookup [OF finv h(1)] by simp
      moreover have canc: "statusF h = Fs_cancelled"
        using h(3) by (auto simp: p_def applyFlowPatch_def Let_def split: sum.splits)
      moreover have "st1 = snd (writeFlowRecord h st)" unfolding st1 by (rule updateExpected_snd [OF h])
      ultimately have "map_of (flows st1) fid = Some h" by (simp add: writeFlowRecord_def persistFlowUpsert_def)
      moreover have "no_active_task fid st1" using update(1) by (simp only: same)
      moreover have "r = Inr \<lparr>foundL = True, cancelledL = True, reasonL = None, flowL = Some h,
            tasksL = Some (listTasksForFlowId fid st)\<rparr>" "st' = st1"
        using fin' by (simp_all add: FlowApplied update_failure_def)
      ultimately show ?thesis using reach1 canc by (metis CancelFlowResult.select_convs(1,2,4))
    qed (use fin' reach1 in \<open>simp_all add: update_failure_def\<close>)
  qed
qed

text \<open>
  C10. Cancelling a flow: started in a reachable state, whatever else runs during its awaits, it never
  throws; it reports whether the flow existed; and when it reports that the flow is cancelled then
  the flow is stored as cancelled and no task of it is active, and otherwise it gives a reason.
\<close>

theorem cancel_flow_outcome:
  assumes "task_reachable st" "js_trim fid = fid" "fid \<noteq> ''''" "cancelFlowById fid st res st'"
  shows "task_reachable st' \<and> (\<exists>x. res = Inr x \<and> (foundL x \<longleftrightarrow> map_of (flows st) fid \<noteq> None)
    \<and> (\<not> cancelledL x \<longrightarrow> reasonL x \<noteq> None)
    \<and> (cancelledL x \<longrightarrow> no_active_task fid st'
         \<and> (\<exists>g. map_of (flows st') fid = Some g \<and> flowL x = Some g \<and> statusF g = Fs_cancelled)))"
  using assms(4)
proof cases
  case (throws env e)
  then show ?thesis using cancelFlow_start [OF assms(1)] by fastforce
next
  case (at_once env x)
  from cancelFlow_start [OF assms(1) at_once(2)] at_once(1) show ?thesis by auto
next
  case (awaited env f tids st1 st2 env')
  from cancelFlow_start [OF assms(1) awaited(1)]
  have s: "task_reachable st1" "flowIdF f = fid" "\<not> isTerminalFlowStatus (statusF f)" "map_of (flows st) fid \<noteq> None"
    by simp_all
  have "task_reachable st2" by (rule cancel_children_reachable [OF awaited(2) s(1)])
  from cancelFlow_finish [OF this s(2) assms(2,3) s(3) awaited(3)] s(4) show ?thesis by auto
qed

theorem cancel_flow_outcome_witness:
  "\<exists>x st'. cancelFlowById ''f1'' example_linked (Inr x) st' \<and> cancelledL x
     \<and> (\<exists>g. map_of (flows st') ''f1'' = Some g \<and> statusF g = Fs_cancelled)"
proof -
  let ?start = "cancelFlowById_start (default_env 8) ''f1'' example_linked"
  let ?finish = "\<lambda>f. cancelFlowById_finish (default_env 10) f (snd (cancelTaskById (default_env 9) ''t1'' (snd ?start)))"
  have "case fst ?start of Inr (Inr (f, tids)) \<Rightarrow> tids = [''t1''] | _ \<Rightarrow> False"
    "case fst ?start of Inr (Inr (f, _)) \<Rightarrow> (case fst (?finish f) of Inr x \<Rightarrow> cancelledL x | _ \<Rightarrow> False) | _ \<Rightarrow> False"
    by code_simp+
  then obtain f x where r: "fst ?start = Inr (Inr (f, [''t1'']))" "fst (?finish f) = Inr x" "cancelledL x"
    by (auto split: sum.splits)
  obtain st1 where st1: "?start = (Inr (Inr (f, [''t1''])), st1)" using r(1) by (metis prod.collapse)
  with r(2) obtain st3 where run: "cancelFlowById_start (default_env 8) ''f1'' example_linked = (Inr (Inr (f, [''t1''])), st1)"
      "cancelFlowById_finish (default_env 10) f (snd (cancelTaskById (default_env 9) ''t1'' st1)) = (Inr x, st3)"
    by (metis prod.collapse snd_conv)
  have "cancel_children [''t1''] st1 (snd (cancelTaskById (default_env 9) ''t1'' st1))"
    by (rule cancel_children.cancel [OF rtranclp.rtrancl_refl cancel_children.none])
  from cancelFlowById.awaited [OF run(1) this run(2)] have c: "cancelFlowById ''f1'' example_linked (Inr x) st3" .
  have "js_trim ''f1'' = ''f1''" by code_simp
  from cancel_flow_outcome [OF example_linked_reachable this _ c] r(3) c show ?thesis by auto
qed

end
