(* ===== verification/TaskMaintenance.thy ===== *)
theory TaskMaintenance
  imports TaskExecutorProps
begin

text \<open>
  The sweeps that keep the registries small: \<open>task-registry.maintenance.ts\<close> and
  \<open>task-flow-registry.maintenance.ts\<close>, and \<open>sessions/session-chat-type-shared.ts\<close>, which the first one
  consults. The runtime the source lets be replaced (\<open>TaskRegistryMaintenanceRuntime\<close>) is a record of
  functions: session stores, ACP sessions, cron jobs and run contexts are asked through it.
\<close>

section \<open>The chat type of a session key\<close>

datatype SessionKeyChatType = Chat_direct | Chat_group | Chat_channel | Chat_unknown

definition ends_with :: "string \<Rightarrow> string \<Rightarrow> bool" where
  "ends_with suffix s \<longleftrightarrow> starts_with (rev suffix) (rev s)"

definition without_suffix :: "string \<Rightarrow> string \<Rightarrow> string" where
  "without_suffix suffix s = take (length s - length suffix) s"

text \<open>The four regular expressions, in order.\<close>

definition legacy_group_key :: "string \<Rightarrow> bool" where
  "legacy_group_key s = (case split_on (CHR '':'') s of
     [a, b] \<Rightarrow> a = ''group'' \<and> b \<noteq> [] | _ \<Rightarrow> False)"

definition numeric_group_key :: "string \<Rightarrow> bool" where
  "numeric_group_key s \<longleftrightarrow> ends_with ''@g.us'' s
     \<and> list_all (\<lambda>part. part \<noteq> [] \<and> list_all ascii_digit part)
         (split_on (CHR ''-'') (without_suffix ''@g.us'' s))"

definition whatsapp_group_key :: "string \<Rightarrow> bool" where
  "whatsapp_group_key s \<longleftrightarrow> starts_with ''whatsapp:'' s
     \<and> (let rest = drop (length ''whatsapp:'') s
        in \<not> js_includes rest '':group:'' \<and> ends_with ''@g.us'' rest
           \<and> length rest > length ''@g.us'' \<and> CHR 0x0A \<notin> set rest \<and> CHR 0x0D \<notin> set rest)"

definition discord_channel_key :: "string \<Rightarrow> bool" where
  "discord_channel_key s =
     (let tail_ok = (\<lambda>g c. starts_with ''guild-'' g \<and> length g > length ''guild-''
            \<and> starts_with ''channel-'' c \<and> length c > length ''channel-'')
      in case split_on (CHR '':'') s of
           [d, g, c] \<Rightarrow> d = ''discord'' \<and> tail_ok g c
         | [d, x, g, c] \<Rightarrow> d = ''discord'' \<and> x \<noteq> [] \<and> tail_ok g c
         | _ \<Rightarrow> False)"

definition deriveBuiltInLegacySessionChatType :: "string \<Rightarrow> SessionKeyChatType option" where
  "deriveBuiltInLegacySessionChatType s =
     (if legacy_group_key s then Some Chat_group
      else if numeric_group_key s then Some Chat_group
      else if whatsapp_group_key s then Some Chat_group
      else if discord_channel_key s then Some Chat_channel
      else None)"

fun first_derived :: "(string \<Rightarrow> SessionKeyChatType option) list \<Rightarrow> string \<Rightarrow> SessionKeyChatType" where
  "first_derived [] s = Chat_unknown"
| "first_derived (f # fs) s = (case f s of Some c \<Rightarrow> c | None \<Rightarrow> first_derived fs s)"

definition deriveSessionChatTypeFromScopedKey ::
    "string \<Rightarrow> (string \<Rightarrow> SessionKeyChatType option) list \<Rightarrow> SessionKeyChatType" where
  "deriveSessionChatTypeFromScopedKey scoped legacy =
     (let tokens = filter (\<lambda>x. x \<noteq> []) (split_on (CHR '':'') scoped)
      in if ''group'' \<in> set tokens then Chat_group
         else if ''channel'' \<in> set tokens then Chat_channel
         else if ''direct'' \<in> set tokens \<or> ''dm'' \<in> set tokens then Chat_direct
         else case deriveBuiltInLegacySessionChatType scoped of Some c \<Rightarrow> c
            | None \<Rightarrow> first_derived legacy scoped)"

definition deriveSessionChatTypeFromKey ::
    "string option \<Rightarrow> (string \<Rightarrow> SessionKeyChatType option) list \<Rightarrow> SessionKeyChatType" where
  "deriveSessionChatTypeFromKey key legacy =
     (let raw = normalizeLowercaseStringOrEmpty key
      in if raw = [] then Chat_unknown
         else deriveSessionChatTypeFromScopedKey
                (nullish (map_option parsedRest (parseAgentSessionKey (Some raw))) raw) legacy)"

section \<open>The runtime of the sweep\<close>

text \<open>An entry of a session store matters only by being truthy.\<close>

type_synonym SessionStore = "(string \<times> bool) list"

record AcpSessionEntry =
  storeReadFailed :: bool
  entryPresent :: bool

record TaskRegistryMaintenanceRuntime =
  readAcpSessionEntry :: "string \<Rightarrow> AcpSessionEntry option"
  loadSessionStore :: "string \<Rightarrow> SessionStore"
  resolveStorePath :: "string option \<Rightarrow> string"
  isCronJobActive :: "string \<Rightarrow> bool"
  getAgentRunContext :: "string \<Rightarrow> bool"
  legacyChatTypes :: "(string \<Rightarrow> SessionKeyChatType option) list"

record TaskRegistryMaintenanceSummary =
  reconciledM :: int
  cleanupStampedM :: int
  prunedM :: int

definition TASK_RECONCILE_GRACE_MS :: int where
  "TASK_RECONCILE_GRACE_MS = 5 * 60000"

definition TASK_RETENTION_MS :: int where
  "TASK_RETENTION_MS = 7 * 24 * 60 * 60000"

definition SWEEP_YIELD_BATCH_SIZE :: nat where
  "SWEEP_YIELD_BATCH_SIZE = 25"

definition findSessionEntryByKey :: "SessionStore \<Rightarrow> string \<Rightarrow> bool option" where
  "findSessionEntryByKey store key =
     (case map_of store key of
        Some True \<Rightarrow> Some True
      | _ \<Rightarrow> map_option snd (find (\<lambda>(k, _).
               normalizeLowercaseStringOrEmpty (Some k) = normalizeLowercaseStringOrEmpty (Some key)) store))"

section \<open>Decisions about tasks\<close>

definition isActiveTaskM :: "TaskRecord \<Rightarrow> bool" where
  "isActiveTaskM t \<longleftrightarrow> status t = St_queued \<or> status t = St_running"

definition isTerminalTask :: "TaskRecord \<Rightarrow> bool" where
  "isTerminalTask t \<longleftrightarrow> \<not> isActiveTaskM t"

definition hasLostGraceExpired :: "TaskRecord \<Rightarrow> int \<Rightarrow> bool" where
  "hasLostGraceExpired t now \<longleftrightarrow>
     now - nullish (orElse (lastEventAt t) (startedAt t)) (createdAt t) \<ge> TASK_RECONCILE_GRACE_MS"

definition hasActiveCliRun :: "TaskRegistryMaintenanceRuntime \<Rightarrow> TaskRecord \<Rightarrow> bool" where
  "hasActiveCliRun rt t \<longleftrightarrow> list_ex (\<lambda>candidate. case normalizeOptionalString candidate of
     None \<Rightarrow> False | Some rid \<Rightarrow> getAgentRunContext rt rid) [sourceId t, runId t]"

definition hasBackingSession :: "TaskRegistryMaintenanceRuntime \<Rightarrow> TaskRecord \<Rightarrow> bool" where
  "hasBackingSession rt t =
     (if runtime t = Rt_cron
      then (case normalizeOptionalString (sourceId t) of None \<Rightarrow> False | Some jobId \<Rightarrow> isCronJobActive rt jobId)
      else if runtime t = Rt_cli \<and> hasActiveCliRun rt t then True
      else case normalizeOptionalString (childSessionKey t) of None \<Rightarrow> True
        | Some child \<Rightarrow>
          if runtime t = Rt_acp
          then (case readAcpSessionEntry rt child of None \<Rightarrow> True
                | Some e \<Rightarrow> if storeReadFailed e then True else entryPresent e)
          else if runtime t = Rt_cli
            \<and> deriveSessionChatTypeFromKey (Some child) (legacyChatTypes rt) \<in> {Chat_channel, Chat_group, Chat_direct}
          then False
          else (let agent = map_option parsedAgentId (parseAgentSessionKey (Some child));
                    store = loadSessionStore rt (resolveStorePath rt agent)
                in findSessionEntryByKey store child = Some True))"

definition shouldMarkLost :: "TaskRegistryMaintenanceRuntime \<Rightarrow> TaskRecord \<Rightarrow> int \<Rightarrow> bool" where
  "shouldMarkLost rt t now \<longleftrightarrow> isActiveTaskM t \<and> hasLostGraceExpired t now \<and> \<not> hasBackingSession rt t"

definition shouldPruneTerminalTask :: "TaskRecord \<Rightarrow> int \<Rightarrow> bool" where
  "shouldPruneTerminalTask t now \<longleftrightarrow> isTerminalTask t
     \<and> (case cleanupAfter t of Some c \<Rightarrow> now \<ge> c
        | None \<Rightarrow> now - nullish (orElse (endedAt t) (lastEventAt t)) (createdAt t) \<ge> TASK_RETENTION_MS)"

definition shouldStampCleanupAfter :: "TaskRecord \<Rightarrow> bool" where
  "shouldStampCleanupAfter t \<longleftrightarrow> isTerminalTask t \<and> cleanupAfter t = None"

definition resolveCleanupAfter :: "TaskRecord \<Rightarrow> int" where
  "resolveCleanupAfter t =
     nullish (orElse (endedAt t) (lastEventAt t)) (createdAt t) + TASK_RETENTION_MS"

definition projectTaskLost :: "TaskRecord \<Rightarrow> int \<Rightarrow> TaskRecord" where
  "projectTaskLost t now =
     (let projected = t\<lparr>status := St_lost,
            endedAt := Some (nullish (endedAt t) now),
            lastEventAt := Some now,
            error := Some (nullish (error t) ''backing session missing'')\<rparr>
      in case cleanupAfter projected of Some _ \<Rightarrow> projected
         | None \<Rightarrow> projected\<lparr>cleanupAfter := Some (resolveCleanupAfter projected)\<rparr>)"

definition markTaskLost :: "Env \<Rightarrow> TaskRecord \<Rightarrow> int \<Rightarrow> TaskReg \<Rightarrow> TaskRecord \<times> TaskReg" where
  "markTaskLost env t now st =
     (let cleanup = orElse (cleanupAfter t) (cleanupAfter (projectTaskLost t now))
      in case markTaskLostById env (taskId t) (nullish (endedAt t) now) (Some now)
                (Some (nullish (error t) ''backing session missing'')) cleanup st of
           (r, st1) \<Rightarrow>
             (let updated = nullish r t
              in (updated, snd (maybeDeliverTaskTerminalUpdate env (taskId updated) st1))))"

section \<open>Inspection\<close>

definition reconcileTaskRecordForOperatorInspection ::
    "Env \<Rightarrow> TaskRegistryMaintenanceRuntime \<Rightarrow> TaskRecord \<Rightarrow> TaskRecord" where
  "reconcileTaskRecordForOperatorInspection env rt t =
     (let now = date_now env in if \<not> shouldMarkLost rt t now then t else projectTaskLost t now)"

definition reconcileInspectableTasks :: "Env \<Rightarrow> TaskRegistryMaintenanceRuntime \<Rightarrow> TaskReg \<Rightarrow> TaskRecord list" where
  "reconcileInspectableTasks env rt st =
     map (reconcileTaskRecordForOperatorInspection env rt) (listTaskRecords st)"

definition getInspectableTaskRegistrySummary ::
    "Env \<Rightarrow> TaskRegistryMaintenanceRuntime \<Rightarrow> TaskReg \<Rightarrow> TaskRegistrySummary" where
  "getInspectableTaskRegistrySummary env rt st = summarizeTaskRecords (reconcileInspectableTasks env rt st)"

definition reconcileTaskLookupToken ::
    "Env \<Rightarrow> TaskRegistryMaintenanceRuntime \<Rightarrow> string \<Rightarrow> TaskReg \<Rightarrow> TaskRecord option" where
  "reconcileTaskLookupToken env rt token st =
     map_option (reconcileTaskRecordForOperatorInspection env rt) (resolveTaskForLookupToken token st)"

definition getReconciledTaskById ::
    "Env \<Rightarrow> TaskRegistryMaintenanceRuntime \<Rightarrow> string \<Rightarrow> TaskReg \<Rightarrow> TaskRecord option" where
  "getReconciledTaskById env rt tid st =
     map_option (reconcileTaskRecordForOperatorInspection env rt) (getTaskById tid st)"

definition preview_task ::
    "TaskRegistryMaintenanceRuntime \<Rightarrow> int \<Rightarrow> TaskRecord \<Rightarrow> TaskRegistryMaintenanceSummary
      \<Rightarrow> TaskRegistryMaintenanceSummary" where
  "preview_task rt now t s =
     (if shouldMarkLost rt t now then s\<lparr>reconciledM := reconciledM s + 1\<rparr>
      else if shouldPruneTerminalTask t now then s\<lparr>prunedM := prunedM s + 1\<rparr>
      else if shouldStampCleanupAfter t then s\<lparr>cleanupStampedM := cleanupStampedM s + 1\<rparr>
      else s)"

definition no_maintenance :: TaskRegistryMaintenanceSummary where
  "no_maintenance = \<lparr>reconciledM = 0, cleanupStampedM = 0, prunedM = 0\<rparr>"

definition previewTaskRegistryMaintenance ::
    "Env \<Rightarrow> TaskRegistryMaintenanceRuntime \<Rightarrow> TaskReg \<Rightarrow> TaskRegistryMaintenanceSummary" where
  "previewTaskRegistryMaintenance env rt st =
     fold (preview_task rt (date_now env)) (listTaskRecords st) no_maintenance"

section \<open>The sweep\<close>

text \<open>
  The body of the loop for a task that is still there. After every 25th processed task the sweep
  yields to the event loop, where anything may happen: \<open>between n\<close> is what happens to the registry at
  the yield after the \<open>n\<close>-th task, and \<open>rts n\<close> what the runtime answers until the next one.
\<close>

definition sweep_task ::
    "Env \<Rightarrow> TaskRegistryMaintenanceRuntime \<Rightarrow> int \<Rightarrow> TaskRecord \<Rightarrow> TaskRegistryMaintenanceSummary \<Rightarrow> TaskReg
      \<Rightarrow> TaskRegistryMaintenanceSummary \<times> TaskReg" where
  "sweep_task env rt now current s st =
     (if shouldMarkLost rt current now
      then (case markTaskLost env current now st of (next, st1) \<Rightarrow>
              (if status next = St_lost then s\<lparr>reconciledM := reconciledM s + 1\<rparr> else s, st1))
      else case (if shouldPruneTerminalTask current now
                 then deleteTaskRecordById (taskId current) st else (False, st)) of
          (True, st1) \<Rightarrow> (s\<lparr>prunedM := prunedM s + 1\<rparr>, st1)
        | (False, st1) \<Rightarrow>
          (if shouldStampCleanupAfter current
           then (case setTaskCleanupAfterById env (taskId current) (resolveCleanupAfter current) st1 of
                   (Some _, st2) \<Rightarrow> (s\<lparr>cleanupStampedM := cleanupStampedM s + 1\<rparr>, st2)
                 | (None, st2) \<Rightarrow> (s, st2))
           else (s, st1)))"

fun run_sweep ::
    "Env \<Rightarrow> (nat \<Rightarrow> TaskRegistryMaintenanceRuntime) \<Rightarrow> (nat \<Rightarrow> TaskReg \<Rightarrow> TaskReg) \<Rightarrow> int \<Rightarrow> string list \<Rightarrow> nat
      \<Rightarrow> TaskRegistryMaintenanceSummary \<Rightarrow> TaskReg \<Rightarrow> TaskRegistryMaintenanceSummary \<times> TaskReg" where
  "run_sweep env rts between now [] processed s st = (s, st)"
| "run_sweep env rts between now (tid # tids) processed s st =
     (case getTaskById tid st of
        None \<Rightarrow> run_sweep env rts between now tids processed s st
      | Some current \<Rightarrow>
        (case sweep_task env (rts processed) now current s st of (s1, st1) \<Rightarrow>
           run_sweep env rts between now tids (processed + 1) s1
             (if (processed + 1) mod SWEEP_YIELD_BATCH_SIZE = 0 then between (processed + 1) st1 else st1)))"

definition runTaskRegistryMaintenance ::
    "Env \<Rightarrow> (nat \<Rightarrow> TaskRegistryMaintenanceRuntime) \<Rightarrow> (nat \<Rightarrow> TaskReg \<Rightarrow> TaskReg) \<Rightarrow> TaskReg
      \<Rightarrow> TaskRegistryMaintenanceSummary \<times> TaskReg" where
  "runTaskRegistryMaintenance env rts between st =
     run_sweep env rts between (date_now env) (map taskId (listTaskRecords st)) 0 no_maintenance st"

definition sweepTaskRegistry ::
    "Env \<Rightarrow> (nat \<Rightarrow> TaskRegistryMaintenanceRuntime) \<Rightarrow> (nat \<Rightarrow> TaskReg \<Rightarrow> TaskReg) \<Rightarrow> TaskReg
      \<Rightarrow> TaskRegistryMaintenanceSummary \<times> TaskReg" where
  "sweepTaskRegistry = runTaskRegistryMaintenance"

section \<open>Scheduling the sweep\<close>

text \<open>
  The timers of the module. A timer of \<open>setTimeout\<close> is a number; \<open>deferredTimers\<close> are those that will
  still fire, \<open>deferredSweep\<close> is the handle the module keeps, which a second start replaces without
  clearing the timer it had. \<open>sweepInProgress\<close> is the flag of the source, \<open>sweepsUnderWay\<close>
  counts the sweeps that have begun and not ended.
\<close>

record SweepScheduler =
  sweeper :: bool
  deferredSweep :: "nat option"
  deferredTimers :: "nat list"
  nextTimer :: nat
  sweepInProgress :: bool
  sweepsUnderWay :: nat

definition startScheduledSweep :: "SweepScheduler \<Rightarrow> SweepScheduler" where
  "startScheduledSweep s =
     (if sweepInProgress s then s
      else s\<lparr>sweepInProgress := True, sweepsUnderWay := sweepsUnderWay s + 1\<rparr>)"

definition startTaskRegistryMaintenance :: "SweepScheduler \<Rightarrow> SweepScheduler" where
  "startTaskRegistryMaintenance s =
     (let s1 = s\<lparr>deferredSweep := Some (nextTimer s), deferredTimers := nextTimer s # deferredTimers s,
            nextTimer := nextTimer s + 1\<rparr>
      in if sweeper s1 then s1 else s1\<lparr>sweeper := True\<rparr>)"

definition stopTaskRegistryMaintenance :: "SweepScheduler \<Rightarrow> SweepScheduler" where
  "stopTaskRegistryMaintenance s =
     (let s1 = (case deferredSweep s of
            Some i \<Rightarrow> s\<lparr>deferredTimers := filter (\<lambda>j. j \<noteq> i) (deferredTimers s), deferredSweep := None\<rparr>
          | None \<Rightarrow> s)
      in s1\<lparr>sweeper := False, sweepInProgress := False\<rparr>)"

definition deferred_fires :: "nat \<Rightarrow> SweepScheduler \<Rightarrow> SweepScheduler" where
  "deferred_fires i s = startScheduledSweep
     (s\<lparr>deferredTimers := filter (\<lambda>j. j \<noteq> i) (deferredTimers s), deferredSweep := None\<rparr>)"

text \<open>The \<open>finally\<close> of a sweep.\<close>

definition sweep_ends :: "SweepScheduler \<Rightarrow> SweepScheduler" where
  "sweep_ends s = s\<lparr>sweepsUnderWay := sweepsUnderWay s - 1, sweepInProgress := False\<rparr>"

definition no_sweeps :: SweepScheduler where
  "no_sweeps = \<lparr>sweeper = False, deferredSweep = None, deferredTimers = [], nextTimer = 0,
     sweepInProgress = False, sweepsUnderWay = 0\<rparr>"

datatype SweepEvent = Sw_start | Sw_stop | Sw_deferred nat | Sw_interval | Sw_end

inductive sweep_step :: "SweepScheduler \<Rightarrow> SweepEvent \<Rightarrow> SweepScheduler \<Rightarrow> bool" where
  start: "sweep_step s Sw_start (startTaskRegistryMaintenance s)"
| stop: "sweep_step s Sw_stop (stopTaskRegistryMaintenance s)"
| deferred: "i \<in> set (deferredTimers s) \<Longrightarrow> sweep_step s (Sw_deferred i) (deferred_fires i s)"
| interval: "sweeper s \<Longrightarrow> sweep_step s Sw_interval (startScheduledSweep s)"
| ends: "sweepsUnderWay s > 0 \<Longrightarrow> sweep_step s Sw_end (sweep_ends s)"

inductive sweep_run :: "SweepScheduler \<Rightarrow> SweepEvent list \<Rightarrow> SweepScheduler \<Rightarrow> bool" where
  none: "sweep_run s [] s"
| event: "sweep_run s es s1 \<Longrightarrow> sweep_step s1 e s2 \<Longrightarrow> sweep_run s (es @ [e]) s2"

inductive_cases sweep_step_cases: "sweep_step s e s'"

end
