(* ===== verification/TaskMaintenanceProps.thy ===== *)
theory TaskMaintenanceProps
  imports TaskMaintenance
begin

text \<open>
  What the sweep of the task registry does to every task, that inspection shows what the sweep
  would store, that the preview counts what the sweep counts, and that sweeps do not overlap.
\<close>

section \<open>Losing a task\<close>

abbreviation lost_patch :: "TaskRecord \<Rightarrow> int \<Rightarrow> TaskPatch" where
  "lost_patch t now \<equiv> empty_patch\<lparr>
       statusP := Some St_lost,
       endedAtP := Some (Some (nullish (endedAt t) now)),
       lastEventAtP := Some (Some now),
       errorP := Some (Some (nullish (error t) ''backing session missing'')),
       cleanupAfterP := Some (cleanupAfter (projectTaskLost t now))\<rparr>"

lemma projectTaskLost_sel [simp]:
  "taskId (projectTaskLost t now) = taskId t"
  "status (projectTaskLost t now) = St_lost"
  "cleanupAfter (projectTaskLost t now) \<noteq> None"
  by (auto simp: projectTaskLost_def Let_def split: option.splits)

lemma projectTaskLost_kept: "cleanupAfter t = Some c \<Longrightarrow> cleanupAfter (projectTaskLost t now) = Some c"
  by (simp add: projectTaskLost_def)

lemma next_task_lost: "next_task env t (lost_patch t now) = projectTaskLost t now"
proof -
  have "apply_patch (lost_patch t now) t = projectTaskLost t now"
    by (simp add: apply_patch_def empty_patch_def projectTaskLost_def Let_def split: option.splits)
  then show ?thesis by (simp add: next_task_def Let_def)
qed

lemma markTaskLost_patch:
  "markTaskLost env t now st = (case updateTask env (taskId t) (lost_patch t now) st of
     (r, st1) \<Rightarrow> (nullish r t, snd (maybeDeliverTaskTerminalUpdate env (taskId (nullish r t)) st1)))"
proof -
  have "orElse (cleanupAfter t) (cleanupAfter (projectTaskLost t now)) = cleanupAfter (projectTaskLost t now)"
    by (cases "cleanupAfter t") (simp_all add: projectTaskLost_kept)
  then show ?thesis
    by (auto simp: markTaskLost_def markTaskLostById_def Let_def case_prod_unfold present_def split: option.splits)
qed

lemma markTaskLost_stored:
  assumes "map_of (tasks st) (taskId t) = Some t"
  shows "fst (markTaskLost env t now st) = projectTaskLost t now"
    and "snd (markTaskLost env t now st) = snd (maybeDeliverTaskTerminalUpdate env (taskId t)
           (snd (updateTask env (taskId t) (lost_patch t now) st)))"
  using assms updateTask_fst [of env "taskId t" "lost_patch t now" st] next_task_lost [of env t now]
  by (simp_all add: markTaskLost_patch case_prod_unfold)

text \<open>A stored lost record may have been announced at once, which touches its delivery only.\<close>

definition lost_as :: "TaskRecord \<Rightarrow> int \<Rightarrow> TaskRecord \<Rightarrow> bool" where
  "lost_as t now t' \<longleftrightarrow> (\<exists>d e. t' = (projectTaskLost t now)\<lparr>deliveryStatus := d, lastEventAt := e\<rparr>)"

lemma lost_as_delivery:
  "lost_as t now (next_task env (projectTaskLost t now) (delivery_patch env s))"
  "lost_as t now (projectTaskLost t now)"
proof -
  let ?p = "projectTaskLost t now"
  have "next_task env ?p (delivery_patch env s) = ?p\<lparr>deliveryStatus := s, lastEventAt := Some (date_now env)\<rparr>"
    by (simp add: next_task_def delivery_patch_def empty_patch_def apply_patch_def)
  then show "lost_as t now (next_task env ?p (delivery_patch env s))" unfolding lost_as_def by blast
  have "?p = ?p\<lparr>deliveryStatus := deliveryStatus ?p, lastEventAt := lastEventAt ?p\<rparr>" by simp
  then show "lost_as t now ?p" unfolding lost_as_def by blast
qed

lemma markTaskLost_lookup:
  assumes "map_of (tasks st) (taskId t) = Some t"
  shows "\<exists>t'. map_of (tasks (snd (markTaskLost env t now st))) (taskId t) = Some t' \<and> lost_as t now t'"
    and "k \<noteq> taskId t \<Longrightarrow> map_of (tasks (snd (markTaskLost env t now st))) k = map_of (tasks st) k"
proof -
  let ?st1 = "snd (updateTask env (taskId t) (lost_patch t now) st)"
  have "map_of (tasks ?st1) (taskId t) = Some (projectTaskLost t now)"
    using assms next_task_lost [of env t now] by simp
  from maybeDeliverTerminal_lookup [OF this, of env] lost_as_delivery markTaskLost_stored(2) [OF assms, of env now]
  show "\<exists>t'. map_of (tasks (snd (markTaskLost env t now st))) (taskId t) = Some t' \<and> lost_as t now t'"
    by fastforce
  show "k \<noteq> taskId t \<Longrightarrow> map_of (tasks (snd (markTaskLost env t now st))) k = map_of (tasks st) k"
    using markTaskLost_stored(2) [OF assms, of env now] maybeDeliverTerminal_other updateTask_other by metis
qed

section \<open>The sweep\<close>

text \<open>What becomes of a task, as a condition on what is found under its id afterwards.\<close>

definition swept :: "TaskRegistryMaintenanceRuntime \<Rightarrow> int \<Rightarrow> TaskRecord \<Rightarrow> TaskRecord option \<Rightarrow> bool" where
  "swept rt now t r \<longleftrightarrow>
     (if shouldMarkLost rt t now then \<exists>t'. r = Some t' \<and> lost_as t now t'
      else if shouldPruneTerminalTask t now then r = None
      else r = Some t)"

lemma never_stamped: "registrable t \<Longrightarrow> \<not> shouldStampCleanupAfter t"
  by (auto simp: registrable_def shouldStampCleanupAfter_def isTerminalTask_def isActiveTaskM_def
      terminal_iff_not_active isActiveTaskStatus_def)

lemma preview_task_sel:
  "registrable t \<Longrightarrow> cleanupStampedM (preview_task rt now t s) = cleanupStampedM s"
  by (simp add: preview_task_def never_stamped)

lemma sweep_task_spec:
  assumes t: "map_of (tasks st) (taskId t) = Some t" "registrable t"
  shows "fst (sweep_task env rt now t s st) = preview_task rt now t s"
    and "swept rt now t (map_of (tasks (snd (sweep_task env rt now t s st))) (taskId t))"
    and "k \<noteq> taskId t \<Longrightarrow> map_of (tasks (snd (sweep_task env rt now t s st))) k = map_of (tasks st) k"
proof -
  note stamp = never_stamped [OF t(2)]
  have del: "fst (deleteTaskRecordById (taskId t) st)" using t(1) by (simp add: deleteTaskRecordById_def Let_def)
  consider (lost) "shouldMarkLost rt t now"
    | (prune) "\<not> shouldMarkLost rt t now" "shouldPruneTerminalTask t now"
    | (keep) "\<not> shouldMarkLost rt t now" "\<not> shouldPruneTerminalTask t now" by blast
  then have "fst (sweep_task env rt now t s st) = preview_task rt now t s
    \<and> swept rt now t (map_of (tasks (snd (sweep_task env rt now t s st))) (taskId t))
    \<and> (k \<noteq> taskId t \<longrightarrow> map_of (tasks (snd (sweep_task env rt now t s st))) k = map_of (tasks st) k)"
  proof cases
    case lost
    then show ?thesis
      using markTaskLost_lookup [OF t(1)] markTaskLost_stored(1) [OF t(1), of env now]
      by (simp add: sweep_task_def preview_task_def swept_def case_prod_unfold)
  next
    case prune
    have "sweep_task env rt now t s st = (s\<lparr>prunedM := prunedM s + 1\<rparr>, snd (deleteTaskRecordById (taskId t) st))"
      using prune del by (cases "deleteTaskRecordById (taskId t) st") (auto simp: sweep_task_def)
    with prune show ?thesis by (simp add: preview_task_def swept_def deleteTask_sel)
  next
    case keep
    then have "sweep_task env rt now t s st = (s, st)" by (simp add: sweep_task_def stamp)
    with keep t(1) show ?thesis by (simp add: preview_task_def swept_def stamp)
  qed
  then show "fst (sweep_task env rt now t s st) = preview_task rt now t s"
    "swept rt now t (map_of (tasks (snd (sweep_task env rt now t s st))) (taskId t))"
    "k \<noteq> taskId t \<Longrightarrow> map_of (tasks (snd (sweep_task env rt now t s st))) k = map_of (tasks st) k" by blast+
qed

lemma run_sweep_alone:
  assumes "\<forall>t \<in> set ts. map_of (tasks st) (taskId t) = Some t \<and> registrable t \<and> js_trim (taskId t) = taskId t"
    "distinct (map taskId ts)"
  shows "fst (run_sweep env (\<lambda>_. rt) (\<lambda>_ x. x) now (map taskId ts) n s st) = fold (preview_task rt now) ts s
    \<and> (\<forall>t \<in> set ts. swept rt now t
         (map_of (tasks (snd (run_sweep env (\<lambda>_. rt) (\<lambda>_ x. x) now (map taskId ts) n s st))) (taskId t)))
    \<and> (\<forall>k. k \<notin> taskId ` set ts \<longrightarrow>
         map_of (tasks (snd (run_sweep env (\<lambda>_. rt) (\<lambda>_ x. x) now (map taskId ts) n s st))) k = map_of (tasks st) k)"
  using assms
proof (induction ts arbitrary: n s st)
  case (Cons t ts)
  let ?st1 = "snd (sweep_task env rt now t s st)"
  have t: "map_of (tasks st) (taskId t) = Some t" "registrable t" "js_trim (taskId t) = taskId t"
    using Cons.prems by simp_all
  note one = sweep_task_spec [OF t(1,2)]
  have run: "run_sweep env (\<lambda>_. rt) (\<lambda>_ x. x) now (map taskId (t # ts)) n s st
      = run_sweep env (\<lambda>_. rt) (\<lambda>_ x. x) now (map taskId ts) (n + 1) (preview_task rt now t s) ?st1"
    using t one(1) by (simp add: getTaskById_def case_prod_unfold)
  have "\<forall>u \<in> set ts. map_of (tasks ?st1) (taskId u) = Some u \<and> registrable u \<and> js_trim (taskId u) = taskId u"
  proof
    fix u assume u: "u \<in> set ts"
    with Cons.prems(2) have "taskId u \<noteq> taskId t" by (auto simp: image_iff)
    with one(3) u Cons.prems(1) show "map_of (tasks ?st1) (taskId u) = Some u \<and> registrable u
        \<and> js_trim (taskId u) = taskId u" by simp
  qed
  from Cons.IH [OF this, of "n + 1" "preview_task rt now t s"] Cons.prems(2) one(2,3) show ?case
    unfolding run by auto
qed simp

text \<open>Records filed under their own ids.\<close>

lemma values_by_id:
  assumes "distinct (map fst al)" "\<And>k x. map_of al k = Some x \<Longrightarrow> ident x = k"
  shows "snd ` set al = {x. map_of al (ident x) = Some x}" and "image_mset ident (image_mset snd (mset al)) = image_mset fst (mset al)"
proof -
  have id: "(k, x) \<in> set al \<Longrightarrow> ident x = k \<and> map_of al k = Some x" for k x
    using assms by (metis map_of_is_SomeI)
  then show "snd ` set al = {x. map_of al (ident x) = Some x}"
    by (auto simp: image_iff dest!: map_of_SomeD) force
  show "image_mset ident (image_mset snd (mset al)) = image_mset fst (mset al)"
    using id by (auto simp: multiset.map_comp intro!: image_mset_cong)
qed

lemma listTaskRecords_facts:
  assumes "registry_inv st"
  shows "set (listTaskRecords st) = {t. map_of (tasks st) (taskId t) = Some t}"
    and "distinct (map taskId (listTaskRecords st))" and "\<forall>t \<in> set (listTaskRecords st). registrable t"
proof -
  have wf: "distinct (map fst (tasks st))" "\<And>k t. map_of (tasks st) k = Some t \<Longrightarrow> taskId t = k"
    and reg: "\<And>k t. map_of (tasks st) k = Some t \<Longrightarrow> registrable t"
    using assms by (auto simp: registry_inv_def tasks_wf_def)
  have perm: "mset (listTaskRecords st) = mset (map snd (tasks st))"
    unfolding listTaskRecords_def compareTasksNewestFirst_def mset_map mset_sort
    by (metis map_snd_enumerate mset_map)
  then have "set (listTaskRecords st) = snd ` set (tasks st)" by (metis image_set set_mset_mset)
  with values_by_id(1) [OF wf] show set: "set (listTaskRecords st) = {t. map_of (tasks st) (taskId t) = Some t}"
    by simp
  with reg show "\<forall>t \<in> set (listTaskRecords st). registrable t" by blast
  have "mset (map taskId (listTaskRecords st)) = mset (map fst (tasks st))"
    by (simp only: mset_map perm values_by_id(2) [OF wf])
  with wf(1) show "distinct (map taskId (listTaskRecords st))" by (metis mset_eq_imp_distinct_iff)
qed

text \<open>The sweep keeps to the steps of the registry, whatever happens at its yields.\<close>

lemma sweep_task_reachable:
  assumes "task_reachable st"
  shows "task_reachable (snd (sweep_task env rt now t s st))"
proof -
  have "task_reachable (snd (markTaskLost env t now st))"
    unfolding markTaskLost_def Let_def case_prod_unfold snd_conv
    by (intro task_reachable.step [OF _ task_step.deliver] task_reachable.step [OF assms task_step.lost])
  moreover have "task_reachable (snd (deleteTaskRecordById tid st))" for tid
    by (rule task_reachable.step [OF assms task_step.delete])
  moreover have "task_reachable (snd (setTaskCleanupAfterById env tid n st))" if "task_reachable st" for tid n st
    by (rule task_reachable.step [OF that task_step.cleanup])
  ultimately show ?thesis
    using assms by (simp add: sweep_task_def case_prod_unfold split: bool.splits option.splits)
qed

lemma run_sweep_reachable:
  assumes "task_reachable st" "\<And>n st. task_reachable st \<Longrightarrow> task_reachable (between n st)"
  shows "task_reachable (snd (run_sweep env rts between now tids n s st))"
  using assms(1)
proof (induction tids arbitrary: n s st)
  case (Cons tid tids)
  show ?case
  proof (cases "getTaskById tid st")
    case (Some t)
    with Cons.IH assms(2) sweep_task_reachable [OF Cons.prems] show ?thesis by (simp add: case_prod_unfold)
  qed (use Cons in simp)
qed simp

text \<open>
  Inspection shows what a sweep would store: the record shown for a stored task is the one the
  sweep writes when it would mark the task lost, and the task itself otherwise.
\<close>

theorem inspection_agrees_with_sweep:
  assumes "task_reachable st" "map_of (tasks st) (js_trim tid) = Some t"
  shows "getReconciledTaskById env rt tid st =
    Some (if shouldMarkLost rt t (date_now env) then fst (markTaskLost env t (date_now env) st) else t)"
proof -
  have "map_of (tasks st) (taskId t) = Some t"
    using tasks_wf_lookup [OF _ assms(2)] task_reachable_inv [OF assms(1)] assms(2) by (simp add: registry_inv_def)
  from markTaskLost_stored(1) [OF this] assms(2) show ?thesis
    by (simp add: getReconciledTaskById_def getTaskById_def reconcileTaskRecordForOperatorInspection_def Let_def)
qed

text \<open>A task of a session, and a runtime that knows no session, no cron job and no run.\<close>

definition no_runtime :: TaskRegistryMaintenanceRuntime where
  "no_runtime = \<lparr>readAcpSessionEntry = (\<lambda>_. Some \<lparr>storeReadFailed = False, entryPresent = False\<rparr>),
     loadSessionStore = (\<lambda>_. []), resolveStorePath = (\<lambda>_. []), isCronJobActive = (\<lambda>_. False),
     getAgentRunContext = (\<lambda>_. False), legacyChatTypes = []\<rparr>"

definition example_acp :: TaskReg where
  "example_acp = snd (createTaskRecord (default_env 7) ''t1''
     (example_create\<lparr>runtimeT := Rt_acp, childSessionKeyT := Some ''agent:main:acp:1''\<rparr>) boot_tasks)"

lemma example_acp_reachable: "task_reachable example_acp"
  unfolding example_acp_def
  by (rule task_reachable.step [OF task_reachable.start task_step.create]) (simp add: boot_tasks_sel)

lemma example_acp_lost:
  "map_option (\<lambda>t. (shouldMarkLost no_runtime t 9, shouldMarkLost no_runtime t 9999999)) (map_of (tasks example_acp) ''t1'')
     = Some (False, True)"
  by code_simp

theorem inspection_agrees_with_sweep_witness:
  "\<exists>t. getReconciledTaskById (default_env 9999999) no_runtime '' t1'' example_acp = Some t \<and> status t = St_lost"
proof -
  obtain t where t: "map_of (tasks example_acp) ''t1'' = Some t" "shouldMarkLost no_runtime t 9999999"
    using example_acp_lost by auto
  moreover have "js_trim '' t1'' = ''t1''" by code_simp
  ultimately have "map_of (tasks example_acp) (js_trim '' t1'') = Some t" by simp
  from inspection_agrees_with_sweep [OF example_acp_reachable this, of "default_env 9999999" no_runtime] t(2)
    markTaskLost_stored(1) [of example_acp t]
    tasks_wf_lookup [OF _ t(1)] task_reachable_inv [OF example_acp_reachable]
  show ?thesis by (simp add: default_env_def registry_inv_def t(1))
qed

text \<open>
  C11. The sweep, when nothing runs at its yields: its counts are those of the preview, it stamps no
  clean-up time (every ended task has one), and it marks exactly the tasks lost that should be, deletes
  exactly those that are to be pruned and leaves the others as they are.
\<close>

theorem maintenance_sweep_spec:
  assumes "task_reachable st" "\<forall>k \<in> fst ` set (tasks st). js_trim k = k"
  shows "case runTaskRegistryMaintenance env (\<lambda>_. rt) (\<lambda>_ x. x) st of (s, st') \<Rightarrow>
    s = previewTaskRegistryMaintenance env rt st \<and> cleanupStampedM s = 0
    \<and> (\<forall>k. case map_of (tasks st) k of
          None \<Rightarrow> map_of (tasks st') k = None
        | Some t \<Rightarrow> swept rt (date_now env) t (map_of (tasks st') k))"
proof -
  let ?ts = "listTaskRecords st" and ?run = "runTaskRegistryMaintenance env (\<lambda>_. rt) (\<lambda>_ x. x) st"
  have inv: "registry_inv st" by (rule task_reachable_inv [OF assms(1)])
  note facts = listTaskRecords_facts [OF inv]
  have key: "map_of (tasks st) k = Some t \<Longrightarrow> taskId t = k" for k t
    using inv tasks_wf_lookup by (auto simp: registry_inv_def)
  have "\<forall>t \<in> set ?ts. map_of (tasks st) (taskId t) = Some t \<and> registrable t \<and> js_trim (taskId t) = taskId t"
    using facts assms(2) by (auto dest!: map_of_SomeD)
  note run = run_sweep_alone [OF this facts(2), of env rt "date_now env" 0 no_maintenance,
      folded runTaskRegistryMaintenance_def previewTaskRegistryMaintenance_def]
  have "cleanupStampedM (fold (preview_task rt now) ts s) = cleanupStampedM s" if "\<forall>t \<in> set ts. registrable t" for now ts s
    using that by (induction ts arbitrary: s) (simp_all add: preview_task_sel)
  then have "cleanupStampedM (previewTaskRegistryMaintenance env rt st) = 0"
    using facts(3) by (simp add: previewTaskRegistryMaintenance_def no_maintenance_def)
  moreover have "case map_of (tasks st) k of None \<Rightarrow> map_of (tasks (snd ?run)) k = None
      | Some t \<Rightarrow> swept rt (date_now env) t (map_of (tasks (snd ?run)) k)" for k
  proof (cases "map_of (tasks st) k")
    case None
    then have "k \<notin> taskId ` set ?ts" using facts(1) by auto
    with run None show ?thesis by simp
  next
    case (Some t)
    with key [OF this] facts(1) have "t \<in> set ?ts" by simp
    with run Some key [OF Some] show ?thesis by auto
  qed
  ultimately show ?thesis using run by (simp add: case_prod_unfold)
qed

theorem maintenance_sweep_spec_witness:
  "\<exists>t. map_of (tasks (snd (runTaskRegistryMaintenance (default_env 9999999) (\<lambda>_. no_runtime) (\<lambda>_ x. x) example_acp))) ''t1''
     = Some t \<and> status t = St_lost"
proof -
  obtain t where t: "map_of (tasks example_acp) ''t1'' = Some t" "shouldMarkLost no_runtime t 9999999"
    using example_acp_lost by auto
  have "\<forall>k \<in> fst ` set (tasks example_acp). js_trim k = k" by code_simp
  from maintenance_sweep_spec [OF example_acp_reachable this, of "default_env 9999999" no_runtime]
  have "\<forall>k t. map_of (tasks example_acp) k = Some t \<longrightarrow> swept no_runtime 9999999 t
      (map_of (tasks (snd (runTaskRegistryMaintenance (default_env 9999999) (\<lambda>_. no_runtime) (\<lambda>_ x. x) example_acp))) k)"
    by (auto simp: default_env_def case_prod_unfold split: option.splits)
  with t have "\<exists>t'. map_of (tasks (snd (runTaskRegistryMaintenance (default_env 9999999) (\<lambda>_. no_runtime) (\<lambda>_ x. x)
      example_acp))) ''t1'' = Some t' \<and> lost_as t 9999999 t'" by (fastforce simp: swept_def)
  moreover have "lost_as t now t' \<Longrightarrow> status t' = St_lost" for now t' by (auto simp: lost_as_def)
  ultimately show ?thesis by blast
qed

section \<open>Sweeps do not overlap\<close>

lemma sweep_step_flag:
  assumes "sweep_step s e s'" "e \<noteq> Sw_stop" "sweepsUnderWay s = (if sweepInProgress s then 1 else 0)"
  shows "sweepsUnderWay s' = (if sweepInProgress s' then 1 else 0)"
  using assms
  by cases (auto simp: startTaskRegistryMaintenance_def startScheduledSweep_def deferred_fires_def sweep_ends_def Let_def
      split: if_splits)

text \<open>
  As long as maintenance is not stopped at most one sweep is under way, however often it is started
  and whatever order the timers fire in, and the flag tells whether one is.
\<close>

theorem one_sweep_at_a_time:
  assumes "sweep_run no_sweeps es s" "Sw_stop \<notin> set es"
  shows "sweepsUnderWay s = (if sweepInProgress s then 1 else 0)"
  using assms
proof (induction "no_sweeps" es s rule: sweep_run.induct)
  case none
  show ?case by (simp add: no_sweeps_def)
next
  case (event es s1 e s2)
  then show ?case by (intro sweep_step_flag [OF event(3)]) auto
qed

lemma example_sweep_run:
  "sweep_run no_sweeps [Sw_start, Sw_interval]
     (startScheduledSweep (startTaskRegistryMaintenance no_sweeps))"
proof -
  let ?s = "startTaskRegistryMaintenance no_sweeps"
  have "sweep_run no_sweeps [Sw_start] ?s"
    using sweep_run.event [OF sweep_run.none sweep_step.start, of no_sweeps] by simp
  moreover have "sweeper ?s" by (simp add: startTaskRegistryMaintenance_def Let_def no_sweeps_def)
  ultimately show ?thesis using sweep_run.event [OF _ sweep_step.interval, of no_sweeps "[Sw_start]" ?s] by simp
qed

theorem one_sweep_at_a_time_witness:
  "sweepsUnderWay (startScheduledSweep (startTaskRegistryMaintenance no_sweeps)) = 1"
  using one_sweep_at_a_time [OF example_sweep_run]
  by (simp add: startScheduledSweep_def split: if_splits)

text \<open>A stop does not wait for the sweep under way but clears the flag: after a restart two overlap.\<close>

lemma restarted_sweeps_overlap:
  "\<exists>es s. sweep_run no_sweeps es s \<and> sweepsUnderWay s = 2"
proof -
  let ?s1 = "startScheduledSweep (startTaskRegistryMaintenance no_sweeps)"
  let ?s2 = "startTaskRegistryMaintenance (stopTaskRegistryMaintenance ?s1)"
  have run: "sweep_run no_sweeps (([Sw_start, Sw_interval] @ [Sw_stop]) @ [Sw_start]) ?s2"
    by (intro sweep_run.event [OF _ sweep_step.start] sweep_run.event [OF _ sweep_step.stop] example_sweep_run)
  have "sweeper ?s2" "sweepsUnderWay (startScheduledSweep ?s2) = 2" by code_simp+
  with sweep_run.event [OF run sweep_step.interval] show ?thesis by blast
qed

end
