(* ===== verification/FlowMaintenance.thy ===== *)
theory FlowMaintenance
  imports TaskMaintenanceProps
begin

text \<open>
  The maintenance of the flow registry (\<open>src/tasks/task-flow-registry.maintenance.ts\<close>): flows whose
  cancellation was requested and whose tasks have settled are finalised, old ended flows are
  deleted. The run has no yield, so that nothing interleaves with it.
\<close>

section \<open>Decisions\<close>

record TaskFlowRegistryMaintenanceSummary =
  reconciledFM :: int
  prunedFM :: int

definition TASK_FLOW_RETENTION_MS :: int where
  "TASK_FLOW_RETENTION_MS = 7 * 24 * 60 * 60000"

definition isTerminalFlow :: "TaskFlowRecord \<Rightarrow> bool" where
  "isTerminalFlow f \<longleftrightarrow> statusF f = Fs_succeeded \<or> statusF f = Fs_failed \<or> statusF f = Fs_cancelled
     \<or> statusF f = Fs_lost"

definition hasActiveLinkedTasks :: "string \<Rightarrow> TaskReg \<Rightarrow> bool" where
  "hasActiveLinkedTasks fid st \<longleftrightarrow>
     list_ex (\<lambda>t. status t = St_queued \<or> status t = St_running) (listTasksForFlowId fid st)"

definition resolveTerminalAt :: "TaskFlowRecord \<Rightarrow> int" where
  "resolveTerminalAt f = nullish (endedAtF f) (updatedAtF f)"

definition shouldPruneFlow :: "TaskFlowRecord \<Rightarrow> int \<Rightarrow> TaskReg \<Rightarrow> bool" where
  "shouldPruneFlow f now st \<longleftrightarrow> isTerminalFlow f \<and> \<not> hasActiveLinkedTasks (flowIdF f) st
     \<and> now - resolveTerminalAt f \<ge> TASK_FLOW_RETENTION_MS"

definition shouldFinalizeCancelledFlow :: "TaskFlowRecord \<Rightarrow> TaskReg \<Rightarrow> bool" where
  "shouldFinalizeCancelledFlow f st \<longleftrightarrow> syncModeF f = Sm_managed \<and> cancelRequestedAtF f \<noteq> None
     \<and> \<not> isTerminalFlow f \<and> \<not> hasActiveLinkedTasks (flowIdF f) st"

section \<open>Operations\<close>

definition finalized_at :: "TaskFlowRecord \<Rightarrow> int \<Rightarrow> int" where
  "finalized_at f now = max (max now (updatedAtF f)) (nullish (cancelRequestedAtF f) now)"

definition finalize_patch :: "TaskFlowRecord \<Rightarrow> int \<Rightarrow> FlowRecordPatch" where
  "finalize_patch f now = empty_flow_patch\<lparr>
     statusFP := Some Fs_cancelled,
     blockedTaskIdFP := Some None,
     blockedSummaryFP := Some None,
     waitJsonFP := Some JNull,
     endedAtFP := Some (Some (finalized_at f now)),
     updatedAtFP := Some (finalized_at f now)\<rparr>"

text \<open>The loop over the attempts; the argument counts those left.\<close>

fun finalize_attempts :: "Env \<Rightarrow> nat \<Rightarrow> TaskFlowRecord \<Rightarrow> int \<Rightarrow> TaskReg \<Rightarrow> (TaskError + bool) \<times> TaskReg" where
  "finalize_attempts env 0 current now st = (Inr False, st)"
| "finalize_attempts env (Suc n) current now st =
     (case updateFlowRecordByIdExpectedRevision env (flowIdF current) (revisionF current)
             (finalize_patch current now) st of
        (Inl e, st1) \<Rightarrow> (Inl e, st1)
      | (Inr (FlowApplied _), st1) \<Rightarrow> (Inr True, st1)
      | (Inr FlowNotFound, st1) \<Rightarrow> (Inr False, st1)
      | (Inr (FlowRevisionConflict latest), st1) \<Rightarrow>
          if \<not> shouldFinalizeCancelledFlow latest st1 then (Inr False, st1)
          else finalize_attempts env n latest now st1)"

definition finalizeCancelledFlow :: "Env \<Rightarrow> TaskFlowRecord \<Rightarrow> int \<Rightarrow> TaskReg \<Rightarrow> (TaskError + bool) \<times> TaskReg" where
  "finalizeCancelledFlow env f now st = finalize_attempts env 2 f now st"

definition preview_flow ::
    "int \<Rightarrow> TaskReg \<Rightarrow> TaskFlowRecord \<Rightarrow> TaskFlowRegistryMaintenanceSummary
      \<Rightarrow> TaskFlowRegistryMaintenanceSummary" where
  "preview_flow now st f s =
     (if shouldFinalizeCancelledFlow f st then s\<lparr>reconciledFM := reconciledFM s + 1\<rparr>
      else if shouldPruneFlow f now st then s\<lparr>prunedFM := prunedFM s + 1\<rparr>
      else s)"

definition no_flow_maintenance :: TaskFlowRegistryMaintenanceSummary where
  "no_flow_maintenance = \<lparr>reconciledFM = 0, prunedFM = 0\<rparr>"

definition previewTaskFlowRegistryMaintenance :: "Env \<Rightarrow> TaskReg \<Rightarrow> TaskFlowRegistryMaintenanceSummary" where
  "previewTaskFlowRegistryMaintenance env st =
     fold (preview_flow (date_now env) st) (listTaskFlowRecords st) no_flow_maintenance"

definition maintain_flow ::
    "Env \<Rightarrow> int \<Rightarrow> TaskFlowRecord \<Rightarrow> TaskFlowRegistryMaintenanceSummary \<Rightarrow> TaskReg
      \<Rightarrow> (TaskError + TaskFlowRegistryMaintenanceSummary) \<times> TaskReg" where
  "maintain_flow env now current s st =
     (if shouldFinalizeCancelledFlow current st
      then (case finalizeCancelledFlow env current now st of
              (Inl e, st1) \<Rightarrow> (Inl e, st1)
            | (Inr True, st1) \<Rightarrow> (Inr (s\<lparr>reconciledFM := reconciledFM s + 1\<rparr>), st1)
            | (Inr False, st1) \<Rightarrow> (Inr s, st1))
      else if shouldPruneFlow current now st
      then (case deleteTaskFlowRecordById (flowIdF current) st of
              (True, st1) \<Rightarrow> (Inr (s\<lparr>prunedFM := prunedFM s + 1\<rparr>), st1)
            | (False, st1) \<Rightarrow> (Inr s, st1))
      else (Inr s, st))"

text \<open>The loop; a throw ends it.\<close>

fun maintain_flows ::
    "Env \<Rightarrow> int \<Rightarrow> string list \<Rightarrow> TaskFlowRegistryMaintenanceSummary \<Rightarrow> TaskReg
      \<Rightarrow> (TaskError + TaskFlowRegistryMaintenanceSummary) \<times> TaskReg" where
  "maintain_flows env now [] s st = (Inr s, st)"
| "maintain_flows env now (fid # fids) s st =
     (case getTaskFlowById st fid of
        None \<Rightarrow> maintain_flows env now fids s st
      | Some current \<Rightarrow>
        (case maintain_flow env now current s st of
           (Inl e, st1) \<Rightarrow> (Inl e, st1)
         | (Inr s1, st1) \<Rightarrow> maintain_flows env now fids s1 st1))"

definition runTaskFlowRegistryMaintenance ::
    "Env \<Rightarrow> TaskReg \<Rightarrow> (TaskError + TaskFlowRegistryMaintenanceSummary) \<times> TaskReg" where
  "runTaskFlowRegistryMaintenance env st =
     maintain_flows env (date_now env) (map flowIdF (listTaskFlowRecords st)) no_flow_maintenance st"

section \<open>What a run does\<close>

text \<open>What becomes of a flow, as a condition on what is found under its id afterwards.\<close>

definition maintained :: "int \<Rightarrow> TaskReg \<Rightarrow> TaskFlowRecord \<Rightarrow> TaskFlowRecord option \<Rightarrow> bool" where
  "maintained now st f r \<longleftrightarrow>
     (if shouldFinalizeCancelledFlow f st
      then \<exists>f'. r = Some f' \<and> statusF f' = Fs_cancelled \<and> revisionF f' = revisionF f + 1
             \<and> endedAtF f' = Some (finalized_at f now) \<and> updatedAtF f' = finalized_at f now
             \<and> blockedTaskIdF f' = None \<and> blockedSummaryF f' = None
             \<and> ownerKeyF f' = ownerKeyF f \<and> createdAtF f' = createdAtF f
      else if shouldPruneFlow f now st then r = None
      else r = Some f)"

lemma active_linked_cong:
  assumes "FlowReg.more st' = FlowReg.more st"
  shows "hasActiveLinkedTasks fid st' = hasActiveLinkedTasks fid st"
  unfolding hasActiveLinkedTasks_def listTasksForFlowId_def listTasksFromIndex_def Let_def same_more [OF assms] ..

lemma maintenance_cong:
  assumes "FlowReg.more st' = FlowReg.more st"
  shows "shouldFinalizeCancelledFlow f st' = shouldFinalizeCancelledFlow f st"
    "shouldPruneFlow f now st' = shouldPruneFlow f now st"
    "preview_flow now st' f s = preview_flow now st f s" "maintained now st' f r = maintained now st f r"
proof -
  show eqs: "shouldFinalizeCancelledFlow f st' = shouldFinalizeCancelledFlow f st"
    "shouldPruneFlow f now st' = shouldPruneFlow f now st"
    by (simp_all add: shouldFinalizeCancelledFlow_def shouldPruneFlow_def active_linked_cong [OF assms])
  show "preview_flow now st' f s = preview_flow now st f s" "maintained now st' f r = maintained now st f r"
    unfolding preview_flow_def maintained_def eqs by (rule refl)+
qed

lemma finalize_applies:
  assumes inv: "flows_inv st" and f: "map_of (flows st) (flowIdF f) = Some f"
  shows "\<exists>f'. finalizeCancelledFlow env f now st = (Inr True, snd (writeFlowRecord f' st))
    \<and> applyFlowPatch env f (finalize_patch f now) = Inr f' \<and> flowIdF f' = flowIdF f \<and> flow_wf f'"
proof -
  have wf: "flow_wf f" using flows_inv_lookup [OF inv f] by simp
  obtain f' where f': "applyFlowPatch env f (finalize_patch f now) = Inr f'"
    using applyFlowPatch_total [OF wf, of "finalize_patch f now"] by (auto simp: finalize_patch_def empty_flow_patch_def)
  have "updateFlowRecordByIdExpectedRevision env (flowIdF f) (revisionF f) (finalize_patch f now) st
      = (Inr (FlowApplied f'), snd (writeFlowRecord f' st))"
    using f f' by (simp add: updateFlowRecordByIdExpectedRevision_def case_prod_unfold)
  then have "finalizeCancelledFlow env f now st = (Inr True, snd (writeFlowRecord f' st))"
    by (simp add: finalizeCancelledFlow_def numeral_2_eq_2)
  with f' applyFlowPatch_wf [OF f' wf] show ?thesis by blast
qed

lemma finalize_patch_sel:
  assumes "applyFlowPatch env f (finalize_patch f now) = Inr f'"
  shows "statusF f' = Fs_cancelled" "endedAtF f' = Some (finalized_at f now)" "updatedAtF f' = finalized_at f now"
    "blockedTaskIdF f' = None" "blockedSummaryF f' = None"
  using assms
  by (auto simp: applyFlowPatch_def finalize_patch_def empty_flow_patch_def Let_def patched_def patched_text_def
      split: sum.splits)

lemma maintain_flow_spec:
  assumes inv: "flows_inv st" and f: "map_of (flows st) (flowIdF f) = Some f"
  shows "fst (maintain_flow env now f s st) = Inr (preview_flow now st f s)"
    and "maintained now st f (map_of (flows (snd (maintain_flow env now f s st))) (flowIdF f))"
    and "k \<noteq> flowIdF f \<Longrightarrow> map_of (flows (snd (maintain_flow env now f s st))) k = map_of (flows st) k"
    and "FlowReg.more (snd (maintain_flow env now f s st)) = FlowReg.more st"
    and "flows_inv (snd (maintain_flow env now f s st))"
proof -
  let ?r = "maintain_flow env now f s st"
  have wf: "flow_wf f" using flows_inv_lookup [OF inv f] by simp
  consider (finalize) "shouldFinalizeCancelledFlow f st"
    | (prune) "\<not> shouldFinalizeCancelledFlow f st" "shouldPruneFlow f now st"
    | (keep) "\<not> shouldFinalizeCancelledFlow f st" "\<not> shouldPruneFlow f now st" by blast
  then have "fst ?r = Inr (preview_flow now st f s) \<and> maintained now st f (map_of (flows (snd ?r)) (flowIdF f))
    \<and> (k \<noteq> flowIdF f \<longrightarrow> map_of (flows (snd ?r)) k = map_of (flows st) k)
    \<and> FlowReg.more (snd ?r) = FlowReg.more st \<and> flows_inv (snd ?r)"
  proof cases
    case finalize
    from finalize_applies [OF inv f, of env now] obtain f' where
      f': "finalizeCancelledFlow env f now st = (Inr True, snd (writeFlowRecord f' st))"
        "applyFlowPatch env f (finalize_patch f now) = Inr f'" "flowIdF f' = flowIdF f" "flow_wf f'" by blast
    have "?r = (Inr (s\<lparr>reconciledFM := reconciledFM s + 1\<rparr>), snd (writeFlowRecord f' st))"
      using finalize f'(1) by (simp add: maintain_flow_def)
    with finalize f' finalize_patch_sel [OF f'(2)] applyFlowPatch_wf [OF f'(2) wf] writeFlowRecord_inv [OF inv f'(4)]
    show ?thesis by (simp add: preview_flow_def maintained_def writeFlowRecord_more)
  next
    case prune
    have "fst (deleteTaskFlowRecordById (flowIdF f) st)" using f by (simp add: deleteTaskFlowRecordById_def)
    then have "?r = (Inr (s\<lparr>prunedFM := prunedFM s + 1\<rparr>), snd (deleteTaskFlowRecordById (flowIdF f) st))"
      using prune by (cases "deleteTaskFlowRecordById (flowIdF f) st") (auto simp: maintain_flow_def)
    moreover have "flows (snd (deleteTaskFlowRecordById (flowIdF f) st)) = AList.delete (flowIdF f) (flows st)"
      using f by (simp add: deleteTaskFlowRecordById_def persistFlowDelete_def)
    ultimately show ?thesis
      using prune deleteTaskFlowRecordById_inv [OF inv] deleteFlow_more
      by (simp add: preview_flow_def maintained_def)
  next
    case keep
    then have "?r = (Inr s, st)" by (simp add: maintain_flow_def)
    with keep f inv show ?thesis by (simp add: preview_flow_def maintained_def)
  qed
  then show "fst (maintain_flow env now f s st) = Inr (preview_flow now st f s)"
    "maintained now st f (map_of (flows (snd (maintain_flow env now f s st))) (flowIdF f))"
    "k \<noteq> flowIdF f \<Longrightarrow> map_of (flows (snd (maintain_flow env now f s st))) k = map_of (flows st) k"
    "FlowReg.more (snd (maintain_flow env now f s st)) = FlowReg.more st"
    "flows_inv (snd (maintain_flow env now f s st))" by blast+
qed

lemma maintain_flows_spec:
  assumes "flows_inv st" "\<forall>f \<in> set fs. map_of (flows st) (flowIdF f) = Some f" "distinct (map flowIdF fs)"
  shows "case maintain_flows env now (map flowIdF fs) s st of (r, st') \<Rightarrow>
    r = Inr (fold (preview_flow now st) fs s) \<and> FlowReg.more st' = FlowReg.more st \<and> flows_inv st'
    \<and> (\<forall>f \<in> set fs. maintained now st f (map_of (flows st') (flowIdF f)))
    \<and> (\<forall>k. k \<notin> flowIdF ` set fs \<longrightarrow> map_of (flows st') k = map_of (flows st) k)"
  using assms
proof (induction fs arbitrary: s st)
  case (Cons f fs)
  let ?st1 = "snd (maintain_flow env now f s st)"
  have f: "map_of (flows st) (flowIdF f) = Some f" using Cons.prems(2) by simp
  note one = maintain_flow_spec [OF Cons.prems(1) f]
  note cong = maintenance_cong [OF one(4) [of env now s]]
  have run: "maintain_flows env now (map flowIdF (f # fs)) s st
      = maintain_flows env now (map flowIdF fs) (preview_flow now st f s) ?st1"
    using one(1) [of env now s] f
    by (cases "maintain_flow env now f s st") (simp add: getTaskFlowById_def)
  have "\<forall>g \<in> set fs. map_of (flows ?st1) (flowIdF g) = Some g"
  proof
    fix g assume g: "g \<in> set fs"
    with Cons.prems(3) have "flowIdF g \<noteq> flowIdF f" by (auto simp: image_iff)
    with one(3) g Cons.prems(2) show "map_of (flows ?st1) (flowIdF g) = Some g" by simp
  qed
  moreover have "preview_flow now ?st1 = preview_flow now st" by (intro ext cong(3))
  ultimately show ?case
    using Cons.IH [OF one(5) [of env now s], of "preview_flow now st f s"] Cons.prems(3) one(2,3,4) cong(4)
    unfolding run by (auto simp: case_prod_unfold)
qed simp

lemma listTaskFlowRecords_facts:
  assumes "flows_inv st"
  shows "set (listTaskFlowRecords st) = {f. map_of (flows st) (flowIdF f) = Some f}"
    and "distinct (map flowIdF (listTaskFlowRecords st))"
proof -
  have wf: "distinct (map fst (flows st))" "\<And>k f. map_of (flows st) k = Some f \<Longrightarrow> flowIdF f = k"
    using assms by (auto simp: flows_inv_def)
  show "set (listTaskFlowRecords st) = {f. map_of (flows st) (flowIdF f) = Some f}"
    using values_by_id(1) [OF wf] by (simp add: listTaskFlowRecords_def)
  have "mset (map flowIdF (listTaskFlowRecords st)) = mset (map fst (flows st))"
    by (simp only: listTaskFlowRecords_def mset_map mset_sort values_by_id(2) [OF wf])
  with wf(1) show "distinct (map flowIdF (listTaskFlowRecords st))"
    by (metis mset_eq_imp_distinct_iff)
qed

text \<open>
  The same without the decisions of the code: the active tasks of a flow are those of the registry that
  name it, and the week of retention is written out.
\<close>

definition has_active_task_of :: "string \<Rightarrow> TaskReg \<Rightarrow> bool" where
  "has_active_task_of fid st \<longleftrightarrow> (\<exists>k t. map_of (tasks st) k = Some t \<and> js_trim fid \<noteq> ''''
     \<and> map_option js_trim (parentFlowId t) = Some (js_trim fid) \<and> status t \<in> {St_queued, St_running})"

definition flow_maintained :: "int \<Rightarrow> TaskReg \<Rightarrow> TaskFlowRecord \<Rightarrow> TaskFlowRecord option \<Rightarrow> bool" where
  "flow_maintained now st f r \<longleftrightarrow>
     (if has_active_task_of (flowIdF f) st then r = Some f
      else if statusF f \<in> {Fs_succeeded, Fs_failed, Fs_cancelled, Fs_lost}
      then r = (if now - nullish (endedAtF f) (updatedAtF f) < 604800000 then Some f else None)
      else if syncModeF f = Sm_managed \<and> cancelRequestedAtF f \<noteq> None
      then \<exists>f'. r = Some f' \<and> statusF f' = Fs_cancelled \<and> revisionF f' = revisionF f + 1
             \<and> endedAtF f' = Some (max (max now (updatedAtF f)) (the (cancelRequestedAtF f)))
             \<and> updatedAtF f' = max (max now (updatedAtF f)) (the (cancelRequestedAtF f))
             \<and> blockedTaskIdF f' = None \<and> blockedSummaryF f' = None
             \<and> ownerKeyF f' = ownerKeyF f \<and> createdAtF f' = createdAtF f
      else r = Some f)"

lemma maintained_flow_maintained:
  assumes "registry_inv st"
  shows "maintained now st f r = flow_maintained now st f r"
proof -
  have "hasActiveLinkedTasks (flowIdF f) st = has_active_task_of (flowIdF f) st"
    using set_task_lists(2) [OF assms, of "flowIdF f"]
    by (auto simp: hasActiveLinkedTasks_def has_active_task_of_def list_ex_iff)
  then show ?thesis
    by (auto simp: maintained_def flow_maintained_def shouldFinalizeCancelledFlow_def shouldPruneFlow_def
        isTerminalFlow_def resolveTerminalAt_def finalized_at_def TASK_FLOW_RETENTION_MS_def nullish_def)
qed

lemma flow_maintenance_outcome:
  assumes "task_reachable st"
  shows "case runTaskFlowRegistryMaintenance env st of (r, st') \<Rightarrow>
    r = Inr (previewTaskFlowRegistryMaintenance env st) \<and> FlowReg.more st' = FlowReg.more st \<and> flows_inv st'
    \<and> (\<forall>k. case map_of (flows st) k of
          None \<Rightarrow> map_of (flows st') k = None
        | Some f \<Rightarrow> maintained (date_now env) st f (map_of (flows st') k))"
proof -
  have inv: "flows_inv st" using task_reachable_inv [OF assms] by (simp add: registry_inv_def)
  note facts = listTaskFlowRecords_facts [OF inv]
  have run: "case runTaskFlowRegistryMaintenance env st of (r, st') \<Rightarrow>
      r = Inr (previewTaskFlowRegistryMaintenance env st) \<and> FlowReg.more st' = FlowReg.more st \<and> flows_inv st'
      \<and> (\<forall>f \<in> set (listTaskFlowRecords st). maintained (date_now env) st f (map_of (flows st') (flowIdF f)))
      \<and> (\<forall>k. k \<notin> flowIdF ` set (listTaskFlowRecords st) \<longrightarrow> map_of (flows st') k = map_of (flows st) k)"
    unfolding runTaskFlowRegistryMaintenance_def previewTaskFlowRegistryMaintenance_def
    by (rule maintain_flows_spec [OF inv]) (simp_all add: facts)
  have "case map_of (flows st) k of None \<Rightarrow> map_of (flows (snd (runTaskFlowRegistryMaintenance env st))) k = None
      | Some f \<Rightarrow> maintained (date_now env) st f (map_of (flows (snd (runTaskFlowRegistryMaintenance env st))) k)" for k
  proof (cases "map_of (flows st) k")
    case None
    then have "k \<notin> flowIdF ` set (listTaskFlowRecords st)" using facts(1) by auto
    with run None show ?thesis by (simp add: case_prod_unfold)
  next
    case (Some f)
    then have "flowIdF f = k" using flows_inv_lookup [OF inv] by blast
    moreover from this Some facts(1) have "f \<in> set (listTaskFlowRecords st)" by simp
    ultimately show ?thesis using run Some by (auto simp: case_prod_unfold)
  qed
  with run show ?thesis by (auto simp: case_prod_unfold)
qed

text \<open>
  A maintenance run over the flows, in a reachable state: it does not throw, its counts are those of the
  preview, it leaves the tasks alone, finalises exactly the flows that await their cancellation
  and have no active task (raising their revision by one and never ending them before they were
  updated), deletes exactly the flows ended long ago that have no active task, and leaves the
  other flows as they are.
\<close>

theorem flow_maintenance_spec:
  assumes "task_reachable st"
  shows "case runTaskFlowRegistryMaintenance env st of (r, st') \<Rightarrow>
    r = Inr (previewTaskFlowRegistryMaintenance env st) \<and> FlowReg.more st' = FlowReg.more st \<and> flows_inv st'
    \<and> (\<forall>k. case map_of (flows st) k of
          None \<Rightarrow> map_of (flows st') k = None
        | Some f \<Rightarrow> flow_maintained (date_now env) st f (map_of (flows st') k))"
  by (rule flow_maintenance_outcome [OF assms, of env, unfolded maintained_flow_maintained [OF task_reachable_inv [OF assms]]])

text \<open>A managed flow without tasks whose cancellation was requested.\<close>

definition example_abandoned :: TaskReg where
  "example_abandoned = snd (requestFlowCancel (default_env 8) ''f1'' 0 None None example_flow_step)"

lemma example_abandoned_reachable: "task_reachable example_abandoned"
  unfolding example_abandoned_def requestFlowCancel_def
  by (rule updateExpected_reachable [OF example_flow_step_reachable])

lemma example_abandoned_lookup:
  "map_option (\<lambda>f. shouldFinalizeCancelledFlow f example_abandoned) (map_of (flows example_abandoned) ''f1'') = Some True"
  by code_simp

theorem flow_maintenance_spec_witness:
  "\<exists>f. map_of (flows (snd (runTaskFlowRegistryMaintenance (default_env 9) example_abandoned))) ''f1'' = Some f
     \<and> statusF f = Fs_cancelled"
proof -
  obtain f where f: "map_of (flows example_abandoned) ''f1'' = Some f"
      "shouldFinalizeCancelledFlow f example_abandoned"
    using example_abandoned_lookup by auto
  have "\<forall>k f. map_of (flows example_abandoned) k = Some f \<longrightarrow> flow_maintained 9 example_abandoned f
      (map_of (flows (snd (runTaskFlowRegistryMaintenance (default_env 9) example_abandoned))) k)"
    using flow_maintenance_spec [OF example_abandoned_reachable, of "default_env 9"]
    by (auto simp: case_prod_unfold default_env_def split: option.splits)
  with f have "flow_maintained 9 example_abandoned f
      (map_of (flows (snd (runTaskFlowRegistryMaintenance (default_env 9) example_abandoned))) ''f1'')" by blast
  with f(2) show ?thesis
    by (auto simp: maintained_flow_maintained [OF task_reachable_inv [OF example_abandoned_reachable], symmetric] maintained_def)
qed

end
