(* ===== verification/TaskAudit.thy ===== *)
theory TaskAudit
  imports FlowMaintenance "HOL-Library.Product_Lexorder"
begin

text \<open>
  The audits of the two registries: \<open>task-registry.audit.ts\<close> with \<open>task-registry.audit.shared.ts\<close>
  and \<open>task-flow-registry.audit.ts\<close>. Findings are sorted with errors first, then the oldest, then
  by creation time; \<open>toSorted\<close> is stable, like \<open>sort_key\<close>.
\<close>

section \<open>Findings\<close>

datatype TaskAuditSeverity = Sev_warn | Sev_error

text \<open>The order of the report: an error comes before a warning.\<close>

definition severityRank :: "TaskAuditSeverity \<Rightarrow> int" where
  "severityRank s = (if s = Sev_error then 0 else 1)"

lemma severityRank_inj: "severityRank a = severityRank b \<longleftrightarrow> a = b"
  by (cases a; cases b) (simp_all add: severityRank_def)

instantiation TaskAuditSeverity :: linorder
begin

definition less_eq_TaskAuditSeverity :: "TaskAuditSeverity \<Rightarrow> TaskAuditSeverity \<Rightarrow> bool" where
  "less_eq_TaskAuditSeverity a b \<longleftrightarrow> severityRank a \<le> severityRank b"

definition less_TaskAuditSeverity :: "TaskAuditSeverity \<Rightarrow> TaskAuditSeverity \<Rightarrow> bool" where
  "less_TaskAuditSeverity a b \<longleftrightarrow> severityRank a < severityRank b"

instance
  by standard (auto simp: less_eq_TaskAuditSeverity_def less_TaskAuditSeverity_def severityRank_inj)

end

datatype TaskAuditCode = Tc_stale_queued | Tc_stale_running | Tc_lost | Tc_delivery_failed
  | Tc_missing_cleanup | Tc_inconsistent_timestamps

record TaskAuditFinding =
  severityA :: TaskAuditSeverity
  codeA :: TaskAuditCode
  auditedA :: TaskRecord
  ageMsA :: "int option"
  detailA :: string

record TaskAuditSummary =
  totalA :: int
  warningsA :: int
  errorsA :: int
  byCodeA :: "TaskAuditCode \<Rightarrow> int"

definition createEmptyTaskAuditSummary :: TaskAuditSummary where
  "createEmptyTaskAuditSummary = \<lparr>totalA = 0, warningsA = 0, errorsA = 0, byCodeA = (\<lambda>_. 0)\<rparr>"

record TaskAuditOptions =
  nowA :: "int option"
  tasksA :: "TaskRecord list option"
  staleQueuedMsA :: "int option"
  staleRunningMsA :: "int option"

definition DEFAULT_STALE_QUEUED_MS :: int where
  "DEFAULT_STALE_QUEUED_MS = 10 * 60000"

definition DEFAULT_STALE_RUNNING_MS :: int where
  "DEFAULT_STALE_RUNNING_MS = 30 * 60000"

definition createFinding ::
    "TaskAuditSeverity \<Rightarrow> TaskAuditCode \<Rightarrow> TaskRecord \<Rightarrow> string \<Rightarrow> int option \<Rightarrow> TaskAuditFinding" where
  "createFinding severity code t detail age =
     \<lparr>severityA = severity, codeA = code, auditedA = t, ageMsA = age, detailA = detail\<rparr>"

definition taskReferenceAt :: "TaskRecord \<Rightarrow> int" where
  "taskReferenceAt t = nullish (orElse (lastEventAt t) (startedAt t)) (createdAt t)"

definition findTimestampInconsistency :: "TaskRecord \<Rightarrow> TaskAuditFinding option" where
  "findTimestampInconsistency t =
     (let inconsistent = (\<lambda>detail. Some (createFinding Sev_warn Tc_inconsistent_timestamps t detail None))
      in if truthy_num (startedAt t) \<and> nullish (startedAt t) 0 < createdAt t
         then inconsistent ''startedAt is earlier than createdAt''
         else if truthy_num (endedAt t) \<and> truthy_num (startedAt t) \<and> nullish (endedAt t) 0 < nullish (startedAt t) 0
         then inconsistent ''endedAt is earlier than startedAt''
         else if (status t = St_queued \<or> status t = St_running) \<and> truthy_num (endedAt t)
         then inconsistent (status_text (status t) @ '' task should not already have endedAt'')
         else None)"

text \<open>The key by which \<open>compareFindings\<close> orders.\<close>

definition compareFindings :: "TaskAuditFinding \<Rightarrow> TaskAuditSeverity \<times> int \<times> int" where
  "compareFindings f = (severityA f, - nullish (ageMsA f) (-1), createdAt (auditedA f))"

text \<open>The body of the loop.\<close>

definition audit_task :: "int \<Rightarrow> int \<Rightarrow> int \<Rightarrow> TaskRecord \<Rightarrow> TaskAuditFinding list" where
  "audit_task now staleQueuedMs staleRunningMs t =
     (let age = max 0 (now - taskReferenceAt t);
          finding = (\<lambda>severity code detail. createFinding severity code t detail (Some age))
      in (if status t = St_queued \<and> age \<ge> staleQueuedMs
          then [finding Sev_warn Tc_stale_queued ''queued task has not advanced recently''] else [])
       @ (if status t = St_running \<and> age \<ge> staleRunningMs
          then [finding Sev_error Tc_stale_running ''running task appears stuck''] else [])
       @ (if status t = St_lost
          then [finding Sev_error Tc_lost
                  (or_str (nullish (map_option js_trim (error t)) []) ''task lost its backing session'')] else [])
       @ (if deliveryStatus t = Ds_failed \<and> notifyPolicy t \<noteq> Np_silent
          then [finding Sev_warn Tc_delivery_failed ''terminal update delivery failed''] else [])
       @ (if status t \<noteq> St_lost \<and> status t \<noteq> St_queued \<and> status t \<noteq> St_running \<and> cleanupAfter t = None
          then [finding Sev_warn Tc_missing_cleanup ''terminal task is missing cleanupAfter''] else [])
       @ (case findTimestampInconsistency t of None \<Rightarrow> [] | Some f \<Rightarrow> [f]))"

definition listTaskAuditFindings :: "Env \<Rightarrow> TaskRecord list \<Rightarrow> TaskAuditOptions \<Rightarrow> TaskAuditFinding list" where
  "listTaskAuditFindings env provider options =
     (let ts = nullish (tasksA options) provider;
          now = nullish (nowA options) (date_now env);
          staleQueuedMs = nullish (staleQueuedMsA options) DEFAULT_STALE_QUEUED_MS;
          staleRunningMs = nullish (staleRunningMsA options) DEFAULT_STALE_RUNNING_MS
      in sort_key compareFindings (concat (map (audit_task now staleQueuedMs staleRunningMs) ts)))"

definition count_finding :: "TaskAuditFinding \<Rightarrow> TaskAuditSummary \<Rightarrow> TaskAuditSummary" where
  "count_finding f s =
     (let s1 = s\<lparr>totalA := totalA s + 1, byCodeA := (byCodeA s)(codeA f := byCodeA s (codeA f) + 1)\<rparr>
      in if severityA f = Sev_error then s1\<lparr>errorsA := errorsA s1 + 1\<rparr>
         else s1\<lparr>warningsA := warningsA s1 + 1\<rparr>)"

definition summarizeTaskAuditFindings :: "TaskAuditFinding list \<Rightarrow> TaskAuditSummary" where
  "summarizeTaskAuditFindings fs = fold count_finding fs createEmptyTaskAuditSummary"

definition no_audit_options :: TaskAuditOptions where
  "no_audit_options = \<lparr>nowA = None, tasksA = None, staleQueuedMsA = None, staleRunningMsA = None\<rparr>"

definition getInspectableTaskAuditSummary ::
    "Env \<Rightarrow> TaskRegistryMaintenanceRuntime \<Rightarrow> TaskReg \<Rightarrow> TaskAuditSummary" where
  "getInspectableTaskAuditSummary env rt st =
     summarizeTaskAuditFindings (listTaskAuditFindings env []
       (no_audit_options\<lparr>tasksA := Some (reconcileInspectableTasks env rt st)\<rparr>))"

section \<open>Findings about flows\<close>

datatype TaskFlowAuditCode = Fc_restore_failed | Fc_stale_running | Fc_stale_waiting | Fc_stale_blocked
  | Fc_cancel_stuck | Fc_missing_linked_tasks | Fc_blocked_task_missing | Fc_inconsistent_timestamps

record TaskFlowAuditFinding =
  severityFA :: TaskAuditSeverity
  codeFA :: TaskFlowAuditCode
  detailFA :: string
  ageMsFA :: "int option"
  flowFA :: "TaskFlowRecord option"

record TaskFlowAuditSummary =
  totalFA :: int
  warningsFA :: int
  errorsFA :: int
  byCodeFA :: "TaskFlowAuditCode \<Rightarrow> int"

record TaskFlowAuditOptions =
  nowFA :: "int option"
  flowsFA :: "TaskFlowRecord list option"
  staleRunningMsFA :: "int option"
  staleWaitingMsFA :: "int option"
  staleBlockedMsFA :: "int option"
  cancelStuckMsFA :: "int option"

definition DEFAULT_STALE_WAITING_MS :: int where
  "DEFAULT_STALE_WAITING_MS = 30 * 60000"

definition DEFAULT_STALE_BLOCKED_MS :: int where
  "DEFAULT_STALE_BLOCKED_MS = 30 * 60000"

definition DEFAULT_CANCEL_STUCK_MS :: int where
  "DEFAULT_CANCEL_STUCK_MS = 5 * 60000"

text \<open>The stale time of a running flow is the same 30 minutes as that of a running task.\<close>

definition DEFAULT_FLOW_STALE_RUNNING_MS :: int where
  "DEFAULT_FLOW_STALE_RUNNING_MS = 30 * 60000"

definition createFlowFinding ::
    "TaskAuditSeverity \<Rightarrow> TaskFlowAuditCode \<Rightarrow> string \<Rightarrow> int option \<Rightarrow> TaskFlowRecord option
      \<Rightarrow> TaskFlowAuditFinding" where
  "createFlowFinding severity code detail age flow =
     \<lparr>severityFA = severity, codeFA = code, detailFA = detail, ageMsFA = age, flowFA = flow\<rparr>"

definition compareFlowFindings :: "TaskFlowAuditFinding \<Rightarrow> TaskAuditSeverity \<times> int \<times> int" where
  "compareFlowFindings f =
     (severityFA f, - nullish (ageMsFA f) (-1), nullish (map_option createdAtF (flowFA f)) 0)"

definition getReferenceAt :: "TaskFlowRecord \<Rightarrow> int" where
  "getReferenceAt f = updatedAtF f"

definition getLinkedTasks :: "string \<Rightarrow> TaskReg \<Rightarrow> TaskRecord list" where
  "getLinkedTasks fid st = listTasksForFlowId fid st"

definition hasBlockingMetadata :: "TaskFlowRecord \<Rightarrow> bool" where
  "hasBlockingMetadata f \<longleftrightarrow> truthy (map_option js_trim (blockedTaskIdF f))
     \<or> truthy (map_option js_trim (blockedSummaryF f)) \<or> waitJsonF f \<notin> {None, Some JNull}"

definition findFlowTimestampInconsistency :: "TaskFlowRecord \<Rightarrow> TaskFlowAuditFinding option" where
  "findFlowTimestampInconsistency f =
     (let inconsistent = (\<lambda>detail. Some (createFlowFinding Sev_warn Fc_inconsistent_timestamps detail None (Some f)))
      in if updatedAtF f < createdAtF f then inconsistent ''updatedAt is earlier than createdAt''
         else if truthy_num (endedAtF f) \<and> nullish (endedAtF f) 0 < createdAtF f
         then inconsistent ''endedAt is earlier than createdAt''
         else if truthy_num (endedAtF f) \<and> nullish (endedAtF f) 0 < updatedAtF f
         then inconsistent ''endedAt is earlier than updatedAt''
         else None)"

definition createEmptyTaskFlowAuditSummary :: TaskFlowAuditSummary where
  "createEmptyTaskFlowAuditSummary = \<lparr>totalFA = 0, warningsFA = 0, errorsFA = 0, byCodeFA = (\<lambda>_. 0)\<rparr>"

text \<open>The time after which a flow in a status that waits for progress is stale.\<close>

definition stale_after :: "TaskFlowAuditOptions \<Rightarrow> TaskFlowStatus \<Rightarrow> int" where
  "stale_after options s =
     (if s = Fs_running then nullish (staleRunningMsFA options) DEFAULT_FLOW_STALE_RUNNING_MS
      else if s = Fs_waiting then nullish (staleWaitingMsFA options) DEFAULT_STALE_WAITING_MS
      else nullish (staleBlockedMsFA options) DEFAULT_STALE_BLOCKED_MS)"

text \<open>The condition of the report of a cancellation that does not finish.\<close>

definition cancel_stuck :: "TaskFlowAuditOptions \<Rightarrow> int \<Rightarrow> TaskReg \<Rightarrow> TaskFlowRecord \<Rightarrow> bool" where
  "cancel_stuck options now st f \<longleftrightarrow> cancelRequestedAtF f \<noteq> None
     \<and> statusF f \<noteq> Fs_cancelled \<and> statusF f \<noteq> Fs_failed \<and> statusF f \<noteq> Fs_succeeded \<and> statusF f \<noteq> Fs_lost
     \<and> filter (\<lambda>t. status t = St_queued \<or> status t = St_running) (getLinkedTasks (flowIdF f) st) = []
     \<and> now - nullish (cancelRequestedAtF f) 0 \<ge> nullish (cancelStuckMsFA options) DEFAULT_CANCEL_STUCK_MS"

definition audit_flow ::
    "TaskFlowAuditOptions \<Rightarrow> int \<Rightarrow> TaskReg \<Rightarrow> TaskFlowRecord \<Rightarrow> TaskFlowAuditFinding list" where
  "audit_flow options now st f =
     (let age = max 0 (now - getReferenceAt f);
          linked = getLinkedTasks (flowIdF f) st;
          finding = (\<lambda>severity code detail. createFlowFinding severity code detail (Some age) (Some f))
      in (if statusF f = Fs_running \<and> age \<ge> stale_after options Fs_running
          then [finding Sev_error Fc_stale_running ''running TaskFlow has not advanced recently''] else [])
       @ (if statusF f = Fs_waiting \<and> age \<ge> stale_after options Fs_waiting
          then [finding Sev_warn Fc_stale_waiting ''waiting TaskFlow has not advanced recently''] else [])
       @ (if statusF f = Fs_blocked \<and> age \<ge> stale_after options Fs_blocked
          then [finding Sev_warn Fc_stale_blocked ''blocked TaskFlow has not advanced recently''] else [])
       @ (if cancel_stuck options now st f
          then [createFlowFinding Sev_warn Fc_cancel_stuck
                  ''cancel-requested TaskFlow has no active child tasks but is still nonterminal''
                  (Some (max 0 (now - nullish (cancelRequestedAtF f) 0))) (Some f)] else [])
       @ (if syncModeF f = Sm_managed \<and> (statusF f = Fs_running \<or> statusF f = Fs_waiting \<or> statusF f = Fs_blocked)
             \<and> age \<ge> stale_after options (statusF f) \<and> linked = [] \<and> \<not> hasBlockingMetadata f
          then [finding (if statusF f = Fs_running then Sev_error else Sev_warn) Fc_missing_linked_tasks
                  ''managed TaskFlow has no linked tasks or wait state''] else [])
       @ (case normalizeOptionalString (blockedTaskIdF f) of None \<Rightarrow> []
          | Some blockedTaskId \<Rightarrow>
            if list_ex (\<lambda>t. taskId t = blockedTaskId) linked then []
            else [finding Sev_warn Fc_blocked_task_missing
                    (''blocked TaskFlow points at missing task '' @ blockedTaskId)])
       @ (case findFlowTimestampInconsistency f of None \<Rightarrow> [] | Some x \<Rightarrow> [x]))"

text \<open>The messages of the errors that normalising a restored flow throws; no other error is kept.\<close>

definition restore_failure_text :: "TaskError \<Rightarrow> string" where
  "restore_failure_text e = (case e of
     FlowOwnerKeyRequired \<Rightarrow> ''Flow ownerKey is required.''
   | FlowControllerIdRequired \<Rightarrow> ''Managed flow controllerId is required.''
   | _ \<Rightarrow> ''Error'')"

definition restore_finding :: "TaskReg \<Rightarrow> TaskFlowAuditFinding list" where
  "restore_finding st = (case restoreFailure st of None \<Rightarrow> []
     | Some e \<Rightarrow> [createFlowFinding Sev_error Fc_restore_failed
         (''task-flow registry restore failed: '' @ restore_failure_text e) None None])"

definition listTaskFlowAuditFindings :: "Env \<Rightarrow> TaskFlowAuditOptions \<Rightarrow> TaskReg \<Rightarrow> TaskFlowAuditFinding list" where
  "listTaskFlowAuditFindings env options st =
     (let fs = nullish (flowsFA options) (listTaskFlowRecords st);
          now = nullish (nowFA options) (date_now env)
      in sort_key compareFlowFindings (restore_finding st @ concat (map (audit_flow options now st) fs)))"

definition count_flow_finding :: "TaskFlowAuditFinding \<Rightarrow> TaskFlowAuditSummary \<Rightarrow> TaskFlowAuditSummary" where
  "count_flow_finding f s =
     (let s1 = s\<lparr>totalFA := totalFA s + 1, byCodeFA := (byCodeFA s)(codeFA f := byCodeFA s (codeFA f) + 1)\<rparr>
      in if severityFA f = Sev_error then s1\<lparr>errorsFA := errorsFA s1 + 1\<rparr>
         else s1\<lparr>warningsFA := warningsFA s1 + 1\<rparr>)"

definition summarizeTaskFlowAuditFindings :: "TaskFlowAuditFinding list \<Rightarrow> TaskFlowAuditSummary" where
  "summarizeTaskFlowAuditFindings fs = fold count_flow_finding fs createEmptyTaskFlowAuditSummary"

definition no_flow_audit_options :: TaskFlowAuditOptions where
  "no_flow_audit_options = \<lparr>nowFA = None, flowsFA = None, staleRunningMsFA = None, staleWaitingMsFA = None,
     staleBlockedMsFA = None, cancelStuckMsFA = None\<rparr>"

definition getInspectableTaskFlowAuditSummary :: "Env \<Rightarrow> TaskReg \<Rightarrow> TaskFlowAuditSummary" where
  "getInspectableTaskFlowAuditSummary env st =
     summarizeTaskFlowAuditFindings (listTaskFlowAuditFindings env no_flow_audit_options st)"

section \<open>Reports on tasks\<close>

lemma sorted_wrt_sort_key: "sorted_wrt (\<lambda>x y. f x \<le> f y) (sort_key f xs)"
  using sorted_sort_key [of f xs] by (simp add: sorted_wrt_map)

lemma createFinding_sel [simp]:
  "severityA (createFinding s c t d a) = s" "codeA (createFinding s c t d a) = c"
  "auditedA (createFinding s c t d a) = t" "ageMsA (createFinding s c t d a) = a"
  by (simp_all add: createFinding_def)

lemma inconsistency_sel:
  "findTimestampInconsistency t = Some f \<Longrightarrow>
     codeA f = Tc_inconsistent_timestamps \<and> severityA f = Sev_warn \<and> auditedA f = t"
  by (auto simp: findTimestampInconsistency_def Let_def split: if_splits)

lemma if_member: "x \<in> set (if b then [y] else []) \<longleftrightarrow> b \<and> x = y"
  by auto

lemma option_member: "x \<in> set (case r of None \<Rightarrow> [] | Some y \<Rightarrow> [y]) \<longleftrightarrow> r = Some x"
  by (auto split: option.splits)

lemma audit_task_facts:
  assumes "f \<in> set (audit_task now sq sr t)"
  shows "auditedA f = t" and "severityA f = Sev_error \<longleftrightarrow> codeA f = Tc_stale_running \<or> codeA f = Tc_lost"
  using assms inconsistency_sel [of t f]
  by (auto simp: audit_task_def Let_def if_member option_member simp del: set_simps(2))

lemma audit_task_codes:
  fixes now sq sr t
  defines "codes \<equiv> codeA ` set (audit_task now sq sr t)" and "age \<equiv> max 0 (now - taskReferenceAt t)"
  shows "Tc_stale_queued \<in> codes \<longleftrightarrow> status t = St_queued \<and> age \<ge> sq"
    "Tc_stale_running \<in> codes \<longleftrightarrow> status t = St_running \<and> age \<ge> sr"
    "Tc_lost \<in> codes \<longleftrightarrow> status t = St_lost"
    "Tc_delivery_failed \<in> codes \<longleftrightarrow> deliveryStatus t = Ds_failed \<and> notifyPolicy t \<noteq> Np_silent"
    "Tc_missing_cleanup \<in> codes \<longleftrightarrow> isTerminalTaskStatus (status t) \<and> status t \<noteq> St_lost \<and> cleanupAfter t = None"
    "Tc_inconsistent_timestamps \<in> codes \<longleftrightarrow> findTimestampInconsistency t \<noteq> None"
proof -
  have terminal: "isTerminalTaskStatus (status t) \<longleftrightarrow> status t \<noteq> St_queued \<and> status t \<noteq> St_running"
    by (simp add: terminal_iff_not_active isActiveTaskStatus_def)
  have all: "codes = {c. c = Tc_stale_queued \<and> status t = St_queued \<and> age \<ge> sq
      \<or> c = Tc_stale_running \<and> status t = St_running \<and> age \<ge> sr
      \<or> c = Tc_lost \<and> status t = St_lost
      \<or> c = Tc_delivery_failed \<and> deliveryStatus t = Ds_failed \<and> notifyPolicy t \<noteq> Np_silent
      \<or> c = Tc_missing_cleanup \<and> status t \<noteq> St_lost \<and> status t \<noteq> St_queued \<and> status t \<noteq> St_running
          \<and> cleanupAfter t = None
      \<or> c = Tc_inconsistent_timestamps \<and> findTimestampInconsistency t \<noteq> None}"
    unfolding codes_def age_def audit_task_def Let_def set_append image_Un
    by (cases "findTimestampInconsistency t") (auto simp: dest: inconsistency_sel)
  show "Tc_stale_queued \<in> codes \<longleftrightarrow> status t = St_queued \<and> age \<ge> sq"
    "Tc_stale_running \<in> codes \<longleftrightarrow> status t = St_running \<and> age \<ge> sr"
    "Tc_lost \<in> codes \<longleftrightarrow> status t = St_lost"
    "Tc_delivery_failed \<in> codes \<longleftrightarrow> deliveryStatus t = Ds_failed \<and> notifyPolicy t \<noteq> Np_silent"
    "Tc_missing_cleanup \<in> codes \<longleftrightarrow> isTerminalTaskStatus (status t) \<and> status t \<noteq> St_lost \<and> cleanupAfter t = None"
    "Tc_inconsistent_timestamps \<in> codes \<longleftrightarrow> findTimestampInconsistency t \<noteq> None"
    unfolding all terminal by blast+
qed

text \<open>When a code is reported for a task.\<close>

definition reported :: "int \<Rightarrow> int \<Rightarrow> int \<Rightarrow> TaskRecord \<Rightarrow> TaskAuditCode \<Rightarrow> bool" where
  "reported now staleQueuedMs staleRunningMs t c \<longleftrightarrow>
     (let age = max 0 (now - taskReferenceAt t)
      in case c of
           Tc_stale_queued \<Rightarrow> status t = St_queued \<and> age \<ge> staleQueuedMs
         | Tc_stale_running \<Rightarrow> status t = St_running \<and> age \<ge> staleRunningMs
         | Tc_lost \<Rightarrow> status t = St_lost
         | Tc_delivery_failed \<Rightarrow> deliveryStatus t = Ds_failed \<and> notifyPolicy t \<noteq> Np_silent
         | Tc_missing_cleanup \<Rightarrow> isTerminalTaskStatus (status t) \<and> status t \<noteq> St_lost \<and> cleanupAfter t = None
         | Tc_inconsistent_timestamps \<Rightarrow> findTimestampInconsistency t \<noteq> None)"

lemma reported_iff: "c \<in> codeA ` set (audit_task now sq sr t) \<longleftrightarrow> reported now sq sr t c"
  unfolding reported_def Let_def by (cases c) (simp_all only: audit_task_codes TaskAuditCode.case)

lemma count_finding_sel:
  "totalA (count_finding f s) = totalA s + 1"
  "errorsA (count_finding f s) = errorsA s + (if severityA f = Sev_error then 1 else 0)"
  "warningsA (count_finding f s) = warningsA s + (if severityA f = Sev_warn then 1 else 0)"
  "byCodeA (count_finding f s) c = byCodeA s c + (if codeA f = c then 1 else 0)"
  by (cases "severityA f"; simp add: count_finding_def Let_def)+

lemma count_findings:
  "totalA (fold count_finding fs s) = totalA s + int (length fs)"
  "errorsA (fold count_finding fs s) = errorsA s + int (length (filter (\<lambda>f. severityA f = Sev_error) fs))"
  "warningsA (fold count_finding fs s) = warningsA s + int (length (filter (\<lambda>f. severityA f = Sev_warn) fs))"
  "byCodeA (fold count_finding fs s) c = byCodeA s c + int (length (filter (\<lambda>f. codeA f = c) fs))"
  by (induction fs arbitrary: s) (simp_all add: count_finding_sel)

text \<open>
  The audit of tasks: a code is reported for exactly the audited tasks that meet its condition, errors are
  the stuck and the lost tasks, the report is sorted (errors first, then by age, then by creation),
  and the summary counts the findings by severity and code.
\<close>

theorem task_audit_spec:
  "let fs = listTaskAuditFindings env provider options; s = summarizeTaskAuditFindings fs in
    (\<lambda>f. (auditedA f, codeA f)) ` set fs =
       {(t, c). t \<in> set (nullish (tasksA options) provider)
          \<and> reported (nullish (nowA options) (date_now env)) (nullish (staleQueuedMsA options) DEFAULT_STALE_QUEUED_MS)
               (nullish (staleRunningMsA options) DEFAULT_STALE_RUNNING_MS) t c}
    \<and> {f \<in> set fs. severityA f = Sev_error} = {f \<in> set fs. codeA f \<in> {Tc_stale_running, Tc_lost}}
    \<and> sorted (map compareFindings fs)
    \<and> totalA s = int (length fs) \<and> totalA s = errorsA s + warningsA s
    \<and> errorsA s = int (length (filter (\<lambda>f. severityA f = Sev_error) fs))
    \<and> (\<forall>c. byCodeA s c = int (length (filter (\<lambda>f. codeA f = c) fs)))"
proof -
  let ?ts = "nullish (tasksA options) provider" and ?fs = "listTaskAuditFindings env provider options"
  let ?s = "summarizeTaskAuditFindings ?fs" and ?now = "nullish (nowA options) (date_now env)"
  let ?sq = "nullish (staleQueuedMsA options) DEFAULT_STALE_QUEUED_MS"
  let ?sr = "nullish (staleRunningMsA options) DEFAULT_STALE_RUNNING_MS"
  have set: "set ?fs = (\<Union>t \<in> set ?ts. set (audit_task ?now ?sq ?sr t))"
    by (simp add: listTaskAuditFindings_def Let_def)
  have "(\<lambda>f. (auditedA f, codeA f)) ` set ?fs =
      (\<Union>t \<in> set ?ts. (\<lambda>c. (t, c)) ` codeA ` set (audit_task ?now ?sq ?sr t))"
    unfolding set image_UN image_image
    by (intro SUP_cong refl image_cong) (simp add: audit_task_facts(1))
  also have "\<dots> = {(t, c). t \<in> set ?ts \<and> reported ?now ?sq ?sr t c}"
    unfolding reported_iff [symmetric] by blast
  finally have pairs: "(\<lambda>f. (auditedA f, codeA f)) ` set ?fs =
      {(t, c). t \<in> set ?ts \<and> reported ?now ?sq ?sr t c}" .
  have errors: "{f \<in> set ?fs. severityA f = Sev_error} = {f \<in> set ?fs. codeA f \<in> {Tc_stale_running, Tc_lost}}"
    using audit_task_facts(2) unfolding set by blast
  have sorted: "sorted (map compareFindings ?fs)"
    unfolding listTaskAuditFindings_def Let_def by (rule sorted_sort_key)
  have severities: "length (filter (\<lambda>f. severityA f = Sev_error) fs) + length (filter (\<lambda>f. severityA f = Sev_warn) fs)
      = length fs" for fs
  proof (induction fs)
    case (Cons f fs)
    then show ?case by (cases "severityA f") simp_all
  qed simp
  have counts: "totalA ?s = int (length ?fs)" "errorsA ?s = int (length (filter (\<lambda>f. severityA f = Sev_error) ?fs))"
      "warningsA ?s = int (length (filter (\<lambda>f. severityA f = Sev_warn) ?fs))"
      "\<And>c. byCodeA ?s c = int (length (filter (\<lambda>f. codeA f = c) ?fs))"
    by (simp_all add: summarizeTaskAuditFindings_def count_findings createEmptyTaskAuditSummary_def)
  then have "totalA ?s = errorsA ?s + warningsA ?s" using severities [of ?fs] by linarith
  with pairs errors sorted counts show ?thesis by (simp add: Let_def)
qed

text \<open>
  The audit of a reachable registry, as it is run on the tasks that inspection shows: no ended
  task is reported without a clean-up time, and a task reported as stuck, queued or running, still has
  its backing session, because without one it is shown as lost.
\<close>

theorem audit_of_reachable_registry:
  assumes "task_reachable st"
  shows "\<forall>f \<in> set (listTaskAuditFindings env (reconcileInspectableTasks env rt st) no_audit_options).
    codeA f \<noteq> Tc_missing_cleanup
    \<and> (codeA f \<in> {Tc_stale_queued, Tc_stale_running} \<longrightarrow> hasBackingSession rt (auditedA f))"
proof
  let ?now = "date_now env" and ?ts = "reconcileInspectableTasks env rt st"
  fix f assume "f \<in> set (listTaskAuditFindings env ?ts no_audit_options)"
  then obtain t where t: "t \<in> set ?ts" "f \<in> set (audit_task ?now DEFAULT_STALE_QUEUED_MS DEFAULT_STALE_RUNNING_MS t)"
    by (auto simp: listTaskAuditFindings_def no_audit_options_def Let_def)
  then have f: "auditedA f = t" "reported ?now DEFAULT_STALE_QUEUED_MS DEFAULT_STALE_RUNNING_MS t (codeA f)"
    using audit_task_facts(1) reported_iff by blast+
  obtain u where u: "u \<in> set (listTaskRecords st)" "t = (if shouldMarkLost rt u ?now then projectTaskLost u ?now else u)"
    using t(1) by (auto simp: reconcileInspectableTasks_def reconcileTaskRecordForOperatorInspection_def Let_def)
  have "registrable u" using listTaskRecords_facts(3) [OF task_reachable_inv [OF assms]] u(1) by blast
  then have "isTerminalTaskStatus (status t) \<Longrightarrow> cleanupAfter t \<noteq> None"
    using u(2) by (auto simp: registrable_def simp del: not_None_eq split: if_splits)
  then have "codeA f \<noteq> Tc_missing_cleanup" using f(2) by (auto simp: reported_def)
  moreover have "hasBackingSession rt t" if "codeA f \<in> {Tc_stale_queued, Tc_stale_running}"
  proof -
    from that f(2) have active: "status t = St_queued \<or> status t = St_running"
      and "?now - taskReferenceAt t \<ge> DEFAULT_STALE_QUEUED_MS"
      by (auto simp: reported_def Let_def DEFAULT_STALE_QUEUED_MS_def DEFAULT_STALE_RUNNING_MS_def)
    then have "hasLostGraceExpired t ?now"
      by (simp add: hasLostGraceExpired_def taskReferenceAt_def DEFAULT_STALE_QUEUED_MS_def TASK_RECONCILE_GRACE_MS_def)
    moreover have lost: "\<not> shouldMarkLost rt u ?now"
    proof
      assume "shouldMarkLost rt u ?now"
      with u(2) have "status t = St_lost" by simp
      with active show False by simp
    qed
    moreover from lost u(2) have "t = u" by simp
    ultimately show ?thesis using active unfolding shouldMarkLost_def isActiveTaskM_def by blast
  qed
  ultimately show "codeA f \<noteq> Tc_missing_cleanup
    \<and> (codeA f \<in> {Tc_stale_queued, Tc_stale_running} \<longrightarrow> hasBackingSession rt (auditedA f))" using f(1) by blast
qed

text \<open>A running task whose run is known.\<close>

definition cli_runtime :: TaskRegistryMaintenanceRuntime where
  "cli_runtime = no_runtime\<lparr>getAgentRunContext := (\<lambda>r. r = ''r1'')\<rparr>"

theorem audit_of_reachable_registry_witness:
  "\<exists>f \<in> set (listTaskAuditFindings (default_env 9999999)
       (reconcileInspectableTasks (default_env 9999999) cli_runtime example_tasks) no_audit_options).
     codeA f = Tc_stale_running \<and> hasBackingSession cli_runtime (auditedA f)"
proof -
  have "list_ex (\<lambda>f. codeA f = Tc_stale_running) (listTaskAuditFindings (default_env 9999999)
      (reconcileInspectableTasks (default_env 9999999) cli_runtime example_tasks) no_audit_options)"
    by code_simp
  then obtain f where f: "f \<in> set (listTaskAuditFindings (default_env 9999999)
      (reconcileInspectableTasks (default_env 9999999) cli_runtime example_tasks) no_audit_options)"
      "codeA f = Tc_stale_running" by (auto simp: list_ex_iff)
  with audit_of_reachable_registry [OF example_tasks_reachable, of "default_env 9999999" cli_runtime]
  show ?thesis by blast
qed

section \<open>Reports on flows\<close>

lemma createFlowFinding_sel [simp]:
  "severityFA (createFlowFinding s c d a f) = s" "codeFA (createFlowFinding s c d a f) = c"
  "flowFA (createFlowFinding s c d a f) = f" "ageMsFA (createFlowFinding s c d a f) = a"
  by (simp_all add: createFlowFinding_def)

lemma flow_inconsistency_sel:
  "findFlowTimestampInconsistency f = Some x \<Longrightarrow>
     codeFA x = Fc_inconsistent_timestamps \<and> severityFA x = Sev_warn \<and> flowFA x = Some f"
  by (auto simp: findFlowTimestampInconsistency_def Let_def split: if_splits)

lemma audit_flow_stuck:
  "(\<exists>x \<in> set (audit_flow options now st f). codeFA x = Fc_cancel_stuck) \<longleftrightarrow> cancel_stuck options now st f"
  unfolding audit_flow_def Let_def
  by (cases "findFlowTimestampInconsistency f"; cases "normalizeOptionalString (blockedTaskIdF f)")
    (auto dest: flow_inconsistency_sel)

lemma audit_flow_flow: "x \<in> set (audit_flow options now st f) \<Longrightarrow> flowFA x = Some f"
  unfolding audit_flow_def Let_def
  by (cases "findFlowTimestampInconsistency f"; cases "normalizeOptionalString (blockedTaskIdF f)")
    (auto dest: flow_inconsistency_sel split: if_splits)

text \<open>What is reported as stuck is, for a managed flow, what the maintenance finalises.\<close>

lemma stuck_iff_finalizable:
  assumes "syncModeF f = Sm_managed"
  shows "cancel_stuck options now st f \<longleftrightarrow> shouldFinalizeCancelledFlow f st
    \<and> now - nullish (cancelRequestedAtF f) 0 \<ge> nullish (cancelStuckMsFA options) DEFAULT_CANCEL_STUCK_MS"
  using assms
  by (auto simp: cancel_stuck_def shouldFinalizeCancelledFlow_def isTerminalFlow_def hasActiveLinkedTasks_def
      getLinkedTasks_def list_ex_iff filter_empty_conv)

lemma set_flow_findings:
  assumes "flowsFA options = None"
  shows "set (listTaskFlowAuditFindings env options st) = set (restore_finding st)
    \<union> (\<Union>f \<in> set (listTaskFlowRecords st). set (audit_flow options (nullish (nowFA options) (date_now env)) st f))"
  by (simp add: listTaskFlowAuditFindings_def Let_def assms)

text \<open>
  Maintenance cures what the audit reports: right after a maintenance run in a reachable state no
  managed flow is reported as stuck in its cancellation, whatever the options and the time of the audit.
\<close>

theorem maintenance_cures_stuck_flows:
  assumes "task_reachable st" "flowsFA options = None"
    "x \<in> set (listTaskFlowAuditFindings env' options (snd (runTaskFlowRegistryMaintenance env st)))"
    "codeFA x = Fc_cancel_stuck"
  shows "\<exists>f. flowFA x = Some f \<and> syncModeF f = Sm_task_mirrored"
proof -
  let ?st' = "snd (runTaskFlowRegistryMaintenance env st)" and ?now = "nullish (nowFA options) (date_now env')"
  have run: "FlowReg.more ?st' = FlowReg.more st" "flows_inv ?st'"
    "case map_of (flows st) k of None \<Rightarrow> map_of (flows ?st') k = None
       | Some f \<Rightarrow> maintained (date_now env) st f (map_of (flows ?st') k)" for k
    using flow_maintenance_outcome [OF assms(1), of env] by (auto simp: case_prod_unfold)
  have "x \<notin> set (restore_finding ?st')" using assms(4) by (auto simp: restore_finding_def split: option.splits)
  then obtain f where f: "f \<in> set (listTaskFlowRecords ?st')" "x \<in> set (audit_flow options ?now ?st' f)"
    using assms(2,3) set_flow_findings [of options env' ?st'] by auto
  then have stuck: "cancel_stuck options ?now ?st' f" "flowFA x = Some f"
    using audit_flow_stuck [of options ?now ?st' f] audit_flow_flow assms(4) by blast+
  have stored: "map_of (flows ?st') (flowIdF f) = Some f" using listTaskFlowRecords_facts(1) [OF run(2)] f(1) by simp
  have "syncModeF f \<noteq> Sm_managed"
  proof
    assume managed: "syncModeF f = Sm_managed"
    with stuck(1) have final: "shouldFinalizeCancelledFlow f st"
      by (simp add: stuck_iff_finalizable maintenance_cong(1) [OF run(1)])
    then have live: "statusF f \<noteq> Fs_cancelled" by (auto simp: shouldFinalizeCancelledFlow_def isTerminalFlow_def)
    show False
    proof (cases "map_of (flows st) (flowIdF f)")
      case (Some g)
      with run(3) [of "flowIdF f"] stored have "maintained (date_now env) st g (Some f)" by simp
      with live final show False by (auto simp: maintained_def split: if_splits)
    qed (use run(3) [of "flowIdF f"] stored in simp)
  qed
  with stuck(2) show ?thesis by (cases "syncModeF f") auto
qed

text \<open>A mirrored flow whose cancellation was requested after its task ended blocked.\<close>

definition example_stuck :: TaskReg where
  "example_stuck = snd (requestFlowCancel (default_env 10) ''f2'' 2 None None example_blocked)"

lemma example_stuck_reachable: "task_reachable example_stuck"
  unfolding example_stuck_def requestFlowCancel_def
  by (rule updateExpected_reachable [OF example_blocked_reachable])

theorem maintenance_cures_stuck_flows_witness:
  "\<exists>x f. x \<in> set (listTaskFlowAuditFindings (default_env 9999999) no_flow_audit_options
       (snd (runTaskFlowRegistryMaintenance (default_env 20) example_stuck)))
     \<and> codeFA x = Fc_cancel_stuck \<and> flowFA x = Some f \<and> syncModeF f = Sm_task_mirrored"
proof -
  have "list_ex (\<lambda>x. codeFA x = Fc_cancel_stuck) (listTaskFlowAuditFindings (default_env 9999999) no_flow_audit_options
      (snd (runTaskFlowRegistryMaintenance (default_env 20) example_stuck)))"
    by code_simp
  then obtain x where "x \<in> set (listTaskFlowAuditFindings (default_env 9999999) no_flow_audit_options
      (snd (runTaskFlowRegistryMaintenance (default_env 20) example_stuck)))" "codeFA x = Fc_cancel_stuck"
    by (auto simp: list_ex_iff)
  moreover have "flowsFA no_flow_audit_options = None" by (simp add: no_flow_audit_options_def)
  ultimately show ?thesis using maintenance_cures_stuck_flows [OF example_stuck_reachable] by blast
qed

end
