(* ===== verification/TaskViews.thy ===== *)
theory TaskViews
  imports TaskAudit
begin

text \<open>
  What plugins see of tasks and flows: \<open>src/tasks/task-domain-views.ts\<close> with the types of
  \<open>src/plugins/runtime/task-domain-types.ts\<close>. An optional field of a view is absent when the
  record has no text there, or the empty one.
\<close>

record TaskRunView =
  idV :: string
  runtimeV :: TaskRuntime
  sourceIdV :: "string option"
  sessionKeyV :: string
  ownerKeyV :: string
  scopeV :: TaskScopeKind
  childSessionKeyV :: "string option"
  flowIdV :: "string option"
  parentTaskIdV :: "string option"
  agentIdV :: "string option"
  runIdV :: "string option"
  labelV :: "string option"
  titleV :: string
  statusV :: TaskStatus
  deliveryStatusV :: TaskDeliveryStatus
  notifyPolicyV :: TaskNotifyPolicy
  createdAtV :: int
  startedAtV :: "int option"
  endedAtV :: "int option"
  lastEventAtV :: "int option"
  cleanupAfterV :: "int option"
  errorV :: "string option"
  progressSummaryV :: "string option"
  terminalSummaryV :: "string option"
  terminalOutcomeV :: "TaskTerminalOutcome option"

record TaskFlowView =
  idFV :: string
  ownerKeyFV :: string
  requesterOriginFV :: "DeliveryContext option"
  statusFV :: TaskFlowStatus
  notifyPolicyFV :: TaskNotifyPolicy
  goalFV :: string
  currentStepFV :: "string option"
  cancelRequestedAtFV :: "int option"
  createdAtFV :: int
  updatedAtFV :: int
  endedAtFV :: "int option"

record TaskFlowDetail = TaskFlowView +
  stateFV :: "JsonValue option"
  waitFV :: "JsonValue option"
  blockedFV :: "(string option \<times> string option) option"
  tasksFV :: "TaskRunView list"
  taskSummaryFV :: TaskRegistrySummary

definition some_text :: "string option \<Rightarrow> string option" where
  "some_text s = (if truthy s then s else None)"

definition mapTaskRunAggregateSummary :: "TaskRegistrySummary \<Rightarrow> TaskRegistrySummary" where
  "mapTaskRunAggregateSummary s = \<lparr>totalR = totalR s, activeR = activeR s, terminalR = terminalR s,
     failuresR = failuresR s, byStatusR = byStatusR s, byRuntimeR = byRuntimeR s\<rparr>"

definition mapTaskRunView :: "TaskRecord \<Rightarrow> TaskRunView" where
  "mapTaskRunView t = \<lparr>
     idV = taskId t,
     runtimeV = runtime t,
     sourceIdV = some_text (sourceId t),
     sessionKeyV = requesterSessionKey t,
     ownerKeyV = ownerKey t,
     scopeV = scopeKind t,
     childSessionKeyV = some_text (childSessionKey t),
     flowIdV = some_text (parentFlowId t),
     parentTaskIdV = some_text (parentTaskId t),
     agentIdV = some_text (agentId t),
     runIdV = some_text (runId t),
     labelV = some_text (label t),
     titleV = task t,
     statusV = status t,
     deliveryStatusV = deliveryStatus t,
     notifyPolicyV = notifyPolicy t,
     createdAtV = createdAt t,
     startedAtV = startedAt t,
     endedAtV = endedAt t,
     lastEventAtV = lastEventAt t,
     cleanupAfterV = cleanupAfter t,
     errorV = some_text (error t),
     progressSummaryV = some_text (progressSummary t),
     terminalSummaryV = some_text (terminalSummary t),
     terminalOutcomeV = terminalOutcome t\<rparr>"

definition mapTaskRunDetail :: "TaskRecord \<Rightarrow> TaskRunView" where
  "mapTaskRunDetail t = mapTaskRunView t"

definition mapTaskFlowView :: "TaskFlowRecord \<Rightarrow> TaskFlowView" where
  "mapTaskFlowView f = \<lparr>
     idFV = flowIdF f,
     ownerKeyFV = ownerKeyF f,
     requesterOriginFV = requesterOriginF f,
     statusFV = statusF f,
     notifyPolicyFV = notifyPolicyF f,
     goalFV = goalF f,
     currentStepFV = some_text (currentStepF f),
     cancelRequestedAtFV = cancelRequestedAtF f,
     createdAtFV = createdAtF f,
     updatedAtFV = updatedAtF f,
     endedAtFV = endedAtF f\<rparr>"

definition blocked_view :: "TaskFlowRecord \<Rightarrow> (string option \<times> string option) option" where
  "blocked_view f =
     (if truthy (blockedTaskIdF f) \<or> truthy (blockedSummaryF f)
      then Some (some_text (blockedTaskIdF f), some_text (blockedSummaryF f)) else None)"

definition mapTaskFlowDetail ::
    "TaskFlowRecord \<Rightarrow> TaskRecord list \<Rightarrow> TaskRegistrySummary option \<Rightarrow> TaskFlowDetail" where
  "mapTaskFlowDetail f ts given =
     TaskFlowView.extend (mapTaskFlowView f)
       (TaskFlowDetail.fields (stateJsonF f) (waitJsonF f) (blocked_view f) (map mapTaskRunView ts)
         (mapTaskRunAggregateSummary (nullish given (summarizeTaskRecords ts))))"

end
