(* ===== verification/PluginTasks.thy ===== *)
theory PluginTasks
  imports TaskViews
begin

text \<open>
  The tasks and flows a plugin can reach: \<open>src/plugins/runtime/runtime-taskflow.ts\<close> and
  \<open>src/plugins/runtime/runtime-tasks.ts\<close>. A runtime is bound to one session; every method of the
  object it is takes the bound owner key here as its first argument.
\<close>

section \<open>Binding\<close>

text \<open>None is the throw of \<open>assertSessionKey\<close>.\<close>

definition assertSessionKey :: "string option \<Rightarrow> string option" where
  "assertSessionKey sessionKey = normalizeOptionalString sessionKey"

record BoundSession =
  boundSessionKey :: string
  boundOrigin :: "DeliveryContext option"

definition createBoundTaskFlowRuntime ::
    "Env \<Rightarrow> string option \<Rightarrow> DeliveryContext option \<Rightarrow> BoundSession option" where
  "createBoundTaskFlowRuntime env sessionKey origin =
     (case assertSessionKey sessionKey of None \<Rightarrow> None
      | Some owner \<Rightarrow> Some \<lparr>boundSessionKey = owner,
          boundOrigin = (if origin \<noteq> None then normalizeDeliveryContext env origin else None)\<rparr>)"

definition fromToolContext :: "Env \<Rightarrow> string option \<Rightarrow> DeliveryContext option \<Rightarrow> BoundSession option" where
  "fromToolContext env sessionKey origin =
     (case assertSessionKey sessionKey of None \<Rightarrow> None
      | Some owner \<Rightarrow> createBoundTaskFlowRuntime env (Some owner) origin)"

section \<open>Managed flows\<close>

text \<open>A flow that has a controller, as the type of managed records asks.\<close>

definition asManagedTaskFlowRecord :: "TaskFlowRecord option \<Rightarrow> TaskFlowRecord option" where
  "asManagedTaskFlowRecord flow = (case flow of None \<Rightarrow> None
     | Some f \<Rightarrow> if syncModeF f \<noteq> Sm_managed \<or> \<not> truthy (controllerIdF f) then None else Some f)"

datatype ManagedTaskFlowMutationErrorCode = Mc_not_found | Mc_not_managed | Mc_revision_conflict

datatype ManagedTaskFlowMutationResult =
    Mutated TaskFlowRecord
  | NotMutated ManagedTaskFlowMutationErrorCode "TaskFlowRecord option"

definition resolveManagedFlowForOwner ::
    "string \<Rightarrow> string \<Rightarrow> TaskReg
      \<Rightarrow> ManagedTaskFlowMutationErrorCode \<times> TaskFlowRecord option + TaskFlowRecord" where
  "resolveManagedFlowForOwner fid owner st =
     (case getTaskFlowByIdForOwner fid owner st of
        None \<Rightarrow> Inl (Mc_not_found, None)
      | Some flow \<Rightarrow>
        (case asManagedTaskFlowRecord (Some flow) of
           None \<Rightarrow> Inl (Mc_not_managed, Some flow)
         | Some managed \<Rightarrow> Inr managed))"

definition mapFlowUpdateResult :: "TaskFlowUpdateResult \<Rightarrow> ManagedTaskFlowMutationResult" where
  "mapFlowUpdateResult r = (case r of
     FlowApplied f \<Rightarrow> (case asManagedTaskFlowRecord (Some f) of
         None \<Rightarrow> NotMutated Mc_not_managed (Some f) | Some managed \<Rightarrow> Mutated managed)
   | FlowNotFound \<Rightarrow> NotMutated Mc_not_found None
   | FlowRevisionConflict current \<Rightarrow> NotMutated Mc_revision_conflict (Some current))"

text \<open>What the five conditional mutations share: the guard and the mapping of the result.\<close>

definition bound_mutation ::
    "string \<Rightarrow> string \<Rightarrow> (string \<Rightarrow> TaskReg \<Rightarrow> (TaskError + TaskFlowUpdateResult) \<times> TaskReg) \<Rightarrow> TaskReg
      \<Rightarrow> (TaskError + ManagedTaskFlowMutationResult) \<times> TaskReg" where
  "bound_mutation owner fid update st =
     (case resolveManagedFlowForOwner fid owner st of
        Inl (code, current) \<Rightarrow> (Inr (NotMutated code current), st)
      | Inr flow \<Rightarrow> (case update (flowIdF flow) st of
            (Inl e, st1) \<Rightarrow> (Inl e, st1)
          | (Inr r, st1) \<Rightarrow> (Inr (mapFlowUpdateResult r), st1)))"

text \<open>The inputs of the mutations; the flow and the expected revision come first.\<close>

datatype FlowMutation =
    Fm_setWaiting "string option option" "JsonValue option" "JsonValue option" "string option option"
      "string option option" "int option"
  | Fm_resume "bool option" "string option option" "JsonValue option" "int option"
  | Fm_finish "JsonValue option" "int option" "int option"
  | Fm_fail "JsonValue option" "string option option" "string option option" "int option" "int option"
  | Fm_requestCancel "int option"

definition mutateFlow ::
    "Env \<Rightarrow> string \<Rightarrow> string \<Rightarrow> int \<Rightarrow> FlowMutation \<Rightarrow> TaskReg
      \<Rightarrow> (TaskError + ManagedTaskFlowMutationResult) \<times> TaskReg" where
  "mutateFlow env owner fid expectedRevision m = bound_mutation owner fid (\<lambda>flowId st. case m of
     Fm_setWaiting currentStep stateJson waitJson blockedTaskId blockedSummary updated \<Rightarrow>
       setFlowWaiting env flowId expectedRevision currentStep stateJson waitJson blockedTaskId blockedSummary updated st
   | Fm_resume running currentStep stateJson updated \<Rightarrow>
       resumeFlow env flowId expectedRevision running currentStep stateJson updated st
   | Fm_finish stateJson updated ended \<Rightarrow>
       finishFlow env flowId expectedRevision None stateJson updated ended st
   | Fm_fail stateJson blockedTaskId blockedSummary updated ended \<Rightarrow>
       failFlow env flowId expectedRevision None stateJson blockedTaskId blockedSummary updated ended st
   | Fm_requestCancel cancelRequestedAt \<Rightarrow>
       requestFlowCancel env flowId expectedRevision cancelRequestedAt None st)"

definition bound_createManaged ::
    "Env \<Rightarrow> string \<Rightarrow> BoundSession \<Rightarrow> CreateFlowRecordParams \<Rightarrow> TaskReg \<Rightarrow> (TaskError + TaskFlowRecord) \<times> TaskReg" where
  "bound_createManaged env uuid b p st =
     createManagedTaskFlow env uuid (p\<lparr>ownerKeyC := boundSessionKey b, requesterOriginC := boundOrigin b,
       syncModeC := None, revisionC := None, blockedTaskIdC := None, blockedSummaryC := None\<rparr>) st"

definition bound_getTaskSummary :: "string \<Rightarrow> string \<Rightarrow> TaskReg \<Rightarrow> TaskRegistrySummary option" where
  "bound_getTaskSummary owner fid st =
     map_option (\<lambda>f. getFlowTaskSummary (flowIdF f) st) (getTaskFlowByIdForOwner fid owner st)"

datatype BoundTaskFlowTaskRunResult =
    RunCreated TaskFlowRecord TaskRecord
  | RunNotCreated bool string "TaskFlowRecord option"

definition map_run_result :: "RunTaskInFlowResult \<Rightarrow> BoundTaskFlowTaskRunResult" where
  "map_run_result r =
     (if \<not> createdI r then RunNotCreated (foundI r) (nullish (reasonI r) ''Task was not created.'') (flowI r)
      else case asManagedTaskFlowRecord (flowI r) of
          None \<Rightarrow> RunNotCreated True ''TaskFlow does not accept managed child tasks.'' (flowI r)
        | Some managed \<Rightarrow>
          (case taskI r of None \<Rightarrow> RunNotCreated True ''Task was not created.'' (flowI r)
           | Some t \<Rightarrow> RunCreated managed t))"

definition bound_runTask ::
    "Env \<Rightarrow> string \<Rightarrow> string \<Rightarrow> string \<Rightarrow> RunTaskInFlowParams \<Rightarrow> TaskReg
      \<Rightarrow> (TaskError + BoundTaskFlowTaskRunResult) \<times> TaskReg" where
  "bound_runTask env uuid fuuid owner p st =
     (case runTaskInFlowForOwner env uuid fuuid owner p st of
        (Inl e, st1) \<Rightarrow> (Inl e, st1)
      | (Inr r, st1) \<Rightarrow> (Inr (map_run_result r), st1))"

section \<open>Tasks\<close>

definition mapCancelledTaskResult :: "CancelResult \<Rightarrow> bool \<times> bool \<times> string option \<times> TaskRunView option" where
  "mapCancelledTaskResult r =
     (foundR r, cancelledR r, some_text (reasonR r), map_option mapTaskRunDetail (taskR r))"

definition runs_get :: "string \<Rightarrow> string \<Rightarrow> TaskReg \<Rightarrow> TaskRunView option" where
  "runs_get owner tid st = map_option mapTaskRunDetail (getTaskByIdForOwner tid owner st)"

definition runs_list :: "string \<Rightarrow> TaskReg \<Rightarrow> TaskRunView list" where
  "runs_list owner st = map mapTaskRunView (listTasksForRelatedSessionKeyForOwner owner owner st)"

definition runs_findLatest :: "string \<Rightarrow> TaskReg \<Rightarrow> TaskRunView option" where
  "runs_findLatest owner st = map_option mapTaskRunDetail (findLatestTaskForRelatedSessionKeyForOwner owner owner st)"

definition runs_resolve :: "string \<Rightarrow> string \<Rightarrow> TaskReg \<Rightarrow> TaskRunView option" where
  "runs_resolve owner token st = map_option mapTaskRunDetail (resolveTaskForLookupTokenForOwner token owner st)"

text \<open>The synchronous part; a cancellation under way is mapped when it settles.\<close>

definition runs_cancel ::
    "Env \<Rightarrow> string \<Rightarrow> string \<Rightarrow> TaskReg \<Rightarrow> (bool \<times> bool \<times> string option \<times> TaskRunView option) Async \<times> TaskReg" where
  "runs_cancel env owner tid st =
     (case getTaskByIdForOwner tid owner st of
        None \<Rightarrow> (Settled (False, False, Some ''Task not found.'', None), st)
      | Some t \<Rightarrow> (case cancelTaskById env (taskId t) st of (r, st1) \<Rightarrow> (map_Async mapCancelledTaskResult r, st1)))"

section \<open>Flows as views\<close>

definition flow_detail :: "string \<Rightarrow> string \<Rightarrow> TaskReg \<Rightarrow> TaskFlowDetail option" where
  "flow_detail owner fid st =
     map_option (\<lambda>f. mapTaskFlowDetail f (listTasksForFlowId (flowIdF f) st) (Some (getFlowTaskSummary (flowIdF f) st)))
       (getTaskFlowByIdForOwner fid owner st)"

definition flows_list :: "string \<Rightarrow> TaskReg \<Rightarrow> TaskFlowView list" where
  "flows_list owner st = map mapTaskFlowView (listTaskFlowsForOwner owner st)"

definition flows_findLatest :: "string \<Rightarrow> TaskReg \<Rightarrow> TaskFlowDetail option" where
  "flows_findLatest owner st =
     Option.bind (findLatestTaskFlowForOwner owner st) (\<lambda>f. flow_detail owner (flowIdF f) st)"

definition flows_resolve :: "string \<Rightarrow> string \<Rightarrow> TaskReg \<Rightarrow> TaskFlowDetail option" where
  "flows_resolve owner token st =
     Option.bind (resolveTaskFlowForLookupTokenForOwner token owner st) (\<lambda>f. flow_detail owner (flowIdF f) st)"

definition flows_getTaskSummary :: "string \<Rightarrow> string \<Rightarrow> TaskReg \<Rightarrow> TaskRegistrySummary option" where
  "flows_getTaskSummary owner fid st =
     map_option (\<lambda>f. mapTaskRunAggregateSummary (getFlowTaskSummary (flowIdF f) st)) (getTaskFlowByIdForOwner fid owner st)"

section \<open>What a bound runtime can read\<close>

lemma owned_task:
  assumes "task_reachable st"
  shows "t \<in> set (listTasksForRelatedSessionKeyForOwner key owner st)
      \<Longrightarrow> scopeKind t = Sk_session \<and> js_trim (ownerKey t) = js_trim owner"
    and "getTaskByIdForOwner tid owner st = Some t \<Longrightarrow> scopeKind t = Sk_session \<and> js_trim (ownerKey t) = js_trim owner"
    and "resolveTaskForLookupTokenForOwner tok owner st = Some t
      \<Longrightarrow> scopeKind t = Sk_session \<and> js_trim (ownerKey t) = js_trim owner"
  using task_queries_owned [OF assms, of key owner tid tok] by blast+

lemma owned_flow:
  assumes "flows_inv st"
  shows "getTaskFlowByIdForOwner fid owner st = Some f
      \<longleftrightarrow> map_of (flows st) fid = Some f \<and> js_trim (ownerKeyF f) = js_trim owner"
    and "f \<in> set (listTaskFlowsForOwner owner st) \<Longrightarrow> js_trim (ownerKeyF f) = js_trim owner"
  using flow_queries_owned [OF assms, of fid owner] by blast+

lemma mapTaskRunView_sel [simp]:
  "scopeV (mapTaskRunView t) = scopeKind t" "ownerKeyV (mapTaskRunView t) = ownerKey t"
  by (simp_all add: mapTaskRunView_def)

lemma mapTaskFlowDetail_sel [simp]:
  "ownerKeyFV (mapTaskFlowDetail f ts s) = ownerKeyF f"
  "tasksFV (mapTaskFlowDetail f ts s) = map mapTaskRunView ts"
  by (simp_all add: mapTaskFlowDetail_def mapTaskFlowView_def TaskFlowView.defs TaskFlowDetail.defs)

abbreviation foreign_task :: "string \<Rightarrow> TaskRunView \<Rightarrow> bool" where
  "foreign_task owner v \<equiv> scopeV v \<noteq> Sk_session \<or> js_trim (ownerKeyV v) \<noteq> js_trim owner"

lemma linked_task_owned:
  assumes reach: "task_reachable st" and f: "map_of (flows st) fid = Some f" "js_trim fid = fid"
    and t: "t \<in> set (listTasksForFlowId fid st)"
  shows "scopeKind t = Sk_session" "js_trim (ownerKey t) = js_trim (ownerKeyF f)"
proof -
  obtain k where "map_of (tasks st) k = Some t" "normalizeOptionalString (parentFlowId t) = Some fid"
    using t f(2) set_task_lists(2) [OF task_reachable_inv [OF reach], of fid]
    by (auto simp: normalizeOptionalString_Some)
  from links_inv_lookup [OF task_reachable_links [OF reach] this f(1)]
  show "scopeKind t = Sk_session" "js_trim (ownerKey t) = js_trim (ownerKeyF f)"
    by (auto simp: link_agrees_def same_normal)
qed

text \<open>
  What a runtime bound to an owner shows: in every reachable state the tasks it gets, lists or
  resolves, and the tasks inside the details of the flows it gets or resolves, are all session tasks
  of that owner, and so are the flows.
\<close>

theorem plugin_reads_isolated:
  assumes "task_reachable st" "\<forall>fid \<in> fst ` set (flows st). js_trim fid = fid"
  shows "\<not> list_ex (foreign_task owner) (runs_list owner st)
    \<and> (\<forall>v. runs_get owner tid st = Some v \<or> runs_findLatest owner st = Some v \<or> runs_resolve owner tok st = Some v
          \<longrightarrow> \<not> foreign_task owner v)
    \<and> (\<forall>d. flow_detail owner fid st = Some d \<or> flows_findLatest owner st = Some d \<or> flows_resolve owner tok st = Some d
          \<longrightarrow> js_trim (ownerKeyFV d) = js_trim owner \<and> \<not> list_ex (foreign_task owner) (tasksFV d))"
proof -
  have inv: "flows_inv st" using task_reachable_inv [OF assms(1)] by (simp add: registry_inv_def)
  have detail: "js_trim (ownerKeyFV d) = js_trim owner \<and> \<not> list_ex (foreign_task owner) (tasksFV d)"
    if d: "flow_detail owner fid st = Some d" for fid d
  proof -
    obtain f where f: "getTaskFlowByIdForOwner fid owner st = Some f"
        "d = mapTaskFlowDetail f (listTasksForFlowId (flowIdF f) st) (Some (getFlowTaskSummary (flowIdF f) st))"
      using d by (auto simp: flow_detail_def)
    then have own: "map_of (flows st) fid = Some f" "js_trim (ownerKeyF f) = js_trim owner"
      using owned_flow(1) [OF inv] by blast+
    have "flowIdF f = fid" using flows_inv_lookup [OF inv own(1)] by simp
    moreover have "js_trim fid = fid" using own(1) assms(2) by (force dest: map_of_SomeD)
    ultimately show ?thesis
      using f(2) own(2) linked_task_owned [OF assms(1) own(1)] by (auto simp: list_ex_iff)
  qed
  have "\<not> list_ex (foreign_task owner) (runs_list owner st)"
    using owned_task(1) [OF assms(1)] by (auto simp: runs_list_def list_ex_iff)
  moreover have "\<not> foreign_task owner v"
    if "runs_get owner tid st = Some v \<or> runs_findLatest owner st = Some v \<or> runs_resolve owner tok st = Some v" for v
    using that owned_task [OF assms(1)]
    by (auto simp: runs_get_def runs_findLatest_def runs_resolve_def mapTaskRunDetail_def
        findLatestTaskForRelatedSessionKeyForOwner_def dest!: first_of_mem)
  moreover have "js_trim (ownerKeyFV d) = js_trim owner \<and> \<not> list_ex (foreign_task owner) (tasksFV d)"
    if "flow_detail owner fid st = Some d \<or> flows_findLatest owner st = Some d \<or> flows_resolve owner tok st = Some d" for d
    using that detail by (auto simp: flows_findLatest_def flows_resolve_def bind_eq_Some_conv)
  ultimately show ?thesis by blast
qed

lemma example_linked_flow_ids: "\<forall>fid \<in> fst ` set (flows example_linked). js_trim fid = fid"
  by code_simp

theorem plugin_reads_isolated_witness:
  "\<exists>v. runs_get ''agent:main:main'' ''t1'' example_linked = Some v \<and> js_trim (ownerKeyV v) = js_trim ''agent:main:main''"
proof -
  have "runs_get ''agent:main:main'' ''t1'' example_linked \<noteq> None" by code_simp
  then obtain v where "runs_get ''agent:main:main'' ''t1'' example_linked = Some v" by blast
  moreover from this plugin_reads_isolated [OF example_linked_reachable example_linked_flow_ids,
      of "''agent:main:main''" "''t1''"] have "js_trim (ownerKeyV v) = js_trim ''agent:main:main''" by blast
  ultimately show ?thesis by blast
qed

section \<open>What a bound runtime can change\<close>

definition mutated_as :: "FlowMutation \<Rightarrow> TaskFlowRecord \<Rightarrow> TaskFlowRecord \<Rightarrow> bool" where
  "mutated_as m f f' \<longleftrightarrow> (case m of
     Fm_setWaiting _ _ _ _ _ _ \<Rightarrow> (statusF f' = Fs_waiting \<or> statusF f' = Fs_blocked) \<and> endedAtF f' = None
   | Fm_resume running _ _ _ \<Rightarrow> statusF f' = (if nullish running False then Fs_running else Fs_queued)
       \<and> endedAtF f' = None \<and> blockedTaskIdF f' = None \<and> blockedSummaryF f' = None
   | Fm_finish _ _ _ \<Rightarrow> statusF f' = Fs_succeeded \<and> endedAtF f' \<noteq> None \<and> blockedTaskIdF f' = None
   | Fm_fail _ _ _ _ _ \<Rightarrow> statusF f' = Fs_failed \<and> endedAtF f' \<noteq> None
   | Fm_requestCancel _ \<Rightarrow> statusF f' = statusF f \<and> cancelRequestedAtF f' \<noteq> None)"

lemma mutation_patch:
  obtains p where "controllerIdFP p = None"
    "\<And>owner fid st. mutateFlow env owner fid n m st
       = bound_mutation owner fid (\<lambda>flowId. updateFlowRecordByIdExpectedRevision env flowId n p) st"
    "\<And>f f'. applyFlowPatch env f p = Inr f' \<Longrightarrow> mutated_as m f f'"
proof (cases m)
  case (Fm_setWaiting step state wait task summary updated)
  let ?p = "empty_flow_patch\<lparr>
       statusFP := Some (if normalizeOptionalString (patched task None) \<noteq> None
           \<or> normalizeOptionalString (patched summary None) \<noteq> None then Fs_blocked else Fs_waiting),
       currentStepFP := step, stateJsonFP := state, waitJsonFP := wait, blockedTaskIdFP := task,
       blockedSummaryFP := summary, endedAtFP := Some None, updatedAtFP := updated\<rparr>"
  show thesis by (rule that [of ?p]) (auto simp: mutateFlow_def Fm_setWaiting setFlowWaiting_def mutated_as_def
      empty_flow_patch_def applyFlowPatch_def Let_def patched_def split: sum.splits if_splits)
next
  case (Fm_resume running step state updated)
  show thesis by (rule that, unfold mutateFlow_def Fm_resume FlowMutation.case resumeFlow_def, rule_tac [2] refl)
    (auto simp: mutated_as_def empty_flow_patch_def applyFlowPatch_def Let_def patched_def patched_text_def split: sum.splits)
next
  case (Fm_finish state updated ended)
  show thesis by (rule that, unfold mutateFlow_def Fm_finish FlowMutation.case finishFlow_def Let_def, rule_tac [2] refl)
    (auto simp: mutated_as_def empty_flow_patch_def applyFlowPatch_def Let_def patched_def patched_text_def split: sum.splits)
next
  case (Fm_fail state task summary updated ended)
  show thesis by (rule that, unfold mutateFlow_def Fm_fail FlowMutation.case failFlow_def Let_def, rule_tac [2] refl)
    (auto simp: mutated_as_def empty_flow_patch_def applyFlowPatch_def Let_def patched_def patched_text_def split: sum.splits)
next
  case (Fm_requestCancel at)
  show thesis by (rule that, unfold mutateFlow_def Fm_requestCancel FlowMutation.case requestFlowCancel_def, rule_tac [2] refl)
    (auto simp: mutated_as_def empty_flow_patch_def applyFlowPatch_def Let_def patched_def patched_text_def split: sum.splits)
qed

lemma managed_controller:
  "flow_wf f \<Longrightarrow> asManagedTaskFlowRecord (Some f) = (if syncModeF f = Sm_managed then Some f else None)"
  by (auto simp: asManagedTaskFlowRecord_def flow_wf_def dest: normal_text_nonempty)

lemma bound_mutation_allowed:
  fixes env :: Env and n :: int
  assumes inv: "flows_inv st" and f: "map_of (flows st) fid = Some f" "js_trim (ownerKeyF f) = js_trim owner"
      "syncModeF f = Sm_managed" and p: "controllerIdFP p = None"
  defines "r \<equiv> bound_mutation owner fid (\<lambda>flowId. updateFlowRecordByIdExpectedRevision env flowId n p) st"
  shows "if revisionF f \<noteq> n then r = (Inr (NotMutated Mc_revision_conflict (Some f)), st)
    else \<exists>f'. applyFlowPatch env f p = Inr f' \<and> r = (Inr (Mutated f'), snd (writeFlowRecord f' st))"
proof -
  have wf: "flow_wf f" "flowIdF f = fid" using flows_inv_lookup [OF inv f(1)] by simp_all
  have get: "getTaskFlowByIdForOwner fid owner st = Some f" using owned_flow(1) [OF inv] f(1,2) by blast
  have run: "r = (case updateFlowRecordByIdExpectedRevision env fid n p st of
      (Inl e, st1) \<Rightarrow> (Inl e, st1) | (Inr x, st1) \<Rightarrow> (Inr (mapFlowUpdateResult x), st1))"
    using get wf f(3) by (simp add: r_def bound_mutation_def resolveManagedFlowForOwner_def managed_controller)
  show ?thesis
  proof (cases "revisionF f = n")
    case False
    with run f(1) show ?thesis by (simp add: updateFlowRecordByIdExpectedRevision_def mapFlowUpdateResult_def)
  next
    case True
    obtain f' where f': "applyFlowPatch env f p = Inr f'" using applyFlowPatch_total [OF wf(1) p] by blast
    with applyFlowPatch_wf [OF f' wf(1)] f(3) have "asManagedTaskFlowRecord (Some f') = Some f'"
      by (simp add: managed_controller)
    with run f(1) f' True show ?thesis
      by (simp add: updateFlowRecordByIdExpectedRevision_def mapFlowUpdateResult_def case_prod_unfold)
  qed
qed

lemma bound_mutation_refused:
  assumes inv: "flows_inv st" and own: "\<nexists>f. map_of (flows st) fid = Some f \<and> js_trim (ownerKeyF f) = js_trim owner"
  shows "bound_mutation owner fid update st = (Inr (NotMutated Mc_not_found None), st)"
proof -
  have "getTaskFlowByIdForOwner fid owner st = None"
    using owned_flow(1) [OF inv, of fid owner] own by (cases "getTaskFlowByIdForOwner fid owner st") auto
  then show ?thesis by (simp add: bound_mutation_def resolveManagedFlowForOwner_def)
qed

lemma bound_mutation_mirrored:
  assumes inv: "flows_inv st" and f: "map_of (flows st) fid = Some f" "js_trim (ownerKeyF f) = js_trim owner"
      "syncModeF f \<noteq> Sm_managed"
  shows "bound_mutation owner fid update st = (Inr (NotMutated Mc_not_managed (Some f)), st)"
proof -
  have "getTaskFlowByIdForOwner fid owner st = Some f" using owned_flow(1) [OF inv] f(1,2) by blast
  with f(3) show ?thesis by (simp add: bound_mutation_def resolveManagedFlowForOwner_def asManagedTaskFlowRecord_def)
qed

text \<open>
  A mutation through a bound runtime never throws in a reachable state. It succeeds exactly when the flow
  belongs to the bound owner, is managed and has the expected revision; the flow then is what the
  mutation makes of it, with its revision raised by one and the same owner. Otherwise the result says
  which of these failed (a flow of another owner is reported like a missing one) and nothing changes.
  No task, and no other flow, ever changes.
\<close>

theorem plugin_mutation_spec:
  assumes "task_reachable st"
  shows "case mutateFlow env owner fid n m st of (r, st') \<Rightarrow>
    FlowReg.more st' = FlowReg.more st \<and> (\<forall>k. k \<noteq> fid \<longrightarrow> map_of (flows st') k = map_of (flows st) k)
    \<and> (case map_of (flows st) fid of
         None \<Rightarrow> r = Inr (NotMutated Mc_not_found None) \<and> st' = st
       | Some f \<Rightarrow>
         if js_trim (ownerKeyF f) \<noteq> js_trim owner then r = Inr (NotMutated Mc_not_found None) \<and> st' = st
         else if syncModeF f \<noteq> Sm_managed then r = Inr (NotMutated Mc_not_managed (Some f)) \<and> st' = st
         else if revisionF f \<noteq> n then r = Inr (NotMutated Mc_revision_conflict (Some f)) \<and> st' = st
         else \<exists>f'. r = Inr (Mutated f') \<and> map_of (flows st') fid = Some f' \<and> mutated_as m f f'
                \<and> revisionF f' = n + 1 \<and> ownerKeyF f' = ownerKeyF f \<and> syncModeF f' = Sm_managed)"
proof -
  have inv: "flows_inv st" using task_reachable_inv [OF assms] by (simp add: registry_inv_def)
  obtain p where p: "controllerIdFP p = None"
      "\<And>owner fid st. mutateFlow env owner fid n m st
         = bound_mutation owner fid (\<lambda>flowId. updateFlowRecordByIdExpectedRevision env flowId n p) st"
      "\<And>f f'. applyFlowPatch env f p = Inr f' \<Longrightarrow> mutated_as m f f'"
    using mutation_patch [where env = env and n = n and m = m] by metis
  show ?thesis
  proof (cases "map_of (flows st) fid")
    case None
    then show ?thesis by (simp add: p(2) bound_mutation_refused [OF inv])
  next
    case (Some f)
    show ?thesis
    proof (cases "js_trim (ownerKeyF f) = js_trim owner \<and> syncModeF f = Sm_managed \<and> revisionF f = n")
      case True
      with bound_mutation_allowed [OF inv Some _ _ p(1), where owner = owner and env = env and n = n] obtain f' where
        f': "applyFlowPatch env f p = Inr f'" "mutateFlow env owner fid n m st = (Inr (Mutated f'), snd (writeFlowRecord f' st))"
        by (auto simp: p(2))
      with True Some p(3) [OF f'(1)] applyFlowPatch_wf [OF f'(1)] flows_inv_lookup [OF inv Some]
      show ?thesis by (simp add: writeFlowRecord_more)
    next
      case False
      then consider "js_trim (ownerKeyF f) \<noteq> js_trim owner" | "js_trim (ownerKeyF f) = js_trim owner" "syncModeF f \<noteq> Sm_managed"
        | "js_trim (ownerKeyF f) = js_trim owner" "syncModeF f = Sm_managed" "revisionF f \<noteq> n" by blast
      then show ?thesis
        using Some bound_mutation_allowed [OF inv Some _ _ p(1), where owner = owner and env = env and n = n]
        by cases (simp_all add: p(2) bound_mutation_refused [OF inv] bound_mutation_mirrored [OF inv])
    qed
  qed
qed

theorem plugin_mutation_spec_witness:
  "\<exists>f. fst (mutateFlow (default_env 9) '' agent:main:main'' ''f1'' 0 (Fm_resume (Some True) None None None) example_linked)
       = Inr (Mutated f) \<and> statusF f = Fs_running \<and> revisionF f = 1"
proof -
  have l: "map_option (\<lambda>f. (ownerKeyF f, syncModeF f, revisionF f)) (map_of (flows example_linked) ''f1'')
      = Some (''agent:main:main'', Sm_managed, 0)" "js_trim '' agent:main:main'' = ''agent:main:main''"
      "js_trim ''agent:main:main'' = ''agent:main:main''"
    by code_simp+
  then obtain f where f: "map_of (flows example_linked) ''f1'' = Some f" "ownerKeyF f = ''agent:main:main''"
      "syncModeF f = Sm_managed" "revisionF f = 0" by auto
  have "\<exists>f'. fst (mutateFlow (default_env 9) '' agent:main:main'' ''f1'' 0 (Fm_resume (Some True) None None None) example_linked)
      = Inr (Mutated f') \<and> mutated_as (Fm_resume (Some True) None None None) f f' \<and> revisionF f' = 0 + 1"
    using plugin_mutation_spec [OF example_linked_reachable, where env = "default_env 9"
      and owner = "'' agent:main:main''" and fid = "''f1''" and n = 0 and m = "Fm_resume (Some True) None None None"] f l(2,3)
    by (auto simp: case_prod_unfold)
  then show ?thesis by (auto simp: mutated_as_def)
qed

end
