(* ===== verification/CommandQueue.thy ===== *)
theory CommandQueue
  imports Prelude
begin

text \<open>
  The lanes in which the gateway runs commands: \<open>src/process/command-queue.ts\<close> and
  \<open>src/process/lanes.ts\<close>. A lane runs at most \<open>maxConcurrent\<close> commands at a time, in the order they
  were enqueued.

  The code is reentrant: a command runs synchronously up to its first \<open>await\<close> inside the loop that
  starts it, and may enqueue more. What the call stack still has to do is therefore a part of the
  state, a list of frames with the innermost first; a frame of \<open>pump\<close> is at the test of its loop.
\<close>

section \<open>State\<close>

definition CommandLane_Main :: string where
  "CommandLane_Main = ''main''"

text \<open>A command is known by the number of its enqueuing; its callbacks are not looked into.\<close>

record QueueEntry =
  entryId :: nat
  enqueuedAt :: int
  warnAfterMs :: int
  hasOnWait :: bool

record LaneState =
  queue :: "QueueEntry list"
  activeTaskIds :: "nat list"
  maxConcurrent :: int
  draining :: bool
  generation :: nat

record ActiveTaskWaiter =
  waiterId :: nat
  waitsFor :: "nat list"

datatype QueueError = CommandLaneClearedError string | GatewayDrainingError | TaskRejected

datatype QueueEffect =
    WaitWarned string nat int nat
  | Started string nat nat
  | Resolved nat
  | Rejected nat QueueError
  | RejectedAtOnce QueueError
  | WaiterResolved nat bool

datatype Frame =
    Fr_pump string
  | Fr_start string QueueEntry
  | Fr_settle nat bool
  | Fr_drain string
  | Fr_notify

text \<open>A command that has been started: the closure that waits for it remembers lane and generation.\<close>

record RunningCommand =
  laneOf :: string
  generationOf :: nat
  entryOf :: nat

record QueueState =
  gatewayDraining :: bool
  lanes :: "(string \<times> LaneState) list"
  activeTaskWaiters :: "ActiveTaskWaiter list"
  nextTaskId :: nat
  nextEntryId :: nat
  nextWaiterId :: nat
  runningCommands :: "(nat \<times> RunningCommand) list"
  frames :: "Frame list"
  queueEffects :: "QueueEffect list"

definition getQueueState :: QueueState where
  "getQueueState = \<lparr>gatewayDraining = False, lanes = [], activeTaskWaiters = [], nextTaskId = 1,
     nextEntryId = 0, nextWaiterId = 0, runningCommands = [], frames = [], queueEffects = []\<rparr>"

definition normalizeLane :: "string \<Rightarrow> string" where
  "normalizeLane lane = or_str (js_trim lane) CommandLane_Main"

definition getLaneDepth :: "LaneState \<Rightarrow> nat" where
  "getLaneDepth s = length (queue s) + length (activeTaskIds s)"

definition new_lane :: LaneState where
  "new_lane = \<lparr>queue = [], activeTaskIds = [], maxConcurrent = 1, draining = False, generation = 0\<rparr>"

text \<open>The state of a lane, which its first use creates.\<close>

definition lane_state :: "string \<Rightarrow> QueueState \<Rightarrow> LaneState" where
  "lane_state lane st = nullish (map_of (lanes st) lane) new_lane"

definition set_lane :: "string \<Rightarrow> LaneState \<Rightarrow> QueueState \<Rightarrow> QueueState" where
  "set_lane lane s st = st\<lparr>lanes := AList.update lane s (lanes st)\<rparr>"

definition getLaneState :: "string \<Rightarrow> QueueState \<Rightarrow> LaneState \<times> QueueState" where
  "getLaneState lane st = (case map_of (lanes st) lane of
     Some s \<Rightarrow> (s, st) | None \<Rightarrow> (new_lane, set_lane lane new_lane st))"

definition emit_q :: "QueueEffect \<Rightarrow> QueueState \<Rightarrow> QueueState" where
  "emit_q e st = st\<lparr>queueEffects := queueEffects st @ [e]\<rparr>"

definition push_frames :: "Frame list \<Rightarrow> QueueState \<Rightarrow> QueueState" where
  "push_frames fs st = st\<lparr>frames := fs @ frames st\<rparr>"

section \<open>Completion and waiting\<close>

definition completeTask :: "string \<Rightarrow> nat \<Rightarrow> nat \<Rightarrow> QueueState \<Rightarrow> bool \<times> QueueState" where
  "completeTask lane taskId taskGeneration st =
     (let s = lane_state lane st
      in if taskGeneration \<noteq> generation s then (False, st)
         else (True, set_lane lane (s\<lparr>activeTaskIds := filter (\<lambda>i. i \<noteq> taskId) (activeTaskIds s)\<rparr>) st))"

definition hasPendingActiveTasks :: "nat list \<Rightarrow> QueueState \<Rightarrow> bool" where
  "hasPendingActiveTasks taskIds st \<longleftrightarrow>
     list_ex (\<lambda>(_, s). list_ex (\<lambda>i. i \<in> set taskIds) (activeTaskIds s)) (lanes st)"

definition resolveActiveTaskWaiter :: "ActiveTaskWaiter \<Rightarrow> bool \<Rightarrow> QueueState \<Rightarrow> QueueState" where
  "resolveActiveTaskWaiter w drained st =
     (if w \<notin> set (activeTaskWaiters st) then st
      else emit_q (WaiterResolved (waiterId w) drained)
             (st\<lparr>activeTaskWaiters := filter (\<lambda>x. x \<noteq> w) (activeTaskWaiters st)\<rparr>))"

definition notify_waiter :: "ActiveTaskWaiter \<Rightarrow> QueueState \<Rightarrow> QueueState" where
  "notify_waiter w st =
     (if waitsFor w = [] \<or> \<not> hasPendingActiveTasks (waitsFor w) st
      then resolveActiveTaskWaiter w True st else st)"

definition notifyActiveTaskWaiters :: "QueueState \<Rightarrow> QueueState" where
  "notifyActiveTaskWaiters st = fold notify_waiter (activeTaskWaiters st) st"

section \<open>Draining a lane\<close>

text \<open>The flag is set before the loop; a lane whose flag is set is left to the loop that has set it.\<close>

definition drainLane :: "string \<Rightarrow> QueueState \<Rightarrow> QueueState" where
  "drainLane lane st =
     (case getLaneState lane st of (s, st1) \<Rightarrow>
        if draining s then st1
        else push_frames [Fr_pump lane] (set_lane lane (s\<lparr>draining := True\<rparr>) st1))"

text \<open>One test of the loop and, when it holds, the part of the body before the command is started.\<close>

definition pump_test :: "int \<Rightarrow> string \<Rightarrow> QueueState \<Rightarrow> QueueState" where
  "pump_test now lane st =
     (let s = lane_state lane st
      in case queue s of
           [] \<Rightarrow> set_lane lane (s\<lparr>draining := False\<rparr>) (st\<lparr>frames := tl (frames st)\<rparr>)
         | entry # rest \<Rightarrow>
           if int (length (activeTaskIds s)) < maxConcurrent s
           then (let st1 = set_lane lane (s\<lparr>queue := rest\<rparr>) st;
                     waitedMs = now - enqueuedAt entry;
                     st2 = (if waitedMs \<ge> warnAfterMs entry \<and> hasOnWait entry
                            then emit_q (WaitWarned lane (entryId entry) waitedMs (length rest)) st1 else st1)
                 in push_frames [Fr_start lane entry] st2)
           else set_lane lane (s\<lparr>draining := False\<rparr>) (st\<lparr>frames := tl (frames st)\<rparr>))"

text \<open>The rest of the body: the command is counted as active and called.\<close>

definition start_entry :: "string \<Rightarrow> QueueEntry \<Rightarrow> QueueState \<Rightarrow> QueueState" where
  "start_entry lane entry st =
     (let s = lane_state lane st;
          taskId = nextTaskId st;
          st1 = set_lane lane (s\<lparr>activeTaskIds := activeTaskIds s @ [taskId]\<rparr>) (st\<lparr>nextTaskId := taskId + 1\<rparr>)
      in emit_q (Started lane (entryId entry) taskId)
           (st1\<lparr>runningCommands := (taskId, \<lparr>laneOf = lane, generationOf = generation s,
              entryOf = entryId entry\<rparr>) # runningCommands st1\<rparr>))"

definition settle_entry :: "nat \<Rightarrow> bool \<Rightarrow> QueueState \<Rightarrow> QueueState" where
  "settle_entry e ok st = emit_q (if ok then Resolved e else Rejected e TaskRejected) st"

text \<open>The innermost frame takes a step.\<close>

definition frame_step :: "int \<Rightarrow> QueueState \<Rightarrow> QueueState" where
  "frame_step now st = (case frames st of
     [] \<Rightarrow> st
   | Fr_pump lane # fs \<Rightarrow> pump_test now lane st
   | Fr_start lane entry # fs \<Rightarrow> start_entry lane entry (st\<lparr>frames := fs\<rparr>)
   | Fr_settle e ok # fs \<Rightarrow> settle_entry e ok (st\<lparr>frames := fs\<rparr>)
   | Fr_drain lane # fs \<Rightarrow> drainLane lane (st\<lparr>frames := fs\<rparr>)
   | Fr_notify # fs \<Rightarrow> notifyActiveTaskWaiters (st\<lparr>frames := fs\<rparr>))"

text \<open>
  A command ends, with success or not. When its generation is still the current one the waiters are
  told and the lane is pumped again; then the caller's promise is settled.
\<close>

definition command_ends :: "nat \<Rightarrow> bool \<Rightarrow> QueueState \<Rightarrow> QueueState" where
  "command_ends taskId ok st =
     (case map_of (runningCommands st) taskId of None \<Rightarrow> st
      | Some c \<Rightarrow>
        (let st0 = st\<lparr>runningCommands := AList.delete taskId (runningCommands st)\<rparr>
         in case completeTask (laneOf c) taskId (generationOf c) st0 of
              (True, st1) \<Rightarrow> push_frames [Fr_pump (laneOf c), Fr_settle (entryOf c) ok] (notifyActiveTaskWaiters st1)
            | (False, st1) \<Rightarrow> push_frames [Fr_settle (entryOf c) ok] st1))"

section \<open>Operations\<close>

definition markGatewayDraining :: "QueueState \<Rightarrow> QueueState" where
  "markGatewayDraining st = st\<lparr>gatewayDraining := True\<rparr>"

text \<open>The argument is a number of JavaScript; the model takes the integral ones.\<close>

definition setCommandLaneConcurrency :: "string \<Rightarrow> int \<Rightarrow> QueueState \<Rightarrow> QueueState" where
  "setCommandLaneConcurrency lane n st =
     (let cleaned = normalizeLane lane
      in case getLaneState cleaned st of (s, st1) \<Rightarrow>
           drainLane cleaned (set_lane cleaned (s\<lparr>maxConcurrent := max 1 n\<rparr>) st1))"

definition enqueueCommandInLane :: "int \<Rightarrow> string \<Rightarrow> int option \<Rightarrow> bool \<Rightarrow> QueueState \<Rightarrow> QueueState" where
  "enqueueCommandInLane now lane warnAfter onWait st =
     (if gatewayDraining st then emit_q (RejectedAtOnce GatewayDrainingError) st
      else let cleaned = normalizeLane lane
           in case getLaneState cleaned st of (s, st1) \<Rightarrow>
                (let entry = \<lparr>entryId = nextEntryId st1, enqueuedAt = now, warnAfterMs = nullish warnAfter 2000,
                       hasOnWait = onWait\<rparr>
                 in drainLane cleaned (set_lane cleaned (s\<lparr>queue := queue s @ [entry]\<rparr>)
                      (st1\<lparr>nextEntryId := nextEntryId st1 + 1\<rparr>))))"

definition enqueueCommand :: "int \<Rightarrow> int option \<Rightarrow> bool \<Rightarrow> QueueState \<Rightarrow> QueueState" where
  "enqueueCommand now warnAfter onWait st = enqueueCommandInLane now CommandLane_Main warnAfter onWait st"

definition getQueueSize :: "string \<Rightarrow> QueueState \<Rightarrow> nat" where
  "getQueueSize lane st = (case map_of (lanes st) (normalizeLane lane) of None \<Rightarrow> 0 | Some s \<Rightarrow> getLaneDepth s)"

definition getTotalQueueSize :: "QueueState \<Rightarrow> nat" where
  "getTotalQueueSize st = sum_list (map (\<lambda>(_, s). getLaneDepth s) (lanes st))"

definition clearCommandLane :: "string \<Rightarrow> QueueState \<Rightarrow> nat \<times> QueueState" where
  "clearCommandLane lane st =
     (let cleaned = normalizeLane lane
      in case map_of (lanes st) cleaned of None \<Rightarrow> (0, st)
         | Some s \<Rightarrow> (length (queue s),
             fold (\<lambda>entry. emit_q (Rejected (entryId entry) (CommandLaneClearedError cleaned))) (queue s)
               (set_lane cleaned (s\<lparr>queue := []\<rparr>) st)))"

definition reset_lane :: "LaneState \<Rightarrow> LaneState" where
  "reset_lane s = s\<lparr>generation := generation s + 1, activeTaskIds := [], draining := False\<rparr>"

definition resetAllLanes :: "QueueState \<Rightarrow> QueueState" where
  "resetAllLanes st =
     (let st1 = st\<lparr>gatewayDraining := False, lanes := map (\<lambda>(k, s). (k, reset_lane s)) (lanes st)\<rparr>;
          lanesToDrain = map fst (filter (\<lambda>(_, s). queue s \<noteq> []) (lanes st1))
      in push_frames (map Fr_drain lanesToDrain @ [Fr_notify]) st1)"

definition getActiveTaskCount :: "QueueState \<Rightarrow> nat" where
  "getActiveTaskCount st = sum_list (map (\<lambda>(_, s). length (activeTaskIds s)) (lanes st))"

definition waitForActiveTasks :: "int \<Rightarrow> QueueState \<Rightarrow> QueueState" where
  "waitForActiveTasks timeoutMs st =
     (let w = \<lparr>waiterId = nextWaiterId st, waitsFor = concat (map (\<lambda>(_, s). activeTaskIds s) (lanes st))\<rparr>;
          st1 = st\<lparr>nextWaiterId := nextWaiterId st + 1\<rparr>
      in if waitsFor w = [] then emit_q (WaiterResolved (waiterId w) True) st1
         else if timeoutMs \<le> 0 then emit_q (WaiterResolved (waiterId w) False) st1
         else notifyActiveTaskWaiters (st1\<lparr>activeTaskWaiters := activeTaskWaiters st1 @ [w]\<rparr>))"

text \<open>The timer of a waiter fires.\<close>

definition waiter_times_out :: "ActiveTaskWaiter \<Rightarrow> QueueState \<Rightarrow> QueueState" where
  "waiter_times_out w st = resolveActiveTaskWaiter w False st"

end
