(* ===== verification/CommandQueueProps.thy ===== *)
theory CommandQueueProps
  imports CommandQueue
begin

text \<open>
  The command queue as a state machine and its theorems: no lane is left idle with work waiting, the
  limit of a lane is respected, commands start in order and once, and waiters are told.
\<close>


section \<open>Steps\<close>

text \<open>
  The operations a program can call. They can come from the event loop, when no frame is left, and from
  the synchronous part of a command, when some are.
\<close>

inductive queue_call :: "QueueState \<Rightarrow> QueueState \<Rightarrow> bool" where
  enqueue: "queue_call st (enqueueCommandInLane now lane warnAfter onWait st)"
| concurrency: "queue_call st (setCommandLaneConcurrency lane n st)"
| clear: "queue_call st (snd (clearCommandLane lane st))"
| reset: "queue_call st (resetAllLanes st)"
| gateway: "queue_call st (markGatewayDraining st)"
| wait: "queue_call st (waitForActiveTasks timeoutMs st)"
| timeout: "queue_call st (waiter_times_out w st)"

definition in_onWait :: "QueueState \<Rightarrow> bool" where
  "in_onWait st \<longleftrightarrow> (case frames st of Fr_start _ _ # _ \<Rightarrow> True | _ \<Rightarrow> False)"

text \<open>
  The argument \<open>quiet\<close> tells whether the \<open>onWait\<close> callbacks keep away from the queue: between taking a
  command from its lane and starting it the code runs nothing else.
\<close>

inductive queue_step :: "bool \<Rightarrow> QueueState \<Rightarrow> QueueState \<Rightarrow> bool" for quiet where
  frame: "frames st \<noteq> [] \<Longrightarrow> queue_step quiet st (frame_step now st)"
| ends: "\<not> (quiet \<and> in_onWait st) \<Longrightarrow> queue_step quiet st (command_ends taskId ok st)"
| call: "\<not> (quiet \<and> in_onWait st) \<Longrightarrow> queue_call st st' \<Longrightarrow> queue_step quiet st st'"

inductive queue_reachable :: "bool \<Rightarrow> QueueState \<Rightarrow> bool" for quiet where
  start: "queue_reachable quiet getQueueState"
| step: "queue_reachable quiet st \<Longrightarrow> queue_step quiet st st' \<Longrightarrow> queue_reachable quiet st'"

inductive_cases queue_call_cases: "queue_call st st'"
inductive_cases queue_step_cases: "queue_step quiet st st'"

text \<open>An invariant of the queue: it holds at the start and the three kinds of step keep it.\<close>

locale queue_invariant =
  fixes quiet :: bool and I :: "QueueState \<Rightarrow> bool"
  assumes at_start: "I getQueueState"
    and kept_by_frame: "I st \<Longrightarrow> frames st \<noteq> [] \<Longrightarrow> I (frame_step now st)"
    and kept_by_end: "I st \<Longrightarrow> \<not> (quiet \<and> in_onWait st) \<Longrightarrow> I (command_ends taskId ok st)"
    and kept_by_call: "I st \<Longrightarrow> \<not> (quiet \<and> in_onWait st) \<Longrightarrow> queue_call st st' \<Longrightarrow> I st'"
begin

lemma kept: "queue_step quiet st st' \<Longrightarrow> I st \<Longrightarrow> I st'"
  by (erule queue_step.cases) (auto intro: kept_by_frame kept_by_end kept_by_call)

lemma holds: "queue_reachable quiet st \<Longrightarrow> I st"
  by (induction rule: queue_reachable.induct) (auto intro: at_start kept)

end

section \<open>Lanes after an operation\<close>

lemma lane_state_set_lane [simp]:
  "lane_state k (set_lane l s st) = (if k = l then s else lane_state k st)"
  by (simp add: lane_state_def set_lane_def)

lemma set_lane_sel [simp]:
  "frames (set_lane l s st) = frames st" "activeTaskWaiters (set_lane l s st) = activeTaskWaiters st"
  "runningCommands (set_lane l s st) = runningCommands st" "nextTaskId (set_lane l s st) = nextTaskId st"
  "nextEntryId (set_lane l s st) = nextEntryId st" "queueEffects (set_lane l s st) = queueEffects st"
  by (simp_all add: set_lane_def)

lemma other_fields [simp]:
  "lane_state k (st\<lparr>frames := fs\<rparr>) = lane_state k st"
  "lane_state k (st\<lparr>nextTaskId := n\<rparr>) = lane_state k st"
  "lane_state k (st\<lparr>nextEntryId := n\<rparr>) = lane_state k st"
  "lane_state k (st\<lparr>nextWaiterId := n\<rparr>) = lane_state k st"
  "lane_state k (st\<lparr>runningCommands := rs\<rparr>) = lane_state k st"
  "lane_state k (st\<lparr>activeTaskWaiters := ws\<rparr>) = lane_state k st"
  "lane_state k (st\<lparr>gatewayDraining := b\<rparr>) = lane_state k st"
  "lane_state k (emit_q e st) = lane_state k st"
  "lane_state k (push_frames fs st) = lane_state k st"
  by (simp_all add: lane_state_def emit_q_def push_frames_def)

lemma push_frames_sel [simp]:
  "frames (push_frames fs st) = fs @ frames st" "activeTaskWaiters (push_frames fs st) = activeTaskWaiters st"
  "runningCommands (push_frames fs st) = runningCommands st" "nextTaskId (push_frames fs st) = nextTaskId st"
  "nextEntryId (push_frames fs st) = nextEntryId st" "queueEffects (push_frames fs st) = queueEffects st"
  "lanes (push_frames fs st) = lanes st"
  by (simp_all add: push_frames_def)

lemma emit_q_sel [simp]:
  "frames (emit_q e st) = frames st" "activeTaskWaiters (emit_q e st) = activeTaskWaiters st"
  "runningCommands (emit_q e st) = runningCommands st" "nextTaskId (emit_q e st) = nextTaskId st"
  "nextEntryId (emit_q e st) = nextEntryId st" "queueEffects (emit_q e st) = queueEffects st @ [e]"
  "lanes (emit_q e st) = lanes st"
  by (simp_all add: emit_q_def)

lemma getLaneState_sel [simp]:
  "fst (getLaneState l st) = lane_state l st"
  "lane_state k (snd (getLaneState l st)) = lane_state k st"
  "frames (snd (getLaneState l st)) = frames st"
  "activeTaskWaiters (snd (getLaneState l st)) = activeTaskWaiters st"
  "runningCommands (snd (getLaneState l st)) = runningCommands st"
  "nextTaskId (snd (getLaneState l st)) = nextTaskId st"
  "nextEntryId (snd (getLaneState l st)) = nextEntryId st"
  "queueEffects (snd (getLaneState l st)) = queueEffects st"
  by (auto simp: getLaneState_def lane_state_def set_lane_def split: option.splits)

lemma getLaneState_eq: "getLaneState l st = (lane_state l st, snd (getLaneState l st))"
  by (metis getLaneState_sel(1) prod.collapse)

lemma drainLane_sel [simp]:
  "frames (drainLane l st) = (if draining (lane_state l st) then frames st else Fr_pump l # frames st)"
  "lane_state k (drainLane l st) = (if k = l then (lane_state l st)\<lparr>draining := True\<rparr> else lane_state k st)"
  "activeTaskWaiters (drainLane l st) = activeTaskWaiters st" "runningCommands (drainLane l st) = runningCommands st"
  "nextTaskId (drainLane l st) = nextTaskId st" "nextEntryId (drainLane l st) = nextEntryId st"
  "queueEffects (drainLane l st) = queueEffects st"
  by (simp_all add: drainLane_def case_prod_unfold)

lemma resolveActiveTaskWaiter_sel [simp]:
  "lane_state k (resolveActiveTaskWaiter w d st) = lane_state k st"
  "frames (resolveActiveTaskWaiter w d st) = frames st" "lanes (resolveActiveTaskWaiter w d st) = lanes st"
  "runningCommands (resolveActiveTaskWaiter w d st) = runningCommands st"
  "nextTaskId (resolveActiveTaskWaiter w d st) = nextTaskId st"
  "nextEntryId (resolveActiveTaskWaiter w d st) = nextEntryId st"
  "set (activeTaskWaiters (resolveActiveTaskWaiter w d st)) = set (activeTaskWaiters st) - {w}"
  by (auto simp: resolveActiveTaskWaiter_def)

lemma notify_waiter_sel [simp]:
  "lane_state k (notify_waiter w st) = lane_state k st"
  "frames (notify_waiter w st) = frames st" "lanes (notify_waiter w st) = lanes st"
  "runningCommands (notify_waiter w st) = runningCommands st" "nextTaskId (notify_waiter w st) = nextTaskId st"
  "nextEntryId (notify_waiter w st) = nextEntryId st"
  by (simp_all add: notify_waiter_def)

lemma fold_notify_sel:
  "lane_state k (fold notify_waiter ws st) = lane_state k st"
  "frames (fold notify_waiter ws st) = frames st" "lanes (fold notify_waiter ws st) = lanes st"
  "runningCommands (fold notify_waiter ws st) = runningCommands st"
  "nextTaskId (fold notify_waiter ws st) = nextTaskId st"
  "nextEntryId (fold notify_waiter ws st) = nextEntryId st"
  by (induction ws arbitrary: st) simp_all

lemmas notify_sel [simp] = fold_notify_sel [where ws = "activeTaskWaiters st" and st = st for st,
    folded notifyActiveTaskWaiters_def]

lemma fold_emit_sel [simp]:
  "lane_state k (fold (\<lambda>x. emit_q (f x)) xs st) = lane_state k st"
  "frames (fold (\<lambda>x. emit_q (f x)) xs st) = frames st"
  "activeTaskWaiters (fold (\<lambda>x. emit_q (f x)) xs st) = activeTaskWaiters st"
  "lanes (fold (\<lambda>x. emit_q (f x)) xs st) = lanes st"
  "runningCommands (fold (\<lambda>x. emit_q (f x)) xs st) = runningCommands st"
  "nextTaskId (fold (\<lambda>x. emit_q (f x)) xs st) = nextTaskId st"
  "nextEntryId (fold (\<lambda>x. emit_q (f x)) xs st) = nextEntryId st"
  "queueEffects (fold (\<lambda>x. emit_q (f x)) xs st) = queueEffects st @ map f xs"
  by (induction xs arbitrary: st) simp_all

lemma resetAllLanes_sel [simp]:
  "lane_state k (resetAllLanes st)
     = (if map_of (lanes st) k = None then new_lane else reset_lane (lane_state k st))"
  "frames (resetAllLanes st)
     = map Fr_drain (map fst (filter (\<lambda>(_, s). queue s \<noteq> []) (lanes st))) @ Fr_notify # frames st"
  "activeTaskWaiters (resetAllLanes st) = activeTaskWaiters st"
  "runningCommands (resetAllLanes st) = runningCommands st"
  "nextTaskId (resetAllLanes st) = nextTaskId st" "nextEntryId (resetAllLanes st) = nextEntryId st"
  "queueEffects (resetAllLanes st) = queueEffects st"
proof -
  have "map_of (map (\<lambda>(k, s). (k, reset_lane s)) ls) k = map_option reset_lane (map_of ls k)" for ls
    by (induction ls) auto
  then show "lane_state k (resetAllLanes st)
     = (if map_of (lanes st) k = None then new_lane else reset_lane (lane_state k st))"
    by (auto simp: resetAllLanes_def Let_def lane_state_def push_frames_def)
  have "map fst (filter (\<lambda>(_, s). queue s \<noteq> []) (map (\<lambda>(k, s). (k, reset_lane s)) ls))
      = map fst (filter (\<lambda>(_, s). queue s \<noteq> []) ls)" for ls :: "(string \<times> LaneState) list"
    by (induction ls) (auto simp: reset_lane_def)
  then show "frames (resetAllLanes st)
     = map Fr_drain (map fst (filter (\<lambda>(_, s). queue s \<noteq> []) (lanes st))) @ Fr_notify # frames st"
    by (simp add: resetAllLanes_def Let_def del: map_map)
qed (simp_all add: resetAllLanes_def Let_def)

section \<open>No lane is left idle\<close>

definition lane_served :: "QueueState \<Rightarrow> string \<Rightarrow> bool" where
  "lane_served st l \<longleftrightarrow>
     (draining (lane_state l st) \<longrightarrow> Fr_pump l \<in> set (frames st))
     \<and> 1 \<le> maxConcurrent (lane_state l st)
     \<and> (queue (lane_state l st) \<noteq> [] \<longrightarrow>
          maxConcurrent (lane_state l st) \<le> int (length (activeTaskIds (lane_state l st)))
          \<or> Fr_pump l \<in> set (frames st) \<or> Fr_drain l \<in> set (frames st))"

lemma lane_served_new [simp]: "lane_state l st = new_lane \<Longrightarrow> lane_served st l"
  by (simp add: lane_served_def new_lane_def)

text \<open>Only the frames of pumping and draining matter.\<close>

lemma lane_served_same:
  assumes "lane_state l st' = lane_state l st" "lane_served st l"
    "Fr_pump l \<in> set (frames st) \<Longrightarrow> Fr_pump l \<in> set (frames st')"
    "Fr_drain l \<in> set (frames st) \<Longrightarrow> Fr_drain l \<in> set (frames st') \<or> Fr_pump l \<in> set (frames st')"
  shows "lane_served st' l"
  using assms by (auto simp: lane_served_def)

lemma drainLane_served:
  assumes "lane_served st l" shows "lane_served (drainLane lane st) l"
  using assms by (auto simp: lane_served_def)

text \<open>Draining makes good for a change of the lane that keeps the flag and does not lower the limit below one.\<close>

lemma drainLane_serves:
  assumes "lane_served st lane" "draining s = draining (lane_state lane st)" "1 \<le> maxConcurrent s"
  shows "lane_served (drainLane lane (set_lane lane s st)) lane"
  using assms by (auto simp: lane_served_def)

lemma enqueue_served: "lane_served st l \<Longrightarrow> lane_served (enqueueCommandInLane now lane w h st) l"
  by (auto simp: enqueueCommandInLane_def Let_def case_prod_unfold lane_served_def)

lemma concurrency_served: "lane_served st l \<Longrightarrow> lane_served (setCommandLaneConcurrency lane n st) l"
  by (auto simp: setCommandLaneConcurrency_def Let_def case_prod_unfold lane_served_def)

lemma clear_sel [simp]:
  "lane_state k (snd (clearCommandLane lane st))
     = (if k = normalizeLane lane then (lane_state k st)\<lparr>queue := []\<rparr> else lane_state k st)"
  "frames (snd (clearCommandLane lane st)) = frames st"
  "activeTaskWaiters (snd (clearCommandLane lane st)) = activeTaskWaiters st"
  "runningCommands (snd (clearCommandLane lane st)) = runningCommands st"
  "nextTaskId (snd (clearCommandLane lane st)) = nextTaskId st"
  "nextEntryId (snd (clearCommandLane lane st)) = nextEntryId st"
  "queueEffects (snd (clearCommandLane lane st)) = queueEffects st
     @ map (\<lambda>entry. Rejected (entryId entry) (CommandLaneClearedError (normalizeLane lane)))
         (queue (lane_state (normalizeLane lane) st))"
proof -
  let ?k = "normalizeLane lane"
  have "snd (clearCommandLane lane st) = (case map_of (lanes st) ?k of None \<Rightarrow> st
    | Some s \<Rightarrow> fold (\<lambda>entry. emit_q (Rejected (entryId entry) (CommandLaneClearedError ?k))) (queue (lane_state ?k st))
        (set_lane ?k ((lane_state ?k st)\<lparr>queue := []\<rparr>) st))"
    by (simp add: clearCommandLane_def Let_def lane_state_def split: option.splits)
  moreover have "map_of (lanes st) ?k = None \<Longrightarrow> lane_state ?k st = new_lane \<and> new_lane\<lparr>queue := []\<rparr> = new_lane"
    by (simp add: lane_state_def new_lane_def)
  ultimately show
    "lane_state k (snd (clearCommandLane lane st)) = (if k = ?k then (lane_state k st)\<lparr>queue := []\<rparr> else lane_state k st)"
    "frames (snd (clearCommandLane lane st)) = frames st"
    "activeTaskWaiters (snd (clearCommandLane lane st)) = activeTaskWaiters st"
    "runningCommands (snd (clearCommandLane lane st)) = runningCommands st"
    "nextTaskId (snd (clearCommandLane lane st)) = nextTaskId st"
    "nextEntryId (snd (clearCommandLane lane st)) = nextEntryId st"
    "queueEffects (snd (clearCommandLane lane st)) = queueEffects st
       @ map (\<lambda>entry. Rejected (entryId entry) (CommandLaneClearedError ?k)) (queue (lane_state ?k st))"
    by (auto simp: new_lane_def split: option.splits)
qed

lemma clear_served: "lane_served st l \<Longrightarrow> lane_served (snd (clearCommandLane lane st)) l"
  by (auto simp: lane_served_def)

lemma reset_served:
  assumes "lane_served st l" shows "lane_served (resetAllLanes st) l"
proof (cases "map_of (lanes st) l")
  case (Some s)
  then have s: "lane_state l st = s" "(l, s) \<in> set (lanes st)" by (simp_all add: lane_state_def map_of_SomeD)
  then have "queue s \<noteq> [] \<Longrightarrow> Fr_drain l \<in> set (frames (resetAllLanes st))" by (force simp: image_iff)
  with s assms Some show ?thesis by (auto simp: lane_served_def reset_lane_def)
qed simp

lemma wait_sel [simp]:
  "lane_state l (waitForActiveTasks n st) = lane_state l st" "frames (waitForActiveTasks n st) = frames st"
  "runningCommands (waitForActiveTasks n st) = runningCommands st" "lanes (waitForActiveTasks n st) = lanes st"
  "nextTaskId (waitForActiveTasks n st) = nextTaskId st" "nextEntryId (waitForActiveTasks n st) = nextEntryId st"
  by (simp_all add: waitForActiveTasks_def Let_def)

lemma call_served:
  assumes "queue_call st st'" "lane_served st l" shows "lane_served st' l"
  using assms
proof cases
  case gateway
  with assms(2) show ?thesis by (simp add: markGatewayDraining_def lane_served_def)
next
  case timeout
  with assms(2) show ?thesis by (simp add: waiter_times_out_def lane_served_def)
qed (use assms(2) enqueue_served concurrency_served clear_served reset_served in \<open>auto simp: lane_served_def\<close>)

lemma ends_served:
  assumes "lane_served st l" shows "lane_served (command_ends taskId ok st) l"
proof (cases "map_of (runningCommands st) taskId")
  case (Some c)
  with assms show ?thesis
    by (auto simp: command_ends_def completeTask_def Let_def lane_served_def split: if_splits)
qed (use assms in \<open>simp add: command_ends_def\<close>)

lemma pump_served:
  assumes "lane_served st l" "frames st = Fr_pump lane # fs"
  shows "lane_served (pump_test now lane st) l"
  using assms by (auto simp: pump_test_def Let_def lane_served_def split: list.splits)

lemma frame_served:
  assumes "lane_served st l" "frames st \<noteq> []"
  shows "lane_served (frame_step now st) l"
proof -
  obtain f fs where fs: "frames st = f # fs" using assms(2) by (cases "frames st") auto
  show ?thesis
  proof (cases f)
    case (Fr_pump lane)
    with fs assms(1) pump_served show ?thesis by (simp add: frame_step_def)
  next
    case (Fr_start lane e)
    with fs assms(1) show ?thesis by (auto simp: frame_step_def start_entry_def Let_def lane_served_def)
  next
    case (Fr_settle e ok)
    with fs assms(1) show ?thesis by (auto simp: frame_step_def settle_entry_def lane_served_def)
  next
    case (Fr_drain lane)
    with fs assms(1) show ?thesis by (auto simp: frame_step_def lane_served_def)
  next
    case Fr_notify
    with fs assms(1) show ?thesis by (auto simp: frame_step_def lane_served_def)
  qed
qed

interpretation served: queue_invariant quiet "\<lambda>st. lane_served st l" for quiet l
  by unfold_locales
    (auto simp: lane_state_def getQueueState_def intro: frame_served ends_served call_served)

text \<open>
  C12. Work is never left waiting beside free capacity: in every state that calls, completions and resets can lead to,
  once the call stack is empty, a lane with commands waiting is running as many as its limit (at least
  one), so that a completion will start the next. This holds for reentrant calls too.
\<close>

theorem no_lane_stalls:
  assumes "queue_reachable quiet st" "frames st = []" "queue (lane_state l st) \<noteq> []"
  shows "1 \<le> maxConcurrent (lane_state l st)
    \<and> maxConcurrent (lane_state l st) \<le> int (length (activeTaskIds (lane_state l st)))"
  using served.holds [OF assms(1), of l] assms(2,3) by (simp add: lane_served_def)

section \<open>The call stack empties\<close>

text \<open>The waiting commands of all lanes, and the work of the frames.\<close>

definition waiting_count :: "QueueState \<Rightarrow> nat" where
  "waiting_count st = sum_list (map (\<lambda>(_, s). length (queue s)) (lanes st))"

fun frame_weight :: "Frame \<Rightarrow> nat" where
  "frame_weight (Fr_start lane entry) = 2"
| "frame_weight (Fr_drain lane) = 2"
| "frame_weight _ = 1"

definition frame_work :: "QueueState \<Rightarrow> nat" where
  "frame_work st = 3 * waiting_count st + sum_list (map frame_weight (frames st))"

lemma waiting_set_lane:
  "waiting_count (set_lane l s st) + length (queue (lane_state l st)) = waiting_count st + length (queue s)"
proof -
  have "sum_list (map (\<lambda>(_, s). length (queue s)) (AList.update l s ls))
      + length (queue (nullish (map_of ls l) new_lane))
      = sum_list (map (\<lambda>(_, s). length (queue s)) ls) + length (queue s)" for ls
    by (induction ls) (auto simp: new_lane_def)
  then show ?thesis by (simp add: waiting_count_def set_lane_def lane_state_def)
qed

lemma waiting_lanes: "lanes st' = lanes st \<Longrightarrow> waiting_count st' = waiting_count st"
  by (simp add: waiting_count_def)

lemma waiting_same [simp]:
  "waiting_count (emit_q e st) = waiting_count st" "waiting_count (push_frames fs st) = waiting_count st"
  "waiting_count (st\<lparr>frames := fs\<rparr>) = waiting_count st" "waiting_count (st\<lparr>nextTaskId := n\<rparr>) = waiting_count st"
  "waiting_count (st\<lparr>runningCommands := rs\<rparr>) = waiting_count st"
  "waiting_count (notifyActiveTaskWaiters st) = waiting_count st"
  by (simp_all add: waiting_count_def)

lemma waiting_getLane [simp]: "waiting_count (snd (getLaneState l st)) = waiting_count st"
proof (cases "map_of (lanes st) l")
  case None
  then have "lane_state l st = new_lane" by (simp add: lane_state_def)
  then show ?thesis using None waiting_set_lane [of l new_lane st] by (simp add: getLaneState_def)
qed (simp add: getLaneState_def)

lemma waiting_drainLane [simp]: "waiting_count (drainLane l st) = waiting_count st"
  using waiting_set_lane [of l "(lane_state l st)\<lparr>draining := True\<rparr>" "snd (getLaneState l st)"]
  by (simp add: drainLane_def case_prod_unfold)

lemma frame_work_decreases:
  assumes "frames st \<noteq> []"
  shows "frame_work (frame_step now st) < frame_work st"
proof -
  obtain f fs where fs: "frames st = f # fs" using assms by (cases "frames st") auto
  show ?thesis
  proof (cases f)
    case (Fr_pump lane)
    let ?s = "lane_state lane st"
    have closed: "frame_work (set_lane lane (?s\<lparr>draining := False\<rparr>) (st\<lparr>frames := tl (frames st)\<rparr>)) < frame_work st"
      using fs Fr_pump waiting_set_lane [of lane "?s\<lparr>draining := False\<rparr>" "st\<lparr>frames := tl (frames st)\<rparr>"]
      by (simp add: frame_work_def)
    show ?thesis
    proof (cases "queue ?s")
      case Nil
      with closed fs Fr_pump show ?thesis by (simp add: frame_step_def pump_test_def Let_def)
    next
      case (Cons entry rest)
      have "waiting_count (set_lane lane (?s\<lparr>queue := rest\<rparr>) st) + 1 = waiting_count st"
        using Cons waiting_set_lane [of lane "?s\<lparr>queue := rest\<rparr>" st] by simp
      with closed Cons fs Fr_pump show ?thesis
        by (simp add: frame_step_def pump_test_def Let_def frame_work_def)
    qed
  next
    case (Fr_start lane entry)
    let ?st = "st\<lparr>frames := fs\<rparr>"
    have "waiting_count (start_entry lane entry ?st) = waiting_count st"
      using waiting_set_lane [of lane "(lane_state lane ?st)\<lparr>activeTaskIds := activeTaskIds (lane_state lane ?st) @ [nextTaskId ?st]\<rparr>"
          "?st\<lparr>nextTaskId := nextTaskId ?st + 1\<rparr>"]
      by (simp add: start_entry_def Let_def)
    with fs Fr_start show ?thesis by (simp add: frame_step_def frame_work_def) (simp add: start_entry_def Let_def)
  qed (use fs in \<open>simp_all add: frame_step_def frame_work_def settle_entry_def\<close>)
qed

text \<open>What the code does after a call when nothing is called from within: the frames run out.\<close>

function run_frames :: "int \<Rightarrow> QueueState \<Rightarrow> QueueState" where
  "run_frames now st = (if frames st = [] then st else run_frames now (frame_step now st))"
  by pat_completeness auto
termination
  by (relation "measure (\<lambda>(now, st). frame_work st)") (auto intro: frame_work_decreases)

declare run_frames.simps [simp del]

lemma run_frames_step: "frames st \<noteq> [] \<Longrightarrow> run_frames now st = run_frames now (frame_step now st)"
  by (subst run_frames.simps) simp

lemma run_frames_done: "frames st = [] \<Longrightarrow> run_frames now st = st"
  by (subst run_frames.simps) simp

lemma run_frames_reachable: "queue_reachable quiet st \<Longrightarrow> queue_reachable quiet (run_frames now st)"
proof (induction now st rule: run_frames.induct)
  case (1 now st)
  then show ?case
    by (cases "frames st = []")
      (auto simp: run_frames_done run_frames_step intro: queue_reachable.step queue_step.frame)
qed

text \<open>
  C15. The loops that pump the lanes end: from any state, when the commands they start call nothing, the
  call stack empties within three iterations for each waiting command and two for each frame.
\<close>

theorem pumping_terminates:
  "\<exists>n. n \<le> 3 * waiting_count st + 2 * length (frames st) \<and> frames ((frame_step now ^^ n) st) = []
     \<and> (frame_step now ^^ n) st = run_frames now st"
proof -
  have steps: "\<exists>n. n \<le> frame_work st \<and> frames ((frame_step now ^^ n) st) = [] \<and> (frame_step now ^^ n) st = run_frames now st"
    for st
  proof (induction "frame_work st" arbitrary: st rule: less_induct)
    case less
    show ?case
    proof (cases "frames st = []")
      case False
      from less [OF frame_work_decreases [OF False, of now]] obtain n where
        n: "n \<le> frame_work (frame_step now st)" "frames ((frame_step now ^^ n) (frame_step now st)) = []"
          "(frame_step now ^^ n) (frame_step now st) = run_frames now (frame_step now st)" by blast
      have "Suc n \<le> frame_work st" using n(1) frame_work_decreases [OF False, of now] by simp
      moreover have "(frame_step now ^^ Suc n) st = (frame_step now ^^ n) (frame_step now st)" by (simp add: funpow_swap1)
      ultimately show ?thesis using n(2,3) run_frames_step [OF False, of now] by metis
    qed (auto simp: run_frames_done intro: exI [of _ 0])
  qed
  have "frame_weight f \<le> 2" for f by (cases f) simp_all
  then have "sum_list (map frame_weight fs) \<le> (\<Sum>_ \<leftarrow> fs. 2)" for fs by (intro sum_list_mono) simp
  then have "sum_list (map frame_weight fs) \<le> 2 * length fs" for fs
    by (metis mult.commute sum_list_triv of_nat_id)
  then have "frame_work st \<le> 3 * waiting_count st + 2 * length (frames st)" by (simp add: frame_work_def)
  with steps [of st] show ?thesis by (meson le_trans)
qed

text \<open>Two commands for the main lane, which runs one at a time.\<close>

definition example_queue :: QueueState where
  "example_queue = run_frames 6 (enqueueCommandInLane 6 '' main'' None False
     (run_frames 5 (enqueueCommandInLane 5 '''' None False getQueueState)))"

lemma call_reachable: "queue_reachable quiet st \<Longrightarrow> frames st = [] \<Longrightarrow> queue_call st st' \<Longrightarrow> queue_reachable quiet st'"
  by (rule queue_reachable.step) (auto intro: queue_step.call simp: in_onWait_def)

lemma run_frames_empty [simp]: "frames (run_frames now st) = []"
  by (induction now st rule: run_frames.induct) (metis run_frames_done run_frames_step)

lemma example_queue_reachable: "queue_reachable quiet example_queue"
  unfolding example_queue_def
  by (intro run_frames_reachable call_reachable [OF _ _ queue_call.enqueue] queue_reachable.start)
    (simp_all add: getQueueState_def)

lemma example_queue_lane:
  "let s = lane_state ''main'' example_queue
   in map entryId (queue s) = [1] \<and> activeTaskIds s = [1] \<and> maxConcurrent s = 1"
  by code_simp

theorem no_lane_stalls_witness:
  "maxConcurrent (lane_state ''main'' example_queue) \<le> int (length (activeTaskIds (lane_state ''main'' example_queue)))"
proof -
  have "frames example_queue = []" by (simp add: example_queue_def)
  moreover have "queue (lane_state ''main'' example_queue) \<noteq> []"
    using example_queue_lane by (auto simp: Let_def)
  ultimately show ?thesis using no_lane_stalls [OF example_queue_reachable [of True]] by blast
qed

section \<open>Active commands\<close>

text \<open>
  An active identifier of a lane is that of a started command of the lane and of its current generation,
  so that its end will be noticed; identifiers are fresh.
\<close>

definition active_running :: "QueueState \<Rightarrow> bool" where
  "active_running st \<longleftrightarrow>
     (\<forall>l i. i \<in> set (activeTaskIds (lane_state l st)) \<longrightarrow>
        (\<exists>c. map_of (runningCommands st) i = Some c \<and> laneOf c = l \<and> generationOf c = generation (lane_state l st)))
     \<and> (\<forall>l. distinct (activeTaskIds (lane_state l st)))
     \<and> (\<forall>i c. map_of (runningCommands st) i = Some c \<longrightarrow> i < nextTaskId st)"

lemma active_running_same:
  assumes "active_running st" "runningCommands st' = runningCommands st" "nextTaskId st' = nextTaskId st"
    "\<And>l. activeTaskIds (lane_state l st') = activeTaskIds (lane_state l st)
       \<and> generation (lane_state l st') = generation (lane_state l st)"
  shows "active_running st'"
  using assms by (simp add: active_running_def)

lemma active_running_reset: "active_running st \<Longrightarrow> active_running (resetAllLanes st)"
  by (auto simp: active_running_def new_lane_def reset_lane_def)

lemma call_active:
  assumes "queue_call st st'" "active_running st"
  shows "active_running st'"
  using assms
proof cases
  case reset
  with assms(2) active_running_reset show ?thesis by blast
qed (auto intro!: active_running_same [OF assms(2)] simp: enqueueCommandInLane_def setCommandLaneConcurrency_def
    Let_def case_prod_unfold markGatewayDraining_def waiter_times_out_def)

lemma ends_active:
  assumes "active_running st"
  shows "active_running (command_ends taskId ok st)"
proof (cases "map_of (runningCommands st) taskId")
  case (Some c)
  have inv: "\<And>l i. i \<in> set (activeTaskIds (lane_state l st)) \<Longrightarrow>
      \<exists>c. map_of (runningCommands st) i = Some c \<and> laneOf c = l \<and> generationOf c = generation (lane_state l st)"
    using assms by (auto simp: active_running_def)
  show ?thesis
  proof (cases "generationOf c = generation (lane_state (laneOf c) st)")
    case True
    have "i = taskId \<Longrightarrow> l = laneOf c" if "i \<in> set (activeTaskIds (lane_state l st))" for i l
      using inv [OF that] Some by auto
    with assms Some True show ?thesis
      by (auto simp: command_ends_def completeTask_def Let_def active_running_def delete_conv) 
  next
    case False
    have "i \<noteq> taskId" if "i \<in> set (activeTaskIds (lane_state l st))" for i l
      using inv [OF that] Some False by auto
    with assms Some False show ?thesis
      by (auto simp: command_ends_def completeTask_def Let_def active_running_def delete_conv)
  qed
qed (use assms in \<open>simp add: command_ends_def\<close>)

lemma start_active:
  assumes "active_running st"
  shows "active_running (start_entry lane entry st)"
proof -
  have "i < nextTaskId st" if "i \<in> set (activeTaskIds (lane_state l st))" for i l
    using assms that by (fastforce simp: active_running_def)
  with assms show ?thesis
    by (auto simp: start_entry_def Let_def active_running_def less_Suc_eq split: if_splits)
qed

lemma pump_active: "active_running st \<Longrightarrow> active_running (pump_test now lane st)"
  by (erule active_running_same) (auto simp: pump_test_def Let_def split: list.splits)

lemma frame_active:
  assumes "active_running st"
  shows "active_running (frame_step now st)"
proof (cases "frames st")
  case (Cons f fs)
  have st: "active_running (st\<lparr>frames := fs\<rparr>)" using assms by (simp add: active_running_def)
  show ?thesis
  proof (cases f)
    case (Fr_start lane e)
    with Cons start_active [OF st] show ?thesis by (simp add: frame_step_def)
  qed (use Cons assms pump_active in \<open>auto simp: frame_step_def settle_entry_def intro!: active_running_same [OF assms]\<close>)
qed (use assms in \<open>simp add: frame_step_def\<close>)

lemma active_at_start: "active_running getQueueState"
  by (simp add: active_running_def getQueueState_def lane_state_def new_lane_def)

interpretation active: queue_invariant quiet active_running for quiet
  by unfold_locales (blast intro: active_at_start frame_active ends_active call_active)+

section \<open>A completion starts the next command\<close>

lemma run_one:
  assumes fs: "frames st = [Fr_pump l, Fr_settle e' ok]" and q: "queue (lane_state l st) = e # rest"
    and room: "int (length (activeTaskIds (lane_state l st))) + 1 = maxConcurrent (lane_state l st)"
  shows "Started l (entryId e) (nextTaskId st) \<in> set (queueEffects (run_frames now st))"
    and "queue (lane_state l (run_frames now st)) = rest"
    and "length (activeTaskIds (lane_state l (run_frames now st))) = length (activeTaskIds (lane_state l st)) + 1"
proof -
  let ?st1 = "pump_test now l st"
  have st1: "frames ?st1 = [Fr_start l e, Fr_pump l, Fr_settle e' ok]" "queue (lane_state l ?st1) = rest"
      "activeTaskIds (lane_state l ?st1) = activeTaskIds (lane_state l st)" "nextTaskId ?st1 = nextTaskId st"
      "maxConcurrent (lane_state l ?st1) = maxConcurrent (lane_state l st)"
    using q room fs by (simp_all add: pump_test_def Let_def)
  let ?st2 = "start_entry l e (?st1\<lparr>frames := [Fr_pump l, Fr_settle e' ok]\<rparr>)"
  have st2: "frames ?st2 = [Fr_pump l, Fr_settle e' ok]" "queue (lane_state l ?st2) = rest"
      "length (activeTaskIds (lane_state l ?st2)) = length (activeTaskIds (lane_state l st)) + 1"
      "maxConcurrent (lane_state l ?st2) = maxConcurrent (lane_state l st)"
      "Started l (entryId e) (nextTaskId st) \<in> set (queueEffects ?st2)"
    using st1 by (simp_all add: start_entry_def Let_def)
  let ?st3 = "set_lane l ((lane_state l ?st2)\<lparr>draining := False\<rparr>) (?st2\<lparr>frames := [Fr_settle e' ok]\<rparr>)"
  have "pump_test now l ?st2 = ?st3"
    using st2 room by (auto simp: pump_test_def Let_def split: list.splits)
  moreover have "frames ?st3 = [Fr_settle e' ok]" by simp
  ultimately have "run_frames now st = settle_entry e' ok (?st3\<lparr>frames := []\<rparr>)"
    using fs st1(1) st2(1)
    by (simp add: run_frames_step frame_step_def run_frames_done settle_entry_def)
  with st2 show "Started l (entryId e) (nextTaskId st) \<in> set (queueEffects (run_frames now st))"
    "queue (lane_state l (run_frames now st)) = rest"
    "length (activeTaskIds (lane_state l (run_frames now st))) = length (activeTaskIds (lane_state l st)) + 1"
    by (simp_all add: settle_entry_def)
qed

lemma length_filter_one: "distinct xs \<Longrightarrow> i \<in> set xs \<Longrightarrow> length (filter (\<lambda>j. j \<noteq> i) xs) + 1 = length xs"
proof (induction xs)
  case (Cons x xs)
  show ?case
  proof (cases "x = i")
    case True
    with Cons.prems have "filter (\<lambda>j. j \<noteq> i) xs = xs" by (auto simp: filter_id_conv)
    with True show ?thesis by simp
  qed (use Cons in auto)
qed simp

text \<open>
  Progress: when a lane has commands waiting and is not above its limit, the end of any of its active
  commands, in whatever way it ends, starts the command that has waited longest, and the lane runs as
  many as before.
\<close>

theorem completion_starts_next:
  assumes "queue_reachable quiet st" "frames st = []" "i \<in> set (activeTaskIds (lane_state l st))"
    "queue (lane_state l st) = e # rest"
    "int (length (activeTaskIds (lane_state l st))) \<le> maxConcurrent (lane_state l st)"
  shows "let st' = run_frames now (command_ends i ok st) in
    Started l (entryId e) (nextTaskId st) \<in> set (queueEffects st')
    \<and> queue (lane_state l st') = rest
    \<and> length (activeTaskIds (lane_state l st')) = length (activeTaskIds (lane_state l st))"
proof -
  let ?s = "lane_state l st" and ?ended = "command_ends i ok st"
  have full: "int (length (activeTaskIds ?s)) = maxConcurrent ?s"
    using served.holds [OF assms(1), of l] assms(2,4,5) by (simp add: lane_served_def)
  obtain c where c: "map_of (runningCommands st) i = Some c" "laneOf c = l" "generationOf c = generation ?s"
    using active.holds [OF assms(1)] assms(3) by (auto simp: active_running_def)
  have "distinct (activeTaskIds ?s)" using active.holds [OF assms(1)] by (simp add: active_running_def)
  then have "length (filter (\<lambda>j. j \<noteq> i) (activeTaskIds ?s)) + 1 = length (activeTaskIds ?s)"
    using assms(3) by (rule length_filter_one)
  then have less: "length (activeTaskIds (lane_state l ?ended)) + 1 = length (activeTaskIds ?s)"
    using c by (simp add: command_ends_def completeTask_def Let_def)
  have "frames ?ended = [Fr_pump l, Fr_settle (entryOf c) ok]" "queue (lane_state l ?ended) = e # rest"
      "maxConcurrent (lane_state l ?ended) = maxConcurrent ?s" "nextTaskId ?ended = nextTaskId st"
    using c assms(2,4) by (simp_all add: command_ends_def completeTask_def Let_def)
  from run_one [OF this(1,2), where now = now] this(3,4) less full show ?thesis by (simp add: Let_def)
qed

theorem completion_starts_next_witness:
  "queue (lane_state ''main'' (run_frames 7 (command_ends 1 True example_queue))) = []"
proof -
  let ?s = "lane_state ''main'' example_queue"
  obtain e where e: "queue ?s = [e]" "activeTaskIds ?s = [1]" "maxConcurrent ?s = 1"
    using example_queue_lane by (auto simp: Let_def)
  have "frames example_queue = []" by (simp add: example_queue_def)
  from completion_starts_next [OF example_queue_reachable [of True] this _ e(1), of 1 7 True] e(2,3)
  show ?thesis by (simp add: Let_def)
qed

section \<open>Order and limits\<close>

fun is_start :: "Frame \<Rightarrow> bool" where
  "is_start (Fr_start _ _) = True"
| "is_start _ = False"

text \<open>The command of a lane that has been taken from the queue and is about to start, and those started.\<close>

definition taken :: "string \<Rightarrow> QueueState \<Rightarrow> QueueEntry list" where
  "taken l st = (case frames st of Fr_start k e # _ \<Rightarrow> if k = l then [e] else [] | _ \<Rightarrow> [])"

definition started_in :: "string \<Rightarrow> QueueEffect list \<Rightarrow> nat list" where
  "started_in l es = concat (map (\<lambda>x. case x of Started k e _ \<Rightarrow> if k = l then [e] else [] | _ \<Rightarrow> []) es)"

definition cleared :: "QueueEffect list \<Rightarrow> nat set" where
  "cleared es = {e. \<exists>lane. Rejected e (CommandLaneClearedError lane) \<in> set es}"

lemma started_in_append [simp]: "started_in l (xs @ ys) = started_in l xs @ started_in l ys"
  by (simp add: started_in_def)

lemma started_in_single [simp]:
  "started_in l [Started k e t] = (if k = l then [e] else [])" "started_in l [WaitWarned k e w n] = []"
  "started_in l [Resolved e] = []" "started_in l [Rejected e r] = []" "started_in l [RejectedAtOnce r] = []"
  "started_in l [WaiterResolved i b] = []" "started_in l [] = []"
  "started_in l (map (\<lambda>x. Rejected (f x) r) xs) = []"
  by (simp_all add: started_in_def comp_def)

lemma cleared_append [simp]: "cleared (xs @ ys) = cleared xs \<union> cleared ys"
  by (auto simp: cleared_def)

lemma cleared_single [simp]:
  "cleared [] = {}" "cleared [Started k e t] = {}" "cleared [WaitWarned k e ms n] = {}" "cleared [Resolved e] = {}"
  "cleared [RejectedAtOnce r] = {}" "cleared [WaiterResolved i b] = {}" "cleared [Rejected e TaskRejected] = {}"
  "cleared (map (\<lambda>x. Rejected (f x) (CommandLaneClearedError k)) xs) = f ` set xs"
  by (auto simp: cleared_def)

lemma notify_effects:
  "started_in l (queueEffects (notifyActiveTaskWaiters st)) = started_in l (queueEffects st)"
  "cleared (queueEffects (notifyActiveTaskWaiters st)) = cleared (queueEffects st)"
proof -
  have one: "started_in l (queueEffects (resolveActiveTaskWaiter w d st)) = started_in l (queueEffects st)
      \<and> cleared (queueEffects (resolveActiveTaskWaiter w d st)) = cleared (queueEffects st)" for w d st
    by (simp add: resolveActiveTaskWaiter_def)
  have "started_in l (queueEffects (fold notify_waiter ws st)) = started_in l (queueEffects st)
      \<and> cleared (queueEffects (fold notify_waiter ws st)) = cleared (queueEffects st)" for ws st
    by (induction ws arbitrary: st) (simp_all add: notify_waiter_def one)
  then show "started_in l (queueEffects (notifyActiveTaskWaiters st)) = started_in l (queueEffects st)"
    "cleared (queueEffects (notifyActiveTaskWaiters st)) = cleared (queueEffects st)"
    by (simp_all add: notifyActiveTaskWaiters_def)
qed

lemma timeout_effects [simp]:
  "started_in l (queueEffects (waiter_times_out w st)) = started_in l (queueEffects st)"
  "cleared (queueEffects (waiter_times_out w st)) = cleared (queueEffects st)"
  by (simp_all add: waiter_times_out_def resolveActiveTaskWaiter_def)

lemma wait_effects [simp]:
  "started_in l (queueEffects (waitForActiveTasks n st)) = started_in l (queueEffects st)"
  "cleared (queueEffects (waitForActiveTasks n st)) = cleared (queueEffects st)"
  by (simp_all add: waitForActiveTasks_def Let_def notify_effects)

text \<open>The commands of a lane in the order they were enqueued, as far as they were not cleared.\<close>

definition known :: "string \<Rightarrow> QueueState \<Rightarrow> nat list" where
  "known l st = started_in l (queueEffects st) @ map entryId (taken l st @ queue (lane_state l st))"

definition accounted :: "QueueState \<Rightarrow> bool" where
  "accounted st \<longleftrightarrow> (\<forall>l. sorted_wrt (<) (known l st) \<and> (\<forall>e \<in> set (known l st). e < nextEntryId st))
     \<and> (\<forall>e < nextEntryId st. e \<in> cleared (queueEffects st) \<or> (\<exists>l. e \<in> set (known l st)))"

definition room_kept :: "QueueState \<Rightarrow> bool" where
  "room_kept st \<longleftrightarrow> (\<forall>f \<in> set (tl (frames st)). \<not> is_start f)
     \<and> (\<forall>l e fs. frames st = Fr_start l e # fs \<longrightarrow>
          int (length (activeTaskIds (lane_state l st))) < maxConcurrent (lane_state l st))"

definition calm :: "QueueState \<Rightarrow> bool" where
  "calm st \<longleftrightarrow> (\<forall>f \<in> set (frames st). \<not> is_start f)"

lemma calm_room: "calm st \<Longrightarrow> room_kept st"
  by (cases "frames st") (auto simp: calm_def room_kept_def)

lemma calm_taken [simp]: "calm st \<Longrightarrow> taken l st = []"
  by (cases "frames st" rule: list.exhaust; cases "hd (frames st)") (auto simp: calm_def taken_def)

lemma quiet_calm: "room_kept st \<Longrightarrow> \<not> in_onWait st \<Longrightarrow> calm st"
  by (cases "frames st"; cases "hd (frames st)") (auto simp: calm_def room_kept_def in_onWait_def)

lemma accountedI:
  assumes "\<And>l. sorted_wrt (<) (known l st)" "\<And>l e. e \<in> set (known l st) \<Longrightarrow> e < nextEntryId st"
    "\<And>e. e < nextEntryId st \<Longrightarrow> e \<in> cleared (queueEffects st) \<or> (\<exists>l. e \<in> set (known l st))"
  shows "accounted st"
  using assms by (simp add: accounted_def)

lemma accountedD:
  assumes "accounted st"
  shows "sorted_wrt (<) (known l st)" "e \<in> set (known l st) \<Longrightarrow> e < nextEntryId st"
    "e < nextEntryId st \<Longrightarrow> e \<in> cleared (queueEffects st) \<or> (\<exists>l. e \<in> set (known l st))"
  using assms by (auto simp: accounted_def)

lemma timeout_sel [simp]:
  "lane_state l (waiter_times_out w st) = lane_state l st" "frames (waiter_times_out w st) = frames st"
  "runningCommands (waiter_times_out w st) = runningCommands st"
  "nextTaskId (waiter_times_out w st) = nextTaskId st" "nextEntryId (waiter_times_out w st) = nextEntryId st"
  by (simp_all add: waiter_times_out_def)

lemma accounted_same:
  assumes "accounted st" "\<And>l. known l st' = known l st" "nextEntryId st' = nextEntryId st"
    "cleared (queueEffects st') = cleared (queueEffects st)"
  shows "accounted st'"
  using assms by (simp add: accounted_def)

lemma drain_calm: "calm st \<Longrightarrow> calm (drainLane l st)"
  by (auto simp: calm_def)

lemma known_calm: "calm st \<Longrightarrow> known l st = started_in l (queueEffects st) @ map entryId (queue (lane_state l st))"
  by (simp add: known_def)

lemma call_calm: "queue_call st st' \<Longrightarrow> calm st \<Longrightarrow> calm st'"
proof (erule queue_call.cases; clarify)
  fix now lane w h
  show "calm st \<Longrightarrow> calm (enqueueCommandInLane now lane w h st)"
    by (auto simp: enqueueCommandInLane_def Let_def case_prod_unfold calm_def)
next
  fix lane n
  show "calm st \<Longrightarrow> calm (setCommandLaneConcurrency lane n st)"
    by (auto simp: setCommandLaneConcurrency_def Let_def case_prod_unfold calm_def)
qed (auto simp: calm_def markGatewayDraining_def waiter_times_out_def)

lemma enqueue_accounted:
  assumes "accounted st" "calm st"
  shows "accounted (enqueueCommandInLane now lane w h st)"
proof (cases "gatewayDraining st")
  case True
  with assms(1) show ?thesis
    by (intro accounted_same [OF assms(1)]) (simp_all add: enqueueCommandInLane_def known_def taken_def)
next
  case False
  let ?st = "enqueueCommandInLane now lane w h st" and ?k = "normalizeLane lane"
  have "calm ?st" using call_calm [OF queue_call.enqueue assms(2)] .
  then have k: "known l ?st = (if l = ?k then known l st @ [nextEntryId st] else known l st)" for l
    using False assms(2) by (simp add: known_calm) (simp add: enqueueCommandInLane_def Let_def case_prod_unfold)
  have "nextEntryId ?st = nextEntryId st + 1" "queueEffects ?st = queueEffects st"
    using False by (simp_all add: enqueueCommandInLane_def Let_def case_prod_unfold)
  note sel = this and acc = accountedD [OF assms(1)]
  show ?thesis
  proof (rule accountedI)
    show "sorted_wrt (<) (known l ?st)" for l using acc(1,2) by (auto simp: k sorted_wrt_append)
    show "e \<in> set (known l ?st) \<Longrightarrow> e < nextEntryId ?st" for l e
      using acc(2) [of e] by (auto simp: k sel less_Suc_eq split: if_splits)
    fix e assume "e < nextEntryId ?st"
    then consider "e < nextEntryId st" | "e = nextEntryId st" by (auto simp: sel less_Suc_eq)
    then show "e \<in> cleared (queueEffects ?st) \<or> (\<exists>l. e \<in> set (known l ?st))"
    proof cases
      case 1
      then show ?thesis using acc(3) [OF 1] by (metis Un_iff k sel(2) set_append)
    qed (auto simp: k)
  qed
qed

lemma clear_accounted:
  assumes "accounted st" "calm st"
  shows "accounted (snd (clearCommandLane lane st))"
proof -
  let ?st = "snd (clearCommandLane lane st)" and ?k = "normalizeLane lane"
  have "calm ?st" using call_calm [OF queue_call.clear assms(2)] .
  then have k: "known l ?st = (if l = ?k then started_in l (queueEffects st) else known l st)" for l
    using assms(2) by (simp add: known_calm)
  have "set (known ?k st) = set (started_in ?k (queueEffects st)) \<union> entryId ` set (queue (lane_state ?k st))"
    using assms(2) by (simp add: known_calm)
  moreover have "sorted_wrt (<) (started_in ?k (queueEffects st))"
    using assms by (simp add: accounted_def known_calm sorted_wrt_append)
  moreover note acc = accountedD [OF assms(1)]
  ultimately show ?thesis
  proof (intro accountedI, goal_cases)
    case (1 l)
    then show ?case by (simp add: k acc(1))
  next
    case (2 l e)
    then show ?case using acc(2) [of e l] acc(2) [of e ?k] by (simp add: k split: if_splits)
  next
    case (3 e)
    then consider "e \<in> cleared (queueEffects st)" | l where "e \<in> set (known l st)" using acc(3) by fastforce
    then show ?case
    proof cases
      case (2 l)
      with 3 show ?thesis by (cases "l = ?k") (auto simp: k)
    qed simp
  qed
qed

lemma call_accounted:
  assumes "queue_call st st'" "accounted st" "calm st"
  shows "accounted st'"
proof -
  have calm': "calm st'" by (rule call_calm [OF assms(1,3)])
  from assms(1) show ?thesis
  proof cases
    case reset
    have "map_of (lanes st) l = None \<Longrightarrow> queue (lane_state l st) = [] \<and> queue new_lane = []" for l
      by (simp add: lane_state_def new_lane_def)
    then show ?thesis using reset assms(2,3) calm'
      by (intro accounted_same [OF assms(2)]) (auto simp: known_calm reset_lane_def)
  qed (use assms(2,3) calm' enqueue_accounted clear_accounted in
      \<open>auto intro!: accounted_same [OF assms(2)] simp: known_calm setCommandLaneConcurrency_def Let_def
        case_prod_unfold markGatewayDraining_def\<close>)
qed

lemma ends_sel:
  "frames (command_ends i ok st) = (case map_of (runningCommands st) i of None \<Rightarrow> frames st
     | Some c \<Rightarrow> (if generationOf c = generation (lane_state (laneOf c) st) then [Fr_pump (laneOf c)] else [])
         @ Fr_settle (entryOf c) ok # frames st)"
  "queue (lane_state l (command_ends i ok st)) = queue (lane_state l st)"
  "maxConcurrent (lane_state l (command_ends i ok st)) = maxConcurrent (lane_state l st)"
  "length (activeTaskIds (lane_state l (command_ends i ok st))) \<le> length (activeTaskIds (lane_state l st))"
  "nextEntryId (command_ends i ok st) = nextEntryId st"
  "started_in l (queueEffects (command_ends i ok st)) = started_in l (queueEffects st)"
  "cleared (queueEffects (command_ends i ok st)) = cleared (queueEffects st)"
  by (auto simp: command_ends_def completeTask_def Let_def notify_effects split: option.splits)

lemma ends_calm: "calm st \<Longrightarrow> calm (command_ends i ok st)"
  by (auto simp: calm_def ends_sel split: option.splits)

lemma ends_accounted: "accounted st \<Longrightarrow> calm st \<Longrightarrow> accounted (command_ends i ok st)"
  by (rule accounted_same [of st]) (simp_all add: known_calm ends_calm ends_sel)

lemma room_cases:
  assumes "room_kept st" "frames st = f # fs"
  shows "\<forall>g \<in> set fs. \<not> is_start g" "f = Fr_start l e \<Longrightarrow>
      int (length (activeTaskIds (lane_state l st))) < maxConcurrent (lane_state l st)"
  using assms by (auto simp: room_kept_def)

text \<open>What one step of a frame keeps, and the one step that makes a lane busier.\<close>

lemma frame_keeps:
  assumes room: "room_kept st" and acc: "accounted st" and ne: "frames st \<noteq> []"
  shows "room_kept (frame_step now st)" "accounted (frame_step now st)"
    "length (activeTaskIds (lane_state l st)) < length (activeTaskIds (lane_state l (frame_step now st))) \<Longrightarrow>
       length (activeTaskIds (lane_state l (frame_step now st))) = length (activeTaskIds (lane_state l st)) + 1
       \<and> int (length (activeTaskIds (lane_state l (frame_step now st)))) \<le> maxConcurrent (lane_state l (frame_step now st))"
proof -
  let ?st' = "frame_step now st" and ?busy = "\<lambda>st. length (activeTaskIds (lane_state l st))"
  obtain f fs where fs: "frames st = f # fs" using ne by (cases "frames st") auto
  note calm_fs = room_cases(1) [OF room fs]
  have "room_kept ?st' \<and> accounted ?st' \<and> (?busy st < ?busy ?st' \<longrightarrow>
      ?busy ?st' = ?busy st + 1 \<and> int (?busy ?st') \<le> maxConcurrent (lane_state l ?st'))"
  proof (cases f)
    case (Fr_start k e)
    let ?st0 = "st\<lparr>frames := fs\<rparr>"
    have calm': "calm ?st'" using fs Fr_start calm_fs by (simp add: frame_step_def start_entry_def Let_def calm_def)
    have "known m ?st' = known m st" for m
      using fs Fr_start calm' by (simp add: known_calm) (simp add: frame_step_def start_entry_def Let_def known_def taken_def)
    then have "accounted ?st'"
      using fs Fr_start by (intro accounted_same [OF acc]) (simp_all add: frame_step_def start_entry_def Let_def)
    with calm' calm_room room_cases(2) [OF room fs Fr_start] fs Fr_start show ?thesis
      by (auto simp: frame_step_def start_entry_def Let_def)
  next
    case (Fr_pump k)
    have calm0: "calm st" using fs Fr_pump calm_fs by (simp add: calm_def)
    let ?s = "lane_state k st"
    show ?thesis
    proof (cases "queue ?s = [] \<or> \<not> int (length (activeTaskIds ?s)) < maxConcurrent ?s")
      case True
      then have st': "?st' = set_lane k (?s\<lparr>draining := False\<rparr>) (st\<lparr>frames := fs\<rparr>)"
        using fs Fr_pump by (auto simp: frame_step_def pump_test_def Let_def split: list.splits)
      then have calm': "calm ?st'" using calm_fs by (simp add: calm_def)
      then have "accounted ?st'" using calm0
        by (intro accounted_same [OF acc]) (auto simp: known_calm st')
      with calm' calm_room show ?thesis by (auto simp: st')
    next
      case False
      then obtain e rest where q: "queue ?s = e # rest" by (cases "queue ?s") auto
      have st': "frames ?st' = Fr_start k e # frames st" "lane_state m ?st' = (if m = k then ?s\<lparr>queue := rest\<rparr> else lane_state m st)"
          "nextEntryId ?st' = nextEntryId st" "started_in m (queueEffects ?st') = started_in m (queueEffects st)"
          "cleared (queueEffects ?st') = cleared (queueEffects st)" for m
        using False q fs Fr_pump by (simp_all add: frame_step_def pump_test_def Let_def)
      have "known m ?st' = known m st" for m using q calm0 by (simp add: known_def st') (simp add: taken_def st')
      then have "accounted ?st'" by (intro accounted_same [OF acc]) (simp_all add: st')
      moreover have "room_kept ?st'" using False calm0 by (auto simp: room_kept_def st' calm_def)
      ultimately show ?thesis by (simp add: st')
    qed
  next
    case (Fr_settle e ok)
    then have calm': "calm ?st'" "calm st" using fs calm_fs by (simp_all add: frame_step_def settle_entry_def calm_def)
    moreover have "accounted ?st'" using fs Fr_settle calm'
      by (intro accounted_same [OF acc]) (simp_all add: known_calm, simp_all add: frame_step_def settle_entry_def)
    ultimately show ?thesis using fs Fr_settle calm_room by (simp add: frame_step_def settle_entry_def)
  next
    case (Fr_drain k)
    then have calm': "calm ?st'" "calm st" using fs calm_fs by (simp_all add: frame_step_def calm_def)
    moreover have "accounted ?st'" using fs Fr_drain calm'
      by (intro accounted_same [OF acc]) (simp_all add: known_calm, simp_all add: frame_step_def)
    ultimately show ?thesis using fs Fr_drain calm_room by (simp add: frame_step_def)
  next
    case Fr_notify
    then have calm': "calm ?st'" "calm st" using fs calm_fs by (simp_all add: frame_step_def calm_def)
    moreover have "accounted ?st'" using fs Fr_notify calm'
      by (intro accounted_same [OF acc]) (simp_all add: known_calm, simp_all add: frame_step_def notify_effects)
    ultimately show ?thesis using fs Fr_notify calm_room by (simp add: frame_step_def)
  qed
  then show "room_kept ?st'" "accounted ?st'" "?busy st < ?busy ?st' \<Longrightarrow>
      ?busy ?st' = ?busy st + 1 \<and> int (?busy ?st') \<le> maxConcurrent (lane_state l ?st')" by blast+
qed

interpretation accounts: queue_invariant True "\<lambda>st. room_kept st \<and> accounted st"
proof
  show "room_kept getQueueState \<and> accounted getQueueState"
    by (simp add: room_kept_def accounted_def known_def taken_def getQueueState_def lane_state_def new_lane_def
        started_in_def)
next
  fix st :: QueueState and now
  assume "room_kept st \<and> accounted st" "frames st \<noteq> []"
  with frame_keeps show "room_kept (frame_step now st) \<and> accounted (frame_step now st)" by blast
next
  fix st :: QueueState and taskId ok
  assume "room_kept st \<and> accounted st" "\<not> (True \<and> in_onWait st)"
  with quiet_calm have "calm st" "accounted st" by blast+
  with ends_calm ends_accounted calm_room
  show "room_kept (command_ends taskId ok st) \<and> accounted (command_ends taskId ok st)" by blast
next
  fix st st' :: QueueState
  assume "room_kept st \<and> accounted st" "\<not> (True \<and> in_onWait st)" "queue_call st st'"
  with quiet_calm have "calm st" "accounted st" "queue_call st st'" by blast+
  with call_calm call_accounted calm_room show "room_kept st' \<and> accounted st'" by blast
qed

lemma call_not_busier:
  assumes "queue_call st st'"
  shows "length (activeTaskIds (lane_state l st')) \<le> length (activeTaskIds (lane_state l st))"
  using assms by cases (auto simp: enqueueCommandInLane_def setCommandLaneConcurrency_def Let_def case_prod_unfold
      markGatewayDraining_def reset_lane_def new_lane_def)

text \<open>
  C13. The limit: as long as the \<open>onWait\<close> callbacks do not call the queue, a step that makes a lane busier
  starts one command and leaves the lane within its limit at that time.
\<close>

theorem concurrency_respected:
  assumes "queue_reachable True st" "queue_step True st st'"
    "length (activeTaskIds (lane_state l st)) < length (activeTaskIds (lane_state l st'))"
  shows "length (activeTaskIds (lane_state l st')) = length (activeTaskIds (lane_state l st)) + 1
    \<and> int (length (activeTaskIds (lane_state l st'))) \<le> maxConcurrent (lane_state l st')"
  using assms(2)
proof cases
  case (frame now)
  with accounts.holds [OF assms(1)] frame_keeps(3) assms(3) show ?thesis by blast
next
  case (ends i ok)
  with assms(3) ends_sel(4) [of l i ok st] show ?thesis by simp
next
  case call
  with assms(3) call_not_busier [of st st' l] show ?thesis by simp
qed

text \<open>
  C14. Order and accounting: as long as no \<open>onWait\<close> callback calls the queue, whenever the call stack is empty the commands
  of a lane have started in the order in which they were enqueued, each at most once, before those that still
  wait; and every command that was accepted has been started, waits in a lane or was rejected when
  its lane was cleared.
\<close>

theorem commands_in_order:
  assumes "queue_reachable True st" "frames st = []"
  shows "sorted_wrt (<) (started_in l (queueEffects st) @ map entryId (queue (lane_state l st)))
    \<and> {e. e < nextEntryId st} = cleared (queueEffects st) \<inter> {e. e < nextEntryId st}
        \<union> (\<Union>k. set (started_in k (queueEffects st)) \<union> entryId ` set (queue (lane_state k st)))"
proof -
  have acc: "accounted st" using accounts.holds [OF assms(1)] by blast
  have k: "known l st = started_in l (queueEffects st) @ map entryId (queue (lane_state l st))" for l
    using assms(2) by (simp add: known_def taken_def)
  show ?thesis using accountedD [OF acc] unfolding k by fastforce
qed

text \<open>A queue whose lane is about to start its first command.\<close>

definition example_starting :: QueueState where
  "example_starting = frame_step 5 (enqueueCommandInLane 5 ''main'' None False getQueueState)"

lemma example_starting_reachable: "queue_reachable True example_starting"
proof -
  have "queue_reachable True (enqueueCommandInLane 5 ''main'' None False getQueueState)"
    by (rule call_reachable [OF queue_reachable.start _ queue_call.enqueue]) (simp add: getQueueState_def)
  moreover have "frames (enqueueCommandInLane 5 ''main'' None False getQueueState) = [Fr_pump ''main'']" by code_simp
  then have "frames (enqueueCommandInLane 5 ''main'' None False getQueueState) \<noteq> []" by simp
  ultimately show ?thesis unfolding example_starting_def by (rule queue_reachable.step [OF _ queue_step.frame])
qed

theorem concurrency_respected_witness:
  "length (activeTaskIds (lane_state ''main'' (frame_step 6 example_starting))) = 1"
proof -
  have ev: "length (activeTaskIds (lane_state ''main'' example_starting)) = 0"
      "activeTaskIds (lane_state ''main'' (frame_step 6 example_starting)) = [1]" "length (frames example_starting) = 2"
    by code_simp+
  then have "frames example_starting \<noteq> []" by auto
  from concurrency_respected [OF example_starting_reachable queue_step.frame [OF this], of "''main''" 6] ev
  show ?thesis by simp
qed

theorem commands_in_order_witness:
  "sorted_wrt (<) (started_in ''main'' (queueEffects example_queue) @ map entryId (queue (lane_state ''main'' example_queue)))
   \<and> 0 \<in> set (started_in ''main'' (queueEffects example_queue))"
proof
  have "frames example_queue = []" by (simp add: example_queue_def)
  then show "sorted_wrt (<) (started_in ''main'' (queueEffects example_queue)
      @ map entryId (queue (lane_state ''main'' example_queue)))"
    using commands_in_order [OF example_queue_reachable, of "''main''"] by blast
next
  have "started_in ''main'' (queueEffects example_queue) = [0]" by code_simp
  then show "0 \<in> set (started_in ''main'' (queueEffects example_queue))" by simp
qed

section \<open>Waiters\<close>

text \<open>
  Every waiter waits for a command that is active, or will be looked at again by the frame that
  notifies the waiters; a lane is listed once.
\<close>

definition waiters_wait :: "QueueState \<Rightarrow> bool" where
  "waiters_wait st \<longleftrightarrow> distinct (map fst (lanes st))
     \<and> (Fr_notify \<in> set (frames st)
        \<or> (\<forall>w \<in> set (activeTaskWaiters st). \<exists>l. \<exists>i \<in> set (activeTaskIds (lane_state l st)). i \<in> set (waitsFor w)))"

lemma hasPendingActiveTasks_iff:
  assumes "distinct (map fst (lanes st))"
  shows "hasPendingActiveTasks ids st \<longleftrightarrow> (\<exists>l. \<exists>i \<in> set (activeTaskIds (lane_state l st)). i \<in> set ids)"
proof
  assume "hasPendingActiveTasks ids st"
  then obtain l s i where "(l, s) \<in> set (lanes st)" "i \<in> set (activeTaskIds s)" "i \<in> set ids"
    by (auto simp: hasPendingActiveTasks_def list_ex_iff)
  moreover from this(1) assms have "lane_state l st = s" by (simp add: lane_state_def)
  ultimately show "\<exists>l. \<exists>i \<in> set (activeTaskIds (lane_state l st)). i \<in> set ids" by blast
next
  assume "\<exists>l. \<exists>i \<in> set (activeTaskIds (lane_state l st)). i \<in> set ids"
  then obtain l i where i: "i \<in> set (activeTaskIds (lane_state l st))" "i \<in> set ids" by blast
  then obtain s where s: "map_of (lanes st) l = Some s" "lane_state l st = s"
    by (cases "map_of (lanes st) l") (simp_all add: lane_state_def new_lane_def)
  from map_of_SomeD [OF s(1)] i s(2) show "hasPendingActiveTasks ids st"
    by (auto simp: hasPendingActiveTasks_def list_ex_iff)
qed

lemma distinct_set_lane [simp]: "distinct (map fst (lanes st)) \<Longrightarrow> distinct (map fst (lanes (set_lane l s st)))"
  by (simp add: set_lane_def distinct_update)

lemma distinct_getLaneState [simp]:
  "distinct (map fst (lanes st)) \<Longrightarrow> distinct (map fst (lanes (snd (getLaneState l st))))"
  by (simp add: getLaneState_def split: option.splits)

lemma distinct_drainLane [simp]: "distinct (map fst (lanes st)) \<Longrightarrow> distinct (map fst (lanes (drainLane l st)))"
  by (simp add: drainLane_def case_prod_unfold)

lemma fold_notify_waits:
  assumes "distinct (map fst (lanes st))"
    "\<forall>w \<in> set (activeTaskWaiters st) - set ws. hasPendingActiveTasks (waitsFor w) st"
  shows "\<forall>w \<in> set (activeTaskWaiters (fold notify_waiter ws st)).
      hasPendingActiveTasks (waitsFor w) (fold notify_waiter ws st)"
  using assms
proof (induction ws arbitrary: st)
  case (Cons w ws)
  have "hasPendingActiveTasks ids (notify_waiter w st) = hasPendingActiveTasks ids st" for ids
    by (simp add: hasPendingActiveTasks_def)
  with Cons.prems have "\<forall>x \<in> set (activeTaskWaiters (notify_waiter w st)) - set ws.
      hasPendingActiveTasks (waitsFor x) (notify_waiter w st)"
    by (auto simp: notify_waiter_def split: if_splits)
  with Cons.IH [of "notify_waiter w st"] Cons.prems(1) show ?case by simp
qed simp

lemma notify_waits: "distinct (map fst (lanes st)) \<Longrightarrow> waiters_wait (notifyActiveTaskWaiters st)"
  using fold_notify_waits [of st "activeTaskWaiters st"]
  by (simp add: waiters_wait_def hasPendingActiveTasks_iff fold_notify_sel notifyActiveTaskWaiters_def)

lemma waits_mono:
  assumes "waiters_wait st" "distinct (map fst (lanes st'))"
    "Fr_notify \<in> set (frames st) \<Longrightarrow> Fr_notify \<in> set (frames st')"
    "set (activeTaskWaiters st') \<subseteq> set (activeTaskWaiters st)"
    "\<And>l. set (activeTaskIds (lane_state l st)) \<subseteq> set (activeTaskIds (lane_state l st'))"
  shows "waiters_wait st'"
  using assms unfolding waiters_wait_def by blast

lemma waits_distinct: "waiters_wait st \<Longrightarrow> distinct (map fst (lanes st))"
  by (simp add: waiters_wait_def)

lemma distinct_clear [simp]:
  "distinct (map fst (lanes st)) \<Longrightarrow> distinct (map fst (lanes (snd (clearCommandLane lane st))))"
  by (simp add: clearCommandLane_def Let_def split: option.splits)

lemma call_waits:
  assumes "queue_call st st'" "waiters_wait st"
  shows "waiters_wait st'"
  using assms(1)
proof cases
  case (wait timeoutMs)
  let ?w = "\<lparr>waiterId = nextWaiterId st, waitsFor = concat (map (\<lambda>(_, s). activeTaskIds s) (lanes st))\<rparr>"
  have "waiters_wait (notifyActiveTaskWaiters
      (st\<lparr>nextWaiterId := nextWaiterId st + 1, activeTaskWaiters := activeTaskWaiters st @ [?w]\<rparr>))"
    by (rule notify_waits) (simp add: waits_distinct [OF assms(2)])
  moreover have "waiters_wait (emit_q e (st\<lparr>nextWaiterId := n\<rparr>))" for e n
    by (rule waits_mono [OF assms(2)]) (simp_all add: waits_distinct [OF assms(2)])
  ultimately show ?thesis unfolding wait by (simp add: waitForActiveTasks_def Let_def)
next
  case reset
  then show ?thesis using waits_distinct [OF assms(2)]
    by (simp add: waiters_wait_def resetAllLanes_def Let_def comp_def case_prod_unfold)
qed (rule waits_mono [OF assms(2)]; auto simp: waits_distinct [OF assms(2)] enqueueCommandInLane_def
    setCommandLaneConcurrency_def markGatewayDraining_def waiter_times_out_def Let_def case_prod_unfold)+

lemma ends_waits:
  assumes "waiters_wait st"
  shows "waiters_wait (command_ends taskId ok st)"
proof (cases "map_of (runningCommands st) taskId")
  case (Some c)
  let ?st0 = "st\<lparr>runningCommands := AList.delete taskId (runningCommands st)\<rparr>"
  have pushed: "waiters_wait st1 \<Longrightarrow> waiters_wait (push_frames fs st1)" for fs st1
    by (frule waits_distinct, erule waits_mono) simp_all
  have "waiters_wait ?st0" by (rule waits_mono [OF assms]) (simp_all add: waits_distinct [OF assms])
  moreover have "distinct (map fst (lanes (snd (completeTask (laneOf c) taskId (generationOf c) ?st0))))"
    using waits_distinct [OF assms] by (simp add: completeTask_def Let_def)
  ultimately show ?thesis using Some pushed notify_waits
    by (auto simp: command_ends_def Let_def completeTask_def split: if_splits)
qed (use assms in \<open>simp add: command_ends_def\<close>)

lemma frame_waits:
  assumes "waiters_wait st"
  shows "waiters_wait (frame_step now st)"
proof (cases "frames st")
  case (Cons f fs)
  note [simp] = waits_distinct [OF assms]
  show ?thesis
  proof (cases f)
    case Fr_notify
    then show ?thesis using Cons by (simp add: frame_step_def notify_waits)
  qed (use Cons in \<open>auto simp: frame_step_def pump_test_def start_entry_def settle_entry_def Let_def
      intro!: waits_mono [OF assms] split: list.splits\<close>)
qed (use assms in \<open>simp add: frame_step_def\<close>)

interpretation waits: queue_invariant quiet waiters_wait for quiet
proof unfold_locales
  show "waiters_wait getQueueState" by (simp add: waiters_wait_def getQueueState_def)
qed (blast intro: frame_waits ends_waits call_waits)+

text \<open>
  Whenever the call stack is empty, whoever still waits for commands waits for one that is running: the
  command is active in its lane and of its current generation, so that its end will be noticed.
\<close>

theorem waiters_have_reason:
  assumes "queue_reachable quiet st" "frames st = []" "w \<in> set (activeTaskWaiters st)"
  shows "\<exists>i c. i \<in> set (waitsFor w) \<and> map_of (runningCommands st) i = Some c
    \<and> i \<in> set (activeTaskIds (lane_state (laneOf c) st)) \<and> generationOf c = generation (lane_state (laneOf c) st)"
proof -
  obtain l i where "i \<in> set (activeTaskIds (lane_state l st))" "i \<in> set (waitsFor w)"
    using waits.holds [OF assms(1)] assms(2,3) by (auto simp: waiters_wait_def)
  with active.holds [OF assms(1)] show ?thesis unfolding active_running_def by blast
qed

theorem waiters_have_reason_witness:
  "\<exists>c. map_of (runningCommands (waitForActiveTasks 10 example_queue)) 1 = Some c
     \<and> generationOf c = generation (lane_state (laneOf c) (waitForActiveTasks 10 example_queue))"
proof -
  let ?st = "waitForActiveTasks 10 example_queue"
  have "queue_reachable True ?st"
    by (rule call_reachable [OF example_queue_reachable _ queue_call.wait]) (simp add: example_queue_def)
  moreover have "frames ?st = []" by (simp add: waitForActiveTasks_def Let_def example_queue_def)
  moreover have "activeTaskWaiters ?st = [\<lparr>waiterId = 0, waitsFor = [1]\<rparr>]" by code_simp
  ultimately show ?thesis using waiters_have_reason [of True ?st "\<lparr>waiterId = 0, waitsFor = [1]\<rparr>"] by auto
qed

text \<open>
  Without that assumption the limit does not hold: \<open>pump\<close>, when a completion calls it, does not set the flag that
  keeps \<open>drainLane\<close> out, and takes a command from the queue before it counts it as active. An
  \<open>onWait\<close> callback that enqueues a command in the same lane then makes the lane run two.
\<close>

definition example_waiting :: QueueState where
  "example_waiting = run_frames 5 (enqueueCommandInLane 5 ''main'' None False
     (run_frames 5 (enqueueCommandInLane 5 ''main'' (Some 0) True
       (run_frames 5 (enqueueCommandInLane 5 ''main'' None False getQueueState)))))"

lemma onWait_reentrancy_exceeds_limit:
  "\<exists>st. queue_reachable False st \<and> frames st = []
     \<and> maxConcurrent (lane_state ''main'' st) = 1 \<and> length (activeTaskIds (lane_state ''main'' st)) = 2"
proof -
  let ?in_callback = "frame_step 9 (command_ends 1 True example_waiting)"
  let ?st = "run_frames 9 (enqueueCommandInLane 9 ''main'' None False ?in_callback)"
  have w: "queue_reachable False example_waiting" unfolding example_waiting_def
    by (intro run_frames_reachable call_reachable [OF _ _ queue_call.enqueue] queue_reachable.start)
      (simp_all add: getQueueState_def)
  have "queue_reachable False (command_ends 1 True example_waiting)"
    by (rule queue_reachable.step [OF w queue_step.ends]) simp
  moreover have "length (frames (command_ends 1 True example_waiting)) = 2" by code_simp
  then have "frames (command_ends 1 True example_waiting) \<noteq> []" by auto
  ultimately have "queue_reachable False ?in_callback" by (rule queue_reachable.step [OF _ queue_step.frame])
  then have "queue_reachable False (enqueueCommandInLane 9 ''main'' None False ?in_callback)"
    by (rule queue_reachable.step) (rule queue_step.call [OF _ queue_call.enqueue], simp)
  then have "queue_reachable False ?st" by (rule run_frames_reachable)
  moreover have "maxConcurrent (lane_state ''main'' ?st) = 1" "length (activeTaskIds (lane_state ''main'' ?st)) = 2"
    by code_simp+
  ultimately show ?thesis by (metis run_frames_empty)
qed

end
