(* ===== verification/GatewayNet.thy ===== *)
theory GatewayNet
  imports DeliveryContexts "HOL-Library.Word"
begin

text \<open>
  The addresses of the clients of the gateway: \<open>src/shared/net/ip.ts\<close> and the part of
  \<open>src/gateway/net.ts\<close> that resolves who sent a request, with proxies in between. The library
  \<open>ipaddr.js\<close> that parses addresses, and \<open>net.isIP\<close> of Node, are parameters.
\<close>

unbundle bit_operations_syntax

section \<open>The address library\<close>

text \<open>The functions of \<open>ipaddr.js\<close> that the code calls, over its type of parsed addresses.\<close>

record 'ip IpLibrary =
  ipv4_isValid :: "string \<Rightarrow> bool"
  ipv4_isValidFourPartDecimal :: "string \<Rightarrow> bool"
  ipv4_parse :: "string \<Rightarrow> 'ip"
  ipv6_isValid :: "string \<Rightarrow> bool"
  ipv6_parse :: "string \<Rightarrow> 'ip"
  ip_kind :: "'ip \<Rightarrow> string"
  ip_isIPv4MappedAddress :: "'ip \<Rightarrow> bool"
  ip_toIPv4Address :: "'ip \<Rightarrow> 'ip"
  ip_toString :: "'ip \<Rightarrow> string"
  ip_range :: "'ip \<Rightarrow> string"
  ip_parseCIDR :: "string \<Rightarrow> ('ip \<times> int) option"
  ip_match :: "'ip \<Rightarrow> 'ip \<times> int \<Rightarrow> bool option"
  node_isIP :: "string \<Rightarrow> nat"

text \<open>A call that throws is \<open>None\<close> (\<open>parseCIDR\<close>, \<open>match\<close>).\<close>

section \<open>Parsing addresses\<close>

definition ends_on :: "char \<Rightarrow> string \<Rightarrow> bool" where
  "ends_on c s \<longleftrightarrow> s \<noteq> [] \<and> last s = c"

definition stripIpv6Brackets :: "string \<Rightarrow> string" where
  "stripIpv6Brackets s = (if starts_with ''['' s \<and> ends_on (CHR '']'') s then butlast (tl s) else s)"

definition isIpv4Address :: "'ip IpLibrary \<Rightarrow> 'ip \<Rightarrow> bool" where
  "isIpv4Address lib a \<longleftrightarrow> ip_kind lib a = ''ipv4''"

definition isIpv6Address :: "'ip IpLibrary \<Rightarrow> 'ip \<Rightarrow> bool" where
  "isIpv6Address lib a \<longleftrightarrow> ip_kind lib a = ''ipv6''"

definition normalizeIpv4MappedAddress :: "'ip IpLibrary \<Rightarrow> 'ip \<Rightarrow> 'ip" where
  "normalizeIpv4MappedAddress lib a =
     (if \<not> isIpv6Address lib a then a
      else if \<not> ip_isIPv4MappedAddress lib a then a
      else ip_toIPv4Address lib a)"

definition normalizeIpParseInput :: "string option \<Rightarrow> string option" where
  "normalizeIpParseInput raw = map_option stripIpv6Brackets (normalizeOptionalString raw)"

text \<open>
  The last position of a character, and the split there: \<open>(.*:)\<close> is greedy and nothing after it may
  contain a colon, so that it ends at the last one.
\<close>

definition split_last :: "char \<Rightarrow> string \<Rightarrow> (string \<times> string) option" where
  "split_last c s = (if c \<in> set s
     then Some (rev (tl (dropWhile (\<lambda>x. x \<noteq> c) (rev s))), rev (takeWhile (\<lambda>x. x \<noteq> c) (rev s)))
     else None)"

text \<open>\<open>[^:%]+(?:\.[^:%]+){n}\<close> on a string without colons and percent signs.\<close>

fun dotted :: "nat \<Rightarrow> string \<Rightarrow> bool" where
  "dotted 0 s \<longleftrightarrow> s \<noteq> []"
| "dotted (Suc n) s \<longleftrightarrow>
     list_ex (\<lambda>i. s ! i = CHR ''.'' \<and> dotted n (drop (Suc i) s)) [1..<length s]"

definition alnum :: "char \<Rightarrow> bool" where
  "alnum c \<longleftrightarrow> CHR ''0'' \<le> c \<and> c \<le> CHR ''9'' \<or> CHR ''A'' \<le> c \<and> c \<le> CHR ''Z''
     \<or> CHR ''a'' \<le> c \<and> c \<le> CHR ''z''"

text \<open>
  \<open>/^(.*:)([^:%]+(?:\.[^:%]+){3})(%[0-9A-Za-z]+)?$/\<close>: the prefix up to the last colon, the dotted part
  and the zone.
\<close>

definition embedded_ipv4_match :: "string \<Rightarrow> (string \<times> string \<times> string) option" where
  "embedded_ipv4_match raw = (case split_last (CHR '':'') raw of None \<Rightarrow> None
     | Some (prefix, rest) \<Rightarrow>
       (let dots = takeWhile (\<lambda>c. c \<noteq> CHR ''%'') rest; zone = dropWhile (\<lambda>c. c \<noteq> CHR ''%'') rest
        in if \<not> list_ex (\<lambda>c. c = CHR 0x0A \<or> c = CHR 0x0D) prefix \<and> dotted 3 dots
              \<and> (zone = [] \<or> tl zone \<noteq> [] \<and> list_all alnum (tl zone))
           then Some (prefix @ '':'', dots, zone) else None))"

text \<open>
  \<open>Number.parseInt(part, 10)\<close> of a part of four decimal numbers; \<open>toString(16)\<close> of a 32-bit integer.
\<close>

definition parseInt10 :: "string \<Rightarrow> int" where
  "parseInt10 s = foldl (\<lambda>n c. 10 * n + (int (of_char c) - 48)) 0
     (takeWhile (\<lambda>c. CHR ''0'' \<le> c \<and> c \<le> CHR ''9'') s)"

fun show_hex_nat :: "nat \<Rightarrow> string" where
  "show_hex_nat n = (let d = n mod 16; c = char_of (if d < 10 then 48 + d else 87 + d)
     in if n < 16 then [c] else show_hex_nat (n div 16) @ [c])"

declare show_hex_nat.simps [simp del]

definition show_hex :: "32 word \<Rightarrow> string" where
  "show_hex w = (if sint w < 0 then CHR ''-'' # show_hex_nat (nat (- sint w)) else show_hex_nat (nat (sint w)))"

definition hextet :: "int \<Rightarrow> int \<Rightarrow> string" where
  "hextet high low = show_hex (push_bit 8 (word_of_int high) OR word_of_int low)"

definition parseIpv6WithEmbeddedIpv4 :: "'ip IpLibrary \<Rightarrow> string \<Rightarrow> 'ip option" where
  "parseIpv6WithEmbeddedIpv4 lib raw =
     (if CHR '':'' \<notin> set raw \<or> CHR ''.'' \<notin> set raw then None
      else case embedded_ipv4_match raw of None \<Rightarrow> None
       | Some (prefix, embeddedIpv4, zoneSuffix) \<Rightarrow>
         if \<not> ipv4_isValidFourPartDecimal lib embeddedIpv4 then None
         else let octets = map parseInt10 (split_on (CHR ''.'') embeddedIpv4);
                  high = hextet (octets ! 0) (octets ! 1);
                  low = hextet (octets ! 2) (octets ! 3);
                  normalizedIpv6 = prefix @ high @ '':'' @ low @ zoneSuffix
              in if \<not> ipv6_isValid lib normalizedIpv6 then None else Some (ipv6_parse lib normalizedIpv6))"

definition parseCanonicalIpAddress :: "'ip IpLibrary \<Rightarrow> string option \<Rightarrow> 'ip option" where
  "parseCanonicalIpAddress lib raw = (case normalizeIpParseInput raw of None \<Rightarrow> None
     | Some s \<Rightarrow>
       if s = '''' then None
       else if ipv4_isValid lib s
       then (if \<not> ipv4_isValidFourPartDecimal lib s then None else Some (ipv4_parse lib s))
       else if ipv6_isValid lib s then Some (ipv6_parse lib s)
       else parseIpv6WithEmbeddedIpv4 lib s)"

definition normalizeIpAddress :: "'ip IpLibrary \<Rightarrow> string option \<Rightarrow> string option" where
  "normalizeIpAddress lib raw = (case parseCanonicalIpAddress lib raw of None \<Rightarrow> None
     | Some parsed \<Rightarrow>
       Some (normalizeLowercaseStringOrEmpty (Some (ip_toString lib (normalizeIpv4MappedAddress lib parsed)))))"

definition isLoopbackIpAddress :: "'ip IpLibrary \<Rightarrow> string option \<Rightarrow> bool" where
  "isLoopbackIpAddress lib raw = (case parseCanonicalIpAddress lib raw of None \<Rightarrow> False
     | Some parsed \<Rightarrow> ip_range lib (normalizeIpv4MappedAddress lib parsed) = ''loopback'')"

definition isIpInCidr :: "'ip IpLibrary \<Rightarrow> string \<Rightarrow> string \<Rightarrow> bool" where
  "isIpInCidr lib ip cidr = (case parseCanonicalIpAddress lib (Some ip) of None \<Rightarrow> False
     | Some normalizedIp \<Rightarrow>
       (let candidate = js_trim cidr in
        if candidate = '''' then False
        else let comparableIp = normalizeIpv4MappedAddress lib normalizedIp in
          if CHR ''/'' \<notin> set candidate
          then (case parseCanonicalIpAddress lib (Some candidate) of None \<Rightarrow> False
            | Some exact \<Rightarrow> (let comparableExact = normalizeIpv4MappedAddress lib exact
                in ip_kind lib comparableIp = ip_kind lib comparableExact
                   \<and> ip_toString lib comparableIp = ip_toString lib comparableExact))
          else (case ip_parseCIDR lib candidate of None \<Rightarrow> False
            | Some (baseAddress, prefixLength) \<Rightarrow>
              (let comparableBase = normalizeIpv4MappedAddress lib baseAddress in
               if ip_kind lib comparableIp \<noteq> ip_kind lib comparableBase then False
               else if isIpv4Address lib comparableIp \<and> isIpv4Address lib comparableBase
               then nullish (ip_match lib comparableIp (comparableBase, prefixLength)) False
               else if isIpv6Address lib comparableIp \<and> isIpv6Address lib comparableBase
               then nullish (ip_match lib comparableIp (comparableBase, prefixLength)) False
               else False))))"

section \<open>Who sent a request\<close>

definition isLoopbackAddress :: "'ip IpLibrary \<Rightarrow> string option \<Rightarrow> bool" where
  "isLoopbackAddress lib ip = isLoopbackIpAddress lib ip"

definition normalizeIp :: "'ip IpLibrary \<Rightarrow> string option \<Rightarrow> string option" where
  "normalizeIp lib ip = normalizeIpAddress lib ip"

definition stripOptionalPort :: "'ip IpLibrary \<Rightarrow> string \<Rightarrow> string" where
  "stripOptionalPort lib ip =
     (let port_stripped =
        (if node_isIP lib ip \<noteq> 0 then ip
         else case split_last (CHR '':'') ip of None \<Rightarrow> ip
           | Some (candidate, port) \<Rightarrow>
             if CHR ''.'' \<in> set ip \<and> CHR '':'' \<notin> set candidate \<and> node_isIP lib candidate = 4
             then candidate else ip)
      in if starts_with ''['' ip
         then (if CHR '']'' \<in> set ip then tl (takeWhile (\<lambda>c. c \<noteq> CHR '']'') ip) else port_stripped)
         else port_stripped)"

definition parseIpLiteral :: "'ip IpLibrary \<Rightarrow> string option \<Rightarrow> string option" where
  "parseIpLiteral lib raw = (case map_option js_trim raw of None \<Rightarrow> None
     | Some trimmed \<Rightarrow>
       if trimmed = '''' then None
       else case normalizeIp lib (Some (stripOptionalPort lib trimmed)) of None \<Rightarrow> None
         | Some normalized \<Rightarrow>
           if normalized = '''' \<or> node_isIP lib normalized = 0 then None else Some normalized)"

definition parseRealIp :: "'ip IpLibrary \<Rightarrow> string option \<Rightarrow> string option" where
  "parseRealIp lib realIp = parseIpLiteral lib realIp"

definition isTrustedProxyAddress :: "'ip IpLibrary \<Rightarrow> string option \<Rightarrow> string list option \<Rightarrow> bool" where
  "isTrustedProxyAddress lib ip trustedProxies =
     (case (normalizeIp lib ip, trustedProxies) of
        (Some normalized, Some proxies) \<Rightarrow>
          normalized \<noteq> '''' \<and> proxies \<noteq> []
          \<and> list_ex (\<lambda>proxy. let candidate = js_trim proxy
               in candidate \<noteq> '''' \<and> isIpInCidr lib normalized candidate) proxies
      | _ \<Rightarrow> False)"

text \<open>The loop walks the chain from the right and skips loopback addresses and trusted proxies.\<close>

definition forwarded_chain :: "'ip IpLibrary \<Rightarrow> string option \<Rightarrow> string list" where
  "forwarded_chain lib forwardedFor =
     List.map_filter (\<lambda>entry. case parseIpLiteral lib (Some entry) of
         None \<Rightarrow> None | Some n \<Rightarrow> if n = '''' then None else Some n)
       (nullish (map_option (split_on (CHR '','')) forwardedFor) [])"

definition first_untrusted :: "'ip IpLibrary \<Rightarrow> string list option \<Rightarrow> string list \<Rightarrow> string option" where
  "first_untrusted lib trustedProxies hops =
     List.find (\<lambda>hop. \<not> isLoopbackAddress lib (Some hop) \<and> \<not> isTrustedProxyAddress lib (Some hop) trustedProxies) hops"

definition resolveForwardedClientIp ::
    "'ip IpLibrary \<Rightarrow> string option \<Rightarrow> string list option \<Rightarrow> string option" where
  "resolveForwardedClientIp lib forwardedFor trustedProxies =
     (if nullish trustedProxies [] = [] then None
      else first_untrusted lib trustedProxies (rev (forwarded_chain lib forwardedFor)))"

record ClientIpParams =
  remoteAddr :: "string option"
  forwardedFor :: "string option"
  realIp :: "string option"
  trustedProxies :: "string list option"
  allowRealIpFallback :: bool

definition resolveClientIp :: "'ip IpLibrary \<Rightarrow> ClientIpParams \<Rightarrow> string option" where
  "resolveClientIp lib p = (case normalizeIp lib (remoteAddr p) of None \<Rightarrow> None
     | Some remote \<Rightarrow>
       if remote = '''' then None
       else if \<not> isTrustedProxyAddress lib (Some remote) (trustedProxies p) then Some remote
       else case resolveForwardedClientIp lib (forwardedFor p) (trustedProxies p) of
           Some forwardedIp \<Rightarrow> if forwardedIp \<noteq> '''' then Some forwardedIp
             else if allowRealIpFallback p then parseRealIp lib (realIp p) else None
         | None \<Rightarrow> if allowRealIpFallback p then parseRealIp lib (realIp p) else None)"

text \<open>
  A request of \<open>node:http\<close>: the address of the peer and the headers, whose names are in lower case. A
  header that was sent several times can be a list.
\<close>

datatype HeaderValue = HdrString string | HdrList "string list"

record IncomingMessage =
  remoteAddress :: "string option"
  req_headers :: "(string \<times> HeaderValue) list"

definition header_of :: "IncomingMessage \<Rightarrow> string \<Rightarrow> HeaderValue option" where
  "header_of req name = map_of (req_headers req) name"

definition headerValue :: "HeaderValue option \<Rightarrow> string option" where
  "headerValue v = (case v of None \<Rightarrow> None | Some (HdrString s) \<Rightarrow> Some s
     | Some (HdrList []) \<Rightarrow> None | Some (HdrList (s # _)) \<Rightarrow> Some s)"

definition resolveRequestClientIp ::
    "'ip IpLibrary \<Rightarrow> IncomingMessage option \<Rightarrow> string list option \<Rightarrow> bool \<Rightarrow> string option" where
  "resolveRequestClientIp lib req proxies realIpFallback = (case req of None \<Rightarrow> None
     | Some r \<Rightarrow> resolveClientIp lib
         \<lparr>remoteAddr = Some (nullish (remoteAddress r) ''''),
          forwardedFor = headerValue (header_of r ''x-forwarded-for''),
          realIp = headerValue (header_of r ''x-real-ip''),
          trustedProxies = proxies, allowRealIpFallback = realIpFallback\<rparr>)"

section \<open>Hosts\<close>

definition normalizeHostHeader :: "string option \<Rightarrow> string" where
  "normalizeHostHeader h = normalizeLowercaseStringOrEmpty h"

record ParsedHost =
  isLocalhost :: bool
  unbracketedHost :: string

definition strip_trailing_dots :: "string \<Rightarrow> string" where
  "strip_trailing_dots s = rev (dropWhile (\<lambda>c. c = CHR ''.'') (rev s))"

definition parseHostForAddressChecks :: "string \<Rightarrow> ParsedHost option" where
  "parseHostForAddressChecks host =
     (if host = '''' then None
      else let normalizedHost = normalizeLowercaseStringOrEmpty (Some host);
               canonicalHost = strip_trailing_dots normalizedHost
           in if canonicalHost = ''localhost''
              then Some \<lparr>isLocalhost = True, unbracketedHost = canonicalHost\<rparr>
              else Some \<lparr>isLocalhost = False, unbracketedHost = stripIpv6Brackets normalizedHost\<rparr>)"

definition isLoopbackHost :: "'ip IpLibrary \<Rightarrow> string \<Rightarrow> bool" where
  "isLoopbackHost lib host = (case parseHostForAddressChecks host of None \<Rightarrow> False
     | Some parsed \<Rightarrow> isLocalhost parsed \<or> isLoopbackAddress lib (Some (unbracketedHost parsed)))"

text \<open>An instance of the library for examples: addresses with a dot are of the fourth version.\<close>

definition example_ip_library :: "string IpLibrary" where
  "example_ip_library = \<lparr>ipv4_isValid = (\<lambda>s. CHR ''.'' \<in> set s), ipv4_isValidFourPartDecimal = (\<lambda>s. CHR ''.'' \<in> set s),
     ipv4_parse = id, ipv6_isValid = (\<lambda>s. False), ipv6_parse = id, ip_kind = (\<lambda>_. ''ipv4''),
     ip_isIPv4MappedAddress = (\<lambda>_. False), ip_toIPv4Address = id, ip_toString = id,
     ip_range = (\<lambda>s. if starts_with ''127.'' s then ''loopback'' else ''unicast''),
     ip_parseCIDR = (\<lambda>_. None), ip_match = (\<lambda>_ _. None), node_isIP = (\<lambda>s. if CHR ''.'' \<in> set s then 4 else 0)\<rparr>"

end
