(* ===== verification/AuthRateLimit.thy ===== *)
theory AuthRateLimit
  imports GatewayNet
begin

text \<open>
  The limiter of failed logins, \<open>src/gateway/auth-rate-limit.ts\<close>: a sliding window of failures per
  scope and client address, and a lockout when the window is full. Times are milliseconds; the timer
  that prunes is an event of its own.
\<close>

section \<open>Configuration and state\<close>

record RateLimitConfig =
  maxAttemptsC :: "int option"
  windowMsC :: "int option"
  lockoutMsC :: "int option"
  exemptLoopbackC :: "bool option"
  pruneIntervalMsC :: "int option"

definition AUTH_RATE_LIMIT_SCOPE_DEFAULT :: string where
  "AUTH_RATE_LIMIT_SCOPE_DEFAULT = ''default''"

definition AUTH_RATE_LIMIT_SCOPE_SHARED_SECRET :: string where
  "AUTH_RATE_LIMIT_SCOPE_SHARED_SECRET = ''shared-secret''"

definition AUTH_RATE_LIMIT_SCOPE_DEVICE_TOKEN :: string where
  "AUTH_RATE_LIMIT_SCOPE_DEVICE_TOKEN = ''device-token''"

definition BROWSER_ORIGIN_RATE_LIMIT_KEY_PREFIX :: string where
  "BROWSER_ORIGIN_RATE_LIMIT_KEY_PREFIX = ''browser-origin:''"

record RateLimitEntry =
  attempts :: "int list"
  lockedUntil :: "int option"

record RateLimitCheckResult =
  allowed :: bool
  remaining :: int
  retryAfterMs :: int

definition DEFAULT_MAX_ATTEMPTS :: int where "DEFAULT_MAX_ATTEMPTS = 10"
definition DEFAULT_WINDOW_MS :: int where "DEFAULT_WINDOW_MS = 60000"
definition DEFAULT_LOCKOUT_MS :: int where "DEFAULT_LOCKOUT_MS = 300000"
definition PRUNE_INTERVAL_MS :: int where "PRUNE_INTERVAL_MS = 60000"

text \<open>The variables that the operations of one limiter close over; the timer is there or not.\<close>

record AuthRateLimiter =
  maxAttempts :: int
  windowMs :: int
  lockoutMs :: int
  exemptLoopback :: bool
  pruneTimer :: "int option"
  entries :: "(string \<times> RateLimitEntry) list"

definition createAuthRateLimiter :: "RateLimitConfig option \<Rightarrow> AuthRateLimiter" where
  "createAuthRateLimiter config =
     (let get = (\<lambda>f d. nullish (case config of None \<Rightarrow> None | Some c \<Rightarrow> f c) d);
          pruneIntervalMs = get pruneIntervalMsC PRUNE_INTERVAL_MS
      in \<lparr>maxAttempts = get maxAttemptsC DEFAULT_MAX_ATTEMPTS, windowMs = get windowMsC DEFAULT_WINDOW_MS,
          lockoutMs = get lockoutMsC DEFAULT_LOCKOUT_MS,
          exemptLoopback = nullish (case config of None \<Rightarrow> None | Some c \<Rightarrow> exemptLoopbackC c) True,
          pruneTimer = (if pruneIntervalMs > 0 then Some pruneIntervalMs else None), entries = []\<rparr>)"

section \<open>Keys\<close>

definition normalizeRateLimitClientIp :: "'ip IpLibrary \<Rightarrow> string option \<Rightarrow> string" where
  "normalizeRateLimitClientIp lib ip =
     (case ip of Some s \<Rightarrow> if starts_with BROWSER_ORIGIN_RATE_LIMIT_KEY_PREFIX s then s
          else nullish (resolveClientIp lib \<lparr>remoteAddr = ip, forwardedFor = None, realIp = None,
             trustedProxies = None, allowRealIpFallback = False\<rparr>) ''unknown''
      | None \<Rightarrow> nullish (resolveClientIp lib \<lparr>remoteAddr = ip, forwardedFor = None, realIp = None,
             trustedProxies = None, allowRealIpFallback = False\<rparr>) ''unknown'')"

definition normalizeScope :: "string option \<Rightarrow> string" where
  "normalizeScope scope = or_str (js_trim (nullish scope AUTH_RATE_LIMIT_SCOPE_DEFAULT)) AUTH_RATE_LIMIT_SCOPE_DEFAULT"

definition resolveKey :: "'ip IpLibrary \<Rightarrow> string option \<Rightarrow> string option \<Rightarrow> string \<times> string" where
  "resolveKey lib rawIp rawScope =
     (let ip = normalizeRateLimitClientIp lib rawIp; scope = normalizeScope rawScope
      in (scope @ '':'' @ ip, ip))"

definition isExempt :: "'ip IpLibrary \<Rightarrow> AuthRateLimiter \<Rightarrow> string \<Rightarrow> bool" where
  "isExempt lib lim ip \<longleftrightarrow> exemptLoopback lim \<and> isLoopbackAddress lib (Some ip)"

section \<open>Operations\<close>

definition slideWindow :: "AuthRateLimiter \<Rightarrow> int \<Rightarrow> RateLimitEntry \<Rightarrow> RateLimitEntry" where
  "slideWindow lim now e = e\<lparr>attempts := filter (\<lambda>ts. ts > now - windowMs lim) (attempts e)\<rparr>"

definition locked :: "int \<Rightarrow> RateLimitEntry \<Rightarrow> bool" where
  "locked now e \<longleftrightarrow> truthy_num (lockedUntil e) \<and> now < the (lockedUntil e)"

definition set_entry :: "string \<Rightarrow> RateLimitEntry \<Rightarrow> AuthRateLimiter \<Rightarrow> AuthRateLimiter" where
  "set_entry key e lim = lim\<lparr>entries := AList.update key e (entries lim)\<rparr>"

text \<open>Looking can change the entry: an expired lockout is forgotten with its failures.\<close>

definition check ::
    "'ip IpLibrary \<Rightarrow> int \<Rightarrow> string option \<Rightarrow> string option \<Rightarrow> AuthRateLimiter
      \<Rightarrow> RateLimitCheckResult \<times> AuthRateLimiter" where
  "check lib now rawIp rawScope lim =
     (case resolveKey lib rawIp rawScope of (key, ip) \<Rightarrow>
        if isExempt lib lim ip then (\<lparr>allowed = True, remaining = maxAttempts lim, retryAfterMs = 0\<rparr>, lim)
        else case map_of (entries lim) key of
          None \<Rightarrow> (\<lparr>allowed = True, remaining = maxAttempts lim, retryAfterMs = 0\<rparr>, lim)
        | Some entry \<Rightarrow>
          if locked now entry
          then (\<lparr>allowed = False, remaining = 0, retryAfterMs = the (lockedUntil entry) - now\<rparr>, lim)
          else let entry1 = (if truthy_num (lockedUntil entry) \<and> now \<ge> the (lockedUntil entry)
                     then entry\<lparr>lockedUntil := None, attempts := []\<rparr> else entry);
                   entry2 = slideWindow lim now entry1;
                   left = max 0 (maxAttempts lim - int (length (attempts entry2)))
               in (\<lparr>allowed = left > 0, remaining = left, retryAfterMs = 0\<rparr>, set_entry key entry2 lim))"

definition recordFailure ::
    "'ip IpLibrary \<Rightarrow> int \<Rightarrow> string option \<Rightarrow> string option \<Rightarrow> AuthRateLimiter \<Rightarrow> AuthRateLimiter" where
  "recordFailure lib now rawIp rawScope lim =
     (case resolveKey lib rawIp rawScope of (key, ip) \<Rightarrow>
        if isExempt lib lim ip then lim
        else let entry = nullish (map_of (entries lim) key) \<lparr>attempts = [], lockedUntil = None\<rparr>;
                 lim1 = set_entry key entry lim
             in if locked now entry then lim1
                else let slid = slideWindow lim now entry;
                         entry1 = slid\<lparr>attempts := attempts slid @ [now]\<rparr>;
                         entry2 = (if int (length (attempts entry1)) \<ge> maxAttempts lim
                           then entry1\<lparr>lockedUntil := Some (now + lockoutMs lim)\<rparr> else entry1)
                     in set_entry key entry2 lim1)"

definition reset ::
    "'ip IpLibrary \<Rightarrow> string option \<Rightarrow> string option \<Rightarrow> AuthRateLimiter \<Rightarrow> AuthRateLimiter" where
  "reset lib rawIp rawScope lim =
     (case resolveKey lib rawIp rawScope of (key, _) \<Rightarrow> lim\<lparr>entries := AList.delete key (entries lim)\<rparr>)"

definition prune_entry :: "AuthRateLimiter \<Rightarrow> int \<Rightarrow> string \<times> RateLimitEntry \<Rightarrow> (string \<times> RateLimitEntry) option" where
  "prune_entry lim now ke =
     (if locked now (snd ke) then Some ke
      else let slid = slideWindow lim now (snd ke)
           in if attempts slid = [] then None else Some (fst ke, slid))"

definition prune :: "int \<Rightarrow> AuthRateLimiter \<Rightarrow> AuthRateLimiter" where
  "prune now lim = lim\<lparr>entries := List.map_filter (prune_entry lim now) (entries lim)\<rparr>"

definition limiter_size :: "AuthRateLimiter \<Rightarrow> nat" where
  "limiter_size lim = length (entries lim)"

definition dispose :: "AuthRateLimiter \<Rightarrow> AuthRateLimiter" where
  "dispose lim = lim\<lparr>pruneTimer := None, entries := []\<rparr>"

section \<open>One entry at a time\<close>

text \<open>
  What an operation does to the entry of a key depends on that entry alone, so that the lemmas below
  speak of one optional entry.
\<close>

definition checked :: "AuthRateLimiter \<Rightarrow> int \<Rightarrow> RateLimitEntry option \<Rightarrow> RateLimitCheckResult \<times> RateLimitEntry option" where
  "checked lim now eo = (case eo of
     None \<Rightarrow> (\<lparr>allowed = True, remaining = maxAttempts lim, retryAfterMs = 0\<rparr>, None)
   | Some entry \<Rightarrow>
     if locked now entry
     then (\<lparr>allowed = False, remaining = 0, retryAfterMs = the (lockedUntil entry) - now\<rparr>, Some entry)
     else let entry2 = slideWindow lim now (if truthy_num (lockedUntil entry)
                then entry\<lparr>lockedUntil := None, attempts := []\<rparr> else entry);
              left = max 0 (maxAttempts lim - int (length (attempts entry2)))
          in (\<lparr>allowed = left > 0, remaining = left, retryAfterMs = 0\<rparr>, Some entry2))"

definition failed :: "AuthRateLimiter \<Rightarrow> int \<Rightarrow> RateLimitEntry option \<Rightarrow> RateLimitEntry" where
  "failed lim now eo =
     (let entry = nullish eo \<lparr>attempts = [], lockedUntil = None\<rparr>
      in if locked now entry then entry
         else let fresh = attempts (slideWindow lim now entry) @ [now]
              in \<lparr>attempts = fresh, lockedUntil =
                   (if int (length fresh) \<ge> maxAttempts lim then Some (now + lockoutMs lim) else lockedUntil entry)\<rparr>)"

definition pruned :: "AuthRateLimiter \<Rightarrow> int \<Rightarrow> RateLimitEntry option \<Rightarrow> RateLimitEntry option" where
  "pruned lim now eo = (case eo of None \<Rightarrow> None | Some e \<Rightarrow>
     if locked now e then Some e
     else if attempts (slideWindow lim now e) = [] then None else Some (slideWindow lim now e))"

abbreviation entry_of :: "string \<Rightarrow> AuthRateLimiter \<Rightarrow> RateLimitEntry option" where
  "entry_of key lim \<equiv> map_of (entries lim) key"

definition same_limits :: "AuthRateLimiter \<Rightarrow> AuthRateLimiter \<Rightarrow> bool" where
  "same_limits a b \<longleftrightarrow> maxAttempts a = maxAttempts b \<and> windowMs a = windowMs b \<and> lockoutMs a = lockoutMs b
     \<and> exemptLoopback a = exemptLoopback b"

lemma set_entry_sel [simp]:
  "entry_of k (set_entry key e lim) = (if k = key then Some e else entry_of k lim)"
  "distinct (map fst (entries lim)) \<Longrightarrow> distinct (map fst (entries (set_entry key e lim)))"
  "same_limits (set_entry key e lim) lim'  = same_limits lim lim'"
  "maxAttempts (set_entry key e lim) = maxAttempts lim" "windowMs (set_entry key e lim) = windowMs lim"
  "lockoutMs (set_entry key e lim) = lockoutMs lim" "exemptLoopback (set_entry key e lim) = exemptLoopback lim"
  by (auto simp: set_entry_def same_limits_def)

lemma same_limits_refl [simp]: "same_limits lim lim"
  by (simp add: same_limits_def)

lemma check_exempt [simp]:
  "isExempt lib lim (snd (resolveKey lib ip scope)) \<Longrightarrow>
     check lib now ip scope lim = (\<lparr>allowed = True, remaining = maxAttempts lim, retryAfterMs = 0\<rparr>, lim)"
  by (simp add: check_def case_prod_unfold)

lemma check_entry:
  assumes "\<not> isExempt lib lim (snd (resolveKey lib ip scope))"
  shows "fst (check lib now ip scope lim) = fst (checked lim now (entry_of (fst (resolveKey lib ip scope)) lim))"
    and "entry_of k (snd (check lib now ip scope lim))
      = (if k = fst (resolveKey lib ip scope) then snd (checked lim now (entry_of k lim)) else entry_of k lim)"
    and "same_limits (snd (check lib now ip scope lim)) lim"
  using assms by (auto simp: check_def checked_def case_prod_unfold Let_def locked_def split: option.splits)

lemma recordFailure_entry:
  assumes "\<not> isExempt lib lim (snd (resolveKey lib ip scope))"
  shows "entry_of k (recordFailure lib now ip scope lim)
      = (if k = fst (resolveKey lib ip scope) then Some (failed lim now (entry_of k lim)) else entry_of k lim)"
    and "same_limits (recordFailure lib now ip scope lim) lim"
  using assms by (auto simp: recordFailure_def failed_def case_prod_unfold Let_def slideWindow_def)

lemma reset_entry [simp]:
  "entry_of k (reset lib ip scope lim) = (if k = fst (resolveKey lib ip scope) then None else entry_of k lim)"
  "same_limits (reset lib ip scope lim) lim"
  by (auto simp: reset_def case_prod_unfold same_limits_def)

lemma prune_entry_of:
  assumes "distinct (map fst (entries lim))"
  shows "entry_of k (prune now lim) = pruned lim now (entry_of k lim)"
proof -
  have "map_of (List.map_filter (prune_entry lim now) es) k = pruned lim now (map_of es k)"
    if "distinct (map fst es)" for es
    using that
  proof (induction es)
    case (Cons e es)
    have IH: "map_of (List.map_filter (prune_entry lim now) es) k = pruned lim now (map_of es k)" using Cons by simp
    moreover have "k = fst e \<Longrightarrow> map_of es k = None" using Cons.prems by (simp add: map_of_eq_None_iff)
    ultimately show ?case
      by (cases e, cases "k = fst e") (simp_all add: map_filter_simps(1) prune_entry_def [of lim now "(a, b)" for a b] pruned_def Let_def)
  qed (simp add: map_filter_simps pruned_def)
  from this [OF assms] show ?thesis by (simp add: prune_def)
qed

end
