(* ===== verification/GatewayAuth.thy ===== *)
theory GatewayAuth
  imports AuthRateLimit
begin

text \<open>
  Who may connect to the gateway: \<open>src/gateway/auth.ts\<close>, \<open>src/gateway/origin-check.ts\<close> and
  \<open>src/security/secret-equal.ts\<close>. An authorization that asks Tailscale who a client is suspends itself
  at that point; the limiter may have changed when it goes on.
\<close>

section \<open>Data\<close>

datatype AuthMode = Am_none | Am_token | Am_password | Am_trusted_proxy

record GatewayTrustedProxyConfig =
  userHeader :: string
  requiredHeaders :: "string list option"
  allowUsers :: "string list option"

datatype AuthModeSource = Ms_override | Ms_config | Ms_password | Ms_token | Ms_default

record ResolvedGatewayAuth =
  authMode :: AuthMode
  modeSource :: "AuthModeSource option"
  authToken :: "string option"
  authPassword :: "string option"
  allowTailscale :: bool
  trustedProxy :: "GatewayTrustedProxyConfig option"

datatype AuthMethod = Me_none | Me_token | Me_password | Me_tailscale | Me_device_token | Me_bootstrap_token | Me_trusted_proxy

record GatewayAuthResult =
  auth_ok :: bool
  auth_method :: "AuthMethod option"
  auth_user :: "string option"
  auth_reason :: "string option"
  rateLimited :: bool
  auth_retryAfterMs :: "int option"

record ConnectAuth =
  connectToken :: "string option"
  connectPassword :: "string option"

datatype GatewayAuthSurface = Surface_http | Surface_ws_control_ui

record BrowserOriginPolicy =
  requestHost :: "string option"
  origin :: "string option"
  allowedOrigins :: "string list option"
  allowHostHeaderOriginFallback :: "bool option"

record AuthorizeParams =
  auth :: ResolvedGatewayAuth
  connectAuth :: "ConnectAuth option"
  req :: "IncomingMessage option"
  proxies :: "string list option"
  authSurface :: "GatewayAuthSurface option"
  clientIp :: "string option"
  rateLimitScope :: "string option"
  realIpFallback :: bool
  browserOriginPolicy :: "BrowserOriginPolicy option"

record TailscaleUser =
  login :: string
  name :: string
  profilePic :: "string option"

record TailscaleWhoisIdentity =
  whoisLogin :: string
  whoisName :: "string option"

text \<open>
  What the code asks its platform: the address library, \<open>sha256\<close> of \<open>node:crypto\<close>, and \<open>new URL\<close>, as
  origin, host and host name, or \<open>None\<close> when it throws.
\<close>

record 'ip GatewayLib =
  ips :: "'ip IpLibrary"
  sha256 :: "string \<Rightarrow> string"
  parse_url :: "string \<Rightarrow> (string \<times> string \<times> string) option"

definition denied :: "string \<Rightarrow> GatewayAuthResult" where
  "denied reason = \<lparr>auth_ok = False, auth_method = None, auth_user = None, auth_reason = Some reason,
     rateLimited = False, auth_retryAfterMs = None\<rparr>"

definition granted :: "AuthMethod \<Rightarrow> string option \<Rightarrow> GatewayAuthResult" where
  "granted m user = \<lparr>auth_ok = True, auth_method = Some m, auth_user = user, auth_reason = None,
     rateLimited = False, auth_retryAfterMs = None\<rparr>"

section \<open>Secrets and origins\<close>

definition safeEqualSecret :: "'ip GatewayLib \<Rightarrow> string option \<Rightarrow> string option \<Rightarrow> bool" where
  "safeEqualSecret lib provided expected = (case (provided, expected) of
     (Some p, Some e) \<Rightarrow> sha256 lib p = sha256 lib e | _ \<Rightarrow> False)"

definition parseOrigin :: "'ip GatewayLib \<Rightarrow> string option \<Rightarrow> (string \<times> string \<times> string) option" where
  "parseOrigin lib originRaw =
     (let trimmed = js_trim (nullish originRaw '''')
      in if trimmed = '''' \<or> trimmed = ''null'' then None
         else case parse_url lib trimmed of None \<Rightarrow> None
           | Some (org, host, hostname) \<Rightarrow>
             Some (normalizeLowercaseStringOrEmpty (Some org), normalizeLowercaseStringOrEmpty (Some host),
               normalizeLowercaseStringOrEmpty (Some hostname)))"

datatype OriginCheck = Matched_allowlist | Matched_host_header_fallback | Matched_local_loopback | Origin_refused string

definition origin_ok :: "OriginCheck \<Rightarrow> bool" where
  "origin_ok c \<longleftrightarrow> (case c of Origin_refused _ \<Rightarrow> False | _ \<Rightarrow> True)"

definition checkBrowserOrigin :: "'ip GatewayLib \<Rightarrow> BrowserOriginPolicy \<Rightarrow> bool \<Rightarrow> OriginCheck" where
  "checkBrowserOrigin lib p isLocalClient = (case parseOrigin lib (origin p) of
     None \<Rightarrow> Origin_refused ''origin missing or invalid''
   | Some (org, host, hostname) \<Rightarrow>
     (let allowlist = List.map_filter (\<lambda>v. case normalizeOptionalLowercaseString (Some v) of
            None \<Rightarrow> None | Some s \<Rightarrow> if s = '''' then None else Some s) (nullish (allowedOrigins p) []);
          rhost = normalizeHostHeader (requestHost p)
      in if ''*'' \<in> set allowlist \<or> org \<in> set allowlist then Matched_allowlist
         else if allowHostHeaderOriginFallback p = Some True \<and> rhost \<noteq> '''' \<and> host = rhost
         then Matched_host_header_fallback
         else if isLocalClient \<and> isLoopbackHost (ips lib) hostname then Matched_local_loopback
         else Origin_refused ''origin not allowed''))"

section \<open>Requests\<close>

definition hasExplicitSharedSecretAuth :: "ConnectAuth option \<Rightarrow> bool" where
  "hasExplicitSharedSecretAuth ca \<longleftrightarrow> (case ca of None \<Rightarrow> False
     | Some c \<Rightarrow> truthy (normalizeOptionalString (connectToken c)) \<or> truthy (normalizeOptionalString (connectPassword c)))"

definition normalizeLogin :: "string \<Rightarrow> string" where
  "normalizeLogin l = normalizeLowercaseStringOrEmpty (Some l)"

definition TAILSCALE_TRUSTED_PROXIES :: "string list" where
  "TAILSCALE_TRUSTED_PROXIES = [''127.0.0.1'', ''::1'']"

definition resolveTailscaleClientIp :: "'ip IpLibrary \<Rightarrow> IncomingMessage option \<Rightarrow> string option" where
  "resolveTailscaleClientIp lib r = (case r of None \<Rightarrow> None
     | Some m \<Rightarrow> resolveClientIp lib \<lparr>remoteAddr = Some (nullish (remoteAddress m) ''''),
         forwardedFor = headerValue (header_of m ''x-forwarded-for''), realIp = None,
         trustedProxies = Some TAILSCALE_TRUSTED_PROXIES, allowRealIpFallback = False\<rparr>)"

definition header_truthy :: "HeaderValue option \<Rightarrow> bool" where
  "header_truthy v \<longleftrightarrow> (case v of None \<Rightarrow> False | Some (HdrString s) \<Rightarrow> s \<noteq> '''' | Some (HdrList _) \<Rightarrow> True)"

definition isLocalDirectRequest :: "'ip IpLibrary \<Rightarrow> IncomingMessage option \<Rightarrow> bool" where
  "isLocalDirectRequest lib r \<longleftrightarrow> (case r of None \<Rightarrow> False
     | Some m \<Rightarrow>
       \<not> list_ex (\<lambda>h. header_truthy (header_of m h))
          [''forwarded'', ''x-forwarded-for'', ''x-forwarded-proto'', ''x-real-ip'', ''x-forwarded-host'']
       \<and> isLoopbackAddress lib (remoteAddress m))"

text \<open>A header that is a list is not a string, so that \<open>normalizeOptionalString\<close> drops it.\<close>

definition header_string :: "HeaderValue option \<Rightarrow> string option" where
  "header_string v = (case v of Some (HdrString s) \<Rightarrow> Some s | _ \<Rightarrow> None)"

definition getTailscaleUser :: "IncomingMessage option \<Rightarrow> TailscaleUser option" where
  "getTailscaleUser r = (case r of None \<Rightarrow> None
     | Some m \<Rightarrow>
       (case normalizeOptionalString (header_string (header_of m ''tailscale-user-login'')) of None \<Rightarrow> None
        | Some l \<Rightarrow> Some \<lparr>login = l,
            name = nullish (normalizeOptionalString (header_string (header_of m ''tailscale-user-name''))) l,
            profilePic = normalizeOptionalString (header_string (header_of m ''tailscale-user-profile-pic''))\<rparr>))"

definition hasTailscaleProxyHeaders :: "IncomingMessage option \<Rightarrow> bool" where
  "hasTailscaleProxyHeaders r \<longleftrightarrow> (case r of None \<Rightarrow> False
     | Some m \<Rightarrow> header_truthy (header_of m ''x-forwarded-for'') \<and> header_truthy (header_of m ''x-forwarded-proto'')
         \<and> header_truthy (header_of m ''x-forwarded-host''))"

definition isTailscaleProxyRequest :: "'ip IpLibrary \<Rightarrow> IncomingMessage option \<Rightarrow> bool" where
  "isTailscaleProxyRequest lib r \<longleftrightarrow> (case r of None \<Rightarrow> False
     | Some m \<Rightarrow> isLoopbackAddress lib (remoteAddress m) \<and> hasTailscaleProxyHeaders r)"

text \<open>\<open>whois\<close> is \<open>readTailscaleWhoisIdentity\<close>, which turns every failure into no identity.\<close>

definition resolveVerifiedTailscaleUser ::
    "'ip IpLibrary \<Rightarrow> (string \<Rightarrow> TailscaleWhoisIdentity option) \<Rightarrow> IncomingMessage option \<Rightarrow> string + TailscaleUser" where
  "resolveVerifiedTailscaleUser lib whois r = (case getTailscaleUser r of
     None \<Rightarrow> Inl ''tailscale_user_missing''
   | Some tailscaleUser \<Rightarrow>
     if \<not> isTailscaleProxyRequest lib r then Inl ''tailscale_proxy_missing''
     else case resolveTailscaleClientIp lib r of
       None \<Rightarrow> Inl ''tailscale_whois_failed''
     | Some ip \<Rightarrow>
       if ip = '''' then Inl ''tailscale_whois_failed''
       else case whois ip of
         None \<Rightarrow> Inl ''tailscale_whois_failed''
       | Some w \<Rightarrow>
         if whoisLogin w = '''' then Inl ''tailscale_whois_failed''
         else if normalizeLogin (whoisLogin w) \<noteq> normalizeLogin (login tailscaleUser)
         then Inl ''tailscale_user_mismatch''
         else Inr \<lparr>login = whoisLogin w, name = nullish (whoisName w) (name tailscaleUser),
                profilePic = profilePic tailscaleUser\<rparr>)"

section \<open>Trusted proxies\<close>

definition present_header :: "IncomingMessage \<Rightarrow> string \<Rightarrow> bool" where
  "present_header m header = (case headerValue (header_of m (normalizeLowercaseStringOrEmpty (Some header))) of
     None \<Rightarrow> False | Some v \<Rightarrow> v \<noteq> '''' \<and> js_trim v \<noteq> '''')"

definition authorizeTrustedProxy ::
    "'ip IpLibrary \<Rightarrow> IncomingMessage option \<Rightarrow> string list option \<Rightarrow> GatewayTrustedProxyConfig \<Rightarrow> string + string" where
  "authorizeTrustedProxy lib r trusted cfg = (case r of None \<Rightarrow> Inl ''trusted_proxy_no_request''
   | Some m \<Rightarrow>
     if \<not> truthy (remoteAddress m) \<or> \<not> isTrustedProxyAddress lib (remoteAddress m) trusted
     then Inl ''trusted_proxy_untrusted_source''
     else if isLoopbackAddress lib (remoteAddress m) then Inl ''trusted_proxy_loopback_source''
     else case List.find (\<lambda>h. \<not> present_header m h) (nullish (requiredHeaders cfg) []) of
       Some header \<Rightarrow> Inl (''trusted_proxy_missing_header_'' @ header)
     | None \<Rightarrow>
       (case headerValue (header_of m (normalizeLowercaseStringOrEmpty (Some (userHeader cfg)))) of
          None \<Rightarrow> Inl ''trusted_proxy_user_missing''
        | Some value \<Rightarrow>
          if value = '''' \<or> js_trim value = '''' then Inl ''trusted_proxy_user_missing''
          else let user = js_trim value; allowed = nullish (allowUsers cfg) []
               in if length allowed > 0 \<and> user \<notin> set allowed then Inl ''trusted_proxy_user_not_allowed''
                  else Inr user))"

definition shouldAllowTailscaleHeaderAuth :: "GatewayAuthSurface \<Rightarrow> bool" where
  "shouldAllowTailscaleHeaderAuth s \<longleftrightarrow> s = Surface_ws_control_ui"

definition authorizeTrustedProxyBrowserOrigin ::
    "'ip GatewayLib \<Rightarrow> GatewayAuthSurface \<Rightarrow> BrowserOriginPolicy option \<Rightarrow> GatewayAuthResult option" where
  "authorizeTrustedProxyBrowserOrigin lib surface policy =
     (if surface \<noteq> Surface_http then None
      else case policy of None \<Rightarrow> None
        | Some p \<Rightarrow>
          (case map_option js_trim (origin p) of None \<Rightarrow> None
           | Some org \<Rightarrow>
             if org = '''' then None
             else if origin_ok (checkBrowserOrigin lib (p\<lparr>origin := Some org\<rparr>) False) then None
             else Some (denied ''trusted_proxy_origin_not_allowed'')))"

section \<open>Authorization\<close>

definition authorizeTokenAuth ::
    "'ip GatewayLib \<Rightarrow> int \<Rightarrow> string option \<Rightarrow> string option \<Rightarrow> string option \<Rightarrow> string
      \<Rightarrow> AuthRateLimiter option \<Rightarrow> GatewayAuthResult \<times> AuthRateLimiter option" where
  "authorizeTokenAuth lib now configured presented ip scope limiter =
     (if \<not> truthy configured then (denied ''token_missing_config'', limiter)
      else if \<not> truthy presented then (denied ''token_missing'', limiter)
      else if \<not> safeEqualSecret lib presented configured
      then (denied ''token_mismatch'', map_option (recordFailure (ips lib) now ip (Some scope)) limiter)
      else (granted Me_token None, map_option (reset (ips lib) ip (Some scope)) limiter))"

definition authorizePasswordAuth ::
    "'ip GatewayLib \<Rightarrow> int \<Rightarrow> string option \<Rightarrow> string option \<Rightarrow> string option \<Rightarrow> string
      \<Rightarrow> AuthRateLimiter option \<Rightarrow> GatewayAuthResult \<times> AuthRateLimiter option" where
  "authorizePasswordAuth lib now configured presented ip scope limiter =
     (if \<not> truthy configured then (denied ''password_missing_config'', limiter)
      else if \<not> truthy presented then (denied ''password_missing'', limiter)
      else if \<not> safeEqualSecret lib presented configured
      then (denied ''password_mismatch'', map_option (recordFailure (ips lib) now ip (Some scope)) limiter)
      else (granted Me_password None, map_option (reset (ips lib) ip (Some scope)) limiter))"

definition surface_of :: "AuthorizeParams \<Rightarrow> GatewayAuthSurface" where
  "surface_of p = nullish (authSurface p) Surface_http"

definition ip_of :: "'ip IpLibrary \<Rightarrow> AuthorizeParams \<Rightarrow> string option" where
  "ip_of lib p = orElse (orElse (clientIp p) (resolveRequestClientIp lib (req p) (proxies p) (realIpFallback p)))
     (case req p of None \<Rightarrow> None | Some m \<Rightarrow> remoteAddress m)"

definition scope_of :: "AuthorizeParams \<Rightarrow> string" where
  "scope_of p = nullish (rateLimitScope p) AUTH_RATE_LIMIT_SCOPE_SHARED_SECRET"

text \<open>The part after the Tailscale branch.\<close>

definition authorize_secret ::
    "'ip GatewayLib \<Rightarrow> int \<Rightarrow> AuthorizeParams \<Rightarrow> AuthRateLimiter option \<Rightarrow> GatewayAuthResult \<times> AuthRateLimiter option" where
  "authorize_secret lib now p limiter =
     (if authMode (auth p) = Am_token
      then authorizeTokenAuth lib now (authToken (auth p)) (Option.bind (connectAuth p) connectToken)
             (ip_of (ips lib) p) (scope_of p) limiter
      else if authMode (auth p) = Am_password
      then authorizePasswordAuth lib now (authPassword (auth p)) (Option.bind (connectAuth p) connectPassword)
             (ip_of (ips lib) p) (scope_of p) limiter
      else (denied ''unauthorized'', map_option (recordFailure (ips lib) now (ip_of (ips lib) p) (Some (scope_of p))) limiter))"

datatype AuthStep = Answered GatewayAuthResult | AwaitsWhois

definition rate_limited :: "RateLimitCheckResult \<Rightarrow> GatewayAuthResult" where
  "rate_limited r = (denied ''rate_limited'')\<lparr>rateLimited := True, auth_retryAfterMs := Some (retryAfterMs r)\<rparr>"

definition asks_tailscale :: "'ip IpLibrary \<Rightarrow> AuthorizeParams \<Rightarrow> bool" where
  "asks_tailscale lib p \<longleftrightarrow> shouldAllowTailscaleHeaderAuth (surface_of p) \<and> allowTailscale (auth p)
     \<and> \<not> isLocalDirectRequest lib (req p) \<and> \<not> hasExplicitSharedSecretAuth (connectAuth p)"

definition authorizeGatewayConnectCore ::
    "'ip GatewayLib \<Rightarrow> int \<Rightarrow> AuthorizeParams \<Rightarrow> AuthRateLimiter option \<Rightarrow> AuthStep \<times> AuthRateLimiter option" where
  "authorizeGatewayConnectCore lib now p limiter =
     (if authMode (auth p) = Am_trusted_proxy
      then (case trustedProxy (auth p) of
          None \<Rightarrow> (Answered (denied ''trusted_proxy_config_missing''), limiter)
        | Some cfg \<Rightarrow>
          if nullish (proxies p) [] = [] then (Answered (denied ''trusted_proxy_no_proxies_configured''), limiter)
          else case authorizeTrustedProxy (ips lib) (req p) (proxies p) cfg of
            Inr user \<Rightarrow>
              (case authorizeTrustedProxyBrowserOrigin lib (surface_of p) (browserOriginPolicy p) of
                 Some r \<Rightarrow> (Answered r, limiter)
               | None \<Rightarrow> (Answered (granted Me_trusted_proxy (Some user)), limiter))
          | Inl reason \<Rightarrow> (Answered (denied reason), limiter))
      else if authMode (auth p) = Am_none then (Answered (granted Me_none None), limiter)
      else case map_option (check (ips lib) now (ip_of (ips lib) p) (Some (scope_of p))) limiter of
        Some (r, lim1) \<Rightarrow>
          if \<not> allowed r then (Answered (rate_limited r), Some lim1)
          else if asks_tailscale (ips lib) p then (AwaitsWhois, Some lim1)
          else (case authorize_secret lib now p (Some lim1) of (res, lim2) \<Rightarrow> (Answered res, lim2))
      | None \<Rightarrow>
          if asks_tailscale (ips lib) p then (AwaitsWhois, None)
          else (case authorize_secret lib now p None of (res, lim2) \<Rightarrow> (Answered res, lim2)))"

text \<open>The answer of Tailscale has arrived.\<close>

definition resumeGatewayConnect ::
    "'ip GatewayLib \<Rightarrow> int \<Rightarrow> (string \<Rightarrow> TailscaleWhoisIdentity option) \<Rightarrow> AuthorizeParams \<Rightarrow> AuthRateLimiter option
      \<Rightarrow> GatewayAuthResult \<times> AuthRateLimiter option" where
  "resumeGatewayConnect lib now whois p limiter =
     (case resolveVerifiedTailscaleUser (ips lib) whois (req p) of
        Inr user \<Rightarrow> (granted Me_tailscale (Some (login user)),
          map_option (reset (ips lib) (ip_of (ips lib) p) (Some (scope_of p))) limiter)
      | Inl _ \<Rightarrow> authorize_secret lib now p limiter)"

end
