(* ===== verification/AuthRateLimitProps.thy ===== *)
theory AuthRateLimitProps
  imports AuthRateLimit
begin

text \<open>
  What the limiter promises: failures in any window are bounded, a lockout lasts, and pruning is
  invisible. The statements are about sequences of events on one limiter whose clock does not go back.
\<close>

section \<open>Sequences of events\<close>

text \<open>
  \<open>Try\<close> is a login with wrong credentials as the gateway performs it: it looks, goes no further when
  it is refused, and records a failure otherwise.
\<close>

datatype LimiterEvent =
    Look "string option" "string option"
  | Try "string option" "string option"
  | Clear "string option" "string option"
  | Prune

definition try_login ::
    "'ip IpLibrary \<Rightarrow> int \<Rightarrow> string option \<Rightarrow> string option \<Rightarrow> AuthRateLimiter
      \<Rightarrow> RateLimitCheckResult \<times> AuthRateLimiter" where
  "try_login lib now ip scope lim =
     (case check lib now ip scope lim of (r, lim1) \<Rightarrow>
        (r, if allowed r then recordFailure lib now ip scope lim1 else lim1))"

fun limiter_event :: "'ip IpLibrary \<Rightarrow> int \<Rightarrow> LimiterEvent \<Rightarrow> AuthRateLimiter \<Rightarrow> RateLimitCheckResult list \<times> AuthRateLimiter" where
  "limiter_event lib now (Look ip scope) lim = (case check lib now ip scope lim of (r, lim1) \<Rightarrow> ([r], lim1))"
| "limiter_event lib now (Try ip scope) lim = (case try_login lib now ip scope lim of (r, lim1) \<Rightarrow> ([r], lim1))"
| "limiter_event lib now (Clear ip scope) lim = ([], reset lib ip scope lim)"
| "limiter_event lib now Prune lim = ([], prune now lim)"

fun run_limiter :: "'ip IpLibrary \<Rightarrow> (int \<times> LimiterEvent) list \<Rightarrow> AuthRateLimiter \<Rightarrow> RateLimitCheckResult list \<times> AuthRateLimiter" where
  "run_limiter lib [] lim = ([], lim)"
| "run_limiter lib ((now, ev) # evs) lim =
     (case limiter_event lib now ev lim of (rs, lim1) \<Rightarrow>
        case run_limiter lib evs lim1 of (rs', lim2) \<Rightarrow> (rs @ rs', lim2))"

text \<open>The times at which a login under a key was looked into and failed.\<close>

definition failure_at :: "'ip IpLibrary \<Rightarrow> string \<Rightarrow> int \<Rightarrow> LimiterEvent \<Rightarrow> AuthRateLimiter \<Rightarrow> int list" where
  "failure_at lib key now ev lim = (case ev of
     Try ip scope \<Rightarrow> if fst (resolveKey lib ip scope) = key \<and> \<not> isExempt lib lim (snd (resolveKey lib ip scope))
         \<and> allowed (fst (check lib now ip scope lim)) then [now] else []
   | _ \<Rightarrow> [])"

fun failures :: "'ip IpLibrary \<Rightarrow> string \<Rightarrow> (int \<times> LimiterEvent) list \<Rightarrow> AuthRateLimiter \<Rightarrow> int list" where
  "failures lib key [] lim = []"
| "failures lib key ((now, ev) # evs) lim =
     failure_at lib key now ev lim @ failures lib key evs (snd (limiter_event lib now ev lim))"

definition clears :: "'ip IpLibrary \<Rightarrow> string \<Rightarrow> LimiterEvent \<Rightarrow> bool" where
  "clears lib key ev \<longleftrightarrow> (case ev of Clear ip scope \<Rightarrow> fst (resolveKey lib ip scope) = key | _ \<Rightarrow> False)"

section \<open>The entry of a key after an event\<close>

lemma check_keeps:
  "same_limits (snd (check lib now ip scope lim)) lim"
  "distinct (map fst (entries lim)) \<Longrightarrow> distinct (map fst (entries (snd (check lib now ip scope lim))))"
  by (auto simp: check_def case_prod_unfold Let_def split: option.splits)

lemma recordFailure_keeps:
  "same_limits (recordFailure lib now ip scope lim) lim"
  "distinct (map fst (entries lim)) \<Longrightarrow> distinct (map fst (entries (recordFailure lib now ip scope lim)))"
  by (auto simp: recordFailure_def case_prod_unfold Let_def)

lemma same_limits_trans: "same_limits a b \<Longrightarrow> same_limits b c \<Longrightarrow> same_limits a c"
  by (simp add: same_limits_def)

lemma map_filter_keys:
  assumes "\<And>x y. f x = Some y \<Longrightarrow> fst y = fst x" "distinct (map fst es)"
  shows "fst ` set (List.map_filter f es) \<subseteq> fst ` set es \<and> distinct (map fst (List.map_filter f es))"
  using assms(2)
proof (induction es)
  case (Cons e es)
  then show ?case using assms(1) [of e] by (auto simp: map_filter_simps(1) split: option.splits)
qed (simp add: map_filter_simps)

lemma event_keeps:
  "same_limits (snd (limiter_event lib now ev lim)) lim"
  "distinct (map fst (entries lim)) \<Longrightarrow> distinct (map fst (entries (snd (limiter_event lib now ev lim))))"
proof -
  have "prune_entry lim now x = Some y \<Longrightarrow> fst y = fst x" for x y
    by (auto simp: prune_entry_def Let_def split: if_splits)
  then have prune: "distinct (map fst (entries lim)) \<Longrightarrow> distinct (map fst (entries (prune now lim)))"
    using map_filter_keys [of "prune_entry lim now"] by (simp add: prune_def)
  have [simp]: "distinct (map fst (entries lim)) \<Longrightarrow> distinct (map fst (entries (reset lib ip scope lim)))" for ip scope
    by (simp add: reset_def case_prod_unfold)
  have [simp]: "same_limits (prune now lim) lim" by (simp add: prune_def same_limits_def)
  show "same_limits (snd (limiter_event lib now ev lim)) lim"
    by (cases ev) (auto simp: try_login_def case_prod_unfold check_keeps intro: recordFailure_keeps same_limits_trans check_keeps)
  show "distinct (map fst (entries lim)) \<Longrightarrow> distinct (map fst (entries (snd (limiter_event lib now ev lim))))"
    by (cases ev) (auto simp: try_login_def case_prod_unfold check_keeps recordFailure_keeps prune)
qed

lemma limits_cong:
  assumes "same_limits a b"
  shows "checked a = checked b" "failed a = failed b" "pruned a = pruned b" "isExempt lib a = isExempt lib b"
  using assms by (auto simp: fun_eq_iff same_limits_def checked_def failed_def pruned_def slideWindow_def isExempt_def
      Let_def split: option.splits)

definition on_key :: "'ip IpLibrary \<Rightarrow> string \<Rightarrow> string option \<Rightarrow> string option \<Rightarrow> AuthRateLimiter \<Rightarrow> bool" where
  "on_key lib key ip scope lim \<longleftrightarrow>
     fst (resolveKey lib ip scope) = key \<and> \<not> isExempt lib lim (snd (resolveKey lib ip scope))"

lemma look_entry: "entry_of k (snd (check lib now ip scope lim))
    = (if on_key lib k ip scope lim then snd (checked lim now (entry_of k lim)) else entry_of k lim)"
  by (cases "isExempt lib lim (snd (resolveKey lib ip scope))") (simp_all add: on_key_def check_entry eq_commute)

lemma try_entry: "entry_of k (snd (try_login lib now ip scope lim))
    = (if on_key lib k ip scope lim
       then (if allowed (fst (checked lim now (entry_of k lim)))
             then Some (failed lim now (snd (checked lim now (entry_of k lim))))
             else snd (checked lim now (entry_of k lim)))
       else entry_of k lim)"
proof (cases "isExempt lib lim (snd (resolveKey lib ip scope))")
  case True
  then have "recordFailure lib now ip scope lim = lim" by (simp add: recordFailure_def case_prod_unfold)
  with True show ?thesis by (simp add: try_login_def on_key_def)
next
  case False
  let ?lim1 = "snd (check lib now ip scope lim)"
  have "same_limits ?lim1 lim" by (rule check_keeps)
  from limits_cong [OF this] False
  have "\<not> isExempt lib ?lim1 (snd (resolveKey lib ip scope))" "failed ?lim1 = failed lim" by metis+
  with False show ?thesis
    by (auto simp: try_login_def on_key_def case_prod_unfold check_entry recordFailure_entry)
qed

lemma try_result: "fst (try_login lib now ip scope lim) = fst (check lib now ip scope lim)"
  by (simp add: try_login_def case_prod_unfold)

lemma check_result: "on_key lib k ip scope lim \<Longrightarrow> fst (check lib now ip scope lim) = fst (checked lim now (entry_of k lim))"
  by (auto simp: on_key_def check_entry)

section \<open>Failures in a window\<close>

text \<open>
  The failures \<open>G\<close> of a key so far, and its entry at the time \<open>now\<close>: an entry without a lockout holds the
  failures of the window and there is room for one more; a lockout ends a window after every failure.
\<close>

definition recent :: "AuthRateLimiter \<Rightarrow> int \<Rightarrow> int list \<Rightarrow> int list" where
  "recent lim now = filter (\<lambda>ts. ts > now - windowMs lim)"

definition counted :: "AuthRateLimiter \<Rightarrow> int \<Rightarrow> int list \<Rightarrow> RateLimitEntry option \<Rightarrow> bool" where
  "counted lim now G eo \<longleftrightarrow> (\<forall>x \<in> set G. x \<le> now) \<and> (case eo of None \<Rightarrow> recent lim now G = []
     | Some e \<Rightarrow>
       if truthy_num (lockedUntil e)
       then (\<forall>x \<in> set G. x + lockoutMs lim \<le> the (lockedUntil e)) \<and> set (attempts e) \<subseteq> set G
       else recent lim now (attempts e) = recent lim now G \<and> int (length (recent lim now G)) < maxAttempts lim)"

definition window_bounded :: "AuthRateLimiter \<Rightarrow> int list \<Rightarrow> bool" where
  "window_bounded lim G \<longleftrightarrow>
     (\<forall>t. int (length (filter (\<lambda>x. t < x \<and> x \<le> t + windowMs lim) G)) \<le> maxAttempts lim)"

lemma recent_later:
  assumes "now \<le> now'"
  shows "recent lim now' xs = recent lim now' (recent lim now xs)"
    and "length (recent lim now' xs) \<le> length (recent lim now xs)"
proof -
  show eq: "recent lim now' xs = recent lim now' (recent lim now xs)"
    using assms by (auto simp: recent_def intro: filter_cong)
  show "length (recent lim now' xs) \<le> length (recent lim now xs)"
    by (subst eq) (simp add: recent_def [of _ now'] del: filter_filter)
qed

lemma counted_later:
  assumes "counted lim now G eo" "now \<le> now'"
  shows "counted lim now' G eo"
proof -
  note r = recent_later [OF assms(2), of lim]
  have le: "\<forall>x \<in> set G. x \<le> now'" using assms by (fastforce simp: counted_def)
  show ?thesis
  proof (cases eo)
    case None
    with assms(1) have "recent lim now G = []" by (simp add: counted_def)
    with r(2) [of G] have "recent lim now' G = []" by simp
    with None le show ?thesis by (simp add: counted_def)
  next
    case (Some e)
    show ?thesis
    proof (cases "truthy_num (lockedUntil e)")
      case False
      with Some assms(1) have c: "recent lim now (attempts e) = recent lim now G"
          "int (length (recent lim now G)) < maxAttempts lim" by (simp_all add: counted_def)
      have "recent lim now' (attempts e) = recent lim now' G" using r(1) [of G] r(1) [of "attempts e"] c(1) by metis
      moreover have "int (length (recent lim now' G)) < maxAttempts lim" using r(2) [of G] c(2) by linarith
      ultimately show ?thesis using Some False le by (simp add: counted_def)
    qed (use Some assms(1) le in \<open>simp add: counted_def\<close>)
  qed
qed

lemma expired_recent:
  assumes "\<forall>x \<in> set G. x + lockoutMs lim \<le> L" "L \<le> now" "windowMs lim \<le> lockoutMs lim" "set xs \<subseteq> set G"
  shows "recent lim now xs = []"
  using assms by (fastforce simp: recent_def filter_empty_conv)

lemma counted_checked:
  assumes "counted lim now G eo" "windowMs lim \<le> lockoutMs lim" "1 \<le> maxAttempts lim"
  shows "counted lim now G (snd (checked lim now eo))"
proof (cases eo)
  case (Some e)
  show ?thesis
  proof (cases "truthy_num (lockedUntil e)")
    case True
    have "counted lim now G (Some (slideWindow lim now (e\<lparr>lockedUntil := None, attempts := []\<rparr>)))"
      if "the (lockedUntil e) \<le> now"
      using assms Some True expired_recent [OF _ that assms(2), of G G]
      by (simp add: counted_def slideWindow_def truthy_num_def) (simp add: recent_def)
    with True Some assms(1) show ?thesis by (auto simp: checked_def locked_def Let_def)
  next
    case False
    with Some assms(1) show ?thesis
      by (simp add: checked_def locked_def counted_def slideWindow_def Let_def) (simp add: recent_def)
  qed
qed (use assms(1) in \<open>simp add: checked_def\<close>)

lemma allowed_room:
  assumes "counted lim now G eo" "windowMs lim \<le> lockoutMs lim" "1 \<le> maxAttempts lim" "allowed (fst (checked lim now eo))"
  shows "int (length (recent lim now G)) < maxAttempts lim"
    and "\<And>e. snd (checked lim now eo) = Some e \<Longrightarrow> \<not> truthy_num (lockedUntil e) \<and> attempts e = recent lim now G"
proof -
  note c = counted_checked [OF assms(1-3)]
  show "int (length (recent lim now G)) < maxAttempts lim"
    using assms(4) c assms(3)
    by (auto simp: checked_def counted_def slideWindow_def truthy_num_def Let_def split: option.splits if_splits)
  show "\<not> truthy_num (lockedUntil e) \<and> attempts e = recent lim now G" if "snd (checked lim now eo) = Some e" for e
    using that assms(4) c
    by (auto simp: checked_def counted_def slideWindow_def truthy_num_def recent_def Let_def split: option.splits if_splits)
qed

lemma counted_failed:
  assumes "counted lim now G eo" "windowMs lim \<le> lockoutMs lim" "1 \<le> maxAttempts lim" "0 < now"
    "allowed (fst (checked lim now eo))" "0 \<le> lockoutMs lim"
  shows "counted lim now (G @ [now]) (Some (failed lim now (snd (checked lim now eo))))"
proof -
  note room = allowed_room [OF assms(1-3,5)]
  define e where "e = nullish (snd (checked lim now eo)) \<lparr>attempts = [], lockedUntil = None\<rparr>"
  have le: "\<forall>x \<in> set G. x \<le> now" using assms(1) by (simp add: counted_def)
  have none: "snd (checked lim now eo) = None \<Longrightarrow> recent lim now G = []"
    using counted_checked [OF assms(1-3)] by (simp add: counted_def)
  have e: "\<not> truthy_num (lockedUntil e)" "attempts e = recent lim now G"
    using room(2) none by (cases "snd (checked lim now eo)"; simp add: e_def truthy_num_def)+
  have "attempts (slideWindow lim now e) = recent lim now G"
    using e(2) by (simp add: slideWindow_def) (simp add: recent_def)
  with e(1) have f: "failed lim now (snd (checked lim now eo)) = \<lparr>attempts = recent lim now G @ [now], lockedUntil =
      (if int (length (recent lim now G @ [now])) \<ge> maxAttempts lim then Some (now + lockoutMs lim) else lockedUntil e)\<rparr>"
    unfolding failed_def e_def [symmetric] Let_def by (simp add: locked_def)
  show ?thesis
  proof (cases "int (length (recent lim now G @ [now])) \<ge> maxAttempts lim")
    case True
    with f le assms(4,6) show ?thesis by (auto simp: counted_def truthy_num_def recent_def)
  next
    case False
    moreover have "recent lim now (recent lim now G) = recent lim now G" by (simp add: recent_def)
    ultimately show ?thesis using f e(1) le by (auto simp: counted_def) (auto simp: recent_def)
  qed
qed

lemma counted_pruned:
  assumes "counted lim now G eo" "windowMs lim \<le> lockoutMs lim"
  shows "counted lim now G (pruned lim now eo)"
proof (cases eo)
  case (Some e)
  show ?thesis
  proof (cases "truthy_num (lockedUntil e)")
    case True
    show ?thesis
    proof (cases "now < the (lockedUntil e)")
      case False
      with Some True assms have "recent lim now G = []" "recent lim now (attempts e) = []"
        by (auto simp: counted_def intro!: expired_recent [of G lim "the (lockedUntil e)"])
      with Some assms(1) False show ?thesis
        by (simp add: pruned_def locked_def counted_def slideWindow_def) (simp add: recent_def)
    qed (use Some True assms(1) in \<open>simp add: pruned_def locked_def\<close>)
  next
    case False
    with Some assms(1) show ?thesis
      by (simp add: pruned_def locked_def counted_def slideWindow_def) (simp add: recent_def)
  qed
qed (use assms(1) in \<open>simp add: pruned_def\<close>)

lemma window_bounded_snoc:
  assumes "window_bounded lim G" "int (length (recent lim now G)) < maxAttempts lim" "\<forall>x \<in> set G. x \<le> now"
  shows "window_bounded lim (G @ [now])"
  unfolding window_bounded_def
proof
  fix t
  let ?in = "\<lambda>x. t < x \<and> x \<le> t + windowMs lim"
  show "int (length (filter ?in (G @ [now]))) \<le> maxAttempts lim"
  proof (cases "?in now")
    case True
    then have "filter ?in G = filter ?in (recent lim now G)" by (auto simp: recent_def intro: filter_cong)
    then have "length (filter ?in G) \<le> length (recent lim now G)" by simp
    with True assms(2) show ?thesis by simp
  next
    case False
    then have "filter ?in (G @ [now]) = filter ?in G" by simp
    with assms(1) show ?thesis by (simp only: window_bounded_def)
  qed
qed

text \<open>
  What an event does to the entry of a key and to its failures, for a limiter with sensible settings:
  at least one attempt and a lockout that is not shorter than the window.
\<close>

definition sensible :: "AuthRateLimiter \<Rightarrow> bool" where
  "sensible lim \<longleftrightarrow> 1 \<le> maxAttempts lim \<and> windowMs lim \<le> lockoutMs lim \<and> 0 \<le> lockoutMs lim"

definition accounts :: "string \<Rightarrow> int \<Rightarrow> int list \<Rightarrow> AuthRateLimiter \<Rightarrow> bool" where
  "accounts key now G lim \<longleftrightarrow> sensible lim \<and> distinct (map fst (entries lim))
     \<and> counted lim now G (entry_of key lim) \<and> window_bounded lim G"

lemma counted_cong: "same_limits a b \<Longrightarrow> counted a = counted b" "same_limits a b \<Longrightarrow> window_bounded a = window_bounded b"
    "same_limits a b \<Longrightarrow> sensible a = sensible b"
  by (auto simp: fun_eq_iff same_limits_def counted_def window_bounded_def recent_def sensible_def split: option.splits)

lemma event_accounts:
  assumes "accounts key now0 G lim" "now0 \<le> now" "0 < now" "\<not> clears lib key ev"
  shows "accounts key now (G @ failure_at lib key now ev lim) (snd (limiter_event lib now ev lim))"
proof -
  have s: "1 \<le> maxAttempts lim" "windowMs lim \<le> lockoutMs lim" "0 \<le> lockoutMs lim" "distinct (map fst (entries lim))"
    using assms(1) by (simp_all add: accounts_def sensible_def)
  have c: "counted lim now G (entry_of key lim)" using assms(1,2) counted_later by (auto simp: accounts_def)
  have b: "window_bounded lim G" using assms(1) by (simp add: accounts_def)
  let ?lim' = "snd (limiter_event lib now ev lim)" and ?F = "failure_at lib key now ev lim"
  have "counted lim now (G @ ?F) (entry_of key ?lim') \<and> window_bounded lim (G @ ?F)"
  proof (cases ev)
    case (Look ip scope)
    with c b counted_checked [OF c s(2,1)] show ?thesis
      by (simp add: failure_at_def case_prod_unfold look_entry)
  next
    case (Try ip scope)
    show ?thesis
    proof (cases "on_key lib key ip scope lim \<and> allowed (fst (checked lim now (entry_of key lim)))")
      case True
      with Try have "?F = [now]" by (auto simp: failure_at_def on_key_def check_entry(1))
      moreover have "window_bounded lim (G @ [now])"
        using window_bounded_snoc [OF b] allowed_room(1) [OF c s(2,1)] True c by (simp add: counted_def)
      ultimately show ?thesis using True Try counted_failed [OF c s(2,1) assms(3) _ s(3)]
        by (simp add: case_prod_unfold try_entry)
    next
      case False
      with Try have "?F = []" using check_result [of lib key ip scope lim now] by (auto simp: failure_at_def on_key_def)
      with False Try c b counted_checked [OF c s(2,1)] show ?thesis by (auto simp: case_prod_unfold try_entry)
    qed
  next
    case (Clear ip scope)
    with c b assms(4) show ?thesis by (auto simp: failure_at_def clears_def)
  next
    case Prune
    with c b counted_pruned [OF c s(2)] show ?thesis by (simp add: failure_at_def prune_entry_of s(4))
  qed
  moreover note counted_cong [OF event_keeps(1) [of lib now ev lim]]
  ultimately show ?thesis using assms(1) event_keeps(2) [of lim lib now ev] by (simp add: accounts_def)
qed

fun clock_runs :: "int \<Rightarrow> (int \<times> 'a) list \<Rightarrow> bool" where
  "clock_runs now [] \<longleftrightarrow> True"
| "clock_runs now ((t, _) # evs) \<longleftrightarrow> now \<le> t \<and> clock_runs t evs"

lemma run_accounts:
  assumes "accounts key now G lim" "clock_runs now evs" "0 < now" "\<forall>(_, ev) \<in> set evs. \<not> clears lib key ev"
  shows "window_bounded lim (G @ failures lib key evs lim)"
  using assms
proof (induction evs arbitrary: now G lim)
  case Nil
  then show ?case by (simp add: accounts_def)
next
  case (Cons e evs)
  obtain t ev where e: "e = (t, ev)" by (cases e)
  with Cons.prems have t: "now \<le> t" "0 < t" "clock_runs t evs" "\<not> clears lib key ev" by auto
  let ?lim' = "snd (limiter_event lib t ev lim)"
  have "accounts key t (G @ failure_at lib key t ev lim) ?lim'"
    by (rule event_accounts [OF Cons.prems(1) t(1,2,4)])
  from Cons.IH [OF this t(3,2)] Cons.prems(4)
  have "window_bounded ?lim' ((G @ failure_at lib key t ev lim) @ failures lib key evs ?lim')" by simp
  with counted_cong(2) [OF event_keeps(1) [of lib t ev lim]] e show ?case by simp
qed

lemma accounts_at_start: "sensible lim \<Longrightarrow> entries lim = [] \<Longrightarrow> accounts key now [] lim"
  by (simp add: accounts_def counted_def window_bounded_def sensible_def recent_def)

text \<open>
  Guessing is bounded: in whatever order logins under any keys are tried, looked up, forgiven under
  other keys and pruned, the failures that a limiter lets happen under one key within any window are
  at most the configured number, when the lockout is not shorter than the window.
\<close>

theorem failures_bounded:
  assumes "sensible (createAuthRateLimiter config)" "clock_runs 1 evs" "\<forall>(_, ev) \<in> set evs. \<not> clears lib key ev"
  shows "int (length (filter (\<lambda>x. t < x \<and> x \<le> t + windowMs (createAuthRateLimiter config))
      (failures lib key evs (createAuthRateLimiter config)))) \<le> maxAttempts (createAuthRateLimiter config)"
proof -
  have "entries (createAuthRateLimiter config) = []" by (simp add: createAuthRateLimiter_def Let_def)
  from run_accounts [OF accounts_at_start [OF assms(1) this] assms(2) _ assms(3)]
  show ?thesis by (simp add: window_bounded_def)
qed

definition example_limits :: RateLimitConfig where
  "example_limits = \<lparr>maxAttemptsC = Some 2, windowMsC = None, lockoutMsC = None, exemptLoopbackC = None,
     pruneIntervalMsC = None\<rparr>"

definition example_events :: "(int \<times> LimiterEvent) list" where
  "example_events = [(1000, Try (Some ''10.0.0.7'') None), (1500, Prune), (2000, Try (Some ''10.0.0.7'') None),
     (3000, Try (Some ''10.0.0.7'') None)]"

theorem failures_bounded_witness:
  "failures example_ip_library ''default:10.0.0.7'' example_events (createAuthRateLimiter (Some example_limits)) = [1000, 2000]
   \<and> int (length (filter (\<lambda>x. 0 < x \<and> x \<le> 0 + windowMs (createAuthRateLimiter (Some example_limits)))
      (failures example_ip_library ''default:10.0.0.7'' example_events (createAuthRateLimiter (Some example_limits)))))
     \<le> maxAttempts (createAuthRateLimiter (Some example_limits))"
proof
  show "failures example_ip_library ''default:10.0.0.7'' example_events (createAuthRateLimiter (Some example_limits)) = [1000, 2000]"
    by code_simp
  have "sensible (createAuthRateLimiter (Some example_limits))" by code_simp
  moreover have "clock_runs 1 example_events" by code_simp
  moreover have "\<forall>(_, ev) \<in> set example_events. \<not> clears example_ip_library ''default:10.0.0.7'' ev"
    by (simp add: example_events_def clears_def)
  ultimately show "int (length (filter (\<lambda>x. 0 < x \<and> x \<le> 0 + windowMs (createAuthRateLimiter (Some example_limits)))
      (failures example_ip_library ''default:10.0.0.7'' example_events (createAuthRateLimiter (Some example_limits)))))
     \<le> maxAttempts (createAuthRateLimiter (Some example_limits))"
    by (rule failures_bounded)
qed

section \<open>A lockout lasts\<close>

lemma event_locked:
  assumes "distinct (map fst (entries lim))" "entry_of key lim = Some e" "locked now e" "\<not> clears lib key ev"
  shows "entry_of key (snd (limiter_event lib now ev lim)) = Some e"
  using assms by (cases ev) (auto simp: case_prod_unfold look_entry try_entry prune_entry_of checked_def pruned_def clears_def)

lemma run_locked:
  assumes "distinct (map fst (entries lim))" "entry_of key lim = Some e" "lockedUntil e = Some L" "L \<noteq> 0"
    "\<forall>(t, ev) \<in> set evs. t < L \<and> \<not> clears lib key ev"
  shows "entry_of key (snd (run_limiter lib evs lim)) = Some e \<and> same_limits (snd (run_limiter lib evs lim)) lim"
  using assms
proof (induction evs arbitrary: lim)
  case (Cons x evs)
  obtain t ev where x: "x = (t, ev)" by (cases x)
  let ?lim' = "snd (limiter_event lib t ev lim)"
  have "locked t e" using Cons.prems x by (auto simp: locked_def truthy_num_def)
  then have "entry_of key ?lim' = Some e" using event_locked Cons.prems x by fastforce
  moreover have "distinct (map fst (entries ?lim'))" by (rule event_keeps(2) [OF Cons.prems(1)])
  ultimately have "entry_of key (snd (run_limiter lib evs ?lim')) = Some e"
      "same_limits (snd (run_limiter lib evs ?lim')) ?lim'"
    using Cons.IH [of ?lim'] Cons.prems by auto
  with same_limits_trans [OF this(2) event_keeps(1)] x show ?case by (simp add: case_prod_unfold)
qed simp

text \<open>
  C18. The failure that uses up the last attempt locks its key: until the lockout ends every look under
  that key is refused and told how long it has to wait, whatever happens under other keys, whatever is
  tried under this one, and whenever the limiter is pruned; only a successful login ends it earlier.
\<close>

theorem lockout_lasts:
  assumes "distinct (map fst (entries lim))" "\<not> isExempt lib lim (snd (resolveKey lib ip scope))"
    "remaining (fst (check lib now ip scope lim)) = 1" "0 < now + lockoutMs lim"
    "\<forall>(t, ev) \<in> set evs. t < now + lockoutMs lim \<and> \<not> clears lib (fst (resolveKey lib ip scope)) ev"
    "later < now + lockoutMs lim"
  shows "fst (check lib later ip scope (snd (run_limiter lib evs (snd (try_login lib now ip scope lim)))))
    = \<lparr>allowed = False, remaining = 0, retryAfterMs = now + lockoutMs lim - later\<rparr>"
proof -
  let ?key = "fst (resolveKey lib ip scope)" and ?lim1 = "snd (try_login lib now ip scope lim)"
  let ?lim2 = "snd (run_limiter lib evs ?lim1)"
  have on: "on_key lib ?key ip scope lim" using assms(2) by (simp add: on_key_def)
  have r: "remaining (fst (checked lim now (entry_of ?key lim))) = 1" using assms(3) check_result [OF on] by simp
  then have "allowed (fst (checked lim now (entry_of ?key lim)))"
    by (auto simp: checked_def Let_def split: option.splits)
  then have e: "entry_of ?key ?lim1 = Some (failed lim now (snd (checked lim now (entry_of ?key lim))))"
    using on by (simp add: try_entry)
  define e1 where "e1 = failed lim now (snd (checked lim now (entry_of ?key lim)))"
  have L: "lockedUntil e1 = Some (now + lockoutMs lim)"
    using r by (auto simp: e1_def checked_def failed_def locked_def slideWindow_def truthy_num_def Let_def max_def
        split: option.splits if_splits)
  have same1: "same_limits ?lim1 lim" and dist: "distinct (map fst (entries ?lim1))"
    using event_keeps [where ev = "Try ip scope" and lim = lim and lib = lib and now = now] assms(1)
    by (simp_all add: case_prod_unfold)
  from run_locked [OF dist e [folded e1_def] L] assms(4,5)
  have e2: "entry_of ?key ?lim2 = Some e1" and "same_limits ?lim2 ?lim1" by auto
  from same_limits_trans [OF this(2) same1] have "isExempt lib ?lim2 = isExempt lib lim"
    by (rule limits_cong)
  then have "on_key lib ?key ip scope ?lim2" using assms(2) by (simp add: on_key_def)
  from check_result [OF this, where now = later] e2 L assms(4,6) show ?thesis
    by (simp add: checked_def locked_def truthy_num_def)
qed


definition example_limiter :: AuthRateLimiter where
  "example_limiter = snd (try_login example_ip_library 1000 (Some ''10.0.0.7'') None (createAuthRateLimiter (Some example_limits)))"

theorem lockout_lasts_witness:
  "allowed (fst (check example_ip_library 1500 (Some ''10.0.0.7'') None example_limiter))
   \<and> fst (check example_ip_library 200000 (Some ''10.0.0.7'') None
        (snd (run_limiter example_ip_library [(100000, Prune)]
          (snd (try_login example_ip_library 1500 (Some ''10.0.0.7'') None example_limiter)))))
      = \<lparr>allowed = False, remaining = 0, retryAfterMs = 101500\<rparr>"
proof -
  have "distinct (map fst (entries example_limiter))" by code_simp
  moreover have "\<not> isExempt example_ip_library example_limiter (snd (resolveKey example_ip_library (Some ''10.0.0.7'') None))"
    by code_simp
  moreover have r: "fst (check example_ip_library 1500 (Some ''10.0.0.7'') None example_limiter)
      = \<lparr>allowed = True, remaining = 1, retryAfterMs = 0\<rparr>" by code_simp
  then have "remaining (fst (check example_ip_library 1500 (Some ''10.0.0.7'') None example_limiter)) = 1" by simp
  moreover have l: "lockoutMs example_limiter = 300000" by code_simp
  moreover have "0 < 1500 + lockoutMs example_limiter" "200000 < 1500 + lockoutMs example_limiter" using l by simp_all
  moreover have "\<forall>(t, ev) \<in> set [(100000, Prune)]. t < 1500 + lockoutMs example_limiter
      \<and> \<not> clears example_ip_library (fst (resolveKey example_ip_library (Some ''10.0.0.7'') None)) ev"
    using l by (simp add: clears_def)
  ultimately have "fst (check example_ip_library 200000 (Some ''10.0.0.7'') None
        (snd (run_limiter example_ip_library [(100000, Prune)]
          (snd (try_login example_ip_library 1500 (Some ''10.0.0.7'') None example_limiter)))))
      = \<lparr>allowed = False, remaining = 0, retryAfterMs = 1500 + lockoutMs example_limiter - 200000\<rparr>"
    by (intro lockout_lasts)
  with l r show ?thesis by simp
qed

section \<open>Pruning is invisible\<close>

text \<open>
  What of an entry can still matter at a time: a lockout that has ended and an empty window are as good
  as no entry.
\<close>

definition essence :: "AuthRateLimiter \<Rightarrow> int \<Rightarrow> RateLimitEntry option \<Rightarrow> RateLimitEntry option" where
  "essence lim now eo = (case eo of None \<Rightarrow> None | Some e \<Rightarrow>
     if locked now e then Some e
     else if truthy_num (lockedUntil e) \<or> recent lim now (attempts e) = [] then None
     else Some \<lparr>attempts = recent lim now (attempts e), lockedUntil = None\<rparr>)"

lemma slideWindow_recent: "attempts (slideWindow lim now e) = recent lim now (attempts e)"
  by (simp add: slideWindow_def recent_def)

lemma recent_idem [simp]: "recent lim now (recent lim now xs) = recent lim now xs"
  by (simp add: recent_def)

lemma recent_Nil [simp]: "recent lim now [] = []"
  by (simp add: recent_def)

text \<open>The cases of an entry: none, locked, with a lockout that has ended, and open.\<close>

lemma checked_cases:
  "checked lim now None = (\<lparr>allowed = True, remaining = maxAttempts lim, retryAfterMs = 0\<rparr>, None)"
  "locked now e \<Longrightarrow> checked lim now (Some e)
     = (\<lparr>allowed = False, remaining = 0, retryAfterMs = the (lockedUntil e) - now\<rparr>, Some e)"
  "\<not> locked now e \<Longrightarrow> truthy_num (lockedUntil e) \<Longrightarrow> 1 \<le> maxAttempts lim \<Longrightarrow> checked lim now (Some e)
     = (\<lparr>allowed = True, remaining = maxAttempts lim, retryAfterMs = 0\<rparr>, Some (e\<lparr>attempts := [], lockedUntil := None\<rparr>))"
  "\<not> truthy_num (lockedUntil e) \<Longrightarrow> checked lim now (Some e)
     = (let left = max 0 (maxAttempts lim - int (length (recent lim now (attempts e))))
        in (\<lparr>allowed = left > 0, remaining = left, retryAfterMs = 0\<rparr>, Some (e\<lparr>attempts := recent lim now (attempts e)\<rparr>)))"
  by (auto simp: checked_def Let_def slideWindow_def recent_def locked_def)

lemma essence_cases:
  "essence lim now None = None"
  "locked now e \<Longrightarrow> essence lim now (Some e) = Some e"
  "\<not> locked now e \<Longrightarrow> truthy_num (lockedUntil e) \<Longrightarrow> essence lim now (Some e) = None"
  "\<not> truthy_num (lockedUntil e) \<Longrightarrow> essence lim now (Some e) = (if recent lim now (attempts e) = [] then None
     else Some \<lparr>attempts = recent lim now (attempts e), lockedUntil = None\<rparr>)"
  by (auto simp: essence_def locked_def)

lemma entry_cases:
  obtains "eo = None"
  | e where "eo = Some e" "locked now e"
  | e where "eo = Some e" "\<not> locked now e" "truthy_num (lockedUntil e)"
  | e where "eo = Some e" "\<not> truthy_num (lockedUntil e)"
  by (cases eo) auto

lemma falsy_not_locked [simp]: "\<not> truthy_num (lockedUntil e) \<Longrightarrow> \<not> locked now e"
    "\<not> locked now \<lparr>attempts = xs, lockedUntil = None\<rparr>" "\<not> truthy_num None"
  by (simp_all add: locked_def truthy_num_def)

lemma essence_pruned: "essence lim now (pruned lim now eo) = essence lim now eo"
proof (cases rule: entry_cases [where eo = eo and now = now])
  case (3 e)
  then have "\<not> locked now (slideWindow lim now e)" "truthy_num (lockedUntil (slideWindow lim now e))"
    by (simp_all add: slideWindow_def locked_def)
  with 3 show ?thesis by (simp add: pruned_def essence_cases)
next
  case (4 e)
  then have "\<not> truthy_num (lockedUntil (slideWindow lim now e))" by (simp add: slideWindow_def)
  with 4 show ?thesis by (simp add: pruned_def essence_cases slideWindow_recent)
qed (simp_all add: pruned_def)

lemma essence_checked:
  assumes "1 \<le> maxAttempts lim"
  shows "essence lim now (snd (checked lim now eo)) = essence lim now eo"
  using assms by (cases rule: entry_cases [where eo = eo and now = now]) (simp_all add: checked_cases essence_cases Let_def)

lemma checked_essence:
  assumes "1 \<le> maxAttempts lim"
  shows "fst (checked lim now (essence lim now eo)) = fst (checked lim now eo)"
  using assms by (cases rule: entry_cases [where eo = eo and now = now]) (simp_all add: checked_cases essence_cases Let_def)

lemma allowed_failed:
  assumes "1 \<le> maxAttempts lim" "allowed (fst (checked lim now eo))"
  shows "essence lim now (Some (failed lim now (snd (checked lim now eo))))
    = essence lim now (Some (failed lim now (essence lim now eo)))"
  using assms
proof (cases rule: entry_cases [where eo = eo and now = now])
  case (4 e)
  have "essence lim now (Some (failed lim now (Some (e\<lparr>attempts := recent lim now (attempts e)\<rparr>))))
      = essence lim now (Some (failed lim now (Some \<lparr>attempts = recent lim now (attempts e), lockedUntil = None\<rparr>)))"
    using 4(2) by (simp add: failed_def slideWindow_recent Let_def essence_cases)
  moreover have "recent lim now (attempts e) = [] \<Longrightarrow>
      failed lim now (Some \<lparr>attempts = recent lim now (attempts e), lockedUntil = None\<rparr>) = failed lim now None"
    by (simp add: failed_def Let_def)
  ultimately show ?thesis using 4 by (simp add: checked_cases essence_cases Let_def)
qed (simp_all add: checked_cases essence_cases failed_def Let_def slideWindow_recent)

lemma essence_later:
  assumes "now \<le> now'"
  shows "essence lim now' (essence lim now eo) = essence lim now' eo"
proof (cases rule: entry_cases [where eo = eo and now = now])
  case (3 e)
  with assms have "\<not> locked now' e" by (simp add: locked_def)
  with 3 show ?thesis by (simp add: essence_cases)
next
  case (4 e)
  note r = recent_later(1) [OF assms, of lim "attempts e"]
  show ?thesis
  proof (cases "recent lim now (attempts e) = []")
    case True
    with r have "recent lim now' (attempts e) = []" by (metis recent_Nil)
    with 4 True show ?thesis by (simp add: essence_cases)
  next
    case False
    with 4 show ?thesis by (simp add: essence_cases r [symmetric])
  qed
qed (simp_all add: essence_cases)

text \<open>Two limiters that differ in what pruning has removed.\<close>

definition equivalent :: "int \<Rightarrow> AuthRateLimiter \<Rightarrow> AuthRateLimiter \<Rightarrow> bool" where
  "equivalent now a b \<longleftrightarrow> same_limits a b \<and> 1 \<le> maxAttempts a \<and> distinct (map fst (entries a))
     \<and> distinct (map fst (entries b)) \<and> (\<forall>k. essence a now (entry_of k a) = essence a now (entry_of k b))"

lemma essence_cong: "same_limits a b \<Longrightarrow> essence a = essence b"
  by (auto simp: fun_eq_iff same_limits_def essence_def recent_def split: option.splits)

lemma event_equivalent:
  assumes "equivalent now0 a b" "now0 \<le> now"
  shows "fst (limiter_event lib now ev a) = fst (limiter_event lib now ev b)"
    and "equivalent now (snd (limiter_event lib now ev a)) (snd (limiter_event lib now ev b))"
proof -
  have lim: "same_limits a b" and m: "1 \<le> maxAttempts a" and dist: "distinct (map fst (entries a))" "distinct (map fst (entries b))"
    using assms(1) by (simp_all add: equivalent_def)
  have ess: "essence a now (entry_of k a) = essence a now (entry_of k b)" for k
    using assms(1) essence_later [OF assms(2), of a] by (metis equivalent_def)
  have cong: "checked b = checked a" "failed b = failed a" "pruned b = pruned a" "on_key lib k ip scope b = on_key lib k ip scope a"
      for k ip scope by (simp_all add: on_key_def limits_cong [OF lim])
  have res: "fst (checked a now (entry_of k a)) = fst (checked a now (entry_of k b))" for k
    using checked_essence [OF m] ess by metis
  have check: "fst (check lib now ip scope a) = fst (check lib now ip scope b)" for ip scope
  proof (cases "isExempt lib a (snd (resolveKey lib ip scope))")
    case True
    moreover from this lim have "isExempt lib b (snd (resolveKey lib ip scope))" using limits_cong(4) by metis
    ultimately show ?thesis using lim by (simp add: same_limits_def)
  next
    case False
    moreover from this lim have "\<not> isExempt lib b (snd (resolveKey lib ip scope))" using limits_cong(4) by metis
    ultimately show ?thesis using res cong(1) by (simp add: check_entry)
  qed
  show "fst (limiter_event lib now ev a) = fst (limiter_event lib now ev b)"
    by (cases ev) (simp_all add: case_prod_unfold check try_result)
  let ?a = "snd (limiter_event lib now ev a)" and ?b = "snd (limiter_event lib now ev b)"
  have try_ess: "essence a now (Some (failed a now (snd (checked a now (entry_of k a)))))
      = essence a now (Some (failed a now (snd (checked a now (entry_of k b)))))"
    if "allowed (fst (checked a now (entry_of k b)))" for k
    using that allowed_failed [OF m, of now "entry_of k a"] allowed_failed [OF m, of now "entry_of k b"] res ess by metis
  have "essence a now (entry_of k ?a) = essence a now (entry_of k ?b)" for k
  proof (cases ev)
    case (Look ip scope)
    with ess show ?thesis by (simp add: case_prod_unfold look_entry cong essence_checked m)
  next
    case (Try ip scope)
    with ess res try_ess show ?thesis by (simp add: case_prod_unfold try_entry cong essence_checked m)
  next
    case (Clear ip scope)
    with ess show ?thesis by simp
  next
    case Prune
    with ess show ?thesis by (simp add: prune_entry_of dist essence_pruned cong)
  qed
  moreover have "same_limits ?a a" "same_limits ?b b" by (rule event_keeps)+
  moreover from this lim have "same_limits ?a ?b" by (simp add: same_limits_def)
  moreover have "essence ?a = essence a" by (rule essence_cong [OF event_keeps(1)])
  ultimately show "equivalent now ?a ?b"
    using m event_keeps(2) [OF dist(1), of lib now ev] event_keeps(2) [OF dist(2), of lib now ev]
    by (simp add: equivalent_def same_limits_def)
qed

lemma prune_equivalent:
  assumes "equivalent now0 a b" "now0 \<le> now"
  shows "equivalent now (prune now a) b"
proof -
  have lim: "same_limits a b" and m: "1 \<le> maxAttempts a" and dist: "distinct (map fst (entries a))" "distinct (map fst (entries b))"
    using assms(1) by (simp_all add: equivalent_def)
  have "essence a now (entry_of k a) = essence a now (entry_of k b)" for k
    using assms(1) essence_later [OF assms(2), of a] by (metis equivalent_def)
  moreover have "same_limits (prune now a) a" "distinct (map fst (entries (prune now a)))"
    using event_keeps [where ev = Prune and lim = a and now = now] dist(1) by simp_all
  moreover from this lim have "same_limits (prune now a) b" by (simp add: same_limits_def)
  moreover have "essence (prune now a) = essence a" by (rule essence_cong) fact
  ultimately show ?thesis using dist m by (simp add: equivalent_def prune_entry_of essence_pruned same_limits_def)
qed

lemma run_equivalent:
  assumes "equivalent now a b" "clock_runs now evs"
  shows "fst (run_limiter lib evs a) = fst (run_limiter lib (filter (\<lambda>(_, ev). ev \<noteq> Prune) evs) b)"
  using assms
proof (induction evs arbitrary: now a b)
  case (Cons x evs)
  obtain t ev where x: "x = (t, ev)" by (cases x)
  with Cons.prems have t: "now \<le> t" "clock_runs t evs" by auto
  show ?case
  proof (cases "ev = Prune")
    case True
    with Cons.IH [OF prune_equivalent [OF Cons.prems(1) t(1)] t(2)] x show ?thesis by (simp add: case_prod_unfold)
  next
    case False
    with Cons.IH [OF event_equivalent(2) [OF Cons.prems(1) t(1), where lib = lib and ev = ev] t(2)]
      event_equivalent(1) [OF Cons.prems(1) t(1), where lib = lib and ev = ev] x
    show ?thesis by (simp add: case_prod_unfold)
  qed
qed simp

text \<open>
  C19. The timer that prunes the limiter is invisible to logins: with it or without, and whenever it fires, in every
  sequence of looks, resets and failed logins, every look and every login gets the same answer. This is for a limiter that
  allows at least one attempt, a clock that does not go back, and failures that are recorded as logins record them, at
  the time of a look that allowed the attempt; a failure recorded without a look after a lockout ended is lost, unless the timer
  fired in between (see \<open>unlooked_failure_is_forgotten\<close>).
\<close>

theorem pruning_invisible:
  assumes "1 \<le> maxAttempts (createAuthRateLimiter config)" "clock_runs now evs"
  shows "fst (run_limiter lib evs (createAuthRateLimiter config))
    = fst (run_limiter lib (filter (\<lambda>(_, ev). ev \<noteq> Prune) evs) (createAuthRateLimiter config))"
proof -
  let ?lim = "createAuthRateLimiter config"
  have "entries ?lim = []" by (simp add: createAuthRateLimiter_def Let_def)
  then have "equivalent now ?lim ?lim" using assms(1) by (simp add: equivalent_def)
  from run_equivalent [OF this assms(2)] show ?thesis .
qed

theorem pruning_invisible_witness:
  "length (fst (run_limiter example_ip_library example_events (createAuthRateLimiter None))) = 3
   \<and> fst (run_limiter example_ip_library example_events (createAuthRateLimiter None))
    = fst (run_limiter example_ip_library (filter (\<lambda>(_, ev). ev \<noteq> Prune) example_events) (createAuthRateLimiter None))"
proof
  show "length (fst (run_limiter example_ip_library example_events (createAuthRateLimiter None))) = 3" by code_simp
  have "1 \<le> maxAttempts (createAuthRateLimiter None)" "clock_runs 0 example_events" by code_simp+
  then show "fst (run_limiter example_ip_library example_events (createAuthRateLimiter None))
    = fst (run_limiter example_ip_library (filter (\<lambda>(_, ev). ev \<noteq> Prune) example_events) (createAuthRateLimiter None))"
    by (rule pruning_invisible)
qed

text \<open>
  A failure that is recorded without a look after a lockout has ended keeps the old lockout in its
  entry, and the next look forgets it with the lockout.
\<close>

lemma unlooked_failure_is_forgotten:
  "let lim = createAuthRateLimiter (Some (example_limits\<lparr>windowMsC := Some 5, lockoutMsC := Some 10\<rparr>));
       fail = (\<lambda>now. recordFailure example_ip_library now (Some ''10.0.0.7'') None);
       left = (\<lambda>now l. remaining (fst (check example_ip_library now (Some ''10.0.0.7'') None l)))
   in left 1021 (fail 1020 lim) = 1 \<and> left 1021 (fail 1020 (fail 1001 (fail 1000 lim))) = 2
     \<and> left 1021 (fail 1020 (prune 1015 (fail 1001 (fail 1000 lim)))) = 1"
  by code_simp

end
