(* ===== verification/GatewayAuthProps.thy ===== *)
theory GatewayAuthProps
  imports GatewayAuth AuthRateLimitProps
begin

text \<open>
  What the gateway promises about connections: whoever is let in has shown what the mode asks for, and
  guesses of a secret are limited per client. Also whom a forwarded request is attributed to.
\<close>

section \<open>Forwarded addresses\<close>

lemma split_on_append:
  "split_on d (a @ d # b) = split_on d a @ split_on d b"
proof (induction a)
  case (Cons c cs)
  moreover have "split_on d cs \<noteq> []" by (induction cs) (auto split: list.splits)
  ultimately show ?case by (cases "split_on d cs") auto
qed simp

lemma find_append: "List.find P (xs @ ys) = (case List.find P xs of None \<Rightarrow> List.find P ys | Some x \<Rightarrow> Some x)"
  by (induction xs) auto

lemma first_found: "List.find P xs = Some x \<Longrightarrow> x \<in> set xs \<and> P x"
  by (induction xs) (auto split: if_splits)

lemma map_filter_append: "List.map_filter f (xs @ ys) = List.map_filter f xs @ List.map_filter f ys"
  by (simp add: List.map_filter_def)

lemma forwarded_chain_append:
  "forwarded_chain lib (Some (a @ '','' @ b)) = forwarded_chain lib (Some a) @ forwarded_chain lib (Some b)"
  using split_on_append [of "CHR '',''" a b] by (simp add: forwarded_chain_def map_filter_append)

text \<open>
  A client cannot forge its address: when the last proxies have appended a chain in which some hop is
  neither loopback nor a trusted proxy, whatever the client itself put in front of that chain does not
  change the address the request is attributed to; and that address is one of the appended hops and
  neither loopback nor a trusted proxy.
\<close>

theorem forwarded_prefix_ignored:
  assumes "resolveForwardedClientIp lib (Some appended) trusted = Some ip"
  shows "resolveForwardedClientIp lib (Some (claimed @ '','' @ appended)) trusted = Some ip
    \<and> ip \<in> set (forwarded_chain lib (Some appended))
    \<and> \<not> isLoopbackAddress lib (Some ip) \<and> \<not> isTrustedProxyAddress lib (Some ip) trusted"
proof -
  from assms have find: "first_untrusted lib trusted (rev (forwarded_chain lib (Some appended))) = Some ip"
    and proxies: "nullish trusted [] \<noteq> []"
    by (simp_all add: resolveForwardedClientIp_def split: if_splits)
  then have "resolveForwardedClientIp lib (Some (claimed @ '','' @ appended)) trusted = Some ip"
    unfolding resolveForwardedClientIp_def forwarded_chain_append by (simp add: first_untrusted_def find_append)
  with find show ?thesis using first_found [of _ "rev (forwarded_chain lib (Some appended))" ip]
    by (fastforce simp: first_untrusted_def)
qed

theorem forwarded_prefix_ignored_witness:
  "resolveForwardedClientIp example_ip_library (Some (''203.0.113.9'' @ '','' @ ''198.51.100.1, 10.0.0.2''))
     (Some [''10.0.0.2'']) = Some ''198.51.100.1''"
proof -
  have "resolveForwardedClientIp example_ip_library (Some ''198.51.100.1, 10.0.0.2'') (Some [''10.0.0.2'']) = Some ''198.51.100.1''"
    by code_simp
  from forwarded_prefix_ignored [OF this, of "''203.0.113.9''"] show ?thesis by blast
qed

section \<open>Who is let in\<close>

text \<open>The answers an authorization can get, at whatever times and with whatever limiter.\<close>

definition may_answer ::
    "'ip GatewayLib \<Rightarrow> (string \<Rightarrow> TailscaleWhoisIdentity option) \<Rightarrow> AuthorizeParams \<Rightarrow> GatewayAuthResult \<Rightarrow> bool" where
  "may_answer lib whois p r \<longleftrightarrow>
     (\<exists>now limiter. fst (authorizeGatewayConnectCore lib now p limiter) = Answered r)
     \<or> (\<exists>now limiter. fst (authorizeGatewayConnectCore lib now p limiter) = AwaitsWhois)
        \<and> (\<exists>now limiter. fst (resumeGatewayConnect lib now whois p limiter) = r)"

definition same_secret :: "'ip GatewayLib \<Rightarrow> string option \<Rightarrow> string option \<Rightarrow> bool" where
  "same_secret lib presented configured \<longleftrightarrow>
     (\<exists>g s. presented = Some g \<and> g \<noteq> '''' \<and> configured = Some s \<and> s \<noteq> '''' \<and> sha256 lib g = sha256 lib s)"

definition vouched_by_proxy :: "'ip IpLibrary \<Rightarrow> AuthorizeParams \<Rightarrow> string \<Rightarrow> bool" where
  "vouched_by_proxy lib p user \<longleftrightarrow> (\<exists>cfg m. trustedProxy (auth p) = Some cfg \<and> req p = Some m
     \<and> isTrustedProxyAddress lib (remoteAddress m) (proxies p) \<and> \<not> isLoopbackAddress lib (remoteAddress m)
     \<and> (\<forall>h \<in> set (nullish (requiredHeaders cfg) []). present_header m h)
     \<and> user \<noteq> '''' \<and> map_option js_trim (headerValue (header_of m (normalizeLowercaseStringOrEmpty (Some (userHeader cfg))))) = Some user
     \<and> (nullish (allowUsers cfg) [] = [] \<or> user \<in> set (nullish (allowUsers cfg) [])))"

definition vouched_by_tailscale ::
    "'ip IpLibrary \<Rightarrow> (string \<Rightarrow> TailscaleWhoisIdentity option) \<Rightarrow> AuthorizeParams \<Rightarrow> string \<Rightarrow> bool" where
  "vouched_by_tailscale lib whois p user \<longleftrightarrow> (\<exists>m u ip w. req p = Some m
     \<and> isLoopbackAddress lib (remoteAddress m) \<and> getTailscaleUser (req p) = Some u
     \<and> resolveTailscaleClientIp lib (req p) = Some ip \<and> whois ip = Some w
     \<and> user = whoisLogin w \<and> user \<noteq> '''' \<and> normalizeLogin user = normalizeLogin (login u))"

lemma token_answer:
  assumes "auth_ok (fst (authorizeTokenAuth lib now c g ip scope limiter))"
  shows "auth_method (fst (authorizeTokenAuth lib now c g ip scope limiter)) = Some Me_token \<and> same_secret lib g c"
  using assms by (cases g; cases c)
    (auto simp: authorizeTokenAuth_def granted_def denied_def truthy_def safeEqualSecret_def same_secret_def split: if_splits)

lemma password_answer:
  assumes "auth_ok (fst (authorizePasswordAuth lib now c g ip scope limiter))"
  shows "auth_method (fst (authorizePasswordAuth lib now c g ip scope limiter)) = Some Me_password \<and> same_secret lib g c"
  using assms by (cases g; cases c)
    (auto simp: authorizePasswordAuth_def granted_def denied_def truthy_def safeEqualSecret_def same_secret_def split: if_splits)

lemma secret_answer:
  assumes "auth_ok (fst (authorize_secret lib now p limiter))"
  shows "authMode (auth p) = Am_token \<and> auth_method (fst (authorize_secret lib now p limiter)) = Some Me_token
       \<and> same_secret lib (Option.bind (connectAuth p) connectToken) (authToken (auth p))
    \<or> authMode (auth p) = Am_password \<and> auth_method (fst (authorize_secret lib now p limiter)) = Some Me_password
       \<and> same_secret lib (Option.bind (connectAuth p) connectPassword) (authPassword (auth p))"
  using assms
  by (cases "authMode (auth p)")
    (simp_all add: authorize_secret_def denied_def token_answer password_answer)

lemma proxy_answer:
  assumes "authorizeTrustedProxy lib (req p) (proxies p) cfg = Inr user" "trustedProxy (auth p) = Some cfg"
  shows "vouched_by_proxy lib p user"
  using assms
  by (auto simp: authorizeTrustedProxy_def vouched_by_proxy_def find_None_iff Let_def split: option.splits if_splits)

lemma tailscale_answer:
  assumes "resolveVerifiedTailscaleUser lib whois (req p) = Inr u"
  shows "vouched_by_tailscale lib whois p (login u)"
  using assms
  by (auto simp: resolveVerifiedTailscaleUser_def vouched_by_tailscale_def isTailscaleProxyRequest_def
      split: option.splits if_splits)

lemma answers_sound:
  assumes "may_answer lib whois p r" "auth_ok r"
  shows "(case auth_method r of
      Some Me_none \<Rightarrow> authMode (auth p) = Am_none
    | Some Me_token \<Rightarrow> authMode (auth p) = Am_token
        \<and> same_secret lib (Option.bind (connectAuth p) connectToken) (authToken (auth p))
    | Some Me_password \<Rightarrow> authMode (auth p) = Am_password
        \<and> same_secret lib (Option.bind (connectAuth p) connectPassword) (authPassword (auth p))
    | Some Me_tailscale \<Rightarrow> surface_of p = Surface_ws_control_ui \<and> allowTailscale (auth p)
        \<and> authMode (auth p) \<in> {Am_token, Am_password} \<and> \<not> hasExplicitSharedSecretAuth (connectAuth p)
        \<and> (\<exists>user. auth_user r = Some user \<and> vouched_by_tailscale (ips lib) whois p user)
    | Some Me_trusted_proxy \<Rightarrow> authMode (auth p) = Am_trusted_proxy
        \<and> (\<exists>user. auth_user r = Some user \<and> vouched_by_proxy (ips lib) p user)
    | _ \<Rightarrow> False)"
  using assms(1) unfolding may_answer_def
proof (elim disjE conjE exE)
  fix now limiter
  assume a: "fst (authorizeGatewayConnectCore lib now p limiter) = Answered r"
  have secret: "r = fst (authorize_secret lib now p lim) \<Longrightarrow> ?thesis" for lim
    using secret_answer [of lib now p lim] assms(2) by auto
  have proxy: "authorizeTrustedProxyBrowserOrigin lib (surface_of p) (browserOriginPolicy p) = Some r' \<Longrightarrow> \<not> auth_ok r'" for r'
    by (auto simp: authorizeTrustedProxyBrowserOrigin_def denied_def split: option.splits if_splits)
  show ?thesis
  proof (cases "authMode (auth p) = Am_trusted_proxy \<or> authMode (auth p) = Am_none")
    case True
    with a assms(2) proxy show ?thesis
      by (auto simp: authorizeGatewayConnectCore_def denied_def granted_def intro: proxy_answer
          split: option.splits if_splits sum.splits)
  next
    case False
    then obtain lim where "r = fst (authorize_secret lib now p lim)"
      using a assms(2) by (auto simp: authorizeGatewayConnectCore_def rate_limited_def denied_def case_prod_unfold
          split: option.splits if_splits)
    then show ?thesis by (rule secret)
  qed
next
  fix now limiter now' limiter'
  assume "fst (authorizeGatewayConnectCore lib now p limiter) = AwaitsWhois"
  then have asked: "asks_tailscale (ips lib) p" "authMode (auth p) \<in> {Am_token, Am_password}"
    by (auto simp: authorizeGatewayConnectCore_def case_prod_unfold split: option.splits if_splits sum.splits)
      (cases "authMode (auth p)"; simp)+
  assume r: "fst (resumeGatewayConnect lib now' whois p limiter') = r"
  show ?thesis
  proof (cases "resolveVerifiedTailscaleUser (ips lib) whois (req p)")
    case (Inl e)
    with r assms(2) secret_answer [of lib now' p limiter'] show ?thesis by (auto simp: resumeGatewayConnect_def)
  next
    case (Inr u)
    with r asked tailscale_answer [OF Inr] show ?thesis
      by (auto simp: resumeGatewayConnect_def granted_def asks_tailscale_def shouldAllowTailscaleHeaderAuth_def)
  qed
qed

text \<open>
  C16. Whoever is let in has shown what the configured mode asks for: nothing only in mode none; in the token and
  password modes a non-empty secret with the digest of the configured one, which is not empty either,
  or, on the control interface and where it is allowed, an identity that Tailscale itself confirms for
  the address behind a local proxy; and in the mode of trusted proxies a request from a trusted proxy that
  is not loopback, with every required header and a user that is allowed.
\<close>

theorem gateway_auth_sound:
  assumes "may_answer lib whois p r" "auth_ok r"
  shows "(case auth_method r of
      Some Me_none \<Rightarrow> authMode (auth p) = Am_none
    | Some Me_token \<Rightarrow> authMode (auth p) = Am_token
        \<and> same_secret lib (Option.bind (connectAuth p) connectToken) (authToken (auth p))
    | Some Me_password \<Rightarrow> authMode (auth p) = Am_password
        \<and> same_secret lib (Option.bind (connectAuth p) connectPassword) (authPassword (auth p))
    | Some Me_tailscale \<Rightarrow> surface_of p = Surface_ws_control_ui \<and> allowTailscale (auth p)
        \<and> authMode (auth p) \<in> {Am_token, Am_password} \<and> \<not> hasExplicitSharedSecretAuth (connectAuth p)
        \<and> (\<exists>user. auth_user r = Some user \<and> vouched_by_tailscale (ips lib) whois p user)
    | Some Me_trusted_proxy \<Rightarrow> authMode (auth p) = Am_trusted_proxy
        \<and> (\<exists>user. auth_user r = Some user \<and> vouched_by_proxy (ips lib) p user)
    | _ \<Rightarrow> False)"
  using answers_sound [OF assms] .

definition example_lib :: "string GatewayLib" where
  "example_lib = \<lparr>ips = example_ip_library, sha256 = id, parse_url = (\<lambda>_. None)\<rparr>"

definition example_auth :: ResolvedGatewayAuth where
  "example_auth = \<lparr>authMode = Am_token, modeSource = None, authToken = Some ''s3cret'', authPassword = None,
     allowTailscale = False, trustedProxy = None\<rparr>"

definition example_login :: "string \<Rightarrow> AuthorizeParams" where
  "example_login token = \<lparr>auth = example_auth, connectAuth = Some \<lparr>connectToken = Some token, connectPassword = None\<rparr>,
     req = Some \<lparr>remoteAddress = Some ''10.0.0.7'', req_headers = []\<rparr>, proxies = None, authSurface = None, clientIp = None,
     rateLimitScope = None, realIpFallback = False, browserOriginPolicy = None\<rparr>"

theorem gateway_auth_sound_witness:
  "fst (authorizeGatewayConnectCore example_lib 5 (example_login ''s3cret'') None) = Answered (granted Me_token None)
   \<and> same_secret example_lib (Option.bind (connectAuth (example_login ''s3cret'')) connectToken) (authToken example_auth)"
proof
  show a: "fst (authorizeGatewayConnectCore example_lib 5 (example_login ''s3cret'') None) = Answered (granted Me_token None)"
    by code_simp
  then have "may_answer example_lib (\<lambda>_. None) (example_login ''s3cret'') (granted Me_token None)"
    unfolding may_answer_def by blast
  from gateway_auth_sound [OF this] show "same_secret example_lib (Option.bind (connectAuth (example_login ''s3cret'')) connectToken) (authToken example_auth)"
    by (simp add: granted_def example_login_def)
qed

section \<open>Guesses\<close>

definition login_key :: "'ip GatewayLib \<Rightarrow> AuthorizeParams \<Rightarrow> string" where
  "login_key lib p = fst (resolveKey (ips lib) (ip_of (ips lib) p) (Some (scope_of p)))"

definition mismatches :: "GatewayAuthResult set" where
  "mismatches = {denied ''token_mismatch'', denied ''password_mismatch''}"

text \<open>The login tells its client that the secret was wrong.\<close>

definition guess_at :: "'ip GatewayLib \<Rightarrow> string \<Rightarrow> int \<Rightarrow> AuthorizeParams \<Rightarrow> AuthRateLimiter \<Rightarrow> int list" where
  "guess_at lib key now p lim =
     (if login_key lib p = key \<and> \<not> isExempt (ips lib) lim (snd (resolveKey (ips lib) (ip_of (ips lib) p) (Some (scope_of p))))
         \<and> fst (authorizeGatewayConnectCore lib now p (Some lim)) \<in> Answered ` mismatches
      then [now] else [])"

fun guesses :: "'ip GatewayLib \<Rightarrow> string \<Rightarrow> (int \<times> AuthorizeParams) list \<Rightarrow> AuthRateLimiter \<Rightarrow> int list" where
  "guesses lib key [] lim = []"
| "guesses lib key ((now, p) # ps) lim =
     guess_at lib key now p lim
     @ guesses lib key ps (nullish (snd (authorizeGatewayConnectCore lib now p (Some lim))) lim)"

definition wrong_secret :: "'ip GatewayLib \<Rightarrow> AuthorizeParams \<Rightarrow> bool" where
  "wrong_secret lib p \<longleftrightarrow> \<not> same_secret lib (Option.bind (connectAuth p) connectToken) (authToken (auth p))
     \<and> \<not> same_secret lib (Option.bind (connectAuth p) connectPassword) (authPassword (auth p))"

lemma accounts_later:
  assumes "accounts key now0 G lim" "now0 \<le> now"
  shows "accounts key now G lim"
  using assms counted_later by (auto simp: accounts_def)

text \<open>
  The three things a login with a secret does to a limiter: it looks, or it looks and records a failure,
  or it looks and, the secret being right, forgives.
\<close>

definition looked :: "GatewayAuthResult \<times> AuthRateLimiter option \<Rightarrow> AuthRateLimiter \<Rightarrow> bool" where
  "looked res lim \<longleftrightarrow> snd res = Some lim \<and> fst res \<notin> mismatches"

lemma token_effect:
  fixes lib :: "'ip GatewayLib" and lim :: AuthRateLimiter and now c g ip scope
  defines "res \<equiv> authorizeTokenAuth lib now c g ip scope (Some lim)"
  shows "looked res lim \<or> snd res = Some (recordFailure (ips lib) now ip (Some scope) lim) \<and> fst res \<in> mismatches
    \<or> snd res = Some (reset (ips lib) ip (Some scope) lim) \<and> fst res \<notin> mismatches \<and> auth_ok (fst res)"
  by (auto simp: res_def looked_def authorizeTokenAuth_def mismatches_def denied_def granted_def)

lemma password_effect:
  fixes lib :: "'ip GatewayLib" and lim :: AuthRateLimiter and now c g ip scope
  defines "res \<equiv> authorizePasswordAuth lib now c g ip scope (Some lim)"
  shows "looked res lim \<or> snd res = Some (recordFailure (ips lib) now ip (Some scope) lim) \<and> fst res \<in> mismatches
    \<or> snd res = Some (reset (ips lib) ip (Some scope) lim) \<and> fst res \<notin> mismatches \<and> auth_ok (fst res)"
  by (auto simp: res_def looked_def authorizePasswordAuth_def mismatches_def denied_def granted_def)

lemma secret_effect:
  assumes "authMode (auth p) \<in> {Am_token, Am_password}"
  shows "looked (authorize_secret lib now p (Some lim)) lim
    \<or> snd (authorize_secret lib now p (Some lim)) = Some (recordFailure (ips lib) now (ip_of (ips lib) p) (Some (scope_of p)) lim)
       \<and> fst (authorize_secret lib now p (Some lim)) \<in> mismatches
    \<or> snd (authorize_secret lib now p (Some lim)) = Some (reset (ips lib) (ip_of (ips lib) p) (Some (scope_of p)) lim)
       \<and> fst (authorize_secret lib now p (Some lim)) \<notin> mismatches \<and> \<not> wrong_secret lib p"
proof -
  have sound: "auth_ok (fst (authorize_secret lib now p (Some lim))) \<Longrightarrow> \<not> wrong_secret lib p"
    using secret_answer [of lib now p "Some lim"] by (auto simp: wrong_secret_def)
  consider (token) "authMode (auth p) = Am_token" | (password) "authMode (auth p) = Am_password" using assms by blast
  then show ?thesis
  proof cases
    case token
    then show ?thesis using sound
        token_effect [of lib now "authToken (auth p)" "Option.bind (connectAuth p) connectToken" "ip_of (ips lib) p" "scope_of p" lim]
      by (simp add: authorize_secret_def) blast
  next
    case password
    then show ?thesis using sound
        password_effect [of lib now "authPassword (auth p)" "Option.bind (connectAuth p) connectPassword" "ip_of (ips lib) p" "scope_of p" lim]
      by (simp add: authorize_secret_def) blast
  qed
qed

lemma proxy_reason:
  "authorizeTrustedProxy lib r trusted cfg = Inl reason \<Longrightarrow> reason \<noteq> ''token_mismatch'' \<and> reason \<noteq> ''password_mismatch''"
  by (auto simp: authorizeTrustedProxy_def Let_def split: option.splits if_splits)

lemma open_modes:
  assumes "authMode (auth p) = Am_trusted_proxy \<or> authMode (auth p) = Am_none"
  shows "snd (authorizeGatewayConnectCore lib now p limiter) = limiter"
    and "fst (authorizeGatewayConnectCore lib now p limiter) \<notin> Answered ` mismatches"
  using assms by (auto simp: authorizeGatewayConnectCore_def authorizeTrustedProxyBrowserOrigin_def denied_def granted_def mismatches_def
      dest: proxy_reason split: option.splits sum.splits if_splits)

lemma login_accounts:
  assumes "accounts key now0 G lim" "now0 \<le> now" "0 < now" "hasExplicitSharedSecretAuth (connectAuth p)"
    "login_key lib p = key \<Longrightarrow> wrong_secret lib p"
  shows "\<exists>lim'. snd (authorizeGatewayConnectCore lib now p (Some lim)) = Some lim'
    \<and> accounts key now (G @ guess_at lib key now p lim) lim'"
proof (cases "authMode (auth p) = Am_trusted_proxy \<or> authMode (auth p) = Am_none")
  case True
  with open_modes [OF this, of lib now "Some lim"] have "guess_at lib key now p lim = []" by (simp add: guess_at_def)
  with open_modes(1) [OF True, of lib now "Some lim"] accounts_later [OF assms(1,2)] show ?thesis by simp
next
  case False
  then have mode: "authMode (auth p) \<in> {Am_token, Am_password}" by (cases "authMode (auth p)") simp_all
  let ?ip = "ip_of (ips lib) p" and ?scope = "Some (scope_of p)"
  let ?r = "fst (check (ips lib) now ?ip ?scope lim)" and ?lim1 = "snd (check (ips lib) now ?ip ?scope lim)"
  have look: "accounts key now G ?lim1"
    using event_accounts [OF assms(1-3), where lib = "ips lib" and ev = "Look ?ip ?scope"]
    by (simp add: failure_at_def clears_def case_prod_unfold)
  have "\<not> asks_tailscale (ips lib) p" using assms(4) by (simp add: asks_tailscale_def)
  with False have core: "authorizeGatewayConnectCore lib now p (Some lim) = (if \<not> allowed ?r then (Answered (rate_limited ?r), Some ?lim1)
      else apfst Answered (authorize_secret lib now p (Some ?lim1)))"
    by (simp add: authorizeGatewayConnectCore_def case_prod_unfold apfst_def map_prod_def)
  show ?thesis
  proof (cases "allowed ?r")
    case no: False
    with core have "guess_at lib key now p lim = []" by (auto simp: guess_at_def rate_limited_def denied_def mismatches_def)
    with core no look show ?thesis by simp
  next
    case yes: True
    let ?res = "authorize_secret lib now p (Some ?lim1)"
    consider (looked) "looked ?res ?lim1"
      | (failed) "snd ?res = Some (recordFailure (ips lib) now ?ip ?scope ?lim1)" "fst ?res \<in> mismatches"
      | (forgiven) "snd ?res = Some (reset (ips lib) ?ip ?scope ?lim1)" "fst ?res \<notin> mismatches" "\<not> wrong_secret lib p"
      using secret_effect [OF mode, of lib now ?lim1] by blast
    then show ?thesis
    proof cases
      case looked
      with core yes look show ?thesis by (auto simp: guess_at_def looked_def)
    next
      case failed
      have "guess_at lib key now p lim = failure_at (ips lib) key now (Try ?ip ?scope) lim"
        using core yes failed by (auto simp: guess_at_def failure_at_def login_key_def)
      moreover have "recordFailure (ips lib) now ?ip ?scope ?lim1 = snd (limiter_event (ips lib) now (Try ?ip ?scope) lim)"
        using yes by (simp add: try_login_def case_prod_unfold)
      moreover have "\<not> clears (ips lib) key (Try ?ip ?scope)" by (simp add: clears_def)
      ultimately have "accounts key now (G @ guess_at lib key now p lim) (recordFailure (ips lib) now ?ip ?scope ?lim1)"
        using event_accounts [OF assms(1-3)] by metis
      with core yes failed(1) show ?thesis by simp
    next
      case forgiven
      then have "\<not> clears (ips lib) key (Clear ?ip ?scope)" using assms(5) by (auto simp: clears_def login_key_def)
      from event_accounts [OF look order_refl assms(3) this] have "accounts key now G (reset (ips lib) ?ip ?scope ?lim1)"
        by (simp add: failure_at_def)
      moreover have "guess_at lib key now p lim = []" using core yes forgiven(2) by (auto simp: guess_at_def)
      ultimately show ?thesis using core yes forgiven(1) by simp
    qed
  qed
qed

lemma core_limits:
  assumes "snd (authorizeGatewayConnectCore lib now p (Some lim)) = Some lim'"
  shows "same_limits lim' lim"
proof -
  have secret: "snd (authorize_secret lib now p (Some l)) = Some lim' \<Longrightarrow> same_limits lim' l" for l
    by (auto simp: authorize_secret_def authorizeTokenAuth_def authorizePasswordAuth_def recordFailure_keeps split: if_splits)
  with assms check_keeps(1) [of "ips lib" now "ip_of (ips lib) p" "Some (scope_of p)" lim] show ?thesis
    by (auto simp: authorizeGatewayConnectCore_def case_prod_unfold split: if_splits option.splits sum.splits
        intro: same_limits_trans)
qed

lemma guesses_accounts:
  assumes "accounts key now G lim" "clock_runs now ps" "0 < now"
    "\<forall>(_, p) \<in> set ps. hasExplicitSharedSecretAuth (connectAuth p) \<and> (login_key lib p = key \<longrightarrow> wrong_secret lib p)"
  shows "window_bounded lim (G @ guesses lib key ps lim)"
  using assms
proof (induction ps arbitrary: now G lim)
  case Nil
  then show ?case by (simp add: accounts_def)
next
  case (Cons x ps)
  obtain t p where x: "x = (t, p)" by (cases x)
  with Cons.prems have t: "now \<le> t" "0 < t" "clock_runs t ps" "hasExplicitSharedSecretAuth (connectAuth p)"
      "login_key lib p = key \<Longrightarrow> wrong_secret lib p" by auto
  obtain lim' where lim': "snd (authorizeGatewayConnectCore lib t p (Some lim)) = Some lim'"
      "accounts key t (G @ guess_at lib key t p lim) lim'"
    using login_accounts [OF Cons.prems(1) t(1,2,4,5)] by blast
  from Cons.IH [OF lim'(2) t(3,2)] Cons.prems(4)
  have "window_bounded lim' ((G @ guess_at lib key t p lim) @ guesses lib key ps lim')" by simp
  with counted_cong(2) [OF core_limits [OF lim'(1)]] lim'(1) x show ?case by simp
qed

text \<open>
  C17. Guessing secrets is slow: for a limiter that allows at least one attempt and whose lockout lasts at least as long
  as its window, and a clock that does not go back, among logins with a token or password of any clients, in any order,
  those that the limiter counts under one key (an address and a scope) are told that their secret is wrong at most the
  configured number of times in any window, as long as every login under this key has a wrong secret. Clients on a
  loopback address that the configuration exempts, as it does by default, are not counted and not limited; nor does this
  bound what is tried under other keys.
\<close>

theorem guesses_bounded:
  assumes "sensible (createAuthRateLimiter config)" "clock_runs 1 ps"
    "\<forall>(_, p) \<in> set ps. hasExplicitSharedSecretAuth (connectAuth p) \<and> (login_key lib p = key \<longrightarrow> wrong_secret lib p)"
  shows "int (length (filter (\<lambda>x. t < x \<and> x \<le> t + windowMs (createAuthRateLimiter config))
      (guesses lib key ps (createAuthRateLimiter config)))) \<le> maxAttempts (createAuthRateLimiter config)"
proof -
  have "entries (createAuthRateLimiter config) = []" by (simp add: createAuthRateLimiter_def Let_def)
  from guesses_accounts [OF accounts_at_start [OF assms(1) this] assms(2) _ assms(3)]
  show ?thesis by (simp add: window_bounded_def)
qed

theorem guesses_bounded_witness:
  "guesses example_lib ''shared-secret:10.0.0.7'' [(1000, example_login ''a''), (2000, example_login ''b''), (3000, example_login ''c'')]
      (createAuthRateLimiter (Some example_limits)) = [1000, 2000]
   \<and> int (length (filter (\<lambda>x. 0 < x \<and> x \<le> 0 + windowMs (createAuthRateLimiter (Some example_limits)))
      (guesses example_lib ''shared-secret:10.0.0.7'' [(1000, example_login ''a''), (2000, example_login ''b''), (3000, example_login ''c'')]
        (createAuthRateLimiter (Some example_limits))))) \<le> maxAttempts (createAuthRateLimiter (Some example_limits))"
proof
  let ?ps = "[(1000, example_login ''a''), (2000, example_login ''b''), (3000, example_login ''c'')]"
  show "guesses example_lib ''shared-secret:10.0.0.7'' ?ps (createAuthRateLimiter (Some example_limits)) = [1000, 2000]"
    by code_simp
  have "sensible (createAuthRateLimiter (Some example_limits))" by code_simp
  moreover have "clock_runs 1 ?ps" by simp
  moreover have "hasExplicitSharedSecretAuth (connectAuth (example_login t))" if "t \<in> {''a'', ''b'', ''c''}" for t
    using that by (elim insertE emptyE) (simp_all, code_simp+)
  moreover have "wrong_secret example_lib (example_login t)" if "t \<in> {''a'', ''b'', ''c''}" for t
    using that by (auto simp: wrong_secret_def same_secret_def example_login_def example_auth_def example_lib_def)
  ultimately show "int (length (filter (\<lambda>x. 0 < x \<and> x \<le> 0 + windowMs (createAuthRateLimiter (Some example_limits)))
      (guesses example_lib ''shared-secret:10.0.0.7'' ?ps (createAuthRateLimiter (Some example_limits)))))
      \<le> maxAttempts (createAuthRateLimiter (Some example_limits))"
    by (intro guesses_bounded) simp_all
qed

end
