(* ===== verification/GatewayConnect.thy ===== *)
theory GatewayConnect
  imports GatewayAuthProps
begin

text \<open>
  The handshake of a client with the gateway: the attempts of one client that are made one after the
  other (\<open>src/gateway/rate-limit-attempt-serialization.ts\<close>), and the decision between shared secrets,
  bootstrap tokens and device tokens (\<open>src/gateway/server/ws-connection/auth-context.ts\<close>).
\<close>

section \<open>Serialized attempts\<close>

text \<open>
  An attempt waits for the promise that was the last under its key when it came; its own promise, the
  tail, resolves when that one has and the attempt is released.
\<close>

datatype AttemptPhase = Waiting | Running | Released

record Attempt =
  attemptKey :: string
  previous :: "nat option"
  phase :: AttemptPhase

record SerialState =
  pendingAttempts :: "(string \<times> nat) list"
  serialAttempts :: "Attempt list"

definition buildSerializationKey :: "'ip IpLibrary \<Rightarrow> string option \<Rightarrow> string option \<Rightarrow> string" where
  "buildSerializationKey lib ip scope = normalizeScope scope @ '':'' @ normalizeRateLimitClientIp lib ip"

function tail_resolved :: "Attempt list \<Rightarrow> nat \<Rightarrow> bool" where
  "tail_resolved ats n \<longleftrightarrow> n < length ats \<and> phase (ats ! n) = Released
     \<and> (case previous (ats ! n) of None \<Rightarrow> True | Some m \<Rightarrow> if m < n then tail_resolved ats m else False)"
  by pat_completeness auto
termination by (relation "measure snd") auto

declare tail_resolved.simps [simp del]

definition attempt_arrives :: "string \<Rightarrow> SerialState \<Rightarrow> SerialState" where
  "attempt_arrives key st = \<lparr>pendingAttempts = AList.update key (length (serialAttempts st)) (pendingAttempts st),
     serialAttempts = serialAttempts st
       @ [\<lparr>attemptKey = key, previous = map_of (pendingAttempts st) key, phase = Waiting\<rparr>]\<rparr>"

definition attempt_may_start :: "nat \<Rightarrow> SerialState \<Rightarrow> bool" where
  "attempt_may_start n st \<longleftrightarrow> n < length (serialAttempts st) \<and> phase (serialAttempts st ! n) = Waiting
     \<and> (case previous (serialAttempts st ! n) of None \<Rightarrow> True | Some m \<Rightarrow> tail_resolved (serialAttempts st) m)"

definition set_phase :: "nat \<Rightarrow> AttemptPhase \<Rightarrow> SerialState \<Rightarrow> SerialState" where
  "set_phase n ph st = st\<lparr>serialAttempts := (serialAttempts st)[n := (serialAttempts st ! n)\<lparr>phase := ph\<rparr>]\<rparr>"

definition attempt_starts :: "nat \<Rightarrow> SerialState \<Rightarrow> SerialState" where
  "attempt_starts n st = set_phase n Running st"

text \<open>The \<open>finally\<close> clause; whether the attempt failed or not makes no difference.\<close>

definition attempt_ends :: "nat \<Rightarrow> SerialState \<Rightarrow> SerialState" where
  "attempt_ends n st =
     (let st1 = set_phase n Released st; key = attemptKey (serialAttempts st ! n)
      in if map_of (pendingAttempts st1) key = Some n
         then st1\<lparr>pendingAttempts := AList.delete key (pendingAttempts st1)\<rparr> else st1)"

inductive serial_step :: "SerialState \<Rightarrow> SerialState \<Rightarrow> bool" where
  arrives: "serial_step st (attempt_arrives key st)"
| starts: "attempt_may_start n st \<Longrightarrow> serial_step st (attempt_starts n st)"
| ends: "n < length (serialAttempts st) \<Longrightarrow> phase (serialAttempts st ! n) = Running \<Longrightarrow> serial_step st (attempt_ends n st)"

inductive serial_reachable :: "SerialState \<Rightarrow> bool" where
  start: "serial_reachable \<lparr>pendingAttempts = [], serialAttempts = []\<rparr>"
| step: "serial_reachable st \<Longrightarrow> serial_step st st' \<Longrightarrow> serial_reachable st'"

inductive_cases serial_step_cases: "serial_step st st'"

text \<open>The attempts before \<open>n\<close> under its key are released.\<close>

definition earlier_released :: "Attempt list \<Rightarrow> string \<Rightarrow> nat \<Rightarrow> bool" where
  "earlier_released ats key n \<longleftrightarrow> (\<forall>m < n. m < length ats \<and> attemptKey (ats ! m) = key \<longrightarrow> phase (ats ! m) = Released)"

definition is_latest :: "Attempt list \<Rightarrow> string \<Rightarrow> nat \<Rightarrow> nat \<Rightarrow> bool" where
  "is_latest ats key bound m \<longleftrightarrow> m < bound \<and> m < length ats \<and> attemptKey (ats ! m) = key
     \<and> (\<forall>j < bound. j < length ats \<and> attemptKey (ats ! j) = key \<longrightarrow> j \<le> m)"

definition serial_inv :: "SerialState \<Rightarrow> bool" where
  "serial_inv st \<longleftrightarrow> (let ats = serialAttempts st in
     (\<forall>n < length ats. case previous (ats ! n) of None \<Rightarrow> earlier_released ats (attemptKey (ats ! n)) n
        | Some m \<Rightarrow> is_latest ats (attemptKey (ats ! n)) n m)
     \<and> (\<forall>n < length ats. phase (ats ! n) \<noteq> Waiting \<longrightarrow> earlier_released ats (attemptKey (ats ! n)) n)
     \<and> (\<forall>k. case map_of (pendingAttempts st) k of None \<Rightarrow> earlier_released ats k (length ats)
        | Some m \<Rightarrow> is_latest ats k (length ats) m))"

lemma earlier_released_latest:
  assumes "is_latest ats key bound m" "phase (ats ! m) = Released" "earlier_released ats key m"
  shows "earlier_released ats key bound"
  using assms by (fastforce simp: is_latest_def earlier_released_def le_less)

lemma tail_resolved_released:
  assumes "\<forall>n < length ats. case previous (ats ! n) of None \<Rightarrow> earlier_released ats (attemptKey (ats ! n)) n
        | Some m \<Rightarrow> is_latest ats (attemptKey (ats ! n)) n m"
    "tail_resolved ats n"
  shows "phase (ats ! n) = Released \<and> earlier_released ats (attemptKey (ats ! n)) n"
  using assms(2)
proof (induction n rule: less_induct)
  case (less n)
  from less.prems have n: "n < length ats" "phase (ats ! n) = Released" by (simp_all add: tail_resolved.simps [of ats n])
  show ?case
  proof (cases "previous (ats ! n)")
    case None
    with assms(1) n show ?thesis by fastforce
  next
    case (Some m)
    with less.prems have m: "m < n" "tail_resolved ats m" by (simp_all add: tail_resolved.simps [of ats n] split: if_splits)
    have latest: "is_latest ats (attemptKey (ats ! n)) n m" using assms(1) n(1) Some by fastforce
    then have "attemptKey (ats ! m) = attemptKey (ats ! n)" by (simp add: is_latest_def)
    with less.IH [OF m] earlier_released_latest [OF latest] n(2) show ?thesis by simp
  qed
qed

lemma set_phase_sel [simp]:
  "length (serialAttempts (set_phase n ph st)) = length (serialAttempts st)"
  "pendingAttempts (set_phase n ph st) = pendingAttempts st"
  "m < length (serialAttempts st) \<Longrightarrow> attemptKey (serialAttempts (set_phase n ph st) ! m) = attemptKey (serialAttempts st ! m)"
  "m < length (serialAttempts st) \<Longrightarrow> previous (serialAttempts (set_phase n ph st) ! m) = previous (serialAttempts st ! m)"
  "m < length (serialAttempts st) \<Longrightarrow> phase (serialAttempts (set_phase n ph st) ! m)
     = (if m = n then ph else phase (serialAttempts st ! m))"
  by (simp_all add: set_phase_def) (cases "m = n"; simp)+

lemma is_latest_set_phase [simp]:
  "is_latest (serialAttempts (set_phase n ph st)) key bound m = is_latest (serialAttempts st) key bound m"
  by (auto simp: is_latest_def)

lemma earlier_released_set_phase:
  assumes "earlier_released (serialAttempts st) key b" "n < length (serialAttempts st)"
    "ph = Released \<or> b \<le> n \<or> attemptKey (serialAttempts st ! n) \<noteq> key"
  shows "earlier_released (serialAttempts (set_phase n ph st)) key b"
  using assms by (auto simp: earlier_released_def)

lemma serial_invD:
  assumes "serial_inv st" "n < length (serialAttempts st)"
  shows "case previous (serialAttempts st ! n) of
      None \<Rightarrow> earlier_released (serialAttempts st) (attemptKey (serialAttempts st ! n)) n
    | Some m \<Rightarrow> is_latest (serialAttempts st) (attemptKey (serialAttempts st ! n)) n m"
    "phase (serialAttempts st ! n) \<noteq> Waiting \<Longrightarrow> earlier_released (serialAttempts st) (attemptKey (serialAttempts st ! n)) n"
  using assms by (simp_all add: serial_inv_def Let_def)

lemma serial_inv_pending:
  assumes "serial_inv st"
  shows "case map_of (pendingAttempts st) k of None \<Rightarrow> earlier_released (serialAttempts st) k (length (serialAttempts st))
    | Some m \<Rightarrow> is_latest (serialAttempts st) k (length (serialAttempts st)) m"
  using assms by (simp add: serial_inv_def Let_def)

lemma arrives_inv:
  assumes "serial_inv st"
  shows "serial_inv (attempt_arrives key st)"
proof -
  let ?ats = "serialAttempts st" and ?ats' = "serialAttempts (attempt_arrives key st)"
  have app: "?ats' = ?ats @ [\<lparr>attemptKey = key, previous = map_of (pendingAttempts st) key, phase = Waiting\<rparr>]"
    by (simp add: attempt_arrives_def)
  have er: "b \<le> length ?ats \<Longrightarrow> earlier_released ?ats' k b = earlier_released ?ats k b" for k b
    by (auto simp: earlier_released_def app nth_append)
  have la: "b \<le> length ?ats \<Longrightarrow> is_latest ?ats' k b m = is_latest ?ats k b m" for k b m
    by (auto simp: is_latest_def app nth_append)
  have pend: "case map_of (pendingAttempts st) k of None \<Rightarrow> earlier_released ?ats k (length ?ats)
        | Some m \<Rightarrow> is_latest ?ats k (length ?ats) m" for k
    by (rule serial_inv_pending [OF assms])
  have "case previous (?ats' ! n) of None \<Rightarrow> earlier_released ?ats' (attemptKey (?ats' ! n)) n
        | Some m \<Rightarrow> is_latest ?ats' (attemptKey (?ats' ! n)) n m" if "n < length ?ats'" for n
  proof (cases "n < length ?ats")
    case True
    then have "?ats' ! n = ?ats ! n" by (simp add: app nth_append)
    with serial_invD(1) [OF assms True] True show ?thesis by (simp add: er la split: option.splits)
  next
    case False
    with that have "n = length ?ats" by (simp add: app)
    moreover from this have "?ats' ! n = \<lparr>attemptKey = key, previous = map_of (pendingAttempts st) key, phase = Waiting\<rparr>"
      by (simp add: app nth_append)
    ultimately show ?thesis using pend [of key] by (simp add: er la split: option.splits)
  qed
  moreover have "earlier_released ?ats' (attemptKey (?ats' ! n)) n" if "n < length ?ats'" "phase (?ats' ! n) \<noteq> Waiting" for n
  proof -
    have "n < length ?ats" using that by (cases "n = length ?ats") (simp_all add: app nth_append)
    moreover from this have "?ats' ! n = ?ats ! n" by (simp add: app nth_append)
    ultimately show ?thesis using that serial_invD(2) [OF assms, of n] by (simp add: er)
  qed
  moreover have "case map_of (pendingAttempts (attempt_arrives key st)) k of None \<Rightarrow> earlier_released ?ats' k (length ?ats')
        | Some m \<Rightarrow> is_latest ?ats' k (length ?ats') m" for k
    using pend [of k]
    by (auto simp: attempt_arrives_def is_latest_def earlier_released_def nth_append split: option.splits)
  ultimately show ?thesis by (simp add: serial_inv_def Let_def)
qed

lemma set_phase_inv:
  assumes "serial_inv st" "n < length (serialAttempts st)" "ph \<noteq> Waiting"
    "earlier_released (serialAttempts st) (attemptKey (serialAttempts st ! n)) n" "phase (serialAttempts st ! n) \<noteq> Released"
  shows "serial_inv (set_phase n ph st)"
proof -
  let ?ats = "serialAttempts st" and ?ats' = "serialAttempts (set_phase n ph st)"
  have er: "earlier_released ?ats' k b" if "earlier_released ?ats k b" for k b
  proof (rule earlier_released_set_phase [OF that assms(2)])
    show "ph = Released \<or> b \<le> n \<or> attemptKey (?ats ! n) \<noteq> k"
      using that assms(2,5) by (auto simp: earlier_released_def)
  qed
  have "case previous (?ats' ! m) of None \<Rightarrow> earlier_released ?ats' (attemptKey (?ats' ! m)) m
        | Some j \<Rightarrow> is_latest ?ats' (attemptKey (?ats' ! m)) m j" if "m < length ?ats'" for m
    using serial_invD(1) [OF assms(1), of m] that er by (auto split: option.splits)
  moreover have "earlier_released ?ats' (attemptKey (?ats' ! m)) m" if "m < length ?ats'" "phase (?ats' ! m) \<noteq> Waiting" for m
    using serial_invD(2) [OF assms(1), of m] that er assms(4) by (cases "m = n") auto
  moreover have "case map_of (pendingAttempts (set_phase n ph st)) k of None \<Rightarrow> earlier_released ?ats' k (length ?ats')
        | Some m \<Rightarrow> is_latest ?ats' k (length ?ats') m" for k
    using serial_inv_pending [OF assms(1), of k] er by (auto split: option.splits)
  ultimately show ?thesis unfolding serial_inv_def Let_def by blast
qed

lemma starts_inv:
  assumes "serial_inv st" "attempt_may_start n st"
  shows "serial_inv (attempt_starts n st)"
proof -
  have n: "n < length (serialAttempts st)" "phase (serialAttempts st ! n) = Waiting"
    using assms(2) by (simp_all add: attempt_may_start_def)
  have prev: "\<forall>n < length (serialAttempts st). case previous (serialAttempts st ! n) of
      None \<Rightarrow> earlier_released (serialAttempts st) (attemptKey (serialAttempts st ! n)) n
    | Some m \<Rightarrow> is_latest (serialAttempts st) (attemptKey (serialAttempts st ! n)) n m"
    using serial_invD(1) [OF assms(1)] by blast
  have "earlier_released (serialAttempts st) (attemptKey (serialAttempts st ! n)) n"
  proof (cases "previous (serialAttempts st ! n)")
    case None
    with prev n(1) show ?thesis by fastforce
  next
    case (Some m)
    with assms(2) have "tail_resolved (serialAttempts st) m" by (simp add: attempt_may_start_def)
    from tail_resolved_released [OF prev this]
    have m: "phase (serialAttempts st ! m) = Released" "earlier_released (serialAttempts st) (attemptKey (serialAttempts st ! m)) m"
      by simp_all
    have latest: "is_latest (serialAttempts st) (attemptKey (serialAttempts st ! n)) n m" using prev n(1) Some by fastforce
    then have "attemptKey (serialAttempts st ! m) = attemptKey (serialAttempts st ! n)" by (simp add: is_latest_def)
    with m earlier_released_latest [OF latest] show ?thesis by simp
  qed
  with n show ?thesis unfolding attempt_starts_def by (intro set_phase_inv assms(1)) simp_all
qed

lemma ends_inv:
  assumes "serial_inv st" "n < length (serialAttempts st)" "phase (serialAttempts st ! n) = Running"
  shows "serial_inv (attempt_ends n st)"
proof -
  let ?st1 = "set_phase n Released st" and ?key = "attemptKey (serialAttempts st ! n)"
  have er: "earlier_released (serialAttempts st) ?key n" using serial_invD(2) [OF assms(1,2)] assms(3) by simp
  then have inv: "serial_inv ?st1" using assms by (intro set_phase_inv) simp_all
  show ?thesis
  proof (cases "map_of (pendingAttempts ?st1) ?key = Some n")
    case True
    then have "is_latest (serialAttempts ?st1) ?key (length (serialAttempts ?st1)) n"
      using serial_inv_pending [OF inv, of ?key] by simp
    then have "earlier_released (serialAttempts ?st1) ?key (length (serialAttempts ?st1))"
      by (rule earlier_released_latest) (use assms(2) earlier_released_set_phase [OF er assms(2)] in simp_all)
    with inv True show ?thesis by (auto simp: attempt_ends_def serial_inv_def Let_def split: option.splits)
  next
    case False
    with inv show ?thesis by (simp add: attempt_ends_def Let_def)
  qed
qed

lemma serial_reachable_inv: "serial_reachable st \<Longrightarrow> serial_inv st"
proof (induction rule: serial_reachable.induct)
  case start
  show ?case by (simp add: serial_inv_def earlier_released_def)
next
  case (step st st')
  from step.hyps(2) step.IH show ?case by cases (simp_all add: arrives_inv starts_inv ends_inv)
qed

text \<open>
  The key under which an authorization is serialized, if it is: \<open>authorizeGatewayConnect\<close> serializes those that may
  be suspended by a question to Tailscale.
\<close>

definition serialization_of :: "'ip IpLibrary \<Rightarrow> AuthorizeParams \<Rightarrow> AuthRateLimiter option \<Rightarrow> string option" where
  "serialization_of lib p limiter =
     (if limiter \<noteq> None \<and> shouldAllowTailscaleHeaderAuth (surface_of p) \<and> allowTailscale (auth p)
         \<and> \<not> isLocalDirectRequest lib (req p)
      then Some (buildSerializationKey lib (ip_of lib p) (Some (scope_of p))) else None)"

text \<open>
  Whatever suspends itself while it holds a limiter is serialized, under the key of the limiter's entry.
\<close>

lemma suspended_is_serialized:
  assumes "fst (authorizeGatewayConnectCore lib now p (Some lim)) = AwaitsWhois"
  shows "serialization_of (ips lib) p (Some lim') = Some (fst (resolveKey (ips lib) (ip_of (ips lib) p) (Some (scope_of p))))"
proof -
  have "asks_tailscale (ips lib) p"
    using assms by (auto simp: authorizeGatewayConnectCore_def split: if_splits option.splits prod.splits sum.splits)
  then show ?thesis by (simp add: serialization_of_def asks_tailscale_def buildSerializationKey_def resolveKey_def Let_def)
qed

text \<open>
  Attempts of one client are serialized: of the attempts under one key at most one is under way, and an
  attempt that is under way or over comes after all earlier ones under its key are over.
\<close>

theorem attempts_serialized:
  assumes "serial_reachable st" "n < length (serialAttempts st)" "phase (serialAttempts st ! n) \<noteq> Waiting"
    "m < n" "attemptKey (serialAttempts st ! m) = attemptKey (serialAttempts st ! n)"
  shows "phase (serialAttempts st ! m) = Released"
  using serial_invD(2) [OF serial_reachable_inv [OF assms(1)] assms(2,3)] assms(2,4,5) by (simp add: earlier_released_def)

definition example_attempts :: SerialState where
  "example_attempts = attempt_starts 1 (attempt_ends 0 (attempt_starts 0 (attempt_arrives ''k'' (attempt_arrives ''k''
     \<lparr>pendingAttempts = [], serialAttempts = []\<rparr>))))"

theorem attempts_serialized_witness:
  "serial_reachable example_attempts \<and> phase (serialAttempts example_attempts ! 1) = Running
   \<and> phase (serialAttempts example_attempts ! 0) = Released"
proof -
  let ?s0 = "\<lparr>pendingAttempts = [], serialAttempts = []\<rparr>"
  let ?s2 = "attempt_arrives ''k'' (attempt_arrives ''k'' ?s0)"
  have s2: "serial_reachable ?s2"
    by (rule serial_reachable.step [OF serial_reachable.step [OF serial_reachable.start serial_step.arrives] serial_step.arrives])
  have "attempt_may_start 0 ?s2" by code_simp
  from serial_reachable.step [OF s2 serial_step.starts [OF this]] have s3: "serial_reachable (attempt_starts 0 ?s2)" .
  have "0 < length (serialAttempts (attempt_starts 0 ?s2))" "phase (serialAttempts (attempt_starts 0 ?s2) ! 0) = Running"
    by code_simp+
  from serial_reachable.step [OF s3 serial_step.ends [OF this]]
  have s4: "serial_reachable (attempt_ends 0 (attempt_starts 0 ?s2))" .
  have "attempt_may_start 1 (attempt_ends 0 (attempt_starts 0 ?s2))" by code_simp
  from serial_reachable.step [OF s4 serial_step.starts [OF this]]
  have r: "serial_reachable example_attempts" by (simp only: example_attempts_def)
  have ev: "1 < length (serialAttempts example_attempts)" "phase (serialAttempts example_attempts ! 1) = Running"
      "attemptKey (serialAttempts example_attempts ! 0) = attemptKey (serialAttempts example_attempts ! 1)" by code_simp+
  from attempts_serialized [OF r ev(1) _ _ ev(3)] r ev(2) show ?thesis by simp
qed

section \<open>The handshake\<close>

record HandshakeConnectAuth =
  hsToken :: "string option"
  hsBootstrapToken :: "string option"
  hsDeviceToken :: "string option"
  hsPassword :: "string option"

datatype DeviceTokenCandidateSource = Explicit_device_token | Shared_token_fallback

record ConnectAuthState =
  stAuthResult :: GatewayAuthResult
  stAuthOk :: bool
  stAuthMethod :: AuthMethod
  sharedAuthOk :: bool
  sharedAuthProvided :: bool
  bootstrapTokenCandidate :: "string option"
  deviceTokenCandidate :: "string option"
  deviceTokenCandidateSource :: "DeviceTokenCandidateSource option"

record Handshake =
  resolvedAuth :: ResolvedGatewayAuth
  hsConnectAuth :: "HandshakeConnectAuth option"
  hasDeviceIdentity :: bool
  hsReq :: IncomingMessage
  hsProxies :: "string list"
  hsRealIpFallback :: bool
  hsClientIp :: "string option"

definition resolveSharedConnectAuth :: "HandshakeConnectAuth option \<Rightarrow> ConnectAuth option" where
  "resolveSharedConnectAuth ca =
     (let token = normalizeOptionalString (Option.bind ca hsToken);
          password = normalizeOptionalString (Option.bind ca hsPassword)
      in if \<not> truthy token \<and> \<not> truthy password then None
         else Some \<lparr>connectToken = token, connectPassword = password\<rparr>)"

definition resolveDeviceTokenCandidate ::
    "HandshakeConnectAuth option \<Rightarrow> string option \<times> DeviceTokenCandidateSource option" where
  "resolveDeviceTokenCandidate ca =
     (let explicit = normalizeOptionalString (Option.bind ca hsDeviceToken);
          fallback = normalizeOptionalString (Option.bind ca hsToken)
      in if truthy explicit then (explicit, Some Explicit_device_token)
         else if \<not> truthy fallback then (None, None)
         else (fallback, Some Shared_token_fallback))"

text \<open>The two authorizations of a handshake: the one that counts, and the probe of the shared secret.\<close>

definition shared_params :: "Handshake \<Rightarrow> AuthorizeParams" where
  "shared_params h = \<lparr>auth = resolvedAuth h, connectAuth = resolveSharedConnectAuth (hsConnectAuth h), req = Some (hsReq h),
     proxies = Some (hsProxies h), authSurface = Some Surface_ws_control_ui, clientIp = hsClientIp h,
     rateLimitScope = Some AUTH_RATE_LIMIT_SCOPE_SHARED_SECRET, realIpFallback = hsRealIpFallback h, browserOriginPolicy = None\<rparr>"

definition probe_params :: "Handshake \<Rightarrow> AuthorizeParams" where
  "probe_params h = (shared_params h)\<lparr>auth := (resolvedAuth h)\<lparr>allowTailscale := False\<rparr>, authSurface := Some Surface_http,
     clientIp := None\<rparr>"

definition counts_failures :: "Handshake \<Rightarrow> bool" where
  "counts_failures h \<longleftrightarrow> resolveSharedConnectAuth (hsConnectAuth h) \<noteq> None"

definition connect_starts ::
    "'ip GatewayLib \<Rightarrow> int \<Rightarrow> Handshake \<Rightarrow> AuthRateLimiter option \<Rightarrow> AuthStep \<times> AuthRateLimiter option" where
  "connect_starts lib now h limiter =
     (if counts_failures h then authorizeGatewayConnectCore lib now (shared_params h) limiter
      else (fst (authorizeGatewayConnectCore lib now (shared_params h) None), limiter))"

definition connect_resumes ::
    "'ip GatewayLib \<Rightarrow> int \<Rightarrow> (string \<Rightarrow> TailscaleWhoisIdentity option) \<Rightarrow> Handshake \<Rightarrow> AuthRateLimiter option
      \<Rightarrow> GatewayAuthResult \<times> AuthRateLimiter option" where
  "connect_resumes lib now whois h limiter =
     (if counts_failures h then resumeGatewayConnect lib now whois (shared_params h) limiter
      else (fst (resumeGatewayConnect lib now whois (shared_params h) None), limiter))"

definition shared_probe :: "'ip GatewayLib \<Rightarrow> int \<Rightarrow> Handshake \<Rightarrow> GatewayAuthResult option" where
  "shared_probe lib now h = (if resolveSharedConnectAuth (hsConnectAuth h) = None then None
     else case fst (authorizeGatewayConnectCore lib now (probe_params h) None) of
         Answered r \<Rightarrow> Some r | AwaitsWhois \<Rightarrow> None)"

definition resolveConnectAuthState :: "'ip GatewayLib \<Rightarrow> int \<Rightarrow> Handshake \<Rightarrow> GatewayAuthResult \<Rightarrow> ConnectAuthState" where
  "resolveConnectAuthState lib now h authResult =
     (let candidate = (if hasDeviceIdentity h then resolveDeviceTokenCandidate (hsConnectAuth h) else (None, None));
          sharedAuthResult = shared_probe lib now h
      in \<lparr>stAuthResult = authResult, stAuthOk = auth_ok authResult,
          stAuthMethod = nullish (auth_method authResult)
            (if authMode (resolvedAuth h) = Am_password then Me_password else Me_token),
          sharedAuthOk = (case sharedAuthResult of None \<Rightarrow> False
              | Some r \<Rightarrow> auth_ok r \<and> (auth_method r = Some Me_token \<or> auth_method r = Some Me_password))
            \<or> auth_ok authResult \<and> auth_method authResult = Some Me_trusted_proxy,
          sharedAuthProvided = counts_failures h,
          bootstrapTokenCandidate = (if hasDeviceIdentity h
            then normalizeOptionalString (Option.bind (hsConnectAuth h) hsBootstrapToken) else None),
          deviceTokenCandidate = fst candidate, deviceTokenCandidateSource = snd candidate\<rparr>)"

section \<open>The decision\<close>

record ConnectAuthDecision =
  dAuthResult :: GatewayAuthResult
  dAuthOk :: bool
  dAuthMethod :: AuthMethod

record DeviceIdentity =
  devicePresented :: bool
  deviceId :: "string option"
  publicKey :: "string option"

text \<open>The verifications are awaited; their answers are inputs of what follows.\<close>

definition asks_bootstrap :: "DeviceIdentity \<Rightarrow> ConnectAuthState \<Rightarrow> bool" where
  "asks_bootstrap d st \<longleftrightarrow> devicePresented d \<and> truthy (deviceId d) \<and> truthy (publicKey d) \<and> truthy (bootstrapTokenCandidate st)"

definition after_bootstrap ::
    "(string \<Rightarrow> bool \<times> string option) \<Rightarrow> DeviceIdentity \<Rightarrow> ConnectAuthState \<Rightarrow> ConnectAuthDecision" where
  "after_bootstrap verifyBootstrapToken d st =
     (let decision = \<lparr>dAuthResult = stAuthResult st, dAuthOk = stAuthOk st, dAuthMethod = stAuthMethod st\<rparr>
      in if asks_bootstrap d st
         then (case verifyBootstrapToken (the (bootstrapTokenCandidate st)) of (ok, reason) \<Rightarrow>
             if ok then decision\<lparr>dAuthOk := True, dAuthMethod := Me_bootstrap_token\<rparr>
             else if \<not> dAuthOk decision
             then decision\<lparr>dAuthResult := denied (nullish reason ''bootstrap_token_invalid'')\<rparr>
             else decision)
         else decision)"

definition device_settled :: "DeviceIdentity \<Rightarrow> ConnectAuthState \<Rightarrow> ConnectAuthDecision \<Rightarrow> bool" where
  "device_settled d st decision \<longleftrightarrow>
     \<not> devicePresented d \<or> \<not> truthy (deviceId d) \<or> dAuthOk decision \<or> \<not> truthy (deviceTokenCandidate st)"

definition device_limit ::
    "'ip IpLibrary \<Rightarrow> int \<Rightarrow> string option \<Rightarrow> AuthRateLimiter option \<Rightarrow> RateLimitCheckResult option \<times> AuthRateLimiter option" where
  "device_limit lib now ip limiter = (case limiter of None \<Rightarrow> (None, None)
     | Some lim \<Rightarrow> (case check lib now ip (Some AUTH_RATE_LIMIT_SCOPE_DEVICE_TOKEN) lim of (r, lim1) \<Rightarrow> (Some r, Some lim1)))"

definition after_device ::
    "'ip IpLibrary \<Rightarrow> int \<Rightarrow> string option \<Rightarrow> bool \<Rightarrow> ConnectAuthState \<Rightarrow> ConnectAuthDecision \<Rightarrow> AuthRateLimiter option
      \<Rightarrow> ConnectAuthDecision \<times> AuthRateLimiter option" where
  "after_device lib now ip ok st decision limiter =
     (if ok
      then (decision\<lparr>dAuthOk := True, dAuthMethod := Me_device_token\<rparr>,
            (let lim1 = map_option (reset lib ip (Some AUTH_RATE_LIMIT_SCOPE_DEVICE_TOKEN)) limiter
             in if sharedAuthProvided st then map_option (reset lib ip (Some AUTH_RATE_LIMIT_SCOPE_SHARED_SECRET)) lim1
                else lim1))
      else (decision\<lparr>dAuthResult := denied (if deviceTokenCandidateSource st = Some Explicit_device_token
              then ''device_token_mismatch'' else nullish (auth_reason (dAuthResult decision)) ''device_token_mismatch'')\<rparr>,
            map_option (recordFailure lib now ip (Some AUTH_RATE_LIMIT_SCOPE_DEVICE_TOKEN)) limiter))"

text \<open>
  The whole decision; \<open>meanwhile\<close> is what happens to the limiter while a device token is verified, and
  \<open>later\<close> the time of the answer.
\<close>

definition resolveConnectAuthDecision ::
    "'ip IpLibrary \<Rightarrow> int \<Rightarrow> int \<Rightarrow> (string \<Rightarrow> bool \<times> string option) \<Rightarrow> (string \<Rightarrow> bool)
      \<Rightarrow> (AuthRateLimiter option \<Rightarrow> AuthRateLimiter option) \<Rightarrow> string option \<Rightarrow> DeviceIdentity \<Rightarrow> ConnectAuthState
      \<Rightarrow> AuthRateLimiter option \<Rightarrow> ConnectAuthDecision \<times> AuthRateLimiter option" where
  "resolveConnectAuthDecision lib now later verifyBootstrapToken verifyDeviceToken meanwhile ip d st limiter =
     (let decision = after_bootstrap verifyBootstrapToken d st
      in if device_settled d st decision then (decision, limiter)
         else case device_limit lib now ip limiter of (limit, lim1) \<Rightarrow>
           (case limit of
              Some r \<Rightarrow>
                if \<not> allowed r then (decision\<lparr>dAuthResult := rate_limited r\<rparr>, lim1)
                else after_device lib later ip (verifyDeviceToken (the (deviceTokenCandidate st))) st decision (meanwhile lim1)
            | None \<Rightarrow> after_device lib later ip (verifyDeviceToken (the (deviceTokenCandidate st))) st decision (meanwhile lim1)))"

text \<open>Which credential a client was let in for.\<close>

lemma decision_credential:
  assumes "may_answer lib whois (shared_params h) r" "st = resolveConnectAuthState lib t h r"
    "fst (resolveConnectAuthDecision (ips lib) now later verifyBootstrapToken verifyDeviceToken meanwhile ip d st limiter) = decision"
    "dAuthOk decision"
  shows "(case dAuthMethod decision of
      Me_bootstrap_token \<Rightarrow> devicePresented d \<and> (\<exists>tok. bootstrapTokenCandidate st = Some tok \<and> fst (verifyBootstrapToken tok))
    | Me_device_token \<Rightarrow> devicePresented d \<and> (\<exists>tok. deviceTokenCandidate st = Some tok \<and> verifyDeviceToken tok)
        \<and> (\<forall>lim. limiter = Some lim \<longrightarrow> allowed (fst (check (ips lib) now ip (Some AUTH_RATE_LIMIT_SCOPE_DEVICE_TOKEN) lim)))
    | m \<Rightarrow> auth_ok r \<and> auth_method r = Some m)"
proof -
  have methods: "stAuthOk st \<Longrightarrow> auth_ok r \<and> auth_method r = Some (stAuthMethod st)
      \<and> stAuthMethod st \<noteq> Me_bootstrap_token \<and> stAuthMethod st \<noteq> Me_device_token"
    using answers_sound [OF assms(1)] assms(2) by (auto simp: resolveConnectAuthState_def Let_def split: option.splits AuthMethod.splits)
  define d0 where "d0 = after_bootstrap verifyBootstrapToken d st"
  have boot: "dAuthOk d0 \<Longrightarrow> dAuthMethod d0 = Me_bootstrap_token \<and> devicePresented d
        \<and> (\<exists>tok. bootstrapTokenCandidate st = Some tok \<and> fst (verifyBootstrapToken tok))
      \<or> stAuthOk st \<and> dAuthMethod d0 = stAuthMethod st"
    by (cases "bootstrapTokenCandidate st")
      (auto simp: d0_def after_bootstrap_def asks_bootstrap_def Let_def truthy_def split: prod.splits if_splits)
  show ?thesis
  proof (cases "device_settled d st d0")
    case True
    with assms(3) have "decision = d0" by (simp add: resolveConnectAuthDecision_def d0_def [symmetric])
    with boot methods assms(4) show ?thesis by (auto split: AuthMethod.splits)
  next
    case False
    then obtain tok where tok: "devicePresented d" "deviceTokenCandidate st = Some tok" "\<not> dAuthOk d0"
      by (cases "deviceTokenCandidate st") (auto simp: device_settled_def truthy_def)
    with False assms(3,4) have "dAuthMethod decision = Me_device_token \<and> verifyDeviceToken tok
        \<and> (\<forall>lim. limiter = Some lim \<longrightarrow> allowed (fst (check (ips lib) now ip (Some AUTH_RATE_LIMIT_SCOPE_DEVICE_TOKEN) lim)))"
      by (cases limiter) (auto simp: resolveConnectAuthDecision_def d0_def [symmetric] device_limit_def after_device_def
          case_prod_unfold split: if_splits)
    with tok show ?thesis by simp
  qed
qed

text \<open>
  Nobody connects without a credential that was verified: the decision lets a client in as the shared
  authorization did, which is sound, or for a bootstrap token or a device token that its verifier has
  accepted, for a device that has identified itself, and for a device token only when its client was
  not locked out.
\<close>

theorem connect_decision_sound:
  assumes "may_answer lib whois (shared_params h) r" "st = resolveConnectAuthState lib t h r"
    "fst (resolveConnectAuthDecision (ips lib) now later verifyBootstrapToken verifyDeviceToken meanwhile ip d st limiter) = decision"
    "dAuthOk decision"
  shows "(case dAuthMethod decision of
      Me_bootstrap_token \<Rightarrow> devicePresented d \<and> (\<exists>tok. bootstrapTokenCandidate st = Some tok \<and> fst (verifyBootstrapToken tok))
    | Me_device_token \<Rightarrow> devicePresented d \<and> (\<exists>tok. deviceTokenCandidate st = Some tok \<and> verifyDeviceToken tok)
        \<and> (\<forall>lim. limiter = Some lim \<longrightarrow> allowed (fst (check (ips lib) now ip (Some AUTH_RATE_LIMIT_SCOPE_DEVICE_TOKEN) lim)))
    | m \<Rightarrow> auth_ok r \<and> auth_method r = Some m)"
  by (rule decision_credential [OF assms])

definition example_handshake :: "string option \<Rightarrow> Handshake" where
  "example_handshake token = \<lparr>resolvedAuth = example_auth,
     hsConnectAuth = Some \<lparr>hsToken = token, hsBootstrapToken = None, hsDeviceToken = Some ''dev-token'', hsPassword = None\<rparr>,
     hasDeviceIdentity = True, hsReq = \<lparr>remoteAddress = Some ''10.0.0.7'', req_headers = []\<rparr>, hsProxies = [],
     hsRealIpFallback = False, hsClientIp = Some ''10.0.0.7''\<rparr>"

definition example_device :: DeviceIdentity where
  "example_device = \<lparr>devicePresented = True, deviceId = Some ''dev-1'', publicKey = Some ''pub-1''\<rparr>"

theorem connect_decision_sound_witness:
  "let st = resolveConnectAuthState example_lib 5 (example_handshake None) (denied ''token_missing'');
       decision = fst (resolveConnectAuthDecision example_ip_library 5 6 (\<lambda>_. (False, None)) (\<lambda>t. t = ''dev-token'') id
         (Some ''10.0.0.7'') example_device st (Some (createAuthRateLimiter None)))
   in dAuthOk decision \<and> dAuthMethod decision = Me_device_token \<and> deviceTokenCandidate st = Some ''dev-token''"
proof -
  define st where "st = resolveConnectAuthState example_lib 5 (example_handshake None) (denied ''token_missing'')"
  define decision where "decision = fst (resolveConnectAuthDecision (ips example_lib) 5 6 (\<lambda>_. (False, None))
    (\<lambda>t. t = ''dev-token'') id (Some ''10.0.0.7'') example_device st (Some (createAuthRateLimiter None)))"
  have "fst (authorizeGatewayConnectCore example_lib 5 (shared_params (example_handshake None)) None) = Answered (denied ''token_missing'')"
    by code_simp
  then have may: "may_answer example_lib (\<lambda>_. None) (shared_params (example_handshake None)) (denied ''token_missing'')"
    unfolding may_answer_def by blast
  have ok: "dAuthOk decision" and m: "dAuthMethod decision = Me_device_token" unfolding decision_def st_def by code_simp+
  from connect_decision_sound [OF may st_def decision_def [symmetric] ok] m
  have "deviceTokenCandidate st = Some ''dev-token''" by simp
  with ok m show ?thesis unfolding Let_def decision_def st_def by (simp add: example_lib_def)
qed

text \<open>
  A verified device token forgives the failures of the shared secret of the same handshake. A paired
  client that sends a wrong shared token beside its device token can go on for ever: each time the token
  is looked at, and the limiter is as it was.
\<close>

definition paired_guess :: "int \<Rightarrow> AuthRateLimiter \<Rightarrow> GatewayAuthResult \<times> AuthRateLimiter option" where
  "paired_guess now lim =
     (case connect_starts example_lib now (example_handshake (Some ''wrong'')) (Some lim) of
        (Answered r, lim1) \<Rightarrow>
          (r, snd (resolveConnectAuthDecision example_ip_library now now (\<lambda>_. (False, None)) (\<lambda>t. t = ''dev-token'') id
             (Some ''10.0.0.7'') example_device (resolveConnectAuthState example_lib now (example_handshake (Some ''wrong'')) r) lim1))
      | (AwaitsWhois, lim1) \<Rightarrow> (denied '''', lim1))"

lemma paired_guesses_unlimited:
  assumes "entries lim = []" "\<not> isExempt example_ip_library lim ''10.0.0.7''"
  shows "fst (paired_guess now lim) = denied ''token_mismatch''
    \<and> (\<exists>lim'. snd (paired_guess now lim) = Some lim' \<and> entries lim' = [] \<and> same_limits lim' lim)"
proof -
  let ?p = "shared_params (example_handshake (Some ''wrong''))" and ?ip = "Some ''10.0.0.7''"
  let ?shared = "(''shared-secret:10.0.0.7'', ''10.0.0.7'')" and ?device = "(''device-token:10.0.0.7'', ''10.0.0.7'')"
  have keys: "resolveKey example_ip_library ?ip (Some AUTH_RATE_LIMIT_SCOPE_SHARED_SECRET) = ?shared"
      "resolveKey example_ip_library ?ip (Some AUTH_RATE_LIMIT_SCOPE_DEVICE_TOKEN) = ?device" by code_simp+
  have p: "ip_of example_ip_library ?p = ?ip" "scope_of ?p = AUTH_RATE_LIMIT_SCOPE_SHARED_SECRET"
      "authMode (auth ?p) = Am_token" "\<not> asks_tailscale example_ip_library ?p" "counts_failures (example_handshake (Some ''wrong''))"
      "authToken (auth ?p) = Some ''s3cret''" "Option.bind (connectAuth ?p) connectToken = Some ''wrong''" by code_simp+
  define fail where "fail = \<lparr>attempts = [now], lockedUntil = (if 1 \<ge> maxAttempts lim then Some (now + lockoutMs lim) else None)\<rparr>"
  define lim1 where "lim1 = set_entry ''shared-secret:10.0.0.7'' fail lim"
  have ex: "isExempt example_ip_library lim1 = isExempt example_ip_library lim"
    by (simp add: lim1_def isExempt_def fun_eq_iff)
  have rec: "recordFailure example_ip_library now ?ip (Some AUTH_RATE_LIMIT_SCOPE_SHARED_SECRET) lim = lim1"
    using assms keys by (simp add: recordFailure_def locked_def truthy_num_def slideWindow_def Let_def lim1_def set_entry_def fail_def)
  have look: "check example_ip_library now ?ip (Some AUTH_RATE_LIMIT_SCOPE_SHARED_SECRET) lim
      = (\<lparr>allowed = True, remaining = maxAttempts lim, retryAfterMs = 0\<rparr>, lim)"
    using assms keys by (simp add: check_def)
  have core: "connect_starts example_lib now (example_handshake (Some ''wrong'')) (Some lim) = (Answered (denied ''token_mismatch''), Some lim1)"
    using p look rec by (simp add: connect_starts_def authorizeGatewayConnectCore_def authorize_secret_def authorizeTokenAuth_def
        truthy_def safeEqualSecret_def example_lib_def)
  define st where "st = resolveConnectAuthState example_lib now (example_handshake (Some ''wrong'')) (denied ''token_mismatch'')"
  have st: "deviceTokenCandidate st = Some ''dev-token''" "bootstrapTokenCandidate st = None" "sharedAuthProvided st" "\<not> stAuthOk st"
    unfolding st_def resolveConnectAuthState_def by code_simp+
  have look1: "check example_ip_library now ?ip (Some AUTH_RATE_LIMIT_SCOPE_DEVICE_TOKEN) lim1
      = (\<lparr>allowed = True, remaining = maxAttempts lim, retryAfterMs = 0\<rparr>, lim1)"
    using assms keys ex by (simp add: check_def lim1_def)
  have "snd (resolveConnectAuthDecision example_ip_library now now (\<lambda>_. (False, None)) (\<lambda>t. t = ''dev-token'') id ?ip example_device st (Some lim1))
      = Some (reset example_ip_library ?ip (Some AUTH_RATE_LIMIT_SCOPE_SHARED_SECRET) (reset example_ip_library ?ip (Some AUTH_RATE_LIMIT_SCOPE_DEVICE_TOKEN) lim1))"
    using st look1 by (simp add: resolveConnectAuthDecision_def after_bootstrap_def asks_bootstrap_def device_settled_def example_device_def
        truthy_def device_limit_def after_device_def Let_def)
  moreover have "entries (reset example_ip_library ?ip (Some AUTH_RATE_LIMIT_SCOPE_SHARED_SECRET) (reset example_ip_library ?ip (Some AUTH_RATE_LIMIT_SCOPE_DEVICE_TOKEN) lim1)) = []"
    using assms keys by (simp add: reset_def lim1_def set_entry_def)
  moreover have "same_limits (reset example_ip_library ?ip (Some AUTH_RATE_LIMIT_SCOPE_SHARED_SECRET) (reset example_ip_library ?ip (Some AUTH_RATE_LIMIT_SCOPE_DEVICE_TOKEN) lim1)) lim"
    by (simp add: same_limits_def reset_def case_prod_unfold lim1_def)
  ultimately show ?thesis using core by (simp add: paired_guess_def st_def [symmetric])
qed

end
