(* ===== verification/GatewayAuthConfig.thy ===== *)
theory GatewayAuthConfig
  imports GatewayConnect
begin

text \<open>
  Where the mode and the secrets of the gateway come from: \<open>resolveGatewayAuth\<close> and
  \<open>assertGatewayAuthConfigured\<close> of \<open>src/gateway/auth.ts\<close>, \<open>src/gateway/credentials.ts\<close> with
  \<open>credential-planner.ts\<close>, the secret references of \<open>src/config/types.secrets.ts\<close>, and the references
  to environment variables of \<open>src/config/env-substitution.ts\<close>.
\<close>

section \<open>References to environment variables\<close>

text \<open>\<open>/^[A-Z_][A-Z0-9_]*$/\<close>\<close>

definition upper :: "char \<Rightarrow> bool" where "upper c \<longleftrightarrow> CHR ''A'' \<le> c \<and> c \<le> CHR ''Z''"

definition digit :: "char \<Rightarrow> bool" where "digit c \<longleftrightarrow> CHR ''0'' \<le> c \<and> c \<le> CHR ''9''"

definition env_var_name :: "string \<Rightarrow> bool" where
  "env_var_name s \<longleftrightarrow> s \<noteq> [] \<and> (upper (hd s) \<or> hd s = CHR ''_'')
     \<and> list_all (\<lambda>c. upper c \<or> digit c \<or> c = CHR ''_'') (tl s)"

datatype EnvTokenKind = Escaped | Substitution

text \<open>
  A name up to the next closing brace, and what follows it. Positions in the string are suffixes here.
\<close>

definition braced_name :: "string \<Rightarrow> (string \<times> string) option" where
  "braced_name s = (if CHR ''}'' \<in> set s
     then let nm = takeWhile (\<lambda>c. c \<noteq> CHR ''}'') s; rest = tl (dropWhile (\<lambda>c. c \<noteq> CHR ''}'') s)
          in if env_var_name nm then Some (nm, rest) else None
     else None)"

definition parseEnvTokenAt :: "string \<Rightarrow> (EnvTokenKind \<times> string \<times> string) option" where
  "parseEnvTokenAt s =
     (let escaped = (if starts_with ''$${'' s then braced_name (drop 3 s) else None);
          substitution = (if starts_with ''${'' s then braced_name (drop 2 s) else None)
      in case escaped of Some (nm, rest) \<Rightarrow> Some (Escaped, nm, rest)
       | None \<Rightarrow> (case substitution of Some (nm, rest) \<Rightarrow> Some (Substitution, nm, rest) | None \<Rightarrow> None))"

lemma braced_name_shorter: "braced_name s = Some (nm, rest) \<Longrightarrow> length rest < length s"
proof -
  assume "braced_name s = Some (nm, rest)"
  then have "CHR ''}'' \<in> set s" "rest = tl (dropWhile (\<lambda>c. c \<noteq> CHR ''}'') s)"
    by (auto simp: braced_name_def Let_def split: if_splits)
  moreover from this(1) have "dropWhile (\<lambda>c. c \<noteq> CHR ''}'') s \<noteq> []" by auto
  ultimately show ?thesis using length_dropWhile_le [of "\<lambda>c. c \<noteq> CHR ''}''" s]
    by (cases "dropWhile (\<lambda>c. c \<noteq> CHR ''}'') s") auto
qed

lemma token_shorter: "parseEnvTokenAt s = Some (k, nm, rest) \<Longrightarrow> length rest < length s"
  by (auto simp: parseEnvTokenAt_def Let_def split: option.splits if_splits dest!: braced_name_shorter)

function contains_env_reference :: "string \<Rightarrow> bool" where
  "contains_env_reference [] = False"
| "contains_env_reference (c # cs) =
     (if c \<noteq> CHR ''$'' then contains_env_reference cs
      else case parseEnvTokenAt (c # cs) of
          Some (Escaped, _, rest) \<Rightarrow> contains_env_reference rest
        | Some (Substitution, _, _) \<Rightarrow> True
        | None \<Rightarrow> contains_env_reference cs)"
  by pat_completeness auto
termination by (relation "measure length") (auto dest: token_shorter)

definition containsEnvVarReference :: "string \<Rightarrow> bool" where
  "containsEnvVarReference s = (if CHR ''$'' \<notin> set s then False else contains_env_reference s)"

text \<open>
  The substitution; a missing variable throws \<open>MissingEnvVarError\<close> unless there is an \<open>onMissing\<close> handler, which
  is told its name and leaves the placeholder. \<open>lenient\<close> says whether there is one.
\<close>

function substitute :: "bool \<Rightarrow> (string \<Rightarrow> string option) \<Rightarrow> string \<Rightarrow> string + string \<times> string list" where
  "substitute lenient env [] = Inr ([], [])"
| "substitute lenient env (c # cs) =
     (let plain = (\<lambda>chunk missing r. case r of Inl e \<Rightarrow> Inl e | Inr (s, ms) \<Rightarrow> Inr (chunk @ s, missing @ ms))
      in if c \<noteq> CHR ''$'' then plain [c] [] (substitute lenient env cs)
      else case parseEnvTokenAt (c # cs) of
          Some (Escaped, nm, rest) \<Rightarrow> plain (''${'' @ nm @ ''}'') [] (substitute lenient env rest)
        | Some (Substitution, nm, rest) \<Rightarrow>
          (if \<not> truthy (env nm)
           then (if lenient then plain (''${'' @ nm @ ''}'') [nm] (substitute lenient env rest) else Inl nm)
           else plain (the (env nm)) [] (substitute lenient env rest))
        | None \<Rightarrow> plain [c] [] (substitute lenient env cs))"
  by pat_completeness auto
termination by (relation "measure (\<lambda>(_, _, s). length s)") (auto dest: token_shorter)

definition substituteString :: "bool \<Rightarrow> (string \<Rightarrow> string option) \<Rightarrow> string \<Rightarrow> string + string \<times> string list" where
  "substituteString lenient env s = (if CHR ''$'' \<notin> set s then Inr (s, []) else substitute lenient env s)"

declare contains_env_reference.simps(2) [simp del] substitute.simps(2) [simp del]

lemma substitute_plain: "CHR ''$'' \<notin> set s \<Longrightarrow> substitute lenient env s = Inr (s, []) \<and> \<not> contains_env_reference s"
  by (induction s) (auto simp: substitute.simps(2) contains_env_reference.simps(2))

lemma substituteString_eq: "substituteString lenient env s = substitute lenient env s"
  using substitute_plain by (simp add: substituteString_def)

lemma containsEnvVarReference_eq: "containsEnvVarReference s = contains_env_reference s"
  using substitute_plain by (auto simp: containsEnvVarReference_def)

lemma no_reference_substitute:
  assumes "\<not> contains_env_reference s"
  shows "\<exists>t. \<forall>env lenient. substitute lenient env s = Inr (t, [])"
  using assms
proof (induction s rule: contains_env_reference.induct)
  case (2 c cs)
  show ?case
  proof (cases "c = CHR ''$'' \<and> parseEnvTokenAt (c # cs) \<noteq> None")
    case True
    with 2(4) obtain nm rest where t: "parseEnvTokenAt (c # cs) = Some (Escaped, nm, rest)" "\<not> contains_env_reference rest"
      by (auto simp: contains_env_reference.simps(2) split: EnvTokenKind.splits prod.splits)
    with 2 True show ?thesis by (fastforce simp: substitute.simps(2))
  next
    case False
    then have none: "c = CHR ''$'' \<Longrightarrow> parseEnvTokenAt (c # cs) = None" by blast
    from False 2 have "\<not> contains_env_reference cs"
      by (auto simp: contains_env_reference.simps(2) split: if_splits option.splits)
    with False 2 have "\<exists>t. \<forall>env lenient. substitute lenient env cs = Inr (t, [])" using none by (cases "c = CHR ''$''") auto
    with False none show ?thesis by (cases "c = CHR ''$''") (auto simp: substitute.simps(2))
  qed
qed simp

lemma reference_missing:
  assumes "contains_env_reference s"
  shows "\<exists>nm. substitute False (\<lambda>_. None) s = Inl nm"
  using assms
proof (induction s rule: contains_env_reference.induct)
  case (2 c cs)
  show ?case
  proof (cases "c = CHR ''$'' \<and> parseEnvTokenAt (c # cs) \<noteq> None")
    case True
    then obtain k nm rest where t: "parseEnvTokenAt (c # cs) = Some (k, nm, rest)" by auto
    show ?thesis
    proof (cases k)
      case Escaped
      with True t 2(4) have "contains_env_reference rest" by (simp add: contains_env_reference.simps(2))
      with True t 2(3) Escaped obtain nm' where "substitute False (\<lambda>_. None) rest = Inl nm'" by fastforce
      with True t Escaped show ?thesis by (simp add: substitute.simps(2))
    qed (use True t in \<open>simp add: substitute.simps(2) truthy_def\<close>)
  next
    case False
    then have none: "c = CHR ''$'' \<Longrightarrow> parseEnvTokenAt (c # cs) = None" by blast
    from False 2 have "contains_env_reference cs"
      by (auto simp: contains_env_reference.simps(2) split: if_splits option.splits)
    with False 2 have "\<exists>nm. substitute False (\<lambda>_. None) cs = Inl nm" using none by (cases "c = CHR ''$''") auto
    with False none show ?thesis by (cases "c = CHR ''$''") (auto simp: substitute.simps(2))
  qed
qed simp

text \<open>
  The test for references finds exactly those strings whose value depends on the environment: without one
  the substitution gives the same string and no warning in every environment, with one it fails in
  some environment.
\<close>

theorem env_reference_detected:
  "containsEnvVarReference s \<longleftrightarrow> \<not> (\<exists>t. \<forall>env lenient. substituteString lenient env s = Inr (t, []))"
  unfolding containsEnvVarReference_eq substituteString_eq
  using no_reference_substitute [of s] reference_missing [of s] by (metis Inl_Inr_False)


section \<open>Secrets of the configuration\<close>

text \<open>
  A secret in the configuration is a text or an object; of an object the code looks at three fields and
  at the number of keys. The defaults of providers are not given here.
\<close>

datatype SecretRefSource = Src_env | Src_file | Src_exec

record SecretRef =
  refSource :: SecretRefSource
  refProvider :: string
  refId :: string

record SecretObject =
  objSource :: "SecretRefSource option"
  objProvider :: "string option"
  objId :: "string option"
  objKeys :: nat

datatype SecretInput = SecretText string | SecretFields SecretObject

definition DEFAULT_SECRET_PROVIDER_ALIAS :: string where
  "DEFAULT_SECRET_PROVIDER_ALIAS = ''default''"

definition isSecretRef :: "SecretInput \<Rightarrow> bool" where
  "isSecretRef v \<longleftrightarrow> (case v of SecretText _ \<Rightarrow> False
     | SecretFields obj \<Rightarrow> objKeys obj = 3 \<and> objSource obj \<noteq> None
         \<and> (case objProvider obj of None \<Rightarrow> False | Some p \<Rightarrow> length (js_trim p) > 0)
         \<and> (case objId obj of None \<Rightarrow> False | Some i \<Rightarrow> length (js_trim i) > 0))"

definition isLegacySecretRefWithoutProvider :: "SecretInput \<Rightarrow> bool" where
  "isLegacySecretRefWithoutProvider v \<longleftrightarrow> (case v of SecretText _ \<Rightarrow> False
     | SecretFields obj \<Rightarrow> objSource obj \<noteq> None \<and> objProvider obj = None
         \<and> (case objId obj of None \<Rightarrow> False | Some i \<Rightarrow> length (js_trim i) > 0))"

text \<open>\<open>/^\$\{([A-Z][A-Z0-9_]{0,127})\}$/\<close> on the trimmed text.\<close>

definition env_template_id :: "string \<Rightarrow> string option" where
  "env_template_id s =
     (let nm = butlast (drop 2 s)
      in if starts_with ''${'' s \<and> ends_on (CHR ''}'') s \<and> nm \<noteq> [] \<and> length nm \<le> 128 \<and> upper (hd nm)
           \<and> list_all (\<lambda>c. upper c \<or> digit c \<or> c = CHR ''_'') (tl nm)
         then Some nm else None)"

definition parseEnvTemplateSecretRef :: "SecretInput \<Rightarrow> SecretRef option" where
  "parseEnvTemplateSecretRef v = (case v of SecretFields _ \<Rightarrow> None
     | SecretText s \<Rightarrow> map_option (\<lambda>i. \<lparr>refSource = Src_env, refProvider = DEFAULT_SECRET_PROVIDER_ALIAS, refId = i\<rparr>)
         (env_template_id (js_trim s)))"

definition coerceSecretRef :: "SecretInput \<Rightarrow> SecretRef option" where
  "coerceSecretRef v =
     (case v of
        SecretFields obj \<Rightarrow>
          if isSecretRef v
          then Some \<lparr>refSource = the (objSource obj), refProvider = the (objProvider obj), refId = the (objId obj)\<rparr>
          else if isLegacySecretRefWithoutProvider v
          then Some \<lparr>refSource = the (objSource obj), refProvider = DEFAULT_SECRET_PROVIDER_ALIAS, refId = the (objId obj)\<rparr>
          else None
      | SecretText _ \<Rightarrow> parseEnvTemplateSecretRef v)"

definition resolveSecretInputRef :: "SecretInput option \<Rightarrow> SecretRef option" where
  "resolveSecretInputRef v = Option.bind v coerceSecretRef"

definition secret_text :: "SecretInput option \<Rightarrow> string option" where
  "secret_text v = (case v of Some (SecretText s) \<Rightarrow> Some s | _ \<Rightarrow> None)"

definition trimCredentialToUndefined :: "SecretInput option \<Rightarrow> string option" where
  "trimCredentialToUndefined v =
     (let trimmed = normalizeOptionalString (secret_text v)
      in case trimmed of Some s \<Rightarrow> if s \<noteq> '''' \<and> containsEnvVarReference s then None else Some s | None \<Rightarrow> None)"

datatype CredentialPrecedence = Env_first | Config_first

definition firstDefined :: "string option list \<Rightarrow> string option" where
  "firstDefined vs = (case List.find truthy vs of Some v \<Rightarrow> v | None \<Rightarrow> None)"

definition resolveGatewayCredentialsFromValues ::
    "SecretInput option \<Rightarrow> SecretInput option \<Rightarrow> (string \<Rightarrow> string option) \<Rightarrow> CredentialPrecedence option
      \<Rightarrow> CredentialPrecedence option \<Rightarrow> string option \<times> string option" where
  "resolveGatewayCredentialsFromValues configToken configPassword env tokenPrecedence passwordPrecedence =
     (let envToken = normalizeOptionalString (env ''OPENCLAW_GATEWAY_TOKEN'');
          envPassword = normalizeOptionalString (env ''OPENCLAW_GATEWAY_PASSWORD'');
          cfgToken = trimCredentialToUndefined configToken;
          cfgPassword = trimCredentialToUndefined configPassword;
          pick = (\<lambda>pr cfg e. if nullish pr Env_first = Config_first then firstDefined [cfg, e] else firstDefined [e, cfg])
      in (pick tokenPrecedence cfgToken envToken, pick passwordPrecedence cfgPassword envPassword))"

section \<open>The mode\<close>

record GatewayAuthConfig =
  cfgMode :: "AuthMode option"
  cfgToken :: "SecretInput option"
  cfgPassword :: "SecretInput option"
  cfgAllowTailscale :: "bool option"
  cfgTrustedProxy :: "GatewayTrustedProxyConfig option"

datatype TailscaleMode = Ts_off | Ts_serve | Ts_funnel

definition no_auth_config :: GatewayAuthConfig where
  "no_auth_config = \<lparr>cfgMode = None, cfgToken = None, cfgPassword = None, cfgAllowTailscale = None, cfgTrustedProxy = None\<rparr>"

definition merge_auth_config :: "GatewayAuthConfig option \<Rightarrow> GatewayAuthConfig option \<Rightarrow> GatewayAuthConfig" where
  "merge_auth_config authConfig authOverride =
     (let base = nullish authConfig no_auth_config
      in case authOverride of None \<Rightarrow> base
         | Some ov \<Rightarrow> \<lparr>cfgMode = orElse (cfgMode ov) (cfgMode base), cfgToken = orElse (cfgToken ov) (cfgToken base),
             cfgPassword = orElse (cfgPassword ov) (cfgPassword base),
             cfgAllowTailscale = orElse (cfgAllowTailscale ov) (cfgAllowTailscale base),
             cfgTrustedProxy = orElse (cfgTrustedProxy ov) (cfgTrustedProxy base)\<rparr>)"

definition resolveGatewayAuth ::
    "GatewayAuthConfig option \<Rightarrow> GatewayAuthConfig option \<Rightarrow> (string \<Rightarrow> string option) \<Rightarrow> TailscaleMode option
      \<Rightarrow> ResolvedGatewayAuth" where
  "resolveGatewayAuth authConfig authOverride env tailscaleMode =
     (let cfg = merge_auth_config authConfig authOverride;
          creds = resolveGatewayCredentialsFromValues
            (if resolveSecretInputRef (cfgToken cfg) \<noteq> None then None else cfgToken cfg)
            (if resolveSecretInputRef (cfgPassword cfg) \<noteq> None then None else cfgPassword cfg)
            env (Some Config_first) (Some Config_first);
          token = fst creds; password = snd creds;
          (mode, source) =
            (case Option.bind authOverride cfgMode of
               Some m \<Rightarrow> (m, Ms_override)
             | None \<Rightarrow> (case cfgMode cfg of
                 Some m \<Rightarrow> (m, Ms_config)
               | None \<Rightarrow> if truthy password then (Am_password, Ms_password)
                   else if truthy token then (Am_token, Ms_token) else (Am_token, Ms_default)))
      in \<lparr>authMode = mode, modeSource = Some source, authToken = token, authPassword = password,
          allowTailscale = nullish (cfgAllowTailscale cfg)
            (tailscaleMode = Some Ts_serve \<and> mode \<noteq> Am_password \<and> mode \<noteq> Am_trusted_proxy),
          trustedProxy = cfgTrustedProxy cfg\<rparr>)"

definition resolveEffectiveSharedGatewayAuth ::
    "GatewayAuthConfig option \<Rightarrow> GatewayAuthConfig option \<Rightarrow> (string \<Rightarrow> string option) \<Rightarrow> TailscaleMode option
      \<Rightarrow> (AuthMode \<times> string option) option" where
  "resolveEffectiveSharedGatewayAuth authConfig authOverride env tailscaleMode =
     (let resolved = resolveGatewayAuth authConfig authOverride env tailscaleMode
      in if authMode resolved = Am_token then Some (Am_token, authToken resolved)
         else if authMode resolved = Am_password then Some (Am_password, authPassword resolved)
         else None)"

text \<open>The errors that stop the gateway from starting, one per message.\<close>

datatype AuthConfigError =
    Token_not_configured | Password_is_reference | Password_not_configured
  | Trusted_proxy_missing | User_header_empty | Token_beside_trusted_proxy

definition assertGatewayAuthConfigured :: "ResolvedGatewayAuth \<Rightarrow> GatewayAuthConfig option \<Rightarrow> AuthConfigError + unit" where
  "assertGatewayAuthConfigured a raw =
     (if authMode a = Am_token \<and> \<not> truthy (authToken a)
      then (if allowTailscale a then Inr () else Inl Token_not_configured)
      else if authMode a = Am_password \<and> \<not> truthy (authPassword a)
      then (case Option.bind raw cfgPassword of
              Some (SecretFields _) \<Rightarrow> Inl Password_is_reference | _ \<Rightarrow> Inl Password_not_configured)
      else if authMode a = Am_trusted_proxy
      then (case trustedProxy a of None \<Rightarrow> Inl Trusted_proxy_missing
            | Some tp \<Rightarrow>
              if userHeader tp = '''' \<or> js_trim (userHeader tp) = '''' then Inl User_header_empty
              else if truthy (authToken a) then Inl Token_beside_trusted_proxy else Inr ())
      else Inr ())"

text \<open>
  Where a resolved secret comes from: the environment, or a text of the configuration that is neither a
  reference nor contains one.
\<close>

definition secret_source :: "string \<Rightarrow> SecretInput option \<Rightarrow> string option \<Rightarrow> bool" where
  "secret_source s v e \<longleftrightarrow> s \<noteq> '''' \<and> js_trim s = s \<and> (normalizeOptionalString e = Some s \<or>
      (\<exists>t. v = Some (SecretText t) \<and> s = js_trim t \<and> \<not> containsEnvVarReference s))"

lemma normalized_trimmed: "normalizeOptionalString v = Some s \<Longrightarrow> s \<noteq> '''' \<and> js_trim s = s"
  by (auto simp: normalizeOptionalString_def normalizeNullableString_def orElse_def Let_def split: option.splits if_splits)

lemma credential_source:
  assumes "firstDefined [trimCredentialToUndefined v, normalizeOptionalString e] = Some s"
  shows "secret_source s v e"
proof -
  have "trimCredentialToUndefined v = Some s \<Longrightarrow> secret_source s v e"
  proof -
    assume "trimCredentialToUndefined v = Some s"
    then have n: "normalizeOptionalString (secret_text v) = Some s" "\<not> containsEnvVarReference s \<or> s = ''''"
      by (auto simp: trimCredentialToUndefined_def Let_def split: option.splits if_splits)
    with normalized_trimmed [OF n(1)] have "secret_text v \<noteq> None" "s = js_trim (the (secret_text v))"
      by (auto simp: normalizeOptionalString_def normalizeNullableString_def orElse_def Let_def split: option.splits if_splits)
    then obtain t where "v = Some (SecretText t)" "s = js_trim t"
      by (cases v) (auto simp: secret_text_def split: SecretInput.splits)
    with n normalized_trimmed [OF n(1)] show "secret_source s v e" by (auto simp: secret_source_def)
  qed
  moreover have "normalizeOptionalString e = Some s \<Longrightarrow> secret_source s v e"
    using normalized_trimmed by (simp add: secret_source_def)
  ultimately show ?thesis using assms by (auto simp: firstDefined_def split: if_splits)
qed

lemma resolved_secrets:
  fixes authConfig authOverride env tailscaleMode
  defines "cfg \<equiv> merge_auth_config authConfig authOverride" and "a \<equiv> resolveGatewayAuth authConfig authOverride env tailscaleMode"
  shows "authToken a = Some s \<Longrightarrow> secret_source s (cfgToken cfg) (env ''OPENCLAW_GATEWAY_TOKEN'')"
    and "authPassword a = Some s \<Longrightarrow> secret_source s (cfgPassword cfg) (env ''OPENCLAW_GATEWAY_PASSWORD'')"
proof -
  have weaken: "secret_source s (if P then None else v) e \<Longrightarrow> secret_source s v e" for P v e
    by (auto simp: secret_source_def split: if_splits)
  have "authToken a = firstDefined [trimCredentialToUndefined
      (if resolveSecretInputRef (cfgToken cfg) \<noteq> None then None else cfgToken cfg),
      normalizeOptionalString (env ''OPENCLAW_GATEWAY_TOKEN'')]"
    by (simp add: a_def cfg_def resolveGatewayAuth_def resolveGatewayCredentialsFromValues_def Let_def case_prod_unfold)
  then show "authToken a = Some s \<Longrightarrow> secret_source s (cfgToken cfg) (env ''OPENCLAW_GATEWAY_TOKEN'')"
    using weaken credential_source by metis
  have "authPassword a = firstDefined [trimCredentialToUndefined
      (if resolveSecretInputRef (cfgPassword cfg) \<noteq> None then None else cfgPassword cfg),
      normalizeOptionalString (env ''OPENCLAW_GATEWAY_PASSWORD'')]"
    by (simp add: a_def cfg_def resolveGatewayAuth_def resolveGatewayCredentialsFromValues_def Let_def case_prod_unfold)
  then show "authPassword a = Some s \<Longrightarrow> secret_source s (cfgPassword cfg) (env ''OPENCLAW_GATEWAY_PASSWORD'')"
    using weaken credential_source by metis
qed

text \<open>What the core answers to a request that presents a secret, in the two modes that know one.\<close>

lemma explicit_skips_tailscale:
  assumes "hasExplicitSharedSecretAuth (connectAuth p)" "authMode (auth p) = Am_token \<or> authMode (auth p) = Am_password"
  shows "fst (authorizeGatewayConnectCore lib now p None) = Answered (fst (authorize_secret lib now p None))"
  using assms by (auto simp: authorizeGatewayConnectCore_def asks_tailscale_def case_prod_unfold)

lemma explicit_token_answer:
  assumes "authMode (auth p) = Am_token" "Option.bind (connectAuth p) connectToken = Some g" "g \<noteq> ''''"
    "\<And>s. authToken (auth p) = Some s \<Longrightarrow> s \<noteq> ''''"
  shows "auth_ok (fst (authorize_secret lib now p None)) \<longleftrightarrow> (\<exists>s. authToken (auth p) = Some s \<and> sha256 lib g = sha256 lib s)"
  using assms by (cases "authToken (auth p)")
    (auto simp: authorize_secret_def authorizeTokenAuth_def truthy_def denied_def granted_def safeEqualSecret_def)

lemma explicit_password_answer:
  assumes "authMode (auth p) = Am_password" "Option.bind (connectAuth p) connectPassword = Some g" "g \<noteq> ''''"
    "\<And>s. authPassword (auth p) = Some s \<Longrightarrow> s \<noteq> ''''"
  shows "auth_ok (fst (authorize_secret lib now p None)) \<longleftrightarrow> (\<exists>s. authPassword (auth p) = Some s \<and> sha256 lib g = sha256 lib s)"
  using assms by (cases "authPassword (auth p)")
    (auto simp: authorize_secret_def authorizePasswordAuth_def truthy_def denied_def granted_def safeEqualSecret_def)

lemma configured_secret:
  assumes "assertGatewayAuthConfigured a raw = Inr ()"
  shows "authMode a = Am_token \<Longrightarrow> authToken a = None \<Longrightarrow> allowTailscale a"
    and "authMode a = Am_password \<Longrightarrow> authPassword a \<noteq> None"
  using assms by (auto simp: assertGatewayAuthConfigured_def truthy_def split: if_splits option.splits SecretInput.splits)

text \<open>
  A gateway that starts is closed: when the configuration passes its check in the token mode, a client
  that presents a token is let in exactly when a token is configured and the digests agree; in the password
  mode there is always a password, and the same holds of it. The secret the client must know is not
  empty and trimmed, and comes from the environment or from a text of the configuration that contains
  no reference. The token may be missing only when Tailscale is allowed, and then no token opens the gateway.
\<close>

theorem started_gateway_closed:
  assumes "assertGatewayAuthConfigured (resolveGatewayAuth authConfig authOverride env tailscaleMode) raw = Inr ()"
    "auth p = resolveGatewayAuth authConfig authOverride env tailscaleMode"
    "hasExplicitSharedSecretAuth (connectAuth p)" "g \<noteq> ''''"
  shows "(authMode (auth p) = Am_token \<and> Option.bind (connectAuth p) connectToken = Some g \<longrightarrow>
      (\<exists>r. fst (authorizeGatewayConnectCore lib now p None) = Answered r
        \<and> (case authToken (auth p) of None \<Rightarrow> allowTailscale (auth p) \<and> \<not> auth_ok r
           | Some s \<Rightarrow> secret_source s (cfgToken (merge_auth_config authConfig authOverride)) (env ''OPENCLAW_GATEWAY_TOKEN'')
               \<and> (auth_ok r \<longleftrightarrow> sha256 lib g = sha256 lib s))))
    \<and> (authMode (auth p) = Am_password \<and> Option.bind (connectAuth p) connectPassword = Some g \<longrightarrow>
      (\<exists>r s. fst (authorizeGatewayConnectCore lib now p None) = Answered r \<and> authPassword (auth p) = Some s
        \<and> secret_source s (cfgPassword (merge_auth_config authConfig authOverride)) (env ''OPENCLAW_GATEWAY_PASSWORD'')
        \<and> (auth_ok r \<longleftrightarrow> sha256 lib g = sha256 lib s)))"
proof (rule conjI)
  note source = resolved_secrets [of authConfig authOverride env tailscaleMode, folded assms(2)]
  note configured = configured_secret [OF assms(1), folded assms(2)]
  have nonempty: "authToken (auth p) = Some s \<Longrightarrow> s \<noteq> ''''" "authPassword (auth p) = Some s \<Longrightarrow> s \<noteq> ''''" for s
    using source by (auto simp: secret_source_def)
  show "authMode (auth p) = Am_token \<and> Option.bind (connectAuth p) connectToken = Some g \<longrightarrow>
      (\<exists>r. fst (authorizeGatewayConnectCore lib now p None) = Answered r
        \<and> (case authToken (auth p) of None \<Rightarrow> allowTailscale (auth p) \<and> \<not> auth_ok r
           | Some s \<Rightarrow> secret_source s (cfgToken (merge_auth_config authConfig authOverride)) (env ''OPENCLAW_GATEWAY_TOKEN'')
               \<and> (auth_ok r \<longleftrightarrow> sha256 lib g = sha256 lib s)))"
  proof (intro impI, elim conjE)
    assume t: "authMode (auth p) = Am_token" "Option.bind (connectAuth p) connectToken = Some g"
    note explicit_token_answer [OF t assms(4) nonempty(1), of lib now]
    with explicit_skips_tailscale [OF assms(3) disjI1, OF t(1), of lib now] source(1) configured(1) [OF t(1)]
    show "\<exists>r. fst (authorizeGatewayConnectCore lib now p None) = Answered r
        \<and> (case authToken (auth p) of None \<Rightarrow> allowTailscale (auth p) \<and> \<not> auth_ok r
           | Some s \<Rightarrow> secret_source s (cfgToken (merge_auth_config authConfig authOverride)) (env ''OPENCLAW_GATEWAY_TOKEN'')
               \<and> (auth_ok r \<longleftrightarrow> sha256 lib g = sha256 lib s))"
      by (cases "authToken (auth p)") simp_all
  qed
  show "authMode (auth p) = Am_password \<and> Option.bind (connectAuth p) connectPassword = Some g \<longrightarrow>
      (\<exists>r s. fst (authorizeGatewayConnectCore lib now p None) = Answered r \<and> authPassword (auth p) = Some s
        \<and> secret_source s (cfgPassword (merge_auth_config authConfig authOverride)) (env ''OPENCLAW_GATEWAY_PASSWORD'')
        \<and> (auth_ok r \<longleftrightarrow> sha256 lib g = sha256 lib s))"
  proof (intro impI, elim conjE)
    assume t: "authMode (auth p) = Am_password" "Option.bind (connectAuth p) connectPassword = Some g"
    note explicit_password_answer [OF t assms(4) nonempty(2), of lib now]
    with explicit_skips_tailscale [OF assms(3) disjI2, OF t(1), of lib now] source(2) configured(2) [OF t(1)]
    show "\<exists>r s. fst (authorizeGatewayConnectCore lib now p None) = Answered r \<and> authPassword (auth p) = Some s
        \<and> secret_source s (cfgPassword (merge_auth_config authConfig authOverride)) (env ''OPENCLAW_GATEWAY_PASSWORD'')
        \<and> (auth_ok r \<longleftrightarrow> sha256 lib g = sha256 lib s)"
      by (cases "authPassword (auth p)") simp_all
  qed
qed

text \<open>A gateway whose configuration holds a reference, and whose token comes from the environment.\<close>

definition example_gateway_config :: GatewayAuthConfig where
  "example_gateway_config = \<lparr>cfgMode = None, cfgToken = Some (SecretText ''a${B}c''), cfgPassword = None,
     cfgAllowTailscale = None, cfgTrustedProxy = None\<rparr>"

definition example_gateway_env :: "string \<Rightarrow> string option" where
  "example_gateway_env v = (if v = ''OPENCLAW_GATEWAY_TOKEN'' then Some '' s3cret '' else None)"

theorem started_gateway_closed_witness:
  "\<exists>r. fst (authorizeGatewayConnectCore example_lib 5
      ((example_login ''guess'')\<lparr>auth := resolveGatewayAuth (Some example_gateway_config) None example_gateway_env None\<rparr>) None)
    = Answered r \<and> \<not> auth_ok r"
proof -
  define p where "p = (example_login ''guess'')\<lparr>auth := resolveGatewayAuth (Some example_gateway_config) None example_gateway_env None\<rparr>"
  have a: "auth p = resolveGatewayAuth (Some example_gateway_config) None example_gateway_env None" by (simp add: p_def)
  have "assertGatewayAuthConfigured (resolveGatewayAuth (Some example_gateway_config) None example_gateway_env None) None = Inr ()"
    by code_simp
  moreover have m: "authMode (resolveGatewayAuth (Some example_gateway_config) None example_gateway_env None) = Am_token"
    "authToken (resolveGatewayAuth (Some example_gateway_config) None example_gateway_env None) = Some ''s3cret''"
    by code_simp+
  moreover have "hasExplicitSharedSecretAuth (connectAuth p)" unfolding p_def by code_simp
  moreover have "Option.bind (connectAuth p) connectToken = Some ''guess''" by (simp add: p_def example_login_def)
  ultimately obtain r where "fst (authorizeGatewayConnectCore example_lib 5 p None) = Answered r"
      "auth_ok r \<longleftrightarrow> sha256 example_lib ''guess'' = sha256 example_lib ''s3cret''"
    using started_gateway_closed [where raw = None and p = p and g = "''guess''" and lib = example_lib and now = 5, OF _ a]
    by (auto simp: a)
  then show ?thesis by (auto simp: p_def example_lib_def)
qed

end
