(* ===== verification/DeviceScopes.thy ===== *)
theory DeviceScopes
  imports DeliveryContexts
begin

text \<open>
  Scopes of device tokens: \<open>src/shared/device-auth.ts\<close>, \<open>src/shared/operator-scope-compat.ts\<close> and
  \<open>src/shared/device-bootstrap-profile.ts\<close>. An operator scope can be satisfied by a stronger one; a scope
  of another role only by itself.
\<close>

definition OPERATOR_ROLE :: string where "OPERATOR_ROLE = ''operator''"
definition OPERATOR_ADMIN_SCOPE :: string where "OPERATOR_ADMIN_SCOPE = ''operator.admin''"
definition OPERATOR_READ_SCOPE :: string where "OPERATOR_READ_SCOPE = ''operator.read''"
definition OPERATOR_WRITE_SCOPE :: string where "OPERATOR_WRITE_SCOPE = ''operator.write''"
definition OPERATOR_SCOPE_PREFIX :: string where "OPERATOR_SCOPE_PREFIX = ''operator.''"

lemmas scope_names = OPERATOR_ROLE_def OPERATOR_ADMIN_SCOPE_def OPERATOR_READ_SCOPE_def OPERATOR_WRITE_SCOPE_def
  OPERATOR_SCOPE_PREFIX_def

section \<open>Lists of scopes\<close>

text \<open>Trimmed and not empty entries, each once, in the order of their first occurrence.\<close>

definition add_trimmed :: "string \<Rightarrow> string list \<Rightarrow> string list" where
  "add_trimmed s out = (let trimmed = js_trim s in if trimmed \<noteq> '''' then set_add trimmed out else out)"

definition normalizeScopeList :: "string list \<Rightarrow> string list" where
  "normalizeScopeList scopes = fold add_trimmed scopes []"

definition normalizeDeviceAuthRole :: "string \<Rightarrow> string" where
  "normalizeDeviceAuthRole role = js_trim role"

definition normalizeDeviceAuthScopes :: "string list option \<Rightarrow> string list" where
  "normalizeDeviceAuthScopes scopes = (case scopes of None \<Rightarrow> []
     | Some xs \<Rightarrow>
       (let out = fold add_trimmed xs [];
            out1 = (if OPERATOR_ADMIN_SCOPE \<in> set out
              then set_add OPERATOR_WRITE_SCOPE (set_add OPERATOR_READ_SCOPE out)
              else if OPERATOR_WRITE_SCOPE \<in> set out then set_add OPERATOR_READ_SCOPE out else out)
        in sort out1))"

definition trimmed :: "string list \<Rightarrow> string set" where
  "trimmed xs = set (filter (\<lambda>s. s \<noteq> '''') (map js_trim xs))"

lemma set_fold_add_trimmed: "set (fold add_trimmed xs out) = set out \<union> trimmed xs"
  by (induction xs arbitrary: out) (auto simp: add_trimmed_def trimmed_def Let_def)

lemma set_normalizeScopeList: "set (normalizeScopeList xs) = trimmed xs"
  by (simp add: normalizeScopeList_def set_fold_add_trimmed)

lemma trimmed_fixed: "s \<in> trimmed xs \<Longrightarrow> js_trim s = s \<and> s \<noteq> ''''"
  by (auto simp: trimmed_def)

lemma trimmed_simps [simp]:
  "trimmed [] = {}" "trimmed (x # xs) = (if js_trim x = '''' then {} else {js_trim x}) \<union> trimmed xs"
  "trimmed (xs @ ys) = trimmed xs \<union> trimmed ys"
  by (auto simp: trimmed_def)

lemma trimmed_mono: "set xs \<subseteq> set ys \<Longrightarrow> trimmed xs \<subseteq> trimmed ys"
  by (auto simp: trimmed_def)

section \<open>Satisfied scopes\<close>

definition operatorScopeSatisfied :: "string \<Rightarrow> string set \<Rightarrow> bool" where
  "operatorScopeSatisfied requestedScope granted =
     (if \<not> starts_with OPERATOR_SCOPE_PREFIX requestedScope then False
      else if OPERATOR_ADMIN_SCOPE \<in> granted then True
      else if requestedScope = OPERATOR_READ_SCOPE
      then OPERATOR_READ_SCOPE \<in> granted \<or> OPERATOR_WRITE_SCOPE \<in> granted
      else if requestedScope = OPERATOR_WRITE_SCOPE then OPERATOR_WRITE_SCOPE \<in> granted
      else requestedScope \<in> granted)"

definition roleScopesAllow :: "string \<Rightarrow> string list \<Rightarrow> string list \<Rightarrow> bool" where
  "roleScopesAllow role requestedScopes allowedScopes =
     (let requested = normalizeScopeList requestedScopes; allowed = normalizeScopeList allowedScopes
      in if requested = [] then True
         else if allowed = [] then False
         else if js_trim role \<noteq> OPERATOR_ROLE
         then list_all (\<lambda>s. starts_with (js_trim role @ ''.'') s \<and> s \<in> set allowed) requested
         else list_all (\<lambda>s. operatorScopeSatisfied s (set allowed)) requested)"

definition resolveMissingRequestedScope :: "string \<Rightarrow> string list \<Rightarrow> string list \<Rightarrow> string option" where
  "resolveMissingRequestedScope role requestedScopes allowedScopes =
     List.find (\<lambda>s. \<not> roleScopesAllow role [s] allowedScopes) requestedScopes"

definition resolveScopeOutsideRequestedRoles :: "string list \<Rightarrow> string list \<Rightarrow> string option" where
  "resolveScopeOutsideRequestedRoles requestedRoles requestedScopes =
     List.find (\<lambda>s. \<not> list_ex (\<lambda>role. roleScopesAllow role [s] [s]) requestedRoles) requestedScopes"

section \<open>What a relation of scopes promises\<close>

text \<open>
  A scope that is satisfied by some granted scopes is satisfied by one of them, more grants do no harm, and
  what satisfies is passed on. So whoever can vouch for each of the grants can vouch for what they satisfy.
\<close>

locale scope_relation =
  fixes sat :: "string \<Rightarrow> string set \<Rightarrow> bool"
  assumes sat_one: "sat s G \<Longrightarrow> \<exists>g \<in> G. sat s {g}"
    and sat_mono: "sat s G \<Longrightarrow> G \<subseteq> H \<Longrightarrow> sat s H"
    and sat_trans: "sat s {g} \<Longrightarrow> sat g H \<Longrightarrow> sat s H"
begin

lemma vouched:
  assumes "sat s G" "\<And>g. g \<in> G \<Longrightarrow> sat s {g} \<Longrightarrow> \<exists>H \<in> K. sat g H"
  shows "\<exists>H \<in> K. sat s H"
  using assms sat_one sat_trans by meson

lemma vouched_chain:
  assumes "sat s G" "\<And>g. g \<in> G \<Longrightarrow> sat s {g} \<Longrightarrow> sat g H"
  shows "sat s H"
  using assms sat_one sat_trans by meson

end

definition role_scope_satisfied :: "string \<Rightarrow> string \<Rightarrow> string set \<Rightarrow> bool" where
  "role_scope_satisfied role s G = (if js_trim role = OPERATOR_ROLE then operatorScopeSatisfied s G
     else starts_with (js_trim role @ ''.'') s \<and> s \<in> G)"

lemma scopes_distinct [simp]:
  "OPERATOR_ADMIN_SCOPE \<noteq> OPERATOR_READ_SCOPE" "OPERATOR_ADMIN_SCOPE \<noteq> OPERATOR_WRITE_SCOPE"
  "OPERATOR_READ_SCOPE \<noteq> OPERATOR_ADMIN_SCOPE" "OPERATOR_WRITE_SCOPE \<noteq> OPERATOR_ADMIN_SCOPE"
  "OPERATOR_READ_SCOPE \<noteq> OPERATOR_WRITE_SCOPE" "OPERATOR_WRITE_SCOPE \<noteq> OPERATOR_READ_SCOPE"
  by (simp_all add: scope_names)

lemma scopes_prefixed [simp]:
  "starts_with OPERATOR_SCOPE_PREFIX OPERATOR_ADMIN_SCOPE" "starts_with OPERATOR_SCOPE_PREFIX OPERATOR_READ_SCOPE"
  "starts_with OPERATOR_SCOPE_PREFIX OPERATOR_WRITE_SCOPE"
  by (simp_all add: scope_names)

interpretation operator_scopes: scope_relation operatorScopeSatisfied
proof
  show "operatorScopeSatisfied s G \<Longrightarrow> \<exists>g \<in> G. operatorScopeSatisfied s {g}" for s G
    by (simp add: operatorScopeSatisfied_def split: if_splits) blast+
  show "operatorScopeSatisfied s G \<Longrightarrow> G \<subseteq> H \<Longrightarrow> operatorScopeSatisfied s H" for s G H
    by (simp add: operatorScopeSatisfied_def split: if_splits) blast+
  show "operatorScopeSatisfied s {g} \<Longrightarrow> operatorScopeSatisfied g H \<Longrightarrow> operatorScopeSatisfied s H" for s g H
    by (auto simp: operatorScopeSatisfied_def split: if_splits)
qed

interpretation role_scopes: scope_relation "role_scope_satisfied role"
proof
  show "role_scope_satisfied role s G \<Longrightarrow> \<exists>g \<in> G. role_scope_satisfied role s {g}" for s G
    using operator_scopes.sat_one [of s G] by (auto simp: role_scope_satisfied_def split: if_splits)
  show "role_scope_satisfied role s G \<Longrightarrow> G \<subseteq> H \<Longrightarrow> role_scope_satisfied role s H" for s G H
    using operator_scopes.sat_mono [of s G H] by (auto simp: role_scope_satisfied_def split: if_splits)
  show "role_scope_satisfied role s {g} \<Longrightarrow> role_scope_satisfied role g H \<Longrightarrow> role_scope_satisfied role s H" for s g H
    using operator_scopes.sat_trans [of s g H] by (auto simp: role_scope_satisfied_def split: if_splits)
qed

lemma operator_sat_scope: "operatorScopeSatisfied s G \<Longrightarrow> starts_with OPERATOR_SCOPE_PREFIX s"
  by (simp add: operatorScopeSatisfied_def split: if_splits)

lemma operator_sat_refl: "starts_with OPERATOR_SCOPE_PREFIX s \<Longrightarrow> s \<in> G \<Longrightarrow> operatorScopeSatisfied s G"
  by (auto simp: operatorScopeSatisfied_def)

lemma roleScopesAllow_iff:
  "roleScopesAllow role requested allowed \<longleftrightarrow> (\<forall>s \<in> trimmed requested. role_scope_satisfied role s (trimmed allowed))"
proof -
  have empty: "\<not> role_scope_satisfied role s {}" for s
    by (auto simp: role_scope_satisfied_def operatorScopeSatisfied_def)
  have "normalizeScopeList xs = [] \<longleftrightarrow> trimmed xs = {}" for xs
    by (simp add: set_normalizeScopeList [symmetric])
  then show ?thesis using empty
    by (auto simp: roleScopesAllow_def Let_def list_all_iff set_normalizeScopeList role_scope_satisfied_def)
qed

text \<open>Normal lists contain what their strongest scope implies, so that they satisfy no more than the list.\<close>

lemma set_normalizeDeviceAuthScopes:
  "set (normalizeDeviceAuthScopes (Some xs)) = trimmed xs
     \<union> (if OPERATOR_ADMIN_SCOPE \<in> trimmed xs then {OPERATOR_READ_SCOPE, OPERATOR_WRITE_SCOPE} else {})
     \<union> (if OPERATOR_WRITE_SCOPE \<in> trimmed xs then {OPERATOR_READ_SCOPE} else {})"
  by (auto simp: normalizeDeviceAuthScopes_def Let_def set_fold_add_trimmed)

definition implied_scopes :: "string \<Rightarrow> string set" where
  "implied_scopes s = insert s (if s = OPERATOR_ADMIN_SCOPE then {OPERATOR_READ_SCOPE, OPERATOR_WRITE_SCOPE}
     else if s = OPERATOR_WRITE_SCOPE then {OPERATOR_READ_SCOPE} else {})"

lemma normalized_implied: "set (normalizeDeviceAuthScopes (Some xs)) = \<Union> (implied_scopes ` trimmed xs)"
  unfolding set_normalizeDeviceAuthScopes
  by (auto simp: implied_scopes_def split: if_splits)

lemma normalizeDeviceAuthScopes_None [simp]: "normalizeDeviceAuthScopes None = []"
  by (simp add: normalizeDeviceAuthScopes_def)

lemma normalized_fixed: "s \<in> set (normalizeDeviceAuthScopes xs) \<Longrightarrow> js_trim s = s \<and> s \<noteq> ''''"
proof (cases xs)
  case (Some ys)
  assume "s \<in> set (normalizeDeviceAuthScopes xs)"
  moreover have "js_trim x = x \<and> x \<noteq> ''''" if "x \<in> {OPERATOR_READ_SCOPE, OPERATOR_WRITE_SCOPE}" for x
    using that by (elim insertE emptyE) (simp_all only:, (unfold scope_names), code_simp+)
  ultimately show ?thesis using trimmed_fixed [of s ys]
    by (auto simp: Some set_normalizeDeviceAuthScopes split: if_splits)
qed simp

lemma trimmed_normalized: "trimmed (normalizeDeviceAuthScopes xs) = set (normalizeDeviceAuthScopes xs)"
  using normalized_fixed by (auto simp: trimmed_def)

lemma operator_sat_normalized:
  "operatorScopeSatisfied s (set (normalizeDeviceAuthScopes (Some xs))) \<longleftrightarrow> operatorScopeSatisfied s (trimmed xs)"
  by (auto simp: set_normalizeDeviceAuthScopes operatorScopeSatisfied_def)

lemma normalized_sat:
  assumes "s \<in> set (normalizeDeviceAuthScopes (Some xs))" "starts_with OPERATOR_SCOPE_PREFIX s"
  shows "operatorScopeSatisfied s (trimmed xs)"
  using operator_sat_refl [OF assms(2,1)] by (simp only: operator_sat_normalized)

lemma normalized_other:
  assumes "s \<in> set (normalizeDeviceAuthScopes (Some xs))" "\<not> starts_with OPERATOR_SCOPE_PREFIX s"
  shows "s \<in> trimmed xs"
  using assms by (auto simp: set_normalizeDeviceAuthScopes split: if_splits)

section \<open>Profiles of bootstrap tokens\<close>

record DeviceBootstrapProfile =
  profileRoles :: "string list"
  profileScopes :: "string list"

record DeviceBootstrapProfileInput =
  inputRoles :: "string list option"
  inputScopes :: "string list option"

definition BOOTSTRAP_HANDOFF_OPERATOR_SCOPES :: "string list" where
  "BOOTSTRAP_HANDOFF_OPERATOR_SCOPES =
     [''operator.approvals'', ''operator.read'', ''operator.talk.secrets'', ''operator.write'']"

definition PAIRING_SETUP_BOOTSTRAP_PROFILE :: DeviceBootstrapProfile where
  "PAIRING_SETUP_BOOTSTRAP_PROFILE =
     \<lparr>profileRoles = [''node'', ''operator''], profileScopes = BOOTSTRAP_HANDOFF_OPERATOR_SCOPES\<rparr>"

definition resolveBootstrapProfileScopesForRole :: "string \<Rightarrow> string list \<Rightarrow> string list" where
  "resolveBootstrapProfileScopesForRole role scopes =
     (let normalizedRole = normalizeDeviceAuthRole role; normalizedScopes = normalizeDeviceAuthScopes (Some scopes)
      in if normalizedRole = ''operator''
         then filter (\<lambda>s. s \<in> set BOOTSTRAP_HANDOFF_OPERATOR_SCOPES) normalizedScopes else [])"

definition normalizeBootstrapRoles :: "string list option \<Rightarrow> string list" where
  "normalizeBootstrapRoles roles = (case roles of None \<Rightarrow> []
     | Some rs \<Rightarrow> sort (fold (\<lambda>role out. let normalized = normalizeDeviceAuthRole role
         in if normalized \<noteq> '''' then set_add normalized out else out) rs []))"

definition normalizeDeviceBootstrapProfile :: "DeviceBootstrapProfileInput option \<Rightarrow> DeviceBootstrapProfile" where
  "normalizeDeviceBootstrapProfile input =
     \<lparr>profileRoles = normalizeBootstrapRoles (Option.bind input inputRoles),
      profileScopes = normalizeDeviceAuthScopes (Some (nullish (Option.bind input inputScopes) []))\<rparr>"

end
