(* ===== verification/DevicePairing.thy ===== *)
theory DevicePairing
  imports GatewayAuth DeviceScopes
begin

text \<open>
  The pairing of devices, \<open>src/infra/device-pairing.ts\<close> with \<open>pairing-files.ts\<close>, \<open>pairing-pending.ts\<close> and
  \<open>pairing-token.ts\<close>: requests that wait for an approval, paired devices and their tokens. Every
  operation that writes runs under a lock, so that it is one step from the files to the files; the
  state of the files is a record. The clock and the random values are a record of parameters; the clock
  does not advance within an operation.
\<close>

section \<open>Data\<close>

text \<open>What a device sends, and the request that is kept of it.\<close>

record DevicePairingDetails =
  deviceIdQ :: string
  publicKeyQ :: string
  displayNameQ :: "string option"
  platformQ :: "string option"
  deviceFamilyQ :: "string option"
  clientIdQ :: "string option"
  clientModeQ :: "string option"
  roleQ :: "string option"
  rolesQ :: "string list option"
  scopesQ :: "string list option"
  remoteIpQ :: "string option"
  silentQ :: "bool option"

record DevicePairingPendingRequest = DevicePairingDetails +
  requestIdQ :: string
  isRepairQ :: bool
  tsQ :: int

record DeviceAuthToken =
  tokenT :: string
  roleT :: string
  scopesT :: "string list"
  createdAtMsT :: int
  rotatedAtMsT :: "int option"
  revokedAtMsT :: "int option"
  lastUsedAtMsT :: "int option"

record PairedDevice =
  deviceIdD :: string
  publicKeyD :: string
  displayNameD :: "string option"
  platformD :: "string option"
  deviceFamilyD :: "string option"
  clientIdD :: "string option"
  clientModeD :: "string option"
  roleD :: "string option"
  rolesD :: "string list option"
  scopesD :: "string list option"
  approvedScopesD :: "string list option"
  remoteIpD :: "string option"
  tokensD :: "(string \<times> DeviceAuthToken) list option"
  createdAtMsD :: int
  approvedAtMsD :: int

record DevicePairingStateFile =
  pendingById :: "(string \<times> DevicePairingPendingRequest) list"
  pairedByDeviceId :: "(string \<times> PairedDevice) list"

text \<open>The clock, \<open>randomUUID\<close>, and the tokens that are generated in one operation, one for each role.\<close>

record PairingEnv =
  nowE :: int
  uuidE :: string
  newTokenE :: "string \<Rightarrow> string"

datatype RotateDeviceTokenDenyReason =
  Unknown_device_or_role | Missing_approved_scope_baseline | Scope_outside_approved_baseline

datatype DevicePairingForbiddenReason =
    Caller_scopes_required | Caller_missing_scope | Scope_outside_requested_roles
  | Bootstrap_role_not_allowed | Bootstrap_scope_not_allowed

datatype ApproveDevicePairingResult =
    Pairing_approved string PairedDevice
  | Pairing_forbidden DevicePairingForbiddenReason string

text \<open>A refusal names the scope or the role; the message is made of it.\<close>

definition formatDevicePairingForbiddenMessage :: "DevicePairingForbiddenReason \<Rightarrow> string option \<Rightarrow> string" where
  "formatDevicePairingForbiddenMessage reason what = (case reason of
     Caller_scopes_required \<Rightarrow> ''missing scope: '' @ nullish what ''callerScopes-required''
   | Caller_missing_scope \<Rightarrow> ''missing scope: '' @ nullish what ''unknown''
   | Scope_outside_requested_roles \<Rightarrow> ''invalid scope for requested roles: '' @ nullish what ''unknown''
   | Bootstrap_role_not_allowed \<Rightarrow> ''bootstrap profile does not allow role: '' @ nullish what ''unknown''
   | Bootstrap_scope_not_allowed \<Rightarrow> ''bootstrap profile does not allow scope: '' @ nullish what ''unknown'')"

definition PENDING_TTL_MS :: int where "PENDING_TTL_MS = 5 * 60 * 1000"

section \<open>The files\<close>

definition pruneExpiredPending :: "('a \<Rightarrow> int) \<Rightarrow> int \<Rightarrow> int \<Rightarrow> (string \<times> 'a) list \<Rightarrow> (string \<times> 'a) list" where
  "pruneExpiredPending ts now ttl pending = filter (\<lambda>(id, r). \<not> now - ts r > ttl) pending"

definition loadState :: "int \<Rightarrow> DevicePairingStateFile \<Rightarrow> DevicePairingStateFile" where
  "loadState now disk = disk\<lparr>pendingById := pruneExpiredPending tsQ now PENDING_TTL_MS (pendingById disk)\<rparr>"

definition reconcilePendingPairingRequests ::
    "('p \<Rightarrow> string) \<Rightarrow> 'p list \<Rightarrow> 'i \<Rightarrow> ('p \<Rightarrow> 'i \<Rightarrow> bool) \<Rightarrow> ('p \<Rightarrow> 'i \<Rightarrow> 'p) \<Rightarrow> ('p list \<Rightarrow> 'i \<Rightarrow> 'p)
      \<Rightarrow> (string \<times> 'p) list \<Rightarrow> ('p \<times> bool) \<times> (string \<times> 'p) list" where
  "reconcilePendingPairingRequests idOf existing incoming canRefreshSingle refreshSingle buildReplacement pending =
     (if length existing = 1 \<and> canRefreshSingle (hd existing) incoming
      then let refreshed = refreshSingle (hd existing) incoming
           in ((refreshed, False), AList.update (idOf refreshed) refreshed pending)
      else let pending1 = fold (\<lambda>e. AList.delete (idOf e)) existing pending;
               request = buildReplacement existing incoming
           in ((request, True), AList.update (idOf request) request pending1))"

definition verifyPairingToken :: "'ip GatewayLib \<Rightarrow> string \<Rightarrow> string \<Rightarrow> bool" where
  "verifyPairingToken lib provided expected =
     (if length (js_trim provided) = 0 \<or> length (js_trim expected) = 0 then False
      else safeEqualSecret lib (Some provided) (Some expected))"

section \<open>Roles and scopes\<close>

definition normalizeDeviceId :: "string \<Rightarrow> string" where
  "normalizeDeviceId deviceId = js_trim deviceId"

definition normalizeRole :: "string option \<Rightarrow> string option" where
  "normalizeRole role = (case role of None \<Rightarrow> None
     | Some r \<Rightarrow> if js_trim r = '''' then None else Some (js_trim r))"

text \<open>A single role among the items counts as the list of it.\<close>

definition one_role :: "string option \<Rightarrow> string list option" where
  "one_role role = map_option (\<lambda>r. [r]) role"

definition mergeRoles :: "string list option list \<Rightarrow> string list option" where
  "mergeRoles items =
     (let roles = fold (\<lambda>item out. fold add_trimmed (nullish item []) out) items []
      in if roles = [] then None else Some roles)"

definition mergeScopes :: "string list option list \<Rightarrow> string list option" where
  "mergeScopes items =
     (let scopes = fold (\<lambda>item out. fold add_trimmed (nullish item []) out) items []
      in if scopes = [] then (if list_ex (\<lambda>item. item \<noteq> None) items then Some [] else None) else Some scopes)"

definition listActiveTokenRoles :: "(string \<times> DeviceAuthToken) list option \<Rightarrow> string list option" where
  "listActiveTokenRoles tokens = (case tokens of None \<Rightarrow> None
     | Some ts \<Rightarrow> mergeRoles [Some (map roleT (filter (\<lambda>e. \<not> truthy_num (revokedAtMsT e)) (map snd ts)))])"

definition listApprovedPairedDeviceRoles :: "PairedDevice \<Rightarrow> string list" where
  "listApprovedPairedDeviceRoles device = nullish (mergeRoles [rolesD device, one_role (roleD device)]) []"

definition listEffectivePairedDeviceRoles :: "PairedDevice \<Rightarrow> string list" where
  "listEffectivePairedDeviceRoles device = (case listActiveTokenRoles (tokensD device) of
     Some activeTokenRoles \<Rightarrow>
       if length activeTokenRoles > 0
       then filter (\<lambda>r. r \<in> set (listApprovedPairedDeviceRoles device)) activeTokenRoles else []
   | None \<Rightarrow> [])"

definition hasEffectivePairedDeviceRole :: "PairedDevice \<Rightarrow> string \<Rightarrow> bool" where
  "hasEffectivePairedDeviceRole device role \<longleftrightarrow> (case normalizeRole (Some role) of None \<Rightarrow> False
     | Some normalized \<Rightarrow> normalized \<in> set (listEffectivePairedDeviceRoles device))"

definition sameStringSet :: "string list \<Rightarrow> string list \<Rightarrow> bool" where
  "sameStringSet left right \<longleftrightarrow> length left = length right \<and> list_all (\<lambda>v. v \<in> set right) left"

definition resolveRequestedRoles :: "'a DevicePairingDetails_scheme \<Rightarrow> string list" where
  "resolveRequestedRoles input = nullish (mergeRoles [rolesQ input, one_role (roleQ input)]) []"

definition resolveRequestedScopes :: "'a DevicePairingDetails_scheme \<Rightarrow> string list" where
  "resolveRequestedScopes input = normalizeDeviceAuthScopes (scopesQ input)"

definition resolveRoleScopedDeviceTokenScopes :: "string \<Rightarrow> string list option \<Rightarrow> string list" where
  "resolveRoleScopedDeviceTokenScopes role scopes =
     (let normalized = normalizeDeviceAuthScopes scopes
      in if role = ''operator'' then filter (\<lambda>s. starts_with OPERATOR_SCOPE_PREFIX s) normalized
         else filter (\<lambda>s. \<not> starts_with OPERATOR_SCOPE_PREFIX s) normalized)"

definition resolveApprovedTokenScopes ::
    "string \<Rightarrow> DevicePairingPendingRequest \<Rightarrow> DeviceAuthToken option \<Rightarrow> string list option \<Rightarrow> PairedDevice option
      \<Rightarrow> string list" where
  "resolveApprovedTokenScopes role pending existingToken approvedScopes existing =
     (let requestedScopes = resolveRoleScopedDeviceTokenScopes role (scopesQ pending)
      in if length requestedScopes > 0 then requestedScopes
         else resolveRoleScopedDeviceTokenScopes role
           (orElse (map_option scopesT existingToken) (orElse approvedScopes
             (orElse (Option.bind existing approvedScopesD) (Option.bind existing scopesD)))))"

definition approved_or_scopes :: "PairedDevice \<Rightarrow> string list option" where
  "approved_or_scopes device = orElse (approvedScopesD device) (scopesD device)"

definition resolveApprovedDeviceScopeBaseline :: "PairedDevice \<Rightarrow> string list option" where
  "resolveApprovedDeviceScopeBaseline device = (case approved_or_scopes device of None \<Rightarrow> None
     | Some baseline \<Rightarrow> Some (normalizeDeviceAuthScopes (Some baseline)))"

definition scopesWithinApprovedDeviceBaseline :: "string \<Rightarrow> string list \<Rightarrow> string list option \<Rightarrow> bool" where
  "scopesWithinApprovedDeviceBaseline role scopes approvedScopes = (case approvedScopes of None \<Rightarrow> False
     | Some approved \<Rightarrow> roleScopesAllow role scopes approved)"

section \<open>Requests\<close>

definition samePendingApprovalSnapshot :: "DevicePairingPendingRequest \<Rightarrow> DevicePairingDetails \<Rightarrow> bool" where
  "samePendingApprovalSnapshot existing incoming =
     (if publicKeyQ existing \<noteq> publicKeyQ incoming then False
      else if normalizeRole (roleQ existing) \<noteq> normalizeRole (roleQ incoming) then False
      else if \<not> sameStringSet (resolveRequestedRoles existing) (resolveRequestedRoles incoming)
        \<or> \<not> sameStringSet (resolveRequestedScopes existing) (resolveRequestedScopes incoming) then False
      else True)"

definition refreshPendingDevicePairingRequest ::
    "DevicePairingPendingRequest \<Rightarrow> DevicePairingDetails \<Rightarrow> bool \<Rightarrow> DevicePairingPendingRequest" where
  "refreshPendingDevicePairingRequest existing incoming isRepair = existing\<lparr>
     publicKeyQ := publicKeyQ incoming,
     displayNameQ := orElse (displayNameQ incoming) (displayNameQ existing),
     platformQ := orElse (platformQ incoming) (platformQ existing),
     deviceFamilyQ := orElse (deviceFamilyQ incoming) (deviceFamilyQ existing),
     clientIdQ := orElse (clientIdQ incoming) (clientIdQ existing),
     clientModeQ := orElse (clientModeQ incoming) (clientModeQ existing),
     remoteIpQ := orElse (remoteIpQ incoming) (remoteIpQ existing),
     silentQ := Some (silentQ existing = Some True \<and> silentQ incoming = Some True),
     isRepairQ := isRepairQ existing \<or> isRepair\<rparr>"

definition resolveSupersededPendingSilent :: "DevicePairingPendingRequest list \<Rightarrow> bool option \<Rightarrow> bool" where
  "resolveSupersededPendingSilent existing incomingSilent \<longleftrightarrow>
     incomingSilent = Some True \<and> list_all (\<lambda>pending. silentQ pending = Some True) existing"

definition buildPendingDevicePairingRequest ::
    "PairingEnv \<Rightarrow> string option \<Rightarrow> string \<Rightarrow> bool \<Rightarrow> DevicePairingDetails \<Rightarrow> DevicePairingPendingRequest" where
  "buildPendingDevicePairingRequest env requestId deviceId isRepair details =
     (let role = normalizeRole (roleQ details)
      in \<lparr>deviceIdQ = deviceId, publicKeyQ = publicKeyQ details, displayNameQ = displayNameQ details, platformQ = platformQ details,
          deviceFamilyQ = deviceFamilyQ details, clientIdQ = clientIdQ details, clientModeQ = clientModeQ details, roleQ = role,
          rolesQ = mergeRoles [rolesQ details, one_role role], scopesQ = mergeScopes [scopesQ details], remoteIpQ = remoteIpQ details,
          silentQ = silentQ details, requestIdQ = nullish requestId (uuidE env), isRepairQ = isRepair, tsQ = nowE env\<rparr>)"

text \<open>The requests of a device, the newest first.\<close>

definition pending_of :: "string \<Rightarrow> DevicePairingStateFile \<Rightarrow> DevicePairingPendingRequest list" where
  "pending_of deviceId st =
     sort_key (\<lambda>p. - tsQ p) (filter (\<lambda>p. deviceIdQ p = deviceId) (map snd (pendingById st)))"

definition build_replacement ::
    "PairingEnv \<Rightarrow> string \<Rightarrow> bool \<Rightarrow> DevicePairingPendingRequest list \<Rightarrow> DevicePairingDetails \<Rightarrow> DevicePairingPendingRequest" where
  "build_replacement env deviceId isRepair existing incoming =
     (let mergedRoles = mergeRoles (concat (map (\<lambda>p. [rolesQ p, one_role (roleQ p)]) existing)
            @ [rolesQ incoming, one_role (roleQ incoming)]);
          mergedScopes = mergeScopes (map scopesQ existing @ [scopesQ incoming])
      in buildPendingDevicePairingRequest env None deviceId isRepair (incoming\<lparr>
           roleQ := orElse (normalizeRole (roleQ incoming)) (case existing of [] \<Rightarrow> None | p # _ \<Rightarrow> roleQ p),
           rolesQ := mergedRoles, scopesQ := mergedScopes,
           silentQ := Some (resolveSupersededPendingSilent existing (silentQ incoming))\<rparr>))"

datatype PairingError = Device_id_required

definition requestDevicePairing ::
    "PairingEnv \<Rightarrow> DevicePairingDetails \<Rightarrow> DevicePairingStateFile
      \<Rightarrow> (PairingError + DevicePairingPendingRequest \<times> bool) \<times> DevicePairingStateFile" where
  "requestDevicePairing env details disk =
     (let st = loadState (nowE env) disk; deviceId = normalizeDeviceId (deviceIdQ details)
      in if deviceId = '''' then (Inl Device_id_required, disk)
         else let isRepair = (map_of (pairedByDeviceId st) deviceId \<noteq> None)
              in case reconcilePendingPairingRequests requestIdQ (pending_of deviceId st) details samePendingApprovalSnapshot
                  (\<lambda>existing incoming. refreshPendingDevicePairingRequest existing incoming isRepair)
                  (build_replacement env deviceId isRepair) (pendingById st)
                 of (result, pending) \<Rightarrow> (Inr result, st\<lparr>pendingById := pending\<rparr>))"


section \<open>Approval\<close>

definition approve_token ::
    "PairingEnv \<Rightarrow> DevicePairingPendingRequest \<Rightarrow> string list option \<Rightarrow> PairedDevice option \<Rightarrow> string
      \<Rightarrow> (string \<times> DeviceAuthToken) list \<Rightarrow> (string \<times> DeviceAuthToken) list" where
  "approve_token env pending approvedScopes existing role tokens =
     (let existingToken = map_of tokens role
      in AList.update role \<lparr>tokenT = newTokenE env role, roleT = role,
           scopesT = resolveApprovedTokenScopes role pending existingToken approvedScopes existing,
           createdAtMsT = nullish (map_option createdAtMsT existingToken) (nowE env),
           rotatedAtMsT = (if existingToken \<noteq> None then Some (nowE env) else None), revokedAtMsT = None,
           lastUsedAtMsT = Option.bind existingToken lastUsedAtMsT\<rparr> tokens)"

text \<open>The device that an approved request becomes.\<close>

definition approved_device ::
    "PairingEnv \<Rightarrow> DevicePairingPendingRequest \<Rightarrow> PairedDevice option \<Rightarrow> string list option \<Rightarrow> string list option
      \<Rightarrow> (string \<times> DeviceAuthToken) list \<Rightarrow> PairedDevice" where
  "approved_device env pending existing roles approvedScopes tokens =
     \<lparr>deviceIdD = deviceIdQ pending, publicKeyD = publicKeyQ pending, displayNameD = displayNameQ pending,
      platformD = platformQ pending, deviceFamilyD = deviceFamilyQ pending, clientIdD = clientIdQ pending,
      clientModeD = clientModeQ pending, roleD = roleQ pending, rolesD = roles, scopesD = approvedScopes,
      approvedScopesD = approvedScopes, remoteIpD = remoteIpQ pending, tokensD = Some tokens,
      createdAtMsD = nullish (map_option createdAtMsD existing) (nowE env), approvedAtMsD = nowE env\<rparr>"

definition store_approved ::
    "string \<Rightarrow> PairedDevice \<Rightarrow> DevicePairingStateFile \<Rightarrow> DevicePairingStateFile" where
  "store_approved requestId device st =
     st\<lparr>pendingById := AList.delete requestId (pendingById st),
        pairedByDeviceId := AList.update (deviceIdD device) device (pairedByDeviceId st)\<rparr>"

text \<open>The scopes of an operator that a request asks for, and why the caller may not approve it.\<close>

definition requested_operator_scopes :: "DevicePairingPendingRequest \<Rightarrow> string list" where
  "requested_operator_scopes pending =
     filter (\<lambda>s. starts_with OPERATOR_SCOPE_PREFIX s) (normalizeDeviceAuthScopes (scopesQ pending))"

definition approval_refused ::
    "DevicePairingPendingRequest \<Rightarrow> string list option \<Rightarrow> (DevicePairingForbiddenReason \<times> string) option" where
  "approval_refused pending callerScopes =
     (let requestedRoles = nullish (mergeRoles [rolesQ pending, one_role (roleQ pending)]) [];
          requestedScopes = normalizeDeviceAuthScopes (scopesQ pending)
      in case resolveScopeOutsideRequestedRoles requestedRoles requestedScopes of
           Some s \<Rightarrow> Some (Scope_outside_requested_roles, s)
         | None \<Rightarrow>
           (let operatorScopes = requested_operator_scopes pending
            in if length operatorScopes > 0
               then (case callerScopes of
                   None \<Rightarrow> Some (Caller_scopes_required, hd operatorScopes)
                 | Some held \<Rightarrow>
                   map_option (Pair Caller_missing_scope) (resolveMissingRequestedScope OPERATOR_ROLE operatorScopes held))
               else None))"

definition approveDevicePairing ::
    "PairingEnv \<Rightarrow> string \<Rightarrow> string list option \<Rightarrow> DevicePairingStateFile
      \<Rightarrow> ApproveDevicePairingResult option \<times> DevicePairingStateFile" where
  "approveDevicePairing env requestId callerScopes disk =
     (let st = loadState (nowE env) disk
      in case map_of (pendingById st) requestId of
           None \<Rightarrow> (None, disk)
         | Some pending \<Rightarrow>
           (case approval_refused pending callerScopes of
              Some (reason, what) \<Rightarrow> (Some (Pairing_forbidden reason what), disk)
            | None \<Rightarrow>
              (let requestedRoles = nullish (mergeRoles [rolesQ pending, one_role (roleQ pending)]) [];
                   existing = map_of (pairedByDeviceId st) (deviceIdQ pending);
                   roles = mergeRoles [Option.bind existing rolesD, one_role (Option.bind existing roleD),
                     rolesQ pending, one_role (roleQ pending)];
                   approvedScopes = mergeScopes [Option.bind existing approved_or_scopes, scopesQ pending];
                   tokens = fold (approve_token env pending approvedScopes existing) requestedRoles
                     (nullish (Option.bind existing tokensD) []);
                   device = approved_device env pending existing roles approvedScopes tokens
               in (Some (Pairing_approved requestId device), store_approved requestId device st))))"

definition buildDeviceAuthToken ::
    "PairingEnv \<Rightarrow> string \<Rightarrow> string list \<Rightarrow> DeviceAuthToken option \<Rightarrow> int option \<Rightarrow> DeviceAuthToken" where
  "buildDeviceAuthToken env role scopes existing rotatedAtMs =
     \<lparr>tokenT = newTokenE env role, roleT = role, scopesT = scopes,
      createdAtMsT = nullish (map_option createdAtMsT existing) (nowE env), rotatedAtMsT = rotatedAtMs,
      revokedAtMsT = None, lastUsedAtMsT = Option.bind existing lastUsedAtMsT\<rparr>"

definition bootstrap_token ::
    "PairingEnv \<Rightarrow> string list \<Rightarrow> string \<Rightarrow> (string \<times> DeviceAuthToken) list \<Rightarrow> (string \<times> DeviceAuthToken) list" where
  "bootstrap_token env approvedScopes role tokens =
     (let existingToken = map_of tokens role;
          tokenScopes = (if role = OPERATOR_ROLE then resolveBootstrapProfileScopesForRole role approvedScopes else [])
      in AList.update role (buildDeviceAuthToken env role tokenScopes existingToken
           (if existingToken \<noteq> None then Some (nowE env) else None)) tokens)"

definition bootstrap_refused ::
    "DevicePairingPendingRequest \<Rightarrow> string list \<Rightarrow> string list \<Rightarrow> (DevicePairingForbiddenReason \<times> string) option" where
  "bootstrap_refused pending approvedRoles approvedScopes =
     (case List.find (\<lambda>r. r \<notin> set approvedRoles) (resolveRequestedRoles pending) of
        Some r \<Rightarrow> Some (Bootstrap_role_not_allowed, r)
      | None \<Rightarrow> map_option (Pair Bootstrap_scope_not_allowed)
          (resolveMissingRequestedScope OPERATOR_ROLE (requested_operator_scopes pending) approvedScopes))"

definition approveBootstrapDevicePairing ::
    "PairingEnv \<Rightarrow> string \<Rightarrow> DeviceBootstrapProfile \<Rightarrow> DevicePairingStateFile
      \<Rightarrow> ApproveDevicePairingResult option \<times> DevicePairingStateFile" where
  "approveBootstrapDevicePairing env requestId bootstrapProfile disk =
     (let approvedRoles = nullish (mergeRoles [Some (profileRoles bootstrapProfile)]) [];
          approvedScopes = normalizeDeviceAuthScopes (Some (profileScopes bootstrapProfile));
          st = loadState (nowE env) disk
      in case map_of (pendingById st) requestId of
           None \<Rightarrow> (None, disk)
         | Some pending \<Rightarrow>
           (case bootstrap_refused pending approvedRoles approvedScopes of
              Some (reason, what) \<Rightarrow> (Some (Pairing_forbidden reason what), disk)
            | None \<Rightarrow>
              (let existing = map_of (pairedByDeviceId st) (deviceIdQ pending);
                   roles = mergeRoles [Option.bind existing rolesD, one_role (Option.bind existing roleD),
                     rolesQ pending, one_role (roleQ pending), Some approvedRoles];
                   nextApprovedScopes = mergeScopes [Option.bind existing approved_or_scopes, scopesQ pending,
                     Some approvedScopes];
                   tokens = fold (bootstrap_token env approvedScopes) approvedRoles
                     (nullish (Option.bind existing tokensD) []);
                   device = approved_device env pending existing roles nextApprovedScopes tokens
               in (Some (Pairing_approved requestId device), store_approved requestId device st))))"

section \<open>The other operations\<close>

text \<open>\<open>toSorted\<close> is stable.\<close>

definition listDevicePairing ::
    "int \<Rightarrow> DevicePairingStateFile \<Rightarrow> DevicePairingPendingRequest list \<times> PairedDevice list" where
  "listDevicePairing now disk =
     (let st = loadState now disk
      in (sort_key (\<lambda>p. - tsQ p) (map snd (pendingById st)), sort_key (\<lambda>d. - approvedAtMsD d) (map snd (pairedByDeviceId st))))"

definition getPairedDevice :: "int \<Rightarrow> string \<Rightarrow> DevicePairingStateFile \<Rightarrow> PairedDevice option" where
  "getPairedDevice now deviceId disk = map_of (pairedByDeviceId (loadState now disk)) (normalizeDeviceId deviceId)"

definition getPendingDevicePairing :: "int \<Rightarrow> string \<Rightarrow> DevicePairingStateFile \<Rightarrow> DevicePairingPendingRequest option" where
  "getPendingDevicePairing now requestId disk = map_of (pendingById (loadState now disk)) requestId"

definition rejectDevicePairing ::
    "int \<Rightarrow> string \<Rightarrow> DevicePairingStateFile \<Rightarrow> (string \<times> string) option \<times> DevicePairingStateFile" where
  "rejectDevicePairing now requestId disk =
     (let st = loadState now disk
      in case map_of (pendingById st) requestId of None \<Rightarrow> (None, disk)
         | Some pending \<Rightarrow> (Some (requestId, deviceIdQ pending), st\<lparr>pendingById := AList.delete requestId (pendingById st)\<rparr>))"

definition removePairedDevice ::
    "int \<Rightarrow> string \<Rightarrow> DevicePairingStateFile \<Rightarrow> string option \<times> DevicePairingStateFile" where
  "removePairedDevice now deviceId disk =
     (let st = loadState now disk; normalized = normalizeDeviceId deviceId
      in if normalized = '''' \<or> map_of (pairedByDeviceId st) normalized = None then (None, disk)
         else (Some normalized, st\<lparr>pairedByDeviceId := AList.delete normalized (pairedByDeviceId st)\<rparr>))"

definition clearDevicePairing :: "int \<Rightarrow> string \<Rightarrow> DevicePairingStateFile \<Rightarrow> bool \<times> DevicePairingStateFile" where
  "clearDevicePairing now deviceId disk =
     (let st = loadState now disk; normalizedId = normalizeDeviceId deviceId
      in if map_of (pairedByDeviceId st) normalizedId = None then (False, disk)
         else (True, st\<lparr>pairedByDeviceId := AList.delete normalizedId (pairedByDeviceId st)\<rparr>))"

text \<open>A field of the patch that is there sets its field, also to nothing.\<close>

record PairedDeviceMetadataPatch =
  displayNameM :: "string option option"
  clientIdM :: "string option option"
  clientModeM :: "string option option"
  remoteIpM :: "string option option"

definition updatePairedDeviceMetadata ::
    "int \<Rightarrow> string \<Rightarrow> PairedDeviceMetadataPatch \<Rightarrow> DevicePairingStateFile \<Rightarrow> DevicePairingStateFile" where
  "updatePairedDeviceMetadata now deviceId patch disk =
     (let st = loadState now disk; normalizedDeviceId = normalizeDeviceId deviceId
      in case map_of (pairedByDeviceId st) normalizedDeviceId of None \<Rightarrow> disk
         | Some existing \<Rightarrow>
           (let nextDevice = existing\<lparr>displayNameD := nullish (displayNameM patch) (displayNameD existing),
                  clientIdD := nullish (clientIdM patch) (clientIdD existing),
                  clientModeD := nullish (clientModeM patch) (clientModeD existing),
                  remoteIpD := nullish (remoteIpM patch) (remoteIpD existing)\<rparr>
            in st\<lparr>pairedByDeviceId := AList.update normalizedDeviceId nextDevice (pairedByDeviceId st)\<rparr>))"

text \<open>Writing a device with another token for a role.\<close>

definition store_token ::
    "PairedDevice \<Rightarrow> string \<Rightarrow> DeviceAuthToken \<Rightarrow> DevicePairingStateFile \<Rightarrow> DevicePairingStateFile" where
  "store_token device role token st = st\<lparr>pairedByDeviceId := AList.update (deviceIdD device)
     (device\<lparr>tokensD := Some (AList.update role token (nullish (tokensD device) []))\<rparr>) (pairedByDeviceId st)\<rparr>"

definition verifyDeviceToken ::
    "'ip GatewayLib \<Rightarrow> int \<Rightarrow> string \<Rightarrow> string \<Rightarrow> string \<Rightarrow> string list \<Rightarrow> DevicePairingStateFile
      \<Rightarrow> (string + unit) \<times> DevicePairingStateFile" where
  "verifyDeviceToken lib now deviceId token rawRole scopes disk =
     (let st = loadState now disk
      in case map_of (pairedByDeviceId st) (normalizeDeviceId deviceId) of
           None \<Rightarrow> (Inl ''device-not-paired'', disk)
         | Some device \<Rightarrow>
           (case normalizeRole (Some rawRole) of
              None \<Rightarrow> (Inl ''role-missing'', disk)
            | Some role \<Rightarrow>
              (case Option.bind (tokensD device) (\<lambda>ts. map_of ts role) of
                 None \<Rightarrow> (Inl ''token-missing'', disk)
               | Some entry \<Rightarrow>
                 if truthy_num (revokedAtMsT entry) then (Inl ''token-revoked'', disk)
                 else if \<not> verifyPairingToken lib token (tokenT entry) then (Inl ''token-mismatch'', disk)
                 else if \<not> scopesWithinApprovedDeviceBaseline role (scopesT entry) (resolveApprovedDeviceScopeBaseline device)
                 then (Inl ''scope-mismatch'', disk)
                 else if \<not> roleScopesAllow role (normalizeDeviceAuthScopes (Some scopes)) (scopesT entry)
                 then (Inl ''scope-mismatch'', disk)
                 else (Inr (), store_token device role (entry\<lparr>lastUsedAtMsT := Some now\<rparr>) st))))"

definition resolveDeviceTokenUpdateContext ::
    "DevicePairingStateFile \<Rightarrow> string \<Rightarrow> string
      \<Rightarrow> (PairedDevice \<times> string \<times> DeviceAuthToken option) option" where
  "resolveDeviceTokenUpdateContext st deviceId rawRole =
     (case map_of (pairedByDeviceId st) (normalizeDeviceId deviceId) of None \<Rightarrow> None
      | Some device \<Rightarrow>
        (case normalizeRole (Some rawRole) of None \<Rightarrow> None
         | Some role \<Rightarrow>
           if role \<notin> set (listApprovedPairedDeviceRoles device) then None
           else Some (device, role, map_of (nullish (tokensD device) []) role)))"

definition ensureDeviceToken ::
    "PairingEnv \<Rightarrow> string \<Rightarrow> string \<Rightarrow> string list \<Rightarrow> DevicePairingStateFile
      \<Rightarrow> DeviceAuthToken option \<times> DevicePairingStateFile" where
  "ensureDeviceToken env deviceId rawRole scopes disk =
     (let st = loadState (nowE env) disk; requestedScopes = normalizeDeviceAuthScopes (Some scopes)
      in case resolveDeviceTokenUpdateContext st deviceId rawRole of None \<Rightarrow> (None, disk)
         | Some (device, role, existing) \<Rightarrow>
           (let approvedScopes = resolveApprovedDeviceScopeBaseline device;
                issued = buildDeviceAuthToken env role requestedScopes existing
                  (if existing \<noteq> None then Some (nowE env) else None);
                reusable = (\<lambda>e. \<not> truthy_num (revokedAtMsT e)
                  \<and> scopesWithinApprovedDeviceBaseline role (scopesT e) approvedScopes
                  \<and> roleScopesAllow role requestedScopes (scopesT e))
            in if \<not> scopesWithinApprovedDeviceBaseline role requestedScopes approvedScopes then (None, disk)
               else case existing of
                   Some e \<Rightarrow> if reusable e then (Some e, disk) else (Some issued, store_token device role issued st)
                 | None \<Rightarrow> (Some issued, store_token device role issued st)))"

definition rotateDeviceToken ::
    "PairingEnv \<Rightarrow> string \<Rightarrow> string \<Rightarrow> string list option \<Rightarrow> DevicePairingStateFile
      \<Rightarrow> (RotateDeviceTokenDenyReason + DeviceAuthToken) \<times> DevicePairingStateFile" where
  "rotateDeviceToken env deviceId rawRole scopes disk =
     (let st = loadState (nowE env) disk
      in case resolveDeviceTokenUpdateContext st deviceId rawRole of None \<Rightarrow> (Inl Unknown_device_or_role, disk)
         | Some (device, role, existing) \<Rightarrow>
           (let requestedScopes = normalizeDeviceAuthScopes
                  (orElse scopes (orElse (map_option scopesT existing) (scopesD device)));
                approvedScopes = resolveApprovedDeviceScopeBaseline device;
                issued = buildDeviceAuthToken env role requestedScopes existing (Some (nowE env))
            in if approvedScopes = None then (Inl Missing_approved_scope_baseline, disk)
               else if \<not> scopesWithinApprovedDeviceBaseline role requestedScopes approvedScopes
               then (Inl Scope_outside_approved_baseline, disk)
               else (Inr issued, store_token device role issued st)))"

definition revokeDeviceToken ::
    "int \<Rightarrow> string \<Rightarrow> string \<Rightarrow> DevicePairingStateFile \<Rightarrow> DeviceAuthToken option \<times> DevicePairingStateFile" where
  "revokeDeviceToken now deviceId rawRole disk =
     (let st = loadState now disk
      in case map_of (pairedByDeviceId st) (normalizeDeviceId deviceId) of None \<Rightarrow> (None, disk)
         | Some device \<Rightarrow>
           (case normalizeRole (Some rawRole) of None \<Rightarrow> (None, disk)
            | Some role \<Rightarrow>
              (case Option.bind (tokensD device) (\<lambda>ts. map_of ts role) of None \<Rightarrow> (None, disk)
               | Some token \<Rightarrow>
                 (let entry = token\<lparr>revokedAtMsT := Some now\<rparr>
                  in (Some entry, store_token device role entry st)))))"

end
