(* ===== verification/DeviceBootstrap.thy ===== *)
theory DeviceBootstrap
  imports DevicePairing "HOL-Library.Word"
begin

text \<open>
  Bootstrap tokens, \<open>src/infra/device-bootstrap.ts\<close>: tokens that are handed to a device so that it can pair itself
  within ten minutes, with the roles and scopes of a profile. The state is the file \<open>bootstrap.json\<close>; every
  operation runs under a lock, so that it is one step of the file. The public keys are normalized as
  \<open>src/infra/device-identity.ts\<close> does; the parsing of keys and the decoding of base64 are parameters.
\<close>

section \<open>Public keys\<close>

text \<open>
  The library: \<open>spki_der\<close> is \<open>crypto.createPublicKey\<close> with the export of the key, nothing when it throws, and
  \<open>from_base64\<close> is \<open>Buffer.from\<close> with the encoding base64.
\<close>

record KeyLib =
  spki_der :: "string \<Rightarrow> 8 word list option"
  from_base64 :: "string \<Rightarrow> 8 word list"

definition base64_alphabet :: string where
  "base64_alphabet = ''ABCDEFGHIJKLMNOPQRSTUVWXYZabcdefghijklmnopqrstuvwxyz0123456789+/''"

definition base64_char :: "nat \<Rightarrow> char" where
  "base64_char n = base64_alphabet ! (n mod 64)"

text \<open>\<open>buf.toString("base64")\<close>: three bytes are four characters.\<close>

fun toBase64 :: "8 word list \<Rightarrow> string" where
  "toBase64 [] = ''''"
| "toBase64 [a] = (let n = unat a * 16 in [base64_char (n div 64), base64_char n] @ ''=='')"
| "toBase64 [a, b] = (let n = (unat a * 256 + unat b) * 4
     in [base64_char (n div 4096), base64_char (n div 64), base64_char n] @ ''='')"
| "toBase64 (a # b # c # rest) = (let n = (unat a * 256 + unat b) * 256 + unat c
     in [base64_char (n div 262144), base64_char (n div 4096), base64_char (n div 64), base64_char n] @ toBase64 rest)"

definition replaceAllChar :: "char \<Rightarrow> char \<Rightarrow> string \<Rightarrow> string" where
  "replaceAllChar a b s = map (\<lambda>c. if c = a then b else c) s"

definition base64UrlEncode :: "8 word list \<Rightarrow> string" where
  "base64UrlEncode buf =
     rev (dropWhile (\<lambda>c. c = CHR ''='') (rev (replaceAllChar CHR ''/'' CHR ''_'' (replaceAllChar CHR ''+'' CHR ''-'' (toBase64 buf)))))"

definition base64UrlDecode :: "KeyLib \<Rightarrow> string \<Rightarrow> 8 word list" where
  "base64UrlDecode klib input =
     (let normalized = replaceAllChar CHR ''_'' CHR ''/'' (replaceAllChar CHR ''-'' CHR ''+'' input);
          padded = normalized @ replicate ((4 - length normalized mod 4) mod 4) CHR ''=''
      in from_base64 klib padded)"

definition ED25519_SPKI_PREFIX :: "8 word list" where
  "ED25519_SPKI_PREFIX = [0x30, 0x2a, 0x30, 0x05, 0x06, 0x03, 0x2b, 0x65, 0x70, 0x03, 0x21, 0x00]"

definition derivePublicKeyRaw :: "KeyLib \<Rightarrow> string \<Rightarrow> 8 word list option" where
  "derivePublicKeyRaw klib publicKeyPem = (case spki_der klib publicKeyPem of None \<Rightarrow> None
     | Some spki \<Rightarrow>
       if length spki = length ED25519_SPKI_PREFIX + 32 \<and> take (length ED25519_SPKI_PREFIX) spki = ED25519_SPKI_PREFIX
       then Some (drop (length ED25519_SPKI_PREFIX) spki) else Some spki)"

definition normalizeDevicePublicKeyBase64Url :: "KeyLib \<Rightarrow> string \<Rightarrow> string option" where
  "normalizeDevicePublicKeyBase64Url klib publicKey =
     (if js_includes ''BEGIN'' publicKey then map_option base64UrlEncode (derivePublicKeyRaw klib publicKey)
      else let raw = base64UrlDecode klib publicKey
           in if length raw = 0 then None else Some (base64UrlEncode raw))"

definition normalizeBootstrapPublicKey :: "KeyLib \<Rightarrow> string \<Rightarrow> string" where
  "normalizeBootstrapPublicKey klib publicKey =
     (let trimmed = js_trim publicKey
      in if trimmed = '''' then ''''
         else if js_includes ''BEGIN'' trimmed \<or> list_ex (\<lambda>c. c \<in> set ''+/='') trimmed
         then nullish (normalizeDevicePublicKeyBase64Url klib trimmed) trimmed else trimmed)"

section \<open>Records\<close>

definition DEVICE_BOOTSTRAP_TOKEN_TTL_MS :: int where "DEVICE_BOOTSTRAP_TOKEN_TTL_MS = 10 * 60 * 1000"

record DeviceBootstrapTokenRecord =
  tokenB :: string
  tsB :: int
  deviceIdB :: "string option"
  publicKeyB :: "string option"
  profileB :: "DeviceBootstrapProfile option"
  redeemedProfileB :: "DeviceBootstrapProfile option"
  rolesB :: "string list option"
  scopesB :: "string list option"
  issuedAtMsB :: int
  lastUsedAtMsB :: "int option"

text \<open>A record in the file, of which each field may be missing or of another type, which counts as missing.\<close>

record PartialBootstrapRecord =
  tokenF :: "string option"
  tsF :: "int option"
  deviceIdF :: "string option"
  publicKeyF :: "string option"
  profileF :: "DeviceBootstrapProfileInput option"
  redeemedProfileF :: "DeviceBootstrapProfileInput option"
  rolesF :: "string list option"
  scopesF :: "string list option"
  issuedAtMsF :: "int option"
  lastUsedAtMsF :: "int option"

text \<open>The file: nothing when there is none or it is no object; an entry that is no object is nothing.\<close>

type_synonym BootstrapFile = "(string \<times> PartialBootstrapRecord option) list option"

type_synonym DeviceBootstrapStateFile = "(string \<times> DeviceBootstrapTokenRecord) list"

definition profile_input :: "DeviceBootstrapProfile \<Rightarrow> DeviceBootstrapProfileInput" where
  "profile_input p = \<lparr>inputRoles = Some (profileRoles p), inputScopes = Some (profileScopes p)\<rparr>"

text \<open>What a record is in the file.\<close>

definition partial_record :: "DeviceBootstrapTokenRecord \<Rightarrow> PartialBootstrapRecord" where
  "partial_record r = \<lparr>tokenF = Some (tokenB r), tsF = Some (tsB r), deviceIdF = deviceIdB r, publicKeyF = publicKeyB r,
     profileF = map_option profile_input (profileB r), redeemedProfileF = map_option profile_input (redeemedProfileB r),
     rolesF = rolesB r, scopesF = scopesB r, issuedAtMsF = Some (issuedAtMsB r), lastUsedAtMsF = lastUsedAtMsB r\<rparr>"

definition resolvePersistedBootstrapProfile :: "PartialBootstrapRecord \<Rightarrow> DeviceBootstrapProfile" where
  "resolvePersistedBootstrapProfile r = normalizeDeviceBootstrapProfile
     (Some (nullish (profileF r) \<lparr>inputRoles = rolesF r, inputScopes = scopesF r\<rparr>))"

definition resolvePersistedRedeemedProfile :: "PartialBootstrapRecord \<Rightarrow> DeviceBootstrapProfile" where
  "resolvePersistedRedeemedProfile r = normalizeDeviceBootstrapProfile (redeemedProfileF r)"

definition resolveIssuedBootstrapProfile ::
    "DeviceBootstrapProfileInput option \<Rightarrow> string list option \<Rightarrow> string list option \<Rightarrow> DeviceBootstrapProfile" where
  "resolveIssuedBootstrapProfile profile roles scopes = (case profile of
     Some p \<Rightarrow> normalizeDeviceBootstrapProfile (Some p)
   | None \<Rightarrow> if roles \<noteq> None \<or> scopes \<noteq> None
       then normalizeDeviceBootstrapProfile (Some \<lparr>inputRoles = roles, inputScopes = scopes\<rparr>)
       else PAIRING_SETUP_BOOTSTRAP_PROFILE)"

definition bootstrapProfileAllowsRequest :: "DeviceBootstrapProfile \<Rightarrow> string \<Rightarrow> string list \<Rightarrow> bool" where
  "bootstrapProfileAllowsRequest allowedProfile requestedRole requestedScopes \<longleftrightarrow>
     requestedRole \<in> set (profileRoles allowedProfile)
     \<and> roleScopesAllow requestedRole requestedScopes (profileScopes allowedProfile)"

definition resolveBootstrapProfileScopes :: "string \<Rightarrow> string list \<Rightarrow> string list" where
  "resolveBootstrapProfileScopes role scopes =
     (if role = ''operator'' then filter (\<lambda>s. starts_with ''operator.'' s) scopes
      else filter (\<lambda>s. \<not> starts_with ''operator.'' s) scopes)"

definition bootstrapProfileSatisfiesProfile :: "DeviceBootstrapProfile \<Rightarrow> DeviceBootstrapProfile \<Rightarrow> bool" where
  "bootstrapProfileSatisfiesProfile actualProfile requiredProfile \<longleftrightarrow>
     list_all (\<lambda>requiredRole.
       if requiredRole \<notin> set (profileRoles actualProfile) then False
       else let requiredScopes = resolveBootstrapProfileScopes requiredRole (profileScopes requiredProfile)
            in \<not> (length requiredScopes > 0
                 \<and> \<not> bootstrapProfileAllowsRequest actualProfile requiredRole requiredScopes))
       (profileRoles requiredProfile)"

section \<open>The file\<close>

definition load_entry :: "string \<Rightarrow> PartialBootstrapRecord \<Rightarrow> DeviceBootstrapTokenRecord" where
  "load_entry tokenKey r =
     (let token = (case tokenF r of Some t \<Rightarrow> if length (js_trim t) > 0 then t else tokenKey | None \<Rightarrow> tokenKey);
          issuedAtMs = nullish (issuedAtMsF r) 0
      in \<lparr>tokenB = token, tsB = nullish (tsF r) issuedAtMs, deviceIdB = deviceIdF r, publicKeyB = publicKeyF r,
          profileB = Some (resolvePersistedBootstrapProfile r), redeemedProfileB = Some (resolvePersistedRedeemedProfile r),
          rolesB = None, scopesB = None, issuedAtMsB = issuedAtMs, lastUsedAtMsB = lastUsedAtMsF r\<rparr>)"

definition loadBootstrapState :: "int \<Rightarrow> BootstrapFile \<Rightarrow> DeviceBootstrapStateFile" where
  "loadBootstrapState now file = pruneExpiredPending tsB now DEVICE_BOOTSTRAP_TOKEN_TTL_MS
     (List.map_filter (\<lambda>(k, e). map_option (\<lambda>r. (k, load_entry k r)) e) (nullish file []))"

definition persistBootstrapState :: "DeviceBootstrapStateFile \<Rightarrow> BootstrapFile" where
  "persistBootstrapState st = Some (map (\<lambda>(k, r). (k, Some (partial_record r))) st)"

definition find_token :: "'ip GatewayLib \<Rightarrow> string \<Rightarrow> DeviceBootstrapStateFile \<Rightarrow> (string \<times> DeviceBootstrapTokenRecord) option" where
  "find_token lib providedToken st = List.find (\<lambda>(k, c). verifyPairingToken lib providedToken (tokenB c)) st"

section \<open>Operations\<close>

definition issueDeviceBootstrapToken ::
    "int \<Rightarrow> string \<Rightarrow> DeviceBootstrapProfileInput option \<Rightarrow> string list option \<Rightarrow> string list option \<Rightarrow> BootstrapFile
      \<Rightarrow> (string \<times> int) \<times> BootstrapFile" where
  "issueDeviceBootstrapToken now token profile roles scopes file =
     (let st = loadBootstrapState now file;
          entry = \<lparr>tokenB = token, tsB = now, deviceIdB = None, publicKeyB = None,
            profileB = Some (resolveIssuedBootstrapProfile profile roles scopes),
            redeemedProfileB = Some (normalizeDeviceBootstrapProfile None), rolesB = None, scopesB = None,
            issuedAtMsB = now, lastUsedAtMsB = None\<rparr>
      in ((token, now + DEVICE_BOOTSTRAP_TOKEN_TTL_MS), persistBootstrapState (AList.update token entry st)))"

definition clearDeviceBootstrapTokens :: "int \<Rightarrow> BootstrapFile \<Rightarrow> nat \<times> BootstrapFile" where
  "clearDeviceBootstrapTokens now file = (length (loadBootstrapState now file), persistBootstrapState [])"

definition revokeDeviceBootstrapToken ::
    "'ip GatewayLib \<Rightarrow> int \<Rightarrow> string \<Rightarrow> BootstrapFile \<Rightarrow> DeviceBootstrapTokenRecord option \<times> BootstrapFile" where
  "revokeDeviceBootstrapToken lib now token file =
     (let providedToken = js_trim token; st = loadBootstrapState now file
      in if providedToken = '''' then (None, file)
         else case find_token lib providedToken st of None \<Rightarrow> (None, file)
           | Some (tokenKey, record) \<Rightarrow> (Some record, persistBootstrapState (AList.delete tokenKey st)))"

definition restoreDeviceBootstrapToken :: "int \<Rightarrow> DeviceBootstrapTokenRecord \<Rightarrow> BootstrapFile \<Rightarrow> BootstrapFile" where
  "restoreDeviceBootstrapToken now record file =
     persistBootstrapState (AList.update (tokenB record) record (loadBootstrapState now file))"

definition getDeviceBootstrapTokenProfile ::
    "'ip GatewayLib \<Rightarrow> int \<Rightarrow> string \<Rightarrow> BootstrapFile \<Rightarrow> DeviceBootstrapProfile option" where
  "getDeviceBootstrapTokenProfile lib now token file =
     (let providedToken = js_trim token
      in if providedToken = '''' then None
         else map_option (\<lambda>(k, found). resolvePersistedBootstrapProfile (partial_record found))
           (find_token lib providedToken (loadBootstrapState now file)))"

definition redeemDeviceBootstrapTokenProfile ::
    "'ip GatewayLib \<Rightarrow> int \<Rightarrow> string \<Rightarrow> string \<Rightarrow> string list \<Rightarrow> BootstrapFile \<Rightarrow> (bool \<times> bool) \<times> BootstrapFile" where
  "redeemDeviceBootstrapTokenProfile lib now token role scopes file =
     (let providedToken = js_trim token; st = loadBootstrapState now file
      in if providedToken = '''' then ((False, False), file)
         else case find_token lib providedToken st of None \<Rightarrow> ((False, False), file)
           | Some (tokenKey, record) \<Rightarrow>
             (let issuedProfile = resolvePersistedBootstrapProfile (partial_record record);
                  redeemed = resolvePersistedRedeemedProfile (partial_record record);
                  redeemedProfile = normalizeDeviceBootstrapProfile (Some \<lparr>inputRoles = Some (profileRoles redeemed @ [role]),
                    inputScopes = Some (profileScopes redeemed @ resolveBootstrapProfileScopes role scopes)\<rparr>)
              in ((True, bootstrapProfileSatisfiesProfile redeemedProfile issuedProfile),
                  persistBootstrapState (AList.update tokenKey
                    (record\<lparr>profileB := Some issuedProfile, redeemedProfileB := Some redeemedProfile\<rparr>) st))))"

definition verifyDeviceBootstrapToken ::
    "'ip GatewayLib \<Rightarrow> KeyLib \<Rightarrow> int \<Rightarrow> string \<Rightarrow> string \<Rightarrow> string \<Rightarrow> string \<Rightarrow> string list \<Rightarrow> BootstrapFile
      \<Rightarrow> (string + unit) \<times> BootstrapFile" where
  "verifyDeviceBootstrapToken lib klib now token rawDeviceId rawPublicKey rawRole scopes file =
     (let st = loadBootstrapState now file; providedToken = js_trim token;
          invalid = (Inl ''bootstrap_token_invalid'', file)
      in if providedToken = '''' then invalid
         else case find_token lib providedToken st of None \<Rightarrow> invalid
           | Some (tokenKey, record) \<Rightarrow>
             (let deviceId = js_trim rawDeviceId; publicKey = normalizeBootstrapPublicKey klib rawPublicKey;
                  role = js_trim rawRole; allowedProfile = resolvePersistedBootstrapProfile (partial_record record);
                  boundDeviceId = map_option js_trim (deviceIdB record);
                  boundPublicKey = map_option (normalizeBootstrapPublicKey klib) (publicKeyB record);
                  used = record\<lparr>profileB := Some allowedProfile, deviceIdB := Some deviceId, publicKeyB := Some publicKey,
                    lastUsedAtMsB := Some now\<rparr>
              in if deviceId = '''' \<or> publicKey = '''' \<or> role = '''' then invalid
                 else if length (profileRoles allowedProfile) = 0
                   \<or> \<not> bootstrapProfileAllowsRequest allowedProfile role scopes then invalid
                 else if (truthy boundDeviceId \<or> truthy boundPublicKey)
                   \<and> (boundDeviceId \<noteq> Some deviceId \<or> boundPublicKey \<noteq> Some publicKey) then invalid
                 else (Inr (), persistBootstrapState (AList.update tokenKey used st))))"

definition getBoundDeviceBootstrapProfile ::
    "'ip GatewayLib \<Rightarrow> KeyLib \<Rightarrow> int \<Rightarrow> string \<Rightarrow> string \<Rightarrow> string \<Rightarrow> BootstrapFile \<Rightarrow> DeviceBootstrapProfile option" where
  "getBoundDeviceBootstrapProfile lib klib now token rawDeviceId rawPublicKey file =
     (let st = loadBootstrapState now file; providedToken = js_trim token
      in if providedToken = '''' then None
         else case find_token lib providedToken st of None \<Rightarrow> None
           | Some (_, record) \<Rightarrow>
             (let deviceId = js_trim rawDeviceId; publicKey = normalizeBootstrapPublicKey klib rawPublicKey
              in if deviceId = '''' \<or> publicKey = '''' then None
                 else if map_option js_trim (deviceIdB record) \<noteq> Some deviceId
                   \<or> map_option (normalizeBootstrapPublicKey klib) (publicKeyB record) \<noteq> Some publicKey then None
                 else Some (resolvePersistedBootstrapProfile (partial_record record))))"

end
