(* ===== verification/DevicePairingProps.thy ===== *)
theory DevicePairingProps
  imports DevicePairing GatewayConnect
begin

text \<open>
  What the pairing of devices promises: every scope of a device goes back to somebody who held it, a
  device has one request at a time, revoked tokens stay revoked, and what follows for the handshake.
\<close>

section \<open>Runs\<close>

datatype PairEvent =
    Ev_request DevicePairingDetails
  | Ev_approve string "string list option"
  | Ev_bootstrap string DeviceBootstrapProfile
  | Ev_reject string
  | Ev_remove string
  | Ev_clear string
  | Ev_metadata string PairedDeviceMetadataPatch
  | Ev_verify string string string "string list"
  | Ev_ensure string string "string list"
  | Ev_rotate string string "string list option"
  | Ev_revoke string string

fun pair_step :: "'ip GatewayLib \<Rightarrow> PairingEnv \<Rightarrow> PairEvent \<Rightarrow> DevicePairingStateFile \<Rightarrow> DevicePairingStateFile" where
  "pair_step lib env (Ev_request details) st = snd (requestDevicePairing env details st)"
| "pair_step lib env (Ev_approve rid callerScopes) st = snd (approveDevicePairing env rid callerScopes st)"
| "pair_step lib env (Ev_bootstrap rid profile) st = snd (approveBootstrapDevicePairing env rid profile st)"
| "pair_step lib env (Ev_reject rid) st = snd (rejectDevicePairing (nowE env) rid st)"
| "pair_step lib env (Ev_remove dev) st = snd (removePairedDevice (nowE env) dev st)"
| "pair_step lib env (Ev_clear dev) st = snd (clearDevicePairing (nowE env) dev st)"
| "pair_step lib env (Ev_metadata dev patch) st = updatePairedDeviceMetadata (nowE env) dev patch st"
| "pair_step lib env (Ev_verify dev token role scopes) st = snd (verifyDeviceToken lib (nowE env) dev token role scopes st)"
| "pair_step lib env (Ev_ensure dev role scopes) st = snd (ensureDeviceToken env dev role scopes st)"
| "pair_step lib env (Ev_rotate dev role scopes) st = snd (rotateDeviceToken env dev role scopes st)"
| "pair_step lib env (Ev_revoke dev role) st = snd (revokeDeviceToken (nowE env) dev role st)"

text \<open>
  Who vouched for a device since it was last removed: the scopes of each caller that approved it, and those of the
  profile of each bootstrap token it was approved with.
\<close>

fun vouch ::
    "PairingEnv \<Rightarrow> PairEvent \<Rightarrow> DevicePairingStateFile \<Rightarrow> (string \<times> string set) list \<Rightarrow> (string \<times> string set) list" where
  "vouch env (Ev_approve rid callerScopes) st log = (case fst (approveDevicePairing env rid callerScopes st) of
     Some (Pairing_approved _ device) \<Rightarrow> (deviceIdD device, trimmed (nullish callerScopes [])) # log | _ \<Rightarrow> log)"
| "vouch env (Ev_bootstrap rid profile) st log = (case fst (approveBootstrapDevicePairing env rid profile st) of
     Some (Pairing_approved _ device) \<Rightarrow> (deviceIdD device, trimmed (profileScopes profile)) # log | _ \<Rightarrow> log)"
| "vouch env (Ev_remove dev) st log = (case fst (removePairedDevice (nowE env) dev st) of
     Some d \<Rightarrow> filter (\<lambda>(x, _). x \<noteq> d) log | None \<Rightarrow> log)"
| "vouch env (Ev_clear dev) st log =
     (if fst (clearDevicePairing (nowE env) dev st) then filter (\<lambda>(x, _). x \<noteq> normalizeDeviceId dev) log else log)"
| "vouch env _ st log = log"

definition no_devices :: DevicePairingStateFile where
  "no_devices = \<lparr>pendingById = [], pairedByDeviceId = []\<rparr>"

definition pair_run ::
    "'ip GatewayLib \<Rightarrow> (PairingEnv \<times> PairEvent) list \<Rightarrow> DevicePairingStateFile \<times> (string \<times> string set) list" where
  "pair_run lib es = fold (\<lambda>(env, e) (st, log). (pair_step lib env e st, vouch env e st log)) es (no_devices, [])"

section \<open>Merged roles and scopes\<close>

lemma set_merge_fold:
  "set (fold (\<lambda>item out. fold add_trimmed (nullish item []) out) items out) = set out \<union> (\<Union>item \<in> set items. trimmed (nullish item []))"
  by (induction items arbitrary: out) (auto simp: set_fold_add_trimmed)

lemma set_mergeRoles: "set (nullish (mergeRoles items) []) = (\<Union>item \<in> set items. trimmed (nullish item []))"
  using set_merge_fold [of items "[]"] by (auto simp: mergeRoles_def Let_def)

lemma set_mergeScopes: "set (nullish (mergeScopes items) []) = (\<Union>item \<in> set items. trimmed (nullish item []))"
  using set_merge_fold [of items "[]"] by (auto simp: mergeScopes_def Let_def)

lemma trimmed_trimmed: "\<forall>s \<in> set xs. js_trim s = s \<and> s \<noteq> '''' \<Longrightarrow> trimmed xs = set xs"
  by (auto simp: trimmed_def)

lemma trimmed_merged:
  "trimmed (nullish (mergeRoles items) []) = (\<Union>item \<in> set items. trimmed (nullish item []))"
  "trimmed (nullish (mergeScopes items) []) = (\<Union>item \<in> set items. trimmed (nullish item []))"
proof -
  have "\<forall>s \<in> (\<Union>item \<in> set items. trimmed (nullish item [])). js_trim s = s \<and> s \<noteq> ''''"
    using trimmed_fixed by blast
  then show "trimmed (nullish (mergeRoles items) []) = (\<Union>item \<in> set items. trimmed (nullish item []))"
    "trimmed (nullish (mergeScopes items) []) = (\<Union>item \<in> set items. trimmed (nullish item []))"
    using trimmed_trimmed [of "nullish (mergeRoles items) []"] trimmed_trimmed [of "nullish (mergeScopes items) []"]
    unfolding set_mergeRoles set_mergeScopes by blast+
qed

definition baseline :: "PairedDevice \<Rightarrow> string set" where
  "baseline device = trimmed (nullish (approved_or_scopes device) [])"

lemma approved_roles:
  "set (listApprovedPairedDeviceRoles device) = trimmed (nullish (rolesD device) []) \<union> trimmed (nullish (one_role (roleD device)) [])"
  by (simp add: listApprovedPairedDeviceRoles_def set_mergeRoles)

section \<open>The invariant of paired devices\<close>

definition device_ok :: "(string \<times> string set) list \<Rightarrow> PairedDevice \<Rightarrow> bool" where
  "device_ok log dev \<longleftrightarrow>
     (\<forall>s \<in> baseline dev. starts_with OPERATOR_SCOPE_PREFIX s \<longrightarrow>
        (\<exists>V \<in> {V. (deviceIdD dev, V) \<in> set log}. operatorScopeSatisfied s V))
     \<and> (\<forall>(r, t) \<in> set (nullish (tokensD dev) []). r \<in> set (listApprovedPairedDeviceRoles dev) \<and> roleT t = r)"

definition paired_ok :: "(string \<times> string set) list \<Rightarrow> (string \<times> PairedDevice) list \<Rightarrow> bool" where
  "paired_ok log paired \<longleftrightarrow> distinct (map fst paired)
     \<and> (\<forall>d dev. map_of paired d = Some dev \<longrightarrow> deviceIdD dev = d \<and> device_ok log dev)"

lemma loadState_paired [simp]: "pairedByDeviceId (loadState now st) = pairedByDeviceId st"
  by (simp add: loadState_def)

lemma paired_ok_lookup:
  assumes "paired_ok log paired" "map_of paired d = Some dev"
  shows "deviceIdD dev = d" "device_ok log dev"
  using assms by (auto simp: paired_ok_def)

lemma paired_ok_update:
  assumes "paired_ok log paired" "device_ok log dev"
  shows "paired_ok log (AList.update (deviceIdD dev) dev paired)"
  using assms by (auto simp: paired_ok_def)

lemma paired_ok_delete:
  assumes "paired_ok log paired"
  shows "paired_ok (filter (\<lambda>(x, _). x \<noteq> d) log) (AList.delete d paired)"
proof -
  have "device_ok (filter (\<lambda>(x, _). x \<noteq> d) log) dev" if "map_of paired k = Some dev" "k \<noteq> d" for k dev
    using paired_ok_lookup [OF assms that(1)] that(2) by (simp add: device_ok_def)
  with assms show ?thesis by (simp add: paired_ok_def)
qed

lemma device_ok_more: "device_ok log dev \<Longrightarrow> set log \<subseteq> set log' \<Longrightarrow> device_ok log' dev"
  by (fastforce simp: device_ok_def)

lemma paired_ok_more: "paired_ok log paired \<Longrightarrow> paired_ok (x # log) paired"
  using device_ok_more [of log _ "x # log"] unfolding paired_ok_def by (simp add: subset_insertI)

lemma set_update_subset: "set (AList.update k v m) \<subseteq> insert (k, v) (set m)"
  by (induction m) auto

lemma device_ok_token:
  assumes "device_ok log dev" "role \<in> set (listApprovedPairedDeviceRoles dev)" "roleT token = role"
  shows "device_ok log (dev\<lparr>tokensD := Some (AList.update role token (nullish (tokensD dev) []))\<rparr>)"
proof -
  have "set (AList.update role token ts) \<subseteq> insert (role, token) (set ts)" for ts
    by (rule set_update_subset)
  with assms show ?thesis
    by (fastforce simp: device_ok_def baseline_def approved_or_scopes_def listApprovedPairedDeviceRoles_def)
qed

lemma store_token_ok:
  assumes "paired_ok log (pairedByDeviceId st)" "map_of (pairedByDeviceId st) d = Some dev"
    "role \<in> set (listApprovedPairedDeviceRoles dev)" "roleT token = role"
  shows "paired_ok log (pairedByDeviceId (store_token dev role token st))"
  using paired_ok_update [OF assms(1) device_ok_token [OF paired_ok_lookup(2) [OF assms(1,2)] assms(3,4)]]
  by (simp add: store_token_def)

lemma device_token_role:
  assumes "paired_ok log paired" "map_of paired d = Some dev" "Option.bind (tokensD dev) (\<lambda>ts. map_of ts role) = Some entry"
  shows "role \<in> set (listApprovedPairedDeviceRoles dev)" "roleT entry = role"
  using paired_ok_lookup(2) [OF assms(1,2)] assms(3)
  by (auto simp: device_ok_def bind_eq_Some_conv dest!: map_of_SomeD)

section \<open>Approvals keep the invariant\<close>

lemma fold_tokens:
  assumes "\<And>r ts. f r ts = AList.update r (g r ts) ts" "\<And>r ts. roleT (g r ts) = r"
    "(r, t) \<in> set (fold f roles tokens)"
  shows "r \<in> set roles \<and> roleT t = r \<or> (r, t) \<in> set tokens"
  using assms(3)
proof (induction roles arbitrary: tokens)
  case (Cons x roles)
  have upd: "set (f x tokens) \<subseteq> insert (x, g x tokens) (set tokens)"
    unfolding assms(1) by (rule set_update_subset)
  from Cons.prems have "(r, t) \<in> set (fold f roles (f x tokens))" by simp
  from Cons.IH [OF this] upd assms(2) [of x tokens] show ?case by auto
qed simp

lemma approved_device_scopes [simp]:
  "approved_or_scopes (approved_device env pending existing roles scopes tokens) = scopes"
  by (cases scopes) (simp_all add: approved_or_scopes_def approved_device_def)

text \<open>
  A device is approved with the roles and scopes it had, those that are asked for, and others; the caller vouches for
  what is new.
\<close>

lemma approved_device_ok:
  assumes ok: "paired_ok log paired" and existing_def: "existing = map_of paired (deviceIdQ pending)"
    and roles: "roles = mergeRoles ([Option.bind existing rolesD, one_role (Option.bind existing roleD),
      rolesQ pending, one_role (roleQ pending)] @ rest)"
    and scopes: "approvedScopes = mergeScopes ([Option.bind existing approved_or_scopes, scopesQ pending] @ restScopes)"
    and vouched: "\<And>s. s \<in> trimmed (nullish (scopesQ pending) []) \<union> (\<Union>item \<in> set restScopes. trimmed (nullish item []))
        \<Longrightarrow> starts_with OPERATOR_SCOPE_PREFIX s \<Longrightarrow> operatorScopeSatisfied s V"
    and tokens: "\<And>r t. (r, t) \<in> set tokens \<Longrightarrow>
        (r \<in> trimmed (nullish (rolesQ pending) []) \<union> trimmed (nullish (one_role (roleQ pending)) [])
              \<union> (\<Union>item \<in> set rest. trimmed (nullish item [])) \<and> roleT t = r)
        \<or> (r, t) \<in> set (nullish (Option.bind existing tokensD) [])"
  shows "device_ok ((deviceIdQ pending, V) # log) (approved_device env pending existing roles approvedScopes tokens)"
proof -
  let ?dev = "approved_device env pending existing roles approvedScopes tokens"
  have old: "deviceIdD e = deviceIdQ pending \<and> device_ok log e" if "existing = Some e" for e
    using paired_ok_lookup [OF ok] that by (auto simp: existing_def)
  have base: "baseline ?dev = (case existing of None \<Rightarrow> {} | Some e \<Rightarrow> baseline e)
      \<union> trimmed (nullish (scopesQ pending) []) \<union> (\<Union>item \<in> set restScopes. trimmed (nullish item []))"
    by (cases existing)
      (simp_all add: baseline_def scopes trimmed_merged Un_assoc)
  have approved: "set (listApprovedPairedDeviceRoles ?dev) =
      (case existing of None \<Rightarrow> {} | Some e \<Rightarrow> set (listApprovedPairedDeviceRoles e))
      \<union> trimmed (nullish (rolesQ pending) []) \<union> trimmed (nullish (one_role (roleQ pending)) [])
      \<union> (\<Union>item \<in> set rest. trimmed (nullish item []))"
    by (cases existing) (auto simp: approved_roles approved_device_def roles trimmed_merged one_role_def)
  have "\<exists>W \<in> {W. (deviceIdQ pending, W) \<in> set ((deviceIdQ pending, V) # log)}. operatorScopeSatisfied s W"
    if "s \<in> baseline ?dev" "starts_with OPERATOR_SCOPE_PREFIX s" for s
  proof (cases "\<exists>e. existing = Some e \<and> s \<in> baseline e")
    case True
    then obtain e where e: "existing = Some e" "s \<in> baseline e" by blast
    with old [OF e(1)] that(2) obtain W where "(deviceIdQ pending, W) \<in> set log" "operatorScopeSatisfied s W"
      unfolding device_ok_def by auto
    then show ?thesis by auto
  next
    case False
    with that(1) base have "operatorScopeSatisfied s V" by (intro vouched [OF _ that(2)]) (auto split: option.splits)
    then show ?thesis by auto
  qed
  moreover have "r \<in> set (listApprovedPairedDeviceRoles ?dev) \<and> roleT t = r" if "(r, t) \<in> set tokens" for r t
    using tokens [OF that]
  proof
    assume "(r, t) \<in> set (nullish (Option.bind existing tokensD) [])"
    then obtain e where e: "existing = Some e" "(r, t) \<in> set (nullish (tokensD e) [])" by (cases existing) auto
    with old [OF e(1)] approved show ?thesis unfolding device_ok_def by auto
  qed (use approved in auto)
  ultimately show ?thesis unfolding device_ok_def by (auto simp: approved_device_def)
qed

lemma find_NoneD: "List.find P xs = None \<Longrightarrow> x \<in> set xs \<Longrightarrow> \<not> P x"
  by (auto simp: find_None_iff)

lemma not_missing:
  assumes "resolveMissingRequestedScope OPERATOR_ROLE scopes held = None" "s \<in> set scopes" "js_trim s = s" "s \<noteq> ''''"
  shows "operatorScopeSatisfied s (trimmed held)"
proof -
  have "roleScopesAllow OPERATOR_ROLE [s] held"
    using find_NoneD [OF assms(1) [unfolded resolveMissingRequestedScope_def] assms(2)] by simp
  moreover have "js_trim OPERATOR_ROLE = OPERATOR_ROLE" by code_simp
  ultimately show ?thesis using assms(3,4) by (simp add: roleScopesAllow_iff role_scope_satisfied_def)
qed

lemma requested_operator_scope:
  assumes "s \<in> trimmed (nullish (scopesQ pending) [])" "starts_with OPERATOR_SCOPE_PREFIX s"
  shows "s \<in> set (requested_operator_scopes pending)"
  using assms by (cases "scopesQ pending") (auto simp: requested_operator_scopes_def set_normalizeDeviceAuthScopes)

lemma not_refused:
  assumes "approval_refused pending callerScopes = None" "s \<in> trimmed (nullish (scopesQ pending) [])"
    "starts_with OPERATOR_SCOPE_PREFIX s"
  shows "operatorScopeSatisfied s (trimmed (nullish callerScopes []))"
proof -
  note s = requested_operator_scope [OF assms(2,3)]
  then have "length (requested_operator_scopes pending) > 0" by (cases "requested_operator_scopes pending") auto
  with assms(1) obtain held where held: "callerScopes = Some held"
      "resolveMissingRequestedScope OPERATOR_ROLE (requested_operator_scopes pending) held = None"
    by (auto simp: approval_refused_def Let_def split: option.splits)
  with not_missing [OF held(2) s] trimmed_fixed [OF assms(2)] show ?thesis by simp
qed

text \<open>The token maps that the approvals build.\<close>

lemma approve_tokens:
  assumes "(r, t) \<in> set (fold (approve_token env pending approvedScopes existing) roles tokens)"
  shows "r \<in> set roles \<and> roleT t = r \<or> (r, t) \<in> set tokens"
  by (rule fold_tokens [OF _ _ assms, where g = "\<lambda>role tokens. \<lparr>tokenT = newTokenE env role, roleT = role,
           scopesT = resolveApprovedTokenScopes role pending (map_of tokens role) approvedScopes existing,
           createdAtMsT = nullish (map_option createdAtMsT (map_of tokens role)) (nowE env),
           rotatedAtMsT = (if map_of tokens role \<noteq> None then Some (nowE env) else None), revokedAtMsT = None,
           lastUsedAtMsT = Option.bind (map_of tokens role) lastUsedAtMsT\<rparr>"])
    (simp_all add: approve_token_def Let_def)

lemma bootstrap_tokens:
  assumes "(r, t) \<in> set (fold (bootstrap_token env approvedScopes) roles tokens)"
  shows "r \<in> set roles \<and> roleT t = r \<or> (r, t) \<in> set tokens"
  by (rule fold_tokens [OF _ _ assms, where g = "\<lambda>role tokens. buildDeviceAuthToken env role
        (if role = OPERATOR_ROLE then resolveBootstrapProfileScopesForRole role approvedScopes else []) (map_of tokens role)
        (if map_of tokens role \<noteq> None then Some (nowE env) else None)"])
    (simp_all add: bootstrap_token_def buildDeviceAuthToken_def Let_def)

lemma store_approved_ok:
  assumes "paired_ok log (pairedByDeviceId st)" "device_ok (x # log) dev"
  shows "paired_ok (x # log) (pairedByDeviceId (store_approved rid dev st))"
  using paired_ok_update [OF paired_ok_more [OF assms(1), of x] assms(2)] by (simp add: store_approved_def)

lemma approve_ok:
  assumes ok: "paired_ok log (pairedByDeviceId st)"
  shows "paired_ok (vouch env (Ev_approve rid callerScopes) st log) (pairedByDeviceId (snd (approveDevicePairing env rid callerScopes st)))"
proof (cases "\<exists>rid' dev. fst (approveDevicePairing env rid callerScopes st) = Some (Pairing_approved rid' dev)")
  case True
  then obtain pending where p: "map_of (pendingById (loadState (nowE env) st)) rid = Some pending"
      "approval_refused pending callerScopes = None"
    by (auto simp: approveDevicePairing_def Let_def split: option.splits)
  define existing where "existing = map_of (pairedByDeviceId st) (deviceIdQ pending)"
  define roles where "roles = mergeRoles ([Option.bind existing rolesD, one_role (Option.bind existing roleD),
                     rolesQ pending, one_role (roleQ pending)] @ [])"
  define scopes where "scopes = mergeScopes ([Option.bind existing approved_or_scopes, scopesQ pending] @ [])"
  define tokens where "tokens = fold (approve_token env pending scopes existing)
      (nullish (mergeRoles [rolesQ pending, one_role (roleQ pending)]) []) (nullish (Option.bind existing tokensD) [])"
  define dev where "dev = approved_device env pending existing roles scopes tokens"
  have run: "approveDevicePairing env rid callerScopes st = (Some (Pairing_approved rid dev), store_approved rid dev (loadState (nowE env) st))"
    using p by (simp add: approveDevicePairing_def Let_def dev_def tokens_def scopes_def roles_def existing_def)
  have "device_ok ((deviceIdQ pending, trimmed (nullish callerScopes [])) # log) dev"
    unfolding dev_def
  proof (rule approved_device_ok [OF ok existing_def roles_def scopes_def])
    fix r t assume "(r, t) \<in> set tokens"
    from approve_tokens [OF this [unfolded tokens_def]]
    show "r \<in> trimmed (nullish (rolesQ pending) []) \<union> trimmed (nullish (one_role (roleQ pending)) []) \<union> (\<Union>item\<in>set []. trimmed (nullish item []))
        \<and> roleT t = r \<or> (r, t) \<in> set (nullish (Option.bind existing tokensD) [])"
      by (auto simp: set_mergeRoles)
  qed (use not_refused [OF p(2)] in auto)
  moreover have "deviceIdD dev = deviceIdQ pending" by (simp add: dev_def approved_device_def)
  ultimately show ?thesis using store_approved_ok [of log "loadState (nowE env) st"] ok by (simp add: run)
next
  case False
  then have "snd (approveDevicePairing env rid callerScopes st) = st"
    by (auto simp: approveDevicePairing_def Let_def split: option.splits)
  with False ok show ?thesis by (auto split: option.splits ApproveDevicePairingResult.splits)
qed

lemma bootstrap_ok:
  assumes ok: "paired_ok log (pairedByDeviceId st)"
  shows "paired_ok (vouch env (Ev_bootstrap rid profile) st log) (pairedByDeviceId (snd (approveBootstrapDevicePairing env rid profile st)))"
proof (cases "\<exists>rid' dev. fst (approveBootstrapDevicePairing env rid profile st) = Some (Pairing_approved rid' dev)")
  case True
  define approvedRoles where "approvedRoles = nullish (mergeRoles [Some (profileRoles profile)]) []"
  define approvedScopes where "approvedScopes = normalizeDeviceAuthScopes (Some (profileScopes profile))"
  from True obtain pending where p: "map_of (pendingById (loadState (nowE env) st)) rid = Some pending"
      "bootstrap_refused pending approvedRoles approvedScopes = None"
    by (auto simp: approveBootstrapDevicePairing_def Let_def approvedRoles_def approvedScopes_def split: option.splits)
  define existing where "existing = map_of (pairedByDeviceId st) (deviceIdQ pending)"
  define roles where "roles = mergeRoles ([Option.bind existing rolesD, one_role (Option.bind existing roleD),
                     rolesQ pending, one_role (roleQ pending)] @ [Some approvedRoles])"
  define scopes where "scopes = mergeScopes ([Option.bind existing approved_or_scopes, scopesQ pending] @ [Some approvedScopes])"
  define tokens where "tokens = fold (bootstrap_token env approvedScopes) approvedRoles (nullish (Option.bind existing tokensD) [])"
  define dev where "dev = approved_device env pending existing roles scopes tokens"
  have run: "approveBootstrapDevicePairing env rid profile st = (Some (Pairing_approved rid dev), store_approved rid dev (loadState (nowE env) st))"
    using p by (simp add: approveBootstrapDevicePairing_def Let_def dev_def tokens_def scopes_def roles_def existing_def
        approvedRoles_def approvedScopes_def)
  have "device_ok ((deviceIdQ pending, trimmed (profileScopes profile)) # log) dev"
    unfolding dev_def
  proof (rule approved_device_ok [OF ok existing_def roles_def scopes_def])
    fix r t assume "(r, t) \<in> set tokens"
    from bootstrap_tokens [OF this [unfolded tokens_def]]
    show "r \<in> trimmed (nullish (rolesQ pending) []) \<union> trimmed (nullish (one_role (roleQ pending)) [])
          \<union> (\<Union>item\<in>set [Some approvedRoles]. trimmed (nullish item [])) \<and> roleT t = r
        \<or> (r, t) \<in> set (nullish (Option.bind existing tokensD) [])"
      using trimmed_trimmed [of approvedRoles] by (auto simp: approvedRoles_def set_mergeRoles trimmed_fixed)
  next
    fix s assume s: "s \<in> trimmed (nullish (scopesQ pending) []) \<union> (\<Union>item\<in>set [Some approvedScopes]. trimmed (nullish item []))"
      "starts_with OPERATOR_SCOPE_PREFIX s"
    have "s \<in> set approvedScopes \<or> s \<in> trimmed (nullish (scopesQ pending) [])"
      using s(1) trimmed_normalized by (auto simp: approvedScopes_def)
    then have "operatorScopeSatisfied s (set approvedScopes)"
    proof
      assume "s \<in> trimmed (nullish (scopesQ pending) [])"
      with requested_operator_scope [OF this s(2)] trimmed_fixed [OF this] p(2)
      have "operatorScopeSatisfied s (trimmed approvedScopes)"
        by (intro not_missing) (auto simp: bootstrap_refused_def split: option.splits)
      then show ?thesis by (simp add: approvedScopes_def trimmed_normalized)
    qed (rule operator_sat_refl [OF s(2)])
    then show "operatorScopeSatisfied s (trimmed (profileScopes profile))"
      by (simp add: approvedScopes_def operator_sat_normalized)
  qed
  moreover have "deviceIdD dev = deviceIdQ pending" by (simp add: dev_def approved_device_def)
  ultimately show ?thesis using store_approved_ok [of log "loadState (nowE env) st"] ok by (simp add: run)
next
  case False
  then have "snd (approveBootstrapDevicePairing env rid profile st) = st"
    by (auto simp: approveBootstrapDevicePairing_def Let_def split: option.splits)
  with False ok show ?thesis by (auto split: option.splits ApproveDevicePairingResult.splits)
qed

lemma buildDeviceAuthToken_role [simp]: "roleT (buildDeviceAuthToken env role scopes existing rot) = role"
  by (simp add: buildDeviceAuthToken_def)

lemma update_context:
  assumes "resolveDeviceTokenUpdateContext st dev rawRole = Some (device, role, existing)"
  shows "map_of (pairedByDeviceId st) (normalizeDeviceId dev) = Some device"
    "role \<in> set (listApprovedPairedDeviceRoles device)" "normalizeRole (Some rawRole) = Some role"
    "existing = map_of (nullish (tokensD device) []) role"
  using assms by (auto simp: resolveDeviceTokenUpdateContext_def split: option.splits if_splits)

lemma other_steps_ok:
  assumes ok: "paired_ok log (pairedByDeviceId st)"
  shows "paired_ok log (pairedByDeviceId (snd (verifyDeviceToken lib now dev token rawRole scopes st)))"
    and "paired_ok log (pairedByDeviceId (snd (ensureDeviceToken env dev rawRole scopes st)))"
    and "paired_ok log (pairedByDeviceId (snd (rotateDeviceToken env dev rawRole scopes' st)))"
    and "paired_ok log (pairedByDeviceId (snd (revokeDeviceToken now dev rawRole st)))"
    and "paired_ok log (pairedByDeviceId (updatePairedDeviceMetadata now dev patch st))"
proof -
  have ok': "paired_ok log (pairedByDeviceId (loadState n st))" for n using ok by simp
  show "paired_ok log (pairedByDeviceId (snd (verifyDeviceToken lib now dev token rawRole scopes st)))"
    using ok store_token_ok [OF ok'] device_token_role [OF ok]
    by (auto simp: verifyDeviceToken_def Let_def split: option.splits)
  show "paired_ok log (pairedByDeviceId (snd (ensureDeviceToken env dev rawRole scopes st)))"
    using ok store_token_ok [OF ok'] update_context [of "loadState (nowE env) st" dev rawRole]
    by (auto simp: ensureDeviceToken_def Let_def split: option.splits)
  show "paired_ok log (pairedByDeviceId (snd (rotateDeviceToken env dev rawRole scopes' st)))"
    using ok store_token_ok [OF ok'] update_context [of "loadState (nowE env) st" dev rawRole]
    by (auto simp: rotateDeviceToken_def Let_def split: option.splits)
  show "paired_ok log (pairedByDeviceId (snd (revokeDeviceToken now dev rawRole st)))"
    using ok store_token_ok [OF ok'] device_token_role [OF ok]
    by (auto simp: revokeDeviceToken_def Let_def split: option.splits)
  show "paired_ok log (pairedByDeviceId (updatePairedDeviceMetadata now dev patch st))"
  proof (cases "map_of (pairedByDeviceId st) (normalizeDeviceId dev)")
    case (Some device)
    let ?d = "device\<lparr>displayNameD := nullish (displayNameM patch) (displayNameD device),
                  clientIdD := nullish (clientIdM patch) (clientIdD device),
                  clientModeD := nullish (clientModeM patch) (clientModeD device),
                  remoteIpD := nullish (remoteIpM patch) (remoteIpD device)\<rparr>"
    from paired_ok_lookup [OF ok Some] have "device_ok log ?d" "deviceIdD ?d = normalizeDeviceId dev"
      by (simp_all add: device_ok_def baseline_def approved_or_scopes_def listApprovedPairedDeviceRoles_def)
    with paired_ok_update [OF ok, of ?d] Some show ?thesis by (simp add: updatePairedDeviceMetadata_def)
  qed (use ok in \<open>simp add: updatePairedDeviceMetadata_def\<close>)
qed

lemma pair_step_ok:
  assumes ok: "paired_ok log (pairedByDeviceId st)"
  shows "paired_ok (vouch env e st log) (pairedByDeviceId (pair_step lib env e st))"
proof (cases e)
  case (Ev_remove dev)
  with ok paired_ok_delete [OF ok] show ?thesis
    by (auto simp: removePairedDevice_def Let_def)
next
  case (Ev_clear dev)
  with ok paired_ok_delete [OF ok] show ?thesis
    by (auto simp: clearDevicePairing_def Let_def)
next
  case (Ev_approve rid callerScopes)
  then show ?thesis using approve_ok [OF ok] by simp
next
  case (Ev_bootstrap rid profile)
  then show ?thesis using bootstrap_ok [OF ok] by simp
next
  case (Ev_request details)
  with ok show ?thesis by (auto simp: requestDevicePairing_def Let_def split: prod.splits)
next
  case (Ev_reject rid)
  with ok show ?thesis by (auto simp: rejectDevicePairing_def Let_def split: option.splits)
qed (use other_steps_ok [OF ok] in simp_all)

lemma pair_run_ok:
  assumes "pair_run lib es = (st, log)"
  shows "paired_ok log (pairedByDeviceId st)"
proof -
  have "paired_ok log (pairedByDeviceId st) \<Longrightarrow>
      (case fold (\<lambda>(env, e) (st, log). (pair_step lib env e st, vouch env e st log)) es (st, log) of
        (st', log') \<Rightarrow> paired_ok log' (pairedByDeviceId st'))" for st log
  proof (induction es arbitrary: st log)
    case (Cons e es)
    show ?case using Cons.IH [OF pair_step_ok [OF Cons.prems, of "fst e" "snd e" lib]] by (simp add: case_prod_unfold)
  qed simp
  from this [of "[]" no_devices] assms show ?thesis
    by (simp add: pair_run_def no_devices_def paired_ok_def)
qed

section \<open>Scopes go back to somebody\<close>

text \<open>What a verified token says about the device.\<close>

lemma verified_token:
  assumes "fst (verifyDeviceToken lib now dev token rawRole scopes st) = Inr ()"
  obtains device role entry where
    "map_of (pairedByDeviceId st) (normalizeDeviceId dev) = Some device" "normalizeRole (Some rawRole) = Some role"
    "Option.bind (tokensD device) (\<lambda>ts. map_of ts role) = Some entry" "\<not> truthy_num (revokedAtMsT entry)"
    "verifyPairingToken lib token (tokenT entry)"
    "scopesWithinApprovedDeviceBaseline role (scopesT entry) (resolveApprovedDeviceScopeBaseline device)"
    "roleScopesAllow role (normalizeDeviceAuthScopes (Some scopes)) (scopesT entry)"
  using assms by (auto simp: verifyDeviceToken_def Let_def split: option.splits if_splits)

lemma role_sat_operator:
  "role_scope_satisfied role s G \<Longrightarrow> starts_with OPERATOR_SCOPE_PREFIX s \<Longrightarrow> operatorScopeSatisfied s G"
  by (auto simp: role_scope_satisfied_def intro: operator_sat_refl split: if_splits)

lemma verified_within_baseline:
  assumes "scopesWithinApprovedDeviceBaseline role entry (resolveApprovedDeviceScopeBaseline device)"
    "roleScopesAllow role scopes entry" "s \<in> trimmed scopes" "starts_with OPERATOR_SCOPE_PREFIX s"
  shows "operatorScopeSatisfied s (baseline device)"
proof -
  from assms(1) obtain base where base: "approved_or_scopes device = Some base"
      "roleScopesAllow role entry (normalizeDeviceAuthScopes (Some base))"
    by (auto simp: scopesWithinApprovedDeviceBaseline_def resolveApprovedDeviceScopeBaseline_def split: option.splits)
  have "role_scope_satisfied role s (trimmed entry)" using assms(2,3) by (simp add: roleScopesAllow_iff)
  then have "role_scope_satisfied role s (trimmed (normalizeDeviceAuthScopes (Some base)))"
    by (rule role_scopes.vouched_chain) (use base(2) in \<open>simp add: roleScopesAllow_iff\<close>)
  from role_sat_operator [OF this assms(4)] show ?thesis
    by (simp add: trimmed_normalized operator_sat_normalized baseline_def base(1))
qed

lemma verified_scopes_vouched:
  assumes "pair_run lib es = (st, log)" "fst (verifyDeviceToken lib now dev token rawRole scopes st) = Inr ()"
    "s \<in> set (normalizeDeviceAuthScopes (Some scopes))" "starts_with OPERATOR_SCOPE_PREFIX s"
  shows "\<exists>V. (normalizeDeviceId dev, V) \<in> set log \<and> operatorScopeSatisfied s V"
proof -
  note ok = pair_run_ok [OF assms(1)]
  obtain device role and entry :: DeviceAuthToken where v: "map_of (pairedByDeviceId st) (normalizeDeviceId dev) = Some device"
    "scopesWithinApprovedDeviceBaseline role (scopesT entry) (resolveApprovedDeviceScopeBaseline device)"
    "roleScopesAllow role (normalizeDeviceAuthScopes (Some scopes)) (scopesT entry)"
    by (rule verified_token [OF assms(2)]) (rule that, assumption+)
  have "operatorScopeSatisfied s (baseline device)"
    by (rule verified_within_baseline [OF v(2,3)]) (use assms(3,4) in \<open>simp_all add: trimmed_normalized\<close>)
  then have "\<exists>V \<in> {V. (normalizeDeviceId dev, V) \<in> set log}. operatorScopeSatisfied s V"
  proof (rule operator_scopes.vouched)
    fix g assume g: "g \<in> baseline device" "operatorScopeSatisfied s {g}"
    then have "starts_with OPERATOR_SCOPE_PREFIX g"
      using assms(4) by (auto simp: operatorScopeSatisfied_def split: if_splits)
    with g(1) paired_ok_lookup [OF ok v(1)]
    show "\<exists>V \<in> {V. (normalizeDeviceId dev, V) \<in> set log}. operatorScopeSatisfied g V"
      by (simp add: device_ok_def)
  qed
  then show ?thesis by blast
qed

text \<open>
  C20. Scopes of operators are never made up. Whatever requests, approvals, bootstraps, tokens, rotations,
  revocations and removals happen in whatever order: when a device token is accepted for some scopes, then the
  device is paired with the role, the role was approved for it, and for each operator scope among those
  asked for (and what they imply) there is somebody who vouched for the device since it was last removed
  and held that scope or one that satisfies it.
\<close>

theorem device_scopes_vouched:
  assumes "pair_run lib es = (st, log)" "fst (verifyDeviceToken lib now dev token rawRole scopes st) = Inr ()"
  shows "(\<exists>device. map_of (pairedByDeviceId st) (normalizeDeviceId dev) = Some device
      \<and> js_trim rawRole \<in> set (listApprovedPairedDeviceRoles device))
    \<and> (\<forall>s \<in> set (normalizeDeviceAuthScopes (Some scopes)). starts_with OPERATOR_SCOPE_PREFIX s \<longrightarrow>
        (\<exists>V. (normalizeDeviceId dev, V) \<in> set log \<and> operatorScopeSatisfied s V))"
proof
  from assms(2) obtain device role entry where v: "map_of (pairedByDeviceId st) (normalizeDeviceId dev) = Some device"
    "normalizeRole (Some rawRole) = Some role" "Option.bind (tokensD device) (\<lambda>ts. map_of ts role) = Some entry"
    by (rule verified_token) blast
  from v(2) have "role = js_trim rawRole" by (simp add: normalizeRole_def split: if_splits)
  with v(1) device_token_role(1) [OF pair_run_ok [OF assms(1)] v(1,3)]
  show "\<exists>device. map_of (pairedByDeviceId st) (normalizeDeviceId dev) = Some device
      \<and> js_trim rawRole \<in> set (listApprovedPairedDeviceRoles device)" by blast
qed (use verified_scopes_vouched [OF assms] in blast)

definition example_details :: DevicePairingDetails where
  "example_details = \<lparr>deviceIdQ = '' dev-1'', publicKeyQ = ''pub-1'', displayNameQ = None, platformQ = None, deviceFamilyQ = None,
     clientIdQ = None, clientModeQ = None, roleQ = Some ''operator'', rolesQ = None, scopesQ = Some [''operator.read''],
     remoteIpQ = None, silentQ = None\<rparr>"

definition example_env :: "int \<Rightarrow> PairingEnv" where
  "example_env now = \<lparr>nowE = now, uuidE = ''req-1'', newTokenE = (\<lambda>role. ''token-'' @ role)\<rparr>"

definition example_pairing :: "(PairingEnv \<times> PairEvent) list" where
  "example_pairing = [(example_env 1000, Ev_request example_details),
     (example_env 2000, Ev_approve ''req-1'' (Some [''operator.write'']))]"

lemma example_pairing_verifies:
  "fst (verifyDeviceToken example_lib 3000 ''dev-1'' ''token-operator'' ''operator'' [''operator.read'']
     (fst (pair_run example_lib example_pairing))) = Inr ()"
  by code_simp

theorem device_scopes_vouched_witness:
  "\<exists>V. (''dev-1'', V) \<in> set (snd (pair_run example_lib example_pairing)) \<and> operatorScopeSatisfied ''operator.read'' V"
proof -
  obtain st log where run: "pair_run example_lib example_pairing = (st, log)" by fastforce
  with example_pairing_verifies
  have v: "fst (verifyDeviceToken example_lib 3000 ''dev-1'' ''token-operator'' ''operator'' [''operator.read''] st) = Inr ()" by simp
  have s: "normalizeDeviceId ''dev-1'' = ''dev-1''" "''operator.read'' \<in> set (normalizeDeviceAuthScopes (Some [''operator.read'']))"
    "starts_with OPERATOR_SCOPE_PREFIX ''operator.read''" by code_simp+
  from device_scopes_vouched [OF run v] s show ?thesis unfolding run by auto
qed

section \<open>One request at a time\<close>

definition pending_ok :: "(string \<times> DevicePairingPendingRequest) list \<Rightarrow> bool" where
  "pending_ok pending \<longleftrightarrow> distinct (map fst pending) \<and> distinct (map (deviceIdQ \<circ> snd) pending)
     \<and> (\<forall>(id, p) \<in> set pending. requestIdQ p = id)"

lemma distinct_map_filter': "distinct (map f xs) \<Longrightarrow> distinct (map f (filter P xs))"
  by (induction xs) auto

lemma pending_ok_filter: "pending_ok pending \<Longrightarrow> pending_ok (filter P pending)"
  by (auto simp: pending_ok_def distinct_map_filter')

lemma pending_ok_delete: "pending_ok pending \<Longrightarrow> pending_ok (AList.delete k pending)"
  by (simp add: AList.delete_eq pending_ok_filter)

lemma pending_ok_load: "pending_ok (pendingById st) \<Longrightarrow> pending_ok (pendingById (loadState now st))"
  by (simp add: loadState_def pruneExpiredPending_def pending_ok_filter)

lemma set_pending_of: "set (pending_of dev st) = {p \<in> snd ` set (pendingById st). deviceIdQ p = dev}"
  by (auto simp: pending_of_def)

lemma pending_of_ok:
  assumes "pending_ok (pendingById st)"
  shows "pending_of dev st = [] \<or> (\<exists>p. pending_of dev st = [p] \<and> (requestIdQ p, p) \<in> set (pendingById st) \<and> deviceIdQ p = dev)"
proof -
  let ?ps = "filter (\<lambda>p. deviceIdQ p = dev) (map snd (pendingById st))"
  have "distinct (map deviceIdQ ?ps)"
    using assms by (intro distinct_map_filter') (simp add: pending_ok_def comp_def)
  moreover have "set (map deviceIdQ ?ps) \<subseteq> {dev}" by auto
  ultimately have "length ?ps \<le> 1"
    using card_mono [of "{dev}" "set (map deviceIdQ ?ps)"] by (simp only: distinct_card length_map) simp
  then consider "?ps = []" | p where "?ps = [p]" by (cases ?ps) auto
  then show ?thesis
  proof cases
    case (2 p)
    then have "pending_of dev st = [p]" by (simp add: pending_of_def)
    moreover from this have "p \<in> {p \<in> snd ` set (pendingById st). deviceIdQ p = dev}"
      unfolding set_pending_of [symmetric] by simp
    moreover from this obtain rid where "(rid, p) \<in> set (pendingById st)" by auto
    moreover from this assms have "requestIdQ p = rid" by (auto simp: pending_ok_def)
    ultimately show ?thesis by auto
  qed (simp add: pending_of_def)
qed

lemma pending_of_member:
  assumes "pending_ok (pendingById st)" "(rid, p) \<in> set (pendingById st)"
  shows "pending_of (deviceIdQ p) st = [p]"
proof -
  have "p \<in> snd ` set (pendingById st)" using image_eqI [OF _ assms(2), of p snd] by simp
  then have "p \<in> set (pending_of (deviceIdQ p) st)" unfolding set_pending_of by blast
  from pending_of_ok [OF assms(1), of "deviceIdQ p"]
  show ?thesis
  proof
    assume "pending_of (deviceIdQ p) st = []"
    with \<open>p \<in> set (pending_of (deviceIdQ p) st)\<close> show ?thesis by (simp only: list.set empty_iff)
  next
    assume "\<exists>q. pending_of (deviceIdQ p) st = [q] \<and> (requestIdQ q, q) \<in> set (pendingById st) \<and> deviceIdQ q = deviceIdQ p"
    then obtain q where q: "pending_of (deviceIdQ p) st = [q]" by blast
    with \<open>p \<in> set (pending_of (deviceIdQ p) st)\<close> have "p \<in> set [q]" by (simp only:)
    then have "p = q" by simp
    with q show ?thesis by (simp only:)
  qed
qed

lemma update_same_key:
  assumes "distinct (map fst m)" "(k, v) \<in> set m" "f v' = f v"
  shows "map (f \<circ> snd) (AList.update k v' m) = map (f \<circ> snd) m"
  using assms(1,2)
proof (induction m)
  case (Cons x m)
  show ?case
  proof (cases "fst x = k")
    case True
    with Cons.prems have "x = (k, v)" by (cases x) force
    with assms(3) show ?thesis by simp
  next
    case False
    with Cons show ?thesis by (cases x) auto
  qed
qed simp

lemma distinct_update_value:
  assumes "distinct (map (f \<circ> snd) m)" "f v \<notin> set (map (f \<circ> snd) m)"
  shows "distinct (map (f \<circ> snd) (AList.update k v m))"
  using assms
proof (induction m)
  case (Cons x m)
  moreover have "f (snd x) \<notin> set (map (f \<circ> snd) (AList.update k v m))"
  proof
    assume "f (snd x) \<in> set (map (f \<circ> snd) (AList.update k v m))"
    then obtain y where "y \<in> set (AList.update k v m)" "f (snd x) = f (snd y)" by auto
    with set_update_subset [of k v m] Cons.prems show False by (cases y) (force simp: image_iff)
  qed
  ultimately show ?case by (cases x) auto
qed simp

lemma pending_ok_update:
  assumes "pending_ok pending" "deviceIdQ r \<notin> deviceIdQ ` snd ` set pending"
  shows "pending_ok (AList.update (requestIdQ r) r pending)"
  unfolding pending_ok_def
proof (intro conjI)
  show "distinct (map fst (AList.update (requestIdQ r) r pending))" using assms(1) by (simp add: pending_ok_def)
  show "distinct (map (deviceIdQ \<circ> snd) (AList.update (requestIdQ r) r pending))"
    by (rule distinct_update_value) (use assms in \<open>auto simp: pending_ok_def image_image\<close>)
  show "\<forall>(id, p) \<in> set (AList.update (requestIdQ r) r pending). requestIdQ p = id"
    using assms(1) set_update_subset [of "requestIdQ r" r pending] by (fastforce simp: pending_ok_def)
qed

lemma pending_ok_replace:
  assumes "pending_ok pending" "(requestIdQ p, p) \<in> set pending" "requestIdQ r = requestIdQ p" "deviceIdQ r = deviceIdQ p"
  shows "pending_ok (AList.update (requestIdQ r) r pending)"
  unfolding pending_ok_def
proof (intro conjI)
  show "distinct (map fst (AList.update (requestIdQ r) r pending))" using assms(1) by (simp add: pending_ok_def)
  show "distinct (map (deviceIdQ \<circ> snd) (AList.update (requestIdQ r) r pending))"
    using assms update_same_key [of pending "requestIdQ r" p deviceIdQ r] by (simp add: pending_ok_def)
  show "\<forall>(id, p) \<in> set (AList.update (requestIdQ r) r pending). requestIdQ p = id"
    using assms(1) set_update_subset [of "requestIdQ r" r pending] by (fastforce simp: pending_ok_def)
qed

text \<open>What a request does: it refreshes the only request of its device, or replaces all of them.\<close>

lemma request_cases:
  assumes ok: "pending_ok (pendingById st)" and dev: "normalizeDeviceId (deviceIdQ details) = dev" "dev \<noteq> ''''"
  obtains (refreshed) p rep where
      "pending_of dev (loadState (nowE env) st) = [p]" "samePendingApprovalSnapshot p details"
      "(requestIdQ p, p) \<in> set (pendingById (loadState (nowE env) st))" "deviceIdQ p = dev"
      "requestDevicePairing env details st = (Inr (refreshPendingDevicePairingRequest p details rep, False),
         (loadState (nowE env) st)\<lparr>pendingById := AList.update (requestIdQ p)
           (refreshPendingDevicePairingRequest p details rep) (pendingById (loadState (nowE env) st))\<rparr>)"
    | (replaced) rep pending where
      "pending = filter (\<lambda>(_, p). deviceIdQ p \<noteq> dev) (pendingById (loadState (nowE env) st))"
      "requestDevicePairing env details st =
        (Inr (build_replacement env dev rep (pending_of dev (loadState (nowE env) st)) details, True),
         (loadState (nowE env) st)\<lparr>pendingById := AList.update (uuidE env)
           (build_replacement env dev rep (pending_of dev (loadState (nowE env) st)) details) pending\<rparr>)"
proof -
  let ?st = "loadState (nowE env) st"
  define rep where "rep = (map_of (pairedByDeviceId ?st) dev \<noteq> None)"
  have ok': "pending_ok (pendingById ?st)" by (rule pending_ok_load [OF ok])
  have uuid: "requestIdQ (build_replacement env dev rep ps details) = uuidE env" for ps
    by (simp add: build_replacement_def buildPendingDevicePairingRequest_def Let_def)
  show thesis
  proof (cases "\<exists>p. pending_of dev ?st = [p] \<and> samePendingApprovalSnapshot p details")
    case True
    then obtain p where p: "pending_of dev ?st = [p]" "samePendingApprovalSnapshot p details" by blast
    moreover have "requestIdQ (refreshPendingDevicePairingRequest p details rep) = requestIdQ p"
      by (simp add: refreshPendingDevicePairingRequest_def)
    moreover from p(1) pending_of_ok [OF ok', of dev] have "(requestIdQ p, p) \<in> set (pendingById ?st)" "deviceIdQ p = dev" by auto
    ultimately show thesis using dev
      by (intro refreshed [of p rep]) (simp_all add: requestDevicePairing_def Let_def reconcilePendingPairingRequests_def rep_def)
  next
    case False
    have "fold (\<lambda>e. AList.delete (requestIdQ e)) (pending_of dev ?st) (pendingById ?st)
        = filter (\<lambda>(_, p). deviceIdQ p \<noteq> dev) (pendingById ?st)"
    proof (cases "pending_of dev ?st = []")
      case True
      then have "\<forall>x \<in> set (pendingById ?st). deviceIdQ (snd x) \<noteq> dev"
        using set_pending_of [of dev ?st] by auto
      with True show ?thesis by (simp add: case_prod_unfold)
    next
      case False
      with pending_of_ok [OF ok', of dev] obtain p where p: "pending_of dev ?st = [p]"
          "(requestIdQ p, p) \<in> set (pendingById ?st)" "deviceIdQ p = dev" by blast
      have "requestIdQ p \<noteq> fst x \<longleftrightarrow> deviceIdQ (snd x) \<noteq> dev" if x: "x \<in> set (pendingById ?st)" for x
      proof -
        obtain rid q where q: "x = (rid, q)" by (cases x)
        show ?thesis
        proof (cases "deviceIdQ q = dev")
          case True
          with pending_of_member [OF ok' x [unfolded q]] p(1) have "q = p" by simp
          with ok' x q show ?thesis using p(3) by (auto simp: pending_ok_def)
        next
          case False
          have "rid \<noteq> requestIdQ p"
          proof
            assume "rid = requestIdQ p"
            with eq_key_imp_eq_value [of "pendingById ?st" rid q p] ok' x q p(2) have "q = p" by (simp add: pending_ok_def)
            with False p(3) show False by simp
          qed
          with False q show ?thesis by simp
        qed
      qed
      then have "filter (\<lambda>x. requestIdQ p \<noteq> fst x) (pendingById ?st) = filter (\<lambda>x. deviceIdQ (snd x) \<noteq> dev) (pendingById ?st)"
        by (rule filter_cong [OF refl])
      with p(1) show ?thesis by (simp add: AList.delete_eq case_prod_unfold)
    qed
    with False uuid dev show thesis
      by (intro replaced [of _ rep, OF refl])
        (cases "pending_of dev ?st", auto simp: requestDevicePairing_def Let_def reconcilePendingPairingRequests_def rep_def)
  qed
qed

lemma replacement_sel [simp]:
  "requestIdQ (build_replacement env dev rep ps details) = uuidE env"
  "deviceIdQ (build_replacement env dev rep ps details) = dev"
  "publicKeyQ (build_replacement env dev rep ps details) = publicKeyQ details"
  "silentQ (build_replacement env dev rep ps details) = Some (resolveSupersededPendingSilent ps (silentQ details))"
  by (simp_all add: build_replacement_def buildPendingDevicePairingRequest_def Let_def)

lemma refreshed_sel [simp]:
  "requestIdQ (refreshPendingDevicePairingRequest p details rep) = requestIdQ p"
  "deviceIdQ (refreshPendingDevicePairingRequest p details rep) = deviceIdQ p"
  "publicKeyQ (refreshPendingDevicePairingRequest p details rep) = publicKeyQ details"
  "silentQ (refreshPendingDevicePairingRequest p details rep) = Some (silentQ p = Some True \<and> silentQ details = Some True)"
  "tsQ (refreshPendingDevicePairingRequest p details rep) = tsQ p"
  "rolesQ (refreshPendingDevicePairingRequest p details rep) = rolesQ p"
  "roleQ (refreshPendingDevicePairingRequest p details rep) = roleQ p"
  "scopesQ (refreshPendingDevicePairingRequest p details rep) = scopesQ p"
  by (simp_all add: refreshPendingDevicePairingRequest_def)

lemma request_pending_ok:
  assumes ok: "pending_ok (pendingById st)"
  shows "pending_ok (pendingById (snd (requestDevicePairing env details st)))"
proof (cases "normalizeDeviceId (deviceIdQ details) = ''''")
  case True
  with ok show ?thesis by (simp add: requestDevicePairing_def)
next
  case False
  note ok' = pending_ok_load [OF ok, of "nowE env"]
  have dev: "normalizeDeviceId (deviceIdQ details) = normalizeDeviceId (deviceIdQ details)" ..
  from ok dev False show ?thesis
  proof (cases rule: request_cases [where env = env])
    case (refreshed p rep)
    with pending_ok_replace [OF ok' refreshed(3), of "refreshPendingDevicePairingRequest p details rep"] show ?thesis by simp
  next
    case (replaced rep pending)
    let ?dev = "normalizeDeviceId (deviceIdQ details)"
    let ?r = "build_replacement env ?dev rep (pending_of ?dev (loadState (nowE env) st)) details"
    have "pending_ok (AList.update (requestIdQ ?r) ?r pending)"
      by (rule pending_ok_update) (auto simp: replaced(1) pending_ok_filter [OF ok'])
    with replaced(2) show ?thesis by simp
  qed
qed

lemma store_approved_pending [simp]: "pendingById (store_approved rid dev st) = AList.delete rid (pendingById st)"
  by (simp add: store_approved_def)

lemma store_token_pending [simp]: "pendingById (store_token device role token st) = pendingById st"
  by (simp add: store_token_def)

lemma pair_step_pending:
  assumes ok: "pending_ok (pendingById st)"
  shows "pending_ok (pendingById (pair_step lib env e st))"
proof (cases e)
  case (Ev_request details)
  then show ?thesis using request_pending_ok [OF ok] by simp
qed (use ok pending_ok_load [OF ok] pending_ok_delete [OF pending_ok_load [OF ok]] in
    \<open>auto simp: approveDevicePairing_def approveBootstrapDevicePairing_def rejectDevicePairing_def removePairedDevice_def
       clearDevicePairing_def updatePairedDeviceMetadata_def verifyDeviceToken_def ensureDeviceToken_def rotateDeviceToken_def
       revokeDeviceToken_def Let_def split: option.splits\<close>)

lemma pair_run_pending:
  assumes "pair_run lib es = (st, log)"
  shows "pending_ok (pendingById st)"
proof -
  have "pending_ok (pendingById st) \<Longrightarrow>
      pending_ok (pendingById (fst (fold (\<lambda>(env, e) (st, log). (pair_step lib env e st, vouch env e st log)) es (st, log))))" for st log
  proof (induction es arbitrary: st log)
    case (Cons e es)
    show ?case using Cons.IH [OF pair_step_pending [OF Cons.prems, of lib "fst e" "snd e"]] by (simp add: case_prod_unfold)
  qed simp
  from this [of no_devices "[]"] assms show ?thesis by (simp add: pair_run_def no_devices_def pending_ok_def)
qed

section \<open>What a request asks for\<close>

lemma set_requested_roles:
  "set (resolveRequestedRoles d) = trimmed (nullish (rolesQ d) []) \<union> trimmed (nullish (one_role (roleQ d)) [])"
  by (simp add: resolveRequestedRoles_def set_mergeRoles)

lemma set_requested_scopes: "set (resolveRequestedScopes d) = set (normalizeDeviceAuthScopes (Some (nullish (scopesQ d) [])))"
  by (cases "scopesQ d") (simp_all add: resolveRequestedScopes_def set_normalizeDeviceAuthScopes)

lemma trimmed_normalizeRole: "trimmed (nullish (one_role (normalizeRole r)) []) = trimmed (nullish (one_role r) [])"
  by (cases r) (auto simp: one_role_def normalizeRole_def)

lemma replacement_roles:
  "set (resolveRequestedRoles (build_replacement env dev rep ps details))
    = (\<Union>p \<in> set ps. set (resolveRequestedRoles p)) \<union> set (resolveRequestedRoles details)"
proof -
  define merged where "merged = mergeRoles (concat (map (\<lambda>p. [rolesQ p, one_role (roleQ p)]) ps)
            @ [rolesQ details, one_role (roleQ details)])"
  define role where "role = orElse (normalizeRole (roleQ details)) (case ps of [] \<Rightarrow> None | p # _ \<Rightarrow> roleQ p)"
  have m: "trimmed (nullish merged []) = (\<Union>p \<in> set ps. set (resolveRequestedRoles p)) \<union> set (resolveRequestedRoles details)"
    by (auto simp: merged_def trimmed_merged set_requested_roles)
  have "trimmed (nullish (one_role role) []) \<subseteq> trimmed (nullish merged [])"
  proof (cases "normalizeRole (roleQ details)")
    case None
    then show ?thesis unfolding m by (cases ps) (auto simp: role_def one_role_def set_requested_roles)
  next
    case (Some r)
    then show ?thesis unfolding m using trimmed_normalizeRole [of "roleQ details"]
      by (auto simp: role_def set_requested_roles)
  qed
  then have "set (resolveRequestedRoles (build_replacement env dev rep ps details)) = trimmed (nullish merged [])"
    unfolding set_requested_roles build_replacement_def buildPendingDevicePairingRequest_def Let_def
      merged_def [symmetric] role_def [symmetric]
    by (auto simp: trimmed_merged trimmed_normalizeRole)
  with m show ?thesis by simp
qed

lemma trimmed_scopes_item: "(\<Union>item \<in> set (map f xs). trimmed (nullish item [])) = (\<Union>x \<in> set xs. trimmed (nullish (f x) []))"
  by auto

lemma normalized_union:
  assumes "trimmed xs = (\<Union>y \<in> Y. trimmed (f y)) \<union> trimmed ys"
  shows "set (normalizeDeviceAuthScopes (Some xs)) = (\<Union>y \<in> Y. set (normalizeDeviceAuthScopes (Some (f y))))
    \<union> set (normalizeDeviceAuthScopes (Some ys))"
  unfolding normalized_implied assms by blast

lemma replacement_scopes:
  "set (resolveRequestedScopes (build_replacement env dev rep ps details))
    = (\<Union>p \<in> set ps. set (resolveRequestedScopes p)) \<union> set (resolveRequestedScopes details)"
  unfolding set_requested_scopes
  by (rule normalized_union)
    (auto simp: build_replacement_def buildPendingDevicePairingRequest_def Let_def trimmed_merged)

lemma same_string_set:
  assumes "sameStringSet xs ys" "distinct xs"
  shows "set xs = set ys"
proof -
  have "set xs \<subseteq> set ys" "length xs = length ys" using assms(1) by (auto simp: sameStringSet_def list_all_iff)
  moreover have "card (set ys) \<le> length ys" by (rule card_length)
  ultimately show ?thesis using distinct_card [OF assms(2)] by (intro card_seteq) auto
qed

lemma distinct_add_trimmed: "distinct out \<Longrightarrow> distinct (add_trimmed s out)"
  by (simp add: add_trimmed_def Let_def)

lemma distinct_fold_add_trimmed: "distinct out \<Longrightarrow> distinct (fold add_trimmed xs out)"
  by (induction xs arbitrary: out) (simp_all add: distinct_add_trimmed)

lemma distinct_requested [simp]: "distinct (resolveRequestedRoles d)" "distinct (resolveRequestedScopes d)"
  by (simp_all add: resolveRequestedRoles_def mergeRoles_def resolveRequestedScopes_def
    normalizeDeviceAuthScopes_def Let_def distinct_fold_add_trimmed split: option.split)

text \<open>The requests of a device after a request was filed or replaced in an invariant store.\<close>

lemma pending_of_update:
  assumes "pending_ok (AList.update k r pending)"
  shows "pending_of (deviceIdQ r) (st\<lparr>pendingById := AList.update k r pending\<rparr>) = [r]"
proof -
  have "map_of (AList.update k r pending) k = Some r" by (simp add: update_conv)
  from map_of_SomeD [OF this] have "(k, r) \<in> set (pendingById (st\<lparr>pendingById := AList.update k r pending\<rparr>))" by simp
  from pending_of_member [OF _ this] assms show ?thesis by simp
qed

lemma refreshed_requests:
  assumes "samePendingApprovalSnapshot p details"
  shows "set (resolveRequestedRoles (refreshPendingDevicePairingRequest p details rep))
      = set (resolveRequestedRoles p) \<union> set (resolveRequestedRoles details)"
    "set (resolveRequestedScopes (refreshPendingDevicePairingRequest p details rep))
      = set (resolveRequestedScopes p) \<union> set (resolveRequestedScopes details)"
proof -
  have "set (resolveRequestedRoles p) = set (resolveRequestedRoles details)"
    "set (resolveRequestedScopes p) = set (resolveRequestedScopes details)"
    using assms same_string_set [of "resolveRequestedRoles p"] same_string_set [of "resolveRequestedScopes p"]
    by (auto simp: samePendingApprovalSnapshot_def split: if_splits)
  then show "set (resolveRequestedRoles (refreshPendingDevicePairingRequest p details rep))
      = set (resolveRequestedRoles p) \<union> set (resolveRequestedRoles details)"
    "set (resolveRequestedScopes (refreshPendingDevicePairingRequest p details rep))
      = set (resolveRequestedScopes p) \<union> set (resolveRequestedScopes details)"
    by (simp_all add: resolveRequestedRoles_def resolveRequestedScopes_def)
qed

text \<open>What a request is after it was merged with those that waited.\<close>

definition merged_request :: "DevicePairingPendingRequest list \<Rightarrow> DevicePairingDetails \<Rightarrow> DevicePairingPendingRequest \<Rightarrow> bool" where
  "merged_request before details r \<longleftrightarrow>
     set (resolveRequestedRoles r) = (\<Union>p \<in> set before. set (resolveRequestedRoles p)) \<union> set (resolveRequestedRoles details)
     \<and> set (resolveRequestedScopes r) = (\<Union>p \<in> set before. set (resolveRequestedScopes p)) \<union> set (resolveRequestedScopes details)
     \<and> publicKeyQ r = publicKeyQ details
     \<and> (silentQ r = Some True \<longleftrightarrow> silentQ details = Some True \<and> (\<forall>p \<in> set before. silentQ p = Some True))"

lemma request_merges:
  assumes ok: "pending_ok (pendingById st)" and dev: "normalizeDeviceId (deviceIdQ details) = dev" "dev \<noteq> ''''"
    and run: "requestDevicePairing env details st = (Inr (r, created), st')"
  shows "pending_of dev st' = [r]" "merged_request (pending_of dev (loadState (nowE env) st)) details r"
    "if created then requestIdQ r = uuidE env \<and> tsQ r = nowE env
      else \<exists>p \<in> set (pending_of dev (loadState (nowE env) st)). requestIdQ r = requestIdQ p \<and> tsQ r = tsQ p"
proof -
  note ok' = request_pending_ok [OF ok, of env details]
  from ok dev show "pending_of dev st' = [r]" "merged_request (pending_of dev (loadState (nowE env) st)) details r"
    "if created then requestIdQ r = uuidE env \<and> tsQ r = nowE env
      else \<exists>p \<in> set (pending_of dev (loadState (nowE env) st)). requestIdQ r = requestIdQ p \<and> tsQ r = tsQ p"
  proof (atomize(full), cases rule: request_cases [where env = env])
    case (refreshed p rep)
    with run have r: "r = refreshPendingDevicePairingRequest p details rep" "\<not> created"
      "st' = (loadState (nowE env) st)\<lparr>pendingById := AList.update (requestIdQ p) r (pendingById (loadState (nowE env) st))\<rparr>"
      by auto
    have "deviceIdQ r = dev" using refreshed(4) r(1) by simp
    with pending_of_update [of "requestIdQ p" r] ok' run r(3) have "pending_of dev st' = [r]" by auto
    with refreshed(1) refreshed_requests [OF refreshed(2)] show
      "pending_of dev st' = [r] \<and> merged_request (pending_of dev (loadState (nowE env) st)) details r
       \<and> (if created then requestIdQ r = uuidE env \<and> tsQ r = nowE env
          else \<exists>p \<in> set (pending_of dev (loadState (nowE env) st)). requestIdQ r = requestIdQ p \<and> tsQ r = tsQ p)"
      unfolding merged_request_def by (auto simp: r(1,2))
  next
    case (replaced rep pending)
    with run have r: "r = build_replacement env dev rep (pending_of dev (loadState (nowE env) st)) details" "created"
      "st' = (loadState (nowE env) st)\<lparr>pendingById := AList.update (uuidE env) r pending\<rparr>" by auto
    have "deviceIdQ r = dev" using r(1) by simp
    with pending_of_update [of "uuidE env" r] ok' run r(3) have "pending_of dev st' = [r]" by auto
    then show
      "pending_of dev st' = [r] \<and> merged_request (pending_of dev (loadState (nowE env) st)) details r
       \<and> (if created then requestIdQ r = uuidE env \<and> tsQ r = nowE env
          else \<exists>p \<in> set (pending_of dev (loadState (nowE env) st)). requestIdQ r = requestIdQ p \<and> tsQ r = tsQ p)"
      using replacement_roles [of env dev rep "pending_of dev (loadState (nowE env) st)" details]
        replacement_scopes [of env dev rep "pending_of dev (loadState (nowE env) st)" details]
      unfolding merged_request_def
      by (auto simp: r(1,2) resolveSupersededPendingSilent_def list_all_iff)
        (auto simp: build_replacement_def buildPendingDevicePairingRequest_def Let_def)
  qed
qed

lemma request_answers:
  "js_trim (deviceIdQ details) \<noteq> '''' \<Longrightarrow> \<exists>r created st'. requestDevicePairing env details st = (Inr (r, created), st')"
  by (auto simp: requestDevicePairing_def normalizeDeviceId_def Let_def split: prod.split)

text \<open>
  A device has one request at a time. Whatever happened before, a device that asks to be paired then has exactly
  one request: it asks for the roles and the scopes of all requests of the device that waited, and for those of the
  new one, it has the key the device just sent, and it is approved silently only if all of them were to be.
  Unless it is a new one it keeps the id and the age of one that waited.
\<close>

theorem pairing_request_spec:
  assumes "pair_run lib es = (st, log)" "js_trim (deviceIdQ details) \<noteq> ''''"
    "requestDevicePairing env details st = (Inr (r, created), st')"
  shows "(let dev = js_trim (deviceIdQ details); before = pending_of dev (loadState (nowE env) st)
     in pending_of dev st' = [r] \<and> merged_request before details r
       \<and> (if created then requestIdQ r = uuidE env \<and> tsQ r = nowE env
          else \<exists>p \<in> set before. requestIdQ r = requestIdQ p \<and> tsQ r = tsQ p))"
  using request_merges [OF pair_run_pending [OF assms(1)] normalizeDeviceId_def assms(2,3)] by (simp add: Let_def)

theorem pairing_request_spec_witness:
  "\<exists>r created st'. requestDevicePairing (example_env 5000) example_details (fst (pair_run example_lib
       [(example_env 1000, Ev_request (example_details\<lparr>scopesQ := Some [''operator.write'']\<rparr>))])) = (Inr (r, created), st')
     \<and> merged_request (pending_of ''dev-1'' (loadState 5000 (fst (pair_run example_lib
       [(example_env 1000, Ev_request (example_details\<lparr>scopesQ := Some [''operator.write'']\<rparr>))])))) example_details r"
proof -
  let ?run = "pair_run example_lib [(example_env 1000, Ev_request (example_details\<lparr>scopesQ := Some [''operator.write'']\<rparr>))]"
  have d: "js_trim (deviceIdQ example_details) = ''dev-1''" by code_simp
  from request_answers [of example_details "example_env 5000" "fst ?run"] obtain r created st'
    where req: "requestDevicePairing (example_env 5000) example_details (fst ?run) = (Inr (r, created), st')"
    unfolding d by blast
  from pairing_request_spec [of example_lib _ "fst ?run" "snd ?run" example_details "example_env 5000" r created st']
  have "merged_request (pending_of ''dev-1'' (loadState 5000 (fst ?run))) example_details r"
    using req d by (simp add: Let_def example_env_def)
  with req show ?thesis by blast
qed

end
