(* ===== verification/DeviceLogin.thy ===== *)
theory DeviceLogin
  imports DevicePairingProps
begin

text \<open>
  Devices that log in: what becomes of a token that is revoked, and what a handshake grants to a device that is
  paired.
\<close>

section \<open>Revoked tokens\<close>

definition token_of :: "DevicePairingStateFile \<Rightarrow> string \<Rightarrow> string \<Rightarrow> DeviceAuthToken option" where
  "token_of st dev role =
     Option.bind (map_of (pairedByDeviceId st) dev) (\<lambda>d. Option.bind (tokensD d) (\<lambda>ts. map_of ts role))"

text \<open>The events that give a device a token for a role: the approval of a request of it, and its own token updates.\<close>

fun reissues :: "string \<Rightarrow> string \<Rightarrow> PairingEnv \<Rightarrow> PairEvent \<Rightarrow> DevicePairingStateFile \<Rightarrow> bool" where
  "reissues dev role env (Ev_approve rid _) st \<longleftrightarrow>
     map_option deviceIdQ (map_of (pendingById (loadState (nowE env) st)) rid) = Some dev"
| "reissues dev role env (Ev_bootstrap rid _) st \<longleftrightarrow>
     map_option deviceIdQ (map_of (pendingById (loadState (nowE env) st)) rid) = Some dev"
| "reissues dev role env (Ev_ensure d r _) st \<longleftrightarrow> js_trim d = dev \<and> js_trim r = role"
| "reissues dev role env (Ev_rotate d r _) st \<longleftrightarrow> js_trim d = dev \<and> js_trim r = role"
| "reissues dev role env _ st \<longleftrightarrow> False"

fun never_reissued :: "'ip GatewayLib \<Rightarrow> string \<Rightarrow> string \<Rightarrow> (PairingEnv \<times> PairEvent) list \<Rightarrow> DevicePairingStateFile \<Rightarrow> bool" where
  "never_reissued lib dev role [] st \<longleftrightarrow> True"
| "never_reissued lib dev role (x # es) st \<longleftrightarrow> \<not> reissues dev role (fst x) (snd x) st
     \<and> never_reissued lib dev role es (pair_step lib (fst x) (snd x) st)"

definition pair_more :: "'ip GatewayLib \<Rightarrow> (PairingEnv \<times> PairEvent) list \<Rightarrow> DevicePairingStateFile \<Rightarrow> DevicePairingStateFile" where
  "pair_more lib es st = fold (\<lambda>x. pair_step lib (fst x) (snd x)) es st"

text \<open>A role for which the device has no token, or a revoked one.\<close>

definition token_dead :: "string \<Rightarrow> string \<Rightarrow> DevicePairingStateFile \<Rightarrow> bool" where
  "token_dead dev role st \<longleftrightarrow> (\<forall>t. token_of st dev role = Some t \<longrightarrow> truthy_num (revokedAtMsT t))"

lemma token_of_load [simp]: "token_of (loadState now st) = token_of st"
  by (simp add: token_of_def fun_eq_iff)

lemma token_of_store_token:
  assumes "map_of (pairedByDeviceId st) d = Some device" "deviceIdD device = d"
  shows "token_of (store_token device role t st) dev r = (if dev = d \<and> r = role then Some t else token_of st dev r)"
  using assms by (cases "tokensD device") (auto simp: token_of_def store_token_def update_conv')

lemma token_of_store_approved:
  "dev \<noteq> deviceIdD device \<Longrightarrow> token_of (store_approved rid device st) dev r = token_of st dev r"
  by (simp add: token_of_def store_approved_def update_conv')

lemma token_of_delete: "token_of (st\<lparr>pairedByDeviceId := AList.delete d (pairedByDeviceId st)\<rparr>) dev r
    = (if dev = d then None else token_of st dev r)"
  by (simp add: token_of_def delete_conv')

lemma normalizeRole_SomeD: "normalizeRole (Some r) = Some role \<Longrightarrow> role = js_trim r"
  by (simp add: normalizeRole_def split: if_splits)

lemma approved_device_id [simp]: "deviceIdD (approved_device env pending existing roles scopes tokens) = deviceIdQ pending"
  by (simp add: approved_device_def)

lemma approve_dead:
  assumes "\<not> reissues dev role env (Ev_approve rid callerScopes) st" "token_dead dev role st"
  shows "token_dead dev role (snd (approveDevicePairing env rid callerScopes st))"
  using assms by (auto simp: approveDevicePairing_def Let_def token_dead_def token_of_store_approved split: option.splits)

lemma bootstrap_dead:
  assumes "\<not> reissues dev role env (Ev_bootstrap rid profile) st" "token_dead dev role st"
  shows "token_dead dev role (snd (approveBootstrapDevicePairing env rid profile st))"
  using assms by (auto simp: approveBootstrapDevicePairing_def Let_def token_dead_def token_of_store_approved split: option.splits)

lemma paired_keys:
  assumes "paired_ok log (pairedByDeviceId st)" "map_of (pairedByDeviceId st) d = Some device"
  shows "token_of (store_token device role t (loadState now st)) dev r = (if dev = d \<and> r = role then Some t else token_of st dev r)"
  using token_of_store_token [of "loadState now st" d device role t dev r] paired_ok_lookup(1) [OF assms] assms(2) by simp

lemma verify_dead:
  assumes ok: "paired_ok log (pairedByDeviceId st)" and dead: "token_dead dev role st"
  shows "token_dead dev role (snd (verifyDeviceToken lib now d token rawRole scopes st))"
proof (cases "fst (verifyDeviceToken lib now d token rawRole scopes st)")
  case (Inl reason)
  then have "snd (verifyDeviceToken lib now d token rawRole scopes st) = st"
    by (auto simp: verifyDeviceToken_def Let_def split: option.splits if_splits)
  with dead show ?thesis by simp
next
  case (Inr u)
  then have "fst (verifyDeviceToken lib now d token rawRole scopes st) = Inr ()" by simp
  then obtain device r entry where v: "map_of (pairedByDeviceId st) (normalizeDeviceId d) = Some device"
      "Option.bind (tokensD device) (\<lambda>ts. map_of ts r) = Some entry" "\<not> truthy_num (revokedAtMsT entry)"
      "snd (verifyDeviceToken lib now d token rawRole scopes st) = store_token device r (entry\<lparr>lastUsedAtMsT := Some now\<rparr>) (loadState now st)"
    by (auto simp: verifyDeviceToken_def Let_def split: option.splits if_splits)
  have "token_of st (normalizeDeviceId d) r = Some entry" using v(1,2) by (simp add: token_of_def)
  with dead v(3) have "\<not> (dev = normalizeDeviceId d \<and> role = r)" by (auto simp: token_dead_def)
  with dead show ?thesis unfolding v(4) token_dead_def paired_keys [OF ok v(1)] by auto
qed

lemma ensure_dead:
  assumes ok: "paired_ok log (pairedByDeviceId st)" and dead: "token_dead dev role st"
    and "\<not> reissues dev role env (Ev_ensure d r scopes) st"
  shows "token_dead dev role (snd (ensureDeviceToken env d r scopes st))"
proof -
  have "token_dead dev role (store_token device r' t (loadState (nowE env) st))"
    if "resolveDeviceTokenUpdateContext (loadState (nowE env) st) d r = Some (device, r', existing)" for device r' existing t
  proof -
    note c = update_context [OF that, simplified]
    from assms(3) have "\<not> (dev = normalizeDeviceId d \<and> role = r')"
      using normalizeRole_SomeD [OF c(3)] by (auto simp: normalizeDeviceId_def)
    with dead show ?thesis unfolding token_dead_def paired_keys [OF ok c(1)] by auto
  qed
  with dead show ?thesis by (auto simp: ensureDeviceToken_def Let_def split: option.splits)
qed

lemma rotate_dead:
  assumes ok: "paired_ok log (pairedByDeviceId st)" and dead: "token_dead dev role st"
    and "\<not> reissues dev role env (Ev_rotate d r scopes) st"
  shows "token_dead dev role (snd (rotateDeviceToken env d r scopes st))"
proof -
  have "token_dead dev role (store_token device r' t (loadState (nowE env) st))"
    if "resolveDeviceTokenUpdateContext (loadState (nowE env) st) d r = Some (device, r', existing)" for device r' existing t
  proof -
    note c = update_context [OF that, simplified]
    from assms(3) have "\<not> (dev = normalizeDeviceId d \<and> role = r')"
      using normalizeRole_SomeD [OF c(3)] by (auto simp: normalizeDeviceId_def)
    with dead show ?thesis unfolding token_dead_def paired_keys [OF ok c(1)] by auto
  qed
  with dead show ?thesis by (auto simp: rotateDeviceToken_def Let_def split: option.splits)
qed

text \<open>What a revocation does, and that it leaves every other token alone.\<close>

lemma revoke_cases:
  assumes ok: "paired_ok log (pairedByDeviceId st)"
  obtains "fst (revokeDeviceToken now d rawRole st) = None" "snd (revokeDeviceToken now d rawRole st) = st"
  | t where "fst (revokeDeviceToken now d rawRole st) = Some (t\<lparr>revokedAtMsT := Some now\<rparr>)"
      "\<And>dev r. token_of (snd (revokeDeviceToken now d rawRole st)) dev r =
        (if dev = js_trim d \<and> r = js_trim rawRole then Some (t\<lparr>revokedAtMsT := Some now\<rparr>) else token_of st dev r)"
proof (cases "fst (revokeDeviceToken now d rawRole st)")
  case None
  then have "snd (revokeDeviceToken now d rawRole st) = st"
    by (auto simp: revokeDeviceToken_def Let_def split: option.splits)
  with None show thesis by (rule that(1))
next
  case (Some t')
  then obtain device role t where v: "map_of (pairedByDeviceId st) (normalizeDeviceId d) = Some device"
      "normalizeRole (Some rawRole) = Some role" "t' = t\<lparr>revokedAtMsT := Some now\<rparr>"
      "snd (revokeDeviceToken now d rawRole st) = store_token device role t' (loadState now st)"
    by (auto simp: revokeDeviceToken_def Let_def split: option.splits)
  show thesis
  proof (rule that(2) [of t])
    show "fst (revokeDeviceToken now d rawRole st) = Some (t\<lparr>revokedAtMsT := Some now\<rparr>)" using Some v(3) by simp
    show "token_of (snd (revokeDeviceToken now d rawRole st)) dev r =
        (if dev = js_trim d \<and> r = js_trim rawRole then Some (t\<lparr>revokedAtMsT := Some now\<rparr>) else token_of st dev r)" for dev r
      unfolding v(4) paired_keys [OF ok v(1)] v(3) [symmetric] using normalizeRole_SomeD [OF v(2)] by (simp add: normalizeDeviceId_def)
  qed
qed

lemma revoke_dead:
  assumes "paired_ok log (pairedByDeviceId st)" "token_dead dev role st" "now \<noteq> 0"
  shows "token_dead dev role (snd (revokeDeviceToken now d rawRole st))"
  by (rule revoke_cases [OF assms(1), of now d rawRole])
    (use assms(2,3) in \<open>auto simp: token_dead_def truthy_num_def\<close>)

lemma metadata_token_of:
  "paired_ok log (pairedByDeviceId st) \<Longrightarrow> token_of (updatePairedDeviceMetadata now d patch st) = token_of st"
  by (auto simp: updatePairedDeviceMetadata_def Let_def token_of_def fun_eq_iff update_conv' split: option.splits)

lemma pair_step_dead:
  assumes ok: "paired_ok log (pairedByDeviceId st)" and dead: "token_dead dev role st"
    and "\<not> reissues dev role env e st" "nowE env \<noteq> 0"
  shows "token_dead dev role (pair_step lib env e st)"
proof (cases e)
  case (Ev_request details)
  with dead show ?thesis
    by (auto simp: requestDevicePairing_def Let_def token_dead_def token_of_def split: prod.splits)
next
  case (Ev_reject rid)
  with dead show ?thesis
    by (auto simp: rejectDevicePairing_def Let_def token_dead_def token_of_def split: option.splits)
next
  case (Ev_remove d)
  with dead token_of_delete [where st = "loadState (nowE env) st"] show ?thesis
    by (auto simp: removePairedDevice_def Let_def token_dead_def)
next
  case (Ev_clear d)
  with dead token_of_delete [where st = "loadState (nowE env) st"] show ?thesis
    by (auto simp: clearDevicePairing_def Let_def token_dead_def)
next
  case (Ev_metadata d patch)
  with dead metadata_token_of [OF ok] show ?thesis by (simp add: token_dead_def)
qed (use assms approve_dead bootstrap_dead verify_dead [OF ok dead] ensure_dead [OF ok dead] rotate_dead [OF ok dead]
    revoke_dead [OF ok dead] in simp_all)

lemma pair_more_dead:
  assumes "paired_ok log (pairedByDeviceId st)" "token_dead dev role st" "never_reissued lib dev role es st"
    "\<forall>x \<in> set es. nowE (fst x) \<noteq> 0"
  shows "token_dead dev role (pair_more lib es st)"
  using assms
proof (induction es arbitrary: st log)
  case (Cons x es)
  have "token_dead dev role (pair_more lib es (pair_step lib (fst x) (snd x) st))"
    by (rule Cons.IH [OF pair_step_ok [OF Cons.prems(1)] pair_step_dead [OF Cons.prems(1,2)]])
      (use Cons.prems in auto)
  then show ?case by (simp add: pair_more_def)
qed (simp add: pair_more_def)

lemma dead_not_verified:
  assumes "token_dead (js_trim d) (js_trim rawRole) st"
  shows "fst (verifyDeviceToken lib now d token rawRole scopes st) \<noteq> Inr ()"
proof
  assume "fst (verifyDeviceToken lib now d token rawRole scopes st) = Inr ()"
  then obtain device role entry where v: "map_of (pairedByDeviceId st) (normalizeDeviceId d) = Some device"
    "normalizeRole (Some rawRole) = Some role" "Option.bind (tokensD device) (\<lambda>ts. map_of ts role) = Some entry"
    "\<not> truthy_num (revokedAtMsT entry)"
    by (rule verified_token) (rule that, assumption+)
  have "token_of st (js_trim d) (js_trim rawRole) = Some entry"
    using v(1,3) normalizeRole_SomeD [OF v(2)] by (simp add: token_of_def normalizeDeviceId_def)
  with assms v(4) show False by (auto simp: token_dead_def)
qed

text \<open>
  C21. A revoked token stays revoked. In every reachable state a revocation that answers with a token revokes the
  token of that device and role and leaves every other token as it is; afterwards, whatever requests, rejections,
  removals, verifications, updates and approvals of others follow, no token is accepted for the device and the
  role, unless a request of the device is approved again or the token is asked for again by its device and role.
\<close>

theorem revoked_stays_revoked:
  assumes "pair_run lib before = (st, log)" "fst (revokeDeviceToken now dev role st) = Some t" "now \<noteq> 0"
    "st' = snd (revokeDeviceToken now dev role st)" "never_reissued lib (js_trim dev) (js_trim role) after st'"
    "\<forall>x \<in> set after. nowE (fst x) \<noteq> 0"
  shows "fst (verifyDeviceToken lib later dev token role scopes (pair_more lib after st')) \<noteq> Inr ()
    \<and> (\<forall>d r. d \<noteq> js_trim dev \<or> r \<noteq> js_trim role \<longrightarrow> token_of st' d r = token_of st d r)"
proof
  note ok = pair_run_ok [OF assms(1)]
  from revoke_cases [OF ok, of now dev role] assms(2)
  obtain t0 where r: "\<And>d r. token_of st' d r =
      (if d = js_trim dev \<and> r = js_trim role then Some (t0\<lparr>revokedAtMsT := Some now\<rparr>) else token_of st d r)"
    unfolding assms(4) by auto
  then show "\<forall>d r. d \<noteq> js_trim dev \<or> r \<noteq> js_trim role \<longrightarrow> token_of st' d r = token_of st d r" by auto
  have "paired_ok log (pairedByDeviceId st')" unfolding assms(4) by (rule other_steps_ok(4) [OF ok])
  moreover have "token_dead (js_trim dev) (js_trim role) st'" using r assms(3) by (auto simp: token_dead_def truthy_num_def)
  ultimately show "fst (verifyDeviceToken lib later dev token role scopes (pair_more lib after st')) \<noteq> Inr ()"
    by (intro dead_not_verified pair_more_dead [OF _ _ assms(5,6)])
qed

theorem revoked_stays_revoked_witness:
  "fst (verifyDeviceToken example_lib 9000 ''dev-1'' ''token-operator'' ''operator'' [''operator.read'']
      (pair_more example_lib [(example_env 5000, Ev_request example_details), (example_env 6000, Ev_metadata ''dev-1''
          \<lparr>displayNameM = None, clientIdM = None, clientModeM = None, remoteIpM = None\<rparr>)]
        (snd (revokeDeviceToken 4000 ''dev-1'' ''operator'' (fst (pair_run example_lib example_pairing)))))) \<noteq> Inr ()"
proof -
  let ?es = "[(example_env 5000, Ev_request example_details), (example_env 6000, Ev_metadata ''dev-1''
          \<lparr>displayNameM = None, clientIdM = None, clientModeM = None, remoteIpM = None\<rparr>)]"
  obtain st log where run: "pair_run example_lib example_pairing = (st, log)" by fastforce
  have "fst (revokeDeviceToken 4000 ''dev-1'' ''operator'' (fst (pair_run example_lib example_pairing))) \<noteq> None" by code_simp
  then obtain t where t: "fst (revokeDeviceToken 4000 ''dev-1'' ''operator'' st) = Some t" unfolding run by auto
  show ?thesis
    using revoked_stays_revoked [OF run t _ refl, of ?es 9000 "''token-operator''" "[''operator.read'']"]
    by (simp add: run example_env_def)
qed

end
