(* ===== verification/DeviceBootstrapProps.thy ===== *)
theory DeviceBootstrapProps
  imports DeviceBootstrap DeviceLogin
begin

text \<open>
  What bootstrap tokens promise: a token works for ten minutes, within the profile it was issued with, until it is
  revoked, and only for the device that used it first.
\<close>

section \<open>Normal public keys\<close>

lemma base64_char_in: "base64_char n \<in> set base64_alphabet"
proof -
  have "length base64_alphabet = 64" by code_simp
  then show ?thesis unfolding base64_char_def by (intro nth_mem) simp
qed

definition base64_text :: "string \<Rightarrow> bool" where
  "base64_text s \<longleftrightarrow> (\<exists>body pad. s = body @ replicate pad CHR ''='' \<and> set body \<subseteq> set base64_alphabet)"

lemma base64_text_padding: "base64_text (replicate n CHR ''='')"
  unfolding base64_text_def by (intro exI [of _ "[]"] exI [of _ n]) simp

lemma base64_text_Cons: "base64_text s \<Longrightarrow> base64_text (base64_char n # s)"
proof -
  assume "base64_text s"
  then obtain body pad where "s = body @ replicate pad CHR ''=''" "set body \<subseteq> set base64_alphabet"
    unfolding base64_text_def by blast
  then show "base64_text (base64_char n # s)"
    unfolding base64_text_def by (intro exI [of _ "base64_char n # body"] exI [of _ pad]) (simp add: base64_char_in)
qed

lemma toBase64_text: "base64_text (toBase64 bs)"
proof -
  have pads: "base64_text ''''" "base64_text ''=''" "base64_text ''==''"
    using base64_text_padding [of 0] base64_text_padding [of "Suc 0"] base64_text_padding [of "Suc (Suc 0)"]
    by (simp_all only: replicate.simps)
  show ?thesis
  proof (induction bs rule: toBase64.induct)
    case (4 a b c rest)
    note rest = 4 [OF refl]
    show ?case unfolding toBase64.simps Let_def append.simps by (intro base64_text_Cons rest)
  qed (unfold toBase64.simps Let_def append.simps, (intro pads base64_text_Cons)+)
qed

definition url_alphabet :: string where
  "url_alphabet = replaceAllChar CHR ''/'' CHR ''_'' (replaceAllChar CHR ''+'' CHR ''-'' base64_alphabet)"

lemma base64UrlEncode_chars: "set (base64UrlEncode bs) \<subseteq> set url_alphabet"
proof -
  obtain body pad where b: "toBase64 bs = body @ replicate pad CHR ''=''" "set body \<subseteq> set base64_alphabet"
    using toBase64_text [of bs] unfolding base64_text_def by blast
  let ?r = "\<lambda>s. replaceAllChar CHR ''/'' CHR ''_'' (replaceAllChar CHR ''+'' CHR ''-'' s)"
  have r: "?r (toBase64 bs) = ?r body @ replicate pad CHR ''=''" by (simp add: b(1) replaceAllChar_def)
  have sub: "set (?r body) \<subseteq> set url_alphabet" using b(2) by (auto simp: replaceAllChar_def url_alphabet_def)
  have drop: "dropWhile (\<lambda>c. c = CHR ''='') (replicate pad CHR ''='' @ xs) = dropWhile (\<lambda>c. c = CHR ''='') xs" for xs
    by (induction pad) simp_all
  have "set (dropWhile (\<lambda>c. c = CHR ''='') (rev (?r body))) \<subseteq> set (?r body)"
    using set_dropWhileD by fastforce
  with sub show ?thesis unfolding base64UrlEncode_def r by (simp add: drop)
qed

lemma url_alphabet_plain: "c \<in> set url_alphabet \<Longrightarrow> \<not> js_ws c \<and> c \<notin> set ''+/=''"
proof -
  have "list_all (\<lambda>c. \<not> js_ws c \<and> c \<notin> set ''+/='') url_alphabet" by code_simp
  then show "c \<in> set url_alphabet \<Longrightarrow> \<not> js_ws c \<and> c \<notin> set ''+/=''" unfolding list_all_iff by blast
qed

lemma js_trim_plain: "\<forall>c \<in> set s. \<not> js_ws c \<Longrightarrow> js_trim s = s"
proof -
  assume a: "\<forall>c \<in> set s. \<not> js_ws c"
  then have "dropWhile js_ws s = s" by (cases s) auto
  moreover from a have "dropWhile js_ws (rev s) = rev s" by (cases s rule: rev_cases) auto
  ultimately show ?thesis by (simp add: js_trim_def)
qed

text \<open>What the library does not accept as a key: text in the alphabet of base64url, which is no PEM.\<close>

definition pem_only :: "KeyLib \<Rightarrow> bool" where
  "pem_only klib \<longleftrightarrow> (\<forall>s. set s \<subseteq> set url_alphabet \<longrightarrow> spki_der klib s = None)"

lemma normalized_key_fixed:
  assumes "pem_only klib"
  shows "normalizeBootstrapPublicKey klib (normalizeBootstrapPublicKey klib key) = normalizeBootstrapPublicKey klib key"
proof -
  let ?s = "js_trim key"
  have encoded: "normalizeBootstrapPublicKey klib (base64UrlEncode bs) = base64UrlEncode bs" for bs
  proof -
    let ?e = "base64UrlEncode bs"
    have c: "\<forall>c \<in> set ?e. \<not> js_ws c \<and> c \<notin> set ''+/=''" using base64UrlEncode_chars url_alphabet_plain by blast
    then have t: "js_trim ?e = ?e" by (intro js_trim_plain) blast
    have "\<not> list_ex (\<lambda>c. c \<in> set ''+/='') ?e" using c by (auto simp: list_ex_iff)
    moreover have "js_includes ''BEGIN'' ?e \<Longrightarrow> normalizeDevicePublicKeyBase64Url klib ?e = None"
      using assms base64UrlEncode_chars [of bs] by (simp add: normalizeDevicePublicKeyBase64Url_def derivePublicKeyRaw_def pem_only_def)
    ultimately show ?thesis by (auto simp: normalizeBootstrapPublicKey_def Let_def t nullish_def)
  qed
  show ?thesis
  proof (cases "?s \<noteq> '''' \<and> (js_includes ''BEGIN'' ?s \<or> list_ex (\<lambda>c. c \<in> set ''+/='') ?s)")
    case True
    show ?thesis
    proof (cases "normalizeDevicePublicKeyBase64Url klib ?s")
      case None
      with True have "normalizeBootstrapPublicKey klib key = ?s" "normalizeBootstrapPublicKey klib ?s = ?s"
        by (auto simp: normalizeBootstrapPublicKey_def Let_def)
      then show ?thesis by simp
    next
      case (Some e)
      then obtain bs where "e = base64UrlEncode bs"
        by (auto simp: normalizeDevicePublicKeyBase64Url_def Let_def split: if_splits)
      moreover from True Some have "normalizeBootstrapPublicKey klib key = e"
        by (auto simp: normalizeBootstrapPublicKey_def Let_def)
      ultimately show ?thesis using encoded by simp
    qed
  next
    case False
    then have "normalizeBootstrapPublicKey klib key = ?s" "normalizeBootstrapPublicKey klib ?s = ?s"
      by (auto simp: normalizeBootstrapPublicKey_def Let_def)
    then show ?thesis by simp
  qed
qed

section \<open>Normal profiles\<close>

definition same_profile :: "DeviceBootstrapProfile \<Rightarrow> DeviceBootstrapProfile \<Rightarrow> bool" where
  "same_profile p q \<longleftrightarrow> set (profileRoles p) = set (profileRoles q) \<and> set (profileScopes p) = set (profileScopes q)"

definition normal_profile :: "DeviceBootstrapProfile \<Rightarrow> bool" where
  "normal_profile p \<longleftrightarrow> trimmed (profileRoles p) = set (profileRoles p)
     \<and> set (normalizeDeviceAuthScopes (Some (profileScopes p))) = set (profileScopes p)"

lemma set_normalizeBootstrapRoles: "set (normalizeBootstrapRoles (Some rs)) = trimmed rs"
proof -
  have "(\<lambda>role out. let normalized = normalizeDeviceAuthRole role in if normalized \<noteq> '''' then set_add normalized out else out) = add_trimmed"
    by (simp add: add_trimmed_def normalizeDeviceAuthRole_def fun_eq_iff)
  then show ?thesis by (simp add: normalizeBootstrapRoles_def set_fold_add_trimmed)
qed

lemma implied_closed: "s \<in> implied_scopes t \<Longrightarrow> implied_scopes s \<subseteq> implied_scopes t"
  by (auto simp: implied_scopes_def split: if_splits)

lemma normalized_twice:
  "set (normalizeDeviceAuthScopes (Some (normalizeDeviceAuthScopes (Some xs)))) = set (normalizeDeviceAuthScopes (Some xs))"
proof -
  have "s \<in> implied_scopes s" for s by (simp add: implied_scopes_def)
  with implied_closed show ?thesis unfolding normalized_implied [of "normalizeDeviceAuthScopes _"] trimmed_normalized
    unfolding normalized_implied by blast
qed

lemma normal_normalized: "normal_profile (normalizeDeviceBootstrapProfile input)"
proof -
  have "trimmed (normalizeBootstrapRoles rs) = set (normalizeBootstrapRoles rs)" for rs
  proof (cases rs)
    case None
    then show ?thesis by (simp add: normalizeBootstrapRoles_def)
  next
    case (Some xs)
    show ?thesis unfolding Some
      by (rule trimmed_trimmed) (use trimmed_fixed [of _ xs] in \<open>simp add: set_normalizeBootstrapRoles\<close>)
  qed
  then show ?thesis by (simp add: normal_profile_def normalizeDeviceBootstrapProfile_def normalized_twice)
qed

lemma normal_issued: "normal_profile (resolveIssuedBootstrapProfile profile roles scopes)"
proof -
  have "normal_profile PAIRING_SETUP_BOOTSTRAP_PROFILE"
  proof -
    have "trimmed [''node'', ''operator''] = set [''node'', ''operator'']" by code_simp
    moreover have "set (normalizeDeviceAuthScopes (Some BOOTSTRAP_HANDOFF_OPERATOR_SCOPES)) = set BOOTSTRAP_HANDOFF_OPERATOR_SCOPES"
      unfolding set_normalizeDeviceAuthScopes by code_simp
    ultimately show ?thesis by (simp add: normal_profile_def PAIRING_SETUP_BOOTSTRAP_PROFILE_def)
  qed
  then show ?thesis by (auto simp: resolveIssuedBootstrapProfile_def normal_normalized split: option.split)
qed

lemma same_normalized: "normal_profile p \<Longrightarrow> same_profile (normalizeDeviceBootstrapProfile (Some (profile_input p))) p"
  by (simp add: same_profile_def normal_profile_def normalizeDeviceBootstrapProfile_def profile_input_def set_normalizeBootstrapRoles)

lemma same_profile_trans: "same_profile p q \<Longrightarrow> same_profile q r \<Longrightarrow> same_profile p r"
  by (simp add: same_profile_def)

lemma normal_persisted: "normal_profile (resolvePersistedBootstrapProfile r)"
  by (simp add: resolvePersistedBootstrapProfile_def normal_normalized)

section \<open>Runs\<close>

datatype BootEvent =
    Be_issue int string "DeviceBootstrapProfileInput option" "string list option" "string list option"
  | Be_clear int
  | Be_revoke int string
  | Be_restore int DeviceBootstrapTokenRecord
  | Be_redeem int string string "string list"
  | Be_verify int string string string string "string list"

text \<open>
  What has happened: the tokens that were issued, with their time and profile; the device that a token was accepted
  for, with its key; and the tokens that were revoked or cleared and not restored, with the records that the
  revocations gave back and that were not restored yet.
\<close>

record BootLog =
  issuedL :: "(string \<times> int \<times> DeviceBootstrapProfile) list"
  acceptedL :: "(string \<times> string \<times> string) list"
  revokedL :: "string list"
  recordsL :: "DeviceBootstrapTokenRecord list"

fun boot_file :: "'ip GatewayLib \<Rightarrow> KeyLib \<Rightarrow> BootEvent \<Rightarrow> BootstrapFile \<Rightarrow> BootstrapFile" where
  "boot_file lib klib (Be_issue now token profile roles scopes) file = snd (issueDeviceBootstrapToken now token profile roles scopes file)"
| "boot_file lib klib (Be_clear now) file = snd (clearDeviceBootstrapTokens now file)"
| "boot_file lib klib (Be_revoke now token) file = snd (revokeDeviceBootstrapToken lib now token file)"
| "boot_file lib klib (Be_restore now r) file = restoreDeviceBootstrapToken now r file"
| "boot_file lib klib (Be_redeem now token role scopes) file = snd (redeemDeviceBootstrapTokenProfile lib now token role scopes file)"
| "boot_file lib klib (Be_verify now token dev key role scopes) file =
     snd (verifyDeviceBootstrapToken lib klib now token dev key role scopes file)"

text \<open>The token of the file that a provided token is the same as.\<close>

definition same_secret :: "'ip GatewayLib \<Rightarrow> string \<Rightarrow> string \<Rightarrow> bool" where
  "same_secret lib provided token \<longleftrightarrow> sha256 lib (js_trim provided) = sha256 lib token"

fun boot_log :: "'ip GatewayLib \<Rightarrow> KeyLib \<Rightarrow> BootEvent \<Rightarrow> BootstrapFile \<Rightarrow> BootLog \<Rightarrow> BootLog" where
  "boot_log lib klib (Be_issue now token profile roles scopes) file log =
     log\<lparr>issuedL := (token, now, resolveIssuedBootstrapProfile profile roles scopes) # issuedL log\<rparr>"
| "boot_log lib klib (Be_clear now) file log = log\<lparr>revokedL := map fst (issuedL log)\<rparr>"
| "boot_log lib klib (Be_revoke now token) file log = (case fst (revokeDeviceBootstrapToken lib now token file) of
     None \<Rightarrow> log | Some r \<Rightarrow> log\<lparr>revokedL := tokenB r # revokedL log, recordsL := r # recordsL log\<rparr>)"
| "boot_log lib klib (Be_restore now r) file log = log\<lparr>revokedL := filter (\<lambda>t. t \<noteq> tokenB r) (revokedL log), recordsL := filter (\<lambda>x. tokenB x \<noteq> tokenB r) (recordsL log)\<rparr>"
| "boot_log lib klib (Be_redeem now token role scopes) file log = log"
| "boot_log lib klib (Be_verify now token dev key role scopes) file log =
     (if fst (verifyDeviceBootstrapToken lib klib now token dev key role scopes file) = Inr ()
      then log\<lparr>acceptedL := map (\<lambda>t. (t, js_trim dev, normalizeBootstrapPublicKey klib key))
         (filter (same_secret lib token) (map fst (issuedL log))) @ acceptedL log\<rparr> else log)"

text \<open>New tokens are random: they are no other text, nor have its digest. Only a record that a revocation gave is restored.\<close>

fun boot_may :: "'ip GatewayLib \<Rightarrow> BootEvent \<Rightarrow> BootLog \<Rightarrow> bool" where
  "boot_may lib (Be_issue now token profile roles scopes) log \<longleftrightarrow> js_trim token = token \<and> token \<noteq> ''''
     \<and> (\<forall>t \<in> fst ` set (issuedL log). sha256 lib t \<noteq> sha256 lib token)"
| "boot_may lib (Be_restore now r) log \<longleftrightarrow> r \<in> set (recordsL log)"
| "boot_may lib _ log \<longleftrightarrow> True"

inductive boot_reach :: "'ip GatewayLib \<Rightarrow> KeyLib \<Rightarrow> BootstrapFile \<Rightarrow> BootLog \<Rightarrow> bool" for lib klib where
  boot_start: "boot_reach lib klib None \<lparr>issuedL = [], acceptedL = [], revokedL = [], recordsL = []\<rparr>"
| boot_step: "boot_reach lib klib file log \<Longrightarrow> boot_may lib e log
    \<Longrightarrow> boot_reach lib klib (boot_file lib klib e file) (boot_log lib klib e file log)"

section \<open>The invariant of the file\<close>

text \<open>
  A record of a token that was issued, still with its profile and its time. All devices the token was accepted for are
  the one that it is bound to.
\<close>

definition record_ok :: "KeyLib \<Rightarrow> BootLog \<Rightarrow> DeviceBootstrapTokenRecord \<Rightarrow> bool" where
  "record_ok klib log r \<longleftrightarrow>
     (\<exists>t p. (tokenB r, t, p) \<in> set (issuedL log) \<and> tsB r = t \<and> issuedAtMsB r = t
        \<and> same_profile (resolvePersistedBootstrapProfile (partial_record r)) p)
     \<and> tokenB r \<noteq> '''' \<and> js_trim (tokenB r) = tokenB r
     \<and> (\<forall>d k. (tokenB r, d, k) \<in> set (acceptedL log) \<longrightarrow> deviceIdB r = Some d \<and> publicKeyB r = Some k
          \<and> d \<noteq> '''' \<and> js_trim d = d \<and> normalizeBootstrapPublicKey klib k = k)"

definition state_ok :: "KeyLib \<Rightarrow> BootLog \<Rightarrow> DeviceBootstrapStateFile \<Rightarrow> bool" where
  "state_ok klib log st \<longleftrightarrow> distinct (map fst st)
     \<and> (\<forall>(k, r) \<in> set st. k = tokenB r \<and> record_ok klib log r \<and> k \<notin> set (revokedL log))"

definition log_ok :: "'ip GatewayLib \<Rightarrow> BootLog \<Rightarrow> bool" where
  "log_ok lib log \<longleftrightarrow> fst ` set (acceptedL log) \<subseteq> fst ` set (issuedL log)
     \<and> set (revokedL log) \<subseteq> fst ` set (issuedL log) \<and> inj_on (sha256 lib) (fst ` set (issuedL log))"

definition boot_ok :: "'ip GatewayLib \<Rightarrow> KeyLib \<Rightarrow> BootstrapFile \<Rightarrow> BootLog \<Rightarrow> bool" where
  "boot_ok lib klib file log \<longleftrightarrow> log_ok lib log \<and> (\<exists>st. state_ok klib log st \<and> (file = None \<and> st = [] \<or> file = persistBootstrapState st))
     \<and> (\<forall>r \<in> set (recordsL log). record_ok klib log r \<and> tokenB r \<in> set (revokedL log))"

text \<open>Loading gives back what was written, normalized, without what has expired.\<close>

definition reloaded :: "string \<times> DeviceBootstrapTokenRecord \<Rightarrow> string \<times> DeviceBootstrapTokenRecord" where
  "reloaded x = (fst x, load_entry (fst x) (partial_record (snd x)))"

definition fresh :: "int \<Rightarrow> string \<times> DeviceBootstrapTokenRecord \<Rightarrow> bool" where
  "fresh now x \<longleftrightarrow> now - tsB (snd x) \<le> DEVICE_BOOTSTRAP_TOKEN_TTL_MS"

lemma load_persisted:
  "loadBootstrapState now (persistBootstrapState st) = filter (fresh now) (map reloaded st)"
proof -
  have "List.map_filter (\<lambda>(k, e). map_option (\<lambda>r. (k, load_entry k r)) e) (map (\<lambda>(k, r). (k, Some (partial_record r))) st) = map reloaded st"
    by (induction st) (auto simp: List.map_filter_def reloaded_def)
  then show ?thesis
    by (auto simp: loadBootstrapState_def persistBootstrapState_def pruneExpiredPending_def fresh_def not_less intro: filter_cong)
qed

lemma load_none [simp]: "loadBootstrapState now None = []"
  by (simp add: loadBootstrapState_def List.map_filter_def pruneExpiredPending_def)

lemma persisted_profile:
  "profileB r = Some p \<Longrightarrow> resolvePersistedBootstrapProfile (partial_record r) = normalizeDeviceBootstrapProfile (Some (profile_input p))"
  by (simp add: resolvePersistedBootstrapProfile_def partial_record_def)

lemma stored_profile:
  assumes "profileB r' = Some (resolvePersistedBootstrapProfile (partial_record r))"
    "same_profile (resolvePersistedBootstrapProfile (partial_record r)) p"
  shows "same_profile (resolvePersistedBootstrapProfile (partial_record r')) p"
  using same_profile_trans [OF same_normalized [OF normal_persisted] assms(2)] persisted_profile [OF assms(1)] by simp

lemma record_ok_stored:
  assumes "record_ok klib log r" "profileB r' = Some (resolvePersistedBootstrapProfile (partial_record r))"
    "tokenB r' = tokenB r" "tsB r' = tsB r" "issuedAtMsB r' = issuedAtMsB r" "deviceIdB r' = deviceIdB r" "publicKeyB r' = publicKeyB r"
  shows "record_ok klib log r'"
  using assms(1) stored_profile [OF assms(2)] unfolding record_ok_def assms(3-7) by blast

lemma reloaded_record:
  assumes "record_ok klib log r" "k = tokenB r"
  shows "record_ok klib log (load_entry k (partial_record r))" "tokenB (load_entry k (partial_record r)) = k"
  by (rule record_ok_stored [OF assms(1)])
    (simp_all add: load_entry_def Let_def assms(2), simp_all add: partial_record_def)

lemma state_ok_filter: "state_ok klib log st \<Longrightarrow> state_ok klib log (filter P st)"
  by (auto simp: state_ok_def distinct_map_filter')

lemma state_ok_loaded:
  assumes "boot_ok lib klib file log"
  shows "state_ok klib log (loadBootstrapState now file)" "\<forall>x \<in> set (loadBootstrapState now file). fresh now x"
proof -
  from assms obtain st where st: "state_ok klib log st" "file = None \<and> st = [] \<or> file = persistBootstrapState st"
    unfolding boot_ok_def by blast
  have "state_ok klib log (map reloaded st)"
    using st(1) reloaded_record by (fastforce simp: state_ok_def reloaded_def comp_def)
  then have "state_ok klib log (filter (fresh now) (map reloaded st))" by (rule state_ok_filter)
  moreover have "state_ok klib log []" by (simp add: state_ok_def)
  ultimately show "state_ok klib log (loadBootstrapState now file)" using st(2) by (auto simp: load_persisted)
  show "\<forall>x \<in> set (loadBootstrapState now file). fresh now x" using st(2) by (auto simp: load_persisted)
qed

lemma find_token_SomeD:
  assumes "find_token lib provided st = Some (k, r)" "state_ok klib log st"
  shows "(k, r) \<in> set st" "k = tokenB r" "record_ok klib log r" "k \<notin> set (revokedL log)" "sha256 lib provided = sha256 lib k"
proof -
  show m: "(k, r) \<in> set st" using assms(1) nth_mem unfolding find_token_def find_Some_iff by metis
  from m assms(2) show k: "k = tokenB r" and "record_ok klib log r" "k \<notin> set (revokedL log)" by (auto simp: state_ok_def)
  from assms(1) have "verifyPairingToken lib provided (tokenB r)" by (auto simp: find_token_def find_Some_iff)
  with k show "sha256 lib provided = sha256 lib k" by (simp add: verifyPairingToken_def safeEqualSecret_def split: if_splits)
qed

lemma state_ok_update:
  assumes "state_ok klib log st" "record_ok klib log r" "tokenB r \<notin> set (revokedL log)"
  shows "state_ok klib log (AList.update (tokenB r) r st)"
  using assms set_update_subset [of "tokenB r" r st] by (fastforce simp: state_ok_def)

lemma record_ok_cong [simp]:
  "record_ok klib (log\<lparr>revokedL := rv\<rparr>) r = record_ok klib log r" "record_ok klib (log\<lparr>recordsL := rs\<rparr>) r = record_ok klib log r"
  by (simp_all add: record_ok_def)

lemma state_ok_delete:
  assumes "state_ok klib log st"
  shows "state_ok klib (log\<lparr>revokedL := k # revokedL log, recordsL := rs\<rparr>) (AList.delete k st)"
  using assms by (auto simp: state_ok_def AList.delete_eq distinct_map_filter')

lemma boot_okI:
  assumes "log_ok lib log" "state_ok klib log st"
    "\<And>r. r \<in> set (recordsL log) \<Longrightarrow> record_ok klib log r \<and> tokenB r \<in> set (revokedL log)"
  shows "boot_ok lib klib (persistBootstrapState st) log"
  using assms by (auto simp: boot_ok_def)

text \<open>Records stay well-formed when other tokens are issued or accepted.\<close>

lemma record_ok_more:
  assumes "record_ok klib log r" "set (issuedL log) \<subseteq> set (issuedL log')"
    "\<And>d k. (tokenB r, d, k) \<in> set (acceptedL log') \<Longrightarrow> (tokenB r, d, k) \<in> set (acceptedL log)"
  shows "record_ok klib log' r"
  using assms unfolding record_ok_def by blast

lemma state_ok_more:
  assumes "state_ok klib log st" "\<And>k r. (k, r) \<in> set st \<Longrightarrow> record_ok klib log r \<Longrightarrow> record_ok klib log' r"
    "set (revokedL log') \<subseteq> set (revokedL log)"
  shows "state_ok klib log' st"
  using assms unfolding state_ok_def by blast

lemma update_member:
  assumes "distinct (map fst m)" "(k', v') \<in> set (AList.update k v m)"
  shows "k' = k \<and> v' = v \<or> k' \<noteq> k \<and> (k', v') \<in> set m"
proof -
  have "map_of (AList.update k v m) k' = Some v'"
    using assms by (intro map_of_is_SomeI) (simp_all add: distinct_update)
  then have "(if k' = k then Some v else map_of m k') = Some v'" by (simp add: update_conv')
  then show ?thesis by (auto split: if_splits dest: map_of_SomeD)
qed

lemma issue_ok:
  assumes ok: "boot_ok lib klib file log" and may: "boot_may lib (Be_issue now token profile roles scopes) log"
  shows "boot_ok lib klib (boot_file lib klib (Be_issue now token profile roles scopes) file)
    (boot_log lib klib (Be_issue now token profile roles scopes) file log)"
proof -
  let ?p = "resolveIssuedBootstrapProfile profile roles scopes"
  let ?log = "log\<lparr>issuedL := (token, now, ?p) # issuedL log\<rparr>"
  define r where "r = \<lparr>tokenB = token, tsB = now, deviceIdB = None, publicKeyB = None, profileB = Some ?p,
            redeemedProfileB = Some (normalizeDeviceBootstrapProfile None), rolesB = None, scopesB = None,
            issuedAtMsB = now, lastUsedAtMsB = None\<rparr>"
  have r: "tokenB r = token" by (simp add: r_def)
  from ok have l: "log_ok lib log" and recs: "\<And>x. x \<in> set (recordsL log) \<Longrightarrow> record_ok klib log x \<and> tokenB x \<in> set (revokedL log)"
    by (auto simp: boot_ok_def)
  have new: "token \<notin> fst ` set (issuedL log)" using may by auto
  have more: "record_ok klib ?log x" if "record_ok klib log x" for x
    by (rule record_ok_more [OF that]) auto
  have "resolvePersistedBootstrapProfile (partial_record r) = normalizeDeviceBootstrapProfile (Some (profile_input ?p))"
    by (rule persisted_profile) (simp add: r_def)
  with same_normalized [OF normal_issued] have "same_profile (resolvePersistedBootstrapProfile (partial_record r)) ?p" by simp
  moreover have "(token, d, k) \<notin> set (acceptedL log)" for d k using l new by (force simp: log_ok_def)
  ultimately have rec: "record_ok klib ?log r"
    unfolding record_ok_def r using may by (auto simp: r_def)
  have "state_ok klib ?log (loadBootstrapState now file)"
    by (rule state_ok_more [OF state_ok_loaded(1) [OF ok]]) (simp_all add: more)
  moreover have "tokenB r \<notin> set (revokedL ?log)" using l new r by (auto simp: log_ok_def)
  ultimately have "state_ok klib ?log (AList.update token r (loadBootstrapState now file))"
    using state_ok_update [of klib ?log _ r] rec r by simp
  moreover have "log_ok lib ?log" using l may by (auto simp: log_ok_def)
  ultimately have "boot_ok lib klib (persistBootstrapState (AList.update token r (loadBootstrapState now file))) ?log"
    using recs more by (intro boot_okI) auto
  then show ?thesis by (simp add: issueDeviceBootstrapToken_def r_def Let_def)
qed

lemma clear_ok:
  assumes ok: "boot_ok lib klib file log"
  shows "boot_ok lib klib (boot_file lib klib (Be_clear now) file) (boot_log lib klib (Be_clear now) file log)"
proof -
  have "tokenB x \<in> fst ` set (issuedL log)" if "record_ok klib log x" for x
    using that by (force simp: record_ok_def)
  moreover have "state_ok klib l []" for l by (simp add: state_ok_def)
  ultimately show ?thesis using ok
    by (auto simp: clearDeviceBootstrapTokens_def boot_ok_def log_ok_def)
qed

lemma revoke_ok:
  assumes ok: "boot_ok lib klib file log"
  shows "boot_ok lib klib (boot_file lib klib (Be_revoke now token) file) (boot_log lib klib (Be_revoke now token) file log)"
proof (cases "fst (revokeDeviceBootstrapToken lib now token file)")
  case None
  then have "snd (revokeDeviceBootstrapToken lib now token file) = file"
    by (auto simp: revokeDeviceBootstrapToken_def Let_def split: option.splits)
  with None ok show ?thesis by simp
next
  case (Some r)
  let ?st = "loadBootstrapState now file"
  from Some obtain k where f: "find_token lib (js_trim token) ?st = Some (k, r)"
      "snd (revokeDeviceBootstrapToken lib now token file) = persistBootstrapState (AList.delete k ?st)"
    by (auto simp: revokeDeviceBootstrapToken_def Let_def split: option.splits if_splits)
  note d = find_token_SomeD [OF f(1) state_ok_loaded(1) [OF ok]]
  have "tokenB r \<in> fst ` set (issuedL log)" using d(3) by (force simp: record_ok_def)
  with ok have "log_ok lib (log\<lparr>revokedL := tokenB r # revokedL log, recordsL := r # recordsL log\<rparr>)"
    by (simp add: boot_ok_def log_ok_def)
  moreover have "state_ok klib (log\<lparr>revokedL := tokenB r # revokedL log, recordsL := r # recordsL log\<rparr>) (AList.delete k ?st)"
    using state_ok_delete [OF state_ok_loaded(1) [OF ok], where k = k] d(2) by simp
  ultimately have "boot_ok lib klib (persistBootstrapState (AList.delete k ?st))
      (log\<lparr>revokedL := tokenB r # revokedL log, recordsL := r # recordsL log\<rparr>)"
    using ok d(3) by (intro boot_okI) (auto simp: boot_ok_def)
  with Some f(2) show ?thesis by simp
qed

lemma restore_ok:
  assumes ok: "boot_ok lib klib file log" and may: "boot_may lib (Be_restore now r) log"
  shows "boot_ok lib klib (boot_file lib klib (Be_restore now r) file) (boot_log lib klib (Be_restore now r) file log)"
proof -
  let ?log = "boot_log lib klib (Be_restore now r) file log"
  from ok may have r: "record_ok klib log r" by (auto simp: boot_ok_def)
  have "state_ok klib ?log (loadBootstrapState now file)"
    by (rule state_ok_more [OF state_ok_loaded(1) [OF ok]]) auto
  then have "state_ok klib ?log (AList.update (tokenB r) r (loadBootstrapState now file))"
    by (rule state_ok_update) (use r in simp_all)
  moreover have "log_ok lib ?log" using ok by (auto simp: boot_ok_def log_ok_def)
  ultimately show ?thesis using ok
    unfolding boot_file.simps restoreDeviceBootstrapToken_def by (intro boot_okI) (auto simp: boot_ok_def)
qed

lemma redeem_ok:
  assumes ok: "boot_ok lib klib file log"
  shows "boot_ok lib klib (snd (redeemDeviceBootstrapTokenProfile lib now token role scopes file)) log"
proof (cases "js_trim token = '''' \<or> find_token lib (js_trim token) (loadBootstrapState now file) = None")
  case True
  with ok show ?thesis by (auto simp: redeemDeviceBootstrapTokenProfile_def Let_def)
next
  case False
  then obtain k r where f: "find_token lib (js_trim token) (loadBootstrapState now file) = Some (k, r)" by auto
  note d = find_token_SomeD [OF f state_ok_loaded(1) [OF ok]]
  let ?r = "\<lambda>red. r\<lparr>profileB := Some (resolvePersistedBootstrapProfile (partial_record r)), redeemedProfileB := red\<rparr>"
  have "record_ok klib log (?r red)" for red by (rule record_ok_stored [OF d(3)]) simp_all
  from state_ok_update [OF state_ok_loaded(1) [OF ok, of now] this]
  have "state_ok klib log (AList.update k (?r red) (loadBootstrapState now file))" for red
    using d(2,4) by simp
  with ok have "boot_ok lib klib (persistBootstrapState (AList.update k (?r red) (loadBootstrapState now file))) log" for red
    by (intro boot_okI) (auto simp: boot_ok_def)
  with False f show ?thesis by (simp add: redeemDeviceBootstrapTokenProfile_def Let_def)
qed

text \<open>What an accepted token says.\<close>

lemma verified_bootstrap:
  assumes "fst (verifyDeviceBootstrapToken lib klib now token dev key role scopes file) = Inr ()"
  obtains k r where "find_token lib (js_trim token) (loadBootstrapState now file) = Some (k, r)"
    "js_trim dev \<noteq> ''''" "js_trim role \<in> set (profileRoles (resolvePersistedBootstrapProfile (partial_record r)))"
    "roleScopesAllow (js_trim role) scopes (profileScopes (resolvePersistedBootstrapProfile (partial_record r)))"
    "truthy (map_option js_trim (deviceIdB r)) \<or> truthy (map_option (normalizeBootstrapPublicKey klib) (publicKeyB r))
      \<Longrightarrow> map_option js_trim (deviceIdB r) = Some (js_trim dev)
        \<and> map_option (normalizeBootstrapPublicKey klib) (publicKeyB r) = Some (normalizeBootstrapPublicKey klib key)"
    "snd (verifyDeviceBootstrapToken lib klib now token dev key role scopes file) =
      persistBootstrapState (AList.update k (r\<lparr>profileB := Some (resolvePersistedBootstrapProfile (partial_record r)),
        deviceIdB := Some (js_trim dev), publicKeyB := Some (normalizeBootstrapPublicKey klib key), lastUsedAtMsB := Some now\<rparr>)
        (loadBootstrapState now file))"
  using assms
  by (auto simp: verifyDeviceBootstrapToken_def Let_def bootstrapProfileAllowsRequest_def split: option.splits if_splits)

text \<open>The device that a token was accepted for is the one it is accepted for again.\<close>

lemma accepted_again:
  assumes "record_ok klib log r" "(tokenB r, d, k) \<in> set (acceptedL log)"
    "truthy (map_option js_trim (deviceIdB r)) \<or> truthy (map_option (normalizeBootstrapPublicKey klib) (publicKeyB r))
      \<Longrightarrow> map_option js_trim (deviceIdB r) = Some dev
        \<and> map_option (normalizeBootstrapPublicKey klib) (publicKeyB r) = Some key"
  shows "d = dev \<and> k = key"
proof -
  from assms(1,2) have b: "deviceIdB r = Some d" "publicKeyB r = Some k" "d \<noteq> ''''" "js_trim d = d" "normalizeBootstrapPublicKey klib k = k"
    unfolding record_ok_def by blast+
  from assms(3) show ?thesis by (simp add: b truthy_def)
qed

lemma verify_ok:
  assumes ok: "boot_ok lib klib file log" and pem: "pem_only klib"
  shows "boot_ok lib klib (boot_file lib klib (Be_verify now token dev key role scopes) file)
    (boot_log lib klib (Be_verify now token dev key role scopes) file log)"
proof (cases "fst (verifyDeviceBootstrapToken lib klib now token dev key role scopes file) = Inr ()")
  case False
  then have "snd (verifyDeviceBootstrapToken lib klib now token dev key role scopes file) = file"
    by (auto simp: verifyDeviceBootstrapToken_def Let_def split: option.splits if_splits)
  with False ok show ?thesis by simp
next
  case True
  let ?st = "loadBootstrapState now file"
  let ?d = "js_trim dev" and ?k = "normalizeBootstrapPublicKey klib key"
  note ok_st = state_ok_loaded(1) [OF ok, of now]
  obtain k r where v: "find_token lib (js_trim token) ?st = Some (k, r)" "?d \<noteq> ''''"
    and bound: "truthy (map_option js_trim (deviceIdB r)) \<or> truthy (map_option (normalizeBootstrapPublicKey klib) (publicKeyB r))
      \<Longrightarrow> map_option js_trim (deviceIdB r) = Some ?d \<and> map_option (normalizeBootstrapPublicKey klib) (publicKeyB r) = Some ?k"
    and stored: "snd (verifyDeviceBootstrapToken lib klib now token dev key role scopes file) =
      persistBootstrapState (AList.update k (r\<lparr>profileB := Some (resolvePersistedBootstrapProfile (partial_record r)),
        deviceIdB := Some ?d, publicKeyB := Some ?k, lastUsedAtMsB := Some now\<rparr>) ?st)"
    by (rule verified_bootstrap [OF True]) blast
  note d = find_token_SomeD [OF v(1) ok_st]
  define r' where "r' = r\<lparr>profileB := Some (resolvePersistedBootstrapProfile (partial_record r)),
        deviceIdB := Some ?d, publicKeyB := Some ?k, lastUsedAtMsB := Some now\<rparr>"
  define log' where "log' = boot_log lib klib (Be_verify now token dev key role scopes) file log"
  from ok have l: "log_ok lib log" and recs: "\<And>x. x \<in> set (recordsL log) \<Longrightarrow> record_ok klib log x \<and> tokenB x \<in> set (revokedL log)"
    by (auto simp: boot_ok_def)
  have "k \<in> fst ` set (issuedL log)" using d(2,3) by (force simp: record_ok_def)
  with l d(5) have same: "t \<in> fst ` set (issuedL log) \<and> same_secret lib token t \<longleftrightarrow> t = k" for t
    by (auto simp: same_secret_def log_ok_def dest: inj_onD)
  have acc: "(t, d', k') \<in> set (acceptedL log') \<longleftrightarrow> (t = k \<and> d' = ?d \<and> k' = ?k) \<or> (t, d', k') \<in> set (acceptedL log)" for t d' k'
    using same [of t] True by (auto simp: log'_def)
  have log': "issuedL log' = issuedL log" "revokedL log' = revokedL log" "recordsL log' = recordsL log"
    using True by (simp_all add: log'_def)
  have other: "record_ok klib log' x" if "record_ok klib log x" "tokenB x \<noteq> k" for x
    by (rule record_ok_more [OF that(1)]) (use that(2) acc log' in auto)
  have mine: "record_ok klib log' r'"
  proof -
    have b: "d' = ?d \<and> k' = ?k" if "(k, d', k') \<in> set (acceptedL log')" for d' k'
      using that accepted_again [OF d(3) _ bound] d(2) unfolding acc by blast
    have "same_profile (resolvePersistedBootstrapProfile (partial_record r)) p
      \<Longrightarrow> same_profile (resolvePersistedBootstrapProfile (partial_record r')) p" for p
      by (rule stored_profile) (simp_all add: r'_def)
    moreover have "tokenB r' = tokenB r" "tsB r' = tsB r" "issuedAtMsB r' = issuedAtMsB r" "deviceIdB r' = Some ?d" "publicKeyB r' = Some ?k"
      by (simp_all add: r'_def)
    ultimately show ?thesis using d(3) b v(2) normalized_key_fixed [OF pem] unfolding record_ok_def log' d(2) by force
  qed
  have "state_ok klib log' (AList.update k r' ?st)"
  proof -
    have dist: "distinct (map fst ?st)" using ok_st by (simp add: state_ok_def)
    have "k' = tokenB x \<and> record_ok klib log' x \<and> k' \<notin> set (revokedL log')" if m: "(k', x) \<in> set (AList.update k r' ?st)" for k' x
    proof (cases "k' = k")
      case True
      with update_member [OF dist m] have "x = r'" by blast
      moreover have "tokenB r' = k" using d(2) by (simp add: r'_def)
      ultimately show ?thesis using True mine d(4) log' by simp
    next
      case False
      with update_member [OF dist m] have "(k', x) \<in> set ?st" by blast
      with ok_st have "k' = tokenB x" "record_ok klib log x" "k' \<notin> set (revokedL log)" unfolding state_ok_def by blast+
      with False other log' show ?thesis by simp
    qed
    with dist show ?thesis unfolding state_ok_def by (auto simp: distinct_update)
  qed
  moreover have "log_ok lib log'"
  proof -
    have "t \<in> fst ` set (issuedL log)" if t: "t \<in> fst ` set (acceptedL log')" for t
    proof -
      from t obtain d' k' where "(t, d', k') \<in> set (acceptedL log')" by auto
      then have "t = k \<or> t \<in> fst ` set (acceptedL log)" unfolding acc by (metis fst_conv image_eqI)
      with l \<open>k \<in> fst ` set (issuedL log)\<close> show ?thesis unfolding log_ok_def by blast
    qed
    with l show ?thesis unfolding log_ok_def log' by blast
  qed
  ultimately have "boot_ok lib klib (persistBootstrapState (AList.update k r' ?st)) log'"
    using recs other d(4) log' by (intro boot_okI) auto
  then show ?thesis using stored by (simp add: log'_def r'_def)
qed

lemma boot_reach_ok:
  assumes "boot_reach lib klib file log" "pem_only klib"
  shows "boot_ok lib klib file log"
  using assms(1)
proof (induction rule: boot_reach.induct)
  case boot_start
  have "state_ok klib l []" for l by (simp add: state_ok_def)
  then show ?case by (auto simp: boot_ok_def log_ok_def)
next
  case (boot_step f log e)
  then show ?case
    using issue_ok [of lib klib f log] clear_ok [of lib klib f log] revoke_ok [of lib klib f log] restore_ok [of lib klib f log]
      redeem_ok [of lib klib f log] verify_ok [of lib klib f log, OF _ assms(2)]
    by (cases e) simp_all
qed

section \<open>Who a bootstrap token works for\<close>

lemma persisted_scopes: "trimmed (profileScopes (resolvePersistedBootstrapProfile r)) = set (profileScopes (resolvePersistedBootstrapProfile r))"
  by (simp add: resolvePersistedBootstrapProfile_def normalizeDeviceBootstrapProfile_def trimmed_normalized)

lemma role_scope_satisfied_trim: "role_scope_satisfied (js_trim role) = role_scope_satisfied role"
  by (intro ext) (simp only: role_scope_satisfied_def js_trim_idem)

lemma bootstrap_accepts:
  assumes "boot_reach lib klib file log" "pem_only klib"
    "fst (verifyDeviceBootstrapToken lib klib now token dev key role scopes file) = Inr ()"
  shows "\<exists>t issued p. (t, issued, p) \<in> set (issuedL log) \<and> same_secret lib token t \<and> t \<notin> set (revokedL log)
    \<and> now - issued \<le> 10 * 60 * 1000 \<and> js_trim role \<in> set (profileRoles p)
    \<and> (\<forall>s \<in> trimmed scopes. role_scope_satisfied role s (set (profileScopes p)))
    \<and> (\<forall>d k. (t, d, k) \<in> set (acceptedL log) \<longrightarrow> d = js_trim dev \<and> k = normalizeBootstrapPublicKey klib key)"
proof -
  note ok = boot_reach_ok [OF assms(1,2)]
  obtain k r where f: "find_token lib (js_trim token) (loadBootstrapState now file) = Some (k, r)"
    and role: "js_trim role \<in> set (profileRoles (resolvePersistedBootstrapProfile (partial_record r)))"
    and allow: "roleScopesAllow (js_trim role) scopes (profileScopes (resolvePersistedBootstrapProfile (partial_record r)))"
    and bound: "truthy (map_option js_trim (deviceIdB r)) \<or> truthy (map_option (normalizeBootstrapPublicKey klib) (publicKeyB r))
      \<Longrightarrow> map_option js_trim (deviceIdB r) = Some (js_trim dev)
        \<and> map_option (normalizeBootstrapPublicKey klib) (publicKeyB r) = Some (normalizeBootstrapPublicKey klib key)"
    by (rule verified_bootstrap [OF assms(3)]) blast
  note d = find_token_SomeD [OF f state_ok_loaded(1) [OF ok]]
  from d(3) obtain t p where p: "(k, t, p) \<in> set (issuedL log)" "tsB r = t"
      "same_profile (resolvePersistedBootstrapProfile (partial_record r)) p"
    unfolding record_ok_def d(2) by blast
  have "fresh now (k, r)" using state_ok_loaded(2) [OF ok, of now] d(1) by blast
  with p(2) have "now - t \<le> 10 * 60 * 1000" by (simp add: fresh_def DEVICE_BOOTSTRAP_TOKEN_TTL_MS_def)
  moreover have "same_secret lib token k" using d(5) by (simp add: same_secret_def)
  moreover have "\<forall>s \<in> trimmed scopes. role_scope_satisfied role s (set (profileScopes p))"
    using allow p(3) by (simp add: roleScopesAllow_iff persisted_scopes same_profile_def role_scope_satisfied_trim)
  moreover have "js_trim role \<in> set (profileRoles p)" using role p(3) by (simp add: same_profile_def)
  moreover have "d' = js_trim dev \<and> k' = normalizeBootstrapPublicKey klib key" if "(k, d', k') \<in> set (acceptedL log)" for d' k'
    using accepted_again [OF d(3) _ bound] that d(2) by blast
  ultimately show ?thesis using p(1) d(4) by blast
qed

text \<open>
  C22. A bootstrap token works for one device, within its profile, for ten minutes. Whatever tokens are issued,
  redeemed, revoked, restored, cleared and tried in whatever order: a token that is accepted was issued at most ten
  minutes ago and is not revoked, the profile it was issued with has the role and satisfies every scope that is asked
  for, and every device it was accepted for before is this device, with this public key.
\<close>

theorem bootstrap_token_sound:
  assumes "boot_reach lib klib file log" "pem_only klib"
    "fst (verifyDeviceBootstrapToken lib klib now token dev key role scopes file) = Inr ()"
  shows "\<exists>t issued p. (t, issued, p) \<in> set (issuedL log) \<and> same_secret lib token t \<and> t \<notin> set (revokedL log)
    \<and> now - issued \<le> 10 * 60 * 1000 \<and> js_trim role \<in> set (profileRoles p)
    \<and> (\<forall>s \<in> trimmed scopes. role_scope_satisfied role s (set (profileScopes p)))
    \<and> (\<forall>d k. (t, d, k) \<in> set (acceptedL log) \<longrightarrow> d = js_trim dev \<and> k = normalizeBootstrapPublicKey klib key)"
  by (rule bootstrap_accepts [OF assms])

definition example_klib :: KeyLib where
  "example_klib = \<lparr>spki_der = (\<lambda>_. None), from_base64 = (\<lambda>_. [])\<rparr>"

definition example_boot :: "BootEvent list" where
  "example_boot = [Be_issue 1000 ''boot-1'' None None None,
     Be_verify 2000 ''boot-1'' ''dev-1'' ''key-1'' ''operator'' [''operator.read'']]"

text \<open>The file and the log after a list of events.\<close>

definition boot_run :: "'ip GatewayLib \<Rightarrow> KeyLib \<Rightarrow> BootEvent list \<Rightarrow> BootstrapFile \<times> BootLog" where
  "boot_run lib klib es = fold (\<lambda>e (file, log). (boot_file lib klib e file, boot_log lib klib e file log)) es
     (None, \<lparr>issuedL = [], acceptedL = [], revokedL = [], recordsL = []\<rparr>)"

theorem bootstrap_token_sound_witness:
  "fst (verifyDeviceBootstrapToken example_lib example_klib 3000 ''boot-1'' ''dev-2'' ''key-1'' ''operator'' [''operator.read'']
       (fst (boot_run example_lib example_klib example_boot))) = Inl ''bootstrap_token_invalid''
   \<and> (\<exists>t issued p. (t, issued, p) \<in> set (issuedL (snd (boot_run example_lib example_klib example_boot)))
     \<and> t \<notin> set (revokedL (snd (boot_run example_lib example_klib example_boot))) \<and> ''operator'' \<in> set (profileRoles p))"
proof
  show "fst (verifyDeviceBootstrapToken example_lib example_klib 3000 ''boot-1'' ''dev-2'' ''key-1'' ''operator'' [''operator.read'']
       (fst (boot_run example_lib example_klib example_boot))) = Inl ''bootstrap_token_invalid''" by code_simp
  have "fst (verifyDeviceBootstrapToken example_lib example_klib 3000 ''boot-1'' ''dev-1'' ''key-1'' ''operator'' [''operator.read'']
       (fst (boot_run example_lib example_klib example_boot))) = Inr ()" by code_simp
  moreover have may: "boot_may example_lib (Be_issue 1000 ''boot-1'' None None None) \<lparr>issuedL = [], acceptedL = [], revokedL = [], recordsL = []\<rparr>"
    by code_simp
  have "boot_reach example_lib example_klib (fst (boot_run example_lib example_klib example_boot)) (snd (boot_run example_lib example_klib example_boot))"
    unfolding boot_run_def example_boot_def 
    by (simp only: fold_simps case_prod_conv fst_conv snd_conv, intro boot_step boot_start may, simp only: boot_may.simps)
  moreover have "pem_only example_klib" by (simp add: pem_only_def example_klib_def)
  moreover have "js_trim ''operator'' = ''operator''" by code_simp
  ultimately show "\<exists>t issued p. (t, issued, p) \<in> set (issuedL (snd (boot_run example_lib example_klib example_boot)))
     \<and> t \<notin> set (revokedL (snd (boot_run example_lib example_klib example_boot))) \<and> ''operator'' \<in> set (profileRoles p)"
    using bootstrap_token_sound [of example_lib example_klib _ _ 3000 "''boot-1''" "''dev-1''" "''key-1''" "''operator''" "[''operator.read'']"]
    by metis
qed

end
