(* ===== verification/DeviceHandshake.thy ===== *)
theory DeviceHandshake
  imports DeviceBootstrapProps GatewayConnect
begin

text \<open>
  The handshake of the gateway with the verifiers that it is given, as \<open>message-handler.ts\<close> passes them: bootstrap
  tokens of \<open>src/infra/device-bootstrap.ts\<close> and device tokens of \<open>src/infra/device-pairing.ts\<close>.
\<close>

definition bootstrap_verifier ::
    "'ip GatewayLib \<Rightarrow> KeyLib \<Rightarrow> int \<Rightarrow> DeviceIdentity \<Rightarrow> string \<Rightarrow> string list \<Rightarrow> BootstrapFile \<Rightarrow> string \<Rightarrow> bool \<times> string option" where
  "bootstrap_verifier lib klib now d role scopes file token =
     (case fst (verifyDeviceBootstrapToken lib klib now token (the (deviceId d)) (the (publicKey d)) role scopes file) of
        Inr _ \<Rightarrow> (True, None) | Inl reason \<Rightarrow> (False, Some reason))"

definition device_verifier ::
    "'ip GatewayLib \<Rightarrow> int \<Rightarrow> DeviceIdentity \<Rightarrow> string \<Rightarrow> string list \<Rightarrow> DevicePairingStateFile \<Rightarrow> string \<Rightarrow> bool" where
  "device_verifier lib now d role scopes devices token =
     (fst (verifyDeviceToken lib now (the (deviceId d)) token role scopes devices) = Inr ())"

text \<open>
  The scopes that somebody vouched for: an approval of the device, or the profile of a bootstrap token that was issued
  at most ten minutes ago and works for no other device.
\<close>

definition approved_for :: "(string \<times> string set) list \<Rightarrow> string \<Rightarrow> string \<Rightarrow> bool" where
  "approved_for log dev s \<longleftrightarrow> (\<exists>V. (js_trim dev, V) \<in> set log \<and> operatorScopeSatisfied s V)"

definition issued_for :: "BootLog \<Rightarrow> int \<Rightarrow> string \<Rightarrow> string \<Rightarrow> string \<Rightarrow> bool" where
  "issued_for blog now dev role s \<longleftrightarrow> (\<exists>t issued p. (t, issued, p) \<in> set (issuedL blog) \<and> t \<notin> set (revokedL blog)
     \<and> now - issued \<le> DEVICE_BOOTSTRAP_TOKEN_TTL_MS \<and> js_trim role \<in> set (profileRoles p)
     \<and> role_scope_satisfied role s (set (profileScopes p)) \<and> (\<forall>d k. (t, d, k) \<in> set (acceptedL blog) \<longrightarrow> d = js_trim dev))"

text \<open>
  C23. A device that is let in holds its scopes by right. Whatever happened to the devices and to the bootstrap tokens
  before: when the handshake lets a client in for its device token, then every operator scope that the client
  asks for, or that those imply, was held by somebody who approved the device since it was last removed; and when
  it lets a client in for a bootstrap token, then every scope that it asks for is in the profile of a token
  for its role that is not revoked, was issued in the last ten minutes and was accepted for no other device.
\<close>

theorem device_login_vouched:
  assumes "may_answer lib whois (shared_params h) r" "st = resolveConnectAuthState lib t h r"
    "pair_run lib es = (devices, log)" "boot_reach lib klib file blog" "pem_only klib"
    "fst (resolveConnectAuthDecision (ips lib) now later (bootstrap_verifier lib klib now d role scopes file)
       (device_verifier lib later d role scopes devices) meanwhile ip d st limiter) = decision" "dAuthOk decision"
  shows "(case dAuthMethod decision of
      Me_device_token \<Rightarrow> \<forall>s \<in> set (normalizeDeviceAuthScopes (Some scopes)). starts_with OPERATOR_SCOPE_PREFIX s
        \<longrightarrow> approved_for log (the (deviceId d)) s
    | Me_bootstrap_token \<Rightarrow> \<forall>s \<in> trimmed scopes. issued_for blog now (the (deviceId d)) role s
    | m \<Rightarrow> auth_ok r \<and> auth_method r = Some m)"
proof -
  note credential = decision_credential [OF assms(1,2,6,7)]
  show ?thesis
  proof (cases "dAuthMethod decision")
    case Me_device_token
    with credential obtain tok where "device_verifier lib later d role scopes devices tok" by auto
    then have "fst (verifyDeviceToken lib later (the (deviceId d)) tok role scopes devices) = Inr ()" by (simp add: device_verifier_def)
    from verified_scopes_vouched [OF assms(3) this] Me_device_token
    show ?thesis by (simp add: approved_for_def normalizeDeviceId_def)
  next
    case Me_bootstrap_token
    with credential obtain tok where "fst (bootstrap_verifier lib klib now d role scopes file tok)" by auto
    then have "fst (verifyDeviceBootstrapToken lib klib now tok (the (deviceId d)) (the (publicKey d)) role scopes file) = Inr ()"
      by (auto simp: bootstrap_verifier_def split: sum.splits)
    from bootstrap_accepts [OF assms(4,5) this]
    obtain k issued p where b: "(k, issued, p) \<in> set (issuedL blog)" "k \<notin> set (revokedL blog)" "now - issued \<le> 10 * 60 * 1000"
      "js_trim role \<in> set (profileRoles p)" "\<forall>s \<in> trimmed scopes. role_scope_satisfied role s (set (profileScopes p))"
      "\<forall>d' k'. (k, d', k') \<in> set (acceptedL blog) \<longrightarrow> d' = js_trim (the (deviceId d)) \<and> k' = normalizeBootstrapPublicKey klib (the (publicKey d))"
      by blast
    have "issued_for blog now (the (deviceId d)) role s" if "s \<in> trimmed scopes" for s
      unfolding issued_for_def DEVICE_BOOTSTRAP_TOKEN_TTL_MS_def using b that
      by (intro exI [of _ k] exI [of _ issued] exI [of _ p]) blast
    with Me_bootstrap_token show ?thesis by simp
  qed (use credential in auto)
qed

definition paired_handshake :: Handshake where
  "paired_handshake = (example_handshake None)\<lparr>hsConnectAuth :=
     Some \<lparr>hsToken = None, hsBootstrapToken = None, hsDeviceToken = Some ''token-operator'', hsPassword = None\<rparr>\<rparr>"

theorem device_login_vouched_witness:
  "let st = resolveConnectAuthState example_lib 5 paired_handshake (denied ''token_missing'');
       devices = fst (pair_run example_lib example_pairing);
       decision = fst (resolveConnectAuthDecision (ips example_lib) 3000 3000
         (bootstrap_verifier example_lib example_klib 3000 example_device ''operator'' [''operator.read''] None)
         (device_verifier example_lib 3000 example_device ''operator'' [''operator.read''] devices) id
         (Some ''10.0.0.7'') example_device st None)
   in dAuthOk decision \<and> approved_for (snd (pair_run example_lib example_pairing)) ''dev-1'' ''operator.read''"
proof -
  define st where "st = resolveConnectAuthState example_lib 5 paired_handshake (denied ''token_missing'')"
  define devices where "devices = fst (pair_run example_lib example_pairing)"
  define decision where "decision = fst (resolveConnectAuthDecision (ips example_lib) 3000 3000
         (bootstrap_verifier example_lib example_klib 3000 example_device ''operator'' [''operator.read''] None)
         (device_verifier example_lib 3000 example_device ''operator'' [''operator.read''] devices) id
         (Some ''10.0.0.7'') example_device st None)"
  have "fst (authorizeGatewayConnectCore example_lib 5 (shared_params paired_handshake) None) = Answered (denied ''token_missing'')"
    by code_simp
  then have may: "may_answer example_lib (\<lambda>_. None) (shared_params paired_handshake) (denied ''token_missing'')"
    unfolding may_answer_def by blast
  have ok: "dAuthOk decision" and m: "dAuthMethod decision = Me_device_token"
    unfolding decision_def st_def devices_def by code_simp+
  have run: "pair_run example_lib example_pairing = (devices, snd (pair_run example_lib example_pairing))"
    by (simp add: devices_def)
  have pem: "pem_only example_klib" by (simp add: pem_only_def example_klib_def)
  have "\<forall>s \<in> set (normalizeDeviceAuthScopes (Some [''operator.read''])). starts_with OPERATOR_SCOPE_PREFIX s
        \<longrightarrow> approved_for (snd (pair_run example_lib example_pairing)) (the (deviceId example_device)) s"
    using device_login_vouched [OF may st_def run boot_start pem decision_def [symmetric] ok] m by simp
  moreover have "''operator.read'' \<in> set (normalizeDeviceAuthScopes (Some [''operator.read'']))"
    "starts_with OPERATOR_SCOPE_PREFIX ''operator.read''" by code_simp+
  ultimately have "approved_for (snd (pair_run example_lib example_pairing)) ''dev-1'' ''operator.read''"
    by (simp add: example_device_def)
  with ok show ?thesis unfolding Let_def decision_def st_def devices_def by blast
qed

end
