(* ===== verification/ChannelAccess.thy ===== *)
theory ChannelAccess
  imports DeliveryContexts
begin

text \<open>
  Who may talk to an agent: the decision about a message from its sender, for direct messages and for groups, and about
  the control commands in it (\<open>src/security/dm-policy-shared.ts\<close>, \<open>src/channels/allow-from.ts\<close>,
  \<open>command-gating.ts\<close>, \<open>mention-gating.ts\<close>, \<open>src/plugin-sdk/group-access.ts\<close>,
  \<open>src/config/runtime-group-policy.ts\<close>). How a channel compares a sender with a list is a parameter.
\<close>

section \<open>Lists of senders\<close>

text \<open>An entry of a configured list is a text or a number.\<close>

datatype AllowEntry = Ae_text string | Ae_number int

definition entry_string :: "AllowEntry \<Rightarrow> string" where
  "entry_string e = (case e of Ae_text s \<Rightarrow> s | Ae_number n \<Rightarrow> show_int n)"

definition normalizeStringEntries :: "AllowEntry list \<Rightarrow> string list" where
  "normalizeStringEntries xs =
     filter (\<lambda>s. s \<noteq> '''') (map (\<lambda>e. nullish (normalizeOptionalString (Some (entry_string e))) '''') xs)"

definition mergeDmAllowFromSources :: "AllowEntry list option \<Rightarrow> AllowEntry list option \<Rightarrow> string option \<Rightarrow> string list" where
  "mergeDmAllowFromSources allowFrom storeAllowFrom dmPolicy =
     (let storeEntries = (if dmPolicy = Some ''allowlist'' then [] else nullish storeAllowFrom [])
      in normalizeStringEntries (nullish allowFrom [] @ storeEntries))"

definition resolveGroupAllowFromSources :: "AllowEntry list option \<Rightarrow> AllowEntry list option \<Rightarrow> bool option \<Rightarrow> string list" where
  "resolveGroupAllowFromSources allowFrom groupAllowFrom fallbackToAllowFrom =
     (let explicitGroupAllowFrom = (case groupAllowFrom of Some xs \<Rightarrow> if length xs > 0 then Some xs else None | None \<Rightarrow> None);
          scoped = (case explicitGroupAllowFrom of Some xs \<Rightarrow> xs
            | None \<Rightarrow> if fallbackToAllowFrom = Some False then [] else nullish allowFrom [])
      in normalizeStringEntries scoped)"

record AllowList =
  allowEntries :: "string list"
  hasWildcard :: bool
  hasEntries :: bool

definition isSenderIdAllowed :: "AllowList \<Rightarrow> string option \<Rightarrow> bool \<Rightarrow> bool" where
  "isSenderIdAllowed allow senderId allowWhenEmpty =
     (if \<not> hasEntries allow then allowWhenEmpty
      else if hasWildcard allow then True
      else if \<not> truthy senderId then False
      else the senderId \<in> set (allowEntries allow))"

section \<open>Control commands\<close>

record CommandAuthorizer =
  configuredC :: bool
  allowedC :: bool

datatype CommandGatingMode = Gm_allow | Gm_deny | Gm_configured

definition resolveCommandAuthorizedFromAuthorizers ::
    "bool \<Rightarrow> CommandAuthorizer list \<Rightarrow> CommandGatingMode option \<Rightarrow> bool" where
  "resolveCommandAuthorizedFromAuthorizers useAccessGroups authorizers modeWhenAccessGroupsOff =
     (let mode = nullish modeWhenAccessGroupsOff Gm_allow
      in if \<not> useAccessGroups then
           (if mode = Gm_allow then True
            else if mode = Gm_deny then False
            else if \<not> list_ex configuredC authorizers then True
            else list_ex (\<lambda>e. configuredC e \<and> allowedC e) authorizers)
         else list_ex (\<lambda>e. configuredC e \<and> allowedC e) authorizers)"

text \<open>Whether a command is authorized, and whether the message is blocked for it.\<close>

definition resolveControlCommandGate ::
    "bool \<Rightarrow> CommandAuthorizer list \<Rightarrow> bool \<Rightarrow> bool \<Rightarrow> CommandGatingMode option \<Rightarrow> bool \<times> bool" where
  "resolveControlCommandGate useAccessGroups authorizers allowTextCommands hasControlCommand modeWhenAccessGroupsOff =
     (let commandAuthorized = resolveCommandAuthorizedFromAuthorizers useAccessGroups authorizers modeWhenAccessGroupsOff
      in (commandAuthorized, allowTextCommands \<and> hasControlCommand \<and> \<not> commandAuthorized))"

definition resolveDualTextControlCommandGate ::
    "bool \<Rightarrow> CommandAuthorizer \<Rightarrow> CommandAuthorizer \<Rightarrow> bool \<Rightarrow> CommandGatingMode option \<Rightarrow> bool \<times> bool" where
  "resolveDualTextControlCommandGate useAccessGroups primary secondary hasControlCommand modeWhenAccessGroupsOff =
     resolveControlCommandGate useAccessGroups [primary, secondary] True hasControlCommand modeWhenAccessGroupsOff"

section \<open>Mentions\<close>

datatype InboundImplicitMentionKind = Mk_reply_to_bot | Mk_quoted_bot | Mk_bot_thread_participant | Mk_native

record InboundMentionFacts =
  canDetectMention :: bool
  wasMentioned :: bool
  hasAnyMention :: "bool option"
  implicitMentionKinds :: "InboundImplicitMentionKind list option"

record InboundMentionPolicy =
  isGroupM :: bool
  requireMention :: bool
  allowedImplicitMentionKinds :: "InboundImplicitMentionKind list option"
  allowTextCommandsM :: bool
  hasControlCommandM :: bool
  commandAuthorizedM :: bool

record InboundMentionDecision =
  implicitMention :: bool
  matchedImplicitMentionKinds :: "InboundImplicitMentionKind list"
  effectiveWasMentioned :: bool
  shouldBypassMention :: bool
  shouldSkip :: bool

definition implicitMentionKindWhen :: "InboundImplicitMentionKind \<Rightarrow> bool \<Rightarrow> InboundImplicitMentionKind list" where
  "implicitMentionKindWhen kind enabled = (if enabled then [kind] else [])"

definition resolveMatchedImplicitMentionKinds ::
    "InboundImplicitMentionKind list option \<Rightarrow> InboundImplicitMentionKind list option \<Rightarrow> InboundImplicitMentionKind list" where
  "resolveMatchedImplicitMentionKinds kinds allowed =
     (let inputKinds = nullish kinds []
      in if length inputKinds = 0 then []
         else fold (\<lambda>kind matched.
           if (case allowed of Some ks \<Rightarrow> kind \<notin> set ks | None \<Rightarrow> False) then matched
           else if kind \<notin> set matched then matched @ [kind] else matched) inputKinds [])"

definition resolveMentionDecisionCore ::
    "bool \<Rightarrow> bool \<Rightarrow> bool \<Rightarrow> InboundImplicitMentionKind list option \<Rightarrow> InboundImplicitMentionKind list option \<Rightarrow> bool
      \<Rightarrow> InboundMentionDecision" where
  "resolveMentionDecisionCore require canDetect mentioned kinds allowed bypass =
     (let matched = resolveMatchedImplicitMentionKinds kinds allowed;
          implicit = length matched > 0;
          effective = mentioned \<or> implicit \<or> bypass
      in \<lparr>implicitMention = implicit, matchedImplicitMentionKinds = matched, effectiveWasMentioned = effective,
          shouldBypassMention = bypass, shouldSkip = (require \<and> canDetect \<and> \<not> effective)\<rparr>)"

definition resolveInboundMentionDecision :: "InboundMentionFacts \<Rightarrow> InboundMentionPolicy \<Rightarrow> InboundMentionDecision" where
  "resolveInboundMentionDecision facts policy =
     (let bypass = (isGroupM policy \<and> requireMention policy \<and> \<not> wasMentioned facts \<and> \<not> nullish (hasAnyMention facts) False
            \<and> allowTextCommandsM policy \<and> commandAuthorizedM policy \<and> hasControlCommandM policy)
      in resolveMentionDecisionCore (requireMention policy) (canDetectMention facts) (wasMentioned facts)
           (implicitMentionKinds facts) (allowedImplicitMentionKinds policy) bypass)"

definition resolveMentionGating :: "bool \<Rightarrow> bool \<Rightarrow> bool \<Rightarrow> bool option \<Rightarrow> bool option \<Rightarrow> bool \<times> bool" where
  "resolveMentionGating require canDetect mentioned implicit bypass =
     (let result = resolveMentionDecisionCore require canDetect mentioned
            (Some (implicitMentionKindWhen Mk_native (implicit = Some True))) None (bypass = Some True)
      in (effectiveWasMentioned result, shouldSkip result))"

definition resolveMentionGatingWithBypass ::
    "InboundMentionFacts \<Rightarrow> bool option \<Rightarrow> InboundMentionPolicy \<Rightarrow> bool \<times> bool \<times> bool" where
  "resolveMentionGatingWithBypass facts implicit policy =
     (let result = resolveInboundMentionDecision
            (facts\<lparr>implicitMentionKinds := Some (implicitMentionKindWhen Mk_native (implicit = Some True))\<rparr>)
            (policy\<lparr>allowedImplicitMentionKinds := None\<rparr>)
      in (effectiveWasMentioned result, shouldSkip result, shouldBypassMention result))"

section \<open>Groups\<close>

datatype GroupPolicy = Gp_open | Gp_disabled | Gp_allowlist

record RuntimeGroupPolicyResolution =
  groupPolicyR :: GroupPolicy
  providerMissingFallbackApplied :: bool

definition resolveRuntimeGroupPolicy ::
    "bool \<Rightarrow> GroupPolicy option \<Rightarrow> GroupPolicy option \<Rightarrow> GroupPolicy option \<Rightarrow> GroupPolicy option
      \<Rightarrow> RuntimeGroupPolicyResolution" where
  "resolveRuntimeGroupPolicy providerConfigPresent groupPolicy defaultGroupPolicy configuredFallback missingFallback =
     \<lparr>groupPolicyR = (if providerConfigPresent
        then nullish groupPolicy (nullish defaultGroupPolicy (nullish configuredFallback Gp_open))
        else nullish groupPolicy (nullish missingFallback Gp_allowlist)),
      providerMissingFallbackApplied = (\<not> providerConfigPresent \<and> groupPolicy = None)\<rparr>"

definition resolveOpenProviderRuntimeGroupPolicy ::
    "bool \<Rightarrow> GroupPolicy option \<Rightarrow> GroupPolicy option \<Rightarrow> RuntimeGroupPolicyResolution" where
  "resolveOpenProviderRuntimeGroupPolicy providerConfigPresent groupPolicy defaultGroupPolicy =
     resolveRuntimeGroupPolicy providerConfigPresent groupPolicy defaultGroupPolicy (Some Gp_open) (Some Gp_allowlist)"

definition resolveAllowlistProviderRuntimeGroupPolicy ::
    "bool \<Rightarrow> GroupPolicy option \<Rightarrow> GroupPolicy option \<Rightarrow> RuntimeGroupPolicyResolution" where
  "resolveAllowlistProviderRuntimeGroupPolicy providerConfigPresent groupPolicy defaultGroupPolicy =
     resolveRuntimeGroupPolicy providerConfigPresent groupPolicy defaultGroupPolicy (Some Gp_allowlist) (Some Gp_allowlist)"

datatype GroupAccessReason =
    Gr_allowed | Gr_disabled | Gr_empty_allowlist | Gr_sender_not_allowlisted | Gr_route_not_allowlisted
  | Gr_route_disabled | Gr_missing_match_input | Gr_not_allowlisted

record GroupAccessDecision =
  allowedG :: bool
  policyG :: GroupPolicy
  reasonG :: GroupAccessReason

record SenderGroupAccessDecision = GroupAccessDecision +
  fallbackAppliedG :: bool

definition group_refused :: "GroupPolicy \<Rightarrow> GroupAccessReason \<Rightarrow> GroupAccessDecision" where
  "group_refused policy reason = \<lparr>allowedG = False, policyG = policy, reasonG = reason\<rparr>"

definition group_allowed :: "GroupPolicy \<Rightarrow> GroupAccessDecision" where
  "group_allowed policy = \<lparr>allowedG = True, policyG = policy, reasonG = Gr_allowed\<rparr>"

definition resolveSenderScopedGroupPolicy :: "GroupPolicy \<Rightarrow> string list \<Rightarrow> GroupPolicy" where
  "resolveSenderScopedGroupPolicy groupPolicy groupAllowFrom =
     (if groupPolicy = Gp_disabled then Gp_disabled
      else if length groupAllowFrom > 0 then Gp_allowlist else Gp_open)"

definition evaluateGroupRouteAccessForPolicy :: "GroupPolicy \<Rightarrow> bool \<Rightarrow> bool \<Rightarrow> bool option \<Rightarrow> GroupAccessDecision" where
  "evaluateGroupRouteAccessForPolicy groupPolicy routeAllowlistConfigured routeMatched routeEnabled =
     (if groupPolicy = Gp_disabled then group_refused groupPolicy Gr_disabled
      else if routeMatched \<and> routeEnabled = Some False then group_refused groupPolicy Gr_route_disabled
      else if groupPolicy = Gp_allowlist \<and> \<not> routeAllowlistConfigured then group_refused groupPolicy Gr_empty_allowlist
      else if groupPolicy = Gp_allowlist \<and> \<not> routeMatched then group_refused groupPolicy Gr_route_not_allowlisted
      else group_allowed groupPolicy)"

definition evaluateMatchedGroupAccessForPolicy ::
    "GroupPolicy \<Rightarrow> bool \<Rightarrow> bool \<Rightarrow> bool option \<Rightarrow> bool option \<Rightarrow> GroupAccessDecision" where
  "evaluateMatchedGroupAccessForPolicy groupPolicy allowlistConfigured allowlistMatched requireMatchInput hasMatchInput =
     (if groupPolicy = Gp_disabled then group_refused groupPolicy Gr_disabled
      else if groupPolicy = Gp_allowlist \<and> requireMatchInput = Some True \<and> hasMatchInput \<noteq> Some True
      then group_refused groupPolicy Gr_missing_match_input
      else if groupPolicy = Gp_allowlist \<and> \<not> allowlistConfigured then group_refused groupPolicy Gr_empty_allowlist
      else if groupPolicy = Gp_allowlist \<and> \<not> allowlistMatched then group_refused groupPolicy Gr_not_allowlisted
      else group_allowed groupPolicy)"

definition evaluateSenderGroupAccessForPolicy ::
    "GroupPolicy \<Rightarrow> bool option \<Rightarrow> string list \<Rightarrow> string \<Rightarrow> (string \<Rightarrow> string list \<Rightarrow> bool) \<Rightarrow> SenderGroupAccessDecision" where
  "evaluateSenderGroupAccessForPolicy groupPolicy fallbackApplied groupAllowFrom senderId isSenderAllowed =
     GroupAccessDecision.extend
       (if groupPolicy = Gp_disabled then group_refused groupPolicy Gr_disabled
        else if groupPolicy = Gp_allowlist \<and> length groupAllowFrom = 0 then group_refused groupPolicy Gr_empty_allowlist
        else if groupPolicy = Gp_allowlist \<and> \<not> isSenderAllowed senderId groupAllowFrom
        then group_refused groupPolicy Gr_sender_not_allowlisted
        else group_allowed groupPolicy)
       (SenderGroupAccessDecision.fields (fallbackApplied = Some True))"

definition evaluateSenderGroupAccess ::
    "bool \<Rightarrow> GroupPolicy option \<Rightarrow> GroupPolicy option \<Rightarrow> string list \<Rightarrow> string \<Rightarrow> (string \<Rightarrow> string list \<Rightarrow> bool)
      \<Rightarrow> SenderGroupAccessDecision" where
  "evaluateSenderGroupAccess providerConfigPresent configuredGroupPolicy defaultGroupPolicy groupAllowFrom senderId isSenderAllowed =
     (let resolution = resolveOpenProviderRuntimeGroupPolicy providerConfigPresent configuredGroupPolicy defaultGroupPolicy
      in evaluateSenderGroupAccessForPolicy (groupPolicyR resolution) (Some (providerMissingFallbackApplied resolution))
           groupAllowFrom senderId isSenderAllowed)"

section \<open>Direct messages and groups\<close>

definition resolvePinnedMainDmOwnerFromAllowlist ::
    "string option \<Rightarrow> AllowEntry list option \<Rightarrow> (string \<Rightarrow> string option) \<Rightarrow> string option" where
  "resolvePinnedMainDmOwnerFromAllowlist dmScope allowFrom normalizeEntry =
     (if nullish dmScope ''main'' \<noteq> ''main'' then None
      else let rawAllowFrom = nullish allowFrom []
           in if list_ex (\<lambda>e. js_trim (entry_string e) = ''*'') rawAllowFrom then None
              else let normalizedOwners = fold set_add (List.map_filter (\<lambda>e. case normalizeEntry (entry_string e) of
                         Some s \<Rightarrow> if s \<noteq> '''' then Some s else None | None \<Rightarrow> None) rawAllowFrom) []
                   in if length normalizedOwners = 1 then Some (hd normalizedOwners) else None)"

definition resolveEffectiveAllowFromLists ::
    "AllowEntry list option \<Rightarrow> AllowEntry list option \<Rightarrow> AllowEntry list option \<Rightarrow> string option \<Rightarrow> bool option
      \<Rightarrow> string list \<times> string list" where
  "resolveEffectiveAllowFromLists allowFrom groupAllowFrom storeAllowFrom dmPolicy fallback =
     (normalizeStringEntries (map Ae_text (mergeDmAllowFromSources allowFrom storeAllowFrom dmPolicy)),
      normalizeStringEntries (map Ae_text (resolveGroupAllowFromSources allowFrom groupAllowFrom fallback)))"

datatype DmGroupAccessDecision = Access_allow | Access_block | Access_pairing

datatype DmGroupAccessReasonCode =
    Group_policy_allowed | Group_policy_disabled | Group_policy_empty_allowlist | Group_policy_not_allowlisted
  | Dm_policy_open | Dm_policy_disabled | Dm_policy_allowlisted | Dm_policy_pairing_required | Dm_policy_not_allowlisted

record DmGroupAccess =
  decisionA :: DmGroupAccessDecision
  reasonCodeA :: DmGroupAccessReasonCode
  reasonA :: string

record DmGroupAccessInputParams =
  isGroupA :: bool
  dmPolicyA :: "string option"
  groupPolicyA :: "string option"
  allowFromA :: "AllowEntry list option"
  groupAllowFromA :: "AllowEntry list option"
  storeAllowFromA :: "AllowEntry list option"
  fallbackA :: "bool option"
  isSenderAllowedA :: "string list \<Rightarrow> bool"

text \<open>Reading the store of paired senders; nothing is a rejected promise.\<close>

definition readStoreAllowFromForDmPolicy :: "string option \<Rightarrow> bool option \<Rightarrow> string list option \<Rightarrow> string list" where
  "readStoreAllowFromForDmPolicy dmPolicy shouldRead readStore =
     (if shouldRead = Some False \<or> dmPolicy = Some ''allowlist'' then [] else nullish readStore [])"

definition group_policy_of :: "string option \<Rightarrow> GroupPolicy" where
  "group_policy_of policy = (if policy = Some ''open'' then Gp_open else if policy = Some ''disabled'' then Gp_disabled else Gp_allowlist)"

definition group_policy_text :: "GroupPolicy \<Rightarrow> string" where
  "group_policy_text p = (case p of Gp_open \<Rightarrow> ''open'' | Gp_disabled \<Rightarrow> ''disabled'' | Gp_allowlist \<Rightarrow> ''allowlist'')"

definition resolveDmGroupAccessDecision ::
    "bool \<Rightarrow> string option \<Rightarrow> string option \<Rightarrow> AllowEntry list \<Rightarrow> AllowEntry list \<Rightarrow> (string list \<Rightarrow> bool) \<Rightarrow> DmGroupAccess" where
  "resolveDmGroupAccessDecision isGroup rawDmPolicy rawGroupPolicy rawAllowFrom rawGroupAllowFrom isSenderAllowed =
     (let dmPolicy = nullish rawDmPolicy ''pairing'';
          groupPolicy = group_policy_of rawGroupPolicy;
          effectiveAllowFrom = normalizeStringEntries rawAllowFrom;
          effectiveGroupAllowFrom = normalizeStringEntries rawGroupAllowFrom;
          access = (\<lambda>decision code reason. \<lparr>decisionA = decision, reasonCodeA = code, reasonA = reason\<rparr>)
      in if isGroup then
           (let groupAccess = evaluateMatchedGroupAccessForPolicy groupPolicy (length effectiveGroupAllowFrom > 0)
                  (isSenderAllowed effectiveGroupAllowFrom) None None;
                allowed = access Access_allow Group_policy_allowed (''groupPolicy='' @ group_policy_text groupPolicy)
            in if \<not> allowedG groupAccess then
                 (case reasonG groupAccess of
                    Gr_disabled \<Rightarrow> access Access_block Group_policy_disabled ''groupPolicy=disabled''
                  | Gr_empty_allowlist \<Rightarrow> access Access_block Group_policy_empty_allowlist ''groupPolicy=allowlist (empty allowlist)''
                  | Gr_not_allowlisted \<Rightarrow> access Access_block Group_policy_not_allowlisted ''groupPolicy=allowlist (not allowlisted)''
                  | _ \<Rightarrow> allowed)
               else allowed)
         else if dmPolicy = ''disabled'' then access Access_block Dm_policy_disabled ''dmPolicy=disabled''
         else if dmPolicy = ''open'' then access Access_allow Dm_policy_open ''dmPolicy=open''
         else if isSenderAllowed effectiveAllowFrom
         then access Access_allow Dm_policy_allowlisted (''dmPolicy='' @ dmPolicy @ '' (allowlisted)'')
         else if dmPolicy = ''pairing'' then access Access_pairing Dm_policy_pairing_required ''dmPolicy=pairing (not allowlisted)''
         else access Access_block Dm_policy_not_allowlisted (''dmPolicy='' @ dmPolicy @ '' (not allowlisted)''))"

definition resolveDmGroupAccessWithLists :: "DmGroupAccessInputParams \<Rightarrow> DmGroupAccess \<times> string list \<times> string list" where
  "resolveDmGroupAccessWithLists p =
     (case resolveEffectiveAllowFromLists (allowFromA p) (groupAllowFromA p) (storeAllowFromA p) (dmPolicyA p) (fallbackA p) of
        (effectiveAllowFrom, effectiveGroupAllowFrom) \<Rightarrow>
          (resolveDmGroupAccessDecision (isGroupA p) (dmPolicyA p) (groupPolicyA p) (map Ae_text effectiveAllowFrom)
             (map Ae_text effectiveGroupAllowFrom) (isSenderAllowedA p), effectiveAllowFrom, effectiveGroupAllowFrom))"

record AccessCommand =
  useAccessGroupsA :: bool
  allowTextCommandsA :: bool
  hasControlCommandA :: bool

record DmGroupAccessWithGate = DmGroupAccess +
  effectiveAllowFromA :: "string list"
  effectiveGroupAllowFromA :: "string list"
  commandAuthorizedA :: bool
  shouldBlockControlCommandA :: bool

definition resolveDmGroupAccessWithCommandGate ::
    "DmGroupAccessInputParams \<Rightarrow> AccessCommand option \<Rightarrow> DmGroupAccessWithGate" where
  "resolveDmGroupAccessWithCommandGate p command =
     (case resolveDmGroupAccessWithLists p of (access, effectiveAllowFrom, effectiveGroupAllowFrom) \<Rightarrow>
       (let configuredAllowFrom = normalizeStringEntries (nullish (allowFromA p) []);
            configuredGroupAllowFrom = normalizeStringEntries (map Ae_text (resolveGroupAllowFromSources
              (Some (map Ae_text configuredAllowFrom))
              (Some (map Ae_text (normalizeStringEntries (nullish (groupAllowFromA p) [])))) (fallbackA p)));
            commandDmAllowFrom = (if isGroupA p then configuredAllowFrom else effectiveAllowFrom);
            commandGroupAllowFrom = (if isGroupA p then configuredGroupAllowFrom else effectiveGroupAllowFrom);
            gate = (case command of None \<Rightarrow> (False, False)
              | Some c \<Rightarrow> resolveControlCommandGate (useAccessGroupsA c)
                  [\<lparr>configuredC = (length commandDmAllowFrom > 0), allowedC = isSenderAllowedA p commandDmAllowFrom\<rparr>,
                   \<lparr>configuredC = (length commandGroupAllowFrom > 0), allowedC = isSenderAllowedA p commandGroupAllowFrom\<rparr>]
                  (allowTextCommandsA c) (hasControlCommandA c) None)
        in DmGroupAccess.extend access
             (DmGroupAccessWithGate.fields effectiveAllowFrom effectiveGroupAllowFrom (fst gate) (isGroupA p \<and> snd gate))))"

record DmAllowState =
  configAllowFrom :: "string list"
  hasWildcardS :: bool
  allowCount :: nat
  isMultiUserDm :: bool

definition resolveDmAllowState :: "AllowEntry list option \<Rightarrow> (string \<Rightarrow> string) option \<Rightarrow> string list option \<Rightarrow> DmAllowState" where
  "resolveDmAllowState allowFrom rawNormalizeEntry readStore =
     (let config = normalizeStringEntries (nullish allowFrom []);
          wildcard = ''*'' \<in> set config;
          storeAllowFrom = readStoreAllowFromForDmPolicy None None readStore;
          normalizeEntry = nullish rawNormalizeEntry id;
          normal = (\<lambda>xs. filter (\<lambda>s. s \<noteq> '''') (map js_trim (map normalizeEntry xs)));
          count = length (fold set_add (normal (filter (\<lambda>v. v \<noteq> ''*'') config) @ normal storeAllowFrom) [])
      in \<lparr>configAllowFrom = config, hasWildcardS = wildcard, allowCount = count, isMultiUserDm = (wildcard \<or> count > 1)\<rparr>)"

section \<open>What the decisions come to\<close>

lemma normal_entry: "js_trim s = s \<Longrightarrow> s \<noteq> '''' \<Longrightarrow> nullish (normalizeOptionalString (Some s)) '''' = s"
  by (simp add: normalizeOptionalString_fixed)

lemma normal_entries: "s \<in> set (normalizeStringEntries xs) \<Longrightarrow> js_trim s = s \<and> s \<noteq> ''''"
proof -
  assume "s \<in> set (normalizeStringEntries xs)"
  then obtain e where "s = nullish (normalizeOptionalString (Some (entry_string e))) ''''" "s \<noteq> ''''"
    by (auto simp: normalizeStringEntries_def)
  then show ?thesis using normalizeOptionalString_SomeD [of "Some (entry_string e)" s]
    by (cases "normalizeOptionalString (Some (entry_string e))") auto
qed

lemma normal_Nil [simp]: "normalizeStringEntries [] = []"
  by (simp add: normalizeStringEntries_def)

lemma normal_fixed: "(\<And>s. s \<in> set xs \<Longrightarrow> js_trim s = s \<and> s \<noteq> '''') \<Longrightarrow> normalizeStringEntries (map Ae_text xs) = xs"
proof (induction xs)
  case (Cons x xs)
  have "nullish (normalizeOptionalString (Some x)) '''' = x" "x \<noteq> ''''" using Cons.prems normal_entry by simp_all
  moreover have "normalizeStringEntries (map Ae_text xs) = xs" using Cons.IH Cons.prems by simp
  ultimately show ?case by (simp add: normalizeStringEntries_def entry_string_def)
qed (simp add: normalizeStringEntries_def)

lemma normal_twice [simp]: "normalizeStringEntries (map Ae_text (normalizeStringEntries xs)) = normalizeStringEntries xs"
  by (rule normal_fixed) (rule normal_entries)

lemma normal_sources [simp]:
  "normalizeStringEntries (map Ae_text (mergeDmAllowFromSources a s d)) = mergeDmAllowFromSources a s d"
  "normalizeStringEntries (map Ae_text (resolveGroupAllowFromSources a g f)) = resolveGroupAllowFromSources a g f"
  by (simp_all add: mergeDmAllowFromSources_def resolveGroupAllowFromSources_def Let_def)

text \<open>The senders that a configuration lists: for direct messages also those of the pairing store.\<close>

definition listed :: "AllowEntry list option \<Rightarrow> string list" where
  "listed xs = normalizeStringEntries (nullish xs [])"

definition dm_senders :: "DmGroupAccessInputParams \<Rightarrow> string list" where
  "dm_senders p = listed (allowFromA p) @ (if dmPolicyA p = Some ''allowlist'' then [] else listed (storeAllowFromA p))"

definition group_senders :: "DmGroupAccessInputParams \<Rightarrow> string list" where
  "group_senders p = (if nullish (groupAllowFromA p) [] \<noteq> [] then listed (groupAllowFromA p)
     else if fallbackA p = Some False then [] else listed (allowFromA p))"

lemma normal_append [simp]: "normalizeStringEntries (xs @ ys) = normalizeStringEntries xs @ normalizeStringEntries ys"
  by (simp add: normalizeStringEntries_def)

lemma effective_lists:
  "resolveEffectiveAllowFromLists (allowFromA p) (groupAllowFromA p) (storeAllowFromA p) (dmPolicyA p) (fallbackA p)
    = (dm_senders p, group_senders p)"
  by (cases "groupAllowFromA p")
    (auto simp: resolveEffectiveAllowFromLists_def mergeDmAllowFromSources_def resolveGroupAllowFromSources_def dm_senders_def
      group_senders_def listed_def Let_def)

lemma access_with_lists:
  "resolveDmGroupAccessWithLists p =
     (resolveDmGroupAccessDecision (isGroupA p) (dmPolicyA p) (groupPolicyA p) (map Ae_text (dm_senders p))
       (map Ae_text (group_senders p)) (isSenderAllowedA p), dm_senders p, group_senders p)"
  by (simp add: resolveDmGroupAccessWithLists_def effective_lists)

lemma normal_senders [simp]:
  "normalizeStringEntries (map Ae_text (dm_senders p)) = dm_senders p"
  "normalizeStringEntries (map Ae_text (group_senders p)) = group_senders p"
  by (simp_all add: dm_senders_def group_senders_def listed_def)

lemma direct_decision:
  "\<not> isGroupA p \<Longrightarrow> decisionA (fst (resolveDmGroupAccessWithLists p)) =
     (if dmPolicyA p = Some ''open'' \<or> dmPolicyA p \<noteq> Some ''disabled'' \<and> isSenderAllowedA p (dm_senders p) then Access_allow
      else if dmPolicyA p = None \<or> dmPolicyA p = Some ''pairing'' then Access_pairing else Access_block)"
  by (cases "dmPolicyA p") (auto simp: access_with_lists resolveDmGroupAccessDecision_def Let_def)

text \<open>
  Who is let in. A message in a group is let in when the policy of the group is open, or when it is not disabled and
  the sender is on a list that is not empty: that of the group, or for want of one and unless this is switched
  off, that of the direct messages. A direct message is let in under the policy open, and else when the
  policy is not disabled and the sender is on the configured list or, except under the policy allowlist, was
  paired. An unknown sender is offered to pair exactly under the policy pairing, which is the default.
\<close>

theorem dm_group_access_spec:
  "decisionA (fst (resolveDmGroupAccessWithLists p)) =
     (if isGroupA p then
        (if groupPolicyA p = Some ''open'' \<or> groupPolicyA p \<noteq> Some ''disabled'' \<and> group_senders p \<noteq> []
           \<and> isSenderAllowedA p (group_senders p) then Access_allow else Access_block)
      else if dmPolicyA p = Some ''open'' \<or> dmPolicyA p \<noteq> Some ''disabled'' \<and> isSenderAllowedA p (dm_senders p)
        then Access_allow
      else if dmPolicyA p = None \<or> dmPolicyA p = Some ''pairing'' then Access_pairing else Access_block)"
proof (cases "isGroupA p")
  case True
  then show ?thesis
    by (auto simp: access_with_lists resolveDmGroupAccessDecision_def Let_def evaluateMatchedGroupAccessForPolicy_def
        group_policy_of_def group_refused_def group_allowed_def)
next
  case False
  then show ?thesis by (simp add: direct_decision)
qed

section \<open>Commands in groups\<close>

text \<open>Those who may command in a group: the configured list of direct messages, and a configured list of the group.\<close>

definition group_commanders :: "DmGroupAccessInputParams \<Rightarrow> string list" where
  "group_commanders p = (if listed (groupAllowFromA p) \<noteq> [] then listed (groupAllowFromA p)
     else if fallbackA p = Some False then [] else listed (allowFromA p))"

lemma group_command_lists:
  "resolveGroupAllowFromSources (Some (map Ae_text (listed (allowFromA p))))
     (Some (map Ae_text (listed (groupAllowFromA p)))) (fallbackA p) = group_commanders p"
  by (auto simp: resolveGroupAllowFromSources_def group_commanders_def listed_def Let_def)

lemma gate_sel:
  assumes "isGroupA p"
  shows "commandAuthorizedA (resolveDmGroupAccessWithCommandGate p (Some c)) =
      (\<not> useAccessGroupsA c \<or> listed (allowFromA p) \<noteq> [] \<and> isSenderAllowedA p (listed (allowFromA p))
        \<or> group_commanders p \<noteq> [] \<and> isSenderAllowedA p (group_commanders p))"
    "shouldBlockControlCommandA (resolveDmGroupAccessWithCommandGate p (Some c)) =
      (allowTextCommandsA c \<and> hasControlCommandA c \<and> \<not> commandAuthorizedA (resolveDmGroupAccessWithCommandGate p (Some c)))"
    "decisionA (resolveDmGroupAccessWithCommandGate p (Some c)) = decisionA (fst (resolveDmGroupAccessWithLists p))"
    "reasonA (resolveDmGroupAccessWithCommandGate p (Some c)) = reasonA (fst (resolveDmGroupAccessWithLists p))"
  using assms
  by (simp_all add: resolveDmGroupAccessWithCommandGate_def access_with_lists Let_def resolveControlCommandGate_def
      resolveCommandAuthorizedFromAuthorizers_def group_command_lists listed_def [symmetric] DmGroupAccess.defs DmGroupAccessWithGate.defs)

text \<open>
  The pairing store has no say in groups. Pairing lets a sender write direct messages; in a group neither the
  decision about a message nor the authorization of its commands depends on who has been paired. Where access
  groups are used, a sender commands in a group exactly when it is on the configured list of the direct
  messages or on the list for the group, and a message with a control command of anyone else is blocked.
\<close>

theorem group_ignores_pairing_store:
  assumes "isGroupA p"
  shows "(let r = resolveDmGroupAccessWithCommandGate p (Some c);
        r' = resolveDmGroupAccessWithCommandGate (p\<lparr>storeAllowFromA := store\<rparr>) (Some c)
     in decisionA r' = decisionA r \<and> reasonA r' = reasonA r \<and> commandAuthorizedA r' = commandAuthorizedA r
       \<and> shouldBlockControlCommandA r' = shouldBlockControlCommandA r
       \<and> (useAccessGroupsA c \<longrightarrow> (commandAuthorizedA r \<longleftrightarrow>
            listed (allowFromA p) \<noteq> [] \<and> isSenderAllowedA p (listed (allowFromA p))
            \<or> group_commanders p \<noteq> [] \<and> isSenderAllowedA p (group_commanders p)))
       \<and> (shouldBlockControlCommandA r \<longleftrightarrow> allowTextCommandsA c \<and> hasControlCommandA c \<and> \<not> commandAuthorizedA r))"
proof -
  let ?q = "p\<lparr>storeAllowFromA := store\<rparr>"
  have q: "isGroupA ?q" using assms by simp
  have "group_senders ?q = group_senders p" "group_commanders ?q = group_commanders p"
    by (simp_all add: group_senders_def group_commanders_def)
  moreover have "fst (resolveDmGroupAccessWithLists ?q) = fst (resolveDmGroupAccessWithLists p)"
    using assms by (simp add: access_with_lists resolveDmGroupAccessDecision_def Let_def group_senders_def)
  ultimately show ?thesis using assms q unfolding Let_def gate_sel [OF assms] gate_sel [OF q] by auto
qed

definition example_access :: DmGroupAccessInputParams where
  "example_access = \<lparr>isGroupA = True, dmPolicyA = None, groupPolicyA = Some ''open'', allowFromA = Some [Ae_text '' owner ''],
     groupAllowFromA = None, storeAllowFromA = Some [Ae_text ''guest''], fallbackA = None, isSenderAllowedA = (\<lambda>xs. ''guest'' \<in> set xs)\<rparr>"

definition example_command :: AccessCommand where
  "example_command = \<lparr>useAccessGroupsA = True, allowTextCommandsA = True, hasControlCommandA = True\<rparr>"

theorem group_ignores_pairing_store_witness:
  "decisionA (resolveDmGroupAccessWithCommandGate example_access (Some example_command)) = Access_allow
   \<and> shouldBlockControlCommandA (resolveDmGroupAccessWithCommandGate example_access (Some example_command))"
proof -
  have "isGroupA example_access" by (simp add: example_access_def)
  from group_ignores_pairing_store [OF this, of example_command]
  have "shouldBlockControlCommandA (resolveDmGroupAccessWithCommandGate example_access (Some example_command)) \<longleftrightarrow>
      \<not> (listed (allowFromA example_access) \<noteq> [] \<and> isSenderAllowedA example_access (listed (allowFromA example_access))
        \<or> group_commanders example_access \<noteq> [] \<and> isSenderAllowedA example_access (group_commanders example_access))"
    unfolding Let_def by (auto simp: example_command_def)
  moreover have "\<not> isSenderAllowedA example_access (listed (allowFromA example_access))"
    "\<not> isSenderAllowedA example_access (group_commanders example_access)" by code_simp+
  moreover have "decisionA (resolveDmGroupAccessWithCommandGate example_access (Some example_command)) = Access_allow" by code_simp
  ultimately show ?thesis by simp
qed

end
