(* ===== verification/SessionKeys.thy ===== *)
theory SessionKeys
  imports TaskPolicy
begin

text \<open>
  The keys of sessions: how they are built from an agent and a conversation, and read again
  (\<open>src/routing/session-key.ts\<close>, \<open>src/sessions/session-key-utils.ts\<close>, \<open>src/channels/chat-type.ts\<close>).
\<close>

section \<open>Kinds of conversations\<close>

datatype ChatType = Ct_direct | Ct_group | Ct_channel

definition chat_text :: "ChatType \<Rightarrow> string" where
  "chat_text k = (case k of Ct_direct \<Rightarrow> ''direct'' | Ct_group \<Rightarrow> ''group'' | Ct_channel \<Rightarrow> ''channel'')"

definition normalizeChatType :: "string option \<Rightarrow> ChatType option" where
  "normalizeChatType raw = (case normalizeOptionalLowercaseString raw of None \<Rightarrow> None
     | Some value \<Rightarrow>
       if value = ''direct'' \<or> value = ''dm'' then Some Ct_direct
       else if value = ''group'' then Some Ct_group
       else if value = ''channel'' then Some Ct_channel else None)"

section \<open>Reading keys\<close>

text \<open>\<open>s.lastIndexOf(p)\<close>, with \<open>None\<close> for -1, and how often \<open>s.split(p)\<close> splits.\<close>

fun js_last_index_of :: "string \<Rightarrow> string \<Rightarrow> nat option" where
  "js_last_index_of p [] = (if p = [] then Some 0 else None)"
| "js_last_index_of p (c # cs) = (case js_last_index_of p cs of Some n \<Rightarrow> Some (Suc n)
     | None \<Rightarrow> if starts_with p (c # cs) then Some 0 else None)"

function split_count :: "string \<Rightarrow> string \<Rightarrow> nat" where
  "split_count p [] = 0"
| "split_count p (c # cs) =
     (if starts_with p (c # cs) then Suc (split_count p (drop (length p - 1) cs)) else split_count p cs)"
  by pat_completeness auto
termination by (relation "measure (\<lambda>(p, s). length s)") auto

text \<open>\<open>/^cron:[^:]+:run:[^:]+$/\<close>; \<open>.test\<close> of a text whose parts between colons are these.\<close>

definition isCronRunSessionKey :: "string option \<Rightarrow> bool" where
  "isCronRunSessionKey sessionKey = (case parseAgentSessionKey sessionKey of None \<Rightarrow> False
     | Some parsed \<Rightarrow>
       (let parts = split_on (CHR '':'') (parsedRest parsed)
        in length parts = 4 \<and> parts ! 0 = ''cron'' \<and> parts ! 1 \<noteq> '''' \<and> parts ! 2 = ''run'' \<and> parts ! 3 \<noteq> ''''))"

definition rest_starts_with :: "string \<Rightarrow> ParsedAgentSessionKey option \<Rightarrow> bool" where
  "rest_starts_with p parsed = (case normalizeOptionalLowercaseString (map_option parsedRest parsed) of
     None \<Rightarrow> False | Some rest \<Rightarrow> starts_with p rest)"

definition isCronSessionKey :: "string option \<Rightarrow> bool" where
  "isCronSessionKey sessionKey = (case parseAgentSessionKey sessionKey of None \<Rightarrow> False
     | Some parsed \<Rightarrow> rest_starts_with ''cron:'' (Some parsed))"

definition isSubagentSessionKey :: "string option \<Rightarrow> bool" where
  "isSubagentSessionKey sessionKey = (case normalizeOptionalString sessionKey of None \<Rightarrow> False
     | Some raw \<Rightarrow>
       (case normalizeOptionalLowercaseString (Some raw) of Some low \<Rightarrow> starts_with ''subagent:'' low | None \<Rightarrow> False)
       \<or> rest_starts_with ''subagent:'' (parseAgentSessionKey (Some raw)))"

definition getSubagentDepth :: "string option \<Rightarrow> nat" where
  "getSubagentDepth sessionKey = (case normalizeOptionalLowercaseString sessionKey of None \<Rightarrow> 0
     | Some raw \<Rightarrow> split_count '':subagent:'' raw)"

definition isAcpSessionKey :: "string option \<Rightarrow> bool" where
  "isAcpSessionKey sessionKey = (case normalizeOptionalString sessionKey of None \<Rightarrow> False
     | Some raw \<Rightarrow> starts_with ''acp:'' (normalizeLowercaseStringOrEmpty (Some raw))
         \<or> rest_starts_with ''acp:'' (parseAgentSessionKey (Some raw)))"

record ParsedThreadSessionSuffix =
  baseSessionKey :: "string option"
  threadId :: "string option"

definition parseThreadSessionSuffix :: "string option \<Rightarrow> ParsedThreadSessionSuffix" where
  "parseThreadSessionSuffix sessionKey = (case normalizeOptionalString sessionKey of
     None \<Rightarrow> \<lparr>baseSessionKey = None, threadId = None\<rparr>
   | Some raw \<Rightarrow>
     (let lowerRaw = normalizeLowercaseStringOrEmpty (Some raw);
          threadMarker = '':thread:'';
          markerIndex = js_last_index_of threadMarker lowerRaw
      in \<lparr>baseSessionKey = Some (case markerIndex of None \<Rightarrow> raw | Some i \<Rightarrow> take i raw),
          threadId = normalizeOptionalString
            (case markerIndex of None \<Rightarrow> None | Some i \<Rightarrow> Some (drop (i + length threadMarker) raw))\<rparr>))"

record RawSessionConversationRef =
  refChannel :: string
  refKind :: ChatType
  refRawId :: string
  refPrefix :: string

definition parseRawSessionConversationRef :: "string option \<Rightarrow> RawSessionConversationRef option" where
  "parseRawSessionConversationRef sessionKey = (case normalizeOptionalString sessionKey of None \<Rightarrow> None
     | Some raw \<Rightarrow>
       (let rawParts = filter (\<lambda>p. p \<noteq> []) (split_on (CHR '':'') raw);
            bodyStartIndex = (if length rawParts \<ge> 3 \<and> normalizeOptionalLowercaseString (Some (rawParts ! 0)) = Some ''agent''
              then 2 else 0);
            parts = drop bodyStartIndex rawParts
        in if length parts < 3 then None
           else (case (normalizeOptionalLowercaseString (Some (parts ! 0)), normalizeOptionalLowercaseString (Some (parts ! 1))) of
               (Some channel, Some kind) \<Rightarrow>
                 if kind \<noteq> ''group'' \<and> kind \<noteq> ''channel'' then None
                 else (case (normalizeOptionalString (Some (join_with (CHR '':'') (drop 2 parts))),
                          normalizeOptionalString (Some (join_with (CHR '':'') (take (bodyStartIndex + 2) rawParts)))) of
                     (Some rawId, Some prefix) \<Rightarrow>
                       Some \<lparr>refChannel = channel, refKind = (if kind = ''group'' then Ct_group else Ct_channel),
                         refRawId = rawId, refPrefix = prefix\<rparr>
                   | _ \<Rightarrow> None)
             | _ \<Rightarrow> None)))"

definition resolveThreadParentSessionKey :: "string option \<Rightarrow> string option" where
  "resolveThreadParentSessionKey sessionKey =
     (let suffix = parseThreadSessionSuffix sessionKey
      in if threadId suffix = None then None else normalizeOptionalString (baseSessionKey suffix))"

section \<open>Agents\<close>

definition DEFAULT_AGENT_ID :: string where "DEFAULT_AGENT_ID = ''main''"

definition DEFAULT_MAIN_KEY :: string where "DEFAULT_MAIN_KEY = ''main''"

definition DEFAULT_ACCOUNT_ID :: string where "DEFAULT_ACCOUNT_ID = ''default''"

definition normalizeToken :: "string option \<Rightarrow> string" where
  "normalizeToken value = normalizeLowercaseStringOrEmpty value"

definition normalizeMainKey :: "string option \<Rightarrow> string" where
  "normalizeMainKey value = or_str (normalizeLowercaseStringOrEmpty value) DEFAULT_MAIN_KEY"

definition normalizeAgentId :: "string option \<Rightarrow> string" where
  "normalizeAgentId value =
     (let trimmed = js_trim (nullish value '''')
      in if trimmed = '''' then DEFAULT_AGENT_ID
         else let normalized = normalizeLowercaseStringOrEmpty (Some trimmed)
              in if VALID_ID_RE trimmed then normalized
                 else or_str (take 64 (strip_trailing_dash (strip_leading_dash (replace_invalid normalized)))) DEFAULT_AGENT_ID)"

definition isValidAgentId :: "string option \<Rightarrow> bool" where
  "isValidAgentId value = (let trimmed = js_trim (nullish value '''') in trimmed \<noteq> '''' \<and> VALID_ID_RE trimmed)"

definition sanitizeAgentId :: "string option \<Rightarrow> string" where
  "sanitizeAgentId value = normalizeAgentId value"

definition resolveAgentIdFromSessionKey :: "string option \<Rightarrow> string" where
  "resolveAgentIdFromSessionKey sessionKey =
     normalizeAgentId (Some (nullish (map_option parsedAgentId (parseAgentSessionKey sessionKey)) DEFAULT_AGENT_ID))"

datatype SessionKeyShape = Shape_missing | Shape_agent | Shape_legacy_or_alias | Shape_malformed_agent

definition classifySessionKeyShape :: "string option \<Rightarrow> SessionKeyShape" where
  "classifySessionKeyShape sessionKey =
     (let raw = js_trim (nullish sessionKey '''')
      in if raw = '''' then Shape_missing
         else if parseAgentSessionKey (Some raw) \<noteq> None then Shape_agent
         else if starts_with ''agent:'' (normalizeLowercaseStringOrEmpty (Some raw)) then Shape_malformed_agent
         else Shape_legacy_or_alias)"

section \<open>Building keys\<close>

datatype DmScope = Dm_main | Dm_per_peer | Dm_per_channel_peer | Dm_per_account_channel_peer

definition buildAgentMainSessionKey :: "string option \<Rightarrow> string option \<Rightarrow> string" where
  "buildAgentMainSessionKey aid mainKey = ''agent:'' @ normalizeAgentId aid @ '':'' @ normalizeMainKey mainKey"

definition toAgentRequestSessionKey :: "string option \<Rightarrow> string option" where
  "toAgentRequestSessionKey storeKey =
     (let raw = js_trim (nullish storeKey '''')
      in if raw = '''' then None
         else Some (nullish (map_option parsedRest (parseAgentSessionKey (Some raw))) raw))"

definition toAgentStoreSessionKey :: "string \<Rightarrow> string option \<Rightarrow> string option \<Rightarrow> string" where
  "toAgentStoreSessionKey aid requestKey mainKey =
     (let raw = js_trim (nullish requestKey ''''); lowered = normalizeLowercaseStringOrEmpty (Some raw)
      in if raw = '''' \<or> lowered = DEFAULT_MAIN_KEY then buildAgentMainSessionKey (Some aid) mainKey
         else case parseAgentSessionKey (Some raw) of
             Some parsed \<Rightarrow> ''agent:'' @ parsedAgentId parsed @ '':'' @ parsedRest parsed
           | None \<Rightarrow> if starts_with ''agent:'' lowered then lowered
               else ''agent:'' @ normalizeAgentId (Some aid) @ '':'' @ lowered)"

text \<open>The identity that a sender is linked to: the first whose list names the sender, alone or with the channel.\<close>

definition link_candidates :: "string \<Rightarrow> string \<Rightarrow> string list" where
  "link_candidates rawChannel peerId =
     (let rawCandidate = normalizeToken (Some peerId); channel = normalizeToken (Some rawChannel);
          scopedCandidate = normalizeToken (Some (channel @ '':'' @ peerId))
      in (if rawCandidate \<noteq> '''' then [rawCandidate] else [])
         @ (if channel \<noteq> '''' \<and> scopedCandidate \<noteq> '''' then [scopedCandidate] else []))"

definition resolveLinkedPeerId :: "(string \<times> string list) list option \<Rightarrow> string \<Rightarrow> string \<Rightarrow> string option" where
  "resolveLinkedPeerId identityLinks channel rawPeerId = (case identityLinks of None \<Rightarrow> None
     | Some links \<Rightarrow>
       (let peerId = js_trim rawPeerId; candidates = link_candidates channel peerId
        in if peerId = '''' \<or> candidates = [] then None
           else map_option (\<lambda>(canonical, _). js_trim canonical)
             (List.find (\<lambda>(canonical, ids). js_trim canonical \<noteq> ''''
                \<and> list_ex (\<lambda>id. normalizeToken (Some id) \<noteq> '''' \<and> normalizeToken (Some id) \<in> set candidates) ids) links)))"

definition buildAgentPeerSessionKey ::
    "string \<Rightarrow> string option \<Rightarrow> string \<Rightarrow> string option \<Rightarrow> ChatType option \<Rightarrow> string option
      \<Rightarrow> (string \<times> string list) list option \<Rightarrow> DmScope option \<Rightarrow> string" where
  "buildAgentPeerSessionKey aid mainKey rawChannel acct rawKind rawPeerId identityLinks rawDmScope =
     (let peerKind = nullish rawKind Ct_direct;
          agent = ''agent:'' @ normalizeAgentId (Some aid) @ '':'';
          channel = or_str (normalizeLowercaseStringOrEmpty (Some rawChannel)) ''unknown''
      in if peerKind = Ct_direct then
           (let dmScope = nullish rawDmScope Dm_main;
                peerId0 = js_trim (nullish rawPeerId '''');
                linkedPeerId = (if dmScope = Dm_main then None else resolveLinkedPeerId identityLinks rawChannel peerId0);
                peerId = normalizeLowercaseStringOrEmpty (Some (if truthy linkedPeerId then the linkedPeerId else peerId0))
            in if dmScope = Dm_per_account_channel_peer \<and> peerId \<noteq> ''''
               then agent @ channel @ '':'' @ normalizeAccountId acct @ '':direct:'' @ peerId
               else if dmScope = Dm_per_channel_peer \<and> peerId \<noteq> '''' then agent @ channel @ '':direct:'' @ peerId
               else if dmScope = Dm_per_peer \<and> peerId \<noteq> '''' then agent @ ''direct:'' @ peerId
               else buildAgentMainSessionKey (Some aid) mainKey)
         else (let peerId = or_str (normalizeLowercaseStringOrEmpty rawPeerId) ''unknown''
               in agent @ channel @ '':'' @ chat_text peerKind @ '':'' @ peerId))"

definition buildGroupHistoryKey :: "string \<Rightarrow> string option \<Rightarrow> ChatType \<Rightarrow> string \<Rightarrow> string" where
  "buildGroupHistoryKey rawChannel acct peerKind rawPeerId =
     or_str (normalizeToken (Some rawChannel)) ''unknown'' @ '':'' @ normalizeAccountId acct @ '':'' @ chat_text peerKind
       @ '':'' @ or_str (normalizeLowercaseStringOrEmpty (Some rawPeerId)) ''unknown''"

definition resolveThreadSessionKeys ::
    "string \<Rightarrow> string option \<Rightarrow> string option \<Rightarrow> bool option \<Rightarrow> (string \<Rightarrow> string) option \<Rightarrow> string \<times> string option" where
  "resolveThreadSessionKeys base rawThreadId parentSessionKey rawUseSuffix normalizeThreadId =
     (let thread = js_trim (nullish rawThreadId '''')
      in if thread = '''' then (base, None)
         else let normalizedThread = (case normalizeThreadId of Some f \<Rightarrow> f thread
                    | None \<Rightarrow> normalizeLowercaseStringOrEmpty (Some thread));
                  useSuffix = nullish rawUseSuffix True
              in (if useSuffix then base @ '':thread:'' @ normalizedThread else base, parentSessionKey))"

end
