(* ===== verification/PairingStore.thy ===== *)
theory PairingStore
  imports SessionKeys ChannelAccess
begin

text \<open>
  The senders that were paired for direct messages (\<open>src/pairing/pairing-store.ts\<close>): requests with codes, and the lists
  of approved senders. The files are maps from names to contents; a file has a stamp (time of modification and size),
  by which the reading process decides whether what it read before still holds. Each operation holds a lock from
  reading to writing and is one step.
\<close>

section \<open>State\<close>

record PairingRequest =
  requestId :: string
  codeR :: string
  createdAtR :: string
  lastSeenAtR :: string
  metaR :: "(string \<times> string) list option"

text \<open>A list of senders on disk; nothing when the text is not what was expected.\<close>

record AllowFile =
  fileEntries :: "string list option"
  fileMtimeMs :: int
  fileSize :: int

record AllowFromReadCacheEntry =
  existsC :: bool
  mtimeMsC :: "int option"
  sizeC :: "int option"
  entriesC :: "string list"

record PairingStores =
  pairingFiles :: "(string \<times> PairingRequest list) list"
  allowFiles :: "(string \<times> AllowFile) list"
  allowFromReadCache :: "(string \<times> AllowFromReadCacheEntry) list"

datatype PairingStoreError = Invalid_pairing_channel | Invalid_pairing_account | No_unique_code

text \<open>What is asked of the outside: dates as texts, their order as texts, and how a channel writes a sender.\<close>

record PairingLib =
  dateParse :: "string \<Rightarrow> int option"
  isoText :: "int \<Rightarrow> string"
  localeRank :: "string \<Rightarrow> int"
  channelEntry :: "string \<Rightarrow> (string \<Rightarrow> string) option"

text \<open>
  One call: the clock, the random numbers drawn for a code, the stamps that the file system gives to a file that is
  created or written, and whether looking at the written file succeeds.
\<close>

record PairingCall =
  callNow :: int
  codeDraws :: "nat list list"
  createdStamp :: "int \<times> int"
  writtenStamp :: "int \<times> int"
  statWorks :: bool

definition PAIRING_CODE_LENGTH :: nat where "PAIRING_CODE_LENGTH = 8"
definition PAIRING_CODE_ALPHABET :: string where "PAIRING_CODE_ALPHABET = ''ABCDEFGHJKLMNPQRSTUVWXYZ23456789''"
definition PAIRING_PENDING_TTL_MS :: int where "PAIRING_PENDING_TTL_MS = 60 * 60 * 1000"
definition PAIRING_PENDING_MAX :: nat where "PAIRING_PENDING_MAX = 3"

section \<open>Names of files\<close>

text \<open>\<open>replace(/\.\./g, "_")\<close>\<close>

fun replace_dots :: "string \<Rightarrow> string" where
  "replace_dots (a # b # s) = (if a = CHR ''.'' \<and> b = CHR ''.'' then CHR ''_'' # replace_dots s else a # replace_dots (b # s))"
| "replace_dots s = s"

definition unsafe_char :: "char \<Rightarrow> bool" where
  "unsafe_char c \<longleftrightarrow> c \<in> set [CHR 0x5C, CHR ''/'', CHR '':'', CHR ''*'', CHR ''?'', CHR 0x22, CHR ''<'', CHR ''>'', CHR ''|'']"

definition safe_name :: "string \<Rightarrow> string" where
  "safe_name raw = replace_dots (map (\<lambda>c. if unsafe_char c then CHR ''_'' else c) raw)"

definition safeChannelKey :: "string \<Rightarrow> PairingStoreError + string" where
  "safeChannelKey channel =
     (let raw = normalizeLowercaseStringOrEmpty (Some channel)
      in if raw = '''' then Inl Invalid_pairing_channel
         else let safe = safe_name raw
              in if safe = '''' \<or> safe = ''_'' then Inl Invalid_pairing_channel else Inr safe)"

definition resolvePairingPath :: "string \<Rightarrow> PairingStoreError + string" where
  "resolvePairingPath channel = (case safeChannelKey channel of Inl e \<Rightarrow> Inl e | Inr key \<Rightarrow> Inr (key @ ''-pairing.json''))"

definition safeAccountKey :: "string \<Rightarrow> PairingStoreError + string" where
  "safeAccountKey acct =
     (let raw = normalizeLowercaseStringOrEmpty (Some acct)
      in if raw = '''' then Inl Invalid_pairing_account
         else let safe = safe_name raw
              in if safe = '''' \<or> safe = ''_'' then Inl Invalid_pairing_account else Inr safe)"

definition resolveAllowFromPath :: "string \<Rightarrow> string option \<Rightarrow> PairingStoreError + string" where
  "resolveAllowFromPath channel acct = (case safeChannelKey channel of Inl e \<Rightarrow> Inl e
     | Inr base \<Rightarrow>
       (let normalizedAccountId = nullish (normalizeOptionalString acct) ''''
        in if normalizedAccountId = '''' then Inr (base @ ''-allowFrom.json'')
           else case safeAccountKey normalizedAccountId of Inl e \<Rightarrow> Inl e
             | Inr key \<Rightarrow> Inr (base @ ''-'' @ key @ ''-allowFrom.json'')))"

section \<open>Requests\<close>

definition parseTimestamp :: "PairingLib \<Rightarrow> string \<Rightarrow> int option" where
  "parseTimestamp lib value = (if value = '''' then None else dateParse lib value)"

definition request_expired :: "PairingLib \<Rightarrow> PairingRequest \<Rightarrow> int \<Rightarrow> bool" where
  "request_expired lib entry nowMs =
     (let createdAt = parseTimestamp lib (createdAtR entry)
      in if \<not> truthy_num createdAt then True else nowMs - the createdAt > PAIRING_PENDING_TTL_MS)"

definition pruneExpiredRequests :: "PairingLib \<Rightarrow> PairingRequest list \<Rightarrow> int \<Rightarrow> PairingRequest list \<times> bool" where
  "pruneExpiredRequests lib reqs nowMs =
     (filter (\<lambda>req. \<not> request_expired lib req nowMs) reqs, list_ex (\<lambda>req. request_expired lib req nowMs) reqs)"

definition resolveLastSeenAt :: "PairingLib \<Rightarrow> PairingRequest \<Rightarrow> int" where
  "resolveLastSeenAt lib entry =
     nullish (orElse (parseTimestamp lib (lastSeenAtR entry)) (parseTimestamp lib (createdAtR entry))) 0"

definition normalizePairingAccountId :: "string option \<Rightarrow> string" where
  "normalizePairingAccountId acct = normalizeLowercaseStringOrEmpty acct"

definition meta_account :: "PairingRequest \<Rightarrow> string option" where
  "meta_account entry = Option.bind (metaR entry) (\<lambda>m. map_of m ''accountId'')"

definition resolvePairingRequestAccountId :: "PairingRequest \<Rightarrow> string" where
  "resolvePairingRequestAccountId entry = or_str (normalizePairingAccountId (meta_account entry)) DEFAULT_ACCOUNT_ID"

definition request_groups :: "PairingRequest list \<Rightarrow> (string \<times> nat list) list" where
  "request_groups reqs = fold (\<lambda>(index, entry) grouped.
     let acct = resolvePairingRequestAccountId entry
     in AList.update acct (nullish (map_of grouped acct) [] @ [index]) grouped) (enumerate 0 reqs) []"

definition pruneExcessRequestsByAccount :: "PairingLib \<Rightarrow> PairingRequest list \<Rightarrow> nat \<Rightarrow> PairingRequest list \<times> bool" where
  "pruneExcessRequestsByAccount lib reqs maxPending =
     (if maxPending \<le> 0 \<or> length reqs \<le> maxPending then (reqs, False)
      else let droppedIndexes = concat (map (\<lambda>(_, indexes).
                 if length indexes \<le> maxPending then []
                 else take (length indexes - maxPending) (sort_key (\<lambda>i. resolveLastSeenAt lib (reqs ! i)) indexes))
                 (request_groups reqs))
           in if droppedIndexes = [] then (reqs, False)
              else (map snd (filter (\<lambda>(index, _). index \<notin> set droppedIndexes) (enumerate 0 reqs)), True))"

text \<open>\<open>toUpperCase\<close> on U+0000 to U+00FF, but for U+00B5 and U+00FF, whose capitals are not among these.\<close>

definition js_upper :: "string \<Rightarrow> string" where
  "js_upper s = concat (map (\<lambda>c. let n = (of_char c :: nat)
     in if n = 223 then ''SS''
        else if 97 \<le> n \<and> n \<le> 122 \<or> 224 \<le> n \<and> n \<le> 254 \<and> n \<noteq> 247 then [char_of (n - 32)] else [c]) s)"

definition randomCode :: "nat list \<Rightarrow> string" where
  "randomCode idxs = map (\<lambda>idx. PAIRING_CODE_ALPHABET ! idx) (take PAIRING_CODE_LENGTH idxs)"

definition generateUniqueCode :: "nat list list \<Rightarrow> string list \<Rightarrow> string option" where
  "generateUniqueCode draws existing = List.find (\<lambda>code. code \<notin> set existing) (map randomCode (take 500 draws))"

definition requestMatchesAccountId :: "PairingRequest \<Rightarrow> string \<Rightarrow> bool" where
  "requestMatchesAccountId entry normalizedAccountId =
     (if normalizedAccountId = '''' then True else resolvePairingRequestAccountId entry = normalizedAccountId)"

section \<open>Approved senders\<close>

definition shouldIncludeLegacyAllowFromEntries :: "string \<Rightarrow> bool" where
  "shouldIncludeLegacyAllowFromEntries normalizedAccountId \<longleftrightarrow> normalizedAccountId = '''' \<or> normalizedAccountId = DEFAULT_ACCOUNT_ID"

definition resolveAllowFromAccountId :: "string option \<Rightarrow> string" where
  "resolveAllowFromAccountId acct = or_str (normalizePairingAccountId acct) DEFAULT_ACCOUNT_ID"

definition pairing_id :: "AllowEntry \<Rightarrow> string" where
  "pairing_id value = nullish (normalizeOptionalString (Some (entry_string value))) ''''"

definition normalizeAllowEntry :: "PairingLib \<Rightarrow> string \<Rightarrow> string \<Rightarrow> string" where
  "normalizeAllowEntry lib channel entry =
     (let trimmed = js_trim entry
      in if trimmed = '''' then '''' else if trimmed = ''*'' then ''''
         else let normalized = (case channelEntry lib channel of Some f \<Rightarrow> f trimmed | None \<Rightarrow> trimmed)
              in nullish (normalizeOptionalString (Some normalized)) '''')"

definition dedupePreserveOrder :: "string list \<Rightarrow> string list" where
  "dedupePreserveOrder entries = fold (\<lambda>entry out.
     let normalized = nullish (normalizeOptionalString (Some entry)) ''''
     in if normalized = '''' \<or> normalized \<in> set out then out else out @ [normalized]) entries []"

definition normalizeAllowFromList :: "PairingLib \<Rightarrow> string \<Rightarrow> string list option \<Rightarrow> string list" where
  "normalizeAllowFromList lib channel store =
     dedupePreserveOrder (filter (\<lambda>s. s \<noteq> '''') (map (normalizeAllowEntry lib channel) (nullish store [])))"

definition normalizeAllowFromInput :: "PairingLib \<Rightarrow> string \<Rightarrow> AllowEntry \<Rightarrow> string" where
  "normalizeAllowFromInput lib channel entry = normalizeAllowEntry lib channel (pairing_id entry)"

definition setAllowFromReadCache :: "string \<Rightarrow> AllowFromReadCacheEntry \<Rightarrow> PairingStores \<Rightarrow> PairingStores" where
  "setAllowFromReadCache path entry st = st\<lparr>allowFromReadCache := AList.update path entry (allowFromReadCache st)\<rparr>"

definition resolveAllowFromReadCacheHit ::
    "string \<Rightarrow> bool \<Rightarrow> int option \<Rightarrow> int option \<Rightarrow> PairingStores \<Rightarrow> AllowFromReadCacheEntry option" where
  "resolveAllowFromReadCacheHit path fileExists mtime fsize st = (case map_of (allowFromReadCache st) path of None \<Rightarrow> None
     | Some cached \<Rightarrow>
       if existsC cached \<noteq> fileExists then None
       else if \<not> fileExists then Some cached
       else if mtimeMsC cached \<noteq> mtime \<or> sizeC cached \<noteq> fsize then None else Some cached)"

definition resolveAllowFromReadCacheOrMissing ::
    "string \<Rightarrow> AllowFile option \<Rightarrow> PairingStores \<Rightarrow> (string list \<times> bool) option \<times> PairingStores" where
  "resolveAllowFromReadCacheOrMissing path stat st =
     (case resolveAllowFromReadCacheHit path (stat \<noteq> None) (map_option fileMtimeMs stat) (map_option fileSize stat) st of
        Some cached \<Rightarrow> (Some (entriesC cached, existsC cached), st)
      | None \<Rightarrow>
        if stat = None then (Some ([], False),
          setAllowFromReadCache path \<lparr>existsC = False, mtimeMsC = None, sizeC = None, entriesC = []\<rparr> st)
        else (None, st))"

definition readAllowFromStateForPathWithExists ::
    "PairingLib \<Rightarrow> string \<Rightarrow> string \<Rightarrow> PairingStores \<Rightarrow> (string list \<times> bool) \<times> PairingStores" where
  "readAllowFromStateForPathWithExists lib channel path st =
     (let stat = map_of (allowFiles st) path
      in case resolveAllowFromReadCacheOrMissing path stat st of
           (Some cachedOrMissing, st1) \<Rightarrow> (cachedOrMissing, st1)
         | (None, st1) \<Rightarrow>
           (case stat of None \<Rightarrow> (([], False), st1)
            | Some f \<Rightarrow>
              (let entries = normalizeAllowFromList lib channel (fileEntries f)
               in ((entries, True), setAllowFromReadCache path \<lparr>existsC = True, mtimeMsC = Some (fileMtimeMs f),
                     sizeC = Some (fileSize f), entriesC = entries\<rparr> st1))))"

definition readAllowFromStateForPath :: "PairingLib \<Rightarrow> string \<Rightarrow> string \<Rightarrow> PairingStores \<Rightarrow> string list \<times> PairingStores" where
  "readAllowFromStateForPath lib channel path st =
     (case readAllowFromStateForPathWithExists lib channel path st of ((entries, _), st1) \<Rightarrow> (entries, st1))"

text \<open>The synchronous reader: a text that cannot be parsed is remembered as an empty list.\<close>

definition readAllowFromStateForPathSyncWithExists ::
    "PairingLib \<Rightarrow> string \<Rightarrow> string \<Rightarrow> PairingStores \<Rightarrow> (string list \<times> bool) \<times> PairingStores" where
  "readAllowFromStateForPathSyncWithExists lib channel path st =
     (let stat = map_of (allowFiles st) path
      in case resolveAllowFromReadCacheOrMissing path stat st of
           (Some cachedOrMissing, st1) \<Rightarrow> (cachedOrMissing, st1)
         | (None, st1) \<Rightarrow>
           (case stat of None \<Rightarrow> (([], False), st1)
            | Some f \<Rightarrow>
              (let remember = (\<lambda>entries. setAllowFromReadCache path \<lparr>existsC = True, mtimeMsC = Some (fileMtimeMs f),
                     sizeC = Some (fileSize f), entriesC = entries\<rparr> st1)
               in case fileEntries f of
                    Some parsed \<Rightarrow> (let entries = normalizeAllowFromList lib channel (Some parsed) in ((entries, True), remember entries))
                  | None \<Rightarrow> (([], True), remember []))))"

definition readAllowFromStateForPathSync :: "PairingLib \<Rightarrow> string \<Rightarrow> string \<Rightarrow> PairingStores \<Rightarrow> string list \<times> PairingStores" where
  "readAllowFromStateForPathSync lib channel path st =
     (case readAllowFromStateForPathSyncWithExists lib channel path st of ((entries, _), st1) \<Rightarrow> (entries, st1))"

definition read_both ::
    "(PairingLib \<Rightarrow> string \<Rightarrow> string \<Rightarrow> PairingStores \<Rightarrow> string list \<times> PairingStores)
      \<Rightarrow> PairingLib \<Rightarrow> string \<Rightarrow> string option \<Rightarrow> PairingStores \<Rightarrow> (PairingStoreError + string list) \<times> PairingStores" where
  "read_both reader lib channel acct st =
     (let resolvedAccountId = resolveAllowFromAccountId acct
      in case resolveAllowFromPath channel (Some resolvedAccountId) of Inl e \<Rightarrow> (Inl e, st)
         | Inr scopedPath \<Rightarrow>
           (case reader lib channel scopedPath st of (scopedEntries, st1) \<Rightarrow>
             if \<not> shouldIncludeLegacyAllowFromEntries resolvedAccountId then (Inr scopedEntries, st1)
             else case resolveAllowFromPath channel None of Inl e \<Rightarrow> (Inl e, st1)
               | Inr legacyPath \<Rightarrow>
                 (case reader lib channel legacyPath st1 of (legacyEntries, st2) \<Rightarrow>
                   (Inr (dedupePreserveOrder (scopedEntries @ legacyEntries)), st2))))"

definition readChannelAllowFromStore ::
    "PairingLib \<Rightarrow> string \<Rightarrow> string option \<Rightarrow> PairingStores \<Rightarrow> (PairingStoreError + string list) \<times> PairingStores" where
  "readChannelAllowFromStore = read_both readAllowFromStateForPath"

definition readChannelAllowFromStoreSync ::
    "PairingLib \<Rightarrow> string \<Rightarrow> string option \<Rightarrow> PairingStores \<Rightarrow> (PairingStoreError + string list) \<times> PairingStores" where
  "readChannelAllowFromStoreSync = read_both readAllowFromStateForPathSync"

definition readLegacyChannelAllowFromStore ::
    "PairingLib \<Rightarrow> string \<Rightarrow> PairingStores \<Rightarrow> (PairingStoreError + string list) \<times> PairingStores" where
  "readLegacyChannelAllowFromStore lib channel st = (case resolveAllowFromPath channel None of Inl e \<Rightarrow> (Inl e, st)
     | Inr path \<Rightarrow> (case readAllowFromStateForPath lib channel path st of (entries, st1) \<Rightarrow> (Inr entries, st1)))"

definition readLegacyChannelAllowFromStoreSync ::
    "PairingLib \<Rightarrow> string \<Rightarrow> PairingStores \<Rightarrow> (PairingStoreError + string list) \<times> PairingStores" where
  "readLegacyChannelAllowFromStoreSync lib channel st = (case resolveAllowFromPath channel None of Inl e \<Rightarrow> (Inl e, st)
     | Inr path \<Rightarrow> (case readAllowFromStateForPathSync lib channel path st of (entries, st1) \<Rightarrow> (Inr entries, st1)))"

section \<open>Operations on the lists\<close>

definition allow_file :: "string list \<Rightarrow> int \<times> int \<Rightarrow> AllowFile" where
  "allow_file entries stamp = \<lparr>fileEntries = Some entries, fileMtimeMs = fst stamp, fileSize = snd stamp\<rparr>"

definition ensureAllowFile :: "PairingCall \<Rightarrow> string \<Rightarrow> PairingStores \<Rightarrow> PairingStores" where
  "ensureAllowFile call path st = (case map_of (allowFiles st) path of Some _ \<Rightarrow> st
     | None \<Rightarrow> st\<lparr>allowFiles := AList.update path (allow_file [] (createdStamp call)) (allowFiles st)\<rparr>)"

definition writeAllowFromState :: "PairingCall \<Rightarrow> string \<Rightarrow> string list \<Rightarrow> PairingStores \<Rightarrow> PairingStores" where
  "writeAllowFromState call path allowFrom st =
     (let stamp = (if statWorks call then Some (writtenStamp call) else None)
      in setAllowFromReadCache path
           \<lparr>existsC = True, mtimeMsC = map_option fst stamp, sizeC = map_option snd stamp, entriesC = allowFrom\<rparr>
           (st\<lparr>allowFiles := AList.update path (allow_file allowFrom (writtenStamp call)) (allowFiles st)\<rparr>))"

definition updateAllowFromStoreEntry ::
    "PairingLib \<Rightarrow> PairingCall \<Rightarrow> string \<Rightarrow> AllowEntry \<Rightarrow> string option \<Rightarrow> (string list \<Rightarrow> string \<Rightarrow> string list option)
      \<Rightarrow> PairingStores \<Rightarrow> (PairingStoreError + bool \<times> string list) \<times> PairingStores" where
  "updateAllowFromStoreEntry lib call channel entry acct apply_entry st =
     (case resolveAllowFromPath channel acct of Inl e \<Rightarrow> (Inl e, st)
      | Inr path \<Rightarrow>
        (let st1 = ensureAllowFile call path st;
             current = normalizeAllowFromList lib channel (Option.bind (map_of (allowFiles st1) path) fileEntries);
             normalized = normalizeAllowFromInput lib channel entry
         in if normalized = '''' then (Inr (False, current), st1)
            else case apply_entry current normalized of None \<Rightarrow> (Inr (False, current), st1)
              | Some next_entries \<Rightarrow> (Inr (True, next_entries), writeAllowFromState call path next_entries st1)))"

definition add_entry :: "string list \<Rightarrow> string \<Rightarrow> string list option" where
  "add_entry current normalized = (if normalized \<in> set current then None else Some (current @ [normalized]))"

definition remove_entry :: "string list \<Rightarrow> string \<Rightarrow> string list option" where
  "remove_entry current normalized =
     (let next_entries = filter (\<lambda>entry. entry \<noteq> normalized) current
      in if length next_entries = length current then None else Some next_entries)"

definition addChannelAllowFromStoreEntry ::
    "PairingLib \<Rightarrow> PairingCall \<Rightarrow> string \<Rightarrow> AllowEntry \<Rightarrow> string option \<Rightarrow> PairingStores
      \<Rightarrow> (PairingStoreError + bool \<times> string list) \<times> PairingStores" where
  "addChannelAllowFromStoreEntry lib call channel entry acct = updateAllowFromStoreEntry lib call channel entry acct add_entry"

definition removeChannelAllowFromStoreEntry ::
    "PairingLib \<Rightarrow> PairingCall \<Rightarrow> string \<Rightarrow> AllowEntry \<Rightarrow> string option \<Rightarrow> PairingStores
      \<Rightarrow> (PairingStoreError + bool \<times> string list) \<times> PairingStores" where
  "removeChannelAllowFromStoreEntry lib call channel entry acct = updateAllowFromStoreEntry lib call channel entry acct remove_entry"

section \<open>Operations on the requests\<close>

definition readPairingRequests :: "string \<Rightarrow> PairingStores \<Rightarrow> PairingRequest list" where
  "readPairingRequests path st = nullish (map_of (pairingFiles st) path) []"

definition writePairingRequests :: "string \<Rightarrow> PairingRequest list \<Rightarrow> PairingStores \<Rightarrow> PairingStores" where
  "writePairingRequests path reqs st = st\<lparr>pairingFiles := AList.update path reqs (pairingFiles st)\<rparr>"

definition ensurePairingFile :: "string \<Rightarrow> PairingStores \<Rightarrow> PairingStores" where
  "ensurePairingFile path st = (if map_of (pairingFiles st) path = None then writePairingRequests path [] st else st)"

definition listChannelPairingRequests ::
    "PairingLib \<Rightarrow> PairingCall \<Rightarrow> string \<Rightarrow> string option \<Rightarrow> PairingStores
      \<Rightarrow> (PairingStoreError + PairingRequest list) \<times> PairingStores" where
  "listChannelPairingRequests lib call channel acct st = (case resolvePairingPath channel of Inl e \<Rightarrow> (Inl e, st)
     | Inr path \<Rightarrow>
       (let st1 = ensurePairingFile path st;
            (prunedExpired, expiredRemoved) = pruneExpiredRequests lib (readPairingRequests path st1) (callNow call);
            (pruned, cappedRemoved) = pruneExcessRequestsByAccount lib prunedExpired PAIRING_PENDING_MAX;
            st2 = (if expiredRemoved \<or> cappedRemoved then writePairingRequests path pruned st1 else st1);
            normalizedAccountId = normalizePairingAccountId acct;
            filtered = (if normalizedAccountId \<noteq> '''' then filter (\<lambda>entry. requestMatchesAccountId entry normalizedAccountId) pruned
              else pruned)
        in (Inr (sort_key (\<lambda>r. localeRank lib (createdAtR r)) filtered), st2)))"

definition request_meta :: "(string \<times> string option) list option \<Rightarrow> string \<Rightarrow> (string \<times> string) list" where
  "request_meta meta acct = AList.update ''accountId'' acct
     (filter (\<lambda>(_, v). v \<noteq> '''') (map (\<lambda>(k, v). (k, nullish (normalizeOptionalString v) '''')) (nullish meta [])))"

definition pending_code :: "PairingRequest \<Rightarrow> string" where
  "pending_code req = nullish (normalizeOptionalString (Some (codeR req))) ''''"

definition find_request :: "(PairingRequest \<Rightarrow> bool) \<Rightarrow> PairingRequest list \<Rightarrow> nat option" where
  "find_request P reqs = List.find (\<lambda>i. P (reqs ! i)) [0..<length reqs]"

text \<open>The code of the request, nothing when there are too many, and whether it is new.\<close>

definition upsertChannelPairingRequest ::
    "PairingLib \<Rightarrow> PairingCall \<Rightarrow> string \<Rightarrow> AllowEntry \<Rightarrow> string \<Rightarrow> (string \<times> string option) list option \<Rightarrow> PairingStores
      \<Rightarrow> (PairingStoreError + string \<times> bool) \<times> PairingStores" where
  "upsertChannelPairingRequest lib call channel rawId acct rawMeta st = (case resolvePairingPath channel of Inl e \<Rightarrow> (Inl e, st)
     | Inr path \<Rightarrow>
       (let st1 = ensurePairingFile path st;
            now = isoText lib (callNow call);
            ident = pairing_id rawId;
            normalizedAccountId = or_str (normalizePairingAccountId (Some acct)) DEFAULT_ACCOUNT_ID;
            meta = request_meta rawMeta normalizedAccountId;
            (reqs, expiredRemoved) = pruneExpiredRequests lib (readPairingRequests path st1) (callNow call);
            existingIdx = find_request (\<lambda>r. if requestId r \<noteq> ident then False else requestMatchesAccountId r normalizedAccountId) reqs;
            existingCodes = map (\<lambda>req. js_upper (pending_code req)) reqs
        in case existingIdx of
             Some i \<Rightarrow>
               (let existing = reqs ! i; existingCode = pending_code existing
                in case (if existingCode \<noteq> '''' then Some existingCode else generateUniqueCode (codeDraws call) existingCodes) of
                     None \<Rightarrow> (Inl No_unique_code, st1)
                   | Some code \<Rightarrow>
                     (let updated = \<lparr>requestId = ident, codeR = code, createdAtR = createdAtR existing, lastSeenAtR = now,
                            metaR = Some meta\<rparr>
                      in (Inr (code, False),
                          writePairingRequests path (fst (pruneExcessRequestsByAccount lib (reqs[i := updated]) PAIRING_PENDING_MAX)) st1)))
           | None \<Rightarrow>
             (let (capped, cappedRemoved) = pruneExcessRequestsByAccount lib reqs PAIRING_PENDING_MAX;
                  accountRequestCount = length (filter (\<lambda>r. requestMatchesAccountId r normalizedAccountId) capped)
              in if PAIRING_PENDING_MAX > 0 \<and> accountRequestCount \<ge> PAIRING_PENDING_MAX
                 then (Inr ('''', False), if expiredRemoved \<or> cappedRemoved then writePairingRequests path capped st1 else st1)
                 else case generateUniqueCode (codeDraws call) existingCodes of
                     None \<Rightarrow> (Inl No_unique_code, st1)
                   | Some code \<Rightarrow>
                     (Inr (code, True), writePairingRequests path (capped @ [\<lparr>requestId = ident, codeR = code, createdAtR = now,
                        lastSeenAtR = now, metaR = Some meta\<rparr>]) st1))))"

text \<open>A request with that code goes, and its sender joins the list of the account.\<close>

definition approveChannelPairingCode ::
    "PairingLib \<Rightarrow> PairingCall \<Rightarrow> string \<Rightarrow> string option \<Rightarrow> string option \<Rightarrow> PairingStores
      \<Rightarrow> (PairingStoreError + (string \<times> PairingRequest) option) \<times> PairingStores" where
  "approveChannelPairingCode lib call channel rawCode acct st =
     (let code = js_upper (nullish (normalizeNullableString rawCode) '''')
      in if code = '''' then (Inr None, st)
         else case resolvePairingPath channel of Inl e \<Rightarrow> (Inl e, st)
           | Inr path \<Rightarrow>
             (let st1 = ensurePairingFile path st;
                  (pruned, removed) = pruneExpiredRequests lib (readPairingRequests path st1) (callNow call);
                  normalizedAccountId = normalizePairingAccountId acct
              in case find_request (\<lambda>r. if js_upper (codeR r) \<noteq> code then False else requestMatchesAccountId r normalizedAccountId) pruned of
                   None \<Rightarrow> (Inr None, if removed then writePairingRequests path pruned st1 else st1)
                 | Some idx \<Rightarrow>
                   (let entry = pruned ! idx;
                        st2 = writePairingRequests path (take idx pruned @ drop (Suc idx) pruned) st1;
                        entryAccountId = normalizeOptionalString (meta_account entry)
                    in case addChannelAllowFromStoreEntry lib call channel (Ae_text (requestId entry))
                          (orElse (normalizeOptionalString acct) entryAccountId) st2 of
                         (Inl e, st3) \<Rightarrow> (Inl e, st3)
                       | (Inr _, st3) \<Rightarrow> (Inr (Some (requestId entry, entry)), st3))))"

text \<open>The answer to a sender that is not paired (\<open>src/pairing/pairing-challenge.ts\<close>): whether it got a code.\<close>

definition issuePairingChallenge ::
    "PairingLib \<Rightarrow> PairingCall \<Rightarrow> string \<Rightarrow> string \<Rightarrow> string \<Rightarrow> (string \<times> string option) list option \<Rightarrow> PairingStores
      \<Rightarrow> (PairingStoreError + string option) \<times> PairingStores" where
  "issuePairingChallenge lib call channel senderId acct meta st =
     (case upsertChannelPairingRequest lib call channel (Ae_text senderId) acct meta st of
        (Inl e, st1) \<Rightarrow> (Inl e, st1)
      | (Inr (code, created), st1) \<Rightarrow> (Inr (if created then Some code else None), st1))"

end
