(* ===== verification/Routing.thy ===== *)
theory Routing
  imports SessionKeys
begin

text \<open>
  Which agent answers a message and in which session (\<open>src/routing/resolve-route.ts\<close>, \<open>src/config/bindings.ts\<close>,
  \<open>resolveDefaultAgentId\<close> of \<open>src/agents/agent-scope.ts\<close>): the bindings of the configuration, the indexes over
  them, and the three caches that are kept for each configuration. The caches are a state that each resolution
  takes and gives back. A reference to an object is a number: caches compare references.
\<close>

section \<open>Configuration\<close>

record AgentBindingMatch =
  matchChannel :: "string option"
  matchAccountId :: "string option"
  matchPeer :: "(string option \<times> string option) option"
  matchGuildId :: "string option"
  matchTeamId :: "string option"
  matchRoles :: "string list option"

record AgentBinding =
  bindingType :: "string option"
  bindingAgentId :: string
  bindingMatch :: "AgentBindingMatch option"

record AgentEntry =
  entryId :: "string option"
  entryDefault :: bool

record OpenClawConfig =
  cfgRef :: nat
  agentsRef :: nat
  agentsList :: "AgentEntry list option"
  bindingsRef :: nat
  cfgBindings :: "AgentBinding list option"
  sessionRef :: nat
  cfgDmScope :: "DmScope option"
  cfgIdentityLinks :: "(string \<times> string list) list option"

definition normalizeBindingType :: "AgentBinding \<Rightarrow> string" where
  "normalizeBindingType binding = (if bindingType binding = Some ''acp'' then ''acp'' else ''route'')"

definition isRouteBinding :: "AgentBinding \<Rightarrow> bool" where
  "isRouteBinding binding \<longleftrightarrow> normalizeBindingType binding = ''route''"

definition isAcpBinding :: "AgentBinding \<Rightarrow> bool" where
  "isAcpBinding binding \<longleftrightarrow> normalizeBindingType binding = ''acp''"

definition listConfiguredBindings :: "OpenClawConfig \<Rightarrow> AgentBinding list" where
  "listConfiguredBindings cfg = nullish (cfgBindings cfg) []"

definition listRouteBindings :: "OpenClawConfig \<Rightarrow> AgentBinding list" where
  "listRouteBindings cfg = filter isRouteBinding (listConfiguredBindings cfg)"

definition listAcpBindings :: "OpenClawConfig \<Rightarrow> AgentBinding list" where
  "listAcpBindings cfg = filter isAcpBinding (listConfiguredBindings cfg)"

definition listAgentEntries :: "OpenClawConfig \<Rightarrow> AgentEntry list" where
  "listAgentEntries cfg = nullish (agentsList cfg) []"

definition listAgentIds :: "OpenClawConfig \<Rightarrow> string list" where
  "listAgentIds cfg =
     (let agents = listAgentEntries cfg
      in if length agents = 0 then [DEFAULT_AGENT_ID]
         else let ids = fold (\<lambda>entry ids. set_add (normalizeAgentId (entryId entry)) ids) agents []
              in if length ids > 0 then ids else [DEFAULT_AGENT_ID])"

definition resolveDefaultAgentId :: "OpenClawConfig \<Rightarrow> string" where
  "resolveDefaultAgentId cfg =
     (let agents = listAgentEntries cfg; defaults = filter entryDefault agents
      in if length agents = 0 then DEFAULT_AGENT_ID
         else let chosen = map_option js_trim (entryId (case defaults of d # _ \<Rightarrow> d | [] \<Rightarrow> hd agents))
              in normalizeAgentId (Some (if truthy chosen then the chosen else DEFAULT_AGENT_ID)))"

section \<open>Inputs and routes\<close>

record RoutePeer =
  peerKind :: ChatType
  peerId :: string

record ResolveAgentRouteInput =
  inCfg :: OpenClawConfig
  inChannel :: string
  inAccountId :: "string option"
  inPeer :: "RoutePeer option"
  inParentPeer :: "RoutePeer option"
  inGuildId :: "string option"
  inTeamId :: "string option"
  inMemberRoleIds :: "string list option"

datatype MatchedBy =
    Mb_peer | Mb_peer_parent | Mb_peer_wildcard | Mb_guild_roles | Mb_guild | Mb_team | Mb_account | Mb_channel | Mb_default

datatype LastRoutePolicy = Last_main | Last_session

record ResolvedAgentRoute =
  routeAgentId :: string
  routeChannel :: string
  routeAccountId :: string
  routeSessionKey :: string
  routeMainSessionKey :: string
  routeLastRoutePolicy :: LastRoutePolicy
  routeMatchedBy :: MatchedBy

definition deriveLastRoutePolicy :: "string \<Rightarrow> string \<Rightarrow> LastRoutePolicy" where
  "deriveLastRoutePolicy sessionKey mainSessionKey = (if sessionKey = mainSessionKey then Last_main else Last_session)"

definition resolveInboundLastRouteSessionKey :: "ResolvedAgentRoute \<Rightarrow> string \<Rightarrow> string" where
  "resolveInboundLastRouteSessionKey route sessionKey =
     (if routeLastRoutePolicy route = Last_main then routeMainSessionKey route else sessionKey)"

definition normalizeId :: "string option \<Rightarrow> string" where
  "normalizeId value = (case value of Some s \<Rightarrow> js_trim s | None \<Rightarrow> '''')"

definition buildAgentSessionKey ::
    "string \<Rightarrow> string \<Rightarrow> string option \<Rightarrow> RoutePeer option \<Rightarrow> DmScope option \<Rightarrow> (string \<times> string list) list option \<Rightarrow> string" where
  "buildAgentSessionKey aid rawChannel acct peer dmScope identityLinks =
     buildAgentPeerSessionKey aid (Some DEFAULT_MAIN_KEY) (or_str (normalizeToken (Some rawChannel)) ''unknown'') acct
       (Some (case peer of Some p \<Rightarrow> peerKind p | None \<Rightarrow> Ct_direct))
       (map_option (\<lambda>p. or_str (normalizeId (Some (peerId p))) ''unknown'') peer) identityLinks dmScope"

section \<open>Agents\<close>

record AgentLookupCache =
  lookupAgentsRef :: nat
  byNormalizedId :: "(string \<times> string) list"
  fallbackDefaultAgentId :: string

definition build_agent_lookup :: "OpenClawConfig \<Rightarrow> AgentLookupCache" where
  "build_agent_lookup cfg = \<lparr>lookupAgentsRef = agentsRef cfg,
     byNormalizedId = fold (\<lambda>agent m. case map_option js_trim (entryId agent) of None \<Rightarrow> m
       | Some rawId \<Rightarrow> if rawId = '''' then m
           else AList.update (normalizeAgentId (Some rawId)) (sanitizeAgentId (Some rawId)) m) (nullish (agentsList cfg) []) [],
     fallbackDefaultAgentId = sanitizeAgentId (Some (resolveDefaultAgentId cfg))\<rparr>"

text \<open>The agent that a looked-up table names for an identifier.\<close>

definition pick_agent :: "AgentLookupCache \<Rightarrow> string \<Rightarrow> string" where
  "pick_agent lookup aid =
     (let trimmed = js_trim aid
      in if trimmed = '''' then fallbackDefaultAgentId lookup
         else let normalized = normalizeAgentId (Some trimmed)
              in if length (byNormalizedId lookup) = 0 then sanitizeAgentId (Some trimmed)
                 else case map_of (byNormalizedId lookup) normalized of
                     Some resolved \<Rightarrow> if resolved \<noteq> '''' then resolved else fallbackDefaultAgentId lookup
                   | None \<Rightarrow> fallbackDefaultAgentId lookup)"

section \<open>Bindings\<close>

datatype NormalizedPeerConstraint = Pc_none | Pc_invalid | Pc_wildcard_kind ChatType | Pc_valid ChatType string

record NormalizedBindingMatch =
  accountPattern :: string
  peerConstraint :: NormalizedPeerConstraint
  guildConstraint :: "string option"
  teamConstraint :: "string option"
  roleConstraint :: "string list option"

record EvaluatedBinding =
  evBinding :: AgentBinding
  evMatch :: NormalizedBindingMatch
  evOrder :: nat

record BindingScope =
  scopePeer :: "RoutePeer option"
  scopeGuildId :: string
  scopeTeamId :: string
  scopeMemberRoleIds :: "string set"

definition nonempty :: "string \<Rightarrow> string option" where
  "nonempty s = (if s = '''' then None else Some s)"

definition normalizePeerConstraint :: "(string option \<times> string option) option \<Rightarrow> NormalizedPeerConstraint" where
  "normalizePeerConstraint peer = (case peer of None \<Rightarrow> Pc_none
     | Some (rawKind, rawId) \<Rightarrow>
       (let ident = normalizeId rawId
        in case normalizeChatType rawKind of None \<Rightarrow> Pc_invalid
           | Some kind \<Rightarrow> if ident = '''' then Pc_invalid else if ident = ''*'' then Pc_wildcard_kind kind else Pc_valid kind ident))"

definition normalizeBindingMatch :: "AgentBindingMatch option \<Rightarrow> NormalizedBindingMatch" where
  "normalizeBindingMatch m = \<lparr>accountPattern = js_trim (nullish (Option.bind m matchAccountId) ''''),
     peerConstraint = normalizePeerConstraint (Option.bind m matchPeer),
     guildConstraint = nonempty (normalizeId (Option.bind m matchGuildId)),
     teamConstraint = nonempty (normalizeId (Option.bind m matchTeamId)),
     roleConstraint = (case Option.bind m matchRoles of Some rs \<Rightarrow> if length rs > 0 then Some rs else None | None \<Rightarrow> None)\<rparr>"

definition resolveAccountPatternKey :: "string \<Rightarrow> string" where
  "resolveAccountPatternKey pattern = (if js_trim pattern = '''' then DEFAULT_ACCOUNT_ID else normalizeAccountId (Some pattern))"

record EvaluatedBindingsByChannel =
  byAccountB :: "(string \<times> EvaluatedBinding list) list"
  byAnyAccountB :: "EvaluatedBinding list"

text \<open>Pushing to the list of a key.\<close>

definition push_to :: "string \<Rightarrow> 'v \<Rightarrow> (string \<times> 'v list) list \<Rightarrow> (string \<times> 'v list) list" where
  "push_to key v m = AList.update key (nullish (map_of m key) [] @ [v]) m"

definition file_binding ::
    "AgentBinding \<Rightarrow> nat \<times> (string \<times> EvaluatedBindingsByChannel) list \<Rightarrow> nat \<times> (string \<times> EvaluatedBindingsByChannel) list" where
  "file_binding binding acc = (case acc of (order, byChannel) \<Rightarrow>
     (let channel = normalizeToken (Option.bind (bindingMatch binding) matchChannel)
      in if channel = '''' then acc
         else let m = normalizeBindingMatch (bindingMatch binding);
                  evaluated = \<lparr>evBinding = binding, evMatch = m, evOrder = order\<rparr>;
                  bucket = nullish (map_of byChannel channel) \<lparr>byAccountB = [], byAnyAccountB = []\<rparr>;
                  bucket' = (if accountPattern m = ''*'' then bucket\<lparr>byAnyAccountB := byAnyAccountB bucket @ [evaluated]\<rparr>
                    else bucket\<lparr>byAccountB := push_to (resolveAccountPatternKey (accountPattern m)) evaluated (byAccountB bucket)\<rparr>)
              in (order + 1, AList.update channel bucket' byChannel)))"

definition buildEvaluatedBindingsByChannel :: "OpenClawConfig \<Rightarrow> (string \<times> EvaluatedBindingsByChannel) list" where
  "buildEvaluatedBindingsByChannel cfg = snd (fold file_binding (listRouteBindings cfg) (0, []))"

fun mergeEvaluatedBindingsInSourceOrder :: "EvaluatedBinding list \<Rightarrow> EvaluatedBinding list \<Rightarrow> EvaluatedBinding list" where
  "mergeEvaluatedBindingsInSourceOrder [] ys = ys"
| "mergeEvaluatedBindingsInSourceOrder (x # xs) [] = x # xs"
| "mergeEvaluatedBindingsInSourceOrder (x # xs) (y # ys) =
     (if evOrder x \<le> evOrder y then x # mergeEvaluatedBindingsInSourceOrder xs (y # ys)
      else y # mergeEvaluatedBindingsInSourceOrder (x # xs) ys)"

section \<open>Indexes\<close>

record EvaluatedBindingsIndex =
  byPeerI :: "(string \<times> EvaluatedBinding list) list"
  byPeerWildcardI :: "EvaluatedBinding list"
  byGuildWithRolesI :: "(string \<times> EvaluatedBinding list) list"
  byGuildI :: "(string \<times> EvaluatedBinding list) list"
  byTeamI :: "(string \<times> EvaluatedBinding list) list"
  byAccountI :: "EvaluatedBinding list"
  byChannelI :: "EvaluatedBinding list"

definition pushToIndexMap ::
    "string option \<Rightarrow> EvaluatedBinding \<Rightarrow> (string \<times> EvaluatedBinding list) list \<Rightarrow> (string \<times> EvaluatedBinding list) list" where
  "pushToIndexMap key binding m = (if \<not> truthy key then m else push_to (the key) binding m)"

definition peer_key :: "ChatType \<Rightarrow> string \<Rightarrow> string" where
  "peer_key kind ident = chat_text kind @ '':'' @ ident"

definition peerLookupKeys :: "ChatType \<Rightarrow> string \<Rightarrow> string list" where
  "peerLookupKeys kind ident = (case kind of
     Ct_group \<Rightarrow> [peer_key Ct_group ident, peer_key Ct_channel ident]
   | Ct_channel \<Rightarrow> [peer_key Ct_channel ident, peer_key Ct_group ident]
   | Ct_direct \<Rightarrow> [peer_key Ct_direct ident])"

text \<open>The set of what was seen is one of objects, which their orders tell apart.\<close>

definition collectPeerIndexedBindings :: "EvaluatedBindingsIndex \<Rightarrow> RoutePeer option \<Rightarrow> EvaluatedBinding list" where
  "collectPeerIndexedBindings index peer = (case peer of None \<Rightarrow> []
     | Some p \<Rightarrow> fold (\<lambda>key out. fold (\<lambda>b out. if evOrder b \<in> evOrder ` set out then out else out @ [b])
           (nullish (map_of (byPeerI index) key) []) out) (peerLookupKeys (peerKind p) (peerId p)) [])"

definition index_binding :: "EvaluatedBinding \<Rightarrow> EvaluatedBindingsIndex \<Rightarrow> EvaluatedBindingsIndex" where
  "index_binding b index =
     (let m = evMatch b
      in case peerConstraint m of
           Pc_valid kind ident \<Rightarrow>
             index\<lparr>byPeerI := fold (\<lambda>key. pushToIndexMap (Some key) b) (peerLookupKeys kind ident) (byPeerI index)\<rparr>
         | Pc_wildcard_kind kind \<Rightarrow> index\<lparr>byPeerWildcardI := byPeerWildcardI index @ [b]\<rparr>
         | _ \<Rightarrow>
           if guildConstraint m \<noteq> None \<and> roleConstraint m \<noteq> None
           then index\<lparr>byGuildWithRolesI := pushToIndexMap (guildConstraint m) b (byGuildWithRolesI index)\<rparr>
           else if guildConstraint m \<noteq> None then index\<lparr>byGuildI := pushToIndexMap (guildConstraint m) b (byGuildI index)\<rparr>
           else if teamConstraint m \<noteq> None then index\<lparr>byTeamI := pushToIndexMap (teamConstraint m) b (byTeamI index)\<rparr>
           else if accountPattern m \<noteq> ''*'' then index\<lparr>byAccountI := byAccountI index @ [b]\<rparr>
           else index\<lparr>byChannelI := byChannelI index @ [b]\<rparr>)"

definition empty_index :: EvaluatedBindingsIndex where
  "empty_index = \<lparr>byPeerI = [], byPeerWildcardI = [], byGuildWithRolesI = [], byGuildI = [], byTeamI = [],
     byAccountI = [], byChannelI = []\<rparr>"

definition buildEvaluatedBindingsIndex :: "EvaluatedBinding list \<Rightarrow> EvaluatedBindingsIndex" where
  "buildEvaluatedBindingsIndex bindings = fold index_binding bindings empty_index"

section \<open>Caches\<close>

definition MAX_EVALUATED_BINDINGS_CACHE_KEYS :: nat where "MAX_EVALUATED_BINDINGS_CACHE_KEYS = 2000"

definition MAX_RESOLVED_ROUTE_CACHE_KEYS :: nat where "MAX_RESOLVED_ROUTE_CACHE_KEYS = 4000"

record EvaluatedBindingsCache =
  evalBindingsRef :: nat
  byChannelC :: "(string \<times> EvaluatedBindingsByChannel) list"
  byChannelAccount :: "(string \<times> EvaluatedBinding list) list"
  byChannelAccountIndex :: "(string \<times> EvaluatedBindingsIndex) list"

record ResolvedRouteCache =
  routeBindingsRef :: nat
  routeAgentsRef :: nat
  routeSessionRef :: nat
  byKey :: "(string \<times> ResolvedAgentRoute) list"

text \<open>The three maps from configurations.\<close>

record RoutingCaches =
  agentLookupCacheByCfg :: "(nat \<times> AgentLookupCache) list"
  evaluatedBindingsCacheByCfg :: "(nat \<times> EvaluatedBindingsCache) list"
  resolvedRouteCacheByCfg :: "(nat \<times> ResolvedRouteCache) list"

definition resolveAgentLookupCache :: "OpenClawConfig \<Rightarrow> RoutingCaches \<Rightarrow> AgentLookupCache \<times> RoutingCaches" where
  "resolveAgentLookupCache cfg caches =
     (case map_of (agentLookupCacheByCfg caches) (cfgRef cfg) of
        Some existing \<Rightarrow>
          if lookupAgentsRef existing = agentsRef cfg then (existing, caches)
          else (build_agent_lookup cfg, caches\<lparr>agentLookupCacheByCfg :=
             AList.update (cfgRef cfg) (build_agent_lookup cfg) (agentLookupCacheByCfg caches)\<rparr>)
      | None \<Rightarrow> (build_agent_lookup cfg, caches\<lparr>agentLookupCacheByCfg :=
             AList.update (cfgRef cfg) (build_agent_lookup cfg) (agentLookupCacheByCfg caches)\<rparr>))"

definition pickFirstExistingAgentId :: "OpenClawConfig \<Rightarrow> string \<Rightarrow> RoutingCaches \<Rightarrow> string \<times> RoutingCaches" where
  "pickFirstExistingAgentId cfg aid caches =
     (case resolveAgentLookupCache cfg caches of (lookup, caches1) \<Rightarrow> (pick_agent lookup aid, caches1))"

text \<open>Putting a value into a map that is emptied when it grows beyond a size.\<close>

definition put_bounded :: "nat \<Rightarrow> 'k \<Rightarrow> 'v \<Rightarrow> ('k \<times> 'v) list \<Rightarrow> ('k \<times> 'v) list" where
  "put_bounded limit key value m =
     (let m' = AList.update key value m in if length m' > limit then [(key, value)] else m')"

text \<open>
  A table of answers: what is found in it was put there under that key, or was found before. That is all its
  users may rely on, since a table may forget.
\<close>

definition memo_of :: "('m \<Rightarrow> 'k \<Rightarrow> 'v option) \<Rightarrow> ('k \<Rightarrow> 'v \<Rightarrow> bool) \<Rightarrow> 'm \<Rightarrow> bool" where
  "memo_of look good m \<longleftrightarrow> (\<forall>k v. look m k = Some v \<longrightarrow> good k v)"

locale memo =
  fixes look :: "'m \<Rightarrow> 'k \<Rightarrow> 'v option"
    and put :: "'k \<Rightarrow> 'v \<Rightarrow> 'm \<Rightarrow> 'm"
  assumes look_put: "look (put k v m) k' = Some w \<Longrightarrow> k' = k \<and> w = v \<or> look m k' = Some w"
begin

lemma put_good: "memo_of look good m \<Longrightarrow> good k v \<Longrightarrow> memo_of look good (put k v m)"
  using look_put by (fastforce simp: memo_of_def)

lemma put_found: "memo_of look good m \<Longrightarrow> good k v \<Longrightarrow> look (put k v m) k' = Some w \<Longrightarrow> good k' w"
  by (drule (1) put_good [of good m k v]) (simp add: memo_of_def)

end

interpretation kept: memo map_of AList.update
  by unfold_locales (auto simp: update_conv' split: if_splits)

interpretation bounded: memo map_of "put_bounded limit" for limit :: nat
  by unfold_locales (auto simp: put_bounded_def Let_def update_conv' split: if_splits)

definition account_key :: "string \<Rightarrow> string \<Rightarrow> string" where
  "account_key channel acct = channel @ [CHR 0x09] @ acct"

definition fresh_bindings_cache :: "OpenClawConfig \<Rightarrow> EvaluatedBindingsCache" where
  "fresh_bindings_cache cfg = \<lparr>evalBindingsRef = bindingsRef cfg, byChannelC = buildEvaluatedBindingsByChannel cfg,
     byChannelAccount = [], byChannelAccountIndex = []\<rparr>"

text \<open>The bindings of a channel for an account, from the bindings by channel.\<close>

definition channel_account_bindings :: "(string \<times> EvaluatedBindingsByChannel) list \<Rightarrow> string \<Rightarrow> string \<Rightarrow> EvaluatedBinding list" where
  "channel_account_bindings byChannel channel acct =
     (let channelBindings = map_of byChannel channel;
          accountScoped = (case channelBindings of Some b \<Rightarrow> nullish (map_of (byAccountB b) acct) [] | None \<Rightarrow> []);
          anyAccount = (case channelBindings of Some b \<Rightarrow> byAnyAccountB b | None \<Rightarrow> [])
      in mergeEvaluatedBindingsInSourceOrder accountScoped anyAccount)"

definition getEvaluatedBindingsForChannelAccount ::
    "OpenClawConfig \<Rightarrow> string \<Rightarrow> string \<Rightarrow> RoutingCaches \<Rightarrow> EvaluatedBinding list \<times> RoutingCaches" where
  "getEvaluatedBindingsForChannelAccount cfg channel acct caches =
     (let cache = (case map_of (evaluatedBindingsCacheByCfg caches) (cfgRef cfg) of
            Some existing \<Rightarrow> if evalBindingsRef existing = bindingsRef cfg then existing else fresh_bindings_cache cfg
          | None \<Rightarrow> fresh_bindings_cache cfg);
          set_cache = (\<lambda>c. caches\<lparr>evaluatedBindingsCacheByCfg := AList.update (cfgRef cfg) c (evaluatedBindingsCacheByCfg caches)\<rparr>);
          cacheKey = account_key channel acct
      in case map_of (byChannelAccount cache) cacheKey of
           Some hit \<Rightarrow> (hit, set_cache cache)
         | None \<Rightarrow>
           (let evaluated = channel_account_bindings (byChannelC cache) channel acct;
                index = buildEvaluatedBindingsIndex evaluated;
                full = length (AList.update cacheKey evaluated (byChannelAccount cache)) > MAX_EVALUATED_BINDINGS_CACHE_KEYS
            in (evaluated, set_cache (cache\<lparr>
                 byChannelAccount := put_bounded MAX_EVALUATED_BINDINGS_CACHE_KEYS cacheKey evaluated (byChannelAccount cache),
                 byChannelAccountIndex := (if full then [(cacheKey, index)]
                   else AList.update cacheKey index (byChannelAccountIndex cache))\<rparr>))))"

definition getEvaluatedBindingIndexForChannelAccount ::
    "OpenClawConfig \<Rightarrow> string \<Rightarrow> string \<Rightarrow> RoutingCaches \<Rightarrow> EvaluatedBindingsIndex \<times> RoutingCaches" where
  "getEvaluatedBindingIndexForChannelAccount cfg channel acct caches =
     (case getEvaluatedBindingsForChannelAccount cfg channel acct caches of (bindings, caches1) \<Rightarrow>
       (let existing = map_of (evaluatedBindingsCacheByCfg caches1) (cfgRef cfg); cacheKey = account_key channel acct
        in case Option.bind existing (\<lambda>c. map_of (byChannelAccountIndex c) cacheKey) of
             Some indexed \<Rightarrow> (indexed, caches1)
           | None \<Rightarrow>
             (let built = buildEvaluatedBindingsIndex bindings
              in (built, case existing of None \<Rightarrow> caches1
                  | Some c \<Rightarrow> caches1\<lparr>evaluatedBindingsCacheByCfg := AList.update (cfgRef cfg)
                      (c\<lparr>byChannelAccountIndex := AList.update cacheKey built (byChannelAccountIndex c)\<rparr>)
                      (evaluatedBindingsCacheByCfg caches1)\<rparr>))))"

definition same_refs :: "OpenClawConfig \<Rightarrow> ResolvedRouteCache \<Rightarrow> bool" where
  "same_refs cfg c \<longleftrightarrow> routeBindingsRef c = bindingsRef cfg \<and> routeAgentsRef c = agentsRef cfg \<and> routeSessionRef c = sessionRef cfg"

definition resolveRouteCacheForConfig :: "OpenClawConfig \<Rightarrow> RoutingCaches \<Rightarrow> (string \<times> ResolvedAgentRoute) list \<times> RoutingCaches" where
  "resolveRouteCacheForConfig cfg caches =
     (let fresh = caches\<lparr>resolvedRouteCacheByCfg := AList.update (cfgRef cfg) \<lparr>routeBindingsRef = bindingsRef cfg,
            routeAgentsRef = agentsRef cfg, routeSessionRef = sessionRef cfg, byKey = []\<rparr> (resolvedRouteCacheByCfg caches)\<rparr>
      in case map_of (resolvedRouteCacheByCfg caches) (cfgRef cfg) of
           Some existing \<Rightarrow> if same_refs cfg existing then (byKey existing, caches) else ([], fresh)
         | None \<Rightarrow> ([], fresh))"

definition store_route :: "OpenClawConfig \<Rightarrow> string \<Rightarrow> ResolvedAgentRoute \<Rightarrow> RoutingCaches \<Rightarrow> RoutingCaches" where
  "store_route cfg key route caches = (case map_of (resolvedRouteCacheByCfg caches) (cfgRef cfg) of None \<Rightarrow> caches
     | Some c \<Rightarrow> caches\<lparr>resolvedRouteCacheByCfg := AList.update (cfgRef cfg)
         (c\<lparr>byKey := put_bounded MAX_RESOLVED_ROUTE_CACHE_KEYS key route (byKey c)\<rparr>) (resolvedRouteCacheByCfg caches)\<rparr>)"

definition formatRouteCachePeer :: "RoutePeer option \<Rightarrow> string" where
  "formatRouteCachePeer peer = (case peer of None \<Rightarrow> ''-''
     | Some p \<Rightarrow> if peerId p = '''' then ''-'' else chat_text (peerKind p) @ '':'' @ peerId p)"

definition formatRoleIdsCacheKey :: "string list \<Rightarrow> string" where
  "formatRoleIdsCacheKey roleIds = (case roleIds of [] \<Rightarrow> ''-'' | [r] \<Rightarrow> r
     | [a, b] \<Rightarrow> if a \<le> b then a @ '','' @ b else b @ '','' @ a
     | _ \<Rightarrow> join_with (CHR '','') (sort roleIds))"

definition dm_scope_text :: "DmScope \<Rightarrow> string" where
  "dm_scope_text s = (case s of Dm_main \<Rightarrow> ''main'' | Dm_per_peer \<Rightarrow> ''per-peer'' | Dm_per_channel_peer \<Rightarrow> ''per-channel-peer''
     | Dm_per_account_channel_peer \<Rightarrow> ''per-account-channel-peer'')"

text \<open>An input after its normalization.\<close>

record RouteQuery =
  qChannel :: string
  qAccountId :: string
  qPeer :: "RoutePeer option"
  qParentPeer :: "RoutePeer option"
  qGuildId :: string
  qTeamId :: string
  qMemberRoleIds :: "string list"
  qDmScope :: DmScope

definition buildResolvedRouteCacheKey :: "RouteQuery \<Rightarrow> string" where
  "buildResolvedRouteCacheKey q = join_with (CHR 0x09)
     [qChannel q, qAccountId q, formatRouteCachePeer (qPeer q), formatRouteCachePeer (qParentPeer q),
      or_str (qGuildId q) ''-'', or_str (qTeamId q) ''-'', formatRoleIdsCacheKey (qMemberRoleIds q), dm_scope_text (qDmScope q)]"

definition route_query :: "ResolveAgentRouteInput \<Rightarrow> RouteQuery" where
  "route_query input = \<lparr>qChannel = normalizeToken (Some (inChannel input)), qAccountId = normalizeAccountId (inAccountId input),
     qPeer = map_option (\<lambda>p. p\<lparr>peerId := normalizeId (Some (peerId p))\<rparr>) (inPeer input),
     qParentPeer = map_option (\<lambda>p. p\<lparr>peerId := normalizeId (Some (peerId p))\<rparr>) (inParentPeer input),
     qGuildId = normalizeId (inGuildId input), qTeamId = normalizeId (inTeamId input),
     qMemberRoleIds = nullish (inMemberRoleIds input) [], qDmScope = nullish (cfgDmScope (inCfg input)) Dm_main\<rparr>"

section \<open>Resolution\<close>

definition peerKindMatches :: "ChatType \<Rightarrow> ChatType \<Rightarrow> bool" where
  "peerKindMatches k1 k2 \<longleftrightarrow> k1 = k2
     \<or> (let both = {k1, k2} in Ct_group \<in> both \<and> Ct_channel \<in> both)"

definition matchesBindingScope :: "NormalizedBindingMatch \<Rightarrow> BindingScope \<Rightarrow> bool" where
  "matchesBindingScope m scope =
     (if peerConstraint m = Pc_invalid then False
      else if (case peerConstraint m of
          Pc_valid kind ident \<Rightarrow> (case scopePeer scope of None \<Rightarrow> True
            | Some p \<Rightarrow> \<not> peerKindMatches kind (peerKind p) \<or> peerId p \<noteq> ident)
        | Pc_wildcard_kind kind \<Rightarrow> (case scopePeer scope of None \<Rightarrow> True | Some p \<Rightarrow> \<not> peerKindMatches kind (peerKind p))
        | _ \<Rightarrow> False) then False
      else if guildConstraint m \<noteq> None \<and> guildConstraint m \<noteq> Some (scopeGuildId scope) then False
      else if teamConstraint m \<noteq> None \<and> teamConstraint m \<noteq> Some (scopeTeamId scope) then False
      else case roleConstraint m of None \<Rightarrow> True
        | Some roles \<Rightarrow> list_ex (\<lambda>role. role \<in> scopeMemberRoleIds scope) roles)"

record RouteTier =
  tierMatchedBy :: MatchedBy
  tierEnabled :: bool
  tierPeer :: "RoutePeer option"
  tierCandidates :: "EvaluatedBinding list"
  tierPredicate :: "EvaluatedBinding \<Rightarrow> bool"

definition is_valid_peer :: "EvaluatedBinding \<Rightarrow> bool" where
  "is_valid_peer c \<longleftrightarrow> (case peerConstraint (evMatch c) of Pc_valid _ _ \<Rightarrow> True | _ \<Rightarrow> False)"

definition is_wildcard_peer :: "EvaluatedBinding \<Rightarrow> bool" where
  "is_wildcard_peer c \<longleftrightarrow> (case peerConstraint (evMatch c) of Pc_wildcard_kind _ \<Rightarrow> True | _ \<Rightarrow> False)"

definition route_tiers :: "RouteQuery \<Rightarrow> EvaluatedBindingsIndex \<Rightarrow> RouteTier list" where
  "route_tiers q index =
     (let parent = (case qParentPeer q of Some p \<Rightarrow> if peerId p \<noteq> '''' then Some p else None | None \<Rightarrow> None);
          look = (\<lambda>m key. if key \<noteq> '''' then nullish (map_of m key) [] else [])
      in [\<lparr>tierMatchedBy = Mb_peer, tierEnabled = (qPeer q \<noteq> None), tierPeer = qPeer q,
           tierCandidates = collectPeerIndexedBindings index (qPeer q), tierPredicate = is_valid_peer\<rparr>,
          \<lparr>tierMatchedBy = Mb_peer_parent, tierEnabled = (parent \<noteq> None), tierPeer = parent,
           tierCandidates = collectPeerIndexedBindings index (qParentPeer q), tierPredicate = is_valid_peer\<rparr>,
          \<lparr>tierMatchedBy = Mb_peer_wildcard, tierEnabled = (qPeer q \<noteq> None), tierPeer = qPeer q,
           tierCandidates = byPeerWildcardI index, tierPredicate = is_wildcard_peer\<rparr>,
          \<lparr>tierMatchedBy = Mb_guild_roles, tierEnabled = (qGuildId q \<noteq> '''' \<and> length (qMemberRoleIds q) > 0), tierPeer = qPeer q,
           tierCandidates = look (byGuildWithRolesI index) (qGuildId q),
           tierPredicate = (\<lambda>c. guildConstraint (evMatch c) \<noteq> None \<and> roleConstraint (evMatch c) \<noteq> None)\<rparr>,
          \<lparr>tierMatchedBy = Mb_guild, tierEnabled = (qGuildId q \<noteq> ''''), tierPeer = qPeer q,
           tierCandidates = look (byGuildI index) (qGuildId q),
           tierPredicate = (\<lambda>c. guildConstraint (evMatch c) \<noteq> None \<and> roleConstraint (evMatch c) = None)\<rparr>,
          \<lparr>tierMatchedBy = Mb_team, tierEnabled = (qTeamId q \<noteq> ''''), tierPeer = qPeer q,
           tierCandidates = look (byTeamI index) (qTeamId q), tierPredicate = (\<lambda>c. teamConstraint (evMatch c) \<noteq> None)\<rparr>,
          \<lparr>tierMatchedBy = Mb_account, tierEnabled = True, tierPeer = qPeer q, tierCandidates = byAccountI index,
           tierPredicate = (\<lambda>c. accountPattern (evMatch c) \<noteq> ''*'')\<rparr>,
          \<lparr>tierMatchedBy = Mb_channel, tierEnabled = True, tierPeer = qPeer q, tierCandidates = byChannelI index,
           tierPredicate = (\<lambda>c. accountPattern (evMatch c) = ''*'')\<rparr>])"

definition query_scope :: "RouteQuery \<Rightarrow> RoutePeer option \<Rightarrow> BindingScope" where
  "query_scope q peer = \<lparr>scopePeer = peer, scopeGuildId = qGuildId q, scopeTeamId = qTeamId q,
     scopeMemberRoleIds = set (qMemberRoleIds q)\<rparr>"

fun first_tier :: "RouteQuery \<Rightarrow> RouteTier list \<Rightarrow> (string \<times> MatchedBy) option" where
  "first_tier q [] = None"
| "first_tier q (tier # tiers) =
     (if \<not> tierEnabled tier then first_tier q tiers
      else case List.find (\<lambda>c. tierPredicate tier c \<and> matchesBindingScope (evMatch c) (query_scope q (tierPeer tier)))
            (tierCandidates tier) of
          Some matched \<Rightarrow> Some (bindingAgentId (evBinding matched), tierMatchedBy tier)
        | None \<Rightarrow> first_tier q tiers)"

text \<open>The route to an agent that was picked.\<close>

definition route_to :: "OpenClawConfig \<Rightarrow> RouteQuery \<Rightarrow> string \<Rightarrow> MatchedBy \<Rightarrow> ResolvedAgentRoute" where
  "route_to cfg q aid matched =
     (let sessionKey = normalizeLowercaseStringOrEmpty (Some (buildAgentSessionKey aid (qChannel q) (Some (qAccountId q)) (qPeer q)
            (Some (qDmScope q)) (cfgIdentityLinks cfg)));
          mainSessionKey = normalizeLowercaseStringOrEmpty (Some (buildAgentMainSessionKey (Some aid) (Some DEFAULT_MAIN_KEY)))
      in \<lparr>routeAgentId = aid, routeChannel = qChannel q, routeAccountId = qAccountId q, routeSessionKey = sessionKey,
          routeMainSessionKey = mainSessionKey, routeLastRoutePolicy = deriveLastRoutePolicy sessionKey mainSessionKey,
          routeMatchedBy = matched\<rparr>)"

definition resolveAgentRoute ::
    "bool \<Rightarrow> ResolveAgentRouteInput \<Rightarrow> RoutingCaches \<Rightarrow> ResolvedAgentRoute \<times> RoutingCaches" where
  "resolveAgentRoute shouldLogDebug input caches =
     (let cfg = inCfg input; q = route_query input;
          uses_cache = (\<not> shouldLogDebug \<and> cfgIdentityLinks cfg = None);
          key = buildResolvedRouteCacheKey q
      in case (if uses_cache then resolveRouteCacheForConfig cfg caches else ([], caches)) of (routes, caches1) \<Rightarrow>
         (case map_of routes key of
            Some cachedRoute \<Rightarrow> (cachedRoute, caches1)
          | None \<Rightarrow>
            (case getEvaluatedBindingsForChannelAccount cfg (qChannel q) (qAccountId q) caches1 of (_, caches2) \<Rightarrow>
            (case getEvaluatedBindingIndexForChannelAccount cfg (qChannel q) (qAccountId q) caches2 of (index, caches3) \<Rightarrow>
            (let (aid, matched) = nullish (first_tier q (route_tiers q index)) (resolveDefaultAgentId cfg, Mb_default)
             in case pickFirstExistingAgentId cfg aid caches3 of (resolvedAgentId, caches4) \<Rightarrow>
               (let route = route_to cfg q resolvedAgentId matched
                in (route, if uses_cache then store_route cfg key route caches4 else caches4)))))))"

end
