(* ===== verification/SessionKeyProps.thy ===== *)
theory SessionKeyProps
  imports Routing
begin

text \<open>
  What the keys of sessions promise: two conversations share a session only when they should, and the agent of a
  session is read back from its key as it was normalized (\<open>RouteSessions\<close> draws on this for the agents of routes).
\<close>

section \<open>Fields of keys\<close>

lemma first_field_inj:
  "a @ d # x = b @ d # y \<Longrightarrow> d \<notin> set a \<Longrightarrow> d \<notin> set b \<Longrightarrow> a = b \<and> x = y"
proof (induction a arbitrary: b)
  case Nil
  then show ?case by (cases b) auto
next
  case (Cons c a)
  then show ?case by (cases b) auto
qed

lemma id_chars_no_colon: "list_all id_char s \<Longrightarrow> CHR '':'' \<notin> set s"
  by (auto simp: list_all_iff id_char_def ascii_lower_def ascii_digit_def)

lemma account_no_colon: "CHR '':'' \<notin> set (normalizeAccountId v)"
proof -
  have "CHR '':'' \<notin> set (canonicalizeAccountId s)" for s
    using canonicalizeAccountId_shape [of s] by (simp add: id_chars_no_colon)
  then show ?thesis
    by (auto simp: normalizeAccountId_def normalizeCanonicalAccountId_def Let_def)
qed

lemma agent_id_chars: "list_all id_char (normalizeAgentId v)"
proof -
  have "list_all id_char (normalizeLowercaseStringOrEmpty (Some s))" if "VALID_ID_RE s" for s
    using VALID_ID_RE_chars [OF that] by (simp add: normalizeLowercase_chars)
  moreover have "list_all id_char (take 64 (strip_trailing_dash (strip_leading_dash (replace_invalid s))))" for s
    using replace_invalid_chars [of s]
    by (auto simp: strip_leading_dash_def strip_trailing_dash_def list_all_iff dest!: in_set_takeD set_dropWhileD)
  moreover have "list_all id_char DEFAULT_AGENT_ID"
    by (simp add: DEFAULT_AGENT_ID_def id_char_def ascii_lower_def)
  ultimately show ?thesis by (simp add: normalizeAgentId_def Let_def or_str_def)
qed

lemma lowercase_Some: "normalizeLowercaseStringOrEmpty (Some s) = js_lower (js_trim s)"
  by (simp add: normalizeLowercaseStringOrEmpty_def normalizeOptionalLowercaseString_def normalizeOptionalString_Some js_lower_def)

lemma lowercase_trim: "normalizeLowercaseStringOrEmpty (Some (js_trim s)) = normalizeLowercaseStringOrEmpty (Some s)"
  by (simp add: lowercase_Some)

section \<open>Sessions are isolated\<close>

text \<open>The parts that tell conversations apart when each sender of each account has a session.\<close>

definition session_channel :: "string \<Rightarrow> string" where
  "session_channel rawChannel = or_str (normalizeLowercaseStringOrEmpty (Some rawChannel)) ''unknown''"

definition same_session :: "string \<Rightarrow> string \<Rightarrow> string option \<Rightarrow> ChatType \<Rightarrow> string
    \<Rightarrow> string \<Rightarrow> string \<Rightarrow> string option \<Rightarrow> ChatType \<Rightarrow> string \<Rightarrow> bool" where
  "same_session aid ch acct kind peer aid' ch' acct' kind' peer' \<longleftrightarrow>
     normalizeAgentId (Some aid) = normalizeAgentId (Some aid') \<and> session_channel ch = session_channel ch' \<and> kind = kind'
     \<and> (kind = Ct_direct \<longrightarrow> normalizeAccountId acct = normalizeAccountId acct')
     \<and> normalizeLowercaseStringOrEmpty (Some peer) = normalizeLowercaseStringOrEmpty (Some peer')"

text \<open>Under the default scope every direct message of an agent has the key of its main session.\<close>

lemma default_scope_shares:
  "buildAgentPeerSessionKey aid mainKey ch acct (Some Ct_direct) peer links None = buildAgentMainSessionKey (Some aid) mainKey"
  by (simp add: buildAgentPeerSessionKey_def Let_def)

lemma isolated_key:
  assumes "js_trim peer \<noteq> ''''"
  shows "buildAgentPeerSessionKey aid mainKey ch acct (Some kind) (Some peer) None (Some Dm_per_account_channel_peer)
    = ''agent'' @ CHR '':'' # normalizeAgentId (Some aid) @ CHR '':'' # session_channel ch @ CHR '':'' #
      (if kind = Ct_direct then normalizeAccountId acct @ CHR '':'' # ''direct:'' else chat_text kind @ '':'')
      @ normalizeLowercaseStringOrEmpty (Some peer)"
  using assms by (cases kind)
    (simp_all add: buildAgentPeerSessionKey_def Let_def resolveLinkedPeerId_def session_channel_def lowercase_Some js_lower_def or_str_def)

text \<open>
  C39. Sessions are isolated under the scope for accounts, channels and peers, and without identity links: two
  conversations then have the same session key exactly when agent, channel, kind and peer are the same once normalized, and
  for direct messages the account too. This is for channels without a colon, peers that are not blank, and accounts that
  are not named group or channel. Under the scope main, which is the default, all direct messages of an agent share its
  main session on purpose (\<open>default_scope_shares\<close>).
\<close>

theorem sessions_isolated:
  assumes "CHR '':'' \<notin> set (session_channel ch)" "CHR '':'' \<notin> set (session_channel ch')"
    "js_trim peer \<noteq> ''''" "js_trim peer' \<noteq> ''''"
    "normalizeAccountId acct \<notin> {''group'', ''channel''}" "normalizeAccountId acct' \<notin> {''group'', ''channel''}"
  shows "buildAgentPeerSessionKey aid mainKey ch acct (Some kind) (Some peer) None (Some Dm_per_account_channel_peer)
      = buildAgentPeerSessionKey aid' mainKey ch' acct' (Some kind') (Some peer') None (Some Dm_per_account_channel_peer)
    \<longleftrightarrow> same_session aid ch acct kind peer aid' ch' acct' kind' peer'" (is "?key = ?key' \<longleftrightarrow> _")
proof
  define last_fields where "last_fields = (\<lambda>kind acct peer. (if kind = Ct_direct then normalizeAccountId acct else chat_text kind)
    @ CHR '':'' # (if kind = Ct_direct then ''direct:'' else '''') @ normalizeLowercaseStringOrEmpty (Some peer))"
  have key: "?key = ''agent'' @ CHR '':'' # normalizeAgentId (Some aid) @ CHR '':'' # session_channel ch @ CHR '':'' # last_fields kind acct peer"
    "?key' = ''agent'' @ CHR '':'' # normalizeAgentId (Some aid') @ CHR '':'' # session_channel ch' @ CHR '':'' # last_fields kind' acct' peer'"
    using assms(3,4) by (auto simp: isolated_key last_fields_def)
  assume "?key = ?key'"
  then have "normalizeAgentId (Some aid) @ CHR '':'' # session_channel ch @ CHR '':'' # last_fields kind acct peer
      = normalizeAgentId (Some aid') @ CHR '':'' # session_channel ch' @ CHR '':'' # last_fields kind' acct' peer'"
    unfolding key by simp
  then have agents: "normalizeAgentId (Some aid) = normalizeAgentId (Some aid')"
    and rest: "session_channel ch @ CHR '':'' # last_fields kind acct peer = session_channel ch' @ CHR '':'' # last_fields kind' acct' peer'"
    using first_field_inj [OF _ id_chars_no_colon [OF agent_id_chars] id_chars_no_colon [OF agent_id_chars]] by blast+
  from first_field_inj [OF rest assms(1,2)] have channels: "session_channel ch = session_channel ch'"
    and fields: "last_fields kind acct peer = last_fields kind' acct' peer'" by blast+
  have plain: "CHR '':'' \<notin> set (if k = Ct_direct then normalizeAccountId a else chat_text k)" for k a
    by (auto simp: account_no_colon chat_text_def split: ChatType.splits)
  from first_field_inj [OF fields [unfolded last_fields_def] plain plain] assms(5,6)
  have "kind = kind' \<and> (kind = Ct_direct \<longrightarrow> normalizeAccountId acct = normalizeAccountId acct')
      \<and> normalizeLowercaseStringOrEmpty (Some peer) = normalizeLowercaseStringOrEmpty (Some peer')"
    by (cases kind; cases kind') (auto simp: chat_text_def)
  with agents channels show "same_session aid ch acct kind peer aid' ch' acct' kind' peer'" by (simp add: same_session_def)
next
  assume "same_session aid ch acct kind peer aid' ch' acct' kind' peer'"
  then show "?key = ?key'" using assms(3,4) by (simp add: isolated_key same_session_def)
qed

theorem sessions_isolated_witness:
  "buildAgentPeerSessionKey ''main'' None ''Telegram'' (Some ''work'') (Some Ct_direct) (Some ''U1'') None (Some Dm_per_account_channel_peer)
     \<noteq> buildAgentPeerSessionKey ''main'' None ''telegram'' (Some ''home'') (Some Ct_direct) (Some ''u1'') None (Some Dm_per_account_channel_peer)"
proof -
  have "\<not> same_session ''main'' ''Telegram'' (Some ''work'') Ct_direct ''U1'' ''main'' ''telegram'' (Some ''home'') Ct_direct ''u1''"
    by code_simp
  moreover have "CHR '':'' \<notin> set (session_channel ''Telegram'')" "CHR '':'' \<notin> set (session_channel ''telegram'')"
    "js_trim ''U1'' \<noteq> ''''" "js_trim ''u1'' \<noteq> ''''" by code_simp+
  moreover have "normalizeAccountId (Some ''work'') \<notin> {''group'', ''channel''}" "normalizeAccountId (Some ''home'') \<notin> {''group'', ''channel''}"
    by code_simp+
  ultimately show ?thesis
    using sessions_isolated [of "''Telegram''" "''telegram''" "''U1''" "''u1''" "Some ''work''" "Some ''home''" "''main''"
        None Ct_direct "''main''" Ct_direct] by blast
qed

section \<open>The agent of a session\<close>

lemma split_on_field: "d \<notin> set w \<Longrightarrow> split_on d (w @ d # s) = w # split_on d s"
  by (induction w) auto

lemma lower_code:
  "(of_char (js_lower_char c) :: nat) = (let n = of_char c in if 65 \<le> n \<and> n \<le> 90 \<or> 192 \<le> n \<and> n \<le> 222 \<and> n \<noteq> 215 then n + 32 else n)"
  by (auto simp: js_lower_char_def Let_def)

lemma char_code: "c = d \<longleftrightarrow> (of_char c :: nat) = of_char d"
  by (simp only: of_char_eq_iff)

lemma lower_char_props: "js_ws (js_lower_char c) = js_ws c" "js_lower_char c = CHR '':'' \<longleftrightarrow> c = CHR '':''"
  "js_lower_char (js_lower_char c) = js_lower_char c"
  unfolding js_ws_def char_code lower_code Let_def by auto

text \<open>What follows the agent in a key has a character that is neither a colon nor white space.\<close>

definition solid :: "string \<Rightarrow> bool" where
  "solid s \<longleftrightarrow> (\<exists>c \<in> set s. c \<noteq> CHR '':'' \<and> \<not> js_ws c)"

definition agent_key :: "string \<Rightarrow> string \<Rightarrow> string" where
  "agent_key aid s = ''agent'' @ CHR '':'' # aid @ CHR '':'' # s"

lemma dropWhile_keeps: "x \<in> set xs \<Longrightarrow> \<not> P x \<Longrightarrow> x \<in> set (dropWhile P xs)"
  by (induction xs) auto

lemma js_trim_key:
  assumes "solid s"
  shows "\<exists>s'. js_trim (agent_key aid s) = agent_key aid s' \<and> solid s'"
proof -
  from assms obtain c where c: "c \<in> set s" "c \<noteq> CHR '':''" "\<not> js_ws c" by (auto simp: solid_def)
  let ?s = "rev (dropWhile js_ws (rev s))"
  have "js_trim (agent_key aid s) = agent_key aid ?s"
    using c by (simp add: js_trim_def agent_key_def js_ws_def dropWhile_append1)
  moreover have "solid ?s" using c dropWhile_keeps [of c "rev s" js_ws] by (auto simp: solid_def)
  ultimately show ?thesis by blast
qed

lemma js_lower_key:
  assumes "list_all id_char aid" "solid s"
  shows "js_lower (agent_key aid s) = agent_key aid (js_lower s) \<and> solid (js_lower s)"
proof -
  have "map js_lower_char aid = aid" using assms(1) by (simp add: list_all_iff js_lower_char_id map_idI)
  moreover have "js_lower_char CHR '':'' = CHR '':''" using lower_char_props(2) by blast
  moreover have "map js_lower_char ''agent'' = ''agent''" by code_simp
  ultimately show ?thesis
    using assms(2) unfolding js_lower_def agent_key_def solid_def by (auto simp: lower_char_props(1,2))
qed

lemma lowercase_key:
  "list_all id_char aid \<Longrightarrow> solid s \<Longrightarrow>
     \<exists>s'. normalizeLowercaseStringOrEmpty (Some (agent_key aid s)) = agent_key aid s' \<and> solid s'"
  unfolding lowercase_Some by (metis js_trim_key js_lower_key)

lemma join_nonempty: "ws \<noteq> [] \<Longrightarrow> hd ws \<noteq> [] \<Longrightarrow> join_with d ws \<noteq> []"
  by (induction d ws rule: join_with.induct) auto

lemma agent_id_nonempty: "normalizeAgentId v \<noteq> ''''"
proof -
  have "normalizeLowercaseStringOrEmpty (Some s) \<noteq> ''''" if "s \<noteq> ''''" "js_trim s = s" for s
    using that by (simp add: lowercase_Some js_lower_def)
  then show ?thesis by (auto simp: normalizeAgentId_def Let_def DEFAULT_AGENT_ID_def or_str_def)
qed

lemma solid_part: "solid s \<Longrightarrow> \<exists>p \<in> set (split_on (CHR '':'') s). p \<noteq> []"
proof (induction s)
  case (Cons c s)
  then show ?case by (cases "split_on CHR '':'' s") (auto simp: solid_def)
qed (simp add: solid_def)

lemma id_chars_trim: "list_all id_char s \<Longrightarrow> js_trim s = s"
proof -
  assume "list_all id_char s"
  then have "\<forall>c \<in> set s. \<not> js_ws c"
    by (auto simp: list_all_iff js_ws_def id_char_def ascii_lower_def ascii_digit_def)
  then have "dropWhile js_ws s = s" "dropWhile js_ws (rev s) = rev s" by (auto simp: dropWhile_eq_self_iff hd_rev)
  then show ?thesis by (simp add: js_trim_def)
qed

lemma parse_key:
  assumes "list_all id_char aid" "aid \<noteq> ''''" "solid s"
  shows "\<exists>r. parseAgentSessionKey (Some (agent_key aid s)) = Some \<lparr>parsedAgentId = aid, parsedRest = r\<rparr>"
proof -
  obtain s1 where s1: "js_trim (agent_key aid s) = agent_key aid s1" "solid s1" using js_trim_key [OF assms(3)] by blast
  let ?s = "js_lower s1"
  from js_lower_key [OF assms(1) s1(2)] have low: "js_lower (js_trim (agent_key aid s)) = agent_key aid ?s" "solid ?s"
    by (simp_all add: s1(1))
  have "js_trim (agent_key aid s) \<noteq> ''''" unfolding s1(1) by (simp add: agent_key_def)
  with low(1) have raw: "normalizeOptionalLowercaseString (Some (agent_key aid s)) = Some (agent_key aid ?s)"
    by (simp add: normalizeOptionalLowercaseString_def normalizeOptionalString_Some)
  let ?ps = "filter (\<lambda>p. p \<noteq> []) (split_on (CHR '':'') ?s)"
  have "split_on (CHR '':'') (agent_key aid ?s) = ''agent'' # aid # split_on (CHR '':'') ?s"
    using id_chars_no_colon [OF assms(1)] by (simp add: agent_key_def split_on_field)
  then have parts: "filter (\<lambda>p. p \<noteq> []) (split_on (CHR '':'') (agent_key aid ?s)) = ''agent'' # aid # ?ps"
    using assms(2) by simp
  have ps: "?ps \<noteq> []" using solid_part [OF low(2)] by (auto simp: filter_empty_conv)
  then have "hd ?ps \<noteq> []" using list.set_sel(1) by fastforce
  with ps have "join_with (CHR '':'') ?ps \<noteq> []" by (rule join_nonempty)
  moreover have "normalizeOptionalString (Some aid) = Some aid"
    using assms(1,2) by (simp add: normalizeOptionalString_Some id_chars_trim)
  ultimately show ?thesis
    using ps unfolding parseAgentSessionKey_def raw option.case parts Let_def by (cases ?ps) auto
qed

lemma session_key_form:
  "\<exists>s. buildAgentPeerSessionKey aid (Some DEFAULT_MAIN_KEY) ch acct kind peer links scope = agent_key (normalizeAgentId (Some aid)) s \<and> solid s"
proof -
  have main: "buildAgentMainSessionKey (Some aid) (Some DEFAULT_MAIN_KEY) = agent_key (normalizeAgentId (Some aid)) ''main''"
  proof -
    have "normalizeMainKey (Some DEFAULT_MAIN_KEY) = ''main''" by code_simp
    then show ?thesis by (simp add: buildAgentMainSessionKey_def agent_key_def)
  qed
  let ?ch = "or_str (normalizeLowercaseStringOrEmpty (Some ch)) ''unknown''" and ?scope = "nullish scope Dm_main"
  let ?p0 = "js_trim (nullish peer '''')"
  let ?l = "if ?scope = Dm_main then None else resolveLinkedPeerId links ch ?p0"
  let ?p = "normalizeLowercaseStringOrEmpty (Some (if truthy ?l then the ?l else ?p0))"
  let ?direct = "if ?scope = Dm_per_account_channel_peer \<and> ?p \<noteq> '''' then ?ch @ '':'' @ normalizeAccountId acct @ '':direct:'' @ ?p
    else if ?scope = Dm_per_channel_peer \<and> ?p \<noteq> '''' then ?ch @ '':direct:'' @ ?p
    else if ?scope = Dm_per_peer \<and> ?p \<noteq> '''' then ''direct:'' @ ?p else ''main''"
  let ?group = "?ch @ '':'' @ chat_text (nullish kind Ct_direct) @ '':'' @ or_str (normalizeLowercaseStringOrEmpty peer) ''unknown''"
  have solid: "solid ?direct" "solid ?group"
    by (auto simp: solid_def js_ws_def chat_text_def split: ChatType.splits)
  show ?thesis
  proof (cases "nullish kind Ct_direct = Ct_direct")
    case True
    then have "buildAgentPeerSessionKey aid (Some DEFAULT_MAIN_KEY) ch acct kind peer links scope
        = agent_key (normalizeAgentId (Some aid)) ?direct"
      unfolding buildAgentPeerSessionKey_def Let_def main by (simp add: agent_key_def)
    with solid(1) show ?thesis by blast
  next
    case False
    then have "buildAgentPeerSessionKey aid (Some DEFAULT_MAIN_KEY) ch acct kind peer links scope
        = agent_key (normalizeAgentId (Some aid)) ?group"
      unfolding buildAgentPeerSessionKey_def Let_def by (simp add: agent_key_def)
    with solid(2) show ?thesis by blast
  qed
qed

lemma agent_of_key:
  assumes "solid s"
  shows "resolveAgentIdFromSessionKey (Some (normalizeLowercaseStringOrEmpty (Some (agent_key (normalizeAgentId (Some aid)) s))))
    = normalizeAgentId (Some (normalizeAgentId (Some aid)))"
proof -
  let ?n = "normalizeAgentId (Some aid)"
  have chars: "list_all id_char ?n" by (rule agent_id_chars)
  from lowercase_key [OF chars assms] obtain s' where
    s': "normalizeLowercaseStringOrEmpty (Some (agent_key ?n s)) = agent_key ?n s'" "solid s'" by blast
  from parse_key [OF chars agent_id_nonempty s'(2)] show ?thesis
    unfolding s'(1) by (auto simp: resolveAgentIdFromSessionKey_def)
qed

end
