(* ===== verification/PairingStoreProps.thy ===== *)
theory PairingStoreProps
  imports PairingStore SessionKeyProps
begin

text \<open>
  What the store of paired senders promises, to any number of processes that share its files and remember what they
  read: the lists are what the log of grants says, and a code stands for one sender, for one hour.
\<close>

section \<open>Processes and what they did\<close>

datatype PairingEvent =
    Pe_read string "string option"
  | Pe_read_sync string "string option"
  | Pe_add PairingCall string AllowEntry "string option"
  | Pe_remove PairingCall string AllowEntry "string option"
  | Pe_list PairingCall string "string option"
  | Pe_upsert PairingCall string AllowEntry string "(string \<times> string option) list option"
  | Pe_approve PairingCall string "string option" "string option"

datatype PairingOutput =
    Po_failed PairingStoreError
  | Po_senders "string list"
  | Po_changed bool "string list"
  | Po_requests "PairingRequest list"
  | Po_code string bool
  | Po_approved "(string \<times> PairingRequest) option"

definition outcome_of :: "('v \<Rightarrow> PairingOutput) \<Rightarrow> (PairingStoreError + 'v) \<times> PairingStores \<Rightarrow> PairingOutput \<times> PairingStores" where
  "outcome_of f r = ((case fst r of Inl e \<Rightarrow> Po_failed e | Inr v \<Rightarrow> f v), snd r)"

definition perform :: "PairingLib \<Rightarrow> PairingEvent \<Rightarrow> PairingStores \<Rightarrow> PairingOutput \<times> PairingStores" where
  "perform lib e st = (case e of
     Pe_read ch acct \<Rightarrow> outcome_of Po_senders (readChannelAllowFromStore lib ch acct st)
   | Pe_read_sync ch acct \<Rightarrow> outcome_of Po_senders (readChannelAllowFromStoreSync lib ch acct st)
   | Pe_add call ch entry acct \<Rightarrow> outcome_of (\<lambda>(c, es). Po_changed c es) (addChannelAllowFromStoreEntry lib call ch entry acct st)
   | Pe_remove call ch entry acct \<Rightarrow> outcome_of (\<lambda>(c, es). Po_changed c es) (removeChannelAllowFromStoreEntry lib call ch entry acct st)
   | Pe_list call ch acct \<Rightarrow> outcome_of Po_requests (listChannelPairingRequests lib call ch acct st)
   | Pe_upsert call ch ident acct meta \<Rightarrow> outcome_of (\<lambda>(c, n). Po_code c n) (upsertChannelPairingRequest lib call ch ident acct meta st)
   | Pe_approve call ch code acct \<Rightarrow> outcome_of Po_approved (approveChannelPairingCode lib call ch code acct st))"

record PairingWorld =
  sharedRequests :: "(string \<times> PairingRequest list) list"
  sharedLists :: "(string \<times> AllowFile) list"
  processCache :: "nat \<Rightarrow> (string \<times> AllowFromReadCacheEntry) list"

definition view_of :: "nat \<Rightarrow> PairingWorld \<Rightarrow> PairingStores" where
  "view_of pid w = \<lparr>pairingFiles = sharedRequests w, allowFiles = sharedLists w, allowFromReadCache = processCache w pid\<rparr>"

definition after_of :: "nat \<Rightarrow> PairingStores \<Rightarrow> PairingWorld \<Rightarrow> PairingWorld" where
  "after_of pid st w = \<lparr>sharedRequests = pairingFiles st, sharedLists = allowFiles st,
     processCache = (processCache w)(pid := allowFromReadCache st)\<rparr>"

definition empty_world :: PairingWorld where
  "empty_world = \<lparr>sharedRequests = [], sharedLists = [], processCache = (\<lambda>_. [])\<rparr>"

definition call_of :: "PairingEvent \<Rightarrow> PairingCall option" where
  "call_of e = (case e of Pe_read _ _ \<Rightarrow> None | Pe_read_sync _ _ \<Rightarrow> None | Pe_add call _ _ _ \<Rightarrow> Some call
     | Pe_remove call _ _ _ \<Rightarrow> Some call | Pe_list call _ _ \<Rightarrow> Some call | Pe_upsert call _ _ _ _ \<Rightarrow> Some call
     | Pe_approve call _ _ _ \<Rightarrow> Some call)"

definition channel_of :: "PairingEvent \<Rightarrow> string" where
  "channel_of e = (case e of Pe_read ch _ \<Rightarrow> ch | Pe_read_sync ch _ \<Rightarrow> ch | Pe_add _ ch _ _ \<Rightarrow> ch | Pe_remove _ ch _ _ \<Rightarrow> ch
     | Pe_list _ ch _ \<Rightarrow> ch | Pe_upsert _ ch _ _ _ \<Rightarrow> ch | Pe_approve _ ch _ _ \<Rightarrow> ch)"

definition draws_ok :: "PairingCall \<Rightarrow> bool" where
  "draws_ok call \<longleftrightarrow> (\<forall>idxs \<in> set (codeDraws call). length idxs = PAIRING_CODE_LENGTH \<and> (\<forall>i \<in> set idxs. i < length PAIRING_CODE_ALPHABET))"

text \<open>The channel is one of those that are in use, and the numbers of a code are drawn from the size of its alphabet.\<close>

definition may_happen :: "string set \<Rightarrow> PairingEvent \<Rightarrow> bool" where
  "may_happen C e \<longleftrightarrow> channel_of e \<in> C \<and> (\<forall>call. call_of e = Some call \<longrightarrow> draws_ok call)"

inductive pairing_run :: "PairingLib \<Rightarrow> string set \<Rightarrow> (PairingEvent \<times> PairingOutput) list \<Rightarrow> PairingWorld \<Rightarrow> bool"
  for lib C where
  run_start: "pairing_run lib C [] empty_world"
| run_step: "pairing_run lib C log w \<Longrightarrow> may_happen C e \<Longrightarrow> perform lib e (view_of pid w) = (out, st) \<Longrightarrow>
    pairing_run lib C ((e, out) # log) (after_of pid st w)"

text \<open>
  What is supposed of the channels in use: no two share a file (files of different accounts of a channel may be one file,
  when their names differ in characters that names of files cannot have).
\<close>

definition channels_ok :: "string set \<Rightarrow> bool" where
  "channels_ok C \<longleftrightarrow> (\<forall>ch \<in> C. \<forall>ch' \<in> C. \<forall>acct acct' p.
     resolveAllowFromPath ch acct = Inr p \<longrightarrow> resolveAllowFromPath ch' acct' = Inr p \<longrightarrow> ch = ch')"

text \<open>
  A sender is written in the form of its channel, and put in that form again when it is read. The prefixes that channels
  strip are stripped once each time, so that \<open>tg:tg:42\<close> is written as \<open>tg:42\<close> and read as \<open>42\<close>; a sender is
  settled when what is written is what is read.
\<close>

definition entry_settled :: "PairingLib \<Rightarrow> string \<Rightarrow> AllowEntry \<Rightarrow> bool" where
  "entry_settled lib ch entry \<longleftrightarrow>
     normalizeAllowEntry lib ch (normalizeAllowFromInput lib ch entry) = normalizeAllowFromInput lib ch entry"

definition settles :: "PairingLib \<Rightarrow> PairingEvent \<times> PairingOutput \<Rightarrow> bool" where
  "settles lib eo \<longleftrightarrow> (case eo of
     (Pe_add _ ch entry _, _) \<Rightarrow> entry_settled lib ch entry
   | (Pe_approve _ ch _ _, Po_approved (Some (ident, _))) \<Rightarrow> entry_settled lib ch (Ae_text ident)
   | _ \<Rightarrow> True)"

definition settled :: "PairingLib \<Rightarrow> (PairingEvent \<times> PairingOutput) list \<Rightarrow> bool" where
  "settled lib log \<longleftrightarrow> (\<forall>eo \<in> set log. settles lib eo)"

text \<open>
  The time and the size that a file gets when it is written: a process takes a file that it knows with both for unchanged.
\<close>

definition touched_path :: "PairingEvent \<times> PairingOutput \<Rightarrow> string option" where
  "touched_path eo = (case eo of
     (Pe_add _ ch _ acct, _) \<Rightarrow> (case resolveAllowFromPath ch acct of Inl _ \<Rightarrow> None | Inr p \<Rightarrow> Some p)
   | (Pe_remove _ ch _ acct, _) \<Rightarrow> (case resolveAllowFromPath ch acct of Inl _ \<Rightarrow> None | Inr p \<Rightarrow> Some p)
   | (Pe_approve _ ch _ acct, Po_approved (Some (_, r))) \<Rightarrow>
       (case resolveAllowFromPath ch (orElse (normalizeOptionalString acct) (normalizeOptionalString (meta_account r))) of
          Inl _ \<Rightarrow> None | Inr p \<Rightarrow> Some p)
   | _ \<Rightarrow> None)"

definition event_stamps :: "PairingEvent \<Rightarrow> (int \<times> int) list" where
  "event_stamps e = (case call_of e of None \<Rightarrow> [] | Some call \<Rightarrow> [createdStamp call, writtenStamp call])"

definition stamps_of :: "(PairingEvent \<times> PairingOutput) list \<Rightarrow> string \<Rightarrow> (int \<times> int) list" where
  "stamps_of log p = concat (map (\<lambda>eo. if touched_path eo = Some p then event_stamps (fst eo) else []) log)"

fun stamps_differ :: "(PairingEvent \<times> PairingOutput) list \<Rightarrow> bool" where
  "stamps_differ [] = True"
| "stamps_differ (eo # log) = (stamps_differ log \<and>
     (case touched_path eo of None \<Rightarrow> True | Some p \<Rightarrow> \<forall>s \<in> set (event_stamps (fst eo)). s \<notin> set (stamps_of log p)))"

section \<open>The log as the specification of the lists\<close>

definition grants :: "PairingLib \<Rightarrow> PairingEvent \<times> PairingOutput \<Rightarrow> string \<Rightarrow> string \<Rightarrow> bool" where
  "grants lib eo path x \<longleftrightarrow> x \<noteq> '''' \<and> (case eo of
     (Pe_add _ ch entry acct, _) \<Rightarrow> resolveAllowFromPath ch acct = Inr path \<and> normalizeAllowFromInput lib ch entry = x
   | (Pe_approve _ ch _ acct, Po_approved (Some (ident, r))) \<Rightarrow>
       resolveAllowFromPath ch (orElse (normalizeOptionalString acct) (normalizeOptionalString (meta_account r))) = Inr path
       \<and> normalizeAllowFromInput lib ch (Ae_text ident) = x
   | _ \<Rightarrow> False)"

definition revokes :: "PairingLib \<Rightarrow> PairingEvent \<times> PairingOutput \<Rightarrow> string \<Rightarrow> string \<Rightarrow> bool" where
  "revokes lib eo path x \<longleftrightarrow> (case eo of
     (Pe_remove _ ch entry acct, _) \<Rightarrow> resolveAllowFromPath ch acct = Inr path \<and> normalizeAllowFromInput lib ch entry = x
   | _ \<Rightarrow> False)"

fun granted :: "PairingLib \<Rightarrow> (PairingEvent \<times> PairingOutput) list \<Rightarrow> string \<Rightarrow> string \<Rightarrow> bool" where
  "granted lib [] path x = False"
| "granted lib (eo # log) path x = (if grants lib eo path x then True else if revokes lib eo path x then False else granted lib log path x)"

section \<open>Lists in normal form\<close>

definition entries_of :: "(string \<times> AllowFile) list \<Rightarrow> string \<Rightarrow> string list" where
  "entries_of files path = nullish (Option.bind (map_of files path) fileEntries) []"

definition normal_list :: "PairingLib \<Rightarrow> string \<Rightarrow> string list \<Rightarrow> bool" where
  "normal_list lib ch es \<longleftrightarrow> distinct es \<and> (\<forall>x \<in> set es. x \<noteq> '''' \<and> normalizeAllowEntry lib ch x = x)"

lemma normalizeAllowEntry_trim: "js_trim (normalizeAllowEntry lib ch s) = normalizeAllowEntry lib ch s"
  by (auto simp: normalizeAllowEntry_def Let_def normalizeOptionalString_Some)

lemma dedupe_aux:
  "distinct (out @ es) \<Longrightarrow> \<forall>x \<in> set es. x \<noteq> '''' \<and> js_trim x = x \<Longrightarrow>
     fold (\<lambda>entry out. let normalized = nullish (normalizeOptionalString (Some entry)) ''''
       in if normalized = '''' \<or> normalized \<in> set out then out else out @ [normalized]) es out = out @ es"
  by (induction es arbitrary: out) (auto simp: normalizeOptionalString_Some)

lemma dedupe_fixed: "distinct es \<Longrightarrow> \<forall>x \<in> set es. x \<noteq> '''' \<and> js_trim x = x \<Longrightarrow> dedupePreserveOrder es = es"
  unfolding dedupePreserveOrder_def using dedupe_aux [of "[]" es] by simp

lemma dedupe_set:
  "set (dedupePreserveOrder es) = js_trim ` set es - {''''}"
proof -
  have "set (fold (\<lambda>entry out. let normalized = nullish (normalizeOptionalString (Some entry)) ''''
       in if normalized = '''' \<or> normalized \<in> set out then out else out @ [normalized]) es out) = set out \<union> (js_trim ` set es - {''''})" for out
    by (induction es arbitrary: out) (auto simp: normalizeOptionalString_Some Let_def)
  then show ?thesis by (simp add: dedupePreserveOrder_def)
qed

lemma normal_list_fixed: "normal_list lib ch es \<Longrightarrow> normalizeAllowFromList lib ch (Some es) = es"
proof -
  assume n: "normal_list lib ch es"
  then have "map (normalizeAllowEntry lib ch) es = es" by (simp add: normal_list_def map_idI)
  moreover have "filter (\<lambda>s. s \<noteq> '''') es = es" using n by (simp add: normal_list_def)
  moreover have "\<forall>x \<in> set es. js_trim x = x" using n normalizeAllowEntry_trim by (metis normal_list_def)
  ultimately show ?thesis using n by (simp add: normalizeAllowFromList_def dedupe_fixed normal_list_def)
qed

lemma normal_list_Nil [simp]: "normal_list lib ch []" "normalizeAllowFromList lib ch None = []"
  by (simp_all add: normal_list_def normalizeAllowFromList_def dedupePreserveOrder_def)

section \<open>Files and what processes remember of them\<close>

definition lists_ok :: "PairingLib \<Rightarrow> string set \<Rightarrow> (string \<times> AllowFile) list \<Rightarrow> bool" where
  "lists_ok lib C files \<longleftrightarrow> (\<forall>path f. map_of files path = Some f \<longrightarrow>
     (\<exists>es. fileEntries f = Some es \<and> (\<forall>ch \<in> C. \<forall>acct. resolveAllowFromPath ch acct = Inr path \<longrightarrow> normal_list lib ch es)))"

definition coherent :: "(string \<times> AllowFile) list \<Rightarrow> (string \<times> AllowFromReadCacheEntry) list \<Rightarrow> bool" where
  "coherent files cache \<longleftrightarrow> (\<forall>path c. map_of cache path = Some c \<longrightarrow> (\<not> existsC c \<longrightarrow> entriesC c = [])
     \<and> (\<forall>f. existsC c \<longrightarrow> map_of files path = Some f \<longrightarrow> mtimeMsC c = Some (fileMtimeMs f) \<longrightarrow> sizeC c = Some (fileSize f)
         \<longrightarrow> fileEntries f = Some (entriesC c)))"

definition stamp_fresh :: "string \<Rightarrow> int \<times> int \<Rightarrow> (string \<times> AllowFromReadCacheEntry) list \<Rightarrow> bool" where
  "stamp_fresh path s cache \<longleftrightarrow> (\<forall>c. map_of cache path = Some c \<longrightarrow> mtimeMsC c \<noteq> Some (fst s) \<or> sizeC c \<noteq> Some (snd s))"

text \<open>The stamps of the files and those that a process remembers.\<close>

definition known :: "(string \<Rightarrow> (int \<times> int) set) \<Rightarrow> (string \<times> AllowFile) list \<Rightarrow> (string \<times> AllowFromReadCacheEntry) list \<Rightarrow> bool" where
  "known K files cache \<longleftrightarrow> (\<forall>path f. map_of files path = Some f \<longrightarrow> (fileMtimeMs f, fileSize f) \<in> K path)
     \<and> (\<forall>path c m n. map_of cache path = Some c \<longrightarrow> mtimeMsC c = Some m \<longrightarrow> sizeC c = Some n \<longrightarrow> (m, n) \<in> K path)"

lemma known_mono: "known K files cache \<Longrightarrow> (\<And>p. K p \<subseteq> L p) \<Longrightarrow> known L files cache"
  unfolding known_def by blast

lemma known_fresh: "known K files cache \<Longrightarrow> s \<notin> K path \<Longrightarrow> stamp_fresh path s cache"
  by (auto simp: known_def stamp_fresh_def) (metis prod.collapse)

lemma known_write: "known K files cache \<Longrightarrow> s \<in> K path \<Longrightarrow> known K (AList.update path (allow_file es s) files) cache"
  by (auto simp: known_def update_conv' allow_file_def)

lemma known_put:
  "known K files cache \<Longrightarrow> (\<And>m n. mtimeMsC c = Some m \<Longrightarrow> sizeC c = Some n \<Longrightarrow> (m, n) \<in> K path) \<Longrightarrow> known K files (AList.update path c cache)"
  by (auto simp: known_def update_conv')

lemma coherent_write:
  "coherent files cache \<Longrightarrow> stamp_fresh path s cache \<Longrightarrow> coherent (AList.update path (allow_file es s) files) cache"
  unfolding coherent_def stamp_fresh_def by (auto simp: update_conv' allow_file_def split: if_splits)

lemma lists_ok_write:
  assumes "channels_ok C" "lists_ok lib C files" "ch \<in> C" "resolveAllowFromPath ch acct = Inr path" "normal_list lib ch es"
  shows "lists_ok lib C (AList.update path (allow_file es s) files)"
proof -
  have "normal_list lib ch' es" if "ch' \<in> C" "resolveAllowFromPath ch' acct' = Inr path" for ch' acct'
  proof -
    have "ch = ch'" using assms(1,3,4) that unfolding channels_ok_def by blast
    with assms(5) show ?thesis by simp
  qed
  then show ?thesis using assms(2) unfolding lists_ok_def update_conv' by (auto simp: allow_file_def)
qed

lemma entries_of_write: "entries_of (AList.update path (allow_file es s) files) p = (if p = path then es else entries_of files p)"
  by (simp add: entries_of_def update_conv' allow_file_def)

lemma lists_okD:
  assumes "lists_ok lib C files" "ch \<in> C" "resolveAllowFromPath ch acct = Inr path"
  shows "normal_list lib ch (entries_of files path)"
proof (cases "map_of files path")
  case (Some f)
  with assms obtain es where "fileEntries f = Some es" "normal_list lib ch es" unfolding lists_ok_def by blast
  with Some show ?thesis by (simp add: entries_of_def)
qed (simp add: entries_of_def)

definition remembered :: "AllowFile \<Rightarrow> string list \<Rightarrow> AllowFromReadCacheEntry" where
  "remembered f es = \<lparr>existsC = True, mtimeMsC = Some (fileMtimeMs f), sizeC = Some (fileSize f), entriesC = es\<rparr>"

lemma coherent_put:
  "coherent files cache \<Longrightarrow> map_of files path = Some f \<Longrightarrow> fileEntries f = Some es \<Longrightarrow>
     coherent files (AList.update path \<lparr>existsC = True, mtimeMsC = m, sizeC = n, entriesC = es\<rparr> cache)"
  by (simp add: coherent_def update_conv')

lemma coherent_remember:
  "coherent files cache \<Longrightarrow> map_of files path = Some f \<Longrightarrow> fileEntries f = Some es \<Longrightarrow> coherent files (AList.update path (remembered f es) cache)"
  unfolding remembered_def by (rule coherent_put)

lemma coherent_forget:
  "coherent files cache \<Longrightarrow>
     coherent files (AList.update path \<lparr>existsC = False, mtimeMsC = None, sizeC = None, entriesC = []\<rparr> cache)"
  by (simp add: coherent_def update_conv')

lemma read_missing:
  assumes "map_of (allowFiles st) path = None" "coherent (allowFiles st) (allowFromReadCache st)"
  shows "\<exists>cache. readAllowFromStateForPathWithExists lib ch path st = (([], False), st\<lparr>allowFromReadCache := cache\<rparr>)
    \<and> readAllowFromStateForPathSyncWithExists lib ch path st = (([], False), st\<lparr>allowFromReadCache := cache\<rparr>) \<and> coherent (allowFiles st) cache
    \<and> (\<forall>K. known K (allowFiles st) (allowFromReadCache st) \<longrightarrow> known K (allowFiles st) cache)"
proof (cases "resolveAllowFromReadCacheHit path False None None st")
  case (Some c)
  then have "map_of (allowFromReadCache st) path = Some c" "\<not> existsC c"
    by (auto simp: resolveAllowFromReadCacheHit_def split: option.splits if_splits)
  with assms(2) have "entriesC c = []" "existsC c = False" by (auto simp: coherent_def)
  with Some assms show ?thesis
    by (intro exI [of _ "allowFromReadCache st"])
      (simp add: readAllowFromStateForPathWithExists_def readAllowFromStateForPathSyncWithExists_def resolveAllowFromReadCacheOrMissing_def Let_def)
next
  case None
  have "known K (allowFiles st) (allowFromReadCache st) \<Longrightarrow> known K (allowFiles st)
      (AList.update path \<lparr>existsC = False, mtimeMsC = None, sizeC = None, entriesC = []\<rparr> (allowFromReadCache st))" for K
    by (intro known_put) simp_all
  with None assms coherent_forget [OF assms(2)] show ?thesis
    by (intro exI [of _ "AList.update path \<lparr>existsC = False, mtimeMsC = None, sizeC = None, entriesC = []\<rparr> (allowFromReadCache st)"])
      (simp add: readAllowFromStateForPathWithExists_def readAllowFromStateForPathSyncWithExists_def resolveAllowFromReadCacheOrMissing_def
        setAllowFromReadCache_def known_put Let_def)
qed

lemma read_present:
  assumes "map_of (allowFiles st) path = Some f" "fileEntries f = Some es" "normalizeAllowFromList lib ch (Some es) = es"
    "coherent (allowFiles st) (allowFromReadCache st)"
  shows "\<exists>cache. readAllowFromStateForPathWithExists lib ch path st = ((es, True), st\<lparr>allowFromReadCache := cache\<rparr>)
    \<and> readAllowFromStateForPathSyncWithExists lib ch path st = ((es, True), st\<lparr>allowFromReadCache := cache\<rparr>) \<and> coherent (allowFiles st) cache
    \<and> (\<forall>K. known K (allowFiles st) (allowFromReadCache st) \<longrightarrow> known K (allowFiles st) cache)"
proof (cases "resolveAllowFromReadCacheHit path True (Some (fileMtimeMs f)) (Some (fileSize f)) st")
  case (Some c)
  then have c: "map_of (allowFromReadCache st) path = Some c" "existsC c" "mtimeMsC c = Some (fileMtimeMs f)" "sizeC c = Some (fileSize f)"
    by (auto simp: resolveAllowFromReadCacheHit_def split: option.splits if_splits)
  with assms(1,4) have "fileEntries f = Some (entriesC c)" unfolding coherent_def by blast
  with assms(2) have "entriesC c = es" by simp
  with Some c(2) assms show ?thesis
    by (intro exI [of _ "allowFromReadCache st"])
      (simp add: readAllowFromStateForPathWithExists_def readAllowFromStateForPathSyncWithExists_def resolveAllowFromReadCacheOrMissing_def Let_def)
next
  case None
  have "known K (allowFiles st) (allowFromReadCache st) \<Longrightarrow> known K (allowFiles st) (AList.update path (remembered f es) (allowFromReadCache st))" for K
    using assms(1) by (intro known_put) (auto simp: known_def remembered_def)
  with None assms coherent_remember [OF assms(4,1,2)] show ?thesis
    by (intro exI [of _ "AList.update path (remembered f es) (allowFromReadCache st)"])
      (simp add: readAllowFromStateForPathWithExists_def readAllowFromStateForPathSyncWithExists_def resolveAllowFromReadCacheOrMissing_def
        setAllowFromReadCache_def remembered_def Let_def)
qed

lemma read_list:
  assumes "lists_ok lib C (allowFiles st)" "coherent (allowFiles st) (allowFromReadCache st)" "ch \<in> C" "resolveAllowFromPath ch acct = Inr path"
  shows "\<exists>cache. readAllowFromStateForPath lib ch path st = (entries_of (allowFiles st) path, st\<lparr>allowFromReadCache := cache\<rparr>)
    \<and> readAllowFromStateForPathSync lib ch path st = (entries_of (allowFiles st) path, st\<lparr>allowFromReadCache := cache\<rparr>)
    \<and> coherent (allowFiles st) cache \<and> (\<forall>K. known K (allowFiles st) (allowFromReadCache st) \<longrightarrow> known K (allowFiles st) cache)"
proof (cases "map_of (allowFiles st) path")
  case None
  from read_missing [OF None assms(2), of lib ch] None show ?thesis
    by (auto simp: readAllowFromStateForPath_def readAllowFromStateForPathSync_def entries_of_def)
next
  case (Some f)
  with assms obtain es where es: "fileEntries f = Some es" "normal_list lib ch es" unfolding lists_ok_def by blast
  from read_present [OF Some es(1) normal_list_fixed [OF es(2)] assms(2)] Some es(1) show ?thesis
    by (auto simp: readAllowFromStateForPath_def readAllowFromStateForPathSync_def entries_of_def)
qed

definition answer_of :: "(string \<times> AllowFile) list \<Rightarrow> string \<Rightarrow> string option \<Rightarrow> string list \<Rightarrow> bool" where
  "answer_of files ch acct xs \<longleftrightarrow> (\<exists>path. resolveAllowFromPath ch (Some (resolveAllowFromAccountId acct)) = Inr path
     \<and> (if resolveAllowFromAccountId acct = DEFAULT_ACCOUNT_ID
        then \<exists>legacy. resolveAllowFromPath ch None = Inr legacy \<and> set xs = set (entries_of files path) \<union> set (entries_of files legacy)
        else xs = entries_of files path))"

lemma read_both_answer:
  assumes "lists_ok lib C (allowFiles st)" "coherent (allowFiles st) (allowFromReadCache st)" "ch \<in> C"
    "reader = readAllowFromStateForPath \<or> reader = readAllowFromStateForPathSync"
  shows "\<exists>cache. snd (read_both reader lib ch acct st) = st\<lparr>allowFromReadCache := cache\<rparr> \<and> coherent (allowFiles st) cache
    \<and> (\<forall>K. known K (allowFiles st) (allowFromReadCache st) \<longrightarrow> known K (allowFiles st) cache)
    \<and> (\<forall>xs. fst (read_both reader lib ch acct st) = Inr xs \<longrightarrow> answer_of (allowFiles st) ch acct xs)"
proof (cases "resolveAllowFromPath ch (Some (resolveAllowFromAccountId acct))")
  case (Inl e)
  with assms(2) show ?thesis
    by (intro exI [of _ "allowFromReadCache st"]) (simp add: read_both_def Let_def)
next
  case (Inr path)
  have nonempty: "resolveAllowFromAccountId acct \<noteq> ''''"
    by (simp add: resolveAllowFromAccountId_def or_str_def DEFAULT_ACCOUNT_ID_def)
  from read_list [OF assms(1-3) Inr] assms(4) obtain cache where
    r: "reader lib ch path st = (entries_of (allowFiles st) path, st\<lparr>allowFromReadCache := cache\<rparr>)" "coherent (allowFiles st) cache"
      "\<forall>K. known K (allowFiles st) (allowFromReadCache st) \<longrightarrow> known K (allowFiles st) cache" by auto
  show ?thesis
  proof (cases "resolveAllowFromAccountId acct = DEFAULT_ACCOUNT_ID")
    case False
    with Inr r nonempty show ?thesis
      by (intro exI [of _ cache]) (simp add: read_both_def Let_def shouldIncludeLegacyAllowFromEntries_def answer_of_def)
  next
    case True
    let ?st = "st\<lparr>allowFromReadCache := cache\<rparr>"
    show ?thesis
    proof (cases "resolveAllowFromPath ch None")
      case (Inl e)
      with Inr r True show ?thesis
        by (intro exI [of _ cache]) (simp add: read_both_def Let_def shouldIncludeLegacyAllowFromEntries_def answer_of_def)
    next
      case legacy: (Inr legacy)
      from read_list [of lib C ?st ch None legacy] assms(1,3,4) r(2) legacy obtain cache' where
        r': "reader lib ch legacy ?st = (entries_of (allowFiles st) legacy, st\<lparr>allowFromReadCache := cache'\<rparr>)" "coherent (allowFiles st) cache'"
          "\<forall>K. known K (allowFiles st) cache \<longrightarrow> known K (allowFiles st) cache'"
        by auto
      have "js_trim ` set es - {''''} = set es" if n: "normal_list lib ch es" for es
      proof -
        have "\<forall>x \<in> set es. js_trim x = x" using n normalizeAllowEntry_trim by (metis normal_list_def)
        then have "js_trim ` set es = set es" by (simp cong: image_cong)
        with n show ?thesis by (auto simp: normal_list_def)
      qed
      then have "set (dedupePreserveOrder (entries_of (allowFiles st) path @ entries_of (allowFiles st) legacy))
          = set (entries_of (allowFiles st) path) \<union> set (entries_of (allowFiles st) legacy)"
        using lists_okD [OF assms(1,3) Inr] lists_okD [OF assms(1,3) legacy]
        unfolding dedupe_set set_append image_Un Un_Diff by simp
      moreover have "read_both reader lib ch acct st = (Inr (dedupePreserveOrder (entries_of (allowFiles st) path
          @ entries_of (allowFiles st) legacy)), st\<lparr>allowFromReadCache := cache'\<rparr>)"
        unfolding read_both_def Let_def Inr sum.case r(1) prod.case legacy r'(1) using True
        by (simp add: shouldIncludeLegacyAllowFromEntries_def answer_of_def)
      ultimately show ?thesis using Inr legacy r(3) r'(2,3) True by (auto simp: answer_of_def)
    qed
  qed
qed

section \<open>Changing a list\<close>

text \<open>What an operation on one list leaves in the files.\<close>

lemma list_update:
  assumes ok: "channels_ok C" "lists_ok lib C (allowFiles st)" "ch \<in> C"
    and path: "resolveAllowFromPath ch acct = Inr path"
    and x: "normalizeAllowFromInput lib ch entry = x"
    and keeps: "\<forall>current xs. normal_list lib ch current \<and> x \<noteq> '''' \<and> apply_entry current x = Some xs \<longrightarrow> normal_list lib ch xs"
    and st': "st' = snd (updateAllowFromStoreEntry lib call ch entry acct apply_entry st)"
  shows "lists_ok lib C (allowFiles st')
    \<and> entries_of (allowFiles st') p = (if p = path \<and> x \<noteq> '''' then nullish (apply_entry (entries_of (allowFiles st) p) x)
          (entries_of (allowFiles st) p) else entries_of (allowFiles st) p)"
proof -
  let ?st1 = "ensureAllowFile call path st"
  have st1: "entries_of (allowFiles ?st1) q = entries_of (allowFiles st) q" for q
    by (auto simp: ensureAllowFile_def entries_of_write split: option.splits) (auto simp: entries_of_def)
  have ok1: "lists_ok lib C (allowFiles ?st1)"
    using ok path by (auto simp: ensureAllowFile_def intro: lists_ok_write split: option.splits)
  have current: "normalizeAllowFromList lib ch (Option.bind (map_of (allowFiles ?st1) path) fileEntries) = entries_of (allowFiles st) path"
  proof -
    obtain f where f: "map_of (allowFiles ?st1) path = Some f"
      by (cases "map_of (allowFiles st) path") (auto simp: ensureAllowFile_def update_conv')
    with ok1 obtain es where es: "fileEntries f = Some es" unfolding lists_ok_def by blast
    with f have "entries_of (allowFiles st) path = es" using st1 [of path] by (simp add: entries_of_def)
    with lists_okD [OF ok(2,3) path] f es show ?thesis by (simp add: normal_list_fixed)
  qed
  show ?thesis
  proof (cases "x \<noteq> '''' \<and> apply_entry (entries_of (allowFiles st) path) x \<noteq> None")
    case False
    then have "st' = ?st1"
      by (cases "apply_entry (entries_of (allowFiles st) path) x") (auto simp: st' updateAllowFromStoreEntry_def path Let_def current x)
    with False ok1 st1 show ?thesis by auto
  next
    case True
    then obtain xs where xs: "apply_entry (entries_of (allowFiles st) path) x = Some xs" by auto
    then have st'': "st' = writeAllowFromState call path xs ?st1"
      using True by (simp add: st' updateAllowFromStoreEntry_def path Let_def current x)
    have "normal_list lib ch xs" using True xs keeps lists_okD [OF ok(2,3) path] by blast
    then have "lists_ok lib C (allowFiles st')"
      using lists_ok_write [OF ok(1) ok1 ok(3) path] by (simp add: st'' writeAllowFromState_def setAllowFromReadCache_def)
    moreover have "entries_of (allowFiles st') p = (if p = path then xs else entries_of (allowFiles st) p)"
      by (simp add: st'' writeAllowFromState_def setAllowFromReadCache_def entries_of_write st1)
    ultimately show ?thesis using True xs by simp
  qed
qed

text \<open>What it leaves to the processes that remember the file: to the others, and to its own.\<close>

lemma caches_update:
  assumes path: "resolveAllowFromPath ch acct = Inr path"
    and st': "st' = snd (updateAllowFromStoreEntry lib call ch entry acct f st)"
  shows "coherent (allowFiles st) cache \<Longrightarrow> stamp_fresh path (createdStamp call) cache \<Longrightarrow> stamp_fresh path (writtenStamp call) cache
      \<Longrightarrow> coherent (allowFiles st') cache"
    "coherent (allowFiles st) (allowFromReadCache st) \<Longrightarrow> stamp_fresh path (createdStamp call) (allowFromReadCache st)
      \<Longrightarrow> stamp_fresh path (writtenStamp call) (allowFromReadCache st) \<Longrightarrow> coherent (allowFiles st') (allowFromReadCache st')"
    "createdStamp call \<in> K path \<Longrightarrow> writtenStamp call \<in> K path \<Longrightarrow> known K (allowFiles st) cache \<Longrightarrow> known K (allowFiles st') cache"
    "createdStamp call \<in> K path \<Longrightarrow> writtenStamp call \<in> K path \<Longrightarrow> known K (allowFiles st) (allowFromReadCache st)
      \<Longrightarrow> known K (allowFiles st') (allowFromReadCache st')"
proof -
  let ?st1 = "ensureAllowFile call path st"
  have own: "allowFromReadCache ?st1 = allowFromReadCache st"
    by (simp add: ensureAllowFile_def split: option.split)
  have step: "st' = ?st1 \<or> (\<exists>xs. st' = writeAllowFromState call path xs ?st1)"
    by (auto simp: st' updateAllowFromStoreEntry_def path Let_def split: option.split)
  have coh1: "coherent (allowFiles ?st1) c" if "coherent (allowFiles st) c" "stamp_fresh path (createdStamp call) c" for c
    using that by (auto simp: ensureAllowFile_def intro: coherent_write split: option.split)
  have known1: "known K (allowFiles ?st1) c" if "known K (allowFiles st) c" "createdStamp call \<in> K path" for c
    using that by (auto simp: ensureAllowFile_def intro: known_write split: option.split)
  have files: "allowFiles (writeAllowFromState call path xs ?st1) = AList.update path (allow_file xs (writtenStamp call)) (allowFiles ?st1)"
    "allowFromReadCache (writeAllowFromState call path xs ?st1) = AList.update path
       \<lparr>existsC = True, mtimeMsC = map_option fst (if statWorks call then Some (writtenStamp call) else None),
        sizeC = map_option snd (if statWorks call then Some (writtenStamp call) else None), entriesC = xs\<rparr> (allowFromReadCache st)" for xs
    by (simp_all add: writeAllowFromState_def setAllowFromReadCache_def own Let_def)
  show "coherent (allowFiles st) cache \<Longrightarrow> stamp_fresh path (createdStamp call) cache \<Longrightarrow> stamp_fresh path (writtenStamp call) cache
      \<Longrightarrow> coherent (allowFiles st') cache"
    using step coh1 by (auto simp: files intro!: coherent_write)
  show "createdStamp call \<in> K path \<Longrightarrow> writtenStamp call \<in> K path \<Longrightarrow> known K (allowFiles st) cache \<Longrightarrow> known K (allowFiles st') cache"
    using step known1 by (auto simp: files intro!: known_write)
  show "coherent (allowFiles st') (allowFromReadCache st')"
    if "coherent (allowFiles st) (allowFromReadCache st)" "stamp_fresh path (createdStamp call) (allowFromReadCache st)"
      "stamp_fresh path (writtenStamp call) (allowFromReadCache st)"
    using step
  proof (elim disjE exE)
    fix xs assume w: "st' = writeAllowFromState call path xs ?st1"
    have "coherent (allowFiles st') (allowFromReadCache st)" using coherent_write [OF coh1 [OF that(1,2)] that(3)] by (simp add: w files)
    from coherent_put [OF this, of path "allow_file xs (writtenStamp call)" xs] show ?thesis
      by (simp add: w files update_conv' allow_file_def)
  qed (use that coh1 own in simp)
  show "known K (allowFiles st') (allowFromReadCache st')"
    if "createdStamp call \<in> K path" "writtenStamp call \<in> K path" "known K (allowFiles st) (allowFromReadCache st)"
    using step
  proof (elim disjE exE)
    fix xs assume w: "st' = writeAllowFromState call path xs ?st1"
    have "known K (allowFiles st') (allowFromReadCache st)" using known_write [OF known1 [OF that(3,1)] that(2)] by (simp add: w files)
    then show ?thesis using that(2) by (auto simp: w files intro!: known_put split: if_splits)
  qed (use that known1 own in simp)
qed

section \<open>The lists are what the log says\<close>

lemma request_frames [frame]:
  "allowFiles (writePairingRequests p reqs st) = allowFiles st" "allowFromReadCache (writePairingRequests p reqs st) = allowFromReadCache st"
  "allowFiles (ensurePairingFile p st) = allowFiles st" "allowFromReadCache (ensurePairingFile p st) = allowFromReadCache st"
  by (simp_all add: writePairingRequests_def ensurePairingFile_def)

lemma list_requests_frame:
  "allowFiles (snd (listChannelPairingRequests lib call ch acct st)) = allowFiles st
   \<and> allowFromReadCache (snd (listChannelPairingRequests lib call ch acct st)) = allowFromReadCache st"
  by (simp add: listChannelPairingRequests_def Let_def frame split: sum.split prod.split)

lemma upsert_frame:
  "allowFiles (snd (upsertChannelPairingRequest lib call ch ident acct meta st)) = allowFiles st
   \<and> allowFromReadCache (snd (upsertChannelPairingRequest lib call ch ident acct meta st)) = allowFromReadCache st"
  by (simp add: upsertChannelPairingRequest_def Let_def frame split: sum.split prod.split option.split)

lemma approve_cases:
  obtains (none) "\<And>v. fst (approveChannelPairingCode lib call ch code acct st) \<noteq> Inr (Some v)"
      "allowFiles (snd (approveChannelPairingCode lib call ch code acct st)) = allowFiles st"
      "allowFromReadCache (snd (approveChannelPairingCode lib call ch code acct st)) = allowFromReadCache st"
  | (found) entry st2 r st' where "allowFiles st2 = allowFiles st" "allowFromReadCache st2 = allowFromReadCache st"
      "addChannelAllowFromStoreEntry lib call ch (Ae_text (requestId entry))
         (orElse (normalizeOptionalString acct) (normalizeOptionalString (meta_account entry))) st2 = (r, st')"
      "approveChannelPairingCode lib call ch code acct st
         = (case r of Inl e \<Rightarrow> Inl e | Inr _ \<Rightarrow> Inr (Some (requestId entry, entry)), st')"
proof (cases "js_upper (nullish (normalizeNullableString code) '''') = ''''")
  case True
  then show ?thesis by (intro none) (simp_all add: approveChannelPairingCode_def)
next
  case nonempty: False
  show ?thesis
  proof (cases "resolvePairingPath ch")
    case (Inl e)
    with nonempty show ?thesis by (intro none) (simp_all add: approveChannelPairingCode_def)
  next
    case (Inr path)
    let ?st1 = "ensurePairingFile path st"
    obtain pruned removed where p: "pruneExpiredRequests lib (readPairingRequests path ?st1) (callNow call) = (pruned, removed)" by force
    let ?P = "\<lambda>r. if js_upper (codeR r) \<noteq> js_upper (nullish (normalizeNullableString code) '''') then False
      else requestMatchesAccountId r (normalizePairingAccountId acct)"
    show ?thesis
    proof (cases "find_request ?P pruned")
      case None
      have "approveChannelPairingCode lib call ch code acct st
          = (Inr None, if removed then writePairingRequests path pruned ?st1 else ?st1)"
        unfolding approveChannelPairingCode_def Let_def Inr sum.case p prod.case None option.case using nonempty by simp
      then show ?thesis by (intro none) (simp_all add: frame)
    next
      case (Some idx)
      let ?st2 = "writePairingRequests path (take idx pruned @ drop (Suc idx) pruned) ?st1"
      obtain r st' where r: "addChannelAllowFromStoreEntry lib call ch (Ae_text (requestId (pruned ! idx)))
          (orElse (normalizeOptionalString acct) (normalizeOptionalString (meta_account (pruned ! idx)))) ?st2 = (r, st')" by force
      have "approveChannelPairingCode lib call ch code acct st
          = (case r of Inl e \<Rightarrow> Inl e | Inr _ \<Rightarrow> Inr (Some (requestId (pruned ! idx), pruned ! idx)), st')"
        unfolding approveChannelPairingCode_def Let_def Inr sum.case p prod.case Some option.case r using nonempty
        by (cases r) simp_all
      then show ?thesis by (intro found [OF _ _ r]) (simp_all add: frame)
    qed
  qed
qed

lemma adding_keeps:
  "normal_list lib ch current \<Longrightarrow> x \<noteq> '''' \<Longrightarrow> normalizeAllowEntry lib ch x = x \<Longrightarrow> add_entry current x = Some xs \<Longrightarrow> normal_list lib ch xs"
  by (auto simp: normal_list_def add_entry_def split: if_splits)

lemma removing_keeps:
  "normal_list lib ch current \<Longrightarrow> remove_entry current x = Some xs \<Longrightarrow> normal_list lib ch xs"
  by (auto simp: normal_list_def remove_entry_def Let_def split: if_splits)

lemma added: "y \<in> set (nullish (add_entry current x) current) \<longleftrightarrow> y = x \<or> y \<in> set current"
  by (auto simp: add_entry_def)

lemma removed: "y \<in> set (nullish (remove_entry current x) current) \<longleftrightarrow> y \<noteq> x \<and> y \<in> set current"
proof -
  have "length (filter (\<lambda>e. e \<noteq> x) current) = length current \<Longrightarrow> x \<notin> set current"
    using length_filter_less [of x current "\<lambda>e. e \<noteq> x"] by auto
  then show ?thesis by (auto simp: remove_entry_def Let_def)
qed

definition files_hold :: "PairingLib \<Rightarrow> string set \<Rightarrow> (PairingEvent \<times> PairingOutput) list \<Rightarrow> (string \<times> AllowFile) list \<Rightarrow> bool" where
  "files_hold lib C log files \<longleftrightarrow> lists_ok lib C files \<and> (\<forall>p x. x \<in> set (entries_of files p) \<longleftrightarrow> granted lib log p x)"

definition caches_hold :: "(PairingEvent \<times> PairingOutput) list \<Rightarrow> PairingWorld \<Rightarrow> bool" where
  "caches_hold log w \<longleftrightarrow> (\<forall>pid. coherent (sharedLists w) (processCache w pid)
     \<and> known (\<lambda>p. set (stamps_of log p)) (sharedLists w) (processCache w pid))"

lemma granted_nonempty: "granted lib log p x \<Longrightarrow> x \<noteq> ''''"
  by (induction log) (auto simp: grants_def split: if_splits)

lemma stamps_of_Cons:
  "set (stamps_of (eo # log) p) = (if touched_path eo = Some p then set (event_stamps (fst eo)) else {}) \<union> set (stamps_of log p)"
  by (simp add: stamps_of_def)

text \<open>
  A step leaves the lists alone, but for what its process remembers; or it reads them; or it changes the list of one file,
  whatever the requests are meanwhile.
\<close>

definition quiet_step :: "PairingLib \<Rightarrow> PairingEvent \<times> PairingOutput \<Rightarrow> bool" where
  "quiet_step lib eo \<longleftrightarrow> (\<forall>p x. \<not> grants lib eo p x \<and> \<not> revokes lib eo p x) \<and> touched_path eo = None"

definition change_step :: "PairingLib \<Rightarrow> PairingEvent \<times> PairingOutput \<Rightarrow> bool \<Rightarrow> string \<Rightarrow> string \<Rightarrow> bool" where
  "change_step lib eo adds path x \<longleftrightarrow> (\<forall>p y. (grants lib eo p y \<longleftrightarrow> adds \<and> p = path \<and> y \<noteq> '''' \<and> y = x)
     \<and> (revokes lib eo p y \<longleftrightarrow> \<not> adds \<and> p = path \<and> y = x)) \<and> touched_path eo = Some path"

lemma change_cases:
  assumes "updateAllowFromStoreEntry lib call ch entry acct f st0 = (r, st)"
  obtains (failed) e where "resolveAllowFromPath ch acct = Inl e" "r = Inl e" "st = st0"
  | (written) path v where "resolveAllowFromPath ch acct = Inr path" "r = Inr v"
  using assms by (auto simp: updateAllowFromStoreEntry_def Let_def split: sum.splits option.splits if_splits)

lemma step_cases:
  assumes step: "perform lib e (view_of pid w) = (out, st)"
  obtains (quiet) "allowFiles st = sharedLists w" "allowFromReadCache st = processCache w pid" "quiet_step lib (e, out)"
  | (reading) reader acct where "reader = readAllowFromStateForPath \<or> reader = readAllowFromStateForPathSync"
      "st = snd (read_both reader lib (channel_of e) acct (view_of pid w))" "quiet_step lib (e, out)"
  | (change) adds call entry acct before path where "call_of e = Some call" "allowFiles before = sharedLists w" "allowFromReadCache before = processCache w pid"
      "st = snd (updateAllowFromStoreEntry lib call (channel_of e) entry acct (if adds then add_entry else remove_entry) before)"
      "resolveAllowFromPath (channel_of e) acct = Inr path"
      "change_step lib (e, out) adds path (normalizeAllowFromInput lib (channel_of e) entry)"
      "adds \<Longrightarrow> settles lib (e, out) \<Longrightarrow> entry_settled lib (channel_of e) entry"
proof (cases e)
  case (Pe_read ch acct)
  with step show ?thesis
    by (intro reading [of readAllowFromStateForPath acct])
      (auto simp: perform_def outcome_of_def readChannelAllowFromStore_def grants_def revokes_def channel_of_def quiet_step_def touched_path_def)
next
  case (Pe_read_sync ch acct)
  with step show ?thesis
    by (intro reading [of readAllowFromStateForPathSync acct])
      (auto simp: perform_def outcome_of_def readChannelAllowFromStoreSync_def grants_def revokes_def channel_of_def quiet_step_def touched_path_def)
next
  case (Pe_list call ch acct)
  with step list_requests_frame [of lib call ch acct "view_of pid w"] show ?thesis
    by (intro quiet) (auto simp: perform_def outcome_of_def view_of_def grants_def revokes_def quiet_step_def touched_path_def)
next
  case (Pe_upsert call ch ident acct meta)
  with step upsert_frame [of lib call ch ident acct meta "view_of pid w"] show ?thesis
    by (intro quiet) (auto simp: perform_def outcome_of_def view_of_def grants_def revokes_def quiet_step_def touched_path_def)
next
  case (Pe_add call ch entry acct)
  obtain r where upd: "updateAllowFromStoreEntry lib call ch entry acct add_entry (view_of pid w) = (r, st)"
    using step Pe_add by (cases "updateAllowFromStoreEntry lib call ch entry acct add_entry (view_of pid w)")
      (auto simp: perform_def outcome_of_def addChannelAllowFromStoreEntry_def)
  show ?thesis
  proof (cases rule: change_cases [OF upd, consumes 0, case_names failed written])
    case failed
    then show ?thesis
      by (intro quiet) (auto simp: view_of_def Pe_add grants_def revokes_def quiet_step_def touched_path_def)
  next
    case (written path v)
    with upd show ?thesis
      by (intro change [where call = call and before = "view_of pid w" and adds = True and entry = entry and acct = acct and path = path])
        (auto simp: view_of_def Pe_add call_of_def channel_of_def grants_def revokes_def change_step_def touched_path_def settles_def)
  qed
next
  case (Pe_remove call ch entry acct)
  obtain r where upd: "updateAllowFromStoreEntry lib call ch entry acct remove_entry (view_of pid w) = (r, st)"
    using step Pe_remove by (cases "updateAllowFromStoreEntry lib call ch entry acct remove_entry (view_of pid w)")
      (auto simp: perform_def outcome_of_def removeChannelAllowFromStoreEntry_def)
  show ?thesis
  proof (cases rule: change_cases [OF upd, consumes 0, case_names failed written])
    case failed
    then show ?thesis
      by (intro quiet) (auto simp: view_of_def Pe_remove grants_def revokes_def quiet_step_def touched_path_def)
  next
    case (written path v)
    with upd show ?thesis
      by (intro change [where call = call and before = "view_of pid w" and adds = False and entry = entry and acct = acct and path = path])
        (auto simp: view_of_def Pe_remove call_of_def channel_of_def grants_def revokes_def change_step_def touched_path_def)
  qed
next
  case (Pe_approve call ch code acct)
  from step Pe_approve have res: "st = snd (approveChannelPairingCode lib call ch code acct (view_of pid w))"
    "out = (case fst (approveChannelPairingCode lib call ch code acct (view_of pid w)) of Inl err \<Rightarrow> Po_failed err | Inr v \<Rightarrow> Po_approved v)"
    by (simp_all add: perform_def outcome_of_def)
  show ?thesis
  proof (cases rule: approve_cases [of lib call ch code acct "view_of pid w"])
    case none
    then have "quiet_step lib (e, out)"
      unfolding res(2) by (auto simp: Pe_approve grants_def revokes_def quiet_step_def touched_path_def split: sum.splits option.splits)
    with none res(1) show ?thesis by (intro quiet) (simp_all add: view_of_def)
  next
    case (found entry st2 r st')
    let ?acct = "orElse (normalizeOptionalString acct) (normalizeOptionalString (meta_account entry))"
    have upd: "updateAllowFromStoreEntry lib call ch (Ae_text (requestId entry)) ?acct add_entry st2 = (r, st')"
      using found(3) by (simp add: addChannelAllowFromStoreEntry_def)
    show ?thesis
    proof (cases rule: change_cases [OF upd, consumes 0, case_names failed written])
      case failed
      with found res show ?thesis
        by (intro quiet) (auto simp: view_of_def Pe_approve grants_def revokes_def quiet_step_def touched_path_def)
    next
      case (written path v)
      with found res upd show ?thesis
        by (intro change [where call = call and before = st2 and adds = True and entry = "Ae_text (requestId entry)" and acct = ?acct and path = path])
          (auto simp: view_of_def Pe_approve call_of_def channel_of_def grants_def revokes_def change_step_def touched_path_def settles_def)
    qed
  qed
qed

lemma reading_frame:
  assumes "reader = readAllowFromStateForPath \<or> reader = readAllowFromStateForPathSync"
  shows "allowFiles (snd (read_both reader lib ch acct st)) = allowFiles st"
proof -
  have "allowFiles (snd (reader lib ch path s)) = allowFiles s" for path s
    using assms by (auto simp: readAllowFromStateForPath_def readAllowFromStateForPathSync_def readAllowFromStateForPathWithExists_def
      readAllowFromStateForPathSyncWithExists_def resolveAllowFromReadCacheOrMissing_def setAllowFromReadCache_def Let_def split: option.splits)
  then show ?thesis
    by (auto simp: read_both_def Let_def split: sum.split prod.split) (metis snd_conv)+
qed

lemma change_keeps:
  "normal_list lib ch current \<Longrightarrow> x \<noteq> '''' \<Longrightarrow> (adds \<Longrightarrow> normalizeAllowEntry lib ch x = x)
     \<Longrightarrow> (if adds then add_entry else remove_entry) current x = Some xs \<Longrightarrow> normal_list lib ch xs"
  using adding_keeps [of lib ch current x xs] removing_keeps [of lib ch current x xs] by (simp split: if_splits)

lemma files_hold_run:
  assumes "pairing_run lib C log w" "channels_ok C" "settled lib log"
  shows "files_hold lib C log (sharedLists w)"
  using assms(1,3)
proof induction
  case run_start
  then show ?case by (simp add: files_hold_def empty_world_def lists_ok_def entries_of_def)
next
  case (run_step log w e pid out st)
  have hold: "files_hold lib C log (sharedLists w)" and settles: "settles lib (e, out)"
    using run_step.IH run_step.prems by (simp_all add: settled_def)
  have quiet: "files_hold lib C ((e, out) # log) (sharedLists (after_of pid st w))"
    if "allowFiles st = sharedLists w" "quiet_step lib (e, out)"
    using that hold by (simp add: files_hold_def after_of_def quiet_step_def)
  show ?case
  proof (cases rule: step_cases [OF run_step.hyps(3), consumes 0, case_names quiet reading change])
    case (reading reader acct)
    then show ?thesis by (intro quiet) (simp_all add: reading_frame view_of_def)
  next
    case (change adds call entry acct st0 path)
    let ?x = "normalizeAllowFromInput lib (channel_of e) entry"
    have C: "channel_of e \<in> C" using run_step.hyps(2) by (simp add: may_happen_def)
    have lists: "lists_ok lib C (allowFiles st0)" using hold change(2) by (simp add: files_hold_def)
    have keeps: "\<forall>current xs. normal_list lib (channel_of e) current \<and> ?x \<noteq> '''' \<and> (if adds then add_entry else remove_entry) current ?x = Some xs
        \<longrightarrow> normal_list lib (channel_of e) xs"
      using change(7) settles change_keeps [of lib "channel_of e" _ ?x adds] by (auto simp: entry_settled_def)
    note after = list_update [OF assms(2) lists C change(5) refl keeps change(4)]
    have "y \<in> set (entries_of (allowFiles st) p) \<longleftrightarrow> granted lib ((e, out) # log) p y" for p y
      using hold granted_nonempty [of lib log p y] change(6) conjunct2 [OF after, of p]
      by (auto simp: files_hold_def change_step_def change(2) added removed split: if_splits)
    with after show ?thesis by (simp add: files_hold_def after_of_def)
  qed (rule quiet)
qed

lemma coherent_Nil [simp]: "coherent files []"
  by (simp add: coherent_def)

lemma caches_hold_run:
  assumes "pairing_run lib C log w" "channels_ok C" "settled lib log" "stamps_differ log"
  shows "caches_hold log w"
  using assms(1,3,4)
proof induction
  case run_start
  then show ?case by (simp add: caches_hold_def empty_world_def known_def)
next
  case (run_step log w e pid out st)
  have older: "settled lib log" "stamps_differ log" using run_step.prems by (simp_all add: settled_def)
  then have hold: "coherent (sharedLists w) (processCache w q)" "known (\<lambda>p. set (stamps_of log p)) (sharedLists w) (processCache w q)" for q
    using run_step.IH by (simp_all add: caches_hold_def)
  let ?K = "\<lambda>p. set (stamps_of ((e, out) # log) p)"
  have grows: "known ?K files cache" if "known (\<lambda>p. set (stamps_of log p)) files cache" for files cache
    using that by (rule known_mono) (simp add: stamps_of_Cons)
  have lists: "lists_ok lib C (sharedLists w)"
    using files_hold_run [OF run_step.hyps(1) assms(2) older(1)] by (simp add: files_hold_def)
  have C: "channel_of e \<in> C" using run_step.hyps(2) by (simp add: may_happen_def)
  show ?case
  proof (cases rule: step_cases [OF run_step.hyps(3), consumes 0, case_names quiet reading change])
    case quiet
    with hold grows show ?thesis by (simp add: caches_hold_def after_of_def)
  next
    case (reading reader acct)
    have "lists_ok lib C (allowFiles (view_of pid w))" "coherent (allowFiles (view_of pid w)) (allowFromReadCache (view_of pid w))"
      using lists hold(1) by (simp_all add: view_of_def)
    from read_both_answer [OF this C reading(1), of acct] reading(2) hold(2) obtain cache where
      "st = view_of pid w\<lparr>allowFromReadCache := cache\<rparr>" "coherent (sharedLists w) cache"
      "known (\<lambda>p. set (stamps_of log p)) (sharedLists w) cache" by (auto simp: view_of_def)
    with hold grows show ?thesis by (simp add: caches_hold_def after_of_def view_of_def)
  next
    case (change adds call entry acct st0 path)
    have touched: "touched_path (e, out) = Some path" using change(6) by (simp add: change_step_def)
    have stamps: "createdStamp call \<in> ?K path" "writtenStamp call \<in> ?K path"
      using touched change(1) by (simp_all add: stamps_of_Cons event_stamps_def)
    have "createdStamp call \<notin> set (stamps_of log path)" "writtenStamp call \<notin> set (stamps_of log path)"
      using run_step.prems(2) touched change(1) by (simp_all add: event_stamps_def)
    with hold(2) have fresh: "stamp_fresh path (createdStamp call) (processCache w q)" "stamp_fresh path (writtenStamp call) (processCache w q)" for q
      by (blast intro: known_fresh)+
    note step = caches_update [OF change(5,4), unfolded change(2,3)]
    have "coherent (allowFiles st) (processCache w q)" "known ?K (allowFiles st) (processCache w q)" for q
      by (rule step(1) [OF hold(1) fresh], rule step(3) [OF stamps grows [OF hold(2)]])
    moreover have "coherent (allowFiles st) (allowFromReadCache st)" "known ?K (allowFiles st) (allowFromReadCache st)"
      by (rule step(2) [OF hold(1) fresh], rule step(4) [OF stamps grows [OF hold(2)]])
    ultimately show ?thesis by (simp add: caches_hold_def after_of_def)
  qed
qed

section \<open>Who is paired\<close>

text \<open>The senders of an account: those of its list, and for the default account those of the list without account.\<close>

definition paired :: "PairingLib \<Rightarrow> (PairingEvent \<times> PairingOutput) list \<Rightarrow> string \<Rightarrow> string option \<Rightarrow> string \<Rightarrow> bool" where
  "paired lib log ch acct x \<longleftrightarrow>
     (\<exists>p. resolveAllowFromPath ch (Some (resolveAllowFromAccountId acct)) = Inr p \<and> granted lib log p x)
   \<or> resolveAllowFromAccountId acct = DEFAULT_ACCOUNT_ID \<and> (\<exists>p. resolveAllowFromPath ch None = Inr p \<and> granted lib log p x)"

definition store_reader :: "(PairingLib \<Rightarrow> string \<Rightarrow> string option \<Rightarrow> PairingStores \<Rightarrow> (PairingStoreError + string list) \<times> PairingStores) \<Rightarrow> bool" where
  "store_reader reader \<longleftrightarrow> reader = readChannelAllowFromStore \<or> reader = readChannelAllowFromStoreSync"

lemma default_key: "normalizeOptionalString (Some DEFAULT_ACCOUNT_ID) = Some ''default''" "safeAccountKey ''default'' = Inr ''default''"
  by code_simp+

lemma default_path:
  "resolveAllowFromPath ch (Some DEFAULT_ACCOUNT_ID)
     = (case safeChannelKey ch of Inl e \<Rightarrow> Inl e | Inr base \<Rightarrow> Inr (base @ ''-default-allowFrom.json''))"
  "resolveAllowFromPath ch None = (case safeChannelKey ch of Inl e \<Rightarrow> Inl e | Inr base \<Rightarrow> Inr (base @ ''-allowFrom.json''))"
  by (simp_all add: resolveAllowFromPath_def default_key split: sum.split)

lemma paired_needs_path:
  "paired lib log ch acct x \<Longrightarrow> \<exists>p. resolveAllowFromPath ch (Some (resolveAllowFromAccountId acct)) = Inr p
     \<and> (resolveAllowFromAccountId acct = DEFAULT_ACCOUNT_ID \<longrightarrow> (\<exists>q. resolveAllowFromPath ch None = Inr q))"
  by (cases "safeChannelKey ch"; cases "resolveAllowFromAccountId acct = DEFAULT_ACCOUNT_ID") (auto simp: paired_def default_path)

lemma answer_is_paired:
  assumes "files_hold lib C log (sharedLists w)" "coherent (sharedLists w) (processCache w pid)" "ch \<in> C" "store_reader reader"
    "fst (reader lib ch acct (view_of pid w)) = Inr xs"
  shows "(\<forall>x. x \<in> set xs \<longleftrightarrow> paired lib log ch acct x) \<and> (\<forall>x \<in> set xs. js_trim x = x \<and> x \<noteq> '''')"
proof -
  let ?files = "sharedLists w"
  have ok: "lists_ok lib C (allowFiles (view_of pid w))" "coherent (allowFiles (view_of pid w)) (allowFromReadCache (view_of pid w))"
    using assms(1,2) by (simp_all add: files_hold_def view_of_def)
  have entries: "y \<in> set (entries_of ?files p) \<longleftrightarrow> granted lib log p y" for p y
    using assms(1) by (simp add: files_hold_def)
  obtain file_reader where r: "reader = read_both file_reader"
      "file_reader = readAllowFromStateForPath \<or> file_reader = readAllowFromStateForPathSync"
    using assms(4) by (auto simp: store_reader_def readChannelAllowFromStore_def readChannelAllowFromStoreSync_def)
  have files: "allowFiles (view_of pid w) = ?files" by (simp add: view_of_def)
  from read_both_answer [OF ok assms(3) r(2), of acct] assms(5) have "answer_of ?files ch acct xs"
    unfolding r(1) files by blast
  then obtain path where path: "resolveAllowFromPath ch (Some (resolveAllowFromAccountId acct)) = Inr path"
    "if resolveAllowFromAccountId acct = DEFAULT_ACCOUNT_ID
       then \<exists>legacy. resolveAllowFromPath ch None = Inr legacy \<and> set xs = set (entries_of ?files path) \<union> set (entries_of ?files legacy)
       else xs = entries_of ?files path"
    unfolding answer_of_def by blast
  have mem: "x \<in> set xs \<longleftrightarrow> paired lib log ch acct x" for x
  proof (cases "resolveAllowFromAccountId acct = DEFAULT_ACCOUNT_ID")
    case True
    with path(2) [unfolded if_P [OF True]] obtain legacy where "resolveAllowFromPath ch None = Inr legacy" "set xs = set (entries_of ?files path) \<union> set (entries_of ?files legacy)"
      by (elim exE conjE)
    with path(1) True show ?thesis by (simp add: paired_def entries)
  next
    case False
    with path(1) path(2) [unfolded if_not_P [OF False]] show ?thesis by (simp add: paired_def entries)
  qed
  have form: "js_trim x = x \<and> x \<noteq> ''''" if p: "resolveAllowFromPath ch a = Inr p" and x: "x \<in> set (entries_of ?files p)" for a p x
  proof -
    have "normal_list lib ch (entries_of ?files p)" using lists_okD [OF ok(1) assms(3) p] by (simp add: view_of_def)
    with x show ?thesis using normalizeAllowEntry_trim by (metis normal_list_def)
  qed
  have "js_trim x = x \<and> x \<noteq> ''''" if "x \<in> set xs" for x
  proof -
    from that mem obtain a p where "resolveAllowFromPath ch a = Inr p" "granted lib log p x" unfolding paired_def by blast
    then show ?thesis using form entries by blast
  qed
  with mem show ?thesis by blast
qed

text \<open>Any process whose memory of the lists is right: as it is when writing changes the stamps of files, or while it is empty.\<close>

lemma reads_paired:
  assumes "pairing_run lib C log w" "channels_ok C" "settled lib log" "stamps_differ log \<or> processCache w pid = []"
    "ch \<in> C" "store_reader reader" "fst (reader lib ch acct (view_of pid w)) = Inr xs"
  shows "(\<forall>x. x \<in> set xs \<longleftrightarrow> paired lib log ch acct x) \<and> (\<forall>x \<in> set xs. js_trim x = x \<and> x \<noteq> '''')"
proof -
  have "coherent (sharedLists w) (processCache w pid)"
    using assms(4) caches_hold_run [OF assms(1-3)] by (auto simp: caches_hold_def)
  from answer_is_paired [OF files_hold_run [OF assms(1-3)] this assms(5-7)] show ?thesis .
qed

end
