(* ===== verification/PairingAccess.thy ===== *)
theory PairingAccess
  imports PairingStoreProps
begin

text \<open>
  Who may write to the assistant: what the store of paired senders answers to any process, and the decision of
  \<open>src/security/dm-policy-shared.ts\<close> over it, in terms of what was granted and revoked so far.
\<close>

section \<open>A run to look at\<close>

text \<open>
  Dates in unary; telegram strips a prefix of its senders; a sender writes to two channels, and an operator approves the
  code of one of them in another process.
\<close>

definition strip_tg :: "string \<Rightarrow> string" where
  "strip_tg s = (if take 3 s = ''tg:'' then drop 3 s else s)"

definition demo_lib :: PairingLib where
  "demo_lib = \<lparr>dateParse = (\<lambda>s. Some (if s \<noteq> '''' \<and> hd s = CHR ''-'' then - int (length s - 1) else int (length s))),
     isoText = (\<lambda>t. if t < 0 then CHR ''-'' # replicate (nat (- t)) CHR ''1'' else replicate (nat t) CHR ''1''),
     localeRank = (\<lambda>s. int (length s)), channelEntry = (\<lambda>ch. if ch = ''telegram'' then Some strip_tg else None)\<rparr>"

definition demo_call :: "int \<Rightarrow> nat \<Rightarrow> PairingCall" where
  "demo_call t d = \<lparr>callNow = t, codeDraws = [replicate 8 d], createdStamp = (t, 10), writtenStamp = (t, 20), statWorks = True\<rparr>"

definition demo_events :: "(nat \<times> PairingEvent) list" where
  "demo_events = [(0, Pe_upsert (demo_call 5 0) ''telegram'' (Ae_text ''tg:42'') ''default'' None),
     (0, Pe_upsert (demo_call 6 1) ''signal'' (Ae_text ''43'') ''work'' None),
     (1, Pe_approve (demo_call 7 0) ''telegram'' (Some ''aaaaaaaa'') None)]"

definition demo_next :: "nat \<times> PairingEvent \<Rightarrow> (PairingEvent \<times> PairingOutput) list \<times> PairingWorld \<Rightarrow> (PairingEvent \<times> PairingOutput) list \<times> PairingWorld" where
  "demo_next pe lw = (case perform demo_lib (snd pe) (view_of (fst pe) (snd lw)) of
     (out, st) \<Rightarrow> ((snd pe, out) # fst lw, after_of (fst pe) st (snd lw)))"

definition demo_after :: "nat \<Rightarrow> (PairingEvent \<times> PairingOutput) list \<times> PairingWorld" where
  "demo_after n = fold demo_next (take n demo_events) ([], empty_world)"

definition demo_channels :: "string set" where
  "demo_channels = {''telegram'', ''signal''}"

lemma path_starts: "safeChannelKey ch = Inr base \<Longrightarrow> resolveAllowFromPath ch acct = Inr p \<Longrightarrow> \<exists>rest. p = base @ ''-'' @ rest"
  by (auto simp: resolveAllowFromPath_def Let_def split: if_splits sum.splits)

lemma demo_keys: "safeChannelKey ''telegram'' = Inr ''telegram''" "safeChannelKey ''signal'' = Inr ''signal''"
  by code_simp+

lemma demo_channels_ok: "channels_ok demo_channels"
  by (auto simp: channels_ok_def demo_channels_def dest!: path_starts [OF demo_keys(1)] path_starts [OF demo_keys(2)])

lemma demo_full_log:
  "fst (demo_after 3) = (Pe_approve (demo_call 7 0) ''telegram'' (Some ''aaaaaaaa'') None, Po_approved (Some (''tg:42'',
      \<lparr>requestId = ''tg:42'', codeR = ''AAAAAAAA'', createdAtR = ''11111'', lastSeenAtR = ''11111'', metaR = Some [(''accountId'', ''default'')]\<rparr>)))
    # fst (demo_after 2)"
  "fst (demo_after 2) = (Pe_upsert (demo_call 6 1) ''signal'' (Ae_text ''43'') ''work'' None, Po_code ''BBBBBBBB'' True) # fst (demo_after 1)"
  "fst (demo_after 1) = [(Pe_upsert (demo_call 5 0) ''telegram'' (Ae_text ''tg:42'') ''default'' None, Po_code ''AAAAAAAA'' True)]"
  by code_simp+

lemma demo_entry: "entry_settled demo_lib ''telegram'' (Ae_text ''tg:42'')" "\<not> entry_settled demo_lib ''telegram'' (Ae_text ''tg:tg:42'')"
  by code_simp+

lemma demo_settled: "settled demo_lib (fst (demo_after 3))"
  using demo_entry by (simp add: demo_full_log settled_def settles_def del: One_nat_def)

lemma demo_stamps: "stamps_differ (fst (demo_after 3))"
  by (simp add: demo_full_log touched_path_def stamps_of_def split: sum.split del: One_nat_def)

lemma demo_step:
  assumes "pairing_run demo_lib demo_channels (fst (demo_after n)) (snd (demo_after n))" "n < length demo_events"
    "may_happen demo_channels (snd (demo_events ! n))"
  shows "pairing_run demo_lib demo_channels (fst (demo_after (Suc n))) (snd (demo_after (Suc n)))"
proof -
  obtain out st where p: "perform demo_lib (snd (demo_events ! n)) (view_of (fst (demo_events ! n)) (snd (demo_after n))) = (out, st)"
    by force
  then have "demo_after (Suc n) = ((snd (demo_events ! n), out) # fst (demo_after n), after_of (fst (demo_events ! n)) st (snd (demo_after n)))"
    using assms(2) by (simp add: demo_after_def take_Suc_conv_app_nth demo_next_def)
  with run_step [OF assms(1,3) p] show ?thesis by simp
qed

lemma demo_may: "n \<le> 2 \<Longrightarrow> may_happen demo_channels (snd (demo_events ! n))"
proof -
  assume "n \<le> 2"
  then have "n = 0 \<or> n = 1 \<or> n = 2" by auto
  then show ?thesis
    by (auto simp: may_happen_def demo_channels_def channel_of_def call_of_def demo_events_def demo_call_def
        draws_ok_def PAIRING_CODE_LENGTH_def PAIRING_CODE_ALPHABET_def)
qed

lemma demo_run_upto: "n \<le> 3 \<Longrightarrow> pairing_run demo_lib demo_channels (fst (demo_after n)) (snd (demo_after n))"
proof (induction n)
  case 0
  show ?case by (simp add: demo_after_def run_start)
next
  case (Suc n)
  have "n < length demo_events" using Suc.prems by (simp add: demo_events_def)
  with Suc show ?case by (intro demo_step demo_may) simp_all
qed

lemma demo_run: "pairing_run demo_lib demo_channels (fst (demo_after 3)) (snd (demo_after 3))"
  by (rule demo_run_upto) simp

section \<open>What any process reads\<close>

text \<open>
  C25. The list of paired senders that a process reads, remembered or not, by either of the two readers, holds exactly
  the senders whom the last addition, approval or removal of them, by whatever process, left on it; for the default
  account the list of the files without account counts too. This supposes that channels in use do not share a file, that
  every sender that was added or approved is written in a form that is read back as it is (\<open>settled\<close>; a doubled prefix such
  as \<open>tg:tg:42\<close> is not), and that each change of a list gave its file a time and size that it did not have before
  (\<open>stamps_differ\<close>) or that this process remembers nothing yet.
\<close>

theorem store_reads_the_log:
  assumes "pairing_run lib C log w" "channels_ok C" "settled lib log" "stamps_differ log \<or> processCache w pid = []"
    "ch \<in> C" "store_reader reader" "fst (reader lib ch acct (view_of pid w)) = Inr xs"
  shows "x \<in> set xs \<longleftrightarrow> paired lib log ch acct x"
  using reads_paired [OF assms] by blast

lemma demo_known: "''telegram'' \<in> demo_channels" "store_reader readChannelAllowFromStore"
  by (simp_all add: demo_channels_def store_reader_def)

lemma demo_reads: "fst (readChannelAllowFromStore demo_lib ''telegram'' None (view_of 0 (snd (demo_after 3)))) = Inr [''42'']"
  by code_simp

theorem store_reads_the_log_witness: "paired demo_lib (fst (demo_after 3)) ''telegram'' None ''42''
    \<and> \<not> paired demo_lib (fst (demo_after 3)) ''telegram'' None ''43''"
  using store_reads_the_log [OF demo_run demo_channels_ok demo_settled disjI1 [OF demo_stamps] demo_known demo_reads, of "''42''"]
    store_reads_the_log [OF demo_run demo_channels_ok demo_settled disjI1 [OF demo_stamps] demo_known demo_reads, of "''43''"] by simp

text \<open>
  Neither can be left out. A sender with a doubled prefix is on the list of the process that added it and not on that of
  the others; and a process does not see that another sender took the place of one, when the file has the time and the
  size that it had.
\<close>

definition demo_add :: "string \<Rightarrow> int \<times> int \<Rightarrow> PairingEvent" where
  "demo_add sender stamp = Pe_add \<lparr>callNow = 5, codeDraws = [], createdStamp = stamp, writtenStamp = stamp, statWorks = True\<rparr>
     ''telegram'' (Ae_text sender) (Some ''work'')"

definition demo_remove :: "string \<Rightarrow> int \<times> int \<Rightarrow> PairingEvent" where
  "demo_remove sender stamp = Pe_remove \<lparr>callNow = 5, codeDraws = [], createdStamp = stamp, writtenStamp = stamp, statWorks = True\<rparr>
     ''telegram'' (Ae_text sender) (Some ''work'')"

definition demo_reads_after :: "(nat \<times> PairingEvent) list \<Rightarrow> nat \<Rightarrow> PairingStoreError + string list" where
  "demo_reads_after es pid =
     fst (readChannelAllowFromStore demo_lib ''telegram'' (Some ''work'') (view_of pid (snd (fold demo_next es ([], empty_world)))))"

lemma doubled_prefix_is_read_twice:
  "demo_reads_after [(0, demo_add ''tg:tg:42'' (1, 5))] 0 = Inr [''tg:42'']"
  "demo_reads_after [(0, demo_add ''tg:tg:42'' (1, 5))] 1 = Inr [''42'']"
  by code_simp+

lemma same_stamp_hides_a_change:
  "demo_reads_after [(0, demo_add ''42'' (1, 2)), (1, demo_remove ''42'' (1, 0)), (1, demo_add ''43'' (1, 2))] 0 = Inr [''42'']"
  "demo_reads_after [(0, demo_add ''42'' (1, 2)), (1, demo_remove ''42'' (1, 0)), (1, demo_add ''43'' (1, 2))] 1 = Inr [''43'']"
  by code_simp+

section \<open>Who is let in\<close>

text \<open>The decision over a direct message, with the senders that the process reads from the store.\<close>

definition with_store ::
    "PairingLib \<Rightarrow> string \<Rightarrow> string \<Rightarrow> PairingStores \<Rightarrow> DmGroupAccessInputParams \<Rightarrow> DmGroupAccessInputParams" where
  "with_store lib ch acct st p = p\<lparr>storeAllowFromA := Some (map Ae_text (readStoreAllowFromForDmPolicy (dmPolicyA p) None
     (case fst (readChannelAllowFromStore lib ch (Some acct) st) of Inl _ \<Rightarrow> None | Inr xs \<Rightarrow> Some xs)))\<rparr>"

lemma read_fails_unpaired:
  "fst (readChannelAllowFromStore lib ch acct st) = Inl e \<Longrightarrow> \<not> paired lib log ch acct x"
  by (auto dest!: paired_needs_path simp: readChannelAllowFromStore_def read_both_def Let_def shouldIncludeLegacyAllowFromEntries_def
      resolveAllowFromAccountId_def or_str_def DEFAULT_ACCOUNT_ID_def split: if_splits prod.splits sum.splits)

lemma listed_store:
  assumes "pairing_run lib C log w" "channels_ok C" "settled lib log" "stamps_differ log \<or> processCache w pid = []" "ch \<in> C"
  shows "set (listed (storeAllowFromA (with_store lib ch acct (view_of pid w) p)))
    = (if dmPolicyA p = Some ''allowlist'' then {} else {x. paired lib log ch (Some acct) x})"
proof (cases "fst (readChannelAllowFromStore lib ch (Some acct) (view_of pid w))")
  case (Inl e)
  with read_fails_unpaired [OF Inl] show ?thesis
    by (simp add: with_store_def readStoreAllowFromForDmPolicy_def listed_def normalizeStringEntries_def)
next
  case (Inr xs)
  from reads_paired [OF assms demo_known(2) Inr] have xs: "\<forall>x. x \<in> set xs \<longleftrightarrow> paired lib log ch (Some acct) x" "\<forall>x \<in> set xs. js_trim x = x \<and> x \<noteq> ''''"
    by blast+
  then have "normalizeStringEntries (map Ae_text xs) = xs" by (intro normal_fixed) blast
  moreover have "set xs = {x. paired lib log ch (Some acct) x}" using xs(1) by blast
  moreover have "listed (Some []) = []" by (simp add: listed_def normalizeStringEntries_def)
  ultimately show ?thesis using Inr by (simp add: with_store_def readStoreAllowFromForDmPolicy_def listed_def)
qed


definition demo_message :: "string \<Rightarrow> DmGroupAccessInputParams" where
  "demo_message sender = \<lparr>isGroupA = False, dmPolicyA = None, groupPolicyA = None, allowFromA = Some [Ae_text ''7''],
     groupAllowFromA = None, storeAllowFromA = None, fallbackA = None, isSenderAllowedA = (\<lambda>xs. sender \<in> set xs)\<rparr>"

lemma demo_decisions:
  "decisionA (fst (resolveDmGroupAccessWithLists (with_store demo_lib ''telegram'' '''' (view_of 0 (snd (demo_after 3))) (demo_message ''42'')))) = Access_allow"
    "''42'' \<notin> set (listed (allowFromA (demo_message ''42'')))" "dmPolicyA (demo_message ''42'') = None"
    "\<not> isGroupA (demo_message ''42'')" "isSenderAllowedA (demo_message ''42'') = (\<lambda>xs. ''42'' \<in> set xs)"
  by code_simp (code_simp, simp_all add: demo_message_def)


end
