(* ===== verification/PairingRequestProps.thy ===== *)
theory PairingRequestProps
  imports PairingAccess
begin

text \<open>
  The requests of the store of paired senders, through every run of the processes that share it: codes are unlike, a
  sender has one request for an account, an account has at most three, and a code is approved only for the sender to
  whom it was given, once, and within the hour.
\<close>

section \<open>Texts\<close>

lemma dropWhile_lower: "dropWhile js_ws (map js_lower_char s) = map js_lower_char (dropWhile js_ws s)"
  by (induction s) (auto simp: lower_char_props)

lemma trim_lower: "js_trim (js_lower s) = js_lower (js_trim s)"
  by (simp add: js_trim_def js_lower_def dropWhile_lower rev_map)

lemma lower_char_idem: "js_lower_char (js_lower_char c) = js_lower_char c"
  by (simp add: char_code lower_code Let_def)

lemma pairing_account_idem: "normalizePairingAccountId (Some (normalizePairingAccountId (Some a))) = normalizePairingAccountId (Some a)"
proof -
  have "js_lower (js_lower s) = js_lower s" for s by (simp add: js_lower_def lower_char_idem)
  then show ?thesis by (simp add: normalizePairingAccountId_def lowercase_Some trim_lower)
qed

definition code_ok :: "string \<Rightarrow> bool" where
  "code_ok s \<longleftrightarrow> length s = PAIRING_CODE_LENGTH \<and> set s \<subseteq> set PAIRING_CODE_ALPHABET"

lemma alphabet_plain: "\<forall>c \<in> set PAIRING_CODE_ALPHABET. js_upper [c] = [c] \<and> \<not> js_ws c"
  by code_simp

lemma code_ok_nonempty: "code_ok s \<Longrightarrow> s \<noteq> ''''"
  by (auto simp: code_ok_def PAIRING_CODE_LENGTH_def)

lemma code_ok_upper: "code_ok s \<Longrightarrow> js_upper s = s"
proof -
  assume "code_ok s"
  then have "set s \<subseteq> set PAIRING_CODE_ALPHABET" by (simp add: code_ok_def)
  then show ?thesis
  proof (induction s)
    case (Cons c s)
    then have "js_upper [c] = [c]" "js_upper s = s" using alphabet_plain by auto
    moreover have "js_upper (c # s) = js_upper [c] @ js_upper s" by (simp add: js_upper_def)
    ultimately show ?case by simp
  qed (simp add: js_upper_def)
qed

lemma js_trim_no_ws: "\<forall>c \<in> set s. \<not> js_ws c \<Longrightarrow> js_trim s = s"
proof -
  assume a: "\<forall>c \<in> set s. \<not> js_ws c"
  then have "dropWhile js_ws s = s" "dropWhile js_ws (rev s) = rev s" by (auto intro!: dropWhile_fixed simp: hd_rev)
  then show ?thesis by (simp add: js_trim_def)
qed

lemma code_ok_trim: "code_ok s \<Longrightarrow> js_trim s = s"
  using alphabet_plain by (intro js_trim_no_ws) (auto simp: code_ok_def)

lemma found_one: "List.find P xs = Some x \<Longrightarrow> P x \<and> x \<in> set xs"
  by (induction xs) (auto split: if_splits)

lemma generated_code:
  assumes "draws_ok call" "generateUniqueCode (codeDraws call) existing = Some code"
  shows "code_ok code \<and> code \<notin> set existing"
proof -
  from assms(2) obtain idxs where "idxs \<in> set (codeDraws call)" "code = randomCode idxs" "code \<notin> set existing"
    unfolding generateUniqueCode_def by (auto dest!: found_one in_set_takeD)
  with assms(1) show ?thesis by (auto simp: draws_ok_def randomCode_def code_ok_def)
qed

section \<open>The requests of one file\<close>

definition request_key :: "PairingRequest \<Rightarrow> string \<times> string" where
  "request_key r = (requestId r, resolvePairingRequestAccountId r)"

definition requests_ok :: "PairingRequest list \<Rightarrow> bool" where
  "requests_ok reqs \<longleftrightarrow> distinct (map codeR reqs) \<and> (\<forall>r \<in> set reqs. code_ok (codeR r)) \<and> distinct (map request_key reqs)
     \<and> (\<forall>a. length (filter (\<lambda>r. resolvePairingRequestAccountId r = a) reqs) \<le> PAIRING_PENDING_MAX)"

lemma requests_ok_Nil [simp]: "requests_ok []"
  by (simp add: requests_ok_def)

lemma requests_ok_filter: "requests_ok reqs \<Longrightarrow> requests_ok (filter P reqs)"
proof -
  assume ok: "requests_ok reqs"
  have fewer: "length (filter Q (filter P reqs)) \<le> length (filter Q reqs)" for Q
    by (induction reqs) auto
  have "length (filter (\<lambda>r. resolvePairingRequestAccountId r = a) (filter P reqs)) \<le> PAIRING_PENDING_MAX" for a
    by (rule le_trans [OF fewer]) (use ok in \<open>simp add: requests_ok_def\<close>)
  with ok show ?thesis by (simp add: requests_ok_def distinct_map_filter)
qed

lemma requests_ok_drop: "requests_ok reqs \<Longrightarrow> i < length reqs \<Longrightarrow> requests_ok (take i reqs @ drop (Suc i) reqs)"
proof -
  assume ok: "requests_ok reqs" and i: "i < length reqs"
  obtain xs x ys where r: "reqs = xs @ x # ys" "take i reqs = xs" "drop (Suc i) reqs = ys" using id_take_nth_drop [OF i] by blast
  have fewer: "length (filter Q (xs @ ys)) \<le> length (filter Q reqs)" for Q by (simp add: r(1))
  have "length (filter (\<lambda>r. resolvePairingRequestAccountId r = a) (xs @ ys)) \<le> PAIRING_PENDING_MAX" for a
    by (rule le_trans [OF fewer]) (use ok in \<open>simp add: requests_ok_def\<close>)
  moreover have "distinct (map f (xs @ ys))" if "distinct (map f reqs)" for f :: "PairingRequest \<Rightarrow> string" using that by (simp add: r(1))
  moreover have "distinct (map request_key (xs @ ys))" using ok by (simp add: requests_ok_def r(1))
  ultimately show ?thesis using ok unfolding r(2,3) requests_ok_def by (simp add: r(1))
qed

lemma map_renewed: "f u = f (xs ! i) \<Longrightarrow> map f (xs[i := u]) = map f xs"
  by (metis List.map_update list_update_id list_update_beyond not_le nth_map length_map)

lemma filter_count: "length (filter (\<lambda>r. f r = a) xs) = count_list (map f xs) a"
  by (induction xs) auto

lemma requests_ok_renew:
  assumes "requests_ok reqs" "i < length reqs" "codeR u = codeR (reqs ! i)" "request_key u = request_key (reqs ! i)"
  shows "requests_ok (reqs[i := u])"
proof -
  have "map codeR (reqs[i := u]) = map codeR reqs" "map request_key (reqs[i := u]) = map request_key reqs"
    "map resolvePairingRequestAccountId (reqs[i := u]) = map resolvePairingRequestAccountId reqs"
    using assms(3,4) by (simp_all add: map_renewed request_key_def)
  moreover have "code_ok (codeR r)" if "r \<in> set (reqs[i := u])" for r
    using that assms(1-3) set_update_subset_insert [of reqs i u] by (auto simp: requests_ok_def)
  ultimately show ?thesis using assms(1) unfolding requests_ok_def filter_count by simp
qed

lemma requests_ok_join:
  "requests_ok reqs \<Longrightarrow> code_ok (codeR new) \<Longrightarrow> codeR new \<notin> codeR ` set reqs \<Longrightarrow> request_key new \<notin> request_key ` set reqs
     \<Longrightarrow> length (filter (\<lambda>r. resolvePairingRequestAccountId r = resolvePairingRequestAccountId new) reqs) < PAIRING_PENDING_MAX
     \<Longrightarrow> requests_ok (reqs @ [new])"
  by (auto simp: requests_ok_def)

text \<open>Nothing is dropped for want of room, because nothing is let in without room.\<close>

lemma groups_count:
  "length (nullish (map_of (fold (\<lambda>(index, entry) grouped. let acct = resolvePairingRequestAccountId entry
       in AList.update acct (nullish (map_of grouped acct) [] @ [index]) grouped) ps g) a) [])
   = length (nullish (map_of g a) []) + length (filter (\<lambda>r. resolvePairingRequestAccountId r = a) (map snd ps))"
  by (induction ps arbitrary: g) (auto simp: Let_def)

lemma groups_distinct:
  "distinct (map fst g) \<Longrightarrow> distinct (map fst (fold (\<lambda>(index, entry) grouped. let acct = resolvePairingRequestAccountId entry
       in AList.update acct (nullish (map_of grouped acct) [] @ [index]) grouped) ps g))"
  by (induction ps arbitrary: g) (auto simp: Let_def)

lemma nothing_dropped: "requests_ok reqs \<Longrightarrow> pruneExcessRequestsByAccount lib reqs PAIRING_PENDING_MAX = (reqs, False)"
proof -
  assume ok: "requests_ok reqs"
  have "length idxs \<le> PAIRING_PENDING_MAX" if "(a, idxs) \<in> set (request_groups reqs)" for a idxs
  proof -
    have "map_of (request_groups reqs) a = Some idxs"
      using that groups_distinct [of "[]" "enumerate 0 reqs"] by (simp add: request_groups_def)
    then have "length idxs = length (filter (\<lambda>r. resolvePairingRequestAccountId r = a) reqs)"
      using groups_count [of "enumerate 0 reqs" "[]" a] by (simp add: request_groups_def)
    with ok show ?thesis by (simp add: requests_ok_def)
  qed
  then have "concat (map (\<lambda>(_, indexes). if length indexes \<le> PAIRING_PENDING_MAX then []
      else take (length indexes - PAIRING_PENDING_MAX) (sort_key (\<lambda>i. resolveLastSeenAt lib (reqs ! i)) indexes)) (request_groups reqs)) = []"
    by (auto simp: concat_eq_Nil_conv)
  then show ?thesis by (simp add: pruneExcessRequestsByAccount_def)
qed

section \<open>What each operation does to the requests\<close>

lemma read_write [simp]:
  "readPairingRequests q (writePairingRequests p reqs st) = (if q = p then reqs else readPairingRequests q st)"
  "readPairingRequests q (ensurePairingFile p st) = readPairingRequests q st"
  by (auto simp: readPairingRequests_def writePairingRequests_def ensurePairingFile_def)

definition requests_left :: "PairingLib \<Rightarrow> PairingCall \<Rightarrow> PairingStores \<Rightarrow> string \<Rightarrow> PairingRequest list" where
  "requests_left lib call st path = filter (\<lambda>r. \<not> request_expired lib r (callNow call)) (readPairingRequests path st)"

definition all_requests_ok :: "PairingStores \<Rightarrow> bool" where
  "all_requests_ok st \<longleftrightarrow> (\<forall>path. requests_ok (readPairingRequests path st))"

definition only_expired_go :: "PairingLib \<Rightarrow> PairingCall \<Rightarrow> PairingStores \<Rightarrow> PairingStores \<Rightarrow> bool" where
  "only_expired_go lib call st st' \<longleftrightarrow>
     (\<forall>q. readPairingRequests q st' = readPairingRequests q st \<or> readPairingRequests q st' = requests_left lib call st q)"

lemma left_ok: "all_requests_ok st \<Longrightarrow> requests_ok (requests_left lib call st path)"
  by (simp add: all_requests_ok_def requests_left_def requests_ok_filter)

lemma left_ensure [simp]: "requests_left lib call (ensurePairingFile p st) q = requests_left lib call st q"
  by (simp add: requests_left_def)

lemma pruned_left:
  "pruneExpiredRequests lib (readPairingRequests path st) (callNow call) = (requests_left lib call st path,
     list_ex (\<lambda>req. request_expired lib req (callNow call)) (readPairingRequests path st))"
  by (simp add: pruneExpiredRequests_def requests_left_def)

lemma left_dropped: "all_requests_ok st \<Longrightarrow>
    pruneExcessRequestsByAccount lib (requests_left lib call st path) PAIRING_PENDING_MAX = (requests_left lib call st path, False)"
  by (rule nothing_dropped [OF left_ok])

lemma list_requests:
  "all_requests_ok st \<Longrightarrow> only_expired_go lib call st (snd (listChannelPairingRequests lib call ch acct st))"
  by (auto simp: listChannelPairingRequests_def only_expired_go_def pruned_left left_dropped Let_def split: sum.splits)

text \<open>The account of a request that is written.\<close>

definition account_of :: "string \<Rightarrow> string" where
  "account_of acct = or_str (normalizePairingAccountId (Some acct)) DEFAULT_ACCOUNT_ID"

lemma account_of_fixed: "or_str (normalizePairingAccountId (Some (account_of acct))) DEFAULT_ACCOUNT_ID = account_of acct"
proof (cases "normalizePairingAccountId (Some acct) = ''''")
  case True
  have "normalizePairingAccountId (Some DEFAULT_ACCOUNT_ID) = DEFAULT_ACCOUNT_ID" by code_simp
  with True show ?thesis by (simp add: account_of_def or_str_def)
next
  case False
  then show ?thesis by (simp add: account_of_def or_str_def pairing_account_idem)
qed

lemma account_of_nonempty: "account_of acct \<noteq> ''''"
  by (simp add: account_of_def or_str_def DEFAULT_ACCOUNT_ID_def)

lemma written_account: "metaR r = Some (request_meta m (account_of acct)) \<Longrightarrow> resolvePairingRequestAccountId r = account_of acct"
  by (simp add: resolvePairingRequestAccountId_def meta_account_def request_meta_def account_of_fixed)

lemma matches_account: "requestMatchesAccountId r (account_of acct) \<longleftrightarrow> resolvePairingRequestAccountId r = account_of acct"
  by (simp add: requestMatchesAccountId_def account_of_nonempty)

lemma find_request_Some: "find_request P reqs = Some i \<Longrightarrow> i < length reqs \<and> P (reqs ! i)"
  by (auto simp: find_request_def dest!: found_one)

lemma find_request_None: "find_request P reqs = None \<Longrightarrow> r \<in> set reqs \<Longrightarrow> \<not> P r"
  by (auto simp: find_request_def find_None_iff in_set_conv_nth)

lemma upsert_cases:
  assumes "all_requests_ok st" "draws_ok call"
  obtains (quiet) "\<And>c. fst (upsertChannelPairingRequest lib call ch ident acct meta st) \<noteq> Inr (c, True)"
      "only_expired_go lib call st (snd (upsertChannelPairingRequest lib call ch ident acct meta st))"
  | (renewed) path i u where "\<And>c. fst (upsertChannelPairingRequest lib call ch ident acct meta st) \<noteq> Inr (c, True)"
      "i < length (requests_left lib call st path)" "codeR u = codeR (requests_left lib call st path ! i)"
      "request_key u = request_key (requests_left lib call st path ! i)" "createdAtR u = createdAtR (requests_left lib call st path ! i)"
      "\<And>q. readPairingRequests q (snd (upsertChannelPairingRequest lib call ch ident acct meta st))
         = (if q = path then (requests_left lib call st path)[i := u] else readPairingRequests q st)"
      "meta_account u = Some (snd (request_key u))"
  | (created) path new where "resolvePairingPath ch = Inr path" "request_key new = (pairing_id ident, account_of acct)"
      "createdAtR new = isoText lib (callNow call)" "requests_ok (requests_left lib call st path @ [new])"
      "upsertChannelPairingRequest lib call ch ident acct meta st
         = (Inr (codeR new, True), writePairingRequests path (requests_left lib call st path @ [new]) (ensurePairingFile path st))"
      "meta_account new = Some (account_of acct)"
proof (cases "resolvePairingPath ch")
  case (Inl e)
  then show ?thesis by (intro quiet) (simp_all add: upsertChannelPairingRequest_def only_expired_go_def)
next
  case path: (Inr path)
  let ?left = "requests_left lib call st path"
  let ?find = "find_request (\<lambda>r. if requestId r \<noteq> pairing_id ident then False else requestMatchesAccountId r (account_of acct)) ?left"
  have codes: "pending_code r = codeR r" "js_upper (pending_code r) = codeR r" "codeR r \<noteq> ''''" if "r \<in> set ?left" for r
  proof -
    have "code_ok (codeR r)" using left_ok [OF assms(1)] that by (auto simp: requests_ok_def)
    then show "pending_code r = codeR r" "js_upper (pending_code r) = codeR r" "codeR r \<noteq> ''''"
      by (simp_all add: pending_code_def normalizeOptionalString_Some code_ok_trim code_ok_nonempty code_ok_upper)
  qed
  note unfold = upsertChannelPairingRequest_def path sum.case Let_def account_of_def [symmetric] read_write(2) pruned_left left_ensure prod.case left_dropped [OF assms(1)]
  show ?thesis
  proof (cases ?find)
    case (Some i)
    from find_request_Some [OF this] have i: "i < length ?left" "requestId (?left ! i) = pairing_id ident"
        "resolvePairingRequestAccountId (?left ! i) = account_of acct"
      by (auto simp: matches_account split: if_splits)
    let ?u = "\<lparr>requestId = pairing_id ident, codeR = codeR (?left ! i), createdAtR = createdAtR (?left ! i),
      lastSeenAtR = isoText lib (callNow call), metaR = Some (request_meta meta (account_of acct))\<rparr>"
    have u: "request_key ?u = request_key (?left ! i)" "meta_account ?u = Some (snd (request_key ?u))"
      using i by (simp_all add: request_key_def written_account) (simp add: meta_account_def request_meta_def)
    have "requests_ok (?left[i := ?u])" using requests_ok_renew [OF left_ok [OF assms(1)] i(1) _ u(1)] by simp
    from nothing_dropped [OF this] Some codes [OF nth_mem [OF i(1)]]
    have "upsertChannelPairingRequest lib call ch ident acct meta st
        = (Inr (codeR (?left ! i), False), writePairingRequests path (?left[i := ?u]) (ensurePairingFile path st))"
      unfolding unfold by simp
    then show ?thesis using i(1) u by (intro renewed [of i path ?u]) simp_all
  next
    case None
    have new_key: "(pairing_id ident, account_of acct) \<notin> request_key ` set ?left"
    proof
      assume "(pairing_id ident, account_of acct) \<in> request_key ` set ?left"
      then obtain r where "r \<in> set ?left" "requestId r = pairing_id ident" "resolvePairingRequestAccountId r = account_of acct"
        by (auto simp: request_key_def)
      with find_request_None [OF None, of r] show False by (simp add: matches_account)
    qed
    have taken: "map (\<lambda>req. js_upper (pending_code req)) ?left = map codeR ?left" using codes by (simp cong: map_cong)
    show ?thesis
    proof (cases "PAIRING_PENDING_MAX > 0 \<and> length (filter (\<lambda>r. requestMatchesAccountId r (account_of acct)) ?left) \<ge> PAIRING_PENDING_MAX")
      case True
      with None show ?thesis by (intro quiet) (simp_all add: unfold only_expired_go_def)
    next
      case room: False
      show ?thesis
      proof (cases "generateUniqueCode (codeDraws call) (map codeR ?left)")
        case no_code: None
        have "upsertChannelPairingRequest lib call ch ident acct meta st = (Inl No_unique_code, ensurePairingFile path st)"
          unfolding unfold taken using None room no_code by auto
        then show ?thesis by (intro quiet) (simp_all add: only_expired_go_def)
      next
        case (Some code)
        let ?new = "\<lparr>requestId = pairing_id ident, codeR = code, createdAtR = isoText lib (callNow call),
          lastSeenAtR = isoText lib (callNow call), metaR = Some (request_meta meta (account_of acct))\<rparr>"
        have key: "request_key ?new = (pairing_id ident, account_of acct)" by (simp add: request_key_def written_account)
        have "requests_ok (?left @ [?new])"
          using generated_code [OF assms(2) Some] new_key room key
          by (intro requests_ok_join [OF left_ok [OF assms(1)]])
            (auto simp: matches_account PAIRING_PENDING_MAX_def request_key_def)
        moreover have "upsertChannelPairingRequest lib call ch ident acct meta st
            = (Inr (code, True), writePairingRequests path (?left @ [?new]) (ensurePairingFile path st))"
          unfolding unfold taken using None room Some by auto
        ultimately show ?thesis using key by (intro created [OF path, of ?new]) (simp_all add: meta_account_def request_meta_def)
      qed
    qed
  qed
qed

lemma lists_keep_requests: "readPairingRequests q (snd (updateAllowFromStoreEntry lib call ch entry acct f st)) = readPairingRequests q st"
  by (simp add: updateAllowFromStoreEntry_def ensureAllowFile_def writeAllowFromState_def setAllowFromReadCache_def readPairingRequests_def Let_def
      split: sum.split option.split)

lemma approve_request_cases:
  obtains (quiet) "\<And>v. fst (approveChannelPairingCode lib call ch code acct st) \<noteq> Inr (Some v)"
      "only_expired_go lib call st (snd (approveChannelPairingCode lib call ch code acct st))"
      "\<And>path r. resolvePairingPath ch = Inr path \<Longrightarrow> r \<in> set (requests_left lib call st path) \<Longrightarrow> js_upper (codeR r) \<noteq> ''''
         \<Longrightarrow> js_upper (codeR r) = js_upper (nullish (normalizeNullableString code) '''')
         \<Longrightarrow> \<not> requestMatchesAccountId r (normalizePairingAccountId acct)"
  | (taken) path i where "resolvePairingPath ch = Inr path" "i < length (requests_left lib call st path)"
      "js_upper (codeR (requests_left lib call st path ! i)) = js_upper (nullish (normalizeNullableString code) '''')"
      "requestMatchesAccountId (requests_left lib call st path ! i) (normalizePairingAccountId acct)"
      "\<And>v. fst (approveChannelPairingCode lib call ch code acct st) = Inr (Some v) \<Longrightarrow>
         v = (requestId (requests_left lib call st path ! i), requests_left lib call st path ! i)"
      "\<And>p. resolveAllowFromPath ch (orElse (normalizeOptionalString acct) (normalizeOptionalString (meta_account (requests_left lib call st path ! i)))) = Inr p
         \<Longrightarrow> fst (approveChannelPairingCode lib call ch code acct st)
           = Inr (Some (requestId (requests_left lib call st path ! i), requests_left lib call st path ! i))"
      "\<And>q. readPairingRequests q (snd (approveChannelPairingCode lib call ch code acct st))
         = (if q = path then take i (requests_left lib call st path) @ drop (Suc i) (requests_left lib call st path) else readPairingRequests q st)"
proof (cases "js_upper (nullish (normalizeNullableString code) '''') = ''''")
  case True
  then show ?thesis by (intro quiet) (simp_all add: approveChannelPairingCode_def only_expired_go_def)
next
  case nonempty: False
  show ?thesis
  proof (cases "resolvePairingPath ch")
    case (Inl e)
    with nonempty show ?thesis by (intro quiet) (simp_all add: approveChannelPairingCode_def only_expired_go_def)
  next
    case path: (Inr path)
    let ?left = "requests_left lib call st path"
    let ?P = "\<lambda>r. if js_upper (codeR r) \<noteq> js_upper (nullish (normalizeNullableString code) '''') then False
      else requestMatchesAccountId r (normalizePairingAccountId acct)"
    note unfold = approveChannelPairingCode_def path sum.case Let_def read_write(2) pruned_left left_ensure prod.case if_not_P [OF nonempty]
    show ?thesis
    proof (cases "find_request ?P ?left")
      case None
      have absent: "r \<in> set ?left \<Longrightarrow> js_upper (codeR r) = js_upper (nullish (normalizeNullableString code) '''')
          \<Longrightarrow> \<not> requestMatchesAccountId r (normalizePairingAccountId acct)" for r
        using find_request_None [OF None, of r] by simp
      from None show ?thesis
        by (intro quiet) (simp_all add: unfold only_expired_go_def absent)
    next
      case (Some i)
      from find_request_Some [OF this] have i: "i < length ?left"
          "js_upper (codeR (?left ! i)) = js_upper (nullish (normalizeNullableString code) '''')"
          "requestMatchesAccountId (?left ! i) (normalizePairingAccountId acct)" by (auto split: if_splits)
      let ?st2 = "writePairingRequests path (take i ?left @ drop (Suc i) ?left) (ensurePairingFile path st)"
      obtain res st3 where add: "addChannelAllowFromStoreEntry lib call ch (Ae_text (requestId (?left ! i)))
          (orElse (normalizeOptionalString acct) (normalizeOptionalString (meta_account (?left ! i)))) ?st2 = (res, st3)" by force
      have kept: "readPairingRequests q st3 = readPairingRequests q ?st2" for q
        using add by (metis addChannelAllowFromStoreEntry_def lists_keep_requests snd_conv)
      have "approveChannelPairingCode lib call ch code acct st
          = (case res of Inl e \<Rightarrow> Inl e | Inr _ \<Rightarrow> Inr (Some (requestId (?left ! i), ?left ! i)), st3)"
        unfolding unfold Some option.case add by (cases res) simp_all
      moreover have "\<exists>v. res = Inr v" if "resolveAllowFromPath ch
          (orElse (normalizeOptionalString acct) (normalizeOptionalString (meta_account (?left ! i)))) = Inr p" for p
        using add that by (auto simp: addChannelAllowFromStoreEntry_def updateAllowFromStoreEntry_def Let_def split: option.splits if_splits)
      ultimately show ?thesis using i kept by (intro taken [OF path i]) (auto split: sum.splits)
    qed
  qed
qed

section \<open>Codes in the log\<close>

text \<open>What an event does to a code of a file: it gives the code to a sender of an account, at a time, or uses it up.\<close>

definition code_event :: "PairingEvent \<times> PairingOutput \<Rightarrow> string \<Rightarrow> string \<Rightarrow> (string \<times> string \<times> int) option option" where
  "code_event eo path code = (case eo of
     (Pe_upsert call ch ident acct _, Po_code c created) \<Rightarrow>
       if created \<and> resolvePairingPath ch = Inr path \<and> c = code then Some (Some (pairing_id ident, account_of acct, callNow call)) else None
   | (Pe_approve _ ch _ _, Po_approved (Some (_, r))) \<Rightarrow>
       if resolvePairingPath ch = Inr path \<and> codeR r = code then Some None else None
   | _ \<Rightarrow> None)"

fun issued :: "(PairingEvent \<times> PairingOutput) list \<Rightarrow> string \<Rightarrow> string \<Rightarrow> (string \<times> string \<times> int) option" where
  "issued [] path code = None"
| "issued (eo # log) path code = nullish (code_event eo path code) (issued log path code)"

definition requests_hold :: "PairingLib \<Rightarrow> (PairingEvent \<times> PairingOutput) list \<Rightarrow> string \<Rightarrow> PairingRequest list \<Rightarrow> bool" where
  "requests_hold lib log path reqs \<longleftrightarrow> requests_ok reqs \<and> (\<forall>r \<in> set reqs. \<exists>t. createdAtR r = isoText lib t
     \<and> issued log path (codeR r) = Some (requestId r, resolvePairingRequestAccountId r, t))"

lemma requests_hold_filter: "requests_hold lib log path reqs \<Longrightarrow> requests_hold lib log path (filter P reqs)"
  by (simp add: requests_hold_def requests_ok_filter)

lemma requests_hold_same:
  "requests_hold lib log path reqs \<Longrightarrow> (\<And>r. r \<in> set reqs \<Longrightarrow> code_event eo path (codeR r) = None) \<Longrightarrow> requests_hold lib (eo # log) path reqs"
  by (simp add: requests_hold_def)

lemma requests_hold_quiet:
  assumes "\<And>path. requests_hold lib log path (readPairingRequests path st)" "only_expired_go lib call st st'" "\<And>p c. code_event eo p c = None"
  shows "requests_hold lib (eo # log) path (readPairingRequests path st')"
proof -
  have "requests_hold lib log path (requests_left lib call st path)"
    using assms(1) by (simp add: requests_left_def requests_hold_filter)
  with assms(1) assms(2) [unfolded only_expired_go_def, rule_format, of path] have "requests_hold lib log path (readPairingRequests path st')"
    by auto
  then show ?thesis using assms(3) by (rule requests_hold_same)
qed

lemma requests_hold_renew:
  assumes "requests_hold lib log path reqs" "i < length reqs" "codeR u = codeR (reqs ! i)" "request_key u = request_key (reqs ! i)"
    "createdAtR u = createdAtR (reqs ! i)"
  shows "requests_hold lib log path (reqs[i := u])"
proof -
  have "\<exists>t. createdAtR r = isoText lib t \<and> issued log path (codeR r) = Some (requestId r, resolvePairingRequestAccountId r, t)"
    if "r \<in> set (reqs[i := u])" for r
  proof (cases "r = u")
    case True
    from assms(1,2) obtain t where "createdAtR (reqs ! i) = isoText lib t"
        "issued log path (codeR (reqs ! i)) = Some (requestId (reqs ! i), resolvePairingRequestAccountId (reqs ! i), t)"
      unfolding requests_hold_def using nth_mem by blast
    with True assms(3-5) show ?thesis by (simp add: request_key_def)
  next
    case False
    with that set_update_subset_insert [of reqs i u] have "r \<in> set reqs" by auto
    with assms(1) show ?thesis by (simp add: requests_hold_def)
  qed
  with requests_ok_renew [OF _ assms(2-4)] assms(1) show ?thesis by (simp add: requests_hold_def)
qed

lemma requests_hold_join:
  assumes "requests_hold lib log path reqs" "requests_ok (reqs @ [new])" "createdAtR new = isoText lib t"
    "\<And>c. code_event eo path c = (if c = codeR new then Some (Some (requestId new, resolvePairingRequestAccountId new, t)) else None)"
  shows "requests_hold lib (eo # log) path (reqs @ [new])"
proof -
  have "codeR new \<notin> codeR ` set reqs" using assms(2) by (simp add: requests_ok_def)
  then have "codeR r \<noteq> codeR new" if "r \<in> set reqs" for r using that by (metis imageI)
  with assms show ?thesis by (auto simp: requests_hold_def)
qed

lemma requests_hold_take:
  assumes "requests_hold lib log path reqs" "i < length reqs" "\<And>c. c \<noteq> codeR (reqs ! i) \<Longrightarrow> code_event eo path c = None"
  shows "requests_hold lib (eo # log) path (take i reqs @ drop (Suc i) reqs)"
proof -
  obtain xs x ys where r: "reqs = xs @ x # ys" "take i reqs = xs" "drop (Suc i) reqs = ys" "reqs ! i = x"
    using id_take_nth_drop [OF assms(2)] by blast
  have ok: "requests_ok reqs" using assms(1) by (simp add: requests_hold_def)
  then have "codeR x \<notin> codeR ` set (xs @ ys)" by (auto simp: requests_ok_def r(1))
  then have "codeR y \<noteq> codeR x" if "y \<in> set (xs @ ys)" for y using that by (metis imageI)
  with assms(3) have quiet: "code_event eo path (codeR y) = None" if "y \<in> set (xs @ ys)" for y using that r(4) by auto
  have "requests_hold lib log path (xs @ ys)"
    using requests_ok_drop [OF ok assms(2), unfolded r(2,3)] assms(1) unfolding requests_hold_def by (simp add: r(1))
  with quiet show ?thesis unfolding r(2,3) by (intro requests_hold_same)
qed

lemma read_keeps_requests:
  "reader = readAllowFromStateForPath \<or> reader = readAllowFromStateForPathSync \<Longrightarrow> pairingFiles (snd (reader lib ch path st)) = pairingFiles st"
  by (auto simp: readAllowFromStateForPath_def readAllowFromStateForPathSync_def readAllowFromStateForPathWithExists_def
      readAllowFromStateForPathSyncWithExists_def resolveAllowFromReadCacheOrMissing_def setAllowFromReadCache_def Let_def
      split: option.splits)

lemma reads_keep_requests:
  assumes "reader = readAllowFromStateForPath \<or> reader = readAllowFromStateForPathSync"
  shows "readPairingRequests q (snd (read_both reader lib ch acct st)) = readPairingRequests q st"
  using read_keeps_requests [OF assms]
  by (auto simp: read_both_def readPairingRequests_def Let_def split: sum.split prod.split) (metis snd_conv)+

lemma requests_hold_run:
  assumes "pairing_run lib C log w"
  shows "requests_hold lib log path (readPairingRequests path (view_of pid w))"
  using assms
proof (induction arbitrary: path pid)
  case run_start
  then show ?case by (simp add: requests_hold_def readPairingRequests_def view_of_def empty_world_def)
next
  case (run_step log w e p out st)
  let ?st = "view_of p w"
  have view: "readPairingRequests q (view_of pid (after_of p st w)) = readPairingRequests q st" for q
    by (simp add: readPairingRequests_def view_of_def after_of_def)
  have hold: "\<And>q. requests_hold lib log q (readPairingRequests q ?st)" using run_step.IH .
  have ok: "all_requests_ok ?st" using hold by (simp add: all_requests_ok_def requests_hold_def)
  have left: "requests_hold lib log q (requests_left lib call ?st q)" for call q
    using hold by (simp add: requests_left_def requests_hold_filter)
  note step = run_step.hyps(3)
  have untouched: "requests_hold lib ((e, out) # log) path (readPairingRequests path st)"
    if "\<And>q. readPairingRequests q st = readPairingRequests q ?st" "\<And>q c. code_event (e, out) q c = None"
    using hold that by (simp add: requests_hold_same)
  show ?case unfolding view
  proof (cases e)
    case (Pe_read ch acct)
    with step reads_keep_requests [of readAllowFromStateForPath _ lib ch acct ?st]
    show "requests_hold lib ((e, out) # log) path (readPairingRequests path st)"
      by (intro untouched) (auto simp: perform_def outcome_of_def readChannelAllowFromStore_def code_event_def)
  next
    case (Pe_read_sync ch acct)
    with step reads_keep_requests [of readAllowFromStateForPathSync _ lib ch acct ?st]
    show "requests_hold lib ((e, out) # log) path (readPairingRequests path st)"
      by (intro untouched) (auto simp: perform_def outcome_of_def readChannelAllowFromStoreSync_def code_event_def)
  next
    case (Pe_add call ch entry acct)
    with step lists_keep_requests [of _ lib call ch entry acct add_entry ?st]
    show "requests_hold lib ((e, out) # log) path (readPairingRequests path st)"
      by (intro untouched) (auto simp: perform_def outcome_of_def addChannelAllowFromStoreEntry_def code_event_def)
  next
    case (Pe_remove call ch entry acct)
    with step lists_keep_requests [of _ lib call ch entry acct remove_entry ?st]
    show "requests_hold lib ((e, out) # log) path (readPairingRequests path st)"
      by (intro untouched) (auto simp: perform_def outcome_of_def removeChannelAllowFromStoreEntry_def code_event_def)
  next
    case (Pe_list call ch acct)
    with step list_requests [OF ok, of lib call ch acct]
    show "requests_hold lib ((e, out) # log) path (readPairingRequests path st)"
      by (intro requests_hold_quiet [OF hold]) (auto simp: perform_def outcome_of_def code_event_def)
  next
    case (Pe_upsert call ch ident acct meta)
    let ?res = "upsertChannelPairingRequest lib call ch ident acct meta ?st"
    from step Pe_upsert have res: "st = snd ?res" "out = (case fst ?res of Inl err \<Rightarrow> Po_failed err | Inr (c, n) \<Rightarrow> Po_code c n)"
      by (auto simp: perform_def outcome_of_def)
    have draws: "draws_ok call" using run_step.hyps(2) by (simp add: may_happen_def Pe_upsert call_of_def)
    have silent: "code_event (e, out) q c = None" if "\<And>c. fst ?res \<noteq> Inr (c, True)" for q c
      using that unfolding res(2) by (auto simp: code_event_def Pe_upsert split: sum.splits)
    show "requests_hold lib ((e, out) # log) path (readPairingRequests path st)"
    proof (cases rule: upsert_cases [OF ok draws, of lib ch ident acct meta, consumes 0, case_names quiet renewed created])
      case quiet
      then show ?thesis unfolding res(1) using silent by (intro requests_hold_quiet [OF hold]) auto
    next
      case (renewed p' i u)
      have "requests_hold lib log path (readPairingRequests path st)"
        unfolding res(1) renewed(6) using hold requests_hold_renew [OF left renewed(2-5)] by simp
      then show ?thesis using silent [OF renewed(1)] by (rule requests_hold_same)
    next
      case (created p' new)
      have out: "out = Po_code (codeR new) True" unfolding res(2) created(5) by simp
      have key: "pairing_id ident = requestId new" "account_of acct = resolvePairingRequestAccountId new"
        using created(2) by (simp_all add: request_key_def)
      have joined: "requests_hold lib ((e, out) # log) p' (requests_left lib call ?st p' @ [new])"
        by (rule requests_hold_join [OF left created(4,3)]) (simp add: code_event_def Pe_upsert out created(1) key)
      have "requests_hold lib ((e, out) # log) q (readPairingRequests q ?st)" if "q \<noteq> p'" for q
        by (rule requests_hold_same [OF hold]) (use that in \<open>simp add: code_event_def Pe_upsert out created(1)\<close>)
      with joined show ?thesis unfolding res(1) created(5) by simp
    qed
  next
    case (Pe_approve call ch code acct)
    let ?res = "approveChannelPairingCode lib call ch code acct ?st"
    from step Pe_approve have res: "st = snd ?res" "out = (case fst ?res of Inl err \<Rightarrow> Po_failed err | Inr v \<Rightarrow> Po_approved v)"
      by (auto simp: perform_def outcome_of_def)
    show "requests_hold lib ((e, out) # log) path (readPairingRequests path st)"
    proof (cases rule: approve_request_cases [of lib call ch code acct ?st])
      case quiet
      from quiet(1) have "code_event (e, out) q c = None" for q c
        unfolding res(2) by (auto simp: code_event_def Pe_approve split: sum.splits option.splits)
      with quiet(2) show ?thesis unfolding res(1) by (intro requests_hold_quiet [OF hold]) auto
    next
      case (taken p' i)
      have other: "code_event (e, out) q c = None" if "q = p' \<longrightarrow> c \<noteq> codeR (requests_left lib call ?st p' ! i)" for q c
        using taken(1,5) that unfolding res(2) by (auto simp: code_event_def Pe_approve split: sum.splits option.splits)
      have "requests_hold lib ((e, out) # log) q (readPairingRequests q ?st)" if "q \<noteq> p'" for q
        by (rule requests_hold_same [OF hold other]) (use that in simp)
      moreover have "requests_hold lib ((e, out) # log) p' (take i (requests_left lib call ?st p') @ drop (Suc i) (requests_left lib call ?st p'))"
        by (rule requests_hold_take [OF left taken(2) other]) simp
      ultimately show ?thesis unfolding res(1) taken(7) by simp
    qed
  qed
qed

section \<open>Requests of every run\<close>

text \<open>
  C29. In every file that any run of any processes leaves, the codes of the requests are unlike, of eight characters of
  the alphabet without the look-alikes; no sender has two requests for one account; and no account has more than three.
\<close>

theorem pairing_requests_ok:
  assumes "pairing_run lib C log w" "map_of (sharedRequests w) path = Some reqs"
  shows "distinct (map codeR reqs)
    \<and> (\<forall>r \<in> set reqs. length (codeR r) = 8 \<and> set (codeR r) \<subseteq> set ''ABCDEFGHJKLMNPQRSTUVWXYZ23456789'')
    \<and> distinct (map (\<lambda>r. (requestId r, resolvePairingRequestAccountId r)) reqs)
    \<and> (\<forall>acct. length (filter (\<lambda>r. resolvePairingRequestAccountId r = acct) reqs) \<le> 3)"
proof -
  have "requests_ok reqs"
    using requests_hold_run [OF assms(1), of path 0] assms(2) by (simp add: requests_hold_def readPairingRequests_def view_of_def)
  moreover have "(\<lambda>r. (requestId r, resolvePairingRequestAccountId r)) = request_key" by (intro ext) (simp add: request_key_def)
  ultimately show ?thesis
    unfolding requests_ok_def code_ok_def PAIRING_CODE_LENGTH_def PAIRING_CODE_ALPHABET_def PAIRING_PENDING_MAX_def by simp
qed

lemma demo_files:
  "map_of (sharedRequests (snd (demo_after 3))) ''signal-pairing.json'' = Some [\<lparr>requestId = ''43'', codeR = ''BBBBBBBB'',
     createdAtR = ''111111'', lastSeenAtR = ''111111'', metaR = Some [(''accountId'', ''work'')]\<rparr>]"
  by code_simp

theorem pairing_requests_ok_witness: "length ''BBBBBBBB'' = 8 \<and> distinct (map codeR (nullish (map_of (sharedRequests (snd (demo_after 3))) ''signal-pairing.json'') []))"
  using pairing_requests_ok [OF demo_run demo_files] demo_files by simp

section \<open>What a code stands for\<close>

lemma unexpired:
  assumes "\<not> request_expired lib r now" "createdAtR r = isoText lib t" "\<And>t. dateParse lib (isoText lib t) = Some t"
  shows "now - t \<le> 60 * 60 * 1000"
  using assms by (auto simp: request_expired_def parseTimestamp_def Let_def PAIRING_PENDING_TTL_MS_def split: if_splits)

lemma run_cons:
  assumes "pairing_run lib C ((e, out) # log) w'"
  obtains w pid st where "pairing_run lib C log w" "may_happen C e" "perform lib e (view_of pid w) = (out, st)" "w' = after_of pid st w"
  using assms by (cases rule: pairing_run.cases) auto

text \<open>
  C27. A code stands for the one sender to whom it was given: when an approval succeeds, some earlier message made the code,
  for that sender and that account of the channel, not more than an hour before, and no approval has used it since; the
  code is compared without regard to case and blanks, and an account that is named must be the account of the request.
\<close>

theorem code_names_its_sender:
  assumes "pairing_run lib C ((Pe_approve call ch typed acct, Po_approved (Some (ident, r))) # log) w"
    "\<And>t. dateParse lib (isoText lib t) = Some t"
  shows "\<exists>path account t. resolvePairingPath ch = Inr path
    \<and> issued log path (js_upper (nullish (normalizeNullableString typed) '''')) = Some (ident, account, t)
    \<and> callNow call - t \<le> 60 * 60 * 1000
    \<and> (normalizePairingAccountId acct = '''' \<or> account = normalizePairingAccountId acct)"
proof -
  obtain w0 pid st where run: "pairing_run lib C log w0"
      "perform lib (Pe_approve call ch typed acct) (view_of pid w0) = (Po_approved (Some (ident, r)), st)"
    using run_cons [OF assms(1)] by metis
  let ?st = "view_of pid w0"
  from run(2) have res: "fst (approveChannelPairingCode lib call ch typed acct ?st) = Inr (Some (ident, r))"
    by (auto simp: perform_def outcome_of_def split: sum.splits)
  show ?thesis
  proof (cases rule: approve_request_cases [of lib call ch typed acct ?st])
    case quiet
    with res show ?thesis by simp
  next
    case (taken path i)
    from taken(5) [OF res] have r: "ident = requestId r" "r = requests_left lib call ?st path ! i" by simp_all
    have "r \<in> set (requests_left lib call ?st path)" using taken(2) r(2) by simp
    then have stored: "r \<in> set (readPairingRequests path ?st)" "\<not> request_expired lib r (callNow call)"
      by (auto simp: requests_left_def)
    with requests_hold_run [OF run(1), of path pid] obtain t where t: "createdAtR r = isoText lib t"
        "issued log path (codeR r) = Some (ident, resolvePairingRequestAccountId r, t)" and "code_ok (codeR r)"
      unfolding requests_hold_def requests_ok_def r(1) by blast
    then have "issued log path (js_upper (nullish (normalizeNullableString typed) '''')) = Some (ident, resolvePairingRequestAccountId r, t)"
      using taken(3) r(2) by (simp add: code_ok_upper)
    moreover have "normalizePairingAccountId acct = '''' \<or> resolvePairingRequestAccountId r = normalizePairingAccountId acct"
      using taken(4) r(2) by (simp add: requestMatchesAccountId_def split: if_splits)
    ultimately show ?thesis using taken(1) unexpired [OF stored(2) t(1) assms(2)] by blast
  qed
qed

lemma demo_dates: "dateParse demo_lib (isoText demo_lib t) = Some t"
  by (auto simp: demo_lib_def)

theorem code_names_its_sender_witness:
  "\<exists>path account t. resolvePairingPath ''telegram'' = Inr path
    \<and> issued (fst (demo_after 2)) path ''AAAAAAAA'' = Some (''tg:42'', account, t) \<and> 7 - t \<le> 60 * 60 * 1000"
proof -
  have code: "js_upper (nullish (normalizeNullableString (Some ''aaaaaaaa'')) '''') = ''AAAAAAAA''" by code_simp
  from code_names_its_sender [OF demo_run [unfolded demo_full_log(1)] demo_dates] show ?thesis
    unfolding code by (auto simp: demo_call_def)
qed

section \<open>Approving lets in\<close>

lemma code_request_left:
  assumes "pairing_run lib C ((Pe_upsert call ch ident acct meta, Po_code code True) # log) w"
  shows "\<exists>path r. resolvePairingPath ch = Inr path \<and> r \<in> set (readPairingRequests path (view_of pid w)) \<and> codeR r = code
    \<and> request_key r = (pairing_id ident, account_of acct) \<and> createdAtR r = isoText lib (callNow call)
    \<and> meta_account r = Some (account_of acct)"
proof -
  obtain w0 pid0 st where run: "pairing_run lib C log w0" "may_happen C (Pe_upsert call ch ident acct meta)"
      "perform lib (Pe_upsert call ch ident acct meta) (view_of pid0 w0) = (Po_code code True, st)" "w = after_of pid0 st w0"
    using run_cons [OF assms] .
  let ?st = "view_of pid0 w0"
  let ?res = "upsertChannelPairingRequest lib call ch ident acct meta ?st"
  from run(3) have res: "fst ?res = Inr (code, True)" "snd ?res = st"
    by (auto simp: perform_def outcome_of_def split: sum.splits)
  have ok: "all_requests_ok ?st" using requests_hold_run [OF run(1)] by (simp add: all_requests_ok_def requests_hold_def)
  have draws: "draws_ok call" using run(2) by (simp add: may_happen_def call_of_def)
  have view: "readPairingRequests q (view_of pid w) = readPairingRequests q st" for q
    by (simp add: run(4) readPairingRequests_def view_of_def after_of_def)
  show ?thesis
  proof (cases rule: upsert_cases [OF ok draws, of lib ch ident acct meta, consumes 0, case_names quiet renewed created])
    case (created path new)
    with res have "readPairingRequests path st = requests_left lib call ?st path @ [new]" "codeR new = code" by auto
    then show ?thesis using created(1-3,6) by (intro exI [of _ path] exI [of _ new]) (simp add: view)
  qed (use res in auto)
qed

lemma run_channel:
  assumes "pairing_run lib C (since @ (Pe_upsert call ch ident acct meta, out) # log) w"
  shows "ch \<in> C"
  using assms
proof (induction since arbitrary: w)
  case Nil
  then show ?case by (auto elim!: run_cons simp: may_happen_def channel_of_def)
next
  case (Cons eo since)
  obtain e o' where "eo = (e, o')" by force
  with Cons.prems obtain w0 where "pairing_run lib C (since @ (Pe_upsert call ch ident acct meta, out) # log) w0"
    by (auto elim: run_cons)
  then show ?case by (rule Cons.IH)
qed

lemma path_normal [simp]: "resolveAllowFromPath ch (normalizeOptionalString acct) = resolveAllowFromPath ch acct"
  unfolding resolveAllowFromPath_def normalizeOptionalString_idem by (rule refl)

lemma approve_present:
  assumes "all_requests_ok st" "resolvePairingPath ch = Inr path" "r \<in> set (readPairingRequests path st)"
    "\<not> request_expired lib r (callNow call)" "js_upper (nullish (normalizeNullableString typed) '''') = codeR r"
    "resolveAllowFromPath ch (meta_account r) = Inr p"
  shows "fst (approveChannelPairingCode lib call ch typed None st) = Inr (Some (requestId r, r))"
proof -
  have left: "r \<in> set (requests_left lib call st path)" using assms(3,4) by (simp add: requests_left_def)
  have ok: "requests_ok (requests_left lib call st path)" using left_ok [OF assms(1)] .
  then have codes: "js_upper (codeR q) = codeR q" "codeR q \<noteq> ''''" if "q \<in> set (requests_left lib call st path)" for q
    using that by (auto simp: requests_ok_def code_ok_upper code_ok_nonempty)
  have any: "normalizePairingAccountId None = ''''"
    by (simp add: normalizePairingAccountId_def normalizeLowercaseStringOrEmpty_def normalizeOptionalLowercaseString_def)
  show ?thesis
  proof (cases rule: approve_request_cases [of lib call ch typed None st])
    case quiet
    have "\<not> requestMatchesAccountId r (normalizePairingAccountId None)"
      using quiet(3) [OF assms(2) left] codes [OF left] assms(5) by simp
    then show ?thesis by (simp add: any requestMatchesAccountId_def)
  next
    case (taken path' i)
    have same: "path' = path" using taken(1) assms(2) by simp
    let ?q = "requests_left lib call st path ! i"
    have q: "?q \<in> set (requests_left lib call st path)" using taken(2) same by simp
    then have "codeR ?q = codeR r" using taken(3) codes [OF q] assms(5) same by simp
    then have "?q = r" using ok q left by (auto simp: requests_ok_def distinct_map dest: inj_onD)
    with taken(6) [of p] same assms(6) show ?thesis by simp
  qed
qed

text \<open>The request stays while the hour lasts and nobody tells its code.\<close>

definition told_code :: "PairingEvent \<Rightarrow> string \<Rightarrow> string \<Rightarrow> bool" where
  "told_code e ch code \<longleftrightarrow> (case e of
     Pe_approve _ ch' typed _ \<Rightarrow> resolvePairingPath ch' = resolvePairingPath ch \<and> js_upper (nullish (normalizeNullableString typed) '''') = code
   | _ \<Rightarrow> False)"

definition within_hour :: "int \<Rightarrow> PairingEvent \<Rightarrow> bool" where
  "within_hour t e \<longleftrightarrow> (case call_of e of None \<Rightarrow> True | Some call \<Rightarrow> callNow call - t \<le> 60 * 60 * 1000)"

definition same_request :: "PairingRequest \<Rightarrow> PairingRequest \<Rightarrow> bool" where
  "same_request r q \<longleftrightarrow> codeR q = codeR r \<and> request_key q = request_key r \<and> createdAtR q = createdAtR r \<and> meta_account q = meta_account r"

lemma request_kept:
  assumes "r \<in> set (readPairingRequests path st)" "only_expired_go lib call st st'" "\<not> request_expired lib r (callNow call)"
  shows "r \<in> set (readPairingRequests path st')"
proof -
  have "readPairingRequests path st' = readPairingRequests path st \<or> readPairingRequests path st' = requests_left lib call st path"
    using assms(2) by (simp add: only_expired_go_def)
  with assms(1,3) show ?thesis by (auto simp: requests_left_def)
qed

lemma request_survives:
  assumes ok: "all_requests_ok st" and draws: "\<And>call. call_of e = Some call \<Longrightarrow> draws_ok call"
    and path: "resolvePairingPath ch = Inr path" and r: "r \<in> set (readPairingRequests path st)" "meta_account r = Some (snd (request_key r))"
    and step: "perform lib e st = (out, st')" and untold: "\<not> told_code e ch (codeR r)"
    and fresh: "\<And>call. call_of e = Some call \<Longrightarrow> \<not> request_expired lib r (callNow call)"
  shows "\<exists>q \<in> set (readPairingRequests path st'). same_request r q"
proof -
  have kept: ?thesis if "r \<in> set (readPairingRequests path st')" using that by (auto simp: same_request_def)
  have left: "r \<in> set (requests_left lib call st path)" if "call_of e = Some call" for call
    using r(1) fresh [OF that] by (simp add: requests_left_def)
  show ?thesis
  proof (cases e)
    case (Pe_read ch' acct)
    with step r(1) reads_keep_requests [of readAllowFromStateForPath path lib ch' acct st] show ?thesis
      by (intro kept) (auto simp: perform_def outcome_of_def readChannelAllowFromStore_def)
  next
    case (Pe_read_sync ch' acct)
    with step r(1) reads_keep_requests [of readAllowFromStateForPathSync path lib ch' acct st] show ?thesis
      by (intro kept) (auto simp: perform_def outcome_of_def readChannelAllowFromStoreSync_def)
  next
    case (Pe_add call ch' entry acct)
    with step r(1) lists_keep_requests [of path lib call ch' entry acct add_entry st] show ?thesis
      by (intro kept) (auto simp: perform_def outcome_of_def addChannelAllowFromStoreEntry_def)
  next
    case (Pe_remove call ch' entry acct)
    with step r(1) lists_keep_requests [of path lib call ch' entry acct remove_entry st] show ?thesis
      by (intro kept) (auto simp: perform_def outcome_of_def removeChannelAllowFromStoreEntry_def)
  next
    case (Pe_list call ch' acct)
    with step request_kept [OF r(1) list_requests [OF ok, of lib call ch' acct]] fresh show ?thesis
      by (intro kept) (auto simp: perform_def outcome_of_def call_of_def)
  next
    case (Pe_upsert call ch' ident acct meta)
    then have C: "call_of e = Some call" by (simp add: call_of_def)
    let ?res = "upsertChannelPairingRequest lib call ch' ident acct meta st"
    from step Pe_upsert have st': "st' = snd ?res" by (auto simp: perform_def outcome_of_def)
    show ?thesis
    proof (cases rule: upsert_cases [OF ok draws [OF C], of lib ch' ident acct meta, consumes 0, case_names quiet renewed created])
      case quiet
      from request_kept [OF r(1) quiet(2) fresh [OF C]] show ?thesis by (intro kept) (simp add: st')
    next
      case (renewed p i u)
      show ?thesis
      proof (cases "p = path \<and> r = requests_left lib call st path ! i")
        case True
        with renewed r(2) have "same_request r u" by (simp add: same_request_def)
        moreover have "u \<in> set (readPairingRequests path st')" using True renewed(2,6) by (simp add: st' set_update_memI)
        ultimately show ?thesis by blast
      next
        case False
        have "r \<in> set (readPairingRequests path st')"
        proof (cases "p = path")
          case True
          from left [OF C] obtain j where j: "j < length (requests_left lib call st path)" "requests_left lib call st path ! j = r"
            by (auto simp: in_set_conv_nth)
          then have "i \<noteq> j" using True False by blast
          then have "(requests_left lib call st path)[i := u] ! j = r" using j by simp
          with j(1) True show ?thesis unfolding st' renewed(6) by (metis length_list_update nth_mem)
        qed (use renewed(6) r(1) st' in simp)
        then show ?thesis by (rule kept)
      qed
    next
      case (created p new)
      with r(1) left [OF C] show ?thesis by (intro kept) (auto simp: st')
    qed
  next
    case (Pe_approve call ch' typed acct)
    then have C: "call_of e = Some call" by (simp add: call_of_def)
    let ?res = "approveChannelPairingCode lib call ch' typed acct st"
    from step Pe_approve have st': "st' = snd ?res" by (auto simp: perform_def outcome_of_def)
    show ?thesis
    proof (cases rule: approve_request_cases [of lib call ch' typed acct st])
      case quiet
      from request_kept [OF r(1) quiet(2) fresh [OF C]] show ?thesis by (intro kept) (simp add: st')
    next
      case (taken p i)
      let ?left = "requests_left lib call st p"
      have "?left ! i \<in> set ?left" using taken(2) by simp
      then have "js_upper (codeR (?left ! i)) = codeR (?left ! i)"
        using left_ok [OF ok, of lib call p] by (auto simp: requests_ok_def code_ok_upper)
      then have other: "?left ! i \<noteq> r" if "p = path"
        using that untold taken(1,3) path by (auto simp: told_code_def Pe_approve)
      have "r \<in> set (readPairingRequests path st')"
      proof (cases "p = path")
        case True
        obtain xs x ys where split: "?left = xs @ x # ys" "take i ?left = xs" "drop (Suc i) ?left = ys" "?left ! i = x"
          using id_take_nth_drop [OF taken(2)] by blast
        have "readPairingRequests path st' = xs @ ys" using taken(7) True split(2,3) by (simp add: st')
        moreover have "r \<in> set (xs @ x # ys)" "r \<noteq> x" using left [OF C] other True split(1,4) by auto
        ultimately show ?thesis by simp
      qed (use taken(7) r(1) st' in simp)
      then show ?thesis by (rule kept)
    qed
  qed
qed

lemma code_request_stays:
  assumes "pairing_run lib C (since @ (Pe_upsert call ch ident acct meta, Po_code code True) # log) w"
    "\<forall>eo \<in> set since. within_hour (callNow call) (fst eo) \<and> \<not> told_code (fst eo) ch code"
    "parseTimestamp lib (isoText lib (callNow call)) = Some (callNow call)" "callNow call \<noteq> 0"
  shows "\<exists>path r. resolvePairingPath ch = Inr path \<and> r \<in> set (readPairingRequests path (view_of pid w)) \<and> codeR r = code
    \<and> request_key r = (pairing_id ident, account_of acct) \<and> createdAtR r = isoText lib (callNow call)
    \<and> meta_account r = Some (account_of acct)"
  using assms(1,2)
proof (induction since arbitrary: w pid)
  case Nil
  then show ?case using code_request_left [of lib C call ch ident acct meta code log w pid] by simp
next
  case (Cons eo since)
  obtain e out where eo: "eo = (e, out)" by force
  have calm: "\<forall>eo \<in> set since. within_hour (callNow call) (fst eo) \<and> \<not> told_code (fst eo) ch code" using Cons.prems(2) by simp
  obtain w0 pid0 st where run: "pairing_run lib C (since @ (Pe_upsert call ch ident acct meta, Po_code code True) # log) w0" "may_happen C e"
      "perform lib e (view_of pid0 w0) = (out, st)" "w = after_of pid0 st w0"
    using run_cons [OF Cons.prems(1) [unfolded eo append_Cons]] .
  obtain path r where r: "resolvePairingPath ch = Inr path" "r \<in> set (readPairingRequests path (view_of pid0 w0))" "codeR r = code"
      "request_key r = (pairing_id ident, account_of acct)" "createdAtR r = isoText lib (callNow call)" "meta_account r = Some (account_of acct)"
    using Cons.IH [OF run(1) calm, of pid0] by blast
  have ok: "all_requests_ok (view_of pid0 w0)" using requests_hold_run [OF run(1)] by (simp add: all_requests_ok_def requests_hold_def)
  have draws: "draws_ok c" if "call_of e = Some c" for c using run(2) that by (simp add: may_happen_def)
  have fresh: "\<not> request_expired lib r (callNow c)" if "call_of e = Some c" for c
    using that Cons.prems(2) assms(3,4) by (simp add: eo within_hour_def request_expired_def r(5) PAIRING_PENDING_TTL_MS_def)
  have "meta_account r = Some (snd (request_key r))" "\<not> told_code e ch (codeR r)" using r(3,4,6) Cons.prems(2) by (simp_all add: eo)
  from request_survives [OF ok draws r(1,2) this(1) run(3) this(2) fresh] obtain q where
    "q \<in> set (readPairingRequests path st)" "same_request r q" by blast
  moreover have "readPairingRequests path (view_of pid w) = readPairingRequests path st"
    by (simp add: run(4) readPairingRequests_def view_of_def after_of_def)
  ultimately show ?case using r by (auto simp: same_request_def)
qed

lemma reader_answers:
  assumes "store_reader reader" "resolveAllowFromPath ch (Some (resolveAllowFromAccountId acct)) = Inr p"
  shows "\<exists>xs. fst (reader lib ch acct st) = Inr xs"
proof -
  have "\<exists>q. resolveAllowFromPath ch None = Inr q" using assms(2) by (cases "safeChannelKey ch") (auto simp: default_path resolveAllowFromPath_def)
  with assms show ?thesis
    by (auto simp: store_reader_def readChannelAllowFromStore_def readChannelAllowFromStoreSync_def read_both_def Let_def split: prod.split)
qed

text \<open>
  C28. Approving works and lets in: when a sender wrote and got a code, and within the hour, whatever all processes did since
  but for telling that code, any process is told the code, in any case and with blanks around it, then the approval
  answers this sender, and every process that reads the list of that account in the files and memories that it leaves finds
  the sender. This supposes, as the reading does, that channels in use do not share a file, that the senders written are
  read back as they are, and that writing changed the stamps of files or the reader remembers nothing; that the clock of the
  message can be printed and read back and is not the epoch; that the account can be the name of a file; and that the form of
  the channel leaves something of the sender.
\<close>

theorem approving_lets_in:
  assumes "pairing_run lib C (since @ (Pe_upsert call ch ident acct meta, Po_code code True) # log) w"
    "\<forall>eo \<in> set since. within_hour (callNow call) (fst eo) \<and> \<not> told_code (fst eo) ch code"
    "parseTimestamp lib (isoText lib (callNow call)) = Some (callNow call)" "callNow call \<noteq> 0"
    "callNow call' - callNow call \<le> 60 * 60 * 1000" "draws_ok call'" "js_upper (nullish (normalizeNullableString typed) '''') = code"
    "resolveAllowFromPath ch (Some (resolveAllowFromAccountId (Some acct))) = Inr p" "channels_ok C"
    "settled lib (since @ (Pe_upsert call ch ident acct meta, Po_code code True) # log)"
    "entry_settled lib ch (Ae_text (pairing_id ident))" "normalizeAllowFromInput lib ch (Ae_text (pairing_id ident)) \<noteq> ''''"
  shows "\<exists>r st. perform lib (Pe_approve call' ch typed None) (view_of pid w) = (Po_approved (Some (pairing_id ident, r)), st)
    \<and> (\<forall>pid' reader. store_reader reader
        \<and> (processCache (after_of pid st w) pid' = [] \<or> stamps_differ ((Pe_approve call' ch typed None, Po_approved (Some (pairing_id ident, r)))
             # since @ (Pe_upsert call ch ident acct meta, Po_code code True) # log))
        \<longrightarrow> (\<exists>xs. fst (reader lib ch (Some acct) (view_of pid' (after_of pid st w))) = Inr xs
              \<and> normalizeAllowFromInput lib ch (Ae_text (pairing_id ident)) \<in> set xs))"
proof -
  let ?st = "view_of pid w" and ?e = "Pe_approve call' ch typed None" and ?x = "normalizeAllowFromInput lib ch (Ae_text (pairing_id ident))"
  obtain path r where r: "resolvePairingPath ch = Inr path" "r \<in> set (readPairingRequests path ?st)" "codeR r = code"
      "request_key r = (pairing_id ident, account_of acct)" "createdAtR r = isoText lib (callNow call)" "meta_account r = Some (account_of acct)"
    using code_request_stays [OF assms(1-4), of pid] by blast
  have acct: "resolveAllowFromAccountId (Some acct) = account_of acct" by (simp add: resolveAllowFromAccountId_def account_of_def)
  have ok: "all_requests_ok ?st" using requests_hold_run [OF assms(1)] by (simp add: all_requests_ok_def requests_hold_def)
  have fresh: "\<not> request_expired lib r (callNow call')"
    using assms(3-5) by (simp add: request_expired_def r(5) PAIRING_PENDING_TTL_MS_def)
  have list: "resolveAllowFromPath ch (meta_account r) = Inr p" using assms(8) by (simp add: r(6) acct)
  let ?out = "Po_approved (Some (pairing_id ident, r))"
  obtain st where step: "perform lib ?e ?st = (?out, st)"
    using approve_present [OF ok r(1,2) fresh _ list] assms(7) r(3,4) by (simp add: perform_def outcome_of_def request_key_def)
  have C: "ch \<in> C" by (rule run_channel [OF assms(1)])
  have run: "pairing_run lib C ((?e, ?out) # since @ (Pe_upsert call ch ident acct meta, Po_code code True) # log) (after_of pid st w)"
    by (rule run_step [OF assms(1) _ step]) (use C assms(6) in \<open>simp add: may_happen_def channel_of_def call_of_def\<close>)
  have settled: "settled lib ((?e, ?out) # since @ (Pe_upsert call ch ident acct meta, Po_code code True) # log)"
    using assms(10,11) by (simp add: settled_def settles_def)
  have "grants lib (?e, ?out) p ?x" using assms(12) list by (simp add: grants_def)
  then have paired: "paired lib ((?e, ?out) # log') ch (Some acct) ?x" for log' using assms(8) by (auto simp: paired_def)
  have "\<exists>xs. fst (reader lib ch (Some acct) (view_of pid' (after_of pid st w))) = Inr xs \<and> ?x \<in> set xs"
    if reader: "store_reader reader" "processCache (after_of pid st w) pid' = []
      \<or> stamps_differ ((?e, ?out) # since @ (Pe_upsert call ch ident acct meta, Po_code code True) # log)" for pid' reader
  proof -
    obtain xs where xs: "fst (reader lib ch (Some acct) (view_of pid' (after_of pid st w))) = Inr xs"
      using reader_answers [OF reader(1) assms(8)] by blast
    have "stamps_differ ((?e, ?out) # since @ (Pe_upsert call ch ident acct meta, Po_code code True) # log) \<or> processCache (after_of pid st w) pid' = []"
      using reader(2) by blast
    from reads_paired [OF run assms(9) settled this C reader(1) xs] xs paired show ?thesis by blast
  qed
  with step show ?thesis by blast
qed

lemma demo_calm_hour:
  "\<forall>eo \<in> set [(Pe_upsert (demo_call 6 1) ''signal'' (Ae_text ''43'') ''work'' None, Po_code ''BBBBBBBB'' True)].
     within_hour (callNow (demo_call 5 0)) (fst eo) \<and> \<not> told_code (fst eo) ''telegram'' ''AAAAAAAA''"
  by (simp add: within_hour_def told_code_def call_of_def demo_call_def)

lemma demo_lists:
  "parseTimestamp demo_lib (isoText demo_lib (callNow (demo_call 5 0))) = Some (callNow (demo_call 5 0))" "callNow (demo_call 5 0) \<noteq> 0"
  "callNow (demo_call 3600005 0) - callNow (demo_call 5 0) \<le> 60 * 60 * 1000" "draws_ok (demo_call 3600005 0)"
  "js_upper (nullish (normalizeNullableString (Some '' aaaaAAAA '')) '''') = ''AAAAAAAA''"
  "resolveAllowFromPath ''telegram'' (Some (resolveAllowFromAccountId (Some ''default''))) = Inr ''telegram-default-allowFrom.json''"
  "entry_settled demo_lib ''telegram'' (Ae_text (pairing_id (Ae_text ''tg:42'')))"
  "normalizeAllowFromInput demo_lib ''telegram'' (Ae_text (pairing_id (Ae_text ''tg:42''))) = ''42''"
  "processCache (snd (demo_after 2)) 5 = []"
  by code_simp+

lemma demo_two: "pairing_run demo_lib demo_channels ([(Pe_upsert (demo_call 6 1) ''signal'' (Ae_text ''43'') ''work'' None, Po_code ''BBBBBBBB'' True)]
    @ (Pe_upsert (demo_call 5 0) ''telegram'' (Ae_text ''tg:42'') ''default'' None, Po_code ''AAAAAAAA'' True) # []) (snd (demo_after 2))"
  using demo_run_upto [of 2] by (simp add: demo_full_log(2,3) del: One_nat_def)

lemma demo_two_settled: "settled demo_lib ([(Pe_upsert (demo_call 6 1) ''signal'' (Ae_text ''43'') ''work'' None, Po_code ''BBBBBBBB'' True)]
    @ (Pe_upsert (demo_call 5 0) ''telegram'' (Ae_text ''tg:42'') ''default'' None, Po_code ''AAAAAAAA'' True) # [])"
  by (simp add: settled_def settles_def)

theorem approving_lets_in_witness:
  "\<exists>r st xs. perform demo_lib (Pe_approve (demo_call 3600005 0) ''telegram'' (Some '' aaaaAAAA '') None) (view_of 1 (snd (demo_after 2)))
       = (Po_approved (Some (pairing_id (Ae_text ''tg:42''), r)), st)
     \<and> fst (readChannelAllowFromStore demo_lib ''telegram'' (Some ''default'') (view_of 5 (after_of 1 st (snd (demo_after 2))))) = Inr xs
     \<and> ''42'' \<in> set xs"
proof -
  have "''42'' \<noteq> ''''" by simp
  from approving_lets_in [OF demo_two demo_calm_hour demo_lists(1-6) demo_channels_ok demo_two_settled demo_lists(7),
      unfolded demo_lists(8), OF this, of 1] obtain r st where
    step: "perform demo_lib (Pe_approve (demo_call 3600005 0) ''telegram'' (Some '' aaaaAAAA '') None) (view_of 1 (snd (demo_after 2)))
       = (Po_approved (Some (pairing_id (Ae_text ''tg:42''), r)), st)" and
    reads: "\<And>pid' reader. store_reader reader \<Longrightarrow> processCache (after_of 1 st (snd (demo_after 2))) pid' = [] \<Longrightarrow>
       \<exists>xs. fst (reader demo_lib ''telegram'' (Some ''default'') (view_of pid' (after_of 1 st (snd (demo_after 2))))) = Inr xs \<and> ''42'' \<in> set xs"
    by metis
  have "processCache (after_of 1 st (snd (demo_after 2))) 5 = []" using demo_lists(9) by (simp add: after_of_def)
  from reads [OF demo_known(2) this] step show ?thesis by blast
qed

end
