(* ===== verification/RoutingProps.thy ===== *)
theory RoutingProps
  imports SessionKeyProps
begin

text \<open>
  What routing promises: the indexes over the bindings and the three caches only make it faster. Each route is
  the one that the bindings name, read in the order of the configuration, the most specific first.
\<close>

section \<open>The reference: bindings read one by one\<close>

definition binding_channel :: "AgentBinding \<Rightarrow> string" where
  "binding_channel b = normalizeToken (Option.bind (bindingMatch b) matchChannel)"

definition binding_rule :: "AgentBinding \<Rightarrow> NormalizedBindingMatch" where
  "binding_rule b = normalizeBindingMatch (bindingMatch b)"

text \<open>The bindings of a channel that are for an account: those for every account, and those for this one.\<close>

definition rule_for_account :: "NormalizedBindingMatch \<Rightarrow> string \<Rightarrow> bool" where
  "rule_for_account m acct \<longleftrightarrow> accountPattern m = ''*'' \<or> resolveAccountPatternKey (accountPattern m) = acct"

definition binding_concerns :: "string \<Rightarrow> string \<Rightarrow> AgentBinding \<Rightarrow> bool" where
  "binding_concerns channel acct b \<longleftrightarrow> channel \<noteq> '''' \<and> binding_channel b = channel \<and> rule_for_account (binding_rule b) acct"

text \<open>How specific a binding is: what it asks of the conversation, whatever else it asks.\<close>

definition specificity :: "NormalizedBindingMatch \<Rightarrow> MatchedBy" where
  "specificity m = (case peerConstraint m of Pc_valid _ _ \<Rightarrow> Mb_peer | Pc_wildcard_kind _ \<Rightarrow> Mb_peer_wildcard
     | _ \<Rightarrow> if guildConstraint m \<noteq> None then if roleConstraint m \<noteq> None then Mb_guild_roles else Mb_guild
         else if teamConstraint m \<noteq> None then Mb_team
         else if accountPattern m \<noteq> ''*'' then Mb_account else Mb_channel)"

text \<open>The levels, the most specific first: which bindings, for which peer, and what the route is said to match.\<close>

definition parent_scope :: "RouteQuery \<Rightarrow> RoutePeer option" where
  "parent_scope q = (case qParentPeer q of Some p \<Rightarrow> if peerId p \<noteq> '''' then Some p else None | None \<Rightarrow> None)"

definition levels :: "RouteQuery \<Rightarrow> (MatchedBy \<times> RoutePeer option \<times> MatchedBy) list" where
  "levels q = [(Mb_peer, qPeer q, Mb_peer), (Mb_peer, parent_scope q, Mb_peer_parent),
     (Mb_peer_wildcard, qPeer q, Mb_peer_wildcard), (Mb_guild_roles, qPeer q, Mb_guild_roles), (Mb_guild, qPeer q, Mb_guild),
     (Mb_team, qPeer q, Mb_team), (Mb_account, qPeer q, Mb_account), (Mb_channel, qPeer q, Mb_channel)]"

text \<open>The first binding in source order of the first level that has one.\<close>

definition rule_at :: "RouteQuery \<Rightarrow> MatchedBy \<Rightarrow> RoutePeer option \<Rightarrow> NormalizedBindingMatch \<Rightarrow> bool" where
  "rule_at q level peer m \<longleftrightarrow> specificity m = level \<and> matchesBindingScope m (query_scope q peer)"

definition most_specific :: "RouteQuery \<Rightarrow> AgentBinding list \<Rightarrow> (string \<times> MatchedBy) option" where
  "most_specific q bs = (case [(bindingAgentId b, by). (level, peer, by) \<leftarrow> levels q, b \<leftarrow> bs,
       binding_concerns (qChannel q) (qAccountId q) b \<and> rule_at q level peer (binding_rule b)] of
     [] \<Rightarrow> None | r # _ \<Rightarrow> Some r)"

text \<open>The agent of that name, when the configuration has one or lists none; otherwise the default agent.\<close>

definition configured_ids :: "OpenClawConfig \<Rightarrow> string list" where
  "configured_ids cfg = [normalizeAgentId (Some (js_trim i)). Some i \<leftarrow> map entryId (listAgentEntries cfg), js_trim i \<noteq> '''']"

definition agent_named :: "OpenClawConfig \<Rightarrow> string \<Rightarrow> string" where
  "agent_named cfg aid =
     (let n = normalizeAgentId (Some (js_trim aid))
      in if js_trim aid \<noteq> '''' \<and> (configured_ids cfg = [] \<or> n \<in> set (configured_ids cfg)) then n
         else sanitizeAgentId (Some (resolveDefaultAgentId cfg)))"

definition reference_route :: "ResolveAgentRouteInput \<Rightarrow> ResolvedAgentRoute" where
  "reference_route input =
     (let cfg = inCfg input; q = route_query input;
          (aid, by) = nullish (most_specific q (listRouteBindings cfg)) (resolveDefaultAgentId cfg, Mb_default)
      in route_to cfg q (agent_named cfg aid) by)"

section \<open>Lists under keys\<close>

lemma find_filter: "(\<And>x. x \<in> set xs \<Longrightarrow> P x \<Longrightarrow> Q x) \<Longrightarrow> List.find P (filter Q xs) = List.find P xs"
  by (induction xs) auto

lemma find_map: "List.find P (map f xs) = map_option f (List.find (P \<circ> f) xs)"
  by (induction xs) auto

lemma find_cong_set: "(\<And>x. x \<in> set xs \<Longrightarrow> P x = Q x) \<Longrightarrow> List.find P xs = List.find Q xs"
  by (induction xs) auto

lemma find_none: "(\<And>x. x \<in> set xs \<Longrightarrow> \<not> P x) \<Longrightarrow> List.find P xs = None"
  by (induction xs) auto

lemma find_filter_conj: "List.find P (filter Q xs) = List.find (\<lambda>x. Q x \<and> P x) xs"
  by (induction xs) auto

lemma push_to_look:
  "nullish (map_of (push_to k v m) k') [] = nullish (map_of m k') [] @ (if k' = k then [v] else [])"
  by (simp add: push_to_def update_conv')

lemma pushToIndexMap_look:
  "nullish (map_of (pushToIndexMap k v m) k') []
     = nullish (map_of m k') [] @ (if truthy k \<and> k = Some k' then [v] else [])"
  by (auto simp: pushToIndexMap_def push_to_look truthy_def split: option.splits)

section \<open>Bindings by channel and account\<close>

fun evaluate_from :: "nat \<Rightarrow> AgentBinding list \<Rightarrow> EvaluatedBinding list" where
  "evaluate_from n [] = []"
| "evaluate_from n (b # bs) =
     (if binding_channel b = '''' then evaluate_from n bs
      else \<lparr>evBinding = b, evMatch = binding_rule b, evOrder = n\<rparr> # evaluate_from (Suc n) bs)"

lemma evaluate_from_later: "e \<in> set (evaluate_from n bs) \<Longrightarrow> n \<le> evOrder e"
  by (induction n bs rule: evaluate_from.induct) (auto split: if_splits)

lemma evaluate_from_rule: "e \<in> set (evaluate_from n bs) \<Longrightarrow> evMatch e = binding_rule (evBinding e)"
  by (induction n bs rule: evaluate_from.induct) (auto split: if_splits)

lemma evaluate_from_sorted: "sorted_wrt (\<lambda>x y. evOrder x < evOrder y) (evaluate_from n bs)"
  by (induction n bs rule: evaluate_from.induct) (auto dest: evaluate_from_later)

lemma evaluate_from_bindings:
  "map evBinding (evaluate_from n bs) = filter (\<lambda>b. binding_channel b \<noteq> '''') bs"
  by (induction n bs rule: evaluate_from.induct) auto

definition scoped_at :: "(string \<times> EvaluatedBindingsByChannel) list \<Rightarrow> string \<Rightarrow> string \<Rightarrow> EvaluatedBinding list" where
  "scoped_at m channel acct = (case map_of m channel of Some b \<Rightarrow> nullish (map_of (byAccountB b) acct) [] | None \<Rightarrow> [])"

definition any_at :: "(string \<times> EvaluatedBindingsByChannel) list \<Rightarrow> string \<Rightarrow> EvaluatedBinding list" where
  "any_at m channel = (case map_of m channel of Some b \<Rightarrow> byAnyAccountB b | None \<Rightarrow> [])"

definition is_scoped :: "string \<Rightarrow> string \<Rightarrow> EvaluatedBinding \<Rightarrow> bool" where
  "is_scoped channel acct e \<longleftrightarrow> binding_channel (evBinding e) = channel \<and> accountPattern (evMatch e) \<noteq> ''*''
     \<and> resolveAccountPatternKey (accountPattern (evMatch e)) = acct"

definition is_any :: "string \<Rightarrow> EvaluatedBinding \<Rightarrow> bool" where
  "is_any channel e \<longleftrightarrow> binding_channel (evBinding e) = channel \<and> accountPattern (evMatch e) = ''*''"

lemma file_binding_step:
  assumes "binding_channel b \<noteq> ''''" and e: "e = \<lparr>evBinding = b, evMatch = binding_rule b, evOrder = n\<rparr>"
  shows "\<exists>m'. file_binding b (n, m) = (Suc n, m')
     \<and> scoped_at m' channel acct = scoped_at m channel acct @ (if is_scoped channel acct e then [e] else [])
     \<and> any_at m' channel = any_at m channel @ (if is_any channel e then [e] else [])"
  using assms(1)
  by (auto simp: file_binding_def Let_def e binding_channel_def binding_rule_def scoped_at_def any_at_def
      is_scoped_def is_any_def update_conv' push_to_look split: option.splits)

lemma file_binding_skip: "binding_channel b = '''' \<Longrightarrow> file_binding b acc = acc"
  by (simp add: file_binding_def binding_channel_def Let_def split: prod.splits)

lemma file_bindings:
  "scoped_at (snd (fold file_binding bs (n, m))) channel acct
     = scoped_at m channel acct @ filter (is_scoped channel acct) (evaluate_from n bs)
   \<and> any_at (snd (fold file_binding bs (n, m))) channel = any_at m channel @ filter (is_any channel) (evaluate_from n bs)"
proof (induction bs arbitrary: n m)
  case (Cons b bs)
  show ?case
  proof (cases "binding_channel b = ''''")
    case False
    from file_binding_step [OF this refl, of n m channel acct] obtain m' where "file_binding b (n, m) = (Suc n, m')"
      "scoped_at m' channel acct = scoped_at m channel acct
        @ (if is_scoped channel acct \<lparr>evBinding = b, evMatch = binding_rule b, evOrder = n\<rparr>
           then [\<lparr>evBinding = b, evMatch = binding_rule b, evOrder = n\<rparr>] else [])"
      "any_at m' channel = any_at m channel @ (if is_any channel \<lparr>evBinding = b, evMatch = binding_rule b, evOrder = n\<rparr>
           then [\<lparr>evBinding = b, evMatch = binding_rule b, evOrder = n\<rparr>] else [])" by blast
    with Cons [of "Suc n" m'] False show ?thesis by simp
  qed (use Cons in \<open>simp add: file_binding_skip\<close>)
qed simp

lemma merge_Nil: "mergeEvaluatedBindingsInSourceOrder xs [] = xs"
  by (cases xs) auto

lemma merge_smaller:
  "\<forall>y \<in> set ys. evOrder x < evOrder y \<Longrightarrow>
     mergeEvaluatedBindingsInSourceOrder (x # xs) ys = x # mergeEvaluatedBindingsInSourceOrder xs ys"
  by (cases ys) (auto simp: merge_Nil less_imp_le)

lemma merge_smaller_right:
  "\<forall>x \<in> set xs. evOrder y < evOrder x \<Longrightarrow>
     mergeEvaluatedBindingsInSourceOrder xs (y # ys) = y # mergeEvaluatedBindingsInSourceOrder xs ys"
  by (cases xs) (auto simp: not_le)

lemma merge_filters:
  assumes "sorted_wrt (\<lambda>x y. evOrder x < evOrder y) xs" "\<And>x. \<not> (P x \<and> Q x)"
  shows "mergeEvaluatedBindingsInSourceOrder (filter P xs) (filter Q xs) = filter (\<lambda>x. P x \<or> Q x) xs"
  using assms(1)
proof (induction xs)
  case (Cons x xs)
  then show ?case using assms(2) [of x] by (auto simp: merge_smaller merge_smaller_right)
qed simp

lemma channel_account_filter:
  assumes "channel \<noteq> ''''"
  shows "channel_account_bindings (buildEvaluatedBindingsByChannel cfg) channel acct
     = filter (\<lambda>e. binding_concerns channel acct (evBinding e)) (evaluate_from 0 (listRouteBindings cfg))"
proof -
  have eq: "is_scoped channel acct e \<or> is_any channel e \<longleftrightarrow> binding_concerns channel acct (evBinding e)"
    if "e \<in> set (evaluate_from 0 (listRouteBindings cfg))" for e
    using assms by (auto simp: is_scoped_def is_any_def binding_concerns_def rule_for_account_def
        evaluate_from_rule [OF that])
  have "channel_account_bindings (buildEvaluatedBindingsByChannel cfg) channel acct
      = mergeEvaluatedBindingsInSourceOrder (scoped_at (buildEvaluatedBindingsByChannel cfg) channel acct)
          (any_at (buildEvaluatedBindingsByChannel cfg) channel)"
    by (simp add: channel_account_bindings_def scoped_at_def any_at_def Let_def)
  also have "\<dots> = filter (\<lambda>e. is_scoped channel acct e \<or> is_any channel e) (evaluate_from 0 (listRouteBindings cfg))"
    using file_bindings [of "listRouteBindings cfg" 0 "[]" channel acct]
    by (simp add: buildEvaluatedBindingsByChannel_def scoped_at_def any_at_def
        merge_filters [OF evaluate_from_sorted] is_scoped_def is_any_def)
  finally show ?thesis using eq by (simp cong: filter_cong)
qed

lemma channel_account_none:
  "channel_account_bindings (buildEvaluatedBindingsByChannel cfg) '''' acct = []"
proof -
  have "binding_channel (evBinding e) \<noteq> ''''" if "e \<in> set (evaluate_from n bs)" for e n bs
    using that by (induction n bs rule: evaluate_from.induct) (auto split: if_splits)
  then have "filter (is_scoped '''' acct) (evaluate_from 0 bs) = []" "filter (is_any '''') (evaluate_from 0 bs) = []" for bs
    by (auto simp: filter_empty_conv is_scoped_def is_any_def)
  then show ?thesis
    using file_bindings [of "listRouteBindings cfg" 0 "[]" "''''" acct]
    by (simp add: channel_account_bindings_def scoped_at_def any_at_def Let_def buildEvaluatedBindingsByChannel_def)
qed

section \<open>The index\<close>

definition filed_under_peer :: "string \<Rightarrow> EvaluatedBinding \<Rightarrow> bool" where
  "filed_under_peer key e \<longleftrightarrow> (case peerConstraint (evMatch e) of Pc_valid kind ident \<Rightarrow> key \<in> set (peerLookupKeys kind ident) | _ \<Rightarrow> False)"

lemma peer_key_distinct: "distinct (peerLookupKeys kind ident)"
  by (simp add: peerLookupKeys_def peer_key_def chat_text_def split: ChatType.splits)

lemma peer_key_nonempty: "key \<in> set (peerLookupKeys kind ident) \<Longrightarrow> key \<noteq> ''''"
  by (auto simp: peerLookupKeys_def peer_key_def split: ChatType.splits)

lemma fold_push_keys:
  "distinct keys \<Longrightarrow> '''' \<notin> set keys \<Longrightarrow>
     nullish (map_of (fold (\<lambda>key. pushToIndexMap (Some key) b) keys m) k) []
       = nullish (map_of m k) [] @ (if k \<in> set keys then [b] else [])"
  by (induction keys arbitrary: m) (auto simp: pushToIndexMap_look)

lemma fold_push_peer:
  "nullish (map_of (fold (\<lambda>key. pushToIndexMap (Some key) b) (peerLookupKeys kind ident) m) k) []
     = nullish (map_of m k) [] @ (if k \<in> set (peerLookupKeys kind ident) then [b] else [])"
  by (rule fold_push_keys [OF peer_key_distinct]) (use peer_key_nonempty in blast)

text \<open>What one binding adds to each part of the index.\<close>

lemma index_binding_parts:
  "nullish (map_of (byPeerI (index_binding b ix)) k) [] = nullish (map_of (byPeerI ix) k) [] @ (if filed_under_peer k b then [b] else [])"
  "byPeerWildcardI (index_binding b ix) = byPeerWildcardI ix @ (if specificity (evMatch b) = Mb_peer_wildcard then [b] else [])"
  "nullish (map_of (byGuildWithRolesI (index_binding b ix)) k) [] = nullish (map_of (byGuildWithRolesI ix) k) []
     @ (if specificity (evMatch b) = Mb_guild_roles \<and> k \<noteq> '''' \<and> guildConstraint (evMatch b) = Some k then [b] else [])"
  "nullish (map_of (byGuildI (index_binding b ix)) k) [] = nullish (map_of (byGuildI ix) k) []
     @ (if specificity (evMatch b) = Mb_guild \<and> k \<noteq> '''' \<and> guildConstraint (evMatch b) = Some k then [b] else [])"
  "nullish (map_of (byTeamI (index_binding b ix)) k) [] = nullish (map_of (byTeamI ix) k) []
     @ (if specificity (evMatch b) = Mb_team \<and> k \<noteq> '''' \<and> teamConstraint (evMatch b) = Some k then [b] else [])"
  "byAccountI (index_binding b ix) = byAccountI ix @ (if specificity (evMatch b) = Mb_account then [b] else [])"
  "byChannelI (index_binding b ix) = byChannelI ix @ (if specificity (evMatch b) = Mb_channel then [b] else [])"
  by (auto simp: index_binding_def Let_def filed_under_peer_def specificity_def pushToIndexMap_look truthy_def
      fold_push_peer split: NormalizedPeerConstraint.splits)

lemma index_parts_aux:
  "nullish (map_of (byPeerI (fold index_binding bs ix)) k) [] = nullish (map_of (byPeerI ix) k) [] @ filter (filed_under_peer k) bs"
  "byPeerWildcardI (fold index_binding bs ix) = byPeerWildcardI ix @ filter (\<lambda>b. specificity (evMatch b) = Mb_peer_wildcard) bs"
  "nullish (map_of (byGuildWithRolesI (fold index_binding bs ix)) k) [] = nullish (map_of (byGuildWithRolesI ix) k) []
     @ filter (\<lambda>b. specificity (evMatch b) = Mb_guild_roles \<and> k \<noteq> '''' \<and> guildConstraint (evMatch b) = Some k) bs"
  "nullish (map_of (byGuildI (fold index_binding bs ix)) k) [] = nullish (map_of (byGuildI ix) k) []
     @ filter (\<lambda>b. specificity (evMatch b) = Mb_guild \<and> k \<noteq> '''' \<and> guildConstraint (evMatch b) = Some k) bs"
  "nullish (map_of (byTeamI (fold index_binding bs ix)) k) [] = nullish (map_of (byTeamI ix) k) []
     @ filter (\<lambda>b. specificity (evMatch b) = Mb_team \<and> k \<noteq> '''' \<and> teamConstraint (evMatch b) = Some k) bs"
  "byAccountI (fold index_binding bs ix) = byAccountI ix @ filter (\<lambda>b. specificity (evMatch b) = Mb_account) bs"
  "byChannelI (fold index_binding bs ix) = byChannelI ix @ filter (\<lambda>b. specificity (evMatch b) = Mb_channel) bs"
  by (induction bs arbitrary: ix; simp add: index_binding_parts)+

lemma index_parts:
  "nullish (map_of (byPeerI (buildEvaluatedBindingsIndex bs)) k) [] = filter (filed_under_peer k) bs"
  "byPeerWildcardI (buildEvaluatedBindingsIndex bs) = filter (\<lambda>b. specificity (evMatch b) = Mb_peer_wildcard) bs"
  "nullish (map_of (byGuildWithRolesI (buildEvaluatedBindingsIndex bs)) k) []
     = filter (\<lambda>b. specificity (evMatch b) = Mb_guild_roles \<and> k \<noteq> '''' \<and> guildConstraint (evMatch b) = Some k) bs"
  "nullish (map_of (byGuildI (buildEvaluatedBindingsIndex bs)) k) []
     = filter (\<lambda>b. specificity (evMatch b) = Mb_guild \<and> k \<noteq> '''' \<and> guildConstraint (evMatch b) = Some k) bs"
  "nullish (map_of (byTeamI (buildEvaluatedBindingsIndex bs)) k) []
     = filter (\<lambda>b. specificity (evMatch b) = Mb_team \<and> k \<noteq> '''' \<and> teamConstraint (evMatch b) = Some k) bs"
  "byAccountI (buildEvaluatedBindingsIndex bs) = filter (\<lambda>b. specificity (evMatch b) = Mb_account) bs"
  "byChannelI (buildEvaluatedBindingsIndex bs) = filter (\<lambda>b. specificity (evMatch b) = Mb_channel) bs"
  by (simp_all add: buildEvaluatedBindingsIndex_def index_parts_aux empty_index_def)

text \<open>The bindings collected for a peer are those filed under its first key: the second key finds the same ones.\<close>

lemma collect_new:
  "distinct (map evOrder (out @ xs)) \<Longrightarrow>
     fold (\<lambda>b out. if evOrder b \<in> evOrder ` set out then out else out @ [b]) xs out = out @ xs"
  by (induction xs arbitrary: out) auto

lemma collect_seen:
  "set xs \<subseteq> set out \<Longrightarrow> fold (\<lambda>b out. if evOrder b \<in> evOrder ` set out then out else out @ [b]) xs out = out"
  by (induction xs) auto

lemma sorted_distinct_orders: "sorted_wrt (\<lambda>x y. evOrder x < evOrder y) xs \<Longrightarrow> distinct (map evOrder xs)"
  by (induction xs) auto

lemma peer_keys_together:
  "filed_under_peer (peer_key Ct_group ident) e = filed_under_peer (peer_key Ct_channel ident) e"
  by (auto simp: filed_under_peer_def peerLookupKeys_def peer_key_def chat_text_def split: NormalizedPeerConstraint.splits ChatType.splits)

lemma filed_under_peer_iff:
  "filed_under_peer (peer_key kind ident) e \<longleftrightarrow>
     (\<exists>k. peerConstraint (evMatch e) = Pc_valid k ident \<and> peerKindMatches k kind)"
  by (cases "peerConstraint (evMatch e)")
    (auto simp: filed_under_peer_def peerLookupKeys_def peer_key_def chat_text_def peerKindMatches_def Let_def
      split: ChatType.splits)

lemma collect_peer:
  assumes "sorted_wrt (\<lambda>x y. evOrder x < evOrder y) bs"
  shows "collectPeerIndexedBindings (buildEvaluatedBindingsIndex bs) (Some p)
    = filter (filed_under_peer (peer_key (peerKind p) (peerId p))) bs"
proof -
  have "distinct (map evOrder (filter P bs))" for P
    using sorted_distinct_orders [OF assms] by (rule distinct_map_filter)
  then show ?thesis
    by (cases "peerKind p")
      (simp_all add: collectPeerIndexedBindings_def index_parts peerLookupKeys_def collect_new collect_seen peer_keys_together)
qed

section \<open>Tiers\<close>

definition tier_find :: "RouteQuery \<Rightarrow> RouteTier \<Rightarrow> (string \<times> MatchedBy) option" where
  "tier_find q tier = (if tierEnabled tier
     then map_option (\<lambda>c. (bindingAgentId (evBinding c), tierMatchedBy tier))
       (List.find (\<lambda>c. tierPredicate tier c \<and> matchesBindingScope (evMatch c) (query_scope q (tierPeer tier))) (tierCandidates tier))
     else None)"

definition or_else :: "'v option \<Rightarrow> 'v option \<Rightarrow> 'v option" where
  "or_else a b = (case a of Some x \<Rightarrow> Some x | None \<Rightarrow> b)"

lemma first_tier_Cons: "first_tier q (tier # tiers) = or_else (tier_find q tier) (first_tier q tiers)"
  by (simp add: tier_find_def or_else_def split: option.splits)

definition head_of :: "'v list \<Rightarrow> 'v option" where
  "head_of xs = (case xs of [] \<Rightarrow> None | x # _ \<Rightarrow> Some x)"

lemma head_of_append: "head_of (xs @ ys) = or_else (head_of xs) (head_of ys)"
  by (auto simp: head_of_def or_else_def split: list.splits)

lemma head_of_filtered: "head_of (concat (map (\<lambda>b. if P b then [f b] else []) bs)) = map_option f (List.find P bs)"
  by (induction bs) (auto simp: head_of_def)

text \<open>Finding a binding among those that concern an account, each read once.\<close>

definition level_find :: "RouteQuery \<Rightarrow> EvaluatedBinding list \<Rightarrow> MatchedBy \<Rightarrow> RoutePeer option \<Rightarrow> MatchedBy \<Rightarrow> (string \<times> MatchedBy) option" where
  "level_find q es level peer by =
     map_option (\<lambda>c. (bindingAgentId (evBinding c), by)) (List.find (\<lambda>c. rule_at q level peer (evMatch c)) es)"

lemma find_among_bindings:
  assumes "channel \<noteq> ''''"
  shows "List.find (\<lambda>b. binding_concerns channel acct b \<and> R (binding_rule b)) bs
    = map_option evBinding (List.find (\<lambda>e. R (evMatch e)) (filter (\<lambda>e. binding_concerns channel acct (evBinding e)) (evaluate_from 0 bs)))"
    (is "?l = _")
proof -
  have "?l = List.find (\<lambda>b. binding_concerns channel acct b \<and> R (binding_rule b)) (map evBinding (evaluate_from 0 bs))"
    unfolding evaluate_from_bindings using assms by (intro find_filter [symmetric]) (auto simp: binding_concerns_def)
  also have "\<dots> = map_option evBinding (List.find (\<lambda>e. binding_concerns channel acct (evBinding e) \<and> R (evMatch e)) (evaluate_from 0 bs))"
    unfolding find_map comp_def
    by (rule arg_cong [of _ _ "map_option evBinding"], rule find_cong_set) (auto dest: evaluate_from_rule)
  finally show ?thesis by (simp add: find_filter_conj)
qed

lemma most_specific_levels:
  defines "es \<equiv> \<lambda>q cfg. channel_account_bindings (buildEvaluatedBindingsByChannel cfg) (qChannel q) (qAccountId q)"
  shows "most_specific q (listRouteBindings cfg) = foldr or_else (map (\<lambda>(level, peer, by). level_find q (es q cfg) level peer by) (levels q)) None"
proof -
  have one: "head_of (concat (map (\<lambda>b. if binding_concerns (qChannel q) (qAccountId q) b \<and> rule_at q level peer (binding_rule b)
        then [(bindingAgentId b, mb)] else []) (listRouteBindings cfg))) = level_find q (es q cfg) level peer mb" for level peer mb
  proof (cases "qChannel q = ''''")
    case True
    then show ?thesis
      unfolding head_of_filtered by (simp add: es_def channel_account_none level_find_def find_none binding_concerns_def)
  next
    case False
    then show ?thesis
      by (simp add: head_of_filtered es_def channel_account_filter level_find_def option.map_comp comp_def
          find_among_bindings [OF False])
  qed
  have "head_of (concat (map (\<lambda>(level, peer, by). concat (map (\<lambda>b. if binding_concerns (qChannel q) (qAccountId q) b
          \<and> rule_at q level peer (binding_rule b) then [(bindingAgentId b, by)] else []) (listRouteBindings cfg))) ls))
      = foldr or_else (map (\<lambda>(level, peer, by). level_find q (es q cfg) level peer by) ls) None" for ls
    by (induction ls) (auto simp: head_of_append one [symmetric], simp add: head_of_def)
  then show ?thesis by (simp add: most_specific_def head_of_def)
qed

lemma scope_asks:
  "matchesBindingScope m s \<Longrightarrow> guildConstraint m \<noteq> None \<Longrightarrow> guildConstraint m = Some (scopeGuildId s)"
  "matchesBindingScope m s \<Longrightarrow> teamConstraint m \<noteq> None \<Longrightarrow> teamConstraint m = Some (scopeTeamId s)"
  "matchesBindingScope m s \<Longrightarrow> roleConstraint m \<noteq> None \<Longrightarrow> scopeMemberRoleIds s \<noteq> {}"
  "matchesBindingScope m s \<Longrightarrow> peerConstraint m = Pc_valid k i \<Longrightarrow> \<exists>p. scopePeer s = Some p \<and> peerKindMatches k (peerKind p) \<and> peerId p = i"
  "matchesBindingScope m s \<Longrightarrow> peerConstraint m = Pc_wildcard_kind k \<Longrightarrow> scopePeer s \<noteq> None"
  by (auto simp: matchesBindingScope_def list_ex_iff split: if_splits option.splits)

lemma scope_asks_both:
  "matchesBindingScope m s \<Longrightarrow> guildConstraint m \<noteq> None \<and> roleConstraint m \<noteq> None \<Longrightarrow>
     guildConstraint m = Some (scopeGuildId s) \<and> scopeMemberRoleIds s \<noteq> {}"
  using scope_asks(1,3) by blast

lemma rule_constraints:
  "guildConstraint (binding_rule b) \<noteq> Some ''''" "teamConstraint (binding_rule b) \<noteq> Some ''''"
  by (simp_all add: binding_rule_def normalizeBindingMatch_def nonempty_def)

lemma tier_level:
  assumes "tierCandidates tier = filter P es"
    and "\<And>e. e \<in> set es \<Longrightarrow> rule_at q level (tierPeer tier) (evMatch e) \<Longrightarrow> tierEnabled tier \<and> P e \<and> tierPredicate tier e"
    and "\<And>e. e \<in> set es \<Longrightarrow> P e \<Longrightarrow> tierPredicate tier e \<Longrightarrow> specificity (evMatch e) = level"
  shows "tier_find q tier = level_find q es level (tierPeer tier) (tierMatchedBy tier)"
proof (cases "tierEnabled tier")
  case True
  have "List.find (\<lambda>c. P c \<and> tierPredicate tier c \<and> matchesBindingScope (evMatch c) (query_scope q (tierPeer tier))) es
      = List.find (\<lambda>c. rule_at q level (tierPeer tier) (evMatch c)) es"
    using assms(2,3) by (intro find_cong_set) (auto simp: rule_at_def)
  with True assms(1) show ?thesis by (simp add: tier_find_def level_find_def find_filter_conj)
next
  case False
  with assms(2) have "List.find (\<lambda>c. rule_at q level (tierPeer tier) (evMatch c)) es = None"
    by (intro find_none) auto
  with False show ?thesis by (simp add: tier_find_def level_find_def)
qed

lemma specificity_cases:
  "specificity m = Mb_peer \<longleftrightarrow> (\<exists>k i. peerConstraint m = Pc_valid k i)"
  "specificity m = Mb_peer_wildcard \<longleftrightarrow> (\<exists>k. peerConstraint m = Pc_wildcard_kind k)"
  "specificity m = Mb_guild_roles \<Longrightarrow> guildConstraint m \<noteq> None \<and> roleConstraint m \<noteq> None"
  "specificity m = Mb_guild \<Longrightarrow> guildConstraint m \<noteq> None \<and> roleConstraint m = None"
  "specificity m = Mb_team \<Longrightarrow> teamConstraint m \<noteq> None"
  "specificity m = Mb_account \<Longrightarrow> accountPattern m \<noteq> ''*''"
  "specificity m = Mb_channel \<Longrightarrow> accountPattern m = ''*''"
  by (auto simp: specificity_def split: NormalizedPeerConstraint.splits if_splits)

lemma nullish_if_key: "(if k \<noteq> '''' then nullish (map_of m k) [] else []) = filter (\<lambda>_. k \<noteq> '''') (nullish (map_of m k) [])"
  by simp

text \<open>Collecting for no peer gives nothing, which is filtering with nothing.\<close>

definition filed_for :: "RoutePeer option \<Rightarrow> EvaluatedBinding \<Rightarrow> bool" where
  "filed_for peer e \<longleftrightarrow> (case peer of None \<Rightarrow> False | Some p \<Rightarrow> filed_under_peer (peer_key (peerKind p) (peerId p)) e)"

lemma collect_filed:
  "sorted_wrt (\<lambda>x y. evOrder x < evOrder y) es \<Longrightarrow>
     collectPeerIndexedBindings (buildEvaluatedBindingsIndex es) peer = filter (filed_for peer) es"
  by (cases peer) (simp_all add: collect_peer filed_for_def [abs_def], simp add: collectPeerIndexedBindings_def)

lemma filed_for_iff:
  "filed_for peer e \<longleftrightarrow> (\<exists>p k. peer = Some p \<and> peerConstraint (evMatch e) = Pc_valid k (peerId p) \<and> peerKindMatches k (peerKind p))"
  by (auto simp: filed_for_def filed_under_peer_iff split: option.splits)

lemma tiers_are_levels:
  assumes sorted: "sorted_wrt (\<lambda>x y. evOrder x < evOrder y) es"
    and rules: "\<And>e. e \<in> set es \<Longrightarrow> guildConstraint (evMatch e) \<noteq> Some '''' \<and> teamConstraint (evMatch e) \<noteq> Some ''''"
  shows "map (tier_find q) (route_tiers q (buildEvaluatedBindingsIndex es))
    = map (\<lambda>(level, peer, by). level_find q es level peer by) (levels q)"
proof -
  note defs = route_tiers_def levels_def Let_def collect_filed [OF sorted] index_parts nullish_if_key parent_scope_def
  have step: "tier_find q tier = level_find q es level peer mb"
    if "tierCandidates tier = filter P es" "tierPeer tier = peer" "tierMatchedBy tier = mb"
      "\<And>e. e \<in> set es \<Longrightarrow> rule_at q level peer (evMatch e) \<Longrightarrow> tierEnabled tier \<and> P e \<and> tierPredicate tier e"
      "\<And>e. e \<in> set es \<Longrightarrow> P e \<Longrightarrow> tierPredicate tier e \<Longrightarrow> specificity (evMatch e) = level"
    for tier P peer mb level
    using tier_level [of tier P es q level] that by simp
  have constraints: "e \<in> set es \<Longrightarrow> guildConstraint (evMatch e) \<noteq> Some ''''" "e \<in> set es \<Longrightarrow> teamConstraint (evMatch e) \<noteq> Some ''''" for e
    using rules by auto
  note facts = rule_at_def query_scope_def filed_for_iff is_valid_peer_def is_wildcard_peer_def specificity_cases(1,2)
  show ?thesis
    unfolding defs list.map prod.case
    apply (intro arg_cong2 [of _ _ _ _ "(#)"] refl)
    subgoal by (rule step, simp, simp, simp) (auto simp: facts dest!: scope_asks(4))
    subgoal by (rule step, simp, simp, simp) (auto simp: facts split: option.splits dest!: scope_asks(4))
    subgoal by (rule step, simp, simp, simp) (auto simp: facts dest!: scope_asks(5))
    subgoal by (rule step, simp only: RouteTier.simps filter_filter, simp, simp)
       (use constraints in \<open>auto simp: facts dest!: specificity_cases(3) scope_asks_both\<close>)
    subgoal by (rule step, simp only: RouteTier.simps filter_filter, simp, simp)
       (use constraints in \<open>auto simp: facts dest!: specificity_cases(4) scope_asks(1)\<close>)
    subgoal by (rule step, simp only: RouteTier.simps filter_filter, simp, simp)
       (use constraints in \<open>auto simp: facts dest!: specificity_cases(5) scope_asks(2)\<close>)
    subgoal by (rule step, simp, simp, simp) (auto simp: facts dest!: specificity_cases(6))
    subgoal by (rule step, simp, simp, simp) (auto simp: facts dest!: specificity_cases(7))
    done
qed

section \<open>Agents\<close>

definition ids_of :: "AgentEntry list \<Rightarrow> string list" where
  "ids_of agents = [normalizeAgentId (Some (js_trim i)). Some i \<leftarrow> map entryId agents, js_trim i \<noteq> '''']"

lemma ids_of_Cons: "ids_of (a # as) = (case entryId a of Some i \<Rightarrow>
    if js_trim i \<noteq> '''' then [normalizeAgentId (Some (js_trim i))] else [] | None \<Rightarrow> []) @ ids_of as"
  by (simp add: ids_of_def split: option.splits)

lemma agents_table:
  "map_of (fold (\<lambda>agent m. case map_option js_trim (entryId agent) of None \<Rightarrow> m
       | Some rawId \<Rightarrow> if rawId = '''' then m
           else AList.update (normalizeAgentId (Some rawId)) (sanitizeAgentId (Some rawId)) m) agents m) k
     = (if k \<in> set (ids_of agents) then Some k else map_of m k)"
proof (induction agents arbitrary: m)
  case (Cons a as)
  then show ?case
    by (cases "entryId a") (auto simp: ids_of_Cons update_conv' sanitizeAgentId_def)
qed (simp add: ids_of_def)

lemma agent_answer: "pick_agent (build_agent_lookup cfg) aid = agent_named cfg aid"
proof -
  let ?t = "byNormalizedId (build_agent_lookup cfg)"
  have ids: "configured_ids cfg = ids_of (nullish (agentsList cfg) [])"
    by (simp add: configured_ids_def ids_of_def listAgentEntries_def)
  have found: "map_of ?t k = (if k \<in> set (configured_ids cfg) then Some k else None)" for k
    unfolding ids build_agent_lookup_def by (simp only: agents_table AgentLookupCache.simps map_of.simps)
  then have "dom (map_of ?t) = set (configured_ids cfg)" by (auto simp: dom_def split: if_splits)
  then have "?t = [] \<longleftrightarrow> configured_ids cfg = []"
    unfolding dom_map_of_conv_image_fst by (metis image_is_empty set_empty)
  with found show ?thesis
    by (simp add: pick_agent_def agent_named_def Let_def sanitizeAgentId_def agent_id_nonempty)
      (simp add: build_agent_lookup_def sanitizeAgentId_def)
qed

section \<open>Resolution\<close>

lemma first_tier_fold: "first_tier q tiers = foldr or_else (map (tier_find q) tiers) None"
  by (induction tiers) (simp_all only: first_tier_Cons list.map foldr.simps comp_apply first_tier.simps(1) id_apply)

lemma route_found:
  "first_tier q (route_tiers q (buildEvaluatedBindingsIndex
      (channel_account_bindings (buildEvaluatedBindingsByChannel cfg) (qChannel q) (qAccountId q))))
    = most_specific q (listRouteBindings cfg)"
proof -
  let ?es = "channel_account_bindings (buildEvaluatedBindingsByChannel cfg) (qChannel q) (qAccountId q)"
  have sorted: "sorted_wrt (\<lambda>x y. evOrder x < evOrder y) ?es"
    by (cases "qChannel q = ''''")
      (simp_all add: channel_account_none channel_account_filter sorted_wrt_filter evaluate_from_sorted)
  have rules: "guildConstraint (evMatch e) \<noteq> Some '''' \<and> teamConstraint (evMatch e) \<noteq> Some ''''" if "e \<in> set ?es" for e
    using that by (cases "qChannel q = ''''")
      (auto simp: channel_account_none channel_account_filter rule_constraints dest!: evaluate_from_rule)
  show ?thesis
    unfolding first_tier_fold most_specific_levels
    by (rule arg_cong [of _ _ "\<lambda>os. foldr or_else os None"], rule tiers_are_levels [OF sorted]) (rule rules)
qed

end
