(* ===== verification/RouteCaches.thy ===== *)
theory RouteCaches
  imports RoutingProps
begin

text \<open>
  The three caches of routing answer what the bindings say: what their keys tell apart, what they hold, and every
  sequence of calls. Also what a caller does to them that changes the route it was given.
\<close>

section \<open>Keys of caches\<close>

lemma split_on_nonempty: "split_on d s \<noteq> []"
  by (induction s) (auto split: list.splits)

lemma split_on_plain: "d \<notin> set w \<Longrightarrow> split_on d w = [w]"
  by (induction w) auto

lemma split_on_join:
  "ws \<noteq> [] \<Longrightarrow> \<forall>w \<in> set ws. d \<notin> set w \<Longrightarrow> split_on d (join_with d ws) = ws"
  by (induction d ws rule: join_with.induct) (auto simp: split_on_plain split_on_field)

lemma join_with_inj:
  assumes "join_with d ws = join_with d vs" "ws \<noteq> []" "vs \<noteq> []" "\<forall>w \<in> set ws \<union> set vs. d \<notin> set w"
  shows "ws = vs"
proof -
  have "split_on d (join_with d ws) = ws" "split_on d (join_with d vs) = vs"
    using assms(2-4) by (simp_all add: split_on_join)
  then show ?thesis using assms(1) by metis
qed

lemma last_field_inj:
  "a @ d # x = b @ d # y \<Longrightarrow> d \<notin> set x \<Longrightarrow> d \<notin> set y \<Longrightarrow> a = b \<and> x = y"
proof (induction a arbitrary: b)
  case Nil
  then show ?case by (cases b) auto
next
  case (Cons c a)
  then show ?case by (cases b) auto
qed

lemma account_id_plain: "CHR 0x09 \<notin> set (normalizeAccountId v)"
proof -
  have "\<not> id_char (CHR 0x09)" by (simp add: id_char_def ascii_lower_def ascii_digit_def)
  then have "CHR 0x09 \<notin> set (canonicalizeAccountId s)" for s
    using canonicalizeAccountId_shape [of s] by (auto simp: list_all_iff)
  then show ?thesis
    by (auto simp: normalizeAccountId_def normalizeCanonicalAccountId_def Let_def)
qed

text \<open>
  The questions that the text of a key tells apart: no separator within a part, and no part that reads like the
  dash that stands for nothing.
\<close>

definition plain :: "string \<Rightarrow> bool" where
  "plain s \<longleftrightarrow> CHR 0x09 \<notin> set s"

definition peer_plain :: "RoutePeer option \<Rightarrow> bool" where
  "peer_plain peer \<longleftrightarrow> (case peer of None \<Rightarrow> True | Some p \<Rightarrow> plain (peerId p))"

definition cacheable :: "RouteQuery \<Rightarrow> bool" where
  "cacheable q \<longleftrightarrow> plain (qChannel q) \<and> peer_plain (qPeer q) \<and> peer_plain (qParentPeer q)
     \<and> (case qPeer q of None \<Rightarrow> True | Some p \<Rightarrow> peerId p \<noteq> '''')
     \<and> plain (qGuildId q) \<and> qGuildId q \<noteq> ''-'' \<and> plain (qTeamId q) \<and> qTeamId q \<noteq> ''-''
     \<and> list_all (\<lambda>r. plain r \<and> CHR '','' \<notin> set r) (qMemberRoleIds q) \<and> qMemberRoleIds q \<noteq> [''-'']"

text \<open>Two questions that have the same answer.\<close>

definition same_question :: "RouteQuery \<Rightarrow> RouteQuery \<Rightarrow> bool" where
  "same_question q q' \<longleftrightarrow> qChannel q = qChannel q' \<and> qAccountId q = qAccountId q' \<and> qPeer q = qPeer q'
     \<and> parent_scope q = parent_scope q' \<and> qGuildId q = qGuildId q' \<and> qTeamId q = qTeamId q'
     \<and> set (qMemberRoleIds q) = set (qMemberRoleIds q') \<and> qDmScope q = qDmScope q'"

lemma roles_key: "rs \<noteq> [] \<Longrightarrow> formatRoleIdsCacheKey rs = join_with (CHR '','') (sort rs)"
  by (cases rs rule: remdups_adj.cases; cases "tl (tl rs)") (auto simp: formatRoleIdsCacheKey_def)

lemma roles_key_inj:
  assumes "formatRoleIdsCacheKey rs = formatRoleIdsCacheKey vs" "rs \<noteq> [''-'']" "vs \<noteq> [''-'']"
    "\<forall>r \<in> set rs \<union> set vs. CHR '','' \<notin> set r"
  shows "set rs = set vs"
proof -
  have dash: "xs = []" if "formatRoleIdsCacheKey xs = ''-''" "xs \<noteq> [''-'']" "\<forall>r \<in> set xs. CHR '','' \<notin> set r" for xs
  proof (rule ccontr)
    assume "xs \<noteq> []"
    then have "join_with (CHR '','') (sort xs) = join_with (CHR '','') [''-'']" using that(1) by (simp add: roles_key)
    moreover have "sort xs \<noteq> []" using \<open>xs \<noteq> []\<close> by (metis length_0_conv length_sort)
    ultimately have "sort xs = [''-'']" using that(3) by (intro join_with_inj) auto
    then have "mset xs = mset [''-'']" by (metis mset_sort)
    then have "xs = [''-'']" by simp
    with that(2) show False by simp
  qed
  have nil: "formatRoleIdsCacheKey [] = ''-''" by (simp add: formatRoleIdsCacheKey_def)
  show ?thesis
  proof (cases "rs = [] \<or> vs = []")
    case True
    then show ?thesis using assms dash [of rs] dash [of vs] nil by auto
  next
    case False
    then have "sort rs \<noteq> []" "sort vs \<noteq> []" by (metis length_0_conv length_sort)+
    moreover have "join_with (CHR '','') (sort rs) = join_with (CHR '','') (sort vs)"
      using False assms(1) by (simp add: roles_key)
    ultimately have "sort rs = sort vs" using assms(4) by (intro join_with_inj) auto
    then show ?thesis by (metis set_sort)
  qed
qed

lemma peer_text_inj:
  "formatRouteCachePeer p = formatRouteCachePeer p' \<Longrightarrow>
     (case p of None \<Rightarrow> None | Some x \<Rightarrow> if peerId x \<noteq> '''' then Some x else None)
       = (case p' of None \<Rightarrow> None | Some x \<Rightarrow> if peerId x \<noteq> '''' then Some x else None)"
  by (auto simp: formatRouteCachePeer_def chat_text_def split: option.splits if_splits ChatType.splits)

lemma peer_text_plain: "peer_plain p \<Longrightarrow> plain (formatRouteCachePeer p)"
  by (auto simp: peer_plain_def plain_def formatRouteCachePeer_def chat_text_def split: option.splits ChatType.splits)

lemma join_with_plain: "d \<noteq> c \<Longrightarrow> \<forall>w \<in> set ws. d \<notin> set w \<Longrightarrow> d \<notin> set (join_with c ws)"
  by (induction c ws rule: join_with.induct) auto

lemma roles_text_plain: "list_all (\<lambda>r. plain r \<and> CHR '','' \<notin> set r) rs \<Longrightarrow> plain (formatRoleIdsCacheKey rs)"
proof (cases "rs = []")
  case False
  assume "list_all (\<lambda>r. plain r \<and> CHR '','' \<notin> set r) rs"
  then show ?thesis using False join_with_plain [of "CHR 0x09" "CHR '',''" "sort rs"]
    by (simp add: roles_key plain_def list_all_iff)
qed (simp add: formatRoleIdsCacheKey_def plain_def)

lemma dm_scope_text_plain: "plain (dm_scope_text s)" "dm_scope_text s = dm_scope_text s' \<longleftrightarrow> s = s'"
  by (cases s; cases s'; simp add: dm_scope_text_def plain_def)+

lemma or_dash: "plain s \<Longrightarrow> plain (or_str s ''-'')" "s \<noteq> ''-'' \<Longrightarrow> s' \<noteq> ''-'' \<Longrightarrow> or_str s ''-'' = or_str s' ''-'' \<longleftrightarrow> s = s'"
  by (auto simp: or_str_def plain_def)

lemma same_key_same_question:
  assumes "buildResolvedRouteCacheKey q = buildResolvedRouteCacheKey q'" "cacheable q" "cacheable q'"
    "plain (qAccountId q)" "plain (qAccountId q')"
  shows "same_question q q'"
proof -
  let ?fields = "\<lambda>q. [qChannel q, qAccountId q, formatRouteCachePeer (qPeer q), formatRouteCachePeer (qParentPeer q),
      or_str (qGuildId q) ''-'', or_str (qTeamId q) ''-'', formatRoleIdsCacheKey (qMemberRoleIds q), dm_scope_text (qDmScope q)]"
  have plain_fields: "list_all plain (?fields q)" if "cacheable q" "plain (qAccountId q)" for q
    using that by (simp add: cacheable_def peer_text_plain roles_text_plain or_dash(1) dm_scope_text_plain(1))
  have "?fields q = ?fields q'"
  proof (rule join_with_inj [OF assms(1) [unfolded buildResolvedRouteCacheKey_def]])
    show "\<forall>w \<in> set (?fields q) \<union> set (?fields q'). CHR 0x09 \<notin> set w"
      using plain_fields [OF assms(2,4)] plain_fields [OF assms(3,5)] unfolding list_all_iff plain_def by blast
  qed simp_all
  moreover from this have "qPeer q = qPeer q'" "parent_scope q = parent_scope q'"
    using peer_text_inj [of "qPeer q" "qPeer q'"] peer_text_inj [of "qParentPeer q" "qParentPeer q'"] assms(2,3)
    by (auto simp: cacheable_def parent_scope_def split: option.splits)
  moreover from calculation(1) have "set (qMemberRoleIds q) = set (qMemberRoleIds q')"
    using assms(2,3) by (intro roles_key_inj) (auto simp: cacheable_def list_all_iff)
  ultimately show ?thesis
    using assms(2,3) by (simp add: same_question_def cacheable_def or_dash(2) dm_scope_text_plain(2))
qed

lemma same_question_answer:
  assumes "same_question q q'"
  shows "most_specific q bs = most_specific q' bs" "route_to cfg q aid mb = route_to cfg q' aid mb"
proof -
  have "levels q = levels q'" "query_scope q = query_scope q'"
    using assms by (auto simp: same_question_def levels_def query_scope_def fun_eq_iff)
  then show "most_specific q bs = most_specific q' bs"
    using assms by (simp add: most_specific_def rule_at_def same_question_def)
  show "route_to cfg q aid mb = route_to cfg q' aid mb"
    using assms by (simp add: route_to_def same_question_def)
qed

section \<open>What the caches hold\<close>

text \<open>
  A configuration is replaced, not changed: the same object with the same parts has the same contents.
\<close>

definition stable :: "OpenClawConfig set \<Rightarrow> bool" where
  "stable C \<longleftrightarrow> (\<forall>c \<in> C. \<forall>c' \<in> C. cfgRef c = cfgRef c' \<longrightarrow>
     (bindingsRef c = bindingsRef c' \<longrightarrow> cfgBindings c = cfgBindings c')
     \<and> (agentsRef c = agentsRef c' \<longrightarrow> agentsList c = agentsList c')
     \<and> (sessionRef c = sessionRef c' \<longrightarrow> cfgDmScope c = cfgDmScope c' \<and> cfgIdentityLinks c = cfgIdentityLinks c'))"

lemma stableD:
  assumes "stable C" "c \<in> C" "c' \<in> C" "cfgRef c = cfgRef c'"
  shows "bindingsRef c = bindingsRef c' \<Longrightarrow> cfgBindings c = cfgBindings c'"
    "agentsRef c = agentsRef c' \<Longrightarrow> agentsList c = agentsList c'"
    "sessionRef c = sessionRef c' \<Longrightarrow> cfgDmScope c = cfgDmScope c' \<and> cfgIdentityLinks c = cfgIdentityLinks c'"
  using assms unfolding stable_def by blast+

lemma by_bindings: "cfgBindings c = cfgBindings c' \<Longrightarrow> buildEvaluatedBindingsByChannel c = buildEvaluatedBindingsByChannel c'"
  by (simp add: buildEvaluatedBindingsByChannel_def listRouteBindings_def listConfiguredBindings_def)

lemma by_agents: "agentsRef c = agentsRef c' \<Longrightarrow> agentsList c = agentsList c' \<Longrightarrow> build_agent_lookup c = build_agent_lookup c'"
  by (simp add: build_agent_lookup_def resolveDefaultAgentId_def listAgentEntries_def)

definition evaluated_for :: "OpenClawConfig \<Rightarrow> EvaluatedBindingsCache \<Rightarrow> bool" where
  "evaluated_for cfg c \<longleftrightarrow> evalBindingsRef c = bindingsRef cfg \<and> byChannelC c = buildEvaluatedBindingsByChannel cfg
     \<and> memo_of map_of (\<lambda>k es. \<forall>ch acct. plain acct \<and> k = account_key ch acct
         \<longrightarrow> es = channel_account_bindings (buildEvaluatedBindingsByChannel cfg) ch acct) (byChannelAccount c)
     \<and> memo_of map_of (\<lambda>k ix. \<forall>ch acct. plain acct \<and> k = account_key ch acct
         \<longrightarrow> ix = buildEvaluatedBindingsIndex (channel_account_bindings (buildEvaluatedBindingsByChannel cfg) ch acct))
           (byChannelAccountIndex c)"

definition routes_for :: "(RouteQuery \<Rightarrow> bool) \<Rightarrow> OpenClawConfig \<Rightarrow> ResolvedRouteCache \<Rightarrow> bool" where
  "routes_for ok cfg c \<longleftrightarrow> same_refs cfg c
     \<and> memo_of map_of (\<lambda>k route. \<exists>input. inCfg input = cfg \<and> ok (route_query input)
         \<and> k = buildResolvedRouteCacheKey (route_query input) \<and> route = reference_route input) (byKey c)"

definition caches_ok :: "(RouteQuery \<Rightarrow> bool) \<Rightarrow> OpenClawConfig set \<Rightarrow> RoutingCaches \<Rightarrow> bool" where
  "caches_ok ok C caches \<longleftrightarrow>
     memo_of map_of (\<lambda>r c. \<exists>cfg \<in> C. cfgRef cfg = r \<and> c = build_agent_lookup cfg) (agentLookupCacheByCfg caches)
     \<and> memo_of map_of (\<lambda>r c. \<exists>cfg \<in> C. cfgRef cfg = r \<and> evaluated_for cfg c) (evaluatedBindingsCacheByCfg caches)
     \<and> memo_of map_of (\<lambda>r c. \<exists>cfg \<in> C. cfgRef cfg = r \<and> routes_for ok cfg c) (resolvedRouteCacheByCfg caches)"

lemma evaluated_for_bindings:
  "bindingsRef c = bindingsRef c' \<Longrightarrow> cfgBindings c = cfgBindings c' \<Longrightarrow> evaluated_for c e = evaluated_for c' e"
  using by_bindings [of c c'] by (simp add: evaluated_for_def)

lemma lookup_answer:
  assumes "stable C" "cfg \<in> C" "caches_ok ok C caches"
  shows "fst (resolveAgentLookupCache cfg caches) = build_agent_lookup cfg"
    "caches_ok ok C (snd (resolveAgentLookupCache cfg caches))"
    "evaluatedBindingsCacheByCfg (snd (resolveAgentLookupCache cfg caches)) = evaluatedBindingsCacheByCfg caches"
    "resolvedRouteCacheByCfg (snd (resolveAgentLookupCache cfg caches)) = resolvedRouteCacheByCfg caches"
proof -
  have "build_agent_lookup c = build_agent_lookup cfg"
    if "c \<in> C" "cfgRef c = cfgRef cfg" "lookupAgentsRef (build_agent_lookup c) = agentsRef cfg" for c
    using stableD(2) [OF assms(1) that(1) assms(2) that(2)] that(3) by_agents [of c cfg]
    by (simp add: build_agent_lookup_def)
  then show "fst (resolveAgentLookupCache cfg caches) = build_agent_lookup cfg"
    using assms(3) by (fastforce simp: resolveAgentLookupCache_def caches_ok_def memo_of_def split: option.splits)
  have "caches_ok ok C (caches\<lparr>agentLookupCacheByCfg := AList.update (cfgRef cfg) (build_agent_lookup cfg) (agentLookupCacheByCfg caches)\<rparr>)"
    using assms(2,3) by (auto simp: caches_ok_def intro!: kept.put_good)
  then show "caches_ok ok C (snd (resolveAgentLookupCache cfg caches))"
    using assms(3) by (auto simp: resolveAgentLookupCache_def split: option.splits)
qed (simp_all add: resolveAgentLookupCache_def split: option.splits)

lemma account_key_inj: "account_key ch acct = account_key ch' acct' \<Longrightarrow> plain acct \<Longrightarrow> plain acct' \<Longrightarrow> ch = ch' \<and> acct = acct'"
  unfolding account_key_def plain_def using last_field_inj [of ch "CHR 0x09" acct ch' acct'] by simp

lemma fresh_evaluated: "evaluated_for cfg (fresh_bindings_cache cfg)"
  by (simp add: evaluated_for_def fresh_bindings_cache_def memo_of_def)

lemma set_evaluated_ok:
  "cfg \<in> C \<Longrightarrow> caches_ok ok C caches \<Longrightarrow> evaluated_for cfg c \<Longrightarrow>
     caches_ok ok C (caches\<lparr>evaluatedBindingsCacheByCfg := AList.update (cfgRef cfg) c (evaluatedBindingsCacheByCfg caches)\<rparr>)"
  by (auto simp: caches_ok_def intro!: kept.put_good)

lemma evaluated_found:
  assumes "stable C" "cfg \<in> C" "caches_ok ok C caches"
    "map_of (evaluatedBindingsCacheByCfg caches) (cfgRef cfg) = Some c" "evalBindingsRef c = bindingsRef cfg"
  shows "evaluated_for cfg c"
proof -
  from assms(3,4) obtain cfg' where c': "cfg' \<in> C" "cfgRef cfg' = cfgRef cfg" "evaluated_for cfg' c"
    unfolding caches_ok_def memo_of_def by blast
  with assms(5) have refs: "bindingsRef cfg' = bindingsRef cfg" by (simp add: evaluated_for_def)
  with stableD(1) [OF assms(1) c'(1) assms(2) c'(2)] c'(3) show ?thesis by (simp add: evaluated_for_bindings [of cfg' cfg])
qed

lemma evaluated_put:
  fixes ch :: string
  assumes "evaluated_for cfg c" "plain acct"
  defines "k \<equiv> account_key ch acct" and "es \<equiv> channel_account_bindings (buildEvaluatedBindingsByChannel cfg) ch acct"
  shows "evaluated_for cfg (c\<lparr>byChannelAccount := put_bounded n k es (byChannelAccount c),
      byChannelAccountIndex := (if full then [(k, buildEvaluatedBindingsIndex es)]
        else AList.update k (buildEvaluatedBindingsIndex es) (byChannelAccountIndex c))\<rparr>)"
    "evaluated_for cfg (c\<lparr>byChannelAccountIndex := AList.update k (buildEvaluatedBindingsIndex es) (byChannelAccountIndex c)\<rparr>)"
proof -
  have same: "ch' = ch \<and> acct' = acct" if "plain acct'" "k = account_key ch' acct'" for ch' acct'
    using account_key_inj [of ch' acct' ch acct] that assms(2) by (simp add: k_def)
  have bs: "memo_of map_of (\<lambda>k es. \<forall>ch acct. plain acct \<and> k = account_key ch acct
         \<longrightarrow> es = channel_account_bindings (buildEvaluatedBindingsByChannel cfg) ch acct) (put_bounded n k es (byChannelAccount c))"
    using assms(1) same by (intro bounded.put_good) (auto simp: evaluated_for_def es_def)
  have ix: "memo_of map_of (\<lambda>k ix. \<forall>ch acct. plain acct \<and> k = account_key ch acct
         \<longrightarrow> ix = buildEvaluatedBindingsIndex (channel_account_bindings (buildEvaluatedBindingsByChannel cfg) ch acct))
      (AList.update k (buildEvaluatedBindingsIndex es) m)"
    if "m = [] \<or> m = byChannelAccountIndex c" for m
    using assms(1) same that by (intro kept.put_good) (auto simp: evaluated_for_def es_def memo_of_def)
  show "evaluated_for cfg (c\<lparr>byChannelAccount := put_bounded n k es (byChannelAccount c),
      byChannelAccountIndex := (if full then [(k, buildEvaluatedBindingsIndex es)]
        else AList.update k (buildEvaluatedBindingsIndex es) (byChannelAccountIndex c))\<rparr>)"
    using assms(1) bs ix [of "[]"] ix [of "byChannelAccountIndex c"] by (simp add: evaluated_for_def)
  show "evaluated_for cfg (c\<lparr>byChannelAccountIndex := AList.update k (buildEvaluatedBindingsIndex es) (byChannelAccountIndex c)\<rparr>)"
    using assms(1) ix [of "byChannelAccountIndex c"] by (simp add: evaluated_for_def)
qed

lemma bindings_answer:
  assumes "stable C" "cfg \<in> C" "caches_ok ok C caches" "plain acct"
  shows "\<exists>c. getEvaluatedBindingsForChannelAccount cfg ch acct caches
      = (channel_account_bindings (buildEvaluatedBindingsByChannel cfg) ch acct,
         caches\<lparr>evaluatedBindingsCacheByCfg := AList.update (cfgRef cfg) c (evaluatedBindingsCacheByCfg caches)\<rparr>)
    \<and> evaluated_for cfg c"
proof -
  define cache where "cache = (case map_of (evaluatedBindingsCacheByCfg caches) (cfgRef cfg) of
      Some existing \<Rightarrow> if evalBindingsRef existing = bindingsRef cfg then existing else fresh_bindings_cache cfg
    | None \<Rightarrow> fresh_bindings_cache cfg)"
  have cache: "evaluated_for cfg cache"
    using evaluated_found [OF assms(1-3)] fresh_evaluated by (auto simp: cache_def split: option.splits)
  show ?thesis
  proof (cases "map_of (byChannelAccount cache) (account_key ch acct)")
    case (Some hit)
    with cache assms(4) have "hit = channel_account_bindings (buildEvaluatedBindingsByChannel cfg) ch acct"
      by (auto simp: evaluated_for_def memo_of_def)
    with Some cache show ?thesis
      unfolding getEvaluatedBindingsForChannelAccount_def cache_def [symmetric] Let_def by auto
  next
    case None
    from cache have built: "byChannelC cache = buildEvaluatedBindingsByChannel cfg" by (simp add: evaluated_for_def)
    show ?thesis
      unfolding getEvaluatedBindingsForChannelAccount_def cache_def [symmetric] Let_def None option.case built
      by (intro exI conjI) (rule refl, rule evaluated_put(1) [OF cache assms(4)])
  qed
qed

lemma index_answer:
  assumes "stable C" "cfg \<in> C" "caches_ok ok C caches" "plain acct"
  shows "\<exists>m. getEvaluatedBindingIndexForChannelAccount cfg ch acct caches
      = (buildEvaluatedBindingsIndex (channel_account_bindings (buildEvaluatedBindingsByChannel cfg) ch acct),
         caches\<lparr>evaluatedBindingsCacheByCfg := m\<rparr>) \<and> caches_ok ok C (caches\<lparr>evaluatedBindingsCacheByCfg := m\<rparr>)"
proof -
  let ?es = "channel_account_bindings (buildEvaluatedBindingsByChannel cfg) ch acct"
  from bindings_answer [OF assms] obtain c where c: "getEvaluatedBindingsForChannelAccount cfg ch acct caches
      = (?es, caches\<lparr>evaluatedBindingsCacheByCfg := AList.update (cfgRef cfg) c (evaluatedBindingsCacheByCfg caches)\<rparr>)"
    "evaluated_for cfg c" by blast
  show ?thesis
  proof (cases "map_of (byChannelAccountIndex c) (account_key ch acct)")
    case (Some ix)
    with c(2) assms(4) have "ix = buildEvaluatedBindingsIndex ?es" by (auto simp: evaluated_for_def memo_of_def)
    with Some c set_evaluated_ok [OF assms(2,3) c(2)] show ?thesis
      by (auto simp: getEvaluatedBindingIndexForChannelAccount_def Let_def update_conv')
  next
    case None
    with c set_evaluated_ok [OF assms(2) set_evaluated_ok [OF assms(2,3) c(2)] evaluated_put(2) [OF c(2) assms(4), of ch]]
    show ?thesis by (auto simp: getEvaluatedBindingIndexForChannelAccount_def Let_def update_conv')
  qed
qed

section \<open>Answers from the caches\<close>

lemma route_cache_answer:
  assumes "stable C" "cfg \<in> C" "caches_ok ok C caches"
  shows "\<exists>rc m. resolveRouteCacheForConfig cfg caches = (byKey rc, caches\<lparr>resolvedRouteCacheByCfg := m\<rparr>) \<and> routes_for ok cfg rc
    \<and> map_of m (cfgRef cfg) = Some rc \<and> caches_ok ok C (caches\<lparr>resolvedRouteCacheByCfg := m\<rparr>)"
proof -
  let ?fresh = "\<lparr>routeBindingsRef = bindingsRef cfg, routeAgentsRef = agentsRef cfg, routeSessionRef = sessionRef cfg, byKey = []\<rparr>"
  let ?m = "AList.update (cfgRef cfg) ?fresh (resolvedRouteCacheByCfg caches)"
  have fresh: "routes_for ok cfg ?fresh" by (simp add: routes_for_def same_refs_def memo_of_def)
  with assms(2,3) have ok: "caches_ok ok C (caches\<lparr>resolvedRouteCacheByCfg := ?m\<rparr>)"
    by (auto simp: caches_ok_def intro!: kept.put_good)
  show ?thesis
  proof (cases "\<exists>rc. map_of (resolvedRouteCacheByCfg caches) (cfgRef cfg) = Some rc \<and> same_refs cfg rc")
    case True
    then obtain rc where rc: "map_of (resolvedRouteCacheByCfg caches) (cfgRef cfg) = Some rc" "same_refs cfg rc" by blast
    with assms(3) obtain cfg' where c': "cfg' \<in> C" "cfgRef cfg' = cfgRef cfg" "routes_for ok cfg' rc"
      unfolding caches_ok_def memo_of_def by blast
    with rc(2) stableD [OF assms(1) c'(1) assms(2) c'(2)] have "cfg' = cfg"
      by (simp add: routes_for_def same_refs_def)
    with c' rc assms(3) show ?thesis
      by (intro exI [of _ rc] exI [of _ "resolvedRouteCacheByCfg caches"]) (simp add: resolveRouteCacheForConfig_def Let_def)
  next
    case False
    with fresh ok show ?thesis
      by (intro exI [of _ ?fresh] exI [of _ ?m])
        (auto simp: resolveRouteCacheForConfig_def Let_def update_conv' split: option.splits)
  qed
qed

text \<open>What is worked out when no route is found in the cache.\<close>

definition work_out :: "ResolveAgentRouteInput \<Rightarrow> RoutingCaches \<Rightarrow> ResolvedAgentRoute \<times> RoutingCaches" where
  "work_out input caches1 = (let cfg = inCfg input; q = route_query input in
     case getEvaluatedBindingsForChannelAccount cfg (qChannel q) (qAccountId q) caches1 of (_, caches2) \<Rightarrow>
    (case getEvaluatedBindingIndexForChannelAccount cfg (qChannel q) (qAccountId q) caches2 of (index, caches3) \<Rightarrow>
    (let (aid, matched) = nullish (first_tier q (route_tiers q index)) (resolveDefaultAgentId cfg, Mb_default)
     in case pickFirstExistingAgentId cfg aid caches3 of (resolvedAgentId, caches4) \<Rightarrow>
       (route_to cfg q resolvedAgentId matched, caches4))))"

lemma work_out_answer:
  assumes "stable C" "inCfg input \<in> C" "caches_ok ok C caches"
  shows "\<exists>caches'. work_out input caches = (reference_route input, caches') \<and> caches_ok ok C caches'
    \<and> resolvedRouteCacheByCfg caches' = resolvedRouteCacheByCfg caches"
proof -
  let ?cfg = "inCfg input" and ?q = "route_query input"
  have acct: "plain (qAccountId ?q)" by (simp add: route_query_def plain_def account_id_plain)
  from bindings_answer [OF assms acct] obtain es c where b:
    "getEvaluatedBindingsForChannelAccount ?cfg (qChannel ?q) (qAccountId ?q) caches
      = (es, caches\<lparr>evaluatedBindingsCacheByCfg := AList.update (cfgRef ?cfg) c (evaluatedBindingsCacheByCfg caches)\<rparr>)"
    "evaluated_for ?cfg c" by blast
  let ?c2 = "caches\<lparr>evaluatedBindingsCacheByCfg := AList.update (cfgRef ?cfg) c (evaluatedBindingsCacheByCfg caches)\<rparr>"
  have ok2: "caches_ok ok C ?c2" using set_evaluated_ok [OF assms(2,3) b(2)] .
  from index_answer [OF assms(1,2) ok2 acct, of "qChannel ?q"] obtain m where i:
    "getEvaluatedBindingIndexForChannelAccount ?cfg (qChannel ?q) (qAccountId ?q) ?c2
      = (buildEvaluatedBindingsIndex (channel_account_bindings (buildEvaluatedBindingsByChannel ?cfg) (qChannel ?q) (qAccountId ?q)),
         ?c2\<lparr>evaluatedBindingsCacheByCfg := m\<rparr>)" "caches_ok ok C (?c2\<lparr>evaluatedBindingsCacheByCfg := m\<rparr>)" by blast
  let ?c3 = "?c2\<lparr>evaluatedBindingsCacheByCfg := m\<rparr>"
  note l = lookup_answer [OF assms(1,2) i(2)]
  have "pickFirstExistingAgentId ?cfg aid ?c3 = (agent_named ?cfg aid, snd (resolveAgentLookupCache ?cfg ?c3))" for aid
    unfolding pickFirstExistingAgentId_def split_beta l(1) by (simp only: agent_answer)
  then have "work_out input caches = (reference_route input, snd (resolveAgentLookupCache ?cfg ?c3))"
    by (simp add: work_out_def Let_def b(1) i(1) route_found reference_route_def split: prod.splits)
  with l show ?thesis by auto
qed

lemma resolve_by_work:
  "resolveAgentRoute dbg input caches = (let cfg = inCfg input; key = buildResolvedRouteCacheKey (route_query input) in
     if \<not> dbg \<and> cfgIdentityLinks cfg = None
     then case resolveRouteCacheForConfig cfg caches of (routes, caches1) \<Rightarrow>
       (case map_of routes key of Some cachedRoute \<Rightarrow> (cachedRoute, caches1)
        | None \<Rightarrow> (case work_out input caches1 of (route, caches4) \<Rightarrow> (route, store_route cfg key route caches4)))
     else work_out input caches)"
  by (simp add: resolveAgentRoute_def work_out_def Let_def split: prod.splits option.splits)

lemma route_answer_of:
  assumes "stable C" "inCfg input \<in> C" "caches_ok ok C caches"
    "dbg \<or> cfgIdentityLinks (inCfg input) \<noteq> None \<or> ok (route_query input)"
  shows "\<exists>caches' i. resolveAgentRoute dbg input caches = (reference_route i, caches') \<and> caches_ok ok C caches' \<and> inCfg i = inCfg input
    \<and> (i = input \<or> ok (route_query i) \<and> ok (route_query input)
        \<and> buildResolvedRouteCacheKey (route_query input) = buildResolvedRouteCacheKey (route_query i))"
proof (cases "\<not> dbg \<and> cfgIdentityLinks (inCfg input) = None")
  case True
  let ?cfg = "inCfg input" and ?q = "route_query input"
  let ?key = "buildResolvedRouteCacheKey ?q"
  from True assms(4) have okq: "ok ?q" by simp
  from route_cache_answer [OF assms(1-3)] obtain rc m where r:
    "resolveRouteCacheForConfig ?cfg caches = (byKey rc, caches\<lparr>resolvedRouteCacheByCfg := m\<rparr>)" "routes_for ok ?cfg rc"
    "map_of m (cfgRef ?cfg) = Some rc" "caches_ok ok C (caches\<lparr>resolvedRouteCacheByCfg := m\<rparr>)" by blast
  show ?thesis
  proof (cases "map_of (byKey rc) ?key")
    case (Some route)
    with r(2) obtain i where i: "inCfg i = ?cfg" "ok (route_query i)"
      "?key = buildResolvedRouteCacheKey (route_query i)" "route = reference_route i"
      unfolding routes_for_def memo_of_def by blast
    from Some True have "resolveAgentRoute dbg input caches = (reference_route i, caches\<lparr>resolvedRouteCacheByCfg := m\<rparr>)"
      by (simp add: resolve_by_work r(1) i(4))
    with r(4) i okq show ?thesis by blast
  next
    case None
    from work_out_answer [OF assms(1,2) r(4)] obtain caches4 where w:
      "work_out input (caches\<lparr>resolvedRouteCacheByCfg := m\<rparr>) = (reference_route input, caches4)" "caches_ok ok C caches4"
      "resolvedRouteCacheByCfg caches4 = m" by auto
    let ?rc = "rc\<lparr>byKey := put_bounded MAX_RESOLVED_ROUTE_CACHE_KEYS ?key (reference_route input) (byKey rc)\<rparr>"
    have "routes_for ok ?cfg ?rc"
      using r(2) okq by (auto simp: routes_for_def same_refs_def intro!: bounded.put_good)
    then have "caches_ok ok C (store_route ?cfg ?key (reference_route input) caches4)"
      using w(2,3) r(3) assms(2) by (auto simp: store_route_def caches_ok_def intro!: kept.put_good)
    with None True r w show ?thesis by (simp add: resolve_by_work) blast
  qed
next
  case False
  with work_out_answer [OF assms(1-3)] show ?thesis by (fastforce simp: resolve_by_work)
qed

lemma route_answer:
  assumes "stable C" "inCfg input \<in> C" "caches_ok cacheable C caches"
    "dbg \<or> cfgIdentityLinks (inCfg input) \<noteq> None \<or> cacheable (route_query input)"
  shows "\<exists>caches'. resolveAgentRoute dbg input caches = (reference_route input, caches') \<and> caches_ok cacheable C caches'"
proof -
  from route_answer_of [OF assms] obtain caches' i where r:
    "resolveAgentRoute dbg input caches = (reference_route i, caches')" "caches_ok cacheable C caches'" "inCfg i = inCfg input"
    and cases: "i = input \<or> cacheable (route_query i) \<and> cacheable (route_query input)
        \<and> buildResolvedRouteCacheKey (route_query input) = buildResolvedRouteCacheKey (route_query i)" by blast
  have plain: "plain (qAccountId (route_query i))" for i by (simp add: route_query_def plain_def account_id_plain)
  from cases have "reference_route i = reference_route input"
  proof (elim disjE conjE)
    assume c: "cacheable (route_query i)" "cacheable (route_query input)"
      "buildResolvedRouteCacheKey (route_query input) = buildResolvedRouteCacheKey (route_query i)"
    note same = same_question_answer [OF same_key_same_question [OF c(3) c(2) c(1) plain plain]]
    show ?thesis unfolding reference_route_def Let_def r(3) same ..
  qed simp
  with r(1,2) show ?thesis by auto
qed

text \<open>Any sequence of questions, each asked with or without verbose logging, from empty caches.\<close>

definition no_caches :: RoutingCaches where
  "no_caches = \<lparr>agentLookupCacheByCfg = [], evaluatedBindingsCacheByCfg = [], resolvedRouteCacheByCfg = []\<rparr>"

fun answer_all :: "(bool \<times> ResolveAgentRouteInput) list \<Rightarrow> RoutingCaches \<Rightarrow> ResolvedAgentRoute list" where
  "answer_all [] caches = []"
| "answer_all ((dbg, input) # calls) caches =
     (case resolveAgentRoute dbg input caches of (route, caches') \<Rightarrow> route # answer_all calls caches')"

lemma answers_ok:
  assumes "stable C" "caches_ok cacheable C caches" "\<forall>(dbg, input) \<in> set calls. inCfg input \<in> C
    \<and> (dbg \<or> cfgIdentityLinks (inCfg input) \<noteq> None \<or> cacheable (route_query input))"
  shows "answer_all calls caches = map (reference_route \<circ> snd) calls"
  using assms(2,3)
proof (induction calls arbitrary: caches)
  case (Cons call calls)
  obtain dbg input where call: "call = (dbg, input)" by (cases call)
  with Cons.prems route_answer [OF assms(1), of input caches dbg] obtain caches' where
    "resolveAgentRoute dbg input caches = (reference_route input, caches')" "caches_ok cacheable C caches'" by auto
  with Cons call show ?case by simp
qed simp


definition demo_match :: AgentBindingMatch where
  "demo_match = \<lparr>matchChannel = Some ''Discord'', matchAccountId = Some ''*'', matchPeer = None, matchGuildId = None,
     matchTeamId = None, matchRoles = None\<rparr>"

definition demo_config :: OpenClawConfig where
  "demo_config = \<lparr>cfgRef = 1, agentsRef = 2,
     agentsList = Some [\<lparr>entryId = Some ''main'', entryDefault = True\<rparr>, \<lparr>entryId = Some ''Ops'', entryDefault = False\<rparr>,
       \<lparr>entryId = Some ''art'', entryDefault = False\<rparr>],
     bindingsRef = 3, cfgBindings = Some [
       \<lparr>bindingType = None, bindingAgentId = ''ops'', bindingMatch = Some (demo_match\<lparr>matchGuildId := Some ''g1''\<rparr>)\<rparr>,
       \<lparr>bindingType = Some ''route'', bindingAgentId = ''art'',
         bindingMatch = Some (demo_match\<lparr>matchPeer := Some (Some ''group'', Some ''c9'')\<rparr>)\<rparr>],
     sessionRef = 4, cfgDmScope = Some Dm_per_channel_peer, cfgIdentityLinks = None\<rparr>"

definition demo_input :: "string \<Rightarrow> ResolveAgentRouteInput" where
  "demo_input ident = \<lparr>inCfg = demo_config, inChannel = ''discord'', inAccountId = None,
     inPeer = Some \<lparr>peerKind = Ct_channel, peerId = ident\<rparr>, inParentPeer = None, inGuildId = Some ''g1'', inTeamId = None,
     inMemberRoleIds = None\<rparr>"

definition demo_calls :: "(bool \<times> ResolveAgentRouteInput) list" where
  "demo_calls = [(False, demo_input ''c9''), (False, demo_input ''c8''), (True, demo_input ''c9''), (False, demo_input ''c9'')]"

lemma demo_answers:
  "most_specific (route_query (demo_input ''c9'')) (listRouteBindings demo_config) = Some (''art'', Mb_peer)"
  "most_specific (route_query (demo_input ''c8'')) (listRouteBindings demo_config) = Some (''ops'', Mb_guild)"
  "agent_named demo_config ''art'' = ''art''" "agent_named demo_config ''ops'' = ''ops''"
  by code_simp+

lemma demo_routes:
  "map (\<lambda>(dbg, input). (routeAgentId (reference_route input), routeMatchedBy (reference_route input))) demo_calls
     = [(''art'', Mb_peer), (''ops'', Mb_guild), (''art'', Mb_peer), (''art'', Mb_peer)]"
proof -
  have "inCfg (demo_input i) = demo_config" for i by (simp add: demo_input_def)
  then show ?thesis by (simp add: demo_calls_def reference_route_def route_to_def Let_def demo_answers)
qed

lemma demo_cacheable: "\<forall>(dbg, input) \<in> set demo_calls. cacheable (route_query input)"
  by code_simp


text \<open>A guild named by a dash has the key of no guild, but another answer.\<close>

lemma keys_that_collide:
  fixes q
  defines "cfg \<equiv> demo_config\<lparr>cfgBindings := Some [\<lparr>bindingType = None, bindingAgentId = ''ops'',
       bindingMatch = Some (demo_match\<lparr>matchGuildId := Some ''-''\<rparr>)\<rparr>]\<rparr>"
    and "q \<equiv> \<lambda>g. route_query ((demo_input ''c8'')\<lparr>inGuildId := g\<rparr>)"
  shows "buildResolvedRouteCacheKey (q (Some ''-'')) = buildResolvedRouteCacheKey (q None)"
    and "most_specific (q (Some ''-'')) (listRouteBindings cfg) = Some (''ops'', Mb_guild)"
    and "most_specific (q None) (listRouteBindings cfg) = None"
  unfolding q_def cfg_def by code_simp+

section \<open>A route that its caller changes\<close>

text \<open>
  A call that finds nothing in the cache gives its caller the very object that it stores; a call that finds a route
  gives a copy. A caller that assigns to the route it got may so change what later calls are given. The session key
  of a thread of Microsoft Teams is assigned in this way (\<open>extensions/msteams/src/monitor-handler/message-handler.ts\<close>).
\<close>

definition teams_thread_key :: "ResolvedAgentRoute \<Rightarrow> string option \<Rightarrow> string option \<Rightarrow> string" where
  "teams_thread_key route conversationMessageId replyToId =
     (let channelThreadId = orElse conversationMessageId replyToId
      in fst (resolveThreadSessionKeys (routeSessionKey route) channelThreadId
           (if truthy channelThreadId then Some (routeSessionKey route) else None) None None))"

definition assign_session_key :: "OpenClawConfig \<Rightarrow> string \<Rightarrow> string \<Rightarrow> RoutingCaches \<Rightarrow> RoutingCaches" where
  "assign_session_key cfg key sessionKey caches = (case map_of (resolvedRouteCacheByCfg caches) (cfgRef cfg) of None \<Rightarrow> caches
     | Some c \<Rightarrow> caches\<lparr>resolvedRouteCacheByCfg := AList.update (cfgRef cfg)
         (c\<lparr>byKey := AList.map_entry key (\<lambda>r. r\<lparr>routeSessionKey := sessionKey\<rparr>) (byKey c)\<rparr>) (resolvedRouteCacheByCfg caches)\<rparr>)"

lemma found_after_put: "map_of (put_bounded n k v m) k = Some v"
  by (simp add: put_bounded_def Let_def update_conv')

lemma assigned_key_sticks:
  fixes route :: ResolvedAgentRoute
  assumes "cfgIdentityLinks (inCfg input) = None" "map_of (resolvedRouteCacheByCfg caches) (cfgRef (inCfg input)) = Some rc"
    "same_refs (inCfg input) rc" "k = buildResolvedRouteCacheKey (route_query input)"
  defines "stored \<equiv> store_route (inCfg input) k route caches"
  shows "fst (resolveAgentRoute False input (assign_session_key (inCfg input) k sessionKey stored)) = route\<lparr>routeSessionKey := sessionKey\<rparr>"
  using assms(1-4)
  by (simp add: stored_def resolve_by_work Let_def store_route_def assign_session_key_def update_conv' same_refs_def
      resolveRouteCacheForConfig_def map_of_map_entry found_after_put)

end
