(* ===== verification/RouteSessions.thy ===== *)
theory RouteSessions
  imports RouteCaches
begin

text \<open>
  The agent of a route is read back from the keys of its sessions, which is how a later message of the session
  reaches the agent that the bindings chose. It rests on the names of agents being settled: normalizing a name that
  was normalized changes nothing. For a long name that is not so, since it is cut after its dashes are stripped.
\<close>

section \<open>Names that are settled\<close>

lemma replace_invalid_id: "list_all id_char s \<Longrightarrow> replace_invalid s = s"
  by (induction s rule: replace_invalid.induct) auto

lemma replace_invalid_length: "length (replace_invalid s) \<le> length s"
proof (induction s rule: replace_invalid.induct)
  case (2 c cs)
  then show ?case using length_dropWhile_le [of "\<lambda>d. \<not> id_char d" cs] by auto
qed simp

lemma strip_dashes_length: "length (strip_trailing_dash (strip_leading_dash s)) \<le> length s"
  using length_dropWhile_le [of "\<lambda>c. c = CHR ''-''" "rev (dropWhile (\<lambda>c. c = CHR ''-'') s)"]
    length_dropWhile_le [of "\<lambda>c. c = CHR ''-''" s]
  by (simp add: strip_trailing_dash_def strip_leading_dash_def)

lemma strip_leading_dash_id: "s = [] \<or> hd s \<noteq> CHR ''-'' \<Longrightarrow> strip_leading_dash s = s"
  by (cases s) (auto simp: strip_leading_dash_def)

lemma strip_trailing_dash_id: "s = [] \<or> last s \<noteq> CHR ''-'' \<Longrightarrow> strip_trailing_dash s = s"
  by (cases s rule: rev_cases) (auto simp: strip_trailing_dash_def)

lemma stripped_hd: "strip_leading_dash s = [] \<or> hd (strip_leading_dash s) \<noteq> CHR ''-''"
  using hd_dropWhile [of "\<lambda>c. c = CHR ''-''" s] by (auto simp: strip_leading_dash_def)

lemma stripped_last: "strip_trailing_dash s = [] \<or> last (strip_trailing_dash s) \<noteq> CHR ''-''"
  using hd_dropWhile [of "\<lambda>c. c = CHR ''-''" "rev s"] by (auto simp: strip_trailing_dash_def last_rev)

lemma stripped_keeps_hd:
  assumes "s = [] \<or> hd s \<noteq> CHR ''-''"
  shows "strip_trailing_dash s = [] \<or> hd (strip_trailing_dash s) \<noteq> CHR ''-''"
proof -
  obtain ds where "s = strip_trailing_dash s @ ds"
    using takeWhile_dropWhile_id [of "\<lambda>c. c = CHR ''-''" "rev s"] unfolding strip_trailing_dash_def
    by (metis rev_append rev_rev_ident)
  with assms show ?thesis by (metis hd_append2 Nil_is_append_conv)
qed

lemma lower_id_char: "id_char c \<Longrightarrow> js_lower_char c = c"
  by (auto simp: id_char_def js_lower_char_def ascii_lower_def ascii_digit_def Let_def)

lemma lowercase_id: "list_all id_char s \<Longrightarrow> normalizeLowercaseStringOrEmpty (Some s) = s"
  by (simp add: lowercase_Some id_chars_trim js_lower_def list_all_iff lower_id_char map_idI)

text \<open>What a name is left as.\<close>

lemma settled_name:
  assumes "list_all id_char n" "n \<noteq> ''''" "length n \<le> 64"
    "hd n \<noteq> CHR ''-''" "last n \<noteq> CHR ''-''"
  shows "normalizeAgentId (Some n) = n"
  using assms
  by (simp add: normalizeAgentId_def Let_def id_chars_trim lowercase_id replace_invalid_id strip_leading_dash_id
      strip_trailing_dash_id or_str_def)

lemma settled_valid: "VALID_ID_RE n \<Longrightarrow> list_all id_char n \<Longrightarrow> normalizeAgentId (Some n) = n"
  by (auto simp: normalizeAgentId_def Let_def id_chars_trim lowercase_id VALID_ID_RE_def split: list.splits)

lemma valid_lower:
  assumes "VALID_ID_RE t" "js_trim t = t"
  shows "VALID_ID_RE (normalizeLowercaseStringOrEmpty (Some t))"
proof -
  have "ascii_lower (js_lower_char c) \<or> ascii_digit (js_lower_char c)"
    if "ascii_lower c \<or> ascii_upper c \<or> ascii_digit c" for c
    using that of_char_js_lower_upper [of c] lower_id_char [of c] by (auto simp: id_char_def)
  with assms show ?thesis
    by (auto simp: lowercase_Some js_lower_def VALID_ID_RE_def list_all_iff id_char_lower split: list.splits)
qed

lemma agent_id_cases:
  assumes "t = js_trim i" "t \<noteq> ''''"
  shows "normalizeAgentId (Some i) = (if VALID_ID_RE t then normalizeLowercaseStringOrEmpty (Some t)
    else or_str (take 64 (strip_trailing_dash (strip_leading_dash (replace_invalid (normalizeLowercaseStringOrEmpty (Some t))))))
      DEFAULT_AGENT_ID)"
  using assms by (simp add: normalizeAgentId_def Let_def)

lemma settled_default: "normalizeAgentId (Some DEFAULT_AGENT_ID) = DEFAULT_AGENT_ID"
  by code_simp

lemma agent_id_length: "length (normalizeAgentId v) \<le> 64"
proof -
  have "length (normalizeLowercaseStringOrEmpty (Some t)) \<le> 64" if "VALID_ID_RE t" for t
    using VALID_ID_RE_chars [OF that] normalizeLowercase_length [of t] by simp
  then show ?thesis by (simp add: normalizeAgentId_def Let_def or_str_def DEFAULT_AGENT_ID_def)
qed

lemma name_settles:
  assumes "length (js_trim i) \<le> 64"
  shows "normalizeAgentId (Some (normalizeAgentId (Some i))) = normalizeAgentId (Some i)"
proof (cases "js_trim i = ''''")
  case True
  then show ?thesis by (simp add: normalizeAgentId_def [of "Some i"] settled_default)
next
  case False
  let ?t = "js_trim i"
  note n = agent_id_cases [OF refl False]
  show ?thesis
  proof (cases "VALID_ID_RE ?t")
    case True
    with n valid_lower [OF True] agent_id_chars [of "Some i"] show ?thesis by (simp add: settled_valid)
  next
    case False
    let ?r = "replace_invalid (normalizeLowercaseStringOrEmpty (Some ?t))"
    let ?s = "strip_trailing_dash (strip_leading_dash ?r)"
    have "length ?s \<le> 64"
      using strip_dashes_length [of ?r] replace_invalid_length [of "normalizeLowercaseStringOrEmpty (Some ?t)"]
        normalizeLowercase_length [of ?t] assms by linarith
    with n False have s: "normalizeAgentId (Some i) = or_str ?s DEFAULT_AGENT_ID" by simp
    show ?thesis
    proof (cases "?s = ''''")
      case True
      with s show ?thesis by (simp add: or_str_def settled_default)
    next
      case False
      with s have "normalizeAgentId (Some i) = ?s" by (simp add: or_str_def)
      moreover from this agent_id_chars [of "Some i"] have "list_all id_char ?s" by simp
      ultimately show ?thesis
        using settled_name [of ?s] False \<open>length ?s \<le> 64\<close> stripped_last [of "strip_leading_dash ?r"]
          stripped_keeps_hd [OF stripped_hd [of ?r]] by simp
    qed
  qed
qed

section \<open>Agents of routes\<close>

definition short_names :: "OpenClawConfig \<Rightarrow> bool" where
  "short_names cfg \<longleftrightarrow> (\<forall>b \<in> set (listRouteBindings cfg). length (js_trim (bindingAgentId b)) \<le> 64)"

lemma default_agent_short: "length (js_trim (resolveDefaultAgentId cfg)) \<le> 64"
proof -
  have "length (resolveDefaultAgentId cfg) \<le> 64"
    by (simp add: resolveDefaultAgentId_def Let_def agent_id_length DEFAULT_AGENT_ID_def)
  then show ?thesis using length_js_trim [of "resolveDefaultAgentId cfg"] by linarith
qed

lemma most_specific_bound:
  assumes "most_specific q bs = Some (aid, by)"
  shows "\<exists>b \<in> set bs. bindingAgentId b = aid"
proof -
  let ?l = "[(bindingAgentId b, by). (level, peer, by) \<leftarrow> levels q, b \<leftarrow> bs,
       binding_concerns (qChannel q) (qAccountId q) b \<and> rule_at q level peer (binding_rule b)]"
  from assms have "?l \<noteq> [] \<and> hd ?l = (aid, by)" unfolding most_specific_def by (cases ?l) simp_all
  then have "(aid, by) \<in> set ?l" using hd_in_set [of ?l] by metis
  then show ?thesis by auto
qed

lemma agent_settled:
  assumes "length (js_trim aid) \<le> 64"
  shows "normalizeAgentId (Some (agent_named cfg aid)) = agent_named cfg aid"
  using name_settles [of "js_trim aid"] name_settles [OF default_agent_short [of cfg]] assms
  by (auto simp: agent_named_def Let_def sanitizeAgentId_def)

lemma reference_route_settled:
  assumes "short_names (inCfg i)"
  shows "\<exists>aid by. reference_route i = route_to (inCfg i) (route_query i) aid by \<and> normalizeAgentId (Some aid) = aid"
proof -
  let ?r = "nullish (most_specific (route_query i) (listRouteBindings (inCfg i))) (resolveDefaultAgentId (inCfg i), Mb_default)"
  have "length (js_trim (fst ?r)) \<le> 64"
    using default_agent_short most_specific_bound assms
    by (cases "most_specific (route_query i) (listRouteBindings (inCfg i))") (force simp: short_names_def)+
  then have "normalizeAgentId (Some (agent_named (inCfg i) (fst ?r))) = agent_named (inCfg i) (fst ?r)" by (rule agent_settled)
  then show ?thesis unfolding reference_route_def Let_def case_prod_beta by blast
qed

lemma route_key_names_agent:
  assumes "normalizeAgentId (Some aid) = aid" "route = route_to cfg q aid mb"
  shows "resolveAgentIdFromSessionKey (Some (routeSessionKey route)) = routeAgentId route
    \<and> resolveAgentIdFromSessionKey (Some (routeMainSessionKey route)) = routeAgentId route"
proof -
  have named: "resolveAgentIdFromSessionKey (Some (normalizeLowercaseStringOrEmpty (Some
      (buildAgentPeerSessionKey aid (Some DEFAULT_MAIN_KEY) ch acct kind peer links scope)))) = aid" for ch acct kind peer links scope
    using session_key_form [of aid ch acct kind peer links scope] agent_of_key [of _ aid] assms(1) by auto
  have "buildAgentPeerSessionKey aid (Some DEFAULT_MAIN_KEY) ch None None None None None
      = buildAgentMainSessionKey (Some aid) (Some DEFAULT_MAIN_KEY)" for ch
    by (simp add: buildAgentPeerSessionKey_def Let_def)
  with named [of "''''" None None None None None] named show ?thesis
    unfolding assms(2) route_to_def Let_def by (simp add: buildAgentSessionKey_def)
qed

text \<open>What every answer is, also one that was cached under a key that does not tell its question apart.\<close>

lemma answers_are_routes:
  assumes "stable C" "caches_ok (\<lambda>_. True) C caches" "\<forall>(dbg, input) \<in> set calls. inCfg input \<in> C"
    "route \<in> set (answer_all calls caches)"
  shows "\<exists>i. inCfg i \<in> C \<and> route = reference_route i"
  using assms(2-4)
proof (induction calls arbitrary: caches)
  case (Cons call calls)
  obtain dbg input where call: "call = (dbg, input)" by (cases call)
  with Cons.prems(2) have cfg: "inCfg input \<in> C" by simp
  from route_answer_of [OF assms(1) cfg Cons.prems(1), of dbg] obtain caches' i where r:
    "resolveAgentRoute dbg input caches = (reference_route i, caches')" "caches_ok (\<lambda>_. True) C caches'"
    "inCfg i = inCfg input" by blast
  with Cons.prems(3) call have "route = reference_route i \<or> route \<in> set (answer_all calls caches')" by simp
  then show ?case
  proof
    assume "route = reference_route i"
    with r(3) cfg show ?case by (intro exI [of _ i]) simp
  next
    assume "route \<in> set (answer_all calls caches')"
    with Cons.IH [OF r(2)] Cons.prems(2) show ?case by simp
  qed
qed simp

text \<open>
  C40. The key of the session of a route, and the key of the main session, name the agent of the route: in every
  sequence of calls, over configurations that are replaced and not changed in place, reading the agent back from
  either key of an answered route gives the agent of the route, for every conversation, whatever colons its channel
  and peer contain, and also for an answer that was cached. The names of the agents in the route bindings have at
  most 64 characters once trimmed; \<open>long_name_leads_elsewhere\<close> shows that a longer one breaks it.
\<close>

theorem session_key_roundtrip:
  assumes "stable ((\<lambda>(dbg, input). inCfg input) ` set calls)" "\<forall>(dbg, input) \<in> set calls. short_names (inCfg input)"
    "route \<in> set (answer_all calls no_caches)"
  shows "resolveAgentIdFromSessionKey (Some (routeSessionKey route)) = routeAgentId route
    \<and> resolveAgentIdFromSessionKey (Some (routeMainSessionKey route)) = routeAgentId route"
proof -
  let ?C = "(\<lambda>(dbg, input). inCfg input) ` set calls"
  have "caches_ok (\<lambda>_. True) ?C no_caches" by (simp add: caches_ok_def no_caches_def memo_of_def)
  note answers_are_routes [OF assms(1) this _ assms(3)]
  moreover have "\<forall>(dbg, input) \<in> set calls. inCfg input \<in> ?C" by force
  ultimately obtain i where i: "inCfg i \<in> ?C" "route = reference_route i" by blast
  with assms(2) have "short_names (inCfg i)" by auto
  from reference_route_settled [OF this] i(2) route_key_names_agent show ?thesis by metis
qed

theorem session_key_roundtrip_witness:
  "map (\<lambda>route. (resolveAgentIdFromSessionKey (Some (routeSessionKey route)),
       resolveAgentIdFromSessionKey (Some (routeMainSessionKey route)))) (answer_all demo_calls no_caches)
   = [(''art'', ''art''), (''ops'', ''ops''), (''art'', ''art''), (''art'', ''art'')]"
proof -
  let ?C = "(\<lambda>(dbg, input). inCfg input) ` set demo_calls" and ?answers = "answer_all demo_calls no_caches"
  have stable: "stable ?C" by (simp add: stable_def demo_calls_def demo_input_def)
  have "short_names demo_config" by code_simp
  then have short: "\<forall>(dbg, input) \<in> set demo_calls. short_names (inCfg input)" by (simp add: demo_calls_def demo_input_def)
  have "caches_ok cacheable ?C no_caches" by (simp add: caches_ok_def no_caches_def memo_of_def)
  from answers_ok [OF stable this, of demo_calls] demo_cacheable have answers: "?answers = map (reference_route \<circ> snd) demo_calls"
    by fastforce
  from session_key_roundtrip [OF stable short] have "map (\<lambda>route. (resolveAgentIdFromSessionKey (Some (routeSessionKey route)),
       resolveAgentIdFromSessionKey (Some (routeMainSessionKey route)))) ?answers
     = map (\<lambda>route. (routeAgentId route, routeAgentId route)) ?answers"
    by (intro map_cong) auto
  then show ?thesis unfolding answers using demo_routes by (auto simp: demo_calls_def)
qed

text \<open>
  An agent whose name starts with an underscore, so that it is not valid as it stands, and is cut at a dash: the key
  of its main session names the agent without the dash, which is another configured agent here.
\<close>

definition long_name :: string where
  "long_name = CHR ''_'' # replicate 62 (CHR ''a'') @ ''-b''"

definition long_config :: OpenClawConfig where
  "long_config = demo_config\<lparr>agentsList := Some [\<lparr>entryId = Some long_name, entryDefault = True\<rparr>,
     \<lparr>entryId = Some (take 63 long_name), entryDefault = False\<rparr>],
     cfgBindings := Some [\<lparr>bindingType = None, bindingAgentId = long_name, bindingMatch = Some demo_match\<rparr>]\<rparr>"

lemma long_name_leads_elsewhere:
  "routeAgentId (reference_route ((demo_input ''c9'')\<lparr>inCfg := long_config\<rparr>)) = take 64 long_name"
  "resolveAgentIdFromSessionKey (Some (routeMainSessionKey (reference_route ((demo_input ''c9'')\<lparr>inCfg := long_config\<rparr>))))
     = take 63 long_name"
  "normalizeAgentId (Some (take 63 long_name)) = take 63 long_name"
  by code_simp+

end
