(* ===== verification/CronSchedule.thy ===== *)
theory CronSchedule
  imports SessionKeys
begin

text \<open>
  The times of scheduled jobs (\<open>src/cron/schedule.ts\<close>, \<open>parse.ts\<close>, \<open>stagger.ts\<close>). A time is an integer of milliseconds;
  what croner answers and what \<open>Date.parse\<close> makes of a text are parameters, and both may fail.
\<close>

text \<open>
  The parameters: \<open>Date.parse\<close>, the next and the previous run that croner finds for an expression in a time zone (or the
  text of the error it throws), the time zone of the host, the first four bytes of a SHA-256, whether a text is a URL
  of http or https, and the reason that the agents read from an error.
\<close>

record CronLib =
  dateParseC :: "string \<Rightarrow> int option"
  cronerNextRun :: "string \<Rightarrow> string \<Rightarrow> int \<Rightarrow> string + int option"
  cronerPreviousRun :: "string \<Rightarrow> string \<Rightarrow> int \<Rightarrow> string + int option"
  localTimezone :: string
  sha256Head :: "string \<Rightarrow> nat"
  isHttpUrl :: "string \<Rightarrow> bool"
  failoverReason :: "string \<Rightarrow> string option"

datatype CronSchedule =
    Cs_at string
  | Cs_every int "int option"
  | Cs_cron string "string option" "int option"

section \<open>Texts that are times\<close>

definition js_digit :: "char \<Rightarrow> bool" where
  "js_digit c \<longleftrightarrow> (let n = (of_char c :: nat) in 48 \<le> n \<and> n \<le> 57)"

definition decimal :: "string \<Rightarrow> int" where
  "decimal s = fold (\<lambda>c n. 10 * n + (int (of_char c) - 48)) s 0"

text \<open>\<open>/^\d{4}-\d{2}-\d{2}/\<close>, and the offset of a time zone at the end\<close>

definition iso_date_head :: "string \<Rightarrow> bool" where
  "iso_date_head s \<longleftrightarrow> length s \<ge> 10 \<and> list_all js_digit (take 4 s) \<and> s ! 4 = CHR ''-'' \<and> list_all js_digit (take 2 (drop 5 s))
     \<and> s ! 7 = CHR ''-'' \<and> list_all js_digit (take 2 (drop 8 s))"

definition iso_tz_end :: "string \<Rightarrow> bool" where
  "iso_tz_end s \<longleftrightarrow> (s \<noteq> '''' \<and> last s \<in> {CHR ''Z'', CHR ''z''})
   \<or> (let t = drop (length s - 6) s in length t = 6 \<and> t ! 0 \<in> {CHR ''+'', CHR ''-''} \<and> list_all js_digit (take 2 (drop 1 t)) \<and> t ! 3 = CHR '':''
        \<and> list_all js_digit (drop 4 t))
   \<or> (let t = drop (length s - 5) s in length t = 5 \<and> t ! 0 \<in> {CHR ''+'', CHR ''-''} \<and> list_all js_digit (drop 1 t))"

definition normalizeUtcIso :: "string \<Rightarrow> string" where
  "normalizeUtcIso raw =
     (if iso_tz_end raw then raw
      else if iso_date_head raw \<and> length raw = 10 then raw @ ''T00:00:00Z''
      else if iso_date_head raw \<and> length raw > 10 \<and> raw ! 10 = CHR ''T'' then raw @ ''Z''
      else raw)"

definition parseAbsoluteTimeMs :: "CronLib \<Rightarrow> string \<Rightarrow> int option" where
  "parseAbsoluteTimeMs lib input =
     (let raw = js_trim input
      in if raw = '''' then None
         else if list_all js_digit raw \<and> decimal raw > 0 then Some (decimal raw)
         else dateParseC lib (normalizeUtcIso raw))"

section \<open>Stagger\<close>

definition DEFAULT_TOP_OF_HOUR_STAGGER_MS :: int where "DEFAULT_TOP_OF_HOUR_STAGGER_MS = 5 * 60 * 1000"

fun split_ws :: "string \<Rightarrow> string \<Rightarrow> string list" where
  "split_ws w [] = (if w = [] then [] else [rev w])"
| "split_ws w (c # s) = (if js_ws c then (if w = [] then [] else [rev w]) @ split_ws [] s else split_ws (c # w) s)"

definition parseCronFields :: "string \<Rightarrow> string list" where
  "parseCronFields expr = split_ws [] (js_trim expr)"

definition isRecurringTopOfHourCronExpr :: "string \<Rightarrow> bool" where
  "isRecurringTopOfHourCronExpr expr = (case parseCronFields expr of
     [minuteField, hourField, _, _, _] \<Rightarrow> minuteField = ''0'' \<and> CHR ''*'' \<in> set hourField
   | [secondField, minuteField, hourField, _, _, _] \<Rightarrow> secondField = ''0'' \<and> minuteField = ''0'' \<and> CHR ''*'' \<in> set hourField
   | _ \<Rightarrow> False)"

definition normalizeCronStaggerMs :: "int option \<Rightarrow> int option" where
  "normalizeCronStaggerMs raw = map_option (\<lambda>numeric. max 0 numeric) raw"

definition resolveDefaultCronStaggerMs :: "string \<Rightarrow> int option" where
  "resolveDefaultCronStaggerMs expr = (if isRecurringTopOfHourCronExpr expr then Some DEFAULT_TOP_OF_HOUR_STAGGER_MS else None)"

definition resolveCronStaggerMs :: "string \<Rightarrow> int option \<Rightarrow> int" where
  "resolveCronStaggerMs expr stagger = (case normalizeCronStaggerMs stagger of
     Some explicit \<Rightarrow> explicit | None \<Rightarrow> nullish (resolveDefaultCronStaggerMs expr) 0)"

section \<open>Next and previous runs\<close>

text \<open>\<open>f\<close> on the value, unless there was an exception\<close>

definition andThen :: "'e + 'a \<Rightarrow> ('a \<Rightarrow> 'e + 'b) \<Rightarrow> 'e + 'b" where
  "andThen x f = (case x of Inl e \<Rightarrow> Inl e | Inr v \<Rightarrow> f v)"

definition resolveCronTimezone :: "CronLib \<Rightarrow> string option \<Rightarrow> string" where
  "resolveCronTimezone lib tz = or_str (nullish (normalizeOptionalString tz) '''') (localTimezone lib)"

definition every_next :: "int \<Rightarrow> int option \<Rightarrow> int \<Rightarrow> int" where
  "every_next everyRaw anchorRaw nowMs =
     (let everyMs = max 1 everyRaw; anchor = max 0 (nullish anchorRaw nowMs)
      in if nowMs < anchor then anchor
         else let elapsed = nowMs - anchor; steps = max 1 ((elapsed + everyMs - 1) div everyMs)
              in anchor + steps * everyMs)"

definition DAY_MS :: int where "DAY_MS = 24 * 60 * 60 * 1000"

definition cron_next :: "(int \<Rightarrow> string + int option) \<Rightarrow> int \<Rightarrow> string + int option" where
  "cron_next nextRun nowMs = andThen (nextRun nowMs) (\<lambda>n. case n of None \<Rightarrow> Inr None
     | Some nextMs \<Rightarrow>
       if nextMs > nowMs then Inr (Some nextMs)
       else andThen (nextRun (nowMs div 1000 * 1000 + 1000)) (\<lambda>retry. case retry of
              Some retryMs \<Rightarrow> if retryMs > nowMs then Inr (Some retryMs)
                else andThen (nextRun ((nowMs div DAY_MS + 1) * DAY_MS)) (\<lambda>retry2. Inr (case retry2 of
                  Some retry2Ms \<Rightarrow> if retry2Ms > nowMs then Some retry2Ms else None | None \<Rightarrow> None))
            | None \<Rightarrow> andThen (nextRun ((nowMs div DAY_MS + 1) * DAY_MS)) (\<lambda>retry2. Inr (case retry2 of
                  Some retry2Ms \<Rightarrow> if retry2Ms > nowMs then Some retry2Ms else None | None \<Rightarrow> None))))"

definition computeNextRunAtMs :: "CronLib \<Rightarrow> CronSchedule \<Rightarrow> int \<Rightarrow> string + int option" where
  "computeNextRunAtMs lib schedule nowMs = (case schedule of
     Cs_at raw \<Rightarrow> (case parseAbsoluteTimeMs lib raw of None \<Rightarrow> Inr None
       | Some atMs \<Rightarrow> Inr (if atMs > nowMs then Some atMs else None))
   | Cs_every everyMs anchor \<Rightarrow> Inr (Some (every_next everyMs anchor nowMs))
   | Cs_cron expr tz _ \<Rightarrow>
       (if js_trim expr = '''' then Inr None
        else cron_next (cronerNextRun lib (js_trim expr) (resolveCronTimezone lib tz)) nowMs))"

definition computePreviousRunAtMs :: "CronLib \<Rightarrow> CronSchedule \<Rightarrow> int \<Rightarrow> string + int option" where
  "computePreviousRunAtMs lib schedule nowMs = (case schedule of
     Cs_cron expr tz _ \<Rightarrow>
       (if js_trim expr = '''' then Inr None
        else andThen (cronerPreviousRun lib (js_trim expr) (resolveCronTimezone lib tz) nowMs)
          (\<lambda>previous. Inr (case previous of Some p \<Rightarrow> if p \<ge> nowMs then None else Some p | None \<Rightarrow> None)))
   | _ \<Rightarrow> Inr None)"

definition resolveStableCronOffsetMs :: "CronLib \<Rightarrow> string \<Rightarrow> int \<Rightarrow> int" where
  "resolveStableCronOffsetMs lib jid staggerMs = (if staggerMs \<le> 1 then 0 else int (sha256Head lib jid) mod staggerMs)"

text \<open>The loop of four attempts\<close>

fun staggered_next :: "(int \<Rightarrow> string + int option) \<Rightarrow> int \<Rightarrow> int \<Rightarrow> nat \<Rightarrow> int \<Rightarrow> string + int option" where
  "staggered_next compute offsetMs nowMs 0 cursorMs = Inr None"
| "staggered_next compute offsetMs nowMs (Suc attempts) cursorMs = andThen (compute cursorMs) (\<lambda>next. case next of None \<Rightarrow> Inr None
     | Some baseNext \<Rightarrow>
       if baseNext + offsetMs > nowMs then Inr (Some (baseNext + offsetMs))
       else staggered_next compute offsetMs nowMs attempts (max (cursorMs + 1) (baseNext + 1000)))"

fun staggered_previous :: "(int \<Rightarrow> string + int option) \<Rightarrow> int \<Rightarrow> int \<Rightarrow> nat \<Rightarrow> int \<Rightarrow> string + int option" where
  "staggered_previous compute offsetMs nowMs 0 cursorMs = Inr None"
| "staggered_previous compute offsetMs nowMs (Suc attempts) cursorMs = andThen (compute cursorMs) (\<lambda>previous. case previous of None \<Rightarrow> Inr None
     | Some basePrevious \<Rightarrow>
       if basePrevious + offsetMs \<le> nowMs then Inr (Some (basePrevious + offsetMs))
       else staggered_previous compute offsetMs nowMs attempts (max 0 (basePrevious - 1000)))"

definition computeStaggeredCronNextRunAtMs :: "CronLib \<Rightarrow> string \<Rightarrow> CronSchedule \<Rightarrow> int \<Rightarrow> string + int option" where
  "computeStaggeredCronNextRunAtMs lib jid schedule nowMs = (case schedule of
     Cs_cron expr _ stagger \<Rightarrow>
       (let offsetMs = resolveStableCronOffsetMs lib jid (resolveCronStaggerMs expr stagger)
        in if offsetMs \<le> 0 then computeNextRunAtMs lib schedule nowMs
           else staggered_next (computeNextRunAtMs lib schedule) offsetMs nowMs 4 (max 0 (nowMs - offsetMs)))
   | _ \<Rightarrow> computeNextRunAtMs lib schedule nowMs)"

definition computeStaggeredCronPreviousRunAtMs :: "CronLib \<Rightarrow> string \<Rightarrow> CronSchedule \<Rightarrow> int \<Rightarrow> string + int option" where
  "computeStaggeredCronPreviousRunAtMs lib jid schedule nowMs = (case schedule of
     Cs_cron expr _ stagger \<Rightarrow>
       (let offsetMs = resolveStableCronOffsetMs lib jid (resolveCronStaggerMs expr stagger)
        in if offsetMs \<le> 0 then computePreviousRunAtMs lib schedule nowMs
           else staggered_previous (computePreviousRunAtMs lib schedule) offsetMs nowMs 4 (max 0 (nowMs - offsetMs)))
   | _ \<Rightarrow> Inr None)"

end
