(* ===== verification/CronJobs.thy ===== *)
theory CronJobs
  imports CronSchedule
begin

text \<open>
  Scheduled jobs (\<open>src/cron/types.ts\<close>, \<open>src/cron/service/jobs.ts\<close>, \<open>normalize.ts\<close>, \<open>initial-delivery.ts\<close>): their records,
  when they run next, how they are created and changed. A function that changes a job takes it and gives it back.
\<close>

section \<open>Types\<close>

datatype CronRunStatus = Rs_ok | Rs_error | Rs_skipped
datatype CronWakeMode = Wm_now | Wm_next_heartbeat
datatype CronDeliveryMode = Dm_none | Dm_announce | Dm_webhook
datatype CronDeliveryStatus = Ds_delivered | Ds_not_delivered | Ds_unknown | Ds_not_requested

record CronFailureDestination =
  channelFd :: "string option"
  toFd :: "string option"
  accountIdFd :: "string option"
  modeFd :: "CronDeliveryMode option"

record CronDelivery =
  modeC :: CronDeliveryMode
  channelC :: "string option"
  toC :: "string option"
  threadIdC :: "ThreadId option"
  accountIdC :: "string option"
  bestEffortC :: "bool option"
  failureDestinationC :: "CronFailureDestination option"

record CronFailureAlert =
  afterA :: "int option"
  channelFa :: "string option"
  toFa :: "string option"
  cooldownMsA :: "int option"
  modeFa :: "CronDeliveryMode option"
  accountIdFa :: "string option"

text \<open>\<open>CronFailureAlert | false | undefined\<close>\<close>

datatype CronAlertSetting = Alert_unset | Alert_off | Alert_on CronFailureAlert

record CronAgentTurn =
  messageT :: string
  modelT :: "string option"
  fallbacksT :: "string list option"
  thinkingT :: "string option"
  timeoutSecondsT :: "int option"
  allowUnsafeT :: "bool option"
  externalSourceT :: "string option"
  lightContextT :: "bool option"
  toolsAllowT :: "string list option"

datatype CronPayload = SystemEvent string | AgentTurn CronAgentTurn

record CronJobState =
  nextRunAtMs :: "int option"
  runningAtMs :: "int option"
  lastRunAtMs :: "int option"
  lastRunStatus :: "CronRunStatus option"
  lastStatus :: "CronRunStatus option"
  lastErrorC :: "string option"
  lastErrorReason :: "string option"
  lastDurationMs :: "int option"
  consecutiveErrors :: "int option"
  lastFailureAlertAtMs :: "int option"
  scheduleErrorCount :: "int option"
  lastDeliveryStatusC :: "CronDeliveryStatus option"
  lastDeliveryErrorC :: "string option"
  lastDelivered :: "bool option"

record CronJob =
  jobId :: string
  agentIdC :: "string option"
  sessionKeyC :: "string option"
  jobName :: string
  jobDescription :: "string option"
  jobEnabled :: bool
  deleteAfterRun :: "bool option"
  createdAtMs :: int
  updatedAtMs :: int
  jobSchedule :: CronSchedule
  sessionTarget :: string
  wakeMode :: CronWakeMode
  jobPayload :: CronPayload
  jobDelivery :: "CronDelivery option"
  jobFailureAlert :: CronAlertSetting
  jobState :: CronJobState

record CronJobCreate =
  agentIdI :: "string option"
  sessionKeyI :: "string option"
  nameI :: "string option"
  descriptionI :: "string option"
  enabledI :: "bool option"
  deleteAfterRunI :: "bool option"
  scheduleI :: CronSchedule
  sessionTargetI :: string
  wakeModeI :: CronWakeMode
  payloadI :: CronPayload
  deliveryI :: "CronDelivery option"
  failureAlertI :: CronAlertSetting
  stateI :: CronJobState

text \<open>
  Patches: an outer option says whether the field is in the patch. What a patch does to the state of a job is given as
  a function, the spreading of the fields that it has.
\<close>

record CronAgentTurnPatch =
  messageP :: "string option"
  modelP :: "string option"
  fallbacksP :: "string list option"
  thinkingP :: "string option"
  timeoutSecondsP :: "int option"
  allowUnsafeP :: "bool option"
  lightContextP :: "bool option"
  toolsAllowP :: "string list option option"

datatype CronPayloadPatch = SystemEventPatch "string option" | AgentTurnPatch CronAgentTurnPatch

record CronFailureDestinationPatch =
  channelFp :: "string option option"
  toFp :: "string option option"
  accountIdFp :: "string option option"
  modeFp :: "string option option"

record CronDeliveryPatch =
  modeDp :: "CronDeliveryMode option"
  channelDp :: "string option option"
  toDp :: "string option option"
  threadIdDp :: "ThreadId option option"
  accountIdDp :: "string option option"
  bestEffortDp :: "bool option"
  failureDestinationDp :: "CronFailureDestinationPatch option option"

record CronFailureAlertPatch =
  afterAp :: "int option option"
  channelAp :: "string option option"
  toAp :: "string option option"
  cooldownMsAp :: "int option option"
  modeAp :: "string option option"
  accountIdAp :: "string option option"

datatype CronAlertPatch = Alert_absent | Alert_undefined | Alert_false | Alert_patch CronFailureAlertPatch

record CronJobPatch =
  nameJp :: "string option option"
  descriptionJp :: "string option option"
  enabledJp :: "bool option"
  deleteAfterRunJp :: "bool option"
  scheduleJp :: "CronSchedule option"
  sessionTargetJp :: "string option"
  wakeModeJp :: "CronWakeMode option"
  payloadJp :: "CronPayloadPatch option"
  deliveryJp :: "CronDeliveryPatch option"
  failureAlertJp :: CronAlertPatch
  stateJp :: "(CronJobState \<Rightarrow> CronJobState) option"
  agentIdJp :: "string option option"
  sessionKeyJp :: "string option option"

datatype CronError =
    Name_required
  | Unknown_cron_job string
  | Invalid_session_target_id
  | Main_requires_system_event
  | Isolated_requires_agent_turn
  | Main_not_default_agent string
  | Webhook_requires_url
  | Channel_delivery_not_isolated
  | Failure_destination_not_isolated
  | Failure_webhook_requires_url
  | System_event_requires_text
  | Agent_turn_requires_message
  | Croner_error string

text \<open>What a job does to the outside: events for listeners, texts for sessions, heartbeats, alerts and the task registry.\<close>

record CronEvent =
  jobIdE :: string
  actionE :: string
  runAtMsE :: "int option"
  durationMsE :: "int option"
  statusE :: "CronRunStatus option"
  errorE :: "string option"
  deliveredE :: "bool option"
  deliveryStatusE :: "CronDeliveryStatus option"
  deliveryErrorE :: "string option"
  nextRunAtMsE :: "int option"

datatype CronEffect =
    Ce_event CronEvent
  | Ce_auto_disabled string string int string "string option" "string option"
  | Ce_system_event string "string option" "string option" "string option"
  | Ce_heartbeat string "string option" "string option"
  | Ce_failure_alert string string string "string option" "CronDeliveryMode option" "string option"
  | Ce_task_started string int
  | Ce_task_ended string CronRunStatus

section \<open>When a job runs next\<close>

definition hasScheduledNextRunAtMs :: "int option \<Rightarrow> bool" where
  "hasScheduledNextRunAtMs v = (case v of None \<Rightarrow> False | Some n \<Rightarrow> n > 0)"

definition resolveEveryAnchorMs :: "int option \<Rightarrow> int \<Rightarrow> int" where
  "resolveEveryAnchorMs anchorMs fallbackAnchorMs = max 0 (nullish anchorMs fallbackAnchorMs)"

definition computeJobNextRunAtMs :: "CronLib \<Rightarrow> CronJob \<Rightarrow> int \<Rightarrow> string + int option" where
  "computeJobNextRunAtMs lib job nowMs =
     (if \<not> jobEnabled job then Inr None
      else case jobSchedule job of
        Cs_every everyRaw anchor \<Rightarrow>
          (let everyMs = max 1 everyRaw;
               fromGrid = computeNextRunAtMs lib (Cs_every everyMs (Some (resolveEveryAnchorMs anchor (createdAtMs job)))) nowMs
           in case lastRunAtMs (jobState job) of
                Some lastRun \<Rightarrow> if lastRun + everyMs > nowMs then Inr (Some (lastRun + everyMs)) else fromGrid
              | None \<Rightarrow> fromGrid)
      | Cs_at raw \<Rightarrow>
          (let atMs = parseAbsoluteTimeMs lib raw
           in Inr (if lastStatus (jobState job) = Some Rs_ok \<and> truthy_num (lastRunAtMs (jobState job))
                   then (case atMs of Some t \<Rightarrow> if t > the (lastRunAtMs (jobState job)) then Some t else None | None \<Rightarrow> None)
                   else atMs))
      | Cs_cron _ _ _ \<Rightarrow>
          andThen (computeStaggeredCronNextRunAtMs lib (jobId job) (jobSchedule job) nowMs) (\<lambda>next. case next of
            None \<Rightarrow> computeStaggeredCronNextRunAtMs lib (jobId job) (jobSchedule job) (nowMs div 1000 * 1000 + 1000)
          | Some n \<Rightarrow> Inr (Some n)))"

definition computeJobPreviousRunAtMs :: "CronLib \<Rightarrow> CronJob \<Rightarrow> int \<Rightarrow> string + int option" where
  "computeJobPreviousRunAtMs lib job nowMs = (case jobSchedule job of
     Cs_cron _ _ _ \<Rightarrow> if \<not> jobEnabled job then Inr None
       else computeStaggeredCronPreviousRunAtMs lib (jobId job) (jobSchedule job) nowMs
   | _ \<Rightarrow> Inr None)"

abbreviation with_state :: "(CronJobState \<Rightarrow> CronJobState) \<Rightarrow> CronJob \<Rightarrow> CronJob" where
  "with_state f job \<equiv> job\<lparr>jobState := f (jobState job)\<rparr>"

definition MAX_SCHEDULE_ERRORS :: int where "MAX_SCHEDULE_ERRORS = 3"

definition auto_disabled_key :: "string \<Rightarrow> string" where
  "auto_disabled_key jid = ''cron:'' @ jid @ '':auto-disabled''"

definition recordScheduleComputeError :: "CronJob \<Rightarrow> string \<Rightarrow> CronJob \<times> CronEffect list" where
  "recordScheduleComputeError job err =
     (let errorCount = nullish (scheduleErrorCount (jobState job)) 0 + 1;
          job1 = with_state (\<lambda>s. s\<lparr>scheduleErrorCount := Some errorCount, nextRunAtMs := None,
            lastErrorC := Some (''schedule error: '' @ err)\<rparr>) job
      in if errorCount \<ge> MAX_SCHEDULE_ERRORS
         then (job1\<lparr>jobEnabled := False\<rparr>,
               [Ce_auto_disabled (jobId job) (jobName job) errorCount err (agentIdC job) (sessionKeyC job),
                Ce_heartbeat (auto_disabled_key (jobId job)) (agentIdC job) (sessionKeyC job)])
         else (job1, []))"

definition STUCK_RUN_MS :: int where "STUCK_RUN_MS = 2 * 60 * 60 * 1000"

text \<open>The changed job, whether it changed, and whether the walk skips it\<close>

definition normalizeJobTickState :: "int \<Rightarrow> CronJob \<Rightarrow> CronJob \<times> bool \<times> bool" where
  "normalizeJobTickState nowMs job =
     (let (job1, changed1) = (case jobSchedule job of
            Cs_every everyMs anchor \<Rightarrow>
              (let normalized = resolveEveryAnchorMs anchor (createdAtMs job)
               in if anchor \<noteq> Some normalized then (job\<lparr>jobSchedule := Cs_every everyMs (Some normalized)\<rparr>, True) else (job, False))
          | _ \<Rightarrow> (job, False));
          s = jobState job1
      in if \<not> jobEnabled job1
         then (with_state (\<lambda>s. s\<lparr>nextRunAtMs := None, runningAtMs := None\<rparr>) job1,
               changed1 \<or> nextRunAtMs s \<noteq> None \<or> runningAtMs s \<noteq> None, True)
         else (let (job2, changed2) = (if \<not> hasScheduledNextRunAtMs (nextRunAtMs s) \<and> nextRunAtMs s \<noteq> None
                     then (with_state (\<lambda>s. s\<lparr>nextRunAtMs := None\<rparr>) job1, True) else (job1, changed1))
               in case runningAtMs s of
                    Some runningAt \<Rightarrow>
                      if nowMs - runningAt > STUCK_RUN_MS
                      then (with_state (\<lambda>s. s\<lparr>runningAtMs := None\<rparr>) job2, True, False) else (job2, changed2, False)
                  | None \<Rightarrow> (job2, changed2, False)))"

text \<open>A walk over the jobs: the jobs, whether one changed, and the effects\<close>

fun walkSchedulableJobs :: "(CronJob \<Rightarrow> CronJob \<times> bool \<times> CronEffect list) \<Rightarrow> int \<Rightarrow> CronJob list \<Rightarrow> CronJob list \<times> bool \<times> CronEffect list" where
  "walkSchedulableJobs fn nowMs [] = ([], False, [])"
| "walkSchedulableJobs fn nowMs (job # jobs) =
     (let (job1, changed1, skip) = normalizeJobTickState nowMs job;
          (job2, changed2, effects) = (if skip then (job1, False, []) else fn job1);
          (rest, changed, more) = walkSchedulableJobs fn nowMs jobs
      in (job2 # rest, changed1 \<or> changed2 \<or> changed, effects @ more))"

definition recomputeJobNextRunAtMs :: "CronLib \<Rightarrow> int \<Rightarrow> CronJob \<Rightarrow> CronJob \<times> bool \<times> CronEffect list" where
  "recomputeJobNextRunAtMs lib nowMs job = (case computeJobNextRunAtMs lib job nowMs of
     Inr newNext \<Rightarrow>
       (let counted = truthy_num (scheduleErrorCount (jobState job))
        in (with_state (\<lambda>s. s\<lparr>nextRunAtMs := newNext, scheduleErrorCount := if counted then None else scheduleErrorCount s\<rparr>) job,
            nextRunAtMs (jobState job) \<noteq> newNext \<or> counted, []))
   | Inl err \<Rightarrow> (case recordScheduleComputeError job err of (job1, effects) \<Rightarrow> (job1, True, effects)))"

definition recomputeNextRuns :: "CronLib \<Rightarrow> int \<Rightarrow> CronJob list \<Rightarrow> CronJob list \<times> bool \<times> CronEffect list" where
  "recomputeNextRuns lib nowMs = walkSchedulableJobs (\<lambda>job.
     let nextRun = nextRunAtMs (jobState job)
     in if \<not> hasScheduledNextRunAtMs nextRun \<or> nowMs \<ge> the nextRun then recomputeJobNextRunAtMs lib nowMs job
        else (job, False, [])) nowMs"

definition recomputeNextRunsForMaintenance :: "CronLib \<Rightarrow> bool \<Rightarrow> int \<Rightarrow> CronJob list \<Rightarrow> CronJob list \<times> bool \<times> CronEffect list" where
  "recomputeNextRunsForMaintenance lib recomputeExpired nowMs = walkSchedulableJobs (\<lambda>job.
     let s = jobState job
     in if \<not> hasScheduledNextRunAtMs (nextRunAtMs s) then recomputeJobNextRunAtMs lib nowMs job
        else if recomputeExpired \<and> nowMs \<ge> the (nextRunAtMs s) \<and> runningAtMs s = None
          \<and> (case lastRunAtMs s of Some lastRun \<Rightarrow> lastRun \<ge> the (nextRunAtMs s) | None \<Rightarrow> False)
        then recomputeJobNextRunAtMs lib nowMs job
        else (job, False, [])) nowMs"

definition nextWakeAtMs :: "CronJob list \<Rightarrow> int option" where
  "nextWakeAtMs jobs = (case map (\<lambda>j. the (nextRunAtMs (jobState j)))
       (filter (\<lambda>j. jobEnabled j \<and> hasScheduledNextRunAtMs (nextRunAtMs (jobState j))) jobs) of
     [] \<Rightarrow> None | n # ns \<Rightarrow> Some (fold (\<lambda>m acc. min acc m) ns n))"

definition isJobDue :: "CronJob \<Rightarrow> int \<Rightarrow> bool \<Rightarrow> bool" where
  "isJobDue job nowMs forced =
     (if runningAtMs (jobState job) \<noteq> None then False
      else if forced then True
      else jobEnabled job \<and> hasScheduledNextRunAtMs (nextRunAtMs (jobState job)) \<and> nowMs \<ge> the (nextRunAtMs (jobState job)))"

definition find_job :: "CronJob list \<Rightarrow> string \<Rightarrow> CronJob option" where
  "find_job jobs jid = List.find (\<lambda>j. jobId j = jid) jobs"

fun map_first :: "('a \<Rightarrow> bool) \<Rightarrow> ('a \<Rightarrow> 'a) \<Rightarrow> 'a list \<Rightarrow> 'a list" where
  "map_first P f [] = []"
| "map_first P f (x # xs) = (if P x then f x # xs else x # map_first P f xs)"

definition findJobOrThrow :: "CronJob list \<Rightarrow> string \<Rightarrow> CronError + CronJob" where
  "findJobOrThrow jobs jid = (case find_job jobs jid of None \<Rightarrow> Inl (Unknown_cron_job jid) | Some j \<Rightarrow> Inr j)"

end
