(* ===== verification/CronEdit.thy ===== *)
theory CronEdit
  imports CronJobs
begin

text \<open>
  Creating and changing jobs (\<open>createJob\<close>, \<open>applyJobPatch\<close> and what they check, of \<open>src/cron/service/jobs.ts\<close>). A patch
  is applied to the job that the service holds, field by field; when a check fails, what was changed before stays.
\<close>

section \<open>Checks\<close>

definition normalizeRequiredName :: "string option \<Rightarrow> CronError + string" where
  "normalizeRequiredName raw = (case raw of None \<Rightarrow> Inl Name_required
     | Some s \<Rightarrow> if js_trim s = '''' then Inl Name_required else Inr (js_trim s))"

definition normalizeOptionalAgentId :: "string option \<Rightarrow> string option" where
  "normalizeOptionalAgentId raw = map_option (\<lambda>trimmed. normalizeAgentId (Some trimmed)) (normalizeOptionalString raw)"

definition normalizeHttpWebhookUrl :: "CronLib \<Rightarrow> string option \<Rightarrow> string option" where
  "normalizeHttpWebhookUrl lib v = (case v of None \<Rightarrow> None
     | Some s \<Rightarrow> let trimmed = js_trim s in if trimmed \<noteq> '''' \<and> isHttpUrl lib trimmed then Some trimmed else None)"

definition is_session_target :: "string \<Rightarrow> bool" where
  "is_session_target target = (take 8 target = ''session:'')"

definition isolated_like :: "string \<Rightarrow> bool" where
  "isolated_like target \<longleftrightarrow> target = ''isolated'' \<or> target = ''current'' \<or> is_session_target target"

definition safe_session_id :: "string \<Rightarrow> bool" where
  "safe_session_id sid = (let trimmed = js_trim sid
     in trimmed \<noteq> '''' \<and> CHR ''/'' \<notin> set trimmed \<and> CHR 0x5C \<notin> set trimmed \<and> CHR 0x00 \<notin> set trimmed)"

definition is_agent_turn :: "CronPayload \<Rightarrow> bool" where
  "is_agent_turn p = (case p of AgentTurn _ \<Rightarrow> True | SystemEvent _ \<Rightarrow> False)"

text \<open>A check gives the error that it throws.\<close>

definition assertSupportedJobSpec :: "CronJob \<Rightarrow> CronError option" where
  "assertSupportedJobSpec job =
     (if is_session_target (sessionTarget job) \<and> \<not> safe_session_id (drop 8 (sessionTarget job)) then Some Invalid_session_target_id
      else if sessionTarget job = ''main'' \<and> is_agent_turn (jobPayload job) then Some Main_requires_system_event
      else if isolated_like (sessionTarget job) \<and> \<not> is_agent_turn (jobPayload job) then Some Isolated_requires_agent_turn
      else None)"

definition assertMainSessionAgentId :: "string option \<Rightarrow> CronJob \<Rightarrow> CronError option" where
  "assertMainSessionAgentId defaultAgentId job =
     (if sessionTarget job \<noteq> ''main'' \<or> \<not> truthy (agentIdC job) then None
      else if normalizeAgentId (agentIdC job) \<noteq> normalizeAgentId defaultAgentId then Some (Main_not_default_agent (the (agentIdC job)))
      else None)"

text \<open>These two also write the normal form of a webhook into the job.\<close>

definition assertDeliverySupport :: "CronLib \<Rightarrow> CronJob \<Rightarrow> CronError option \<times> CronJob" where
  "assertDeliverySupport lib job = (case jobDelivery job of None \<Rightarrow> (None, job)
     | Some d \<Rightarrow>
       (case modeC d of
          Dm_none \<Rightarrow> (None, job)
        | Dm_webhook \<Rightarrow> (case normalizeHttpWebhookUrl lib (toC d) of None \<Rightarrow> (Some Webhook_requires_url, job)
            | Some target \<Rightarrow> (None, job\<lparr>jobDelivery := Some (d\<lparr>toC := Some target\<rparr>)\<rparr>))
        | Dm_announce \<Rightarrow> (if isolated_like (sessionTarget job) then None else Some Channel_delivery_not_isolated, job)))"

definition assertFailureDestinationSupport :: "CronLib \<Rightarrow> CronJob \<Rightarrow> CronError option \<times> CronJob" where
  "assertFailureDestinationSupport lib job = (case jobDelivery job of None \<Rightarrow> (None, job)
     | Some d \<Rightarrow> (case failureDestinationC d of None \<Rightarrow> (None, job)
       | Some fd \<Rightarrow>
         (if sessionTarget job = ''main'' \<and> modeC d \<noteq> Dm_webhook then (Some Failure_destination_not_isolated, job)
          else if modeFd fd = Some Dm_webhook
          then (case normalizeHttpWebhookUrl lib (toFd fd) of None \<Rightarrow> (Some Failure_webhook_requires_url, job)
            | Some target \<Rightarrow> (None, job\<lparr>jobDelivery := Some (d\<lparr>failureDestinationC := Some (fd\<lparr>toFd := Some target\<rparr>)\<rparr>)\<rparr>))
          else (None, job))))"

text \<open>Steps that may throw, one after the other on one job.\<close>

type_synonym job_step = "CronJob \<Rightarrow> CronError option \<times> CronJob"

fun job_steps :: "job_step list \<Rightarrow> job_step" where
  "job_steps [] job = (None, job)"
| "job_steps (step # steps) job = (case step job of (Some err, job1) \<Rightarrow> (Some err, job1) | (None, job1) \<Rightarrow> job_steps steps job1)"

definition check_step :: "(CronJob \<Rightarrow> CronError option) \<Rightarrow> job_step" where
  "check_step check job = (check job, job)"

definition set_step :: "(CronJob \<Rightarrow> CronJob) \<Rightarrow> job_step" where
  "set_step f job = (None, f job)"

definition job_checks :: "CronLib \<Rightarrow> string option \<Rightarrow> job_step list" where
  "job_checks lib defaultAgentId = [check_step assertSupportedJobSpec, check_step (assertMainSessionAgentId defaultAgentId),
     assertDeliverySupport lib, assertFailureDestinationSupport lib]"

section \<open>Creating\<close>

definition resolveInitialCronDelivery :: "CronJobCreate \<Rightarrow> CronDelivery option" where
  "resolveInitialCronDelivery i = (case deliveryI i of Some d \<Rightarrow> Some d
     | None \<Rightarrow> if sessionTargetI i = ''isolated'' \<and> is_agent_turn (payloadI i)
       then Some \<lparr>modeC = Dm_announce, channelC = None, toC = None, threadIdC = None, accountIdC = None, bestEffortC = None,
         failureDestinationC = None\<rparr> else None)"

definition created_schedule :: "int \<Rightarrow> CronSchedule \<Rightarrow> CronSchedule" where
  "created_schedule now schedule = (case schedule of
     Cs_every everyMs anchor \<Rightarrow> Cs_every everyMs (Some (resolveEveryAnchorMs anchor now))
   | Cs_cron expr tz stagger \<Rightarrow> Cs_cron expr tz (orElse (normalizeCronStaggerMs stagger) (orElse (resolveDefaultCronStaggerMs expr) stagger))
   | Cs_at raw \<Rightarrow> Cs_at raw)"

definition createJob :: "CronLib \<Rightarrow> string option \<Rightarrow> int \<Rightarrow> string \<Rightarrow> CronJobCreate \<Rightarrow> CronError + CronJob" where
  "createJob lib defaultAgentId now uuid i = andThen (normalizeRequiredName (nameI i)) (\<lambda>nm.
     let schedule = created_schedule now (scheduleI i);
         job = \<lparr>jobId = uuid, agentIdC = normalizeOptionalAgentId (agentIdI i), sessionKeyC = normalizeOptionalString (sessionKeyI i),
           jobName = nm, jobDescription = normalizeOptionalString (descriptionI i), jobEnabled = nullish (enabledI i) True,
           deleteAfterRun = orElse (deleteAfterRunI i) (case schedule of Cs_at _ \<Rightarrow> Some True | _ \<Rightarrow> None),
           createdAtMs = now, updatedAtMs = now, jobSchedule = schedule, sessionTarget = sessionTargetI i, wakeMode = wakeModeI i,
           jobPayload = payloadI i, jobDelivery = resolveInitialCronDelivery i, jobFailureAlert = failureAlertI i, jobState = stateI i\<rparr>
     in case job_steps (job_checks lib defaultAgentId) job of
          (Some err, _) \<Rightarrow> Inl err
        | (None, job1) \<Rightarrow> (case computeJobNextRunAtMs lib job1 now of Inl text \<Rightarrow> Inl (Croner_error text)
            | Inr next \<Rightarrow> Inr (with_state (\<lambda>s. s\<lparr>nextRunAtMs := next\<rparr>) job1)))"

section \<open>Patching\<close>

definition patched_schedule :: "CronSchedule \<Rightarrow> CronSchedule \<Rightarrow> CronSchedule" where
  "patched_schedule old new = (case new of
     Cs_cron expr tz stagger \<Rightarrow>
       (case normalizeCronStaggerMs stagger of Some explicit \<Rightarrow> Cs_cron expr tz (Some explicit)
        | None \<Rightarrow> (case old of Cs_cron _ _ oldStagger \<Rightarrow> Cs_cron expr tz oldStagger
            | _ \<Rightarrow> Cs_cron expr tz (orElse (resolveDefaultCronStaggerMs expr) stagger)))
   | _ \<Rightarrow> new)"

definition buildPayloadFromPatch :: "CronPayloadPatch \<Rightarrow> CronError + CronPayload" where
  "buildPayloadFromPatch patch = (case patch of
     SystemEventPatch text \<Rightarrow> if truthy text then Inr (SystemEvent (the text)) else Inl System_event_requires_text
   | AgentTurnPatch p \<Rightarrow> if truthy (messageP p)
       then Inr (AgentTurn \<lparr>messageT = the (messageP p), modelT = modelP p, fallbacksT = fallbacksP p, thinkingT = thinkingP p,
         timeoutSecondsT = timeoutSecondsP p, allowUnsafeT = allowUnsafeP p, externalSourceT = None, lightContextT = lightContextP p,
         toolsAllowT = nullish (toolsAllowP p) None\<rparr>)
       else Inl Agent_turn_requires_message)"

definition mergeCronPayload :: "CronPayload \<Rightarrow> CronPayloadPatch \<Rightarrow> CronError + CronPayload" where
  "mergeCronPayload existing patch = (case (existing, patch) of
     (SystemEvent text, SystemEventPatch new) \<Rightarrow> Inr (SystemEvent (nullish new text))
   | (AgentTurn e, AgentTurnPatch p) \<Rightarrow>
       Inr (AgentTurn (e\<lparr>messageT := nullish (messageP p) (messageT e), modelT := orElse (modelP p) (modelT e),
         fallbacksT := orElse (fallbacksP p) (fallbacksT e), toolsAllowT := nullish (toolsAllowP p) (toolsAllowT e),
         thinkingT := orElse (thinkingP p) (thinkingT e), timeoutSecondsT := orElse (timeoutSecondsP p) (timeoutSecondsT e),
         lightContextT := orElse (lightContextP p) (lightContextT e), allowUnsafeT := orElse (allowUnsafeP p) (allowUnsafeT e)\<rparr>))
   | _ \<Rightarrow> buildPayloadFromPatch patch)"

text \<open>\<open>if (field in patch)\<close>\<close>

definition given :: "'a option \<Rightarrow> ('a \<Rightarrow> 'b) \<Rightarrow> 'b \<Rightarrow> 'b" where
  "given field f old = (case field of None \<Rightarrow> old | Some v \<Rightarrow> f v)"

definition normal_mode :: "string option \<Rightarrow> CronDeliveryMode option" where
  "normal_mode v = (let mode = nullish (normalizeOptionalString v) ''''
     in if mode = ''announce'' then Some Dm_announce else if mode = ''webhook'' then Some Dm_webhook else None)"

definition normalizeOptionalThreadValue :: "ThreadId option \<Rightarrow> ThreadId option" where
  "normalizeOptionalThreadValue v = (case v of None \<Rightarrow> None | Some (ThreadNum n) \<Rightarrow> Some (ThreadNum n)
     | Some (ThreadStr s) \<Rightarrow> map_option ThreadStr (normalizeOptionalString (Some s)))"

definition merged_failure_destination :: "CronFailureDestination option \<Rightarrow> CronFailureDestinationPatch \<Rightarrow> CronFailureDestination" where
  "merged_failure_destination existing p =
     (let fd = nullish existing \<lparr>channelFd = None, toFd = None, accountIdFd = None, modeFd = None\<rparr>
      in fd\<lparr>channelFd := given (channelFp p) normalizeOptionalString (channelFd fd), toFd := given (toFp p) normalizeOptionalString (toFd fd),
           accountIdFd := given (accountIdFp p) normalizeOptionalString (accountIdFd fd), modeFd := given (modeFp p) normal_mode (modeFd fd)\<rparr>)"

definition mergeCronDelivery :: "CronDelivery option \<Rightarrow> CronDeliveryPatch \<Rightarrow> CronDelivery" where
  "mergeCronDelivery existing p =
     (let d = nullish existing \<lparr>modeC = Dm_none, channelC = None, toC = None, threadIdC = None, accountIdC = None, bestEffortC = None,
        failureDestinationC = None\<rparr>
      in d\<lparr>modeC := nullish (modeDp p) (modeC d), channelC := given (channelDp p) normalizeOptionalString (channelC d),
           toC := given (toDp p) normalizeOptionalString (toC d), threadIdC := given (threadIdDp p) normalizeOptionalThreadValue (threadIdC d),
           accountIdC := given (accountIdDp p) normalizeOptionalString (accountIdC d), bestEffortC := orElse (bestEffortDp p) (bestEffortC d),
           failureDestinationC := given (failureDestinationDp p)
             (map_option (merged_failure_destination (failureDestinationC d))) (failureDestinationC d)\<rparr>)"

definition mergeCronFailureAlert :: "CronAlertSetting \<Rightarrow> CronAlertPatch \<Rightarrow> CronAlertSetting" where
  "mergeCronFailureAlert existing patch = (case patch of
     Alert_absent \<Rightarrow> existing | Alert_undefined \<Rightarrow> existing | Alert_false \<Rightarrow> Alert_off
   | Alert_patch p \<Rightarrow>
       (let a = (case existing of Alert_on a \<Rightarrow> a | _ \<Rightarrow> \<lparr>afterA = None, channelFa = None, toFa = None, cooldownMsA = None,
              modeFa = None, accountIdFa = None\<rparr>)
        in Alert_on (a\<lparr>afterA := given (afterAp p) (\<lambda>v. if nullish v 0 > 0 then v else None) (afterA a),
             channelFa := given (channelAp p) normalizeOptionalString (channelFa a), toFa := given (toAp p) normalizeOptionalString (toFa a),
             cooldownMsA := given (cooldownMsAp p) (\<lambda>v. if nullish v (- 1) \<ge> 0 then v else None) (cooldownMsA a),
             modeFa := given (modeAp p) normal_mode (modeFa a),
             accountIdFa := given (accountIdAp p) normalizeOptionalString (accountIdFa a)\<rparr>)))"

definition failure_destination_step :: "CronJob \<Rightarrow> CronError option" where
  "failure_destination_step job =
     (if sessionTarget job = ''main'' \<and> map_option modeC (jobDelivery job) \<noteq> Some Dm_webhook
         \<and> Option.bind (jobDelivery job) failureDestinationC \<noteq> None
      then Some Failure_destination_not_isolated else None)"

definition applyJobPatch :: "CronLib \<Rightarrow> string option \<Rightarrow> CronJobPatch \<Rightarrow> job_step" where
  "applyJobPatch lib defaultAgentId patch = job_steps
     ([(\<lambda>job. case nameJp patch of None \<Rightarrow> (None, job)
         | Some raw \<Rightarrow> (case normalizeRequiredName raw of Inl err \<Rightarrow> (Some err, job) | Inr nm \<Rightarrow> (None, job\<lparr>jobName := nm\<rparr>))),
       set_step (\<lambda>job. job\<lparr>jobDescription := given (descriptionJp patch) normalizeOptionalString (jobDescription job),
         jobEnabled := nullish (enabledJp patch) (jobEnabled job), deleteAfterRun := orElse (deleteAfterRunJp patch) (deleteAfterRun job),
         jobSchedule := given (scheduleJp patch) (patched_schedule (jobSchedule job)) (jobSchedule job),
         sessionTarget := (if truthy (sessionTargetJp patch) then the (sessionTargetJp patch) else sessionTarget job),
         wakeMode := nullish (wakeModeJp patch) (wakeMode job)\<rparr>),
       (\<lambda>job. case payloadJp patch of None \<Rightarrow> (None, job)
         | Some p \<Rightarrow> (case mergeCronPayload (jobPayload job) p of Inl err \<Rightarrow> (Some err, job) | Inr q \<Rightarrow> (None, job\<lparr>jobPayload := q\<rparr>))),
       set_step (\<lambda>job. job\<lparr>jobDelivery := (case deliveryJp patch of None \<Rightarrow> jobDelivery job
           | Some p \<Rightarrow> Some (mergeCronDelivery (jobDelivery job) p)),
         jobFailureAlert := mergeCronFailureAlert (jobFailureAlert job) (failureAlertJp patch)\<rparr>),
       check_step failure_destination_step,
       set_step (\<lambda>job. job\<lparr>jobDelivery := (if sessionTarget job = ''main'' \<and> map_option modeC (jobDelivery job) \<noteq> Some Dm_webhook
             then None else jobDelivery job),
         jobState := (case stateJp patch of None \<Rightarrow> jobState job | Some f \<Rightarrow> f (jobState job)),
         agentIdC := given (agentIdJp patch) normalizeOptionalAgentId (agentIdC job),
         sessionKeyC := given (sessionKeyJp patch) normalizeOptionalString (sessionKeyC job)\<rparr>)]
      @ job_checks lib defaultAgentId)"

definition resolveJobPayloadTextForMain :: "CronJob \<Rightarrow> string option" where
  "resolveJobPayloadTextForMain job = (case jobPayload job of
     SystemEvent text \<Rightarrow> if js_trim (js_trim text) = '''' then None else Some (js_trim text)
   | AgentTurn _ \<Rightarrow> None)"

end
