(* ===== verification/CronTimer.thy ===== *)
theory CronTimer
  imports CronEdit
begin

text \<open>
  The results of runs and the choice of the jobs to run (\<open>src/cron/service/timer.ts\<close>, \<open>timeout-policy.ts\<close>,
  \<open>delivery-plan.ts\<close>): back-off, retries of one-shot jobs, alerts, and what is made up for at start-up.
\<close>

section \<open>Configuration\<close>

record CronConfig =
  maxConcurrentRuns :: "int option"
  retryMaxAttempts :: "int option"
  retryBackoffMs :: "int list option"
  retryOn :: "string list option"
  alertEnabled :: "bool option"
  alertAfter :: "int option"
  alertCooldownMs :: "int option"
  alertMode :: "CronDeliveryMode option"
  alertAccountId :: "string option"

record CronDeps =
  cronLib :: CronLib
  cronConfig :: CronConfig
  cronDefaultAgentId :: "string option"
  cronEnabled :: bool
  hasAlertSender :: bool
  missedJobStaggerMs :: "int option"
  maxMissedJobsPerRestart :: "int option"

definition MAX_TIMER_DELAY_MS :: int where "MAX_TIMER_DELAY_MS = 60000"
definition MIN_REFIRE_GAP_MS :: int where "MIN_REFIRE_GAP_MS = 2000"
definition DEFAULT_MISSED_JOB_STAGGER_MS :: int where "DEFAULT_MISSED_JOB_STAGGER_MS = 5000"
definition DEFAULT_MAX_MISSED_JOBS_PER_RESTART :: int where "DEFAULT_MAX_MISSED_JOBS_PER_RESTART = 5"
definition DEFAULT_FAILURE_ALERT_AFTER :: int where "DEFAULT_FAILURE_ALERT_AFTER = 2"
definition DEFAULT_FAILURE_ALERT_COOLDOWN_MS :: int where "DEFAULT_FAILURE_ALERT_COOLDOWN_MS = 60 * 60000"
definition DEFAULT_MAX_TRANSIENT_RETRIES :: int where "DEFAULT_MAX_TRANSIENT_RETRIES = 3"
definition DEFAULT_BACKOFF_SCHEDULE_MS :: "int list" where
  "DEFAULT_BACKOFF_SCHEDULE_MS = [30000, 60000, 5 * 60000, 15 * 60000, 60 * 60000]"
definition DEFAULT_JOB_TIMEOUT_MS :: int where "DEFAULT_JOB_TIMEOUT_MS = 10 * 60000"
definition AGENT_TURN_SAFETY_TIMEOUT_MS :: int where "AGENT_TURN_SAFETY_TIMEOUT_MS = 60 * 60000"

definition resolveCronJobTimeoutMs :: "CronJob \<Rightarrow> int option" where
  "resolveCronJobTimeoutMs job = (case jobPayload job of
     SystemEvent _ \<Rightarrow> Some DEFAULT_JOB_TIMEOUT_MS
   | AgentTurn t \<Rightarrow> (case timeoutSecondsT t of None \<Rightarrow> Some AGENT_TURN_SAFETY_TIMEOUT_MS
       | Some s \<Rightarrow> if s * 1000 \<le> 0 then None else Some (s * 1000)))"

definition resolveRunConcurrency :: "CronDeps \<Rightarrow> int" where
  "resolveRunConcurrency deps = (case maxConcurrentRuns (cronConfig deps) of None \<Rightarrow> 1 | Some raw \<Rightarrow> max 1 raw)"

section \<open>Errors that pass\<close>

definition errorBackoffMs :: "int \<Rightarrow> int list \<Rightarrow> int" where
  "errorBackoffMs consecutive schedule = schedule ! nat (max 0 (min (consecutive - 1) (int (length schedule) - 1)))"

definition has_infix :: "string \<Rightarrow> string \<Rightarrow> bool" where
  "has_infix p s \<longleftrightarrow> list_ex (\<lambda>i. take (length p) (drop i s) = p) [0..<Suc (length s)]"

definition word_char :: "char \<Rightarrow> bool" where
  "word_char c \<longleftrightarrow> (let n = (of_char c :: nat) in 48 \<le> n \<and> n \<le> 57 \<or> 65 \<le> n \<and> n \<le> 90 \<or> 97 \<le> n \<and> n \<le> 122 \<or> n = 95)"

text \<open>\<open>\b\<close> in front of the character at a position\<close>

definition word_bound :: "string \<Rightarrow> nat \<Rightarrow> bool" where
  "word_bound s i \<longleftrightarrow> (0 < i \<and> i \<le> length s \<and> word_char (s ! (i - 1))) \<noteq> (i < length s \<and> word_char (s ! i))"

definition has_word :: "string \<Rightarrow> string \<Rightarrow> bool" where
  "has_word p s \<longleftrightarrow> list_ex (\<lambda>i. take (length p) (drop i s) = p \<and> word_bound s i \<and> word_bound s (i + length p)) [0..<Suc (length s)]"

definition has_status_5xx :: "string \<Rightarrow> bool" where
  "has_status_5xx s \<longleftrightarrow> list_ex (\<lambda>i. let t = take 3 (drop i s) in length t = 3 \<and> hd t = CHR ''5'' \<and> list_all js_digit t
     \<and> word_bound s i \<and> word_bound s (i + 3)) [0..<length s]"

definition TRANSIENT_PATTERNS :: "(string \<times> (string \<Rightarrow> bool)) list" where
  "TRANSIENT_PATTERNS =
    [(''rate_limit'', \<lambda>s. list_ex (\<lambda>p. has_infix p s) [''rate_limit'', ''rate limit'', ''too many requests'', ''429'',
        ''resource has been exhausted'', ''cloudflare'', ''tokens per day'']),
     (''overloaded'', \<lambda>s. has_word ''529'' s \<or> has_word ''overloaded'' s \<or> has_word ''overloaded_error'' s
        \<or> list_ex (\<lambda>p. has_infix p s) [''high demand'', ''temporarily overloaded'', ''temporary overloaded'', ''capacity exceeded'']),
     (''network'', \<lambda>s. list_ex (\<lambda>p. has_infix p s) [''network'', ''econnreset'', ''econnrefused'', ''fetch failed'', ''socket'']),
     (''timeout'', \<lambda>s. list_ex (\<lambda>p. has_infix p s) [''timeout'', ''etimedout'']),
     (''server_error'', has_status_5xx)]"

definition isTransientCronError :: "string option \<Rightarrow> string list option \<Rightarrow> bool" where
  "isTransientCronError err keys = (case err of None \<Rightarrow> False
     | Some text \<Rightarrow> text \<noteq> '''' \<and>
       list_ex (\<lambda>k. case map_of TRANSIENT_PATTERNS k of None \<Rightarrow> False | Some test \<Rightarrow> test (js_lower text))
         (case keys of Some (k # ks) \<Rightarrow> k # ks | _ \<Rightarrow> map fst TRANSIENT_PATTERNS))"

record CronRetry =
  maxAttemptsC :: int
  backoffC :: "int list"
  retryOnC :: "string list option"

definition resolveRetryConfig :: "CronConfig \<Rightarrow> CronRetry" where
  "resolveRetryConfig cfg =
     \<lparr>maxAttemptsC = nullish (retryMaxAttempts cfg) DEFAULT_MAX_TRANSIENT_RETRIES,
      backoffC = (case retryBackoffMs cfg of Some (b # bs) \<Rightarrow> b # bs | _ \<Rightarrow> take 3 DEFAULT_BACKOFF_SCHEDULE_MS),
      retryOnC = (case retryOn cfg of Some (k # ks) \<Rightarrow> Some (k # ks) | _ \<Rightarrow> None)\<rparr>"

section \<open>Delivery\<close>

record CronDeliveryPlan =
  modePl :: CronDeliveryMode
  channelPl :: "string option"
  toPl :: "string option"
  threadIdPl :: "ThreadId option"
  accountIdPl :: "string option"
  requestedPl :: bool

definition normalizeChannelC :: "string option \<Rightarrow> string option" where
  "normalizeChannelC v = (case normalizeOptionalLowercaseString v of Some t \<Rightarrow> if t = '''' then None else Some t | None \<Rightarrow> None)"

definition resolveCronDeliveryPlan :: "CronJob \<Rightarrow> CronDeliveryPlan" where
  "resolveCronDeliveryPlan job = (case jobDelivery job of
     Some d \<Rightarrow>
       \<lparr>modePl = modeC d, channelPl = (if modeC d = Dm_announce then Some (nullish (normalizeChannelC (channelC d)) ''last'') else None),
        toPl = normalizeOptionalString (toC d),
        threadIdPl = (if modeC d = Dm_announce then normalizeOptionalThreadValue (threadIdC d) else None),
        accountIdPl = normalizeOptionalString (accountIdC d), requestedPl = (modeC d = Dm_announce)\<rparr>
   | None \<Rightarrow>
       (let announce = is_agent_turn (jobPayload job) \<and> isolated_like (sessionTarget job)
        in \<lparr>modePl = (if announce then Dm_announce else Dm_none), channelPl = (if announce then Some ''last'' else None), toPl = None,
            threadIdPl = None, accountIdPl = None, requestedPl = announce\<rparr>))"

definition resolveDeliveryStatus :: "CronJob \<Rightarrow> bool option \<Rightarrow> CronDeliveryStatus" where
  "resolveDeliveryStatus job delivered = (case delivered of
     Some True \<Rightarrow> Ds_delivered | Some False \<Rightarrow> Ds_not_delivered
   | None \<Rightarrow> if requestedPl (resolveCronDeliveryPlan job) then Ds_unknown else Ds_not_requested)"

section \<open>Alerts\<close>

definition clampPositiveInt :: "int option \<Rightarrow> int \<Rightarrow> int" where
  "clampPositiveInt v fallback = (case v of None \<Rightarrow> fallback | Some n \<Rightarrow> if n \<ge> 1 then n else fallback)"

definition clampNonNegativeInt :: "int option \<Rightarrow> int \<Rightarrow> int" where
  "clampNonNegativeInt v fallback = (case v of None \<Rightarrow> fallback | Some n \<Rightarrow> if n \<ge> 0 then n else fallback)"

record CronAlertPlan =
  afterPl :: int
  cooldownPl :: int
  channelAl :: string
  toAl :: "string option"
  modeAl :: "CronDeliveryMode option"
  accountIdAl :: "string option"

definition resolveFailureAlert :: "CronConfig \<Rightarrow> CronJob \<Rightarrow> CronAlertPlan option" where
  "resolveFailureAlert cfg job =
     (let jobConfig = (case jobFailureAlert job of Alert_on a \<Rightarrow> Some a | _ \<Rightarrow> None)
      in if jobFailureAlert job = Alert_off then None
         else if jobConfig = None \<and> alertEnabled cfg \<noteq> Some True then None
         else let mode = orElse (Option.bind jobConfig modeFa) (alertMode cfg);
                  explicitTo = normalizeOptionalString (Option.bind jobConfig toFa)
              in Some \<lparr>afterPl = clampPositiveInt (orElse (Option.bind jobConfig afterA) (alertAfter cfg)) DEFAULT_FAILURE_ALERT_AFTER,
                   cooldownPl = clampNonNegativeInt (orElse (Option.bind jobConfig cooldownMsA) (alertCooldownMs cfg))
                     DEFAULT_FAILURE_ALERT_COOLDOWN_MS,
                   channelAl = nullish (orElse (normalizeChannelC (Option.bind jobConfig channelFa))
                     (normalizeChannelC (Option.bind (jobDelivery job) channelC))) ''last'',
                   toAl = (if mode = Some Dm_webhook then explicitTo
                     else orElse explicitTo (normalizeOptionalString (Option.bind (jobDelivery job) toC))),
                   modeAl = mode, accountIdAl = orElse (Option.bind jobConfig accountIdFa) (alertAccountId cfg)\<rparr>)"

definition alert_text :: "CronJob \<Rightarrow> string option \<Rightarrow> int \<Rightarrow> string" where
  "alert_text job err consecutive =
     ''Cron job '' @ [CHR 0x22] @ or_str (jobName job) (jobId job) @ [CHR 0x22] @ '' failed '' @ show_int consecutive @ '' times''
     @ [CHR 0x0A] @ ''Last error: '' @ take 200 (or_str (js_trim (nullish err '''')) ''unknown error'')"

definition emitFailureAlert :: "CronDeps \<Rightarrow> CronJob \<Rightarrow> string option \<Rightarrow> int \<Rightarrow> CronAlertPlan \<Rightarrow> CronEffect list" where
  "emitFailureAlert deps job err consecutive plan =
     (let text = alert_text job err consecutive
      in if hasAlertSender deps then [Ce_failure_alert (jobId job) text (channelAl plan) (toAl plan) (modeAl plan) (accountIdAl plan)]
         else Ce_system_event text (agentIdC job) None None
           # (if wakeMode job = Wm_now then [Ce_heartbeat (''cron:'' @ jobId job @ '':failure-alert'') None None] else []))"

section \<open>The result of a run\<close>

record CronResult =
  statusR :: CronRunStatus
  errorR :: "string option"
  deliveredR :: "bool option"
  startedAtR :: int
  endedAtR :: int

definition recorded_result :: "CronLib \<Rightarrow> CronJob \<Rightarrow> CronResult \<Rightarrow> CronJob" where
  "recorded_result lib job r =
     (let ds = resolveDeliveryStatus job (deliveredR r)
      in (with_state (\<lambda>s. s\<lparr>runningAtMs := None, lastRunAtMs := Some (startedAtR r), lastRunStatus := Some (statusR r),
           lastStatus := Some (statusR r), lastDurationMs := Some (max 0 (endedAtR r - startedAtR r)), lastErrorC := errorR r,
           lastErrorReason := (if statusR r = Rs_error then Option.bind (errorR r) (failoverReason lib) else None),
           lastDelivered := deliveredR r, lastDeliveryStatusC := Some ds,
           lastDeliveryErrorC := (if ds = Ds_not_delivered \<and> truthy (errorR r) then errorR r else None)\<rparr>) job)
         \<lparr>updatedAtMs := endedAtR r\<rparr>)"

text \<open>The count of errors and the alert about them\<close>

definition counted_result :: "CronDeps \<Rightarrow> int \<Rightarrow> CronJob \<Rightarrow> CronResult \<Rightarrow> CronJob \<times> CronEffect list" where
  "counted_result deps now job r =
     (if statusR r \<noteq> Rs_error
      then (with_state (\<lambda>s. s\<lparr>consecutiveErrors := Some 0, lastFailureAlertAtMs := None\<rparr>) job, [])
      else let consecutive = nullish (consecutiveErrors (jobState job)) 0 + 1;
               job1 = with_state (\<lambda>s. s\<lparr>consecutiveErrors := Some consecutive\<rparr>) job
           in case resolveFailureAlert (cronConfig deps) job1 of None \<Rightarrow> (job1, [])
              | Some plan \<Rightarrow>
                if consecutive < afterPl plan \<or> Option.bind (jobDelivery job1) bestEffortC = Some True
                   \<or> (case lastFailureAlertAtMs (jobState job1) of Some lastAlert \<Rightarrow> now - lastAlert < max 0 (cooldownPl plan) | None \<Rightarrow> False)
                then (job1, [])
                else (with_state (\<lambda>s. s\<lparr>lastFailureAlertAtMs := Some now\<rparr>) job1, emitFailureAlert deps job1 (errorR r) consecutive plan))"

text \<open>The next run after a result, or the record of the error that computing it threw\<close>

definition natural_next :: "CronLib \<Rightarrow> CronJob \<Rightarrow> int option \<Rightarrow> bool \<Rightarrow> int \<Rightarrow> CronJob \<times> int option \<times> CronEffect list" where
  "natural_next lib job prevLastRunAtMs preserve endAt =
     (let from_job = (case jobSchedule job of
            Cs_every _ _ \<Rightarrow> if preserve then with_state (\<lambda>s. s\<lparr>lastRunAtMs := prevLastRunAtMs\<rparr>) job else job
          | _ \<Rightarrow> job)
      in case computeJobNextRunAtMs lib from_job endAt of
           Inr next \<Rightarrow> (job, next, [])
         | Inl err \<Rightarrow> (case recordScheduleComputeError job err of (job1, effects) \<Rightarrow> (job1, None, effects)))"

definition set_next :: "int option \<Rightarrow> CronJob \<Rightarrow> CronJob" where
  "set_next next job = with_state (\<lambda>s. s\<lparr>nextRunAtMs := next\<rparr>) job"

definition disabled_after_run :: "CronJob \<Rightarrow> CronJob" where
  "disabled_after_run job = set_next None (job\<lparr>jobEnabled := False\<rparr>)"

text \<open>Whether the job shall be deleted, the job, and the effects; \<open>now\<close> is the clock for the alert.\<close>

definition applyJobResult :: "CronDeps \<Rightarrow> int \<Rightarrow> CronJob \<Rightarrow> CronResult \<Rightarrow> bool \<Rightarrow> bool \<times> CronJob \<times> CronEffect list" where
  "applyJobResult deps now job r preserve =
     (let lib = cronLib deps; prevLastRunAtMs = lastRunAtMs (jobState job);
          (job1, effects1) = counted_result deps now (recorded_result lib job r) r;
          one_shot = (case jobSchedule job1 of Cs_at _ \<Rightarrow> True | _ \<Rightarrow> False);
          consecutive = nullish (consecutiveErrors (jobState job1)) 1;
          endAt = endedAtR r
      in if one_shot \<and> deleteAfterRun job1 = Some True \<and> statusR r = Rs_ok then (True, job1, effects1)
         else if one_shot
         then (if statusR r \<noteq> Rs_error then (False, disabled_after_run job1, effects1)
               else let retry = resolveRetryConfig (cronConfig deps)
                    in if isTransientCronError (errorR r) (retryOnC retry) \<and> consecutive \<le> maxAttemptsC retry
                       then (False, set_next (Some (endAt + errorBackoffMs consecutive (backoffC retry))) job1, effects1)
                       else (False, disabled_after_run job1, effects1))
         else if \<not> jobEnabled job1 then (False, set_next None job1, effects1)
         else (case natural_next lib job1 prevLastRunAtMs preserve endAt of (job2, naturalNext, effects2) \<Rightarrow>
             (False,
              set_next (if statusR r = Rs_error
                 then (let backoffNext = endAt + errorBackoffMs consecutive DEFAULT_BACKOFF_SCHEDULE_MS
                       in case naturalNext of Some n \<Rightarrow> Some (max n backoffNext) | None \<Rightarrow> Some backoffNext)
                 else case jobSchedule job2 of
                     Cs_cron _ _ _ \<Rightarrow> (case naturalNext of Some n \<Rightarrow> Some (max n (endAt + MIN_REFIRE_GAP_MS))
                       | None \<Rightarrow> Some (endAt + MIN_REFIRE_GAP_MS))
                   | _ \<Rightarrow> naturalNext) job2,
              effects1 @ effects2)))"

section \<open>The jobs to run\<close>

definition isErrorBackoffPending :: "CronJob \<Rightarrow> int \<Rightarrow> bool" where
  "isErrorBackoffPending job nowMs =
     (if (case jobSchedule job of Cs_at _ \<Rightarrow> True | _ \<Rightarrow> False) \<or> lastStatus (jobState job) \<noteq> Some Rs_error then False
      else case lastRunAtMs (jobState job) of None \<Rightarrow> False
        | Some lastRun \<Rightarrow> nowMs < lastRun + errorBackoffMs (case consecutiveErrors (jobState job) of Some n \<Rightarrow> max 1 n | None \<Rightarrow> 1)
            DEFAULT_BACKOFF_SCHEDULE_MS)"

definition isRunnableJob :: "CronLib \<Rightarrow> int \<Rightarrow> string list \<Rightarrow> bool \<Rightarrow> bool \<Rightarrow> CronJob \<Rightarrow> bool" where
  "isRunnableJob lib nowMs skipJobIds skipAtIfAlreadyRan allowCronMissedRunByLastRun job =
     (let s = jobState job; next = nextRunAtMs s
      in if \<not> jobEnabled job then False
         else if jobId job \<in> set skipJobIds then False
         else if runningAtMs s \<noteq> None then False
         else if skipAtIfAlreadyRan \<and> (case jobSchedule job of Cs_at _ \<Rightarrow> True | _ \<Rightarrow> False) \<and> lastStatus s \<noteq> None
         then lastStatus s = Some Rs_error \<and> next \<noteq> None \<and> lastRunAtMs s \<noteq> None \<and> the next > the (lastRunAtMs s) \<and> nowMs \<ge> the next
         else if hasScheduledNextRunAtMs next \<and> nowMs \<ge> the next then True
         else if hasScheduledNextRunAtMs next \<and> the next > nowMs \<and> isErrorBackoffPending job nowMs then False
         else if \<not> allowCronMissedRunByLastRun \<or> \<not> (case jobSchedule job of Cs_cron _ _ _ \<Rightarrow> True | _ \<Rightarrow> False) then False
         else case computeJobPreviousRunAtMs lib job nowMs of
             Inr (Some previous) \<Rightarrow> (case lastRunAtMs s of Some lastRun \<Rightarrow> previous > lastRun | None \<Rightarrow> False)
           | _ \<Rightarrow> False)"

definition running_mark :: "int \<Rightarrow> CronJob \<Rightarrow> CronJob" where
  "running_mark now job = with_state (\<lambda>s. s\<lparr>runningAtMs := Some now, lastErrorC := None\<rparr>) job"

text \<open>Start-up: which missed jobs run now and which later, and the jobs with the marks\<close>

definition missed_jobs :: "CronLib \<Rightarrow> int \<Rightarrow> string list \<Rightarrow> CronJob list \<Rightarrow> (nat \<times> CronJob) list" where
  "missed_jobs lib now skipJobIds jobs =
     sort_key (\<lambda>ij. nullish (nextRunAtMs (jobState (snd ij))) 0)
       (filter (\<lambda>ij. isRunnableJob lib now skipJobIds True True (snd ij)) (enumerate 0 jobs))"

definition planStartupCatchup :: "CronDeps \<Rightarrow> int \<Rightarrow> string list \<Rightarrow> CronJob list \<Rightarrow> CronJob list \<times> string list \<times> CronJob list" where
  "planStartupCatchup deps now skipJobIds jobs =
     (let maxImmediate = nat (max 0 (nullish (maxMissedJobsPerRestart deps) DEFAULT_MAX_MISSED_JOBS_PER_RESTART));
          sorted = missed_jobs (cronLib deps) now skipJobIds jobs;
          startup = take maxImmediate sorted; deferred = drop maxImmediate sorted
      in (map (running_mark now \<circ> snd) startup, map (jobId \<circ> snd) deferred,
          map (\<lambda>(i, job). if i \<in> set (map fst startup) then running_mark now job else job) (enumerate 0 jobs)))"

text \<open>The deferred jobs one after the other, each a stagger later than the one before\<close>

fun defer_jobs :: "int \<Rightarrow> int \<Rightarrow> int \<Rightarrow> string list \<Rightarrow> CronJob list \<Rightarrow> CronJob list" where
  "defer_jobs baseNow staggerMs offset [] jobs = jobs"
| "defer_jobs baseNow staggerMs offset (jid # jids) jobs = (case find_job jobs jid of
     Some job \<Rightarrow>
       if jobEnabled job
       then defer_jobs baseNow staggerMs (offset + staggerMs) jids
         (map_first (\<lambda>j. jobId j = jid) (set_next (Some (baseNow + offset))) jobs)
       else defer_jobs baseNow staggerMs offset jids jobs
   | None \<Rightarrow> defer_jobs baseNow staggerMs offset jids jobs)"

end
