(* ===== verification/CronService.thy ===== *)
theory CronService
  imports CronTimer
begin

text \<open>
  The scheduler (\<open>src/cron/service/ops.ts\<close>, \<open>timer.ts\<close>, \<open>store.ts\<close>, \<open>active-jobs.ts\<close>). What runs under the lock of the
  store is one step; a tick of the timer, a manual run and the start-up are several, and anything may happen between
  them. The number of loads tells whether a job that was picked before is still the object in the store.
\<close>

section \<open>State\<close>

record CronService =
  storeJobs :: "CronJob list option"
  fileJobs :: "CronJob list"
  storeLoads :: nat
  cronTimer :: "int option"
  cronRunning :: bool
  activeJobIds :: "string list"
  cronEffects :: "CronEffect list"

definition effects_add :: "CronEffect list \<Rightarrow> CronService \<Rightarrow> CronService" where
  "effects_add es st = st\<lparr>cronEffects := cronEffects st @ es\<rparr>"

definition cron_event :: "string \<Rightarrow> string \<Rightarrow> CronEvent" where
  "cron_event jid action = \<lparr>jobIdE = jid, actionE = action, runAtMsE = None, durationMsE = None, statusE = None, errorE = None,
     deliveredE = None, deliveryStatusE = None, deliveryErrorE = None, nextRunAtMsE = None\<rparr>"

definition emit_cron :: "CronEvent \<Rightarrow> CronService \<Rightarrow> CronService" where
  "emit_cron e = effects_add [Ce_event e]"

definition jobs_of :: "CronService \<Rightarrow> CronJob list" where
  "jobs_of st = nullish (storeJobs st) []"

definition change_jobs :: "(CronJob list \<Rightarrow> CronJob list) \<Rightarrow> CronService \<Rightarrow> CronService" where
  "change_jobs f st = st\<lparr>storeJobs := map_option f (storeJobs st)\<rparr>"

text \<open>A walk over the jobs in memory, and whether it changed one\<close>

definition walk_store :: "(CronJob list \<Rightarrow> CronJob list \<times> bool \<times> CronEffect list) \<Rightarrow> CronService \<Rightarrow> bool \<times> CronService" where
  "walk_store walk st = (case storeJobs st of None \<Rightarrow> (False, st)
     | Some jobs \<Rightarrow> (case walk jobs of (jobs', changed, effects) \<Rightarrow> (changed, effects_add effects (st\<lparr>storeJobs := Some jobs'\<rparr>))))"

definition persist_cron :: "CronService \<Rightarrow> CronService" where
  "persist_cron st = (case storeJobs st of None \<Rightarrow> st | Some jobs \<Rightarrow> st\<lparr>fileJobs := jobs\<rparr>)"

definition load_cron :: "CronService \<Rightarrow> CronService" where
  "load_cron st = st\<lparr>storeJobs := Some (fileJobs st), storeLoads := Suc (storeLoads st)\<rparr>"

definition ensureLoaded :: "CronDeps \<Rightarrow> bool \<Rightarrow> bool \<Rightarrow> int \<Rightarrow> CronService \<Rightarrow> CronService" where
  "ensureLoaded deps forceReload skipRecompute now st =
     (if storeJobs st \<noteq> None \<and> \<not> forceReload then st
      else let st1 = load_cron st
           in if skipRecompute then st1 else snd (walk_store (recomputeNextRuns (cronLib deps) now) st1))"

definition armTimer :: "CronDeps \<Rightarrow> int \<Rightarrow> CronService \<Rightarrow> CronService" where
  "armTimer deps now st = st\<lparr>cronTimer := (if \<not> cronEnabled deps then None
     else case nextWakeAtMs (jobs_of st) of None \<Rightarrow> None
       | Some nextAt \<Rightarrow> (let delay = max (nextAt - now) 0; floored = (if delay = 0 then MIN_REFIRE_GAP_MS else delay)
           in Some (min floored MAX_TIMER_DELAY_MS)))\<rparr>"

definition mark_active :: "string \<Rightarrow> CronService \<Rightarrow> CronService" where
  "mark_active jid st = (if jid = '''' then st else st\<lparr>activeJobIds := set_add jid (activeJobIds st)\<rparr>)"

definition clear_active :: "string \<Rightarrow> CronService \<Rightarrow> CronService" where
  "clear_active jid st = (if jid = '''' then st else st\<lparr>activeJobIds := set_del jid (activeJobIds st)\<rparr>)"

section \<open>Operations under the lock\<close>

definition cron_add :: "CronDeps \<Rightarrow> int \<Rightarrow> string \<Rightarrow> CronJobCreate \<Rightarrow> CronService \<Rightarrow> (CronError + CronJob) \<times> CronService" where
  "cron_add deps now uuid i st =
     (let st1 = ensureLoaded deps False False now st
      in case createJob (cronLib deps) (cronDefaultAgentId deps) now uuid i of Inl err \<Rightarrow> (Inl err, st1)
         | Inr job \<Rightarrow>
           (let st2 = snd (walk_store (recomputeNextRuns (cronLib deps) now) (change_jobs (\<lambda>jobs. jobs @ [job]) st1));
                job' = last (jobs_of st2);
                st3 = armTimer deps now (persist_cron st2)
            in (Inr job', emit_cron ((cron_event (jobId job) ''added'')\<lparr>nextRunAtMsE := nextRunAtMs (jobState job')\<rparr>) st3)))"

text \<open>The anchor of an interval that a patch left without one\<close>

definition anchored_after_patch :: "int \<Rightarrow> CronJobPatch \<Rightarrow> CronJob \<Rightarrow> CronJob" where
  "anchored_after_patch now patch job = (case jobSchedule job of
     Cs_every everyMs None \<Rightarrow>
       job\<lparr>jobSchedule := Cs_every everyMs (Some (max 0 (case scheduleJp patch of Some (Cs_every _ _) \<Rightarrow> now | _ \<Rightarrow> createdAtMs job)))\<rparr>
   | _ \<Rightarrow> job)"

definition rescheduled_after_patch :: "CronLib \<Rightarrow> int \<Rightarrow> CronJobPatch \<Rightarrow> CronJob \<Rightarrow> CronError + CronJob" where
  "rescheduled_after_patch lib now patch job =
     (let compute = (case computeJobNextRunAtMs lib job now of Inl text \<Rightarrow> Inl (Croner_error text) | Inr next \<Rightarrow> Inr (set_next next job))
      in if scheduleJp patch \<noteq> None \<or> enabledJp patch \<noteq> None
         then (if jobEnabled job then compute
               else Inr (with_state (\<lambda>s. s\<lparr>nextRunAtMs := None, runningAtMs := None\<rparr>) job))
         else if jobEnabled job \<and> \<not> hasScheduledNextRunAtMs (nextRunAtMs (jobState job)) then compute
         else Inr job)"

definition put_job :: "string \<Rightarrow> CronJob \<Rightarrow> CronService \<Rightarrow> CronService" where
  "put_job jid job = change_jobs (map_first (\<lambda>j. jobId j = jid) (\<lambda>_. job))"

definition cron_update :: "CronDeps \<Rightarrow> int \<Rightarrow> string \<Rightarrow> CronJobPatch \<Rightarrow> CronService \<Rightarrow> (CronError + CronJob) \<times> CronService" where
  "cron_update deps now jid patch st =
     (let st1 = ensureLoaded deps False True now st
      in case findJobOrThrow (jobs_of st1) jid of Inl err \<Rightarrow> (Inl err, st1)
         | Inr job \<Rightarrow>
           (case applyJobPatch (cronLib deps) (cronDefaultAgentId deps) patch job of
              (Some err, job1) \<Rightarrow> (Inl err, put_job jid job1 st1)
            | (None, job1) \<Rightarrow>
              (let job2 = (anchored_after_patch now patch job1)\<lparr>updatedAtMs := now\<rparr>
               in case rescheduled_after_patch (cronLib deps) now patch job2 of
                    Inl err \<Rightarrow> (Inl err, put_job jid job2 st1)
                  | Inr job3 \<Rightarrow>
                    (Inr job3, emit_cron ((cron_event jid ''updated'')\<lparr>nextRunAtMsE := nextRunAtMs (jobState job3)\<rparr>)
                       (armTimer deps now (persist_cron (put_job jid job3 st1)))))))"

definition drop_job :: "string \<Rightarrow> CronService \<Rightarrow> CronService" where
  "drop_job jid = change_jobs (filter (\<lambda>j. jobId j \<noteq> jid))"

definition cron_remove :: "CronDeps \<Rightarrow> int \<Rightarrow> string \<Rightarrow> CronService \<Rightarrow> bool \<times> CronService" where
  "cron_remove deps now jid st =
     (let st1 = ensureLoaded deps False False now st;
          st2 = drop_job jid st1;
          removed = (length (jobs_of st2) \<noteq> length (jobs_of st1));
          st3 = armTimer deps now (persist_cron st2)
      in (removed, if removed then emit_cron (cron_event jid ''removed'') st3 else st3))"

definition ensureLoadedForRead :: "CronDeps \<Rightarrow> int \<Rightarrow> CronService \<Rightarrow> CronService" where
  "ensureLoadedForRead deps now st =
     (case walk_store (recomputeNextRunsForMaintenance (cronLib deps) False now) (ensureLoaded deps False True now st) of
        (changed, st1) \<Rightarrow> if changed then persist_cron st1 else st1)"

definition cron_list :: "CronDeps \<Rightarrow> int \<Rightarrow> bool \<Rightarrow> CronService \<Rightarrow> CronJob list \<times> CronService" where
  "cron_list deps now includeDisabled st =
     (let st1 = ensureLoadedForRead deps now st
      in (sort_key (\<lambda>j. nullish (nextRunAtMs (jobState j)) 0) (filter (\<lambda>j. includeDisabled \<or> jobEnabled j) (jobs_of st1)), st1))"

definition cron_status :: "CronDeps \<Rightarrow> int \<Rightarrow> CronService \<Rightarrow> (nat \<times> int option) \<times> CronService" where
  "cron_status deps now st =
     (let st1 = ensureLoadedForRead deps now st
      in ((length (jobs_of st1), if cronEnabled deps then nextWakeAtMs (jobs_of st1) else None), st1))"

definition cron_wake :: "CronWakeMode \<Rightarrow> string \<Rightarrow> CronService \<Rightarrow> bool \<times> CronService" where
  "cron_wake mode raw st =
     (let text = js_trim raw
      in if text = '''' then (False, st)
         else (True, effects_add (Ce_system_event text None None None # (if mode = Wm_now then [Ce_heartbeat ''wake'' None None] else [])) st))"

definition cron_stop :: "CronService \<Rightarrow> CronService" where
  "cron_stop st = st\<lparr>cronTimer := None\<rparr>"

section \<open>Results\<close>

text \<open>What a run answered, before it is stamped with its times\<close>

record CronOutcome =
  statusO :: CronRunStatus
  errorO :: "string option"
  deliveredO :: "bool option"

definition stamped :: "CronOutcome \<Rightarrow> int \<Rightarrow> int \<Rightarrow> CronResult" where
  "stamped oc startedMs endedMs = \<lparr>statusR = statusO oc, errorR = errorO oc, deliveredR = deliveredO oc, startedAtR = startedMs, endedAtR = endedMs\<rparr>"

definition finished_event :: "CronJob \<Rightarrow> CronResult \<Rightarrow> CronEvent" where
  "finished_event job r = \<lparr>jobIdE = jobId job, actionE = ''finished'', runAtMsE = Some (startedAtR r), durationMsE = lastDurationMs (jobState job),
     statusE = Some (statusR r), errorE = errorR r, deliveredE = deliveredR r, deliveryStatusE = lastDeliveryStatusC (jobState job),
     deliveryErrorE = lastDeliveryErrorC (jobState job), nextRunAtMsE = nextRunAtMs (jobState job)\<rparr>"

text \<open>A result on the job in memory: the finished event, and the removal of a one-shot job that shall go\<close>

definition settle_job :: "CronDeps \<Rightarrow> int \<Rightarrow> bool \<Rightarrow> CronJob \<Rightarrow> CronResult \<Rightarrow> CronService \<Rightarrow> bool \<times> CronService" where
  "settle_job deps now preserve job r st =
     (case applyJobResult deps now job r preserve of (shouldDelete, job1, effects) \<Rightarrow>
       (let st1 = emit_cron (finished_event job1 r) (effects_add effects (put_job (jobId job) job1 st))
        in (shouldDelete, if shouldDelete then emit_cron (cron_event (jobId job) ''removed'') (drop_job (jobId job) st1) else st1)))"

definition applyOutcomeToStoredJob :: "CronDeps \<Rightarrow> int \<Rightarrow> string \<times> CronResult \<Rightarrow> CronService \<Rightarrow> CronService" where
  "applyOutcomeToStoredJob deps now jr st =
     (case jr of (jid, r) \<Rightarrow>
       (let st1 = effects_add [Ce_task_ended jid (statusR r)] (clear_active jid st)
        in case find_job (jobs_of st1) jid of None \<Rightarrow> st1 | Some job \<Rightarrow> snd (settle_job deps now False job r st1)))"

section \<open>A tick of the timer\<close>

datatype CronSlot = Slot_waiting | Slot_running int | Slot_done CronResult

text \<open>The jobs of a tick with what became of them, and the load of the store they are from\<close>

record CronTick =
  tickSlots :: "(CronJob \<times> CronSlot) list"
  tickLoads :: nat
  tickApplied :: bool

definition tick_begin :: "CronDeps \<Rightarrow> int \<Rightarrow> CronService \<Rightarrow> CronTick option \<times> CronService" where
  "tick_begin deps now st =
     (let st0 = st\<lparr>cronTimer := Some MAX_TIMER_DELAY_MS\<rparr>
      in if cronRunning st then (None, st0)
         else let st1 = ensureLoaded deps True True now (st0\<lparr>cronRunning := True\<rparr>);
                  runnable = isRunnableJob (cronLib deps) now [] False False;
                  due = filter runnable (jobs_of st1)
              in if due = []
                 then (case walk_store (recomputeNextRunsForMaintenance (cronLib deps) True now) st1 of (changed, st2) \<Rightarrow>
                   (Some \<lparr>tickSlots = [], tickLoads = storeLoads st1, tickApplied = False\<rparr>, if changed then persist_cron st2 else st2))
                 else (Some \<lparr>tickSlots = map (\<lambda>j. (running_mark now j, Slot_waiting)) due, tickLoads = storeLoads st1, tickApplied = False\<rparr>,
                       persist_cron (change_jobs (map (\<lambda>j. if runnable j then running_mark now j else j)) st1)))"

text \<open>A worker takes the next job of the tick; at most so many run at a time as are configured.\<close>

definition slots_running :: "CronTick \<Rightarrow> nat" where
  "slots_running t = length (filter (\<lambda>js. case snd js of Slot_running _ \<Rightarrow> True | _ \<Rightarrow> False) (tickSlots t))"

definition tick_job_start :: "CronDeps \<Rightarrow> int \<Rightarrow> CronTick \<Rightarrow> CronService \<Rightarrow> (CronTick \<times> CronService) option" where
  "tick_job_start deps now t st =
     (case List.find (\<lambda>i. snd (tickSlots t ! i) = Slot_waiting) [0..<length (tickSlots t)] of None \<Rightarrow> None
      | Some i \<Rightarrow>
        if int (slots_running t) \<ge> resolveRunConcurrency deps then None
        else let job = fst (tickSlots t ! i); started = with_state (\<lambda>s. s\<lparr>runningAtMs := Some now\<rparr>);
                 st1 = (if storeLoads st = tickLoads t then change_jobs (map_first (\<lambda>j. jobId j = jobId job) started) st else st)
             in Some (t\<lparr>tickSlots := (tickSlots t)[i := (started job, Slot_running now)]\<rparr>,
                  effects_add [Ce_event ((cron_event (jobId job) ''started'')\<lparr>runAtMsE := Some now\<rparr>), Ce_task_started (jobId job) now]
                    (mark_active (jobId job) st1)))"

definition tick_job_end :: "int \<Rightarrow> nat \<Rightarrow> CronOutcome \<Rightarrow> CronTick \<Rightarrow> CronTick option" where
  "tick_job_end now i oc t =
     (if i < length (tickSlots t)
      then (case tickSlots t ! i of (job, Slot_running startedMs) \<Rightarrow>
              Some (t\<lparr>tickSlots := (tickSlots t)[i := (job, Slot_done (stamped oc startedMs now))]\<rparr>)
            | _ \<Rightarrow> None)
      else None)"

definition slot_results :: "CronTick \<Rightarrow> (string \<times> CronResult) list" where
  "slot_results t = concat (map (\<lambda>js. case snd js of Slot_done r \<Rightarrow> [(jobId (fst js), r)] | _ \<Rightarrow> []) (tickSlots t))"

definition all_done :: "CronTick \<Rightarrow> bool" where
  "all_done t \<longleftrightarrow> length (slot_results t) = length (tickSlots t)"

definition tick_apply :: "CronDeps \<Rightarrow> int \<Rightarrow> CronTick \<Rightarrow> CronService \<Rightarrow> (CronTick \<times> CronService) option" where
  "tick_apply deps now t st =
     (if tickApplied t \<or> \<not> all_done t then None
      else Some (t\<lparr>tickApplied := True\<rparr>,
        if slot_results t = [] then st
        else persist_cron (snd (walk_store (recomputeNextRunsForMaintenance (cronLib deps) False now)
          (fold (applyOutcomeToStoredJob deps now) (slot_results t) (ensureLoaded deps True True now st))))))"

definition tick_end :: "CronDeps \<Rightarrow> int \<Rightarrow> CronService \<Rightarrow> CronService" where
  "tick_end deps now st = armTimer deps now (st\<lparr>cronRunning := False\<rparr>)"

section \<open>Manual runs\<close>

datatype ManualPreflight =
    Pf_failed CronError
  | Pf_invalid_spec
  | Pf_already_running
  | Pf_not_due
  | Pf_runnable int

text \<open>A job that cannot be run any more is skipped, which is a result of its own.\<close>

definition cron_error_text :: "CronError \<Rightarrow> string" where
  "cron_error_text e = ''Error: '' @ (case e of
     Invalid_session_target_id \<Rightarrow> ''invalid cron sessionTarget session id''
   | Main_requires_system_event \<Rightarrow> ''main cron jobs require payload.kind='' @ [CHR 0x22] @ ''systemEvent'' @ [CHR 0x22]
   | Isolated_requires_agent_turn \<Rightarrow> ''isolated/current/session cron jobs require payload.kind='' @ [CHR 0x22] @ ''agentTurn'' @ [CHR 0x22]
   | _ \<Rightarrow> '''')"

definition skipInvalidPersistedManualRun :: "CronDeps \<Rightarrow> int \<Rightarrow> bool \<Rightarrow> CronError \<Rightarrow> CronJob \<Rightarrow> CronService \<Rightarrow> CronService" where
  "skipInvalidPersistedManualRun deps now forced err job st =
     (let r = \<lparr>statusR = Rs_skipped, errorR = Some (cron_error_text err), deliveredR = None, startedAtR = now, endedAtR = now\<rparr>
      in armTimer deps now (persist_cron (snd (walk_store (recomputeNextRunsForMaintenance (cronLib deps) True now)
           (snd (settle_job deps now forced job r st))))))"

definition inspectManualRunPreflight :: "CronDeps \<Rightarrow> int \<Rightarrow> string \<Rightarrow> bool \<Rightarrow> CronService \<Rightarrow> ManualPreflight \<times> CronService" where
  "inspectManualRunPreflight deps now jid forced st =
     (let st1 = snd (walk_store (recomputeNextRunsForMaintenance (cronLib deps) False now) (ensureLoaded deps False True now st))
      in case findJobOrThrow (jobs_of st1) jid of Inl err \<Rightarrow> (Pf_failed err, st1)
         | Inr job \<Rightarrow>
           (case assertSupportedJobSpec job of
              Some err \<Rightarrow> (Pf_invalid_spec, skipInvalidPersistedManualRun deps now forced err job st1)
            | None \<Rightarrow> (if runningAtMs (jobState job) \<noteq> None then Pf_already_running
                else if \<not> isJobDue job now forced then Pf_not_due else Pf_runnable now, st1)))"

record ManualRun =
  manualJob :: CronJob
  manualStartedAt :: int
  manualForced :: bool

text \<open>The reservation; nothing when the job is gone or runs by now.\<close>

definition reserveManualRun :: "int \<Rightarrow> string \<Rightarrow> bool \<Rightarrow> CronService \<Rightarrow> (CronError + ManualRun option) \<times> CronService" where
  "reserveManualRun preflightNow jid forced st = (case findJobOrThrow (jobs_of st) jid of Inl err \<Rightarrow> (Inl err, st)
     | Inr job \<Rightarrow>
       (if runningAtMs (jobState job) \<noteq> None then (Inr None, st)
        else let job1 = running_mark preflightNow job
             in (Inr (Some \<lparr>manualJob = job1, manualStartedAt = preflightNow, manualForced = forced\<rparr>),
                 effects_add [Ce_event ((cron_event jid ''started'')\<lparr>runAtMsE := Some preflightNow\<rparr>), Ce_task_started jid preflightNow]
                   (persist_cron (put_job jid job1 st)))))"

definition mergeManualRunSnapshotAfterReload :: "string \<Rightarrow> CronJob \<Rightarrow> bool \<Rightarrow> CronService \<Rightarrow> CronService" where
  "mergeManualRunSnapshotAfterReload jid snapshot removed st =
     (if removed then drop_job jid st
      else change_jobs (map_first (\<lambda>j. jobId j = jid) (\<lambda>reloaded. reloaded\<lparr>jobEnabled := jobEnabled snapshot,
        updatedAtMs := updatedAtMs snapshot, jobState := jobState snapshot\<rparr>)) st)"

definition finishPreparedManualRun :: "CronDeps \<Rightarrow> int \<Rightarrow> ManualRun \<Rightarrow> CronOutcome \<Rightarrow> CronService \<Rightarrow> CronService" where
  "finishPreparedManualRun deps now m oc st =
     (let jid = jobId (manualJob m);
          r = stamped oc (manualStartedAt m) now;
          st1 = ensureLoaded deps False True now (effects_add [Ce_task_ended jid (statusO oc)] st)
      in case find_job (jobs_of st1) jid of None \<Rightarrow> st1
         | Some job \<Rightarrow>
           (case settle_job deps now (manualForced m) job r st1 of (shouldDelete, st2) \<Rightarrow>
             (let snapshot = fst (snd (applyJobResult deps now job r (manualForced m)));
                  st3 = mergeManualRunSnapshotAfterReload jid snapshot shouldDelete (ensureLoaded deps True True now st2)
              in armTimer deps now (persist_cron (snd (walk_store (recomputeNextRunsForMaintenance (cronLib deps) True now) st3))))))"

section \<open>Start-up\<close>

text \<open>The marks of runs that an earlier process left are cleared; the interrupted one-shot jobs are not made up for.\<close>

definition start_begin :: "CronDeps \<Rightarrow> int \<Rightarrow> CronService \<Rightarrow> string list \<times> CronService" where
  "start_begin deps now st =
     (let st1 = ensureLoaded deps False True now st;
          marked = filter (\<lambda>j. runningAtMs (jobState j) \<noteq> None) (jobs_of st1);
          st2 = change_jobs (map (with_state (\<lambda>s. s\<lparr>runningAtMs := None\<rparr>))) st1
      in (map jobId (filter (\<lambda>j. case jobSchedule j of Cs_at _ \<Rightarrow> True | _ \<Rightarrow> False) marked),
          if marked = [] then st1 else persist_cron st2))"

text \<open>The start-up after the plan: the jobs that are run, with their results so far, and those for later\<close>

record CronStartup =
  startupSlots :: "(CronJob \<times> CronSlot) list"
  startupDeferred :: "string list"

definition start_plan :: "CronDeps \<Rightarrow> int \<Rightarrow> string list \<Rightarrow> CronService \<Rightarrow> CronStartup \<times> CronService" where
  "start_plan deps now skipJobIds st =
     (let st1 = ensureLoaded deps False True now st
      in case planStartupCatchup deps now skipJobIds (jobs_of st1) of (candidates, deferred, jobs) \<Rightarrow>
           (\<lparr>startupSlots = map (\<lambda>j. (j, Slot_waiting)) candidates, startupDeferred = deferred\<rparr>,
            if candidates = [] \<and> deferred = [] then st1 else persist_cron (change_jobs (\<lambda>_. jobs) st1)))"

text \<open>The candidates run one after the other.\<close>

definition startup_job_start :: "int \<Rightarrow> CronStartup \<Rightarrow> CronService \<Rightarrow> (CronStartup \<times> CronService) option" where
  "startup_job_start now u st =
     (case List.find (\<lambda>i. case snd (startupSlots u ! i) of Slot_done _ \<Rightarrow> False | _ \<Rightarrow> True) [0..<length (startupSlots u)] of None \<Rightarrow> None
      | Some i \<Rightarrow>
        (case startupSlots u ! i of (job, Slot_waiting) \<Rightarrow>
           Some (u\<lparr>startupSlots := (startupSlots u)[i := (job, Slot_running now)]\<rparr>,
             effects_add [Ce_task_started (jobId job) now, Ce_event ((cron_event (jobId job) ''started'')\<lparr>runAtMsE := Some now\<rparr>)] st)
         | _ \<Rightarrow> None))"

definition startup_job_end :: "int \<Rightarrow> nat \<Rightarrow> CronOutcome \<Rightarrow> CronStartup \<Rightarrow> CronStartup option" where
  "startup_job_end now i oc u =
     (if i < length (startupSlots u)
      then (case startupSlots u ! i of (job, Slot_running startedMs) \<Rightarrow>
              Some (u\<lparr>startupSlots := (startupSlots u)[i := (job, Slot_done (stamped oc startedMs now))]\<rparr>)
            | _ \<Rightarrow> None)
      else None)"

definition startup_results :: "CronStartup \<Rightarrow> (string \<times> CronResult) list" where
  "startup_results u = concat (map (\<lambda>js. case snd js of Slot_done r \<Rightarrow> [(jobId (fst js), r)] | _ \<Rightarrow> []) (startupSlots u))"

definition start_apply :: "CronDeps \<Rightarrow> int \<Rightarrow> CronStartup \<Rightarrow> CronService \<Rightarrow> CronService option" where
  "start_apply deps now u st =
     (if length (startup_results u) \<noteq> length (startupSlots u) then None
      else if startupSlots u = [] \<and> startupDeferred u = [] then Some st
      else let stagger = max 0 (nullish (missedJobStaggerMs deps) DEFAULT_MISSED_JOB_STAGGER_MS);
               st1 = fold (applyOutcomeToStoredJob deps now) (startup_results u) (ensureLoaded deps False True now st);
               st2 = change_jobs (defer_jobs now stagger stagger (startupDeferred u)) st1
           in Some (persist_cron (snd (walk_store (recomputeNextRunsForMaintenance (cronLib deps) False now) st2))))"

definition start_end :: "CronDeps \<Rightarrow> int \<Rightarrow> CronService \<Rightarrow> CronService" where
  "start_end deps now st =
     (case walk_store (recomputeNextRuns (cronLib deps) now) (ensureLoaded deps False True now st) of (changed, st1) \<Rightarrow>
       armTimer deps now (if changed then persist_cron st1 else st1))"

section \<open>The scheduler as a machine\<close>

record CronWorld =
  cronService :: CronService
  cronTick :: "CronTick option"
  preflights :: "(string \<times> int \<times> bool) list"
  manualRuns :: "ManualRun list"
  interrupted :: "string list option"
  cronStartup :: "CronStartup option"
  startupEnding :: bool

datatype CronInput =
    Ci_add int string CronJobCreate
  | Ci_update int string CronJobPatch
  | Ci_remove int string
  | Ci_list int bool
  | Ci_timer int
  | Ci_job_start int
  | Ci_job_end int nat CronOutcome
  | Ci_tick_apply int
  | Ci_tick_end int
  | Ci_manual int string bool
  | Ci_reserve nat
  | Ci_manual_end int nat CronOutcome
  | Ci_start int
  | Ci_plan int
  | Ci_candidate_start int
  | Ci_candidate_end int nat CronOutcome
  | Ci_startup_apply int
  | Ci_startup_end int
  | Ci_stop

definition drop_at :: "nat \<Rightarrow> 'a list \<Rightarrow> 'a list" where
  "drop_at k xs = take k xs @ drop (Suc k) xs"

text \<open>One step; nothing when it cannot happen. The timer only fires when it is armed.\<close>

definition cron_step :: "CronDeps \<Rightarrow> CronInput \<Rightarrow> CronWorld \<Rightarrow> CronWorld option" where
  "cron_step deps e w = (let st = cronService w in case e of
     Ci_add now uuid i \<Rightarrow> Some (w\<lparr>cronService := snd (cron_add deps now uuid i st)\<rparr>)
   | Ci_update now jid patch \<Rightarrow> Some (w\<lparr>cronService := snd (cron_update deps now jid patch st)\<rparr>)
   | Ci_remove now jid \<Rightarrow> Some (w\<lparr>cronService := snd (cron_remove deps now jid st)\<rparr>)
   | Ci_list now includeDisabled \<Rightarrow> Some (w\<lparr>cronService := snd (cron_list deps now includeDisabled st)\<rparr>)
   | Ci_timer now \<Rightarrow> (if cronTimer st = None then None
       else case tick_begin deps now st of (None, st1) \<Rightarrow> Some (w\<lparr>cronService := st1\<rparr>)
         | (Some t, st1) \<Rightarrow> Some (w\<lparr>cronService := st1, cronTick := Some t\<rparr>))
   | Ci_job_start now \<Rightarrow> (case cronTick w of None \<Rightarrow> None
       | Some t \<Rightarrow> map_option (\<lambda>(t1, st1). w\<lparr>cronTick := Some t1, cronService := st1\<rparr>) (tick_job_start deps now t st))
   | Ci_job_end now i oc \<Rightarrow> (case cronTick w of None \<Rightarrow> None
       | Some t \<Rightarrow> map_option (\<lambda>t1. w\<lparr>cronTick := Some t1\<rparr>) (tick_job_end now i oc t))
   | Ci_tick_apply now \<Rightarrow> (case cronTick w of None \<Rightarrow> None
       | Some t \<Rightarrow> map_option (\<lambda>(t1, st1). w\<lparr>cronTick := Some t1, cronService := st1\<rparr>) (tick_apply deps now t st))
   | Ci_tick_end now \<Rightarrow> (case cronTick w of None \<Rightarrow> None
       | Some t \<Rightarrow> if tickApplied t then Some (w\<lparr>cronTick := None, cronService := tick_end deps now st\<rparr>) else None)
   | Ci_manual now jid forced \<Rightarrow> (case inspectManualRunPreflight deps now jid forced st of
         (Pf_runnable t, st1) \<Rightarrow> Some (w\<lparr>cronService := st1, preflights := preflights w @ [(jid, t, forced)]\<rparr>)
       | (_, st1) \<Rightarrow> Some (w\<lparr>cronService := st1\<rparr>))
   | Ci_reserve k \<Rightarrow> (if k < length (preflights w)
       then (case preflights w ! k of (jid, t, forced) \<Rightarrow>
         (case reserveManualRun t jid forced st of
            (Inr (Some m), st1) \<Rightarrow> Some (w\<lparr>cronService := st1, preflights := drop_at k (preflights w), manualRuns := manualRuns w @ [m]\<rparr>)
          | (_, st1) \<Rightarrow> Some (w\<lparr>cronService := st1, preflights := drop_at k (preflights w)\<rparr>)))
       else None)
   | Ci_manual_end now k oc \<Rightarrow> (if k < length (manualRuns w)
       then Some (w\<lparr>cronService := finishPreparedManualRun deps now (manualRuns w ! k) oc st, manualRuns := drop_at k (manualRuns w)\<rparr>)
       else None)
   | Ci_start now \<Rightarrow> (if \<not> cronEnabled deps \<or> interrupted w \<noteq> None \<or> cronStartup w \<noteq> None \<or> startupEnding w then None
       else case start_begin deps now st of (ids, st1) \<Rightarrow> Some (w\<lparr>cronService := st1, interrupted := Some ids\<rparr>))
   | Ci_plan now \<Rightarrow> (case interrupted w of None \<Rightarrow> None
       | Some ids \<Rightarrow> (case start_plan deps now ids st of (u, st1) \<Rightarrow>
           Some (w\<lparr>cronService := st1, interrupted := None, cronStartup := Some u\<rparr>)))
   | Ci_candidate_start now \<Rightarrow> (case cronStartup w of None \<Rightarrow> None
       | Some u \<Rightarrow> map_option (\<lambda>(u1, st1). w\<lparr>cronStartup := Some u1, cronService := st1\<rparr>) (startup_job_start now u st))
   | Ci_candidate_end now i oc \<Rightarrow> (case cronStartup w of None \<Rightarrow> None
       | Some u \<Rightarrow> map_option (\<lambda>u1. w\<lparr>cronStartup := Some u1\<rparr>) (startup_job_end now i oc u))
   | Ci_startup_apply now \<Rightarrow> (case cronStartup w of None \<Rightarrow> None
       | Some u \<Rightarrow> map_option (\<lambda>st1. w\<lparr>cronStartup := None, startupEnding := True, cronService := st1\<rparr>) (start_apply deps now u st))
   | Ci_startup_end now \<Rightarrow> (if startupEnding w then Some (w\<lparr>startupEnding := False, cronService := start_end deps now st\<rparr>) else None)
   | Ci_stop \<Rightarrow> Some (w\<lparr>cronService := cron_stop st\<rparr>))"

definition cron_world :: "CronJob list \<Rightarrow> CronWorld" where
  "cron_world file = \<lparr>cronService = \<lparr>storeJobs = None, fileJobs = file, storeLoads = 0, cronTimer = None, cronRunning = False,
       activeJobIds = [], cronEffects = []\<rparr>, cronTick = None, preflights = [], manualRuns = [], interrupted = None,
     cronStartup = None, startupEnding = False\<rparr>"

end
