(* ===== verification/CronKeep.thy ===== *)
theory CronKeep
  imports CronService
begin

text \<open>
  What the operations of the scheduler keep: the jobs that run stay enabled and marked, in memory and in the file,
  whatever ticks, manual runs, start-up and changes of other jobs happen meanwhile.
\<close>

section \<open>Jobs in flight\<close>

text \<open>
  The jobs with the given identifiers are enabled and marked as running, with a mark that is acceptable; and the
  identifiers of the jobs are unlike.
\<close>

definition held :: "string set \<Rightarrow> (CronJob \<Rightarrow> bool) \<Rightarrow> CronJob list \<Rightarrow> bool" where
  "held I okay jobs \<longleftrightarrow> distinct (map jobId jobs)
     \<and> (\<forall>j \<in> set jobs. jobId j \<in> I \<longrightarrow> jobEnabled j \<and> okay j)"

definition sheld :: "string set \<Rightarrow> (CronJob \<Rightarrow> bool) \<Rightarrow> CronService \<Rightarrow> bool" where
  "sheld I okay st \<longleftrightarrow> held I okay (fileJobs st) \<and> (\<forall>jobs. storeJobs st = Some jobs \<longrightarrow> held I okay jobs)"

definition not_stuck :: "int \<Rightarrow> int \<Rightarrow> bool" where
  "not_stuck now r \<longleftrightarrow> now - r \<le> STUCK_RUN_MS"

lemma not_stuck_now [simp]: "not_stuck now now"
  by (simp add: not_stuck_def STUCK_RUN_MS_def)

lemma held_mono: "held I okay jobs \<Longrightarrow> J \<subseteq> I \<Longrightarrow> (\<And>j. okay j \<Longrightarrow> okay' j) \<Longrightarrow> held J okay' jobs"
  unfolding held_def by blast

lemma sheld_mono: "sheld I okay st \<Longrightarrow> J \<subseteq> I \<Longrightarrow> (\<And>j. okay j \<Longrightarrow> okay' j) \<Longrightarrow> sheld J okay' st"
  unfolding sheld_def by (blast intro: held_mono)

lemma held_Nil [simp]: "held I okay []"
  by (simp add: held_def)

named_theorems cron_keep \<open>what keeps identifiers, switches and marks\<close>

text \<open>What changes jobs one by one and keeps their identifiers, and the marks of those in flight.\<close>

lemma held_map:
  assumes "held I okay jobs" "\<And>j. j \<in> set jobs \<Longrightarrow> jobId (f j) = jobId j"
    "\<And>j. j \<in> set jobs \<Longrightarrow> jobId j \<in> I \<Longrightarrow> jobEnabled (f j) \<and> okay (f j)"
  shows "held I okay (map f jobs)"
proof -
  have ids: "map jobId (map f jobs) = map jobId jobs" using assms(2) by simp
  show ?thesis unfolding held_def
  proof
    show "distinct (map jobId (map f jobs))" unfolding ids using assms(1) by (simp add: held_def)
    show "\<forall>j \<in> set (map f jobs). jobId j \<in> I \<longrightarrow> jobEnabled j \<and> okay j"
      using assms(2,3) by auto
  qed
qed

lemma map_first_id: "(\<And>x. x \<in> set xs \<Longrightarrow> P x \<Longrightarrow> g (f x) = g x) \<Longrightarrow> map g (map_first P f xs) = map g xs"
  by (induction xs) auto

lemma map_first_distinct:
  "distinct (map jobId jobs) \<Longrightarrow> map_first (\<lambda>j. jobId j = jid) f jobs = map (\<lambda>j. if jobId j = jid then f j else j) jobs"
proof (induction jobs)
  case (Cons j jobs)
  have "map (\<lambda>j. if jobId j = jid then f j else j) jobs = jobs" if "jobId j = jid"
  proof (intro map_idI)
    fix x assume "x \<in> set jobs"
    then have "jobId x \<in> jobId ` set jobs" by (rule imageI)
    with Cons.prems that show "(if jobId x = jid then f x else x) = x" by auto
  qed
  with Cons show ?case by simp
qed simp

lemma set_map_first: "y \<in> set (map_first P f xs) \<Longrightarrow> y \<in> set xs \<or> (\<exists>x \<in> set xs. P x \<and> y = f x)"
  by (induction xs) (auto split: if_splits)

lemma held_map_first:
  assumes "held I okay jobs" "\<And>j. j \<in> set jobs \<Longrightarrow> P j \<Longrightarrow> jobId (f j) = jobId j"
    "\<And>j. j \<in> set jobs \<Longrightarrow> P j \<Longrightarrow> jobId j \<in> I \<Longrightarrow> jobEnabled (f j) \<and> okay (f j)"
  shows "held I okay (map_first P f jobs)"
proof -
  have "map jobId (map_first P f jobs) = map jobId jobs" by (rule map_first_id) (use assms(2) in auto)
  moreover have "jobEnabled y \<and> okay y" if "y \<in> set (map_first P f jobs)" "jobId y \<in> I" for y
    using set_map_first [OF that(1)]
  proof
    assume "y \<in> set jobs"
    with that(2) assms(1) show ?thesis by (simp add: held_def)
  next
    assume "\<exists>x \<in> set jobs. P x \<and> y = f x"
    with that(2) assms(2,3) show ?thesis by auto
  qed
  ultimately show ?thesis using assms(1) by (simp add: held_def)
qed

lemma held_filter: "held I okay jobs \<Longrightarrow> held I okay (filter P jobs)"
  by (auto simp: held_def distinct_map_filter)

lemma held_snoc: "held I okay jobs \<Longrightarrow> jobId job \<notin> jobId ` set jobs \<Longrightarrow> jobId job \<notin> I \<Longrightarrow> held I okay (jobs @ [job])"
  by (auto simp: held_def)

section \<open>Walks over the jobs\<close>

lemma andThen_Inr: "andThen x f = Inr v \<longleftrightarrow> (\<exists>u. x = Inr u \<and> f u = Inr v)"
  by (cases x) (auto simp: andThen_def)

text \<open>
  The next run of the job can be computed: croner does not throw for its expression and time zone. Only then is the job
  safe from being given up for the errors of its schedule.
\<close>

definition answers :: "CronLib \<Rightarrow> int \<Rightarrow> CronJob \<Rightarrow> bool" where
  "answers lib now j \<longleftrightarrow> (case computeJobNextRunAtMs lib j now of Inl _ \<Rightarrow> False | Inr _ \<Rightarrow> True)"

text \<open>A job in flight that the walks of this time leave in flight\<close>

definition fit :: "CronLib \<Rightarrow> int \<Rightarrow> CronJob \<Rightarrow> bool" where
  "fit lib now j \<longleftrightarrow> (\<exists>r. runningAtMs (jobState j) = Some r \<and> not_stuck now r) \<and> answers lib now j"

lemma compute_plain: "computeNextRunAtMs lib (Cs_at raw) now \<noteq> Inl e" "computeNextRunAtMs lib (Cs_every n a) now \<noteq> Inl e"
  by (simp_all add: computeNextRunAtMs_def split: option.split)

lemma answers_plain: "(case jobSchedule j of Cs_cron _ _ _ \<Rightarrow> False | _ \<Rightarrow> True) \<Longrightarrow> answers lib now j"
  using compute_plain(2) [of lib "max 1 n" a now for n a]
  by (auto simp: answers_def computeJobNextRunAtMs_def Let_def split: CronSchedule.splits option.split sum.split)

lemma answers_cong:
  assumes "jobId j' = jobId j" "jobEnabled j' = jobEnabled j"
    "jobSchedule j' = jobSchedule j \<or> (case jobSchedule j' of Cs_cron _ _ _ \<Rightarrow> False | _ \<Rightarrow> True)" "answers lib now j"
  shows "answers lib now j'"
proof (cases "jobSchedule j'")
  case (Cs_cron expr tz stagger)
  with assms(3) have "jobSchedule j = Cs_cron expr tz stagger" by simp
  with Cs_cron assms(1,2) have "computeJobNextRunAtMs lib j' now = computeJobNextRunAtMs lib j now" by (simp add: computeJobNextRunAtMs_def)
  with assms(4) show ?thesis by (simp add: answers_def)
qed (simp_all add: answers_plain)

lemma schedule_error_id [simp]: "jobId (fst (recordScheduleComputeError job err)) = jobId job"
  by (simp add: recordScheduleComputeError_def Let_def)

lemma recompute_id [cron_keep]: "jobId (fst (recomputeJobNextRunAtMs lib now job)) = jobId job"
  by (simp add: recomputeJobNextRunAtMs_def Let_def case_prod_beta split: sum.split)

lemma recompute_fit:
  assumes "jobEnabled j" "fit lib now j"
  shows "jobEnabled (fst (recomputeJobNextRunAtMs lib now j)) \<and> fit lib now (fst (recomputeJobNextRunAtMs lib now j))"
proof -
  obtain v where v: "computeJobNextRunAtMs lib j now = Inr v" using assms(2) by (auto simp: fit_def answers_def split: sum.splits)
  let ?j = "fst (recomputeJobNextRunAtMs lib now j)"
  have k: "jobId ?j = jobId j" "jobEnabled ?j = jobEnabled j" "jobSchedule ?j = jobSchedule j" "runningAtMs (jobState ?j) = runningAtMs (jobState j)"
    using v by (simp_all add: recomputeJobNextRunAtMs_def Let_def)
  then have "answers lib now ?j" using assms(2) by (intro answers_cong [of ?j j]) (simp_all add: fit_def)
  with k assms show ?thesis by (simp add: fit_def)
qed

lemma normalize_keeps [cron_keep]:
  "jobId (fst (normalizeJobTickState now job)) = jobId job"
  "jobEnabled (fst (normalizeJobTickState now job)) = jobEnabled job"
  "jobEnabled job \<Longrightarrow> runningAtMs (jobState job) = Some r \<Longrightarrow> not_stuck now r \<Longrightarrow> runningAtMs (jobState (fst (normalizeJobTickState now job))) = Some r"
  "jobSchedule (fst (normalizeJobTickState now job)) = jobSchedule job
     \<or> (case jobSchedule (fst (normalizeJobTickState now job)) of Cs_cron _ _ _ \<Rightarrow> False | _ \<Rightarrow> True)"
  by (auto simp: normalizeJobTickState_def not_stuck_def Let_def split: CronSchedule.splits option.splits)

lemma normalize_fit: "jobEnabled j \<Longrightarrow> fit lib now j \<Longrightarrow> fit lib now (fst (normalizeJobTickState now j))"
  using normalize_keeps(3) [of j _ now] answers_cong [OF normalize_keeps(1,2,4)] by (auto simp: fit_def)

lemma walk_held:
  assumes "\<And>j. jobId (fst (fn j)) = jobId j"
    "\<And>j. jobEnabled j \<Longrightarrow> fit lib now j \<Longrightarrow> jobEnabled (fst (fn j)) \<and> fit lib now (fst (fn j))"
    "held I (fit lib now) jobs"
  shows "held I (fit lib now) (fst (walkSchedulableJobs fn now jobs))"
proof -
  let ?f = "\<lambda>job. case normalizeJobTickState now job of (job1, _, skip) \<Rightarrow> if skip then job1 else fst (fn job1)"
  have "fst (walkSchedulableJobs fn now jobs) = map ?f jobs" for jobs
    by (induction jobs) (auto simp: Let_def split: prod.splits)
  moreover have "held I (fit lib now) (map ?f jobs)"
  proof (rule held_map [OF assms(3)])
    fix j assume j: "j \<in> set jobs"
    obtain j1 c s where n: "normalizeJobTickState now j = (j1, c, s)" by (cases "normalizeJobTickState now j") auto
    then show "jobId (?f j) = jobId j" using normalize_keeps(1) [of now j] assms(1) by auto
    assume "jobId j \<in> I"
    with assms(3) j have "jobEnabled j" "fit lib now j" by (auto simp: held_def)
    with normalize_keeps(2) [of now j] normalize_fit [of j lib now] n have "jobEnabled j1" "fit lib now j1" by simp_all
    with assms(2) [of j1] n show "jobEnabled (?f j) \<and> fit lib now (?f j)" by auto
  qed
  ultimately show ?thesis by simp
qed

lemma maintenance_held:
  "held I (fit lib now) jobs \<Longrightarrow> held I (fit lib now) (fst (recomputeNextRunsForMaintenance lib expired now jobs))"
  unfolding recomputeNextRunsForMaintenance_def
  by (rule walk_held) (use recompute_fit [of _ lib now] in \<open>auto simp: Let_def cron_keep\<close>)

lemma recompute_held:
  "held I (fit lib now) jobs \<Longrightarrow> held I (fit lib now) (fst (recomputeNextRuns lib now jobs))"
  unfolding recomputeNextRuns_def
  by (rule walk_held) (use recompute_fit [of _ lib now] in \<open>auto simp: Let_def cron_keep\<close>)

section \<open>The operations on the store\<close>

text \<open>The marks at most two hours old at a time at which the schedules of these jobs can be computed; and any marks\<close>

definition has_mark :: "CronJob \<Rightarrow> bool" where
  "has_mark j \<longleftrightarrow> runningAtMs (jobState j) \<noteq> None"

abbreviation fresh :: "CronLib \<Rightarrow> string set \<Rightarrow> int \<Rightarrow> CronService \<Rightarrow> bool" where
  "fresh lib I now st \<equiv> sheld I (fit lib now) st"

abbreviation marked :: "string set \<Rightarrow> CronService \<Rightarrow> bool" where
  "marked I st \<equiv> sheld I has_mark st"

lemma fresh_marked: "fresh lib I now st \<Longrightarrow> marked I st"
  by (erule sheld_mono) (auto simp: fit_def has_mark_def)

lemma sheld_effects [simp]: "sheld I okay (effects_add es st) \<longleftrightarrow> sheld I okay st"
  by (simp add: sheld_def effects_add_def)

lemma sheld_emit [simp]: "sheld I okay (emit_cron e st) \<longleftrightarrow> sheld I okay st"
  by (simp add: emit_cron_def)

lemma sheld_arm [simp]: "sheld I okay (armTimer deps now st) \<longleftrightarrow> sheld I okay st"
  by (simp add: sheld_def armTimer_def)

lemma sheld_active [simp]: "sheld I okay (mark_active jid st) \<longleftrightarrow> sheld I okay st" "sheld I okay (clear_active jid st) \<longleftrightarrow> sheld I okay st"
  by (simp_all add: sheld_def mark_active_def clear_active_def)

lemma sheld_fields [simp]:
  "sheld I okay (st\<lparr>cronTimer := t\<rparr>) \<longleftrightarrow> sheld I okay st" "sheld I okay (st\<lparr>cronRunning := b\<rparr>) \<longleftrightarrow> sheld I okay st"
  by (simp_all add: sheld_def)

lemma running_kept [simp]:
  "cronRunning (effects_add es st) = cronRunning st" "cronRunning (emit_cron e st) = cronRunning st"
  "cronRunning (armTimer deps now st) = cronRunning st" "cronRunning (mark_active jid st) = cronRunning st"
  "cronRunning (clear_active jid st) = cronRunning st" "cronRunning (change_jobs f st) = cronRunning st"
  "cronRunning (load_cron st) = cronRunning st" "cronRunning (put_job jid job st) = cronRunning st"
  "cronRunning (drop_job jid st) = cronRunning st"
  by (simp_all add: effects_add_def emit_cron_def armTimer_def mark_active_def clear_active_def change_jobs_def load_cron_def
      put_job_def drop_job_def)

lemma running_persist [simp]: "cronRunning (persist_cron st) = cronRunning st"
  by (simp add: persist_cron_def split: option.split)

lemma running_walk [simp]: "cronRunning (snd (walk_store walk st)) = cronRunning st"
  by (simp add: walk_store_def split: option.split prod.split)

lemma running_loaded [simp]: "cronRunning (ensureLoaded deps f s now st) = cronRunning st"
  by (simp add: ensureLoaded_def Let_def)

lemma sheld_persist [intro]: "sheld I okay st \<Longrightarrow> sheld I okay (persist_cron st)"
  by (simp add: sheld_def persist_cron_def split: option.split)

lemma sheld_load [intro]: "sheld I okay st \<Longrightarrow> sheld I okay (load_cron st)"
  by (simp add: sheld_def load_cron_def)

lemma sheld_change:
  "sheld I okay st \<Longrightarrow> (\<And>jobs. storeJobs st = Some jobs \<Longrightarrow> held I okay (f jobs)) \<Longrightarrow> sheld I okay (change_jobs f st)"
  by (auto simp: sheld_def change_jobs_def)

lemma sheld_walk:
  "sheld I okay st \<Longrightarrow> (\<And>jobs. held I okay jobs \<Longrightarrow> held I okay (fst (walk jobs))) \<Longrightarrow> sheld I okay (snd (walk_store walk st))"
  by (fastforce simp: walk_store_def sheld_def effects_add_def split: option.split prod.split)

lemma fresh_maintenance [intro]:
  "fresh lib I now st \<Longrightarrow> fresh lib I now (snd (walk_store (recomputeNextRunsForMaintenance lib expired now) st))"
  by (rule sheld_walk) (auto intro: maintenance_held)

lemma fresh_recompute [intro]:
  "fresh lib I now st \<Longrightarrow> fresh lib I now (snd (walk_store (recomputeNextRuns lib now) st))"
  by (rule sheld_walk) (auto intro: recompute_held)

lemma fresh_loaded [intro]:
  "fresh (cronLib deps) I now st \<Longrightarrow> fresh (cronLib deps) I now (ensureLoaded deps f s now st)"
  by (auto simp: ensureLoaded_def Let_def)

lemma sheld_loaded_quiet: "sheld I okay st \<Longrightarrow> sheld I okay (ensureLoaded deps f True now st)"
  by (auto simp: ensureLoaded_def Let_def)

text \<open>The jobs that memory or the file have\<close>

definition known_jobs :: "CronService \<Rightarrow> CronJob list" where
  "known_jobs st = jobs_of st @ fileJobs st"

lemma loaded_quiet_known: "set (jobs_of (ensureLoaded deps f True now st)) \<subseteq> set (known_jobs st)"
  by (auto simp: ensureLoaded_def Let_def load_cron_def jobs_of_def known_jobs_def)

lemma sheld_put:
  "sheld I okay st \<Longrightarrow> jobId job = jid \<Longrightarrow> (jid \<in> I \<Longrightarrow> jobEnabled job \<and> okay job)
   \<Longrightarrow> sheld I okay (put_job jid job st)"
  unfolding put_job_def by (rule sheld_change) (auto simp: sheld_def intro!: held_map_first)

lemma sheld_drop [intro]: "sheld I okay st \<Longrightarrow> sheld I okay (drop_job jid st)"
  unfolding drop_job_def by (rule sheld_change) (auto simp: sheld_def intro!: held_filter)

lemma find_job_Some: "find_job jobs jid = Some job \<Longrightarrow> job \<in> set jobs \<and> jobId job = jid"
  unfolding find_job_def by (induction jobs) (auto split: if_splits)

lemma find_held: "held I okay jobs \<Longrightarrow> find_job jobs jid = Some job \<Longrightarrow> jid \<in> I
  \<Longrightarrow> jobEnabled job \<and> okay job"
  by (auto simp: held_def dest: find_job_Some)

lemma sheld_jobs_of: "sheld I okay st \<Longrightarrow> held I okay (jobs_of st)"
  by (cases "storeJobs st") (auto simp: sheld_def jobs_of_def)

section \<open>Results and edits\<close>

lemma counted_id [simp]: "jobId (fst (counted_result deps now job r)) = jobId job"
  by (simp add: counted_result_def Let_def split: option.split)

lemma natural_next_id [simp]: "jobId (fst (natural_next lib job prev preserve endAt)) = jobId job"
  unfolding natural_next_def Let_def by (split sum.split) (auto simp: case_prod_beta)

lemma set_next_id [simp]: "jobId (set_next next job) = jobId job"
  by (simp add: set_next_def)

lemma recorded_id [simp]: "jobId (recorded_result lib job r) = jobId job"
  by (simp add: recorded_result_def Let_def)

lemma result_id: "jobId (fst (snd (applyJobResult deps now job r preserve))) = jobId job"
proof -
  obtain job1 effects1 where c: "counted_result deps now (recorded_result (cronLib deps) job r) r = (job1, effects1)" by fastforce
  have j: "jobId job1 = jobId job"
    using counted_id [of deps now "recorded_result (cronLib deps) job r" r] c by simp
  obtain job2 natural effects2 where n: "natural_next (cronLib deps) job1 (lastRunAtMs (jobState job)) preserve (endedAtR r) = (job2, natural, effects2)"
    by (metis prod.collapse)
  have "jobId job2 = jobId job1"
    using natural_next_id [of "cronLib deps" job1 "lastRunAtMs (jobState job)" preserve "endedAtR r"] n by simp
  with c j n show ?thesis unfolding applyJobResult_def by (simp add: Let_def disabled_after_run_def)
qed

lemma sheld_settle:
  "sheld I okay st \<Longrightarrow> jobId job \<notin> I \<Longrightarrow> sheld I okay (snd (settle_job deps now preserve job r st))"
  using result_id [of deps now job r preserve]
  by (auto simp: settle_job_def Let_def split: prod.split intro!: sheld_put)

lemma running_settle [simp]: "cronRunning (snd (settle_job deps now preserve job r st)) = cronRunning st"
  by (simp add: settle_job_def Let_def split: prod.split)

lemma sheld_outcome: "sheld I okay st \<Longrightarrow> fst jr \<notin> I \<Longrightarrow> sheld I okay (applyOutcomeToStoredJob deps now jr st)"
  by (auto simp: applyOutcomeToStoredJob_def Let_def split: prod.split option.split dest!: find_job_Some intro!: sheld_settle)

lemma running_outcome [simp]: "cronRunning (applyOutcomeToStoredJob deps now jr st) = cronRunning st"
  by (simp add: applyOutcomeToStoredJob_def Let_def split: prod.split option.split)

lemma sheld_outcomes: "sheld I okay st \<Longrightarrow> fst ` set rs \<inter> I = {} \<Longrightarrow> sheld I okay (fold (applyOutcomeToStoredJob deps now) rs st)"
  by (induction rs arbitrary: st) (auto intro: sheld_outcome)

lemma running_outcomes [simp]: "cronRunning (fold (applyOutcomeToStoredJob deps now) rs st) = cronRunning st"
  by (induction rs arbitrary: st) auto

text \<open>What every step of a patch keeps, the patch keeps, refused or not.\<close>

lemma job_steps_keep: "list_all (\<lambda>step. \<forall>j. Q j \<longrightarrow> Q (snd (step j))) steps \<Longrightarrow> Q job \<Longrightarrow> Q (snd (job_steps steps job))"
  by (induction steps arbitrary: job) (auto split: prod.split option.split)

lemma delivery_check_keeps:
  "jobId (snd (assertDeliverySupport lib job)) = jobId job" "jobEnabled (snd (assertDeliverySupport lib job)) = jobEnabled job"
  "jobState (snd (assertDeliverySupport lib job)) = jobState job"
  "jobId (snd (assertFailureDestinationSupport lib job)) = jobId job" "jobEnabled (snd (assertFailureDestinationSupport lib job)) = jobEnabled job"
  "jobState (snd (assertFailureDestinationSupport lib job)) = jobState job"
  by (auto simp: assertDeliverySupport_def assertFailureDestinationSupport_def split: option.split CronDeliveryMode.split)

lemma patch_id: "jobId (snd (applyJobPatch lib agent patch job)) = jobId job"
  unfolding applyJobPatch_def
  by (rule job_steps_keep [where Q = "\<lambda>j. jobId j = jobId job"])
    (auto simp: job_checks_def check_step_def set_step_def delivery_check_keeps split: option.split sum.split)

text \<open>A patch that neither disables the job nor writes its state\<close>

definition gentle_patch :: "CronJobPatch \<Rightarrow> bool" where
  "gentle_patch patch \<longleftrightarrow> enabledJp patch \<noteq> Some False \<and> stateJp patch = None"

lemma gentle_patch_keeps:
  assumes "gentle_patch patch" "jobEnabled job"
  shows "jobEnabled (snd (applyJobPatch lib agent patch job)) \<and> jobState (snd (applyJobPatch lib agent patch job)) = jobState job"
  unfolding applyJobPatch_def
  by (rule job_steps_keep [where Q = "\<lambda>j. jobEnabled j \<and> jobState j = jobState job"])
    (use assms in \<open>auto simp: gentle_patch_def job_checks_def check_step_def set_step_def delivery_check_keeps nullish_def
      split: option.split sum.split\<close>)

lemma anchored_keeps [simp]:
  "jobId (anchored_after_patch now patch job) = jobId job" "jobEnabled (anchored_after_patch now patch job) = jobEnabled job"
  "jobState (anchored_after_patch now patch job) = jobState job"
  by (auto simp: anchored_after_patch_def split: CronSchedule.split option.split)

lemma rescheduled_keeps:
  assumes "rescheduled_after_patch lib now patch job = Inr job'"
  shows "jobId job' = jobId job" "jobEnabled job \<Longrightarrow> jobEnabled job' \<and> runningAtMs (jobState job') = runningAtMs (jobState job)"
  using assms by (auto simp: rescheduled_after_patch_def set_next_def Let_def split: if_splits sum.splits)

lemma checks_id: "job_steps (job_checks lib agent) j = (err, j1) \<Longrightarrow> jobId j1 = jobId j"
  using job_steps_keep [where Q = "\<lambda>x. jobId x = jobId j" and steps = "job_checks lib agent" and job = j]
  by (auto simp: job_checks_def check_step_def delivery_check_keeps)

lemma created_id:
  assumes "createJob lib agent now uuid i = Inr job"
  shows "jobId job = uuid"
proof -
  obtain j0 err j1 where j: "jobId j0 = uuid" "job_steps (job_checks lib agent) j0 = (err, j1)"
    "(case err of Some e \<Rightarrow> Inl e | None \<Rightarrow> (case computeJobNextRunAtMs lib j1 now of Inl text \<Rightarrow> Inl (Croner_error text)
       | Inr next \<Rightarrow> Inr (with_state (\<lambda>s. s\<lparr>nextRunAtMs := next\<rparr>) j1))) = Inr job"
    using assms unfolding createJob_def andThen_Inr Let_def case_prod_beta
    by (elim exE conjE) (rule that [OF _ prod.collapse [symmetric]], simp_all)
  from checks_id [OF j(2)] j(1,3) show ?thesis by (auto split: option.splits sum.splits)
qed

section \<open>The operations\<close>

lemma fresh_list: "fresh (cronLib deps) I now st \<Longrightarrow> fresh (cronLib deps) I now (ensureLoadedForRead deps now st)"
  by (auto simp: ensureLoadedForRead_def case_prod_beta)

lemma running_list [simp]: "cronRunning (ensureLoadedForRead deps now st) = cronRunning st"
  by (simp add: ensureLoadedForRead_def case_prod_beta)

lemma running_ops [simp]:
  "cronRunning (snd (cron_add deps now uuid i st)) = cronRunning st" "cronRunning (snd (cron_update deps now jid patch st)) = cronRunning st"
  "cronRunning (snd (cron_remove deps now jid st)) = cronRunning st" "cronRunning (snd (cron_list deps now b st)) = cronRunning st"
  by (simp_all add: cron_add_def cron_update_def cron_remove_def cron_list_def Let_def split: sum.split prod.split option.split)

lemma fresh_remove: "fresh (cronLib deps) I now st \<Longrightarrow> fresh (cronLib deps) I now (snd (cron_remove deps now jid st))"
  by (auto simp: cron_remove_def Let_def)

lemma walk_ids: 
  assumes "\<And>j. jobId (fst (fn j)) = jobId j"
  shows "map jobId (fst (walkSchedulableJobs fn now jobs)) = map jobId jobs"
proof (induction jobs)
  case (Cons j jobs)
  obtain j1 c s where n: "normalizeJobTickState now j = (j1, c, s)" by (metis prod.collapse)
  with normalize_keeps(1) [of now j] have "jobId j1 = jobId j" by simp
  with Cons n assms show ?case by (auto simp: Let_def split: prod.split) (metis fst_conv)+
qed simp

lemma recompute_ids: "map jobId (fst (recomputeNextRuns lib now jobs)) = map jobId jobs"
  unfolding recomputeNextRuns_def by (rule walk_ids) (auto simp: Let_def cron_keep)

lemma maintenance_ids: "map jobId (fst (recomputeNextRunsForMaintenance lib expired now jobs)) = map jobId jobs"
  unfolding recomputeNextRunsForMaintenance_def by (rule walk_ids) (auto simp: Let_def cron_keep)

lemma loaded_ids:
  "jobId ` set (jobs_of (ensureLoaded deps f s now st)) \<subseteq> jobId ` set (known_jobs st)"
proof -
  have "jobId ` set (jobs_of (snd (walk_store (recomputeNextRuns (cronLib deps) now) (load_cron st)))) = jobId ` set (fileJobs st)"
    using arg_cong [OF recompute_ids [of "cronLib deps" now "fileJobs st"], of set]
    by (simp add: walk_store_def load_cron_def jobs_of_def effects_add_def case_prod_beta)
  then show ?thesis
    by (auto simp: ensureLoaded_def Let_def known_jobs_def jobs_of_def load_cron_def)
qed

lemma fresh_add:
  assumes "fresh (cronLib deps) I now st" "uuid \<notin> I" "uuid \<notin> jobId ` set (known_jobs st)"
  shows "fresh (cronLib deps) I now (snd (cron_add deps now uuid i st))"
proof -
  let ?st1 = "ensureLoaded deps False False now st"
  have l: "fresh (cronLib deps) I now ?st1" using assms(1) by (rule fresh_loaded)
  have n: "uuid \<notin> jobId ` set (jobs_of ?st1)" using loaded_ids [of deps False False now st] assms(3) by blast
  have "fresh (cronLib deps) I now (change_jobs (\<lambda>jobs. jobs @ [job]) ?st1)" if "jobId job = uuid" for job
    by (rule sheld_change [OF l]) (use that n l assms(2) in \<open>auto simp: sheld_def jobs_of_def intro!: held_snoc\<close>)
  with l show ?thesis
    by (auto simp: cron_add_def Let_def split: sum.split dest: created_id)
qed

lemma marked_update:
  assumes "marked I st" "jid \<in> I \<Longrightarrow> gentle_patch patch"
  shows "marked I (snd (cron_update deps now jid patch st))"
proof -
  let ?st1 = "ensureLoaded deps False True now st"
  have l: "marked I ?st1" using assms(1) by (rule sheld_loaded_quiet)
  show ?thesis
  proof (cases "find_job (jobs_of ?st1) jid")
    case None
    with l show ?thesis by (simp add: cron_update_def findJobOrThrow_def)
  next
    case (Some job)
    then have j: "jobId job = jid" by (auto dest: find_job_Some)
    obtain err job1 where a: "applyJobPatch (cronLib deps) (cronDefaultAgentId deps) patch job = (err, job1)" by fastforce
    have j1: "jobId job1 = jid" using patch_id [of "cronLib deps" "cronDefaultAgentId deps" patch job] a j by simp
    have k: "jobEnabled job1 \<and> has_mark job1" if "jid \<in> I"
      using find_held [OF sheld_jobs_of [OF l] Some that] gentle_patch_keeps [OF assms(2) [OF that], of job "cronLib deps" "cronDefaultAgentId deps"] a
      by (simp add: has_mark_def)
    show ?thesis
      using Some a j1 k l rescheduled_keeps
      by (auto simp: cron_update_def findJobOrThrow_def has_mark_def Let_def intro!: sheld_put split: option.split sum.split)
  qed
qed

section \<open>Ticks\<close>

text \<open>What is marked anew, beside what was: the jobs that a choice picks\<close>

lemma held_mark:
  assumes "held I has_mark jobs" "\<And>j. j \<in> set jobs \<Longrightarrow> pick j \<Longrightarrow> jobEnabled j"
  shows "held (I \<union> jobId ` set (filter pick jobs)) has_mark (map (\<lambda>j. if pick j then running_mark now j else j) jobs)"
proof -
  have ids: "map jobId (map (\<lambda>j. if pick j then running_mark now j else j) jobs) = map jobId jobs"
    by (simp add: running_mark_def)
  have "jobEnabled k \<and> has_mark k"
    if k: "k = (if pick j then running_mark now j else j)" and j: "j \<in> set jobs"
      and i: "jobId k \<in> I \<union> jobId ` set (filter pick jobs)" for j k
  proof (cases "pick j")
    case True
    with k assms(2) [OF j] show ?thesis by (simp add: running_mark_def has_mark_def)
  next
    case False
    with k have kj: "k = j" by simp
    have "jobId j \<in> I"
    proof (rule ccontr)
      assume "jobId j \<notin> I"
      with i kj obtain j' where "j' \<in> set jobs" "pick j'" "jobId j' = jobId j" by auto
      with j False assms(1) show False by (auto simp: held_def distinct_map dest: inj_onD)
    qed
    with assms(1) j kj show ?thesis by (auto simp: held_def)
  qed
  then have "\<forall>k \<in> set (map (\<lambda>j. if pick j then running_mark now j else j) jobs). jobId k \<in> I \<union> jobId ` set (filter pick jobs)
      \<longrightarrow> jobEnabled k \<and> has_mark k"
    unfolding set_map by blast
  with assms(1) show ?thesis unfolding held_def ids by blast
qed

text \<open>What a tick picks is enabled, not marked, and so not in flight.\<close>

lemma runnable_free: "isRunnableJob lib now skip a b j \<Longrightarrow> jobEnabled j \<and> runningAtMs (jobState j) = None"
  by (auto simp: isRunnableJob_def Let_def split: if_splits)

lemma picked_free:
  "held I has_mark jobs \<Longrightarrow> (\<And>j. pick j \<Longrightarrow> runningAtMs (jobState j) = None) \<Longrightarrow> jobId ` set (filter pick jobs) \<inter> I = {}"
  by (fastforce simp: held_def has_mark_def)

definition slot_ids :: "(CronJob \<times> CronSlot) list \<Rightarrow> string list" where
  "slot_ids slots = map (jobId \<circ> fst) slots"

lemma slot_ids_simps [simp]: "slot_ids [] = []" "slot_ids (map (\<lambda>j. (running_mark now j, s)) jobs) = map jobId jobs"
  by (simp_all add: slot_ids_def running_mark_def)

lemma slot_ids_update: "jobId job = jobId (fst (slots ! i)) \<Longrightarrow> slot_ids (slots[i := (job, s)]) = slot_ids slots"
  by (induction slots arbitrary: i) (auto simp: slot_ids_def split: nat.split)

lemma fresh_tick:
  assumes "fresh (cronLib deps) I now st" "tick_begin deps now st = (Some t, st')"
  shows "marked (I \<union> set (slot_ids (tickSlots t))) st'" "distinct (slot_ids (tickSlots t))"
    "set (slot_ids (tickSlots t)) \<inter> I = {}" "cronRunning st'" "\<not> tickApplied t" "\<not> cronRunning st"
proof -
  define st0 where "st0 = st\<lparr>cronTimer := Some MAX_TIMER_DELAY_MS, cronRunning := True\<rparr>"
  define st1 where "st1 = load_cron st0"
  define pick where "pick = isRunnableJob (cronLib deps) now [] False False"
  have s1: "ensureLoaded deps True True now st0 = st1" by (simp add: ensureLoaded_def st1_def)
  have jobs: "jobs_of st1 = fileJobs st" "storeJobs st1 = Some (fileJobs st)" "cronRunning st1"
    by (simp_all add: st1_def st0_def load_cron_def jobs_of_def)
  have f: "fresh (cronLib deps) I now st1" using assms(1) by (auto simp: st1_def st0_def)
  have h: "held I has_mark (fileJobs st)" using fresh_marked [OF assms(1)] by (simp add: sheld_def)
  have p: "pick j \<Longrightarrow> jobEnabled j \<and> runningAtMs (jobState j) = None" for j unfolding pick_def by (rule runnable_free)
  let ?mark = "map (\<lambda>j. if pick j then running_mark now j else j)"
  show r: "\<not> cronRunning st" using assms(2) by (auto simp: tick_begin_def Let_def)
  then have split: "(tickSlots t = [] \<and> fresh (cronLib deps) I now st' \<and> cronRunning st')
      \<or> (tickSlots t = map (\<lambda>j. (running_mark now j, Slot_waiting)) (filter pick (fileJobs st)) \<and> st' = persist_cron (change_jobs ?mark st1))"
    using assms(2) f jobs s1 unfolding tick_begin_def Let_def case_prod_beta st0_def [symmetric] pick_def [symmetric]
    by (auto split: if_splits)
  show "\<not> tickApplied t" using assms(2) by (auto simp: tick_begin_def Let_def case_prod_beta split: if_splits)
  from split show "cronRunning st'" using jobs(3) by auto
  from split show "distinct (slot_ids (tickSlots t))" using h by (auto simp: held_def distinct_map_filter)
  from split show "set (slot_ids (tickSlots t)) \<inter> I = {}" using picked_free [OF h, of pick] p by auto
  have "marked (I \<union> jobId ` set (filter pick (fileJobs st))) (persist_cron (change_jobs ?mark st1))"
    using held_mark [OF h, of pick] p jobs by (simp add: sheld_def persist_cron_def change_jobs_def)
  with split fresh_marked show "marked (I \<union> set (slot_ids (tickSlots t))) st'" by auto
qed

lemma tick_busy:
  assumes "tick_begin deps now st = (None, st')"
  shows "st' = st\<lparr>cronTimer := Some MAX_TIMER_DELAY_MS\<rparr>"
  using assms by (auto simp: tick_begin_def Let_def case_prod_beta split: if_splits)

lemma marked_job_start:
  assumes "marked I st" "tick_job_start deps now t st = Some (t', st')"
  shows "marked I st'" "slot_ids (tickSlots t') = slot_ids (tickSlots t)" "tickApplied t' = tickApplied t"
    "cronRunning st' = cronRunning st"
proof -
  have m: "marked I (change_jobs (map_first (\<lambda>j. jobId j = jid) (with_state (\<lambda>s. s\<lparr>runningAtMs := Some now\<rparr>))) st)" for jid
    by (rule sheld_change [OF assms(1)], rule held_map_first) (use assms(1) in \<open>auto simp: sheld_def held_def has_mark_def\<close>)
  show "marked I st'" "slot_ids (tickSlots t') = slot_ids (tickSlots t)" "tickApplied t' = tickApplied t" "cronRunning st' = cronRunning st"
    using assms m by (auto simp: tick_job_start_def Let_def slot_ids_update split: option.splits if_splits)
qed

lemma job_end_keeps:
  "tick_job_end now i oc t = Some t' \<Longrightarrow> slot_ids (tickSlots t') = slot_ids (tickSlots t) \<and> tickApplied t' = tickApplied t"
  by (auto simp: tick_job_end_def slot_ids_update split: if_splits prod.splits CronSlot.splits)

lemma results_within: "fst ` set (slot_results t) \<subseteq> set (slot_ids (tickSlots t))"
  by (force simp: slot_results_def slot_ids_def split: CronSlot.splits)

lemma fresh_apply:
  assumes "fresh (cronLib deps) I now st" "set (slot_ids (tickSlots t)) \<inter> I = {}" "tick_apply deps now t st = Some (t', st')"
  shows "fresh (cronLib deps) I now st' \<and> tickApplied t' \<and> cronRunning st' = cronRunning st"
proof -
  have "fst ` set (slot_results t) \<inter> I = {}" using results_within assms(2) by blast
  then have "fresh (cronLib deps) I now (fold (applyOutcomeToStoredJob deps now) (slot_results t) (ensureLoaded deps True True now st))"
    by (rule sheld_outcomes [OF fresh_loaded [OF assms(1)]])
  with assms(1,3) show ?thesis
    by (auto simp: tick_apply_def split: if_splits intro!: sheld_persist fresh_maintenance)
qed

section \<open>Manual runs\<close>

lemma sheld_skip_invalid:
  assumes "fresh (cronLib deps) I now st" "jobId job \<notin> I"
  shows "fresh (cronLib deps) I now (skipInvalidPersistedManualRun deps now forced err job st)"
proof -
  have "fresh (cronLib deps) I now (snd (settle_job deps now forced job r st))" for r by (rule sheld_settle [OF assms])
  then show ?thesis by (auto simp: skipInvalidPersistedManualRun_def Let_def intro!: sheld_persist fresh_maintenance)
qed

lemma running_skip_invalid [simp]: "cronRunning (skipInvalidPersistedManualRun deps now forced err job st) = cronRunning st"
  by (simp add: skipInvalidPersistedManualRun_def Let_def)

lemma fresh_inspect:
  assumes "fresh (cronLib deps) I now st"
    "jid \<in> I \<Longrightarrow> fst (inspectManualRunPreflight deps now jid forced st) \<noteq> Pf_invalid_spec"
  shows "fresh (cronLib deps) I now (snd (inspectManualRunPreflight deps now jid forced st))"
proof -
  let ?st1 = "snd (walk_store (recomputeNextRunsForMaintenance (cronLib deps) False now) (ensureLoaded deps False True now st))"
  have l: "fresh (cronLib deps) I now ?st1" using assms(1) by (intro fresh_maintenance fresh_loaded)
  show ?thesis
  proof (cases "find_job (jobs_of ?st1) jid")
    case None
    with l show ?thesis by (simp add: inspectManualRunPreflight_def findJobOrThrow_def Let_def)
  next
    case (Some job)
    then have "jobId job = jid" by (auto dest: find_job_Some)
    with Some l assms(2) show ?thesis
      by (auto simp: inspectManualRunPreflight_def findJobOrThrow_def Let_def intro!: sheld_skip_invalid split: option.splits)
  qed
qed

lemma running_inspect [simp]: "cronRunning (snd (inspectManualRunPreflight deps now jid forced st)) = cronRunning st"
  by (simp add: inspectManualRunPreflight_def Let_def split: sum.split option.split)

lemma marked_reserve:
  assumes "marked I st" "reserveManualRun now jid forced st = (Inr (Some m), st')" "\<And>j. find_job (jobs_of st) jid = Some j \<Longrightarrow> jobEnabled j"
  shows "marked (insert jid I) st' \<and> jid \<notin> I \<and> jobId (manualJob m) = jid \<and> cronRunning st' = cronRunning st"
proof -
  obtain job where f: "find_job (jobs_of st) jid = Some job" and n: "runningAtMs (jobState job) = None"
    and m: "m = \<lparr>manualJob = running_mark now job, manualStartedAt = now, manualForced = forced\<rparr>"
    and st': "\<exists>es. st' = effects_add es (persist_cron (put_job jid (running_mark now job) st))"
    using assms(2) by (auto simp: reserveManualRun_def findJobOrThrow_def Let_def split: option.splits if_splits)
  obtain jobs where jobs: "storeJobs st = Some jobs" "job \<in> set jobs" "jobId job = jid"
    using f by (cases "storeJobs st") (auto simp: jobs_of_def dest: find_job_Some)
  have h: "held I has_mark jobs" using assms(1) jobs(1) by (simp add: sheld_def)
  have out: "jid \<notin> I" using h jobs(2,3) n by (auto simp: held_def has_mark_def)
  have "held (insert jid I) has_mark (map_first (\<lambda>j. jobId j = jid) (\<lambda>_. running_mark now job) jobs)"
  proof -
    let ?marked = "map_first (\<lambda>j. jobId j = jid) (\<lambda>_. running_mark now job) jobs"
    have "map jobId ?marked = map jobId jobs"
      by (rule map_first_id) (simp add: running_mark_def jobs(3))
    then have "distinct (map jobId ?marked)" using h by (simp add: held_def)
    moreover have "?marked = map (\<lambda>j. if jobId j = jid then running_mark now job else j) jobs"
      using h by (intro map_first_distinct) (simp add: held_def)
    then have "\<forall>k \<in> set ?marked. jobId k \<in> insert jid I \<longrightarrow> jobEnabled k \<and> has_mark k"
      using h assms(3) [OF f] by (auto simp: held_def running_mark_def has_mark_def)
    ultimately show ?thesis unfolding held_def by blast
  qed
  with jobs(1) st' m jobs(3) out show ?thesis
    by (auto simp: sheld_def put_job_def change_jobs_def persist_cron_def effects_add_def running_mark_def)
qed

lemma fresh_manual_end:
  assumes "fresh (cronLib deps) I now st" "jobId (manualJob m) \<notin> I"
  shows "fresh (cronLib deps) I now (finishPreparedManualRun deps now m oc st) \<and> cronRunning (finishPreparedManualRun deps now m oc st) = cronRunning st"
proof -
  let ?jid = "jobId (manualJob m)"
  let ?r = "stamped oc (manualStartedAt m) now"
  let ?st1 = "ensureLoaded deps False True now (effects_add [Ce_task_ended ?jid (statusO oc)] st)"
  have l: "fresh (cronLib deps) I now ?st1" using assms(1) by (intro fresh_loaded) simp_all
  have merge: "fresh (cronLib deps) I now (mergeManualRunSnapshotAfterReload ?jid snapshot removed s)" if "fresh (cronLib deps) I now s" for snapshot removed s
  proof (cases removed)
    case False
    have "fresh (cronLib deps) I now (change_jobs (map_first (\<lambda>j. jobId j = ?jid) (\<lambda>reloaded. reloaded\<lparr>jobEnabled := jobEnabled snapshot,
        updatedAtMs := updatedAtMs snapshot, jobState := jobState snapshot\<rparr>)) s)"
      by (rule sheld_change [OF that], rule held_map_first) (use that assms(2) in \<open>auto simp: sheld_def\<close>)
    with False show ?thesis by (simp add: mergeManualRunSnapshotAfterReload_def)
  qed (use that in \<open>auto simp: mergeManualRunSnapshotAfterReload_def\<close>)
  have rm: "cronRunning (mergeManualRunSnapshotAfterReload jid snapshot removed s) = cronRunning s" for jid snapshot removed s
    by (simp add: mergeManualRunSnapshotAfterReload_def)
  show ?thesis
  proof (cases "find_job (jobs_of ?st1) ?jid")
    case None
    with l show ?thesis by (simp add: finishPreparedManualRun_def Let_def)
  next
    case (Some job)
    then have "jobId job \<notin> I" using assms(2) by (auto dest: find_job_Some)
    then have "fresh (cronLib deps) I now (snd (settle_job deps now (manualForced m) job ?r ?st1))" by (rule sheld_settle [OF l])
    with Some merge rm show ?thesis
      by (auto simp: finishPreparedManualRun_def Let_def case_prod_beta intro!: sheld_persist fresh_maintenance fresh_loaded)
  qed
qed

section \<open>Start-up\<close>

lemma sheld_ids: "sheld {} okay st \<longleftrightarrow> distinct (map jobId (fileJobs st)) \<and> (\<forall>jobs. storeJobs st = Some jobs \<longrightarrow> distinct (map jobId jobs))"
  by (simp add: sheld_def held_def)

lemma marked_start_begin:
  assumes "marked {} st"
  shows "marked {} (snd (start_begin deps now st))" "cronRunning (snd (start_begin deps now st)) = cronRunning st"
proof -
  have l: "marked {} (ensureLoaded deps False True now st)" using assms by (rule sheld_loaded_quiet)
  have "marked {} (change_jobs (map (with_state (\<lambda>s. s\<lparr>runningAtMs := None\<rparr>))) (ensureLoaded deps False True now st))"
    by (rule sheld_change [OF l], rule held_map) (use l in \<open>auto simp: sheld_def\<close>)
  with l show "marked {} (snd (start_begin deps now st))" by (auto simp: start_begin_def Let_def)
  show "cronRunning (snd (start_begin deps now st)) = cronRunning st" by (simp add: start_begin_def Let_def)
qed

lemma planned_jobs:
  assumes "held I has_mark jobs" "planStartupCatchup deps now skip jobs = (candidates, deferred, jobs')"
  shows "distinct (map jobId candidates)" "jobId ` set candidates \<inter> I = {}"
    "held (I \<union> jobId ` set candidates) has_mark jobs'"
proof -
  define sorted where "sorted = missed_jobs (cronLib deps) now skip jobs"
  define startup where
    "startup = take (nat (max 0 (nullish (maxMissedJobsPerRestart deps) DEFAULT_MAX_MISSED_JOBS_PER_RESTART))) sorted"
  have c: "candidates = map (running_mark now \<circ> snd) startup"
    and j': "jobs' = map (\<lambda>(i, job). if i \<in> set (map fst startup) then running_mark now job else job) (enumerate 0 jobs)"
    using assms(2) by (auto simp: planStartupCatchup_def Let_def sorted_def startup_def)
  have sub: "set startup \<subseteq> set (enumerate 0 jobs)" and free: "\<And>ij. ij \<in> set startup \<Longrightarrow> jobEnabled (snd ij) \<and> runningAtMs (jobState (snd ij)) = None"
    by (auto simp: startup_def sorted_def missed_jobs_def dest!: in_set_takeD dest: runnable_free)
  have ids: "map jobId jobs = map (jobId \<circ> snd) (enumerate 0 jobs)" by (metis map_map map_snd_enumerate)
  then have dist: "distinct (map (jobId \<circ> snd) (enumerate 0 jobs))" using assms(1) by (simp add: held_def)
  have "distinct (map (jobId \<circ> snd) sorted)"
    unfolding sorted_def missed_jobs_def using distinct_map_filter [OF dist]
    by (simp only: distinct_map set_sort distinct_sort)
  then have "distinct (map (jobId \<circ> snd) startup)" unfolding startup_def by (metis distinct_take take_map)
  then show "distinct (map jobId candidates)" by (simp add: c running_mark_def comp_def)
  have mem: "snd ij \<in> set jobs" if "ij \<in> set (enumerate 0 jobs)" for ij
    using that by (auto simp: in_set_enumerate_eq) (metis nth_mem)
  show "jobId ` set candidates \<inter> I = {}"
  proof (rule ccontr)
    assume "jobId ` set candidates \<inter> I \<noteq> {}"
    then obtain ij where ij: "ij \<in> set startup" "jobId (snd ij) \<in> I" by (auto simp: c running_mark_def)
    with sub mem have "snd ij \<in> set jobs" by blast
    with assms(1) ij(2) free [OF ij(1)] show False by (auto simp: held_def has_mark_def)
  qed
  have ids': "map jobId jobs' = map jobId jobs"
    unfolding j' ids map_map by (rule map_cong [OF refl]) (auto simp: running_mark_def)
  have "jobEnabled k \<and> has_mark k"
    if k: "k \<in> set jobs'" and i: "jobId k \<in> I \<union> jobId ` set candidates" for k
  proof -
    obtain n job where nj: "(n, job) \<in> set (enumerate 0 jobs)" "k = (if n \<in> set (map fst startup) then running_mark now job else job)"
      using k by (auto simp: j')
    have inj: "ij = ij'" if "ij \<in> set (enumerate 0 jobs)" "ij' \<in> set (enumerate 0 jobs)" "jobId (snd ij) = jobId (snd ij')" for ij ij'
      using dist that unfolding distinct_map inj_on_def comp_apply by blast
    show ?thesis
    proof (cases "n \<in> set (map fst startup)")
      case True
      then obtain job' where s: "(n, job') \<in> set startup" by auto
      with sub nj(1) have "job' = job" by (auto simp: in_set_enumerate_eq)
      with free [OF s] nj(2) True show ?thesis by (simp add: running_mark_def has_mark_def)
    next
      case False
      with nj have kj: "k = job" by simp
      have "jobId job \<in> I"
      proof (rule ccontr)
        assume "jobId job \<notin> I"
        with i kj obtain ij where "ij \<in> set startup" "jobId (snd ij) = jobId job" by (auto simp: c running_mark_def)
        moreover from this sub nj(1) inj [of ij "(n, job)"] have "ij = (n, job)" by auto
        ultimately have "n \<in> fst ` set startup" by force
        with False show False by simp
      qed
      with assms(1) mem [OF nj(1)] kj show ?thesis by (auto simp: held_def)
    qed
  qed
  then show "held (I \<union> jobId ` set candidates) has_mark jobs'"
    using assms(1) unfolding held_def ids' by blast
qed

lemma marked_plan:
  assumes "marked I st" "start_plan deps now skip st = (u, st')"
  shows "marked (I \<union> set (slot_ids (startupSlots u))) st'" "distinct (slot_ids (startupSlots u))"
    "set (slot_ids (startupSlots u)) \<inter> I = {}" "cronRunning st' = cronRunning st"
proof -
  let ?st1 = "ensureLoaded deps False True now st"
  obtain candidates deferred jobs' where p: "planStartupCatchup deps now skip (jobs_of ?st1) = (candidates, deferred, jobs')"
    by (metis prod.collapse)
  have l: "marked I ?st1" using assms(1) by (rule sheld_loaded_quiet)
  note pj = planned_jobs [OF sheld_jobs_of [OF l] p]
  obtain jobs where "storeJobs ?st1 = Some jobs" by (cases "storeJobs st") (auto simp: ensureLoaded_def Let_def load_cron_def)
  then have keep: "marked (I \<union> jobId ` set candidates) (persist_cron (change_jobs (\<lambda>_. jobs') ?st1))"
    using pj(3) by (simp add: sheld_def persist_cron_def change_jobs_def)
  have s: "slot_ids (startupSlots u) = map jobId candidates"
    using assms(2) p by (auto simp: start_plan_def slot_ids_def Let_def)
  show "marked (I \<union> set (slot_ids (startupSlots u))) st'"
    using assms(2) p l keep unfolding s by (auto simp: start_plan_def Let_def split: if_splits)
  show "distinct (slot_ids (startupSlots u))" "set (slot_ids (startupSlots u)) \<inter> I = {}"
    using pj(1,2) unfolding s by simp_all
  show "cronRunning st' = cronRunning st" using assms(2) p by (auto simp: start_plan_def Let_def split: if_splits)
qed

lemma startup_job_keeps:
  "startup_job_start now u st = Some (u', st') \<Longrightarrow> slot_ids (startupSlots u') = slot_ids (startupSlots u) \<and> (\<exists>es. st' = effects_add es st)"
  "startup_job_end now i oc u = Some u' \<Longrightarrow> slot_ids (startupSlots u') = slot_ids (startupSlots u)"
  by (auto simp: startup_job_start_def startup_job_end_def slot_ids_update split: if_splits option.splits prod.splits CronSlot.splits)

lemma fit_next: "jobId j = jid \<Longrightarrow> fit lib now j \<Longrightarrow> fit lib now (set_next next j)"
  using answers_cong [of "set_next next j" j lib now] by (simp add: fit_def set_next_def)

lemma held_defer: "held I (fit lib now) jobs \<Longrightarrow> held I (fit lib now) (defer_jobs base stagger offset jids jobs)"
proof (induction jids arbitrary: offset jobs)
  case (Cons jid jids)
  have "held I (fit lib now) (map_first (\<lambda>j. jobId j = jid) (set_next next) jobs)" for "next"
    by (rule held_map_first [OF Cons.prems]) (use Cons.prems in \<open>auto simp: held_def fit_next\<close>, simp add: set_next_def)
  with Cons show ?case by (auto split: option.split)
qed simp

lemma startup_results_within: "fst ` set (startup_results u) \<subseteq> set (slot_ids (startupSlots u))"
  by (force simp: startup_results_def slot_ids_def split: CronSlot.splits)

lemma fresh_start_apply:
  assumes "fresh (cronLib deps) I now st" "set (slot_ids (startupSlots u)) \<inter> I = {}" "start_apply deps now u st = Some st'"
  shows "fresh (cronLib deps) I now st' \<and> cronRunning st' = cronRunning st"
proof -
  have "fst ` set (startup_results u) \<inter> I = {}" using startup_results_within assms(2) by blast
  then have r: "fresh (cronLib deps) I now (fold (applyOutcomeToStoredJob deps now) (startup_results u) (ensureLoaded deps False True now st))" (is "fresh (cronLib deps) I now ?st1")
    by (rule sheld_outcomes [OF fresh_loaded [OF assms(1)]])
  have "fresh (cronLib deps) I now (change_jobs (defer_jobs now d d (startupDeferred u)) ?st1)" for d
    by (rule sheld_change [OF r]) (use r in \<open>auto simp: sheld_def intro: held_defer\<close>)
  with assms(1,3) show ?thesis
    by (auto simp: start_apply_def Let_def split: if_splits intro!: sheld_persist fresh_maintenance)
qed

lemma fresh_start_end:
  assumes "fresh (cronLib deps) I now st"
  shows "fresh (cronLib deps) I now (start_end deps now st) \<and> cronRunning (start_end deps now st) = cronRunning st"
  using assms by (auto simp: start_end_def case_prod_beta intro!: sheld_persist fresh_recompute fresh_loaded)

end
