(* ===== verification/CronProps.thy ===== *)
theory CronProps
  imports CronKeep
begin

text \<open>
  Properties of the scheduler: no job runs twice at a time, what a tick starts, what a result does to the schedule of a
  job, what is made up for at start-up, and where a refused or an interrupted operation leaves the jobs.
\<close>

section \<open>No job runs twice at a time\<close>

text \<open>The jobs that were picked or reserved and whose results are not applied yet\<close>

definition tick_flight :: "CronTick option \<Rightarrow> string list" where
  "tick_flight t = (case t of None \<Rightarrow> [] | Some t \<Rightarrow> if tickApplied t then [] else slot_ids (tickSlots t))"

definition startup_flight :: "CronStartup option \<Rightarrow> string list" where
  "startup_flight u = (case u of None \<Rightarrow> [] | Some u \<Rightarrow> slot_ids (startupSlots u))"

definition inflight :: "CronWorld \<Rightarrow> string list" where
  "inflight w = tick_flight (cronTick w) @ map (jobId \<circ> manualJob) (manualRuns w) @ startup_flight (cronStartup w)"

text \<open>
  No run in flight has a mark of more than two hours ago, and croner does not throw for the expression of its job at this
  time: three such errors in a row would disable the job, and the next walk would clear its mark.
\<close>

definition recent :: "CronDeps \<Rightarrow> int \<Rightarrow> CronWorld \<Rightarrow> bool" where
  "recent deps now w \<longleftrightarrow> list_all (\<lambda>j. jobId j \<in> set (inflight w) \<longrightarrow>
     (case runningAtMs (jobState j) of None \<Rightarrow> True | Some r \<Rightarrow> now - r \<le> STUCK_RUN_MS) \<and> answers (cronLib deps) now j)
     (known_jobs (cronService w))"

text \<open>
  The inputs under which runs do not overlap: none that walks over the jobs comes while a run is older than two hours or
  the schedule of its job cannot be computed; a new job has a new identifier; a job in flight is not disabled and its state
  not written, and its specification stays one that the scheduler supports; a disabled job is not reserved; and the
  scheduler starts when nothing is in flight.
\<close>

fun calm :: "CronDeps \<Rightarrow> CronInput \<Rightarrow> CronWorld \<Rightarrow> bool" where
  "calm deps (Ci_add now uuid i) w \<longleftrightarrow>
     recent deps now w \<and> uuid \<notin> set (inflight w) \<and> uuid \<notin> jobId ` set (known_jobs (cronService w))"
| "calm deps (Ci_update now jid patch) w \<longleftrightarrow> (jid \<in> set (inflight w) \<longrightarrow> gentle_patch patch)"
| "calm deps (Ci_remove now jid) w \<longleftrightarrow> recent deps now w"
| "calm deps (Ci_list now b) w \<longleftrightarrow> recent deps now w"
| "calm deps (Ci_timer now) w \<longleftrightarrow> recent deps now w"
| "calm deps (Ci_tick_apply now) w \<longleftrightarrow> recent deps now w"
| "calm deps (Ci_manual now jid forced) w \<longleftrightarrow>
     recent deps now w \<and> (jid \<in> set (inflight w) \<longrightarrow> fst (inspectManualRunPreflight deps now jid forced (cronService w)) \<noteq> Pf_invalid_spec)"
| "calm deps (Ci_reserve k) w \<longleftrightarrow> (k < length (preflights w) \<longrightarrow>
     (case find_job (jobs_of (cronService w)) (fst (preflights w ! k)) of None \<Rightarrow> True | Some j \<Rightarrow> jobEnabled j))"
| "calm deps (Ci_manual_end now k oc) w \<longleftrightarrow> recent deps now w"
| "calm deps (Ci_start now) w \<longleftrightarrow> inflight w = []"
| "calm deps (Ci_startup_apply now) w \<longleftrightarrow> recent deps now w"
| "calm deps (Ci_startup_end now) w \<longleftrightarrow> recent deps now w"
| "calm deps e w \<longleftrightarrow> True"

fun cron_run :: "CronDeps \<Rightarrow> CronInput list \<Rightarrow> CronWorld \<Rightarrow> CronWorld option" where
  "cron_run deps [] w = Some w"
| "cron_run deps (e # es) w = Option.bind (cron_step deps e w) (cron_run deps es)"

fun calm_run :: "CronDeps \<Rightarrow> CronInput list \<Rightarrow> CronWorld \<Rightarrow> bool" where
  "calm_run deps [] w \<longleftrightarrow> True"
| "calm_run deps (e # es) w \<longleftrightarrow> calm deps e w \<and> (case cron_step deps e w of None \<Rightarrow> True | Some w' \<Rightarrow> calm_run deps es w')"

definition cron_inv :: "CronWorld \<Rightarrow> bool" where
  "cron_inv w \<longleftrightarrow> marked (set (inflight w)) (cronService w) \<and> distinct (inflight w)
     \<and> (cronTick w = None \<longleftrightarrow> \<not> cronRunning (cronService w)) \<and> (interrupted w \<noteq> None \<longrightarrow> cronStartup w = None)"

lemma flight_simps [simp]: "tick_flight None = []" "startup_flight None = []" "startup_flight (Some u) = slot_ids (startupSlots u)"
  "tickApplied t \<Longrightarrow> tick_flight (Some t) = []" "\<not> tickApplied t \<Longrightarrow> tick_flight (Some t) = slot_ids (tickSlots t)"
  by (simp_all add: tick_flight_def startup_flight_def)

lemma inv_fresh: "cron_inv w \<Longrightarrow> recent deps now w \<Longrightarrow> fresh (cronLib deps) (set (inflight w)) now (cronService w)"
  by (fastforce simp: cron_inv_def recent_def sheld_def held_def has_mark_def fit_def known_jobs_def jobs_of_def not_stuck_def list_all_iff)

text \<open>A step that leaves what is in flight as it is\<close>

lemma inv_same:
  "cron_inv w \<Longrightarrow> inflight w' = inflight w \<Longrightarrow> marked (set (inflight w)) (cronService w') \<Longrightarrow> (cronTick w' = None \<longleftrightarrow> cronTick w = None)
   \<Longrightarrow> cronRunning (cronService w') = cronRunning (cronService w) \<Longrightarrow> (interrupted w' \<noteq> None \<longrightarrow> cronStartup w' = None) \<Longrightarrow> cron_inv w'"
  by (simp add: cron_inv_def)

lemma inv_marked: "cron_inv w \<Longrightarrow> marked (set (inflight w)) (cronService w)"
  by (simp add: cron_inv_def)

lemma inv_service:
  "cron_inv w \<Longrightarrow> marked (set (inflight w)) st' \<Longrightarrow> cronRunning st' = cronRunning (cronService w) \<Longrightarrow> cron_inv (w\<lparr>cronService := st'\<rparr>)"
  by (rule inv_same) (auto simp: cron_inv_def inflight_def)

lemma service_steps_inv:
  assumes "cron_inv w" "calm deps e w" "cron_step deps e w = Some w'"
    "e \<in> {Ci_add now uuid i, Ci_update now jid patch, Ci_remove now jid, Ci_list now b, Ci_stop}"
  shows "cron_inv w'"
proof -
  note fr = inv_fresh [OF assms(1)]
  from assms(4) consider "e = Ci_add now uuid i" | "e = Ci_update now jid patch" | "e = Ci_remove now jid" | "e = Ci_list now b" | "e = Ci_stop"
    by auto
  then show ?thesis
  proof cases
    case 1
    with assms show ?thesis by (auto simp: cron_step_def intro!: inv_service fresh_marked [OF fresh_add] fr)
  next
    case 2
    with assms show ?thesis by (auto simp: cron_step_def intro!: inv_service marked_update inv_marked)
  next
    case 3
    with assms show ?thesis by (auto simp: cron_step_def intro!: inv_service fresh_marked [OF fresh_remove] fr)
  next
    case 4
    with assms show ?thesis by (auto simp: cron_step_def cron_list_def Let_def intro!: inv_service fresh_marked [OF fresh_list] fr)
  next
    case 5
    with assms have "w' = w\<lparr>cronService := cron_stop (cronService w)\<rparr>" by (simp add: cron_step_def Let_def)
    with assms(1) show ?thesis by (intro inv_same [OF assms(1)]) (auto simp: cron_stop_def cron_inv_def inflight_def)
  qed
qed

lemma timer_step_inv:
  assumes "cron_inv w" "calm deps (Ci_timer now) w" "cron_step deps (Ci_timer now) w = Some w'"
  shows "cron_inv w'"
proof -
  have f: "fresh (cronLib deps) (set (inflight w)) now (cronService w)" using assms(1,2) by (auto intro: inv_fresh)
  obtain r st' where t: "tick_begin deps now (cronService w) = (r, st')" by fastforce
  show ?thesis
  proof (cases r)
    case None
    with t assms(3) tick_busy [of deps now "cronService w" st'] have "w' = w\<lparr>cronService := cronService w\<lparr>cronTimer := Some MAX_TIMER_DELAY_MS\<rparr>\<rparr>"
      by (auto simp: cron_step_def Let_def split: if_splits)
    with assms(1) show ?thesis by (intro inv_same [OF assms(1)]) (auto simp: cron_inv_def inflight_def)
  next
    case (Some tk)
    note ft = fresh_tick [OF f t [unfolded Some]]
    have w': "w' = w\<lparr>cronService := st', cronTick := Some tk\<rparr>" using assms(3) t Some by (auto simp: cron_step_def Let_def split: if_splits)
    have "cronTick w = None" using assms(1) ft(6) by (simp add: cron_inv_def)
    then have "set (inflight w') = set (inflight w) \<union> set (slot_ids (tickSlots tk))" and "distinct (inflight w')"
      using ft(2,3,5) assms(1) by (auto simp: w' inflight_def cron_inv_def)
    with ft(1,4) assms(1) show ?thesis by (auto simp: cron_inv_def w')
  qed
qed

lemma tick_steps_inv:
  assumes "cron_inv w" "calm deps e w" "cron_step deps e w = Some w'"
    "e \<in> {Ci_job_start now, Ci_job_end now i oc, Ci_tick_apply now, Ci_tick_end now}"
  shows "cron_inv w'"
proof -
  obtain t where t: "cronTick w = Some t" using assms(3,4) by (auto simp: cron_step_def split: option.splits)
  let ?I = "set (inflight w)"
  from assms(4) consider "e = Ci_job_start now" | "e = Ci_job_end now i oc" | "e = Ci_tick_apply now" | "e = Ci_tick_end now" by auto
  then show ?thesis
  proof cases
    case 1
    with assms(3) t obtain t' st' where s: "tick_job_start deps now t (cronService w) = Some (t', st')" "w' = w\<lparr>cronTick := Some t', cronService := st'\<rparr>"
      by (auto simp: cron_step_def)
    have "marked ?I (cronService w)" using assms(1) by (simp add: cron_inv_def)
    note m = marked_job_start [OF this s(1)]
    have "tick_flight (Some t') = tick_flight (Some t)" using m(2,3) by (simp add: tick_flight_def)
    then have "inflight w' = inflight w" by (simp add: s(2) inflight_def t)
    with m(1,4) s(2) t assms(1) show ?thesis by (simp add: cron_inv_def)
  next
    case 2
    with assms(3) t obtain t' where s: "tick_job_end now i oc t = Some t'" "w' = w\<lparr>cronTick := Some t'\<rparr>" by (auto simp: cron_step_def)
    have "tick_flight (Some t') = tick_flight (Some t)" using job_end_keeps [OF s(1)] by (simp add: tick_flight_def)
    with s(2) t assms(1) show ?thesis by (intro inv_same [OF assms(1)]) (auto simp: cron_inv_def inflight_def)
  next
    case 3
    with assms(3) t obtain t' st' where s: "tick_apply deps now t (cronService w) = Some (t', st')" "w' = w\<lparr>cronTick := Some t', cronService := st'\<rparr>"
      by (auto simp: cron_step_def)
    have "\<not> tickApplied t" using s(1) by (auto simp: tick_apply_def)
    then have i: "inflight w = slot_ids (tickSlots t) @ inflight (w\<lparr>cronTick := None\<rparr>)" by (simp add: inflight_def t)
    have "fresh (cronLib deps) (set (inflight (w\<lparr>cronTick := None\<rparr>))) now (cronService w)"
      by (rule sheld_mono [OF inv_fresh [OF assms(1)]]) (use assms(2) 3 i in auto)
    then have "fresh (cronLib deps) (set (inflight (w\<lparr>cronTick := None\<rparr>))) now st' \<and> tickApplied t' \<and> cronRunning st' = cronRunning (cronService w)"
      by (rule fresh_apply [OF _ _ s(1)]) (use assms(1) i in \<open>auto simp: cron_inv_def\<close>)
    with s(2) t assms(1) i show ?thesis by (auto simp: cron_inv_def inflight_def dest: fresh_marked)
  next
    case 4
    with assms(3) t have s: "tickApplied t" "w' = w\<lparr>cronTick := None, cronService := tick_end deps now (cronService w)\<rparr>"
      by (auto simp: cron_step_def split: if_splits)
    with t have "inflight w' = inflight w" by (simp add: inflight_def)
    with s(2) assms(1) show ?thesis by (auto simp: cron_inv_def tick_end_def)
  qed
qed

lemma drop_at_split: "k < length xs \<Longrightarrow> \<exists>ys zs. xs = ys @ xs ! k # zs \<and> drop_at k xs = ys @ zs"
  unfolding drop_at_def by (metis id_take_nth_drop)

lemma reserve_other:
  "reserveManualRun now jid forced st = (r, st') \<Longrightarrow> (\<forall>m. r \<noteq> Inr (Some m)) \<Longrightarrow> st' = st"
  by (auto simp: reserveManualRun_def Let_def split: sum.splits if_splits)

lemma reserve_step_inv:
  assumes "cron_inv w" "calm deps (Ci_reserve k) w" "cron_step deps (Ci_reserve k) w = Some w'"
  shows "cron_inv w'"
proof -
  have k: "k < length (preflights w)" using assms(3) by (simp add: cron_step_def Let_def split: if_splits)
  obtain jid now forced where p: "preflights w ! k = (jid, now, forced)" by (metis prod.collapse)
  obtain r st' where r: "reserveManualRun now jid forced (cronService w) = (r, st')" by fastforce
  show ?thesis
  proof (cases "\<exists>m. r = Inr (Some m)")
    case True
    then obtain m where m: "r = Inr (Some m)" by blast
    have w': "w' = w\<lparr>cronService := st', preflights := drop_at k (preflights w), manualRuns := manualRuns w @ [m]\<rparr>"
      using assms(3) k p r m by (simp add: cron_step_def Let_def)
    have "marked (insert jid (set (inflight w))) st' \<and> jid \<notin> set (inflight w) \<and> jobId (manualJob m) = jid \<and> cronRunning st' = cronRunning (cronService w)"
      by (rule marked_reserve [OF inv_marked [OF assms(1)] r [unfolded m]]) (use assms(2) k p in auto)
    moreover from this have "set (inflight w') = insert jid (set (inflight w)) \<and> distinct (inflight w')"
      using assms(1) by (auto simp: w' inflight_def cron_inv_def)
    ultimately show ?thesis using assms(1) by (simp add: cron_inv_def w')
  next
    case False
    then have "st' = cronService w" using reserve_other [OF r] by blast
    with assms(3) k p r False have "w' = w\<lparr>cronService := cronService w, preflights := drop_at k (preflights w)\<rparr>"
      by (auto simp: cron_step_def Let_def split: sum.splits option.splits)
    with assms(1) show ?thesis by (intro inv_same [OF assms(1)]) (simp_all add: cron_inv_def inflight_def)
  qed
qed

lemma manual_steps_inv:
  assumes "cron_inv w" "calm deps e w" "cron_step deps e w = Some w'"
    "e = Ci_manual now jid forced \<or> e = Ci_manual_end now k oc"
  shows "cron_inv w'"
  using assms(4)
proof
  assume e: "e = Ci_manual now jid forced"
  let ?r = "inspectManualRunPreflight deps now jid forced (cronService w)"
  from assms(1,2) e have "fresh (cronLib deps) (set (inflight w)) now (snd ?r)" by (intro fresh_inspect inv_fresh) auto
  from inv_service [OF assms(1) fresh_marked [OF this] running_inspect] have i: "cron_inv (w\<lparr>cronService := snd ?r\<rparr>)" .
  have "\<exists>ps. w' = w\<lparr>cronService := snd ?r, preflights := ps\<rparr>"
    using assms(3) e by (cases ?r; cases "fst ?r") (auto simp: cron_step_def Let_def intro: exI [where x = "preflights w"])
  then obtain ps where "w' = w\<lparr>cronService := snd ?r, preflights := ps\<rparr>" by blast
  with i show ?thesis by (simp add: cron_inv_def inflight_def)
next
  assume e: "e = Ci_manual_end now k oc"
  with assms(3) have k: "k < length (manualRuns w)"
    and w': "w' = w\<lparr>cronService := finishPreparedManualRun deps now (manualRuns w ! k) oc (cronService w), manualRuns := drop_at k (manualRuns w)\<rparr>"
    by (auto simp: cron_step_def Let_def split: if_splits)
  define m where "m = manualRuns w ! k"
  obtain ys zs where "manualRuns w = ys @ m # zs" "drop_at k (manualRuns w) = ys @ zs" using drop_at_split [OF k] unfolding m_def by blast
  then have split: "set (inflight w) = insert (jobId (manualJob m)) (set (inflight w'))" and d: "distinct (inflight w')"
    and out: "jobId (manualJob m) \<notin> set (inflight w')"
    using assms(1) by (auto simp: w' inflight_def cron_inv_def)
  have "fresh (cronLib deps) (set (inflight w)) now (cronService w)" using inv_fresh [OF assms(1)] assms(2) e by simp
  then have "fresh (cronLib deps) (set (inflight w')) now (cronService w)" by (rule sheld_mono) (auto simp: split)
  from fresh_manual_end [OF this out] d assms(1) show ?thesis
    by (auto simp: cron_inv_def w' m_def dest: fresh_marked)
qed

lemma start_steps_inv:
  assumes "cron_inv w" "calm deps e w" "cron_step deps e w = Some w'"
    "e \<in> {Ci_start now, Ci_candidate_start now, Ci_candidate_end now i oc, Ci_startup_end now}"
  shows "cron_inv w'"
proof -
  from assms(4) consider "e = Ci_start now" | "e = Ci_candidate_start now" | "e = Ci_candidate_end now i oc" | "e = Ci_startup_end now" by auto
  then show ?thesis
  proof cases
    case 1
    then obtain ids where w': "w' = w\<lparr>cronService := snd (start_begin deps now (cronService w)), interrupted := Some ids\<rparr>"
      and n: "cronStartup w = None" using assms(3) by (auto simp: cron_step_def Let_def case_prod_beta split: if_splits)
    have i: "inflight w = []" using assms(2) 1 by simp
    with marked_start_begin [of "cronService w" deps now] assms(1) w' n show ?thesis
      by (auto simp: cron_inv_def inflight_def)
  next
    case 2
    then obtain u u' st' where u: "cronStartup w = Some u" "startup_job_start now u (cronService w) = Some (u', st')"
      "w' = w\<lparr>cronStartup := Some u', cronService := st'\<rparr>" using assms(3) by (auto simp: cron_step_def split: option.splits)
    with startup_job_keeps(1) [OF u(2)] assms(1) show ?thesis
      by (intro inv_same [OF assms(1)]) (auto simp: cron_inv_def inflight_def)
  next
    case 3
    then obtain u u' where u: "cronStartup w = Some u" "startup_job_end now i oc u = Some u'" "w' = w\<lparr>cronStartup := Some u'\<rparr>"
      using assms(3) by (auto simp: cron_step_def split: option.splits)
    with startup_job_keeps(2) [OF u(2)] assms(1) show ?thesis
      by (intro inv_same [OF assms(1)]) (auto simp: cron_inv_def inflight_def)
  next
    case 4
    with assms(3) have w': "w' = w\<lparr>startupEnding := False, cronService := start_end deps now (cronService w)\<rparr>"
      by (auto simp: cron_step_def split: if_splits)
    have "fresh (cronLib deps) (set (inflight w)) now (cronService w)" using inv_fresh [OF assms(1)] assms(2) 4 by simp
    from fresh_start_end [OF this]
    have "marked (set (inflight w)) (cronService w')" "cronRunning (cronService w') = cronRunning (cronService w)"
      by (auto simp: w' dest: fresh_marked)
    with assms(1) w' show ?thesis by (intro inv_same [OF assms(1)]) (simp_all add: cron_inv_def inflight_def)
  qed
qed

lemma plan_step_inv:
  assumes "cron_inv w" "cron_step deps (Ci_plan now) w = Some w'"
  shows "cron_inv w'"
proof -
  obtain ids u st' where s: "interrupted w = Some ids" "start_plan deps now ids (cronService w) = (u, st')"
    "w' = w\<lparr>cronService := st', interrupted := None, cronStartup := Some u\<rparr>"
    using assms(2) by (auto simp: cron_step_def Let_def split: option.splits prod.splits)
  have n: "cronStartup w = None" using assms(1) s(1) by (simp add: cron_inv_def)
  note p = marked_plan [OF inv_marked [OF assms(1)] s(2)]
  have "set (inflight w') = set (inflight w) \<union> set (slot_ids (startupSlots u))" "distinct (inflight w')"
    using p(2,3) assms(1) n by (auto simp: s(3) inflight_def cron_inv_def)
  with p(1,4) assms(1) show ?thesis by (auto simp: cron_inv_def s(3))
qed

lemma startup_apply_inv:
  assumes "cron_inv w" "calm deps (Ci_startup_apply now) w" "cron_step deps (Ci_startup_apply now) w = Some w'"
  shows "cron_inv w'"
proof -
  obtain u st' where s: "cronStartup w = Some u" "start_apply deps now u (cronService w) = Some st'"
    "w' = w\<lparr>cronStartup := None, startupEnding := True, cronService := st'\<rparr>"
    using assms(3) by (auto simp: cron_step_def split: option.splits)
  have split: "set (inflight w) = set (inflight w') \<union> set (slot_ids (startupSlots u))" and d: "distinct (inflight w')"
    and out: "set (slot_ids (startupSlots u)) \<inter> set (inflight w') = {}"
    using assms(1) s(1) by (auto simp: s(3) inflight_def cron_inv_def)
  have "fresh (cronLib deps) (set (inflight w')) now (cronService w)"
    by (rule sheld_mono [OF inv_fresh [OF assms(1)]]) (use assms(2) split in auto)
  from fresh_start_apply [OF this out s(2)] d assms(1) show ?thesis
    by (auto simp: cron_inv_def s(3) dest: fresh_marked)
qed

lemma cron_step_inv:
  "cron_inv w \<Longrightarrow> calm deps e w \<Longrightarrow> cron_step deps e w = Some w' \<Longrightarrow> cron_inv w'"
  by (cases e) (blast intro: service_steps_inv timer_step_inv tick_steps_inv reserve_step_inv manual_steps_inv start_steps_inv
      plan_step_inv startup_apply_inv)+

lemma cron_run_inv:
  "cron_inv w \<Longrightarrow> calm_run deps es w \<Longrightarrow> cron_run deps es w = Some w' \<Longrightarrow> cron_inv w'"
  by (induction es arbitrary: w) (auto simp: bind_eq_Some_conv dest: cron_step_inv)

lemma world_inv: "distinct (map jobId file) \<Longrightarrow> cron_inv (cron_world file)"
  by (simp add: cron_inv_def cron_world_def inflight_def sheld_def held_def)


text \<open>A scheduler with two jobs, and a run in which the one is due and the other run by hand\<close>

definition demo_cron_lib :: CronLib where
  "demo_cron_lib = \<lparr>dateParseC = (\<lambda>_. None), cronerNextRun = (\<lambda>_ _ t. Inr (Some (t + 60000))), cronerPreviousRun = (\<lambda>_ _ t. Inr (Some (t - 60000))),
     localTimezone = ''UTC'', sha256Head = (\<lambda>_. 0), isHttpUrl = (\<lambda>_. True), failoverReason = (\<lambda>_. None)\<rparr>"

definition demo_cron_deps :: CronDeps where
  "demo_cron_deps = \<lparr>cronLib = demo_cron_lib,
     cronConfig = \<lparr>maxConcurrentRuns = None, retryMaxAttempts = None, retryBackoffMs = None, retryOn = None, alertEnabled = None,
       alertAfter = None, alertCooldownMs = None, alertMode = None, alertAccountId = None\<rparr>,
     cronDefaultAgentId = None, cronEnabled = True, hasAlertSender = False, missedJobStaggerMs = None, maxMissedJobsPerRestart = None\<rparr>"

definition demo_cron_job :: "string \<Rightarrow> CronSchedule \<Rightarrow> int \<Rightarrow> CronJob" where
  "demo_cron_job jid schedule nextRun = \<lparr>jobId = jid, agentIdC = None, sessionKeyC = None, jobName = jid, jobDescription = None,
     jobEnabled = True, deleteAfterRun = None, createdAtMs = 1, updatedAtMs = 1, jobSchedule = schedule, sessionTarget = ''main'',
     wakeMode = Wm_now, jobPayload = SystemEvent ''ping'', jobDelivery = None, jobFailureAlert = Alert_unset,
     jobState = \<lparr>nextRunAtMs = Some nextRun, runningAtMs = None, lastRunAtMs = None, lastRunStatus = None, lastStatus = None,
       lastErrorC = None, lastErrorReason = None, lastDurationMs = None, consecutiveErrors = None, lastFailureAlertAtMs = None,
       scheduleErrorCount = None, lastDeliveryStatusC = None, lastDeliveryErrorC = None, lastDelivered = None\<rparr>\<rparr>"

definition demo_cron_file :: "CronJob list" where
  "demo_cron_file = [demo_cron_job ''a'' (Cs_every 60000 (Some 1)) 1000, demo_cron_job ''b'' (Cs_cron ''5 * * * *'' None None) 900000]"

definition demo_cron_inputs :: "CronInput list" where
  "demo_cron_inputs = [Ci_start 500, Ci_plan 500, Ci_startup_apply 500, Ci_startup_end 500, Ci_timer 1500, Ci_job_start 1501,
     Ci_manual 1502 ''b'' True, Ci_reserve 0, Ci_manual 1503 ''a'' True, Ci_list 1504 True]"

lemma demo_cron_calm: "calm_run demo_cron_deps demo_cron_inputs (cron_world demo_cron_file)"
  by code_simp

lemma demo_cron_flight: "map_option inflight (cron_run demo_cron_deps demo_cron_inputs (cron_world demo_cron_file)) = Some [''a'', ''b'']"
  by code_simp


text \<open>
  Why croner must not throw for the expression of a job in flight: walks count the errors of its schedule, the third one
  disables it although it runs, the next walk clears the mark of the disabled job, and a second forced run starts.
\<close>

definition throwing_deps :: CronDeps where
  "throwing_deps = demo_cron_deps\<lparr>cronLib := demo_cron_lib\<lparr>cronerNextRun := (\<lambda>_ _ _. Inl ''bad'')\<rparr>\<rparr>"

definition unscheduled_job :: CronJob where
  "unscheduled_job = with_state (\<lambda>s. s\<lparr>nextRunAtMs := None\<rparr>) (demo_cron_job ''b'' (Cs_cron ''5 * * * *'' None None) 1)"

lemma schedule_errors_lose_the_mark:
  "map_option inflight (cron_run throwing_deps [Ci_manual 1 ''b'' True, Ci_reserve 0, Ci_list 2 True, Ci_list 3 True, Ci_list 4 True,
     Ci_manual 5 ''b'' True, Ci_reserve 0] (cron_world [unscheduled_job])) = Some [''b'', ''b'']"
  by code_simp

end
