(* ===== verification/CronResultProps.thy ===== *)
theory CronResultProps
  imports CronProps
begin

text \<open>
  Properties of single operations of the scheduler: what a result does to the next run of a job, how often a one-shot job
  is tried, what looking at the jobs leaves due, and where refused and interrupted operations leave the jobs.
\<close>

section \<open>The next run after a result\<close>

lemma backoff_at_least: "errorBackoffMs n DEFAULT_BACKOFF_SCHEDULE_MS \<ge> 30000"
proof -
  have "b \<ge> 30000" if "b \<in> set DEFAULT_BACKOFF_SCHEDULE_MS" for b using that by (auto simp: DEFAULT_BACKOFF_SCHEDULE_MS_def)
  moreover have "errorBackoffMs n DEFAULT_BACKOFF_SCHEDULE_MS \<in> set DEFAULT_BACKOFF_SCHEDULE_MS"
    unfolding errorBackoffMs_def by (rule nth_mem) (simp add: DEFAULT_BACKOFF_SCHEDULE_MS_def)
  ultimately show ?thesis by blast
qed

lemma schedule_error_keeps [simp]: "jobSchedule (fst (recordScheduleComputeError job err)) = jobSchedule job"
  by (simp add: recordScheduleComputeError_def Let_def)

lemma counted_keeps [simp]:
  "jobSchedule (fst (counted_result deps now job r)) = jobSchedule job" "jobEnabled (fst (counted_result deps now job r)) = jobEnabled job"
  "lastStatus (jobState (fst (counted_result deps now job r))) = lastStatus (jobState job)"
  by (simp_all add: counted_result_def Let_def split: option.split)

lemma recorded_keeps [simp]:
  "jobSchedule (recorded_result lib job r) = jobSchedule job" "jobEnabled (recorded_result lib job r) = jobEnabled job"
  "consecutiveErrors (jobState (recorded_result lib job r)) = consecutiveErrors (jobState job)"
  by (simp_all add: recorded_result_def Let_def)

lemma natural_next_keeps [simp]: "jobSchedule (fst (natural_next lib job prev preserve endAt)) = jobSchedule job"
  unfolding natural_next_def Let_def by (split sum.split) (auto simp: case_prod_beta)

text \<open>The job after a result, when it is an enabled job that recurs\<close>

lemma recurring_result:
  assumes "\<And>raw. jobSchedule job \<noteq> Cs_at raw" "jobEnabled job"
  shows "\<exists>job2 natural. jobSchedule job2 = jobSchedule job \<and> fst (snd (applyJobResult deps now job r preserve)) = set_next
    (if statusR r = Rs_error
     then Some (let backoffNext = endedAtR r + errorBackoffMs (nullish (consecutiveErrors (jobState (fst (counted_result deps now
         (recorded_result (cronLib deps) job r) r)))) 1) DEFAULT_BACKOFF_SCHEDULE_MS
       in case natural of Some n \<Rightarrow> max n backoffNext | None \<Rightarrow> backoffNext)
     else case jobSchedule job of
       Cs_cron _ _ _ \<Rightarrow> Some (case natural of Some n \<Rightarrow> max n (endedAtR r + MIN_REFIRE_GAP_MS) | None \<Rightarrow> endedAtR r + MIN_REFIRE_GAP_MS)
     | _ \<Rightarrow> natural) job2"
proof -
  obtain job1 effects1 where c: "counted_result deps now (recorded_result (cronLib deps) job r) r = (job1, effects1)" by fastforce
  have j: "jobSchedule job1 = jobSchedule job" "jobEnabled job1"
    using counted_keeps [of deps now "recorded_result (cronLib deps) job r" r] c assms(2) by simp_all
  obtain job2 natural effects2 where n: "natural_next (cronLib deps) job1 (lastRunAtMs (jobState job)) preserve (endedAtR r) = (job2, natural, effects2)"
    by (metis prod.collapse)
  have s: "jobSchedule job2 = jobSchedule job"
    using natural_next_keeps [of "cronLib deps" job1 "lastRunAtMs (jobState job)" preserve "endedAtR r"] n j by simp
  have "fst (snd (applyJobResult deps now job r preserve)) = set_next
    (if statusR r = Rs_error
     then Some (let backoffNext = endedAtR r + errorBackoffMs (nullish (consecutiveErrors (jobState job1)) 1) DEFAULT_BACKOFF_SCHEDULE_MS
       in case natural of Some n \<Rightarrow> max n backoffNext | None \<Rightarrow> backoffNext)
     else case jobSchedule job of
       Cs_cron _ _ _ \<Rightarrow> Some (case natural of Some n \<Rightarrow> max n (endedAtR r + MIN_REFIRE_GAP_MS) | None \<Rightarrow> endedAtR r + MIN_REFIRE_GAP_MS)
     | _ \<Rightarrow> natural) job2"
    using assms(1) c j n s unfolding applyJobResult_def
    by (cases "jobSchedule job"; cases natural) (simp_all add: Let_def)
  with c s show ?thesis by auto
qed

text \<open>
  C32. No spinning: whatever the result of a run, a job with a cron expression is not picked by a tick in the two seconds
  after the run ended, and a recurring job whose run failed is not picked in the thirty seconds after it.
\<close>
theorem no_spin_after_run:
  assumes "t < endedAtR r + (if statusR r = Rs_error then 30000 else MIN_REFIRE_GAP_MS)"
    "case jobSchedule job of Cs_at _ \<Rightarrow> False | Cs_every _ _ \<Rightarrow> statusR r = Rs_error | Cs_cron _ _ _ \<Rightarrow> True"
  shows "\<not> isRunnableJob lib t skip False False (fst (snd (applyJobResult deps now job r preserve)))"
proof (cases "jobEnabled job")
  case True
  have "\<And>raw. jobSchedule job \<noteq> Cs_at raw" using assms(2) by auto
  from recurring_result [OF this True, of deps now r preserve] obtain job2 natural where f: "fst (snd (applyJobResult deps now job r preserve)) = set_next
    (if statusR r = Rs_error
     then Some (let backoffNext = endedAtR r + errorBackoffMs (nullish (consecutiveErrors (jobState (fst (counted_result deps now
         (recorded_result (cronLib deps) job r) r)))) 1) DEFAULT_BACKOFF_SCHEDULE_MS
       in case natural of Some n \<Rightarrow> max n backoffNext | None \<Rightarrow> backoffNext)
     else case jobSchedule job of
       Cs_cron _ _ _ \<Rightarrow> Some (case natural of Some n \<Rightarrow> max n (endedAtR r + MIN_REFIRE_GAP_MS) | None \<Rightarrow> endedAtR r + MIN_REFIRE_GAP_MS)
     | _ \<Rightarrow> natural) job2" by blast
  have "\<exists>n. nextRunAtMs (jobState (fst (snd (applyJobResult deps now job r preserve)))) = Some n \<and> t < n"
  proof (cases "statusR r = Rs_error")
    case True
    with assms(1) backoff_at_least [of "nullish (consecutiveErrors (jobState (fst (counted_result deps now
        (recorded_result (cronLib deps) job r) r)))) 1"]
    show ?thesis by (auto simp: f set_next_def Let_def less_max_iff_disj split: option.split)
  next
    case False
    with assms show ?thesis by (auto simp: f set_next_def less_max_iff_disj split: CronSchedule.splits option.split)
  qed
  then show ?thesis by (auto simp: isRunnableJob_def Let_def)
next
  case False
  then have "\<not> jobEnabled (fst (snd (applyJobResult deps now job r preserve)))"
    using assms(2) unfolding applyJobResult_def
    by (cases "jobSchedule job") (simp_all add: Let_def case_prod_beta set_next_def)
  then show ?thesis by (simp add: isRunnableJob_def)
qed

section \<open>One-shot jobs\<close>

fun apply_results :: "CronDeps \<Rightarrow> CronJob \<Rightarrow> (int \<times> CronResult \<times> bool) list \<Rightarrow> CronJob" where
  "apply_results deps job [] = job"
| "apply_results deps job ((now, r, preserve) # rs) = apply_results deps (fst (snd (applyJobResult deps now job r preserve))) rs"

lemma one_shot_error:
  assumes "jobSchedule job = Cs_at raw" "statusR r = Rs_error"
  shows "consecutiveErrors (jobState (fst (snd (applyJobResult deps now job r preserve)))) = Some (nullish (consecutiveErrors (jobState job)) 0 + 1)"
    "jobSchedule (fst (snd (applyJobResult deps now job r preserve))) = Cs_at raw"
    "nullish (consecutiveErrors (jobState job)) 0 + 1 > maxAttemptsC (resolveRetryConfig (cronConfig deps)) \<Longrightarrow>
       \<not> jobEnabled (fst (snd (applyJobResult deps now job r preserve)))
       \<and> nextRunAtMs (jobState (fst (snd (applyJobResult deps now job r preserve)))) = None"
proof -
  obtain job1 effects1 where c: "counted_result deps now (recorded_result (cronLib deps) job r) r = (job1, effects1)" by fastforce
  have k: "consecutiveErrors (jobState (fst (counted_result deps now j r))) = Some (nullish (consecutiveErrors (jobState j)) 0 + 1)" for j
    using assms(2) by (simp add: counted_result_def Let_def split: option.split)
  have j: "jobSchedule job1 = Cs_at raw" "consecutiveErrors (jobState job1) = Some (nullish (consecutiveErrors (jobState job)) 0 + 1)"
    using counted_keeps [of deps now "recorded_result (cronLib deps) job r" r] k [of "recorded_result (cronLib deps) job r"] c assms(1) by simp_all
  show "consecutiveErrors (jobState (fst (snd (applyJobResult deps now job r preserve)))) = Some (nullish (consecutiveErrors (jobState job)) 0 + 1)"
    "jobSchedule (fst (snd (applyJobResult deps now job r preserve))) = Cs_at raw"
    "nullish (consecutiveErrors (jobState job)) 0 + 1 > maxAttemptsC (resolveRetryConfig (cronConfig deps)) \<Longrightarrow>
       \<not> jobEnabled (fst (snd (applyJobResult deps now job r preserve)))
       \<and> nextRunAtMs (jobState (fst (snd (applyJobResult deps now job r preserve)))) = None"
    using c j assms(2) unfolding applyJobResult_def by (simp_all add: Let_def set_next_def disabled_after_run_def)
qed

text \<open>
  C33. A one-shot job that keeps failing is given up: after more failures in a row than the configured number of retries,
  whatever the errors and times, it is disabled and has no next run.
\<close>
theorem one_shot_retries_bounded:
  assumes "jobSchedule job = Cs_at raw" "nullish (consecutiveErrors (jobState job)) 0 = 0"
    "\<forall>(now, r, preserve) \<in> set rs. statusR r = Rs_error"
    "rs \<noteq> []" "int (length rs) > maxAttemptsC (resolveRetryConfig (cronConfig deps))"
  shows "\<not> jobEnabled (apply_results deps job rs) \<and> nextRunAtMs (jobState (apply_results deps job rs)) = None"
proof -
  have "\<not> jobEnabled (apply_results deps job rs) \<and> nextRunAtMs (jobState (apply_results deps job rs)) = None"
    if "jobSchedule job = Cs_at raw" "\<forall>(now, r, preserve) \<in> set rs. statusR r = Rs_error" "rs \<noteq> []"
      "nullish (consecutiveErrors (jobState job)) 0 + int (length rs) > maxAttemptsC (resolveRetryConfig (cronConfig deps))" for job rs
    using that
  proof (induction rs arbitrary: job)
    case (Cons a rs)
    obtain now r preserve where a: "a = (now, r, preserve)" by (metis prod.collapse)
    note e = one_shot_error [OF Cons.prems(1), of r deps now preserve]
    show ?case
    proof (cases "rs = []")
      case True
      with Cons.prems a e show ?thesis by simp
    next
      case False
      have err: "statusR r = Rs_error" using Cons.prems(2) a by simp
      have "nullish (consecutiveErrors (jobState (fst (snd (applyJobResult deps now job r preserve))))) 0 + int (length rs)
          = nullish (consecutiveErrors (jobState job)) 0 + int (length (a # rs))" using e(1) [OF err] by (simp add: nullish_def)
      with Cons.IH [OF e(2) [OF err] _ False] Cons.prems(2,4) a show ?thesis by simp
    qed
  qed simp
  with assms show ?thesis by simp
qed

definition demo_error :: CronResult where
  "demo_error = \<lparr>statusR = Rs_error, errorR = Some ''timeout'', deliveredR = None, startedAtR = 1000, endedAtR = 2000\<rparr>"

lemma no_spin_after_run_witness:
  "\<not> isRunnableJob demo_cron_lib 31999 [] False False
     (fst (snd (applyJobResult demo_cron_deps 2000 (demo_cron_job ''a'' (Cs_every 60000 (Some 1)) 1000) demo_error False)))"
  by (rule no_spin_after_run) (simp_all add: demo_error_def demo_cron_job_def)

lemma one_shot_retries_bounded_witness:
  "\<not> jobEnabled (apply_results demo_cron_deps (demo_cron_job ''a'' (Cs_at ''1000'') 1000) (replicate 4 (2000, demo_error, False)))"
  using one_shot_retries_bounded [of "demo_cron_job ''a'' (Cs_at ''1000'') 1000" "''1000''" "replicate 4 (2000, demo_error, False)" demo_cron_deps]
  by (simp add: demo_error_def demo_cron_job_def demo_cron_deps_def resolveRetryConfig_def DEFAULT_MAX_TRANSIENT_RETRIES_def nullish_def)

section \<open>Looking at the jobs\<close>

text \<open>A job whose time has come and that does not run\<close>

definition due_now :: "int \<Rightarrow> CronJob \<Rightarrow> bool" where
  "due_now now j \<longleftrightarrow> jobEnabled j \<and> runningAtMs (jobState j) = None
     \<and> (\<exists>n. nextRunAtMs (jobState j) = Some n \<and> 0 < n \<and> n \<le> now)"

lemma runnable_due: "isRunnableJob lib now [] False False j \<longleftrightarrow> due_now now j"
  by (auto simp: isRunnableJob_def due_now_def hasScheduledNextRunAtMs_def Let_def split: option.split)

lemma walk_member:
  "j \<in> set jobs \<Longrightarrow> normalizeJobTickState now j = (j1, c, False) \<Longrightarrow> fst (fn j1) \<in> set (fst (walkSchedulableJobs fn now jobs))"
  by (induction jobs) (auto simp: Let_def split: prod.split)

lemma normalize_due:
  "due_now now j \<Longrightarrow> \<exists>c schedule. normalizeJobTickState now j = (j\<lparr>jobSchedule := schedule\<rparr>, c, False)"
  by (auto simp: normalizeJobTickState_def due_now_def hasScheduledNextRunAtMs_def Let_def split: CronSchedule.split option.split
      intro: exI [where x = "jobSchedule j"])

text \<open>The walk of the maintenance leaves a job that is due as it is, but for a missing anchor of an interval.\<close>

lemma maintenance_keeps_due:
  assumes "due_now now j" "j \<in> set jobs"
  shows "\<exists>schedule. j\<lparr>jobSchedule := schedule\<rparr> \<in> set (fst (recomputeNextRunsForMaintenance lib False now jobs))"
proof -
  obtain c schedule where n: "normalizeJobTickState now j = (j\<lparr>jobSchedule := schedule\<rparr>, c, False)" using normalize_due [OF assms(1)] by blast
  have "hasScheduledNextRunAtMs (nextRunAtMs (jobState j))" using assms(1) by (auto simp: due_now_def hasScheduledNextRunAtMs_def)
  then show ?thesis
    using walk_member [OF assms(2) n, of "\<lambda>job. let s = jobState job
     in if \<not> hasScheduledNextRunAtMs (nextRunAtMs s) then recomputeJobNextRunAtMs lib now job
        else if False \<and> now \<ge> the (nextRunAtMs s) \<and> runningAtMs s = None
          \<and> (case lastRunAtMs s of Some lastRun \<Rightarrow> lastRun \<ge> the (nextRunAtMs s) | None \<Rightarrow> False)
        then recomputeJobNextRunAtMs lib now job else (job, False, [])"]
    unfolding recomputeNextRunsForMaintenance_def by (auto simp: Let_def)
qed

text \<open>The job is in memory with its state as it was, and a tick picks it.\<close>

definition still_due :: "CronDeps \<Rightarrow> int \<Rightarrow> CronJob \<Rightarrow> CronService \<Rightarrow> bool" where
  "still_due deps now job st \<longleftrightarrow> (\<exists>job' \<in> set (jobs_of st). jobId job' = jobId job \<and> jobState job' = jobState job
     \<and> isRunnableJob (cronLib deps) now [] False False job')"

lemma still_due_maintenance:
  assumes "due_now now job" "job \<in> set (jobs_of st)"
  shows "still_due deps now job (snd (walk_store (recomputeNextRunsForMaintenance (cronLib deps) False now) st))"
proof -
  obtain jobs where jobs: "storeJobs st = Some jobs" "job \<in> set jobs" using assms(2) by (cases "storeJobs st") (auto simp: jobs_of_def)
  obtain schedule where "job\<lparr>jobSchedule := schedule\<rparr> \<in> set (fst (recomputeNextRunsForMaintenance (cronLib deps) False now jobs))"
    using maintenance_keeps_due [OF assms(1) jobs(2)] by blast
  then have "job\<lparr>jobSchedule := schedule\<rparr> \<in> set (jobs_of (snd (walk_store (recomputeNextRunsForMaintenance (cronLib deps) False now) st)))"
    by (simp add: walk_store_def jobs(1) jobs_of_def effects_add_def case_prod_beta)
  moreover have "due_now now (job\<lparr>jobSchedule := schedule\<rparr>)" using assms(1) by (simp add: due_now_def)
  ultimately show ?thesis unfolding still_due_def runnable_due by (intro bexI) auto
qed

lemma jobs_of_kept [simp]: "jobs_of (persist_cron st) = jobs_of st" "jobs_of (effects_add es st) = jobs_of st" "jobs_of (clear_active jid st) = jobs_of st"
  by (simp_all add: persist_cron_def effects_add_def clear_active_def jobs_of_def split: option.split)

lemma still_due_persist [simp]: "still_due deps now job (persist_cron st) = still_due deps now job st"
  by (simp add: still_due_def)

lemma other_job_settled:
  assumes "j \<in> set (jobs_of st)" "jobId j \<noteq> jobId job"
  shows "j \<in> set (jobs_of (snd (settle_job deps now preserve job r st)))"
proof -
  obtain jobs where jobs: "storeJobs st = Some jobs" "j \<in> set jobs" using assms(1) by (cases "storeJobs st") (auto simp: jobs_of_def)
  have "j \<in> set (map_first (\<lambda>k. jobId k = jobId job) f jobs)" for f using jobs(2) assms(2) by (induction jobs) auto
  with jobs assms(2) show ?thesis
    by (simp add: settle_job_def Let_def put_job_def drop_job_def change_jobs_def jobs_of_def emit_cron_def effects_add_def case_prod_beta)
qed

lemma other_job_kept:
  "j \<in> set (jobs_of st) \<Longrightarrow> jobId j \<notin> fst ` set rs \<Longrightarrow> j \<in> set (jobs_of (fold (applyOutcomeToStoredJob deps now) rs st))"
proof (induction rs arbitrary: st)
  case (Cons jr rs)
  have "j \<in> set (jobs_of (applyOutcomeToStoredJob deps now jr st))"
    using Cons.prems by (auto simp: applyOutcomeToStoredJob_def Let_def split: prod.split option.split intro!: other_job_settled dest!: find_job_Some)
  with Cons show ?case by simp
qed simp

text \<open>
  C31. A due run does not disappear: listing the jobs, asking for the status, the checks in front of a manual run and the
  results of a tick leave every job whose time has come, and which was not run by this tick, with its state as it was and
  still due, so that the next tick picks it. The one exception are checks in front of a manual run that find the
  specification of its job unsupported: they settle that job as skipped, which moves its next run.
\<close>
theorem due_runs_are_kept:
  assumes "due_now now job"
  shows "(job \<in> set (jobs_of (ensureLoaded deps False True now st)) \<longrightarrow>
      still_due deps now job (snd (cron_list deps now b st)) \<and> still_due deps now job (snd (cron_status deps now st))
      \<and> (fst (inspectManualRunPreflight deps now jid forced st) \<noteq> Pf_invalid_spec
           \<longrightarrow> still_due deps now job (snd (inspectManualRunPreflight deps now jid forced st))))
    \<and> (job \<in> set (fileJobs st) \<and> tick_apply deps now t st = Some (t', st') \<and> slot_results t \<noteq> []
         \<and> jobId job \<notin> set (slot_ids (tickSlots t)) \<longrightarrow> still_due deps now job st')"
proof (intro conjI impI)
  assume m: "job \<in> set (jobs_of (ensureLoaded deps False True now st))"
  note k = still_due_maintenance [OF assms m, of deps]
  from k show "still_due deps now job (snd (cron_list deps now b st))" "still_due deps now job (snd (cron_status deps now st))"
    by (simp_all add: cron_list_def cron_status_def Let_def ensureLoadedForRead_def case_prod_beta)
  assume "fst (inspectManualRunPreflight deps now jid forced st) \<noteq> Pf_invalid_spec"
  with k show "still_due deps now job (snd (inspectManualRunPreflight deps now jid forced st))"
    by (auto simp: inspectManualRunPreflight_def Let_def split: sum.split option.splits)
next
  assume a: "job \<in> set (fileJobs st) \<and> tick_apply deps now t st = Some (t', st') \<and> slot_results t \<noteq> []
    \<and> jobId job \<notin> set (slot_ids (tickSlots t))"
  have "job \<in> set (jobs_of (ensureLoaded deps True True now st))" using a by (simp add: ensureLoaded_def load_cron_def jobs_of_def)
  then have "job \<in> set (jobs_of (fold (applyOutcomeToStoredJob deps now) (slot_results t) (ensureLoaded deps True True now st)))"
    by (rule other_job_kept) (use results_within a in blast)
  from still_due_maintenance [OF assms this, of deps] a show "still_due deps now job st'"
    by (auto simp: tick_apply_def split: if_splits)
qed

lemma due_runs_are_kept_witness:
  "still_due demo_cron_deps 1000 (demo_cron_job ''a'' (Cs_every 60000 (Some 1)) 1000)
     (snd (cron_list demo_cron_deps 1000 True (cronService (cron_world demo_cron_file))))"
proof -
  have "due_now 1000 (demo_cron_job ''a'' (Cs_every 60000 (Some 1)) 1000)" by (simp add: due_now_def demo_cron_job_def)
  from due_runs_are_kept [OF this, of demo_cron_deps "cronService (cron_world demo_cron_file)"] show ?thesis
    by (simp add: cron_world_def ensureLoaded_def load_cron_def jobs_of_def nullish_def demo_cron_file_def)
qed

text \<open>Adding a job is not like that: it computes anew the times of the others, and a run by expression that is due is lost.\<close>

lemma cron_next_after: "cron_next f now = Inr (Some n) \<Longrightarrow> now < n"
  by (auto simp: cron_next_def andThen_def split: sum.splits option.splits if_splits)

lemma compute_after: "computeNextRunAtMs lib (Cs_cron expr tz stagger) now = Inr (Some n) \<Longrightarrow> now < n"
  by (auto simp: computeNextRunAtMs_def dest: cron_next_after split: if_splits)

lemma staggered_after: "staggered_next f offset now k cursor = Inr (Some n) \<Longrightarrow> now < n"
  by (induction k arbitrary: cursor) (auto simp: andThen_def split: sum.splits option.splits if_splits)

lemma compute_staggered_after: "computeStaggeredCronNextRunAtMs lib jid (Cs_cron expr tz stagger) now = Inr (Some n) \<Longrightarrow> now < n"
  by (auto simp: computeStaggeredCronNextRunAtMs_def Let_def dest: compute_after staggered_after split: if_splits)

lemma job_next_after:
  assumes "computeJobNextRunAtMs lib job now = Inr (Some n)" "jobSchedule job = Cs_cron expr tz stagger"
  shows "now < n"
proof -
  have "now < now div 1000 * 1000 + 1000" using div_mult_mod_eq [of now 1000] pos_mod_bound [of 1000 now] by linarith
  with assms show ?thesis
    by (fastforce simp: computeJobNextRunAtMs_def andThen_def dest: compute_staggered_after split: if_splits sum.splits option.splits)
qed

text \<open>
  C38. Adding a job loses due runs of others: after a successful add to a loaded scheduler, a job with a cron expression
  whose time had come and that did not run is no longer due, with its last run as it was, whether or not croner answers
  for its expression.
\<close>
theorem adding_loses_due_runs:
  assumes "cron_add deps now uuid i st = (Inr new, st')" "storeJobs st = Some jobs"
    "job \<in> set jobs" "jobSchedule job = Cs_cron expr tz stagger" "due_now now job"
  shows "\<exists>job' \<in> set (fileJobs st'). jobId job' = jobId job \<and> lastRunAtMs (jobState job') = lastRunAtMs (jobState job) \<and> \<not> due_now now job'"
proof -
  obtain added where c: "createJob (cronLib deps) (cronDefaultAgentId deps) now uuid i = Inr added"
    using assms(1) by (auto simp: cron_add_def Let_def split: sum.splits)
  let ?jobs = "fst (recomputeNextRuns (cronLib deps) now (jobs @ [added]))"
  have filed: "fileJobs st' = ?jobs"
    using assms(1,2) c by (auto simp: cron_add_def Let_def ensureLoaded_def change_jobs_def walk_store_def case_prod_beta
        persist_cron_def armTimer_def emit_cron_def effects_add_def)
  have n: "normalizeJobTickState now job = (job, False, False)"
    using assms(4,5) by (auto simp: normalizeJobTickState_def due_now_def hasScheduledNextRunAtMs_def Let_def)
  let ?job' = "fst (recomputeJobNextRunAtMs (cronLib deps) now job)"
  have "?job' \<in> set ?jobs"
    using walk_member [OF _ n, of "jobs @ [added]" "\<lambda>job. let nextRun = nextRunAtMs (jobState job)
      in if \<not> hasScheduledNextRunAtMs nextRun \<or> now \<ge> the nextRun then recomputeJobNextRunAtMs (cronLib deps) now job else (job, False, [])"]
      assms(3,5) unfolding recomputeNextRuns_def by (auto simp: due_now_def Let_def)
  moreover have "\<not> due_now now ?job'" using job_next_after [of "cronLib deps" job now, OF _ assms(4)]
    by (auto simp: recomputeJobNextRunAtMs_def recordScheduleComputeError_def due_now_def Let_def split: sum.split)
  moreover have "jobId ?job' = jobId job" "lastRunAtMs (jobState ?job') = lastRunAtMs (jobState job)"
    by (simp_all add: recomputeJobNextRunAtMs_def recordScheduleComputeError_def Let_def split: sum.split)
  ultimately show ?thesis unfolding filed by blast
qed

definition demo_cron_create :: CronJobCreate where
  "demo_cron_create = \<lparr>agentIdI = None, sessionKeyI = None, nameI = Some ''new'', descriptionI = None, enabledI = None, deleteAfterRunI = None,
     scheduleI = Cs_every 60000 None, sessionTargetI = ''main'', wakeModeI = Wm_now, payloadI = SystemEvent ''hi'', deliveryI = None,
     failureAlertI = Alert_unset, stateI = jobState (demo_cron_job ''n'' (Cs_at ''1'') 1)\<rparr>"

definition demo_cron_loaded :: "CronJob list \<Rightarrow> CronService" where
  "demo_cron_loaded jobs = (cronService (cron_world jobs))\<lparr>storeJobs := Some jobs\<rparr>"

lemma demo_add: "fst (cron_add demo_cron_deps 900500 ''c'' demo_cron_create (demo_cron_loaded demo_cron_file)) \<noteq> Inl Name_required
  \<and> isl (fst (cron_add demo_cron_deps 900500 ''c'' demo_cron_create (demo_cron_loaded demo_cron_file))) = False"
  by code_simp

lemma adding_loses_due_runs_witness:
  "\<exists>job' \<in> set (fileJobs (snd (cron_add demo_cron_deps 900500 ''c'' demo_cron_create (demo_cron_loaded demo_cron_file)))).
     jobId job' = ''b'' \<and> lastRunAtMs (jobState job') = None \<and> \<not> due_now 900500 job'"
proof -
  obtain new st' where a: "cron_add demo_cron_deps 900500 ''c'' demo_cron_create (demo_cron_loaded demo_cron_file) = (Inr new, st')"
    using demo_add by (cases "cron_add demo_cron_deps 900500 ''c'' demo_cron_create (demo_cron_loaded demo_cron_file)"; cases "fst (cron_add demo_cron_deps 900500 ''c'' demo_cron_create (demo_cron_loaded demo_cron_file))") auto
  have "due_now 900500 (demo_cron_job ''b'' (Cs_cron ''5 * * * *'' None None) 900000)" by (simp add: due_now_def demo_cron_job_def)
  from adding_loses_due_runs [OF a _ _ _ this, of demo_cron_file "''5 * * * *''" None None] a show ?thesis
    by (simp add: demo_cron_loaded_def demo_cron_file_def demo_cron_job_def)
qed

section \<open>Refused changes\<close>

lemma filter_map_first: "jobId job = jid \<Longrightarrow> filter (\<lambda>j. jobId j \<noteq> jid) (map_first (\<lambda>j. jobId j = jid) (\<lambda>_. job) jobs) = filter (\<lambda>j. jobId j \<noteq> jid) jobs"
  by (induction jobs) auto

text \<open>
  C34. A refused change of a job leaves the file, the timer and the outside as they were, and every other job; the job
  itself may be changed in memory by the part of the patch in front of what was refused.
\<close>
theorem refused_update_leaves_the_file:
  assumes "cron_update deps now jid patch st = (Inl err, st')"
  shows "fileJobs st' = fileJobs st \<and> cronTimer st' = cronTimer st \<and> cronEffects st' = cronEffects st \<and> cronRunning st' = cronRunning st
    \<and> filter (\<lambda>j. jobId j \<noteq> jid) (jobs_of st') = filter (\<lambda>j. jobId j \<noteq> jid) (jobs_of (ensureLoaded deps False True now st))"
proof -
  let ?st1 = "ensureLoaded deps False True now st"
  have q: "fileJobs ?st1 = fileJobs st" "cronTimer ?st1 = cronTimer st" "cronEffects ?st1 = cronEffects st" "cronRunning ?st1 = cronRunning st"
    by (simp_all add: ensureLoaded_def Let_def load_cron_def)
  have "st' = ?st1 \<or> (\<exists>job. jobId job = jid \<and> st' = put_job jid job ?st1)"
  proof (cases "find_job (jobs_of ?st1) jid")
    case None
    with assms show ?thesis by (simp add: cron_update_def findJobOrThrow_def)
  next
    case (Some job)
    then have j: "jobId job = jid" by (auto dest: find_job_Some)
    obtain e job1 where a: "applyJobPatch (cronLib deps) (cronDefaultAgentId deps) patch job = (e, job1)" by fastforce
    have i: "jobId job1 = jid" "jobId (anchored_after_patch now patch job1\<lparr>updatedAtMs := now\<rparr>) = jid"
      using patch_id [of "cronLib deps" "cronDefaultAgentId deps" patch job] a j by simp_all
    have "st' = put_job jid job1 ?st1 \<or> st' = put_job jid (anchored_after_patch now patch job1\<lparr>updatedAtMs := now\<rparr>) ?st1"
      using assms Some a by (auto simp: cron_update_def findJobOrThrow_def Let_def split: option.splits sum.splits)
    with i show ?thesis by blast
  qed
  with q show ?thesis
    by (cases "storeJobs ?st1") (auto simp: put_job_def change_jobs_def jobs_of_def filter_map_first)
qed

text \<open>A patch with a new name and a webhook that is no URL\<close>

definition demo_cron_patch :: CronJobPatch where
  "demo_cron_patch = \<lparr>nameJp = Some (Some ''other''), descriptionJp = None, enabledJp = None, deleteAfterRunJp = None, scheduleJp = None,
     sessionTargetJp = None, wakeModeJp = None, payloadJp = None,
     deliveryJp = Some \<lparr>modeDp = Some Dm_webhook, channelDp = None, toDp = None, threadIdDp = None, accountIdDp = None, bestEffortDp = None,
       failureDestinationDp = None\<rparr>,
     failureAlertJp = Alert_absent, stateJp = None, agentIdJp = None, sessionKeyJp = None\<rparr>"

lemma demo_refused: "fst (cron_update demo_cron_deps 2 ''a'' demo_cron_patch (demo_cron_loaded demo_cron_file)) = Inl Webhook_requires_url
  \<and> map jobName (jobs_of (snd (cron_update demo_cron_deps 2 ''a'' demo_cron_patch (demo_cron_loaded demo_cron_file)))) = [''other'', ''b'']"
  by code_simp

lemma refused_update_leaves_the_file_witness:
  "fileJobs (snd (cron_update demo_cron_deps 2 ''a'' demo_cron_patch (demo_cron_loaded demo_cron_file))) = demo_cron_file
   \<and> map jobName (jobs_of (snd (cron_update demo_cron_deps 2 ''a'' demo_cron_patch (demo_cron_loaded demo_cron_file)))) = [''other'', ''b'']"
proof -
  let ?u = "cron_update demo_cron_deps 2 ''a'' demo_cron_patch (demo_cron_loaded demo_cron_file)"
  have "?u = (Inl Webhook_requires_url, snd ?u)" using demo_refused by (metis prod.collapse)
  from refused_update_leaves_the_file [OF this] demo_refused show ?thesis by (simp add: demo_cron_loaded_def cron_world_def)
qed

section \<open>Disabled jobs\<close>

lemma supported_spec_kept: "assertSupportedJobSpec (job\<lparr>jobSchedule := schedule, jobState := state\<rparr>) = assertSupportedJobSpec job"
  "assertSupportedJobSpec (job\<lparr>jobState := state\<rparr>) = assertSupportedJobSpec job"
  "assertSupportedJobSpec (job\<lparr>jobSchedule := schedule\<rparr>) = assertSupportedJobSpec job"
  by (simp_all add: assertSupportedJobSpec_def)

lemma normalize_disabled:
  "\<not> jobEnabled job \<Longrightarrow> case normalizeJobTickState now job of (job1, c, skip) \<Rightarrow> skip \<and> runningAtMs (jobState job1) = None
     \<and> jobId job1 = jobId job \<and> assertSupportedJobSpec job1 = assertSupportedJobSpec job"
  by (auto simp: normalizeJobTickState_def supported_spec_kept Let_def split: CronSchedule.split)

lemma walk_find:
  assumes "\<And>j. jobId (fst (fn j)) = jobId j" "find_job jobs jid = Some job" "normalizeJobTickState now job = (job1, c, True)"
  shows "find_job (fst (walkSchedulableJobs fn now jobs)) jid = Some job1"
  using assms(2)
proof (induction jobs)
  case (Cons j jobs)
  obtain j1 c1 s1 where n: "normalizeJobTickState now j = (j1, c1, s1)" by (metis prod.collapse)
  then have i: "jobId j1 = jobId j" using normalize_keeps(1) [of now j] by simp
  show ?case
  proof (cases "jobId j = jid")
    case True
    with Cons.prems assms(3) have "j = job" by (simp add: find_job_def)
    with n i assms(3) True show ?thesis by (simp add: find_job_def Let_def case_prod_beta)
  next
    case False
    with Cons n i assms(1) show ?thesis by (simp add: find_job_def Let_def case_prod_beta)
  qed
qed (simp add: find_job_def)

text \<open>
  C37. A disabled job can run twice at a time: while a forced run of a disabled job goes on, the checks in front of
  another forced run clear its mark, find it runnable, and the job is reserved once more.
\<close>
theorem disabled_job_runs_twice:
  assumes "storeJobs st = Some jobs" "find_job jobs jid = Some job" "\<not> jobEnabled job" "assertSupportedJobSpec job = None"
    "runningAtMs (jobState job) = Some startedMs"
  shows "fst (inspectManualRunPreflight deps now jid True st) = Pf_runnable now
    \<and> (\<exists>m st'. reserveManualRun now jid True (snd (inspectManualRunPreflight deps now jid True st)) = (Inr (Some m), st')
         \<and> jobId (manualJob m) = jid)"
proof -
  obtain c job1 where n: "normalizeJobTickState now job = (job1, c, True)"
    and j1: "runningAtMs (jobState job1) = None" "jobId job1 = jobId job" "assertSupportedJobSpec job1 = None"
    using normalize_disabled [OF assms(3), of now] assms(4) by (cases "normalizeJobTickState now job") auto
  let ?st1 = "snd (walk_store (recomputeNextRunsForMaintenance (cronLib deps) False now) (ensureLoaded deps False True now st))"
  have "find_job (fst (recomputeNextRunsForMaintenance (cronLib deps) False now jobs)) jid = Some job1"
    unfolding recomputeNextRunsForMaintenance_def
    by (rule walk_find [OF _ assms(2) n]) (simp add: Let_def recompute_id)
  then have f: "find_job (jobs_of ?st1) jid = Some job1"
    using assms(1) by (simp add: walk_store_def ensureLoaded_def jobs_of_def effects_add_def case_prod_beta)
  have i: "inspectManualRunPreflight deps now jid True st = (Pf_runnable now, ?st1)"
    using f j1 by (simp add: inspectManualRunPreflight_def findJobOrThrow_def isJobDue_def Let_def)
  have "jobId job1 = jid" using f by (auto dest: find_job_Some)
  with i f j1 show ?thesis by (simp add: reserveManualRun_def findJobOrThrow_def running_mark_def Let_def)
qed

definition demo_disabled :: CronJob where
  "demo_disabled = with_state (\<lambda>s. s\<lparr>runningAtMs := Some 10\<rparr>) ((demo_cron_job ''a'' (Cs_every 60000 (Some 1)) 1000)\<lparr>jobEnabled := False\<rparr>)"

lemma disabled_job_runs_twice_witness:
  "fst (inspectManualRunPreflight demo_cron_deps 20 ''a'' True (demo_cron_loaded [demo_disabled])) = Pf_runnable 20"
proof -
  have "storeJobs (demo_cron_loaded [demo_disabled]) = Some [demo_disabled]" by (simp add: demo_cron_loaded_def)
  moreover have "find_job [demo_disabled] ''a'' = Some demo_disabled" "\<not> jobEnabled demo_disabled" "runningAtMs (jobState demo_disabled) = Some 10"
    by (simp_all add: find_job_def demo_disabled_def demo_cron_job_def)
  moreover have "assertSupportedJobSpec demo_disabled = None" by code_simp
  ultimately show ?thesis using disabled_job_runs_twice by blast
qed

section \<open>Interrupted one-shot jobs\<close>

definition unmarked :: "CronJob \<Rightarrow> CronJob" where
  "unmarked = with_state (\<lambda>s. s\<lparr>runningAtMs := None\<rparr>)"

lemma unmarked_simps [simp]: "jobId (unmarked j) = jobId j" "jobEnabled (unmarked j) = jobEnabled j" "jobSchedule (unmarked j) = jobSchedule j"
  "runningAtMs (jobState (unmarked j)) = None" "nextRunAtMs (jobState (unmarked j)) = nextRunAtMs (jobState j)"
  "lastStatus (jobState (unmarked j)) = lastStatus (jobState j)"
  by (simp_all add: unmarked_def)

text \<open>The first step of the start-up clears the marks and notes the job as interrupted.\<close>

lemma start_begin_marked:
  fixes deps :: CronDeps and now :: int
  assumes "job \<in> set file" "jobSchedule job = Cs_at raw" "runningAtMs (jobState job) \<noteq> None"
  defines "st1 \<equiv> snd (start_begin deps now (cronService (cron_world file)))"
  shows "jobId job \<in> set (fst (start_begin deps now (cronService (cron_world file))))"
    "fileJobs st1 = map unmarked file" "storeJobs st1 = Some (map unmarked file)" "cronRunning st1 = False"
proof -
  have "filter (\<lambda>j. runningAtMs (jobState j) \<noteq> None) file \<noteq> []" using assms(1,3) by (auto simp: filter_empty_conv)
  then show "fileJobs st1 = map unmarked file" "storeJobs st1 = Some (map unmarked file)" "cronRunning st1 = False"
    unfolding st1_def by (simp_all add: start_begin_def cron_world_def ensureLoaded_def load_cron_def jobs_of_def nullish_def change_jobs_def
      persist_cron_def Let_def unmarked_def [abs_def])
  show "jobId job \<in> set (fst (start_begin deps now (cronService (cron_world file))))"
    using assms(1-3) by (force simp: start_begin_def cron_world_def ensureLoaded_def load_cron_def jobs_of_def nullish_def Let_def)
qed

text \<open>When no other job was missed, nothing is made up for.\<close>

lemma nothing_missed:
  assumes "jobs_of st = map unmarked file" "storeJobs st \<noteq> None" "jid \<in> set ids"
    "\<forall>k \<in> set file. jobId k \<noteq> jid \<longrightarrow> \<not> isRunnableJob (cronLib deps) now [] True True (unmarked k)"
  shows "start_plan deps now ids st = (\<lparr>startupSlots = [], startupDeferred = []\<rparr>, st)"
proof -
  have skip: "isRunnableJob lib now ids a b k \<Longrightarrow> jobId k \<notin> set ids \<and> isRunnableJob lib now [] a b k" for lib a b k
    by (auto simp: isRunnableJob_def Let_def split: if_splits)
  have "\<not> isRunnableJob (cronLib deps) now ids True True k" if k: "k \<in> set (map unmarked file)" for k
  proof
    assume r: "isRunnableJob (cronLib deps) now ids True True k"
    obtain x where x: "x \<in> set file" "k = unmarked x" using k by auto
    from skip [OF r] assms(3) x have "jobId x \<noteq> jid" "isRunnableJob (cronLib deps) now [] True True (unmarked x)" by auto
    with x assms(4) show False by blast
  qed
  then have "filter (\<lambda>ij. isRunnableJob (cronLib deps) now ids True True (snd ij)) (enumerate 0 (jobs_of st)) = []"
    unfolding filter_empty_conv enumerate_eq_zip assms(1) by (metis prod.collapse set_zip_rightD)
  then have "missed_jobs (cronLib deps) now ids (jobs_of st) = []" by (simp add: missed_jobs_def)
  moreover have "ensureLoaded deps False True now st = st" using assms(2) by (simp add: ensureLoaded_def)
  ultimately show ?thesis by (simp add: start_plan_def planStartupCatchup_def Let_def)
qed

lemma walk_changed:
  "j \<in> set jobs \<Longrightarrow> normalizeJobTickState now j = (j1, c, False) \<Longrightarrow> c \<or> fst (snd (fn j1)) \<Longrightarrow> fst (snd (walkSchedulableJobs fn now jobs))"
  by (induction jobs) (auto simp: Let_def split: prod.split)

text \<open>The last step of the start-up computes the next run anew: it is the time of the job, which is past.\<close>

lemma past_time_kept:
  assumes "job \<in> set jobs" "jobSchedule job = Cs_at raw" "jobEnabled job" "runningAtMs (jobState job) = None"
    "parseAbsoluteTimeMs lib raw = Some n" "0 < n" "n \<le> now" "lastStatus (jobState job) = None"
    "case nextRunAtMs (jobState job) of None \<Rightarrow> True | Some m \<Rightarrow> m \<le> now"
  shows "\<exists>job1 \<in> set (fst (recomputeNextRuns lib now jobs)). jobId job1 = jobId job \<and> due_now n job1
    \<and> (fst (snd (recomputeNextRuns lib now jobs)) \<or> due_now n job)"
proof -
  let ?fn = "\<lambda>job. let nextRun = nextRunAtMs (jobState job)
     in if \<not> hasScheduledNextRunAtMs nextRun \<or> now \<ge> the nextRun then recomputeJobNextRunAtMs lib now job else (job, False, [])"
  define c where "c \<longleftrightarrow> \<not> hasScheduledNextRunAtMs (nextRunAtMs (jobState job)) \<and> nextRunAtMs (jobState job) \<noteq> None"
  define job0 where "job0 = (if c then with_state (\<lambda>s. s\<lparr>nextRunAtMs := None\<rparr>) job else job)"
  have norm: "normalizeJobTickState now job = (job0, c, False)"
    using assms(2-4) by (simp add: normalizeJobTickState_def c_def job0_def Let_def)
  have job0: "jobId job0 = jobId job" "jobSchedule job0 = Cs_at raw" "jobEnabled job0" "runningAtMs (jobState job0) = None"
      "lastStatus (jobState job0) = None" "c \<or> nextRunAtMs (jobState job0) = nextRunAtMs (jobState job)"
    using assms(2-4,8) by (simp_all add: job0_def)
  have due: "\<not> hasScheduledNextRunAtMs (nextRunAtMs (jobState job0)) \<or> the (nextRunAtMs (jobState job0)) \<le> now"
    using assms(9) by (cases "nextRunAtMs (jobState job)") (auto simp: job0_def c_def hasScheduledNextRunAtMs_def)
  have compute: "computeJobNextRunAtMs lib job0 now = Inr (Some n)" using assms(5) job0 by (simp add: computeJobNextRunAtMs_def)
  let ?job1 = "fst (recomputeJobNextRunAtMs lib now job0)"
  have fn: "?fn job0 = recomputeJobNextRunAtMs lib now job0" using due by (simp add: Let_def)
  have "?job1 \<in> set (fst (recomputeNextRuns lib now jobs))"
    using walk_member [OF assms(1) norm, of ?fn] unfolding fn recomputeNextRuns_def by simp
  moreover have "jobId ?job1 = jobId job" "due_now n ?job1"
    using compute job0 assms(6) by (simp_all add: recomputeJobNextRunAtMs_def due_now_def Let_def)
  moreover have "fst (snd (recomputeNextRuns lib now jobs)) \<or> due_now n job"
  proof (cases "c \<or> nextRunAtMs (jobState job0) \<noteq> Some n")
    case True
    then have "c \<or> fst (snd (?fn job0))" unfolding fn using compute by (auto simp: recomputeJobNextRunAtMs_def Let_def)
    then show ?thesis using walk_changed [OF assms(1) norm, of ?fn] unfolding recomputeNextRuns_def by blast
  next
    case False
    with job0(6) have "nextRunAtMs (jobState job) = Some n" by simp
    with assms(3,4,6) show ?thesis by (simp add: due_now_def)
  qed
  ultimately show ?thesis by blast
qed

lemma start_end_due:
  assumes "storeJobs st = Some jobs" "fileJobs st = jobs" "job \<in> set jobs" "cronEnabled deps"
    "\<exists>job1 \<in> set (fst (recomputeNextRuns (cronLib deps) now jobs)). jobId job1 = jobId job \<and> due_now n job1
       \<and> (fst (snd (recomputeNextRuns (cronLib deps) now jobs)) \<or> due_now n job)"
  shows "\<exists>job' \<in> set (fileJobs (start_end deps now st)). jobId job' = jobId job \<and> due_now n job'"
    "cronTimer (start_end deps now st) \<noteq> None" "cronRunning (start_end deps now st) = cronRunning st"
proof -
  obtain jobs' changed es where walk: "recomputeNextRuns (cronLib deps) now jobs = (jobs', changed, es)" by (metis prod.collapse)
  let ?st1 = "effects_add es (st\<lparr>storeJobs := Some jobs'\<rparr>)"
  have e: "start_end deps now st = armTimer deps now (if changed then persist_cron ?st1 else ?st1)"
    using assms(1) walk by (simp add: start_end_def ensureLoaded_def walk_store_def)
  obtain job1 where job1: "job1 \<in> set jobs'" "jobId job1 = jobId job" "due_now n job1" "changed \<or> due_now n job" using assms(5) walk by auto
  show "\<exists>job' \<in> set (fileJobs (start_end deps now st)). jobId job' = jobId job \<and> due_now n job'"
    using job1 assms(2,3) by (auto simp: e armTimer_def persist_cron_def effects_add_def)
  have "filter (\<lambda>j. jobEnabled j \<and> hasScheduledNextRunAtMs (nextRunAtMs (jobState j))) jobs' \<noteq> []"
    using job1(1,3) by (auto simp: filter_empty_conv due_now_def hasScheduledNextRunAtMs_def)
  then have "nextWakeAtMs jobs' \<noteq> None" by (auto simp: nextWakeAtMs_def split: list.split)
  then show "cronTimer (start_end deps now st) \<noteq> None"
    using assms(4) by (auto simp: e armTimer_def jobs_of_def effects_add_def persist_cron_def Let_def)
  show "cronRunning (start_end deps now st) = cronRunning st" by (simp add: start_end_def case_prod_beta)
qed

lemma tick_picks:
  assumes "job \<in> set (fileJobs st)" "due_now now job" "\<not> cronRunning st"
  shows "\<exists>t st'. tick_begin deps now st = (Some t, st') \<and> \<not> tickApplied t \<and> jobId job \<in> set (slot_ids (tickSlots t))"
proof -
  have "job \<in> set (filter (isRunnableJob (cronLib deps) now [] False False) (fileJobs st))" using assms(1,2) by (simp add: runnable_due)
  moreover from this have "filter (isRunnableJob (cronLib deps) now [] False False) (fileJobs st) \<noteq> []" by force
  ultimately show ?thesis using assms(3)
    by (simp add: tick_begin_def ensureLoaded_def load_cron_def jobs_of_def nullish_def Let_def)
qed

lemma cron_run_snoc: "cron_run deps es w = Some w1 \<Longrightarrow> cron_run deps (es @ [e]) w = cron_step deps e w1"
proof (induction es arbitrary: w)
  case Nil
  then show ?case by (cases "cron_step deps e w1") simp_all
qed (auto simp: bind_eq_Some_conv)


definition demo_one_shot :: CronJob where
  "demo_one_shot = with_state (\<lambda>s. s\<lparr>runningAtMs := Some 1000\<rparr>) (demo_cron_job ''a'' (Cs_at ''1000'') 1500)"


end
