(* ===== verification/CronPages.thy ===== *)
theory CronPages
  imports CronProps
begin

text \<open>
  Pages of the list of jobs (\<open>listPage\<close> of \<open>src/cron/service/ops.ts\<close>). How names are compared is a parameter.
\<close>

datatype CronJobsEnabledFilter = Ef_all | Ef_enabled | Ef_disabled
datatype CronJobsSortBy = Sb_next_run | Sb_updated | Sb_name

record CronListPageOptions =
  includeDisabledG :: "bool option"
  limitG :: "int option"
  offsetG :: "int option"
  queryG :: "string option"
  enabledG :: "CronJobsEnabledFilter option"
  sortByG :: "CronJobsSortBy option"
  descendingG :: bool

record CronListPageResult =
  pageJobs :: "CronJob list"
  pageTotal :: nat
  pageOffset :: nat
  pageLimit :: nat
  hasMore :: bool
  nextOffset :: "nat option"

definition resolveEnabledFilter :: "CronListPageOptions \<Rightarrow> CronJobsEnabledFilter" where
  "resolveEnabledFilter opts = (case enabledG opts of Some f \<Rightarrow> f
     | None \<Rightarrow> if includeDisabledG opts = Some True then Ef_all else Ef_enabled)"

text \<open>\<open>localeCompare\<close> without regard to case and accents, and with it\<close>

record NameOrder =
  compareBase :: "string \<Rightarrow> string \<Rightarrow> int"
  compareLocale :: "string \<Rightarrow> string \<Rightarrow> int"

definition compare_jobs :: "NameOrder \<Rightarrow> CronJobsSortBy \<Rightarrow> bool \<Rightarrow> CronJob \<Rightarrow> CronJob \<Rightarrow> int" where
  "compare_jobs ord sortBy descending a b =
     (let cmp = (case sortBy of
            Sb_name \<Rightarrow> compareBase ord (jobName a) (jobName b)
          | Sb_updated \<Rightarrow> updatedAtMs a - updatedAtMs b
          | Sb_next_run \<Rightarrow> (case (nextRunAtMs (jobState a), nextRunAtMs (jobState b)) of
                (Some n, Some m) \<Rightarrow> n - m | (Some _, None) \<Rightarrow> - 1 | (None, Some _) \<Rightarrow> 1 | (None, None) \<Rightarrow> 0))
      in if cmp \<noteq> 0 then (if descending then - cmp else cmp) else compareLocale ord (jobId a) (jobId b))"

fun insert_by :: "('a \<Rightarrow> 'a \<Rightarrow> int) \<Rightarrow> 'a \<Rightarrow> 'a list \<Rightarrow> 'a list" where
  "insert_by cmp x [] = [x]"
| "insert_by cmp x (y # ys) = (if cmp x y \<le> 0 then x # y # ys else y # insert_by cmp x ys)"

definition sortJobs :: "NameOrder \<Rightarrow> CronJob list \<Rightarrow> CronJobsSortBy \<Rightarrow> bool \<Rightarrow> CronJob list" where
  "sortJobs ord jobs sortBy descending = foldr (insert_by (compare_jobs ord sortBy descending)) jobs []"

definition listed_job :: "CronListPageOptions \<Rightarrow> CronJob \<Rightarrow> bool" where
  "listed_job opts job =
     (let query = normalizeLowercaseStringOrEmpty (queryG opts); enabledFilter = resolveEnabledFilter opts
      in if enabledFilter = Ef_enabled \<and> \<not> jobEnabled job then False
         else if enabledFilter = Ef_disabled \<and> jobEnabled job then False
         else query = '''' \<or> has_infix query (normalizeLowercaseStringOrEmpty
           (Some (jobName job @ '' '' @ nullish (jobDescription job) '''' @ '' '' @ nullish (agentIdC job) ''''))))"

definition matching_jobs :: "NameOrder \<Rightarrow> CronListPageOptions \<Rightarrow> CronJob list \<Rightarrow> CronJob list" where
  "matching_jobs ord opts jobs = sortJobs ord (filter (listed_job opts) jobs) (nullish (sortByG opts) Sb_next_run) (descendingG opts)"

definition page_of :: "NameOrder \<Rightarrow> CronListPageOptions \<Rightarrow> CronJob list \<Rightarrow> CronListPageResult" where
  "page_of ord opts jobs =
     (let sorted = matching_jobs ord opts jobs; total = length sorted;
          off = nat (max 0 (min (int total) (nullish (offsetG opts) 0)));
          lim = nat (max 1 (min 200 (nullish (limitG opts) (if total = 0 then 50 else int total))));
          page = take lim (drop off sorted);
          after = off + length page
      in \<lparr>pageJobs = page, pageTotal = total, pageOffset = off, pageLimit = lim, hasMore = (after < total), nextOffset = (if after < total then Some after else None)\<rparr>)"

definition listPage :: "CronDeps \<Rightarrow> NameOrder \<Rightarrow> int \<Rightarrow> CronListPageOptions \<Rightarrow> CronService \<Rightarrow> CronListPageResult \<times> CronService" where
  "listPage deps ord now opts st = (let st1 = ensureLoadedForRead deps now st in (page_of ord opts (jobs_of st1), st1))"

text \<open>
  The jobs of the pages that a reader gets who calls \<open>listPage\<close> at the given times, each page asked for with the next
  offset of the one before, until there is none or the times are used up.
\<close>

fun follow_pages :: "CronDeps \<Rightarrow> NameOrder \<Rightarrow> int list \<Rightarrow> CronListPageOptions \<Rightarrow> CronService \<Rightarrow> CronJob list" where
  "follow_pages deps ord [] opts st = []"
| "follow_pages deps ord (now # nows) opts st = (case listPage deps ord now opts st of (page, st1) \<Rightarrow>
     pageJobs page @ (case nextOffset page of None \<Rightarrow> []
       | Some off \<Rightarrow> follow_pages deps ord nows (opts\<lparr>offsetG := Some (int off)\<rparr>) st1))"

lemma mset_insert_by: "mset (insert_by cmp x xs) = add_mset x (mset xs)"
  by (induction xs) auto

lemma mset_matching: "mset (matching_jobs ord opts jobs) = mset (filter (listed_job opts) jobs)"
proof -
  have "mset (foldr (insert_by cmp) xs []) = mset xs" for cmp and xs :: "CronJob list"
    by (induction xs) (simp_all add: mset_insert_by)
  then show ?thesis by (simp only: matching_jobs_def sortJobs_def)
qed

lemma matching_offset [simp]: "matching_jobs ord (opts\<lparr>offsetG := off\<rparr>) jobs = matching_jobs ord opts jobs"
proof -
  have "listed_job (opts\<lparr>offsetG := off\<rparr>) = listed_job opts"
    by (intro ext) (simp add: listed_job_def resolveEnabledFilter_def)
  then show ?thesis by (simp add: matching_jobs_def)
qed

section \<open>Jobs that reading leaves alone\<close>

text \<open>
  A job that the walk of a read at a time does not change: an enabled one has a next run, and its mark, if any, is not more
  than two hours old; a disabled one has neither; and an interval has its anchor.
\<close>

definition quiet_job :: "int \<Rightarrow> CronJob \<Rightarrow> bool" where
  "quiet_job now j \<longleftrightarrow>
     (if jobEnabled j
      then hasScheduledNextRunAtMs (nextRunAtMs (jobState j))
        \<and> (case runningAtMs (jobState j) of None \<Rightarrow> True | Some r \<Rightarrow> now - r \<le> STUCK_RUN_MS)
      else nextRunAtMs (jobState j) = None \<and> runningAtMs (jobState j) = None)
   \<and> (case jobSchedule j of Cs_every _ anchor \<Rightarrow> anchor = Some (resolveEveryAnchorMs anchor (createdAtMs j)) | _ \<Rightarrow> True)"

lemma quiet_normalize: "quiet_job now j \<Longrightarrow> normalizeJobTickState now j = (j, False, \<not> jobEnabled j)"
proof -
  assume q: "quiet_job now j"
  have "(case jobSchedule j of Cs_every everyMs anchor \<Rightarrow> (let normalized = resolveEveryAnchorMs anchor (createdAtMs j)
      in if anchor \<noteq> Some normalized then (j\<lparr>jobSchedule := Cs_every everyMs (Some normalized)\<rparr>, True) else (j, False)) | _ \<Rightarrow> (j, False)) = (j, False)"
    using q by (auto simp: quiet_job_def Let_def split: CronSchedule.splits)
  with q show ?thesis unfolding normalizeJobTickState_def
    by (cases "runningAtMs (jobState j)") (auto simp: quiet_job_def Let_def split: if_splits)
qed

lemma quiet_walk:
  "\<forall>j \<in> set jobs. quiet_job now j \<Longrightarrow> recomputeNextRunsForMaintenance lib False now jobs = (jobs, False, [])"
  unfolding recomputeNextRunsForMaintenance_def
proof (induction jobs)
  case (Cons j jobs)
  then have n: "normalizeJobTickState now j = (j, False, \<not> jobEnabled j)" by (simp add: quiet_normalize)
  have "jobEnabled j \<Longrightarrow> hasScheduledNextRunAtMs (nextRunAtMs (jobState j))" using Cons.prems by (simp add: quiet_job_def)
  with Cons n show ?case by (simp add: Let_def)
qed simp

lemma quiet_read:
  assumes "storeJobs st = Some jobs" "\<forall>j \<in> set jobs. quiet_job now j"
  shows "jobs_of (ensureLoadedForRead deps now st) = jobs" "storeJobs (ensureLoadedForRead deps now st) = Some jobs"
  using assms by (simp_all add: ensureLoadedForRead_def ensureLoaded_def walk_store_def quiet_walk effects_add_def jobs_of_def)

lemma read_loads: "storeJobs (ensureLoadedForRead deps now st) = Some (jobs_of (ensureLoadedForRead deps now st))"
proof -
  have "storeJobs (ensureLoadedForRead deps now st) \<noteq> None"
    by (cases "storeJobs st") (auto simp: ensureLoadedForRead_def ensureLoaded_def walk_store_def load_cron_def effects_add_def persist_cron_def
        Let_def split: prod.split option.split)
  then show ?thesis by (auto simp: jobs_of_def)
qed

section \<open>Page after page\<close>

text \<open>The rest of the list, from the offset of a page whose jobs are known\<close>

lemma page_shape:
  assumes "nullish (offsetG opts) 0 = int off" "off \<le> length (matching_jobs ord opts jobs)"
  shows "\<exists>lim \<ge> 1. pageJobs (page_of ord opts jobs) = take lim (drop off (matching_jobs ord opts jobs))
    \<and> nextOffset (page_of ord opts jobs) = (if off + lim < length (matching_jobs ord opts jobs) then Some (off + lim) else None)"
proof -
  let ?sorted = "matching_jobs ord opts jobs"
  define lim where "lim = nat (max 1 (min 200 (nullish (limitG opts) (if length ?sorted = 0 then 50 else int (length ?sorted)))))"
  define after where "after = off + length (take lim (drop off ?sorted))"
  have lim: "lim \<ge> 1" unfolding lim_def by linarith
  have "page_of ord opts jobs = \<lparr>pageJobs = take lim (drop off ?sorted), pageTotal = length ?sorted, pageOffset = off, pageLimit = lim,
      hasMore = (after < length ?sorted), nextOffset = (if after < length ?sorted then Some after else None)\<rparr>"
    using assms by (simp add: page_of_def lim_def after_def Let_def)
  moreover have "after < length ?sorted \<longleftrightarrow> off + lim < length ?sorted" "after < length ?sorted \<Longrightarrow> after = off + lim"
    using assms(2) unfolding after_def by (auto simp: min_def)
  ultimately show ?thesis using lim by (intro exI [of _ lim]) simp
qed

lemma follow_from:
  assumes "storeJobs st = Some jobs" "\<forall>now \<in> set nows. \<forall>j \<in> set jobs. quiet_job now j"
    "nullish (offsetG opts) 0 = int off" "off \<le> length (matching_jobs ord opts jobs)" "length (matching_jobs ord opts jobs) - off < length nows"
  shows "follow_pages deps ord nows opts st = drop off (matching_jobs ord opts jobs)"
  using assms
proof (induction nows arbitrary: st opts off)
  case (Cons now nows)
  let ?sorted = "matching_jobs ord opts jobs" and ?st1 = "ensureLoadedForRead deps now st"
  have read: "jobs_of ?st1 = jobs" "storeJobs ?st1 = Some jobs" using quiet_read [OF Cons.prems(1)] Cons.prems(2) by simp_all
  obtain lim where lim: "lim \<ge> 1" "pageJobs (page_of ord opts jobs) = take lim (drop off ?sorted)"
      "nextOffset (page_of ord opts jobs) = (if off + lim < length ?sorted then Some (off + lim) else None)"
    using page_shape [OF Cons.prems(3,4)] by blast
  show ?case
  proof (cases "off + lim < length ?sorted")
    case True
    have "follow_pages deps ord nows (opts\<lparr>offsetG := Some (int (off + lim))\<rparr>) ?st1 = drop (off + lim) ?sorted"
      using Cons.IH [OF read(2), of "opts\<lparr>offsetG := Some (int (off + lim))\<rparr>" "off + lim"] Cons.prems(2,5) True lim(1)
      by (simp add: nullish_def)
    with True lim read(1) show ?thesis by (simp add: listPage_def Let_def) (metis add.commute append_take_drop_id drop_drop)
  next
    case False
    with lim read(1) show ?thesis by (simp add: listPage_def Let_def)
  qed
qed simp


definition demo_page_options :: CronListPageOptions where
  "demo_page_options = \<lparr>includeDisabledG = Some True, limitG = Some 1, offsetG = None, queryG = Some ''B'', enabledG = None, sortByG = Some Sb_name,
     descendingG = False\<rparr>"

definition demo_order :: NameOrder where
  "demo_order = \<lparr>compareBase = (\<lambda>a b. int (length a) - int (length b)), compareLocale = (\<lambda>_ _. 0)\<rparr>"

definition demo_pages :: "CronJob list" where
  "demo_pages = [demo_cron_job ''abc'' (Cs_at ''1'') 1, demo_cron_job ''x'' (Cs_at ''1'') 1, demo_cron_job ''b'' (Cs_every 60000 (Some 1)) 1]"

lemma demo_page_facts:
  "jobs_of (ensureLoadedForRead demo_cron_deps 5 (cronService (cron_world demo_pages))) = demo_pages"
  "\<forall>t \<in> set [6, 7]. \<forall>j \<in> set demo_pages. quiet_job t j"
  "length (filter (listed_job demo_page_options) demo_pages) \<le> length [6::int, 7]"
  "map jobId (matching_jobs demo_order demo_page_options demo_pages) = [''b'', ''abc'']"
  by code_simp+


text \<open>
  Without the supposition a job can be skipped: the second call gives up a job whose expression croner does not take, which
  is no longer listed among the enabled ones, and the offset of the first page passes over the other.
\<close>

definition failing_pages :: "CronJob list" where
  "failing_pages = [with_state (\<lambda>s. s\<lparr>nextRunAtMs := None, scheduleErrorCount := Some 1\<rparr>) (demo_cron_job ''a'' (Cs_cron ''5 * * * *'' None None) 1),
     demo_cron_job ''bc'' (Cs_every 60000 (Some 1)) 1]"

definition enabled_options :: CronListPageOptions where
  "enabled_options = \<lparr>includeDisabledG = None, limitG = Some 1, offsetG = None, queryG = None, enabledG = None, sortByG = Some Sb_name,
     descendingG = False\<rparr>"

lemma given_up_job_hides_another:
  "map jobId (follow_pages throwing_deps demo_order [5, 6, 7] enabled_options (cronService (cron_world failing_pages))) = [''a'']"
  by code_simp

end
