(* ===== verification/Spec2Isabelle.thy ===== *)
theory Spec2Isabelle
  imports Prelude DeliveryContexts TaskRegistryProps TaskLifecycle TaskFlowProps TaskSummary
    TaskOwnerAccess TaskExecutor TaskExecutorProps TaskMaintenanceProps FlowMaintenance TaskAudit PluginTasks
    CommandQueueProps GatewayAuthConfig DeviceHandshake ChannelAccess PairingRequestProps RouteSessions
    CronResultProps CronPages
begin

text \<open>
  Verification of the background work of OpenClaw, a TypeScript gateway for personal assistants. The
  gateway starts detached work (sub-agents, command line runs, scheduled jobs, external agents),
  follows it in a registry of tasks, groups it into flows, reports its end to the session that asked
  for it, and sweeps away what has ended long ago. Commands reach the agents through lanes that run a
  limited number of them at a time. Messages come in over channels: the gateway decides whose messages it
  takes, which agent answers and in which session, and which clients may connect to it. A scheduler runs jobs at
  their times.

  \<^bold>\<open>Parts and theories.\<close> The paths are those under \<open>src/src\<close>.

  \<^item> \<open>Prelude\<close>: the JavaScript operations that the code uses (\<open>??\<close>, \<open>||\<close>, \<open>trim\<close>, \<open>Map\<close> and \<open>Set\<close> with
    insertion order, stable sorting), \<open>shared/string-coerce.ts\<close>, and the interfaces that components
    share: the locales \<open>index_build\<close> and \<open>index_maintain\<close> (what a secondary index promises, built
    from scratch or kept up to date) and \<open>versioned_store\<close> (what a conditional update by revision
    promises). \<open>DeliveryContexts\<close>: \<open>utils/delivery-context.shared.ts\<close> and \<open>routing/account-id.ts\<close>.
  \<^item> \<open>TaskTypes\<close>: the records of \<open>tasks/task-registry.types.ts\<close> and
    \<open>tasks/task-flow-registry.types.ts\<close>.
  \<^item> \<open>FlowStore\<close>, \<open>TaskFlowRegistry\<close>: the flow registry and its SQLite table
    (\<open>tasks/task-flow-registry.ts\<close>, \<open>task-flow-registry.store.sqlite.ts\<close>). The state is the record
    \<open>FlowReg\<close>: the map of flows, the restore flags and the table.
  \<^item> \<open>TaskStore\<close>, \<open>TaskState\<close>, \<open>TaskQueries\<close>, \<open>TaskUpdates\<close>, \<open>TaskPolicy\<close>, \<open>TaskDelivery\<close>,
    \<open>TaskRegistry\<close>: the task registry (\<open>tasks/task-registry.ts\<close> with its store, its texts and its
    delivery policy). The state \<open>TaskReg\<close> extends \<open>FlowReg\<close>, because the task registry calls the flow
    registry: the tasks, the delivery states, the pending deliveries, four indexes, two tables, and a
    log of the effects on the outside (session messages, wake-ups).
  \<^item> \<open>TaskMachine\<close>: the registry as a step relation. A handler that awaits something suspends itself:
    its continuation is a value of the state, and any step may happen before it is resumed with any
    outcome.
  \<^item> \<open>TaskSummary\<close>, \<open>TaskOwnerAccess\<close>: \<open>task-registry.summary.ts\<close>, \<open>task-status.ts\<close>,
    \<open>task-owner-access.ts\<close>, \<open>task-flow-owner-access.ts\<close>, \<open>task-status-access.ts\<close>.
  \<^item> \<open>TaskExecutor\<close>: \<open>tasks/task-executor.ts\<close>, the facade the runtimes call.
  \<^item> \<open>TaskMaintenance\<close>, \<open>FlowMaintenance\<close>, \<open>TaskAudit\<close>: the sweeps with their timers, the inspection
    of tasks whose session is gone, and the audits.
  \<^item> \<open>TaskViews\<close>, \<open>PluginTasks\<close>: what plugins can reach (\<open>plugins/runtime/runtime-taskflow.ts\<close>,
    \<open>runtime-tasks.ts\<close>, \<open>tasks/task-domain-views.ts\<close>).
  \<^item> \<open>CommandQueue\<close>: \<open>process/command-queue.ts\<close>. Its state contains the call stack as a list of
    frames, because a command runs synchronously up to its first await inside the loop that starts it
    and may call the queue again.
  \<^item> \<open>GatewayNet\<close>, \<open>AuthRateLimit\<close>, \<open>GatewayAuth\<close>, \<open>GatewayConnect\<close>, \<open>GatewayAuthConfig\<close>: who may connect to
    the gateway. The address of a client behind proxies (\<open>gateway/net.ts\<close>, \<open>shared/net/ip.ts\<close>), the limiter of
    failed logins (\<open>gateway/auth-rate-limit.ts\<close>), the authorization by token, password, Tailscale or
    trusted proxy (\<open>gateway/auth.ts\<close>, \<open>origin-check.ts\<close>), the handshake that also knows bootstrap and
    device tokens (\<open>gateway/server/ws-connection/auth-context.ts\<close>) with the serialization of attempts,
    and where the secrets come from (\<open>gateway/credentials.ts\<close>, \<open>config/types.secrets.ts\<close>,
    \<open>config/env-substitution.ts\<close>). The limiter is passed on as a state; an authorization that awaits
    Tailscale answers \<open>AwaitsWhois\<close> and goes on with \<open>resumeGatewayConnect\<close>.
  \<^item> \<open>DeviceScopes\<close>, \<open>DevicePairing\<close>, \<open>DeviceBootstrap\<close>: the devices that may connect without the shared secret.
    What a scope implies (\<open>shared/operator-scope-compat.ts\<close>, \<open>device-auth.ts\<close>, \<open>device-bootstrap-profile.ts\<close>),
    the requests, paired devices and tokens of \<open>infra/device-pairing.ts\<close>, and the bootstrap tokens of
    \<open>infra/device-bootstrap.ts\<close>. The states are the JSON files, \<open>DevicePairingStateFile\<close> and \<open>BootstrapFile\<close>; each
    operation holds a lock from reading to writing and is one step. \<open>DeviceHandshake\<close> gives the
    verifiers of both to the handshake.
  \<^item> \<open>ChannelAccess\<close>: whose messages and commands are taken (\<open>security/dm-policy-shared.ts\<close>,
    \<open>channels/allow-from.ts\<close>, \<open>command-gating.ts\<close>, \<open>mention-gating.ts\<close>, \<open>plugin-sdk/group-access.ts\<close>,
    \<open>config/runtime-group-policy.ts\<close>); pure functions of the configuration and the message.
  \<^item> \<open>PairingStore\<close>: the senders that were paired for direct messages (\<open>pairing/pairing-store.ts\<close>,
    \<open>pairing-challenge.ts\<close>). The state \<open>PairingStores\<close> is the files, of requests with their codes and of approved
    senders, and the cache of one process; a call brings its clock, its random numbers and the stamps (time and
    size) that its files get. \<open>PairingStoreProps\<close> lets any number of processes share the files:
    \<open>PairingWorld\<close> has the files and a cache for each, and \<open>pairing_run\<close> is a run with the log of its events.
  \<^item> \<open>SessionKeys\<close>, \<open>Routing\<close>: the keys of sessions (\<open>routing/session-key.ts\<close>,
    \<open>sessions/session-key-utils.ts\<close>) and the agent that answers (\<open>routing/resolve-route.ts\<close>,
    \<open>config/bindings.ts\<close>, \<open>agents/agent-scope.ts\<close>). The three caches of routing are the state
    \<open>RoutingCaches\<close>, which each resolution takes and gives back; that a reference to an object is the same is
    that its number is. The object that a caller may share with a cache is an update of the cache,
    \<open>assign_session_key\<close>.
  \<^item> \<open>CronSchedule\<close>, \<open>CronJobs\<close>, \<open>CronEdit\<close>, \<open>CronTimer\<close>, \<open>CronService\<close>, \<open>CronPages\<close>: scheduled jobs (\<open>cron/schedule.ts\<close>,
    \<open>stagger.ts\<close>, \<open>parse.ts\<close>, \<open>types.ts\<close>, \<open>delivery-plan.ts\<close>, \<open>active-jobs.ts\<close> and \<open>cron/service/\<close>: \<open>jobs.ts\<close>, \<open>timer.ts\<close>,
    \<open>ops.ts\<close>, \<open>store.ts\<close>). When a job runs next, how jobs are created and changed, what a result does to a job, and
    the service, whose state \<open>CronService\<close> is the jobs in memory and in the file, the timer and the flag of a running tick.
    What runs under the lock of the store is one step. A tick, a manual run and the start-up are several
    steps, and \<open>CronWorld\<close> holds those that are under way, so that \<open>cron_step\<close> interleaves them as the event loop
    may; how a job ended is an input.

  \<^bold>\<open>Conventions.\<close> A timestamp is an integer, a flag a boolean, an optional field an option, and a patch a
  record with one option per field that the caller may give (so \<open>Some None\<close> clears a field). Whatever
  the code reads from outside (the clock, fresh identifiers, \<open>sanitizeUserFacingText\<close>, the session
  store, the derivers of the channels) is a field of a record of parameters: \<open>Env\<close> or
  \<open>TaskRegistryMaintenanceRuntime\<close>, for the gateway \<open>IpLibrary\<close> (\<open>ipaddr.js\<close>, \<open>net.isIP\<close>) and \<open>GatewayLib\<close>
  (SHA-256, \<open>new URL\<close>), for the devices \<open>PairingEnv\<close> (the clock and new tokens), for paired senders \<open>PairingLib\<close> (dates, the
  order of texts, the form of a sender in a channel), for scheduled jobs \<open>CronLib\<close> (croner, \<open>Date.parse\<close>) and \<open>KeyLib\<close> (the
  parsing of public keys and the decoding of base64). An exception is the left side of a sum, with a constructor of
  \<open>TaskError\<close> for each error the code throws. Effects are appended to a list in the order the code causes
  them.

  \<^bold>\<open>What is proved.\<close>

  \<^item> The registries. \<open>registry_invariant\<close> and \<open>handler_invariant\<close> (\<open>TaskInvariants\<close>) are the
    contracts of an invariant: what each primitive write keeps, every operation and resumption keeps.
    They are interpreted for the well-formedness of memory, indexes and tables (\<open>TaskRegistryInv\<close>),
    for the pending deliveries, and for the links between tasks and flows (\<open>TaskFlowLinks\<close>). On these
    rest the invariant, complete queries, ordered but for that by run, survival of a restart, deliveries at most once,
    and the effects of an update on flows (\<open>TaskRegistryProps\<close>, \<open>TaskLifecycle\<close>, \<open>TaskFlowProps\<close>).
  \<^item> The flows. The conditional update by revision, its single winner, monotone revisions, the table
    as an exact copy (\<open>TaskFlowRegistry\<close>).
  \<^item> The executor, maintenance, audits and plugins: each operation on every branch, in reachable
    states (\<open>TaskExecutorProps\<close>, \<open>TaskMaintenanceProps\<close>, \<open>FlowMaintenance\<close>, \<open>TaskAudit\<close>,
    \<open>PluginTasks\<close>); what callers can see and change is what they own (\<open>TaskOwnerAccess\<close>).
  \<^item> The command queue (\<open>CommandQueueProps\<close>): \<open>queue_invariant\<close> is the contract of an invariant of the
    queue; no lane stalls, limits and order hold as long as the callbacks of waiting commands do not
    call the queue, the loops end, completions make progress, waiters have a reason to wait.
  \<^item> The gateway. Who is let in has shown a credential (\<open>GatewayAuthProps\<close>, \<open>GatewayConnect\<close>), guesses at
    one limiter are bounded per window and a lockout lasts (\<open>AuthRateLimitProps\<close>, for limits whose lockout is at
    least the window, and a clock that does not run backwards), addresses cannot be forged
    through proxies, and a gateway that starts has a secret (\<open>GatewayAuthConfig\<close>).
  \<^item> The devices. \<open>scope_relation\<close> says what makes vouching for scopes work and is interpreted for the scopes of
    operators and for those of a role. On runs of arbitrary operations: every operator scope of an accepted
    device token goes back to somebody who approved the device (\<open>DevicePairingProps\<close>), a device has one
    request, a revoked token stays revoked (\<open>DeviceLogin\<close>), a bootstrap token works for one device, within its
    profile, for ten minutes (\<open>DeviceBootstrapProps\<close>); and what follows for the handshake
    (\<open>DeviceHandshake\<close>).
  \<^item> The channels. The decision on every branch, and that the pairing store has no say in groups
    (\<open>ChannelAccess\<close>). The log of a run is the specification of the pairing store: what any process reads, from the
    file or from its cache, is what the log granted (\<open>PairingStoreProps\<close>), when senders are read back as they are written
    and changes show in the stamps of files, and the decision about a direct
    message rests on just this (\<open>PairingAccess\<close>); codes are unlike, stand for one sender for one hour, can be used
    once, and approving one lets its sender in (\<open>PairingRequestProps\<close>). Sessions are isolated by their keys under
    the scope for accounts, channels and peers (\<open>SessionKeyProps\<close>); the indexes over the bindings agree with reading the bindings one by one
    (\<open>RoutingProps\<close>), and so do the caches, in every sequence of calls that their keys tell apart (\<open>RouteCaches\<close>); the agent of an answered
    route is read back from its keys, for names of agents that are not cut (\<open>RouteSessions\<close>). The locale
    \<open>memo\<close> says what a cache promises, and is interpreted for a map that keeps and for one that is
    cleared at its limit.
  \<^item> Scheduled jobs. The jobs in flight stay marked in memory and in the file through every operation
    (\<open>CronKeep\<close>), so that no job runs twice at a time along runs of \<open>calm\<close> inputs (\<open>CronProps\<close>); what \<open>calm\<close> asks for
    is what the code does not ensure, and \<open>disabled_job_runs_twice\<close> and \<open>schedule_errors_lose_the_mark\<close> show cases. Looking at the jobs and applying
    results loses no due run, but adding a job may; failed jobs wait, one-shot jobs are tried a bounded number of
    times, pages of the list cover it as long as the walks of the calls leave the jobs alone (\<open>CronPages\<close>), a refused change does not reach the file, and an interrupted one-shot job is run again (\<open>CronResultProps\<close>).

  \<^bold>\<open>Bounds.\<close> Two loops of the code are bounded by two attempts and are unfolded as recursions over a
  counter: \<open>cancelFlowAttempts\<close> and \<open>finalize_attempts\<close>. Every other recursion of the model is
  structural, except the scanners of strings and \<open>run_frames\<close>, which have their measures; the loop of
  the queue needs no fuel, as the number of waiting commands and frames bounds it.

  \<^bold>\<open>Not modelled\<close>, in the parts above: table creation and migration other than that of owners, file
  permissions and connections of SQLite; observers and the cloning of records (a HOL value is not
  shared); logging and metrics; the lazy loading of modules; resets that only tests call; properties
  inherited from prototypes. SQL is its effect on a table of rows; a failing statement or a full disk
  is not considered. A flow maintenance run is atomic, as its code has no await between two flows. An
  identifier of a task or flow comes from \<open>crypto.randomUUID\<close>, so that it is fresh is a hypothesis
  where a theorem needs it. Of the device files: that JSON gives back what was written, the file
  system and the lock between them, keys that are integers (which JavaScript would order first);
  the clock does not advance within one operation. Of the files of paired senders the same; that the writes of
  a file give it different stamps is a hypothesis (\<open>stamps_differ\<close>), as are that
  a sender is read back as it was written (\<open>settled\<close>) and that channels in use have files of their own (\<open>channels_ok\<close>); of
  each a lemma or a finding shows that the code does not ensure it. An
  approval, which takes two locks and writes two files, is one step. Of scheduled jobs: the repair of jobs as they are
  loaded (the file holds jobs in their normal form), the queue in front of manual runs, run logs, the
  sweep of old sessions, the execution of a job, and the caches of parsed expressions and offsets. Numbers that are
  not finite or no integers do not occur.

  \<^bold>\<open>Not modelled\<close>, of the rest of the repository: the agent runner, the gateway server beyond its
  authentication and devices (message handlers, HTTP routes, bind hosts, the credentials of remote
  clients, signatures of devices), the
  channels and extensions with what they know of senders and mentions, numbers as identifiers of peers, the rest of the configuration, user interfaces and native
  applications. They call the task subsystem; the model covers whatever calls they make, in any order.
\<close>

end
